(* ===== verification/Prelude.thy ===== *)
theory Prelude
  imports Complex_Main "HOL-Library.Word" "HOL-Library.AList"
begin

text \<open>
  What every component of the arbiter shares: the names of the machine types, the part of
  Rust's string library the wire protocol is written with (white-space tokens, trimming,
  integer parsing and printing, percent and quote escapes), the in-place list updates that
  \<open>iter_mut().find(..)\<close> makes, and the collections of facts the component proofs
  use.

  A Rust \<open>String\<close> is modelled by its UTF-8 bytes, one \<open>char\<close> for each byte,
  because the code slices, searches and prints by bytes.  The functions that look at code
  points (\<open>split_whitespace\<close>, \<open>trim\<close>) recognise the multi-byte encodings of
  the Unicode white space.
\<close>

section \<open>Machine types\<close>

type_synonym pid = int      \<comment> \<open>an \<open>i32\<close>: parsed, compared and printed, never computed with\<close>
type_synonym u8 = "8 word"
type_synonym u32 = "32 word"
type_synonym u64 = "64 word"
type_synonym instant = nat  \<comment> \<open>a monotonic or wall clock reading, in nanoseconds\<close>

text \<open>The facts about one component's operations, for the proofs about the others.\<close>

named_theorems frame_simps \<open>fields an operation leaves alone\<close>
named_theorems inv_intros \<open>operations that keep an invariant\<close>

section \<open>Lists\<close>

text \<open>\<open>xs.iter_mut().find(p).map(f)\<close>: only the first match is updated.\<close>

fun upd_first :: "('a \<Rightarrow> bool) \<Rightarrow> ('a \<Rightarrow> 'a) \<Rightarrow> 'a list \<Rightarrow> 'a list" where
  "upd_first P f [] = []"
| "upd_first P f (x # xs) = (if P x then f x # xs else x # upd_first P f xs)"

text \<open>\<open>xs.iter().position(p)\<close> followed by \<open>xs.remove(i)\<close>.\<close>

fun take_first :: "('a \<Rightarrow> bool) \<Rightarrow> 'a list \<Rightarrow> ('a \<times> 'a list) option" where
  "take_first P [] = None"
| "take_first P (x # xs) =
     (if P x then Some (x, xs) else map_option (\<lambda>(y, ys). (y, x # ys)) (take_first P xs))"

lemma length_upd_first [simp]: "length (upd_first P f xs) = length xs"
  by (induction xs) auto

lemma upd_first_id: "\<not> (\<exists>x \<in> set xs. P x) \<Longrightarrow> upd_first P f xs = xs"
  by (induction xs) auto

lemma map_upd_first [simp]: "(\<And>x. P x \<Longrightarrow> g (f x) = g x) \<Longrightarrow> map g (upd_first P f xs) = map g xs"
  by (induction xs) auto

lemma set_upd_first_subset: "set (upd_first P f xs) \<subseteq> set xs \<union> f ` {x \<in> set xs. P x}"
  by (induction xs) auto

lemma upd_first_distinct:
  "distinct (map k xs) \<Longrightarrow> (\<And>x. P x \<longleftrightarrow> k x = a) \<Longrightarrow>
   upd_first P f xs = map (\<lambda>x. if P x then f x else x) xs"
proof (induction xs)
  case Nil
  then show ?case by simp
next
  case (Cons x xs)
  show ?case
  proof (cases "P x")
    case True
    then have "\<forall>y \<in> set xs. \<not> P y"
      using Cons.prems by (force simp: image_iff)
    with True show ?thesis by (simp add: map_idI)
  next
    case False
    with Cons show ?thesis by simp
  qed
qed

lemma find_upd_first_other:
  "(\<And>x. P x \<Longrightarrow> \<not> Q x \<and> \<not> Q (f x)) \<Longrightarrow> find Q (upd_first P f xs) = find Q xs"
  by (induction xs) auto

lemma find_upd_first_same:
  "(\<And>x. P x \<Longrightarrow> P (f x)) \<Longrightarrow> find P (upd_first P f xs) = map_option f (find P xs)"
  by (induction xs) auto

lemma take_first_None_iff [simp]: "take_first P xs = None \<longleftrightarrow> \<not> (\<exists>x \<in> set xs. P x)"
  by (induction xs) auto

lemma take_first_SomeD:
  "take_first P xs = Some (y, ys) \<Longrightarrow> P y \<and> (\<exists>us vs. xs = us @ y # vs \<and> ys = us @ vs \<and> (\<forall>u \<in> set us. \<not> P u))"
proof (induction xs arbitrary: ys)
  case Nil
  then show ?case by simp
next
  case (Cons x xs)
  show ?case
  proof (cases "P x")
    case True
    with Cons.prems show ?thesis by force
  next
    case False
    with Cons.prems obtain zs where z: "take_first P xs = Some (y, zs)" "ys = x # zs"
      by auto
    from Cons.IH[OF z(1)] obtain us vs where
      "P y" "xs = us @ y # vs" "zs = us @ vs" "\<forall>u \<in> set us. \<not> P u"
      by blast
    with False z(2) show ?thesis
      by (intro conjI exI[of _ "x # us"] exI[of _ vs]) auto
  qed
qed

lemma find_None_iff2: "find P xs = None \<longleftrightarrow> (\<forall>x \<in> set xs. \<not> P x)"
  by (induction xs) auto

lemma find_SomeD: "find P xs = Some x \<Longrightarrow> x \<in> set xs \<and> P x"
  by (auto simp: find_Some_iff)

lemma find_append: "find P (xs @ ys) = (case find P xs of None \<Rightarrow> find P ys | Some x \<Rightarrow> Some x)"
  by (induction xs) auto

lemma find_filter_True: "(\<And>x. P x \<Longrightarrow> Q x) \<Longrightarrow> find P (filter Q xs) = find P xs"
  by (induction xs) auto

lemma distinct_map_filter2 [simp]: "distinct (map f xs) \<Longrightarrow> distinct (map f (filter P xs))"
  by (rule distinct_map_filter)

section \<open>Characters and white space\<close>

abbreviation byte :: "char \<Rightarrow> nat" where
  "byte c \<equiv> of_char c"

text \<open>
  The bytes the Unicode white-space character at the head of the string takes, 0 when the
  string does not start with one (\<open>char::is_whitespace\<close>).
\<close>

definition ws_len :: "string \<Rightarrow> nat" where
  "ws_len s = (case s of [] \<Rightarrow> 0 | c # cs \<Rightarrow>
     (if 9 \<le> byte c \<and> byte c \<le> 13 \<or> byte c = 32 then 1
      else if byte c = 0xC2 then
        (case cs of d # _ \<Rightarrow> if byte d = 0x85 \<or> byte d = 0xA0 then 2 else 0 | _ \<Rightarrow> 0)
      else if byte c = 0xE1 then
        (case cs of d # e # _ \<Rightarrow> if byte d = 0x9A \<and> byte e = 0x80 then 3 else 0 | _ \<Rightarrow> 0)
      else if byte c = 0xE2 then
        (case cs of d # e # _ \<Rightarrow>
           if byte d = 0x80 \<and> (0x80 \<le> byte e \<and> byte e \<le> 0x8A \<or> byte e = 0xA8 \<or> byte e = 0xA9 \<or> byte e = 0xAF)
             \<or> byte d = 0x81 \<and> byte e = 0x9F
           then 3 else 0 | _ \<Rightarrow> 0)
      else if byte c = 0xE3 then
        (case cs of d # e # _ \<Rightarrow> if byte d = 0x80 \<and> byte e = 0x80 then 3 else 0 | _ \<Rightarrow> 0)
      else 0))"

text \<open>\<open>str::split_whitespace\<close>; \<open>cur\<close> is the token being read.\<close>

fun split_ws_from :: "string \<Rightarrow> string \<Rightarrow> string list" where
  "split_ws_from cur [] = (if cur = [] then [] else [cur])"
| "split_ws_from cur (c # cs) =
     (let n = ws_len (c # cs) in
      if n = 0 then split_ws_from (cur @ [c]) cs
      else if cur = [] then split_ws_from [] (drop (n - 1) cs)
      else cur # split_ws_from [] (drop (n - 1) cs))"

definition split_ws :: "string \<Rightarrow> string list" where
  "split_ws s = split_ws_from [] s"

text \<open>\<open>str::trim\<close>, in its two halves.\<close>

fun trim_start :: "string \<Rightarrow> string" where
  "trim_start [] = []"
| "trim_start (c # cs) =
     (let n = ws_len (c # cs) in if n = 0 then c # cs else trim_start (drop (n - 1) cs))"

fun all_ws :: "string \<Rightarrow> bool" where
  "all_ws [] = True"
| "all_ws (c # cs) = (let n = ws_len (c # cs) in n \<noteq> 0 \<and> all_ws (drop (n - 1) cs))"

fun trim_end :: "string \<Rightarrow> string" where
  "trim_end [] = []"
| "trim_end (c # cs) = (if all_ws (c # cs) then [] else c # trim_end cs)"

definition trim :: "string \<Rightarrow> string" where
  "trim s = trim_end (trim_start s)"

end
