(* ===== verification/Wire.thy ===== *)
theory Wire
  imports Prelude
begin

text \<open>
  The text layer of the arbiter's line protocol: printing and parsing of integers
  (\<open>format!("{n}")\<close> and \<open>str::parse\<close>), the searching and splitting functions
  of \<open>str\<close>, the \<open>{:?}\<close> escapes of error replies, lossy UTF-8 decoding, and
  the percent encoding that carries free text through white-space separated lines.
\<close>

section \<open>Integers\<close>

definition digit_char :: "nat \<Rightarrow> char" where
  "digit_char d = char_of (48 + d)"

definition digit_val :: "char \<Rightarrow> nat option" where
  "digit_val c = (if 48 \<le> byte c \<and> byte c \<le> 57 then Some (byte c - 48) else None)"

fun show_nat :: "nat \<Rightarrow> string" where
  "show_nat n = (if n < 10 then [digit_char n] else show_nat (n div 10) @ [digit_char (n mod 10)])"

declare show_nat.simps [simp del]

definition show_int :: "int \<Rightarrow> string" where
  "show_int i = (if i < 0 then CHR ''-'' # show_nat (nat (- i)) else show_nat (nat i))"

definition show_u32 :: "u32 \<Rightarrow> string" where
  "show_u32 w = show_nat (unat w)"

definition show_i32 :: "u32 \<Rightarrow> string" where
  "show_i32 w = show_int (sint w)"

definition show_u64 :: "u64 \<Rightarrow> string" where
  "show_u64 w = show_nat (unat w)"

definition show_bool :: "bool \<Rightarrow> string" where
  "show_bool b = (if b then ''true'' else ''false'')"

text \<open>\<open>b as u8\<close> for a \<open>bool\<close>, printed.\<close>

definition show_bit :: "bool \<Rightarrow> string" where
  "show_bit b = (if b then ''1'' else ''0'')"

fun read_digits :: "nat \<Rightarrow> string \<Rightarrow> nat option" where
  "read_digits acc [] = Some acc"
| "read_digits acc (c # cs) =
     (case digit_val c of None \<Rightarrow> None | Some d \<Rightarrow> read_digits (10 * acc + d) cs)"

text \<open>
  \<open>parse\<close> of an unsigned \<open>w\<close>-bit integer: an optional plus sign, at least one
  digit, only digits, no overflow.
\<close>

definition parse_unsigned :: "nat \<Rightarrow> string \<Rightarrow> nat option" where
  "parse_unsigned w s =
     (let d = (case s of [] \<Rightarrow> [] | c # cs \<Rightarrow> if c = CHR ''+'' then cs else s) in
      if d = [] then None
      else case read_digits 0 d of None \<Rightarrow> None
           | Some n \<Rightarrow> if n < 2 ^ w then Some n else None)"

definition parse_u32 :: "string \<Rightarrow> u32 option" where
  "parse_u32 s = map_option of_nat (parse_unsigned 32 s)"

definition parse_u64 :: "string \<Rightarrow> u64 option" where
  "parse_u64 s = map_option of_nat (parse_unsigned 64 s)"

definition parse_signed :: "nat \<Rightarrow> string \<Rightarrow> int option" where
  "parse_signed w s =
     (let (neg, d) = (case s of [] \<Rightarrow> (False, [])
                      | c # cs \<Rightarrow> if c = CHR ''-'' then (True, cs)
                                else if c = CHR ''+'' then (False, cs) else (False, s)) in
      if d = [] then None
      else case read_digits 0 d of None \<Rightarrow> None
           | Some n \<Rightarrow> (let i = (if neg then - int n else int n) in
                      if - (2 ^ (w - 1)) \<le> i \<and> i < 2 ^ (w - 1) then Some i else None))"

definition parse_i32 :: "string \<Rightarrow> int option" where
  "parse_i32 s = parse_signed 32 s"

lemma byte_digit_char [simp]: "d < 10 \<Longrightarrow> byte (digit_char d) = 48 + d"
  by (simp add: digit_char_def)

lemma digit_val_digit_char [simp]: "d < 10 \<Longrightarrow> digit_val (digit_char d) = Some d"
  by (simp add: digit_val_def)

lemma digit_char_neq [simp]:
  "d < 10 \<Longrightarrow> digit_char d \<noteq> CHR ''+''" "d < 10 \<Longrightarrow> digit_char d \<noteq> CHR ''-''"
  by (auto dest: arg_cong[of _ _ "of_char :: char \<Rightarrow> nat"])

lemma read_digits_append:
  "read_digits acc (s @ t) = (case read_digits acc s of None \<Rightarrow> None | Some n \<Rightarrow> read_digits n t)"
  by (induction s arbitrary: acc) (auto split: option.splits)

lemma show_nat_not_Nil [simp]: "show_nat n \<noteq> []"
  by (subst show_nat.simps) simp

lemma read_digits_show_nat [simp]: "read_digits 0 (show_nat n) = Some n"
proof (induction n rule: show_nat.induct)
  case (1 n)
  show ?case
  proof (cases "n < 10")
    case True
    then show ?thesis by (simp add: show_nat.simps[of n])
  next
    case False
    with 1 show ?thesis
      by (subst show_nat.simps) (simp add: read_digits_append)
  qed
qed

lemma set_show_nat: "c \<in> set (show_nat n) \<Longrightarrow> \<exists>d < 10. c = digit_char d"
proof (induction n rule: show_nat.induct)
  case (1 n)
  show ?case
  proof (cases "n < 10")
    case True
    with 1 show ?thesis by (auto simp: show_nat.simps[of n])
  next
    case False
    with 1 show ?thesis by (subst (asm) (2) show_nat.simps) (auto intro: exI[of _ "n mod 10"])
  qed
qed

lemma hd_show_nat [simp]: "\<exists>d < 10. hd (show_nat n) = digit_char d"
  using set_show_nat[of "hd (show_nat n)" n] by simp

lemma show_nat_Cons: "show_nat n = c # cs \<Longrightarrow> c \<noteq> CHR ''+'' \<and> c \<noteq> CHR ''-''"
  using hd_show_nat[of n] by auto

lemma parse_unsigned_show_nat:
  assumes "n < 2 ^ w"
  shows "parse_unsigned w (show_nat n) = Some n"
proof -
  obtain c cs where c: "show_nat n = c # cs"
    by (cases "show_nat n") auto
  have "read_digits 0 (c # cs) = Some n"
    using read_digits_show_nat[of n] c by simp
  with assms show_nat_Cons[OF c] c show ?thesis
    by (simp add: parse_unsigned_def del: read_digits.simps)
qed

lemma unat_u32_less: "unat (w :: u32) < 2 ^ 32"
  using unsigned_less[of w, where 'a = nat] by simp

lemma unat_u64_less: "unat (w :: u64) < 2 ^ 64"
  using unsigned_less[of w, where 'a = nat] by simp

lemma parse_u32_show [simp]: "parse_u32 (show_u32 w) = Some w"
  using parse_unsigned_show_nat[OF unat_u32_less] by (simp add: parse_u32_def show_u32_def)

lemma parse_u64_show [simp]: "parse_u64 (show_u64 w) = Some w"
  using parse_unsigned_show_nat[OF unat_u64_less] by (simp add: parse_u64_def show_u64_def)

lemma show_nat_inj: "show_nat m = show_nat n \<Longrightarrow> m = n"
  by (metis option.inject read_digits_show_nat)

lemma parse_i32_show_int:
  assumes "- (2 ^ 31) \<le> i" "i < 2 ^ 31"
  shows "parse_i32 (show_int i) = Some i"
proof (cases "i < 0")
  case True
  then show ?thesis using assms
    by (simp add: parse_i32_def parse_signed_def show_int_def)
next
  case False
  obtain c cs where c: "show_nat (nat i) = c # cs"
    by (cases "show_nat (nat i)") auto
  have "read_digits 0 (c # cs) = Some (nat i)"
    using read_digits_show_nat[of "nat i"] c by simp
  with False assms show_nat_Cons[OF c] c show ?thesis
    by (simp add: parse_i32_def parse_signed_def show_int_def del: read_digits.simps)
qed

section \<open>Searching and splitting\<close>

text \<open>\<open>hay.find(needle)\<close>: the byte index of the first occurrence.\<close>

fun starts_with :: "string \<Rightarrow> string \<Rightarrow> bool" where
  "starts_with [] s = True"
| "starts_with (p # ps) [] = False"
| "starts_with (p # ps) (c # cs) = (p = c \<and> starts_with ps cs)"

fun find_sub :: "string \<Rightarrow> string \<Rightarrow> nat option" where
  "find_sub p [] = (if p = [] then Some 0 else None)"
| "find_sub p (c # cs) = (if starts_with p (c # cs) then Some 0 else map_option Suc (find_sub p cs))"

definition strip_prefix :: "string \<Rightarrow> string \<Rightarrow> string option" where
  "strip_prefix p s = (if starts_with p s then Some (drop (length p) s) else None)"

text \<open>\<open>s.find(pred)\<close> on single-byte predicates.\<close>

fun find_char :: "(char \<Rightarrow> bool) \<Rightarrow> string \<Rightarrow> nat option" where
  "find_char P [] = None"
| "find_char P (c # cs) = (if P c then Some 0 else map_option Suc (find_char P cs))"

text \<open>\<open>s.split(c)\<close>: the pieces between the separators, one more than there are.\<close>

fun split_char :: "char \<Rightarrow> string \<Rightarrow> string list" where
  "split_char d [] = [[]]"
| "split_char d (c # cs) =
     (if c = d then [] # split_char d cs
      else case split_char d cs of [] \<Rightarrow> [[c]] | p # ps \<Rightarrow> (c # p) # ps)"

definition split_once :: "char \<Rightarrow> string \<Rightarrow> (string \<times> string) option" where
  "split_once d s = map_option (\<lambda>i. (take i s, drop (Suc i) s)) (find_char (\<lambda>c. c = d) s)"

text \<open>\<open>s.splitn(n, c)\<close>: at most \<open>n\<close> pieces, the last one unsplit.\<close>

fun splitn :: "nat \<Rightarrow> char \<Rightarrow> string \<Rightarrow> string list" where
  "splitn 0 d s = []"
| "splitn (Suc 0) d s = [s]"
| "splitn (Suc (Suc n)) d s =
     (case split_once d s of None \<Rightarrow> [s] | Some (a, b) \<Rightarrow> a # splitn (Suc n) d b)"

definition replace_char :: "char \<Rightarrow> string \<Rightarrow> string \<Rightarrow> string" where
  "replace_char d t s = concat (map (\<lambda>c. if c = d then t else [c]) s)"

text \<open>\<open>toks.get(i)\<close>.\<close>

definition nth_opt :: "'a list \<Rightarrow> nat \<Rightarrow> 'a option" where
  "nth_opt xs i = (if i < length xs then Some (xs ! i) else None)"

text \<open>\<open>xs.join(sep)\<close>.\<close>

fun join :: "string \<Rightarrow> string list \<Rightarrow> string" where
  "join sep [] = []"
| "join sep [x] = x"
| "join sep (x # y # ys) = x @ sep @ join sep (y # ys)"

lemma starts_with_append [simp]: "starts_with p (p @ s)"
  by (induction p) auto

lemma starts_with_iff: "starts_with p s \<longleftrightarrow> (\<exists>t. s = p @ t)"
  by (induction p s rule: starts_with.induct) auto

lemma find_char_None_iff [simp]: "find_char P s = None \<longleftrightarrow> (\<forall>c \<in> set s. \<not> P c)"
  by (induction s) auto

lemma find_char_append:
  "\<forall>c \<in> set a. \<not> P c \<Longrightarrow> P d \<Longrightarrow> find_char P (a @ d # b) = Some (length a)"
  by (induction a) auto

lemma split_char_not_Nil [simp]: "split_char d s \<noteq> []"
  by (induction s) (auto split: list.split)

lemma split_char_none: "d \<notin> set s \<Longrightarrow> split_char d s = [s]"
  by (induction s) auto

lemma split_char_append: "d \<notin> set a \<Longrightarrow> split_char d (a @ d # b) = a # split_char d b"
  by (induction a) auto

section \<open>White-space tokens\<close>

text \<open>A byte that is neither white space nor a part of a multi-byte white-space character.\<close>

definition plain :: "char \<Rightarrow> bool" where
  "plain c \<longleftrightarrow> 32 < byte c \<and> byte c < 128"

definition token :: "string \<Rightarrow> bool" where
  "token s \<longleftrightarrow> s \<noteq> [] \<and> (\<forall>c \<in> set s. plain c)"

lemma ws_len_plain [simp]: "plain c \<Longrightarrow> ws_len (c # cs) = 0"
  by (simp add: ws_len_def plain_def)

lemma ws_len_space [simp]: "ws_len (CHR '' '' # cs) = Suc 0"
  by (simp add: ws_len_def)

lemma split_ws_from_plain:
  "\<forall>c \<in> set t. plain c \<Longrightarrow> split_ws_from cur (t @ s) = split_ws_from (cur @ t) s"
  by (induction t arbitrary: cur) auto

lemma split_ws_Nil [simp]: "split_ws [] = []"
  by (simp add: split_ws_def)

lemma split_ws_token [simp]: "token t \<Longrightarrow> split_ws t = [t]"
  using split_ws_from_plain[of t "[]" "[]"] by (simp add: split_ws_def token_def)

lemma split_ws_token_Cons [simp]: "token t \<Longrightarrow> split_ws (t @ CHR '' '' # s) = t # split_ws s"
  by (auto simp: split_ws_def token_def split_ws_from_plain)

lemma token_show_nat [simp]: "token (show_nat n)"
  by (auto simp: token_def plain_def dest: set_show_nat)

lemma token_show_int [simp]: "token (show_int i)"
  using token_show_nat[of "nat i"] token_show_nat[of "nat (- i)"]
  by (simp add: show_int_def token_def plain_def)

lemma trim_token [simp]:
  assumes "token t"
  shows "trim t = t"
proof -
  have "\<forall>c \<in> set s. plain c \<Longrightarrow> trim_end s = s" for s
    by (induction s) auto
  then show ?thesis using assms by (cases t) (auto simp: trim_def token_def)
qed

text \<open>A plain character is not swallowed by the white space before it, so trimming stops at it.\<close>

lemma ws_len_cases:
  assumes "ws_len (x # xs) \<noteq> 0"
  shows "ws_len (x # xs) = 1 \<and> byte x \<le> 32
    \<or> ws_len (x # xs) = 2 \<and> 128 \<le> byte x \<and> (\<exists>d ds. xs = d # ds \<and> 128 \<le> byte d)
    \<or> ws_len (x # xs) = 3 \<and> 128 \<le> byte x \<and> (\<exists>d e es. xs = d # e # es \<and> 128 \<le> byte d \<and> 128 \<le> byte e)"
proof -
  have head: "b \<in> {0xC2, 0xE1, 0xE2, 0xE3}" if "\<not> (9 \<le> b \<and> b \<le> 13 \<or> b = 32)" "b = byte x" for b
    using assms that by (simp add: ws_len_def split: if_splits)
  show ?thesis
  proof (cases "9 \<le> byte x \<and> byte x \<le> 13 \<or> byte x = 32")
    case True
    then show ?thesis by (auto simp: ws_len_def)
  next
    case False
    then consider "byte x = 0xC2" | "byte x = 0xE1" | "byte x = 0xE2" | "byte x = 0xE3"
      using head[OF _ refl] by auto
    then show ?thesis
      using assms by cases (auto simp: ws_len_def split: list.splits if_splits)
  qed
qed

lemma ws_len_keeps_plain:
  assumes "plain c" "c \<in> set (x # xs)" "ws_len (x # xs) \<noteq> 0"
  shows "c \<in> set (drop (ws_len (x # xs) - 1) xs)"
  using ws_len_cases[OF assms(3)] assms(1,2) by (auto simp: plain_def)

lemma all_ws_plain: "plain c \<Longrightarrow> c \<in> set s \<Longrightarrow> \<not> all_ws s"
proof (induction s rule: all_ws.induct)
  case (2 x xs)
  show ?case
  proof (cases "ws_len (x # xs) = 0")
    case False
    with 2 ws_len_keeps_plain[OF 2(2,3) False] show ?thesis by (simp add: Let_def)
  qed simp
qed simp

lemma trim_end_plain: "plain c \<Longrightarrow> trim_end (s @ [c]) = s @ [c]"
proof (induction s)
  case Nil
  then show ?case using all_ws_plain[of c "[c]"] by (simp del: all_ws.simps)
next
  case (Cons x s)
  then show ?case using all_ws_plain[of c "x # s @ [c]"] by (simp del: all_ws.simps)
qed

lemma trim_plain_ends:
  assumes "plain (hd s)" "plain (last s)" "s \<noteq> []"
  shows "trim s = s"
proof -
  have "trim_start s = s"
    using assms(1,3) by (cases s) simp_all
  moreover have "trim_end s = s"
    using trim_end_plain[OF assms(2), of "butlast s"] assms(3) by simp
  ultimately show ?thesis by (simp add: trim_def)
qed

section \<open>Escapes in error replies\<close>

definition hex_digit_lower :: "nat \<Rightarrow> char" where
  "hex_digit_lower n = (if n < 10 then char_of (48 + n) else char_of (87 + n))"

fun show_hex :: "nat \<Rightarrow> string" where
  "show_hex n = (if n < 16 then [hex_digit_lower n] else show_hex (n div 16) @ [hex_digit_lower (n mod 16)])"

declare show_hex.simps [simp del]

text \<open>
  \<open>{:?}\<close> of a string.  The control characters of ASCII are escaped as Rust does;
  bytes of non-ASCII characters are copied, which is what Rust prints for the printable
  ones.
\<close>

definition debug_char :: "char \<Rightarrow> string" where
  "debug_char c =
     (if c = CHR 0x22 then [CHR 0x5C, CHR 0x22]
      else if c = CHR 0x5C then [CHR 0x5C, CHR 0x5C]
      else if byte c = 0 then [CHR 0x5C, CHR ''0'']
      else if byte c = 9 then [CHR 0x5C, CHR ''t'']
      else if byte c = 10 then [CHR 0x5C, CHR ''n'']
      else if byte c = 13 then [CHR 0x5C, CHR ''r'']
      else if byte c < 32 \<or> byte c = 127
        then [CHR 0x5C, CHR ''u'', CHR 0x7B] @ show_hex (byte c) @ [CHR 0x7D]
      else [c])"

definition str_debug :: "string \<Rightarrow> string" where
  "str_debug s = CHR 0x22 # concat (map debug_char s) @ [CHR 0x22]"

definition opt_debug :: "string option \<Rightarrow> string" where
  "opt_debug o' = (case o' of None \<Rightarrow> ''None'' | Some s \<Rightarrow> ''Some('' @ str_debug s @ '')'')"

section \<open>Lossy UTF-8\<close>

definition cont :: "nat \<Rightarrow> bool" where
  "cont b \<longleftrightarrow> 0x80 \<le> b \<and> b \<le> 0xBF"

text \<open>
  The head of a byte string as \<open>from_utf8_lossy\<close> reads it: whether it is a well
  formed character, and how many bytes it is, or the ill-formed piece.
\<close>

definition utf8_head :: "nat list \<Rightarrow> bool \<times> nat" where
  "utf8_head bs =
     (let b0 = bs ! 0; nb = (\<lambda>i. if i < length bs then bs ! i else 0); b1 = nb 1; b2 = nb 2; b3 = nb 3 in
      if b0 < 0x80 then (True, 1)
      else if 0xC2 \<le> b0 \<and> b0 \<le> 0xDF then (if cont b1 then (True, 2) else (False, 1))
      else if 0xE0 \<le> b0 \<and> b0 \<le> 0xEF then
        (if b0 = 0xE0 \<and> 0xA0 \<le> b1 \<and> b1 \<le> 0xBF \<or> 0xE1 \<le> b0 \<and> b0 \<le> 0xEC \<and> cont b1
            \<or> b0 = 0xED \<and> 0x80 \<le> b1 \<and> b1 \<le> 0x9F \<or> 0xEE \<le> b0 \<and> cont b1
         then (if cont b2 then (True, 3) else (False, 2))
         else (False, 1))
      else if 0xF0 \<le> b0 \<and> b0 \<le> 0xF4 then
        (if b0 = 0xF0 \<and> 0x90 \<le> b1 \<and> b1 \<le> 0xBF \<or> 0xF1 \<le> b0 \<and> b0 \<le> 0xF3 \<and> cont b1
            \<or> b0 = 0xF4 \<and> 0x80 \<le> b1 \<and> b1 \<le> 0x8F
         then (if cont b2 then (if cont b3 then (True, 4) else (False, 3)) else (False, 2))
         else (False, 1))
      else (False, 1))"

definition replacement :: string where
  "replacement = [CHR 0xEF, CHR 0xBF, CHR 0xBD]"

fun utf8_lossy :: "string \<Rightarrow> string" where
  "utf8_lossy [] = []"
| "utf8_lossy (c # cs) =
     (let (ok, n) = utf8_head (map of_char (c # cs)) in
      (if ok then c # take (n - 1) cs else replacement) @ utf8_lossy (drop (n - 1) cs))"

fun utf8_valid :: "string \<Rightarrow> bool" where
  "utf8_valid [] = True"
| "utf8_valid (c # cs) =
     (let (ok, n) = utf8_head (map of_char (c # cs)) in ok \<and> utf8_valid (drop (n - 1) cs))"

lemma utf8_lossy_valid [simp]: "utf8_valid s \<Longrightarrow> utf8_lossy s = s"
  by (induction s rule: utf8_lossy.induct) (auto split: prod.splits)

lemma utf8_valid_ascii: "\<forall>c \<in> set s. byte c < 128 \<Longrightarrow> utf8_valid s"
  by (induction s) (auto simp: utf8_head_def Let_def)

section \<open>Percent encoding\<close>

definition hex :: "nat \<Rightarrow> char" where
  "hex n = (if n < 10 then char_of (48 + n) else char_of (65 + (n - 10)))"

definition unhex :: "char \<Rightarrow> nat option" where
  "unhex c = (let b = byte c in
     if 48 \<le> b \<and> b \<le> 57 then Some (b - 48)
     else if 97 \<le> b \<and> b \<le> 102 then Some (b - 97 + 10)
     else if 65 \<le> b \<and> b \<le> 70 then Some (b - 65 + 10)
     else None)"

definition ascii_alnum :: "char \<Rightarrow> bool" where
  "ascii_alnum c = (let b = byte c in 48 \<le> b \<and> b \<le> 57 \<or> 65 \<le> b \<and> b \<le> 90 \<or> 97 \<le> b \<and> b \<le> 122)"

definition pct_safe :: "char \<Rightarrow> bool" where
  "pct_safe c \<longleftrightarrow> ascii_alnum c \<or> c = CHR ''-'' \<or> c = CHR ''_'' \<or> c = CHR ''.''"

definition pct_encode :: "string \<Rightarrow> string" where
  "pct_encode s = concat (map (\<lambda>c. if pct_safe c then [c]
                              else [CHR ''%'', hex (byte c div 16), hex (byte c mod 16)]) s)"

fun pct_bytes :: "string \<Rightarrow> string" where
  "pct_bytes (c # h # l # cs) =
     (if c = CHR ''%'' then
        (case (unhex h, unhex l) of
           (Some a, Some b) \<Rightarrow> char_of (16 * a + b) # pct_bytes cs
         | _ \<Rightarrow> c # pct_bytes (h # l # cs))
      else c # pct_bytes (h # l # cs))"
| "pct_bytes (c # cs) = c # pct_bytes cs"
| "pct_bytes [] = []"

definition pct_decode :: "string \<Rightarrow> string" where
  "pct_decode s = utf8_lossy (pct_bytes s)"

lemma unhex_hex [simp]: "n < 16 \<Longrightarrow> unhex (hex n) = Some n"
  by (auto simp: unhex_def hex_def Let_def)

lemma byte_less [simp]: "byte c < 256"
  by (metis nat_of_char_less_256)

lemma pct_bytes_safe: "c \<noteq> CHR ''%'' \<Longrightarrow> pct_bytes (c # s) = c # pct_bytes s"
  by (cases "c # s" rule: pct_bytes.cases) auto

lemma pct_bytes_hex:
  "pct_bytes (CHR ''%'' # hex (byte c div 16) # hex (byte c mod 16) # s) = c # pct_bytes s"
  using byte_less[of c] by (simp add: less_mult_imp_div_less)

lemma pct_safe_not_percent: "pct_safe c \<Longrightarrow> c \<noteq> CHR ''%''"
  by (auto simp: pct_safe_def ascii_alnum_def Let_def)

lemma pct_bytes_encode [simp]: "pct_bytes (pct_encode s) = s"
proof (induction s)
  case Nil
  then show ?case by (simp add: pct_encode_def)
next
  case (Cons c s)
  show ?case
  proof (cases "pct_safe c")
    case True
    with Cons show ?thesis
      using pct_bytes_safe[OF pct_safe_not_percent[OF True]] by (simp add: pct_encode_def)
  next
    case False
    have "pct_encode (c # s) = CHR ''%'' # hex (byte c div 16) # hex (byte c mod 16) # pct_encode s"
      using False by (simp add: pct_encode_def)
    then show ?thesis
      using pct_bytes_hex[of c "pct_encode s"] Cons by (simp del: pct_bytes.simps)
  qed
qed

lemma pct_encode_plain: "c \<in> set (pct_encode s) \<Longrightarrow> plain c"
proof -
  have hex: "plain (hex n)" if "n < 16" for n
    using that by (simp add: plain_def hex_def)
  have "plain d" if "pct_safe d" for d
    using that by (auto simp: pct_safe_def ascii_alnum_def plain_def Let_def)
  moreover have "byte d div 16 < 16" "byte d mod 16 < 16" for d
    using byte_less[of d] by (simp_all add: less_mult_imp_div_less)
  moreover have "plain (CHR ''%'')"
    by (simp add: plain_def)
  moreover assume "c \<in> set (pct_encode s)"
  ultimately show "plain c"
    using hex by (auto simp: pct_encode_def split: if_splits)
qed

end
