(* ===== verification/Floats.thy ===== *)
theory Floats
  imports Wire
begin

text \<open>
  The IEEE binary floats of Rust (\<open>f32\<close>, \<open>f64\<close>) as the exact rational they
  stand for, with a sign so that the two zeros are distinct, and every operation the arbiter
  uses on them: correctly rounded arithmetic (to nearest, ties to even), comparison,
  \<open>round\<close>, \<open>clamp\<close>, \<open>max\<close>, the saturating \<open>as\<close> casts, decimal
  parsing and the two ways of printing (shortest digits that read back, and fixed
  precision).  \<open>log10\<close> is not here: its rounding is unspecified, so the code that
  uses it takes it as a parameter.
\<close>

datatype fp = NaN | Inf bool | Fin bool rat   \<comment> \<open>the \<open>bool\<close> is the sign: True is negative\<close>

text \<open>A format: precision, least exponent (negated) of a unit in the last place, overflow exponent.\<close>

datatype fmt = Fmt (prec: nat) (emin: nat) (emax: nat)

definition f32 :: fmt where "f32 = Fmt 24 149 128"
definition f64 :: fmt where "f64 = Fmt 53 1074 1024"

section \<open>Rounding\<close>

definition powb :: "nat \<Rightarrow> int \<Rightarrow> rat" where
  "powb b k = (if 0 \<le> k then of_nat b ^ nat k else 1 / of_nat b ^ nat (- k))"

fun ilog :: "nat \<Rightarrow> nat \<Rightarrow> nat" where
  "ilog b n = (if b < 2 \<or> n < b then 0 else Suc (ilog b (n div b)))"

declare ilog.simps [simp del]

text \<open>The \<open>k\<close> with \<open>b ^ k \<le> x < b ^ (k + 1)\<close>, for \<open>0 < x\<close>.\<close>

definition flog :: "nat \<Rightarrow> rat \<Rightarrow> int" where
  "flog b x = (let (p, q) = quotient_of x; k = int (ilog b (nat p)) - int (ilog b (nat q))
               in if powb b k \<le> x then k else k - 1)"

definition round_even :: "rat \<Rightarrow> int" where
  "round_even x = (let f = \<lfloor>x\<rfloor>; r = x - of_int f in
     if r < 1 / 2 then f else if 1 / 2 < r then f + 1 else if even f then f else f + 1)"

text \<open>Rounding of a magnitude; \<open>None\<close> is overflow to infinity.\<close>

definition rnd :: "fmt \<Rightarrow> rat \<Rightarrow> rat option" where
  "rnd f x =
     (if x = 0 then Some 0
      else let e = max (flog 2 x - (int (prec f) - 1)) (- int (emin f));
               v = of_int (round_even (x / powb 2 e)) * powb 2 e
           in if powb 2 (int (emax f)) \<le> v then None else Some v)"

definition mk :: "fmt \<Rightarrow> bool \<Rightarrow> rat \<Rightarrow> fp" where
  "mk f s x = (case rnd f x of None \<Rightarrow> Inf s | Some v \<Rightarrow> Fin s v)"

text \<open>A rounded signed value; a zero gets the sign \<open>z\<close>.\<close>

definition mk_signed :: "fmt \<Rightarrow> bool \<Rightarrow> rat \<Rightarrow> fp" where
  "mk_signed f z x = (if x = 0 then Fin z 0 else mk f (x < 0) \<bar>x\<bar>)"

fun val :: "fp \<Rightarrow> rat" where
  "val (Fin s m) = (if s then - m else m)"
| "val _ = 0"

definition fp_of_nat :: "fmt \<Rightarrow> nat \<Rightarrow> fp" where
  "fp_of_nat f n = mk f False (of_nat n)"

definition fp_of_rat :: "fmt \<Rightarrow> rat \<Rightarrow> fp" where
  "fp_of_rat f x = mk_signed f False x"

section \<open>Arithmetic\<close>

fun fneg :: "fp \<Rightarrow> fp" where
  "fneg NaN = NaN"
| "fneg (Inf s) = Inf (\<not> s)"
| "fneg (Fin s m) = Fin (\<not> s) m"

fun fabs :: "fp \<Rightarrow> fp" where
  "fabs NaN = NaN"
| "fabs (Inf s) = Inf False"
| "fabs (Fin s m) = Fin False m"

fun fmul :: "fmt \<Rightarrow> fp \<Rightarrow> fp \<Rightarrow> fp" where
  "fmul f (Fin s a) (Fin t b) = mk f (s \<noteq> t) (a * b)"
| "fmul f (Inf s) (Inf t) = Inf (s \<noteq> t)"
| "fmul f (Inf s) (Fin t b) = (if b = 0 then NaN else Inf (s \<noteq> t))"
| "fmul f (Fin s a) (Inf t) = (if a = 0 then NaN else Inf (s \<noteq> t))"
| "fmul f _ _ = NaN"

fun fdiv :: "fmt \<Rightarrow> fp \<Rightarrow> fp \<Rightarrow> fp" where
  "fdiv f (Fin s a) (Fin t b) =
     (if b = 0 then (if a = 0 then NaN else Inf (s \<noteq> t)) else mk f (s \<noteq> t) (a / b))"
| "fdiv f (Fin s a) (Inf t) = Fin (s \<noteq> t) 0"
| "fdiv f (Inf s) (Fin t b) = Inf (s \<noteq> t)"
| "fdiv f _ _ = NaN"

fun fadd :: "fmt \<Rightarrow> fp \<Rightarrow> fp \<Rightarrow> fp" where
  "fadd f (Fin s a) (Fin t b) = mk_signed f (s \<and> t) (val (Fin s a) + val (Fin t b))"
| "fadd f (Inf s) (Inf t) = (if s = t then Inf s else NaN)"
| "fadd f (Inf s) (Fin t b) = Inf s"
| "fadd f (Fin s a) (Inf t) = Inf t"
| "fadd f _ _ = NaN"

definition fsub :: "fmt \<Rightarrow> fp \<Rightarrow> fp \<Rightarrow> fp" where
  "fsub f a b = fadd f a (fneg b)"

fun flt :: "fp \<Rightarrow> fp \<Rightarrow> bool" where
  "flt (Fin s a) (Fin t b) = (val (Fin s a) < val (Fin t b))"
| "flt (Inf s) (Inf t) = (s \<and> \<not> t)"
| "flt (Inf s) (Fin t b) = s"
| "flt (Fin s a) (Inf t) = (\<not> t)"
| "flt _ _ = False"

fun feq :: "fp \<Rightarrow> fp \<Rightarrow> bool" where
  "feq (Fin s a) (Fin t b) = (val (Fin s a) = val (Fin t b))"
| "feq (Inf s) (Inf t) = (s = t)"
| "feq _ _ = False"

definition fle :: "fp \<Rightarrow> fp \<Rightarrow> bool" where
  "fle a b = (flt a b \<or> feq a b)"

definition fmax :: "fp \<Rightarrow> fp \<Rightarrow> fp" where
  "fmax a b = (if a = NaN then b else if b = NaN then a else if flt a b then b else a)"

definition fclamp :: "fp \<Rightarrow> fp \<Rightarrow> fp \<Rightarrow> fp" where
  "fclamp lo hi x = (let y = (if flt x lo then lo else x) in if flt hi y then hi else y)"

text \<open>\<open>round\<close>: half away from zero.\<close>

fun fround :: "fp \<Rightarrow> fp" where
  "fround (Fin s m) = Fin s (of_int \<lfloor>m + 1 / 2\<rfloor>)"
| "fround x = x"

text \<open>The saturating casts \<open>as u32\<close> and \<open>as i64\<close>.\<close>

fun fp_to_u32 :: "fp \<Rightarrow> u32" where
  "fp_to_u32 NaN = 0"
| "fp_to_u32 (Inf s) = (if s then 0 else - 1)"
| "fp_to_u32 (Fin s m) = (if s then 0 else of_int (min \<lfloor>m\<rfloor> (2 ^ 32 - 1)))"

fun fp_to_i64 :: "fp \<Rightarrow> int" where
  "fp_to_i64 NaN = 0"
| "fp_to_i64 (Inf s) = (if s then - (2 ^ 63) else 2 ^ 63 - 1)"
| "fp_to_i64 (Fin s m) = (if s then max (- \<lfloor>m\<rfloor>) (- (2 ^ 63)) else min \<lfloor>m\<rfloor> (2 ^ 63 - 1))"

section \<open>Text\<close>

definition lower :: "char \<Rightarrow> char" where
  "lower c = (if 65 \<le> byte c \<and> byte c \<le> 90 then char_of (byte c + 32) else c)"

definition is_digit :: "char \<Rightarrow> bool" where
  "is_digit c \<longleftrightarrow> digit_val c \<noteq> None"

text \<open>An unsigned decimal \<open>digits [. digits] [e [sign] digits]\<close>, as the exact rational.\<close>

definition parse_decimal :: "string \<Rightarrow> rat option" where
  "parse_decimal s =
     (let i = takeWhile is_digit s; r = dropWhile is_digit s;
          (fr, r2) = (case r of [] \<Rightarrow> ([], r)
             | c # cs \<Rightarrow> if c = CHR ''.'' then (takeWhile is_digit cs, dropWhile is_digit cs) else ([], r))
      in if i = [] \<and> fr = [] then None
         else case read_digits 0 (i @ fr) of None \<Rightarrow> None | Some m \<Rightarrow>
           (let x = of_nat m / 10 ^ length fr in
            case r2 of [] \<Rightarrow> Some x
            | c # cs \<Rightarrow>
                if lower c = CHR ''e'' then
                  (let (neg, ds) = (case cs of [] \<Rightarrow> (False, []) | d # dr \<Rightarrow>
                        if d = CHR ''-'' then (True, dr) else if d = CHR ''+'' then (False, dr) else (False, cs))
                   in if ds = [] then None
                      else case read_digits 0 ds of None \<Rightarrow> None
                           | Some k \<Rightarrow> Some (if neg then x / 10 ^ k else x * 10 ^ k))
                else None))"

definition parse_fp :: "fmt \<Rightarrow> string \<Rightarrow> fp option" where
  "parse_fp f s =
     (let (neg, d) = (case s of [] \<Rightarrow> (False, []) | c # cs \<Rightarrow>
          if c = CHR ''-'' then (True, cs) else if c = CHR ''+'' then (False, cs) else (False, s));
          l = map lower d
      in if l = ''nan'' then Some NaN
         else if l = ''inf'' \<or> l = ''infinity'' then Some (Inf neg)
         else map_option (mk f neg) (parse_decimal d))"

text \<open>\<open>{:.n}\<close>: the exact value rounded to \<open>n\<close> decimals, ties to even.\<close>

definition pad_left :: "nat \<Rightarrow> string \<Rightarrow> string" where
  "pad_left n s = replicate (n - length s) (CHR ''0'') @ s"

fun show_fixed :: "nat \<Rightarrow> fp \<Rightarrow> string" where
  "show_fixed n NaN = ''NaN''"
| "show_fixed n (Inf s) = (if s then ''-inf'' else ''inf'')"
| "show_fixed n (Fin s m) =
     (let k = nat (round_even (m * 10 ^ n)) in
      (if s then ''-'' else []) @ show_nat (k div 10 ^ n) @
      (if n = 0 then [] else CHR ''.'' # pad_left n (show_nat (k mod 10 ^ n))))"

text \<open>
  \<open>{}\<close>: the fewest significant digits that read back as the same float, the closest
  such decimal, written without an exponent.
\<close>

definition reads_back :: "fmt \<Rightarrow> rat \<Rightarrow> rat \<Rightarrow> bool" where
  "reads_back f m d \<longleftrightarrow> rnd f d = Some m"

fun shortest :: "fmt \<Rightarrow> rat \<Rightarrow> nat \<Rightarrow> nat \<Rightarrow> rat" where
  "shortest f m n 0 = m"
| "shortest f m n (Suc k) =
     (let u = powb 10 (flog 10 m + 1 - int n); lo = of_int \<lfloor>m / u\<rfloor> * u; hi = lo + u in
      if reads_back f m lo \<and> (\<not> reads_back f m hi \<or> m - lo \<le> hi - m) then lo
      else if reads_back f m hi then hi
      else shortest f m (Suc n) k)"

text \<open>The decimal expansion of a decimal fraction, with at most \<open>fuel\<close> places.\<close>

fun places :: "nat \<Rightarrow> rat \<Rightarrow> nat" where
  "places 0 x = 0"
| "places (Suc fuel) x = (if of_int \<lfloor>x\<rfloor> = x then 0 else Suc (places fuel (10 * x)))"

fun show_fp :: "fmt \<Rightarrow> fp \<Rightarrow> string" where
  "show_fp f NaN = ''NaN''"
| "show_fp f (Inf s) = (if s then ''-inf'' else ''inf'')"
| "show_fp f (Fin s m) =
     (let d = (if m = 0 then 0 else shortest f m 1 17); n = places 1100 d;
          k = nat \<lfloor>d * 10 ^ n\<rfloor> in
      (if s then ''-'' else []) @ show_nat (k div 10 ^ n) @
      (if n = 0 then [] else CHR ''.'' # pad_left n (show_nat (k mod 10 ^ n))))"

section \<open>Exactly representable values\<close>

text \<open>
  A value with at most \<open>prec\<close> significant bits above the least unit is its own
  rounding.  This is what makes the dp-to-px arithmetic of the display exact on the
  densities panels have.
\<close>

lemma powb_power_int: "powb b k = of_nat b powi k"
  by (simp add: powb_def power_int_def power_inverse divide_inverse)

lemma powb_pos [simp]: "0 < b \<Longrightarrow> 0 < powb b k"
  by (simp add: powb_def)

lemma ilog_bounds: "2 \<le> b \<Longrightarrow> 0 < n \<Longrightarrow> b ^ ilog b n \<le> n \<and> n < b ^ Suc (ilog b n)"
proof (induction b n rule: ilog.induct)
  case (1 b n)
  show ?case
  proof (cases "n < b")
    case True
    with 1 show ?thesis by (simp add: ilog.simps[of b n])
  next
    case False
    then have "0 < n div b" using "1.prems" by (simp add: div_greater_zero_iff)
    with 1 False have IH: "b ^ ilog b (n div b) \<le> n div b \<and> n div b < b ^ Suc (ilog b (n div b))"
      by simp
    have "b * b ^ ilog b (n div b) \<le> n"
      using IH "1.prems" by (metis less_eq_div_iff_mult_less_eq mult.commute zero_less_numeral order_less_le_trans)
    moreover have "n < b * b ^ Suc (ilog b (n div b))"
      using IH "1.prems" by (metis div_less_iff_less_mult mult.commute zero_less_numeral order_less_le_trans)
    ultimately show ?thesis
      using False "1.prems" by (simp add: ilog.simps[of b n])
  qed
qed

lemma flog_bounds:
  assumes b: "2 \<le> b" and x: "0 < x"
  shows "powb b (flog b x) \<le> x \<and> x < powb b (flog b x + 1)"
proof -
  obtain p q where pq: "quotient_of x = (p, q)"
    by (cases "quotient_of x") auto
  have q: "0 < q" using quotient_of_denom_pos[OF pq] .
  have xpq: "x = of_int p / of_int q" using quotient_of_div[OF pq] .
  have p: "0 < p" using x q by (simp add: xpq zero_less_divide_iff)
  let ?la = "ilog b (nat p)" and ?lb = "ilog b (nat q)"
  let ?B = "of_nat b :: rat"
  have B: "0 < ?B" "1 < ?B" using b by auto
  have P: "b ^ ?la \<le> nat p" "nat p < b ^ Suc ?la" and Q: "b ^ ?lb \<le> nat q" "nat q < b ^ Suc ?lb"
    using ilog_bounds[OF b, of "nat p"] ilog_bounds[OF b, of "nat q"] p q by simp_all
  have P': "?B ^ ?la \<le> of_int p" "of_int p < ?B ^ Suc ?la"
    using P p by (metis of_nat_le_iff of_nat_power of_nat_nat less_imp_le)
      (metis P(2) p of_nat_less_iff of_nat_power of_nat_nat less_imp_le)
  have Q': "?B ^ ?lb \<le> of_int q" "of_int q < ?B ^ Suc ?lb"
    using Q q by (metis of_nat_le_iff of_nat_power of_nat_nat less_imp_le)
      (metis Q(2) q of_nat_less_iff of_nat_power of_nat_nat less_imp_le)
  have up: "x < powb b (int ?la - int ?lb + 1)"
  proof -
    have "x < ?B ^ Suc ?la / ?B ^ ?lb"
      unfolding xpq using P' Q' B p q by (intro frac_less) auto
    also have "\<dots> = powb b (int ?la - int ?lb + 1)"
      using B by (simp add: powb_power_int power_int_diff power_int_add)
    finally show ?thesis .
  qed
  have lo: "powb b (int ?la - int ?lb - 1) \<le> x"
  proof -
    have "powb b (int ?la - int ?lb - 1) = ?B ^ ?la / ?B ^ Suc ?lb"
      using B by (simp add: powb_power_int power_int_diff)
    also have "\<dots> \<le> x"
      unfolding xpq using P' Q' B p q by (intro frac_le) auto
    finally show ?thesis .
  qed
  show ?thesis
    using up lo by (auto simp: flog_def pq Let_def)
qed

lemma powb_less_iff:
  assumes "2 \<le> b"
  shows "powb b i < powb b j \<longleftrightarrow> i < j"
proof -
  have B: "1 < (of_nat b :: rat)" using assms by simp
  show ?thesis
  proof
    assume "powb b i < powb b j"
    then show "i < j"
      using power_int_increasing[of j i "of_nat b :: rat"] B
      by (metis powb_power_int less_imp_le not_less)
  next
    assume "i < j"
    then show "powb b i < powb b j"
      using power_int_strict_increasing[OF _ B] by (simp add: powb_power_int)
  qed
qed

lemma flog_less: "0 < x \<Longrightarrow> x < powb 2 k \<Longrightarrow> flog 2 x < k"
  using flog_bounds[of 2 x] powb_less_iff[of 2 "flog 2 x" k] by simp

lemma round_even_of_int [simp]: "round_even (of_int n) = n"
  by (simp add: round_even_def Let_def)

lemma rnd_exact:
  assumes n: "n < 2 ^ prec f" and e: "- int (emin f) \<le> e"
    and x: "x = of_nat n * powb 2 e" and big: "x < powb 2 (int (emax f))"
  shows "rnd f x = Some x"
proof (cases "n = 0")
  case True
  then show ?thesis by (simp add: x rnd_def)
next
  case False
  then have pos: "0 < x" by (simp add: x)
  have "of_nat n < (2 :: rat) ^ prec f"
    using n by (metis of_nat_less_iff of_nat_numeral of_nat_power)
  then have "x < 2 ^ prec f * powb 2 e"
    by (simp add: x)
  also have "2 ^ prec f * powb 2 e = powb 2 (int (prec f) + e)"
    by (simp add: powb_power_int power_int_add)
  finally have "flog 2 x < int (prec f) + e"
    using pos by (rule flog_less [rotated])
  then have le: "max (flog 2 x - (int (prec f) - 1)) (- int (emin f)) \<le> e" (is "?e \<le> e")
    using e by simp
  have "x / powb 2 ?e = of_nat n * powb 2 (e - ?e)"
    by (simp add: x powb_power_int power_int_diff)
  also have "\<dots> = of_int (int n * 2 ^ nat (e - ?e))"
    using le by (simp add: powb_def)
  finally have "of_int (round_even (x / powb 2 ?e)) = x / powb 2 ?e"
    by (simp only: round_even_of_int)
  moreover have "powb 2 ?e \<noteq> 0"
    by (rule less_imp_neq[OF powb_pos, symmetric]) simp
  ultimately show ?thesis
    using big pos by (simp add: rnd_def Let_def)
qed

lemma rnd_nat:
  assumes "n < 2 ^ prec f" "prec f \<le> emax f"
  shows "rnd f (of_nat n) = Some (of_nat n)"
proof (rule rnd_exact[where e = 0 and n = n])
  have "of_nat n < (2 :: rat) ^ prec f"
    using assms(1) by (metis of_nat_less_iff of_nat_numeral of_nat_power)
  also have "\<dots> \<le> 2 ^ emax f"
    using assms(2) by (simp add: power_increasing)
  finally show "of_nat n < powb 2 (int (emax f))"
    by (simp add: powb_def)
qed (use assms in \<open>auto simp: powb_def\<close>)

lemma fp_of_nat_f32 [simp]: "n < 2 ^ 24 \<Longrightarrow> fp_of_nat f32 n = Fin False (of_nat n)"
  using rnd_nat[of n f32] by (simp add: fp_of_nat_def mk_def f32_def)

lemma flog_eq: "powb 2 k \<le> x \<Longrightarrow> x < powb 2 (k + 1) \<Longrightarrow> flog 2 x = k"
  using flog_bounds[of 2 x] powb_less_iff[of 2 "flog 2 x" "k + 1"] powb_less_iff[of 2 k "flog 2 x + 1"]
    powb_pos[of 2 k] by (smt (verit) le_less_trans less_le_trans numeral_eq_Suc zero_less_Suc order_refl)

text \<open>Rounding at a known exponent, for evaluating constants.\<close>

lemma rnd_at:
  assumes "powb 2 (e + (int (prec f) - 1)) \<le> x" "x < powb 2 (e + int (prec f))" "- int (emin f) \<le> e"
  shows "rnd f x = (let v = of_int (round_even (x / powb 2 e)) * powb 2 e
                    in if powb 2 (int (emax f)) \<le> v then None else Some v)"
proof -
  have "0 < x"
    using less_le_trans[OF powb_pos[of 2] assms(1)] by simp
  moreover have "flog 2 x = e + (int (prec f) - 1)"
    using assms(1,2) by (intro flog_eq) (simp_all add: algebra_simps)
  ultimately show ?thesis
    using assms(3) by (simp add: rnd_def Let_def max_def)
qed

lemma round_even_near:
  assumes "of_int n - 1 / 2 < x" "x < of_int n + 1 / 2"
  shows "round_even x = n"
proof (cases "of_int n \<le> x")
  case True
  then have "\<lfloor>x\<rfloor> = n" using assms by (intro floor_unique) simp_all
  with assms show ?thesis by (simp add: round_even_def Let_def)
next
  case False
  then have "\<lfloor>x\<rfloor> = n - 1" using assms by (intro floor_unique) simp_all
  with assms show ?thesis by (simp add: round_even_def Let_def)
qed

end
