(* ===== verification/Core.thy ===== *)
theory Core
  imports Floats
begin

text \<open>
  The data model of \<open>wandr-arbiter-core\<close>: the enums of the event and effect
  vocabulary, the per-display and arbiter-global state of the \<open>Store\<close>, the
  \<open>Ctx\<close> a handler works with, and the chrome dimensions in dp.

  A \<open>HashMap\<close> is an association list with distinct keys; its order stands for the
  iteration order, which the code leaves open, so no property may depend on it.  Two enums
  share variant names with others (\<open>Role.Foreground\<close> and \<open>Effect.Foreground\<close>,
  \<open>Role.Headless\<close> and \<open>LaunchKind.Headless\<close>), which are written qualified,
  as in the code.
\<close>

section \<open>Enums\<close>

datatype LaunchKind = Gui | GuiOverlay | Headless

definition LaunchKind_as_wire :: "LaunchKind \<Rightarrow> string" where
  "LaunchKind_as_wire k =
     (case k of Gui \<Rightarrow> ''gui'' | GuiOverlay \<Rightarrow> ''gui-overlay'' | Headless \<Rightarrow> ''headless'')"

definition LaunchKind_from_wire :: "string \<Rightarrow> LaunchKind" where
  "LaunchKind_from_wire s =
     (if s = ''gui'' then Gui else if s = ''gui-overlay'' then GuiOverlay else Headless)"

datatype SensorKind = Proximity | Accelerometer | Light | DeviceOrientation

definition SensorKind_as_wire :: "SensorKind \<Rightarrow> string" where
  "SensorKind_as_wire k =
     (case k of Proximity \<Rightarrow> ''proximity'' | Accelerometer \<Rightarrow> ''accelerometer''
        | Light \<Rightarrow> ''light'' | DeviceOrientation \<Rightarrow> ''device-orientation'')"

definition SensorKind_from_wire :: "string \<Rightarrow> SensorKind option" where
  "SensorKind_from_wire s =
     (if s = ''proximity'' then Some Proximity
      else if s = ''accelerometer'' \<or> s = ''accel'' then Some Accelerometer
      else if s = ''light'' then Some Light
      else if s = ''device-orientation'' \<or> s = ''device_orientation'' \<or> s = ''orientation''
        then Some DeviceOrientation
      else None)"

datatype Role = Foreground | OverlayBehind | Overlay | Background | Chrome | Headless | Lockscreen

datatype ChromeAnchor = Top | Bottom

datatype Event =
    DisplayAdded u32
  | PanelMeasured u32 u32 u32 fp
  | OrientationChanged u32 u32
  | InsetsChanged u32 u32 u32
  | ImeHeightChanged u32 u32
  | ForegroundChanged "string option" "pid option"
  | EditorFocusChanged pid bool
  | GeometryRecomputed u32
  | SurfaceRemoved pid
  | AlarmTick u64
  | ScreenState bool
  | CommsActive pid bool
  | VideoCallActive pid bool
  | SensorAcquire SensorKind pid
  | SensorRelease SensorKind pid
  | SensorReading SensorKind fp fp fp u64
  | ProximityChanged bool
  | IdleTick

datatype Effect =
    SetRole pid Role
  | SignalVisible pid bool
  | Launch string LaunchKind
  | Foreground string
  | Kill pid
  | Persist
  | HostLine pid string
  | SetDisplayPower bool
  | SetSensor SensorKind bool u32
  | SetBacklight fp bool

datatype Reply = Ok string | Err string

definition render :: "Reply \<Rightarrow> string" where
  "render r = (case r of Ok s \<Rightarrow> ''OK '' @ s | Err s \<Rightarrow> ''ERR '' @ s)"

fun is_ok :: "Reply \<Rightarrow> bool" where
  "is_ok (Ok s) = True"
| "is_ok (Err s) = False"

lemma LaunchKind_wire_round [simp]: "LaunchKind_from_wire (LaunchKind_as_wire k) = k"
  by (cases k) (simp_all add: LaunchKind_from_wire_def LaunchKind_as_wire_def)

lemma SensorKind_wire_round [simp]: "SensorKind_from_wire (SensorKind_as_wire k) = Some k"
  by (cases k) (simp_all add: SensorKind_from_wire_def SensorKind_as_wire_def)

section \<open>Display geometry\<close>

definition PRIMARY_DISPLAY :: u32 where "PRIMARY_DISPLAY = 0"
definition ORIENT_HOST_OWNED :: u32 where "ORIENT_HOST_OWNED = 255"
definition INSET_HOST_OWNED :: u32 where "INSET_HOST_OWNED = 0xFFFF"
definition STATUS_BAR_DP :: nat where "STATUS_BAR_DP = 38"
definition TASKBAR_DP :: nat where "TASKBAR_DP = 43"

record DisplayGeometry =
  panel_w :: u32
  panel_h :: u32
  density :: fp
  orientation :: u32
  inset_top :: u32
  inset_bottom :: u32
  keyboard_px :: u32
  orientation_locked :: bool
  immersive :: bool

definition DisplayGeometry_default :: DisplayGeometry where
  "DisplayGeometry_default = \<lparr>
     panel_w = 0, panel_h = 0, density = Fin False 0, orientation = ORIENT_HOST_OWNED,
     inset_top = 0, inset_bottom = 0, keyboard_px = 0,
     orientation_locked = False, immersive = False\<rparr>"

definition density_known :: "DisplayGeometry \<Rightarrow> bool" where
  "density_known g = flt (Fin False 0) (density g)"

definition dp_to_px :: "DisplayGeometry \<Rightarrow> nat \<Rightarrow> u32" where
  "dp_to_px g dp =
     (if \<not> density_known g then 0
      else fp_to_u32 (fround (fmul f32 (fp_of_nat f32 dp) (density g))))"

definition chrome_insets :: "DisplayGeometry \<Rightarrow> u32 \<times> u32" where
  "chrome_insets g = (dp_to_px g STATUS_BAR_DP, dp_to_px g TASKBAR_DP)"

section \<open>Surfaces and focus\<close>

record Surface =
  s_pid :: pid
  s_app_id :: string
  s_role :: Role
  s_anchor :: "ChromeAnchor option"

record EditorInfo =
  input_type :: string
  hint :: string
  initial_text :: string
  initial_selection_start :: u32
  initial_selection_end :: u32

datatype ResourceKind = ImeEditor

datatype ResourceFocus = ImeEditor pid EditorInfo

record DisplayState =
  geometry :: DisplayGeometry
  surfaces :: "Surface list"
  focus :: "(ResourceKind \<times> ResourceFocus) list"
  active_ime :: "pid option"

definition DisplayState_default :: DisplayState where
  "DisplayState_default =
     \<lparr>geometry = DisplayGeometry_default, surfaces = [], focus = [], active_ime = None\<rparr>"

section \<open>The store\<close>

record SensorSlot =
  max_range :: fp
  resolution :: fp
  last_x :: fp
  last_y :: fp
  last_z :: fp
  last_ts_ns :: u64
  has_reading :: bool

definition SensorSlot_default :: SensorSlot where
  "SensorSlot_default = \<lparr>
     max_range = Fin False 0, resolution = Fin False 0,
     last_x = Fin False 0, last_y = Fin False 0, last_z = Fin False 0,
     last_ts_ns = 0, has_reading = False\<rparr>"

text \<open>A clock reading: the monotonic clock and the wall clock, in nanoseconds.\<close>

record Clock =
  cl_mono :: instant
  cl_unix :: instant

record AppState =
  a_app_id :: string
  a_pid :: pid
  launched_at :: instant
  launched_mono :: instant

record Alarm =
  al_app_id :: string
  alarm_id :: u64
  next_fire_ms :: u64
  repeat_ms :: u64
  wake_kind :: LaunchKind
  pending_deliver :: bool

record Notification =
  nid :: u64
  n_app_id :: string
  app_notif_id :: u64
  n_title :: string
  n_body :: string

record Store =
  displays :: "(u32 \<times> DisplayState) list"
  apps :: "(string \<times> AppState) list"
  home :: "string option"
  ime_height :: u32
  alarms :: "Alarm list"
  notifications :: "Notification list"
  next_nid :: u64
  sensors :: "(SensorKind \<times> SensorSlot) list"

definition DEFAULT_IME_HEIGHT_PX :: u32 where "DEFAULT_IME_HEIGHT_PX = 1200"

definition Store_new :: Store where
  "Store_new = \<lparr>
     displays = [], apps = [], home = None, ime_height = DEFAULT_IME_HEIGHT_PX,
     alarms = [], notifications = [], next_nid = 0, sensors = []\<rparr>"

definition display :: "Store \<Rightarrow> u32 \<Rightarrow> DisplayState option" where
  "display st i = map_of (displays st) i"

definition or_default :: "'a \<Rightarrow> 'a option \<Rightarrow> 'a" where
  "or_default d x = (case x of None \<Rightarrow> d | Some v \<Rightarrow> v)"

text \<open>\<open>display_mut\<close> followed by an update of what it borrows.\<close>

definition display_mut :: "u32 \<Rightarrow> (DisplayState \<Rightarrow> DisplayState) \<Rightarrow> Store \<Rightarrow> Store" where
  "display_mut i f st =
     st\<lparr>displays := AList.update i (f (or_default DisplayState_default (display st i))) (displays st)\<rparr>"

definition store_geometry :: "Store \<Rightarrow> u32 \<Rightarrow> DisplayGeometry option" where
  "store_geometry st i = map_option geometry (display st i)"

definition geometry_mut :: "u32 \<Rightarrow> (DisplayGeometry \<Rightarrow> DisplayGeometry) \<Rightarrow> Store \<Rightarrow> Store" where
  "geometry_mut i f = display_mut i (\<lambda>d. d\<lparr>geometry := f (geometry d)\<rparr>)"

definition sensor :: "Store \<Rightarrow> SensorKind \<Rightarrow> SensorSlot option" where
  "sensor st k = map_of (sensors st) k"

definition sensor_mut :: "SensorKind \<Rightarrow> (SensorSlot \<Rightarrow> SensorSlot) \<Rightarrow> Store \<Rightarrow> Store" where
  "sensor_mut k f st =
     st\<lparr>sensors := AList.update k (f (or_default SensorSlot_default (sensor st k))) (sensors st)\<rparr>"

definition set_sensor_descriptor :: "SensorKind \<Rightarrow> fp \<Rightarrow> fp \<Rightarrow> Store \<Rightarrow> Store" where
  "set_sensor_descriptor k mr res = sensor_mut k (\<lambda>s. s\<lparr>max_range := mr, resolution := res\<rparr>)"

section \<open>The handler's context\<close>

text \<open>
  \<open>Ctx\<close> borrows the store and holds the two outboxes; \<open>clock\<close> is what
  \<open>Instant::now()\<close> and \<open>SystemTime::now()\<close> return during the call.
\<close>

record Ctx =
  store :: Store
  events :: "Event list"
  effects :: "Effect list"
  clock :: Clock

definition Ctx_new :: "Clock \<Rightarrow> Store \<Rightarrow> Ctx" where
  "Ctx_new cl st = \<lparr>store = st, events = [], effects = [], clock = cl\<rparr>"

definition emit :: "Event \<Rightarrow> Ctx \<Rightarrow> Ctx" where
  "emit e c = c\<lparr>events := events c @ [e]\<rparr>"

definition request :: "Effect \<Rightarrow> Ctx \<Rightarrow> Ctx" where
  "request e c = c\<lparr>effects := effects c @ [e]\<rparr>"

definition deliver_to_host :: "pid \<Rightarrow> string \<Rightarrow> Ctx \<Rightarrow> Ctx" where
  "deliver_to_host p line = request (HostLine p line)"

text \<open>A mutation of the store through \<open>ctx.store\<close>.\<close>

definition on_store :: "(Store \<Rightarrow> Store) \<Rightarrow> Ctx \<Rightarrow> Ctx" where
  "on_store f c = c\<lparr>store := f (store c)\<rparr>"

lemma ctx_simps [simp, frame_simps]:
  "store (emit e c) = store c" "effects (emit e c) = effects c" "clock (emit e c) = clock c"
  "events (emit e c) = events c @ [e]"
  "store (request x c) = store c" "events (request x c) = events c" "clock (request x c) = clock c"
  "effects (request x c) = effects c @ [x]"
  "store (deliver_to_host p l c) = store c" "events (deliver_to_host p l c) = events c"
  "clock (deliver_to_host p l c) = clock c"
  "effects (deliver_to_host p l c) = effects c @ [HostLine p l]"
  "store (on_store f c) = f (store c)" "events (on_store f c) = events c"
  "effects (on_store f c) = effects c" "clock (on_store f c) = clock c"
  "store (Ctx_new cl st) = st" "events (Ctx_new cl st) = []" "effects (Ctx_new cl st) = []"
  "clock (Ctx_new cl st) = cl"
  by (simp_all add: emit_def request_def deliver_to_host_def on_store_def Ctx_new_def)

lemma or_default_simps [simp]: "or_default d None = d" "or_default d (Some v) = v"
  by (simp_all add: or_default_def)

lemma display_display_mut [simp]:
  "display (display_mut i f st) j =
     (if j = i then Some (f (or_default DisplayState_default (display st i))) else display st j)"
  by (simp add: display_def display_mut_def update_conv')

lemma display_mut_frame [simp, frame_simps]:
  "apps (display_mut i f st) = apps st" "home (display_mut i f st) = home st"
  "ime_height (display_mut i f st) = ime_height st" "alarms (display_mut i f st) = alarms st"
  "notifications (display_mut i f st) = notifications st" "next_nid (display_mut i f st) = next_nid st"
  "sensors (display_mut i f st) = sensors st" "sensor (display_mut i f st) k = sensor st k"
  by (simp_all add: display_mut_def sensor_def)

lemma geometry_mut_frame [simp, frame_simps]:
  "apps (geometry_mut i g st) = apps st" "home (geometry_mut i g st) = home st"
  "ime_height (geometry_mut i g st) = ime_height st" "alarms (geometry_mut i g st) = alarms st"
  "notifications (geometry_mut i g st) = notifications st" "next_nid (geometry_mut i g st) = next_nid st"
  "sensors (geometry_mut i g st) = sensors st" "sensor (geometry_mut i g st) k = sensor st k"
  by (simp_all add: geometry_mut_def)

lemma store_geometry_display_mut [simp]:
  "store_geometry (geometry_mut i g st) j =
     (if j = i then Some (g (or_default DisplayGeometry_default (store_geometry st i)))
      else store_geometry st j)"
  by (cases "display st i") (simp_all add: store_geometry_def geometry_mut_def DisplayState_default_def)

lemma sensor_sensor_mut [simp]:
  "sensor (sensor_mut k f st) j =
     (if j = k then Some (f (or_default SensorSlot_default (sensor st k))) else sensor st j)"
  by (simp add: sensor_def sensor_mut_def update_conv')

lemma sensor_mut_frame [simp, frame_simps]:
  "apps (sensor_mut k f st) = apps st" "home (sensor_mut k f st) = home st"
  "ime_height (sensor_mut k f st) = ime_height st" "alarms (sensor_mut k f st) = alarms st"
  "notifications (sensor_mut k f st) = notifications st" "next_nid (sensor_mut k f st) = next_nid st"
  "displays (sensor_mut k f st) = displays st" "display (sensor_mut k f st) i = display st i"
  by (simp_all add: sensor_mut_def display_def)

lemma dp_to_px_unknown [simp]: "\<not> density_known g \<Longrightarrow> dp_to_px g dp = 0"
  by (simp add: dp_to_px_def)

lemma dp_to_px_cong:
  "density g = density g' \<Longrightarrow> dp_to_px g dp = dp_to_px g' dp"
  by (simp add: dp_to_px_def density_known_def)

end
