(* ===== verification/Surfaces.thy ===== *)
theory Surfaces
  imports Core
begin

text \<open>
  The per-display surface and role model (\<open>wandr-arbiter-core/src/surface.rs\<close>): the
  surface stack keyed by pid, the resource focus, and the derivations every module reads
  (the visible app, whether the keyboard overlay should be up, the foreground slot).  The
  lemmas describe each operation by its effect on \<open>role_of\<close>, on the focus and on the
  active IME, so that the modules never unfold the list operations.
\<close>

section \<open>Operations\<close>

definition put_surface :: "pid \<Rightarrow> string \<Rightarrow> Role \<Rightarrow> DisplayState \<Rightarrow> DisplayState" where
  "put_surface p app r d =
     (if \<exists>s \<in> set (surfaces d). s_pid s = p
      then d\<lparr>surfaces := upd_first (\<lambda>s. s_pid s = p) (\<lambda>s. s\<lparr>s_app_id := app, s_role := r\<rparr>) (surfaces d)\<rparr>
      else d\<lparr>surfaces := surfaces d @ [\<lparr>s_pid = p, s_app_id = app, s_role = r, s_anchor = None\<rparr>]\<rparr>)"

definition set_chrome_anchor :: "pid \<Rightarrow> ChromeAnchor \<Rightarrow> DisplayState \<Rightarrow> DisplayState" where
  "set_chrome_anchor p a d =
     d\<lparr>surfaces := upd_first (\<lambda>s. s_pid s = p) (\<lambda>s. s\<lparr>s_anchor := Some a\<rparr>) (surfaces d)\<rparr>"

definition set_role :: "pid \<Rightarrow> Role \<Rightarrow> DisplayState \<Rightarrow> DisplayState" where
  "set_role p r d =
     d\<lparr>surfaces := upd_first (\<lambda>s. s_pid s = p) (\<lambda>s. s\<lparr>s_role := r\<rparr>) (surfaces d)\<rparr>"

definition ime_editor :: "DisplayState \<Rightarrow> (pid \<times> EditorInfo) option" where
  "ime_editor d =
     (case map_of (focus d) ResourceKind.ImeEditor of None \<Rightarrow> None
      | Some (ResourceFocus.ImeEditor p info) \<Rightarrow> Some (p, info))"

definition set_ime_editor :: "(pid \<times> EditorInfo) option \<Rightarrow> DisplayState \<Rightarrow> DisplayState" where
  "set_ime_editor v d =
     (case v of
        Some (p, info) \<Rightarrow>
          d\<lparr>focus := AList.update ResourceKind.ImeEditor (ResourceFocus.ImeEditor p info) (focus d)\<rparr>
      | None \<Rightarrow> d\<lparr>focus := AList.delete ResourceKind.ImeEditor (focus d)\<rparr>)"

definition remove_surface :: "pid \<Rightarrow> DisplayState \<Rightarrow> DisplayState" where
  "remove_surface p d =
     (let d1 = d\<lparr>surfaces := filter (\<lambda>s. s_pid s \<noteq> p) (surfaces d)\<rparr>;
          d2 = (if active_ime d1 = Some p then d1\<lparr>active_ime := None\<rparr> else d1)
      in if map_option fst (ime_editor d2) = Some p
         then d2\<lparr>focus := AList.delete ResourceKind.ImeEditor (focus d2)\<rparr> else d2)"

definition clear :: "DisplayState \<Rightarrow> DisplayState" where
  "clear d = d\<lparr>surfaces := [], focus := [], active_ime := None\<rparr>"

definition surface :: "pid \<Rightarrow> DisplayState \<Rightarrow> Surface option" where
  "surface p d = find (\<lambda>s. s_pid s = p) (surfaces d)"

definition role_of :: "pid \<Rightarrow> DisplayState \<Rightarrow> Role option" where
  "role_of p d = map_option s_role (find (\<lambda>s. s_pid s = p) (surfaces d))"

definition first_with_role :: "Role \<Rightarrow> DisplayState \<Rightarrow> Surface option" where
  "first_with_role r d = find (\<lambda>s. s_role s = r) (surfaces d)"

definition visible_app :: "DisplayState \<Rightarrow> pid option" where
  "visible_app d =
     map_option s_pid
       (case find (\<lambda>s. s_role s = OverlayBehind) (surfaces d) of
          Some s \<Rightarrow> Some s
        | None \<Rightarrow> find (\<lambda>s. s_role s = Role.Foreground) (surfaces d))"

definition overlay_desired :: "DisplayState \<Rightarrow> pid option" where
  "overlay_desired d =
     (case active_ime d of None \<Rightarrow> None
      | Some ime \<Rightarrow>
          (case ime_editor d of None \<Rightarrow> None
           | Some (editor, _) \<Rightarrow>
               (case visible_app d of None \<Rightarrow> None
                | Some vis \<Rightarrow> if editor = vis \<and> ime \<noteq> vis then Some ime else None)))"

definition foreground_slot :: "DisplayState \<Rightarrow> Surface option" where
  "foreground_slot d =
     (case first_with_role Overlay d of
        Some s \<Rightarrow> Some s
      | None \<Rightarrow> first_with_role Role.Foreground d)"

definition overlay_engaged :: "DisplayState \<Rightarrow> bool" where
  "overlay_engaged d = (first_with_role Overlay d \<noteq> None)"

definition active_ime_surface :: "DisplayState \<Rightarrow> Surface option" where
  "active_ime_surface d = (case active_ime d of None \<Rightarrow> None | Some p \<Rightarrow> surface p d)"

section \<open>Frames\<close>

lemma put_surface_frame [simp, frame_simps]:
  "geometry (put_surface p app r d) = geometry d" "focus (put_surface p app r d) = focus d"
  "active_ime (put_surface p app r d) = active_ime d"
  "ime_editor (put_surface p app r d) = ime_editor d"
  by (auto simp: put_surface_def ime_editor_def)

lemma set_role_frame [simp, frame_simps]:
  "geometry (set_role p r d) = geometry d" "focus (set_role p r d) = focus d"
  "active_ime (set_role p r d) = active_ime d" "ime_editor (set_role p r d) = ime_editor d"
  by (simp_all add: set_role_def ime_editor_def)

lemma set_chrome_anchor_frame [simp, frame_simps]:
  "geometry (set_chrome_anchor p a d) = geometry d" "focus (set_chrome_anchor p a d) = focus d"
  "active_ime (set_chrome_anchor p a d) = active_ime d"
  "ime_editor (set_chrome_anchor p a d) = ime_editor d"
  by (simp_all add: set_chrome_anchor_def ime_editor_def)

lemma set_ime_editor_frame [simp, frame_simps]:
  "geometry (set_ime_editor v d) = geometry d" "surfaces (set_ime_editor v d) = surfaces d"
  "active_ime (set_ime_editor v d) = active_ime d"
  by (auto simp: set_ime_editor_def split: option.split)

lemma ime_editor_set [simp]: "ime_editor (set_ime_editor v d) = v"
  by (auto simp: set_ime_editor_def ime_editor_def update_conv' delete_conv' split: option.split)

lemma remove_surface_frame [simp, frame_simps]:
  "geometry (remove_surface p d) = geometry d"
  by (simp add: remove_surface_def Let_def)

lemma surfaces_remove [simp]: "surfaces (remove_surface p d) = filter (\<lambda>s. s_pid s \<noteq> p) (surfaces d)"
  by (simp add: remove_surface_def Let_def)

lemma active_ime_remove [simp]:
  "active_ime (remove_surface p d) = (if active_ime d = Some p then None else active_ime d)"
  by (simp add: remove_surface_def Let_def)

lemma ime_editor_remove [simp]:
  "ime_editor (remove_surface p d) =
     (if map_option fst (ime_editor d) = Some p then None else ime_editor d)"
  by (auto simp: remove_surface_def ime_editor_def Let_def delete_conv')

lemma geometry_clear [simp, frame_simps]: "geometry (clear d) = geometry d"
  by (simp add: clear_def)

text \<open>The surface-only derivations do not read the focus.\<close>

lemma set_ime_editor_derive [simp, frame_simps]:
  "role_of p (set_ime_editor v d) = role_of p d" "visible_app (set_ime_editor v d) = visible_app d"
  "first_with_role r (set_ime_editor v d) = first_with_role r d"
  "overlay_engaged (set_ime_editor v d) = overlay_engaged d"
  "foreground_slot (set_ime_editor v d) = foreground_slot d"
  "surface p (set_ime_editor v d) = surface p d"
  by (simp_all add: role_of_def visible_app_def first_with_role_def overlay_engaged_def
      foreground_slot_def surface_def cong: option.case_cong)

section \<open>Roles\<close>

lemma find_pid_update:
  "(\<And>s. s_pid (f s) = s_pid s) \<Longrightarrow>
   find (\<lambda>s. s_pid s = q) (upd_first (\<lambda>s. s_pid s = p) f xs) =
     (if q = p then map_option f (find (\<lambda>s. s_pid s = p) xs) else find (\<lambda>s. s_pid s = q) xs)"
  by (induction xs) auto

lemma find_pid_Some: "\<exists>s \<in> set xs. s_pid s = p \<Longrightarrow> \<exists>s. find (\<lambda>s. s_pid s = p) xs = Some s"
  by (cases "find (\<lambda>s. s_pid s = p) xs") (auto simp: find_None_iff2)

lemma role_of_put [simp]:
  "role_of q (put_surface p app r d) = (if q = p then Some r else role_of q d)"
proof (cases "\<exists>s \<in> set (surfaces d). s_pid s = p")
  case True
  with find_pid_Some[OF True] show ?thesis
    by (auto simp: put_surface_def role_of_def find_pid_update)
next
  case False
  then have "find (\<lambda>s. s_pid s = p) (surfaces d) = None"
    by (simp add: find_None_iff2)
  with False show ?thesis
    by (auto simp: put_surface_def role_of_def find_append split: option.splits)
qed

lemma role_of_set_role [simp]:
  "role_of q (set_role p r d) =
     (if q = p \<and> role_of p d \<noteq> None then Some r else role_of q d)"
  by (auto simp: set_role_def role_of_def find_pid_update option.map_comp o_def
      split: option.splits)

lemma role_of_remove [simp]:
  "role_of q (remove_surface p d) = (if q = p then None else role_of q d)"
proof (cases "q = p")
  case True
  then show ?thesis by (simp add: find_None_iff2 role_of_def)
next
  case False
  then have "find (\<lambda>s. s_pid s = q) (filter (\<lambda>s. s_pid s \<noteq> p) (surfaces d)) =
             find (\<lambda>s. s_pid s = q) (surfaces d)"
    by (intro find_filter_True) simp
  with False show ?thesis by (simp add: role_of_def)
qed

lemma role_of_clear [simp]: "role_of q (clear d) = None"
  by (simp add: role_of_def clear_def)

lemma role_of_anchor [simp]: "role_of q (set_chrome_anchor p a d) = role_of q d"
  by (simp add: set_chrome_anchor_def role_of_def find_pid_update option.map_comp o_def)

section \<open>The stack is keyed by pid\<close>

definition pids :: "DisplayState \<Rightarrow> pid list" where
  "pids d = map s_pid (surfaces d)"

definition keyed :: "DisplayState \<Rightarrow> bool" where
  "keyed d = distinct (pids d)"

lemma keyed_put [inv_intros]: "keyed d \<Longrightarrow> keyed (put_surface p app r d)"
  by (auto simp: keyed_def pids_def put_surface_def)

lemma keyed_set_role [inv_intros]: "keyed d \<Longrightarrow> keyed (set_role p r d)"
  by (simp add: keyed_def pids_def set_role_def)

lemma keyed_anchor [inv_intros]: "keyed d \<Longrightarrow> keyed (set_chrome_anchor p a d)"
  by (simp add: keyed_def pids_def set_chrome_anchor_def)

lemma keyed_remove [inv_intros]: "keyed d \<Longrightarrow> keyed (remove_surface p d)"
  by (simp add: keyed_def pids_def)

lemma keyed_editor [inv_intros]: "keyed d \<Longrightarrow> keyed (set_ime_editor v d)"
  by (simp add: keyed_def pids_def)

lemma keyed_clear [inv_intros]: "keyed (clear d)"
  by (simp add: keyed_def pids_def clear_def)

lemma keyed_default [inv_intros]: "keyed DisplayState_default"
  by (simp add: keyed_def pids_def DisplayState_default_def)

lemma keyed_find:
  assumes "keyed d" "s \<in> set (surfaces d)"
  shows "find (\<lambda>t. s_pid t = s_pid s) (surfaces d) = Some s"
proof -
  obtain t where t: "find (\<lambda>t. s_pid t = s_pid s) (surfaces d) = Some t"
    using assms(2) by (cases "find (\<lambda>t. s_pid t = s_pid s) (surfaces d)") (auto simp: find_None_iff2)
  then have "t \<in> set (surfaces d)" "s_pid t = s_pid s"
    by (auto dest: find_SomeD)
  with assms have "t = s"
    by (auto simp: keyed_def pids_def distinct_map inj_on_def)
  with t show ?thesis by simp
qed

lemma keyed_role_of:
  "keyed d \<Longrightarrow> s \<in> set (surfaces d) \<Longrightarrow> role_of (s_pid s) d = Some (s_role s)"
  by (simp add: role_of_def keyed_find)

lemma role_of_SomeD:
  "role_of p d = Some r \<Longrightarrow> \<exists>s \<in> set (surfaces d). s_pid s = p \<and> s_role s = r"
  by (auto simp: role_of_def dest: find_SomeD)

lemma keyed_surfaces_iff:
  "keyed d \<Longrightarrow> (\<exists>s \<in> set (surfaces d). s_pid s = p \<and> s_role s = r) \<longleftrightarrow> role_of p d = Some r"
  by (auto dest: keyed_role_of role_of_SomeD)

lemma first_with_role_None_iff:
  "first_with_role r d = None \<longleftrightarrow> (\<forall>s \<in> set (surfaces d). s_role s \<noteq> r)"
  by (simp add: find_None_iff2 first_with_role_def)

lemma first_with_role_SomeD:
  "keyed d \<Longrightarrow> first_with_role r d = Some s \<Longrightarrow> role_of (s_pid s) d = Some r \<and> s \<in> set (surfaces d)"
  by (auto simp: first_with_role_def dest!: find_SomeD dest: keyed_role_of)

lemma first_with_role_None_role:
  "keyed d \<Longrightarrow> first_with_role r d = None \<longleftrightarrow> (\<forall>p. role_of p d \<noteq> Some r)"
  by (auto simp: first_with_role_None_iff dest: keyed_role_of role_of_SomeD)

section \<open>Single-holder roles\<close>

text \<open>At most one surface has the role.\<close>

definition sole :: "Role \<Rightarrow> DisplayState \<Rightarrow> bool" where
  "sole r d \<longleftrightarrow> (\<forall>p q. role_of p d = Some r \<longrightarrow> role_of q d = Some r \<longrightarrow> p = q)"

text \<open>
  What the header of \<open>surface.rs\<close> promises of a display: one foreground, one overlay,
  one surface behind it; and, what makes \<open>visible_app\<close> the app the user sees, that an
  overlay and the surface behind it only occur together, with nothing in the foreground.
\<close>

definition split_wf :: "DisplayState \<Rightarrow> bool" where
  "split_wf d \<longleftrightarrow> keyed d \<and> sole Role.Foreground d \<and> sole Overlay d \<and> sole OverlayBehind d
     \<and> ((\<exists>p. role_of p d = Some Overlay) \<longleftrightarrow> (\<exists>p. role_of p d = Some OverlayBehind))
     \<and> ((\<exists>p. role_of p d = Some Overlay) \<longrightarrow> (\<forall>p. role_of p d \<noteq> Some Role.Foreground))"

lemma first_with_role_sole:
  assumes "keyed d" "sole r d" "role_of p d = Some r"
  shows "map_option s_pid (first_with_role r d) = Some p"
proof -
  obtain s where s: "first_with_role r d = Some s"
    using assms(3) by (cases "first_with_role r d") (auto simp: first_with_role_None_role[OF assms(1)])
  with first_with_role_SomeD[OF assms(1) s] assms show ?thesis
    by (auto simp: sole_def)
qed

lemma visible_app_alt:
  "visible_app d = (case first_with_role OverlayBehind d of Some s \<Rightarrow> Some (s_pid s)
      | None \<Rightarrow> map_option s_pid (first_with_role Role.Foreground d))"
  by (simp add: visible_app_def first_with_role_def split: option.split)

lemma visible_app_role:
  assumes "keyed d" "visible_app d = Some p"
  shows "role_of p d = Some OverlayBehind \<or>
         (\<forall>q. role_of q d \<noteq> Some OverlayBehind) \<and> role_of p d = Some Role.Foreground"
  using assms first_with_role_SomeD[OF assms(1)] first_with_role_None_role[OF assms(1)]
  by (auto simp: visible_app_alt split: option.splits)

lemma visible_app_behind:
  "split_wf d \<Longrightarrow> role_of p d = Some OverlayBehind \<Longrightarrow> visible_app d = Some p"
  using first_with_role_sole[of d OverlayBehind p]
  by (auto simp: split_wf_def visible_app_alt split: option.splits)

lemma visible_app_foreground:
  assumes "split_wf d" "role_of p d = Some Role.Foreground"
  shows "visible_app d = Some p"
proof -
  have "\<forall>q. role_of q d \<noteq> Some OverlayBehind"
    using assms by (auto simp: split_wf_def)
  then have "first_with_role OverlayBehind d = None"
    using assms by (simp add: split_wf_def first_with_role_None_role)
  then show ?thesis
    using assms first_with_role_sole[of d Role.Foreground p] by (simp add: visible_app_alt split_wf_def)
qed

lemma visible_app_None:
  assumes "keyed d"
  shows "visible_app d = None \<longleftrightarrow>
    (\<forall>p. role_of p d \<noteq> Some OverlayBehind \<and> role_of p d \<noteq> Some Role.Foreground)"
  using first_with_role_None_role[OF assms, of OverlayBehind]
    first_with_role_None_role[OF assms, of Role.Foreground]
  by (auto simp: visible_app_alt split: option.splits dest: first_with_role_SomeD[OF assms])

lemma overlay_engaged_role: "keyed d \<Longrightarrow> overlay_engaged d \<longleftrightarrow> (\<exists>p. role_of p d = Some Overlay)"
  by (simp add: overlay_engaged_def first_with_role_None_role)

end
