(* ===== verification/StoreOps.thy ===== *)
theory StoreOps
  imports Surfaces
begin

text \<open>
  The arbiter-global slices of the store: the registry of running apps
  (\<open>registry.rs\<close>), the timed-wake alarms (\<open>alarm.rs\<close>) and the active
  notifications (\<open>notify.rs\<close>), each with the keys it is unique on.
\<close>

section \<open>The app registry\<close>

definition insert_app :: "AppState \<Rightarrow> Store \<Rightarrow> Store" where
  "insert_app a st = st\<lparr>apps := AList.update (a_app_id a) a (apps st)\<rparr>"

definition remove_app :: "string \<Rightarrow> Store \<Rightarrow> Store" where
  "remove_app i st = st\<lparr>apps := AList.delete i (apps st)\<rparr>"

definition app :: "Store \<Rightarrow> string \<Rightarrow> AppState option" where
  "app st i = map_of (apps st) i"

definition app_by_pid :: "Store \<Rightarrow> pid \<Rightarrow> AppState option" where
  "app_by_pid st p = find (\<lambda>a. a_pid a = p) (map snd (apps st))"

definition apps_snapshot :: "Store \<Rightarrow> AppState list" where
  "apps_snapshot st = map snd (apps st)"

definition set_home :: "string option \<Rightarrow> Store \<Rightarrow> string option \<times> Store" where
  "set_home new st = (home st, st\<lparr>home := new\<rparr>)"

definition set_ime_height :: "u32 \<Rightarrow> Store \<Rightarrow> Store" where
  "set_ime_height px st = st\<lparr>ime_height := px\<rparr>"

lemma app_insert [simp]:
  "app (insert_app a st) i = (if i = a_app_id a then Some a else app st i)"
  by (simp add: app_def insert_app_def update_conv')

lemma app_remove [simp]: "app (remove_app j st) i = (if i = j then None else app st i)"
  by (simp add: app_def remove_app_def delete_conv')

lemma registry_frame [simp, frame_simps]:
  "displays (insert_app a st) = displays st" "displays (remove_app i st) = displays st"
  "display (insert_app a st) k = display st k" "display (remove_app i st) k = display st k"
  "home (insert_app a st) = home st" "home (remove_app i st) = home st"
  "alarms (insert_app a st) = alarms st" "alarms (remove_app i st) = alarms st"
  "notifications (insert_app a st) = notifications st" "notifications (remove_app i st) = notifications st"
  "next_nid (insert_app a st) = next_nid st" "next_nid (remove_app i st) = next_nid st"
  "ime_height (insert_app a st) = ime_height st" "ime_height (remove_app i st) = ime_height st"
  "store_geometry (insert_app a st) k = store_geometry st k"
  "store_geometry (remove_app i st) k = store_geometry st k"
  by (simp_all add: insert_app_def remove_app_def display_def store_geometry_def)

lemma app_display_mut [simp, frame_simps]:
  "app (display_mut i f st) a = app st a" "app_by_pid (display_mut i f st) p = app_by_pid st p"
  "app (geometry_mut i g st) a = app st a" "app_by_pid (geometry_mut i g st) p = app_by_pid st p"
  "apps_snapshot (display_mut i f st) = apps_snapshot st"
  by (simp_all add: app_def app_by_pid_def apps_snapshot_def)

text \<open>The registry is keyed by the app id its entries carry.\<close>

definition registry_keyed :: "Store \<Rightarrow> bool" where
  "registry_keyed st \<longleftrightarrow> distinct (map fst (apps st)) \<and> (\<forall>i a. app st i = Some a \<longrightarrow> a_app_id a = i)"

lemma registry_keyed_new [inv_intros]: "registry_keyed Store_new"
  by (simp add: registry_keyed_def Store_new_def app_def)

lemma registry_keyed_insert [inv_intros]: "registry_keyed st \<Longrightarrow> registry_keyed (insert_app a st)"
  by (simp add: registry_keyed_def) (simp add: insert_app_def distinct_update)

lemma registry_keyed_remove [inv_intros]: "registry_keyed st \<Longrightarrow> registry_keyed (remove_app i st)"
  by (simp add: registry_keyed_def) (simp add: remove_app_def distinct_delete)

lemma app_in_snapshot: "app st i = Some a \<Longrightarrow> a \<in> set (apps_snapshot st)"
  by (force simp: app_def apps_snapshot_def dest: map_of_SomeD)

lemma snapshot_app:
  "registry_keyed st \<Longrightarrow> a \<in> set (apps_snapshot st) \<longleftrightarrow> app st (a_app_id a) = Some a"
proof
  assume k: "registry_keyed st" and "a \<in> set (apps_snapshot st)"
  then obtain i where "(i, a) \<in> set (apps st)"
    by (auto simp: apps_snapshot_def)
  with k have "app st i = Some a"
    by (simp add: registry_keyed_def app_def)
  moreover with k have "a_app_id a = i"
    by (simp add: registry_keyed_def)
  ultimately show "app st (a_app_id a) = Some a" by simp
qed (rule app_in_snapshot)

lemma app_by_pid_SomeD:
  assumes "registry_keyed st" "app_by_pid st p = Some a"
  shows "a_pid a = p \<and> app st (a_app_id a) = Some a"
  using assms snapshot_app[of st a] by (auto simp: app_by_pid_def apps_snapshot_def dest!: find_SomeD)

lemma app_by_pid_None:
  assumes "registry_keyed st" "app_by_pid st p = None" "app st i = Some a"
  shows "a_pid a \<noteq> p"
  using assms(2) app_in_snapshot[OF assms(3)] by (force simp: find_None_iff2 app_by_pid_def apps_snapshot_def)

section \<open>Alarms\<close>

definition is_alarm :: "string \<Rightarrow> u64 \<Rightarrow> Alarm \<Rightarrow> bool" where
  "is_alarm i n a \<longleftrightarrow> al_app_id a = i \<and> alarm_id a = n"

definition upsert_alarm :: "Alarm \<Rightarrow> Store \<Rightarrow> Store" where
  "upsert_alarm al st =
     (if \<exists>a \<in> set (alarms st). is_alarm (al_app_id al) (alarm_id al) a
      then st\<lparr>alarms := upd_first (is_alarm (al_app_id al) (alarm_id al)) (\<lambda>a. al) (alarms st)\<rparr>
      else st\<lparr>alarms := alarms st @ [al]\<rparr>)"

definition cancel_alarm :: "string \<Rightarrow> u64 \<Rightarrow> Store \<Rightarrow> bool \<times> Store" where
  "cancel_alarm i n st =
     (let st' = st\<lparr>alarms := filter (\<lambda>a. \<not> is_alarm i n a) (alarms st)\<rparr>
      in (length (alarms st') \<noteq> length (alarms st), st'))"

definition has_alarms :: "Store \<Rightarrow> bool" where
  "has_alarms st \<longleftrightarrow> alarms st \<noteq> []"

text \<open>The alarm the key stands for, and the key's uniqueness.\<close>

definition alarm_of :: "string \<Rightarrow> u64 \<Rightarrow> Store \<Rightarrow> Alarm option" where
  "alarm_of i n st = find (is_alarm i n) (alarms st)"

definition alarm_key :: "Alarm \<Rightarrow> string \<times> u64" where
  "alarm_key a = (al_app_id a, alarm_id a)"

definition alarms_keyed :: "Store \<Rightarrow> bool" where
  "alarms_keyed st \<longleftrightarrow> distinct (map alarm_key (alarms st))"

lemma is_alarm_key: "is_alarm i n = (\<lambda>a. alarm_key a = (i, n))"
  by (auto simp: is_alarm_def alarm_key_def)

lemma upsert_alarm_keyed [inv_intros]:
  assumes "alarms_keyed st"
  shows "alarms_keyed (upsert_alarm al st)"
proof (cases "\<exists>a \<in> set (alarms st). is_alarm (al_app_id al) (alarm_id al) a")
  case True
  then show ?thesis
    using assms map_upd_first[of "is_alarm (al_app_id al) (alarm_id al)" alarm_key "\<lambda>a. al"]
    by (simp add: upsert_alarm_def alarms_keyed_def is_alarm_def alarm_key_def)
next
  case False
  then show ?thesis
    using assms by (force simp: upsert_alarm_def alarms_keyed_def is_alarm_key alarm_key_def)
qed

lemma alarm_of_upsert:
  "alarm_of i n (upsert_alarm al st) =
     (if is_alarm i n al then Some al else alarm_of i n st)"
proof -
  let ?P = "is_alarm (al_app_id al) (alarm_id al)"
  have upd: "find (is_alarm i n) (upd_first ?P (\<lambda>a. al) xs) =
      (if is_alarm i n al then Some al else find (is_alarm i n) xs)"
    if "\<exists>a \<in> set xs. ?P a" for xs
  proof (cases "is_alarm i n al")
    case True
    then have eq: "is_alarm i n = ?P"
      by (auto simp: is_alarm_def)
    obtain a where "find ?P xs = Some a"
      using \<open>\<exists>a \<in> set xs. ?P a\<close> find_None_iff2[of ?P xs] by (cases "find ?P xs") auto
    moreover have "find ?P (upd_first ?P (\<lambda>a. al) xs) = map_option (\<lambda>a. al) (find ?P xs)"
      by (rule find_upd_first_same) (simp add: is_alarm_def)
    ultimately show ?thesis by (simp add: eq) (simp add: is_alarm_def)
  next
    case False
    then show ?thesis
      by (simp, intro find_upd_first_other) (auto simp: is_alarm_def)
  qed
  show ?thesis
  proof (cases "\<exists>a \<in> set (alarms st). ?P a")
    case True
    then show ?thesis by (simp add: alarm_of_def upsert_alarm_def upd)
  next
    case False
    then have "find ?P (alarms st) = None"
      by (simp add: find_None_iff2)
    with False show ?thesis
      by (auto simp: alarm_of_def upsert_alarm_def find_append is_alarm_def
          split: option.split)
  qed
qed

lemma cancel_alarm_keyed [inv_intros]: "alarms_keyed st \<Longrightarrow> alarms_keyed (snd (cancel_alarm i n st))"
  by (simp add: cancel_alarm_def alarms_keyed_def)

lemma filter_length_neq: "length (filter P xs) \<noteq> length xs \<longleftrightarrow> (\<exists>x \<in> set xs. \<not> P x)"
  by (metis filter_True length_filter_less less_irrefl)

lemma cancel_alarm_result: "fst (cancel_alarm i n st) \<longleftrightarrow> alarm_of i n st \<noteq> None"
  using find_None_iff2[of "is_alarm i n" "alarms st"]
  by (auto simp: cancel_alarm_def alarm_of_def filter_length_neq)

lemma alarm_of_cancel:
  "alarm_of j m (snd (cancel_alarm i n st)) = (if j = i \<and> m = n then None else alarm_of j m st)"
proof (cases "j = i \<and> m = n")
  case True
  then show ?thesis by (simp add: find_None_iff2 cancel_alarm_def alarm_of_def)
next
  case False
  then have "find (is_alarm j m) (filter (\<lambda>a. \<not> is_alarm i n a) (alarms st)) = find (is_alarm j m) (alarms st)"
    by (intro find_filter_True) (auto simp: is_alarm_def)
  with False show ?thesis by (auto simp: cancel_alarm_def alarm_of_def)
qed

section \<open>Notifications\<close>

definition is_notif :: "string \<Rightarrow> u64 \<Rightarrow> Notification \<Rightarrow> bool" where
  "is_notif i k n \<longleftrightarrow> n_app_id n = i \<and> app_notif_id n = k"

definition post_notification ::
  "string \<Rightarrow> u64 \<Rightarrow> string \<Rightarrow> string \<Rightarrow> Store \<Rightarrow> u64 \<times> Store" where
  "post_notification i k title body st =
     (case find (is_notif i k) (notifications st) of
        Some n \<Rightarrow>
          (nid n, st\<lparr>notifications :=
             upd_first (is_notif i k) (\<lambda>n. n\<lparr>n_title := title, n_body := body\<rparr>) (notifications st)\<rparr>)
      | None \<Rightarrow>
          (let m = next_nid st + 1 in
             (m, st\<lparr>next_nid := m, notifications := notifications st @
                [\<lparr>nid = m, n_app_id = i, app_notif_id = k, n_title = title, n_body = body\<rparr>]\<rparr>)))"

definition cancel_notification :: "string \<Rightarrow> u64 \<Rightarrow> Store \<Rightarrow> bool \<times> Store" where
  "cancel_notification i k st =
     (let st' = st\<lparr>notifications := filter (\<lambda>n. \<not> is_notif i k n) (notifications st)\<rparr>
      in (length (notifications st') \<noteq> length (notifications st), st'))"

definition take_notification :: "u64 \<Rightarrow> Store \<Rightarrow> Notification option \<times> Store" where
  "take_notification m st =
     (case take_first (\<lambda>n. nid n = m) (notifications st) of
        None \<Rightarrow> (None, st)
      | Some (n, ns) \<Rightarrow> (Some n, st\<lparr>notifications := ns\<rparr>))"

definition clear_app_notifications :: "string \<Rightarrow> Store \<Rightarrow> nat \<times> Store" where
  "clear_app_notifications i st =
     (let st' = st\<lparr>notifications := filter (\<lambda>n. n_app_id n \<noteq> i) (notifications st)\<rparr>
      in (length (notifications st) - length (notifications st'), st'))"

text \<open>
  The list is unique on both of its keys, and the handles handed out so far are bounded by
  the counter, as long as the 64-bit counter has not wrapped.
\<close>

definition notif_key :: "Notification \<Rightarrow> string \<times> u64" where
  "notif_key n = (n_app_id n, app_notif_id n)"

definition notifs_wf :: "Store \<Rightarrow> bool" where
  "notifs_wf st \<longleftrightarrow> distinct (map nid (notifications st)) \<and> distinct (map notif_key (notifications st))
     \<and> (\<forall>n \<in> set (notifications st). nid n \<le> next_nid st)"

lemma is_notif_key: "is_notif i k n \<longleftrightarrow> notif_key n = (i, k)"
  by (auto simp: is_notif_def notif_key_def)

lemma u64_less_Suc: "(w :: u64) < w + 1 \<longleftrightarrow> w \<noteq> - 1"
  using inc_less_eq_self_iff_eq[of w] by (auto simp: not_le[symmetric])

lemma post_notification_wf:
  assumes "notifs_wf st" "next_nid st \<noteq> - 1"
  shows "notifs_wf (snd (post_notification i k t b st))"
proof (cases "find (is_notif i k) (notifications st)")
  case None
  have lt: "next_nid st < next_nid st + 1"
    using assms(2) by (simp add: u64_less_Suc)
  have "\<forall>n \<in> set (notifications st). nid n \<noteq> next_nid st + 1 \<and> nid n \<le> next_nid st + 1"
    using assms(1) lt by (fastforce simp: notifs_wf_def)
  moreover have "\<forall>n \<in> set (notifications st). notif_key n \<noteq> (i, k)"
    using None by (simp add: find_None_iff2 is_notif_key)
  ultimately show ?thesis
    using None assms(1)
    by (auto simp: post_notification_def notifs_wf_def Let_def notif_key_def image_iff)
next
  case (Some n)
  let ?f = "\<lambda>n. n\<lparr>n_title := t, n_body := b\<rparr>"
  have "map nid (upd_first (is_notif i k) ?f ns) = map nid ns"
    "map notif_key (upd_first (is_notif i k) ?f ns) = map notif_key ns" for ns
    by (simp_all add: notif_key_def)
  moreover have "\<forall>n \<in> set (upd_first (is_notif i k) ?f (notifications st)). nid n \<le> next_nid st"
    using assms(1) set_upd_first_subset[of "is_notif i k" ?f "notifications st"]
    by (fastforce simp: notifs_wf_def)
  ultimately show ?thesis
    using Some assms(1) by (simp add: post_notification_def notifs_wf_def)
qed

text \<open>Posting: the handle is kept when the key is known, and new otherwise.\<close>

definition notif_of :: "string \<Rightarrow> u64 \<Rightarrow> Store \<Rightarrow> Notification option" where
  "notif_of i k st = find (is_notif i k) (notifications st)"

lemma notif_of_post:
  "notif_of i k (snd (post_notification i k t b st)) =
     Some \<lparr>nid = fst (post_notification i k t b st), n_app_id = i, app_notif_id = k,
           n_title = t, n_body = b\<rparr>"
proof (cases "find (is_notif i k) (notifications st)")
  case None
  then show ?thesis
    by (auto simp: notif_of_def post_notification_def Let_def find_append is_notif_def
        split: option.split)
next
  case (Some n)
  then have "n_app_id n = i" "app_notif_id n = k"
    by (auto simp: is_notif_def dest: find_SomeD)
  moreover have "find (is_notif i k) (upd_first (is_notif i k) f ns) = map_option f (find (is_notif i k) ns)"
    if "\<And>x. is_notif i k x \<Longrightarrow> is_notif i k (f x)" for f ns
    using that by (rule find_upd_first_same)
  ultimately show ?thesis
    using Some by (cases n) (simp add: notif_of_def post_notification_def is_notif_key notif_key_def)
qed

lemma notif_of_post_other:
  assumes "(j, m) \<noteq> (i, k)"
  shows "notif_of j m (snd (post_notification i k t b st)) = notif_of j m st"
proof (cases "find (is_notif i k) (notifications st)")
  case None
  with assms show ?thesis
    by (auto simp: notif_of_def post_notification_def Let_def find_append is_notif_def
        split: option.split)
next
  case (Some n)
  have "find (is_notif j m) (upd_first (is_notif i k) (\<lambda>n. n\<lparr>n_title := t, n_body := b\<rparr>) ns)
        = find (is_notif j m) ns" for ns
    using assms by (intro find_upd_first_other) (auto simp: is_notif_def)
  with Some show ?thesis by (simp add: notif_of_def post_notification_def)
qed

lemma cancel_notification_wf [inv_intros]:
  "notifs_wf st \<Longrightarrow> notifs_wf (snd (cancel_notification i k st))"
  by (simp add: cancel_notification_def notifs_wf_def)

lemma cancel_notification_result: "fst (cancel_notification i k st) \<longleftrightarrow> notif_of i k st \<noteq> None"
  using find_None_iff2[of "is_notif i k" "notifications st"]
  by (auto simp: cancel_notification_def notif_of_def filter_length_neq)

lemma take_notification_wf [inv_intros]: "notifs_wf st \<Longrightarrow> notifs_wf (snd (take_notification m st))"
  by (auto simp: take_notification_def notifs_wf_def split: option.split dest!: take_first_SomeD)

lemma clear_app_notifications_wf [inv_intros]:
  "notifs_wf st \<Longrightarrow> notifs_wf (snd (clear_app_notifications i st))"
  by (simp add: clear_app_notifications_def notifs_wf_def)

lemma take_notification_SomeD:
  assumes "notifs_wf st" "take_notification m st = (Some n, st')"
  shows "nid n = m \<and> n \<in> set (notifications st) \<and>
         set (notifications st') = set (notifications st) - {n}"
proof -
  obtain ns where t: "take_first (\<lambda>n. nid n = m) (notifications st) = Some (n, ns)"
    and st': "st' = st\<lparr>notifications := ns\<rparr>"
    using assms(2) by (auto simp: take_notification_def split: option.splits)
  obtain us vs where d: "nid n = m" "notifications st = us @ n # vs" "ns = us @ vs"
    using take_first_SomeD[OF t] by blast
  then have "n \<notin> set us \<union> set vs"
    using assms(1) by (auto simp: notifs_wf_def)
  with d st' show ?thesis by auto
qed

lemma take_notification_None:
  "fst (take_notification m st) = None \<longleftrightarrow> m \<notin> nid ` set (notifications st)"
  by (auto simp: take_notification_def split: option.split dest: take_first_SomeD)

lemma clear_app_notifications_count:
  "fst (clear_app_notifications i st) = length (filter (\<lambda>n. n_app_id n = i) (notifications st))"
  using sum_length_filter_compl[of "\<lambda>n. n_app_id n = i" "notifications st"]
  by (simp add: clear_app_notifications_def)

lemma notif_frame [simp, frame_simps]:
  "displays (snd (post_notification i k t b st)) = displays st"
  "apps (snd (post_notification i k t b st)) = apps st"
  "alarms (snd (post_notification i k t b st)) = alarms st"
  "displays (snd (take_notification m st)) = displays st"
  "apps (snd (take_notification m st)) = apps st" "alarms (snd (take_notification m st)) = alarms st"
  "displays (snd (cancel_notification i k st)) = displays st"
  "apps (snd (cancel_notification i k st)) = apps st"
  "alarms (snd (cancel_notification i k st)) = alarms st"
  "displays (snd (clear_app_notifications i st)) = displays st"
  "apps (snd (clear_app_notifications i st)) = apps st"
  "alarms (snd (clear_app_notifications i st)) = alarms st"
  "displays (upsert_alarm al st) = displays st" "apps (upsert_alarm al st) = apps st"
  "notifications (upsert_alarm al st) = notifications st" "next_nid (upsert_alarm al st) = next_nid st"
  "displays (snd (cancel_alarm i k st)) = displays st" "apps (snd (cancel_alarm i k st)) = apps st"
  "notifications (snd (cancel_alarm i k st)) = notifications st"
  "next_nid (snd (cancel_alarm i k st)) = next_nid st"
  by (auto simp: post_notification_def take_notification_def cancel_notification_def Let_def
      clear_app_notifications_def upsert_alarm_def cancel_alarm_def split: option.split)

end
