(* ===== verification/Persist.thy ===== *)
theory Persist
  imports StoreOps
begin

text \<open>
  Persistence of the registry (\<open>registry.rs\<close>): the hand-rolled JSON the binary writes
  on \<open>Effect::Persist\<close> and the parser that reads it back at boot.

  \<open>kill(pid, 0)\<close> is a parameter, as its return value and the error number.  A
  \<open>SystemTime\<close> counts nanoseconds since the epoch; adding more than
  \<open>i64::MAX\<close> seconds to it panics, which is the result \<open>None\<close>.
\<close>

section \<open>Writing\<close>

definition json_escape :: "string \<Rightarrow> string" where
  "json_escape s = replace_char (CHR 0x22) [CHR 0x5C, CHR 0x22]
                     (replace_char (CHR 0x5C) [CHR 0x5C, CHR 0x5C] s)"

definition nl :: string where "nl = [CHR 0x0A]"
definition dq :: string where "dq = [CHR 0x22]"

definition quoted :: "string \<Rightarrow> string" where
  "quoted s = dq @ s @ dq"

text \<open>\<open>if i > 0 { push(", ") }\<close> before each entry.\<close>

definition comma_join :: "string list \<Rightarrow> string" where
  "comma_join es = (case es of [] \<Rightarrow> [] | e # r \<Rightarrow> e @ concat (map (\<lambda>x. '', '' @ x) r))"

definition secs_of :: "instant \<Rightarrow> nat" where
  "secs_of t = t div 10 ^ 9"

definition app_entry :: "AppState \<Rightarrow> string" where
  "app_entry a =
     nl @ ''    {'' @ quoted ''app_id'' @ '': '' @ quoted (json_escape (a_app_id a)) @ '', '' @
     quoted ''pid'' @ '': '' @ show_int (a_pid a) @ '', '' @
     quoted ''launched_at_unix'' @ '': '' @ show_nat (secs_of (launched_at a)) @ ''}''"

definition alarm_entry :: "Alarm \<Rightarrow> string" where
  "alarm_entry a =
     nl @ ''    {'' @ quoted ''app_id'' @ '': '' @ quoted (json_escape (al_app_id a)) @ '', '' @
     quoted ''alarm_id'' @ '': '' @ show_u64 (alarm_id a) @ '', '' @
     quoted ''next_fire_ms'' @ '': '' @ show_u64 (next_fire_ms a) @ '', '' @
     quoted ''repeat_ms'' @ '': '' @ show_u64 (repeat_ms a) @ '', '' @
     quoted ''wake_kind'' @ '': '' @ quoted (LaunchKind_as_wire (wake_kind a)) @ ''}''"

definition opt_field :: "string \<Rightarrow> string option \<Rightarrow> string" where
  "opt_field key v =
     ''  '' @ quoted key @ '': '' @
     (case v of Some f \<Rightarrow> quoted (json_escape f) | None \<Rightarrow> ''null'') @ '','' @ nl"

definition to_json :: "Clock \<Rightarrow> string option \<Rightarrow> Store \<Rightarrow> string" where
  "to_json cl fg st =
     ''{'' @ nl @
     ''  '' @ quoted ''version'' @ '': 1,'' @ nl @
     ''  '' @ quoted ''saved_at_unix'' @ '': '' @ show_nat (secs_of (cl_unix cl)) @ '','' @ nl @
     opt_field ''foreground'' fg @
     opt_field ''home'' (home st) @
     ''  '' @ quoted ''apps'' @ '': ['' @
     comma_join (map app_entry (apps_snapshot st)) @
     (if apps_snapshot st \<noteq> [] then nl @ ''  '' else []) @ ''],'' @ nl @
     ''  '' @ quoted ''alarms'' @ '': ['' @
     comma_join (map alarm_entry (alarms st)) @
     (if alarms st \<noteq> [] then nl @ ''  '' else []) @ '']'' @ nl @ ''}'' @ nl"

section \<open>Reading\<close>

definition after_colon :: "string \<Rightarrow> string option" where
  "after_colon s = map_option (\<lambda>i. trim_start (drop (Suc i) s)) (find_char (\<lambda>c. c = CHR '':'') s)"

definition quoted_head :: "string \<Rightarrow> string option" where
  "quoted_head s =
     (case strip_prefix dq s of None \<Rightarrow> None
      | Some r \<Rightarrow> map_option (\<lambda>e. take e r) (find_char (\<lambda>c. c = CHR 0x22) r))"

definition parse_top_string :: "string \<Rightarrow> string \<Rightarrow> string option" where
  "parse_top_string body key =
     (case find_sub (quoted key) body of None \<Rightarrow> None
      | Some i \<Rightarrow>
          (case after_colon (drop i body) of None \<Rightarrow> None
           | Some rest \<Rightarrow> if starts_with ''null'' rest then None else quoted_head rest))"

definition pick_str :: "string \<Rightarrow> string \<Rightarrow> string option" where
  "pick_str entry key =
     (case find_sub (quoted key) entry of None \<Rightarrow> None
      | Some i \<Rightarrow>
          (case after_colon (drop (i + length (quoted key)) entry) of None \<Rightarrow> None
           | Some rest \<Rightarrow> quoted_head rest))"

definition pick_int :: "string \<Rightarrow> string \<Rightarrow> int option" where
  "pick_int entry key =
     (case find_sub (quoted key) entry of None \<Rightarrow> None
      | Some i \<Rightarrow>
          (case after_colon (drop (i + length (quoted key)) entry) of None \<Rightarrow> None
           | Some rest \<Rightarrow>
               (let e = or_default (length rest)
                          (find_char (\<lambda>c. digit_val c = None \<and> c \<noteq> CHR ''-'') rest)
                in parse_signed 64 (take e rest))))"

text \<open>The casts \<open>as i32\<close> and \<open>as u64\<close> of an \<open>i64\<close>.\<close>

definition as_i32 :: "int \<Rightarrow> int" where
  "as_i32 i = sint (word_of_int i :: u32)"

definition as_u64 :: "int \<Rightarrow> u64" where
  "as_u64 i = word_of_int i"

text \<open>The text between the brackets of the array under \<open>key\<close>.\<close>

datatype array_text = Absent | Unterminated | Arr string

definition find_array :: "string \<Rightarrow> string \<Rightarrow> array_text" where
  "find_array body key =
     (case find_sub (quoted key) body of None \<Rightarrow> Absent
      | Some opn \<Rightarrow>
          (case find_char (\<lambda>c. c = CHR ''['') (drop opn body) of None \<Rightarrow> Absent
           | Some a \<Rightarrow>
               (let start = opn + a + 1 in
                case find_char (\<lambda>c. c = CHR '']'') (drop start body) of
                  None \<Rightarrow> Unterminated
                | Some e \<Rightarrow> Arr (take e (drop start body)))))"

text \<open>The text after the opening brace of each chunk that has one.\<close>

definition entries_of :: "string \<Rightarrow> string list" where
  "entries_of arr =
     List.map_filter (\<lambda>chunk. map_option (\<lambda>i. drop (Suc i) chunk) (find_char (\<lambda>c. c = CHR ''{'') chunk))
       (split_char (CHR ''}'') arr)"

definition parse_app :: "string \<Rightarrow> (string \<times> pid \<times> u64) option" where
  "parse_app entry =
     (let i = or_default [] (pick_str entry ''app_id'');
          p = as_i32 (or_default 0 (pick_int entry ''pid''));
          l = as_u64 (or_default 0 (pick_int entry ''launched_at_unix''))
      in if i \<noteq> [] \<and> p > 0 then Some (i, p, l) else None)"

definition parse_apps :: "string \<Rightarrow> (string \<times> pid \<times> u64) list option" where
  "parse_apps body =
     (case find_array body ''apps'' of
        Absent \<Rightarrow> Some []
      | Unterminated \<Rightarrow> None
      | Arr arr \<Rightarrow> Some (List.map_filter parse_app (entries_of arr)))"

definition parse_alarm :: "string \<Rightarrow> Alarm option" where
  "parse_alarm entry =
     (let i = or_default [] (pick_str entry ''app_id'') in
      if i = [] then None
      else Some \<lparr>
        al_app_id = i,
        alarm_id = as_u64 (or_default 0 (pick_int entry ''alarm_id'')),
        next_fire_ms = as_u64 (or_default 0 (pick_int entry ''next_fire_ms'')),
        repeat_ms = as_u64 (or_default 0 (pick_int entry ''repeat_ms'')),
        wake_kind = LaunchKind_from_wire (or_default [] (pick_str entry ''wake_kind'')),
        pending_deliver = False\<rparr>)"

definition parse_alarms :: "string \<Rightarrow> Alarm list" where
  "parse_alarms body =
     (case find_array body ''alarms'' of
        Arr arr \<Rightarrow> List.map_filter parse_alarm (entries_of arr)
      | _ \<Rightarrow> [])"

definition pid_alive :: "(pid \<Rightarrow> int \<times> int) \<Rightarrow> pid \<Rightarrow> bool" where
  "pid_alive kill p =
     (if p \<le> 0 then False
      else case kill p of (r, errno) \<Rightarrow> if r = 0 then True else errno = 1)"

text \<open>The loop over the entries: the store, the survivors and the dead so far.\<close>

fun restore_apps ::
  "(pid \<Rightarrow> bool) \<Rightarrow> Clock \<Rightarrow> (string \<times> pid \<times> u64) list \<Rightarrow> Store \<times> nat \<times> nat
     \<Rightarrow> (Store \<times> nat \<times> nat) option" where
  "restore_apps alive cl [] acc = Some acc"
| "restore_apps alive cl ((i, p, l) # es) (st, a, d) =
     (if alive p then
        (if unat l \<ge> 2 ^ 63 then None
         else restore_apps alive cl es
                (insert_app \<lparr>a_app_id = i, a_pid = p, launched_at = unat l * 10 ^ 9,
                             launched_mono = cl_mono cl\<rparr> st, a + 1, d))
      else restore_apps alive cl es (st, a, d + 1))"

datatype restored = Malformed | Restored nat nat "string option"

definition restore_from_json ::
  "(pid \<Rightarrow> int \<times> int) \<Rightarrow> Clock \<Rightarrow> string \<Rightarrow> Store \<Rightarrow> (restored \<times> Store) option" where
  "restore_from_json kill cl body st =
     (case parse_apps body of
        None \<Rightarrow> Some (Malformed, st)
      | Some es \<Rightarrow>
          (let fg = parse_top_string body ''foreground'';
               hm = parse_top_string body ''home''
           in case restore_apps (pid_alive kill) cl es (st, 0, 0) of
                None \<Rightarrow> None
              | Some (st1, a, d) \<Rightarrow>
                  (let rfg = (case fg of None \<Rightarrow> None
                              | Some i \<Rightarrow> if app st1 i \<noteq> None then Some i else None);
                       st2 = (case hm of None \<Rightarrow> st1 | Some h \<Rightarrow> snd (set_home (Some h) st1));
                       st3 = fold upsert_alarm (parse_alarms body) st2
                   in Some (Restored a d rfg, st3))))"

end
