(* ===== verification/Bus.thy ===== *)
theory Bus
  imports StoreOps "HOL-Library.Monad_Syntax"
begin

text \<open>
  The module trait, the registry of modules and the event cascade
  (\<open>wandr-arbiter-core/src/lib.rs\<close>).  The trait is a record of its three methods over
  the type of a boxed module, so that the registry is written once for any set of modules,
  as \<open>Box<dyn ArbiterModule>\<close> does.  A handler that panics is \<open>None\<close>, and so
  is every dispatch that runs it.

  Three interfaces are locales here.  \<open>stable_verbs\<close> says that a module's verbs never
  change, so the index stays right; \<open>module_contract\<close> extends it by what the registry
  needs of its modules to keep an invariant of the store and to return at all; \<open>ranked_modules\<close>
  is what makes the cascade reach its fixpoint before the depth cap, so that no event is
  dropped.
\<close>

section \<open>The trait\<close>

record 'm ArbiterModule =
  verbs :: "'m \<Rightarrow> string list"
  on_command :: "'m \<Rightarrow> string \<Rightarrow> string \<Rightarrow> Ctx \<Rightarrow> (Reply \<times> 'm \<times> Ctx) option"
  on_event :: "'m \<Rightarrow> Event \<Rightarrow> Ctx \<Rightarrow> ('m \<times> Ctx) option"

record 'm Registry =
  modules :: "'m list"
  verb_index :: "(string \<times> nat) list"

definition Registry_new :: "'m Registry" where
  "Registry_new = \<lparr>modules = [], verb_index = []\<rparr>"

section \<open>Registration\<close>

fun index_verbs :: "nat \<Rightarrow> string list \<Rightarrow> (string \<times> nat) list \<Rightarrow> (string \<times> nat) list option" where
  "index_verbs idx [] vi = Some vi"
| "index_verbs idx (v # vs) vi =
     (if map_of vi v \<noteq> None then None else index_verbs idx vs (AList.update v idx vi))"

definition register :: "'m ArbiterModule \<Rightarrow> 'm \<Rightarrow> 'm Registry \<Rightarrow> 'm Registry option" where
  "register T m r = do {
     vi \<leftarrow> index_verbs (length (modules r)) (verbs T m) (verb_index r);
     Some \<lparr>modules = modules r @ [m], verb_index = vi\<rparr>
   }"

definition owns :: "'m Registry \<Rightarrow> string \<Rightarrow> bool" where
  "owns r v \<longleftrightarrow> map_of (verb_index r) v \<noteq> None"

section \<open>The cascade\<close>

definition MAX_CASCADE_DEPTH :: nat where "MAX_CASCADE_DEPTH = 16"

text \<open>One event to every module, in registration order.\<close>

fun fan_event ::
  "'m ArbiterModule \<Rightarrow> Clock \<Rightarrow> Event \<Rightarrow> 'm list \<Rightarrow> Store
     \<Rightarrow> ('m list \<times> Store \<times> Event list \<times> Effect list) option" where
  "fan_event T cl ev [] st = Some ([], st, [], [])"
| "fan_event T cl ev (m # ms) st = do {
     (m', c) \<leftarrow> on_event T m ev (Ctx_new cl st);
     (ms', st', evs, effs) \<leftarrow> fan_event T cl ev ms (store c);
     Some (m' # ms', st', events c @ evs, effects c @ effs)
   }"

fun fan_batch ::
  "'m ArbiterModule \<Rightarrow> Clock \<Rightarrow> Event list \<Rightarrow> 'm list \<Rightarrow> Store
     \<Rightarrow> ('m list \<times> Store \<times> Event list \<times> Effect list) option" where
  "fan_batch T cl [] ms st = Some (ms, st, [], [])"
| "fan_batch T cl (ev # evs) ms st = do {
     (ms1, st1, es1, fs1) \<leftarrow> fan_event T cl ev ms st;
     (ms2, st2, es2, fs2) \<leftarrow> fan_batch T cl evs ms1 st1;
     Some (ms2, st2, es1 @ es2, fs1 @ fs2)
   }"

text \<open>The loop of \<open>drain_cascade\<close>; the first argument is the batches still allowed.\<close>

fun drain ::
  "nat \<Rightarrow> 'm ArbiterModule \<Rightarrow> Clock \<Rightarrow> 'm list \<Rightarrow> Store \<Rightarrow> Event list \<Rightarrow> Effect list
     \<Rightarrow> ('m list \<times> Store \<times> Effect list) option" where
  "drain n T cl ms st [] effs = Some (ms, st, effs)"
| "drain 0 T cl ms st evs effs = Some (ms, st, effs)"
| "drain (Suc n) T cl ms st evs effs = do {
     (ms', st', evs', effs') \<leftarrow> fan_batch T cl evs ms st;
     drain n T cl ms' st' evs' (effs @ effs')
   }"

definition drain_cascade ::
  "'m ArbiterModule \<Rightarrow> Clock \<Rightarrow> 'm list \<Rightarrow> Store \<Rightarrow> Event list \<Rightarrow> Effect list
     \<Rightarrow> ('m list \<times> Store \<times> Effect list) option" where
  "drain_cascade = drain MAX_CASCADE_DEPTH"

text \<open>What the same loop leaves undelivered when it stops: the events a cap would drop.\<close>

fun left_over ::
  "nat \<Rightarrow> 'm ArbiterModule \<Rightarrow> Clock \<Rightarrow> 'm list \<Rightarrow> Store \<Rightarrow> Event list \<Rightarrow> Event list option" where
  "left_over n T cl ms st [] = Some []"
| "left_over 0 T cl ms st evs = Some evs"
| "left_over (Suc n) T cl ms st evs = do {
     (ms', st', evs', effs') \<leftarrow> fan_batch T cl evs ms st;
     left_over n T cl ms' st' evs'
   }"

text \<open>\<open>Some None\<close>: no module owns the verb.\<close>

definition dispatch_command ::
  "'m ArbiterModule \<Rightarrow> Clock \<Rightarrow> string \<Rightarrow> string \<Rightarrow> 'm Registry \<Rightarrow> Store
     \<Rightarrow> ((Reply \<times> Effect list) option \<times> 'm Registry \<times> Store) option" where
  "dispatch_command T cl verb args r st =
     (case map_of (verb_index r) verb of
        None \<Rightarrow> Some (None, r, st)
      | Some idx \<Rightarrow> do {
          (reply, m', c) \<leftarrow> on_command T (modules r ! idx) verb args (Ctx_new cl st);
          (ms, st', effs) \<leftarrow> drain_cascade T cl ((modules r)[idx := m']) (store c) (events c) (effects c);
          Some (Some (reply, effs), r\<lparr>modules := ms\<rparr>, st')
        })"

definition dispatch_event ::
  "'m ArbiterModule \<Rightarrow> Clock \<Rightarrow> Event \<Rightarrow> 'm Registry \<Rightarrow> Store
     \<Rightarrow> (Effect list \<times> 'm Registry \<times> Store) option" where
  "dispatch_event T cl ev r st = do {
     (ms, st', effs) \<leftarrow> drain_cascade T cl (modules r) st [ev] [];
     Some (effs, r\<lparr>modules := ms\<rparr>, st')
   }"

lemma left_over_returns:
  "left_over n T cl ms st evs = None \<longleftrightarrow> drain n T cl ms st evs effs = None"
proof (induction n arbitrary: ms st evs effs)
  case 0
  show ?case by (cases evs) simp_all
next
  case (Suc n)
  then show ?case
    by (cases evs) (auto simp del: fan_batch.simps split: Option.bind_split)
qed

section \<open>Registration is sound\<close>

text \<open>The index maps each verb to the one module that claims it.\<close>

definition index_ok :: "'m ArbiterModule \<Rightarrow> 'm Registry \<Rightarrow> bool" where
  "index_ok T r \<longleftrightarrow> (\<forall>v i. map_of (verb_index r) v = Some i \<longleftrightarrow>
     i < length (modules r) \<and> v \<in> set (verbs T (modules r ! i)))"

lemma index_verbs_Some:
  "index_verbs i vs vi = Some vi' \<Longrightarrow>
   map_of vi' v = (if v \<in> set vs then Some i else map_of vi v) \<and> (v \<in> set vs \<longrightarrow> map_of vi v = None)"
proof (induction vs arbitrary: vi)
  case (Cons w vs)
  from Cons.prems have w: "map_of vi w = None"
    and r: "index_verbs i vs (AList.update w i vi) = Some vi'"
    by (auto split: if_splits)
  from Cons.IH[OF r] w show ?case by (auto simp: update_conv' split: if_splits)
qed simp

lemma index_ok_new: "index_ok T Registry_new"
  by (simp add: index_ok_def Registry_new_def)

lemma register_index_ok:
  assumes "index_ok T r" "register T m r = Some r'"
  shows "index_ok T r'"
proof -
  obtain vi where vi: "index_verbs (length (modules r)) (verbs T m) (verb_index r) = Some vi"
    and r': "r' = \<lparr>modules = modules r @ [m], verb_index = vi\<rparr>"
    using assms(2) by (auto simp: register_def split: Option.bind_splits)
  have "map_of vi v = (if v \<in> set (verbs T m) then Some (length (modules r)) else map_of (verb_index r) v)"
    "v \<in> set (verbs T m) \<Longrightarrow> map_of (verb_index r) v = None" for v
    using index_verbs_Some[OF vi, of v] by auto
  moreover have "map_of (verb_index r) v = Some i \<longleftrightarrow>
      i < length (modules r) \<and> v \<in> set (verbs T (modules r ! i))" for v i
    using assms(1) by (simp add: index_ok_def)
  ultimately show ?thesis
    unfolding index_ok_def r' by (auto simp: nth_append less_Suc_eq) (metis option.distinct(1))+
qed

lemma index_ok_verbs:
  assumes "index_ok T r" "map (verbs T) (modules r') = map (verbs T) (modules r)" "verb_index r' = verb_index r"
  shows "index_ok T r'"
proof -
  have "length (modules r') = length (modules r)"
    using assms(2) by (metis length_map)
  moreover have "verbs T (modules r' ! i) = verbs T (modules r ! i)" if "i < length (modules r)" for i
    using that assms(2) calculation by (metis nth_map)
  ultimately show ?thesis
    using assms(1,3) unfolding index_ok_def by auto
qed

section \<open>What the registry asks of its modules\<close>

text \<open>A module's verbs are fixed: \<open>verbs(&self) -> &[&'static str]\<close>.\<close>

locale stable_verbs =
  fixes T :: "'m ArbiterModule"
  assumes verbs_event: "on_event T m ev c = Some (m', c') \<Longrightarrow> verbs T m' = verbs T m"
    and verbs_command: "on_command T m v a c = Some (r, m', c') \<Longrightarrow> verbs T m' = verbs T m"
begin

lemma fan_event_verbs:
  "fan_event T cl ev ms st = Some (ms', st', es, fs) \<Longrightarrow> map (verbs T) ms' = map (verbs T) ms"
proof (induction ms arbitrary: ms' st st' es fs)
  case (Cons m ms)
  then obtain m' c ms1 st1 es1 fs1 where
    "on_event T m ev (Ctx_new cl st) = Some (m', c)"
    "fan_event T cl ev ms (store c) = Some (ms1, st1, es1, fs1)" "ms' = m' # ms1"
    by (auto split: Option.bind_splits)
  with Cons.IH verbs_event show ?case by simp
qed simp

lemma fan_batch_verbs:
  "fan_batch T cl evs ms st = Some (ms', st', es, fs) \<Longrightarrow> map (verbs T) ms' = map (verbs T) ms"
  by (induction evs arbitrary: ms ms' st st' es fs) (fastforce split: Option.bind_splits dest: fan_event_verbs)+

lemma drain_verbs:
  "drain n T cl ms st evs effs = Some (ms', st', effs') \<Longrightarrow> map (verbs T) ms' = map (verbs T) ms"
proof (induction n arbitrary: ms st evs effs)
  case 0
  then show ?case by (cases evs) auto
next
  case (Suc n)
  show ?case
  proof (cases evs)
    case Nil
    with Suc.prems show ?thesis by simp
  next
    case (Cons ev evs')
    with Suc.prems obtain ms1 st1 es1 fs1 where
      "fan_batch T cl evs ms st = Some (ms1, st1, es1, fs1)"
      "drain n T cl ms1 st1 es1 (effs @ fs1) = Some (ms', st', effs')"
      by (auto simp del: fan_batch.simps split: Option.bind_splits)
    with Suc.IH fan_batch_verbs show ?thesis by metis
  qed
qed

lemma dispatch_event_index:
  assumes "index_ok T r" "dispatch_event T cl ev r st = Some (effs, r', st')"
  shows "index_ok T r'"
proof -
  obtain ms where d: "drain MAX_CASCADE_DEPTH T cl (modules r) st [ev] [] = Some (ms, st', effs)"
    and r': "r' = r\<lparr>modules := ms\<rparr>"
    using assms(2) by (auto simp: dispatch_event_def drain_cascade_def split: Option.bind_splits)
  show ?thesis
    unfolding r' by (rule index_ok_verbs[OF assms(1)]) (simp_all add: drain_verbs[OF d])
qed

lemma dispatch_command_index:
  assumes "index_ok T r" "dispatch_command T cl v a r st = Some (res, r', st')"
  shows "index_ok T r'"
proof (cases "map_of (verb_index r) v")
  case None
  with assms show ?thesis by (simp add: dispatch_command_def)
next
  case (Some i)
  with assms(1) have i: "i < length (modules r)"
    by (simp add: index_ok_def)
  from Some assms(2) obtain reply m' c ms effs where
    m: "on_command T (modules r ! i) v a (Ctx_new cl st) = Some (reply, m', c)"
    and d: "drain MAX_CASCADE_DEPTH T cl ((modules r)[i := m']) (store c) (events c) (effects c) = Some (ms, st', effs)"
    and r': "r' = r\<lparr>modules := ms\<rparr>"
    by (auto simp: dispatch_command_def drain_cascade_def split: Option.bind_splits)
  have "map (verbs T) ((modules r)[i := m']) = map (verbs T) (modules r)"
    using i verbs_command[OF m] by (metis list_update_id map_update nth_map)
  with drain_verbs[OF d] show ?thesis
    unfolding r' by (intro index_ok_verbs[OF assms(1)]) simp_all
qed

end

text \<open>
  \<open>I\<close> is an invariant of the store, \<open>J\<close> of a module's own state,
  \<open>E\<close> of the events on the bus, \<open>F\<close> of the effects requested, and
  \<open>P\<close> what a command line must satisfy.
\<close>

locale module_contract = stable_verbs T
  for T :: "'m ArbiterModule" +
  fixes I :: "Store \<Rightarrow> bool"
    and J :: "'m \<Rightarrow> bool"
    and E :: "Event \<Rightarrow> bool"
    and F :: "Effect \<Rightarrow> bool"
    and P :: "string \<Rightarrow> string \<Rightarrow> Store \<Rightarrow> bool"
  assumes event_ok:
    "I st \<Longrightarrow> J m \<Longrightarrow> E ev \<Longrightarrow>
     \<exists>m' c. on_event T m ev (Ctx_new cl st) = Some (m', c) \<and> I (store c) \<and> J m'
       \<and> list_all E (events c) \<and> list_all F (effects c)"
    and command_ok:
    "I st \<Longrightarrow> J m \<Longrightarrow> P v a st \<Longrightarrow>
     \<exists>r m' c. on_command T m v a (Ctx_new cl st) = Some (r, m', c) \<and> I (store c) \<and> J m'
       \<and> list_all E (events c) \<and> list_all F (effects c)"
begin

lemma fan_event_ok:
  "I st \<Longrightarrow> list_all J ms \<Longrightarrow> E ev \<Longrightarrow>
   \<exists>ms' st' es fs. fan_event T cl ev ms st = Some (ms', st', es, fs) \<and> I st' \<and> list_all J ms'
     \<and> length ms' = length ms \<and> list_all E es \<and> list_all F fs"
proof (induction ms arbitrary: st)
  case (Cons m ms)
  then obtain m' c where m: "on_event T m ev (Ctx_new cl st) = Some (m', c)" "I (store c)" "J m'"
    "list_all E (events c)" "list_all F (effects c)"
    using event_ok[of st m ev cl] by auto
  from Cons.IH[OF m(2)] Cons.prems obtain ms' st' es fs where
    "fan_event T cl ev ms (store c) = Some (ms', st', es, fs)" "I st'" "list_all J ms'"
    "length ms' = length ms" "list_all E es" "list_all F fs"
    by auto
  with m show ?case by simp
qed simp

lemma fan_batch_ok:
  "I st \<Longrightarrow> list_all J ms \<Longrightarrow> list_all E evs \<Longrightarrow>
   \<exists>ms' st' es fs. fan_batch T cl evs ms st = Some (ms', st', es, fs) \<and> I st' \<and> list_all J ms'
     \<and> length ms' = length ms \<and> list_all E es \<and> list_all F fs"
proof (induction evs arbitrary: ms st)
  case (Cons ev evs)
  from Cons.prems fan_event_ok[of st ms ev cl] obtain ms1 st1 es1 fs1 where
    1: "fan_event T cl ev ms st = Some (ms1, st1, es1, fs1)" "I st1" "list_all J ms1"
    "length ms1 = length ms" "list_all E es1" "list_all F fs1"
    by auto
  from Cons.IH[OF 1(2,3)] Cons.prems obtain ms2 st2 es2 fs2 where
    "fan_batch T cl evs ms1 st1 = Some (ms2, st2, es2, fs2)" "I st2" "list_all J ms2"
    "length ms2 = length ms1" "list_all E es2" "list_all F fs2"
    by auto
  with 1 show ?case by simp
qed simp

lemma drain_ok:
  "I st \<Longrightarrow> list_all J ms \<Longrightarrow> list_all E evs \<Longrightarrow> list_all F effs \<Longrightarrow>
   \<exists>ms' st' effs'. drain n T cl ms st evs effs = Some (ms', st', effs') \<and> I st' \<and> list_all J ms'
     \<and> length ms' = length ms \<and> list_all F effs'"
proof (induction n arbitrary: ms st evs effs)
  case 0
  then show ?case by (cases evs) auto
next
  case (Suc n)
  show ?case
  proof (cases evs)
    case Nil
    with Suc.prems show ?thesis by auto
  next
    case (Cons ev evs')
    from fan_batch_ok[OF Suc.prems(1-3), of cl] obtain ms1 st1 es1 fs1 where
      1: "fan_batch T cl evs ms st = Some (ms1, st1, es1, fs1)" "I st1" "list_all J ms1"
      "length ms1 = length ms" "list_all E es1" "list_all F fs1"
      by auto
    have "list_all F (effs @ fs1)"
      using Suc.prems(4) 1(6) by simp
    from Suc.IH[OF 1(2,3,5) this] 1(1,4) Cons show ?thesis
      by (auto simp del: fan_batch.simps)
  qed
qed

lemma dispatch_event_ok:
  assumes "I st" "list_all J (modules r)" "E ev"
  shows "\<exists>effs r' st'. dispatch_event T cl ev r st = Some (effs, r', st') \<and> I st'
     \<and> list_all J (modules r') \<and> length (modules r') = length (modules r)
     \<and> verb_index r' = verb_index r \<and> list_all F effs"
proof -
  obtain ms st' effs where
    "drain MAX_CASCADE_DEPTH T cl (modules r) st [ev] [] = Some (ms, st', effs)" "I st'" "list_all J ms"
    "length ms = length (modules r)" "list_all F effs"
    using drain_ok[OF assms(1,2), of "[ev]" "[]" MAX_CASCADE_DEPTH cl] assms(3) by auto
  then show ?thesis by (simp add: dispatch_event_def drain_cascade_def)
qed

lemma dispatch_command_ok:
  assumes "I st" "list_all J (modules r)" "index_ok T r" "P v a st"
  shows "\<exists>res r' st'. dispatch_command T cl v a r st = Some (res, r', st') \<and> I st'
     \<and> list_all J (modules r') \<and> verb_index r' = verb_index r \<and> (res \<noteq> None \<longleftrightarrow> owns r v)
     \<and> (\<forall>reply effs. res = Some (reply, effs) \<longrightarrow> list_all F effs)"
proof (cases "map_of (verb_index r) v")
  case None
  with assms(1,2) show ?thesis by (auto simp: dispatch_command_def owns_def)
next
  case (Some i)
  with assms(3) have i: "i < length (modules r)"
    by (simp add: index_ok_def)
  with assms(2) have "J (modules r ! i)"
    by (simp add: list_all_length)
  from command_ok[OF assms(1) this assms(4), of cl] obtain reply m' c where
    m: "on_command T (modules r ! i) v a (Ctx_new cl st) = Some (reply, m', c)" "I (store c)" "J m'"
    "list_all E (events c)" "list_all F (effects c)"
    by blast
  have "list_all J ((modules r)[i := m'])"
    using assms(2) i m(3) by (simp add: list_all_length nth_list_update)
  from drain_ok[OF m(2) this m(4,5), of MAX_CASCADE_DEPTH cl] Some m(1) show ?thesis
    by (auto simp: dispatch_command_def drain_cascade_def owns_def)
qed

end

section \<open>When the cascade reaches its fixpoint\<close>

text \<open>
  A rank of events that every reaction lowers: a cascade from events of rank below \<open>n\<close>
  needs at most \<open>n\<close> batches, so a larger cap changes nothing.
\<close>

locale ranked_modules =
  fixes T :: "'m ArbiterModule"
    and rank :: "Event \<Rightarrow> nat"
  assumes lowers:
    "on_event T m ev (Ctx_new cl st) = Some (m', c) \<Longrightarrow> e \<in> set (events c) \<Longrightarrow> rank e < rank ev"
begin

lemma fan_event_lowers:
  "fan_event T cl ev ms st = Some (ms', st', es, fs) \<Longrightarrow> e \<in> set es \<Longrightarrow> rank e < rank ev"
proof (induction ms arbitrary: ms' st st' es fs)
  case (Cons m ms)
  then obtain m' c ms1 st1 es1 fs1 where
    "on_event T m ev (Ctx_new cl st) = Some (m', c)"
    "fan_event T cl ev ms (store c) = Some (ms1, st1, es1, fs1)" "es = events c @ es1"
    by (auto split: Option.bind_splits)
  with Cons.IH Cons.prems(2) show ?case
    by (auto intro: lowers)
qed simp

lemma fan_batch_lowers:
  "fan_batch T cl evs ms st = Some (ms', st', es, fs) \<Longrightarrow> e \<in> set es \<Longrightarrow>
   \<exists>ev \<in> set evs. rank e < rank ev"
  by (induction evs arbitrary: ms ms' st st' es fs)
    (fastforce split: Option.bind_splits dest: fan_event_lowers)+

lemma drain_fixpoint:
  "\<forall>e \<in> set evs. rank e < n \<Longrightarrow> n \<le> k \<Longrightarrow>
   drain k T cl ms st evs effs = drain n T cl ms st evs effs"
proof (induction n arbitrary: k ms st evs effs)
  case 0
  then show ?case by (cases evs) auto
next
  case (Suc n)
  then obtain k' where k: "k = Suc k'" "n \<le> k'"
    by (cases k) auto
  show ?case
  proof (cases "evs = []")
    case True
    then show ?thesis by simp
  next
    case False
    have "drain k' T cl ms1 st1 es1 fs = drain n T cl ms1 st1 es1 fs"
      if "fan_batch T cl evs ms st = Some (ms1, st1, es1, fs1)" for ms1 st1 es1 fs1 fs
      using Suc.prems(1) k(2) fan_batch_lowers[OF that] by (intro Suc.IH) fastforce+
    with False k(1) show ?thesis
      by (cases evs) (auto simp del: fan_batch.simps split: Option.bind_split)
  qed
qed

lemma none_left:
  "\<forall>e \<in> set evs. rank e < n \<Longrightarrow> left_over n T cl ms st evs = Some es \<Longrightarrow> es = []"
proof (induction n arbitrary: ms st evs)
  case 0
  then show ?case by (cases evs) auto
next
  case (Suc n)
  show ?case
  proof (cases "evs = []")
    case False
    with Suc.prems(2) obtain ms1 st1 es1 fs1 where
      f: "fan_batch T cl evs ms st = Some (ms1, st1, es1, fs1)" "left_over n T cl ms1 st1 es1 = Some es"
      by (cases evs) (auto simp del: fan_batch.simps split: Option.bind_splits)
    have "\<forall>e \<in> set es1. rank e < n"
      using Suc.prems(1) fan_batch_lowers[OF f(1)] by fastforce
    from Suc.IH[OF this f(2)] show ?thesis .
  qed (use Suc.prems(2) in simp)
qed

lemma drain_cascade_settles:
  assumes "\<forall>e \<in> set evs. rank e < MAX_CASCADE_DEPTH" "MAX_CASCADE_DEPTH \<le> k"
  shows "drain_cascade T cl ms st evs effs = drain k T cl ms st evs effs"
  using drain_fixpoint[OF assms, of cl ms st effs] by (simp add: drain_cascade_def)

end

end
