(* ===== verification/Wm.thy ===== *)
theory Wm
  imports Bus
begin

text \<open>
  The window manager module (\<open>wandr-arbiter-wm\<close>): which orientation and insets a
  surface is told, to whom they are pushed, and the list of input windows the arbiter
  authors for the input dispatcher.  The module keeps no state of its own.

  Pixel coordinates are \<open>i32\<close> in the code: they are 32-bit words here, read as signed
  numbers where the code compares or prints them, with wrapping subtraction.
\<close>

unbundle bit_operations_syntax

section \<open>Orientation\<close>

definition device_rotation_to_orient :: "u32 \<Rightarrow> u32" where
  "device_rotation_to_orient rot =
     (let r = rot AND 3 in if r = 0 then 0 else if r = 1 then 4 else if r = 2 then 3 else 7)"

definition focused_editor :: "Store \<Rightarrow> u32 \<Rightarrow> pid option" where
  "focused_editor st i = Option.bind (display st i) (\<lambda>d. map_option fst (ime_editor d))"

definition effective_orient :: "Store \<Rightarrow> u32 \<Rightarrow> u32" where
  "effective_orient st i =
     (if or_default False
           (map_option (\<lambda>d. list_ex (\<lambda>s. s_role s = Lockscreen) (surfaces d)) (display st i))
      then 0
      else or_default ORIENT_HOST_OWNED
             (map_option (\<lambda>g. if orientation_locked g then 0 else orientation g) (store_geometry st i)))"

section \<open>Geometry lines\<close>

definition inset_fields :: "Store \<Rightarrow> u32 \<Rightarrow> u32 \<times> u32" where
  "inset_fields st i =
     (case store_geometry st i of
        None \<Rightarrow> (INSET_HOST_OWNED, INSET_HOST_OWNED)
      | Some g \<Rightarrow>
          if immersive g then (0, 0)
          else if density_known g then chrome_insets g
          else (INSET_HOST_OWNED, INSET_HOST_OWNED))"

definition has_surface_policy :: "Store \<Rightarrow> u32 \<Rightarrow> bool" where
  "has_surface_policy st i =
     or_default False
       (map_option (\<lambda>g. density_known g \<or> orientation g \<noteq> ORIENT_HOST_OWNED) (store_geometry st i))"

definition geometry_line :: "Store \<Rightarrow> u32 \<Rightarrow> u32 \<Rightarrow> string" where
  "geometry_line st i kb =
     (let orient = effective_orient st i; (top, bottom) = inset_fields st i
      in ''geometry '' @ show_u32 top @ '' '' @ show_u32 bottom @ '' '' @ show_u32 kb @ '' '' @
         show_u32 orient @ [CHR 0x0A])"

definition wm_keyboard_px :: "Store \<Rightarrow> u32 \<Rightarrow> u32" where
  "wm_keyboard_px st i = or_default 0 (map_option keyboard_px (store_geometry st i))"

text \<open>A line to each of the targets, in order.\<close>

definition deliver_all :: "pid list \<Rightarrow> string \<Rightarrow> Ctx \<Rightarrow> Ctx" where
  "deliver_all ps line c = fold (\<lambda>p. deliver_to_host p line) ps c"

definition overlay_targets :: "Store \<Rightarrow> u32 \<Rightarrow> pid list" where
  "overlay_targets st i =
     (let ts = or_default [] (map_option (\<lambda>d. map s_pid
                 (filter (\<lambda>s. s_role s = Chrome \<or> s_role s = Lockscreen) (surfaces d))) (display st i))
      in case Option.bind (display st i) active_ime of
           None \<Rightarrow> ts
         | Some ime \<Rightarrow> if ime \<in> set ts then ts else ts @ [ime])"

definition fan_overlays :: "u32 \<Rightarrow> Ctx \<Rightarrow> Ctx" where
  "fan_overlays i c =
     (if effective_orient (store c) i = ORIENT_HOST_OWNED then c
      else deliver_all (overlay_targets (store c) i) (geometry_line (store c) i 0) c)"

definition apply_device_rotation :: "u32 \<Rightarrow> Ctx \<Rightarrow> u32 \<times> Ctx" where
  "apply_device_rotation raw c =
     (let orient = device_rotation_to_orient raw
      in (orient, emit (OrientationChanged PRIMARY_DISPLAY orient) c))"

definition push_system_orientation :: "u32 \<Rightarrow> Ctx \<Rightarrow> Ctx" where
  "push_system_orientation i c =
     (let editor = focused_editor (store c) i;
          c1 = (case editor of None \<Rightarrow> c
                | Some ed \<Rightarrow> deliver_to_host ed (geometry_line (store c) i (wm_keyboard_px (store c) i)) c);
          c2 = (case Option.bind (display (store c1) i) visible_app of None \<Rightarrow> c1
                | Some fg \<Rightarrow> if Some fg \<noteq> editor
                             then deliver_to_host fg (geometry_line (store c1) i 0) c1 else c1)
      in fan_overlays i c2)"

section \<open>Input windows\<close>

definition Z_STATUS_BAR :: int where "Z_STATUS_BAR = 100"
definition Z_LOCKSCREEN :: int where "Z_LOCKSCREEN = 90"
definition Z_IME :: int where "Z_IME = 85"
definition Z_TASKBAR :: int where "Z_TASKBAR = 80"
definition Z_APP :: int where "Z_APP = 10"

datatype Edge = N | S | W | E

definition user_bottom_edge :: "u32 \<Rightarrow> Edge" where
  "user_bottom_edge orient = (if orient = 3 then N else if orient = 4 then W else if orient = 7 then E else S)"

definition opposite :: "Edge \<Rightarrow> Edge" where
  "opposite e = (case e of S \<Rightarrow> N | N \<Rightarrow> S | W \<Rightarrow> E | E \<Rightarrow> W)"

text \<open>A \<open>th\<close>-thick, full-span strip \<open>off\<close> px inward from \<open>edge\<close>.\<close>

definition edge_rect :: "Edge \<Rightarrow> u32 \<Rightarrow> u32 \<Rightarrow> u32 \<Rightarrow> u32 \<Rightarrow> u32 \<times> u32 \<times> u32 \<times> u32" where
  "edge_rect edge th off pw ph =
     (case edge of
        S \<Rightarrow> (0, ph - off - th, pw, ph - off)
      | N \<Rightarrow> (0, off, pw, off + th)
      | W \<Rightarrow> (off, 0, off + th, ph)
      | E \<Rightarrow> (pw - off - th, 0, pw - off, ph))"

definition strip_rect ::
  "bool \<Rightarrow> u32 \<Rightarrow> u32 \<Rightarrow> u32 \<Rightarrow> u32 \<Rightarrow> u32 \<Rightarrow> u32 \<times> u32 \<times> u32 \<times> u32" where
  "strip_rect at_bottom th off orient pw ph =
     (let ub = user_bottom_edge orient; edge = (if at_bottom then ub else opposite ub)
      in edge_rect edge th off pw ph)"

record InputWin =
  w_pid :: pid
  w_z :: int
  w_l :: u32
  w_t :: u32
  w_r :: u32
  w_b :: u32
  focusable :: bool

definition mk_win :: "pid \<Rightarrow> int \<Rightarrow> bool \<Rightarrow> u32 \<times> u32 \<times> u32 \<times> u32 \<Rightarrow> InputWin" where
  "mk_win p z f q = (case q of (l, t, r, b) \<Rightarrow>
     \<lparr>w_pid = p, w_z = z, w_l = l, w_t = t, w_r = r, w_b = b, focusable = f\<rparr>)"

definition window_insets :: "DisplayGeometry \<Rightarrow> u32 \<times> u32" where
  "window_insets g =
     (if immersive g then (0, 0)
      else case chrome_insets g of (t, b) \<Rightarrow>
        if t \<noteq> INSET_HOST_OWNED \<and> b \<noteq> INSET_HOST_OWNED then (t, b) else (0, 0))"

text \<open>The window of one surface: the body of the loop, \<open>None\<close> for \<open>continue\<close>.\<close>

definition window_of :: "DisplayGeometry \<Rightarrow> u32 \<Rightarrow> Surface \<Rightarrow> InputWin option" where
  "window_of g orient s =
     (let w = panel_w g; h = panel_h g; (it, ib) = window_insets g; kb = keyboard_px g in
      case s_role s of
        Role.Foreground \<Rightarrow> Some (mk_win (s_pid s) Z_APP True (0, 0, w, h))
      | OverlayBehind \<Rightarrow> Some (mk_win (s_pid s) Z_APP True (0, 0, w, h))
      | Lockscreen \<Rightarrow> Some (mk_win (s_pid s) Z_LOCKSCREEN True (0, 0, w, h))
      | Overlay \<Rightarrow>
          if sint kb \<le> 0 then None
          else Some (mk_win (s_pid s) Z_IME False (strip_rect True kb ib orient w h))
      | Chrome \<Rightarrow>
          (case s_anchor s of
             Some Top \<Rightarrow>
               if sint it \<le> 0 then None
               else Some (mk_win (s_pid s) Z_STATUS_BAR False (strip_rect False it 0 orient w h))
           | Some Bottom \<Rightarrow>
               if sint ib \<le> 0 then None
               else Some (mk_win (s_pid s) Z_TASKBAR False (strip_rect True ib 0 orient w h))
           | None \<Rightarrow> None)
      | Background \<Rightarrow> None
      | Role.Headless \<Rightarrow> None)"

definition input_windows :: "Store \<Rightarrow> u32 \<Rightarrow> InputWin list" where
  "input_windows st i =
     (case display st i of None \<Rightarrow> []
      | Some d \<Rightarrow>
          if panel_w (geometry d) = 0 \<or> panel_h (geometry d) = 0 then []
          else sort_key (\<lambda>w. - w_z w)
                 (List.map_filter (window_of (geometry d) (effective_orient st i)) (surfaces d)))"

definition focus_pid :: "DisplayState \<Rightarrow> pid" where
  "focus_pid d =
     or_default (- 1)
       (case first_with_role Lockscreen d of Some s \<Rightarrow> Some (s_pid s) | None \<Rightarrow> visible_app d)"

definition win_line :: "InputWin \<Rightarrow> string" where
  "win_line w = ''win '' @ show_int (w_pid w) @ '' '' @ show_i32 (w_l w) @ '' '' @ show_i32 (w_t w) @ '' '' @
     show_i32 (w_r w) @ '' '' @ show_i32 (w_b w) @ '' '' @ show_bit (focusable w) @ [CHR 0x0A]"

definition input_window_block :: "Store \<Rightarrow> u32 \<Rightarrow> string option" where
  "input_window_block st i =
     (case display st i of None \<Rightarrow> None
      | Some d \<Rightarrow>
          if input_windows st i = [] then None
          else Some (
            ''win-begin '' @ show_u32 (effective_orient st i) @ '' '' @ show_i32 (panel_w (geometry d)) @
              '' '' @ show_i32 (panel_h (geometry d)) @ [CHR 0x0A] @
            concat (map win_line (input_windows st i)) @
            ''win-focus '' @ show_int (focus_pid d) @ [CHR 0x0A] @ ''win-commit'' @ [CHR 0x0A]))"

section \<open>Commands\<close>

definition wm_verbs :: "string list" where
  "wm_verbs = [''report-orientation'', ''set-orientation-lock'', ''report-panel'', ''set-immersive'']"

definition cmd_report_orientation :: "string \<Rightarrow> Ctx \<Rightarrow> Reply \<times> Ctx" where
  "cmd_report_orientation args c =
     (case split_ws args of
        [] \<Rightarrow> (Err ''report-orientation-missing-raw'', c)
      | tok # _ \<Rightarrow>
          (case parse_u32 tok of
             None \<Rightarrow> (Err (''report-orientation-bad-raw '' @ str_debug tok), c)
           | Some raw \<Rightarrow>
               (let (orient, c1) = apply_device_rotation raw c
                in (Ok (''orientation raw='' @ show_u32 raw @ '' orient='' @ show_u32 orient), c1))))"

definition parse_flag :: "string \<Rightarrow> bool option" where
  "parse_flag s = (if s = ''1'' then Some True else if s = ''0'' then Some False else None)"

definition cmd_set_orientation_lock :: "string \<Rightarrow> Ctx \<Rightarrow> Reply \<times> Ctx" where
  "cmd_set_orientation_lock args c =
     (case parse_flag (trim args) of
        None \<Rightarrow> (Err (''set-orientation-lock-bad-arg '' @ str_debug (trim args)), c)
      | Some locked \<Rightarrow>
          (let c1 = on_store (geometry_mut PRIMARY_DISPLAY (\<lambda>g. g\<lparr>orientation_locked := locked\<rparr>)) c
           in (Ok (''orientation-lock '' @ show_bit locked), push_system_orientation PRIMARY_DISPLAY c1)))"

definition F32_EPSILON :: fp where
  "F32_EPSILON = Fin False (1 / 2 ^ 23)"

definition cmd_report_panel :: "string \<Rightarrow> Ctx \<Rightarrow> Reply \<times> Ctx" where
  "cmd_report_panel args c =
     (case split_ws args of
        [a, b, e] \<Rightarrow>
          (case (parse_u32 a, parse_u32 b, parse_u32 e) of
             (Some w, Some h, Some dpi) \<Rightarrow>
               (let dens = fdiv f32 (fp_of_nat f32 (unat dpi)) (Fin False 160);
                    g = or_default DisplayGeometry_default (store_geometry (store c) PRIMARY_DISPLAY);
                    changed = (flt F32_EPSILON (fabs (fsub f32 (density g) dens))
                               \<or> panel_w g \<noteq> w \<or> panel_h g \<noteq> h);
                    c1 = on_store (geometry_mut PRIMARY_DISPLAY
                           (\<lambda>g. g\<lparr>panel_w := w, panel_h := h, density := dens\<rparr>)) c;
                    (top, bottom) = or_default (INSET_HOST_OWNED, INSET_HOST_OWNED)
                           (map_option chrome_insets (store_geometry (store c1) PRIMARY_DISPLAY));
                    c2 = (if changed
                          then push_system_orientation PRIMARY_DISPLAY
                                 (emit (PanelMeasured PRIMARY_DISPLAY w h dens) c1)
                          else c1)
                in (Ok (''panel w='' @ show_u32 w @ '' h='' @ show_u32 h @ '' density='' @ show_fixed 3 dens @
                        '' inset-top='' @ show_u32 top @ '' inset-bottom='' @ show_u32 bottom), c2))
           | _ \<Rightarrow> (Err (''report-panel-bad-args '' @ str_debug args), c))
      | _ \<Rightarrow> (Err ''report-panel-args: expected <w> <h> <dpi>'', c))"

definition chrome_pids :: "DisplayState \<Rightarrow> pid list" where
  "chrome_pids d = map s_pid (filter (\<lambda>s. s_role s = Chrome) (surfaces d))"

definition cmd_set_immersive :: "string \<Rightarrow> Ctx \<Rightarrow> Reply \<times> Ctx" where
  "cmd_set_immersive args c =
     (case parse_flag (trim args) of
        None \<Rightarrow> (Err (''set-immersive-bad-arg '' @ str_debug (trim args)), c)
      | Some imm \<Rightarrow>
          if map_option immersive (store_geometry (store c) PRIMARY_DISPLAY) = Some imm
          then (Ok (''immersive '' @ show_bit imm @ '' (unchanged)''), c)
          else
            (let c1 = on_store (geometry_mut PRIMARY_DISPLAY (\<lambda>g. g\<lparr>immersive := imm\<rparr>)) c;
                 ps = or_default [] (map_option chrome_pids (display (store c1) PRIMARY_DISPLAY));
                 c2 = fold (\<lambda>p. request (SignalVisible p (\<not> imm))) ps c1;
                 c3 = (case Option.bind (display (store c2) PRIMARY_DISPLAY) visible_app of
                         None \<Rightarrow> c2
                       | Some fg \<Rightarrow> deliver_to_host fg (geometry_line (store c2) PRIMARY_DISPLAY 0) c2)
             in (Ok (''immersive '' @ show_bit imm), c3)))"

definition wm_on_command :: "string \<Rightarrow> string \<Rightarrow> Ctx \<Rightarrow> Reply \<times> Ctx" where
  "wm_on_command verb args c =
     (if verb = ''report-orientation'' then cmd_report_orientation args c
      else if verb = ''set-orientation-lock'' then cmd_set_orientation_lock args c
      else if verb = ''report-panel'' then cmd_report_panel args c
      else if verb = ''set-immersive'' then cmd_set_immersive args c
      else (Err (''wm-unknown-verb '' @ verb), c))"

section \<open>Events\<close>

definition wm_ime_height :: "u32 \<Rightarrow> u32 \<Rightarrow> Ctx \<Rightarrow> Ctx" where
  "wm_ime_height i px c =
     (let c1 = on_store (geometry_mut i (\<lambda>g. g\<lparr>keyboard_px := px\<rparr>)) c
      in case focused_editor (store c1) i of None \<Rightarrow> c1
         | Some ed \<Rightarrow> deliver_to_host ed (geometry_line (store c1) i px) c1)"

definition wm_foreground :: "pid option \<Rightarrow> Ctx \<Rightarrow> Ctx" where
  "wm_foreground p c =
     (case p of None \<Rightarrow> c
      | Some fg \<Rightarrow>
          if has_surface_policy (store c) PRIMARY_DISPLAY
          then deliver_to_host fg (geometry_line (store c) PRIMARY_DISPLAY 0) c else c)"

definition wm_orientation :: "u32 \<Rightarrow> u32 \<Rightarrow> Ctx \<Rightarrow> Ctx" where
  "wm_orientation i orient c =
     push_system_orientation i (on_store (geometry_mut i (\<lambda>g. g\<lparr>orientation := orient\<rparr>)) c)"

definition wm_device_orientation :: "fp \<Rightarrow> Ctx \<Rightarrow> Ctx" where
  "wm_device_orientation x c =
     (let raw = word_of_int (fp_to_i64 (fround x) mod 4) :: u32;
          orient = device_rotation_to_orient raw
      in if map_option orientation (store_geometry (store c) PRIMARY_DISPLAY) \<noteq> Some orient
         then snd (apply_device_rotation raw c) else c)"

definition wm_on_event :: "Event \<Rightarrow> Ctx \<Rightarrow> Ctx" where
  "wm_on_event ev c =
     (case ev of
        ImeHeightChanged i px \<Rightarrow> wm_ime_height i px c
      | EditorFocusChanged editor focused \<Rightarrow>
          if \<not> focused
          then deliver_to_host editor (geometry_line (store c) PRIMARY_DISPLAY 0) c else c
      | ForegroundChanged a p \<Rightarrow> wm_foreground p c
      | OrientationChanged i orient \<Rightarrow> wm_orientation i orient c
      | SensorReading k x y z t \<Rightarrow> if k = DeviceOrientation then wm_device_orientation x c else c
      | _ \<Rightarrow> c)"

section \<open>Frames: the window manager only writes geometry\<close>

lemma deliver_all_simps [simp, frame_simps]:
  "store (deliver_all ps l c) = store c" "events (deliver_all ps l c) = events c"
  "clock (deliver_all ps l c) = clock c"
  "effects (deliver_all ps l c) = effects c @ map (\<lambda>p. HostLine p l) ps"
  by (induction ps arbitrary: c) (simp_all add: deliver_all_def)

lemma fold_signal_simps [simp, frame_simps]:
  "store (fold (\<lambda>p. request (SignalVisible p v)) ps c) = store c"
  "events (fold (\<lambda>p. request (SignalVisible p v)) ps c) = events c"
  "effects (fold (\<lambda>p. request (SignalVisible p v)) ps c) = effects c @ map (\<lambda>p. SignalVisible p v) ps"
  by (induction ps arbitrary: c) simp_all

lemma push_frame [simp, frame_simps]:
  "store (push_system_orientation i c) = store c" "events (push_system_orientation i c) = events c"
  by (auto simp: push_system_orientation_def fan_overlays_def Let_def split: option.split)

lemma fan_overlays_effects:
  "effects (fan_overlays i c) = effects c @
     (if effective_orient (store c) i = ORIENT_HOST_OWNED then []
      else map (\<lambda>p. HostLine p (geometry_line (store c) i 0)) (overlay_targets (store c) i))"
  by (simp add: fan_overlays_def)

text \<open>Whom a rotation is told, and with which keyboard occlusion.\<close>

definition push_lines :: "Store \<Rightarrow> u32 \<Rightarrow> Effect list" where
  "push_lines st i =
     (case focused_editor st i of None \<Rightarrow> []
      | Some ed \<Rightarrow> [HostLine ed (geometry_line st i (wm_keyboard_px st i))]) @
     (case Option.bind (display st i) visible_app of None \<Rightarrow> []
      | Some fg \<Rightarrow> if Some fg \<noteq> focused_editor st i then [HostLine fg (geometry_line st i 0)] else []) @
     (if effective_orient st i = ORIENT_HOST_OWNED then []
      else map (\<lambda>p. HostLine p (geometry_line st i 0)) (overlay_targets st i))"

lemma push_effects:
  "effects (push_system_orientation i c) = effects c @ push_lines (store c) i"
  by (auto simp: push_system_orientation_def push_lines_def fan_overlays_effects Let_def
      split: option.split)

text \<open>A handler that keeps everything of the store but the geometry of its displays.\<close>

definition geometry_only :: "Store \<Rightarrow> Store \<Rightarrow> bool" where
  "geometry_only st st' \<longleftrightarrow>
     (\<exists>i f. st' = st \<or> st' = geometry_mut i f st)"

lemma geometry_only_refl [simp]: "geometry_only st st"
  by (auto simp: geometry_only_def)

lemma geometry_only_mut [simp]: "geometry_only st (geometry_mut i f st)"
  by (auto simp: geometry_only_def)

lemma wm_on_command_store: "geometry_only (store c) (store (snd (wm_on_command v a c)))"
  by (auto simp: wm_on_command_def cmd_report_orientation_def cmd_set_orientation_lock_def
      cmd_report_panel_def cmd_set_immersive_def apply_device_rotation_def Let_def
      split: option.split list.split prod.split)

lemma wm_on_event_store: "geometry_only (store c) (store (wm_on_event ev c))"
  by (cases ev) (auto simp: wm_on_event_def wm_ime_height_def wm_foreground_def wm_orientation_def
      wm_device_orientation_def apply_device_rotation_def Let_def split: option.split)

text \<open>The only event it emits is the decided orientation.\<close>

lemma wm_on_event_events:
  "events (wm_on_event ev c) = events c \<or>
   (\<exists>x y z t o'. ev = SensorReading DeviceOrientation x y z t \<and>
      events (wm_on_event ev c) = events c @ [OrientationChanged PRIMARY_DISPLAY o'])"
  by (cases ev) (auto simp: wm_on_event_def wm_ime_height_def wm_foreground_def wm_orientation_def
      wm_device_orientation_def apply_device_rotation_def Let_def split: option.split)

section \<open>Orientation\<close>

lemma device_rotation_values: "device_rotation_to_orient r \<in> {0, 3, 4, 7}"
  by (simp add: device_rotation_to_orient_def Let_def)

text \<open>A reading that confirms the current orientation is not announced again.\<close>

lemma device_orientation_idem:
  assumes "store_geometry st PRIMARY_DISPLAY = Some g"
    and "orientation g = device_rotation_to_orient (word_of_int (fp_to_i64 (fround x) mod 4))"
    and "store c = st"
  shows "wm_device_orientation x c = c"
  using assms by (simp add: wm_device_orientation_def Let_def)

lemma effective_orient_lock:
  "effective_orient (geometry_mut i (\<lambda>g. g\<lparr>orientation_locked := True\<rparr>) st) i = 0"
  by (simp add: effective_orient_def)

lemma effective_orient_lockscreen:
  assumes "display st i = Some d" "role_of p d = Some Lockscreen"
  shows "effective_orient st i = 0"
proof -
  have "list_ex (\<lambda>s. s_role s = Lockscreen) (surfaces d)"
    using role_of_SomeD[OF assms(2)] by (auto simp: list_ex_iff)
  with assms(1) show ?thesis by (simp add: effective_orient_def)
qed

lemma push_lines_form:
  "e \<in> set (push_lines st i) \<Longrightarrow> \<exists>p kb. e = HostLine p (geometry_line st i kb)"
  by (auto simp: push_lines_def split: option.splits if_splits)

section \<open>Input windows\<close>

lemma input_windows_sorted: "sorted_wrt (\<lambda>a b. w_z b \<le> w_z a) (input_windows st i)"
proof -
  have "sorted (map (\<lambda>w. - w_z w) (sort_key (\<lambda>w. - w_z w) ws))" for ws :: "InputWin list"
    by simp
  then show ?thesis
    by (auto simp: input_windows_def sorted_map split: option.split)
qed

lemma set_input_windows:
  "display st i = Some d \<Longrightarrow> panel_w (geometry d) \<noteq> 0 \<Longrightarrow> panel_h (geometry d) \<noteq> 0 \<Longrightarrow>
   set (input_windows st i) =
     {w. \<exists>s \<in> set (surfaces d). window_of (geometry d) (effective_orient st i) s = Some w}"
  by (force simp: input_windows_def List.map_filter_def image_iff)

lemma window_of_role:
  assumes "window_of g o' s = Some w"
  shows "w_pid w = s_pid s \<and>
    (s_role s = Role.Foreground \<and> w_z w = Z_APP \<or> s_role s = OverlayBehind \<and> w_z w = Z_APP
     \<or> s_role s = Lockscreen \<and> w_z w = Z_LOCKSCREEN \<or> s_role s = Overlay \<and> w_z w = Z_IME
     \<or> s_role s = Chrome \<and> s_anchor s = Some Top \<and> w_z w = Z_STATUS_BAR
     \<or> s_role s = Chrome \<and> s_anchor s = Some Bottom \<and> w_z w = Z_TASKBAR)"
proof (cases "s_role s")
  case Chrome
  then show ?thesis
    using assms by (cases "s_anchor s")
      (auto simp: window_of_def mk_win_def Let_def split: prod.splits ChromeAnchor.splits if_splits)
qed (use assms in \<open>auto simp: window_of_def mk_win_def Let_def split: prod.splits if_splits\<close>)

text \<open>The dispatcher's hit test: the first window that contains the point.\<close>

definition contains_pt :: "int \<Rightarrow> int \<Rightarrow> InputWin \<Rightarrow> bool" where
  "contains_pt x y w \<longleftrightarrow>
     sint (w_l w) \<le> x \<and> x < sint (w_r w) \<and> sint (w_t w) \<le> y \<and> y < sint (w_b w)"

definition hit_test :: "InputWin list \<Rightarrow> int \<Rightarrow> int \<Rightarrow> InputWin option" where
  "hit_test ws x y = find (contains_pt x y) ws"

lemma hit_test_top:
  assumes "sorted_wrt (\<lambda>a b. w_z b \<le> w_z a) ws" "w \<in> set ws" "contains_pt x y w"
  shows "\<exists>v. hit_test ws x y = Some v \<and> v \<in> set ws \<and> w_z w \<le> w_z v"
  using assms by (induction ws) (auto simp: hit_test_def)

section \<open>Strips\<close>

text \<open>A rectangle within the panel, with something inside.\<close>

definition inside :: "u32 \<Rightarrow> u32 \<Rightarrow> u32 \<times> u32 \<times> u32 \<times> u32 \<Rightarrow> bool" where
  "inside pw ph q = (case q of (l, t, r, b) \<Rightarrow>
     0 \<le> sint l \<and> sint l < sint r \<and> sint r \<le> sint pw \<and>
     0 \<le> sint t \<and> sint t < sint b \<and> sint b \<le> sint ph)"

lemma sint_of_nat31: "n < 2 ^ 31 \<Longrightarrow> sint (of_nat n :: u32) = int n"
  using sint_uint[of "of_nat n :: u32"]
  by (simp add: unsigned_of_nat take_bit_nat_eq_self signed_take_bit_int_eq_self)

lemma edge_rect_of_nat:
  assumes "off + th \<le> w" "off + th \<le> h"
  shows "edge_rect edge (of_nat th) (of_nat off) (of_nat w) (of_nat h) =
    (case edge of
       S \<Rightarrow> (of_nat 0, of_nat (h - off - th), of_nat w, of_nat (h - off))
     | N \<Rightarrow> (of_nat 0, of_nat off, of_nat w, of_nat (off + th))
     | W \<Rightarrow> (of_nat off, of_nat 0, of_nat (off + th), of_nat h)
     | E \<Rightarrow> (of_nat (w - off - th), of_nat 0, of_nat (w - off), of_nat h))"
  using assms by (simp add: edge_rect_def of_nat_diff split: Edge.split)

lemma inside_of_nat:
  "w < 2 ^ 31 \<Longrightarrow> h < 2 ^ 31 \<Longrightarrow> l < r \<Longrightarrow> r \<le> w \<Longrightarrow> t < b \<Longrightarrow> b \<le> h \<Longrightarrow>
   inside (of_nat w) (of_nat h) (of_nat l, of_nat t, of_nat r, of_nat b)"
  by (simp add: inside_def sint_of_nat31)

lemma edge_rect_inside:
  assumes "0 < th" "off + th \<le> w" "off + th \<le> h" "w < 2 ^ 31" "h < 2 ^ 31"
  shows "inside (of_nat w) (of_nat h) (edge_rect edge (of_nat th) (of_nat off) (of_nat w) (of_nat h))"
proof -
  note i = inside_of_nat[OF assms(4,5)]
  show ?thesis
    unfolding edge_rect_of_nat[OF assms(2,3)]
    using assms by (cases edge) (simp_all only: Edge.case, (rule i; simp)+)
qed

lemma strip_rect_inside:
  "0 < th \<Longrightarrow> off + th \<le> w \<Longrightarrow> off + th \<le> h \<Longrightarrow> w < 2 ^ 31 \<Longrightarrow> h < 2 ^ 31 \<Longrightarrow>
   inside (of_nat w) (of_nat h) (strip_rect bt (of_nat th) (of_nat off) o' (of_nat w) (of_nat h))"
  by (simp add: strip_rect_def Let_def edge_rect_inside)

end
