(* ===== verification/AlarmMod.thy ===== *)
theory AlarmMod
  imports Bus
begin

text \<open>
  The alarm module (\<open>wandr-arbiter-alarm\<close>): scheduling, cancelling, and the tick that
  fires the due alarms.  Times are \<open>u64\<close> milliseconds, and rescheduling adds them with
  the wrap-around of a release build.  The lemmas describe the tick by what it does to one
  alarm, so that the theorems about firing do not unfold its three passes.
\<close>

section \<open>Commands\<close>

text \<open>A bare integer owner is a pid, resolved to its app id; anything else is the app id.\<close>

definition alarm_owner :: "string \<Rightarrow> Store \<Rightarrow> pid + string" where
  "alarm_owner tok st =
     (case parse_i32 tok of
        None \<Rightarrow> Inr tok
      | Some p \<Rightarrow> (case app_by_pid st p of Some a \<Rightarrow> Inr (a_app_id a) | None \<Rightarrow> Inl p))"

definition cmd_schedule :: "string \<Rightarrow> Ctx \<Rightarrow> Reply \<times> Ctx" where
  "cmd_schedule args c =
     (let t = split_ws args in
      if length t < 4
      then (Err ''schedule-alarm-args: expected <owner-pid-or-app-id> <id> <when-unix-ms> <repeat-ms> [kind]'', c)
      else case alarm_owner (t ! 0) (store c) of
        Inl p \<Rightarrow> (Err (''schedule-alarm-unknown-pid '' @ show_int p), c)
      | Inr i \<Rightarrow>
          (case (parse_u64 (t ! 1), parse_u64 (t ! 2), parse_u64 (t ! 3)) of
             (Some n, Some w, Some r) \<Rightarrow>
               (let k = or_default LaunchKind.Headless (map_option LaunchKind_from_wire (nth_opt t 4))
                in (Ok (''alarm app='' @ i @ '' id='' @ show_u64 n @ '' when='' @ show_u64 w @
                        '' repeat='' @ show_u64 r @ ''ms''),
                    on_store (upsert_alarm \<lparr>al_app_id = i, alarm_id = n, next_fire_ms = w,
                      repeat_ms = r, wake_kind = k, pending_deliver = False\<rparr>) c))
           | _ \<Rightarrow> (Err (''schedule-alarm-bad-args '' @ str_debug args), c)))"

definition cmd_cancel_alarm :: "string \<Rightarrow> Ctx \<Rightarrow> Reply \<times> Ctx" where
  "cmd_cancel_alarm args c =
     (case split_ws args of
        [o', id_s] \<Rightarrow>
          (case parse_u64 id_s of
             None \<Rightarrow> (Err (''cancel-alarm-bad-id '' @ str_debug id_s), c)
           | Some n \<Rightarrow>
               (case alarm_owner o' (store c) of
                  Inl p \<Rightarrow> (Err (''cancel-alarm-unknown-pid '' @ show_int p), c)
                | Inr i \<Rightarrow>
                    (let (removed, st) = cancel_alarm i n (store c)
                     in (Ok (''cancel app='' @ i @ '' id='' @ show_u64 n @ '' removed='' @ show_bool removed),
                         on_store (\<lambda>_. st) c))))
      | _ \<Rightarrow> (Err ''cancel-alarm-args: expected <owner-pid-or-app-id> <id>'', c))"

section \<open>The tick\<close>

text \<open>The lists the first pass collects.\<close>

record TickPlan =
  delivers :: "(pid \<times> u64) list"
  launches :: "(string \<times> LaunchKind) list"
  reschedule :: "(string \<times> u64) list"
  remove :: "(string \<times> u64) list"
  set_pending :: "(string \<times> u64) list"

definition plan_alarm :: "Store \<Rightarrow> u64 \<Rightarrow> Alarm \<Rightarrow> TickPlan \<Rightarrow> TickPlan" where
  "plan_alarm st now a pl =
     (if next_fire_ms a > now then pl
      else case app st (al_app_id a) of
        Some ap \<Rightarrow>
          (let pl1 = pl\<lparr>delivers := delivers pl @ [(a_pid ap, alarm_id a)]\<rparr>
           in if repeat_ms a > 0
              then pl1\<lparr>reschedule := reschedule pl1 @ [(al_app_id a, alarm_id a)]\<rparr>
              else pl1\<lparr>remove := remove pl1 @ [(al_app_id a, alarm_id a)]\<rparr>)
      | None \<Rightarrow>
          (let pl1 = (if \<not> pending_deliver a
                      then pl\<lparr>launches := launches pl @ [(al_app_id a, wake_kind a)]\<rparr> else pl)
           in pl1\<lparr>set_pending := set_pending pl1 @ [(al_app_id a, alarm_id a)]\<rparr>))"

definition plan_tick :: "Store \<Rightarrow> u64 \<Rightarrow> TickPlan" where
  "plan_tick st now =
     fold (plan_alarm st now) (alarms st)
       \<lparr>delivers = [], launches = [], reschedule = [], remove = [], set_pending = []\<rparr>"

definition apply_plan :: "u64 \<Rightarrow> TickPlan \<Rightarrow> Alarm list \<Rightarrow> Alarm list" where
  "apply_plan now pl as =
     (let as1 = fold (\<lambda>(i, n). upd_first (is_alarm i n)
                  (\<lambda>a. a\<lparr>next_fire_ms := now + repeat_ms a, pending_deliver := False\<rparr>)) (reschedule pl) as;
          as2 = fold (\<lambda>(i, n). upd_first (is_alarm i n) (\<lambda>a. a\<lparr>pending_deliver := True\<rparr>)) (set_pending pl) as1
      in filter (\<lambda>a. \<not> list_ex (\<lambda>(i, n). is_alarm i n a) (remove pl)) as2)"

definition alarm_fired :: "u64 \<Rightarrow> string" where
  "alarm_fired n = ''alarm-fired '' @ show_u64 n @ [CHR 0x0A]"

definition on_tick :: "u64 \<Rightarrow> Ctx \<Rightarrow> Ctx" where
  "on_tick now c =
     (let pl = plan_tick (store c) now;
          c1 = on_store (\<lambda>st. st\<lparr>alarms := apply_plan now pl (alarms st)\<rparr>) c;
          c2 = fold (\<lambda>(i, k). request (Launch i k)) (launches pl) c1
      in fold (\<lambda>(p, n). deliver_to_host p (alarm_fired n)) (delivers pl) c2)"

section \<open>Dispatch\<close>

definition alarm_verbs :: "string list" where
  "alarm_verbs = [''schedule-alarm'', ''cancel-alarm'']"

definition alarm_on_command :: "string \<Rightarrow> string \<Rightarrow> Ctx \<Rightarrow> Reply \<times> Ctx" where
  "alarm_on_command verb args c =
     (if verb = ''schedule-alarm'' then cmd_schedule args c
      else if verb = ''cancel-alarm'' then cmd_cancel_alarm args c
      else (Err (''alarm-unknown-verb '' @ verb), c))"

definition alarm_on_event :: "Event \<Rightarrow> Ctx \<Rightarrow> Ctx" where
  "alarm_on_event ev c = (case ev of AlarmTick now \<Rightarrow> on_tick now c | _ \<Rightarrow> c)"

section \<open>What the plan says of an alarm\<close>

lemma fold_request [simp]:
  "store (fold (\<lambda>(i, k). request (Launch i k)) xs c) = store c"
  "events (fold (\<lambda>(i, k). request (Launch i k)) xs c) = events c"
  "effects (fold (\<lambda>(i, k). request (Launch i k)) xs c) = effects c @ map (\<lambda>(i, k). Launch i k) xs"
  by (induction xs arbitrary: c) (auto simp: case_prod_beta)

lemma fold_deliver [simp]:
  "store (fold (\<lambda>(p, n). deliver_to_host p (l n)) xs c) = store c"
  "events (fold (\<lambda>(p, n). deliver_to_host p (l n)) xs c) = events c"
  "effects (fold (\<lambda>(p, n). deliver_to_host p (l n)) xs c) = effects c @ map (\<lambda>(p, n). HostLine p (l n)) xs"
  by (induction xs arbitrary: c) (auto simp: case_prod_beta)

definition alarm_due :: "u64 \<Rightarrow> Alarm \<Rightarrow> bool" where
  "alarm_due now a \<longleftrightarrow> next_fire_ms a \<le> now"

definition owner_pid :: "Store \<Rightarrow> Alarm \<Rightarrow> pid option" where
  "owner_pid st a = map_option a_pid (app st (al_app_id a))"

lemma plan_lists:
  "delivers (fold (plan_alarm st now) as pl) = delivers pl @
     List.map_filter (\<lambda>a. if alarm_due now a then map_option (\<lambda>p. (p, alarm_id a)) (owner_pid st a) else None) as"
  "launches (fold (plan_alarm st now) as pl) = launches pl @
     map (\<lambda>a. (al_app_id a, wake_kind a))
       (filter (\<lambda>a. alarm_due now a \<and> owner_pid st a = None \<and> \<not> pending_deliver a) as)"
  "reschedule (fold (plan_alarm st now) as pl) = reschedule pl @
     map alarm_key (filter (\<lambda>a. alarm_due now a \<and> owner_pid st a \<noteq> None \<and> repeat_ms a \<noteq> 0) as)"
  "remove (fold (plan_alarm st now) as pl) = remove pl @
     map alarm_key (filter (\<lambda>a. alarm_due now a \<and> owner_pid st a \<noteq> None \<and> repeat_ms a = 0) as)"
  "set_pending (fold (plan_alarm st now) as pl) = set_pending pl @
     map alarm_key (filter (\<lambda>a. alarm_due now a \<and> owner_pid st a = None) as)"
  by (induction as arbitrary: pl)
    (auto simp: plan_alarm_def alarm_due_def owner_pid_def alarm_key_def word_gt_0 not_le[symmetric]
      Let_def List.map_filter_simps split: option.split)

text \<open>
  What a tick makes of one alarm: nothing before it is due; a one-shot with a running owner is
  dropped, a repeating one moves on by its period from now; one whose owner is not running
  stays due and is marked pending.
\<close>

definition tick_alarm :: "Store \<Rightarrow> u64 \<Rightarrow> Alarm \<Rightarrow> Alarm option" where
  "tick_alarm st now a =
     (if \<not> alarm_due now a then Some a
      else if owner_pid st a = None then Some (a\<lparr>pending_deliver := True\<rparr>)
      else if repeat_ms a = 0 then None
      else Some (a\<lparr>next_fire_ms := now + repeat_ms a, pending_deliver := False\<rparr>))"

text \<open>Updating by a list of distinct keys is one update in place.\<close>

lemma fold_upd_keys:
  assumes "\<And>a. alarm_key (f a) = alarm_key a"
  shows "distinct (map alarm_key as) \<Longrightarrow> distinct ks \<Longrightarrow>
   fold (\<lambda>(i, n). upd_first (is_alarm i n) f) ks as = map (\<lambda>a. if alarm_key a \<in> set ks then f a else a) as"
proof (induction ks arbitrary: as)
  case Nil
  then show ?case by simp
next
  case (Cons k ks)
  obtain i n where k: "k = (i, n)" by (cases k)
  have u: "upd_first (is_alarm i n) f as = map (\<lambda>a. if alarm_key a = k then f a else a) as"
    using Cons.prems(1) k by (subst upd_first_distinct[of alarm_key _ _ k]) (auto simp: is_alarm_key)
  have d: "distinct (map alarm_key (map (\<lambda>a. if alarm_key a = k then f a else a) as))"
    using Cons.prems(1) assms by (simp add: o_def if_distrib cong: if_cong)
  have "fold (\<lambda>(i, n). upd_first (is_alarm i n) f) (k # ks) as =
      map (\<lambda>a. if alarm_key a \<in> set ks then f a else a) (map (\<lambda>a. if alarm_key a = k then f a else a) as)"
    using Cons.IH[OF d] Cons.prems(2) u k by simp
  also have "\<dots> = map (\<lambda>a. if alarm_key a \<in> set (k # ks) then f a else a) as"
    using Cons.prems(2) assms by auto
  finally show ?case .
qed

lemma keys_in_filter:
  "distinct (map alarm_key as) \<Longrightarrow> a \<in> set as \<Longrightarrow>
   alarm_key a \<in> alarm_key ` {x \<in> set as. P x} \<longleftrightarrow> P a"
  by (auto simp: distinct_map inj_on_def)

lemma map_filter_tick:
  "map (\<lambda>a. if alarm_due now a \<and> owner_pid st a = None then a\<lparr>pending_deliver := True\<rparr>
             else if alarm_due now a \<and> owner_pid st a \<noteq> None \<and> repeat_ms a \<noteq> 0
             then a\<lparr>next_fire_ms := now + repeat_ms a, pending_deliver := False\<rparr> else a)
     (filter (\<lambda>a. \<not> (alarm_due now a \<and> owner_pid st a \<noteq> None \<and> repeat_ms a = 0)) as) =
   List.map_filter (tick_alarm st now) as"
  by (induction as) (auto simp: List.map_filter_simps tick_alarm_def)

lemma apply_plan_tick:
  assumes "alarms_keyed st"
  shows "apply_plan now (plan_tick st now) (alarms st) = List.map_filter (tick_alarm st now) (alarms st)"
proof -
  let ?as = "alarms st"
  let ?R = "\<lambda>a. alarm_due now a \<and> owner_pid st a \<noteq> None \<and> repeat_ms a \<noteq> 0"
  let ?M = "\<lambda>a. alarm_due now a \<and> owner_pid st a \<noteq> None \<and> repeat_ms a = 0"
  let ?P = "\<lambda>a. alarm_due now a \<and> owner_pid st a = None"
  let ?f = "\<lambda>a. a\<lparr>next_fire_ms := now + repeat_ms a, pending_deliver := False\<rparr>"
  let ?g = "\<lambda>a. a\<lparr>pending_deliver := True\<rparr>"
  let ?h = "\<lambda>a. if ?P a then ?g a else if ?R a then ?f a else a"
  have d: "distinct (map alarm_key ?as)"
    using assms by (simp add: alarms_keyed_def)
  have k: "alarm_key (?f a) = alarm_key a" "alarm_key (?g a) = alarm_key a" for a
    by (simp_all add: alarm_key_def)
  have 1: "fold (\<lambda>(i, n). upd_first (is_alarm i n) ?f) (map alarm_key (filter ?R ?as)) ?as =
      map (\<lambda>a. if ?R a then ?f a else a) ?as"
    using d by (subst fold_upd_keys) (auto simp: k(1) keys_in_filter)
  let ?as1 = "map (\<lambda>a. if ?R a then ?f a else a) ?as"
  have m: "map alarm_key ?as1 = map alarm_key ?as" "map alarm_key (map ?h ?as) = map alarm_key ?as"
    by (simp_all add: k)
  have 2: "fold (\<lambda>(i, n). upd_first (is_alarm i n) ?g) (map alarm_key (filter ?P ?as)) ?as1 = map ?h ?as"
  proof -
    have "fold (\<lambda>(i, n). upd_first (is_alarm i n) ?g) (map alarm_key (filter ?P ?as)) ?as1 =
        map (\<lambda>a. if alarm_key a \<in> alarm_key ` {x \<in> set ?as. ?P x} then ?g a else a) ?as1"
      using fold_upd_keys[OF k(2), of ?as1 "map alarm_key (filter ?P ?as)"] d
      unfolding m(1) by simp
    also have "\<dots> = map ?h ?as"
      using keys_in_filter[OF d, of _ ?P] by (auto simp: k(1))
    finally show ?thesis .
  qed
  have 3: "list_ex (\<lambda>(i, n). is_alarm i n (?h a)) (map alarm_key (filter ?M ?as)) \<longleftrightarrow> ?M a"
    if "a \<in> set ?as" for a
  proof -
    have "alarm_key (?h a) = alarm_key a"
      by (simp add: k)
    then have "list_ex (\<lambda>(i, n). is_alarm i n (?h a)) (map alarm_key (filter ?M ?as)) \<longleftrightarrow>
        alarm_key a \<in> alarm_key ` {x \<in> set ?as. ?M x}"
      by (auto simp: list_ex_iff is_alarm_key)
    with keys_in_filter[OF d that, of ?M] show ?thesis by simp
  qed
  have "apply_plan now (plan_tick st now) ?as = map ?h (filter (\<lambda>a. \<not> ?M a) ?as)"
    unfolding apply_plan_def plan_tick_def plan_lists Let_def
    using 1 2 3 by (simp add: filter_map o_def cong: filter_cong)
  also have "\<dots> = List.map_filter (tick_alarm st now) ?as"
    by (rule map_filter_tick)
  finally show ?thesis .
qed

text \<open>What the tick does to the store and asks for.\<close>

lemma on_tick_store:
  assumes "alarms_keyed (store c)"
  shows "store (on_tick now c) = (store c)\<lparr>alarms :=
    List.map_filter (tick_alarm (store c) now) (alarms (store c))\<rparr>"
  using apply_plan_tick[OF assms] by (simp add: on_tick_def Let_def)

lemma on_tick_events [simp]: "events (on_tick now c) = events c"
  by (simp add: on_tick_def Let_def)

lemma on_tick_effects:
  "effects (on_tick now c) = effects c
     @ map (\<lambda>a. Launch (al_app_id a) (wake_kind a))
         (filter (\<lambda>a. alarm_due now a \<and> owner_pid (store c) a = None \<and> \<not> pending_deliver a) (alarms (store c)))
     @ List.map_filter (\<lambda>a. if alarm_due now a
           then map_option (\<lambda>p. HostLine p (alarm_fired (alarm_id a))) (owner_pid (store c) a) else None)
         (alarms (store c))"
proof -
  have "map (\<lambda>(p, n). HostLine p (alarm_fired n)) (List.map_filter (\<lambda>a. if alarm_due now a
          then map_option (\<lambda>p. (p, alarm_id a)) (owner_pid (store c) a) else None) as) =
        List.map_filter (\<lambda>a. if alarm_due now a
          then map_option (\<lambda>p. HostLine p (alarm_fired (alarm_id a))) (owner_pid (store c) a) else None) as" for as
    by (induction as) (auto simp: List.map_filter_simps split: option.split)
  then show ?thesis
    by (simp add: on_tick_def Let_def plan_tick_def plan_lists o_def)
qed

lemma alarm_key_tick: "tick_alarm st now a = Some b \<Longrightarrow> alarm_key b = alarm_key a"
  by (auto simp: tick_alarm_def alarm_key_def split: if_splits)

lemma map_filter_keyed:
  "distinct (map alarm_key as) \<Longrightarrow> distinct (map alarm_key (List.map_filter (tick_alarm st now) as))"
proof (induction as)
  case (Cons a as)
  have "alarm_key ` set (List.map_filter (tick_alarm st now) as) \<subseteq> alarm_key ` set as"
    by (auto simp: List.map_filter_def) (metis alarm_key_tick image_eqI)
  with Cons alarm_key_tick[of st now a] show ?case
    by (cases "tick_alarm st now a") (auto simp: List.map_filter_simps)
qed (simp add: List.map_filter_simps)

lemma on_tick_keyed [inv_intros]:
  "alarms_keyed (store c) \<Longrightarrow> alarms_keyed (store (on_tick now c))"
  by (simp add: on_tick_store) (simp add: alarms_keyed_def map_filter_keyed)

lemma find_map_filter:
  assumes "distinct (map alarm_key as)"
  shows "find (is_alarm i n) (List.map_filter (tick_alarm st now) as) =
    Option.bind (find (is_alarm i n) as) (tick_alarm st now)"
  using assms
proof (induction as)
  case (Cons a as)
  have none: "find (is_alarm i n) (List.map_filter (tick_alarm st now) as) = None"
    if "is_alarm i n a"
  proof -
    have "find (is_alarm i n) as = None"
      using Cons.prems that by (auto simp: find_None_iff2 is_alarm_key image_iff)
    with Cons show ?thesis by simp
  qed
  with Cons show ?case
    by (cases "tick_alarm st now a")
      (auto simp: List.map_filter_simps is_alarm_key dest: alarm_key_tick)
qed (simp add: List.map_filter_simps)

lemma alarm_of_tick:
  "alarms_keyed (store c) \<Longrightarrow>
   alarm_of i n (store (on_tick now c)) = Option.bind (alarm_of i n (store c)) (tick_alarm (store c) now)"
  by (simp add: on_tick_store alarm_of_def) (simp add: alarms_keyed_def find_map_filter)

section \<open>Properties\<close>

text \<open>
  A tick treats each scheduled alarm on its own: untouched before it is due; dropped when it
  is one-shot and its owner runs; moved to now plus its period when it repeats; kept due and
  marked pending when its owner does not run.
\<close>

theorem tick_one_alarm:
  assumes "alarms_keyed (store c)" "alarm_of i n (store c) = Some a"
  shows "alarm_of i n (store (alarm_on_event (AlarmTick now) c)) =
    (if next_fire_ms a > now then Some a
     else if app (store c) i = None then Some (a\<lparr>pending_deliver := True\<rparr>)
     else if repeat_ms a = 0 then None
     else Some (a\<lparr>next_fire_ms := now + repeat_ms a, pending_deliver := False\<rparr>))"
proof -
  have "al_app_id a = i"
    using assms(2) by (auto simp: alarm_of_def is_alarm_def dest: find_SomeD)
  then show ?thesis
    using alarm_of_tick[OF assms(1), of i n now] assms(2)
    by (auto simp: alarm_on_event_def tick_alarm_def alarm_due_def owner_pid_def)
qed

definition demo_alarm_ctx :: Ctx where
  "demo_alarm_ctx = Ctx_new \<lparr>cl_mono = 0, cl_unix = 0\<rparr> (Store_new\<lparr>
     apps := [(''mail'', \<lparr>a_app_id = ''mail'', a_pid = 10, launched_at = 0, launched_mono = 0\<rparr>)],
     alarms := [\<lparr>al_app_id = ''mail'', alarm_id = 1, next_fire_ms = 100, repeat_ms = 50,
                 wake_kind = LaunchKind.Headless, pending_deliver = False\<rparr>,
                \<lparr>al_app_id = ''maps'', alarm_id = 1, next_fire_ms = 100, repeat_ms = 0,
                 wake_kind = Gui, pending_deliver = False\<rparr>]\<rparr>)"

theorem tick_one_alarm_witness:
  "alarm_of ''mail'' 1 (store (alarm_on_event (AlarmTick 120) demo_alarm_ctx)) =
     Some \<lparr>al_app_id = ''mail'', alarm_id = 1, next_fire_ms = 170, repeat_ms = 50,
           wake_kind = LaunchKind.Headless, pending_deliver = False\<rparr>"
  using tick_one_alarm[of demo_alarm_ctx "''mail''" 1
      "\<lparr>al_app_id = ''mail'', alarm_id = 1, next_fire_ms = 100, repeat_ms = 50,
        wake_kind = LaunchKind.Headless, pending_deliver = False\<rparr>" 120]
  by (simp add: demo_alarm_ctx_def alarms_keyed_def alarm_key_def alarm_of_def is_alarm_def app_def)

text \<open>
  A due alarm reaches its owner exactly once per tick: a running owner is sent
  \<open>alarm-fired\<close>, a dead one is relaunched at the first due tick and not again while the
  alarm is pending, and nothing else is asked for.
\<close>

theorem tick_effects:
  assumes "effects c = []"
  shows "e \<in> set (effects (alarm_on_event (AlarmTick now) c)) \<longleftrightarrow>
    (\<exists>a \<in> set (alarms (store c)). next_fire_ms a \<le> now \<and>
       (case app (store c) (al_app_id a) of
          Some ap \<Rightarrow> e = HostLine (a_pid ap) (alarm_fired (alarm_id a))
        | None \<Rightarrow> \<not> pending_deliver a \<and> e = Launch (al_app_id a) (wake_kind a)))"
  unfolding alarm_on_event_def
  by (simp add: on_tick_effects assms List.map_filter_def alarm_due_def owner_pid_def image_iff
        split: option.split)
    (auto split: option.split)

theorem tick_effects_witness:
  "Launch ''maps'' Gui \<in> set (effects (alarm_on_event (AlarmTick 120) demo_alarm_ctx))"
  using tick_effects[of demo_alarm_ctx "Launch ''maps'' Gui" 120]
  by (simp add: demo_alarm_ctx_def app_def)

text \<open>
  \<open>schedule-alarm\<close> replaces by key: after it answers OK, exactly the requested fire
  time, period and wake kind stand under \<open>(owner, id)\<close>, all other alarms are as before
  and the keys stay unique.
\<close>

theorem schedule_replaces:
  assumes "alarms_keyed (store c)" "split_ws args = [i, id_s, when_s, rep_s, kind_s]" "parse_i32 i = None"
    "parse_u64 id_s = Some n" "parse_u64 when_s = Some w" "parse_u64 rep_s = Some r"
  shows "is_ok (fst (alarm_on_command ''schedule-alarm'' args c))
    \<and> alarms_keyed (store (snd (alarm_on_command ''schedule-alarm'' args c)))
    \<and> alarm_of j m (store (snd (alarm_on_command ''schedule-alarm'' args c))) =
        (if j = i \<and> m = n
         then Some \<lparr>al_app_id = i, alarm_id = n, next_fire_ms = w, repeat_ms = r,
                    wake_kind = LaunchKind_from_wire kind_s, pending_deliver = False\<rparr>
         else alarm_of j m (store c))"
proof -
  let ?al = "\<lparr>al_app_id = i, alarm_id = n, next_fire_ms = w, repeat_ms = r,
     wake_kind = LaunchKind_from_wire kind_s, pending_deliver = False\<rparr>"
  have "\<exists>m. alarm_on_command ''schedule-alarm'' args c = (Ok m, on_store (upsert_alarm ?al) c)"
    using assms(2-) by (simp add: alarm_on_command_def cmd_schedule_def alarm_owner_def nth_opt_def)
  then show ?thesis
    using upsert_alarm_keyed[OF assms(1), of ?al] by (auto simp: alarm_of_upsert is_alarm_def)
qed

theorem schedule_replaces_witness:
  "alarm_of ''mail'' 1 (store (snd (alarm_on_command ''schedule-alarm'' ''mail 1 500 0 gui'' demo_alarm_ctx))) =
     Some \<lparr>al_app_id = ''mail'', alarm_id = 1, next_fire_ms = 500, repeat_ms = 0,
           wake_kind = Gui, pending_deliver = False\<rparr>"
proof -
  have "split_ws ''mail 1 500 0 gui'' = [''mail'', ''1'', ''500'', ''0'', ''gui'']"
    "parse_i32 ''mail'' = None" "parse_u64 ''1'' = Some 1" "parse_u64 ''500'' = Some 500"
    "parse_u64 ''0'' = Some 0" "LaunchKind_from_wire ''gui'' = Gui"
    by (code_simp, simp_all add: parse_i32_def parse_signed_def parse_u64_def parse_unsigned_def
        digit_val_def LaunchKind_from_wire_def)
  moreover have "alarms_keyed (store demo_alarm_ctx)"
    by (simp add: demo_alarm_ctx_def alarms_keyed_def alarm_key_def)
  ultimately show ?thesis
    using schedule_replaces[of demo_alarm_ctx "''mail 1 500 0 gui''" "''mail''" "''1''" "''500''" "''0''" "''gui''"
        1 500 0 "''mail''" 1] by simp
qed

text \<open>
  Rescheduling wraps: at a clock value close to \<open>2^64\<close> the next fire time of a
  repeating alarm lies in the past, so the alarm is due again at once.
\<close>

theorem reschedule_wraps:
  assumes "alarms_keyed (store c)" "alarm_of i n (store c) = Some a" "next_fire_ms a \<le> now"
    "app (store c) i \<noteq> None" "repeat_ms a \<noteq> 0" "unat now + unat (repeat_ms a) \<ge> 2 ^ 64"
  shows "\<exists>b. alarm_of i n (store (alarm_on_event (AlarmTick now) c)) = Some b \<and> next_fire_ms b < now"
proof -
  have i: "al_app_id a = i"
    using assms(2) by (auto simp: alarm_of_def is_alarm_def dest: find_SomeD)
  have "now + repeat_ms a < now"
    using assms(6) unat_u64_less[of now] unat_u64_less[of "repeat_ms a"]
    by (simp add: word_less_nat_alt unat_word_ariths le_mod_geq)
  then show ?thesis
    using alarm_of_tick[OF assms(1), of i n now] assms i
    by (auto simp: alarm_on_event_def tick_alarm_def alarm_due_def owner_pid_def)
qed

theorem reschedule_wraps_witness:
  "\<exists>b. alarm_of ''mail'' 1 (store (alarm_on_event (AlarmTick (- 1)) demo_alarm_ctx)) = Some b
     \<and> next_fire_ms b < - 1"
  by (rule reschedule_wraps[of _ _ _ "\<lparr>al_app_id = ''mail'', alarm_id = 1, next_fire_ms = 100,
        repeat_ms = 50, wake_kind = LaunchKind.Headless, pending_deliver = False\<rparr>"])
    (simp_all add: demo_alarm_ctx_def alarms_keyed_def alarm_key_def alarm_of_def is_alarm_def app_def
      unsigned_minus_1_eq_mask mask_eq_exp_minus_1)

end
