(* ===== verification/NotifyMod.thy ===== *)
theory NotifyMod
  imports Bus
begin

text \<open>
  The notification module (\<open>wandr-arbiter-notify\<close>): posting, cancelling, listing and
  tapping.  Titles and bodies travel percent-encoded; the module's own copies of the codec are
  the functions of \<open>Wire\<close>.
\<close>

section \<open>Commands\<close>

definition resolve_owner :: "string \<Rightarrow> Store \<Rightarrow> string option" where
  "resolve_owner tok st =
     (case parse_i32 tok of
        Some p \<Rightarrow> map_option a_app_id (app_by_pid st p)
      | None \<Rightarrow> Some tok)"

definition cmd_post :: "string \<Rightarrow> Ctx \<Rightarrow> Reply \<times> Ctx" where
  "cmd_post args c =
     (let t = split_ws args in
      if length t < 3
      then (Err ''notify-post-args: expected <owner> <id> <enc-title> [enc-body]'', c)
      else case resolve_owner (t ! 0) (store c) of
        None \<Rightarrow> (Err (''notify-post-unknown-owner '' @ t ! 0), c)
      | Some i \<Rightarrow>
          (case parse_u64 (t ! 1) of
             None \<Rightarrow> (Err (''notify-post-bad-id '' @ str_debug (t ! 1)), c)
           | Some k \<Rightarrow>
               (let title = pct_decode (t ! 2);
                    body = or_default [] (map_option pct_decode (nth_opt t 3));
                    (m, st) = post_notification i k title body (store c)
                in (Ok (''notify app='' @ i @ '' id='' @ show_u64 k @ '' nid='' @ show_u64 m),
                    on_store (\<lambda>_. st) c))))"

definition cmd_notify_cancel :: "string \<Rightarrow> Ctx \<Rightarrow> Reply \<times> Ctx" where
  "cmd_notify_cancel args c =
     (case split_ws args of
        [o', id_s] \<Rightarrow>
          (case resolve_owner o' (store c) of
             None \<Rightarrow> (Err (''notify-cancel-unknown-owner '' @ o'), c)
           | Some i \<Rightarrow>
               (case parse_u64 id_s of
                  None \<Rightarrow> (Err (''notify-cancel-bad-id '' @ str_debug id_s), c)
                | Some k \<Rightarrow>
                    (let (removed, st) = cancel_notification i k (store c)
                     in (Ok (''cancel app='' @ i @ '' id='' @ show_u64 k @ '' removed='' @ show_bool removed),
                         on_store (\<lambda>_. st) c))))
      | _ \<Rightarrow> (Err ''notify-cancel-args: expected <owner> <id>'', c))"

definition notif_line :: "Notification \<Rightarrow> string" where
  "notif_line n = [CHR 0x0A] @ ''  nid='' @ show_u64 (nid n) @ '' app='' @ n_app_id n @ '' id='' @
     show_u64 (app_notif_id n) @ '' title='' @ pct_encode (n_title n)"

definition cmd_notify_list :: "Ctx \<Rightarrow> Reply \<times> Ctx" where
  "cmd_notify_list c =
     (let ns = notifications (store c)
      in (Ok (''count='' @ show_nat (length ns) @ concat (map notif_line ns)), c))"

definition cmd_click :: "string \<Rightarrow> Ctx \<Rightarrow> Reply \<times> Ctx" where
  "cmd_click args c =
     (case parse_u64 (trim args) of
        None \<Rightarrow> (Err (''notify-click-bad-nid '' @ str_debug args), c)
      | Some m \<Rightarrow>
          (case take_notification m (store c) of
             (None, st) \<Rightarrow> (Err (''notify-click-unknown-nid '' @ show_u64 m), c)
           | (Some n, st) \<Rightarrow>
               (let c1 = on_store (\<lambda>_. st) c;
                    c2 = (case app st (n_app_id n) of
                            Some a \<Rightarrow>
                              deliver_to_host (a_pid a)
                                (''notification-clicked '' @ show_u64 (app_notif_id n) @ [CHR 0x0A])
                                (request (Effect.Foreground (n_app_id n)) c1)
                          | None \<Rightarrow>
                              request (Effect.Foreground (n_app_id n))
                                (request (Launch (n_app_id n) Gui) c1))
                in (Ok (''click nid='' @ show_u64 m @ '' app='' @ n_app_id n @ '' id='' @
                        show_u64 (app_notif_id n)), c2))))"

definition notify_verbs :: "string list" where
  "notify_verbs = [''notify-post'', ''notify-cancel'', ''notify-list'', ''notify-click'']"

definition notify_on_command :: "string \<Rightarrow> string \<Rightarrow> Ctx \<Rightarrow> Reply \<times> Ctx" where
  "notify_on_command verb args c =
     (if verb = ''notify-post'' then cmd_post args c
      else if verb = ''notify-cancel'' then cmd_notify_cancel args c
      else if verb = ''notify-list'' then cmd_notify_list c
      else if verb = ''notify-click'' then cmd_click args c
      else (Err (''notify-unknown-verb '' @ verb), c))"

lemma app_on_notifications [simp]:
  "app (snd (post_notification i k t b st)) j = app st j"
  "app (snd (cancel_notification i k st)) j = app st j"
  "app (snd (take_notification m st)) j = app st j"
  by (simp_all add: app_def)

section \<open>Properties\<close>

text \<open>
  Text survives the trip: a title and a body that the host percent-encodes into a
  \<open>notify-post\<close> line are stored as they were, under a handle the reply names; a repost
  under the same id keeps the handle.
\<close>

theorem post_roundtrip:
  assumes "token i" "parse_i32 i = None" "utf8_valid t" "utf8_valid b" "t \<noteq> []" "b \<noteq> []"
  shows "\<exists>m c'. notify_on_command ''notify-post''
        (i @ '' '' @ show_u64 k @ '' '' @ pct_encode t @ '' '' @ pct_encode b) c =
      (Ok (''notify app='' @ i @ '' id='' @ show_u64 k @ '' nid='' @ show_u64 m), c')
    \<and> notif_of i k (store c') =
        Some \<lparr>nid = m, n_app_id = i, app_notif_id = k, n_title = t, n_body = b\<rparr>
    \<and> (\<forall>n. notif_of i k (store c) = Some n \<longrightarrow> m = nid n)"
proof -
  let ?line = "i @ '' '' @ show_u64 k @ '' '' @ pct_encode t @ '' '' @ pct_encode b"
  have tok: "token (pct_encode s)" if "s \<noteq> []" for s
  proof -
    have "pct_encode s \<noteq> []"
      using that by (cases s) (simp_all add: pct_encode_def)
    then show ?thesis by (auto simp: token_def dest: pct_encode_plain)
  qed
  have sp: "split_ws ?line = [i, show_u64 k, pct_encode t, pct_encode b]"
    using assms(1) tok[OF assms(5)] tok[OF assms(6)] by (simp add: show_u64_def)
  obtain m st where p: "post_notification i k t b (store c) = (m, st)"
    by (cases "post_notification i k t b (store c)")
  have d: "pct_decode (pct_encode t) = t" "pct_decode (pct_encode b) = b"
    using assms(3,4) by (simp_all add: pct_decode_def)
  have "m = nid n" if "notif_of i k (store c) = Some n" for n
    using p that by (auto simp: post_notification_def notif_of_def split: option.splits)
  moreover have "notif_of i k st = Some \<lparr>nid = m, n_app_id = i, app_notif_id = k, n_title = t, n_body = b\<rparr>"
    using notif_of_post[of i k t b "store c"] p by simp
  moreover have "notify_on_command ''notify-post'' ?line c =
      (Ok (''notify app='' @ i @ '' id='' @ show_u64 k @ '' nid='' @ show_u64 m), on_store (\<lambda>_. st) c)"
    using assms(2) unfolding notify_on_command_def cmd_post_def sp
    by (simp add: resolve_owner_def nth_opt_def d p)
  ultimately show ?thesis by auto
qed

theorem post_roundtrip_witness:
  "\<exists>m c'. notify_on_command ''notify-post''
      (''mail'' @ '' '' @ show_u64 7 @ '' '' @ pct_encode ''new mail'' @ '' '' @ pct_encode ''a b'')
      (Ctx_new \<lparr>cl_mono = 0, cl_unix = 0\<rparr> Store_new) =
      (Ok (''notify app='' @ ''mail'' @ '' id='' @ show_u64 7 @ '' nid='' @ show_u64 m), c')
    \<and> notif_of ''mail'' 7 (store c') =
        Some \<lparr>nid = m, n_app_id = ''mail'', app_notif_id = 7, n_title = ''new mail'', n_body = ''a b''\<rparr>"
proof -
  have "token ''mail''" "parse_i32 ''mail'' = None"
    by (simp_all add: token_def plain_def parse_i32_def parse_signed_def digit_val_def)
  moreover have "utf8_valid ''new mail''" "utf8_valid ''a b''"
    by (rule utf8_valid_ascii, simp)+
  ultimately show ?thesis
    using post_roundtrip[of "''mail''" "''new mail''" "''a b''" 7 "Ctx_new \<lparr>cl_mono = 0, cl_unix = 0\<rparr> Store_new"]
    by blast
qed

text \<open>
  Tapping a notification consumes it: its handle answers once, only it leaves the list, and
  the owner is brought to the front, launched first when it is not running and told which
  notification was tapped when it is.
\<close>

theorem click_consumes:
  assumes "notifs_wf (store c)" "parse_u64 (trim args) = Some m" "n \<in> set (notifications (store c))" "nid n = m"
  shows "\<exists>r c'. notify_on_command ''notify-click'' args c = (Ok r, c')
    \<and> set (notifications (store c')) = set (notifications (store c)) - {n}
    \<and> effects c' = effects c @
       (case app (store c) (n_app_id n) of
          Some a \<Rightarrow> [Effect.Foreground (n_app_id n),
                    HostLine (a_pid a) (''notification-clicked '' @ show_u64 (app_notif_id n) @ [CHR 0x0A])]
        | None \<Rightarrow> [Launch (n_app_id n) Gui, Effect.Foreground (n_app_id n)])
    \<and> (\<exists>e. fst (notify_on_command ''notify-click'' args c') = Err e)"
proof -
  obtain n' st where t: "take_notification m (store c) = (Some n', st)"
    using take_notification_None[of m "store c"] assms(3,4)
    by (cases "take_notification m (store c)") (auto simp: image_iff)
  have n': "nid n' = m" "n' \<in> set (notifications (store c))"
    "set (notifications st) = set (notifications (store c)) - {n'}"
    using take_notification_SomeD[OF assms(1) t] by auto
  have "n' = n"
    using assms(1,3,4) n'(1,2) by (auto simp: notifs_wf_def distinct_map inj_on_def)
  have gone: "m \<notin> nid ` set (notifications st)"
    using assms(1) n' \<open>n' = n\<close> by (auto simp: notifs_wf_def distinct_map inj_on_def)
  then have again: "fst (take_notification m st) = None"
    using take_notification_None[of m st] by blast
  have "app st i = app (store c) i" for i
    using app_on_notifications(3)[of m "store c" i] t by simp
  with t n' \<open>n' = n\<close> again assms(2) show ?thesis
    by (auto simp: notify_on_command_def cmd_click_def split: option.split prod.splits)
qed

theorem click_consumes_witness:
  "\<exists>r c'. notify_on_command ''notify-click'' ''3'' (Ctx_new \<lparr>cl_mono = 0, cl_unix = 0\<rparr>
       (Store_new\<lparr>notifications := [\<lparr>nid = 3, n_app_id = ''mail'', app_notif_id = 7, n_title = [], n_body = []\<rparr>],
                  next_nid := 3\<rparr>)) = (Ok r, c')
    \<and> effects c' = [Launch ''mail'' Gui, Effect.Foreground ''mail'']"
proof -
  let ?n = "\<lparr>nid = 3, n_app_id = ''mail'', app_notif_id = 7, n_title = [], n_body = []\<rparr>"
  let ?c = "Ctx_new \<lparr>cl_mono = 0, cl_unix = 0\<rparr> (Store_new\<lparr>notifications := [?n], next_nid := 3\<rparr>)"
  have "notifs_wf (store ?c)"
    by (simp add: notifs_wf_def)
  moreover have "parse_u64 (trim ''3'') = Some 3"
    by (simp add: token_def plain_def parse_u64_def parse_unsigned_def digit_val_def)
  moreover have "app (store ?c) ''mail'' = None"
    by (simp add: app_def Store_new_def)
  ultimately show ?thesis
    using click_consumes[of ?c "''3''" 3 ?n] by auto
qed

end
