(* ===== verification/EventsMod.thy ===== *)
theory EventsMod
  imports Bus
begin

text \<open>
  The topic broker (\<open>wandr-arbiter-events\<close>): subscribers per topic and one retained
  payload per topic, delivered to each new subscriber.
\<close>

record EventsModule =
  subscribers :: "(string \<times> pid list) list"
  retained :: "(string \<times> string) list"

definition EventsModule_new :: EventsModule where
  "EventsModule_new = \<lparr>subscribers = [], retained = []\<rparr>"

definition event_line :: "string \<Rightarrow> string \<Rightarrow> string" where
  "event_line topic payload = ''event '' @ topic @ '' '' @ payload @ [CHR 0x0A]"

text \<open>The two leading tokens of a subscription command.\<close>

definition pid_topic :: "string \<Rightarrow> (pid \<times> string) option" where
  "pid_topic args =
     (case split_ws args of
        p # t # _ \<Rightarrow> map_option (\<lambda>p. (p, t)) (parse_i32 p)
      | _ \<Rightarrow> None)"

definition subs_of :: "EventsModule \<Rightarrow> string \<Rightarrow> pid list" where
  "subs_of m topic = or_default [] (map_of (subscribers m) topic)"

definition cmd_subscribe :: "string \<Rightarrow> EventsModule \<Rightarrow> Ctx \<Rightarrow> Reply \<times> EventsModule \<times> Ctx" where
  "cmd_subscribe args m c =
     (case pid_topic args of
        None \<Rightarrow> (Err ''evt-subscribe-usage <pid> <topic>'', m, c)
      | Some (p, topic) \<Rightarrow>
          (let subs = subs_of m topic;
               m1 = m\<lparr>subscribers := AList.update topic (if p \<in> set subs then subs else subs @ [p]) (subscribers m)\<rparr>;
               c1 = (case map_of (retained m1) topic of None \<Rightarrow> c
                     | Some payload \<Rightarrow> deliver_to_host p (event_line topic payload) c)
           in (Ok (''evt-subscribe '' @ show_int p @ '' '' @ topic), m1, c1)))"

definition cmd_unsubscribe :: "string \<Rightarrow> EventsModule \<Rightarrow> Ctx \<Rightarrow> Reply \<times> EventsModule \<times> Ctx" where
  "cmd_unsubscribe args m c =
     (case pid_topic args of
        None \<Rightarrow> (Err ''evt-unsubscribe-usage <pid> <topic>'', m, c)
      | Some (p, topic) \<Rightarrow>
          (let m1 = (case map_of (subscribers m) topic of None \<Rightarrow> m
                     | Some subs \<Rightarrow>
                         m\<lparr>subscribers := AList.update topic (filter (\<lambda>q. q \<noteq> p) subs) (subscribers m)\<rparr>)
           in (Ok (''evt-unsubscribe '' @ show_int p @ '' '' @ topic), m1, c)))"

definition cmd_publish :: "string \<Rightarrow> EventsModule \<Rightarrow> Ctx \<Rightarrow> Reply \<times> EventsModule \<times> Ctx" where
  "cmd_publish args m c =
     (let parts = splitn 2 (CHR '' '') (trim args); topic = or_default [] (nth_opt parts 0) in
      if topic = [] then (Err ''evt-publish-usage <topic> <payload-base64>'', m, c)
      else
        (let payload = or_default [] (nth_opt parts 1);
             m1 = m\<lparr>retained := AList.update topic payload (retained m)\<rparr>;
             subs = subs_of m1 topic
         in (Ok (''evt-publish '' @ topic @ '' subscribers='' @ show_nat (length subs)), m1,
             fold (\<lambda>p. deliver_to_host p (event_line topic payload)) subs c)))"

definition events_verbs :: "string list" where
  "events_verbs = [''evt-subscribe'', ''evt-unsubscribe'', ''evt-publish'']"

definition events_on_command ::
  "string \<Rightarrow> string \<Rightarrow> EventsModule \<Rightarrow> Ctx \<Rightarrow> Reply \<times> EventsModule \<times> Ctx" where
  "events_on_command verb args m c =
     (if verb = ''evt-subscribe'' then cmd_subscribe args m c
      else if verb = ''evt-unsubscribe'' then cmd_unsubscribe args m c
      else if verb = ''evt-publish'' then cmd_publish args m c
      else (Err (''events-unknown-verb '' @ verb), m, c))"

definition events_on_event :: "Event \<Rightarrow> EventsModule \<Rightarrow> EventsModule" where
  "events_on_event ev m =
     (case ev of
        SurfaceRemoved p \<Rightarrow>
          m\<lparr>subscribers := map (\<lambda>(t, subs). (t, filter (\<lambda>q. q \<noteq> p) subs)) (subscribers m)\<rparr>
      | _ \<Rightarrow> m)"

section \<open>Lemmas\<close>

definition broker_wf :: "EventsModule \<Rightarrow> bool" where
  "broker_wf m \<longleftrightarrow> (\<forall>t. distinct (subs_of m t))"

lemma fold_deliver_line [simp]:
  "store (fold (\<lambda>p. deliver_to_host p l) ps c) = store c"
  "events (fold (\<lambda>p. deliver_to_host p l) ps c) = events c"
  "effects (fold (\<lambda>p. deliver_to_host p l) ps c) = effects c @ map (\<lambda>p. HostLine p l) ps"
  by (induction ps arbitrary: c) simp_all

lemma subs_of_removed:
  "subs_of (events_on_event (SurfaceRemoved p) m) t = filter (\<lambda>q. q \<noteq> p) (subs_of m t)"
proof -
  have "map_of (map (\<lambda>(t, subs). (t, filter (\<lambda>q. q \<noteq> p) subs)) xs) t =
      map_option (filter (\<lambda>q. q \<noteq> p)) (map_of xs t)" for xs
    by (induction xs) auto
  then show ?thesis
    by (cases "map_of (subscribers m) t") (simp_all add: events_on_event_def subs_of_def)
qed

lemma events_on_event_wf [inv_intros]: "broker_wf m \<Longrightarrow> broker_wf (events_on_event ev m)"
  by (cases ev) (auto simp: broker_wf_def subs_of_removed, auto simp: events_on_event_def)

lemma subs_of_update:
  "subs_of (m\<lparr>subscribers := AList.update t s (subscribers m)\<rparr>) u = (if u = t then s else subs_of m u)"
  by (simp add: subs_of_def update_conv')

lemma subs_of_retained [simp]: "subs_of (m\<lparr>retained := r\<rparr>) t = subs_of m t"
  by (simp add: subs_of_def)

lemma broker_wf_lookup: "broker_wf m \<Longrightarrow> map_of (subscribers m) t = Some s \<Longrightarrow> distinct s"
  unfolding broker_wf_def subs_of_def by (metis or_default_simps(2))

lemma cmd_subscribe_wf: "broker_wf m \<Longrightarrow> broker_wf (fst (snd (cmd_subscribe args m c)))"
  by (simp add: cmd_subscribe_def broker_wf_def subs_of_update Let_def split: option.split)

lemma cmd_unsubscribe_wf: "broker_wf m \<Longrightarrow> broker_wf (fst (snd (cmd_unsubscribe args m c)))"
  using broker_wf_lookup[of m]
  by (auto simp: cmd_unsubscribe_def broker_wf_def subs_of_update Let_def split: option.split)

lemma cmd_publish_wf: "broker_wf m \<Longrightarrow> broker_wf (fst (snd (cmd_publish args m c)))"
  by (simp add: cmd_publish_def broker_wf_def Let_def)

lemma events_on_command_wf [inv_intros]:
  "broker_wf m \<Longrightarrow> broker_wf (fst (snd (events_on_command v args m c)))"
  by (simp add: events_on_command_def cmd_subscribe_wf cmd_unsubscribe_wf cmd_publish_wf)

section \<open>Properties\<close>

text \<open>
  Publish reaches every subscriber of the topic exactly once and nobody else, and is kept:
  a later subscriber is sent the last published payload at once.
\<close>

theorem publish_then_subscribe:
  assumes "broker_wf m" "token topic" "token payload" "- (2 ^ 31) \<le> p" "p < 2 ^ 31"
  shows "\<exists>r m1 c1. events_on_command ''evt-publish'' (topic @ '' '' @ payload) m c = (r, m1, c1)
    \<and> effects c1 = effects c @ map (\<lambda>q. HostLine q (event_line topic payload)) (subs_of m topic)
    \<and> distinct (subs_of m topic)
    \<and> effects (snd (snd (events_on_command ''evt-subscribe'' (show_int p @ '' '' @ topic) m1 d))) =
        effects d @ [HostLine p (event_line topic payload)]"
proof -
  have "trim (topic @ '' '' @ payload) = topic @ '' '' @ payload"
    using assms(2,3) by (intro trim_plain_ends) (auto simp: token_def)
  moreover have "\<forall>c \<in> set topic. c \<noteq> CHR '' ''"
    using assms(2) by (auto simp: token_def plain_def)
  ultimately have p: "splitn 2 (CHR '' '') (trim (topic @ '' '' @ payload)) = [topic, payload]"
    by (simp add: numeral_2_eq_2 split_once_def find_char_append)
  have t: "topic \<noteq> []"
    using assms(2) by (simp add: token_def)
  let ?m1 = "m\<lparr>retained := AList.update topic payload (retained m)\<rparr>"
  have "events_on_command ''evt-publish'' (topic @ '' '' @ payload) m c =
      (Ok (''evt-publish '' @ topic @ '' subscribers='' @ show_nat (length (subs_of m topic))), ?m1,
       fold (\<lambda>p. deliver_to_host p (event_line topic payload)) (subs_of m topic) c)"
    unfolding events_on_command_def cmd_publish_def p by (simp add: nth_opt_def t Let_def)
  moreover have "pid_topic (show_int p @ '' '' @ topic) = Some (p, topic)"
    using assms(2) parse_i32_show_int[OF assms(4,5)] by (simp add: pid_topic_def)
  ultimately show ?thesis
    using assms(1)
    by (simp add: events_on_command_def cmd_subscribe_def Let_def update_conv' broker_wf_def)
qed

theorem publish_then_subscribe_witness:
  "\<exists>r m1 c1. events_on_command ''evt-publish'' (''net'' @ '' '' @ ''b24='') EventsModule_new
       (Ctx_new \<lparr>cl_mono = 0, cl_unix = 0\<rparr> Store_new) = (r, m1, c1)
    \<and> effects (snd (snd (events_on_command ''evt-subscribe'' (show_int 7 @ '' '' @ ''net'') m1
         (Ctx_new \<lparr>cl_mono = 0, cl_unix = 0\<rparr> Store_new)))) = [HostLine 7 (event_line ''net'' ''b24='')]"
proof -
  have "broker_wf EventsModule_new"
    by (simp add: broker_wf_def subs_of_def EventsModule_new_def)
  moreover have "token ''net''" "token ''b24=''"
    by (simp_all add: token_def plain_def)
  ultimately show ?thesis
    using publish_then_subscribe[of EventsModule_new "''net''" "''b24=''" 7
        "Ctx_new \<lparr>cl_mono = 0, cl_unix = 0\<rparr> Store_new" "Ctx_new \<lparr>cl_mono = 0, cl_unix = 0\<rparr> Store_new"]
    by auto
qed

text \<open>
  When a process dies it is dropped from every topic and everyone else stays subscribed, in
  order; no topic ever lists a pid twice.
\<close>

theorem broker_forgets_dead:
  assumes "broker_wf m"
  shows "subs_of (events_on_event (SurfaceRemoved p) m) t = filter (\<lambda>q. q \<noteq> p) (subs_of m t)
    \<and> broker_wf (events_on_event (SurfaceRemoved p) m)
    \<and> broker_wf (fst (snd (events_on_command v args m c)))"
  using assms by (simp add: subs_of_removed events_on_event_wf events_on_command_wf)

theorem broker_forgets_dead_witness:
  "subs_of (events_on_event (SurfaceRemoved 7) \<lparr>subscribers = [(''net'', [7, 8])], retained = []\<rparr>) ''net'' = [8]"
proof -
  have "broker_wf \<lparr>subscribers = [(''net'', [7, 8])], retained = []\<rparr>"
    by (auto simp: broker_wf_def subs_of_def)
  from broker_forgets_dead[OF this, of 7 "''net''"] show ?thesis
    by (simp add: subs_of_def)
qed

end
