(* ===== verification/Shell.thy ===== *)
theory Shell
  imports Bus "HOL-Library.Char_ord" "HOL-Library.List_Lexorder"
begin

text \<open>
  The activity and input-method module (\<open>wandr-arbiter-shell\<close>): which app is in the
  foreground, the keyboard overlay split, editor focus and its routing, and the running-app
  commands.  The three source files are the sections: \<open>shared.rs\<close>, \<open>am.rs\<close>,
  \<open>ime.rs\<close>, then the dispatch of \<open>lib.rs\<close>.

  \<open>reconcile_overlay\<close> expects the active keyboard to be a tracked surface and panics
  when it is not, so it and everything that runs it return an option.
\<close>

section \<open>Shared helpers\<close>

definition CHROME_APP_IDS :: "string list" where
  "CHROME_APP_IDS = [''wandr.statusbar'', ''wandr.taskbar'', ''wandr.ime.keyboard'',
     ''wandr.keyguard'', ''wandr.powermenu'']"

definition sh_visible_app :: "Store \<Rightarrow> pid option" where
  "sh_visible_app st = Option.bind (display st PRIMARY_DISPLAY) visible_app"

definition sh_overlay_desired :: "Store \<Rightarrow> pid option" where
  "sh_overlay_desired st = Option.bind (display st PRIMARY_DISPLAY) overlay_desired"

definition sh_overlay_engaged :: "Store \<Rightarrow> bool" where
  "sh_overlay_engaged st = or_default False (map_option overlay_engaged (display st PRIMARY_DISPLAY))"

definition pid_and_id :: "Surface \<Rightarrow> pid \<times> string" where
  "pid_and_id s = (s_pid s, s_app_id s)"

definition sh_foreground_slot :: "Store \<Rightarrow> (pid \<times> string) option" where
  "sh_foreground_slot st =
     map_option pid_and_id (Option.bind (display st PRIMARY_DISPLAY) foreground_slot)"

definition role_pid :: "Store \<Rightarrow> Role \<Rightarrow> (pid \<times> string) option" where
  "role_pid st r =
     map_option pid_and_id (Option.bind (display st PRIMARY_DISPLAY) (first_with_role r))"

definition sh_active_ime :: "Store \<Rightarrow> (pid \<times> string) option" where
  "sh_active_ime st =
     map_option pid_and_id (Option.bind (display st PRIMARY_DISPLAY) active_ime_surface)"

definition sh_ime_editor :: "Store \<Rightarrow> (pid \<times> EditorInfo) option" where
  "sh_ime_editor st = Option.bind (display st PRIMARY_DISPLAY) ime_editor"

definition on_primary :: "(DisplayState \<Rightarrow> DisplayState) \<Rightarrow> Ctx \<Rightarrow> Ctx" where
  "on_primary f = on_store (display_mut PRIMARY_DISPLAY f)"

definition apply_role :: "pid \<Rightarrow> Role \<Rightarrow> Ctx \<Rightarrow> Ctx" where
  "apply_role p r c = on_primary (set_role p r) (request (SetRole p r) c)"

definition place :: "pid \<Rightarrow> string \<Rightarrow> Role \<Rightarrow> Ctx \<Rightarrow> Ctx" where
  "place p i r c = on_primary (put_surface p i r) (request (SetRole p r) c)"

definition drop_editor_focus_of :: "pid \<Rightarrow> Ctx \<Rightarrow> Ctx" where
  "drop_editor_focus_of p c =
     (if map_option fst (sh_ime_editor (store c)) \<noteq> Some p then c
      else
        (let c1 = on_primary (set_ime_editor None) c;
             c2 = (case sh_active_ime (store c1) of None \<Rightarrow> c1
                   | Some (ime, _) \<Rightarrow> deliver_to_host ime (''editor-detached'' @ [CHR 0x0A]) c1)
         in emit (EditorFocusChanged p False) c2))"

definition promote_to_overlay :: "string \<Rightarrow> pid \<Rightarrow> pid option \<Rightarrow> Ctx \<Rightarrow> pid option \<times> Ctx" where
  "promote_to_overlay i p behind_hint c =
     (let demote = (case role_pid (store c) Role.Foreground of
                      Some (prev, _) \<Rightarrow> if prev \<noteq> p then Some prev else None
                    | None \<Rightarrow> None);
          (demoted, c1) =
            (case demote of
               Some prev \<Rightarrow> (Some prev, apply_role prev OverlayBehind c)
             | None \<Rightarrow>
                 (behind_hint,
                  case behind_hint of None \<Rightarrow> c
                  | Some h \<Rightarrow> on_primary (set_role h OverlayBehind) c))
      in (demoted, place p i Overlay c1))"

definition demote_from_overlay :: "Ctx \<Rightarrow> (pid \<times> pid) option \<times> Ctx" where
  "demote_from_overlay c =
     (case role_pid (store c) Overlay of
        None \<Rightarrow> (None, c)
      | Some (op, _) \<Rightarrow>
          (let behind = map_option fst (role_pid (store c) OverlayBehind);
               c1 = apply_role op Background c;
               c2 = (case behind of None \<Rightarrow> c1 | Some bp \<Rightarrow> apply_role bp Role.Foreground c1)
           in (Some (op, or_default 0 behind), c2)))"

definition reconcile_overlay :: "Ctx \<Rightarrow> Ctx option" where
  "reconcile_overlay c =
     (let visible = sh_visible_app (store c) in
      case (sh_overlay_desired (store c), sh_overlay_engaged (store c)) of
        (Some _, False) \<Rightarrow>
          (case sh_active_ime (store c) of
             None \<Rightarrow> None
           | Some (ime, i) \<Rightarrow> Some (snd (promote_to_overlay i ime visible c)))
      | (None, True) \<Rightarrow> Some (snd (demote_from_overlay c))
      | _ \<Rightarrow> Some c)"

definition promote_to_foreground :: "string \<Rightarrow> pid \<Rightarrow> Ctx \<Rightarrow> Ctx option" where
  "promote_to_foreground i p c =
     (let c1 = (if sh_overlay_engaged (store c) then snd (demote_from_overlay c) else c);
          c2 = (case role_pid (store c1) Role.Foreground of
                  None \<Rightarrow> c1
                | Some (prev, _) \<Rightarrow>
                    if prev \<noteq> p
                    then drop_editor_focus_of prev (apply_role prev Background c1)
                    else c1);
          c3 = place p i Role.Foreground c2
      in map_option (emit (ForegroundChanged (Some i) (Some p))) (reconcile_overlay c3))"

definition on_surface_removed :: "pid \<Rightarrow> Ctx \<Rightarrow> Ctx" where
  "on_surface_removed p c =
     (let involved = sh_overlay_engaged (store c) \<and>
            (map_option fst (role_pid (store c) Overlay) = Some p \<or>
             map_option fst (role_pid (store c) OverlayBehind) = Some p);
          c1 = (if involved then snd (demote_from_overlay c) else c);
          c2 = (case app_by_pid (store c1) p of None \<Rightarrow> c1
                | Some a \<Rightarrow> on_store (remove_app (a_app_id a)) c1)
      in on_primary (remove_surface p) c2)"

section \<open>Activity manager commands\<close>

definition arrow :: string where "arrow = [CHR 0xE2, CHR 0x86, CHR 0x92]"

definition cmd_foreground :: "string \<Rightarrow> Ctx \<Rightarrow> (Reply \<times> Ctx) option" where
  "cmd_foreground i c =
     (if i = [] then Some (Err ''foreground-empty-app-id'', c)
      else case app (store c) i of
        None \<Rightarrow> Some (Err (''not-tracked '' @ i), c)
      | Some s \<Rightarrow>
          (let prev = map_option snd (sh_foreground_slot (store c)) in do {
             c1 \<leftarrow> promote_to_foreground (a_app_id s) (a_pid s) c;
             Some (Ok (''fg='' @ i @ '' prev='' @ or_default ''(none)'' prev @ '' pid='' @ show_int (a_pid s)), c1)
           }))"

definition anchor_of :: "string \<Rightarrow> nat \<times> ChromeAnchor option" where
  "anchor_of a =
     (if a = ''top'' then (STATUS_BAR_DP, Some Top)
      else if a = ''bottom-bar'' then (TASKBAR_DP, Some Bottom)
      else (0, None))"

definition cmd_register_chrome :: "string \<Rightarrow> Ctx \<Rightarrow> Reply \<times> Ctx" where
  "cmd_register_chrome rest c =
     (case split_ws rest of
        i # pid_s # parts \<Rightarrow>
          (case parse_i32 pid_s of
             None \<Rightarrow> (Err (''register-chrome-bad-pid '' @ pid_s), c)
           | Some p \<Rightarrow>
               (let c1 = on_store (insert_app \<lparr>a_app_id = i, a_pid = p,
                           launched_at = cl_unix (clock c), launched_mono = cl_mono (clock c)\<rparr>) c;
                    c2 = on_primary (put_surface p i Chrome) c1;
                    (dp, an) = anchor_of (case parts of [] \<Rightarrow> [] | a # _ \<Rightarrow> a);
                    c3 = (case an of None \<Rightarrow> c2 | Some a \<Rightarrow> on_primary (set_chrome_anchor p a) c2);
                    height = or_default 0 (map_option (\<lambda>g. dp_to_px g dp) (store_geometry (store c3) PRIMARY_DISPLAY))
                in (Ok (''chrome '' @ i @ '' pid='' @ show_int p @ '' height='' @ show_u32 height), c3)))
      | _ \<Rightarrow> (Err ''register-chrome-args: expected <app-id> <pid> <anchor>'', c))"

text \<open>The prune shared by \<open>cmd_kill\<close> and \<open>cmd_task_kill\<close>.\<close>

definition kill_app :: "string \<Rightarrow> pid \<Rightarrow> Ctx \<Rightarrow> Ctx" where
  "kill_app i p c =
     on_primary (remove_surface p) (on_store (remove_app i) (request (Kill p) c))"

definition cmd_kill :: "string \<Rightarrow> Ctx \<Rightarrow> Reply \<times> Ctx" where
  "cmd_kill i c =
     (if i = [] then (Err ''kill-empty-app-id'', c)
      else case app (store c) i of
        None \<Rightarrow> (Err (''not-tracked '' @ i), c)
      | Some s \<Rightarrow> (Ok (''killed app='' @ i @ '' pid='' @ show_int (a_pid s)), kill_app i (a_pid s) c))"

definition cmd_back :: "Ctx \<Rightarrow> (Reply \<times> Ctx) option" where
  "cmd_back c =
     (if sh_overlay_engaged (store c)
      then
        (let c1 = (case sh_ime_editor (store c) of None \<Rightarrow> c
                   | Some (editor, _) \<Rightarrow> drop_editor_focus_of editor c)
         in do {
           c2 \<leftarrow> reconcile_overlay c1;
           Some (Ok (''back '' @ arrow @ '' ime dismissed''), c2)
         })
      else case sh_foreground_slot (store c) of
        None \<Rightarrow> Some (Ok ''back noop (no foreground app)'', c)
      | Some (fg, _) \<Rightarrow>
          Some (Ok (''back '' @ arrow @ '' pid='' @ show_int fg @ '' (esc)''),
            deliver_to_host fg (''key-event 0 27 up'' @ [CHR 0x0A])
              (deliver_to_host fg (''key-event 0 27 down'' @ [CHR 0x0A]) c)))"

definition switchable :: "Store \<Rightarrow> AppState list" where
  "switchable st =
     sort_key a_app_id (filter (\<lambda>a. a_app_id a \<notin> set CHROME_APP_IDS) (apps_snapshot st))"

text \<open>\<open>iter().position(p)\<close>.\<close>

fun position :: "('a \<Rightarrow> bool) \<Rightarrow> 'a list \<Rightarrow> nat option" where
  "position P [] = None"
| "position P (x # xs) = (if P x then Some 0 else map_option Suc (position P xs))"

definition next_task :: "Store \<Rightarrow> AppState" where
  "next_task st =
     (let ring = switchable st;
          idx = Option.bind (sh_visible_app st) (\<lambda>p. position (\<lambda>a. a_pid a = p) ring)
      in ring ! ((case idx of None \<Rightarrow> 0 | Some k \<Rightarrow> k + 1) mod length ring))"

definition cmd_cycle_task :: "Ctx \<Rightarrow> (Reply \<times> Ctx) option" where
  "cmd_cycle_task c =
     (let ring = switchable (store c) in
      if length ring < 2
      then Some (Ok (''cycle-task noop ('' @ show_nat (length ring) @ '' switchable app(s))''), c)
      else
        (let nxt = next_task (store c) in do {
           c1 \<leftarrow> promote_to_foreground (a_app_id nxt) (a_pid nxt) c;
           Some (Ok (''cycle-task '' @ arrow @ '' '' @ a_app_id nxt @ '' pid='' @ show_int (a_pid nxt)), c1)
         }))"

definition role_to_state :: "Role \<Rightarrow> string" where
  "role_to_state r =
     (case r of Role.Foreground \<Rightarrow> ''foreground'' | OverlayBehind \<Rightarrow> ''foreground''
      | Overlay \<Rightarrow> ''overlay'' | Chrome \<Rightarrow> ''overlay'' | Lockscreen \<Rightarrow> ''overlay''
      | Role.Headless \<Rightarrow> ''headless'' | Background \<Rightarrow> ''background'')"

definition elapsed_ms :: "Clock \<Rightarrow> AppState \<Rightarrow> nat" where
  "elapsed_ms cl a = (cl_mono cl - launched_mono a) div 10 ^ 6"

definition app_state_token :: "Store \<Rightarrow> pid \<Rightarrow> string" where
  "app_state_token st p =
     or_default ''background''
       (map_option role_to_state (Option.bind (display st PRIMARY_DISPLAY) (role_of p)))"

definition task_line :: "Clock \<Rightarrow> Store \<Rightarrow> AppState \<Rightarrow> string" where
  "task_line cl st a =
     [CHR 0x0A] @ ''app='' @ a_app_id a @ '' pid='' @ show_int (a_pid a) @ '' state='' @
     app_state_token st (a_pid a) @ '' uptime_ms='' @ show_nat (elapsed_ms cl a)"

definition cmd_task_list :: "Ctx \<Rightarrow> Reply \<times> Ctx" where
  "cmd_task_list c =
     (let as = sort_key a_app_id (apps_snapshot (store c)) in
      (Ok (''count='' @ show_nat (length as) @ concat (map (task_line (clock c) (store c)) as)), c))"

definition cmd_task_kill :: "string \<Rightarrow> Ctx \<Rightarrow> Reply \<times> Ctx" where
  "cmd_task_kill i c =
     (if i = [] then (Err ''not-found'', c)
      else case app (store c) i of
        None \<Rightarrow> (Err ''not-found'', c)
      | Some s \<Rightarrow>
          if i \<in> set CHROME_APP_IDS \<or> home (store c) = Some i then (Err ''protected'', c)
          else (Ok (''killed app='' @ i @ '' pid='' @ show_int (a_pid s)), kill_app i (a_pid s) c))"

definition list_line :: "Ctx \<Rightarrow> AppState \<Rightarrow> string" where
  "list_line c a =
     (let st = store c in
      [CHR 0x0A] @ ''  app='' @ a_app_id a @ '' pid='' @ show_int (a_pid a) @ '' elapsed_ms='' @
      show_nat (elapsed_ms (clock c) a) @
      (if map_option snd (sh_foreground_slot st) = Some (a_app_id a) then '' [fg]'' else []) @
      (if map_option snd (sh_active_ime st) = Some (a_app_id a) then '' [ime]'' else []) @
      (case sh_ime_editor st of None \<Rightarrow> []
       | Some (p, info) \<Rightarrow> if p = a_pid a then '' [editor:'' @ input_type info @ '']'' else []))"

definition cmd_list :: "Ctx \<Rightarrow> Reply \<times> Ctx" where
  "cmd_list c =
     (let as = sort_key a_app_id (apps_snapshot (store c)) in
      (Ok (''count='' @ show_nat (length as) @ concat (map (list_line c) as)), c))"

section \<open>Input method commands\<close>

definition escape_underscores :: "string \<Rightarrow> string" where
  "escape_underscores s = (if s = [] then ''-'' else replace_char (CHR '' '') ''_'' s)"

definition cmd_set_ime :: "string \<Rightarrow> Ctx \<Rightarrow> Reply \<times> Ctx" where
  "cmd_set_ime i c =
     (if i = [] then (Err ''set-ime-empty-app-id'', c)
      else
        (let prev = or_default ''(none)'' (map_option snd (sh_active_ime (store c))) in
         if i = ''-''
         then (Ok (''cleared prev='' @ prev), on_primary (\<lambda>d. d\<lparr>active_ime := None\<rparr>) c)
         else case app (store c) i of
           None \<Rightarrow> (Err (''not-running '' @ i @ '' (launch first)''), c)
         | Some s \<Rightarrow>
             (Ok (''ime='' @ i @ '' pid='' @ show_int (a_pid s) @ '' prev='' @ prev),
              on_primary (\<lambda>d. d\<lparr>active_ime := Some (a_pid s)\<rparr>) c)))"

definition cmd_ime_overlay_height :: "string \<Rightarrow> Ctx \<Rightarrow> Reply \<times> Ctx" where
  "cmd_ime_overlay_height rest c =
     (case parse_u32 (trim rest) of
        None \<Rightarrow> (Err (''ime-overlay-height-bad-px '' @ str_debug rest), c)
      | Some px \<Rightarrow>
          (Ok (''ime-overlay-height '' @ show_u32 px),
           emit (ImeHeightChanged PRIMARY_DISPLAY px) (on_store (set_ime_height px) c)))"

definition ime_dest :: "string \<Rightarrow> (pid \<times> string) option \<Rightarrow> string" where
  "ime_dest none ime =
     (case ime of None \<Rightarrow> none | Some (p, i) \<Rightarrow> i @ '' (pid='' @ show_int p @ '')'')"

definition no_ime_set_first :: string where
  "no_ime_set_first = ''(no active IME '' @ [CHR 0xE2, CHR 0x80, CHR 0x94] @ '' set-ime first)''"

definition cmd_attach_editor :: "string \<Rightarrow> Ctx \<Rightarrow> (Reply \<times> Ctx) option" where
  "cmd_attach_editor rest c =
     (let parts = splitn 4 (CHR '' '') rest; pid_s = or_default [] (nth_opt parts 0) in
      case parse_i32 pid_s of
        None \<Rightarrow> Some (Err (''attach-editor-bad-pid '' @ pid_s), c)
      | Some p \<Rightarrow>
          (case app_by_pid (store c) p of
             None \<Rightarrow> Some (Err (''attach-editor-unknown-pid '' @ show_int p), c)
           | Some owner \<Rightarrow>
               (let ty = or_default ''text'' (nth_opt parts 1);
                    hnt = or_default [] (nth_opt parts 2);
                    txt = or_default [] (nth_opt parts 3);
                    prev = or_default ''-'' (map_option (\<lambda>(q, _). show_int q) (sh_ime_editor (store c)));
                    c1 = on_primary (set_ime_editor (Some (p, \<lparr>input_type = ty, hint = hnt,
                           initial_text = txt, initial_selection_start = 0,
                           initial_selection_end = 0\<rparr>))) c;
                    ime = sh_active_ime (store c1);
                    dest = ime_dest no_ime_set_first ime
                in do {
                  c2 \<leftarrow> reconcile_overlay c1;
                  let auto = sh_overlay_engaged (store c2) \<and> sh_visible_app (store c2) = Some p;
                  let c3 = (case ime of None \<Rightarrow> c2
                            | Some (ip, _) \<Rightarrow> deliver_to_host ip
                                (''editor-attached '' @ ty @ '' '' @ escape_underscores hnt @ '' '' @
                                 escape_underscores txt @ '' 0 0'' @ [CHR 0x0A]) c2);
                  let c4 = (case ime of None \<Rightarrow> c3
                            | Some (ip, _) \<Rightarrow>
                                if ip \<noteq> p
                                then emit (EditorFocusChanged p True)
                                       (emit (ImeHeightChanged PRIMARY_DISPLAY (ime_height (store c3))) c3)
                                else c3);
                  Some (Ok (''attached editor pid='' @ show_int p @ '' app='' @ a_app_id owner @
                            '' input-type='' @ ty @ '' prev-pid='' @ prev @ '' route'' @ arrow @ dest @
                            '' overlay='' @ (if auto then ''engaged'' else ''skipped'') @
                            '' routed='' @ show_bool (ime \<noteq> None)), c4)
                })))"

definition cmd_detach_editor :: "string \<Rightarrow> Ctx \<Rightarrow> (Reply \<times> Ctx) option" where
  "cmd_detach_editor rest c =
     (let pid_s = trim rest in
      if pid_s = [] then Some (Err ''detach-editor-missing-pid'', c)
      else case parse_i32 pid_s of
        None \<Rightarrow> Some (Err (''detach-editor-bad-pid '' @ pid_s), c)
      | Some p \<Rightarrow>
          if map_option fst (sh_ime_editor (store c)) \<noteq> Some p
          then Some (Ok (''no-op pid='' @ show_int p @ '' (not focused)''), c)
          else
            (let c1 = on_primary (set_ime_editor None) c;
                 ime = sh_active_ime (store c1);
                 dest = ime_dest ''(no active IME)'' ime;
                 was = sh_overlay_engaged (store c1) \<and> sh_visible_app (store c1) = Some p
             in do {
               c2 \<leftarrow> reconcile_overlay c1;
               let cleared = was \<and> \<not> sh_overlay_engaged (store c2);
               let c3 = (case ime of None \<Rightarrow> c2
                         | Some (ip, _) \<Rightarrow> deliver_to_host ip (''editor-detached'' @ [CHR 0x0A]) c2);
               Some (Ok (''detached pid='' @ show_int p @ '' route'' @ arrow @ dest @ '' overlay='' @
                         (if cleared then ''cleared'' else ''skipped'') @
                         '' routed='' @ show_bool (ime \<noteq> None)),
                     emit (EditorFocusChanged p False) c3)
             }))"

definition cmd_ime_route :: "string \<Rightarrow> string \<Rightarrow> Ctx \<Rightarrow> Reply \<times> Ctx" where
  "cmd_ime_route verb rest c =
     (case sh_ime_editor (store c) of
        None \<Rightarrow> (Err ''no-focused-editor'', c)
      | Some (fp, info) \<Rightarrow>
          if verb = ''send-key-event''
          then
            (case split_ws rest of
               [a, b, e] \<Rightarrow>
                 (Ok (''route'' @ arrow @ ''pid='' @ show_int fp @ '' (key-event '' @ a @ '' '' @ b @ '' '' @ e @ '')''),
                  deliver_to_host fp (''key-event '' @ a @ '' '' @ b @ '' '' @ e @ [CHR 0x0A]) c)
             | _ \<Rightarrow> (Err ''send-key-event-bad-args: expected <code-point> <key-id> <down|up>'', c))
          else
            (Ok (''route'' @ arrow @ ''pid='' @ show_int fp @ '' (input-type='' @ input_type info @ '') '' @
                 verb @ '' args='' @ str_debug rest @ '' [step 3b '' @
                 [CHR 0xE2, CHR 0x80, CHR 0x94] @ '' log only]''), c))"

definition cmd_overlay :: "string \<Rightarrow> Ctx \<Rightarrow> Reply \<times> Ctx" where
  "cmd_overlay i c =
     (if i = [] then (Err ''overlay-empty-app-id'', c)
      else case app (store c) i of
        None \<Rightarrow> (Err (''overlay-not-tracked '' @ i), c)
      | Some ime \<Rightarrow>
          (let prev = sh_foreground_slot (store c);
               (demoted, c1) = promote_to_overlay (a_app_id ime) (a_pid ime) (map_option fst prev) c
           in (Ok (''overlay='' @ i @ '' pid='' @ show_int (a_pid ime) @ '' prev-fg='' @
                   or_default ''(none)'' (map_option snd prev) @ '' behind-pid='' @
                   or_default ''-'' (map_option show_int demoted)), c1)))"

definition cmd_overlay_clear :: "Ctx \<Rightarrow> Reply \<times> Ctx" where
  "cmd_overlay_clear c =
     (case demote_from_overlay c of
        (Some (ip, bp), c1) \<Rightarrow>
          (Ok (''overlay-cleared ime-pid='' @ show_int ip @ '' repromoted-behind-pid='' @ show_int bp), c1)
      | (None, c1) \<Rightarrow> (Ok ''overlay-was-not-active'', c1))"

section \<open>Dispatch\<close>

definition shell_verbs :: "string list" where
  "shell_verbs = [''foreground'', ''register-chrome'', ''kill'', ''set-ime'', ''attach-editor'',
     ''detach-editor'', ''ime-overlay-height'', ''ime-commit-text'', ''ime-send-key-event'',
     ''ime-set-composing-text'', ''ime-finish-composing-text'', ''ime-set-selection'', ''back'',
     ''cycle-task'', ''overlay'', ''overlay-clear'', ''list'', ''task-list'', ''task-kill'']"

definition shell_on_command :: "string \<Rightarrow> string \<Rightarrow> Ctx \<Rightarrow> (Reply \<times> Ctx) option" where
  "shell_on_command verb args c =
     (if verb = ''foreground'' then cmd_foreground args c
      else if verb = ''register-chrome'' then Some (cmd_register_chrome args c)
      else if verb = ''kill'' then Some (cmd_kill args c)
      else if verb = ''back'' then cmd_back c
      else if verb = ''cycle-task'' then cmd_cycle_task c
      else if verb = ''list'' then Some (cmd_list c)
      else if verb = ''task-list'' then Some (cmd_task_list c)
      else if verb = ''task-kill'' then Some (cmd_task_kill args c)
      else if verb = ''set-ime'' then Some (cmd_set_ime args c)
      else if verb = ''attach-editor'' then cmd_attach_editor args c
      else if verb = ''detach-editor'' then cmd_detach_editor args c
      else if verb = ''ime-overlay-height'' then Some (cmd_ime_overlay_height args c)
      else if verb = ''ime-commit-text'' then Some (cmd_ime_route ''commit-text'' args c)
      else if verb = ''ime-send-key-event'' then Some (cmd_ime_route ''send-key-event'' args c)
      else if verb = ''ime-set-composing-text'' then Some (cmd_ime_route ''set-composing-text'' args c)
      else if verb = ''ime-finish-composing-text'' then Some (cmd_ime_route ''finish-composing-text'' args c)
      else if verb = ''ime-set-selection'' then Some (cmd_ime_route ''set-selection'' args c)
      else if verb = ''overlay'' then Some (cmd_overlay args c)
      else if verb = ''overlay-clear'' then Some (cmd_overlay_clear c)
      else Some (Err (''shell-unknown-verb '' @ verb), c))"

definition shell_on_event :: "Event \<Rightarrow> Ctx \<Rightarrow> Ctx option" where
  "shell_on_event ev c =
     (case ev of
        SurfaceRemoved p \<Rightarrow> Some (on_surface_removed p c)
      | ForegroundChanged a p \<Rightarrow>
          reconcile_overlay
            (case sh_ime_editor (store c) of None \<Rightarrow> c
             | Some (editor, _) \<Rightarrow>
                 if sh_visible_app (store c) \<noteq> Some editor then drop_editor_focus_of editor c else c)
      | _ \<Rightarrow> Some c)"

end
