(* ===== verification/ShellSplit.thy ===== *)
theory ShellSplit
  imports Shell
begin

text \<open>
  Why the shell module is right: the overlay split stays well formed under its operations,
  the keyboard is up exactly when the model wants it up, a promoted app is the visible one,
  and no command panics as long as the active keyboard is a tracked surface.  The commands
  that can break the split (\<open>kill\<close> and \<open>overlay\<close> during one) are shown with a
  concrete run.
\<close>

section \<open>The primary display\<close>

definition prim :: "Store \<Rightarrow> DisplayState" where
  "prim st = or_default DisplayState_default (display st PRIMARY_DISPLAY)"

lemma default_derivations [simp]:
  "visible_app DisplayState_default = None" "overlay_desired DisplayState_default = None"
  "overlay_engaged DisplayState_default = False" "foreground_slot DisplayState_default = None"
  "first_with_role r DisplayState_default = None" "active_ime_surface DisplayState_default = None"
  "ime_editor DisplayState_default = None" "active_ime DisplayState_default = None"
  "role_of p DisplayState_default = None" "surfaces DisplayState_default = []"
  "geometry DisplayState_default = DisplayGeometry_default"
  by (simp_all add: DisplayState_default_def visible_app_def overlay_desired_def overlay_engaged_def
      foreground_slot_def first_with_role_def active_ime_surface_def ime_editor_def role_of_def)

lemma sh_prim:
  "sh_visible_app st = visible_app (prim st)" "sh_overlay_desired st = overlay_desired (prim st)"
  "sh_overlay_engaged st = overlay_engaged (prim st)" "sh_ime_editor st = ime_editor (prim st)"
  "sh_foreground_slot st = map_option pid_and_id (foreground_slot (prim st))"
  "role_pid st r = map_option pid_and_id (first_with_role r (prim st))"
  "sh_active_ime st = map_option pid_and_id (active_ime_surface (prim st))"
  by (cases "display st PRIMARY_DISPLAY";
      simp add: sh_visible_app_def sh_overlay_desired_def sh_overlay_engaged_def sh_ime_editor_def
        sh_foreground_slot_def role_pid_def sh_active_ime_def prim_def)+

lemma prim_simps [simp]:
  "prim (display_mut PRIMARY_DISPLAY f st) = f (prim st)"
  "prim (insert_app a st) = prim st" "prim (remove_app i st) = prim st"
  "prim (set_ime_height px st) = prim st"
  by (simp_all add: prim_def) (simp add: set_ime_height_def display_def)

lemma on_primary_simps [simp, frame_simps]:
  "prim (store (on_primary f c)) = f (prim (store c))" "events (on_primary f c) = events c"
  "effects (on_primary f c) = effects c" "clock (on_primary f c) = clock c"
  "apps (store (on_primary f c)) = apps (store c)" "app (store (on_primary f c)) i = app (store c) i"
  "app_by_pid (store (on_primary f c)) p = app_by_pid (store c) p"
  "home (store (on_primary f c)) = home (store c)" "alarms (store (on_primary f c)) = alarms (store c)"
  "notifications (store (on_primary f c)) = notifications (store c)"
  by (simp_all add: on_primary_def)

text \<open>The effect of each helper on the primary display.\<close>

lemma apply_role_simps [simp, frame_simps]:
  "prim (store (apply_role p r c)) = set_role p r (prim (store c))"
  "events (apply_role p r c) = events c" "effects (apply_role p r c) = effects c @ [SetRole p r]"
  "clock (apply_role p r c) = clock c" "apps (store (apply_role p r c)) = apps (store c)"
  by (simp_all add: apply_role_def)

lemma place_simps [simp, frame_simps]:
  "prim (store (place p i r c)) = put_surface p i r (prim (store c))"
  "events (place p i r c) = events c" "effects (place p i r c) = effects c @ [SetRole p r]"
  "clock (place p i r c) = clock c" "apps (store (place p i r c)) = apps (store c)"
  by (simp_all add: place_def)

lemma drop_editor_simps [simp, frame_simps]:
  "prim (store (drop_editor_focus_of p c)) =
     (if map_option fst (ime_editor (prim (store c))) = Some p
      then set_ime_editor None (prim (store c)) else prim (store c))"
  "apps (store (drop_editor_focus_of p c)) = apps (store c)"
  "clock (drop_editor_focus_of p c) = clock c"
  by (auto simp: drop_editor_focus_of_def sh_prim Let_def pid_and_id_def split: option.split)

section \<open>The split, abstractly\<close>

text \<open>
  What the promotions do to the roles.  Both keep the visible app, and the foreground
  promotion makes its target visible; the store operations above implement them.
\<close>

definition ime_tracked :: "DisplayState \<Rightarrow> bool" where
  "ime_tracked d \<longleftrightarrow> (\<forall>p. active_ime d = Some p \<longrightarrow> role_of p d \<noteq> None)"

definition shell_wf :: "DisplayState \<Rightarrow> bool" where
  "shell_wf d \<longleftrightarrow> split_wf d \<and> ime_tracked d"

lemma split_wf_engage:
  assumes "split_wf d" "role_of v d = Some Role.Foreground" "ime \<noteq> v"
  shows "split_wf (put_surface ime i Overlay (set_role v OverlayBehind d))"
proof -
  let ?d = "put_surface ime i Overlay (set_role v OverlayBehind d)"
  have no: "role_of q d \<noteq> Some Overlay" "role_of q d \<noteq> Some OverlayBehind" for q
    using assms by (auto simp: split_wf_def)
  have one: "q = v" if "role_of q d = Some Role.Foreground" for q
    using assms that by (auto simp: split_wf_def sole_def)
  have R: "role_of q ?d =
      (if q = ime then Some Overlay else if q = v then Some OverlayBehind else role_of q d)" for q
    using assms(2) by simp
  have "keyed ?d"
    using assms(1) by (auto simp: split_wf_def intro!: inv_intros)
  then show ?thesis
    unfolding split_wf_def sole_def R using no one assms(3) by auto
qed

lemma split_wf_disengage:
  assumes "split_wf d" "role_of op d = Some Overlay" "role_of bp d = Some OverlayBehind"
  shows "split_wf (set_role bp Role.Foreground (set_role op Background d))"
proof -
  let ?d = "set_role bp Role.Foreground (set_role op Background d)"
  have one: "role_of q d = Some Overlay \<Longrightarrow> q = op" "role_of q d = Some OverlayBehind \<Longrightarrow> q = bp"
    "role_of q d \<noteq> Some Role.Foreground" for q
    using assms by (auto simp: split_wf_def sole_def)
  have R: "role_of q ?d =
      (if q = bp then Some Role.Foreground else if q = op then Some Background else role_of q d)" for q
    using assms(2,3) by auto
  have "keyed ?d"
    using assms(1) by (auto simp: split_wf_def intro!: inv_intros)
  then show ?thesis
    unfolding split_wf_def sole_def R using one by auto
qed

lemma split_wf_foreground:
  assumes "split_wf d" "\<forall>q. role_of q d \<noteq> Some Overlay" "\<forall>q. role_of q d = Some Role.Foreground \<longrightarrow> q = p"
  shows "split_wf (put_surface p i Role.Foreground d)"
proof -
  have "keyed (put_surface p i Role.Foreground d)"
    using assms(1) by (auto simp: split_wf_def intro!: inv_intros)
  then show ?thesis
    unfolding split_wf_def sole_def role_of_put using assms by (auto simp: split_wf_def)
qed

lemma split_wf_background:
  assumes "split_wf d" "role_of p d \<noteq> Some Overlay" "role_of p d \<noteq> Some OverlayBehind"
  shows "split_wf (set_role p Background d)"
proof -
  have "keyed (set_role p Background d)"
    using assms(1) by (auto simp: split_wf_def intro!: inv_intros)
  then show ?thesis
    unfolding split_wf_def sole_def role_of_set_role using assms
    by (auto simp: split_wf_def sole_def)
qed

lemma split_wf_editor [simp]: "split_wf (set_ime_editor v d) = split_wf d"
  by (simp add: split_wf_def sole_def keyed_def pids_def)

lemma ime_tracked_simps [simp, inv_intros]:
  "ime_tracked d \<Longrightarrow> ime_tracked (set_role p r d)" "ime_tracked d \<Longrightarrow> ime_tracked (put_surface p i r d)"
  "ime_tracked (set_ime_editor v d) = ime_tracked d" "ime_tracked d \<Longrightarrow> ime_tracked (remove_surface p d)"
  "ime_tracked d \<Longrightarrow> ime_tracked (set_chrome_anchor p a d)"
  by (auto simp: ime_tracked_def)

lemma active_ime_surface_tracked:
  assumes "ime_tracked d" "active_ime d = Some p"
  obtains s where "active_ime_surface d = Some s" "s_pid s = p"
proof -
  obtain s where "find (\<lambda>s. s_pid s = p) (surfaces d) = Some s"
    using assms by (auto simp: ime_tracked_def role_of_def)
  moreover from this have "s_pid s = p"
    by (auto dest: find_SomeD)
  ultimately show ?thesis
    using assms(2) that by (simp add: active_ime_surface_def surface_def)
qed

lemma overlay_desired_SomeD:
  "overlay_desired d = Some ime \<Longrightarrow> active_ime d = Some ime \<and>
     (\<exists>v info. ime_editor d = Some (v, info) \<and> visible_app d = Some v \<and> ime \<noteq> v)"
  by (auto simp: overlay_desired_def split: option.splits if_splits)

lemma first_role_exists:
  assumes "keyed d" "role_of p d = Some r"
  obtains s where "first_with_role r d = Some s" "role_of (s_pid s) d = Some r"
  using assms first_with_role_None_role[OF assms(1), of r] first_with_role_SomeD[OF assms(1), of r]
  by (cases "first_with_role r d") auto

section \<open>Reconciliation\<close>

text \<open>What a shell operation leaves alone: everything but the primary display's roles and focus.\<close>

definition shell_frame :: "Ctx \<Rightarrow> Ctx \<Rightarrow> bool" where
  "shell_frame c c' \<longleftrightarrow> apps (store c') = apps (store c) \<and> clock c' = clock c
     \<and> active_ime (prim (store c')) = active_ime (prim (store c))
     \<and> geometry (prim (store c')) = geometry (prim (store c))
     \<and> (\<forall>q. role_of q (prim (store c)) \<noteq> None \<longrightarrow> role_of q (prim (store c')) \<noteq> None)"

lemma shell_frame_refl [simp]: "shell_frame c c"
  by (simp add: shell_frame_def)

lemma shell_frame_trans: "shell_frame a b \<Longrightarrow> shell_frame b c \<Longrightarrow> shell_frame a c"
  by (simp add: shell_frame_def)

lemma demote_prim:
  assumes "split_wf (prim (store c))" "role_of op (prim (store c)) = Some Overlay"
    "role_of bp (prim (store c)) = Some OverlayBehind"
  shows "demote_from_overlay c =
    (Some (op, bp), apply_role bp Role.Foreground (apply_role op Background c))"
proof -
  let ?d = "prim (store c)"
  have k: "keyed ?d" and sole: "sole Overlay ?d" "sole OverlayBehind ?d"
    using assms(1) by (auto simp: split_wf_def)
  have "map_option s_pid (first_with_role Overlay ?d) = Some op"
    "map_option s_pid (first_with_role OverlayBehind ?d) = Some bp"
    using first_with_role_sole[OF k sole(1) assms(2)] first_with_role_sole[OF k sole(2) assms(3)] .
  then show ?thesis
    by (auto simp: demote_from_overlay_def sh_prim pid_and_id_def)
qed

lemma split_ends:
  assumes "split_wf d" "overlay_engaged d"
  obtains op bp where "role_of op d = Some Overlay" "role_of bp d = Some OverlayBehind" "op \<noteq> bp"
    "visible_app d = Some bp" "\<forall>q. role_of q d \<noteq> Some Role.Foreground"
proof -
  have "keyed d"
    using assms(1) by (simp add: split_wf_def)
  with assms obtain op bp where r: "role_of op d = Some Overlay" "role_of bp d = Some OverlayBehind"
    by (auto simp: overlay_engaged_role split_wf_def)
  moreover from r have "op \<noteq> bp" by auto
  moreover have "visible_app d = Some bp"
    using visible_app_behind[OF assms(1) r(2)] .
  moreover have "\<forall>q. role_of q d \<noteq> Some Role.Foreground"
    using assms(1) r(1) by (auto simp: split_wf_def)
  ultimately show ?thesis using that by blast
qed

lemma not_engaged_roles:
  assumes "split_wf d" "\<not> overlay_engaged d"
  shows "role_of q d \<noteq> Some Overlay" "role_of q d \<noteq> Some OverlayBehind"
  using assms by (auto simp: split_wf_def overlay_engaged_role)

lemma overlay_engaged_iff: "split_wf d \<Longrightarrow> overlay_engaged d \<longleftrightarrow> (\<exists>p. role_of p d = Some Overlay)"
  by (auto simp: split_wf_def overlay_engaged_role)

lemma fg_not_engaged:
  "split_wf d \<Longrightarrow> role_of p d = Some Role.Foreground \<Longrightarrow> \<not> overlay_engaged d"
  unfolding overlay_engaged_iff by (auto simp: split_wf_def)

lemma demote_ok:
  assumes "shell_wf (prim (store c))" "overlay_engaged (prim (store c))"
  defines "c' \<equiv> snd (demote_from_overlay c)"
  shows "shell_wf (prim (store c')) \<and> \<not> overlay_engaged (prim (store c')) \<and>
    visible_app (prim (store c')) = visible_app (prim (store c)) \<and>
    ime_editor (prim (store c')) = ime_editor (prim (store c)) \<and> shell_frame c c' \<and> events c' = events c"
proof -
  have w: "split_wf (prim (store c))"
    using assms(1) by (simp add: shell_wf_def)
  obtain op bp where r: "role_of op (prim (store c)) = Some Overlay"
    "role_of bp (prim (store c)) = Some OverlayBehind" "op \<noteq> bp" "visible_app (prim (store c)) = Some bp"
    "\<forall>q. role_of q (prim (store c)) \<noteq> Some Role.Foreground"
    using split_ends[OF w assms(2)] .
  let ?d = "set_role bp Role.Foreground (set_role op Background (prim (store c)))"
  have c': "prim (store c') = ?d" "events c' = events c" "shell_frame c c'"
    unfolding c'_def demote_prim[OF w r(1,2)] by (simp_all add: shell_frame_def)
  have w': "split_wf ?d"
    using split_wf_disengage[OF w r(1,2)] .
  have "role_of bp ?d = Some Role.Foreground"
    using r by simp
  then have "visible_app ?d = Some bp" "\<not> overlay_engaged ?d"
    by (rule visible_app_foreground[OF w'], rule fg_not_engaged[OF w'])
  with w' c' r(4) assms(1) show ?thesis
    by (simp add: shell_wf_def)
qed

lemma engage_ok:
  fixes i :: string and h :: "pid option"
  assumes "shell_wf (prim (store c))" "\<not> overlay_engaged (prim (store c))"
    "visible_app (prim (store c)) = Some v" "ime \<noteq> v"
  defines "c' \<equiv> snd (promote_to_overlay i ime h c)"
  shows "shell_wf (prim (store c')) \<and> role_of ime (prim (store c')) = Some Overlay \<and>
    overlay_engaged (prim (store c')) \<and>
    visible_app (prim (store c')) = Some v \<and>
    ime_editor (prim (store c')) = ime_editor (prim (store c)) \<and> shell_frame c c' \<and> events c' = events c"
proof -
  let ?d = "prim (store c)"
  let ?d' = "put_surface ime i Overlay (set_role v OverlayBehind ?d)"
  have w: "split_wf ?d" "keyed ?d" "sole Role.Foreground ?d"
    using assms(1) by (auto simp: shell_wf_def split_wf_def)
  have v: "role_of v ?d = Some Role.Foreground"
    using visible_app_role[OF w(2) assms(3)] not_engaged_roles(2)[OF w(1) assms(2)] by auto
  have "map_option s_pid (first_with_role Role.Foreground ?d) = Some v"
    by (rule first_with_role_sole[OF w(2,3) v])
  then have "c' = place ime i Overlay (apply_role v OverlayBehind c)"
    using assms(4) by (auto simp: c'_def promote_to_overlay_def sh_prim pid_and_id_def)
  then have c': "prim (store c') = ?d'" "events c' = events c" "shell_frame c c'"
    by (simp_all add: shell_frame_def)
  have w': "split_wf ?d'"
    using split_wf_engage[OF w(1) v assms(4)] .
  have R: "role_of v ?d' = Some OverlayBehind" "role_of ime ?d' = Some Overlay"
    using v assms(4) by auto
  then have "visible_app ?d' = Some v"
    by (intro visible_app_behind[OF w'])
  moreover have "overlay_engaged ?d'"
    unfolding overlay_engaged_iff[OF w'] using R(2) by blast
  ultimately show ?thesis
    using w' c' R(2) assms(1) by (simp add: shell_wf_def)
qed

text \<open>
  The single authority for the keyboard overlay: it never panics, keeps the split well formed
  and the visible app in place, and leaves the overlay up exactly when it is desired.
\<close>

definition reconciled :: "DisplayState \<Rightarrow> bool" where
  "reconciled d \<longleftrightarrow> (overlay_engaged d \<longleftrightarrow> overlay_desired d \<noteq> None)"

lemma overlay_desired_cong:
  "active_ime d = active_ime e \<Longrightarrow> ime_editor d = ime_editor e \<Longrightarrow> visible_app d = visible_app e \<Longrightarrow>
   overlay_desired d = overlay_desired e"
  by (simp add: overlay_desired_def cong: option.case_cong prod.case_cong)

lemma reconcile_ok:
  assumes "shell_wf (prim (store c))"
  shows "\<exists>c'. reconcile_overlay c = Some c' \<and> shell_wf (prim (store c')) \<and> reconciled (prim (store c'))
    \<and> visible_app (prim (store c')) = visible_app (prim (store c))
    \<and> ime_editor (prim (store c')) = ime_editor (prim (store c)) \<and> shell_frame c c' \<and> events c' = events c"
proof -
  let ?d = "prim (store c)"
  consider (engage) ime where "overlay_desired ?d = Some ime" "\<not> overlay_engaged ?d"
    | (clear) "overlay_desired ?d = None" "overlay_engaged ?d"
    | (keep) "overlay_engaged ?d \<longleftrightarrow> overlay_desired ?d \<noteq> None"
    by blast
  then show ?thesis
  proof cases
    case engage
    obtain v info where d: "active_ime ?d = Some ime" "ime_editor ?d = Some (v, info)"
      "visible_app ?d = Some v" "ime \<noteq> v"
      using overlay_desired_SomeD[OF engage(1)] by auto
    obtain s where s: "active_ime_surface ?d = Some s" "s_pid s = ime"
      using active_ime_surface_tracked[OF _ d(1)] assms by (auto simp: shell_wf_def)
    let ?c = "snd (promote_to_overlay (s_app_id s) ime (visible_app ?d) c)"
    have ok: "shell_wf (prim (store ?c))" "overlay_engaged (prim (store ?c))"
      "visible_app (prim (store ?c)) = visible_app ?d" "ime_editor (prim (store ?c)) = ime_editor ?d"
      "shell_frame c ?c" "events ?c = events c"
      using engage_ok[OF assms engage(2) d(3,4), of "s_app_id s" "visible_app ?d"] d(3) by simp_all
    moreover have "overlay_desired (prim (store ?c)) = Some ime"
      using overlay_desired_cong[of "prim (store ?c)" ?d] ok(3,4,5) engage(1) by (simp add: shell_frame_def)
    moreover have "reconcile_overlay c = Some ?c"
      using engage s by (simp add: reconcile_overlay_def sh_prim pid_and_id_def)
    ultimately show ?thesis
      by (auto simp: reconciled_def)
  next
    case clear
    let ?c = "snd (demote_from_overlay c)"
    have ok: "shell_wf (prim (store ?c))" "\<not> overlay_engaged (prim (store ?c))"
      "visible_app (prim (store ?c)) = visible_app ?d" "ime_editor (prim (store ?c)) = ime_editor ?d"
      "shell_frame c ?c" "events ?c = events c"
      using demote_ok[OF assms clear(2)] by simp_all
    moreover have "overlay_desired (prim (store ?c)) = None"
      using overlay_desired_cong[of "prim (store ?c)" ?d] ok(3,4,5) clear(1) by (simp add: shell_frame_def)
    moreover have "reconcile_overlay c = Some ?c"
      using clear by (simp add: reconcile_overlay_def sh_prim)
    ultimately show ?thesis
      by (auto simp: reconciled_def)
  next
    case keep
    then have "reconcile_overlay c = Some c"
      by (auto simp: reconcile_overlay_def sh_prim split: option.split bool.split)
    with assms keep show ?thesis
      by (auto simp: reconciled_def)
  qed
qed

lemma reconcile_idem:
  assumes "reconciled (prim (store c))"
  shows "reconcile_overlay c = Some c"
  using assms by (auto simp: reconcile_overlay_def sh_prim reconciled_def split: option.split bool.split)

section \<open>Promotion to the foreground\<close>

lemma promote_ok:
  assumes "shell_wf (prim (store c))"
  shows "\<exists>c'. promote_to_foreground i p c = Some c' \<and> shell_wf (prim (store c')) \<and> reconciled (prim (store c'))
    \<and> visible_app (prim (store c')) = Some p \<and> shell_frame c c'
    \<and> (\<exists>es. events c' = es @ [ForegroundChanged (Some i) (Some p)])"
proof -
  let ?c1 = "if sh_overlay_engaged (store c) then snd (demote_from_overlay c) else c"
  let ?d1 = "prim (store ?c1)"
  have 1: "shell_wf ?d1" "\<not> overlay_engaged ?d1" "shell_frame c ?c1"
    using demote_ok[OF assms] assms by (auto simp: sh_prim)
  have w1: "split_wf ?d1" "keyed ?d1" "sole Role.Foreground ?d1"
    using 1(1) by (auto simp: shell_wf_def split_wf_def)
  let ?C = "case role_pid (store ?c1) Role.Foreground of None \<Rightarrow> ?c1
     | Some (prev, _) \<Rightarrow> if prev \<noteq> p then drop_editor_focus_of prev (apply_role prev Background ?c1) else ?c1"
  obtain c2 where c2: "c2 = ?C" by blast
  let ?d2 = "prim (store c2)"
  have 2: "shell_wf ?d2 \<and> shell_frame ?c1 c2 \<and> (\<forall>q. role_of q ?d2 \<noteq> Some Overlay)
     \<and> (\<forall>q. role_of q ?d2 = Some Role.Foreground \<longrightarrow> q = p)"
  proof (cases "\<exists>s. first_with_role Role.Foreground ?d1 = Some s \<and> s_pid s \<noteq> p")
    case False
    then have "c2 = ?c1"
      by (auto simp: c2 sh_prim pid_and_id_def split: option.split)
    moreover have "q = p" if "role_of q ?d1 = Some Role.Foreground" for q
      using False first_with_role_sole[OF w1(2,3) that] by auto
    ultimately show ?thesis
      using not_engaged_roles(1)[OF w1(1) 1(2)] 1(1) by auto
  next
    case True
    then obtain s where s: "first_with_role Role.Foreground ?d1 = Some s" "s_pid s \<noteq> p"
      by blast
    then have f: "role_of (s_pid s) ?d1 = Some Role.Foreground"
      using first_with_role_SomeD[OF w1(2)] by auto
    let ?e = "set_role (s_pid s) Background ?d1"
    have "split_wf ?e"
      using w1(1) f by (intro split_wf_background) auto
    then have e: "shell_wf ?e" "shell_wf (set_ime_editor None ?e)"
      using 1(1) by (simp_all add: shell_wf_def)
    have r: "role_of q ?e \<noteq> Some Overlay" "role_of q ?e \<noteq> Some Role.Foreground" for q
      using w1(3) f not_engaged_roles(1)[OF w1(1) 1(2), of q] by (auto simp: sole_def)
    have d2: "?d2 = ?e \<or> ?d2 = set_ime_editor None ?e" and fr: "shell_frame ?c1 c2"
      using s by (auto simp: c2 sh_prim pid_and_id_def shell_frame_def)
    from d2 have "shell_wf ?d2" "\<forall>q. role_of q ?d2 = role_of q ?e"
      using e by auto
    with r fr show ?thesis by simp
  qed
  let ?c3 = "place p i Role.Foreground c2"
  have 3: "shell_wf (prim (store ?c3))" "visible_app (prim (store ?c3)) = Some p" "shell_frame c2 ?c3"
  proof -
    have "split_wf (put_surface p i Role.Foreground ?d2)"
      using 2 by (intro split_wf_foreground) (auto simp: shell_wf_def)
    moreover from this have "visible_app (put_surface p i Role.Foreground ?d2) = Some p"
      by (rule visible_app_foreground) simp
    ultimately show "shell_wf (prim (store ?c3))" "visible_app (prim (store ?c3)) = Some p"
      "shell_frame c2 ?c3"
      using 2 by (simp_all add: shell_wf_def shell_frame_def)
  qed
  obtain c4 where 4: "reconcile_overlay ?c3 = Some c4" "shell_wf (prim (store c4))"
    "reconciled (prim (store c4))" "visible_app (prim (store c4)) = Some p" "shell_frame ?c3 c4"
    using reconcile_ok[OF 3(1)] 3(2) by auto
  let ?c' = "emit (ForegroundChanged (Some i) (Some p)) c4"
  have "shell_frame c ?c'"
    using 1(3) 2 3(3) 4(5) by (simp add: shell_frame_def)
  moreover have "promote_to_foreground i p c = Some ?c'"
    using 4(1) by (simp add: promote_to_foreground_def Let_def c2)
  ultimately show ?thesis
    using 4 by auto
qed

section \<open>The invariant of the shell\<close>

text \<open>
  Registered apps own distinct, tracked surfaces; so does the active keyboard, and the split
  is well formed.
\<close>

definition shell_ok :: "Store \<Rightarrow> bool" where
  "shell_ok st \<longleftrightarrow> registry_keyed st \<and> shell_wf (prim st)
     \<and> (\<forall>i a. app st i = Some a \<longrightarrow> role_of (a_pid a) (prim st) \<noteq> None)
     \<and> (\<forall>i j a b. app st i = Some a \<longrightarrow> app st j = Some b \<longrightarrow> a_pid a = a_pid b \<longrightarrow> i = j)"

lemma shell_ok_new: "shell_ok Store_new"
proof -
  have "prim Store_new = DisplayState_default" "app Store_new i = None" for i
    by (simp_all add: prim_def Store_new_def display_def app_def)
  then show ?thesis
    by (simp add: shell_ok_def registry_keyed_new shell_wf_def split_wf_def sole_def keyed_default ime_tracked_def)
qed

lemma registry_keyed_apps: "apps st = apps st' \<Longrightarrow> registry_keyed st \<Longrightarrow> registry_keyed st'"
  by (simp add: registry_keyed_def app_def)

lemma shell_ok_frame:
  assumes "shell_ok (store c)" "shell_wf (prim (store c'))" "shell_frame c c'"
  shows "shell_ok (store c')"
proof -
  have a: "apps (store c') = apps (store c)"
    and t: "\<forall>q. role_of q (prim (store c)) \<noteq> None \<longrightarrow> role_of q (prim (store c')) \<noteq> None"
    using assms(3) by (auto simp: shell_frame_def)
  from a have "app (store c') i = app (store c) i" for i
    by (simp add: app_def)
  with assms(1,2) a t registry_keyed_apps[of "store c" "store c'"] show ?thesis
    by (simp add: shell_ok_def)
qed

lemma shell_okD: "shell_ok st \<Longrightarrow> shell_wf (prim st)"
  by (simp add: shell_ok_def)

lemma reconcile_keeps:
  assumes "shell_ok (store c)"
  shows "\<exists>c'. reconcile_overlay c = Some c' \<and> shell_ok (store c') \<and> reconciled (prim (store c')) \<and> shell_frame c c'
    \<and> events c' = events c \<and> visible_app (prim (store c')) = visible_app (prim (store c))
    \<and> ime_editor (prim (store c')) = ime_editor (prim (store c))"
  using reconcile_ok[OF shell_okD[OF assms]] shell_ok_frame[OF assms] by blast

lemma promote_keeps:
  assumes "shell_ok (store c)"
  shows "\<exists>c'. promote_to_foreground i p c = Some c' \<and> shell_ok (store c') \<and> reconciled (prim (store c'))
    \<and> visible_app (prim (store c')) = Some p \<and> shell_frame c c'
    \<and> (\<exists>es. events c' = es @ [ForegroundChanged (Some i) (Some p)])"
  using promote_ok[OF shell_okD[OF assms], of i p] shell_ok_frame[OF assms] by blast

lemma shell_frame_editor [simp]: "shell_frame c (on_primary (set_ime_editor v) c)"
  by (simp add: shell_frame_def)

lemma shell_frame_drop [simp]: "shell_frame c (drop_editor_focus_of p c)"
  by (simp add: shell_frame_def)

lemma shell_wf_editor [simp]: "shell_wf (set_ime_editor v d) = shell_wf d"
  by (simp add: shell_wf_def)

lemma shell_ok_editor: "shell_ok (store c) \<Longrightarrow> shell_ok (store (on_primary (set_ime_editor v) c))"
  by (rule shell_ok_frame[of c]) (simp_all add: shell_okD)

lemma shell_ok_drop: "shell_ok (store c) \<Longrightarrow> shell_ok (store (drop_editor_focus_of p c))"
  by (rule shell_ok_frame[of c]) (simp_all add: shell_okD)

lemma demote_keeps:
  assumes "shell_ok (store c)"
  shows "shell_ok (store (snd (demote_from_overlay c)))"
proof (cases "overlay_engaged (prim (store c))")
  case True
  with demote_ok[OF shell_okD[OF assms]] shell_ok_frame[OF assms] show ?thesis by blast
next
  case False
  then have "demote_from_overlay c = (None, c)"
    by (simp add: demote_from_overlay_def sh_prim overlay_engaged_def)
  with assms show ?thesis by simp
qed

section \<open>Commands keep the invariant and never panic\<close>

lemma cmd_foreground_ok:
  assumes "shell_ok (store c)"
  shows "\<exists>r c'. cmd_foreground i c = Some (r, c') \<and> shell_ok (store c')"
proof (cases "app (store c) i")
  case (Some s)
  from promote_keeps[OF assms, of "a_app_id s" "a_pid s"] obtain c' where
    "promote_to_foreground (a_app_id s) (a_pid s) c = Some c'" "shell_ok (store c')"
    by blast
  with Some assms show ?thesis
    by (simp add: cmd_foreground_def Let_def)
qed (simp add: cmd_foreground_def assms)

lemma cmd_cycle_task_ok:
  "shell_ok (store c) \<Longrightarrow> \<exists>r c'. cmd_cycle_task c = Some (r, c') \<and> shell_ok (store c')"
  using promote_keeps[of c "a_app_id (next_task (store c))" "a_pid (next_task (store c))"]
  by (auto simp: cmd_cycle_task_def Let_def)

lemma cmd_back_ok:
  assumes "shell_ok (store c)"
  shows "\<exists>r c'. cmd_back c = Some (r, c') \<and> shell_ok (store c')"
proof (cases "sh_overlay_engaged (store c)")
  case True
  let ?c1 = "case sh_ime_editor (store c) of None \<Rightarrow> c | Some (e, _) \<Rightarrow> drop_editor_focus_of e c"
  have "shell_ok (store ?c1)"
    using assms shell_ok_drop by (auto split: option.split)
  from reconcile_keeps[OF this] True show ?thesis
    by (auto simp: cmd_back_def Let_def)
next
  case False
  with assms show ?thesis
    by (auto simp: cmd_back_def split: option.split)
qed

text \<open>Reconciling after any change of the editor focus.\<close>

lemma reconcile_editor:
  assumes "shell_ok (store c)"
  obtains f where "\<And>v. reconcile_overlay (on_primary (set_ime_editor v) c) = Some (f v)"
    "\<And>v. shell_ok (store (f v))"
proof -
  have "\<forall>v. \<exists>c2. reconcile_overlay (on_primary (set_ime_editor v) c) = Some c2 \<and> shell_ok (store c2)"
    using reconcile_keeps[OF shell_ok_editor[OF assms]] by blast
  then have "\<exists>f. \<forall>v. reconcile_overlay (on_primary (set_ime_editor v) c) = Some (f v) \<and> shell_ok (store (f v))"
    by (rule choice)
  with that show ?thesis by blast
qed

lemma store_option_deliver [simp]:
  "store (case x of None \<Rightarrow> c | Some (p, i) \<Rightarrow> deliver_to_host p (l i) c) = store c"
  by (auto split: option.split)

lemma cmd_attach_editor_ok:
  assumes "shell_ok (store c)"
  shows "\<exists>r c'. cmd_attach_editor rest c = Some (r, c') \<and> shell_ok (store c')"
proof -
  obtain f where f: "\<And>v. reconcile_overlay (on_primary (set_ime_editor v) c) = Some (f v)"
    "\<And>v. shell_ok (store (f v))"
    by (rule reconcile_editor[OF assms]) blast
  have e: "shell_ok (store (case x of None \<Rightarrow> d | Some (ip, _) \<Rightarrow> if ip \<noteq> q then emit e1 (emit e2 d) else d))
      = shell_ok (store d)" for x d q e1 e2
    by (auto split: option.split)
  show ?thesis
    unfolding cmd_attach_editor_def Let_def f
    using assms by (simp add: f(2) split: option.split)
qed

lemma cmd_detach_editor_ok:
  assumes "shell_ok (store c)"
  shows "\<exists>r c'. cmd_detach_editor rest c = Some (r, c') \<and> shell_ok (store c')"
proof -
  obtain f where f: "\<And>v. reconcile_overlay (on_primary (set_ime_editor v) c) = Some (f v)"
    "\<And>v. shell_ok (store (f v))"
    by (rule reconcile_editor[OF assms]) blast
  show ?thesis
    unfolding cmd_detach_editor_def Let_def f
    using assms by (simp add: f(2) split: option.split)
qed

lemma shell_ok_active_ime:
  assumes "shell_ok (store c)" "\<forall>p. v = Some p \<longrightarrow> (\<exists>i a. app (store c) i = Some a \<and> a_pid a = p)"
  shows "shell_ok (store (on_primary (\<lambda>d. d\<lparr>active_ime := v\<rparr>) c))"
proof -
  let ?d = "prim (store c)" and ?d' = "(prim (store c))\<lparr>active_ime := v\<rparr>"
  have R: "role_of q ?d' = role_of q ?d" for q
    by (simp add: role_of_def)
  have "split_wf ?d' = split_wf ?d"
    by (simp add: split_wf_def sole_def R keyed_def pids_def)
  moreover have "ime_tracked ?d'"
    unfolding ime_tracked_def R
  proof (intro allI impI)
    fix p assume "active_ime ?d' = Some p"
    then obtain i a where "app (store c) i = Some a" "a_pid a = p"
      using assms(2) by auto
    with assms(1) show "role_of p ?d \<noteq> None"
      unfolding shell_ok_def by blast
  qed
  ultimately show ?thesis
    using assms(1) by (simp add: shell_ok_def shell_wf_def R registry_keyed_def app_def)
qed

lemma cmd_set_ime_ok:
  assumes "shell_ok (store c)"
  shows "shell_ok (store (snd (cmd_set_ime i c)))"
proof (cases "app (store c) i")
  case None
  then show ?thesis
    using assms shell_ok_active_ime[of c None] by (simp add: cmd_set_ime_def Let_def)
next
  case (Some a)
  then show ?thesis
    using assms shell_ok_active_ime[of c None] shell_ok_active_ime[of c "Some (a_pid a)"]
    by (auto simp: cmd_set_ime_def Let_def)
qed

lemma shell_ok_ime_height: "shell_ok (set_ime_height px st) = shell_ok st"
  by (simp add: shell_ok_def registry_keyed_def app_def) (simp add: set_ime_height_def)

lemma cmd_ime_overlay_height_ok:
  "shell_ok (store c) \<Longrightarrow> shell_ok (store (snd (cmd_ime_overlay_height rest c)))"
  by (auto simp: cmd_ime_overlay_height_def shell_ok_ime_height split: option.split)

lemma cmd_ime_route_store [simp]: "store (snd (cmd_ime_route v rest c)) = store c"
  by (simp add: cmd_ime_route_def split: option.split list.split prod.split)

lemma cmd_overlay_clear_ok:
  "shell_ok (store c) \<Longrightarrow> shell_ok (store (snd (cmd_overlay_clear c)))"
  using demote_keeps[of c]
  by (cases "demote_from_overlay c") (auto simp: cmd_overlay_clear_def split: option.split)

lemma cmd_list_store [simp]: "store (snd (cmd_list c)) = store c" "store (snd (cmd_task_list c)) = store c"
  by (simp_all add: cmd_list_def cmd_task_list_def Let_def)

text \<open>
  The two commands that take a surface out of the model keep the invariant when that surface
  is not part of an engaged split.
\<close>

definition in_split :: "pid \<Rightarrow> Store \<Rightarrow> bool" where
  "in_split p st \<longleftrightarrow>
     role_of p (prim st) = Some Overlay \<or> role_of p (prim st) = Some OverlayBehind"

lemma shell_wf_remove:
  assumes "shell_wf d" "role_of p d \<noteq> Some Overlay" "role_of p d \<noteq> Some OverlayBehind"
  shows "shell_wf (remove_surface p d)"
proof -
  have "keyed (remove_surface p d)"
    using assms(1) by (auto simp: shell_wf_def split_wf_def intro!: inv_intros)
  then have "split_wf (remove_surface p d)"
    unfolding split_wf_def sole_def role_of_remove
    using assms by (auto simp: shell_wf_def split_wf_def sole_def)
  with assms(1) show ?thesis by (simp add: shell_wf_def)
qed

lemma prune_ok:
  assumes "shell_ok st" "\<not> in_split p st" "\<forall>j b. app st j = Some b \<longrightarrow> a_pid b = p \<longrightarrow> j = i"
  shows "shell_ok (display_mut PRIMARY_DISPLAY (remove_surface p) (remove_app i st))"
proof -
  have "shell_wf (remove_surface p (prim st))"
    using assms(1,2) by (intro shell_wf_remove) (auto simp: shell_ok_def in_split_def)
  moreover have "registry_keyed (display_mut PRIMARY_DISPLAY (remove_surface p) (remove_app i st))"
    using registry_keyed_remove[of st i] assms(1) by (auto simp: shell_ok_def intro: registry_keyed_apps[rotated])
  ultimately show ?thesis
    using assms by (auto simp: shell_ok_def)
qed

lemma prune_surface_ok:
  assumes "shell_ok st" "\<not> in_split p st" "\<forall>j b. app st j = Some b \<longrightarrow> a_pid b \<noteq> p"
  shows "shell_ok (display_mut PRIMARY_DISPLAY (remove_surface p) st)"
proof -
  have "shell_wf (remove_surface p (prim st))"
    using assms(1,2) by (intro shell_wf_remove) (auto simp: shell_ok_def in_split_def)
  moreover have "registry_keyed (display_mut PRIMARY_DISPLAY (remove_surface p) st)"
    using assms(1) by (auto simp: shell_ok_def intro: registry_keyed_apps[rotated])
  ultimately show ?thesis
    using assms by (auto simp: shell_ok_def)
qed

lemma kill_app_ok:
  assumes "shell_ok (store c)" "app (store c) i = Some a" "\<not> in_split (a_pid a) (store c)"
  shows "shell_ok (store (kill_app i (a_pid a) c))"
proof -
  have "\<forall>j b. app (store c) j = Some b \<longrightarrow> a_pid b = a_pid a \<longrightarrow> j = i"
    using assms(1,2) by (auto simp: shell_ok_def)
  from prune_ok[OF assms(1,3) this] show ?thesis
    by (simp add: kill_app_def on_primary_def)
qed

section \<open>Events\<close>

lemma on_surface_removed_ok:
  assumes "shell_ok (store c)"
  shows "shell_ok (store (on_surface_removed p c))"
proof -
  let ?inv = "sh_overlay_engaged (store c) \<and>
            (map_option fst (role_pid (store c) Overlay) = Some p \<or>
             map_option fst (role_pid (store c) OverlayBehind) = Some p)"
  obtain c1 where c1: "c1 = (if ?inv then snd (demote_from_overlay c) else c)" by blast
  have ok: "shell_ok (store c1)"
    using assms demote_keeps by (simp add: c1)
  have out: "\<not> in_split p (store c1)"
  proof (cases "overlay_engaged (prim (store c))")
    case False
    with assms not_engaged_roles[of "prim (store c)" p] show ?thesis
      by (auto simp: c1 sh_prim in_split_def shell_ok_def shell_wf_def)
  next
    case True
    have w: "split_wf (prim (store c))" "keyed (prim (store c))"
      "sole Overlay (prim (store c))" "sole OverlayBehind (prim (store c))"
      using assms by (auto simp: shell_ok_def shell_wf_def split_wf_def)
    show ?thesis
    proof (cases ?inv)
      case True
      with demote_ok[OF shell_okD[OF assms]] have "\<not> overlay_engaged (prim (store c1))"
        by (simp add: c1 sh_prim)
      with not_engaged_roles[of "prim (store c1)" p] shell_okD[OF ok] show ?thesis
        by (auto simp: in_split_def shell_wf_def)
    next
      case False
      then have "role_of p (prim (store c)) \<noteq> Some Overlay" "role_of p (prim (store c)) \<noteq> Some OverlayBehind"
        using True first_with_role_sole[OF w(2,3), of p] first_with_role_sole[OF w(2,4), of p]
        by (auto simp: sh_prim pid_and_id_def option.map_comp o_def)
      moreover have "c1 = c"
        unfolding c1 by (rule if_not_P[OF False])
      ultimately show ?thesis
        by (simp add: in_split_def)
    qed
  qed
  have k: "registry_keyed (store c1)"
    using ok by (simp add: shell_ok_def)
  have e: "on_surface_removed p c = on_primary (remove_surface p)
      (case app_by_pid (store c1) p of None \<Rightarrow> c1 | Some a \<Rightarrow> on_store (remove_app (a_app_id a)) c1)"
    unfolding on_surface_removed_def Let_def c1 ..
  show ?thesis
  proof (cases "app_by_pid (store c1) p")
    case None
    have "\<forall>j b. app (store c1) j = Some b \<longrightarrow> a_pid b \<noteq> p"
      using app_by_pid_None[OF k None] by blast
    from prune_surface_ok[OF ok out this] None show ?thesis
      by (simp add: e on_primary_def)
  next
    case (Some a)
    have "\<forall>j b. app (store c1) j = Some b \<longrightarrow> a_pid b = p \<longrightarrow> j = a_app_id a"
      using ok app_by_pid_SomeD[OF k Some] by (auto simp: shell_ok_def)
    from prune_ok[OF ok out this] Some show ?thesis
      by (simp add: e on_primary_def)
  qed
qed

lemma shell_on_event_ok:
  assumes "shell_ok (store c)"
  shows "\<exists>c'. shell_on_event ev c = Some c' \<and> shell_ok (store c')"
proof -
  let ?c = "case sh_ime_editor (store c) of None \<Rightarrow> c | Some (editor, _) \<Rightarrow>
     if sh_visible_app (store c) \<noteq> Some editor then drop_editor_focus_of editor c else c"
  have "shell_ok (store ?c)"
    using assms shell_ok_drop by (auto split: option.split)
  from reconcile_keeps[OF this] obtain c' where "reconcile_overlay ?c = Some c'" "shell_ok (store c')"
    by blast
  with assms on_surface_removed_ok show ?thesis
    by (cases ev) (simp_all add: shell_on_event_def)
qed

section \<open>A display with a split to be\<close>

text \<open>
  Two apps and a keyboard, the mail app in front with its editor focused: the state the
  witnesses and the runs below start from.
\<close>

definition demo_app :: "string \<Rightarrow> pid \<Rightarrow> string \<times> AppState" where
  "demo_app i p = (i, \<lparr>a_app_id = i, a_pid = p, launched_at = 0, launched_mono = 0\<rparr>)"

definition demo_surface :: "pid \<Rightarrow> string \<Rightarrow> Role \<Rightarrow> Surface" where
  "demo_surface p i r = \<lparr>s_pid = p, s_app_id = i, s_role = r, s_anchor = None\<rparr>"

definition demo_display :: DisplayState where
  "demo_display = \<lparr>
     geometry = DisplayGeometry_default,
     surfaces = [demo_surface 10 ''mail'' Role.Foreground, demo_surface 20 ''maps'' Background,
                 demo_surface 30 ''kbd'' Background],
     focus = [(ResourceKind.ImeEditor, ResourceFocus.ImeEditor 10
       \<lparr>input_type = ''text'', hint = [], initial_text = [], initial_selection_start = 0,
        initial_selection_end = 0\<rparr>)],
     active_ime = Some 30\<rparr>"

definition demo_store :: Store where
  "demo_store = Store_new\<lparr>
     displays := [(0, demo_display)],
     apps := [demo_app ''mail'' 10, demo_app ''maps'' 20, demo_app ''kbd'' 30],
     home := Some ''maps''\<rparr>"

definition demo_ctx :: Ctx where
  "demo_ctx = Ctx_new \<lparr>cl_mono = 0, cl_unix = 0\<rparr> demo_store"

lemmas demo_defs = demo_ctx_def demo_store_def demo_display_def demo_app_def demo_surface_def

lemma demo_app_cases:
  "app demo_store i = Some a \<longleftrightarrow>
     i = ''mail'' \<and> a = snd (demo_app i 10) \<or> i = ''maps'' \<and> a = snd (demo_app i 20)
     \<or> i = ''kbd'' \<and> a = snd (demo_app i 30)"
  by (auto simp: demo_defs app_def)

lemma demo_prim: "prim demo_store = demo_display"
  by (simp add: prim_def display_def demo_store_def PRIMARY_DISPLAY_def)

lemma demo_role:
  "role_of q demo_display = (if q = 10 then Some Role.Foreground
     else if q = 20 \<or> q = 30 then Some Background else None)"
  by (simp add: role_of_def demo_display_def demo_surface_def)

lemma demo_ok: "shell_ok (store demo_ctx)"
proof -
  have "shell_wf demo_display"
    unfolding shell_wf_def split_wf_def sole_def ime_tracked_def demo_role
    by (auto simp: keyed_def pids_def demo_display_def demo_surface_def)
  then show ?thesis
    by (simp add: demo_ctx_def shell_ok_def demo_prim demo_role demo_app_cases registry_keyed_def)
      (auto simp: demo_app_def demo_store_def)
qed

text \<open>A property of a conditional, branch by branch.\<close>

lemma if_branches:
  "(b \<Longrightarrow> \<exists>r c'. x = Some (r, c') \<and> P c') \<Longrightarrow> (\<not> b \<Longrightarrow> \<exists>r c'. y = Some (r, c') \<and> P c') \<Longrightarrow>
   \<exists>r c'. (if b then x else y) = Some (r, c') \<and> P c'"
  by simp

section \<open>The ring of tasks\<close>

lemma position_nth:
  "distinct (map f xs) \<Longrightarrow> k < length xs \<Longrightarrow> position (\<lambda>x. f x = f (xs ! k)) xs = Some k"
proof (induction xs arbitrary: k)
  case (Cons x xs)
  then show ?case by (cases k) (auto simp: image_iff)
qed simp

lemma snapshot_pids:
  assumes "shell_ok st"
  shows "distinct (map a_pid (apps_snapshot st))"
proof -
  have k: "registry_keyed st"
    using assms by (simp add: shell_ok_def)
  have "\<forall>x \<in> set (apps st). a_app_id (snd x) = fst x"
    using k by (auto simp: registry_keyed_def app_def)
  then have "map a_app_id (apps_snapshot st) = map fst (apps st)"
    by (simp add: apps_snapshot_def)
  then have d: "distinct (map a_app_id (apps_snapshot st))"
    using k by (simp only: registry_keyed_def)
  have "a = b"
    if m: "a \<in> set (apps_snapshot st)" "b \<in> set (apps_snapshot st)" and e: "a_pid a = a_pid b" for a b
  proof -
    have ab: "app st (a_app_id a) = Some a" "app st (a_app_id b) = Some b"
      using m snapshot_app[OF k] by auto
    from assms have "\<forall>i j a b. app st i = Some a \<longrightarrow> app st j = Some b \<longrightarrow> a_pid a = a_pid b \<longrightarrow> i = j"
      unfolding shell_ok_def by (elim conjE)
    from this[rule_format, OF ab e] have "a_app_id a = a_app_id b" .
    with ab show ?thesis by (metis option.inject)
  qed
  then have "inj_on a_pid (set (apps_snapshot st))"
    by (rule inj_onI)
  moreover have "distinct (apps_snapshot st)"
    using d by (simp only: distinct_map)
  ultimately show ?thesis
    by (simp only: distinct_map)
qed

lemma ring_pids: "shell_ok st \<Longrightarrow> distinct (map a_pid (switchable st))"
  using snapshot_pids[of st] by (auto simp: switchable_def distinct_map inj_on_def)

lemma next_task_nth:
  assumes "shell_ok st" "k < length (switchable st)" "visible_app (prim st) = Some (a_pid (switchable st ! k))"
  shows "next_task st = switchable st ! (Suc k mod length (switchable st))"
  using position_nth[OF ring_pids[OF assms(1)] assms(2)] assms(3)
  by (simp add: next_task_def sh_prim Let_def)

text \<open>Repeated presses.\<close>

fun cycle_presses :: "nat \<Rightarrow> Ctx \<Rightarrow> Ctx option" where
  "cycle_presses 0 c = Some c"
| "cycle_presses (Suc n) c = do { (r, c') \<leftarrow> cmd_cycle_task c; cycle_presses n c' }"

text \<open>A sequence of shell commands, the replies dropped.\<close>

fun shell_run :: "(string \<times> string) list \<Rightarrow> Ctx \<Rightarrow> Ctx option" where
  "shell_run [] c = Some c"
| "shell_run ((v, a) # cs) c = do { (r, c') \<leftarrow> shell_on_command v a c; shell_run cs c' }"

section \<open>Properties\<close>

text \<open>
  C28. From a state where the shell's invariant holds, every shell command but the four that
  rewire surfaces from outside (\<open>kill\<close>, \<open>task-kill\<close>, \<open>overlay\<close>,
  \<open>register-chrome\<close>) returns a reply without panicking and keeps the invariant: one
  foreground, one overlay, the app behind it exactly when there is an overlay, and a keyboard
  that is a tracked surface.
\<close>

theorem shell_command_safe:
  assumes "shell_ok (store c)" "verb \<notin> {''kill'', ''task-kill'', ''overlay'', ''register-chrome''}"
  shows "\<exists>r c'. shell_on_command verb args c = Some (r, c') \<and> shell_ok (store c')"
proof -
  note ok = cmd_foreground_ok cmd_back_ok cmd_cycle_task_ok cmd_attach_editor_ok cmd_detach_editor_ok
  have pure: "\<exists>r c'. Some x = Some (r, c') \<and> shell_ok (store c')"
    if "shell_ok (store (snd x))" for x :: "Reply \<times> Ctx"
    using that by (cases x) simp
  show ?thesis
    unfolding shell_on_command_def
    using assms(2)
    by (intro if_branches ok[OF assms(1)] pure)
      (simp_all add: assms(1) cmd_set_ime_ok cmd_ime_overlay_height_ok cmd_overlay_clear_ok)
qed

theorem shell_command_safe_witness:
  "\<exists>r c'. shell_on_command ''foreground'' ''maps'' demo_ctx = Some (r, c') \<and> shell_ok (store c')"
  by (rule shell_command_safe[OF demo_ok]) simp

text \<open>
  C29. No event reaction of the shell panics, and each keeps the invariant: in particular the
  death of any surface, on either side of a split, leaves a well-formed stack.
\<close>

theorem shell_event_safe:
  assumes "shell_ok (store c)"
  shows "\<exists>c'. shell_on_event ev c = Some c' \<and> shell_ok (store c')"
  using assms by (rule shell_on_event_ok)

theorem shell_event_safe_witness:
  "\<exists>c'. shell_on_event (SurfaceRemoved 10) demo_ctx = Some c' \<and> shell_ok (store c')"
  using shell_event_safe[OF demo_ok] .

text \<open>
  \<open>reconcile_overlay\<close> is the authority over the keyboard overlay: it returns, the
  overlay is then engaged exactly when it is desired, the app the user looks at and the editor
  focus have not changed, and running it again does nothing.
\<close>

theorem reconcile_authority:
  assumes "shell_ok (store c)"
  shows "\<exists>c'. reconcile_overlay c = Some c'
    \<and> overlay_engaged (prim (store c')) = (overlay_desired (prim (store c')) \<noteq> None)
    \<and> visible_app (prim (store c')) = visible_app (prim (store c))
    \<and> ime_editor (prim (store c')) = ime_editor (prim (store c))
    \<and> reconcile_overlay c' = Some c'"
  using reconcile_keeps[OF assms] reconcile_idem by (auto simp: reconciled_def)

theorem reconcile_authority_witness:
  "\<exists>c'. reconcile_overlay demo_ctx = Some c'
    \<and> overlay_engaged (prim (store c')) = (overlay_desired (prim (store c')) \<noteq> None)
    \<and> visible_app (prim (store c')) = visible_app (prim (store demo_ctx))
    \<and> ime_editor (prim (store c')) = ime_editor (prim (store demo_ctx))
    \<and> reconcile_overlay c' = Some c'"
  using reconcile_authority[OF demo_ok] .

text \<open>
  \<open>foreground\<close> of a registered app answers OK, makes that app the visible one and
  the only app in front, and announces it.
\<close>

theorem foreground_shows_app:
  assumes "shell_ok (store c)" "i \<noteq> []" "app (store c) i = Some a"
  shows "\<exists>r c'. cmd_foreground i c = Some (Ok r, c')
    \<and> visible_app (prim (store c')) = Some (a_pid a)
    \<and> (\<forall>p. role_of p (prim (store c')) \<in> {Some Role.Foreground, Some OverlayBehind} \<longleftrightarrow> p = a_pid a)
    \<and> ForegroundChanged (Some i) (Some (a_pid a)) \<in> set (events c')"
proof -
  have i: "a_app_id a = i"
    using assms(1,3) by (auto simp: shell_ok_def registry_keyed_def)
  obtain c' es where p: "promote_to_foreground i (a_pid a) c = Some c'" "shell_ok (store c')"
    "visible_app (prim (store c')) = Some (a_pid a)"
    "events c' = es @ [ForegroundChanged (Some i) (Some (a_pid a))]"
    using promote_keeps[OF assms(1), of i "a_pid a"] by auto
  have w: "split_wf (prim (store c'))"
    using shell_okD[OF p(2)] by (simp add: shell_wf_def)
  have "role_of q (prim (store c')) \<in> {Some Role.Foreground, Some OverlayBehind} \<longleftrightarrow> q = a_pid a" for q
    using visible_app_behind[OF w, of q] visible_app_foreground[OF w, of q] p(3)
      visible_app_role[OF _ p(3)] w by (auto simp: split_wf_def)
  with p i assms(2,3) show ?thesis
    by (simp add: cmd_foreground_def Let_def)
qed

theorem foreground_shows_app_witness:
  "\<exists>r c'. cmd_foreground ''maps'' demo_ctx = Some (Ok r, c')
    \<and> visible_app (prim (store c')) = Some 20
    \<and> (\<forall>p. role_of p (prim (store c')) \<in> {Some Role.Foreground, Some OverlayBehind} \<longleftrightarrow> p = 20)
    \<and> ForegroundChanged (Some ''maps'') (Some 20) \<in> set (events c')"
  using foreground_shows_app[OF demo_ok, of "''maps''" "snd (demo_app ''maps'' 20)"]
  by (simp add: demo_app_cases demo_ctx_def) (simp add: demo_app_def)

text \<open>
  Pressing the task key walks the ring of switchable apps in app-id order: from the
  \<open>k\<close>-th app in front, \<open>m\<close> presses bring the app at position
  \<open>k + m\<close>, modulo the ring's length, to the front.
\<close>

theorem cycle_task_ring:
  assumes "shell_ok (store c)" "2 \<le> length (switchable (store c))" "k < length (switchable (store c))"
    "visible_app (prim (store c)) = Some (a_pid (switchable (store c) ! k))"
  shows "\<exists>c'. cycle_presses m c = Some c' \<and> visible_app (prim (store c')) =
    Some (a_pid (switchable (store c) ! ((k + m) mod length (switchable (store c)))))"
  using assms
proof (induction m arbitrary: c k)
  case 0
  then show ?case by simp
next
  case (Suc m)
  let ?n = "length (switchable (store c))"
  let ?nxt = "next_task (store c)"
  have nxt: "?nxt = switchable (store c) ! (Suc k mod ?n)"
    using next_task_nth[OF Suc.prems(1,3,4)] .
  obtain c1 where c1: "promote_to_foreground (a_app_id ?nxt) (a_pid ?nxt) c = Some c1"
    "shell_ok (store c1)" "visible_app (prim (store c1)) = Some (a_pid ?nxt)" "shell_frame c c1"
    using promote_keeps[OF Suc.prems(1)] by blast
  have ring: "switchable (store c1) = switchable (store c)"
    using c1(4) by (simp add: shell_frame_def switchable_def apps_snapshot_def)
  have lt: "Suc k mod ?n < ?n"
    using Suc.prems(2) by (intro mod_less_divisor) linarith
  have v: "visible_app (prim (store c1)) = Some (a_pid (switchable (store c1) ! (Suc k mod ?n)))"
    using c1(3) nxt ring by simp
  from Suc.IH[OF c1(2), of "Suc k mod ?n"] Suc.prems(2) lt v ring obtain c' where
    "cycle_presses m c1 = Some c'" "visible_app (prim (store c')) =
       Some (a_pid (switchable (store c) ! ((Suc k mod ?n + m) mod ?n)))"
    by auto
  moreover have "(Suc k mod ?n + m) mod ?n = (k + Suc m) mod ?n"
    by (simp add: mod_add_left_eq)
  moreover have "\<exists>r. cmd_cycle_task c = Some (r, c1)"
    using c1(1) Suc.prems(2) by (simp add: cmd_cycle_task_def Let_def)
  ultimately show ?case by auto
qed

theorem cycle_task_ring_witness:
  "\<exists>c'. cycle_presses 3 demo_ctx = Some c' \<and> visible_app (prim (store c')) = Some 10"
proof -
  have r: "map a_pid (switchable (store demo_ctx)) = [30, 10, 20]"
    by code_simp
  have "length (switchable (store demo_ctx)) = 3" "a_pid (switchable (store demo_ctx) ! 1) = 10"
    using arg_cong[OF r, of length] arg_cong[OF r, of "\<lambda>xs. xs ! 1"] by simp_all
  moreover have "visible_app (prim (store demo_ctx)) = Some 10"
    by code_simp
  ultimately show ?thesis
    using cycle_task_ring[OF demo_ok, of 1 3] by simp
qed

definition is_key_line :: "Effect \<Rightarrow> bool" where
  "is_key_line e = (case e of HostLine p l \<Rightarrow> starts_with ''key-event'' l | _ \<Rightarrow> False)"

lemma key_lines_demote:
  "filter is_key_line (effects (snd (demote_from_overlay c))) = filter is_key_line (effects c)"
  by (simp add: demote_from_overlay_def is_key_line_def Let_def split: option.split prod.split)

lemma key_lines_promote:
  "filter is_key_line (effects (snd (promote_to_overlay i p h c))) = filter is_key_line (effects c)"
  by (simp add: promote_to_overlay_def is_key_line_def Let_def split: option.split prod.split)

lemma key_lines_reconcile:
  "reconcile_overlay c = Some c' \<Longrightarrow> filter is_key_line (effects c') = filter is_key_line (effects c)"
  using key_lines_demote[of c]
  by (auto simp: reconcile_overlay_def key_lines_promote Let_def split: option.splits bool.splits prod.splits)

lemma key_lines_drop:
  "filter is_key_line (effects (drop_editor_focus_of p c)) = filter is_key_line (effects c)"
  by (simp add: drop_editor_focus_of_def is_key_line_def Let_def split: option.split prod.split)

text \<open>
  BACK is layered: with the keyboard up it only dismisses the keyboard, the app keeps its
  place and is sent no key; with the keyboard down the app in front gets one ESC press and
  release and nothing else changes.
\<close>

theorem back_is_layered:
  assumes "shell_ok (store c)"
  shows "\<exists>r c'. cmd_back c = Some (Ok r, c') \<and>
    (if overlay_engaged (prim (store c))
     then \<not> overlay_engaged (prim (store c')) \<and> visible_app (prim (store c')) = visible_app (prim (store c))
       \<and> filter is_key_line (effects c') = filter is_key_line (effects c)
     else store c' = store c \<and> effects c' = effects c @
       (case foreground_slot (prim (store c)) of None \<Rightarrow> []
        | Some s \<Rightarrow> [HostLine (s_pid s) (''key-event 0 27 down'' @ [CHR 0x0A]),
                    HostLine (s_pid s) (''key-event 0 27 up'' @ [CHR 0x0A])]))"
proof (cases "overlay_engaged (prim (store c))")
  case False
  then show ?thesis
    by (simp add: cmd_back_def sh_prim pid_and_id_def split: option.split)
next
  case True
  obtain c1 where c1: "c1 = (case sh_ime_editor (store c) of None \<Rightarrow> c
     | Some (e, _) \<Rightarrow> drop_editor_focus_of e c)" by blast
  have ok: "shell_ok (store c1)"
    using assms shell_ok_drop by (auto simp: c1 split: option.split)
  have e: "ime_editor (prim (store c1)) = None" "visible_app (prim (store c1)) = visible_app (prim (store c))"
    "filter is_key_line (effects c1) = filter is_key_line (effects c)"
    by (auto simp: c1 sh_prim key_lines_drop split: option.split)
  obtain c2 where c2: "reconcile_overlay c1 = Some c2" "reconciled (prim (store c2))"
    "visible_app (prim (store c2)) = visible_app (prim (store c1))"
    "ime_editor (prim (store c2)) = ime_editor (prim (store c1))"
    using reconcile_keeps[OF ok] by blast
  have "\<not> overlay_engaged (prim (store c2))"
    using c2(2,4) e(1) by (simp add: reconciled_def overlay_desired_def split: option.split)
  with True c2(1,3) e(2,3) key_lines_reconcile[OF c2(1)] show ?thesis
    by (simp add: cmd_back_def sh_prim c1[unfolded sh_prim, symmetric] Let_def)
qed

theorem back_is_layered_witness:
  "\<exists>r c'. cmd_back demo_ctx = Some (Ok r, c') \<and> store c' = store demo_ctx"
proof -
  have "\<not> overlay_engaged (prim (store demo_ctx))"
    by code_simp
  with back_is_layered[OF demo_ok] show ?thesis by auto
qed

text \<open>
  \<open>kill\<close> of a registered app whose surface is not in the split asks for exactly that
  pid to be killed, forgets the app, its surface and its editor focus, and keeps the invariant.
\<close>

theorem kill_prunes:
  assumes "shell_ok (store c)" "i \<noteq> []" "app (store c) i = Some a" "\<not> in_split (a_pid a) (store c)"
  shows "effects (snd (cmd_kill i c)) = effects c @ [Kill (a_pid a)]
    \<and> app (store (snd (cmd_kill i c))) i = None
    \<and> role_of (a_pid a) (prim (store (snd (cmd_kill i c)))) = None
    \<and> map_option fst (ime_editor (prim (store (snd (cmd_kill i c))))) \<noteq> Some (a_pid a)
    \<and> shell_ok (store (snd (cmd_kill i c)))"
  using assms kill_app_ok[OF assms(1,3,4)]
  by (simp add: cmd_kill_def) (simp add: kill_app_def split: if_split)

theorem kill_prunes_witness:
  "effects (snd (cmd_kill ''maps'' demo_ctx)) = [Kill 20]"
proof -
  have "\<not> in_split 20 (store demo_ctx)"
    by (simp add: in_split_def demo_ctx_def demo_prim demo_role)
  with kill_prunes[OF demo_ok, of "''maps''" "snd (demo_app ''maps'' 20)"] show ?thesis
    by (simp add: demo_app_cases demo_ctx_def) (simp add: demo_app_def)
qed

text \<open>
  \<open>kill\<close> of the keyboard while it is up leaves the app behind it without an overlay:
  after \<open>foreground mail\<close> (which raises the keyboard), \<open>kill kbd\<close> and
  \<open>foreground maps\<close>, two surfaces count as the visible app and the one the user left is
  still the visible one.  The module header promises one of each by construction.
\<close>

theorem kill_in_split_breaks:
  "map_option (\<lambda>c. (visible_app (prim (store c)), role_of 10 (prim (store c)), role_of 20 (prim (store c))))
     (shell_run [(''foreground'', ''mail''), (''kill'', ''kbd''), (''foreground'', ''maps'')] demo_ctx) =
   Some (Some 10, Some OverlayBehind, Some Role.Foreground)"
  by code_simp

text \<open>
  \<open>overlay\<close> on a second app while the keyboard is up makes a second surface
  \<open>Overlay\<close> and demotes the keyboard behind it, so two surfaces are behind an overlay.
\<close>

theorem overlay_in_split_breaks:
  "map_option (\<lambda>c. (role_of 10 (prim (store c)), role_of 20 (prim (store c)), role_of 30 (prim (store c))))
     (shell_run [(''foreground'', ''mail''), (''overlay'', ''maps'')] demo_ctx) =
   Some (Some OverlayBehind, Some Overlay, Some OverlayBehind)"
  by code_simp

text \<open>
  \<open>task-kill\<close> never asks for a kill of a protected app: chrome, keyguard, keyboard,
  power menu or the designated home; it changes nothing and answers \<open>protected\<close>.
\<close>

theorem task_kill_protected:
  assumes "i \<in> set CHROME_APP_IDS \<or> home (store c) = Some i" "app (store c) i \<noteq> None" "i \<noteq> []"
  shows "cmd_task_kill i c = (Err ''protected'', c)"
  using assms by (auto simp: cmd_task_kill_def)

theorem task_kill_protected_witness:
  "cmd_task_kill ''maps'' demo_ctx = (Err ''protected'', demo_ctx)"
  by (rule task_kill_protected) (simp_all add: demo_ctx_def demo_app_cases, simp_all add: demo_store_def)

end
