(* ===== verification/Keyguard.thy ===== *)
theory Keyguard
  imports ShellSplit
begin

text \<open>
  The keyguard module (\<open>wandr-arbiter-keyguard\<close>): the lock screen and the power menu,
  two modal overlays that cover the visible app, suppress its input and restore it.
\<close>

section \<open>State and operations\<close>

definition KEYGUARD_APP_ID :: string where "KEYGUARD_APP_ID = ''wandr.keyguard''"
definition POWERMENU_APP_ID :: string where "POWERMENU_APP_ID = ''wandr.powermenu''"

record KeyguardModule =
  locked :: bool
  saved_fg :: "string option"
  suppressed_pid :: "pid option"
  menu_shown :: bool
  menu_saved_fg :: "string option"
  menu_suppressed_pid :: "pid option"
  menu_covered_keyguard :: bool

definition KeyguardModule_new :: KeyguardModule where
  "KeyguardModule_new = \<lparr>locked = False, saved_fg = None, suppressed_pid = None, menu_shown = False,
     menu_saved_fg = None, menu_suppressed_pid = None, menu_covered_keyguard = False\<rparr>"

definition keyguard_pid :: "Store \<Rightarrow> pid option" where
  "keyguard_pid st = map_option a_pid (app st KEYGUARD_APP_ID)"

definition powermenu_pid :: "Store \<Rightarrow> pid option" where
  "powermenu_pid st = map_option a_pid (app st POWERMENU_APP_ID)"

text \<open>The app id of the visible pid, what both overlays save.\<close>

definition covered_app :: "Store \<Rightarrow> pid option \<Rightarrow> string option" where
  "covered_app st vis = Option.bind vis (\<lambda>p. map_option a_app_id (app_by_pid st p))"

definition suppress :: "bool \<Rightarrow> pid \<Rightarrow> Ctx \<Rightarrow> Ctx" where
  "suppress b p = deliver_to_host p (''input-suppress '' @ show_bit b @ [CHR 0x0A])"

text \<open>Demote the visible app and take its input.\<close>

definition cover :: "pid option \<Rightarrow> Ctx \<Rightarrow> Ctx" where
  "cover vis c =
     (case vis of None \<Rightarrow> c
      | Some p \<Rightarrow> suppress True p (apply_role p Background c))"

text \<open>Re-announce the current orientation, so that everyone is told again.\<close>

definition refan_orientation :: "Ctx \<Rightarrow> Ctx" where
  "refan_orientation c =
     emit (OrientationChanged PRIMARY_DISPLAY
       (or_default 0 (map_option orientation (store_geometry (store c) PRIMARY_DISPLAY)))) c"

definition do_lock :: "KeyguardModule \<Rightarrow> Ctx \<Rightarrow> Reply \<times> KeyguardModule \<times> Ctx" where
  "do_lock m c =
     (if locked m then (Ok ''already-locked'', m, c)
      else case keyguard_pid (store c) of
        None \<Rightarrow> (Err ''keyguard-not-running (launch wandr.keyguard first)'', m, c)
      | Some kg \<Rightarrow>
          (let vis = sh_visible_app (store c);
               m1 = m\<lparr>saved_fg := covered_app (store c) vis\<rparr>;
               m2 = (case vis of None \<Rightarrow> m1 | Some p \<Rightarrow> m1\<lparr>suppressed_pid := Some p\<rparr>);
               c1 = cover vis c;
               c2 = place kg KEYGUARD_APP_ID Lockscreen c1;
               m3 = m2\<lparr>locked := True\<rparr>;
               c3 = emit (ForegroundChanged (Some KEYGUARD_APP_ID) (Some kg)) c2
           in (Ok (''locked covering='' @ opt_debug (saved_fg m3)), m3, refan_orientation c3)))"

definition do_show_menu :: "KeyguardModule \<Rightarrow> Ctx \<Rightarrow> Reply \<times> KeyguardModule \<times> Ctx" where
  "do_show_menu m c =
     (if menu_shown m then (Ok ''power-menu-already-shown'', m, c)
      else case powermenu_pid (store c) of
        None \<Rightarrow> (Err ''powermenu-not-running (launch wandr.powermenu first)'', m, c)
      | Some pm \<Rightarrow>
          (let vis = sh_visible_app (store c);
               m1 = m\<lparr>menu_saved_fg := covered_app (store c) vis\<rparr>;
               m2 = (case vis of None \<Rightarrow> m1 | Some p \<Rightarrow> m1\<lparr>menu_suppressed_pid := Some p\<rparr>);
               c1 = cover vis c;
               over = (if locked m2 then keyguard_pid (store c1) else None);
               (m3, c2) = (case over of None \<Rightarrow> (m2, c1)
                           | Some kg \<Rightarrow> (m2\<lparr>menu_covered_keyguard := True\<rparr>, apply_role kg Background c1));
               c3 = place pm POWERMENU_APP_ID Lockscreen c2;
               m4 = m3\<lparr>menu_shown := True\<rparr>;
               c4 = emit (ForegroundChanged (Some POWERMENU_APP_ID) (Some pm)) c3
           in (Ok ''power-menu shown'', m4, refan_orientation c4)))"

definition unsuppress :: "pid option \<Rightarrow> Ctx \<Rightarrow> Ctx" where
  "unsuppress p c = (case p of None \<Rightarrow> c | Some q \<Rightarrow> suppress False q c)"

definition restore_fg :: "string option \<Rightarrow> Ctx \<Rightarrow> Ctx" where
  "restore_fg i c = (case i of None \<Rightarrow> c | Some j \<Rightarrow> request (Effect.Foreground j) c)"

definition do_hide_menu :: "KeyguardModule \<Rightarrow> Ctx \<Rightarrow> Reply \<times> KeyguardModule \<times> Ctx" where
  "do_hide_menu m c =
     (let c1 = (case powermenu_pid (store c) of None \<Rightarrow> c | Some pm \<Rightarrow> apply_role pm Background c) in
      if \<not> menu_shown m then (Ok ''power-menu hidden'', m, c1)
      else
        (let c2 = unsuppress (menu_suppressed_pid m) c1;
             m1 = m\<lparr>menu_suppressed_pid := None\<rparr>;
             c3 = (if menu_covered_keyguard m1
                   then (case keyguard_pid (store c2) of None \<Rightarrow> c2
                         | Some kg \<Rightarrow> place kg KEYGUARD_APP_ID Lockscreen c2)
                   else c2);
             m2 = m1\<lparr>menu_covered_keyguard := False\<rparr>;
             c4 = restore_fg (menu_saved_fg m2) c3;
             m3 = m2\<lparr>menu_saved_fg := None, menu_shown := False\<rparr>
         in (Ok ''power-menu hidden'', m3, refan_orientation c4)))"

definition do_unlock :: "KeyguardModule \<Rightarrow> Ctx \<Rightarrow> Reply \<times> KeyguardModule \<times> Ctx" where
  "do_unlock m c =
     (if \<not> locked m then (Ok ''already-unlocked'', m, c)
      else
        (let c1 = (case keyguard_pid (store c) of None \<Rightarrow> c | Some kg \<Rightarrow> apply_role kg Background c);
             c2 = unsuppress (suppressed_pid m) c1;
             c3 = restore_fg (saved_fg m) c2;
             m1 = m\<lparr>suppressed_pid := None, saved_fg := None, locked := False\<rparr>
         in (Ok ''unlocked'', m1, refan_orientation c3)))"

definition keyguard_verbs :: "string list" where
  "keyguard_verbs = [''lock'', ''unlock'', ''power-menu'', ''pm-dismiss'']"

definition keyguard_on_command ::
  "string \<Rightarrow> string \<Rightarrow> KeyguardModule \<Rightarrow> Ctx \<Rightarrow> Reply \<times> KeyguardModule \<times> Ctx" where
  "keyguard_on_command verb args m c =
     (if verb = ''lock'' then do_lock m c
      else if verb = ''unlock'' then do_unlock m c
      else if verb = ''power-menu'' then do_show_menu m c
      else if verb = ''pm-dismiss'' then do_hide_menu m c
      else (Err (''keyguard-unknown-verb '' @ verb), m, c))"

definition keyguard_on_event :: "Event \<Rightarrow> KeyguardModule \<Rightarrow> Ctx \<Rightarrow> KeyguardModule \<times> Ctx" where
  "keyguard_on_event ev m c =
     (case ev of
        ScreenState live \<Rightarrow> if live then (m, c) else snd (do_lock m c)
      | SurfaceRemoved p \<Rightarrow>
          (let gone = map_option a_app_id (app_by_pid (store c) p);
               m1 = (if gone = saved_fg m then m\<lparr>saved_fg := None\<rparr> else m);
               m2 = (if gone = menu_saved_fg m1 then m1\<lparr>menu_saved_fg := None\<rparr> else m1)
           in (m2, c))
      | _ \<Rightarrow> (m, c))"

section \<open>Lemmas\<close>

lemma suppress_simps [simp, frame_simps]:
  "store (suppress b p c) = store c" "events (suppress b p c) = events c"
  "effects (suppress b p c) =
     effects c @ [HostLine p (''input-suppress '' @ show_bit b @ [CHR 0x0A])]"
  by (simp_all add: suppress_def)

lemma refan_simps [simp, frame_simps]:
  "store (refan_orientation c) = store c" "effects (refan_orientation c) = effects c"
  by (simp_all add: refan_orientation_def)

lemma unsuppress_simps [simp, frame_simps]:
  "store (unsuppress p c) = store c" "events (unsuppress p c) = events c"
  by (simp_all add: unsuppress_def split: option.split)

lemma restore_fg_simps [simp, frame_simps]:
  "store (restore_fg i c) = store c" "events (restore_fg i c) = events c"
  by (simp_all add: restore_fg_def split: option.split)

lemma cover_prim [simp]:
  "prim (store (cover vis c)) =
     (case vis of None \<Rightarrow> prim (store c) | Some p \<Rightarrow> set_role p Background (prim (store c)))"
  "apps (store (cover vis c)) = apps (store c)"
  by (simp_all add: cover_def split: option.split)

lemma keyguard_pid_apps: "apps st = apps st' \<Longrightarrow> keyguard_pid st = keyguard_pid st'"
  by (simp add: keyguard_pid_def app_def)

text \<open>What is saved belongs to an overlay that is up.\<close>

definition keyguard_wf :: "KeyguardModule \<Rightarrow> bool" where
  "keyguard_wf m \<longleftrightarrow> (\<not> locked m \<longrightarrow> saved_fg m = None \<and> suppressed_pid m = None)
     \<and> (\<not> menu_shown m \<longrightarrow> menu_saved_fg m = None \<and> menu_suppressed_pid m = None
          \<and> \<not> menu_covered_keyguard m)"

lemma keyguard_wf_new [inv_intros]: "keyguard_wf KeyguardModule_new"
  by (simp add: keyguard_wf_def KeyguardModule_new_def)

lemma do_lock_wf: "keyguard_wf m \<Longrightarrow> keyguard_wf (fst (snd (do_lock m c)))"
  by (simp add: do_lock_def keyguard_wf_def Let_def split: option.split)

lemma do_unlock_wf: "keyguard_wf m \<Longrightarrow> keyguard_wf (fst (snd (do_unlock m c)))"
  by (simp add: do_unlock_def keyguard_wf_def Let_def)

lemma do_show_menu_wf: "keyguard_wf m \<Longrightarrow> keyguard_wf (fst (snd (do_show_menu m c)))"
  by (simp add: do_show_menu_def keyguard_wf_def Let_def split: option.split prod.split)

lemma do_hide_menu_wf: "keyguard_wf m \<Longrightarrow> keyguard_wf (fst (snd (do_hide_menu m c)))"
  by (simp add: do_hide_menu_def keyguard_wf_def Let_def)

lemma keyguard_on_command_wf [inv_intros]:
  "keyguard_wf m \<Longrightarrow> keyguard_wf (fst (snd (keyguard_on_command v a m c)))"
  by (simp add: keyguard_on_command_def do_lock_wf do_unlock_wf do_show_menu_wf do_hide_menu_wf)

lemma keyguard_on_event_wf [inv_intros]:
  "keyguard_wf m \<Longrightarrow> keyguard_wf (fst (keyguard_on_event ev m c))"
  using do_lock_wf[of m c]
  by (cases ev) (auto simp: keyguard_on_event_def keyguard_wf_def Let_def)

text \<open>Nothing visible is left once the visible app is in the background.\<close>

lemma visible_after_cover:
  assumes "split_wf d" "visible_app d = Some p"
  shows "visible_app (set_role p Background d) = None"
proof -
  have k: "keyed (set_role p Background d)"
    using assms(1) by (auto simp: split_wf_def intro!: inv_intros)
  have "role_of p d \<noteq> None"
    using visible_app_role[OF _ assms(2)] assms(1) by (auto simp: split_wf_def)
  moreover have "role_of q d \<noteq> Some OverlayBehind" "role_of q d \<noteq> Some Role.Foreground" if "q \<noteq> p" for q
    using visible_app_behind[OF assms(1), of q] visible_app_foreground[OF assms(1), of q] assms(2) that
    by auto
  ultimately show ?thesis
    unfolding visible_app_None[OF k] role_of_set_role by simp
qed

lemma visible_put_lockscreen:
  assumes "keyed d" "visible_app d = None"
  shows "visible_app (put_surface p i Lockscreen d) = None"
  using assms visible_app_None[OF assms(1)] visible_app_None[OF keyed_put[OF assms(1)], of p i Lockscreen]
  by auto

section \<open>Properties\<close>

text \<open>
  C33. Locking is modal: with the keyguard running, the lock screen comes up, no app is left
  visible, the covered app is sent to the background with its input suppressed, and the shell is
  told through \<open>ForegroundChanged\<close>.
\<close>

theorem lock_is_modal:
  assumes "\<not> locked m" "keyguard_pid (store c) = Some kg" "split_wf (prim (store c))"
  shows "\<exists>r m' c'. keyguard_on_command ''lock'' args m c = (Ok r, m', c')
    \<and> locked m' \<and> role_of kg (prim (store c')) = Some Lockscreen
    \<and> visible_app (prim (store c')) = None
    \<and> (\<forall>p. visible_app (prim (store c)) = Some p \<longrightarrow>
         suppressed_pid m' = Some p \<and> SetRole p Background \<in> set (effects c')
         \<and> HostLine p (''input-suppress 1'' @ [CHR 0x0A]) \<in> set (effects c'))
    \<and> ForegroundChanged (Some KEYGUARD_APP_ID) (Some kg) \<in> set (events c')"
proof -
  let ?d = "prim (store c)"
  have k: "keyed ?d"
    using assms(3) by (simp add: split_wf_def)
  have "visible_app (put_surface kg KEYGUARD_APP_ID Lockscreen
      (case visible_app ?d of None \<Rightarrow> ?d | Some p \<Rightarrow> set_role p Background ?d)) = None"
    using visible_after_cover[OF assms(3)] k
    by (intro visible_put_lockscreen) (auto split: option.split intro!: inv_intros)
  then show ?thesis
    using assms(1,2)
    by (auto simp: keyguard_on_command_def do_lock_def Let_def sh_prim cover_def suppress_def show_bit_def
        refan_orientation_def split: option.split)
qed

definition demo_lock_ctx :: Ctx where
  "demo_lock_ctx = on_store (\<lambda>st. st\<lparr>apps := apps st @ [demo_app ''wandr.keyguard'' 40, demo_app ''wandr.powermenu'' 50]\<rparr>) demo_ctx"

theorem lock_is_modal_witness:
  "\<exists>r m' c'. keyguard_on_command ''lock'' [] KeyguardModule_new demo_lock_ctx = (Ok r, m', c')
    \<and> visible_app (prim (store c')) = None \<and> suppressed_pid m' = Some 10"
proof -
  have "\<not> locked KeyguardModule_new" "keyguard_pid (store demo_lock_ctx) = Some 40"
    "visible_app (prim (store demo_lock_ctx)) = Some 10"
    by code_simp+
  moreover have "split_wf (prim (store demo_lock_ctx))"
  proof -
    have "prim (store demo_lock_ctx) = prim (store demo_ctx)"
      by (simp add: demo_lock_ctx_def prim_def display_def)
    with demo_ok show ?thesis by (simp add: shell_ok_def shell_wf_def)
  qed
  ultimately show ?thesis
    using lock_is_modal[of KeyguardModule_new demo_lock_ctx 40 "[]"] by blast
qed

text \<open>
  C34. Unlocking undoes the lock: the covered app gets its input back and is brought to the front
  again, the lock screen goes to the background and the module is as it was before the lock.
\<close>

theorem unlock_restores:
  assumes "keyguard_wf m" "\<not> locked m" "keyguard_pid (store c) = Some kg"
    "do_lock m c = (r1, m1, c1)" "do_unlock m1 d = (r2, m2, d2)" "apps (store d) = apps (store c)"
  shows "m2 = m
    \<and> effects d2 = effects d @ [SetRole kg Background]
        @ (case visible_app (prim (store c)) of None \<Rightarrow> []
           | Some p \<Rightarrow> [HostLine p (''input-suppress 0'' @ [CHR 0x0A])])
        @ (case covered_app (store c) (visible_app (prim (store c))) of None \<Rightarrow> []
           | Some i \<Rightarrow> [Effect.Foreground i])
    \<and> prim (store d2) = set_role kg Background (prim (store d))"
proof -
  have kg: "keyguard_pid (store d) = Some kg"
    using keyguard_pid_apps[OF assms(6)] assms(3) by simp
  have m1: "m1 = m\<lparr>saved_fg := covered_app (store c) (visible_app (prim (store c))),
      suppressed_pid := (case visible_app (prim (store c)) of None \<Rightarrow> suppressed_pid m | Some p \<Rightarrow> Some p),
      locked := True\<rparr>"
    using assms(2-4) by (cases "visible_app (prim (store c))") (auto simp: do_lock_def Let_def sh_prim)
  have "m2 = m"
    using assms(1,2,5) m1 by (auto simp: do_unlock_def Let_def keyguard_wf_def)
  moreover have "covered_app (store c) None = None"
    by (simp add: covered_app_def)
  ultimately show ?thesis
    using assms(1,2,5) m1 kg
    by (auto simp: do_unlock_def Let_def keyguard_wf_def unsuppress_def restore_fg_def suppress_def
        show_bit_def split: option.split)
qed

theorem unlock_restores_witness:
  "let (r1, m1, c1) = do_lock KeyguardModule_new demo_lock_ctx; (r2, m2, d2) = do_unlock m1 c1
   in m2 = KeyguardModule_new"
proof -
  obtain r1 m1 c1 where 1: "do_lock KeyguardModule_new demo_lock_ctx = (r1, m1, c1)"
    by (cases "do_lock KeyguardModule_new demo_lock_ctx")
  obtain r2 m2 d2 where 2: "do_unlock m1 c1 = (r2, m2, d2)"
    by (cases "do_unlock m1 c1")
  have k: "\<not> locked KeyguardModule_new" "keyguard_pid (store demo_lock_ctx) = Some 40"
    by code_simp+
  have "apps (store c1) = apps (store demo_lock_ctx)"
    using 1 k by (auto simp: do_lock_def Let_def)
  with unlock_restores[OF keyguard_wf_new k 1 2] 1 2 show ?thesis by simp
qed

text \<open>
  What the module has saved always belongs to an overlay that is up, whatever command or
  event comes, so a stale app is never restored by a later unlock or dismiss.
\<close>

theorem keyguard_state_wf:
  assumes "keyguard_wf m"
  shows "keyguard_wf (fst (snd (keyguard_on_command v a m c))) \<and> keyguard_wf (fst (keyguard_on_event ev m c))"
  using assms by (simp add: keyguard_on_command_wf keyguard_on_event_wf)

theorem keyguard_state_wf_witness:
  "keyguard_wf (fst (snd (keyguard_on_command ''lock'' [] KeyguardModule_new demo_lock_ctx)))"
  using keyguard_state_wf[OF keyguard_wf_new] by blast

definition menu_lock_dismiss :: "KeyguardModule \<Rightarrow> Ctx \<Rightarrow> KeyguardModule \<times> Effect list" where
  "menu_lock_dismiss m c =
     (let (r1, m1, c1) = keyguard_on_command ''power-menu'' [] m c;
          (m2, c2) = keyguard_on_event (ScreenState False) m1 c1;
          (r3, m3, c3) = keyguard_on_command ''pm-dismiss'' [] m2 (c2\<lparr>effects := []\<rparr>)
      in (m3, effects c3))"

text \<open>
  The power menu, opened over an app, followed by the screen going off and a dismiss of the
  menu, asks to bring the covered app to the front and gives it its input back while the device
  is locked.
\<close>

theorem dismiss_uncovers_while_locked:
  "let (m, effs) = menu_lock_dismiss KeyguardModule_new demo_lock_ctx
   in locked m \<and> Effect.Foreground ''mail'' \<in> set effs
      \<and> HostLine 10 (''input-suppress 0'' @ [CHR 0x0A]) \<in> set effs"
  by code_simp

end
