(* ===== verification/Audio.thy ===== *)
theory Audio
  imports ShellSplit NotifyMod
begin

text \<open>
  The audio module (\<open>wandr-arbiter-audio\<close>): the audio-focus stack, the call session,
  the ringer, and output and microphone mute.  The last entry of \<open>stack\<close> is the owner;
  hash sets of pids are duplicate-free lists.
\<close>

section \<open>State\<close>

datatype FocusKind = Gain | GainTransient | GainTransientMayDuck

definition FocusKind_from_wire :: "string \<Rightarrow> FocusKind option" where
  "FocusKind_from_wire s =
     (if s = ''gain'' then Some Gain
      else if s = ''gain-transient'' \<or> s = ''transient'' then Some GainTransient
      else if s = ''gain-transient-may-duck'' \<or> s = ''duck'' then Some GainTransientMayDuck
      else None)"

definition FocusKind_as_wire :: "FocusKind \<Rightarrow> string" where
  "FocusKind_as_wire k = (case k of Gain \<Rightarrow> ''gain'' | GainTransient \<Rightarrow> ''gain-transient''
     | GainTransientMayDuck \<Rightarrow> ''gain-transient-may-duck'')"

datatype FocusChange = Loss | LossTransient | Duck | GainBack

definition FocusChange_as_wire :: "FocusChange \<Rightarrow> string" where
  "FocusChange_as_wire k = (case k of Loss \<Rightarrow> ''loss'' | LossTransient \<Rightarrow> ''loss-transient''
     | Duck \<Rightarrow> ''duck'' | GainBack \<Rightarrow> ''gain'')"

record FocusEntry =
  f_pid :: pid
  f_app_id :: string
  f_kind :: FocusKind

datatype RingerMode = Normal | Vibrate | Silent

definition RingerMode_from_wire :: "string \<Rightarrow> RingerMode option" where
  "RingerMode_from_wire s =
     (if s = ''normal'' then Some Normal else if s = ''vibrate'' then Some Vibrate
      else if s = ''silent'' then Some Silent else None)"

definition RingerMode_as_wire :: "RingerMode \<Rightarrow> string" where
  "RingerMode_as_wire k = (case k of Normal \<Rightarrow> ''normal'' | Vibrate \<Rightarrow> ''vibrate'' | Silent \<Rightarrow> ''silent'')"

definition CALL_NOTIF_ID :: u64 where "CALL_NOTIF_ID = 0xCA11"
definition RING_NOTIF_ID :: u64 where "RING_NOTIF_ID = 0xCA12"

record AudioModule =
  stack :: "FocusEntry list"
  comms :: "pid option"
  comms_speaker :: bool
  muted :: bool
  app_muted :: "pid list"
  mic_muted :: bool
  mic_muted_apps :: "pid list"
  ringing :: "pid option"
  ringer_mode :: RingerMode

definition AudioModule_new :: AudioModule where
  "AudioModule_new = \<lparr>stack = [], comms = None, comms_speaker = False, muted = False, app_muted = [],
     mic_muted = False, mic_muted_apps = [], ringing = None, ringer_mode = Normal\<rparr>"

section \<open>The focus stack\<close>

text \<open>A bare integer is a pid, whose app id is looked up as far as it is known.\<close>

definition audio_resolve :: "string \<Rightarrow> Store \<Rightarrow> (pid \<times> string) option" where
  "audio_resolve tok st =
     (case parse_i32 tok of
        Some p \<Rightarrow> Some (p, or_default ''?'' (map_option a_app_id (app_by_pid st p)))
      | None \<Rightarrow> map_option (\<lambda>a. (a_pid a, a_app_id a)) (app st tok))"

definition change_line :: "FocusChange \<Rightarrow> string" where
  "change_line ch = ''on-focus-changed '' @ FocusChange_as_wire ch @ [CHR 0x0A]"

definition push_change :: "pid \<Rightarrow> FocusChange \<Rightarrow> Ctx \<Rightarrow> Ctx" where
  "push_change p ch = deliver_to_host p (change_line ch)"

definition last_opt :: "'a list \<Rightarrow> 'a option" where
  "last_opt xs = (if xs = [] then None else Some (last xs))"

definition focus_grant :: "pid \<Rightarrow> string \<Rightarrow> FocusKind \<Rightarrow> AudioModule \<Rightarrow> Ctx \<Rightarrow> AudioModule \<times> Ctx" where
  "focus_grant p i k m c =
     (let rest = filter (\<lambda>e. f_pid e \<noteq> p) (stack m);
          (rest1, c1) =
            (case k of
               Gain \<Rightarrow> ([], fold (\<lambda>e. push_change (f_pid e) Loss) rest c)
             | GainTransient \<Rightarrow>
                 (rest, case last_opt rest of None \<Rightarrow> c | Some e \<Rightarrow> push_change (f_pid e) LossTransient c)
             | GainTransientMayDuck \<Rightarrow>
                 (rest, case last_opt rest of None \<Rightarrow> c | Some e \<Rightarrow> push_change (f_pid e) Duck c))
      in (m\<lparr>stack := rest1 @ [\<lparr>f_pid = p, f_app_id = i, f_kind = k\<rparr>]\<rparr>, c1))"

definition drop_pid :: "pid \<Rightarrow> AudioModule \<Rightarrow> Ctx \<Rightarrow> bool \<times> AudioModule \<times> Ctx" where
  "drop_pid p m c =
     (let was_owner = (map_option f_pid (last_opt (stack m)) = Some p) in
      if \<not> list_ex (\<lambda>e. f_pid e = p) (stack m) then (False, m, c)
      else
        (let m1 = m\<lparr>stack := filter (\<lambda>e. f_pid e \<noteq> p) (stack m)\<rparr>;
             c1 = (if was_owner
                   then (case last_opt (stack m1) of None \<Rightarrow> c
                         | Some e \<Rightarrow> push_change (f_pid e) GainBack c)
                   else c)
         in (True, m1, c1)))"

definition cmd_focus_request :: "string \<Rightarrow> AudioModule \<Rightarrow> Ctx \<Rightarrow> Reply \<times> AudioModule \<times> Ctx" where
  "cmd_focus_request args m c =
     (case split_ws args of
        [o', k_s] \<Rightarrow>
          (case FocusKind_from_wire k_s of
             None \<Rightarrow> (Err (''audio-focus-bad-kind '' @ str_debug k_s), m, c)
           | Some k \<Rightarrow>
               (case audio_resolve o' (store c) of
                  None \<Rightarrow> (Err (''audio-focus-unknown-owner '' @ o'), m, c)
                | Some (p, i) \<Rightarrow>
                    (Ok (''granted pid='' @ show_int p @ '' app='' @ i @ '' kind='' @ FocusKind_as_wire k),
                     focus_grant p i k m c)))
      | _ \<Rightarrow> (Err ''audio-focus-request-args: expected <pid|app-id> <kind>'', m, c))"

definition cmd_abandon :: "string \<Rightarrow> AudioModule \<Rightarrow> Ctx \<Rightarrow> Reply \<times> AudioModule \<times> Ctx" where
  "cmd_abandon args m c =
     (let tok = trim args in
      if tok = [] then (Err ''audio-focus-abandon-args: expected <pid|app-id>'', m, c)
      else case audio_resolve tok (store c) of
        None \<Rightarrow> (Err (''audio-focus-unknown-owner '' @ tok), m, c)
      | Some (p, _) \<Rightarrow> (Ok (''abandoned pid='' @ show_int p), snd (drop_pid p m c)))"

definition focus_line :: "nat \<Rightarrow> nat \<Rightarrow> FocusEntry \<Rightarrow> string" where
  "focus_line n i e = [CHR 0x0A] @ ''  pid='' @ show_int (f_pid e) @ '' app='' @ f_app_id e @ '' kind='' @
     FocusKind_as_wire (f_kind e) @ (if i + 1 = n then '' [owner]'' else [])"

definition cmd_focus_list :: "AudioModule \<Rightarrow> Reply" where
  "cmd_focus_list m =
     Ok (''count='' @ show_nat (length (stack m)) @
         concat (map2 (focus_line (length (stack m))) [0..<length (stack m)] (stack m)))"

section \<open>Calls and rings\<close>

definition stop_ring :: "pid \<Rightarrow> string \<Rightarrow> AudioModule \<Rightarrow> Ctx \<Rightarrow> AudioModule \<times> Ctx" where
  "stop_ring p i m c =
     (if ringing m \<noteq> Some p then (m, c)
      else (m\<lparr>ringing := None\<rparr>,
            on_store (\<lambda>st. snd (cancel_notification i RING_NOTIF_ID st))
              (deliver_to_host p (''haptics ring-stop'' @ [CHR 0x0A])
                (deliver_to_host p (''ringtone stop'' @ [CHR 0x0A]) c))))"

definition cmd_call_start :: "string \<Rightarrow> AudioModule \<Rightarrow> Ctx \<Rightarrow> Reply \<times> AudioModule \<times> Ctx" where
  "cmd_call_start args m c =
     (let tok = trim args in
      case audio_resolve tok (store c) of
        None \<Rightarrow> (Err (''audio-call-unknown-owner '' @ tok), m, c)
      | Some (p, i) \<Rightarrow>
          (let (m1, c1) = stop_ring p i m c;
               (m2, c2) = focus_grant p i GainTransient m1 c1;
               m3 = m2\<lparr>comms := Some p\<rparr>;
               c3 = deliver_to_host p (''audio-policy set-mode comm'' @ [CHR 0x0A]) c2;
               c4 = on_store (\<lambda>st. snd (post_notification i CALL_NOTIF_ID ''Ongoing call'' i st)) c3;
               c5 = emit (CommsActive p True) c4
           in (Ok (''call-start pid='' @ show_int p @ '' app='' @ i), m3, request Persist c5)))"

definition cmd_call_end :: "string \<Rightarrow> AudioModule \<Rightarrow> Ctx \<Rightarrow> Reply \<times> AudioModule \<times> Ctx" where
  "cmd_call_end args m c =
     (let tok = trim args in
      case audio_resolve tok (store c) of
        None \<Rightarrow> (Err (''audio-call-unknown-owner '' @ tok), m, c)
      | Some (p, i) \<Rightarrow>
          if comms m \<noteq> Some p then (Err (''audio-call-not-in-session pid='' @ show_int p), m, c)
          else
            (let m1 = m\<lparr>comms := None\<rparr>;
                 c1 = deliver_to_host p (''audio-policy set-mode normal'' @ [CHR 0x0A]) c;
                 (_, m2, c2) = drop_pid p m1 c1;
                 c3 = on_store (\<lambda>st. snd (cancel_notification i CALL_NOTIF_ID st)) c2;
                 c4 = emit (CommsActive p False) (emit (VideoCallActive p False) c3)
             in (Ok (''call-end pid='' @ show_int p @ '' app='' @ i), m2, request Persist c4)))"

definition cmd_call_video :: "string \<Rightarrow> AudioModule \<Rightarrow> Ctx \<Rightarrow> Reply \<times> AudioModule \<times> Ctx" where
  "cmd_call_video args m c =
     (let t = split_ws args; active = (nth_opt t 0 = Some ''1''); tok = or_default [] (nth_opt t 1) in
      case audio_resolve tok (store c) of
        None \<Rightarrow> (Err (''audio-call-unknown-owner '' @ tok), m, c)
      | Some (p, _) \<Rightarrow>
          if comms m \<noteq> Some p then (Err (''audio-call-not-in-session pid='' @ show_int p), m, c)
          else (Ok (''call-video pid='' @ show_int p @ '' active='' @ show_bool active), m,
                emit (VideoCallActive p active) c))"

definition cmd_ring_start :: "string \<Rightarrow> AudioModule \<Rightarrow> Ctx \<Rightarrow> Reply \<times> AudioModule \<times> Ctx" where
  "cmd_ring_start args m c =
     (let tok = trim args in
      case audio_resolve tok (store c) of
        None \<Rightarrow> (Err (''audio-ring-unknown-owner '' @ tok), m, c)
      | Some (p, i) \<Rightarrow>
          (let m1 = m\<lparr>ringing := Some p\<rparr>;
               c1 = emit (SensorAcquire Proximity p) c;
               (m2, c2) = focus_grant p i GainTransient m1 c1;
               c3 = (case ringer_mode m2 of
                       Normal \<Rightarrow> deliver_to_host p (''haptics ring-start'' @ [CHR 0x0A])
                                   (deliver_to_host p (''ringtone start'' @ [CHR 0x0A]) c2)
                     | Vibrate \<Rightarrow> deliver_to_host p (''haptics ring-start'' @ [CHR 0x0A]) c2
                     | Silent \<Rightarrow> c2);
               c4 = on_store (\<lambda>st. snd (post_notification i RING_NOTIF_ID ''Incoming call'' i st)) c3
           in (Ok (''ring-start pid='' @ show_int p @ '' app='' @ i @ '' mode='' @
                   RingerMode_as_wire (ringer_mode m2)), m2, request Persist c4)))"

definition cmd_ring_stop :: "string \<Rightarrow> AudioModule \<Rightarrow> Ctx \<Rightarrow> Reply \<times> AudioModule \<times> Ctx" where
  "cmd_ring_stop args m c =
     (let tok = trim args in
      case audio_resolve tok (store c) of
        None \<Rightarrow> (Err (''audio-ring-unknown-owner '' @ tok), m, c)
      | Some (p, i) \<Rightarrow>
          if ringing m \<noteq> Some p then (Err (''audio-ring-not-ringing pid='' @ show_int p), m, c)
          else
            (let (m1, c1) = stop_ring p i m c;
                 c2 = emit (SensorRelease Proximity p) c1;
                 (_, m2, c3) = drop_pid p m1 c2
             in (Ok (''ring-stop pid='' @ show_int p @ '' app='' @ i), m2, request Persist c3)))"

definition cmd_ringer_mode :: "string \<Rightarrow> AudioModule \<Rightarrow> Ctx \<Rightarrow> Reply \<times> AudioModule \<times> Ctx" where
  "cmd_ringer_mode args m c =
     (case RingerMode_from_wire (trim args) of
        Some r \<Rightarrow> (Ok (''ringer-mode '' @ RingerMode_as_wire r), m\<lparr>ringer_mode := r\<rparr>, c)
      | None \<Rightarrow> (Err ''audio-ringer-mode: expected normal|vibrate|silent'', m, c))"

section \<open>Route, tone, volume, mute\<close>

definition cmd_route :: "string \<Rightarrow> AudioModule \<Rightarrow> Ctx \<Rightarrow> Reply \<times> AudioModule \<times> Ctx" where
  "cmd_route args m c =
     (case split_ws args of
        [o', route] \<Rightarrow>
          if route \<noteq> ''speaker'' \<and> route \<noteq> ''earpiece''
          then (Err (''audio-route-bad-target '' @ str_debug route), m, c)
          else
            (case audio_resolve o' (store c) of
               None \<Rightarrow> (Err (''audio-route-unknown-owner '' @ o'), m, c)
             | Some (p, _) \<Rightarrow>
                 (Ok (''route pid='' @ show_int p @ '' '' @ route),
                  m\<lparr>comms_speaker := (route = ''speaker'')\<rparr>,
                  deliver_to_host p (''audio-policy set-route '' @ route @ [CHR 0x0A]) c))
      | _ \<Rightarrow> (Err ''audio-route-args: expected <pid|app-id> <speaker|earpiece>'', m, c))"

definition known_target :: "Store \<Rightarrow> string \<Rightarrow> bool" where
  "known_target st tok =
     (case parse_i32 tok of Some p \<Rightarrow> app_by_pid st p \<noteq> None | None \<Rightarrow> app st tok \<noteq> None)"

definition cmd_play_tone :: "string \<Rightarrow> AudioModule \<Rightarrow> Ctx \<Rightarrow> Reply \<times> AudioModule \<times> Ctx" where
  "cmd_play_tone args m c =
     (let t = split_ws args;
          (target, t1) =
            (case t of
               tok # rest \<Rightarrow>
                 if known_target (store c) tok then (map_option fst (audio_resolve tok (store c)), rest)
                 else (sh_visible_app (store c), t)
             | [] \<Rightarrow> (sh_visible_app (store c), t))
      in case target of
           None \<Rightarrow> (Err ''play-tone-no-foreground: no visible app; pass <pid|app-id>'', m, c)
         | Some p \<Rightarrow>
             (let ms = or_default ''1500'' (nth_opt t1 0); hz = or_default ''440'' (nth_opt t1 1);
                  vol = or_default ''0.5'' (nth_opt t1 2)
              in (Ok (''play-tone pid='' @ show_int p @ '' ms='' @ ms @ '' hz='' @ hz @ '' vol='' @ vol), m,
                  deliver_to_host p (''play-tone '' @ ms @ '' '' @ hz @ '' '' @ vol @ [CHR 0x0A]) c)))"

definition audio_target :: "AudioModule \<Rightarrow> Store \<Rightarrow> pid option \<Rightarrow> (pid \<times> string) option" where
  "audio_target m st sender =
     (case comms m of
        Some p \<Rightarrow> Some (p, if comms_speaker m then ''speaker'' else ''earpiece'')
      | None \<Rightarrow>
          map_option (\<lambda>p. (p, ''speaker''))
            (case map_option fst (sh_foreground_slot st) of Some p \<Rightarrow> Some p | None \<Rightarrow> sender))"

definition sender_of :: "string list \<Rightarrow> pid option" where
  "sender_of t = Option.bind (nth_opt t 1) parse_i32"

definition cmd_volume :: "string \<Rightarrow> AudioModule \<Rightarrow> Ctx \<Rightarrow> Reply \<times> AudioModule \<times> Ctx" where
  "cmd_volume args m c =
     (let t = split_ws args; d = nth_opt t 0 in
      if d \<noteq> Some ''up'' \<and> d \<noteq> Some ''down'' then (Err (''volume-bad-dir '' @ opt_debug d), m, c)
      else case audio_target m (store c) (sender_of t) of
        None \<Rightarrow> (Err ''volume-no-target'', m, c)
      | Some (owner, dev) \<Rightarrow>
          (let dir = (if d = Some ''up'' then ''up'' else ''down'')
           in (Ok (''volume '' @ dir @ '' pid='' @ show_int owner @ '' '' @ dev), m,
               deliver_to_host owner (''audio-policy volume '' @ dir @ '' '' @ dev @ [CHR 0x0A]) c)))"

definition on_off :: "bool \<Rightarrow> string" where
  "on_off b = (if b then ''on'' else ''off'')"

text \<open>\<open>on\<close>, \<open>off\<close> or \<open>toggle\<close> of the current value.\<close>

definition switch_arg :: "bool \<Rightarrow> string \<Rightarrow> bool option" where
  "switch_arg cur s =
     (if s = ''on'' then Some True else if s = ''off'' then Some False
      else if s = ''toggle'' then Some (\<not> cur) else None)"

definition cmd_mute :: "string \<Rightarrow> AudioModule \<Rightarrow> Ctx \<Rightarrow> Reply \<times> AudioModule \<times> Ctx" where
  "cmd_mute args m c =
     (let t = split_ws args in
      case Option.bind (nth_opt t 0) (switch_arg (muted m)) of
        None \<Rightarrow> (Err (''mute-bad-arg '' @ opt_debug (nth_opt t 0)), m, c)
      | Some new \<Rightarrow>
          (case audio_target m (store c) (sender_of t) of
             None \<Rightarrow> (Err ''mute-no-target'', m, c)
           | Some (owner, dev) \<Rightarrow>
               (Ok (''mute '' @ on_off new @ '' pid='' @ show_int owner @ '' '' @ dev),
                m\<lparr>muted := new\<rparr>,
                deliver_to_host owner (''audio-policy mute '' @ on_off new @ '' '' @ dev @ [CHR 0x0A]) c)))"

definition mic_effective :: "AudioModule \<Rightarrow> pid \<Rightarrow> bool" where
  "mic_effective m p \<longleftrightarrow> mic_muted m \<or> p \<in> set (mic_muted_apps m)"

definition mic_line :: "bool \<Rightarrow> string" where
  "mic_line b = ''audio-policy mic-mute '' @ on_off b @ [CHR 0x0A]"

definition cmd_mic_mute :: "string \<Rightarrow> AudioModule \<Rightarrow> Ctx \<Rightarrow> Reply \<times> AudioModule \<times> Ctx" where
  "cmd_mic_mute args m c =
     (case switch_arg (mic_muted m) (trim args) of
        None \<Rightarrow> (Err (''mic-mute-bad-arg '' @ str_debug (trim args)), m, c)
      | Some new \<Rightarrow>
          (let m1 = m\<lparr>mic_muted := new\<rparr>; ps = map a_pid (apps_snapshot (store c))
           in (Ok (''mic-mute '' @ on_off new @ '' global ('' @ show_nat (length ps) @ '' apps)''), m1,
               fold (\<lambda>p. deliver_to_host p (mic_line (mic_effective m1 p))) ps c)))"

definition set_member :: "bool \<Rightarrow> pid \<Rightarrow> pid list \<Rightarrow> pid list" where
  "set_member b p ps = (if b then List.insert p ps else removeAll p ps)"

definition cmd_app_mic_mute :: "string \<Rightarrow> AudioModule \<Rightarrow> Ctx \<Rightarrow> Reply \<times> AudioModule \<times> Ctx" where
  "cmd_app_mic_mute args m c =
     (case split_ws args of
        [o', arg] \<Rightarrow>
          (case audio_resolve o' (store c) of
             None \<Rightarrow> (Err (''app-mic-mute-unknown '' @ o'), m, c)
           | Some (p, _) \<Rightarrow>
               (case switch_arg (p \<in> set (mic_muted_apps m)) arg of
                  None \<Rightarrow> (Err (''app-mic-mute-bad-arg '' @ str_debug arg), m, c)
                | Some new \<Rightarrow>
                    (let m1 = m\<lparr>mic_muted_apps := set_member new p (mic_muted_apps m)\<rparr>; eff = mic_effective m1 p
                     in (Ok (''app-mic-mute '' @ on_off new @ '' pid='' @ show_int p @ '' eff='' @ show_bool eff),
                         m1, deliver_to_host p (mic_line eff) c))))
      | _ \<Rightarrow> (Err ''app-mic-mute-args: expected <pid|app-id> <on|off|toggle>'', m, c))"

definition cmd_app_mute :: "string \<Rightarrow> AudioModule \<Rightarrow> Ctx \<Rightarrow> Reply \<times> AudioModule \<times> Ctx" where
  "cmd_app_mute args m c =
     (case split_ws args of
        [o', arg] \<Rightarrow>
          (case audio_resolve o' (store c) of
             None \<Rightarrow> (Err (''app-mute-unknown '' @ o'), m, c)
           | Some (p, _) \<Rightarrow>
               (case switch_arg (p \<in> set (app_muted m)) arg of
                  None \<Rightarrow> (Err (''app-mute-bad-arg '' @ str_debug arg), m, c)
                | Some new \<Rightarrow>
                    (Ok (''app-mute '' @ on_off new @ '' pid='' @ show_int p),
                     m\<lparr>app_muted := set_member new p (app_muted m)\<rparr>,
                     deliver_to_host p (''audio-policy app-mute '' @ on_off new @ [CHR 0x0A]) c)))
      | _ \<Rightarrow> (Err ''app-mute-args: expected <pid|app-id> <on|off|toggle>'', m, c))"

section \<open>Dispatch\<close>

definition audio_verbs :: "string list" where
  "audio_verbs = [''audio-focus-request'', ''audio-focus-abandon'', ''audio-focus-list'',
     ''audio-call-start'', ''audio-call-end'', ''audio-call-video'', ''audio-route'',
     ''audio-ring-start'', ''audio-ring-stop'', ''audio-ringer-mode'',
     ''volume'', ''mute'', ''app-mute'', ''mic-mute'', ''app-mic-mute'', ''play-tone'']"

definition audio_on_command ::
  "string \<Rightarrow> string \<Rightarrow> AudioModule \<Rightarrow> Ctx \<Rightarrow> Reply \<times> AudioModule \<times> Ctx" where
  "audio_on_command verb args m c =
     (if verb = ''audio-focus-request'' then cmd_focus_request args m c
      else if verb = ''audio-focus-abandon'' then cmd_abandon args m c
      else if verb = ''audio-focus-list'' then (cmd_focus_list m, m, c)
      else if verb = ''audio-call-start'' then cmd_call_start args m c
      else if verb = ''audio-call-end'' then cmd_call_end args m c
      else if verb = ''audio-call-video'' then cmd_call_video args m c
      else if verb = ''audio-route'' then cmd_route args m c
      else if verb = ''play-tone'' then cmd_play_tone args m c
      else if verb = ''audio-ring-start'' then cmd_ring_start args m c
      else if verb = ''audio-ring-stop'' then cmd_ring_stop args m c
      else if verb = ''audio-ringer-mode'' then cmd_ringer_mode args m c
      else if verb = ''volume'' then cmd_volume args m c
      else if verb = ''mute'' then cmd_mute args m c
      else if verb = ''app-mute'' then cmd_app_mute args m c
      else if verb = ''mic-mute'' then cmd_mic_mute args m c
      else if verb = ''app-mic-mute'' then cmd_app_mic_mute args m c
      else (Err (''audio-unknown-verb '' @ verb), m, c))"

text \<open>The badge of a dead owner is cancelled under the app id its pid still resolves to.\<close>

definition clear_badge :: "pid \<Rightarrow> u64 \<Rightarrow> Ctx \<Rightarrow> Ctx" where
  "clear_badge p n c =
     (case app_by_pid (store c) p of None \<Rightarrow> c
      | Some a \<Rightarrow> on_store (\<lambda>st. snd (cancel_notification (a_app_id a) n st)) c)"

definition audio_surface_removed :: "pid \<Rightarrow> AudioModule \<Rightarrow> Ctx \<Rightarrow> AudioModule \<times> Ctx" where
  "audio_surface_removed p m c =
     (let (m1, c1) = (if comms m = Some p then (m\<lparr>comms := None\<rparr>, clear_badge p CALL_NOTIF_ID c) else (m, c));
          (m2, c2) = (if ringing m1 = Some p
                      then (m1\<lparr>ringing := None\<rparr>, clear_badge p RING_NOTIF_ID c1) else (m1, c1));
          m3 = m2\<lparr>app_muted := removeAll p (app_muted m2), mic_muted_apps := removeAll p (mic_muted_apps m2)\<rparr>
      in snd (drop_pid p m3 c2))"

definition audio_on_event :: "Event \<Rightarrow> AudioModule \<Rightarrow> Ctx \<Rightarrow> AudioModule \<times> Ctx" where
  "audio_on_event ev m c =
     (case ev of SurfaceRemoved p \<Rightarrow> audio_surface_removed p m c | _ \<Rightarrow> (m, c))"

section \<open>What the clients hear\<close>

text \<open>
  A client's own idea of its focus, from the replies and the \<open>on-focus-changed\<close> lines
  it is sent: it plays after a grant or a gain, pauses or ducks when told, and is idle after a
  loss or when it lets go itself.
\<close>

datatype View = Playing | Paused | Ducked | Idle

definition view_of :: "FocusChange \<Rightarrow> View" where
  "view_of ch = (case ch of Loss \<Rightarrow> Idle | LossTransient \<Rightarrow> Paused | Duck \<Rightarrow> Ducked | GainBack \<Rightarrow> Playing)"

definition hear :: "Effect \<Rightarrow> (pid \<Rightarrow> View) \<Rightarrow> pid \<Rightarrow> View" where
  "hear e v = (case e of
     HostLine p l \<Rightarrow>
       (if l = change_line Loss then v(p := Idle)
        else if l = change_line LossTransient then v(p := Paused)
        else if l = change_line Duck then v(p := Ducked)
        else if l = change_line GainBack then v(p := Playing)
        else v)
   | _ \<Rightarrow> v)"

lemma hear_change [simp]: "hear (HostLine p (change_line ch)) v = v(p := view_of ch)"
  by (cases ch) (simp_all add: hear_def view_of_def change_line_def FocusChange_as_wire_def)

lemma push_change_simps [simp, frame_simps]:
  "store (push_change p ch c) = store c" "events (push_change p ch c) = events c"
  "effects (push_change p ch c) = effects c @ [HostLine p (change_line ch)]"
  by (simp_all add: push_change_def)

lemma fold_push [simp]:
  "store (fold (\<lambda>e. push_change (f_pid e) ch) es c) = store c"
  "events (fold (\<lambda>e. push_change (f_pid e) ch) es c) = events c"
  "effects (fold (\<lambda>e. push_change (f_pid e) ch) es c) =
     effects c @ map (\<lambda>e. HostLine (f_pid e) (change_line ch)) es"
  by (induction es arbitrary: c) simp_all

lemma fold_hear:
  "fold hear (map (\<lambda>e. HostLine (f_pid e) (change_line ch)) es) v =
     (\<lambda>p. if p \<in> f_pid ` set es then view_of ch else v p)"
  by (induction es arbitrary: v) (auto simp: fun_eq_iff)

definition owner_of :: "FocusEntry list \<Rightarrow> pid option" where
  "owner_of es = map_option f_pid (last_opt es)"

text \<open>One entry per client, the owner plays and nobody else does, outsiders are idle.\<close>

definition focus_coherent :: "FocusEntry list \<Rightarrow> (pid \<Rightarrow> View) \<Rightarrow> bool" where
  "focus_coherent es v \<longleftrightarrow> distinct (map f_pid es)
     \<and> (\<forall>p. v p = Playing \<longleftrightarrow> owner_of es = Some p)
     \<and> (\<forall>p. p \<notin> f_pid ` set es \<longrightarrow> v p = Idle)"

lemma owner_of_append [simp]: "owner_of (es @ [e]) = Some (f_pid e)"
  by (simp add: owner_of_def last_opt_def)

lemma owner_of_Nil [simp]: "owner_of [] = None" "owner_of [e] = Some (f_pid e)"
  by (simp_all add: owner_of_def last_opt_def)

lemma owner_of_mem: "owner_of es = Some p \<Longrightarrow> p \<in> f_pid ` set es"
  by (auto simp: owner_of_def last_opt_def split: if_splits)

lemma owner_of_filter:
  "owner_of es = Some q \<Longrightarrow> q \<noteq> p \<Longrightarrow> owner_of (filter (\<lambda>e. f_pid e \<noteq> p) es) = Some q"
  by (induction es rule: rev_induct) (auto simp: owner_of_def last_opt_def)

text \<open>Telling the last entry of the rest anything but \<open>gain\<close> silences the rest.\<close>

lemma silence_rest:
  fixes p :: pid
  assumes "focus_coherent es v" "ch \<noteq> GainBack"
  defines "rest \<equiv> filter (\<lambda>e. f_pid e \<noteq> p) es"
  shows "q \<noteq> p \<Longrightarrow>
    (case last_opt rest of None \<Rightarrow> v | Some e \<Rightarrow> v(f_pid e := view_of ch)) q \<noteq> Playing"
proof -
  assume q: "q \<noteq> p"
  show ?thesis
  proof (cases "owner_of es = Some q")
    case True
    with q owner_of_filter[OF True q] show ?thesis
      using assms(2) by (cases ch) (auto simp: rest_def owner_of_def view_of_def split: option.splits)
  next
    case False
    with assms show ?thesis
      by (cases ch) (auto simp: focus_coherent_def view_of_def split: option.splits)
  qed
qed

lemma interrupt_coherent:
  fixes p :: pid
  assumes "focus_coherent es v" "ch \<noteq> GainBack" "f_pid e = p"
  defines "rest \<equiv> filter (\<lambda>e. f_pid e \<noteq> p) es"
  shows "focus_coherent (rest @ [e])
    ((case last_opt rest of None \<Rightarrow> v | Some e \<Rightarrow> v(f_pid e := view_of ch))(p := Playing))"
proof -
  let ?v = "case last_opt rest of None \<Rightarrow> v | Some e \<Rightarrow> v(f_pid e := view_of ch)"
  have "distinct (map f_pid (rest @ [e]))"
    using assms(1,3) by (auto simp: rest_def focus_coherent_def)
  moreover have "?v q \<noteq> Playing" if "q \<noteq> p" for q
    unfolding rest_def by (rule silence_rest[OF assms(1,2) that])
  moreover have "?v q = Idle" if "q \<noteq> p" "q \<notin> f_pid ` set rest" for q
  proof -
    have "v q = Idle"
      using assms(1) that by (auto simp: focus_coherent_def rest_def)
    moreover have "q \<noteq> f_pid x" if "last_opt rest = Some x" for x
      using that \<open>q \<notin> f_pid ` set rest\<close> by (auto simp: last_opt_def split: if_splits)
    ultimately show ?thesis by (auto split: option.split)
  qed
  ultimately show ?thesis
    unfolding focus_coherent_def using assms(3) by (auto simp del: fun_upd_apply simp: fun_upd_def)
qed

lemma grant_coherent:
  assumes "focus_coherent (stack m) v" "effects c = []"
  shows "focus_coherent (stack (fst (focus_grant p i k m c)))
    ((fold hear (effects (snd (focus_grant p i k m c))) v)(p := Playing))"
proof -
  let ?rest = "filter (\<lambda>e. f_pid e \<noteq> p) (stack m)"
  have tell: "fold hear (effects (case last_opt ?rest of None \<Rightarrow> c | Some e \<Rightarrow> push_change (f_pid e) ch c)) v =
      (case last_opt ?rest of None \<Rightarrow> v | Some e \<Rightarrow> v(f_pid e := view_of ch))" for ch
    using assms(2) by (simp split: option.split)
  show ?thesis
  proof (cases k)
    case Gain
    with assms show ?thesis
      by (auto simp: focus_grant_def Let_def fold_hear focus_coherent_def view_of_def dest: owner_of_mem)
  next
    case GainTransient
    then show ?thesis
      using interrupt_coherent[OF assms(1), of LossTransient "\<lparr>f_pid = p, f_app_id = i, f_kind = k\<rparr>" p]
        tell[of LossTransient] by (simp add: focus_grant_def Let_def)
  next
    case GainTransientMayDuck
    then show ?thesis
      using interrupt_coherent[OF assms(1), of Duck "\<lparr>f_pid = p, f_app_id = i, f_kind = k\<rparr>" p]
        tell[of Duck] by (simp add: focus_grant_def Let_def)
  qed
qed

lemma drop_coherent:
  assumes "focus_coherent (stack m) v" "effects c = []"
  shows "focus_coherent (stack (fst (snd (drop_pid p m c))))
    (fold hear (effects (snd (snd (drop_pid p m c)))) (v(p := Idle)))"
proof (cases "list_ex (\<lambda>e. f_pid e = p) (stack m)")
  case False
  then have "p \<notin> f_pid ` set (stack m)"
    by (auto simp: list_ex_iff)
  with False assms show ?thesis
    by (auto simp: drop_pid_def focus_coherent_def dest: owner_of_mem)
next
  case True
  let ?rest = "filter (\<lambda>e. f_pid e \<noteq> p) (stack m)"
  show ?thesis
  proof (cases "owner_of (stack m) = Some p")
    case own: True
    have "v q \<noteq> Playing" if "q \<noteq> p" for q
      using assms(1) own that by (auto simp: focus_coherent_def)
    moreover have "owner_of ?rest = Some q \<Longrightarrow> q \<noteq> p" for q
      by (auto dest: owner_of_mem)
    moreover have idle: "v q = Idle" if "q \<notin> f_pid ` set (stack m)" for q
      using assms(1) that by (simp add: focus_coherent_def)
    moreover have "distinct (map f_pid ?rest)"
      using assms(1) by (simp add: focus_coherent_def)
    moreover have own': "map_option f_pid (last_opt (stack m)) = Some p"
      using own by (simp add: owner_of_def)
    ultimately show ?thesis
    proof (cases "last_opt ?rest")
      case None
      with True own' assms(2) have d: "snd (drop_pid p m c) = (m\<lparr>stack := ?rest\<rparr>, c)"
        by (simp add: drop_pid_def)
      have "?rest = []"
        using None by (auto simp: last_opt_def split: if_splits)
      with \<open>\<And>q. q \<noteq> p \<Longrightarrow> v q \<noteq> Playing\<close> idle assms(2) show ?thesis
        unfolding d focus_coherent_def by (auto simp: filter_empty_conv image_iff)
    next
      case (Some e)
      with True own' have d: "snd (drop_pid p m c) = (m\<lparr>stack := ?rest\<rparr>, push_change (f_pid e) GainBack c)"
        by (simp add: drop_pid_def)
      have "owner_of ?rest = Some (f_pid e)"
        using Some by (simp add: owner_of_def)
      with owner_of_mem[OF this] \<open>\<And>q. q \<noteq> p \<Longrightarrow> v q \<noteq> Playing\<close> idle \<open>distinct (map f_pid ?rest)\<close> assms(2)
      show ?thesis
        unfolding d focus_coherent_def by (auto simp: view_of_def)
    qed
  next
    case False
    have "owner_of ?rest = owner_of (stack m)"
    proof (cases "owner_of (stack m)")
      case None
      then show ?thesis by (auto simp: owner_of_def last_opt_def split: if_splits)
    next
      case (Some q)
      with False owner_of_filter[OF Some, of p] show ?thesis by auto
    qed
    with True False assms show ?thesis
      by (auto simp: drop_pid_def Let_def owner_of_def focus_coherent_def)
  qed
qed

section \<open>Frames\<close>

lemma audio_resolve_cong: "apps a = apps b \<Longrightarrow> audio_resolve tok a = audio_resolve tok b"
  by (simp add: audio_resolve_def app_by_pid_def app_def apps_snapshot_def cong: option.case_cong)

lemma apps_notification [simp]:
  "apps (snd (post_notification i k t b st)) = apps st" "apps (snd (cancel_notification i k st)) = apps st"
  by (auto simp: post_notification_def cancel_notification_def Let_def split: option.split)

text \<open>The audio module touches nothing of the store but the notifications.\<close>

definition only_notifs :: "Store \<Rightarrow> Store \<Rightarrow> bool" where
  "only_notifs st st' \<longleftrightarrow> displays st' = displays st \<and> apps st' = apps st \<and> home st' = home st
     \<and> alarms st' = alarms st \<and> sensors st' = sensors st \<and> ime_height st' = ime_height st"

lemma only_notifs_refl [simp]: "only_notifs st st"
  by (simp add: only_notifs_def)

lemma only_notifs_trans: "only_notifs a b \<Longrightarrow> only_notifs b c \<Longrightarrow> only_notifs a c"
  by (simp add: only_notifs_def)

lemma only_notifs_ops [simp]:
  "only_notifs st (snd (post_notification i k t b st))" "only_notifs st (snd (cancel_notification i k st))"
  by (auto simp: only_notifs_def post_notification_def cancel_notification_def Let_def split: option.split)

lemma focus_grant_store [simp]:
  "store (snd (focus_grant p i k m c)) = store c" "events (snd (focus_grant p i k m c)) = events c"
  by (auto simp: focus_grant_def Let_def split: FocusKind.split option.split)

lemma focus_grant_fields [simp]:
  "comms (fst (focus_grant p i k m c)) = comms m" "ringing (fst (focus_grant p i k m c)) = ringing m"
  by (auto simp: focus_grant_def Let_def split: FocusKind.split option.split)

lemma drop_pid_store [simp]:
  "store (snd (snd (drop_pid p m c))) = store c" "events (snd (snd (drop_pid p m c))) = events c"
  by (auto simp: drop_pid_def Let_def split: option.split)

lemma drop_pid_fields [simp]:
  "comms (fst (snd (drop_pid p m c))) = comms m" "ringing (fst (snd (drop_pid p m c))) = ringing m"
  "app_muted (fst (snd (drop_pid p m c))) = app_muted m"
  "mic_muted_apps (fst (snd (drop_pid p m c))) = mic_muted_apps m"
  "stack (fst (snd (drop_pid p m c))) = filter (\<lambda>e. f_pid e \<noteq> p) (stack m)"
  by (auto simp: drop_pid_def Let_def list_ex_iff filter_id_conv split: option.split)

text \<open>A client is in the stack once.\<close>

definition one_entry :: "AudioModule \<Rightarrow> bool" where
  "one_entry m \<longleftrightarrow> distinct (map f_pid (stack m))"

lemma one_entry_steps [inv_intros]:
  "one_entry m \<Longrightarrow> one_entry (fst (focus_grant p i k m c))"
  "one_entry m \<Longrightarrow> one_entry (fst (snd (drop_pid p m c)))"
  "one_entry m \<Longrightarrow> one_entry (fst (stop_ring p i m c))"
  by (auto simp: one_entry_def focus_grant_def drop_pid_def stop_ring_def Let_def distinct_map_filter
      split: FocusKind.split)

lemma one_entry_fields [simp]:
  "one_entry (m\<lparr>comms := x\<rparr>) = one_entry m" "one_entry (m\<lparr>ringing := x\<rparr>) = one_entry m"
  "one_entry (m\<lparr>comms_speaker := b\<rparr>) = one_entry m" "one_entry (m\<lparr>muted := b\<rparr>) = one_entry m"
  "one_entry (m\<lparr>mic_muted := b\<rparr>) = one_entry m" "one_entry (m\<lparr>app_muted := ps\<rparr>) = one_entry m"
  "one_entry (m\<lparr>mic_muted_apps := ps\<rparr>) = one_entry m" "one_entry (m\<lparr>ringer_mode := r\<rparr>) = one_entry m"
  "one_entry (m\<lparr>app_muted := ps, mic_muted_apps := qs\<rparr>) = one_entry m"
  by (simp_all add: one_entry_def)

lemma audio_on_command_entries [inv_intros]:
  assumes "one_entry m"
  shows "one_entry (fst (snd (audio_on_command v a m c)))"
proof -
  have "one_entry (fst (snd (cmd_focus_request a m c)))" "one_entry (fst (snd (cmd_abandon a m c)))"
    "one_entry (fst (snd (cmd_call_start a m c)))" "one_entry (fst (snd (cmd_call_end a m c)))"
    "one_entry (fst (snd (cmd_call_video a m c)))" "one_entry (fst (snd (cmd_ring_start a m c)))"
    "one_entry (fst (snd (cmd_ring_stop a m c)))" "one_entry (fst (snd (cmd_ringer_mode a m c)))"
    using assms
    by (simp_all add: cmd_focus_request_def cmd_abandon_def cmd_call_start_def cmd_call_end_def cmd_call_video_def
        cmd_ring_start_def cmd_ring_stop_def cmd_ringer_mode_def one_entry_steps Let_def case_prod_beta
        split: list.split option.split)
  moreover have "one_entry (fst (snd (cmd_route a m c)))" "one_entry (fst (snd (cmd_play_tone a m c)))"
    "one_entry (fst (snd (cmd_volume a m c)))" "one_entry (fst (snd (cmd_mute a m c)))"
    "one_entry (fst (snd (cmd_app_mute a m c)))" "one_entry (fst (snd (cmd_mic_mute a m c)))"
    "one_entry (fst (snd (cmd_app_mic_mute a m c)))"
    using assms
    by (simp_all add: cmd_route_def cmd_play_tone_def cmd_volume_def cmd_mute_def cmd_app_mute_def cmd_mic_mute_def
        cmd_app_mic_mute_def Let_def case_prod_beta split: list.split option.split)
  ultimately show ?thesis
    using assms by (simp add: audio_on_command_def)
qed

lemma audio_on_event_entries [inv_intros]:
  "one_entry m \<Longrightarrow> one_entry (fst (audio_on_event ev m c))"
  by (cases ev) (simp_all add: audio_on_event_def audio_surface_removed_def one_entry_steps Let_def case_prod_beta)

section \<open>Properties\<close>

text \<open>
  Exactly one client believes it has the audio focus, the top of the stack: the messages a
  grant sends leave every other client paused, ducked or idle, and those of an abandon (or a
  death) hand the focus to the client underneath.
\<close>

theorem focus_single_owner:
  assumes "focus_coherent (stack m) v" "effects c = []"
  shows "focus_coherent (stack (fst (focus_grant p i k m c)))
      ((fold hear (effects (snd (focus_grant p i k m c))) v)(p := Playing))
    \<and> focus_coherent (stack (fst (snd (drop_pid p m c))))
      (fold hear (effects (snd (snd (drop_pid p m c)))) (v(p := Idle)))"
  using grant_coherent[OF assms] drop_coherent[OF assms] by blast

theorem focus_single_owner_witness:
  "focus_coherent (stack (fst (focus_grant 20 ''maps'' GainTransientMayDuck
      (AudioModule_new\<lparr>stack := [\<lparr>f_pid = 10, f_app_id = ''mail'', f_kind = Gain\<rparr>]\<rparr>) demo_ctx)))
    ((fold hear [HostLine 10 (change_line Duck)] ((\<lambda>_. Idle)(10 := Playing)))(20 := Playing))"
proof -
  let ?m = "AudioModule_new\<lparr>stack := [\<lparr>f_pid = 10, f_app_id = ''mail'', f_kind = Gain\<rparr>]\<rparr>"
  have "focus_coherent (stack ?m) ((\<lambda>_. Idle)(10 := Playing))" "effects demo_ctx = []"
    by (auto simp: focus_coherent_def demo_ctx_def)
  moreover have "effects (snd (focus_grant 20 ''maps'' GainTransientMayDuck ?m demo_ctx)) = [HostLine 10 (change_line Duck)]"
    by (simp add: focus_grant_def last_opt_def demo_ctx_def)
  ultimately show ?thesis
    using focus_single_owner[of ?m "(\<lambda>_. Idle)(10 := Playing)" demo_ctx 20 "''maps''" GainTransientMayDuck]
    by simp
qed

text \<open>
  A call borrows the focus: started and ended by an app that was not in the stack, it leaves
  the stack, the session and the badge as they were before, and the prior owner is told
  \<open>loss-transient\<close> and then \<open>gain\<close>.
\<close>

theorem call_roundtrip:
  assumes "audio_resolve (trim tok) (store c) = Some (p, i)" "audio_resolve (trim tok) (store d) = Some (p, i)"
    "p \<notin> f_pid ` set (stack m)" "comms m = None" "ringing m \<noteq> Some p" "effects c = []" "effects d = []"
    "cmd_call_start tok m c = (r1, m1, c1)" "cmd_call_end tok m1 d = (r2, m2, d2)"
  shows "is_ok r1 \<and> comms m1 = Some p \<and> CommsActive p True \<in> set (events c1)
    \<and> is_ok r2 \<and> stack m2 = stack m \<and> comms m2 = None \<and> CommsActive p False \<in> set (events d2)
    \<and> notif_of i CALL_NOTIF_ID (store d2) = None
    \<and> (\<forall>e. last_opt (stack m) = Some e \<longrightarrow>
         HostLine (f_pid e) (change_line LossTransient) \<in> set (effects c1)
         \<and> HostLine (f_pid e) (change_line GainBack) \<in> set (effects d2))"
proof -
  have rest: "filter (\<lambda>e. f_pid e \<noteq> p) (stack m) = stack m"
    using assms(3) by (auto simp: filter_id_conv)
  have s: "stop_ring p i m c = (m, c)"
    using assms(5) by (simp add: stop_ring_def)
  let ?e = "\<lparr>f_pid = p, f_app_id = i, f_kind = GainTransient\<rparr>"
  have g: "focus_grant p i GainTransient m c = (m\<lparr>stack := stack m @ [?e]\<rparr>,
      case last_opt (stack m) of None \<Rightarrow> c | Some e \<Rightarrow> push_change (f_pid e) LossTransient c)"
    by (simp add: focus_grant_def Let_def rest)
  have m1: "m1 = m\<lparr>stack := stack m @ [?e], comms := Some p\<rparr>"
    and c1: "is_ok r1" "CommsActive p True \<in> set (events c1)"
      "\<forall>e. last_opt (stack m) = Some e \<longrightarrow> HostLine (f_pid e) (change_line LossTransient) \<in> set (effects c1)"
    using assms(1,8) by (auto simp: cmd_call_start_def s g Let_def split: option.splits)
  have "drop_pid p (m1\<lparr>comms := None\<rparr>) (deliver_to_host p (''audio-policy set-mode normal'' @ [CHR 0x0A]) d) =
      (True, m, case last_opt (stack m) of None \<Rightarrow> deliver_to_host p (''audio-policy set-mode normal'' @ [CHR 0x0A]) d
         | Some e \<Rightarrow> push_change (f_pid e) GainBack (deliver_to_host p (''audio-policy set-mode normal'' @ [CHR 0x0A]) d))"
    using assms(4) rest by (simp add: drop_pid_def m1 last_opt_def)
  then have "m2 = m" "is_ok r2" "CommsActive p False \<in> set (events d2)"
    "notif_of i CALL_NOTIF_ID (store d2) = None"
    "\<forall>e. last_opt (stack m) = Some e \<longrightarrow> HostLine (f_pid e) (change_line GainBack) \<in> set (effects d2)"
    using assms(2,9) m1
    by (auto simp: cmd_call_end_def cancel_notification_def notif_of_def find_None_iff2 Let_def split: option.splits)
  with m1 c1 assms(4) show ?thesis by simp
qed

theorem call_roundtrip_witness:
  "let m = AudioModule_new\<lparr>stack := [\<lparr>f_pid = 10, f_app_id = ''mail'', f_kind = Gain\<rparr>]\<rparr>;
       (r1, m1, c1) = cmd_call_start ''20'' m demo_ctx;
       (r2, m2, d2) = cmd_call_end ''20'' m1 (c1\<lparr>effects := []\<rparr>)
   in stack m2 = stack m"
proof -
  let ?m = "AudioModule_new\<lparr>stack := [\<lparr>f_pid = 10, f_app_id = ''mail'', f_kind = Gain\<rparr>]\<rparr>"
  obtain r1 m1 c1 where 1: "cmd_call_start ''20'' ?m demo_ctx = (r1, m1, c1)"
    by (cases "cmd_call_start ''20'' ?m demo_ctx")
  obtain r2 m2 d2 where 2: "cmd_call_end ''20'' m1 (c1\<lparr>effects := []\<rparr>) = (r2, m2, d2)"
    by (cases "cmd_call_end ''20'' m1 (c1\<lparr>effects := []\<rparr>)")
  have a: "audio_resolve (trim ''20'') (store demo_ctx) = Some (20, ''maps'')"
    by code_simp
  have "apps (store c1) = apps (store demo_ctx)"
    using 1 by (auto simp: cmd_call_start_def Let_def a stop_ring_def AudioModule_new_def focus_grant_def
        last_opt_def apps_notification)
  then have b: "audio_resolve (trim ''20'') (store (c1\<lparr>effects := []\<rparr>)) = Some (20, ''maps'')"
    using a audio_resolve_cong[of "store c1" "store demo_ctx"] by simp
  show ?thesis
    using call_roundtrip[OF a b _ _ _ _ _ 1 2] 1 2
    by (simp add: AudioModule_new_def demo_ctx_def)
qed

text \<open>
  A dead process leaves nothing behind in the module: no focus entry, no session, no ring and
  no mute under its pid, so a recycled pid starts clean.
\<close>

theorem audio_forgets_dead:
  "let m' = fst (audio_on_event (SurfaceRemoved p) m c) in
     p \<notin> f_pid ` set (stack m') \<and> comms m' \<noteq> Some p \<and> ringing m' \<noteq> Some p
     \<and> p \<notin> set (app_muted m') \<and> p \<notin> set (mic_muted_apps m')"
  by (auto simp: audio_on_event_def audio_surface_removed_def Let_def)

text \<open>
  Global microphone mute reaches every registered app with its effective state: off only for
  an app that is muted neither globally nor by itself.
\<close>

theorem mic_mute_effective:
  assumes "switch_arg (mic_muted m) (trim args) = Some new"
  shows "\<exists>r m' c'. audio_on_command ''mic-mute'' args m c = (Ok r, m', c') \<and> mic_muted m' = new
    \<and> effects c' = effects c @ map (\<lambda>a. HostLine (a_pid a)
         (mic_line (new \<or> a_pid a \<in> set (mic_muted_apps m)))) (apps_snapshot (store c))"
proof -
  have "effects (fold (\<lambda>p. deliver_to_host p (l p)) ps c) = effects c @ map (\<lambda>p. HostLine p (l p)) ps" for l ps c
    by (induction ps arbitrary: c) simp_all
  with assms show ?thesis
    by (simp add: audio_on_command_def cmd_mic_mute_def Let_def mic_effective_def o_def)
qed

theorem mic_mute_effective_witness:
  "\<exists>r m' c'. audio_on_command ''mic-mute'' ''toggle'' AudioModule_new demo_ctx = (Ok r, m', c')
    \<and> effects c' = [HostLine 10 (mic_line True), HostLine 20 (mic_line True), HostLine 30 (mic_line True)]"
proof -
  have "switch_arg (mic_muted AudioModule_new) (trim ''toggle'') = Some True"
    by code_simp
  then obtain r m' c' where
    "audio_on_command ''mic-mute'' ''toggle'' AudioModule_new demo_ctx = (Ok r, m', c')"
    and e: "effects c' = effects demo_ctx @ map (\<lambda>a. HostLine (a_pid a)
         (mic_line (True \<or> a_pid a \<in> set (mic_muted_apps AudioModule_new)))) (apps_snapshot (store demo_ctx))"
    using mic_mute_effective[of AudioModule_new "''toggle''" True demo_ctx] by blast
  moreover have "effects c' = [HostLine 10 (mic_line True), HostLine 20 (mic_line True), HostLine 30 (mic_line True)]"
    unfolding e by (simp add: demo_ctx_def demo_store_def demo_app_def apps_snapshot_def)
  ultimately show ?thesis by blast
qed

definition second_call_run :: "Ctx \<Rightarrow> Event list \<times> Reply" where
  "second_call_run c =
     (let (r1, m1, c1) = audio_on_command ''audio-call-start'' ''10'' AudioModule_new c;
          (r2, m2, c2) = audio_on_command ''audio-call-start'' ''20'' m1 c1;
          (r3, m3, c3) = audio_on_command ''audio-call-end'' ''10'' m2 c2;
          (r4, m4, c4) = audio_on_command ''audio-call-end'' ''20'' m3 c3
      in (events c4, r3))"

text \<open>
  Starting a second call while one is up replaces the session without ending the first: no
  \<open>CommsActive\<close> off is emitted for its owner, whose own \<open>audio-call-end\<close> is then
  refused, so no end of the first call ever reaches the power module.
\<close>

theorem second_call_leaks:
  "second_call_run demo_ctx =
     ([CommsActive 10 True, CommsActive 20 True, VideoCallActive 20 False, CommsActive 20 False],
      Err ''audio-call-not-in-session pid=10'')"
  by code_simp

end
