(* ===== verification/Sensors.thy ===== *)
theory Sensors
  imports ShellSplit
begin

text \<open>
  The sensors module (\<open>wandr-arbiter-sensors\<close>): which requesters hold which sensor
  enabled, and the translation of raw proximity readings into near and far.
\<close>

section \<open>State\<close>

definition PROXIMITY_NEAR_FRACTION :: fp where "PROXIMITY_NEAR_FRACTION = fp_of_rat f32 (1 / 2)"
definition PROXIMITY_HYST_FRACTION :: fp where "PROXIMITY_HYST_FRACTION = fp_of_rat f32 (1 / 10)"
definition DEFAULT_RATE_HZ :: u32 where "DEFAULT_RATE_HZ = 0"
definition PROXIMITY_RATE_HZ :: u32 where "PROXIMITY_RATE_HZ = 20"
definition MANUAL_REQUESTER :: pid where "MANUAL_REQUESTER = - 1"

definition rate_for :: "SensorKind \<Rightarrow> u32" where
  "rate_for k = (case k of Proximity \<Rightarrow> PROXIMITY_RATE_HZ | _ \<Rightarrow> DEFAULT_RATE_HZ)"

record SensorsModule =
  holders :: "(SensorKind \<times> pid list) list"
  prox_near :: "bool option"

definition SensorsModule_new :: SensorsModule where
  "SensorsModule_new = \<lparr>holders = [], prox_near = None\<rparr>"

definition holders_of :: "SensorsModule \<Rightarrow> SensorKind \<Rightarrow> pid list" where
  "holders_of m k = or_default [] (map_of (holders m) k)"

section \<open>References\<close>

definition acquire :: "SensorKind \<Rightarrow> pid \<Rightarrow> SensorsModule \<Rightarrow> Ctx \<Rightarrow> SensorsModule \<times> Ctx" where
  "acquire k r m c =
     (let hs = holders_of m k; was_empty = (hs = []);
          hs1 = (if r \<in> set hs then hs else hs @ [r])
      in (m\<lparr>holders := AList.update k hs1 (holders m)\<rparr>,
          if was_empty then request (SetSensor k True (rate_for k)) c else c))"

definition sensor_release :: "SensorKind \<Rightarrow> pid \<Rightarrow> SensorsModule \<Rightarrow> Ctx \<Rightarrow> SensorsModule \<times> Ctx" where
  "sensor_release k r m c =
     (case map_of (holders m) k of
        None \<Rightarrow> (m, c)
      | Some hs \<Rightarrow>
          (let before = length hs; hs1 = filter (\<lambda>x. x \<noteq> r) hs;
               m1 = m\<lparr>holders := AList.update k hs1 (holders m)\<rparr>
           in if hs1 = [] \<and> before > 0
              then (if k = Proximity then m1\<lparr>prox_near := None\<rparr> else m1,
                    request (SetSensor k False (rate_for k)) c)
              else (m1, c)))"

definition release_all :: "pid \<Rightarrow> SensorsModule \<Rightarrow> Ctx \<Rightarrow> SensorsModule \<times> Ctx" where
  "release_all r m c =
     fold (\<lambda>k (m, c). sensor_release k r m c)
       (map fst (filter (\<lambda>(_, hs). r \<in> set hs) (holders m))) (m, c)"

section \<open>Readings\<close>

definition translate_proximity :: "fp \<Rightarrow> SensorsModule \<Rightarrow> Ctx \<Rightarrow> SensorsModule \<times> Ctx" where
  "translate_proximity x m c =
     (case sensor (store c) Proximity of
        None \<Rightarrow> (m, c)
      | Some slot \<Rightarrow>
          if \<not> flt (Fin False 0) (max_range slot) then (m, c)
          else
            (let mid = fmul f32 (max_range slot) PROXIMITY_NEAR_FRACTION;
                 band = fmul f32 (max_range slot) PROXIMITY_HYST_FRACTION;
                 near = (case prox_near m of
                           None \<Rightarrow> flt x mid
                         | Some True \<Rightarrow> flt x (fadd f32 mid band)
                         | Some False \<Rightarrow> flt x (fsub f32 mid band))
             in if prox_near m \<noteq> Some near
                then (m\<lparr>prox_near := Some near\<rparr>, emit (ProximityChanged near) c)
                else (m, c)))"

definition on_reading ::
  "SensorKind \<Rightarrow> fp \<Rightarrow> fp \<Rightarrow> fp \<Rightarrow> u64 \<Rightarrow> SensorsModule \<Rightarrow> Ctx \<Rightarrow> SensorsModule \<times> Ctx" where
  "on_reading k x y z ts m c =
     (let c1 = on_store (sensor_mut k (\<lambda>s. s\<lparr>last_x := x, last_y := y, last_z := z,
                          last_ts_ns := ts, has_reading := True\<rparr>)) c
      in if k = Proximity then translate_proximity x m c1 else (m, c1))"

section \<open>Commands\<close>

definition reading_arg :: "string list \<Rightarrow> nat \<Rightarrow> fp" where
  "reading_arg toks i = or_default (Fin False 0) (Option.bind (nth_opt toks i) (parse_fp f32))"

definition cmd_report_sensor :: "string \<Rightarrow> SensorsModule \<Rightarrow> Ctx \<Rightarrow> Reply \<times> SensorsModule \<times> Ctx" where
  "cmd_report_sensor args m c =
     (let toks = split_ws args in
      case nth_opt toks 0 of
        None \<Rightarrow> (Err ''report-sensor-usage <kind> <x> [y z]'', m, c)
      | Some kt \<Rightarrow>
          (case SensorKind_from_wire kt of
             None \<Rightarrow> (Err (''report-sensor-unknown-kind '' @ str_debug kt), m, c)
           | Some k \<Rightarrow>
               if nth_opt toks 1 = None then (Err ''report-sensor-missing-x'', m, c)
               else
                 (let x = reading_arg toks 1; y = reading_arg toks 2; z = reading_arg toks 3
                  in (Ok (''report-sensor '' @ SensorKind_as_wire k @ '' x='' @ show_fp f32 x @
                          '' y='' @ show_fp f32 y @ '' z='' @ show_fp f32 z),
                      m, emit (SensorReading k x y z 0) c))))"

definition cmd_report_sensor_descriptor ::
  "string \<Rightarrow> SensorsModule \<Rightarrow> Ctx \<Rightarrow> Reply \<times> SensorsModule \<times> Ctx" where
  "cmd_report_sensor_descriptor args m c =
     (let toks = split_ws args in
      case (nth_opt toks 0, nth_opt toks 1) of
        (Some kt, Some mt) \<Rightarrow>
          (case SensorKind_from_wire kt of
             None \<Rightarrow> (Err (''report-sensor-descriptor-unknown-kind '' @ str_debug kt), m, c)
           | Some k \<Rightarrow>
               (case parse_fp f32 mt of
                  None \<Rightarrow> (Err (''report-sensor-descriptor-bad-max-range '' @ str_debug mt), m, c)
                | Some mr \<Rightarrow>
                    (let res = reading_arg toks 2
                     in (Ok (''report-sensor-descriptor '' @ SensorKind_as_wire k @ '' max_range='' @
                             show_fp f32 mr @ '' resolution='' @ show_fp f32 res),
                         m, on_store (set_sensor_descriptor k mr res) c))))
      | _ \<Rightarrow> (Err ''report-sensor-descriptor-usage <kind> <max_range> <resolution>'', m, c))"

definition hold_arg :: "string option \<Rightarrow> bool option" where
  "hold_arg t =
     (if t = Some ''on'' \<or> t = Some ''1'' \<or> t = Some ''true'' then Some True
      else if t = Some ''off'' \<or> t = Some ''0'' \<or> t = Some ''false'' then Some False
      else None)"

definition cmd_sensor_hold :: "string \<Rightarrow> SensorsModule \<Rightarrow> Ctx \<Rightarrow> Reply \<times> SensorsModule \<times> Ctx" where
  "cmd_sensor_hold args m c =
     (let toks = split_ws args in
      case nth_opt toks 0 of
        None \<Rightarrow> (Err ''sensor-hold-usage <kind> <on|off>'', m, c)
      | Some kt \<Rightarrow>
          (case SensorKind_from_wire kt of
             None \<Rightarrow> (Err (''sensor-hold-unknown-kind '' @ str_debug kt), m, c)
           | Some k \<Rightarrow>
               (case hold_arg (nth_opt toks 1) of
                  None \<Rightarrow> (Err ''sensor-hold-usage <kind> <on|off>'', m, c)
                | Some on \<Rightarrow>
                    (Ok (''sensor-hold '' @ SensorKind_as_wire k @ '' '' @ (if on then ''on'' else ''off'')),
                     if on then acquire k MANUAL_REQUESTER m c else sensor_release k MANUAL_REQUESTER m c))))"

definition sensor_part :: "SensorsModule \<Rightarrow> Store \<Rightarrow> SensorKind \<Rightarrow> string" where
  "sensor_part m st k =
     SensorKind_as_wire k @ ''[holders='' @ show_nat (length (holders_of m k)) @ '' '' @
     (case sensor st k of
        None \<Rightarrow> ''unknown''
      | Some s \<Rightarrow>
          if has_reading s
          then ''x='' @ show_fixed 3 (last_x s) @ '' max='' @ show_fixed 3 (max_range s)
          else ''max='' @ show_fixed 3 (max_range s) @ '' (no reading)'') @ '']''"

definition cmd_sensor_state :: "SensorsModule \<Rightarrow> Ctx \<Rightarrow> Reply" where
  "cmd_sensor_state m c =
     Ok (''sensors prox='' @ (case prox_near m of Some True \<Rightarrow> ''near'' | Some False \<Rightarrow> ''far'' | None \<Rightarrow> ''unknown'') @
         '' '' @ join '' '' (map (sensor_part m (store c)) [Proximity, Accelerometer, Light]))"

definition sensors_verbs :: "string list" where
  "sensors_verbs = [''report-sensor'', ''report-sensor-descriptor'', ''sensor-state'', ''sensor-hold'']"

definition sensors_on_command ::
  "string \<Rightarrow> string \<Rightarrow> SensorsModule \<Rightarrow> Ctx \<Rightarrow> Reply \<times> SensorsModule \<times> Ctx" where
  "sensors_on_command verb args m c =
     (if verb = ''report-sensor'' then cmd_report_sensor args m c
      else if verb = ''report-sensor-descriptor'' then cmd_report_sensor_descriptor args m c
      else if verb = ''sensor-state'' then (cmd_sensor_state m c, m, c)
      else if verb = ''sensor-hold'' then cmd_sensor_hold args m c
      else (Err (''sensors-unknown-verb '' @ verb), m, c))"

definition sensors_on_event :: "Event \<Rightarrow> SensorsModule \<Rightarrow> Ctx \<Rightarrow> SensorsModule \<times> Ctx" where
  "sensors_on_event ev m c =
     (case ev of
        SensorAcquire k r \<Rightarrow> acquire k r m c
      | SensorRelease k r \<Rightarrow> sensor_release k r m c
      | SensorReading k x y z ts \<Rightarrow> on_reading k x y z ts m c
      | SurfaceRemoved p \<Rightarrow> release_all p m c
      | _ \<Rightarrow> (m, c))"

section \<open>Lemmas\<close>

text \<open>The state of the hardware after the effects are executed in order.\<close>

definition hal_step :: "Effect \<Rightarrow> (SensorKind \<Rightarrow> bool) \<Rightarrow> SensorKind \<Rightarrow> bool" where
  "hal_step e v = (case e of SetSensor k on hz \<Rightarrow> v(k := on) | _ \<Rightarrow> v)"

definition hal :: "Effect list \<Rightarrow> (SensorKind \<Rightarrow> bool) \<Rightarrow> SensorKind \<Rightarrow> bool" where
  "hal es v = fold hal_step es v"

definition powered :: "SensorsModule \<Rightarrow> (SensorKind \<Rightarrow> bool) \<Rightarrow> bool" where
  "powered m v \<longleftrightarrow> (\<forall>k. v k \<longleftrightarrow> holders_of m k \<noteq> [])"

lemma hal_append [simp]: "hal (es @ [e]) v = hal_step e (hal es v)" "hal [] v = v"
  by (simp_all add: hal_def)

lemma holders_of_update [simp]:
  "holders_of (m\<lparr>holders := AList.update k hs (holders m)\<rparr>) j = (if j = k then hs else holders_of m j)"
  by (simp add: holders_of_def update_conv')

lemma holders_of_prox [simp]: "holders_of (m\<lparr>prox_near := b\<rparr>) j = holders_of m j"
  by (simp add: holders_of_def)

definition held :: "SensorKind \<Rightarrow> pid list \<Rightarrow> SensorsModule \<Rightarrow> SensorsModule" where
  "held k hs m = m\<lparr>holders := AList.update k hs (holders m)\<rparr>"

lemma holders_of_held [simp]: "holders_of (held k hs m) j = (if j = k then hs else holders_of m j)"
  by (simp add: holders_of_def held_def update_conv')

lemma release_cases:
  assumes "map_of (holders m) k = Some hs"
  shows "sensor_release k r m c =
    (if filter (\<lambda>x. x \<noteq> r) hs = [] \<and> hs \<noteq> []
     then (if k = Proximity then (held k [] m)\<lparr>prox_near := None\<rparr> else held k [] m,
           request (SetSensor k False (rate_for k)) c)
     else (held k (filter (\<lambda>x. x \<noteq> r) hs) m, c))"
    and "holders_of m k = hs"
  using assms by (simp_all add: sensor_release_def holders_of_def held_def Let_def)

lemma holders_of_release:
  "holders_of (fst (sensor_release k r m c)) j =
     (if j = k then filter (\<lambda>x. x \<noteq> r) (holders_of m k) else holders_of m j)"
proof (cases "map_of (holders m) k")
  case None
  then show ?thesis by (simp add: sensor_release_def holders_of_def)
next
  case (Some hs)
  note h = release_cases(2)[OF Some]
  show ?thesis
  proof (cases "filter (\<lambda>x. x \<noteq> r) hs = [] \<and> hs \<noteq> []")
    case True
    show ?thesis
      unfolding release_cases(1)[OF Some] if_P[OF True] h by (simp only: conjunct1[OF True] fst_conv) simp
  next
    case False
    show ?thesis
      unfolding release_cases(1)[OF Some] if_not_P[OF False] h by simp
  qed
qed

lemma acquire_cases:
  "acquire k r m c =
    (if holders_of m k = [] then (held k [r] m, request (SetSensor k True (rate_for k)) c)
     else (held k (if r \<in> set (holders_of m k) then holders_of m k else holders_of m k @ [r]) m, c))"
  by (simp add: acquire_def held_def Let_def)

lemma powered_acquire:
  assumes "powered m (hal (effects c) v)"
  shows "powered (fst (acquire k r m c)) (hal (effects (snd (acquire k r m c))) v)"
proof -
  have p: "hal (effects c) v j \<longleftrightarrow> holders_of m j \<noteq> []" for j
    using assms by (simp add: powered_def)
  show ?thesis
    by (cases "holders_of m k = []") (simp_all add: acquire_cases powered_def p hal_step_def)
qed

lemma powered_release:
  assumes "powered m (hal (effects c) v)"
  shows "powered (fst (sensor_release k r m c)) (hal (effects (snd (sensor_release k r m c))) v)"
proof (cases "map_of (holders m) k")
  case None
  with assms show ?thesis by (simp add: sensor_release_def)
next
  case (Some hs)
  have p: "hal (effects c) v j \<longleftrightarrow> (if j = k then hs \<noteq> [] else holders_of m j \<noteq> [])" for j
    using assms release_cases(2)[OF Some] by (simp add: powered_def)
  show ?thesis
  proof (cases "filter (\<lambda>x. x \<noteq> r) hs = [] \<and> hs \<noteq> []")
    case True
    then show ?thesis
      unfolding powered_def release_cases(1)[OF Some] by (simp add: p hal_step_def)
  next
    case False
    then have "filter (\<lambda>x. x \<noteq> r) hs \<noteq> [] \<longleftrightarrow> hs \<noteq> []"
      by auto
    with False show ?thesis
      unfolding powered_def release_cases(1)[OF Some] by (simp only: if_False fst_conv snd_conv p holders_of_held) simp
  qed
qed

lemma powered_release_fold:
  "powered m (hal (effects c) v) \<Longrightarrow>
   (let (m', c') = fold (\<lambda>k (m, c). sensor_release k r m c) ks (m, c) in powered m' (hal (effects c') v))"
proof (induction ks arbitrary: m c)
  case Nil
  then show ?case by simp
next
  case (Cons k ks)
  show ?case
    using Cons.IH[OF powered_release[OF Cons.prems, of k r]] by simp
qed

lemma holders_release_fold:
  "holders_of (fst (fold (\<lambda>k (m, c). sensor_release k r m c) ks (m, c))) j =
     (if j \<in> set ks then filter (\<lambda>x. x \<noteq> r) (holders_of m j) else holders_of m j)"
proof (induction ks arbitrary: m c)
  case Nil
  then show ?case by simp
next
  case (Cons k ks)
  show ?case
    using Cons.IH[of "fst (sensor_release k r m c)" "snd (sensor_release k r m c)"]
    by (simp add: holders_of_release)
qed

lemma powered_release_all:
  "powered m (hal (effects c) v) \<Longrightarrow>
   powered (fst (release_all r m c)) (hal (effects (snd (release_all r m c))) v)"
  using powered_release_fold[of m c v r "map fst (filter (\<lambda>(_, hs). r \<in> set hs) (holders m))"]
  by (simp add: release_all_def case_prod_beta)

lemma holders_of_release_all:
  "holders_of (fst (release_all r m c)) j = filter (\<lambda>x. x \<noteq> r) (holders_of m j)"
proof -
  let ?ks = "map fst (filter (\<lambda>(_, hs). r \<in> set hs) (holders m))"
  have "r \<notin> set (holders_of m j)" if "j \<notin> set ?ks"
  proof (cases "map_of (holders m) j")
    case None
    then show ?thesis by (simp add: holders_of_def)
  next
    case (Some hs)
    then have "(j, hs) \<in> set (holders m)" by (rule map_of_SomeD)
    with that Some show ?thesis by (force simp: holders_of_def)
  qed
  then show ?thesis
    unfolding release_all_def holders_release_fold
    by (cases "j \<in> set ?ks") (simp_all only: if_True if_False, metis (mono_tags, lifting) filter_True)
qed

lemma translate_proximity_frame:
  "holders (fst (translate_proximity x m c)) = holders m" "effects (snd (translate_proximity x m c)) = effects c"
  "store (snd (translate_proximity x m c)) = store c"
  by (auto simp: translate_proximity_def Let_def split: option.split)

lemma powered_reading:
  "powered m (hal (effects c) v) \<Longrightarrow>
   powered (fst (on_reading k x y z ts m c)) (hal (effects (snd (on_reading k x y z ts m c))) v)"
  by (auto simp: on_reading_def powered_def holders_of_def translate_proximity_frame Let_def)

section \<open>Properties\<close>

text \<open>
  C27. A sensor is powered exactly while somebody holds it: the \<open>SetSensor\<close> effects,
  executed in order, switch the hardware on with the first holder and off with the last one,
  over every event and every command.
\<close>

theorem powered_while_held:
  assumes "powered m (hal (effects c) v)"
  shows "powered (fst (sensors_on_event ev m c)) (hal (effects (snd (sensors_on_event ev m c))) v)
    \<and> powered (fst (snd (sensors_on_command verb args m c)))
        (hal (effects (snd (snd (sensors_on_command verb args m c)))) v)"
proof
  show "powered (fst (sensors_on_event ev m c)) (hal (effects (snd (sensors_on_event ev m c))) v)"
    using assms by (cases ev)
      (simp_all add: sensors_on_event_def powered_acquire powered_release powered_reading powered_release_all)
  have "powered m (hal (effects (snd (snd (cmd_report_sensor args m c)))) v)"
    "fst (snd (cmd_report_sensor args m c)) = m"
    "powered m (hal (effects (snd (snd (cmd_report_sensor_descriptor args m c)))) v)"
    "fst (snd (cmd_report_sensor_descriptor args m c)) = m"
    using assms by (auto simp: cmd_report_sensor_def cmd_report_sensor_descriptor_def Let_def split: option.split)
  moreover have "powered (fst (snd (cmd_sensor_hold args m c))) (hal (effects (snd (snd (cmd_sensor_hold args m c)))) v)"
    using assms powered_acquire powered_release
    by (auto simp: cmd_sensor_hold_def Let_def split: option.split)
  ultimately show "powered (fst (snd (sensors_on_command verb args m c)))
        (hal (effects (snd (snd (sensors_on_command verb args m c)))) v)"
    using assms by (simp add: sensors_on_command_def)
qed

theorem powered_while_held_witness:
  "powered SensorsModule_new (hal (effects demo_ctx) (\<lambda>_. False))
    \<and> powered (fst (sensors_on_event (SensorAcquire Proximity 10) SensorsModule_new demo_ctx))
        ((\<lambda>_. False)(Proximity := True))"
proof -
  have "powered SensorsModule_new (hal (effects demo_ctx) (\<lambda>_. False))"
    by (simp add: powered_def holders_of_def SensorsModule_new_def demo_ctx_def)
  note p = this
  have "hal (effects (snd (sensors_on_event (SensorAcquire Proximity 10) SensorsModule_new demo_ctx))) (\<lambda>_. False)
      = (\<lambda>_. False)(Proximity := True)"
    by (simp add: sensors_on_event_def acquire_def holders_of_def SensorsModule_new_def demo_ctx_def
        hal_def hal_step_def Let_def)
  with p conjunct1[OF powered_while_held[OF p, of "SensorAcquire Proximity 10"]] show ?thesis
    by simp
qed

text \<open>
  When a process dies, its references and only its references are dropped, of every sensor.
\<close>

theorem dead_holder_released:
  "holders_of (fst (sensors_on_event (SurfaceRemoved p) m c)) k = filter (\<lambda>r. r \<noteq> p) (holders_of m k)"
  by (simp add: sensors_on_event_def holders_of_release_all)

text \<open>Readings in sequence, and the remembered state as a list of at most one value.\<close>

definition read_all :: "fp list \<Rightarrow> SensorsModule \<Rightarrow> Ctx \<Rightarrow> SensorsModule \<times> Ctx" where
  "read_all xs m c =
     fold (\<lambda>x (m, c). on_reading Proximity x (Fin False 0) (Fin False 0) 0 m c) xs (m, c)"

definition state_list :: "SensorsModule \<Rightarrow> bool list" where
  "state_list m = (case prox_near m of None \<Rightarrow> [] | Some b \<Rightarrow> [b])"

lemma reading_step:
  assumes "on_reading Proximity x y z ts m c = (m', c')"
  shows "\<exists>bs. events c' = events c @ map ProximityChanged bs \<and> distinct_adj (state_list m @ bs)
    \<and> state_list m' = (if bs = [] then state_list m else bs)"
proof (cases "prox_near m' = prox_near m")
  case True
  with assms show ?thesis
    by (intro exI[of _ "[]"])
      (auto simp: on_reading_def translate_proximity_def Let_def state_list_def split: option.splits if_splits)
next
  case False
  then obtain b where "prox_near m' = Some b" "events c' = events c @ [ProximityChanged b]"
    using assms by (auto simp: on_reading_def translate_proximity_def Let_def split: option.splits if_splits)
  with False show ?thesis
    by (intro exI[of _ "[b]"]) (auto simp: state_list_def split: option.splits)
qed

lemma readings_alternate:
  "\<exists>bs. events (snd (read_all xs m c)) = events c @ map ProximityChanged bs \<and> distinct_adj (state_list m @ bs)
    \<and> state_list (fst (read_all xs m c)) = (if bs = [] then state_list m else [last bs])"
proof (induction xs arbitrary: m c)
  case Nil
  show ?case
    by (intro exI[of _ "[]"]) (simp add: read_all_def state_list_def split: option.split)
next
  case (Cons x xs)
  obtain m1 c1 where 1: "on_reading Proximity x (Fin False 0) (Fin False 0) 0 m c = (m1, c1)"
    by (cases "on_reading Proximity x (Fin False 0) (Fin False 0) 0 m c")
  have r: "read_all (x # xs) m c = read_all xs m1 c1"
    by (simp add: read_all_def 1)
  obtain bs1 where b1: "events c1 = events c @ map ProximityChanged bs1" "distinct_adj (state_list m @ bs1)"
      "state_list m1 = (if bs1 = [] then state_list m else bs1)"
    using reading_step[OF 1] by blast
  obtain bs2 where b2: "events (snd (read_all xs m1 c1)) = events c1 @ map ProximityChanged bs2"
      "distinct_adj (state_list m1 @ bs2)"
      "state_list (fst (read_all xs m1 c1)) = (if bs2 = [] then state_list m1 else [last bs2])"
    using Cons.IH by blast
  have one: "bs1 = [] \<or> (\<exists>b. bs1 = [b])"
    using b1(3) by (auto simp: state_list_def split: option.splits if_splits)
  then show ?case
    unfolding r using b1 b2
    by (intro exI[of _ "bs1 @ bs2"]) (auto simp: state_list_def split: option.splits if_splits)
qed

text \<open>
  Proximity is debounced: over any sequence of readings the announced changes alternate
  between near and far, the first one differs from the remembered state, and the last one is
  remembered.
\<close>

theorem proximity_alternates:
  "\<exists>bs. events (snd (read_all xs m c)) = events c @ map ProximityChanged bs
    \<and> distinct_adj (state_list m @ bs)
    \<and> state_list (fst (read_all xs m c)) = (if bs = [] then state_list m else [last bs])"
  by (rule readings_alternate)

text \<open>
  The classified sensor has a dead band around the midpoint of its range: only a reading
  below the band turns it near, and only one at or above the end of the band turns it far.
\<close>

theorem proximity_hysteresis:
  assumes "sensor (store c) Proximity = Some s" "prox_near m = Some b"
    "mid = fmul f32 (max_range s) PROXIMITY_NEAR_FRACTION"
    "band = fmul f32 (max_range s) PROXIMITY_HYST_FRACTION"
  shows "prox_near (fst (translate_proximity x m c)) =
    (if \<not> flt (Fin False 0) (max_range s) then Some b
     else if b then Some (flt x (fadd f32 mid band)) else Some (flt x (fsub f32 mid band)))"
  using assms by (cases b) (auto simp: translate_proximity_def Let_def)

theorem proximity_hysteresis_witness:
  "let c = on_store (set_sensor_descriptor Proximity (Fin False 8) (Fin False 1)) demo_ctx;
       m = SensorsModule_new\<lparr>prox_near := Some True\<rparr>
   in prox_near (fst (translate_proximity (Inf False) m c)) = Some False"
proof -
  let ?c = "on_store (set_sensor_descriptor Proximity (Fin False 8) (Fin False 1)) demo_ctx"
  let ?m = "SensorsModule_new\<lparr>prox_near := Some True\<rparr>"
  let ?s = "SensorSlot_default\<lparr>max_range := Fin False 8, resolution := Fin False 1\<rparr>"
  have "sensor (store ?c) Proximity = Some ?s"
    by (simp add: set_sensor_descriptor_def demo_ctx_def demo_store_def Store_new_def sensor_def sensor_mut_def)
  moreover have "flt (Inf False) y = False" for y
    by (cases y) auto
  ultimately show ?thesis
    using proximity_hysteresis[of ?c ?s ?m True _ _ "Inf False", OF _ _ refl refl] by simp
qed

end
