(* ===== verification/PowerMod.thy ===== *)
theory PowerMod
  imports ShellSplit
begin

text \<open>
  The power module (\<open>wandr-arbiter-power\<close>): panel power, the proximity blank during a
  call, doze, automatic brightness and the screen-off timeout.  The parameter \<open>lg\<close> is
  \<open>f32::log10\<close>, whose last digits Rust leaves to the platform.  Durations and instants
  are in nanoseconds; \<open>elapsed\<close> saturates at zero, as the subtraction of natural
  numbers does.
\<close>

section \<open>State\<close>

definition DOZE_GRACE_MS :: nat where "DOZE_GRACE_MS = 60000"
definition DOZE_MAINTENANCE_MS :: u64 where "DOZE_MAINTENANCE_MS = 10000"
definition DOZE_SUSPEND_MS :: u64 where "DOZE_SUSPEND_MS = 60000"
definition DEFAULT_SCREEN_OFF_TIMEOUT_MS :: nat where "DEFAULT_SCREEN_OFF_TIMEOUT_MS = 60000"
definition ALS_WARM_GRACE_MS :: nat where "ALS_WARM_GRACE_MS = 120000"
definition MIN_FRACTION :: fp where "MIN_FRACTION = fp_of_rat f32 (4 / 100)"
definition MIN_STEP :: fp where "MIN_STEP = fp_of_rat f32 (3 / 100)"
definition FULL_SCALE_LUX :: fp where "FULL_SCALE_LUX = Fin False 600"
definition LIGHT_RATE_HZ :: u32 where "LIGHT_RATE_HZ = 5"

abbreviation f_one :: fp where "f_one \<equiv> Fin False 1"
abbreviation f_zero :: fp where "f_zero \<equiv> Fin False 0"

definition from_millis :: "nat \<Rightarrow> instant" where "from_millis ms = ms * 1000000"
definition as_millis :: "instant \<Rightarrow> nat" where "as_millis ns = ns div 1000000"

record PowerModule =
  screen_off_at :: "instant option"
  dozing :: bool
  bg_service :: "pid list"
  pw_comms :: "pid list"
  video_calls :: "pid list"
  blanked :: bool
  panel_on :: bool
  light_frac :: "fp option"
  manual_frac :: "fp option"
  last_applied_frac :: "fp option"
  full_scale_lux :: fp
  last_lux :: "fp option"
  last_activity :: "instant option"
  screen_off_timeout :: "instant option"
  light_on :: bool

definition PowerModule_new :: PowerModule where
  "PowerModule_new = \<lparr>screen_off_at = None, dozing = False, bg_service = [], pw_comms = [], video_calls = [],
     blanked = False, panel_on = True, light_frac = None, manual_frac = None, last_applied_frac = None,
     full_scale_lux = FULL_SCALE_LUX, last_lux = None, last_activity = None,
     screen_off_timeout = Some (from_millis DEFAULT_SCREEN_OFF_TIMEOUT_MS), light_on = False\<rparr>"

text \<open>\<open>Instant::now()\<close>.\<close>

definition now :: "Ctx \<Rightarrow> instant" where
  "now c = cl_mono (clock c)"

section \<open>Decisions\<close>

definition decide :: "nat option \<Rightarrow> bool \<Rightarrow> bool option" where
  "decide off_ms dz =
     (let dozing_now = (case off_ms of None \<Rightarrow> False | Some ms \<Rightarrow> DOZE_GRACE_MS \<le> ms)
      in if dozing_now \<noteq> dz then Some dozing_now else None)"

definition lux_to_fraction :: "(fp \<Rightarrow> fp) \<Rightarrow> fp \<Rightarrow> fp \<Rightarrow> fp" where
  "lux_to_fraction lg lux scale =
     (if fle scale f_zero then MIN_FRACTION
      else fclamp MIN_FRACTION f_one
        (fdiv f32 (lg (fadd f32 (fmax lux f_zero) f_one)) (lg (fadd f32 scale f_one))))"

definition idle_should_sleep :: "instant \<Rightarrow> instant \<Rightarrow> bool" where
  "idle_should_sleep idle timeout = (timeout \<le> idle)"

definition cadence_for :: "PowerModule \<Rightarrow> pid \<Rightarrow> u64" where
  "cadence_for m p =
     (if p \<in> set (pw_comms m) then 0
      else if p \<in> set (bg_service m) then DOZE_MAINTENANCE_MS
      else DOZE_SUSPEND_MS)"

definition auto_brightness_active :: "PowerModule \<Rightarrow> bool" where
  "auto_brightness_active m = (panel_on m \<and> \<not> blanked m \<and> manual_frac m = None)"

definition light_should_be_warm :: "instant \<Rightarrow> PowerModule \<Rightarrow> bool" where
  "light_should_be_warm t m =
     (if manual_frac m \<noteq> None then False
      else if panel_on m then True
      else case screen_off_at m of
             Some off \<Rightarrow> t - off < from_millis ALS_WARM_GRACE_MS
           | None \<Rightarrow> True)"

section \<open>Panel, backlight and light sensor\<close>

definition reconcile_light :: "PowerModule \<Rightarrow> Ctx \<Rightarrow> PowerModule \<times> Ctx" where
  "reconcile_light m c =
     (let want = light_should_be_warm (now c) m in
      if want \<noteq> light_on m
      then (m\<lparr>light_on := want\<rparr>, request (SetSensor Light want LIGHT_RATE_HZ) c)
      else (m, c))"

definition reassert_backlight :: "PowerModule \<Rightarrow> Ctx \<Rightarrow> PowerModule \<times> Ctx" where
  "reassert_backlight m c =
     (if \<not> panel_on m \<or> blanked m then (m, c)
      else case (case manual_frac m of Some f \<Rightarrow> Some f | None \<Rightarrow> light_frac m) of
             None \<Rightarrow> (m, c)
           | Some fr \<Rightarrow>
               (m\<lparr>last_applied_frac := Some fr\<rparr>, request (SetBacklight fr (manual_frac m = None)) c))"

definition apply_auto_brightness :: "PowerModule \<Rightarrow> Ctx \<Rightarrow> PowerModule \<times> Ctx" where
  "apply_auto_brightness m c =
     (if \<not> auto_brightness_active m then (m, c)
      else case light_frac m of
             None \<Rightarrow> (m, c)
           | Some fr \<Rightarrow>
               if (case last_applied_frac m of None \<Rightarrow> False
                   | Some la \<Rightarrow> flt (fabs (fsub f32 fr la)) MIN_STEP)
               then (m, c)
               else (m\<lparr>last_applied_frac := Some fr\<rparr>, request (SetBacklight fr True) c))"

definition on_light :: "(fp \<Rightarrow> fp) \<Rightarrow> fp \<Rightarrow> PowerModule \<Rightarrow> Ctx \<Rightarrow> PowerModule \<times> Ctx" where
  "on_light lg lux m c =
     apply_auto_brightness
       (m\<lparr>last_lux := Some lux, light_frac := Some (lux_to_fraction lg lux (full_scale_lux m))\<rparr>) c"

definition set_panel_on :: "bool \<Rightarrow> PowerModule \<Rightarrow> Ctx \<Rightarrow> PowerModule \<times> Ctx" where
  "set_panel_on on m c =
     (let m1 = m\<lparr>panel_on := on\<rparr>;
          c1 = (if \<not> blanked m1 then request (SetDisplayPower on) c else c);
          (m2, c2) =
            (if on
             then (let (m', c') = reassert_backlight m1 c1 in (m'\<lparr>last_activity := Some (now c')\<rparr>, c'))
             else (m1, c1));
          c3 = emit (ScreenState on) c2
      in reconcile_light m2 c3)"

definition set_panel_blanked :: "bool \<Rightarrow> PowerModule \<Rightarrow> Ctx \<Rightarrow> PowerModule \<times> Ctx" where
  "set_panel_blanked blank m c =
     (let on = (if blank then False else panel_on m);
          c1 = request (SetDisplayPower on) c;
          c2 = fold (\<lambda>a. deliver_to_host (a_pid a) (''input-suppress '' @ show_bit blank @ [CHR 0x0A]))
                 (apps_snapshot (store c1)) c1
      in (m\<lparr>blanked := blank\<rparr>, c2))"

definition ensure_unblanked :: "PowerModule \<Rightarrow> Ctx \<Rightarrow> PowerModule \<times> Ctx" where
  "ensure_unblanked m c =
     (if blanked m
      then (let (m1, c1) = set_panel_blanked False m c in reassert_backlight m1 c1)
      else (m, c))"

section \<open>Commands\<close>

definition panel_on_off :: "bool \<Rightarrow> string" where
  "panel_on_off b = (if b then ''on'' else ''off'')"

definition cmd_power_key :: "string \<Rightarrow> PowerModule \<Rightarrow> Ctx \<Rightarrow> Reply \<times> PowerModule \<times> Ctx" where
  "cmd_power_key args m c =
     (let on = (\<not> panel_on m) in (Ok (''panel '' @ panel_on_off on), set_panel_on on m c))"

definition cmd_panel :: "string \<Rightarrow> PowerModule \<Rightarrow> Ctx \<Rightarrow> Reply \<times> PowerModule \<times> Ctx" where
  "cmd_panel args m c =
     (let t = nth_opt (split_ws args) 0 in
      if t = Some ''on'' \<or> t = Some ''1'' then (Ok ''panel on'', set_panel_on True m c)
      else if t = Some ''off'' \<or> t = Some ''0'' then (Ok ''panel off'', set_panel_on False m c)
      else (Err (''panel-args: expected on|off, got '' @ opt_debug t), m, c))"

definition cmd_report_class :: "string \<Rightarrow> PowerModule \<Rightarrow> Ctx \<Rightarrow> Reply \<times> PowerModule \<times> Ctx" where
  "cmd_report_class args m c =
     (let t = split_ws args in
      case (nth_opt t 0, nth_opt t 1) of
        (Some ps, Some cls) \<Rightarrow>
          (case parse_i32 ps of
             None \<Rightarrow> (Err (''report-power-class-bad-pid '' @ ps), m, c)
           | Some p \<Rightarrow>
               (Ok (''power-class pid='' @ show_int p @ '' class='' @ cls),
                (if cls = ''bg-service'' then m\<lparr>bg_service := List.insert p (bg_service m)\<rparr>
                 else m\<lparr>bg_service := removeAll p (bg_service m)\<rparr>), c))
      | _ \<Rightarrow> (Err ''report-power-class-args: expected <pid> <bg-service|normal>'', m, c))"

definition cmd_brightness :: "string \<Rightarrow> PowerModule \<Rightarrow> Ctx \<Rightarrow> Reply \<times> PowerModule \<times> Ctx" where
  "cmd_brightness args m c =
     (case nth_opt (split_ws args) 0 of
        None \<Rightarrow> (Err ''brightness-usage: brightness <auto|0.0..1.0>'', m, c)
      | Some tok \<Rightarrow>
          if tok = ''auto''
          then (Ok ''brightness auto'', reassert_backlight (m\<lparr>manual_frac := None\<rparr>) c)
          else
            (case parse_fp f32 tok of
               Some f \<Rightarrow>
                 if fle f_zero f \<and> fle f f_one
                 then (Ok (''brightness '' @ show_fp f32 f),
                       let m1 = m\<lparr>manual_frac := Some f\<rparr> in
                       if panel_on m1 \<and> \<not> blanked m1
                       then (m1\<lparr>last_applied_frac := Some f\<rparr>, request (SetBacklight f False) c)
                       else (m1, c))
                 else (Err ''brightness-args: expected auto|0.0..1.0'', m, c)
             | None \<Rightarrow> (Err ''brightness-args: expected auto|0.0..1.0'', m, c)))"

definition cmd_brightness_scale ::
  "(fp \<Rightarrow> fp) \<Rightarrow> string \<Rightarrow> PowerModule \<Rightarrow> Ctx \<Rightarrow> Reply \<times> PowerModule \<times> Ctx" where
  "cmd_brightness_scale lg args m c =
     (case nth_opt (split_ws args) 0 of
        None \<Rightarrow> (Err ''brightness-scale-usage: brightness-scale <lux>'', m, c)
      | Some tok \<Rightarrow>
          (case parse_fp f32 tok of
             None \<Rightarrow> (Err (''brightness-scale-bad-lux '' @ str_debug tok), m, c)
           | Some lux \<Rightarrow>
               if fle lux f_zero then (Err ''brightness-scale: lux must be > 0'', m, c)
               else
                 (let m1 = m\<lparr>full_scale_lux := lux\<rparr> in
                  (Ok (''brightness-scale '' @ show_fp f32 lux),
                   case last_lux m1 of
                     None \<Rightarrow> (m1, c)
                   | Some la \<Rightarrow>
                       (let m2 = m1\<lparr>light_frac := Some (lux_to_fraction lg la (full_scale_lux m1))\<rparr>
                        in if manual_frac m2 = None then reassert_backlight m2 c else (m2, c))))))"

definition cmd_user_activity :: "string \<Rightarrow> PowerModule \<Rightarrow> Ctx \<Rightarrow> Reply \<times> PowerModule \<times> Ctx" where
  "cmd_user_activity args m c = (Ok ''user-activity'', m\<lparr>last_activity := Some (now c)\<rparr>, c)"

definition cmd_screen_timeout :: "string \<Rightarrow> PowerModule \<Rightarrow> Ctx \<Rightarrow> Reply \<times> PowerModule \<times> Ctx" where
  "cmd_screen_timeout args m c =
     (case nth_opt (split_ws args) 0 of
        None \<Rightarrow> (Err ''screen-timeout-usage: screen-timeout <ms|off>'', m, c)
      | Some tok \<Rightarrow>
          if tok = ''off'' \<or> tok = ''none'' \<or> tok = ''0''
          then (Ok ''screen-timeout off'', m\<lparr>screen_off_timeout := None\<rparr>, c)
          else
            (case parse_u64 tok of
               None \<Rightarrow> (Err ''screen-timeout-args: expected <ms|off>'', m, c)
             | Some ms \<Rightarrow>
                 (Ok (''screen-timeout '' @ show_u64 ms),
                  m\<lparr>screen_off_timeout := Some (from_millis (unat ms)), last_activity := Some (now c)\<rparr>, c)))"

definition power_verbs :: "string list" where
  "power_verbs = [''report-power-class'', ''power-key'', ''panel'', ''brightness'', ''brightness-scale'',
     ''user-activity'', ''screen-timeout'']"

definition power_on_command ::
  "(fp \<Rightarrow> fp) \<Rightarrow> string \<Rightarrow> string \<Rightarrow> PowerModule \<Rightarrow> Ctx \<Rightarrow> Reply \<times> PowerModule \<times> Ctx" where
  "power_on_command lg verb args m c =
     (if verb = ''report-power-class'' then cmd_report_class args m c
      else if verb = ''power-key'' then cmd_power_key args m c
      else if verb = ''panel'' then cmd_panel args m c
      else if verb = ''brightness'' then cmd_brightness args m c
      else if verb = ''brightness-scale'' then cmd_brightness_scale lg args m c
      else if verb = ''user-activity'' then cmd_user_activity args m c
      else if verb = ''screen-timeout'' then cmd_screen_timeout args m c
      else (Err (''power-unknown-verb '' @ verb), m, c))"

section \<open>Events\<close>

definition doze_line :: "u64 \<Rightarrow> string" where
  "doze_line cad = ''doze '' @ show_u64 cad @ [CHR 0x0A]"

definition on_screen_state :: "bool \<Rightarrow> PowerModule \<Rightarrow> Ctx \<Rightarrow> PowerModule \<times> Ctx" where
  "on_screen_state live m c =
     (let m1 = (if live then m\<lparr>screen_off_at := None\<rparr>
                else if screen_off_at m = None then m\<lparr>screen_off_at := Some (now c)\<rparr>
                else m);
          off_ms = map_option (\<lambda>t. as_millis (now c - t)) (screen_off_at m1)
      in case decide off_ms (dozing m1) of
           None \<Rightarrow> (m1, c)
         | Some nd \<Rightarrow>
             (let m2 = m1\<lparr>dozing := nd\<rparr>
              in (m2, fold (\<lambda>a. deliver_to_host (a_pid a)
                             (doze_line (if nd then cadence_for m2 (a_pid a) else 0)))
                        (apps_snapshot (store c)) c)))"

definition on_idle_tick :: "PowerModule \<Rightarrow> Ctx \<Rightarrow> PowerModule \<times> Ctx" where
  "on_idle_tick m c =
     (let (m1, c1) = reconcile_light m c in
      if \<not> panel_on m1 \<or> blanked m1 then (m1, c1)
      else if pw_comms m1 \<noteq> [] then (m1, c1)
      else case screen_off_timeout m1 of
        None \<Rightarrow> (m1, c1)
      | Some timeout \<Rightarrow>
          (case last_activity m1 of
             None \<Rightarrow> (m1\<lparr>last_activity := Some (now c1)\<rparr>, c1)
           | Some t \<Rightarrow>
               if idle_should_sleep (now c1 - t) timeout then set_panel_on False m1 c1 else (m1, c1)))"

definition on_power_removed :: "pid \<Rightarrow> PowerModule \<Rightarrow> Ctx \<Rightarrow> PowerModule \<times> Ctx" where
  "on_power_removed p m c =
     (let m1 = m\<lparr>video_calls := removeAll p (video_calls m), bg_service := removeAll p (bg_service m),
                 pw_comms := removeAll p (pw_comms m)\<rparr>
      in if pw_comms m1 = [] then ensure_unblanked m1 c else (m1, c))"

definition on_comms :: "pid \<Rightarrow> bool \<Rightarrow> PowerModule \<Rightarrow> Ctx \<Rightarrow> PowerModule \<times> Ctx" where
  "on_comms p active m c =
     (let m1 = (if \<not> active then m\<lparr>video_calls := removeAll p (video_calls m)\<rparr> else m);
          m2 = (if active then m1\<lparr>pw_comms := List.insert p (pw_comms m1)\<rparr>
                else m1\<lparr>pw_comms := removeAll p (pw_comms m1)\<rparr>);
          (m3, c3) = (if \<not> active \<and> pw_comms m2 = [] then ensure_unblanked m2 c else (m2, c));
          c4 = emit (if active then SensorAcquire Proximity p else SensorRelease Proximity p) c3
      in (m3, if dozing m3 then deliver_to_host p (doze_line (cadence_for m3 p)) c4 else c4))"

definition on_video :: "pid \<Rightarrow> bool \<Rightarrow> PowerModule \<Rightarrow> Ctx \<Rightarrow> PowerModule \<times> Ctx" where
  "on_video p active m c =
     (if active
      then (let m1 = m\<lparr>video_calls := List.insert p (video_calls m)\<rparr>
            in if blanked m1 then ensure_unblanked m1 c else (m1, c))
      else (m\<lparr>video_calls := removeAll p (video_calls m)\<rparr>, c))"

definition on_proximity :: "bool \<Rightarrow> PowerModule \<Rightarrow> Ctx \<Rightarrow> PowerModule \<times> Ctx" where
  "on_proximity near m c =
     (let in_call = (pw_comms m \<noteq> [] \<and> video_calls m = []) in
      if in_call \<and> near \<and> \<not> blanked m then set_panel_blanked True m c
      else if \<not> near \<and> blanked m then ensure_unblanked m c
      else if \<not> in_call \<and> blanked m then ensure_unblanked m c
      else (m, c))"

definition power_on_event :: "(fp \<Rightarrow> fp) \<Rightarrow> Event \<Rightarrow> PowerModule \<Rightarrow> Ctx \<Rightarrow> PowerModule \<times> Ctx" where
  "power_on_event lg ev m c =
     (case ev of
        ScreenState live \<Rightarrow> on_screen_state live m c
      | SurfaceRemoved p \<Rightarrow> on_power_removed p m c
      | CommsActive p active \<Rightarrow> on_comms p active m c
      | VideoCallActive p active \<Rightarrow> on_video p active m c
      | ProximityChanged near \<Rightarrow> on_proximity near m c
      | SensorReading k x y z ts \<Rightarrow> if k = Light then on_light lg x m c else (m, c)
      | IdleTick \<Rightarrow> on_idle_tick m c
      | _ \<Rightarrow> (m, c))"

section \<open>Lemmas\<close>

lemma MIN_FRACTION_value: "MIN_FRACTION = Fin False (10737418 / 2 ^ 28)"
proof -
  have "rnd f32 (4 / 100) = Some (10737418 / 2 ^ 28)"
    by (subst rnd_at[where e = "-28"])
      (simp_all add: f32_def powb_def round_even_near[of 10737418] Let_def)
  then show ?thesis
    by (simp add: MIN_FRACTION_def fp_of_rat_def mk_signed_def mk_def)
qed

lemma MIN_STEP_value: "MIN_STEP = Fin False (16106127 / 2 ^ 29)"
proof -
  have "rnd f32 (3 / 100) = Some (16106127 / 2 ^ 29)"
    by (subst rnd_at[where e = "-29"])
      (simp_all add: f32_def powb_def round_even_near[of 16106127] Let_def)
  then show ?thesis
    by (simp add: MIN_STEP_def fp_of_rat_def mk_signed_def mk_def)
qed

text \<open>The panel after the effects are executed in order.\<close>

definition panel_step :: "Effect \<Rightarrow> bool \<Rightarrow> bool" where
  "panel_step e v = (case e of SetDisplayPower on \<Rightarrow> on | _ \<Rightarrow> v)"

definition panel :: "Effect list \<Rightarrow> bool \<Rightarrow> bool" where
  "panel es v = fold panel_step es v"

lemma panel_simps [simp]:
  "panel (es @ fs) v = panel fs (panel es v)" "panel (e # es) v = panel es (panel_step e v)" "panel [] v = v"
  "panel_step (SetDisplayPower on) v = on" "panel_step (SetBacklight l s) v = v"
  "panel_step (SetSensor k on hz) v = v" "panel_step (HostLine p txt) v = v"
  by (simp_all add: panel_def panel_step_def)

lemma panel_lines [simp]: "panel (map (\<lambda>a. HostLine (g a) (l a)) as) v = v"
  by (induction as) simp_all

lemma deliver_fold [simp]:
  "effects (fold (\<lambda>a. deliver_to_host (g a) (l a)) as c) = effects c @ map (\<lambda>a. HostLine (g a) (l a)) as"
  "store (fold (\<lambda>a. deliver_to_host (g a) (l a)) as c) = store c"
  "events (fold (\<lambda>a. deliver_to_host (g a) (l a)) as c) = events c"
  "clock (fold (\<lambda>a. deliver_to_host (g a) (l a)) as c) = clock c"
  by (induction as arbitrary: c) simp_all

lemma insert_not_Nil [simp]: "List.insert x xs \<noteq> []"
  by (auto simp: List.insert_def)

text \<open>
  The blank is only ever up during a voice call, and the panel is lit exactly when the user has
  it on and it is not blanked.
\<close>

definition power_ok :: "PowerModule \<Rightarrow> bool \<Rightarrow> bool" where
  "power_ok m hw \<longleftrightarrow> (blanked m \<longrightarrow> pw_comms m \<noteq> [] \<and> video_calls m = [])
     \<and> (hw \<longleftrightarrow> panel_on m \<and> \<not> blanked m)"

text \<open>What the backlight and light-sensor helpers leave alone.\<close>

lemma reconcile_light_frame [simp]:
  "panel (effects (snd (reconcile_light m c))) v = panel (effects c) v"
  "blanked (fst (reconcile_light m c)) = blanked m" "panel_on (fst (reconcile_light m c)) = panel_on m"
  "pw_comms (fst (reconcile_light m c)) = pw_comms m" "video_calls (fst (reconcile_light m c)) = video_calls m"
  "screen_off_timeout (fst (reconcile_light m c)) = screen_off_timeout m"
  "last_activity (fst (reconcile_light m c)) = last_activity m"
  "events (snd (reconcile_light m c)) = events c" "clock (snd (reconcile_light m c)) = clock c"
  "store (snd (reconcile_light m c)) = store c"
  by (simp_all add: reconcile_light_def Let_def)

lemma reassert_frame [simp]:
  "panel (effects (snd (reassert_backlight m c))) v = panel (effects c) v"
  "blanked (fst (reassert_backlight m c)) = blanked m" "panel_on (fst (reassert_backlight m c)) = panel_on m"
  "pw_comms (fst (reassert_backlight m c)) = pw_comms m"
  "video_calls (fst (reassert_backlight m c)) = video_calls m"
  "events (snd (reassert_backlight m c)) = events c" "clock (snd (reassert_backlight m c)) = clock c"
  "store (snd (reassert_backlight m c)) = store c"
  by (simp_all add: reassert_backlight_def split: option.split)

lemma apply_auto_frame [simp]:
  "panel (effects (snd (apply_auto_brightness m c))) v = panel (effects c) v"
  "blanked (fst (apply_auto_brightness m c)) = blanked m"
  "panel_on (fst (apply_auto_brightness m c)) = panel_on m"
  "pw_comms (fst (apply_auto_brightness m c)) = pw_comms m"
  "video_calls (fst (apply_auto_brightness m c)) = video_calls m"
  "events (snd (apply_auto_brightness m c)) = events c" "store (snd (apply_auto_brightness m c)) = store c"
  by (simp_all add: apply_auto_brightness_def split: option.split)

lemma set_panel_on_spec:
  "panel (effects (snd (set_panel_on on m c))) v = (if blanked m then panel (effects c) v else on)"
  "blanked (fst (set_panel_on on m c)) = blanked m" "panel_on (fst (set_panel_on on m c)) = on"
  "pw_comms (fst (set_panel_on on m c)) = pw_comms m" "video_calls (fst (set_panel_on on m c)) = video_calls m"
  "events (snd (set_panel_on on m c)) = events c @ [ScreenState on]"
  "store (snd (set_panel_on on m c)) = store c"
  by (simp_all add: set_panel_on_def Let_def case_prod_beta)

lemma set_panel_blanked_spec:
  "panel (effects (snd (set_panel_blanked b m c))) v \<longleftrightarrow> \<not> b \<and> panel_on m"
  "fst (set_panel_blanked b m c) = m\<lparr>blanked := b\<rparr>"
  "events (snd (set_panel_blanked b m c)) = events c" "store (snd (set_panel_blanked b m c)) = store c"
  by (simp_all add: set_panel_blanked_def Let_def)

lemma ensure_unblanked_spec:
  "blanked (fst (ensure_unblanked m c)) = False" "panel_on (fst (ensure_unblanked m c)) = panel_on m"
  "pw_comms (fst (ensure_unblanked m c)) = pw_comms m"
  "video_calls (fst (ensure_unblanked m c)) = video_calls m"
  "panel (effects (snd (ensure_unblanked m c))) v = (if blanked m then panel_on m else panel (effects c) v)"
  "events (snd (ensure_unblanked m c)) = events c" "store (snd (ensure_unblanked m c)) = store c"
  by (simp_all add: ensure_unblanked_def case_prod_beta set_panel_blanked_spec)

lemmas power_specs = set_panel_on_spec set_panel_blanked_spec ensure_unblanked_spec

lemma power_ok_set_panel:
  "power_ok m (panel (effects c) hw) \<Longrightarrow>
   power_ok (fst (set_panel_on on m c)) (panel (effects (snd (set_panel_on on m c))) hw)"
  by (auto simp: power_ok_def power_specs)

lemma power_ok_cong:
  "power_ok m hw \<Longrightarrow> blanked m' = blanked m \<Longrightarrow> panel_on m' = panel_on m \<Longrightarrow> pw_comms m' = pw_comms m \<Longrightarrow>
   video_calls m' = video_calls m \<Longrightarrow> power_ok m' hw"
  by (simp add: power_ok_def)

lemma power_ok_event:
  assumes "power_ok m (panel (effects c) hw)"
  shows "power_ok (fst (power_on_event lg ev m c)) (panel (effects (snd (power_on_event lg ev m c))) hw)"
proof (cases ev)
  case (ScreenState live)
  with assms show ?thesis
    by (auto simp: power_on_event_def on_screen_state_def power_ok_def Let_def split: option.split)
next
  case (SurfaceRemoved p)
  with assms show ?thesis
    by (auto simp: power_on_event_def on_power_removed_def power_ok_def power_specs Let_def)
next
  case (CommsActive p active)
  with assms show ?thesis
    by (auto simp: power_on_event_def on_comms_def power_ok_def power_specs Let_def case_prod_beta)
next
  case (VideoCallActive p active)
  with assms show ?thesis
    by (auto simp: power_on_event_def on_video_def power_ok_def power_specs Let_def)
next
  case (ProximityChanged near)
  with assms show ?thesis
    by (auto simp: power_on_event_def on_proximity_def power_ok_def power_specs Let_def)
next
  case (SensorReading k x y z ts)
  with assms show ?thesis
    by (auto simp: power_on_event_def on_light_def power_ok_def)
next
  case IdleTick
  obtain m1 c1 where 1: "reconcile_light m c = (m1, c1)"
    by (cases "reconcile_light m c")
  have ok: "power_ok m1 (panel (effects c1) hw)"
    using assms 1 reconcile_light_frame[of m c] by (simp add: power_ok_def)
  have "power_on_event lg IdleTick m c \<in> {(m1, c1), (m1\<lparr>last_activity := Some (now c1)\<rparr>, c1), set_panel_on False m1 c1}"
    by (simp add: power_on_event_def on_idle_tick_def 1 split: option.split)
  moreover have "power_ok (m1\<lparr>last_activity := Some (now c1)\<rparr>) (panel (effects c1) hw)"
    using ok by (simp add: power_ok_def)
  ultimately show ?thesis
    using ok power_ok_set_panel[OF ok, of False] IdleTick by (auto simp del: panel_simps)
qed (use assms in \<open>simp_all add: power_on_event_def\<close>)

lemma power_ok_command:
  assumes "power_ok m (panel (effects c) hw)"
  shows "power_ok (fst (snd (power_on_command lg verb args m c)))
    (panel (effects (snd (snd (power_on_command lg verb args m c)))) hw)"
proof -
  have b: "power_ok (fst (snd (cmd_brightness args m c))) (panel (effects (snd (snd (cmd_brightness args m c)))) hw)"
    using assms by (auto simp: cmd_brightness_def power_ok_def Let_def split: option.split)
  have s: "power_ok (fst (snd (cmd_brightness_scale lg args m c)))
      (panel (effects (snd (snd (cmd_brightness_scale lg args m c)))) hw)"
    using assms by (auto simp: cmd_brightness_scale_def power_ok_def Let_def split: option.split)
  have "power_ok (fst (snd (cmd_report_class args m c))) (panel (effects (snd (snd (cmd_report_class args m c)))) hw)"
    "power_ok (fst (snd (cmd_user_activity args m c))) (panel (effects (snd (snd (cmd_user_activity args m c)))) hw)"
    "power_ok (fst (snd (cmd_screen_timeout args m c))) (panel (effects (snd (snd (cmd_screen_timeout args m c)))) hw)"
    using assms by (auto simp: cmd_report_class_def cmd_user_activity_def cmd_screen_timeout_def
        power_ok_def Let_def split: option.split)
  with b s show ?thesis
    using assms power_ok_set_panel
    by (auto simp: power_on_command_def cmd_power_key_def cmd_panel_def Let_def)
qed

section \<open>Properties\<close>

text \<open>
  C26. The panel is never stuck dark: the \<open>SetDisplayPower\<close> effects, executed in order,
  leave it lit exactly when the user has it on and proximity has not blanked it, and it is only
  ever blanked during a voice call, through every event and every command.
\<close>

theorem panel_never_stuck:
  assumes "power_ok m (panel (effects c) hw)"
  shows "power_ok (fst (power_on_event lg ev m c)) (panel (effects (snd (power_on_event lg ev m c))) hw)
    \<and> power_ok (fst (snd (power_on_command lg verb args m c)))
        (panel (effects (snd (snd (power_on_command lg verb args m c)))) hw)"
  using power_ok_event[OF assms] power_ok_command[OF assms] by blast

theorem panel_never_stuck_witness:
  "let m = PowerModule_new\<lparr>pw_comms := [10]\<rparr>
   in \<not> panel (effects (snd (power_on_event id (ProximityChanged True) m demo_ctx))) True"
proof -
  let ?m = "PowerModule_new\<lparr>pw_comms := [10]\<rparr>"
  have "power_ok ?m (panel (effects demo_ctx) True)"
    by (simp add: power_ok_def PowerModule_new_def demo_ctx_def)
  from conjunct1[OF panel_never_stuck[OF this, of id "ProximityChanged True"]] show ?thesis
    by (simp add: power_ok_def power_on_event_def on_proximity_def set_panel_blanked_spec
        PowerModule_new_def)
qed

text \<open>
  Doze is decided once a screen has been off for the grace of a minute and told only on a
  change: every app is sent its own cadence on entry (none to one in a call), zero on exit.
\<close>

theorem doze_fanned_on_change:
  "let (m', c') = power_on_event lg (ScreenState live) m c;
       off = (if live then None else Some (or_default (now c) (screen_off_at m)));
       dz = (case off of None \<Rightarrow> False | Some t \<Rightarrow> 60000000000 \<le> now c - t)
   in screen_off_at m' = off \<and> dozing m' = dz
    \<and> effects c' = effects c @ (if dz = dozing m then [] else
        map (\<lambda>a. HostLine (a_pid a) (doze_line (if dz then cadence_for m (a_pid a) else 0)))
          (apps_snapshot (store c)))"
proof -
  have "60000 \<le> ns div 1000000 \<longleftrightarrow> 60000000000 \<le> ns" for ns :: nat
    by (simp add: less_eq_div_iff_mult_less_eq)
  moreover have "cadence_for (m\<lparr>screen_off_at := x, dozing := d\<rparr>) = cadence_for m" for x d
    by (simp add: fun_eq_iff cadence_for_def)
  moreover have "cadence_for (m\<lparr>dozing := d\<rparr>) = cadence_for m" for d
    by (simp add: fun_eq_iff cadence_for_def)
  ultimately show ?thesis
    by (auto simp: power_on_event_def on_screen_state_def decide_def DOZE_GRACE_MS_def as_millis_def
        Let_def split: option.split)
qed

text \<open>
  The inactivity tick puts the panel to sleep exactly when it is on and not blanked, no call
  is up, and the last input is at least the timeout ago.
\<close>

theorem idle_sleep_exact:
  "let (m', c') = power_on_event lg IdleTick m c;
       sleeps = (panel_on m \<and> \<not> blanked m \<and> pw_comms m = [] \<and>
         (case (screen_off_timeout m, last_activity m) of
            (Some t, Some a) \<Rightarrow> t \<le> now c - a | _ \<Rightarrow> False))
   in events c' = events c @ (if sleeps then [ScreenState False] else [])
    \<and> panel_on m' = (panel_on m \<and> \<not> sleeps)"
  by (auto simp: power_on_event_def on_idle_tick_def idle_should_sleep_def power_specs now_def Let_def
      case_prod_beta split: option.split)

text \<open>Where a backlight level may come from.\<close>

definition lit_at :: "fp \<Rightarrow> bool \<Rightarrow> PowerModule \<Rightarrow> bool" where
  "lit_at l s m \<longleftrightarrow> panel_on m \<and> \<not> blanked m \<and> last_applied_frac m = Some l \<and> (s \<longleftrightarrow> manual_frac m = None)"

definition new_level :: "fp \<Rightarrow> bool \<Rightarrow> Ctx \<Rightarrow> Ctx \<Rightarrow> bool" where
  "new_level l s c c' \<longleftrightarrow> SetBacklight l s \<in> set (effects c') \<and> SetBacklight l s \<notin> set (effects c)"

lemma level_reassert: "new_level l s c (snd (reassert_backlight m c)) \<Longrightarrow> lit_at l s (fst (reassert_backlight m c))"
  by (auto simp: new_level_def lit_at_def reassert_backlight_def split: option.splits if_splits)

lemma level_auto: "new_level l s c (snd (apply_auto_brightness m c)) \<Longrightarrow> lit_at l s (fst (apply_auto_brightness m c))"
  by (auto simp: new_level_def lit_at_def apply_auto_brightness_def auto_brightness_active_def
      split: option.splits if_splits)

lemma level_reconcile:
  "SetBacklight l s \<in> set (effects (snd (reconcile_light m c))) \<longleftrightarrow> SetBacklight l s \<in> set (effects c)"
  "last_applied_frac (fst (reconcile_light m c)) = last_applied_frac m"
  "manual_frac (fst (reconcile_light m c)) = manual_frac m"
  by (auto simp: reconcile_light_def Let_def)

lemma level_set_panel: "new_level l s c (snd (set_panel_on on m c)) \<Longrightarrow> lit_at l s (fst (set_panel_on on m c))"
proof -
  let ?m = "m\<lparr>panel_on := on\<rparr>" and ?c = "if \<not> blanked m then request (SetDisplayPower on) c else c"
  assume n: "new_level l s c (snd (set_panel_on on m c))"
  show ?thesis
  proof (cases on)
    case True
    then have "new_level l s ?c (snd (reassert_backlight ?m ?c))"
      using n by (auto simp: new_level_def set_panel_on_def level_reconcile Let_def case_prod_beta split: if_splits)
    from level_reassert[OF this] True show ?thesis
      by (auto simp: lit_at_def set_panel_on_def level_reconcile Let_def case_prod_beta)
  next
    case False
    with n show ?thesis
      by (auto simp: new_level_def set_panel_on_def level_reconcile Let_def split: if_splits)
  qed
qed

lemma level_ensure: "new_level l s c (snd (ensure_unblanked m c)) \<Longrightarrow> lit_at l s (fst (ensure_unblanked m c))"
proof (cases "blanked m")
  case True
  assume "new_level l s c (snd (ensure_unblanked m c))"
  with True have "new_level l s (snd (set_panel_blanked False m c)) (snd (ensure_unblanked m c))"
    by (auto simp: new_level_def set_panel_blanked_def Let_def)
  with True show ?thesis
    using level_reassert by (simp add: ensure_unblanked_def case_prod_beta)
qed (simp add: ensure_unblanked_def new_level_def)

text \<open>
  A backlight level is only pushed while the panel is lit, is remembered as the reference of
  the dead band, and is tagged as coming from the sensor exactly when no manual level is set.
\<close>

theorem backlight_only_when_lit:
  assumes "new_level l s c (snd (power_on_event lg ev m c))"
  shows "lit_at l s (fst (power_on_event lg ev m c))"
proof (cases ev)
  case (ScreenState live)
  with assms show ?thesis
    by (auto simp: power_on_event_def on_screen_state_def new_level_def Let_def split: option.splits)
next
  case (SurfaceRemoved p)
  with assms show ?thesis
    using level_ensure by (auto simp: power_on_event_def on_power_removed_def Let_def new_level_def split: if_splits)
next
  case (CommsActive p active)
  with assms show ?thesis
    using level_ensure by (auto simp: power_on_event_def on_comms_def Let_def new_level_def case_prod_beta split: if_splits)
next
  case (VideoCallActive p active)
  with assms show ?thesis
    using level_ensure by (auto simp: power_on_event_def on_video_def Let_def new_level_def split: if_splits)
next
  case (ProximityChanged near)
  with assms show ?thesis
    using level_ensure by (auto simp: power_on_event_def on_proximity_def set_panel_blanked_def Let_def new_level_def
        split: if_splits)
next
  case (SensorReading k x y z ts)
  with assms show ?thesis
    using level_auto by (auto simp: power_on_event_def on_light_def new_level_def split: if_splits)
next
  case IdleTick
  with assms show ?thesis
    using level_set_panel[of l s "snd (reconcile_light m c)" False "fst (reconcile_light m c)"]
    by (auto simp: power_on_event_def on_idle_tick_def new_level_def level_reconcile Let_def case_prod_beta
        split: if_splits option.splits)
qed (use assms in \<open>simp_all add: power_on_event_def new_level_def\<close>)

theorem backlight_only_when_lit_witness:
  "let m = PowerModule_new\<lparr>light_frac := Some (Fin False (1 / 2))\<rparr>
   in lit_at (Fin False (1 / 2)) True (fst (power_on_event id (VideoCallActive 10 True)
        (m\<lparr>blanked := True\<rparr>) demo_ctx))"
proof -
  let ?m = "PowerModule_new\<lparr>light_frac := Some (Fin False (1 / 2)), blanked := True\<rparr>"
  have "new_level (Fin False (1 / 2)) True demo_ctx (snd (power_on_event id (VideoCallActive 10 True) ?m demo_ctx))"
    by (simp add: new_level_def power_on_event_def on_video_def ensure_unblanked_def set_panel_blanked_def
        reassert_backlight_def PowerModule_new_def demo_ctx_def Let_def)
  from backlight_only_when_lit[OF this] show ?thesis by simp
qed

text \<open>The automatic level is legible and at most full.\<close>

lemma fclamp_bounds:
  "fclamp (Fin False a) (Fin False b) x = NaN \<or>
   (a \<le> b \<longrightarrow> fle (Fin False a) (fclamp (Fin False a) (Fin False b) x)
      \<and> fle (fclamp (Fin False a) (Fin False b) x) (Fin False b))"
  by (cases x) (auto simp: fclamp_def fle_def Let_def)

text \<open>
  Whatever the logarithm returns, an ambient level that is a number lies between the
  legibility floor and full brightness.
\<close>

theorem auto_level_bounds:
  "lux_to_fraction lg lux scale = NaN
    \<or> fle MIN_FRACTION (lux_to_fraction lg lux scale) \<and> fle (lux_to_fraction lg lux scale) (Fin False 1)"
  using fclamp_bounds[of "10737418 / 2 ^ 28" 1]
  by (auto simp: lux_to_fraction_def MIN_FRACTION_value fle_def)

text \<open>
  \<open>brightness-scale nan\<close> passes the guard against a non-positive scale (every
  comparison with a NaN is false), and from then on each reading pushes a NaN level to the
  panel.
\<close>

theorem scale_nan_accepted:
  assumes "lg NaN = NaN" "auto_brightness_active m"
  shows "let (r, m1, c1) = power_on_command lg ''brightness-scale'' ''nan'' m c;
             (m2, c2) = power_on_event lg (SensorReading Light x y z ts) m1 c1
         in is_ok r \<and> SetBacklight NaN True \<in> set (effects c2) \<and> last_applied_frac m2 = Some NaN"
proof -
  have p: "nth_opt (split_ws ''nan'') 0 = Some ''nan''" "parse_fp f32 ''nan'' = Some NaN"
    by code_simp+
  have d: "fdiv f32 y NaN = NaN" for y
    by (cases y) simp_all
  have a: "fadd f32 NaN f_one = NaN" "fsub f32 NaN y = NaN" for y
    by (simp_all add: fsub_def)
  have n: "lux_to_fraction lg x NaN = NaN" for x
    by (simp add: lux_to_fraction_def fle_def a assms(1) d fclamp_def)
  let ?s = "m\<lparr>full_scale_lux := NaN\<rparr>"
  let ?mc = "case last_lux m of None \<Rightarrow> (?s, c)
     | Some la \<Rightarrow> reassert_backlight (?s\<lparr>light_frac := Some (lux_to_fraction lg la NaN)\<rparr>) c"
  have 1: "power_on_command lg ''brightness-scale'' ''nan'' m c =
      (Ok (''brightness-scale '' @ show_fp f32 NaN), ?mc)"
    using assms(2) by (simp add: power_on_command_def cmd_brightness_scale_def p fle_def
        auto_brightness_active_def Let_def split: option.split)
  have "full_scale_lux (fst ?mc) = NaN" "auto_brightness_active (fst ?mc)"
    using assms(2) by (auto simp: auto_brightness_active_def reassert_backlight_def split: option.split)
  then show ?thesis
    unfolding 1
    by (simp add: power_on_event_def on_light_def apply_auto_brightness_def n a auto_brightness_active_def
        case_prod_beta Let_def split: option.split)
qed

theorem scale_nan_accepted_witness:
  "let (r, m1, c1) = power_on_command id ''brightness-scale'' ''nan'' PowerModule_new demo_ctx;
       (m2, c2) = power_on_event id (SensorReading Light (Fin False 1) (Fin False 0) (Fin False 0) 0) m1 c1
   in SetBacklight NaN True \<in> set (effects c2)"
proof -
  have "auto_brightness_active PowerModule_new"
    by (simp add: auto_brightness_active_def PowerModule_new_def)
  from scale_nan_accepted[OF _ this, of id demo_ctx "Fin False 1" "Fin False 0" "Fin False 0" 0] show ?thesis
    by (simp add: case_prod_beta Let_def)
qed

end
