(* ===== verification/Net.thy ===== *)
theory Net
  imports ShellSplit
begin

text \<open>
  The connectivity module (\<open>wandr-arbiter-net\<close>): the link state and its subscribers, and
  the registry of saved networks with its base64 and JSON store.  The file at
  \<open>store_path\<close> is the field \<open>net_file\<close>; \<open>disk_ok\<close> says whether a write
  to it succeeds (a failing one is logged and leaves the old file).
\<close>

unbundle bit_operations_syntax

section \<open>Base64\<close>

definition B64 :: string where
  "B64 = ''ABCDEFGHIJKLMNOPQRSTUVWXYZabcdefghijklmnopqrstuvwxyz0123456789+/''"

definition b64_digit :: "u32 \<Rightarrow> char" where
  "b64_digit n = B64 ! unat n"

definition byte32 :: "char \<Rightarrow> u32" where
  "byte32 c = of_nat (byte c)"

definition b64_chunk :: "char \<Rightarrow> char option \<Rightarrow> char option \<Rightarrow> string" where
  "b64_chunk a b c =
     (let n = push_bit 16 (byte32 a) OR push_bit 8 (case b of None \<Rightarrow> 0 | Some d \<Rightarrow> byte32 d)
                OR (case c of None \<Rightarrow> 0 | Some d \<Rightarrow> byte32 d)
      in [b64_digit (drop_bit 18 n AND 63), b64_digit (drop_bit 12 n AND 63),
          if b \<noteq> None then b64_digit (drop_bit 6 n AND 63) else CHR ''='',
          if c \<noteq> None then b64_digit (n AND 63) else CHR ''=''])"

fun b64_encode :: "string \<Rightarrow> string" where
  "b64_encode [] = []"
| "b64_encode [a] = b64_chunk a None None"
| "b64_encode [a, b] = b64_chunk a (Some b) None"
| "b64_encode (a # b # c # s) = b64_chunk a (Some b) (Some c) @ b64_encode s"

definition b64_val :: "char \<Rightarrow> nat option" where
  "b64_val c = (let b = byte c in
     if 65 \<le> b \<and> b \<le> 90 then Some (b - 65)
     else if 97 \<le> b \<and> b \<le> 122 then Some (b - 97 + 26)
     else if 48 \<le> b \<and> b \<le> 57 then Some (b - 48 + 52)
     else if b = 43 then Some 62
     else if b = 47 then Some 63
     else None)"

text \<open>The bytes out of the running 32-bit buffer and its count of fresh bits.\<close>

fun b64_run :: "u32 \<Rightarrow> nat \<Rightarrow> string \<Rightarrow> string" where
  "b64_run buf bits [] = []"
| "b64_run buf bits (c # cs) =
     (case b64_val c of
        None \<Rightarrow> b64_run buf bits cs
      | Some v \<Rightarrow>
          (let buf1 = push_bit 6 buf OR of_nat v; bits1 = bits + 6 in
           if 8 \<le> bits1
           then char_of (unat (ucast (drop_bit (bits1 - 8) buf1) :: u8)) # b64_run buf1 (bits1 - 8) cs
           else b64_run buf1 bits1 cs))"

definition b64_decode :: "string \<Rightarrow> string" where
  "b64_decode s = b64_run 0 0 s"

definition b64_to_string :: "string \<Rightarrow> string" where
  "b64_to_string s = utf8_lossy (b64_decode s)"

section \<open>Saved networks\<close>

record SavedNet =
  sn_id :: u32
  ssid :: string
  security :: string
  psk :: string
  auto_connect :: bool
  hidden :: bool

text \<open>A jquoted JSON string, without any escaping.\<close>

definition jquoted :: "string \<Rightarrow> string" where
  "jquoted s = CHR 0x22 # s @ [CHR 0x22]"

definition net_object :: "SavedNet \<Rightarrow> string" where
  "net_object n =
     ''  {'' @ jquoted ''id'' @ '':'' @ show_u32 (sn_id n) @ '','' @ jquoted ''ssid'' @ '':'' @ jquoted (b64_encode (ssid n)) @
     '','' @ jquoted ''sec'' @ '':'' @ jquoted (security n) @ '','' @ jquoted ''psk'' @ '':'' @ jquoted (b64_encode (psk n)) @
     '','' @ jquoted ''auto'' @ '':'' @ show_bool (auto_connect n) @
     '','' @ jquoted ''hidden'' @ '':'' @ show_bool (hidden n) @ ''}''"

definition saved_to_json :: "SavedNet list \<Rightarrow> string" where
  "saved_to_json ns = ''['' @ [CHR 0x0A] @ join ('','' @ [CHR 0x0A]) (map net_object ns) @ [CHR 0x0A] @ '']'' @ [CHR 0x0A]"

definition net_str_field :: "string \<Rightarrow> string \<Rightarrow> string option" where
  "net_str_field obj key =
     (let k = jquoted key @ '':'' @ [CHR 0x22] in
      case find_sub k obj of
        None \<Rightarrow> None
      | Some i \<Rightarrow>
          (let rest = drop (i + length k) obj
           in map_option (\<lambda>e. take e rest) (find_char (\<lambda>c. c = CHR 0x22) rest)))"

definition net_raw_field :: "string \<Rightarrow> string \<Rightarrow> string option" where
  "net_raw_field obj key =
     (let k = jquoted key @ '':'' in
      case find_sub k obj of
        None \<Rightarrow> None
      | Some i \<Rightarrow>
          (let rest = drop (i + length k) obj
           in Some (trim (take (or_default (length rest)
                  (find_char (\<lambda>c. c = CHR '','' \<or> c = CHR ''}'') rest)) rest))))"

definition net_parse_object :: "string \<Rightarrow> SavedNet option" where
  "net_parse_object obj =
     (case Option.bind (net_raw_field obj ''id'') parse_u32 of
        None \<Rightarrow> None
      | Some i \<Rightarrow>
          Some \<lparr>sn_id = i,
            ssid = or_default [] (map_option b64_to_string (net_str_field obj ''ssid'')),
            security = or_default ''wpa-psk'' (net_str_field obj ''sec''),
            psk = or_default [] (map_option b64_to_string (net_str_field obj ''psk'')),
            auto_connect = (net_raw_field obj ''auto'' = Some ''true''),
            hidden = (net_raw_field obj ''hidden'' = Some ''true'')\<rparr>)"

definition saved_from_json :: "string \<Rightarrow> SavedNet list" where
  "saved_from_json body = List.map_filter net_parse_object (split_char (CHR ''}'') body)"

section \<open>The module\<close>

record NetState =
  online :: bool
  transport :: string
  net_ssid :: "string option"
  net_ip :: "string option"

definition NetState_offline :: NetState where
  "NetState_offline = \<lparr>online = False, transport = ''none'', net_ssid = None, net_ip = None\<rparr>"

definition net_wire :: "NetState \<Rightarrow> string" where
  "net_wire s =
     (if online s
      then ''online '' @ transport s @ '' '' @ or_default ''-'' (net_ssid s) @ '' '' @ or_default ''-'' (net_ip s)
      else ''offline'')"

record NetModule =
  net_state :: NetState
  net_subscribers :: "pid list"
  saved :: "SavedNet list"
  next_id :: u32
  store_path :: "string option"
  net_file :: "string option"
  disk_ok :: bool

definition NetModule_new :: NetModule where
  "NetModule_new = \<lparr>net_state = NetState_offline, net_subscribers = [], saved = [], next_id = 1,
     store_path = None, net_file = None, disk_ok = True\<rparr>"

text \<open>\<open>file\<close> is what \<open>read_to_string\<close> returns at start, if anything.\<close>

definition NetModule_with_store :: "string \<Rightarrow> string option \<Rightarrow> bool \<Rightarrow> NetModule" where
  "NetModule_with_store path file ok =
     (let sv = or_default [] (map_option saved_from_json file)
      in \<lparr>net_state = NetState_offline, net_subscribers = [], saved = sv,
          next_id = fold max (map sn_id sv) 0 + 1,
          store_path = Some path, net_file = file, disk_ok = ok\<rparr>)"

definition net_persist :: "NetModule \<Rightarrow> NetModule" where
  "net_persist m =
     (if store_path m = None \<or> \<not> disk_ok m then m
      else m\<lparr>net_file := Some (saved_to_json (saved m))\<rparr>)"

definition saved_line :: "SavedNet \<Rightarrow> string" where
  "saved_line n = ''saved id='' @ show_u32 (sn_id n) @ '' ssid='' @ b64_encode (ssid n) @ '' sec='' @ security n @
     '' auto='' @ show_bit (auto_connect n) @ '' hidden='' @ show_bit (hidden n) @ [CHR 0x0A]"

definition cmd_saved_list :: "NetModule \<Rightarrow> Reply" where
  "cmd_saved_list m = Ok (concat (map saved_line (saved m)) @ ''ok count='' @ show_nat (length (saved m)))"

definition flag_on :: "string \<Rightarrow> bool" where
  "flag_on s = (s = ''1'' \<or> s = ''true'')"

definition cmd_saved_add :: "string \<Rightarrow> NetModule \<Rightarrow> Reply \<times> NetModule" where
  "cmd_saved_add args m =
     (case split_ws args of
        [bssid, sec, bpsk, auto, hid] \<Rightarrow>
          (let s = b64_to_string bssid in
           if s = [] then (Err ''wifi-saved-add empty-ssid'', m)
           else
             (let pk = b64_to_string bpsk; same = (\<lambda>n. ssid n = s \<and> security n = sec) in
              case find same (saved m) of
                Some n \<Rightarrow>
                  (Ok (''id='' @ show_u32 (sn_id n)),
                   net_persist (m\<lparr>saved := upd_first same
                     (\<lambda>n. n\<lparr>psk := pk, auto_connect := flag_on auto, hidden := flag_on hid\<rparr>) (saved m)\<rparr>))
              | None \<Rightarrow>
                  (let i = next_id m
                   in (Ok (''id='' @ show_u32 i),
                       net_persist (m\<lparr>next_id := next_id m + 1, saved := saved m @
                         [\<lparr>sn_id = i, ssid = s, security = sec, psk = pk,
                           auto_connect = flag_on auto, hidden = flag_on hid\<rparr>]\<rparr>)))))
      | _ \<Rightarrow> (Err ''wifi-saved-add-usage <b64ssid> <sec> <b64psk> <auto> <hidden>'', m))"

definition cmd_saved_update :: "string \<Rightarrow> NetModule \<Rightarrow> Reply \<times> NetModule" where
  "cmd_saved_update args m =
     (case split_ws args of
        [i_s, bssid, sec, bpsk, auto, hid] \<Rightarrow>
          (case parse_u32 i_s of
             None \<Rightarrow> (Err ''wifi-saved-update bad-id'', m)
           | Some i \<Rightarrow>
               if find (\<lambda>n. sn_id n = i) (saved m) = None then (Err ''not-found'', m)
               else
                 (Ok (''id='' @ show_u32 i),
                  net_persist (m\<lparr>saved := upd_first (\<lambda>n. sn_id n = i)
                    (\<lambda>n. n\<lparr>ssid := b64_to_string bssid, security := sec, psk := b64_to_string bpsk,
                          auto_connect := flag_on auto, hidden := flag_on hid\<rparr>) (saved m)\<rparr>)))
      | _ \<Rightarrow> (Err ''wifi-saved-update-usage <id> <b64ssid> <sec> <b64psk> <auto> <hidden>'', m))"

definition id_arg :: "string \<Rightarrow> u32 option" where
  "id_arg args = Option.bind (nth_opt (split_ws args) 0) parse_u32"

definition cmd_saved_remove :: "string \<Rightarrow> NetModule \<Rightarrow> Reply \<times> NetModule" where
  "cmd_saved_remove args m =
     (case id_arg args of
        None \<Rightarrow> (Err ''wifi-saved-remove-usage <id>'', m)
      | Some i \<Rightarrow>
          (let before = length (saved m); m1 = m\<lparr>saved := filter (\<lambda>n. sn_id n \<noteq> i) (saved m)\<rparr>
           in (Ok (''id='' @ show_u32 i), if length (saved m1) \<noteq> before then net_persist m1 else m1)))"

definition cmd_saved_auto :: "string \<Rightarrow> NetModule \<Rightarrow> Reply \<times> NetModule" where
  "cmd_saved_auto args m =
     (case split_ws args of
        [i_s, on] \<Rightarrow>
          (case parse_u32 i_s of
             None \<Rightarrow> (Err ''wifi-saved-auto-connect bad-id'', m)
           | Some i \<Rightarrow>
               if find (\<lambda>n. sn_id n = i) (saved m) = None then (Err ''not-found'', m)
               else
                 (Ok (''id='' @ show_u32 i @ '' auto='' @ show_bit (flag_on on)),
                  net_persist (m\<lparr>saved := upd_first (\<lambda>n. sn_id n = i)
                    (\<lambda>n. n\<lparr>auto_connect := flag_on on\<rparr>) (saved m)\<rparr>)))
      | _ \<Rightarrow> (Err ''wifi-saved-auto-connect-usage <id> <0|1>'', m))"

definition creds :: "SavedNet \<Rightarrow> string" where
  "creds n = ''ssid='' @ b64_encode (ssid n) @ '' psk='' @ b64_encode (psk n) @ '' sec='' @ security n"

definition cmd_saved_creds :: "string \<Rightarrow> NetModule \<Rightarrow> Reply" where
  "cmd_saved_creds args m =
     (case id_arg args of
        None \<Rightarrow> Err ''wifi-saved-creds-usage <id>''
      | Some i \<Rightarrow>
          (case find (\<lambda>n. sn_id n = i) (saved m) of
             Some n \<Rightarrow> Ok (creds n) | None \<Rightarrow> Err ''not-found''))"

definition cmd_auto_network :: "NetModule \<Rightarrow> Reply" where
  "cmd_auto_network m =
     (case find auto_connect (saved m) of Some n \<Rightarrow> Ok (creds n) | None \<Rightarrow> Ok ''none'')"

definition notify_one :: "NetModule \<Rightarrow> pid \<Rightarrow> Ctx \<Rightarrow> Ctx" where
  "notify_one m p = deliver_to_host p (''net-changed '' @ net_wire (net_state m) @ [CHR 0x0A])"

definition notify_all :: "NetModule \<Rightarrow> Ctx \<Rightarrow> Ctx" where
  "notify_all m c = fold (notify_one m) (net_subscribers m) c"

definition some_unless_dash :: "string option \<Rightarrow> string option" where
  "some_unless_dash t = (if t = Some ''-'' then None else t)"

definition parse_net_state :: "string list \<Rightarrow> NetState option" where
  "parse_net_state toks =
     (if nth_opt toks 0 = Some ''online''
      then Some \<lparr>online = True, transport = or_default ''wifi'' (nth_opt toks 1),
                 net_ssid = some_unless_dash (nth_opt toks 2), net_ip = some_unless_dash (nth_opt toks 3)\<rparr>
      else if nth_opt toks 0 = Some ''offline'' then Some NetState_offline
      else None)"

definition cmd_report_net_state :: "string \<Rightarrow> NetModule \<Rightarrow> Ctx \<Rightarrow> Reply \<times> NetModule \<times> Ctx" where
  "cmd_report_net_state args m c =
     (case parse_net_state (split_ws args) of
        None \<Rightarrow> (Err ''report-net-state-usage online <transport> <ssid> <ip> | offline'', m, c)
      | Some new \<Rightarrow>
          (let (m1, c1) = (if new \<noteq> net_state m
                           then (let m' = m\<lparr>net_state := new\<rparr> in (m', notify_all m' c)) else (m, c))
           in (Ok (''report-net-state '' @ net_wire (net_state m1)), m1, c1)))"

definition cmd_net_subscribe :: "string \<Rightarrow> NetModule \<Rightarrow> Ctx \<Rightarrow> Reply \<times> NetModule \<times> Ctx" where
  "cmd_net_subscribe args m c =
     (case Option.bind (nth_opt (split_ws args) 0) parse_i32 of
        None \<Rightarrow> (Err ''net-subscribe-usage <pid>'', m, c)
      | Some p \<Rightarrow>
          (let m1 = (if p \<in> set (net_subscribers m) then m
                     else m\<lparr>net_subscribers := net_subscribers m @ [p]\<rparr>)
           in (Ok (''net-subscribe '' @ show_int p), m1, notify_one m1 p c)))"

definition net_verbs :: "string list" where
  "net_verbs = [''report-net-state'', ''net-status'', ''net-subscribe'', ''wifi-saved-list'', ''wifi-saved-add'',
     ''wifi-saved-update'', ''wifi-saved-remove'', ''wifi-saved-auto-connect'', ''wifi-saved-creds'',
     ''wifi-auto-network'']"

definition net_on_command :: "string \<Rightarrow> string \<Rightarrow> NetModule \<Rightarrow> Ctx \<Rightarrow> Reply \<times> NetModule \<times> Ctx" where
  "net_on_command verb args m c =
     (if verb = ''report-net-state'' then cmd_report_net_state args m c
      else if verb = ''net-status'' then (Ok (net_wire (net_state m)), m, c)
      else if verb = ''net-subscribe'' then cmd_net_subscribe args m c
      else if verb = ''wifi-saved-list'' then (cmd_saved_list m, m, c)
      else if verb = ''wifi-saved-add'' then (let (r, m') = cmd_saved_add args m in (r, m', c))
      else if verb = ''wifi-saved-update'' then (let (r, m') = cmd_saved_update args m in (r, m', c))
      else if verb = ''wifi-saved-remove'' then (let (r, m') = cmd_saved_remove args m in (r, m', c))
      else if verb = ''wifi-saved-auto-connect'' then (let (r, m') = cmd_saved_auto args m in (r, m', c))
      else if verb = ''wifi-saved-creds'' then (cmd_saved_creds args m, m, c)
      else if verb = ''wifi-auto-network'' then (cmd_auto_network m, m, c)
      else (Err (''net-unknown-verb '' @ verb), m, c))"

definition net_on_event :: "Event \<Rightarrow> NetModule \<Rightarrow> Ctx \<Rightarrow> NetModule \<times> Ctx" where
  "net_on_event ev m c =
     (case ev of
        SurfaceRemoved p \<Rightarrow> (m\<lparr>net_subscribers := filter (\<lambda>q. q \<noteq> p) (net_subscribers m)\<rparr>, c)
      | _ \<Rightarrow> (m, c))"

section \<open>Base64 round trip\<close>

lemma B64_vals: "map b64_val B64 = map Some [0..<64]"
  by (simp add: B64_def b64_val_def upt_rec)

lemma b64_val_digit [simp]: "n < 64 \<Longrightarrow> b64_val (b64_digit n) = Some (unat n)"
proof -
  assume "n < 64"
  then have u: "unat n < 64" by (simp add: word_less_nat_alt)
  have l: "length B64 = 64" by (simp add: B64_def)
  have "map b64_val B64 ! unat n = map Some [0..<64] ! unat n"
    by (simp only: B64_vals)
  with u l show ?thesis by (simp add: b64_digit_def)
qed

lemma b64_val_pad [simp]: "b64_val (CHR ''='') = None"
  by (simp add: b64_val_def)

lemma and63: "(x :: u32) AND 63 = take_bit 6 x"
  by (simp add: take_bit_eq_mask mask_eq_exp_minus_1)

lemma take6_less [simp]: "take_bit 6 (x :: u32) < 64"
  using take_bit_nat_less_exp[of 6 "unat x"] by (simp add: word_less_nat_alt unsigned_take_bit_eq)

lemma byte32_ucast: "byte32 c = ucast (of_nat (byte c) :: u8)"
  by (simp add: byte32_def unsigned_of_nat take_bit_nat_eq_self)

lemma byte_out: "char_of (unat (of_nat (byte c) :: u8)) = c"
  by (simp add: unsigned_of_nat take_bit_nat_eq_self)

lemma u8_bit_beyond: "8 \<le> k \<Longrightarrow> \<not> bit (x :: u8) k"
  using bit_imp_le_length[of x k] by auto

lemma u8_eqI:
  fixes x y :: u8
  assumes "\<And>k. k \<in> {0, 1, 2, 3, 4, 5, 6, 7} \<Longrightarrow> bit x k = bit y k"
  shows "x = y"
  by (rule bit_word_eqI) (use assms in \<open>force simp: less_Suc_eq numeral_eq_Suc\<close>)

lemma word_bytes:
  fixes a b c :: u8 and buf :: u32
  defines "n \<equiv> push_bit 16 (ucast a) OR push_bit 8 (ucast b) OR (ucast c :: u32)"
  defines "b1 \<equiv> push_bit 6 buf OR take_bit 6 (drop_bit 18 n)"
  defines "b2 \<equiv> push_bit 6 b1 OR take_bit 6 (drop_bit 12 n)"
  defines "b3 \<equiv> push_bit 6 b2 OR take_bit 6 (drop_bit 6 n)"
  defines "b4 \<equiv> push_bit 6 b3 OR take_bit 6 n"
  shows "ucast (drop_bit 4 b2) = a" "ucast (drop_bit 2 b3) = b" "ucast b4 = c"
  unfolding assms
  by (rule u8_eqI; elim insertE emptyE; simp add: bit_simps u8_bit_beyond)+

lemma take6_val [simp]: "b64_val (b64_digit (take_bit 6 x)) = Some (unat (take_bit 6 x))"
  by (rule b64_val_digit) (rule take6_less)

lemma b64_run_step:
  "b64_run buf bits (b64_digit (take_bit 6 x) # cs) =
     (let buf1 = push_bit 6 buf OR take_bit 6 x in
      if 8 \<le> bits + 6
      then char_of (unat (ucast (drop_bit (bits + 6 - 8) buf1) :: u8)) # b64_run buf1 (bits + 6 - 8) cs
      else b64_run buf1 (bits + 6) cs)"
  by (simp add: Let_def)

declare b64_run.simps(2) [simp del]

lemma b64_run_pad [simp]: "b64_run buf bits (CHR ''='' # cs) = b64_run buf bits cs"
  by (simp add: b64_run.simps)

lemma b64_quads:
  fixes n buf :: u32
  shows "ucast (drop_bit 4 b2) = (of_nat (byte a) :: u8) \<Longrightarrow>
      b2 = push_bit 6 (push_bit 6 buf OR take_bit 6 (drop_bit 18 n)) OR take_bit 6 (drop_bit 12 n) \<Longrightarrow>
      b64_run buf 0 (b64_digit (take_bit 6 (drop_bit 18 n)) # b64_digit (take_bit 6 (drop_bit 12 n)) # cs) =
        a # b64_run b2 4 cs"
    "ucast (drop_bit 2 b3) = (of_nat (byte b) :: u8) \<Longrightarrow> b3 = push_bit 6 b2 OR take_bit 6 (drop_bit 6 n) \<Longrightarrow>
      b64_run b2 4 (b64_digit (take_bit 6 (drop_bit 6 n)) # cs) = b # b64_run b3 2 cs"
    "ucast b4 = (of_nat (byte c) :: u8) \<Longrightarrow> b4 = push_bit 6 b3 OR take_bit 6 n \<Longrightarrow>
      b64_run b3 2 (b64_digit (take_bit 6 n) # cs) = c # b64_run b4 0 cs"
  by (simp_all add: b64_run_step Let_def byte_out)

abbreviation opt8 :: "char option \<Rightarrow> u8" where
  "opt8 b \<equiv> (case b of None \<Rightarrow> 0 | Some d \<Rightarrow> of_nat (byte d))"

lemma b64_chunk_eq:
  "b64_chunk a b c =
     (let n = push_bit 16 (ucast (opt8 (Some a))) OR push_bit 8 (ucast (opt8 b)) OR ucast (opt8 c)
      in b64_digit (take_bit 6 (drop_bit 18 n)) # b64_digit (take_bit 6 (drop_bit 12 n)) #
         (if b \<noteq> None then b64_digit (take_bit 6 (drop_bit 6 n)) else CHR ''='') #
         [if c \<noteq> None then b64_digit (take_bit 6 n) else CHR ''=''])"
proof -
  have "(case b of None \<Rightarrow> 0 | Some d \<Rightarrow> byte32 d) = ucast (opt8 b)" for b
    by (cases b) (simp_all add: byte32_ucast)
  then show ?thesis
    by (simp only: b64_chunk_def and63 byte32_ucast Let_def option.case)
qed

lemma b64_chunk_decode:
  "\<exists>buf1. b64_run buf 0 (b64_chunk a (Some b) (Some c) @ s) = a # b # c # b64_run buf1 0 s"
  "b64_run buf 0 (b64_chunk a (Some b) None) = [a, b]"
  "b64_run buf 0 (b64_chunk a None None) = [a]"
proof -
  note q = b64_quads(1)[OF word_bytes(1) refl] b64_quads(2)[OF word_bytes(2) refl] b64_quads(3)[OF word_bytes(3) refl]
  note e = b64_chunk_eq Let_def option.case option.distinct simp_thms if_True if_False append_Cons append_Nil b64_run_pad
  show "\<exists>buf1. b64_run buf 0 (b64_chunk a (Some b) (Some c) @ s) = a # b # c # b64_run buf1 0 s"
    by (simp only: e q) blast
  show "b64_run buf 0 (b64_chunk a (Some b) None) = [a, b]"
    by (simp only: e q b64_run.simps(1))
  show "b64_run buf 0 (b64_chunk a None None) = [a]"
    by (simp only: e q b64_run.simps(1))
qed

lemma b64_run_encode: "b64_run buf 0 (b64_encode s) = s"
proof (induction s arbitrary: buf rule: b64_encode.induct)
  case (4 a b c s)
  obtain buf1 where "b64_run buf 0 (b64_chunk a (Some b) (Some c) @ b64_encode s) = a # b # c # b64_run buf1 0 (b64_encode s)"
    using b64_chunk_decode(1) by blast
  with 4 show ?case by simp
qed (simp_all add: b64_chunk_decode)

lemma b64_roundtrip [simp]: "b64_decode (b64_encode s) = s"
  by (simp add: b64_decode_def b64_run_encode)

section \<open>The store round trip\<close>

text \<open>What follows the first occurrence of a pattern.\<close>

definition after :: "string \<Rightarrow> string \<Rightarrow> string option" where
  "after k s = map_option (\<lambda>i. drop (i + length k) s) (find_sub k s)"

lemma after_Cons:
  "after (q # k) (c # s) = (if starts_with (q # k) (c # s) then Some (drop (length k) s) else after (q # k) s)"
  by (auto simp: after_def option.map_comp o_def)

lemma after_Nil: "after (q # k) [] = None"
  by (simp add: after_def)

lemma after_append: "q \<notin> set x \<Longrightarrow> after (q # k) (x @ y) = after (q # k) y"
  by (induction x) (auto simp: after_Cons)

lemma net_str_field_after:
  "net_str_field obj key = Option.bind (after (jquoted key @ '':'' @ [CHR 0x22]) obj)
     (\<lambda>rest. map_option (\<lambda>e. take e rest) (find_char (\<lambda>c. c = CHR 0x22) rest))"
  by (simp add: net_str_field_def after_def Let_def split: option.split)

lemma net_raw_field_after:
  "net_raw_field obj key = map_option (\<lambda>rest. trim (take (or_default (length rest)
      (find_char (\<lambda>c. c = CHR '','' \<or> c = CHR ''}'') rest)) rest)) (after (jquoted key @ '':'') obj)"
  by (simp add: net_raw_field_def after_def Let_def split: option.split)

definition obj_body :: "SavedNet \<Rightarrow> string" where
  "obj_body n =
     ''  {'' @ jquoted ''id'' @ '':'' @ show_u32 (sn_id n) @ '','' @ jquoted ''ssid'' @ '':'' @ jquoted (b64_encode (ssid n)) @
     '','' @ jquoted ''sec'' @ '':'' @ jquoted (security n) @ '','' @ jquoted ''psk'' @ '':'' @ jquoted (b64_encode (psk n)) @
     '','' @ jquoted ''auto'' @ '':'' @ show_bool (auto_connect n) @
     '','' @ jquoted ''hidden'' @ '':'' @ show_bool (hidden n)"

lemma net_object_body: "net_object n = obj_body n @ [CHR ''}'']"
  by (simp add: net_object_def obj_body_def)

definition json_safe :: "string \<Rightarrow> bool" where
  "json_safe s \<longleftrightarrow> CHR 0x22 \<notin> set s \<and> CHR ''}'' \<notin> set s"

lemma b64_digit_safe: "x < 64 \<Longrightarrow> json_safe [b64_digit x] \<and> b64_digit x \<noteq> CHR '',''"
proof -
  assume "x < 64"
  moreover have "length B64 = 64" by (simp add: B64_def)
  ultimately have "b64_digit x \<in> set B64"
    by (simp add: b64_digit_def word_less_nat_alt)
  moreover have "\<forall>c \<in> set B64. json_safe [c] \<and> c \<noteq> CHR '',''"
    by (simp add: B64_def json_safe_def)
  ultimately show ?thesis by blast
qed

lemma json_safe_append [simp]: "json_safe (s @ t) \<longleftrightarrow> json_safe s \<and> json_safe t"
  by (auto simp: json_safe_def)

lemma json_safe_Cons: "json_safe (c # t) \<longleftrightarrow> json_safe [c] \<and> json_safe t"
  by (auto simp: json_safe_def)

lemma b64_chunk_safe: "json_safe (b64_chunk a b c)"
proof -
  have d: "json_safe [b64_digit (take_bit 6 x)]" for x
    by (rule conjunct1[OF b64_digit_safe[OF take6_less]])
  have e: "json_safe [CHR ''='']"
    by (simp add: json_safe_def)
  show ?thesis
    unfolding b64_chunk_def and63 Let_def using d e
    by (simp only: json_safe_Cons[of _ "_ # _"] split: if_split) simp
qed

lemma b64_encode_safe [simp]: "json_safe (b64_encode s)"
  by (induction s rule: b64_encode.induct) (simp_all add: b64_chunk_safe, simp add: json_safe_def)


lemma show_nat_digits: "c \<in> set (show_nat n) \<Longrightarrow> 48 \<le> byte c \<and> byte c \<le> 57"
  using set_show_nat[of c n] by auto

lemma show_u32_safe [simp]: "json_safe (show_u32 w)" "CHR '','' \<notin> set (show_u32 w)"
  using show_nat_digits[of "CHR 0x22" "unat w"] show_nat_digits[of "CHR '',''" "unat w"]
    show_nat_digits[of "CHR ''}''" "unat w"] by (auto simp: json_safe_def show_u32_def)

lemma show_bool_safe [simp]: "json_safe (show_bool b)" "CHR '','' \<notin> set (show_bool b)"
  by (simp_all add: json_safe_def show_bool_def)

lemma str_val:
  assumes "after (jquoted key @ '':'' @ [CHR 0x22]) obj = Some (x @ CHR 0x22 # r)" "CHR 0x22 \<notin> set x"
  shows "net_str_field obj key = Some x"
proof -
  have "find_char (\<lambda>c. c = CHR 0x22) (x @ CHR 0x22 # r) = Some (length x)"
    using assms(2) by (intro find_char_append) auto
  then show ?thesis
    unfolding net_str_field_after assms(1) by simp
qed

lemma raw_val:
  assumes "after (jquoted key @ '':'') obj = Some (x @ CHR '','' # r)"
    "CHR '','' \<notin> set x" "CHR ''}'' \<notin> set x" "trim x = x"
  shows "net_raw_field obj key = Some x"
proof -
  have "find_char (\<lambda>c. c = CHR '','' \<or> c = CHR ''}'') (x @ CHR '','' # r) = Some (length x)"
    using assms(2,3) by (intro find_char_append) auto
  then show ?thesis
    unfolding net_raw_field_after assms(1) using assms(4) by simp
qed

lemma raw_val_end:
  assumes "after (jquoted key @ '':'') obj = Some x" "CHR '','' \<notin> set x" "CHR ''}'' \<notin> set x" "trim x = x"
  shows "net_raw_field obj key = Some x"
proof -
  have n: "find_char (\<lambda>c. c = CHR '','' \<or> c = CHR ''}'') x = None"
    using assms(2,3) by auto
  show ?thesis
    unfolding net_raw_field_after assms(1) option.map n by (simp add: assms(4))
qed

text \<open>The text before an object in its piece: the opening bracket or a separator.\<close>

definition obj_prefix :: "bool \<Rightarrow> string" where
  "obj_prefix first = (if first then ''['' else '','') @ [CHR 0x0A]"

lemma no_quote [simp]:
  "CHR 0x22 \<notin> set (show_u32 w)" "CHR 0x22 \<notin> set (show_bool b)" "CHR 0x22 \<notin> set (b64_encode s)"
  "CHR ''}'' \<notin> set (show_u32 w)" "CHR ''}'' \<notin> set (show_bool b)" "CHR ''}'' \<notin> set (b64_encode s)"
  using show_u32_safe(1)[of w] show_bool_safe(1)[of b] b64_encode_safe[of s] by (auto simp: json_safe_def)

lemma trim_values [simp]: "trim (show_u32 w) = show_u32 w" "trim (show_bool b) = show_bool b"
proof -
  show "trim (show_u32 w) = show_u32 w" by (simp add: show_u32_def)
  have "trim ''true'' = ''true''" "trim ''false'' = ''false''"
    by code_simp+
  then show "trim (show_bool b) = show_bool b" by (simp add: show_bool_def)
qed

text \<open>A key pattern does not match at the opening quote of a value.\<close>

definition key_tail :: "string \<Rightarrow> bool" where
  "key_tail p = (case dropWhile (\<lambda>c. c \<noteq> CHR 0x22) p of q # c # r \<Rightarrow> c \<noteq> CHR '','' | _ \<Rightarrow> False)"

lemma no_key_in_value:
  assumes "CHR 0x22 \<notin> set x" "key_tail p"
  shows "\<not> starts_with p (x @ CHR 0x22 # CHR '','' # y)"
proof
  assume "starts_with p (x @ CHR 0x22 # CHR '','' # y)"
  then obtain t where t: "x @ CHR 0x22 # CHR '','' # y = p @ t"
    by (auto simp: starts_with_iff)
  obtain q c r where d: "dropWhile (\<lambda>c. c \<noteq> CHR 0x22) p = q # c # r" "c \<noteq> CHR '',''"
    using assms(2) by (auto simp: key_tail_def split: list.splits)
  have "dropWhile (\<lambda>c. c \<noteq> CHR 0x22) (p @ t) = (q # c # r) @ t"
    using d(1) by (metis dropWhile_append3 dropWhile_eq_Nil_conv list.distinct(1) dropWhile_append)
  moreover have "dropWhile (\<lambda>c. c \<noteq> CHR 0x22) (x @ CHR 0x22 # CHR '','' # y) = CHR 0x22 # CHR '','' # y"
    using assms(1) by (subst dropWhile_append2) auto
  ultimately show False
    using t d(2) by simp
qed

lemma after_prefix [simp]: "after (CHR 0x22 # k) (obj_prefix first @ s) = after (CHR 0x22 # k) s"
  by (rule after_append) (simp add: obj_prefix_def)

lemma object_fields:
  assumes "json_safe (security n)"
  shows "net_raw_field (obj_prefix first @ obj_body n) ''id'' = Some (show_u32 (sn_id n))"
    "net_str_field (obj_prefix first @ obj_body n) ''ssid'' = Some (b64_encode (ssid n))"
    "net_str_field (obj_prefix first @ obj_body n) ''sec'' = Some (security n)"
    "net_str_field (obj_prefix first @ obj_body n) ''psk'' = Some (b64_encode (psk n))"
    "net_raw_field (obj_prefix first @ obj_body n) ''auto'' = Some (show_bool (auto_connect n))"
    "net_raw_field (obj_prefix first @ obj_body n) ''hidden'' = Some (show_bool (hidden n))"
proof -
  note defs = no_key_in_value key_tail_def obj_body_def jquoted_def after_Cons after_append
  have sq: "CHR 0x22 \<notin> set (security n)"
    using assms by (simp add: json_safe_def)
  show "net_raw_field (obj_prefix first @ obj_body n) ''id'' = Some (show_u32 (sn_id n))"
    by (rule raw_val, simp add: defs) simp_all
  show "net_str_field (obj_prefix first @ obj_body n) ''ssid'' = Some (b64_encode (ssid n))"
    by (rule str_val, simp add: defs, (rule refl)?) simp_all
  show "net_str_field (obj_prefix first @ obj_body n) ''sec'' = Some (security n)"
    by (rule str_val, simp add: defs sq, (rule refl)?) (simp_all add: sq)
  show "net_str_field (obj_prefix first @ obj_body n) ''psk'' = Some (b64_encode (psk n))"
    by (rule str_val, simp add: defs sq, (rule refl)?) (simp_all add: sq)
  show "net_raw_field (obj_prefix first @ obj_body n) ''auto'' = Some (show_bool (auto_connect n))"
    by (rule raw_val, simp add: defs sq, (rule refl)?) simp_all
  show "net_raw_field (obj_prefix first @ obj_body n) ''hidden'' = Some (show_bool (hidden n))"
    by (rule raw_val_end) (simp_all add: defs sq)
qed

text \<open>What the store keeps of a network: texts in UTF-8 and a security token without delimiters.\<close>

definition storable :: "SavedNet \<Rightarrow> bool" where
  "storable n \<longleftrightarrow> utf8_valid (ssid n) \<and> utf8_valid (psk n) \<and> json_safe (security n)"

lemma parse_object: "storable n \<Longrightarrow> net_parse_object (obj_prefix first @ obj_body n) = Some n"
  by (cases "auto_connect n"; cases "hidden n")
    (simp_all add: storable_def net_parse_object_def object_fields b64_to_string_def show_bool_def)

lemma parse_tail: "net_parse_object ([CHR 0x0A] @ '']'' @ [CHR 0x0A]) = None"
  by (simp add: net_parse_object_def net_raw_field_after jquoted_def after_Cons after_Nil)

lemma obj_body_no_brace: "storable n \<Longrightarrow> CHR ''}'' \<notin> set (obj_prefix first @ obj_body n)"
  by (auto simp: obj_prefix_def obj_body_def jquoted_def storable_def json_safe_def)

lemma split_objects:
  assumes "\<forall>n \<in> set ns. storable n"
  shows "split_char (CHR ''}'') (concat (map (\<lambda>n. obj_prefix False @ net_object n) ns) @ [CHR 0x0A] @ '']'' @ [CHR 0x0A])
    = map (\<lambda>n. obj_prefix False @ obj_body n) ns @ [[CHR 0x0A] @ '']'' @ [CHR 0x0A]]"
  using assms
proof (induction ns)
  case Nil
  then show ?case by (simp add: split_char_none)
next
  case (Cons n ns)
  let ?r = "concat (map (\<lambda>n. obj_prefix False @ net_object n) ns) @ [CHR 0x0A] @ '']'' @ [CHR 0x0A]"
  have "split_char (CHR ''}'') ((obj_prefix False @ obj_body n) @ CHR ''}'' # ?r) =
      (obj_prefix False @ obj_body n) # split_char (CHR ''}'') ?r"
    using obj_body_no_brace[of n False] Cons.prems by (intro split_char_append) auto
  with Cons show ?case by (simp add: net_object_body)
qed

lemma join_objects:
  "join ('','' @ [CHR 0x0A]) (map net_object (n # ns)) = net_object n @ concat (map (\<lambda>n. obj_prefix False @ net_object n) ns)"
  by (induction ns arbitrary: n) (simp_all add: obj_prefix_def)

lemma map_filter_objects:
  "\<forall>n \<in> set ns. storable n \<Longrightarrow>
   List.map_filter net_parse_object (map (\<lambda>n. obj_prefix False @ obj_body n) ns @ [[CHR 0x0A] @ '']'' @ [CHR 0x0A]]) = ns"
  using parse_tail by (induction ns) (simp_all add: List.map_filter_simps parse_object)

lemma saved_json_roundtrip:
  assumes "\<forall>n \<in> set ns. storable n"
  shows "saved_from_json (saved_to_json ns) = ns"
proof (cases ns)
  case Nil
  have "net_parse_object ''[\<newline>\<newline>]\<newline>'' = None"
    by (simp add: net_parse_object_def net_raw_field_after jquoted_def after_Cons after_Nil)
  with Nil show ?thesis
    by (simp add: saved_to_json_def saved_from_json_def List.map_filter_simps)
next
  case (Cons n ms)
  let ?r = "concat (map (\<lambda>n. obj_prefix False @ net_object n) ms) @ [CHR 0x0A] @ '']'' @ [CHR 0x0A]"
  have "saved_to_json ns = (obj_prefix True @ obj_body n) @ CHR ''}'' # ?r"
    using join_objects[of n ms] by (simp add: saved_to_json_def Cons net_object_body obj_prefix_def)
  moreover have "split_char (CHR ''}'') ((obj_prefix True @ obj_body n) @ CHR ''}'' # ?r) =
      (obj_prefix True @ obj_body n) # split_char (CHR ''}'') ?r"
    using obj_body_no_brace[of n True] assms Cons by (intro split_char_append) auto
  ultimately show ?thesis
    using assms Cons split_objects[of ms] map_filter_objects[of ms]
    by (simp add: saved_from_json_def List.map_filter_simps parse_object)
qed

section \<open>Properties\<close>

text \<open>Identifiers are unique and below the allocator.\<close>

definition net_wf :: "NetModule \<Rightarrow> bool" where
  "net_wf m \<longleftrightarrow> distinct (map sn_id (saved m)) \<and> list_all (\<lambda>i. i < next_id m) (map sn_id (saved m))"

lemma net_persist_simps [simp]:
  "saved (net_persist m) = saved m" "next_id (net_persist m) = next_id m"
  "net_state (net_persist m) = net_state m" "net_subscribers (net_persist m) = net_subscribers m"
  "store_path (net_persist m) = store_path m" "disk_ok (net_persist m) = disk_ok m"
  by (simp_all add: net_persist_def)

lemma net_wf_persist [simp]: "net_wf (net_persist m) = net_wf m"
  by (simp add: net_wf_def)

lemma net_wf_upd: "(\<And>n. sn_id (f n) = sn_id n) \<Longrightarrow> net_wf (m\<lparr>saved := upd_first P f (saved m)\<rparr>) = net_wf m"
  by (simp add: net_wf_def)

lemma next_id_up: "(y :: u32) \<noteq> - 1 \<Longrightarrow> y < y + 1"
  using inc_less_eq_self_iff_eq[of y] by (auto simp: not_le[symmetric])

lemma net_wf_add:
  assumes "net_wf m" "next_id m \<noteq> - 1" "sn_id n = next_id m"
  shows "net_wf (m\<lparr>next_id := next_id m + 1, saved := saved m @ [n]\<rparr>)"
  using assms next_id_up[OF assms(2)] by (auto simp: net_wf_def list_all_iff dest: less_trans)

text \<open>
  A saved network keeps its id and no id is given twice: over every command of the registry
  the ids stay distinct and below the allocator, as long as the 32-bit allocator has not run out.
\<close>

theorem saved_ids_unique:
  assumes "net_wf m" "next_id m \<noteq> - 1" "net_on_command verb args m c = (r, m', c')"
  shows "net_wf m'"
proof -
  have "net_wf (snd (cmd_saved_add args m))" "net_wf (snd (cmd_saved_update args m))" 
    "net_wf (snd (cmd_saved_remove args m))" "net_wf (snd (cmd_saved_auto args m))"
    using assms(1) net_wf_add[OF assms(1,2)]
    by (auto simp: cmd_saved_add_def cmd_saved_update_def cmd_saved_remove_def cmd_saved_auto_def net_wf_upd Let_def
        split: list.split option.split)
      (auto simp: net_wf_def list_all_iff)
  moreover have "net_wf (fst (snd (cmd_report_net_state args m c)))" "net_wf (fst (snd (cmd_net_subscribe args m c)))"
    using assms(1) by (auto simp: cmd_report_net_state_def cmd_net_subscribe_def net_wf_def Let_def split: option.split)
  ultimately show ?thesis
    using assms(1,3) by (auto simp: net_on_command_def case_prod_beta split: if_splits)
qed


theorem saved_ids_unique_witness:
  "net_wf (fst (snd (net_on_command ''wifi-saved-remove'' ''1'' NetModule_new demo_ctx)))"
proof -
  have "net_wf NetModule_new" "next_id NetModule_new \<noteq> - 1"
    by (simp_all add: net_wf_def NetModule_new_def)
  moreover obtain r m' c' where 1: "net_on_command ''wifi-saved-remove'' ''1'' NetModule_new demo_ctx = (r, m', c')"
    by (cases "net_on_command ''wifi-saved-remove'' ''1'' NetModule_new demo_ctx")
  ultimately show ?thesis
    using saved_ids_unique[OF _ _ 1] by simp
qed

text \<open>
  The store survives a restart: what is persisted after a command reads back as the same
  networks, whatever bytes of UTF-8 the names and passphrases are made of, for security tokens
  without JSON delimiters.
\<close>

theorem saved_store_roundtrip:
  assumes "\<forall>n \<in> set (saved m). storable n" "store_path m = Some p" "disk_ok m"
  shows "saved (NetModule_with_store p (net_file (net_persist m)) ok) = saved m"
  using assms by (simp add: net_persist_def NetModule_with_store_def saved_json_roundtrip Let_def)

theorem saved_store_roundtrip_witness:
  "let n = \<lparr>sn_id = 1, ssid = ''my net'', security = ''sae'', psk = ''\"}'', auto_connect = True, hidden = False\<rparr>;
       m = NetModule_new\<lparr>saved := [n], store_path := Some ''/data/nets.json''\<rparr>
   in saved (NetModule_with_store ''/data/nets.json'' (net_file (net_persist m)) True) = [n]"
proof -
  let ?n = "\<lparr>sn_id = 1, ssid = ''my net'', security = ''sae'', psk = ''\"}'', auto_connect = True, hidden = False\<rparr>"
  let ?m = "NetModule_new\<lparr>saved := [?n], store_path := Some ''/data/nets.json''\<rparr>"
  have "storable ?n"
    by (auto simp: storable_def json_safe_def simp del: utf8_valid.simps intro!: utf8_valid_ascii)
  then have "\<forall>n \<in> set (saved ?m). storable n"
    by simp
  from saved_store_roundtrip[OF this, of "''/data/nets.json''" True] show ?thesis
    by (simp add: NetModule_new_def)
qed

definition spoof :: string where
  "spoof = ''x'' @ [CHR 0x22] @ '','' @ jquoted ''auto'' @ '':true,'' @ [CHR 0x22]"

lemma single_object:
  assumes "security n = spoof"
  shows "saved_from_json (saved_to_json [n]) = List.map_filter net_parse_object [obj_prefix True @ obj_body n]"
proof -
  let ?t = "[CHR 0x0A] @ '']'' @ [CHR 0x0A]"
  have "saved_to_json [n] = (obj_prefix True @ obj_body n) @ CHR ''}'' # ?t"
    by (simp add: saved_to_json_def net_object_body obj_prefix_def)
  moreover have "CHR ''}'' \<notin> set (obj_prefix True @ obj_body n)"
    by (simp add: obj_prefix_def obj_body_def jquoted_def assms spoof_def)
  moreover have "split_char (CHR ''}'') ?t = [?t]"
    by (rule split_char_none) simp
  ultimately show ?thesis
    using parse_tail by (simp add: saved_from_json_def split_char_append List.map_filter_simps
        del: append_Cons append_Nil append_assoc split: option.split)
qed

text \<open>
  The security token is written to the store without escaping, so a token with quotes can
  set the other fields: a network saved without auto-connect comes back with it after a restart,
  and under another security token.
\<close>

theorem security_not_escaped:
  assumes "security n = spoof"
  shows "token (security n) \<and> map auto_connect (saved_from_json (saved_to_json [n])) = [True]
    \<and> map security (saved_from_json (saved_to_json [n])) = [''x'']"
proof -
  note defs = no_key_in_value key_tail_def obj_body_def jquoted_def after_Cons after_append assms spoof_def
  have "net_raw_field (obj_prefix True @ obj_body n) ''id'' = Some (show_u32 (sn_id n))"
    by (rule raw_val, simp add: defs, (rule refl)?) simp_all
  moreover have "net_str_field (obj_prefix True @ obj_body n) ''sec'' = Some ''x''"
    by (rule str_val, simp add: defs, (rule refl)?) simp_all
  moreover have "trim ''true'' = ''true''"
    by code_simp
  then have "net_raw_field (obj_prefix True @ obj_body n) ''auto'' = Some ''true''"
    by (intro raw_val, simp_all add: defs)
  moreover have "token spoof"
    by (simp add: token_def spoof_def plain_def jquoted_def)
  ultimately show ?thesis
    unfolding single_object[OF assms] by (simp add: List.map_filter_simps net_parse_object_def assms)
qed

theorem security_not_escaped_witness:
  "map auto_connect (saved_from_json (saved_to_json
     [\<lparr>sn_id = 1, ssid = ''a'', security = spoof, psk = [], auto_connect = False, hidden = False\<rparr>])) = [True]"
  by (rule security_not_escaped[THEN conjunct2, THEN conjunct1]) simp

lemma token_b64: "s \<noteq> [] \<Longrightarrow> token (b64_encode s)"
proof -
  have "\<forall>c \<in> set B64. plain c"
    by (simp add: B64_def plain_def)
  moreover have "length B64 = 64"
    by (simp add: B64_def)
  ultimately have d: "plain (b64_digit (take_bit 6 x))" for x
    using take6_less[of x] by (simp add: b64_digit_def word_less_nat_alt)
  have e: "plain (CHR ''='')"
    by (simp add: plain_def)
  have c: "plain x" if "x \<in> set (b64_chunk a b c)" for x a b c
    using that unfolding b64_chunk_def and63 Let_def
    by (auto simp only: d e list.set insert_iff empty_iff split: if_splits)
  have "plain x" if "x \<in> set (b64_encode s)" for x
    using that by (induction s rule: b64_encode.induct) (auto dest: c)
  moreover assume "s \<noteq> []"
  then have "b64_encode s \<noteq> []"
    by (cases s rule: b64_encode.cases) (simp_all add: b64_chunk_def Let_def)
  ultimately show ?thesis by (simp add: token_def)
qed

definition add_args :: "string \<Rightarrow> string" where
  "add_args s = b64_encode s @ '' sae '' @ b64_encode ''p'' @ '' 1 0''"

text \<open>
  Adding keys a network by name and security, updating does not check: two rows with one key
  come out of an update, and only the first of them is then updated by the next add.
\<close>

theorem update_duplicates_key:
  assumes "s \<noteq> []" "t \<noteq> []" "s \<noteq> t" "utf8_valid s" "utf8_valid t"
  shows "let (_, m1) = cmd_saved_add (add_args s) NetModule_new;
             (_, m2) = cmd_saved_add (add_args t) m1;
             (r, m3) = cmd_saved_update (''2 '' @ add_args s) m2
         in is_ok r \<and> map (\<lambda>n. (ssid n, security n)) (saved m3) = [(s, ''sae''), (s, ''sae'')]"
proof -
  have tok: "token ''sae''" "token ''1''" "token ''2''" "token ''0''"
    by (simp_all add: token_def plain_def)
  have a: "split_ws (add_args x) = [b64_encode x, ''sae'', b64_encode ''p'', ''1'', ''0'']" if "x \<noteq> []" for x
    using split_ws_token_Cons[OF token_b64[OF that], of "''sae '' @ b64_encode ''p'' @ '' 1 0''"]
      split_ws_token_Cons[OF tok(1), of "b64_encode ''p'' @ '' 1 0''"]
      split_ws_token_Cons[OF token_b64, of "''p''" "''1 0''"]
      split_ws_token_Cons[OF tok(2), of "''0''"] split_ws_token[OF tok(4)]
    by (simp add: add_args_def)
  have b: "split_ws (CHR ''2'' # CHR '' '' # add_args x) = [''2'', b64_encode x, ''sae'', b64_encode ''p'', ''1'', ''0'']" if "x \<noteq> []" for x
    using split_ws_token_Cons[OF tok(3), of "add_args x"] a[OF that] by simp
  have "parse_u32 ''2'' = Some 2"
    by (simp add: parse_u32_def parse_unsigned_def digit_val_def)
  with assms show ?thesis
    by (simp add: cmd_saved_add_def cmd_saved_update_def a b b64_to_string_def NetModule_new_def net_persist_def Let_def
        del: b64_encode.simps)
qed

theorem update_duplicates_key_witness:
  "let (_, m1) = cmd_saved_add (add_args ''a'') NetModule_new;
       (_, m2) = cmd_saved_add (add_args ''b'') m1;
       (r, m3) = cmd_saved_update (''2 '' @ add_args ''a'') m2
   in is_ok r \<and> map (\<lambda>n. (ssid n, security n)) (saved m3) = [(''a'', ''sae''), (''a'', ''sae'')]"
proof -
  have "utf8_valid ''a''" "utf8_valid ''b''"
    by (simp_all add: utf8_valid_ascii del: utf8_valid.simps)
  from update_duplicates_key[OF _ _ _ this] show ?thesis by simp
qed

text \<open>
  Subscribers are told on a change and only then: a report that repeats the state sends
  nothing, any other sends each subscriber the new state once.
\<close>

theorem net_change_fanned:
  assumes "parse_net_state (split_ws args) = Some new"
  shows "let (r, m', c') = net_on_command ''report-net-state'' args m c
         in is_ok r \<and> net_state m' = new \<and> effects c' = effects c @
           (if new = net_state m then []
            else map (\<lambda>p. HostLine p (''net-changed '' @ net_wire new @ [CHR 0x0A])) (net_subscribers m))"
proof -
  have "effects (fold (notify_one m) ps c) =
      effects c @ map (\<lambda>p. HostLine p (''net-changed '' @ net_wire (net_state m) @ [CHR 0x0A])) ps" for m ps c
    by (induction ps arbitrary: c) (simp_all add: notify_one_def)
  with assms show ?thesis
    by (simp add: net_on_command_def cmd_report_net_state_def notify_all_def Let_def)
qed

theorem net_change_fanned_witness:
  "let (r, m', c') = net_on_command ''report-net-state'' ''online wifi home 10.0.0.2''
         (NetModule_new\<lparr>net_subscribers := [10]\<rparr>) demo_ctx
   in effects c' = [HostLine 10 (''net-changed online wifi home 10.0.0.2'' @ [CHR 0x0A])]"
proof -
  let ?new = "\<lparr>online = True, transport = ''wifi'', net_ssid = Some ''home'', net_ip = Some ''10.0.0.2''\<rparr>"
  have "parse_net_state (split_ws ''online wifi home 10.0.0.2'') = Some ?new"
    by code_simp
  from net_change_fanned[OF this, of "NetModule_new\<lparr>net_subscribers := [10]\<rparr>" demo_ctx] show ?thesis
    by (simp add: NetModule_new_def NetState_offline_def net_wire_def demo_ctx_def case_prod_beta Let_def)
qed

end
