(* ===== verification/MediaSession.thy ===== *)
theory MediaSession
  imports ShellSplit
begin

text \<open>
  The media-session module (\<open>wandr-arbiter-media-session\<close>): the published sessions, the
  active one, and the routing of transport actions.
\<close>

section \<open>State\<close>

record SessionState =
  ss_app_id :: string
  title :: string
  artist :: string
  album :: string
  play_state :: string
  duration_s :: fp
  rate :: fp
  position_s :: fp
  art_mime :: string
  art_b64 :: string
  ss_seq :: u64

definition SessionState_default :: SessionState where
  "SessionState_default = \<lparr>ss_app_id = [], title = [], artist = [], album = [], play_state = [],
     duration_s = Fin False 0, rate = Fin False 0, position_s = Fin False 0,
     art_mime = [], art_b64 = [], ss_seq = 0\<rparr>"

record MediaSessionModule =
  sessions :: "(pid \<times> SessionState) list"
  active :: "pid option"
  ms_seq :: u64

definition MediaSessionModule_new :: MediaSessionModule where
  "MediaSessionModule_new = \<lparr>sessions = [], active = None, ms_seq = 0\<rparr>"

definition session :: "MediaSessionModule \<Rightarrow> pid \<Rightarrow> SessionState option" where
  "session m p = map_of (sessions m) p"

section \<open>Operations\<close>

definition app_id_for :: "pid \<Rightarrow> Store \<Rightarrow> string" where
  "app_id_for p st = (case app_by_pid st p of Some a \<Rightarrow> a_app_id a | None \<Rightarrow> show_int p)"

text \<open>\<open>touch\<close> followed by an update of the session it borrows.\<close>

definition touch ::
  "pid \<Rightarrow> Store \<Rightarrow> (SessionState \<Rightarrow> SessionState) \<Rightarrow> MediaSessionModule \<Rightarrow> MediaSessionModule" where
  "touch p st f m =
     (let sq = ms_seq m + 1;
          s = (or_default SessionState_default (session m p))\<lparr>ss_app_id := app_id_for p st, ss_seq := sq\<rparr>
      in m\<lparr>ms_seq := sq, sessions := AList.update p (f s) (sessions m)\<rparr>)"

definition fallback_le :: "SessionState \<Rightarrow> SessionState \<Rightarrow> bool" where
  "fallback_le s t =
     (let ps = (play_state s = ''playing''); pt = (play_state t = ''playing'')
      in \<not> ps \<and> pt \<or> ps = pt \<and> ss_seq s \<le> ss_seq t)"

text \<open>\<open>max_by_key\<close>: the last of the maximal entries.\<close>

definition max_session :: "(pid \<times> SessionState) list \<Rightarrow> (pid \<times> SessionState) option" where
  "max_session ss =
     fold (\<lambda>e best. case best of None \<Rightarrow> Some e
             | Some b \<Rightarrow> if fallback_le (snd b) (snd e) then Some e else Some b) ss None"

definition recompute_active :: "MediaSessionModule \<Rightarrow> MediaSessionModule" where
  "recompute_active m = m\<lparr>active := map_option fst (max_session (sessions m))\<rparr>"

definition prune_dead :: "Store \<Rightarrow> MediaSessionModule \<Rightarrow> MediaSessionModule" where
  "prune_dead st m =
     (let m1 = m\<lparr>sessions := filter (\<lambda>(p, _). app_by_pid st p \<noteq> None) (sessions m)\<rparr>
      in case active m1 of
           None \<Rightarrow> m1
         | Some a \<Rightarrow> if session m1 a = None then recompute_active m1 else m1)"

definition dec_field :: "string \<Rightarrow> string" where
  "dec_field s = (if s = ''~'' then [] else pct_decode s)"

definition bad_pid :: "string \<Rightarrow> Reply" where
  "bad_pid t = Err (''media-session-bad-pid '' @ str_debug t)"

definition cmd_set_metadata ::
  "string \<Rightarrow> MediaSessionModule \<Rightarrow> Ctx \<Rightarrow> Reply \<times> MediaSessionModule" where
  "cmd_set_metadata args m c =
     (let t = split_ws args in
      if length t < 4
      then (Err ''media-session-set-metadata-args: <pid> <title> <artist> <album> [has-art]'', m)
      else case parse_i32 (t ! 0) of
        None \<Rightarrow> (bad_pid (t ! 0), m)
      | Some p \<Rightarrow>
          (let m1 = touch p (store c) (\<lambda>s. s\<lparr>title := dec_field (t ! 1), artist := dec_field (t ! 2),
                      album := dec_field (t ! 3), art_mime := [], art_b64 := []\<rparr>) m
           in (Ok (''media-session metadata pid='' @ show_int p), m1\<lparr>active := Some p\<rparr>)))"

definition cmd_set_art :: "string \<Rightarrow> MediaSessionModule \<Rightarrow> Reply \<times> MediaSessionModule" where
  "cmd_set_art args m =
     (let t = split_ws args in
      if length t < 3 then (Err ''media-session-set-art-args: <pid> <enc-mime> <b64>'', m)
      else case parse_i32 (t ! 0) of
        None \<Rightarrow> (bad_pid (t ! 0), m)
      | Some p \<Rightarrow>
          (case session m p of
             Some s \<Rightarrow>
               (Ok (''media-session art pid='' @ show_int p @ '' bytes='' @ show_nat (length (t ! 2))),
                m\<lparr>sessions := AList.update p (s\<lparr>art_mime := t ! 1, art_b64 := t ! 2\<rparr>) (sessions m)\<rparr>)
           | None \<Rightarrow> (Err (''media-session-set-art-no-session '' @ show_int p), m)))"

definition cmd_set_state :: "string \<Rightarrow> MediaSessionModule \<Rightarrow> Ctx \<Rightarrow> Reply \<times> MediaSessionModule" where
  "cmd_set_state args m c =
     (let t = split_ws args in
      if length t \<noteq> 2 then (Err ''media-session-set-state-args: <pid> <state>'', m)
      else case parse_i32 (t ! 0) of
        None \<Rightarrow> (bad_pid (t ! 0), m)
      | Some p \<Rightarrow>
          if t ! 1 \<notin> {''none'', ''paused'', ''playing''}
          then (Err (''media-session-bad-state '' @ str_debug (t ! 1)), m)
          else
            (let m1 = touch p (store c) (\<lambda>s. s\<lparr>play_state := t ! 1\<rparr>) m
             in (Ok (''media-session state pid='' @ show_int p),
                 if t ! 1 = ''playing'' then m1\<lparr>active := Some p\<rparr> else m1)))"

definition f64_arg :: "fp \<Rightarrow> string \<Rightarrow> fp" where
  "f64_arg d s = or_default d (parse_fp f64 s)"

definition cmd_set_position :: "string \<Rightarrow> MediaSessionModule \<Rightarrow> Ctx \<Rightarrow> Reply \<times> MediaSessionModule" where
  "cmd_set_position args m c =
     (let t = split_ws args in
      if length t \<noteq> 4 then (Err ''media-session-set-position-args: <pid> <dur> <rate> <pos>'', m)
      else case parse_i32 (t ! 0) of
        None \<Rightarrow> (bad_pid (t ! 0), m)
      | Some p \<Rightarrow>
          (Ok (''media-session position pid='' @ show_int p),
           touch p (store c) (\<lambda>s. s\<lparr>duration_s := f64_arg (Fin False 0) (t ! 1),
             rate := f64_arg (Fin False 1) (t ! 2), position_s := f64_arg (Fin False 0) (t ! 3)\<rparr>) m))"

definition cmd_clear :: "string \<Rightarrow> MediaSessionModule \<Rightarrow> Reply \<times> MediaSessionModule" where
  "cmd_clear args m =
     (case parse_i32 (trim args) of
        None \<Rightarrow> (Err (''media-session-clear-bad-pid '' @ str_debug args), m)
      | Some p \<Rightarrow>
          (let m1 = m\<lparr>sessions := AList.delete p (sessions m)\<rparr>
           in (Ok (''media-session cleared pid='' @ show_int p),
               if active m1 = Some p then recompute_active m1 else m1)))"

definition active_session :: "MediaSessionModule \<Rightarrow> SessionState option" where
  "active_session m = Option.bind (active m) (session m)"

definition cmd_now_playing :: "MediaSessionModule \<Rightarrow> Ctx \<Rightarrow> Reply \<times> MediaSessionModule" where
  "cmd_now_playing m c =
     (let m1 = prune_dead (store c) m in
      (case active_session m1 of
         None \<Rightarrow> Ok []
       | Some s \<Rightarrow>
           Ok (''app='' @ ss_app_id s @ '' title='' @ pct_encode (title s) @ '' artist='' @ pct_encode (artist s) @
               '' album='' @ pct_encode (album s) @
               '' state='' @ (if play_state s = [] then ''none'' else play_state s) @
               '' dur='' @ show_fp f64 (duration_s s) @ '' pos='' @ show_fp f64 (position_s s) @
               '' art='' @ show_bit (art_b64 s \<noteq> [])), m1))"

definition cmd_artwork :: "MediaSessionModule \<Rightarrow> Ctx \<Rightarrow> Reply \<times> MediaSessionModule" where
  "cmd_artwork m c =
     (let m1 = prune_dead (store c) m in
      (case active_session m1 of
         None \<Rightarrow> Ok []
       | Some s \<Rightarrow> Ok (if art_b64 s = [] then [] else art_mime s @ '' '' @ art_b64 s), m1))"

definition cmd_action :: "string \<Rightarrow> MediaSessionModule \<Rightarrow> Ctx \<Rightarrow> Reply \<times> MediaSessionModule \<times> Ctx" where
  "cmd_action args m c =
     (let m1 = prune_dead (store c) m in
      case active m1 of
        None \<Rightarrow> (Err ''media-session-action-no-active-session'', m1, c)
      | Some p \<Rightarrow>
          (case split_ws args of
             [] \<Rightarrow> (Err ''media-session-action-args: <action> [seek]'', m1, c)
           | a # r \<Rightarrow>
               (Ok (''media-session action='' @ a @ '' pid='' @ show_int p), m1,
                deliver_to_host p (''media-session-action '' @ a @ '' '' @ or_default ''-'' (nth_opt r 0) @ [CHR 0x0A]) c)))"

definition media_verbs :: "string list" where
  "media_verbs = [''media-session-set-metadata'', ''media-session-set-art'', ''media-session-set-state'',
     ''media-session-set-position'', ''media-session-clear'', ''media-session-now-playing'',
     ''media-session-artwork'', ''media-session-action'']"

definition media_on_command ::
  "string \<Rightarrow> string \<Rightarrow> MediaSessionModule \<Rightarrow> Ctx \<Rightarrow> Reply \<times> MediaSessionModule \<times> Ctx" where
  "media_on_command verb args m c =
     (let pure = (\<lambda>(r, m'). (r, m', c)) in
      if verb = ''media-session-set-metadata'' then pure (cmd_set_metadata args m c)
      else if verb = ''media-session-set-art'' then pure (cmd_set_art args m)
      else if verb = ''media-session-set-state'' then pure (cmd_set_state args m c)
      else if verb = ''media-session-set-position'' then pure (cmd_set_position args m c)
      else if verb = ''media-session-clear'' then pure (cmd_clear args m)
      else if verb = ''media-session-now-playing'' then pure (cmd_now_playing m c)
      else if verb = ''media-session-artwork'' then pure (cmd_artwork m c)
      else if verb = ''media-session-action'' then cmd_action args m c
      else (Err (''media-session-unknown-verb '' @ verb), m, c))"

definition media_on_event :: "Event \<Rightarrow> MediaSessionModule \<Rightarrow> Ctx \<Rightarrow> MediaSessionModule \<times> Ctx" where
  "media_on_event ev m c =
     (case ev of
        SurfaceRemoved p \<Rightarrow>
          if session m p = None then (m, c)
          else (let m1 = m\<lparr>sessions := AList.delete p (sessions m)\<rparr>
                in (if active m1 = Some p then recompute_active m1 else m1, c))
      | _ \<Rightarrow> (m, c))"

section \<open>Lemmas\<close>

text \<open>One session for each process, and the active process has one.\<close>

definition media_wf :: "MediaSessionModule \<Rightarrow> bool" where
  "media_wf m \<longleftrightarrow> distinct (map fst (sessions m)) \<and> (case active m of None \<Rightarrow> True | Some p \<Rightarrow> session m p \<noteq> None)"

lemma session_simps [simp]:
  "session (m\<lparr>active := a\<rparr>) p = session m p" "session (recompute_active m) p = session m p"
  "sessions (recompute_active m) = sessions m" "session (m\<lparr>ms_seq := n\<rparr>) p = session m p"
  by (simp_all add: session_def recompute_active_def)

lemma session_update [simp]:
  "session (m\<lparr>sessions := AList.update p s (sessions m)\<rparr>) q = (if q = p then Some s else session m q)"
  by (simp add: session_def update_conv')

text \<open>The chosen entry is one of the list and no other ranks above it.\<close>

lemma fallback_le_trans: "fallback_le a b \<Longrightarrow> fallback_le b c \<Longrightarrow> fallback_le a c"
  by (auto simp: fallback_le_def Let_def)

lemma fallback_le_total: "\<not> fallback_le a b \<Longrightarrow> fallback_le b a"
  by (auto simp: fallback_le_def Let_def)

lemma fallback_le_refl [simp]: "fallback_le a a"
  by (simp add: fallback_le_def Let_def)

lemma max_session_append:
  "max_session (ss @ [e]) = (case max_session ss of None \<Rightarrow> Some e
     | Some b \<Rightarrow> if fallback_le (snd b) (snd e) then Some e else Some b)"
  by (simp add: max_session_def)

lemma max_session_Nil [simp]: "max_session [] = None" "max_session [e] = Some e"
  by (simp_all add: max_session_def)

lemma max_session_spec:
  "(max_session ss = None \<longleftrightarrow> ss = []) \<and>
   (\<forall>b. max_session ss = Some b \<longrightarrow> b \<in> set ss \<and> (\<forall>e \<in> set ss. fallback_le (snd e) (snd b)))"
proof (induction ss rule: rev_induct)
  case Nil
  show ?case by simp
next
  case (snoc e ss)
  show ?case
  proof (cases "max_session ss")
    case None
    with snoc show ?thesis by (simp add: max_session_append)
  next
    case (Some b)
    with snoc have b: "b \<in> set ss" "\<forall>e \<in> set ss. fallback_le (snd e) (snd b)"
      by blast+
    show ?thesis
    proof (cases "fallback_le (snd b) (snd e)")
      case True
      then have "\<forall>d \<in> set ss. fallback_le (snd d) (snd e)"
        using b(2) fallback_le_trans by blast
      with Some True show ?thesis by (simp add: max_session_append)
    next
      case False
      with Some b show ?thesis by (simp add: max_session_append fallback_le_total)
    qed
  qed
qed

lemma max_session_mem: "max_session ss = Some b \<Longrightarrow> b \<in> set ss"
  using max_session_spec[of ss] by blast

lemma media_wf_recompute: "distinct (map fst (sessions m)) \<Longrightarrow> media_wf (recompute_active m)"
  using max_session_mem[of "sessions m"]
  by (force simp: media_wf_def recompute_active_def session_def split: option.split)

lemma media_wf_touch:
  "media_wf m \<Longrightarrow> media_wf (touch p st f m)" "media_wf m \<Longrightarrow> media_wf ((touch p st f m)\<lparr>active := Some p\<rparr>)"
  by (auto simp: media_wf_def touch_def session_def update_conv' distinct_update Let_def split: option.splits)

lemma distinct_delete: "distinct (map fst xs) \<Longrightarrow> distinct (map fst (AList.delete p xs))"
  by (simp add: distinct_delete)

lemma media_wf_delete:
  assumes "media_wf m"
  shows "media_wf (if active m = Some p then recompute_active (m\<lparr>sessions := AList.delete p (sessions m)\<rparr>)
    else m\<lparr>sessions := AList.delete p (sessions m)\<rparr>)"
proof -
  have d: "distinct (map fst (AList.delete p (sessions m)))"
    using assms by (intro distinct_delete) (simp add: media_wf_def)
  show ?thesis
  proof (cases "active m = Some p")
    case True
    with d show ?thesis by (simp add: media_wf_recompute)
  next
    case False
    with d assms show ?thesis
      by (auto simp: media_wf_def session_def delete_conv' split: option.splits)
  qed
qed

lemma media_wf_prune:
  assumes "media_wf m"
  shows "media_wf (prune_dead st m)"
    and "session (prune_dead st m) p \<noteq> None \<Longrightarrow> app_by_pid st p \<noteq> None"
proof -
  let ?m = "m\<lparr>sessions := filter (\<lambda>(p, _). app_by_pid st p \<noteq> None) (sessions m)\<rparr>"
  have d: "distinct (map fst (sessions ?m))"
    using assms by (simp add: media_wf_def)
  show "media_wf (prune_dead st m)"
    using d media_wf_recompute[OF d] by (auto simp: prune_dead_def media_wf_def Let_def split: option.split)
  have "session (prune_dead st m) p = session ?m p"
    by (simp add: prune_dead_def Let_def split: option.split)
  moreover have "session ?m p \<noteq> None \<Longrightarrow> app_by_pid st p \<noteq> None"
    by (auto simp: session_def dest: map_of_SomeD)
  ultimately show "session (prune_dead st m) p \<noteq> None \<Longrightarrow> app_by_pid st p \<noteq> None"
    by simp
qed

section \<open>Properties\<close>

lemma media_on_command_wf [inv_intros]:
  assumes "media_wf m"
  shows "media_wf (fst (snd (media_on_command verb args m c)))"
proof -
  have "media_wf (snd (cmd_set_metadata args m c))" "media_wf (snd (cmd_set_state args m c))"
    "media_wf (snd (cmd_set_position args m c))"
    using assms by (auto simp: cmd_set_metadata_def cmd_set_state_def cmd_set_position_def media_wf_touch Let_def
        split: option.split)
  moreover have "media_wf (snd (cmd_set_art args m))"
    using assms by (auto simp: cmd_set_art_def media_wf_def distinct_update Let_def split: option.splits)
  moreover have "media_wf (snd (cmd_clear args m))"
    using assms media_wf_delete[OF assms] by (simp add: cmd_clear_def Let_def split: option.split)
  moreover have "media_wf (snd (cmd_now_playing m c))" "media_wf (snd (cmd_artwork m c))"
    "media_wf (fst (snd (cmd_action args m c)))"
    using media_wf_prune(1)[OF assms]
    by (simp_all add: cmd_now_playing_def cmd_artwork_def cmd_action_def Let_def split: option.split list.split)
  ultimately show ?thesis
    using assms by (simp add: media_on_command_def case_prod_beta Let_def)
qed

lemma media_on_event_wf [inv_intros]:
  assumes "media_wf m"
  shows "media_wf (fst (media_on_event ev m c))"
  using assms media_wf_delete[OF assms] by (simp add: media_on_event_def Let_def split: Event.split)

text \<open>
  The active session always exists: through every command and event, the active process has
  one session.
\<close>

theorem active_session_exists:
  assumes "media_wf m"
  shows "media_wf (fst (snd (media_on_command verb args m c))) \<and> media_wf (fst (media_on_event ev m c))"
  using assms by (simp add: media_on_command_wf media_on_event_wf)

theorem active_session_exists_witness:
  "media_wf (fst (media_on_event (SurfaceRemoved 10) MediaSessionModule_new demo_ctx))"
proof -
  have "media_wf MediaSessionModule_new"
    by (simp add: media_wf_def MediaSessionModule_new_def)
  from conjunct2[OF active_session_exists[OF this]] show ?thesis .
qed

text \<open>
  A transport action is only ever routed to a live process: the active one, whose app is
  still in the registry.
\<close>

theorem action_reaches_live_player:
  assumes "media_wf m" "cmd_action args m c = (Ok r, m', c')"
  shows "\<exists>p line. effects c' = effects c @ [HostLine p line] \<and> active m' = Some p
    \<and> session m' p \<noteq> None \<and> app_by_pid (store c) p \<noteq> None"
proof -
  obtain p a rest where "active (prune_dead (store c) m) = Some p" "split_ws args = a # rest"
    "m' = prune_dead (store c) m"
    "effects c' = effects c @ [HostLine p (''media-session-action '' @ a @ '' '' @ or_default ''-'' (nth_opt rest 0) @ [CHR 0x0A])]"
    using assms(2) by (auto simp: cmd_action_def Let_def split: option.splits list.splits)
  moreover from this have "session m' p \<noteq> None"
    using media_wf_prune(1)[OF assms(1), of "store c"] by (simp add: media_wf_def)
  ultimately show ?thesis
    using media_wf_prune(2)[OF assms(1)] by blast
qed

theorem action_reaches_live_player_witness:
  "let m = \<lparr>sessions = [(10, SessionState_default), (99, SessionState_default)], active = Some 99, ms_seq = 2\<rparr>;
       (r, m', c') = cmd_action ''pause'' m demo_ctx
   in \<exists>p line. effects c' = [HostLine p line] \<and> app_by_pid demo_store p \<noteq> None"
proof -
  let ?m = "\<lparr>sessions = [(10, SessionState_default), (99, SessionState_default)], active = Some 99, ms_seq = 2\<rparr>"
  have "fst (cmd_action ''pause'' ?m demo_ctx) = Ok ''media-session action=pause pid=10''"
    by code_simp
  then obtain m' c' where 1: "cmd_action ''pause'' ?m demo_ctx = (Ok ''media-session action=pause pid=10'', m', c')"
    by (metis prod.collapse)
  have "media_wf ?m"
    by (simp add: media_wf_def session_def)
  from action_reaches_live_player[OF this 1]
  have "\<exists>p line. effects c' = [HostLine p line] \<and> app_by_pid demo_store p \<noteq> None"
    by (auto simp: demo_ctx_def)
  with 1 show ?thesis by (simp only: Let_def prod.case)
qed

text \<open>
  When the active player dies, the best remaining session takes over: a playing one before
  any other, among those the most recently touched; none only if no session is left.
\<close>

theorem fallback_is_best:
  assumes "session m p \<noteq> None" "active m = Some p"
  shows "let m' = fst (media_on_event (SurfaceRemoved p) m c) in
    case active m' of None \<Rightarrow> sessions m' = []
    | Some q \<Rightarrow> \<exists>s. (q, s) \<in> set (sessions m') \<and> q \<noteq> p \<and> (\<forall>(_, t) \<in> set (sessions m'). fallback_le t s)"
proof -
  let ?ss = "AList.delete p (sessions m)"
  have e: "fst (media_on_event (SurfaceRemoved p) m c) = recompute_active (m\<lparr>sessions := ?ss\<rparr>)"
    unfolding media_on_event_def Event.case if_not_P[OF assms(1)] using assms(2) by (simp add: Let_def)
  show ?thesis
  proof (cases "max_session ?ss")
    case None
    then show ?thesis
      using max_session_spec[of ?ss] by (simp add: e recompute_active_def)
  next
    case (Some b)
    then have b: "b \<in> set ?ss" "\<forall>e \<in> set ?ss. fallback_le (snd e) (snd b)"
      using max_session_spec[of ?ss] by blast+
    then have "fst b \<noteq> p"
      by (auto simp: AList.delete_eq)
    with Some b show ?thesis
      by (auto simp: e recompute_active_def intro!: exI[of _ "snd b"])
  qed
qed

theorem fallback_is_best_witness:
  "active (fst (media_on_event (SurfaceRemoved 10)
     \<lparr>sessions = [(10, SessionState_default), (20, SessionState_default\<lparr>ss_seq := 5\<rparr>),
        (30, SessionState_default\<lparr>play_state := ''playing'', ss_seq := 1\<rparr>)], active = Some 10, ms_seq = 5\<rparr> demo_ctx))
   \<noteq> None"
proof -
  let ?m = "\<lparr>sessions = [(10, SessionState_default), (20, SessionState_default\<lparr>ss_seq := 5\<rparr>),
        (30, SessionState_default\<lparr>play_state := ''playing'', ss_seq := 1\<rparr>)], active = Some 10, ms_seq = 5\<rparr>"
  have "session ?m 10 \<noteq> None" "active ?m = Some 10"
    by (simp_all add: session_def)
  from fallback_is_best[OF this, of demo_ctx] show ?thesis
    by (auto simp: media_on_event_def recompute_active_def session_def Let_def split: option.splits)
qed

end
