(* ===== verification/Arbiter.thy ===== *)
theory Arbiter
  imports Wm AlarmMod NotifyMod EventsMod Keyguard Audio Sensors PowerMod Net MediaSession
begin

text \<open>
  The whole arbiter: the eleven modules behind one trait object, the registry
  \<open>build_registry\<close> makes of them, and the two contracts of the bus discharged on them:
  no cascade panics, and every cascade runs out of events before the depth cap.
\<close>

section \<open>The modules\<close>

text \<open>The boxed modules; four of them keep no state of their own.\<close>

datatype AnyModule = WmM | ShellM | AlarmM | NotifyM | PowerM PowerModule | KeyguardM KeyguardModule
  | AudioM AudioModule | SensorsM SensorsModule | NetM NetModule | EventsM EventsModule
  | MediaM MediaSessionModule

fun any_verbs :: "AnyModule \<Rightarrow> string list" where
  "any_verbs WmM = wm_verbs"
| "any_verbs ShellM = shell_verbs"
| "any_verbs AlarmM = alarm_verbs"
| "any_verbs NotifyM = notify_verbs"
| "any_verbs (PowerM m) = power_verbs"
| "any_verbs (KeyguardM m) = keyguard_verbs"
| "any_verbs (AudioM m) = audio_verbs"
| "any_verbs (SensorsM m) = sensors_verbs"
| "any_verbs (NetM m) = net_verbs"
| "any_verbs (EventsM m) = events_verbs"
| "any_verbs (MediaM m) = media_verbs"

abbreviation boxed :: "('m \<Rightarrow> AnyModule) \<Rightarrow> Reply \<times> 'm \<times> Ctx \<Rightarrow> (Reply \<times> AnyModule \<times> Ctx) option" where
  "boxed box x \<equiv> Some (fst x, box (fst (snd x)), snd (snd x))"

abbreviation boxed_ev :: "('m \<Rightarrow> AnyModule) \<Rightarrow> 'm \<times> Ctx \<Rightarrow> (AnyModule \<times> Ctx) option" where
  "boxed_ev box x \<equiv> Some (box (fst x), snd x)"

fun any_on_command :: "(fp \<Rightarrow> fp) \<Rightarrow> AnyModule \<Rightarrow> string \<Rightarrow> string \<Rightarrow> Ctx \<Rightarrow> (Reply \<times> AnyModule \<times> Ctx) option" where
  "any_on_command lg WmM v a c = boxed (\<lambda>_. WmM) (let (r, c') = wm_on_command v a c in (r, (), c'))"
| "any_on_command lg ShellM v a c = map_option (\<lambda>(r, c'). (r, ShellM, c')) (shell_on_command v a c)"
| "any_on_command lg AlarmM v a c = boxed (\<lambda>_. AlarmM) (let (r, c') = alarm_on_command v a c in (r, (), c'))"
| "any_on_command lg NotifyM v a c = boxed (\<lambda>_. NotifyM) (let (r, c') = notify_on_command v a c in (r, (), c'))"
| "any_on_command lg (PowerM m) v a c = boxed PowerM (power_on_command lg v a m c)"
| "any_on_command lg (KeyguardM m) v a c = boxed KeyguardM (keyguard_on_command v a m c)"
| "any_on_command lg (AudioM m) v a c = boxed AudioM (audio_on_command v a m c)"
| "any_on_command lg (SensorsM m) v a c = boxed SensorsM (sensors_on_command v a m c)"
| "any_on_command lg (NetM m) v a c = boxed NetM (net_on_command v a m c)"
| "any_on_command lg (EventsM m) v a c = boxed EventsM (events_on_command v a m c)"
| "any_on_command lg (MediaM m) v a c = boxed MediaM (media_on_command v a m c)"

fun any_on_event :: "(fp \<Rightarrow> fp) \<Rightarrow> AnyModule \<Rightarrow> Event \<Rightarrow> Ctx \<Rightarrow> (AnyModule \<times> Ctx) option" where
  "any_on_event lg WmM ev c = Some (WmM, wm_on_event ev c)"
| "any_on_event lg ShellM ev c = map_option (\<lambda>c'. (ShellM, c')) (shell_on_event ev c)"
| "any_on_event lg AlarmM ev c = Some (AlarmM, alarm_on_event ev c)"
| "any_on_event lg NotifyM ev c = Some (NotifyM, c)"
| "any_on_event lg (PowerM m) ev c = boxed_ev PowerM (power_on_event lg ev m c)"
| "any_on_event lg (KeyguardM m) ev c = boxed_ev KeyguardM (keyguard_on_event ev m c)"
| "any_on_event lg (AudioM m) ev c = boxed_ev AudioM (audio_on_event ev m c)"
| "any_on_event lg (SensorsM m) ev c = boxed_ev SensorsM (sensors_on_event ev m c)"
| "any_on_event lg (NetM m) ev c = boxed_ev NetM (net_on_event ev m c)"
| "any_on_event lg (EventsM m) ev c = Some (EventsM (events_on_event ev m), c)"
| "any_on_event lg (MediaM m) ev c = boxed_ev MediaM (media_on_event ev m c)"

definition arbiter :: "(fp \<Rightarrow> fp) \<Rightarrow> AnyModule ArbiterModule" where
  "arbiter lg = \<lparr>verbs = any_verbs, on_command = any_on_command lg, on_event = any_on_event lg\<rparr>"

lemma arbiter_simps [simp]:
  "verbs (arbiter lg) = any_verbs" "on_command (arbiter lg) = any_on_command lg"
  "on_event (arbiter lg) = any_on_event lg"
  by (simp_all add: arbiter_def)

definition WIFI_STORE_PATH :: string where
  "WIFI_STORE_PATH = ''/data/local/tmp/wandr-wifi-networks.json''"

fun register_all :: "'m ArbiterModule \<Rightarrow> 'm list \<Rightarrow> 'm Registry \<Rightarrow> 'm Registry option" where
  "register_all T [] r = Some r"
| "register_all T (m # ms) r = do { r' \<leftarrow> register T m r; register_all T ms r' }"

definition boot_modules :: "string option \<Rightarrow> bool \<Rightarrow> AnyModule list" where
  "boot_modules file ok =
     [WmM, ShellM, AlarmM, NotifyM, PowerM PowerModule_new, KeyguardM KeyguardModule_new,
      AudioM AudioModule_new, SensorsM SensorsModule_new,
      NetM (NetModule_with_store WIFI_STORE_PATH file ok), EventsM EventsModule_new,
      MediaM MediaSessionModule_new]"

definition build_registry :: "(fp \<Rightarrow> fp) \<Rightarrow> string option \<Rightarrow> bool \<Rightarrow> AnyModule Registry option" where
  "build_registry lg file ok = register_all (arbiter lg) (boot_modules file ok) Registry_new"

lemma register_all_ok:
  "register_all T ms r = Some r' \<Longrightarrow> index_ok T r \<Longrightarrow> index_ok T r' \<and> modules r' = modules r @ ms"
proof (induction ms arbitrary: r)
  case (Cons m ms)
  then obtain r1 where 1: "register T m r = Some r1" "register_all T ms r1 = Some r'"
    by (auto split: Option.bind_splits)
  moreover from 1(1) have "modules r1 = modules r @ [m]"
    by (auto simp: register_def split: Option.bind_splits)
  ultimately show ?case
    using Cons.IH[OF 1(2) register_index_ok[OF Cons.prems(2) 1(1)]] by simp
qed simp

text \<open>Registration goes through exactly when no verb is claimed twice.\<close>

lemma index_verbs_total:
  "distinct vs \<Longrightarrow> (\<forall>v \<in> set vs. map_of vi v = None) \<Longrightarrow>
   \<exists>vi'. index_verbs i vs vi = Some vi' \<and> dom (map_of vi') = dom (map_of vi) \<union> set vs"
proof (induction vs arbitrary: vi)
  case (Cons v vs)
  have "\<forall>w \<in> set vs. map_of (AList.update v i vi) w = None"
    using Cons.prems by (auto simp: update_conv')
  from Cons.IH[OF _ this] Cons.prems show ?case
    by (auto simp: update_conv')
qed auto

lemma register_all_total:
  "distinct (concat (map (verbs T) ms)) \<Longrightarrow> dom (map_of (verb_index r)) \<inter> set (concat (map (verbs T) ms)) = {} \<Longrightarrow>
   register_all T ms r \<noteq> None"
proof (induction ms arbitrary: r)
  case (Cons m ms)
  have "\<forall>v \<in> set (verbs T m). map_of (verb_index r) v = None"
    using Cons.prems(2) by (auto simp: domIff disjoint_iff)
  moreover have "distinct (verbs T m)"
    using Cons.prems(1) by simp
  ultimately obtain vi where vi: "index_verbs (length (modules r)) (verbs T m) (verb_index r) = Some vi"
    "dom (map_of vi) = dom (map_of (verb_index r)) \<union> set (verbs T m)"
    using index_verbs_total by blast
  have "register_all T ms \<lparr>modules = modules r @ [m], verb_index = vi\<rparr> \<noteq> None"
    using Cons.prems by (intro Cons.IH) (auto simp: vi(2))
  with vi(1) show ?case by (simp add: register_def)
qed simp

section \<open>The shell on a loose stack\<close>

text \<open>
  The keyguard and the outside commands may break the split, so the whole arbiter keeps less
  than the shell alone: keyed surfaces, a tracked keyboard, and apps whose pids are tracked and
  distinct.  This is enough for \<open>reconcile_overlay\<close> not to panic.
\<close>

definition arb_ok :: "Store \<Rightarrow> bool" where
  "arb_ok st \<longleftrightarrow> registry_keyed st \<and> keyed (prim st) \<and> ime_tracked (prim st)
     \<and> (\<forall>i a. app st i = Some a \<longrightarrow> role_of (a_pid a) (prim st) \<noteq> None)
     \<and> (\<forall>i j a b. app st i = Some a \<longrightarrow> app st j = Some b \<longrightarrow> a_pid a = a_pid b \<longrightarrow> i = j)"

lemma arb_ok_new: "arb_ok Store_new"
  using shell_ok_new by (auto simp: shell_ok_def arb_ok_def shell_wf_def split_wf_def)

text \<open>Steps that only move roles, add surfaces or change the editor.\<close>

definition loose :: "Ctx \<Rightarrow> Ctx \<Rightarrow> bool" where
  "loose c c' \<longleftrightarrow> shell_frame c c' \<and> (keyed (prim (store c)) \<longrightarrow> keyed (prim (store c')))"

lemma loose_refl [simp]: "loose c c"
  by (simp add: loose_def)

lemma loose_trans: "loose a b \<Longrightarrow> loose b c \<Longrightarrow> loose a c"
  by (auto simp: loose_def intro: shell_frame_trans)

lemma app_apps: "apps a = apps b \<Longrightarrow> app a = app b"
  by (simp add: app_def fun_eq_iff)

lemma loose_arb: "arb_ok (store c) \<Longrightarrow> loose c c' \<Longrightarrow> arb_ok (store c')"
  using registry_keyed_apps[of "store c" "store c'"] app_apps[of "store c'" "store c"]
  by (auto simp: arb_ok_def loose_def shell_frame_def ime_tracked_def)

lemma loose_steps [intro]:
  "loose c (apply_role p r c)" "loose c (place p i r c)" "loose c (on_primary (set_role p r) c)"
  "loose c (on_primary (set_ime_editor v) c)" "loose c (drop_editor_focus_of p c)"
  by (auto simp: loose_def shell_frame_def inv_intros)

lemma loose_outbox [simp]:
  "loose c (emit e c') = loose c c'" "loose c (request x c') = loose c c'"
  "loose c (deliver_to_host p l c') = loose c c'"
  by (simp_all add: loose_def shell_frame_def)

lemma loose_demote: "loose c (snd (demote_from_overlay c))"
proof (cases "role_pid (store c) Overlay")
  case (Some x)
  then show ?thesis
    using loose_steps(1) loose_trans by (cases x) (fastforce simp: demote_from_overlay_def Let_def split: option.split)
qed (simp add: demote_from_overlay_def)

lemma loose_promote_overlay: "loose c (snd (promote_to_overlay i p h c))"
proof -
  have "loose c (snd (case d of Some prev \<Rightarrow> (Some prev, apply_role prev OverlayBehind c)
      | None \<Rightarrow> (h, case h of None \<Rightarrow> c | Some q \<Rightarrow> on_primary (set_role q OverlayBehind) c)))" for d
    using loose_steps by (cases d; cases h) auto
  from loose_trans[OF this loose_steps(2)] show ?thesis
    unfolding promote_to_overlay_def Let_def case_prod_beta snd_conv by (simp add: case_prod_beta)
qed

text \<open>The panic-freedom every command and event of the shell rests on.\<close>

lemma reconcile_total:
  assumes "arb_ok (store c)"
  shows "\<exists>c'. reconcile_overlay c = Some c' \<and> loose c c'"
proof (cases "sh_overlay_desired (store c)")
  case None
  then show ?thesis
    using loose_demote by (cases "sh_overlay_engaged (store c)") (simp_all add: reconcile_overlay_def Let_def)
next
  case (Some ime)
  have "active_ime (prim (store c)) = Some ime"
    using Some overlay_desired_SomeD[of "prim (store c)" ime] by (auto simp: sh_prim)
  then obtain s where "active_ime_surface (prim (store c)) = Some s"
    using assms active_ime_surface_tracked by (metis arb_ok_def)
  then have "sh_active_ime (store c) = Some (pid_and_id s)"
    by (simp add: sh_prim)
  with Some loose_promote_overlay show ?thesis
    by (cases "sh_overlay_engaged (store c)") (auto simp: reconcile_overlay_def pid_and_id_def Let_def)
qed

lemma promote_total:
  assumes "arb_ok (store c)"
  shows "\<exists>c'. promote_to_foreground i p c = Some c' \<and> loose c c'"
proof -
  let ?c1 = "if sh_overlay_engaged (store c) then snd (demote_from_overlay c) else c"
  have 1: "loose c ?c1"
    using loose_demote by simp
  let ?c2 = "case role_pid (store ?c1) Role.Foreground of None \<Rightarrow> ?c1
    | Some (prev, _) \<Rightarrow> if prev \<noteq> p then drop_editor_focus_of prev (apply_role prev Background ?c1) else ?c1"
  have "loose ?c1 ?c2"
    using loose_trans[OF loose_steps(1) loose_steps(5), of ?c1] by (auto split: option.split)
  then have 3: "loose c (place p i Role.Foreground ?c2)"
    using 1 loose_steps(2) loose_trans by blast
  obtain c' where "reconcile_overlay (place p i Role.Foreground ?c2) = Some c'"
    "loose (place p i Role.Foreground ?c2) c'"
    using reconcile_total[OF loose_arb[OF assms 3]] by blast
  with 3 loose_trans show ?thesis
    by (auto simp: promote_to_foreground_def Let_def)
qed

lemma registry_keyed_display [simp]: "registry_keyed (display_mut i f st) = registry_keyed st"
  by (simp add: registry_keyed_def)

lemma arb_ok_remove:
  assumes "arb_ok st" "\<forall>j b. app st j = Some b \<longrightarrow> a_pid b = p \<longrightarrow> j = i"
  shows "arb_ok (display_mut PRIMARY_DISPLAY (remove_surface p) (remove_app i st))"
  using assms by (auto simp: arb_ok_def inv_intros split: if_splits)

lemma arb_ok_kill:
  assumes "arb_ok (store c)" "app (store c) i = Some a"
  shows "arb_ok (store (kill_app i (a_pid a) c))"
proof -
  have "\<forall>j b. app (store c) j = Some b \<longrightarrow> a_pid b = a_pid a \<longrightarrow> j = i"
    using assms by (auto simp: arb_ok_def)
  from arb_ok_remove[OF assms(1) this] show ?thesis
    by (simp add: kill_app_def on_primary_def)
qed

lemma arb_ok_surface_removed:
  assumes "arb_ok (store c)"
  shows "arb_ok (store (on_surface_removed p c))"
proof -
  let ?inv = "sh_overlay_engaged (store c) \<and>
            (map_option fst (role_pid (store c) Overlay) = Some p \<or>
             map_option fst (role_pid (store c) OverlayBehind) = Some p)"
  obtain c1 where c1: "c1 = (if ?inv then snd (demote_from_overlay c) else c)" by blast
  have ok: "arb_ok (store c1)"
    unfolding c1 using assms loose_arb[OF assms loose_demote] by simp
  then have k: "registry_keyed (store c1)"
    by (simp add: arb_ok_def)
  have e: "on_surface_removed p c = on_primary (remove_surface p)
      (case app_by_pid (store c1) p of None \<Rightarrow> c1 | Some a \<Rightarrow> on_store (remove_app (a_app_id a)) c1)"
    unfolding on_surface_removed_def Let_def c1 ..
  show ?thesis
  proof (cases "app_by_pid (store c1) p")
    case None
    have "\<forall>j b. app (store c1) j = Some b \<longrightarrow> a_pid b \<noteq> p"
      using app_by_pid_None[OF k None] by blast
    with ok None show ?thesis
      unfolding e by (auto simp: on_primary_def arb_ok_def inv_intros registry_keyed_apps[of "store c1"])
  next
    case (Some a)
    have "\<forall>j b. app (store c1) j = Some b \<longrightarrow> a_pid b = p \<longrightarrow> j = a_app_id a"
      using ok app_by_pid_SomeD[OF k Some] by (auto simp: arb_ok_def)
    from arb_ok_remove[OF ok this] Some show ?thesis
      unfolding e by (simp add: on_primary_def)
  qed
qed

text \<open>A new or relaunched app, under a pid no other app has, and its surface.\<close>

lemma arb_ok_insert:
  assumes "arb_ok st" "\<forall>j b. app st j = Some b \<longrightarrow> a_pid b = a_pid a \<longrightarrow> j = a_app_id a"
  shows "arb_ok (display_mut PRIMARY_DISPLAY (put_surface (a_pid a) i r) (insert_app a st))"
proof -
  let ?st = "display_mut PRIMARY_DISPLAY (put_surface (a_pid a) i r) (insert_app a st)"
  have st: "registry_keyed st" "keyed (prim st)" "ime_tracked (prim st)"
    "\<And>i b. app st i = Some b \<Longrightarrow> role_of (a_pid b) (prim st) \<noteq> None"
    "\<And>i j b d. app st i = Some b \<Longrightarrow> app st j = Some d \<Longrightarrow> a_pid b = a_pid d \<Longrightarrow> i = j"
    using assms(1) unfolding arb_ok_def by blast+
  have "registry_keyed ?st" "keyed (prim ?st)" "ime_tracked (prim ?st)"
    using st(1-3) by (simp_all add: registry_keyed_insert keyed_put)
  moreover have "role_of (a_pid b) (prim ?st) \<noteq> None" if "app ?st j = Some b" for j b
    using that st(4)[of j b] by (simp split: if_splits)
  moreover have "j = k" if "app ?st j = Some b" "app ?st k = Some d" "a_pid b = a_pid d" for j k b d
  proof (cases "j = a_app_id a \<or> k = a_app_id a")
    case True
    with that assms(2)[rule_format, of j b] assms(2)[rule_format, of k d] show ?thesis
      by (auto split: if_splits)
  next
    case False
    with that have "app st j = Some b" "app st k = Some d" by simp_all
    then show ?thesis using that(3) by (rule st(5))
  qed
  ultimately show ?thesis
    unfolding arb_ok_def by blast
qed

text \<open>Registering a chrome surface under a pid no other app has.\<close>

definition chrome_fresh :: "string \<Rightarrow> string \<Rightarrow> Store \<Rightarrow> bool" where
  "chrome_fresh verb args st \<longleftrightarrow> verb \<noteq> ''register-chrome'' \<or>
     (case split_ws args of
        i # p_s # parts \<Rightarrow>
          (case parse_i32 p_s of None \<Rightarrow> True
           | Some p \<Rightarrow> filter (\<lambda>a. a_pid a = p \<and> a_app_id a \<noteq> i) (apps_snapshot st) = [])
      | _ \<Rightarrow> True)"

lemma loose_ok: "arb_ok (store c) \<Longrightarrow> loose c (snd x) \<Longrightarrow> \<exists>r c'. Some x = Some (r, c') \<and> arb_ok (store c')"
  using loose_arb by (cases x) auto

lemma cmd_foreground_total:
  assumes "arb_ok (store c)"
  shows "\<exists>r c'. cmd_foreground i c = Some (r, c') \<and> arb_ok (store c')"
proof (cases "app (store c) i")
  case (Some a)
  obtain c' where "promote_to_foreground (a_app_id a) (a_pid a) c = Some c'" "loose c c'"
    using promote_total[OF assms] by blast
  with Some assms loose_arb show ?thesis by (auto simp: cmd_foreground_def)
qed (use assms in \<open>auto simp: cmd_foreground_def\<close>)

lemma cmd_cycle_total:
  assumes "arb_ok (store c)"
  shows "\<exists>r c'. cmd_cycle_task c = Some (r, c') \<and> arb_ok (store c')"
proof -
  obtain c' where "promote_to_foreground (a_app_id (next_task (store c))) (a_pid (next_task (store c))) c = Some c'"
    "loose c c'"
    using promote_total[OF assms] by blast
  with assms loose_arb show ?thesis by (auto simp: cmd_cycle_task_def Let_def)
qed

lemma cmd_back_total:
  assumes "arb_ok (store c)"
  shows "\<exists>r c'. cmd_back c = Some (r, c') \<and> arb_ok (store c')"
proof -
  let ?c1 = "case sh_ime_editor (store c) of None \<Rightarrow> c | Some (editor, _) \<Rightarrow> drop_editor_focus_of editor c"
  have 1: "loose c ?c1"
    using loose_steps(5) by (auto split: option.split)
  obtain c2 where "reconcile_overlay ?c1 = Some c2" "loose ?c1 c2"
    using reconcile_total[OF loose_arb[OF assms 1]] by blast
  with assms loose_arb[OF loose_arb[OF assms 1]] show ?thesis
    by (auto simp: cmd_back_def Let_def split: option.split)
qed

lemma cmd_attach_total:
  assumes "arb_ok (store c)"
  shows "\<exists>r c'. cmd_attach_editor rest c = Some (r, c') \<and> arb_ok (store c')"
proof -
  have "\<exists>c2. reconcile_overlay (on_primary (set_ime_editor v) c) = Some c2 \<and> arb_ok (store c2)" for v
    using reconcile_total[OF loose_arb[OF assms loose_steps(4)]] loose_arb[OF loose_arb[OF assms loose_steps(4)]]
    by blast
  then obtain rc where rc: "reconcile_overlay (on_primary (set_ime_editor v) c) = Some (rc v)" "arb_ok (store (rc v))" for v
    by metis
  show ?thesis
    using assms rc(2)
    by (auto simp: cmd_attach_editor_def Let_def rc(1) split: option.split)
qed

lemma cmd_detach_total:
  assumes "arb_ok (store c)"
  shows "\<exists>r c'. cmd_detach_editor rest c = Some (r, c') \<and> arb_ok (store c')"
proof -
  obtain c2 where "reconcile_overlay (on_primary (set_ime_editor None) c) = Some c2" "arb_ok (store c2)"
    using reconcile_total[OF loose_arb[OF assms loose_steps(4)]] loose_arb[OF loose_arb[OF assms loose_steps(4)]]
    by blast
  with assms show ?thesis
    by (auto simp: cmd_detach_editor_def Let_def split: option.split)
qed

lemma arb_ok_active_ime:
  "arb_ok st \<Longrightarrow> (\<forall>p. v = Some p \<longrightarrow> role_of p (prim st) \<noteq> None) \<Longrightarrow>
   arb_ok (display_mut PRIMARY_DISPLAY (\<lambda>d. d\<lparr>active_ime := v\<rparr>) st)"
  by (auto simp: arb_ok_def ime_tracked_def keyed_def pids_def role_of_def)

lemma cmd_set_ime_total: "arb_ok (store c) \<Longrightarrow> arb_ok (store (snd (cmd_set_ime i c)))"
  by (auto simp: cmd_set_ime_def on_primary_def Let_def intro!: arb_ok_active_ime split: option.split)
    (auto simp: arb_ok_def)

lemma cmd_register_chrome_total:
  assumes "arb_ok (store c)" "chrome_fresh ''register-chrome'' rest (store c)"
  shows "arb_ok (store (snd (cmd_register_chrome rest c)))"
proof (cases "\<exists>i p_s parts p. split_ws rest = i # p_s # parts \<and> parse_i32 p_s = Some p")
  case False
  with assms(1) show ?thesis
    by (auto simp: cmd_register_chrome_def split: list.split option.split)
next
  case True
  then obtain i p_s parts p where s: "split_ws rest = i # p_s # parts" "parse_i32 p_s = Some p" by blast
  have k: "registry_keyed (store c)"
    using assms(1) by (simp add: arb_ok_def)
  have fresh: "j = i" if "app (store c) j = Some a" "a_pid a = p" for j a
    using assms(2) s app_in_snapshot[OF that(1)] that k
    by (auto simp: chrome_fresh_def filter_empty_conv registry_keyed_def)
  let ?a = "\<lparr>a_app_id = i, a_pid = p, launched_at = cl_unix (clock c), launched_mono = cl_mono (clock c)\<rparr>"
  let ?c2 = "on_primary (put_surface p i Chrome) (on_store (insert_app ?a) c)"
  have "arb_ok (store ?c2)"
    using arb_ok_insert[OF assms(1), of ?a i Chrome] fresh by (simp add: on_primary_def)
  moreover have "loose ?c2 (on_primary (set_chrome_anchor p an) ?c2)" for an
    by (simp add: loose_def shell_frame_def keyed_anchor)
  then have "arb_ok (store (on_primary (set_chrome_anchor p an) ?c2))" for an
    using loose_arb[OF calculation] by blast
  ultimately show ?thesis
    by (simp add: cmd_register_chrome_def s Let_def case_prod_beta split: option.split)
qed

lemma arb_ok_cong: "apps a = apps b \<Longrightarrow> prim a = prim b \<Longrightarrow> arb_ok a = arb_ok b"
  using app_apps[of a b] by (simp add: arb_ok_def registry_keyed_def)

lemma arb_ok_ime_height [simp]: "arb_ok (set_ime_height px st) = arb_ok st"
  by (rule arb_ok_cong) (simp_all add: set_ime_height_def prim_def display_def)

lemma shell_command_total:
  assumes "arb_ok (store c)" "chrome_fresh verb args (store c)"
  shows "\<exists>r c'. shell_on_command verb args c = Some (r, c') \<and> arb_ok (store c')"
proof -
  note ok = cmd_foreground_total cmd_back_total cmd_cycle_total cmd_attach_total cmd_detach_total
  have pure: "\<exists>r c'. Some x = Some (r, c') \<and> arb_ok (store c')" if "arb_ok (store (snd x))" for x :: "Reply \<times> Ctx"
    using that by (cases x) simp
  have "arb_ok (store (snd (cmd_kill i c)))" "arb_ok (store (snd (cmd_task_kill i c)))" for i
    using assms(1) arb_ok_kill by (auto simp: cmd_kill_def cmd_task_kill_def split: option.split)
  moreover have "arb_ok (store (snd (cmd_overlay i c)))" for i
    using assms(1) loose_arb[OF assms(1) loose_promote_overlay]
    by (auto simp: cmd_overlay_def Let_def case_prod_beta split: option.split)
  moreover have "arb_ok (store (snd (cmd_overlay_clear c)))"
    using loose_arb[OF assms(1) loose_demote]
    by (auto simp: cmd_overlay_clear_def split: option.split prod.split)
  moreover have "arb_ok (store (snd (cmd_ime_overlay_height i c)))" for i
    using assms(1) by (simp add: cmd_ime_overlay_height_def Let_def split: option.split)
  moreover have "verb = ''register-chrome'' \<Longrightarrow> arb_ok (store (snd (cmd_register_chrome args c)))"
    using cmd_register_chrome_total[OF assms(1)] assms(2) by simp
  ultimately show ?thesis
    unfolding shell_on_command_def
    by (intro if_branches ok[OF assms(1)] pure) (simp_all add: assms(1) cmd_set_ime_total)
qed

lemma shell_event_total:
  assumes "arb_ok (store c)"
  shows "\<exists>c'. shell_on_event ev c = Some c' \<and> arb_ok (store c')"
proof (cases ev)
  case (SurfaceRemoved p)
  then show ?thesis
    using arb_ok_surface_removed[OF assms] by (simp add: shell_on_event_def)
next
  case (ForegroundChanged i p)
  let ?c1 = "case sh_ime_editor (store c) of None \<Rightarrow> c
    | Some (e, _) \<Rightarrow> if sh_visible_app (store c) \<noteq> Some e then drop_editor_focus_of e c else c"
  have 1: "loose c ?c1"
    using loose_steps(5) by (auto split: option.split)
  obtain c2 where "reconcile_overlay ?c1 = Some c2" "loose ?c1 c2"
    using reconcile_total[OF loose_arb[OF assms 1]] by blast
  with loose_arb[OF loose_arb[OF assms 1]] show ?thesis
    by (simp add: ForegroundChanged shell_on_event_def)
qed (use assms in \<open>simp_all add: shell_on_event_def\<close>)

section \<open>The other modules on the store\<close>

definition core_frame :: "Ctx \<Rightarrow> Ctx \<Rightarrow> bool" where
  "core_frame c c' \<longleftrightarrow> apps (store c') = apps (store c) \<and> displays (store c') = displays (store c)
     \<and> home (store c') = home (store c)"

lemma core_frame_arb: "arb_ok (store c) \<Longrightarrow> core_frame c c' \<Longrightarrow> arb_ok (store c')"
  using arb_ok_cong[of "store c'" "store c"] by (simp add: core_frame_def prim_def display_def)

lemma geometry_only_arb:
  assumes "geometry_only st st'" "arb_ok st"
  shows "arb_ok st'"
proof -
  have "arb_ok (geometry_mut i f st)" for i f
  proof -
    have g: "keyed (d\<lparr>geometry := g\<rparr>) = keyed d" "ime_tracked (d\<lparr>geometry := g\<rparr>) = ime_tracked d"
      "role_of p (d\<lparr>geometry := g\<rparr>) = role_of p d" for d g p
      by (simp_all add: keyed_def pids_def ime_tracked_def role_of_def)
    have "prim (geometry_mut i f st) = prim st \<or> (\<exists>g. prim (geometry_mut i f st) = (prim st)\<lparr>geometry := g\<rparr>)"
      by (auto simp: prim_def geometry_mut_def)
    moreover have "app (geometry_mut i f st) = app st" "registry_keyed (geometry_mut i f st) = registry_keyed st"
      by (simp_all add: geometry_mut_def app_apps[of "display_mut i f' st" st for f'])
    ultimately show ?thesis
      using assms(2) by (auto simp: arb_ok_def g)
  qed
  with assms show ?thesis by (auto simp: geometry_only_def)
qed

text \<open>Eight modules leave the registry and the surfaces alone.\<close>

lemma core_frame_refl [simp]: "core_frame c c"
  by (simp add: core_frame_def)

lemma core_frame_outbox [simp]:
  "core_frame c (emit e c') = core_frame c c'" "core_frame c (request x c') = core_frame c c'"
  "core_frame c (deliver_to_host p l c') = core_frame c c'"
  by (simp_all add: core_frame_def)

lemma core_frame_store: "store c' = store c \<Longrightarrow> core_frame c c'"
  by (simp add: core_frame_def)

lemma store_slices [simp]:
  "displays (snd (post_notification i k t b st)) = displays st" "displays (snd (cancel_notification i k st)) = displays st"
  "apps (snd (take_notification m st)) = apps st" "displays (snd (take_notification m st)) = displays st"
  "apps (upsert_alarm a st) = apps st" "displays (upsert_alarm a st) = displays st"
  "apps (snd (cancel_alarm i n st)) = apps st" "displays (snd (cancel_alarm i n st)) = displays st"
  "apps (sensor_mut kind f st) = apps st" "displays (sensor_mut kind f st) = displays st"
  "apps (set_sensor_descriptor kind x y st) = apps st" "displays (set_sensor_descriptor kind x y st) = displays st"
  "home (snd (post_notification i k t b st)) = home st" "home (snd (cancel_notification i k st)) = home st"
  "home (snd (take_notification m st)) = home st" "home (upsert_alarm a st) = home st"
  "home (snd (cancel_alarm i n st)) = home st" "home (sensor_mut kind f st) = home st"
  "home (set_sensor_descriptor kind x y st) = home st"
  by (auto simp: post_notification_def cancel_notification_def take_notification_def upsert_alarm_def
      cancel_alarm_def sensor_mut_def set_sensor_descriptor_def Let_def split: option.split)

lemma core_frame_on_store [simp]:
  "core_frame c (on_store f c) \<longleftrightarrow> apps (f (store c)) = apps (store c) \<and> displays (f (store c)) = displays (store c)
     \<and> home (f (store c)) = home (store c)"
  by (simp add: core_frame_def)

lemma alarm_frames:
  "core_frame c (snd (alarm_on_command v a c))" "core_frame c (alarm_on_event ev c)"
proof -
  have "core_frame c (snd (cmd_schedule a c))" "core_frame c (snd (cmd_cancel_alarm a c))"
    by (simp_all add: cmd_schedule_def cmd_cancel_alarm_def Let_def case_prod_beta split: list.split option.split sum.split)
  then show "core_frame c (snd (alarm_on_command v a c))"
    by (simp add: alarm_on_command_def)
  have "core_frame c (on_tick now c)" for now
    by (simp add: core_frame_def on_tick_def Let_def)
  then show "core_frame c (alarm_on_event ev c)"
    by (simp add: alarm_on_event_def split: Event.split)
qed

lemma take_notification_frame:
  "take_notification m st = (r, st') \<Longrightarrow> apps st' = apps st \<and> displays st' = displays st \<and> home st' = home st"
  using store_slices(3,4,15)[of m st] by simp

lemma notify_frame: "core_frame c (snd (notify_on_command v a c))"
proof -
  have "core_frame c (snd (cmd_post a c))" "core_frame c (snd (cmd_notify_cancel a c))" "core_frame c (snd (cmd_notify_list c))"
    by (simp_all add: cmd_post_def cmd_notify_cancel_def cmd_notify_list_def Let_def case_prod_beta
        split: list.split option.split)
  moreover have "core_frame c (snd (cmd_click a c))"
    using take_notification_frame
    by (auto simp: cmd_click_def Let_def split: option.split prod.split)
  ultimately show ?thesis
    by (simp add: notify_on_command_def)
qed

lemma power_command_frame [simp]: "store (snd (snd (power_on_command lg v a m c))) = store c"
proof -
  have "store (snd (snd (cmd_report_class a m c))) = store c" "store (snd (snd (cmd_power_key a m c))) = store c"
    "store (snd (snd (cmd_panel a m c))) = store c" "store (snd (snd (cmd_brightness a m c))) = store c"
    "store (snd (snd (cmd_brightness_scale lg a m c))) = store c"
    "store (snd (snd (cmd_user_activity a m c))) = store c" "store (snd (snd (cmd_screen_timeout a m c))) = store c"
    by (simp_all add: cmd_report_class_def cmd_power_key_def cmd_panel_def cmd_brightness_def
        cmd_brightness_scale_def cmd_user_activity_def cmd_screen_timeout_def power_specs Let_def case_prod_beta
        split: option.split list.split)
  then show ?thesis by (simp add: power_on_command_def)
qed

lemma power_event_frame [simp]: "store (snd (power_on_event lg ev m c)) = store c"
  by (cases ev) (simp_all add: power_on_event_def on_screen_state_def on_power_removed_def on_comms_def on_video_def
        on_proximity_def on_light_def on_idle_tick_def power_specs Let_def case_prod_beta
        split: option.split SensorKind.split)

lemma sensor_release_store [simp]: "store (snd (sensor_release k r m c)) = store c"
  by (simp add: sensor_release_def Let_def split: option.split)

lemma release_all_store [simp]: "store (snd (release_all r m c)) = store c"
proof -
  have "store (snd (fold (\<lambda>k (m, c). sensor_release k r m c) ks (m, c))) = store c" for ks
  proof (induction ks arbitrary: m c)
    case (Cons k ks)
    from Cons[of "fst (sensor_release k r m c)" "snd (sensor_release k r m c)"] show ?case by simp
  qed simp
  then show ?thesis by (simp add: release_all_def)
qed

lemma acquire_store [simp]: "store (snd (acquire k r m c)) = store c"
  by (simp add: acquire_def Let_def)

lemma translate_store [simp]: "store (snd (translate_proximity x m c)) = store c"
  by (simp add: translate_proximity_def Let_def split: option.split)

lemma sensors_frames:
  "core_frame c (snd (snd (sensors_on_command v a m c)))" "core_frame c (snd (sensors_on_event ev m c))"
proof -
  have "core_frame c (snd (snd (cmd_report_sensor a m c)))" "core_frame c (snd (snd (cmd_report_sensor_descriptor a m c)))"
    "core_frame c (snd (snd (cmd_sensor_hold a m c)))"
    by (simp_all add: cmd_report_sensor_def cmd_report_sensor_descriptor_def cmd_sensor_hold_def Let_def core_frame_store
        split: option.split)
  then show "core_frame c (snd (snd (sensors_on_command v a m c)))"
    by (simp add: sensors_on_command_def)
  show "core_frame c (snd (sensors_on_event ev m c))"
    by (cases ev) (simp_all add: sensors_on_event_def on_reading_def core_frame_def Let_def)
qed

lemma net_frames [simp]:
  "store (snd (snd (net_on_command v a m c))) = store c" "store (snd (net_on_event ev m c)) = store c"
proof -
  have f: "store (fold (notify_one n) ps d) = store d" for n ps d
    by (induction ps arbitrary: d) (simp_all add: notify_one_def)
  have "store (snd (snd (cmd_report_net_state a m c))) = store c" "store (snd (snd (cmd_net_subscribe a m c))) = store c"
    by (simp_all add: cmd_report_net_state_def cmd_net_subscribe_def notify_all_def f notify_one_def Let_def split: option.split)
  then show "store (snd (snd (net_on_command v a m c))) = store c"
    by (simp add: net_on_command_def Let_def case_prod_beta)
  show "store (snd (net_on_event ev m c)) = store c"
    by (cases ev) (simp_all add: net_on_event_def)
qed

lemma events_frame [simp]: "store (snd (snd (events_on_command v a m c))) = store c"
proof -
  have "store (snd (snd (cmd_subscribe a m c))) = store c" "store (snd (snd (cmd_publish a m c))) = store c"
    "store (snd (snd (cmd_unsubscribe a m c))) = store c"
    by (simp_all add: cmd_subscribe_def cmd_publish_def cmd_unsubscribe_def Let_def split: option.split prod.split)
  then show ?thesis
    by (simp add: events_on_command_def case_prod_beta)
qed

lemma media_frames [simp]:
  "store (snd (snd (media_on_command v a m c))) = store c" "snd (media_on_event ev m c) = c"
proof -
  have "store (snd (snd (cmd_action a m c))) = store c"
    by (simp add: cmd_action_def Let_def split: option.split list.split)
  then show "store (snd (snd (media_on_command v a m c))) = store c"
    by (simp add: media_on_command_def Let_def case_prod_beta)
  show "snd (media_on_event ev m c) = c"
    by (cases ev) (simp_all add: media_on_event_def Let_def)
qed

lemma only_notifs_core: "only_notifs (store c) (store c') \<Longrightarrow> core_frame c c'"
  by (simp add: only_notifs_def core_frame_def)

lemma core_frame_trans: "core_frame a b \<Longrightarrow> core_frame b c \<Longrightarrow> core_frame a c"
  by (simp add: core_frame_def)

lemma core_frame_notif [simp]:
  "core_frame c (on_store (\<lambda>st. snd (post_notification i k t b st)) c') = core_frame c c'"
  "core_frame c (on_store (\<lambda>st. snd (cancel_notification i k st)) c') = core_frame c c'"
  by (simp_all add: core_frame_def)

lemma stop_ring_frame [simp]: "core_frame c (snd (stop_ring p i m c))"
  by (simp add: stop_ring_def)

lemma audio_steps [simp]:
  "core_frame c (snd (focus_grant p i k m c')) = core_frame c c'"
  "core_frame c (snd (snd (drop_pid p m c'))) = core_frame c c'"
  by (simp_all add: core_frame_def)

lemma core_frame_lines [simp]: "core_frame c (fold (\<lambda>p. deliver_to_host (f p) (l p)) ps c') = core_frame c c'"
  by (induction ps arbitrary: c') simp_all

lemma clear_badge_frame [simp]: "core_frame c (clear_badge p n c') = core_frame c c'"
  by (simp add: clear_badge_def split: option.split)

lemma audio_frames:
  "core_frame c (snd (snd (audio_on_command v a m c)))" "core_frame c (snd (audio_on_event ev m c))"
proof -
  have "core_frame c (snd (snd (cmd_focus_request a m c)))" "core_frame c (snd (snd (cmd_abandon a m c)))"
    "core_frame c (snd (snd (cmd_call_start a m c)))" "core_frame c (snd (snd (cmd_call_end a m c)))"
    "core_frame c (snd (snd (cmd_call_video a m c)))" "core_frame c (snd (snd (cmd_ring_start a m c)))"
    "core_frame c (snd (snd (cmd_ring_stop a m c)))" "core_frame c (snd (snd (cmd_ringer_mode a m c)))"
    by (simp_all add: cmd_focus_request_def cmd_abandon_def cmd_call_start_def cmd_call_end_def cmd_call_video_def
        cmd_ring_start_def cmd_ring_stop_def cmd_ringer_mode_def Let_def case_prod_beta
        split: list.split option.split RingerMode.split)
  moreover have "core_frame c (snd (snd (cmd_route a m c)))" "core_frame c (snd (snd (cmd_play_tone a m c)))"
    "core_frame c (snd (snd (cmd_volume a m c)))" "core_frame c (snd (snd (cmd_mute a m c)))"
    "core_frame c (snd (snd (cmd_app_mute a m c)))" "core_frame c (snd (snd (cmd_mic_mute a m c)))"
    "core_frame c (snd (snd (cmd_app_mic_mute a m c)))"
    by (simp_all add: cmd_route_def cmd_play_tone_def cmd_volume_def cmd_mute_def cmd_app_mute_def cmd_mic_mute_def
        cmd_app_mic_mute_def Let_def case_prod_beta split: list.split option.split)
  ultimately show "core_frame c (snd (snd (audio_on_command v a m c)))"
    by (simp add: audio_on_command_def)
  show "core_frame c (snd (audio_on_event ev m c))"
    by (cases ev) (simp_all add: audio_on_event_def audio_surface_removed_def Let_def case_prod_beta)
qed

text \<open>The keyguard moves roles and places its two overlays.\<close>

lemma loose_cover [simp]: "loose c (cover vis c)"
  by (auto simp: cover_def suppress_def split: option.split)

lemma loose_kg [simp]:
  "loose c (suppress b p c') = loose c c'" "loose c (unsuppress q c') = loose c c'"
  "loose c (restore_fg i c') = loose c c'" "loose c (refan_orientation c') = loose c c'"
  by (simp_all add: suppress_def unsuppress_def restore_fg_def refan_orientation_def split: option.split)

lemma loose_then: "loose c d \<Longrightarrow> loose c (apply_role p r d)" "loose c d \<Longrightarrow> loose c (place p i r d)"
  using loose_trans loose_steps(1,2) by blast+

lemma keyguard_loose:
  "loose c (snd (snd (keyguard_on_command v a m c)))" "loose c (snd (keyguard_on_event ev m c))"
proof -
  have l: "loose c (snd (snd (do_lock m c)))" for m
    by (simp add: do_lock_def Let_def loose_then split: option.split)
  moreover have "loose c (snd (snd (do_unlock m c)))"
    by (simp add: do_unlock_def Let_def loose_then split: option.split)
  moreover have "loose c (snd (snd (do_show_menu m c)))"
    by (simp add: do_show_menu_def Let_def case_prod_beta loose_then split: option.split)
  moreover have "loose c (snd (snd (do_hide_menu m c)))"
    by (simp add: do_hide_menu_def Let_def loose_then split: option.split)
  ultimately show "loose c (snd (snd (keyguard_on_command v a m c)))"
    by (simp add: keyguard_on_command_def)
  show "loose c (snd (keyguard_on_event ev m c))"
    using l by (cases ev) (simp_all add: keyguard_on_event_def Let_def)
qed

section \<open>The contract\<close>

text \<open>What each boxed module keeps of its own state.\<close>

fun module_ok :: "AnyModule \<Rightarrow> bool" where
  "module_ok (PowerM m) = (blanked m \<longrightarrow> pw_comms m \<noteq> [] \<and> video_calls m = [])"
| "module_ok (KeyguardM m) = keyguard_wf m"
| "module_ok (AudioM m) = one_entry m"
| "module_ok (EventsM m) = broker_wf m"
| "module_ok (MediaM m) = media_wf m"
| "module_ok _ = True"


text \<open>\<open>power_ok\<close> without the hardware: some panel state fits.\<close>

lemma module_ok_power: "module_ok (PowerM m) \<longleftrightarrow> power_ok m (panel_on m \<and> \<not> blanked m)"
  by (simp add: power_ok_def)

lemma any_on_event_ok:
  assumes "arb_ok st" "module_ok m"
  shows "\<exists>m' c. any_on_event lg m ev (Ctx_new cl st) = Some (m', c) \<and> arb_ok (store c) \<and> module_ok m'"
proof -
  let ?c = "Ctx_new cl st"
  have c: "arb_ok (store ?c)" "store ?c = st" "effects ?c = []"
    using assms(1) by (simp_all add: Ctx_new_def)
  show ?thesis
  proof (cases m)
    case WmM
    with geometry_only_arb[OF wm_on_event_store c(1)] show ?thesis by simp
  next
    case ShellM
    with shell_event_total[OF c(1)] show ?thesis by auto
  next
    case AlarmM
    with core_frame_arb[OF c(1) alarm_frames(2)] show ?thesis by simp
  next
    case NotifyM
    with c show ?thesis by simp
  next
    case (PowerM p)
    then have "power_ok p (panel (effects ?c) (panel_on p \<and> \<not> blanked p))"
      using assms(2) c(3) module_ok_power by simp
    from power_ok_event[OF this] PowerM c show ?thesis
      by (simp add: power_ok_def)
  next
    case (KeyguardM k)
    with assms(2) loose_arb[OF c(1) keyguard_loose(2)] show ?thesis
      by (simp add: keyguard_on_event_wf)
  next
    case (AudioM a)
    with core_frame_arb[OF c(1) audio_frames(2)] assms(2) show ?thesis by (simp add: audio_on_event_entries)
  next
    case (SensorsM s)
    with core_frame_arb[OF c(1) sensors_frames(2)] show ?thesis by simp
  next
    case (NetM n)
    with c show ?thesis by simp
  next
    case (EventsM e)
    with assms(2) c show ?thesis by (simp add: events_on_event_wf)
  next
    case (MediaM d)
    with assms(2) c show ?thesis by (simp add: media_on_event_wf)
  qed
qed

lemma any_on_command_ok:
  assumes "arb_ok st" "module_ok m" "chrome_fresh v a st"
  shows "\<exists>r m' c. any_on_command lg m v a (Ctx_new cl st) = Some (r, m', c) \<and> arb_ok (store c) \<and> module_ok m'"
proof -
  let ?c = "Ctx_new cl st"
  have c: "arb_ok (store ?c)" "store ?c = st" "effects ?c = []"
    using assms(1) by (simp_all add: Ctx_new_def)
  show ?thesis
  proof (cases m)
    case WmM
    with geometry_only_arb[OF wm_on_command_store c(1)] show ?thesis by (simp add: case_prod_beta Let_def)
  next
    case ShellM
    with shell_command_total[OF c(1), of v a] assms(3) c(2) show ?thesis by auto
  next
    case AlarmM
    with core_frame_arb[OF c(1) alarm_frames(1)] show ?thesis by (simp add: case_prod_beta Let_def)
  next
    case NotifyM
    with core_frame_arb[OF c(1) notify_frame] show ?thesis by (simp add: case_prod_beta Let_def)
  next
    case (PowerM p)
    then have "power_ok p (panel (effects ?c) (panel_on p \<and> \<not> blanked p))"
      using assms(2) c(3) module_ok_power by simp
    from power_ok_command[OF this] PowerM c show ?thesis
      by (simp add: power_ok_def)
  next
    case (KeyguardM k)
    with assms(2) loose_arb[OF c(1) keyguard_loose(1)] show ?thesis
      by (simp add: keyguard_on_command_wf)
  next
    case (AudioM a)
    with core_frame_arb[OF c(1) audio_frames(1)] assms(2) show ?thesis by (simp add: audio_on_command_entries)
  next
    case (SensorsM s)
    with core_frame_arb[OF c(1) sensors_frames(1)] show ?thesis by simp
  next
    case (NetM n)
    with c show ?thesis by simp
  next
    case (EventsM e)
    with assms(2) c show ?thesis by (simp add: events_on_command_wf)
  next
    case (MediaM d)
    with assms(2) c show ?thesis by (simp add: media_on_command_wf)
  qed
qed

lemma any_verbs_stable:
  "any_on_event lg m ev c = Some (m', c') \<Longrightarrow> any_verbs m' = any_verbs m"
  "any_on_command lg m v a c = Some (r, m', c') \<Longrightarrow> any_verbs m' = any_verbs m"
  by (cases m; auto)+

text \<open>The bus laws, discharged on the eleven modules.\<close>

interpretation arb: module_contract "arbiter lg" arb_ok module_ok "\<lambda>_. True" "\<lambda>_. True" chrome_fresh for lg
proof
  fix m ev c m' c'
  assume "on_event (arbiter lg) m ev c = Some (m', c')"
  then show "verbs (arbiter lg) m' = verbs (arbiter lg) m"
    by (simp add: any_verbs_stable)
next
  fix m v a c r m' c'
  assume "on_command (arbiter lg) m v a c = Some (r, m', c')"
  then show "verbs (arbiter lg) m' = verbs (arbiter lg) m"
    by (simp add: any_verbs_stable)
next
  fix st m ev cl
  assume "arb_ok st" "module_ok m"
  from any_on_event_ok[OF this] show "\<exists>m' c. on_event (arbiter lg) m ev (Ctx_new cl st) = Some (m', c)
      \<and> arb_ok (store c) \<and> module_ok m' \<and> list_all (\<lambda>_. True) (events c) \<and> list_all (\<lambda>_. True) (effects c)"
    by (simp add: list_all_iff)
next
  fix st m v a cl
  assume "arb_ok st" "module_ok m" "chrome_fresh v a st"
  from any_on_command_ok[OF this] show "\<exists>r m' c. on_command (arbiter lg) m v a (Ctx_new cl st) = Some (r, m', c)
      \<and> arb_ok (store c) \<and> module_ok m' \<and> list_all (\<lambda>_. True) (events c) \<and> list_all (\<lambda>_. True) (effects c)"
    by (simp add: list_all_iff)
qed

end
