(* ===== verification/Composition.thy ===== *)
theory Composition
  imports Arbiter
begin

text \<open>
  The modules together: the ranks that bound every cascade, boot, the two dispatch operations on
  a running arbiter, and runs in which two modules that are right on their own get in each
  other's way.
\<close>

section \<open>Ranks\<close>

text \<open>Each reaction emits only events of a lower rank than the one it reacts to.\<close>

fun rank :: "Event \<Rightarrow> nat" where
  "rank IdleTick = 4"
| "rank (ScreenState _) = 3"
| "rank (ForegroundChanged _ _) = 2"
| "rank (SensorReading _ _ _ _ _) = 1"
| "rank (CommsActive _ _) = 1"
| "rank _ = 0"

text \<open>The events each module's reaction adds.\<close>

lemma drop_editor_events:
  "\<exists>es. events (drop_editor_focus_of p c) = events c @ es \<and> set es \<subseteq> {EditorFocusChanged p False}"
  by (auto simp: drop_editor_focus_of_def Let_def split: option.split)

lemma demote_events [simp]: "events (snd (demote_from_overlay c)) = events c"
  by (simp add: demote_from_overlay_def Let_def split: option.split)

lemma promote_overlay_events [simp]: "events (snd (promote_to_overlay i p h c)) = events c"
  by (simp add: promote_to_overlay_def Let_def case_prod_beta split: option.split)

lemma reconcile_events: "reconcile_overlay c = Some c' \<Longrightarrow> events c' = events c"
  by (auto simp: reconcile_overlay_def Let_def split: option.splits bool.splits)

lemma surface_removed_events [simp]: "events (on_surface_removed p c) = events c"
  by (simp add: on_surface_removed_def Let_def split: option.split)

lemma shell_event_events:
  assumes "shell_on_event ev c = Some c'" "e \<in> set (events c')" "events c = []"
  shows "\<exists>i p q. ev = ForegroundChanged i p \<and> e = EditorFocusChanged q False"
proof (cases ev)
  case (ForegroundChanged i p)
  let ?d = "case sh_ime_editor (store c) of None \<Rightarrow> c
    | Some (q, _) \<Rightarrow> if sh_visible_app (store c) \<noteq> Some q then drop_editor_focus_of q c else c"
  have "reconcile_overlay ?d = Some c'"
    using assms(1) by (simp add: ForegroundChanged shell_on_event_def)
  moreover have "?d = c \<or> (\<exists>q. ?d = drop_editor_focus_of q c)"
    by (auto split: option.split)
  ultimately show ?thesis
    using reconcile_events[of ?d c'] drop_editor_events[of _ c] assms(2,3) ForegroundChanged by fastforce
qed (use assms in \<open>auto simp: shell_on_event_def\<close>)

lemma do_lock_events:
  "events c = [] \<Longrightarrow> e \<in> set (events (snd (snd (do_lock m c)))) \<Longrightarrow>
   (\<exists>i p. e = ForegroundChanged i p) \<or> (\<exists>i q. e = OrientationChanged i q)"
  by (auto simp: do_lock_def refan_orientation_def cover_def Let_def split: option.splits if_splits)

lemma power_events:
  "events c = [] \<Longrightarrow> e \<in> set (events (snd (power_on_event lg ev m c))) \<Longrightarrow>
   (ev = IdleTick \<and> e = ScreenState False) \<or>
   (\<exists>p b. ev = CommsActive p b \<and> (e = SensorAcquire Proximity p \<or> e = SensorRelease Proximity p))"
  by (cases ev) (auto simp: power_on_event_def on_screen_state_def on_power_removed_def on_comms_def on_video_def
        on_proximity_def on_light_def on_idle_tick_def power_specs Let_def case_prod_beta
        split: option.splits SensorKind.splits if_splits)

lemma release_events [simp]: "events (snd (sensor_release k r m c)) = events c"
  by (simp add: sensor_release_def Let_def split: option.split)

lemma release_all_events [simp]: "events (snd (release_all r m c)) = events c"
proof -
  have "events (snd (fold (\<lambda>k (m, c). sensor_release k r m c) ks (m, c))) = events c" for ks
  proof (induction ks arbitrary: m c)
    case (Cons k ks)
    from Cons[of "fst (sensor_release k r m c)" "snd (sensor_release k r m c)"] show ?case by simp
  qed simp
  then show ?thesis by (simp add: release_all_def)
qed

lemma sensors_events:
  "events c = [] \<Longrightarrow> e \<in> set (events (snd (sensors_on_event ev m c))) \<Longrightarrow>
   \<exists>x y z t b. ev = SensorReading Proximity x y z t \<and> e = ProximityChanged b"
  by (cases ev) (auto simp: sensors_on_event_def on_reading_def acquire_def translate_proximity_def Let_def
      split: option.splits if_splits)

lemma audio_events: "events (snd (audio_on_event ev m c)) = events c"
  by (cases ev) (simp_all add: audio_on_event_def audio_surface_removed_def clear_badge_def Let_def case_prod_beta
      split: option.split)

lemma net_events: "events (snd (net_on_event ev m c)) = events c"
  by (cases ev) (simp_all add: net_on_event_def)

lemma alarm_events: "events (alarm_on_event ev c) = events c"
  by (simp add: alarm_on_event_def split: Event.split)

interpretation cascade: ranked_modules "arbiter lg" rank for lg
proof
  fix m ev cl st m' c e
  assume "on_event (arbiter lg) m ev (Ctx_new cl st) = Some (m', c)" and e: "e \<in> set (events c)"
  then have s: "any_on_event lg m ev (Ctx_new cl st) = Some (m', c)" by simp
  have n: "events (Ctx_new cl st) = []" by (simp add: Ctx_new_def)
  show "rank e < rank ev"
  proof (cases m)
    case WmM
    with s e wm_on_event_events[of ev "Ctx_new cl st"] n show ?thesis by auto
  next
    case ShellM
    with s obtain "shell_on_event ev (Ctx_new cl st) = Some c" by auto
    from shell_event_events[OF this e n] show ?thesis by auto
  next
    case (PowerM p)
    with s e power_events[OF n, of e lg ev p] show ?thesis by auto
  next
    case (KeyguardM k)
    with s e do_lock_events[OF n, of e k] n show ?thesis
      by (cases ev) (auto simp: keyguard_on_event_def Let_def split: if_splits)
  next
    case (SensorsM d)
    with s e sensors_events[OF n, of e ev d] show ?thesis by auto
  qed (use s e n in \<open>auto simp: audio_events net_events alarm_events\<close>)
qed

section \<open>Boot\<close>

lemma boot_modules_ok: "list_all module_ok (boot_modules file ok)"
  by (simp add: boot_modules_def PowerModule_new_def keyguard_wf_new one_entry_def AudioModule_new_def broker_wf_def
      subs_of_def EventsModule_new_def media_wf_def MediaSessionModule_new_def)

lemma boot_verbs: "distinct (concat (map any_verbs (boot_modules file ok)))"
proof -
  have "distinct (wm_verbs @ shell_verbs @ alarm_verbs @ notify_verbs @ power_verbs @ keyguard_verbs
      @ audio_verbs @ sensors_verbs @ net_verbs @ events_verbs @ media_verbs)"
    by code_simp
  then show ?thesis
    by (simp only: boot_modules_def list.map any_verbs.simps concat.simps append_Nil2)
qed

lemma build_registry_total:
  obtains r where "build_registry lg file ok = Some r"
  using register_all_total[of "arbiter lg" "boot_modules file ok" Registry_new] boot_verbs
  by (auto simp: build_registry_def Registry_new_def)

lemma build_registry_ok:
  assumes "build_registry lg file ok = Some r"
  shows "index_ok (arbiter lg) r \<and> modules r = boot_modules file ok"
  using register_all_ok[OF assms[unfolded build_registry_def] index_ok_new] by (simp add: Registry_new_def)

text \<open>
  C35. The daemon boots: no verb is claimed by two modules, so registration does not panic, every
  verb of every module reaches that module and no other, and the module states and the empty
  store satisfy the invariants everything else rests on.
\<close>

theorem boot_registry_sound:
  "\<exists>r. build_registry lg file ok = Some r
     \<and> (\<forall>v i. map_of (verb_index r) v = Some i \<longleftrightarrow>
           i < length (modules r) \<and> v \<in> set (any_verbs (modules r ! i)))
     \<and> modules r = boot_modules file ok \<and> list_all module_ok (modules r) \<and> arb_ok Store_new"
proof -
  obtain r where r: "build_registry lg file ok = Some r"
    by (rule build_registry_total)
  with build_registry_ok[OF r] boot_modules_ok arb_ok_new show ?thesis
    by (simp add: index_ok_def)
qed

section \<open>Dispatch\<close>

lemma shell_ok_arb: "shell_ok st \<Longrightarrow> arb_ok st"
  by (auto simp: shell_ok_def arb_ok_def shell_wf_def split_wf_def)

text \<open>
  C10. Every cascade settles, whatever state the modules and the store are in: after five batches
  no event is left to deliver, unless a reaction panicked before, so the depth cap of sixteen
  never drops one, and the result of the cascade is the one after five batches.
\<close>

theorem cascade_settles:
  "left_over 5 (arbiter lg) cl ms st evs \<in> {None, Some []}
     \<and> left_over MAX_CASCADE_DEPTH (arbiter lg) cl ms st evs \<in> {None, Some []}
     \<and> drain_cascade (arbiter lg) cl ms st evs effs = drain 5 (arbiter lg) cl ms st evs effs"
proof -
  have r: "rank e < 5" "rank e < MAX_CASCADE_DEPTH" for e
    by (cases e; simp add: MAX_CASCADE_DEPTH_def)+
  then have "left_over n (arbiter lg) cl ms st evs \<in> {None, Some []}" if "n = 5 \<or> n = MAX_CASCADE_DEPTH" for n
    using that cascade.none_left[of evs n lg cl ms st] by (cases "left_over n (arbiter lg) cl ms st evs") auto
  with r show ?thesis
    using cascade.drain_fixpoint[of evs 5 MAX_CASCADE_DEPTH lg cl ms st effs]
    by (simp add: drain_cascade_def) (simp add: MAX_CASCADE_DEPTH_def)
qed

text \<open>
  An event never brings the arbiter down: on a well-formed store and modules the cascade
  returns, and leaves both well formed and the verb index right.
\<close>

theorem event_dispatch_safe:
  assumes "arb_ok st" "list_all module_ok (modules r)" "index_ok (arbiter lg) r"
  shows "\<exists>effs r' st'. dispatch_event (arbiter lg) cl ev r st = Some (effs, r', st')
     \<and> arb_ok st' \<and> list_all module_ok (modules r') \<and> index_ok (arbiter lg) r'"
proof -
  obtain effs r' st' where d: "dispatch_event (arbiter lg) cl ev r st = Some (effs, r', st')"
    "arb_ok st'" "list_all module_ok (modules r')"
    using arb.dispatch_event_ok[OF assms(1,2)] by blast
  with arb.dispatch_event_index[OF assms(3) d(1)] show ?thesis by blast
qed

theorem event_dispatch_safe_witness:
  "\<exists>r effs r' st'. build_registry id None True = Some r
     \<and> dispatch_event (arbiter id) (clock demo_ctx) (SurfaceRemoved 10) r (store demo_ctx) = Some (effs, r', st') \<and> arb_ok st'"
proof -
  obtain r where r: "build_registry id None True = Some r"
    by (rule build_registry_total)
  have i: "list_all module_ok (modules r)" "index_ok (arbiter id) r"
    using build_registry_ok[OF r] boot_modules_ok by simp_all
  from event_dispatch_safe[OF shell_ok_arb[OF demo_ok] i] r show ?thesis by blast
qed

text \<open>
  A command never brings the arbiter down: any verb with any arguments, except a
  \<open>register-chrome\<close> under the pid of another app, is answered by exactly the module
  that owns it (and by none if nobody does), and the invariants hold afterwards.
\<close>

theorem command_dispatch_safe:
  assumes "arb_ok st" "list_all module_ok (modules r)" "index_ok (arbiter lg) r" "chrome_fresh v a st"
  shows "\<exists>res r' st'. dispatch_command (arbiter lg) cl v a r st = Some (res, r', st')
     \<and> (res \<noteq> None \<longleftrightarrow> (\<exists>m \<in> set (modules r). v \<in> set (any_verbs m)))
     \<and> arb_ok st' \<and> list_all module_ok (modules r') \<and> index_ok (arbiter lg) r'"
proof -
  have "owns r v \<longleftrightarrow> (\<exists>i < length (modules r). v \<in> set (any_verbs (modules r ! i)))"
    using assms(3) by (auto simp: index_ok_def owns_def)
  then have o: "owns r v \<longleftrightarrow> (\<exists>m \<in> set (modules r). v \<in> set (any_verbs m))"
    by (simp add: Bex_def in_set_conv_nth) blast
  obtain res r' st' where d: "dispatch_command (arbiter lg) cl v a r st = Some (res, r', st')"
    "arb_ok st'" "list_all module_ok (modules r')" "res \<noteq> None \<longleftrightarrow> owns r v"
    using arb.dispatch_command_ok[OF assms] by blast
  with arb.dispatch_command_index[OF assms(3) d(1)] o show ?thesis by blast
qed

theorem command_dispatch_safe_witness:
  "\<exists>r res r' st'. build_registry id None True = Some r
     \<and> dispatch_command (arbiter id) (clock demo_ctx) ''lock'' [] r (store demo_ctx) = Some (res, r', st') \<and> arb_ok st'"
proof -
  obtain r where r: "build_registry id None True = Some r"
    by (rule build_registry_total)
  have i: "list_all module_ok (modules r)" "index_ok (arbiter id) r"
    using build_registry_ok[OF r] boot_modules_ok by simp_all
  have "chrome_fresh ''lock'' [] (store demo_ctx)"
    by (simp add: chrome_fresh_def)
  from command_dispatch_safe[OF shell_ok_arb[OF demo_ok] i this] r show ?thesis by blast
qed

section \<open>Modules in each other's way\<close>

text \<open>The dead owner is out of the registry and no module touches the notifications any more.\<close>

definition forgotten :: "pid \<Rightarrow> Notification list \<Rightarrow> Store \<Rightarrow> bool" where
  "forgotten p ns st \<longleftrightarrow> app_by_pid st p = None \<and> notifications st = ns"

lemma app_by_pid_apps: "apps st' = apps st \<Longrightarrow> app_by_pid st' p = app_by_pid st p"
  by (simp add: app_by_pid_def)

lemma shell_removed_notifications [simp]: "notifications (store (on_surface_removed p c)) = notifications (store c)"
  by (simp add: on_surface_removed_def demote_from_overlay_def apply_role_def on_primary_def remove_app_def Let_def
      split: option.split)

lemma demote_apps [simp]: "apps (store (snd (demote_from_overlay c))) = apps (store c)"
  by (simp add: demote_from_overlay_def Let_def split: option.split)

lemma shell_removed_app:
  "app_by_pid (store (on_surface_removed p c)) p =
     (case app_by_pid (store c) p of None \<Rightarrow> None | Some a \<Rightarrow> app_by_pid (remove_app (a_app_id a) (store c)) p)"
proof -
  have "app_by_pid (store (snd (demote_from_overlay c))) p = app_by_pid (store c) p"
    "app_by_pid (remove_app i (store (snd (demote_from_overlay c)))) p = app_by_pid (remove_app i (store c)) p" for i
    by (simp_all add: app_by_pid_def remove_app_def)
  then show ?thesis
    by (simp add: on_surface_removed_def on_primary_def Let_def split: option.split)
qed

lemma shell_removed_none:
  assumes "arb_ok (store c)"
  shows "app_by_pid (store (on_surface_removed p c)) p = None"
proof (cases "app_by_pid (store c) p")
  case (Some a)
  have k: "registry_keyed (store c)" using assms by (simp add: arb_ok_def)
  then have k': "registry_keyed (remove_app (a_app_id a) (store c))" by (simp add: inv_intros)
  have "b = a" if "app_by_pid (remove_app (a_app_id a) (store c)) p = Some b" for b
  proof -
    have "app (store c) (a_app_id b) = Some b \<and> a_pid b = p"
      using app_by_pid_SomeD[OF k' that] by (auto split: if_splits)
    with app_by_pid_SomeD[OF k Some] assms have "a_app_id b = a_app_id a"
      unfolding arb_ok_def by metis
    with app_by_pid_SomeD[OF k' that] show ?thesis by simp
  qed
  moreover have "app_by_pid (remove_app (a_app_id a) (store c)) p \<noteq> Some a"
    using app_by_pid_SomeD[OF k', of p a] by auto
  ultimately show ?thesis
    using Some shell_removed_app[of p c] by (cases "app_by_pid (remove_app (a_app_id a) (store c)) p") auto
qed (simp add: shell_removed_app)

lemma wm_removed [simp]: "wm_on_event (SurfaceRemoved p) c = c"
  by (simp add: wm_on_event_def)

lemma any_removed_shape:
  "\<exists>m' c'. any_on_event lg m (SurfaceRemoved p) (Ctx_new cl st) = Some (m', c')
     \<and> (forgotten p ns st \<longrightarrow> forgotten p ns (store c')) \<and> events c' = []"
proof (cases m)
  case ShellM
  have "events (on_surface_removed p (Ctx_new cl st)) = []"
    by (simp add: Ctx_new_def)
  moreover have "forgotten p ns st \<longrightarrow> forgotten p ns (store (on_surface_removed p (Ctx_new cl st)))"
    by (simp add: forgotten_def Ctx_new_def shell_removed_app)
  ultimately show ?thesis
    by (simp add: ShellM shell_on_event_def)
next
  case (AudioM a)
  have "forgotten p ns st \<longrightarrow> forgotten p ns (store (snd (audio_on_event (SurfaceRemoved p) a (Ctx_new cl st))))"
    by (simp add: audio_on_event_def audio_surface_removed_def clear_badge_def forgotten_def Ctx_new_def Let_def)
  moreover have "events (snd (audio_on_event (SurfaceRemoved p) a (Ctx_new cl st))) = []"
    by (simp add: audio_events Ctx_new_def)
  ultimately show ?thesis
    by (simp add: AudioM)
qed (simp_all add: Ctx_new_def alarm_on_event_def power_on_event_def on_power_removed_def power_specs sensors_on_event_def
    keyguard_on_event_def net_on_event_def Let_def case_prod_beta)

interpretation gone: module_contract "arbiter lg" "forgotten p ns" "\<lambda>_. True" "\<lambda>e. e = SurfaceRemoved p"
  "\<lambda>_. True" "\<lambda>_ _ _. False" for lg p ns
proof
  fix st m ev cl
  assume "forgotten p ns st" "ev = SurfaceRemoved p"
  with any_removed_shape[of lg m p cl st ns] show "\<exists>m' c. on_event (arbiter lg) m ev (Ctx_new cl st) = Some (m', c)
      \<and> forgotten p ns (store c) \<and> True \<and> list_all (\<lambda>e. e = SurfaceRemoved p) (events c)
      \<and> list_all (\<lambda>_. True) (effects c)"
    by (auto simp: list_all_iff)
qed (simp_all add: any_verbs_stable)

text \<open>A cascade whose first batch emits nothing is that batch.\<close>

lemma dispatch_one_batch:
  assumes "fan_event (arbiter lg) cl ev (modules r) st = Some (ms, st', [], fs)"
  shows "dispatch_event (arbiter lg) cl ev r st = Some (fs, r\<lparr>modules := ms\<rparr>, st')"
proof -
  have "drain (Suc n) (arbiter lg) cl (modules r) st [ev] [] = Some (ms, st', fs)" for n
    using assms by simp
  note this[of 15]
  moreover have "MAX_CASCADE_DEPTH = Suc 15"
    by (simp add: MAX_CASCADE_DEPTH_def)
  ultimately show ?thesis
    unfolding dispatch_event_def drain_cascade_def by (simp only: Option.bind.simps prod.case)
qed

text \<open>Every module reacts once, on some store the ones before it may leave.\<close>

lemma fan_event_maps:
  assumes "fan_event T cl ev ms st = Some (ms', st', es, fs)" "m \<in> set ms" "K st"
    "\<And>n st1 n' c. K st1 \<Longrightarrow> on_event T n ev (Ctx_new cl st1) = Some (n', c) \<Longrightarrow> K (store c)"
  shows "\<exists>st1 m' c. K st1 \<and> on_event T m ev (Ctx_new cl st1) = Some (m', c) \<and> m' \<in> set ms'
    \<and> set (effects c) \<subseteq> set fs"
  using assms(1-3)
proof (induction ms arbitrary: ms' st st' es fs)
  case (Cons n ns)
  then obtain n' c ns1 st1 es1 fs1 where f: "on_event T n ev (Ctx_new cl st) = Some (n', c)"
    "fan_event T cl ev ns (store c) = Some (ns1, st1, es1, fs1)" "ms' = n' # ns1" "fs = effects c @ fs1"
    by (auto split: Option.bind_splits)
  show ?case
  proof (cases "m = n")
    case True
    with f Cons.prems(3) show ?thesis by fastforce
  next
    case False
    with Cons.IH[OF f(2) _ assms(4)[OF Cons.prems(3) f(1)]] Cons.prems(2) f(3,4) show ?thesis by fastforce
  qed
qed simp

text \<open>
  When the owner of a call dies, the shell forgets the app before the audio module can look
  its id up: the audio session ends, but no notification is cancelled, so the ongoing-call badge
  stays for good.
\<close>

theorem badge_outlives_caller:
  assumes "arb_ok st" "modules r = WmM # ShellM # ms" "AudioM m \<in> set ms" "comms m = Some p"
  shows "\<exists>effs r' st' m'. dispatch_event (arbiter lg) cl (SurfaceRemoved p) r st = Some (effs, r', st')
     \<and> AudioM m' \<in> set (modules r') \<and> comms m' = None \<and> notifications st' = notifications st"
proof -
  let ?c = "on_surface_removed p (Ctx_new cl st)"
  have "arb_ok (store (Ctx_new cl st))"
    using assms(1) by (simp add: Ctx_new_def)
  from shell_removed_none[OF this] have "forgotten p (notifications st) (store ?c)"
    by (simp add: forgotten_def Ctx_new_def)
  from gone.fan_event_ok[OF this, of ms "SurfaceRemoved p" lg cl] obtain ms' st' es fs where
    f: "fan_event (arbiter lg) cl (SurfaceRemoved p) ms (store ?c) = Some (ms', st', es, fs)"
    "forgotten p (notifications st) st'"
    by (auto simp: list_all_iff)
  have "es = []"
    using cascade.fan_event_lowers[OF f(1)] by (cases es) auto
  moreover have "events ?c = []" "store (Ctx_new cl st) = st" "events (Ctx_new cl st) = []"
    by (simp_all add: Ctx_new_def)
  ultimately have "fan_event (arbiter lg) cl (SurfaceRemoved p) (modules r) st =
      Some (WmM # ShellM # ms', st', [], effects (Ctx_new cl st) @ effects ?c @ fs)"
    using f(1) by (simp add: assms(2) shell_on_event_def)
  note d = dispatch_one_batch[OF this]
  obtain st1 m' where "AudioM m' \<in> set ms'" "m' = fst (audio_on_event (SurfaceRemoved p) m (Ctx_new cl st1))"
    using fan_event_maps[OF f(1) assms(3), where K = "\<lambda>_. True"] by fastforce
  moreover have "comms (fst (audio_on_event (SurfaceRemoved p) m c)) = None" for c
    using assms(4) by (simp add: audio_on_event_def audio_surface_removed_def Let_def case_prod_beta)
  ultimately show ?thesis
    using d f(2) by (auto simp: forgotten_def)
qed


theorem badge_outlives_caller_witness:
  "\<exists>effs r' st' m'. dispatch_event (arbiter id) (clock demo_ctx) (SurfaceRemoved 10)
      \<lparr>modules = [WmM, ShellM, AudioM (AudioModule_new\<lparr>comms := Some 10\<rparr>)], verb_index = []\<rparr>
      (snd (post_notification ''mail'' CALL_NOTIF_ID ''Ongoing call'' ''mail'' (store demo_ctx))) = Some (effs, r', st')
    \<and> AudioM m' \<in> set (modules r') \<and> comms m' = None \<and> map n_title (notifications st') = [''Ongoing call'']"
proof -
  let ?st = "snd (post_notification ''mail'' CALL_NOTIF_ID ''Ongoing call'' ''mail'' (store demo_ctx))"
  have "arb_ok ?st"
    using shell_ok_arb[OF demo_ok] by (subst arb_ok_cong[of ?st "store demo_ctx"]) (simp_all add: prim_def display_def)
  moreover have "map n_title (notifications ?st) = [''Ongoing call'']"
    by (simp add: post_notification_def demo_ctx_def demo_store_def Store_new_def Ctx_new_def Let_def)
  ultimately show ?thesis
    using badge_outlives_caller[of ?st "\<lparr>modules = [WmM, ShellM, AudioM (AudioModule_new\<lparr>comms := Some 10\<rparr>)], verb_index = []\<rparr>"
      "[AudioM (AudioModule_new\<lparr>comms := Some 10\<rparr>)]" "AudioModule_new\<lparr>comms := Some 10\<rparr>" 10 id "clock demo_ctx"] by fastforce
qed

lemma proximity_step:
  assumes "any_on_event lg m (ProximityChanged b) (Ctx_new cl st) = Some (m', c)"
  shows "store c = st \<and> (\<forall>k. m = KeyguardM k \<longrightarrow> m' = m)"
  using assms
  by (cases m) (auto simp: Ctx_new_def wm_on_event_def shell_on_event_def alarm_on_event_def
    keyguard_on_event_def audio_on_event_def sensors_on_event_def net_on_event_def)

lemma proximity_each:
  assumes "fan_event (arbiter lg) cl (ProximityChanged b) ms st = Some (ms', st', es, fs)" "m \<in> set ms"
  shows "\<exists>m' c. any_on_event lg m (ProximityChanged b) (Ctx_new cl st) = Some (m', c) \<and> m' \<in> set ms'
    \<and> set (effects c) \<subseteq> set fs"
proof -
  have "store c = st" if "st1 = st" "any_on_event lg n (ProximityChanged b) (Ctx_new cl st1) = Some (n', c)"
    for n st1 n' c
    using proximity_step[of lg n b cl st n' c] that by simp
  from fan_event_maps[OF assms, where K = "\<lambda>s. s = st", simplified, OF this] show ?thesis
    by simp
qed

lemma unblank_lines:
  "blanked m \<Longrightarrow> a \<in> set (apps_snapshot (store c)) \<Longrightarrow>
   HostLine (a_pid a) (''input-suppress 0'' @ [CHR 0x0A]) \<in> set (effects (snd (power_on_event lg (ProximityChanged False) m c)))"
  by (simp add: power_on_event_def on_proximity_def ensure_unblanked_def set_panel_blanked_def reassert_backlight_def
      show_bit_def Let_def case_prod_beta split: option.split)

text \<open>
  Taking the phone from the ear gives every app its input back, whatever the keyguard is
  doing: on a locked device the app under the lock screen becomes touchable again, while the
  keyguard still counts it as suppressed.
\<close>

theorem uncover_lifts_lock:
  assumes "arb_ok st" "list_all module_ok (modules r)" "PowerM m \<in> set (modules r)" "blanked m"
    "KeyguardM k \<in> set (modules r)" "locked k" "suppressed_pid k = Some p"
    "a \<in> set (apps_snapshot st)" "a_pid a = p"
  shows "\<exists>effs r' st'. dispatch_event (arbiter lg) cl (ProximityChanged False) r st = Some (effs, r', st')
     \<and> HostLine p (''input-suppress 0'' @ [CHR 0x0A]) \<in> set effs
     \<and> KeyguardM k \<in> set (modules r')"
proof -
  obtain ms st' es fs where
    f: "fan_event (arbiter lg) cl (ProximityChanged False) (modules r) st = Some (ms, st', es, fs)"
    using arb.fan_event_ok[OF assms(1,2)] by blast
  have "es = []"
    using cascade.fan_event_lowers[OF f] by (cases es) auto
  with f have d: "dispatch_event (arbiter lg) cl (ProximityChanged False) r st = Some (fs, r\<lparr>modules := ms\<rparr>, st')"
    by (simp add: dispatch_one_batch)
  obtain m' c where *: "any_on_event lg (PowerM m) (ProximityChanged False) (Ctx_new cl st) = Some (m', c)"
    "set (effects c) \<subseteq> set fs"
    using proximity_each[OF f assms(3)] by metis
  from *(1) have c: "snd (power_on_event lg (ProximityChanged False) m (Ctx_new cl st)) = c"
    by (simp add: case_prod_beta)
  have "a \<in> set (apps_snapshot (store (Ctx_new cl st)))"
    using assms(8) by (simp add: Ctx_new_def)
  from unblank_lines[OF assms(4) this, of lg, unfolded c assms(9)]
  have "HostLine p (''input-suppress 0'' @ [CHR 0x0A]) \<in> set fs"
    by (rule subsetD[OF *(2)])
  moreover have "KeyguardM k \<in> set ms"
  proof -
    obtain m' c where k: "any_on_event lg (KeyguardM k) (ProximityChanged False) (Ctx_new cl st) = Some (m', c)"
      "m' \<in> set ms"
      using proximity_each[OF f assms(5)] by metis
    from proximity_step[OF k(1)] have "m' = KeyguardM k" by blast
    with k(2) show ?thesis by simp
  qed
  ultimately show ?thesis
    using d by simp
qed

theorem uncover_lifts_lock_witness:
  "\<exists>effs r' st'. dispatch_event (arbiter id) (clock demo_ctx) (ProximityChanged False)
      \<lparr>modules = [KeyguardM (KeyguardModule_new\<lparr>locked := True, suppressed_pid := Some 20\<rparr>),
                  PowerM (PowerModule_new\<lparr>blanked := True, pw_comms := [10]\<rparr>)], verb_index = []\<rparr> (store demo_ctx) = Some (effs, r', st')
    \<and> HostLine 20 (''input-suppress 0'' @ [CHR 0x0A]) \<in> set effs
    \<and> KeyguardM (KeyguardModule_new\<lparr>locked := True, suppressed_pid := Some 20\<rparr>) \<in> set (modules r')"
proof -
  let ?k = "KeyguardModule_new\<lparr>locked := True, suppressed_pid := Some 20\<rparr>"
  let ?m = "PowerModule_new\<lparr>blanked := True, pw_comms := [10]\<rparr>"
  have "snd (demo_app ''maps'' 20) \<in> set (apps_snapshot (store demo_ctx))" "a_pid (snd (demo_app ''maps'' 20)) = 20"
    by (simp_all add: demo_ctx_def demo_store_def demo_app_def apps_snapshot_def Ctx_new_def)
  then show ?thesis
    using uncover_lifts_lock[of "store demo_ctx" "\<lparr>modules = [KeyguardM ?k, PowerM ?m], verb_index = []\<rparr>" ?m ?k 20
      "snd (demo_app ''maps'' 20)" id "clock demo_ctx"] shell_ok_arb[OF demo_ok]
    by (simp add: keyguard_wf_def KeyguardModule_new_def PowerModule_new_def)
qed

text \<open>
  Two owners of the light sensor: with a manual brightness set, the next idle tick makes the
  power module switch the sensor off by itself, while the sensors module, which does not react,
  still counts a holder; the hardware no longer follows the references.
\<close>

theorem light_off_under_holder:
  assumes "powered s v" "holders_of s Light \<noteq> []" "light_on m" "manual_frac m \<noteq> None" "effects c = []"
  shows "fst (sensors_on_event IdleTick s c) = s
    \<and> \<not> powered s (hal (effects (snd (power_on_event lg IdleTick m c))) v)"
proof -
  have "hal (effects (snd (power_on_event lg IdleTick m c))) v Light = False"
    using assms(3-5)
    by (auto simp: power_on_event_def on_idle_tick_def reconcile_light_def light_should_be_warm_def set_panel_on_def
        hal_def hal_step_def Let_def split: option.split)
  with assms(2) show ?thesis
    by (auto simp: powered_def sensors_on_event_def)
qed

theorem light_off_under_holder_witness:
  "\<not> powered (SensorsModule_new\<lparr>holders := [(Light, [7])]\<rparr>)
     (hal (effects (snd (power_on_event id IdleTick
        (PowerModule_new\<lparr>light_on := True, manual_frac := Some (Fin False 1)\<rparr>) demo_ctx))) (\<lambda>k. k = Light))"
proof -
  let ?s = "SensorsModule_new\<lparr>holders := [(Light, [7])]\<rparr>"
  have "powered ?s (\<lambda>k. k = Light)" "holders_of ?s Light \<noteq> []" "effects demo_ctx = []"
    by (auto simp: powered_def holders_of_def SensorsModule_new_def demo_ctx_def Ctx_new_def)
  then show ?thesis
    using light_off_under_holder[of ?s "\<lambda>k. k = Light" "PowerModule_new\<lparr>light_on := True, manual_frac := Some (Fin False 1)\<rparr>"
      demo_ctx id] by simp
qed

end
