(* ===== verification/SensorDriver.thy ===== *)
theory SensorDriver
  imports Core
begin

text \<open>
  The sensor-driver thread (\<open>wandr-arbiter-bin/src/sensor_driver.rs\<close>): the map from the
  kinds the arbiter knows to the device's sensors, the worker that applies the queued
  \<open>SetSensor\<close> effects in order, and the count of enabled sensors that gates the poll loop.

  The service client is not part of the repository: what \<open>enumerate\<close> returns and whether
  each \<open>enable\<close> succeeds are arguments.  The calls the worker makes are a list.
\<close>

section \<open>Sensors of the device\<close>

record SensorDesc =
  aidl_type :: int
  handle :: u32
  d_max_range :: fp
  d_resolution :: fp

definition aidl_type_to_kind :: "int \<Rightarrow> SensorKind option" where
  "aidl_type_to_kind t =
     (if t = 1 then Some Accelerometer
      else if t = 5 then Some Light
      else if t = 8 then Some Proximity
      else if t = 27 then Some DeviceOrientation
      else None)"

definition ORIENTATION_RATE_HZ :: u32 where "ORIENTATION_RATE_HZ = 5"

text \<open>\<open>or_insert\<close>: the first sensor of each kind wins.\<close>

fun known_sensors :: "SensorDesc list \<Rightarrow> (SensorKind \<times> SensorDesc) list \<Rightarrow> (SensorKind \<times> SensorDesc) list" where
  "known_sensors [] m = m"
| "known_sensors (s # ss) m =
     (case aidl_type_to_kind (aidl_type s) of
        None \<Rightarrow> known_sensors ss m
      | Some k \<Rightarrow> known_sensors ss (if map_of m k = None then AList.update k s m else m))"

definition handle_to_kind :: "(SensorKind \<times> SensorDesc) list \<Rightarrow> (u32 \<times> SensorKind) list" where
  "handle_to_kind m = map (\<lambda>(k, s). (handle s, k)) m"

section \<open>The worker\<close>

datatype HalCall = Enable u32 u32 bool | Disable u32

type_synonym sensor_request = "SensorKind \<times> bool \<times> u32"

text \<open>
  \<open>ok\<close> is what \<open>enable\<close> returns.  The state is the count and the calls so far.
\<close>

definition apply_set_sensor ::
  "(SensorKind \<times> SensorDesc) list \<Rightarrow> bool \<Rightarrow> sensor_request \<Rightarrow> nat \<times> HalCall list \<Rightarrow> nat \<times> HalCall list" where
  "apply_set_sensor m ok req st =
     (let (k, on, hz) = req; (enabled, calls) = st in
      case map_of m k of
        None \<Rightarrow> st
      | Some s \<Rightarrow>
          if on
          then (if ok then enabled + 1 else enabled, calls @ [Enable (handle s) hz ok])
          else (enabled - 1, calls @ [Disable (handle s)]))"

text \<open>The worker takes the requests in the order they were queued.\<close>

definition enable_worker ::
  "(SensorKind \<times> SensorDesc) list \<Rightarrow> (sensor_request \<times> bool) list \<Rightarrow> nat \<times> HalCall list \<Rightarrow> nat \<times> HalCall list" where
  "enable_worker m reqs st = fold (\<lambda>(req, ok). apply_set_sensor m ok req) reqs st"

definition polls :: "nat \<times> HalCall list \<Rightarrow> bool" where
  "polls st \<longleftrightarrow> fst st \<noteq> 0"

section \<open>The count is the number of enabled sensors\<close>

text \<open>What a sensor does after the calls.\<close>

definition call_on :: "HalCall \<Rightarrow> (u32 \<Rightarrow> bool) \<Rightarrow> u32 \<Rightarrow> bool" where
  "call_on c v = (case c of Enable h hz ok \<Rightarrow> if ok then v(h := True) else v | Disable h \<Rightarrow> v(h := False))"

definition on_after :: "HalCall list \<Rightarrow> u32 \<Rightarrow> bool" where
  "on_after cs = fold call_on cs (\<lambda>_. False)"

lemma on_after_snoc [simp]: "on_after (cs @ [c]) = call_on c (on_after cs)" "on_after [] h = False"
  by (simp_all add: on_after_def)

text \<open>
  Requests that fit: a kind that is off is switched on and one that is on is switched off, and
  every enable succeeds.
\<close>

fun fitting :: "(SensorKind \<Rightarrow> bool) \<Rightarrow> (sensor_request \<times> bool) list \<Rightarrow> bool" where
  "fitting v [] = True"
| "fitting v (((k, on, hz), ok) # rs) = (v k \<noteq> on \<and> ok \<and> fitting (v(k := on)) rs)"

definition enabled_kinds :: "(SensorKind \<times> SensorDesc) list \<Rightarrow> HalCall list \<Rightarrow> (SensorKind \<times> SensorDesc) list" where
  "enabled_kinds m cs = filter (\<lambda>x. on_after cs (handle (snd x))) m"

definition keyed_sensors :: "(SensorKind \<times> SensorDesc) list \<Rightarrow> bool" where
  "keyed_sensors m \<longleftrightarrow> distinct (map fst m) \<and> distinct (map (handle \<circ> snd) m)"

lemma known_sensors_keys: "distinct (map fst m) \<Longrightarrow> distinct (map fst (known_sensors ss m))"
  by (induction ss arbitrary: m) (auto simp: distinct_update split: option.split)

lemma filter_upd_on:
  "distinct (map h xs) \<Longrightarrow> x \<in> set xs \<Longrightarrow> \<not> v (h x) \<Longrightarrow>
   length (filter (\<lambda>y. (v(h x := True)) (h y)) xs) = length (filter (\<lambda>y. v (h y)) xs) + 1"
proof (induction xs)
  case (Cons y ys)
  show ?case
  proof (cases "y = x")
    case True
    have "h z \<noteq> h x" if "z \<in> set ys" for z
      using that Cons.prems(1) True by (force simp: image_iff)
    then have "filter (\<lambda>z. (v(h x := True)) (h z)) ys = filter (\<lambda>z. v (h z)) ys"
      by (intro filter_cong) auto
    with True Cons.prems(3) show ?thesis by (simp del: fun_upd_apply) simp
  next
    case False
    with Cons.prems have "h y \<noteq> h x" by auto
    with False Cons show ?thesis by simp
  qed
qed simp

lemma filter_upd_off:
  "distinct (map h xs) \<Longrightarrow> x \<in> set xs \<Longrightarrow> v (h x) \<Longrightarrow>
   length (filter (\<lambda>y. (v(h x := False)) (h y)) xs) + 1 = length (filter (\<lambda>y. v (h y)) xs)"
  using filter_upd_on[of h xs x "v(h x := False)"] by (simp add: fun_upd_upd fun_upd_idem)

lemma enabled_kinds_step:
  assumes "keyed_sensors m" "map_of m k = Some s" "on_after cs (handle s) \<noteq> on"
  shows "length (enabled_kinds m (cs @ [if on then Enable (handle s) hz True else Disable (handle s)])) =
     (if on then length (enabled_kinds m cs) + 1 else length (enabled_kinds m cs) - 1)"
proof -
  have d: "distinct (map (\<lambda>x. handle (snd x)) m)" "(k, s) \<in> set m"
    using assms(1,2) map_of_SomeD by (fastforce simp: keyed_sensors_def comp_def)+
  show ?thesis
    using filter_upd_on[OF d, of "on_after cs"] filter_upd_off[OF d, of "on_after cs"] assms(3)
    by (cases on) (simp_all add: enabled_kinds_def call_on_def)
qed

lemma worker_counts:
  assumes "keyed_sensors m"
  shows "fitting v reqs \<Longrightarrow> \<forall>k s. map_of m k = Some s \<longrightarrow> v k = on_after cs (handle s) \<Longrightarrow>
    n = length (enabled_kinds m cs) \<Longrightarrow> enable_worker m reqs (n, cs) = (n', cs') \<Longrightarrow>
    n' = length (enabled_kinds m cs')"
proof (induction v reqs arbitrary: n cs rule: fitting.induct)
  case (1 v)
  then show ?case by (auto simp: enable_worker_def)
next
  case (2 v k on hz ok rs)
  let ?v = "v(k := on)"
  show ?case
  proof (cases "map_of m k")
    case None
    then have "enable_worker m rs (n, cs) = (n', cs')"
      using 2(5) by (simp add: enable_worker_def apply_set_sensor_def)
    moreover have "\<forall>j s. map_of m j = Some s \<longrightarrow> ?v j = on_after cs (handle s)"
      using 2(3) None by auto
    ultimately show ?thesis
      using 2(1)[of cs n] 2(2,4) by (simp del: fun_upd_apply)
  next
    case (Some s)
    let ?c = "if on then Enable (handle s) hz True else Disable (handle s)"
    let ?n = "if on then n + 1 else n - 1"
    have o: "on_after cs (handle s) \<noteq> on" "ok"
      using 2(2,3) Some by auto
    have "enable_worker m rs (?n, cs @ [?c]) = (n', cs')"
      using 2(5) Some o(2) by (simp add: enable_worker_def apply_set_sensor_def split: if_splits)
    moreover have "?n = length (enabled_kinds m (cs @ [?c]))"
      using enabled_kinds_step[OF assms Some o(1), of hz] 2(4) by simp
    moreover have "?v j = on_after (cs @ [?c]) (handle t)" if "map_of m j = Some t" for j t
    proof (cases "j = k")
      case True
      with Some that show ?thesis by (simp add: call_on_def)
    next
      case False
      have "inj_on (handle \<circ> snd) (set m)"
        using assms by (simp add: keyed_sensors_def distinct_map)
      from inj_onD[OF this _ map_of_SomeD[OF that] map_of_SomeD[OF Some]] False
      have "handle t \<noteq> handle s" by auto
      with False that 2(3) show ?thesis by (simp add: call_on_def)
    qed
    ultimately show ?thesis
      using 2(1)[of "cs @ [?c]" ?n] 2(2) by (simp del: fun_upd_apply)
  qed
qed

section \<open>Properties\<close>

text \<open>
  The count that gates the poll loop is exact: when every enable succeeds and each kind is
  switched on and off in turn, it is the number of sensors that are on, so the loop polls exactly
  while one is.
\<close>

theorem enabled_count_exact:
  assumes "keyed_sensors m" "fitting (\<lambda>_. False) reqs" "enable_worker m reqs (0, []) = (n, cs)"
  shows "n = length (enabled_kinds m cs) \<and> (polls (n, cs) \<longleftrightarrow> (\<exists>(k, s) \<in> set m. on_after cs (handle s)))"
proof -
  have "enabled_kinds m [] = []"
    by (simp add: enabled_kinds_def)
  with worker_counts[OF assms(1,2), of "[]" 0 n cs] assms(3) have n: "n = length (enabled_kinds m cs)"
    by simp
  then show ?thesis
    by (force simp: polls_def enabled_kinds_def filter_empty_conv)
qed

theorem enabled_count_exact_witness:
  "let s = \<lparr>aidl_type = 27, handle = 7, d_max_range = Fin False 4, d_resolution = Fin False 1\<rparr>;
       t = \<lparr>aidl_type = 8, handle = 9, d_max_range = Fin False 5, d_resolution = Fin False 1\<rparr>
   in polls (enable_worker (known_sensors [s, t] [])
        [((DeviceOrientation, True, 5), True), ((Proximity, True, 5), True), ((Proximity, False, 5), True)] (0, []))"
proof -
  let ?s = "\<lparr>aidl_type = 27, handle = 7, d_max_range = Fin False 4, d_resolution = Fin False 1\<rparr>"
  let ?t = "\<lparr>aidl_type = 8, handle = 9, d_max_range = Fin False 5, d_resolution = Fin False 1\<rparr>"
  let ?r = "[((DeviceOrientation, True, 5), True), ((Proximity, True, 5), True), ((Proximity, False, 5), True)]"
  let ?m = "[(DeviceOrientation, ?s), (Proximity, ?t)]"
  have m: "known_sensors [?s, ?t] [] = ?m"
    by (simp add: aidl_type_to_kind_def)
  have "keyed_sensors ?m" "fitting (\<lambda>_. False) ?r"
    by (simp_all add: keyed_sensors_def)
  moreover have w: "enable_worker ?m ?r (0, []) = (1, [Enable 7 5 True, Enable 9 5 True, Disable 9])"
    by (simp add: enable_worker_def apply_set_sensor_def)
  ultimately have "polls (1, [Enable 7 5 True, Enable 9 5 True, Disable 9]) \<longleftrightarrow>
      (\<exists>(k, s) \<in> set ?m. on_after [Enable 7 5 True, Enable 9 5 True, Disable 9] (handle s))"
    using enabled_count_exact[of ?m ?r] by blast
  then show ?thesis
    unfolding Let_def m w by (simp add: on_after_def call_on_def)
qed

text \<open>
  An enable that fails is not counted, but the disable that later answers it is: it takes the
  count of a sensor that is on, and the poll loop stops draining a sensor that is enabled.
\<close>

theorem failed_enable_starves:
  assumes "map_of m j = Some a" "map_of m k = Some b" "handle a \<noteq> handle b"
    "enable_worker m [((j, True, hz), True), ((k, True, hz'), False), ((k, False, hz'), True)] (0, []) = (n, cs)"
  shows "on_after cs (handle a) \<and> \<not> polls (n, cs)"
  using assms by (auto simp: enable_worker_def apply_set_sensor_def polls_def on_after_def call_on_def)

theorem failed_enable_starves_witness:
  "let s = \<lparr>aidl_type = 27, handle = 7, d_max_range = Fin False 4, d_resolution = Fin False 1\<rparr>;
       t = \<lparr>aidl_type = 8, handle = 9, d_max_range = Fin False 5, d_resolution = Fin False 1\<rparr>;
       st = enable_worker [(DeviceOrientation, s), (Proximity, t)]
         [((DeviceOrientation, True, 5), True), ((Proximity, True, 5), False), ((Proximity, False, 5), True)] (0, [])
   in on_after (snd st) 7 \<and> \<not> polls st"
proof -
  let ?s = "\<lparr>aidl_type = 27, handle = 7, d_max_range = Fin False 4, d_resolution = Fin False 1\<rparr>"
  let ?t = "\<lparr>aidl_type = 8, handle = 9, d_max_range = Fin False 5, d_resolution = Fin False 1\<rparr>"
  let ?st = "enable_worker [(DeviceOrientation, ?s), (Proximity, ?t)]
         [((DeviceOrientation, True, 5), True), ((Proximity, True, 5), False), ((Proximity, False, 5), True)] (0, [])"
  from failed_enable_starves[of "[(DeviceOrientation, ?s), (Proximity, ?t)]" DeviceOrientation ?s Proximity ?t 5 5 "fst ?st" "snd ?st"]
  show ?thesis by (simp add: Let_def)
qed

end
