(* ===== verification/Daemon.thy ===== *)
theory Daemon
  imports Persist Composition SensorDriver
begin

text \<open>
  The daemon around the registry (\<open>wandr-arbiter-bin\<close>: \<open>main.rs\<close>,
  \<open>state.rs\<close>, \<open>zygote_client.rs\<close>): it executes the effects of a
  dispatch, launches apps through the zygote, keeps a home app in front, times the power key,
  pushes input windows and answers clients.

  Everything outside the process is the record \<open>World\<close>.  Each call to it is numbered,
  and the number is an argument of the answer, so the world is free to answer the same question
  differently each time.  What the daemon does to the world is the log \<open>d_log\<close>, in
  order.  A panic, and a run that does not end, are \<open>None\<close>.

  All of it runs under \<open>arbiter_lock\<close>, so one handler is one step.  Messages to
  logcat are left out.
\<close>

section \<open>The world and the daemon's state\<close>

datatype Signal = SIGUSR1 | SIGUSR2 | SIGRTMIN_1

datatype OsAction =
    ToHost pid string
  | Signal pid Signal
  | OomScore pid int
  | Zygote string
  | WriteTmp string bool
  | RenameTmp bool
  | DisplayPower bool
  | Lights fp bool
  | WriteFile string string
  | SensorHal SensorKind bool u32
  | Windows string bool
  | Relay string
  | Reboot bool
  | RemoveSocket pid
  | ReadClock

text \<open>
  Answers of the world.  \<open>Inl\<close> is the text of an I/O error.  A directory is listed as
  names, each with whether it is a directory.  \<open>w_input\<close>: the input dispatcher takes
  the windows; \<open>w_write\<close>, \<open>w_rename\<close>: the file beside the state file is
  written, and takes its place; \<open>w_store_ok\<close>: the saved networks can be written;
  \<open>w_sensors\<close>: what the sensor service enumerates.  The zygote's answer may also depend on
  the pids the daemon lists at the time, so that a rule such as ``a fork gets a pid that is not in
  use'' can be stated of a world.
\<close>

record World =
  w_clock :: "nat \<Rightarrow> Clock"
  w_zygote :: "nat \<Rightarrow> pid list \<Rightarrow> string \<Rightarrow> string + string"
  w_relay :: "nat \<Rightarrow> string \<Rightarrow> string + string"
  w_kill :: "nat \<Rightarrow> pid \<Rightarrow> int \<times> int"
  w_lights :: "nat \<Rightarrow> fp \<Rightarrow> bool \<Rightarrow> bool"
  w_input :: "nat \<Rightarrow> bool"
  w_write :: "nat \<Rightarrow> string \<Rightarrow> bool"
  w_rename :: "nat \<Rightarrow> bool"
  w_read_dir :: "nat \<Rightarrow> string \<Rightarrow> (string \<times> bool) list option"
  w_read_file :: "nat \<Rightarrow> string \<Rightarrow> string option"
  w_env :: "string \<Rightarrow> string option"
  w_store_ok :: bool
  w_sensors :: "SensorDesc list"
  w_log10 :: "fp \<Rightarrow> fp"

record Daemon =
  d_registry :: "AnyModule Registry"
  d_store :: Store
  power_pending :: "(u64 \<times> instant) option"
  POWER_GEN :: u64
  power_timers :: "(u64 \<times> instant) list"
  screen_last :: "bool option"
  last_windows :: string
  backlight_max_cell :: "u32 option"
  d_calls :: nat
  d_log :: "OsAction list"

definition act :: "OsAction \<Rightarrow> Daemon \<Rightarrow> Daemon" where
  "act a d = d\<lparr>d_calls := Suc (d_calls d), d_log := d_log d @ [a]\<rparr>"

definition on_d_store :: "(Store \<Rightarrow> Store) \<Rightarrow> Daemon \<Rightarrow> Daemon" where
  "on_d_store f d = d\<lparr>d_store := f (d_store d)\<rparr>"

definition read_clock :: "World \<Rightarrow> Daemon \<Rightarrow> Clock \<times> Daemon" where
  "read_clock w d = (w_clock w (d_calls d), act ReadClock d)"

definition no_art :: "World \<Rightarrow> bool" where
  "no_art w \<longleftrightarrow> w_env w ''WANDR_NO_ART'' \<noteq> None"

section \<open>The registry of modules and the model\<close>

definition module_owns :: "string \<Rightarrow> Daemon \<Rightarrow> bool" where
  "module_owns v d \<longleftrightarrow> owns (d_registry d) v"

definition run_module :: "World \<Rightarrow> string \<Rightarrow> string \<Rightarrow> Daemon \<Rightarrow> ((Reply \<times> Effect list) option \<times> Daemon) option" where
  "run_module w v args d =
     (let (cl, d1) = read_clock w d in do {
        (res, r, st) \<leftarrow> dispatch_command (arbiter (w_log10 w)) cl v args (d_registry d1) (d_store d1);
        Some (res, d1\<lparr>d_registry := r, d_store := st\<rparr>)
      })"

definition model_put_surface :: "pid \<Rightarrow> string \<Rightarrow> Role \<Rightarrow> Daemon \<Rightarrow> Daemon" where
  "model_put_surface p i r = on_d_store (display_mut PRIMARY_DISPLAY (put_surface p i r))"

definition model_visible_app :: "Daemon \<Rightarrow> pid option" where
  "model_visible_app d = Option.bind (display (d_store d) PRIMARY_DISPLAY) visible_app"

definition model_foreground_slot :: "Daemon \<Rightarrow> (pid \<times> string) option" where
  "model_foreground_slot d = sh_foreground_slot (d_store d)"

text \<open>The foreground app's id, which the callers compare and persist.\<close>

definition fg_id :: "Daemon \<Rightarrow> string option" where
  "fg_id d = map_option snd (model_foreground_slot d)"

section \<open>The zygote client\<close>

definition trim_end_char :: "char \<Rightarrow> string \<Rightarrow> string" where
  "trim_end_char c s = rev (dropWhile (\<lambda>x. x = c) (rev s))"

definition trim_line :: "string \<Rightarrow> string" where
  "trim_line s = trim_end_char (CHR 0x0D) (trim_end_char (CHR 0x0A) s)"

definition listed_pids :: "Store \<Rightarrow> pid list" where
  "listed_pids st = map (\<lambda>x. a_pid (snd x)) (apps st)"

definition send :: "World \<Rightarrow> string \<Rightarrow> Daemon \<Rightarrow> (string + string) \<times> Daemon" where
  "send w line d =
     (map_sum id trim_line (w_zygote w (d_calls d) (listed_pids (d_store d)) line), act (Zygote line) d)"

text \<open>The error of \<open>i32::from_str\<close>: per digit, a bad digit is seen before an overflow.\<close>

fun digits_error :: "int \<Rightarrow> int \<Rightarrow> string \<Rightarrow> string" where
  "digits_error sg acc [] = []"
| "digits_error sg acc (c # cs) =
     (case digit_val c of
        None \<Rightarrow> ''invalid digit found in string''
      | Some x \<Rightarrow>
          (let v = acc * 10 + sg * int x in
           if v > 2 ^ 31 - 1 then ''number too large to fit in target type''
           else if v < - (2 ^ 31) then ''number too small to fit in target type''
           else digits_error sg v cs))"

definition i32_error :: "string \<Rightarrow> string" where
  "i32_error s =
     (case s of
        [] \<Rightarrow> ''cannot parse integer from empty string''
      | c # cs \<Rightarrow>
          if (c = CHR ''+'' \<or> c = CHR ''-'') \<and> cs = [] then ''invalid digit found in string''
          else if c = CHR ''-'' then digits_error (-1) 0 cs
          else digits_error 1 0 (if c = CHR ''+'' then cs else s))"

definition parse_pid :: "string \<Rightarrow> string + pid" where
  "parse_pid reply =
     (case strip_prefix ''OK '' reply of
        None \<Rightarrow> Inl (''zygote did not OK: '' @ reply)
      | Some rest \<Rightarrow>
          (case parse_i32 (trim rest) of
             None \<Rightarrow> Inl (''parse pid from '' @ str_debug reply @ '': '' @ i32_error (trim rest))
           | Some p \<Rightarrow> Inr p))"

definition pid_reply :: "string + string \<Rightarrow> string + pid" where
  "pid_reply r = (case r of Inl e \<Rightarrow> Inl e | Inr reply \<Rightarrow> parse_pid reply)"

definition zygote_launch_gui :: "World \<Rightarrow> string \<Rightarrow> Daemon \<Rightarrow> (string + pid) \<times> Daemon" where
  "zygote_launch_gui w i d =
     (let (r, d1) = send w (if i = [] then ''LAUNCH_GUI'' @ [CHR 0x0A] else ''LAUNCH_GUI '' @ i @ [CHR 0x0A]) d
      in (pid_reply r, d1))"

definition zygote_launch_gui_overlay :: "World \<Rightarrow> string \<Rightarrow> Daemon \<Rightarrow> (string + pid) \<times> Daemon" where
  "zygote_launch_gui_overlay w i d =
     (if i = [] then (Inl ''LAUNCH_GUI_OVERLAY requires an app-id'', d)
      else (let (r, d1) = send w (''LAUNCH_GUI_OVERLAY '' @ i @ [CHR 0x0A]) d in (pid_reply r, d1)))"

definition zygote_launch :: "World \<Rightarrow> string \<Rightarrow> Daemon \<Rightarrow> (string + pid) \<times> Daemon" where
  "zygote_launch w i d = (let (r, d1) = send w (''LAUNCH '' @ i @ [CHR 0x0A]) d in (pid_reply r, d1))"

definition zygote_kill :: "World \<Rightarrow> pid \<Rightarrow> bool \<Rightarrow> Daemon \<Rightarrow> (string + unit) \<times> Daemon" where
  "zygote_kill w p force d =
     (let verb = (if force then ''KILL_FORCE'' else ''KILL'');
          (r, d1) = send w (verb @ '' '' @ show_int p @ [CHR 0x0A]) d
      in (case r of Inl e \<Rightarrow> Inl e
          | Inr reply \<Rightarrow> if starts_with ''OK '' reply then Inr ()
                         else Inl (''zygote rejected '' @ verb @ '' '' @ show_int p @ '': '' @ reply), d1))"

definition zygote_preload :: "World \<Rightarrow> string \<Rightarrow> Daemon \<Rightarrow> (string + string) \<times> Daemon" where
  "zygote_preload w i d =
     (let (r, d1) = send w (''PRELOAD '' @ i @ [CHR 0x0A]) d
      in (case r of Inl e \<Rightarrow> Inl e
          | Inr reply \<Rightarrow> if starts_with ''OK '' reply then Inr reply
                         else Inl (''zygote rejected PRELOAD '' @ i @ '': '' @ reply), d1))"

text \<open>The three launches by kind, as both \<open>cmd_launch\<close> and the effect do it.\<close>

definition zygote_by_kind :: "World \<Rightarrow> LaunchKind \<Rightarrow> string \<Rightarrow> Daemon \<Rightarrow> (string + pid) \<times> Daemon" where
  "zygote_by_kind w k i d =
     (case k of Gui \<Rightarrow> zygote_launch_gui w i d
      | GuiOverlay \<Rightarrow> zygote_launch_gui_overlay w i d
      | LaunchKind.Headless \<Rightarrow> zygote_launch w i d)"

section \<open>Persistence\<close>

text \<open>
  The state is written beside the file and renamed onto it; a failure of either ends the save and
  is only logged by every caller.
\<close>

definition save_to :: "World \<Rightarrow> Daemon \<Rightarrow> Daemon" where
  "save_to w d =
     (let (cl, d1) = read_clock w d;
          json = to_json cl (fg_id d) (d_store d1);
          written = w_write w (d_calls d1) json;
          d2 = act (WriteTmp json written) d1
      in if written then act (RenameTmp (w_rename w (d_calls d2))) d2 else d2)"

definition state_insert :: "World \<Rightarrow> string \<Rightarrow> pid \<Rightarrow> Daemon \<Rightarrow> Daemon" where
  "state_insert w i p d =
     (let (cl, d1) = read_clock w d in
      on_d_store (insert_app \<lparr>a_app_id = i, a_pid = p, launched_at = cl_unix cl, launched_mono = cl_mono cl\<rparr>) d1)"

section \<open>Effects\<close>

definition OOM_FG :: int where "OOM_FG = 0"
definition OOM_BG :: int where "OOM_BG = 500"

definition send_role_signal :: "pid \<Rightarrow> bool \<Rightarrow> Daemon \<Rightarrow> Daemon" where
  "send_role_signal p fg = act (Signal p (if fg then SIGUSR2 else SIGUSR1))"

definition send_present :: "pid \<Rightarrow> Daemon \<Rightarrow> Daemon" where
  "send_present p = act (ToHost p (''present'' @ [CHR 0x0A]))"

definition os_apply_role :: "pid \<Rightarrow> Role \<Rightarrow> Daemon \<Rightarrow> Daemon" where
  "os_apply_role p r d =
     (case r of
        Role.Foreground \<Rightarrow> send_present p (act (OomScore p OOM_FG) (send_role_signal p True d))
      | Overlay \<Rightarrow> send_present p (act (OomScore p OOM_FG) (send_role_signal p True d))
      | Lockscreen \<Rightarrow> send_present p (act (OomScore p OOM_FG) (send_role_signal p True d))
      | OverlayBehind \<Rightarrow> act (OomScore p OOM_FG) (act (Signal p SIGRTMIN_1) d)
      | Background \<Rightarrow> act (OomScore p OOM_BG) (send_role_signal p False d)
      | Chrome \<Rightarrow> d
      | Role.Headless \<Rightarrow> d)"

definition DEFAULT_ON_FRACTION :: fp where
  "DEFAULT_ON_FRACTION = fp_of_rat f32 (3 / 5)"

definition default_on_fraction :: "World \<Rightarrow> fp" where
  "default_on_fraction w =
     (case Option.bind (w_env w ''WANDR_BACKLIGHT_DEFAULT'') (parse_fp f32) of
        None \<Rightarrow> DEFAULT_ON_FRACTION
      | Some f \<Rightarrow> if fle (Fin False 0) f \<and> fle f (Fin False 1) then f else DEFAULT_ON_FRACTION)"

definition BACKLIGHT_NODE :: string where "BACKLIGHT_NODE = ''/sys/class/leds/lcd-backlight/brightness''"
definition BACKLIGHT_MAX_NODE :: string where "BACKLIGHT_MAX_NODE = ''/sys/class/leds/lcd-backlight/max_brightness''"

text \<open>The range is read once; later calls return the cell.\<close>

definition backlight_max :: "World \<Rightarrow> Daemon \<Rightarrow> u32 \<times> Daemon" where
  "backlight_max w d =
     (case backlight_max_cell d of
        Some n \<Rightarrow> (n, d)
      | None \<Rightarrow>
          (let file = (case Option.bind (map_option trim (w_read_file w (d_calls d) BACKLIGHT_MAX_NODE)) parse_u32 of
                         Some n \<Rightarrow> if n > 0 then n else 255
                       | None \<Rightarrow> 255);
               n = (case Option.bind (w_env w ''WANDR_BACKLIGHT_MAX'') parse_u32 of
                      Some n \<Rightarrow> if n > 0 then n else file
                    | None \<Rightarrow> file)
           in (n, d\<lparr>backlight_max_cell := Some n, d_calls := Suc (d_calls d)\<rparr>)))"

definition apply_backlight_mode :: "World \<Rightarrow> fp \<Rightarrow> bool \<Rightarrow> Daemon \<Rightarrow> Daemon" where
  "apply_backlight_mode w frac0 sens d =
     (if \<not> no_art w then d
      else
        (let frac = fclamp (Fin False 0) (Fin False 1) frac0;
             d1 = act (Lights frac sens) d
         in if w_lights w (d_calls d) frac sens then d1
            else
              (let (mx, d2) = backlight_max w d1;
                   level = fp_to_u32 (fround (fmul f32 frac (fp_of_nat f32 (unat mx))));
                   path = or_default BACKLIGHT_NODE (w_env w ''WANDR_BACKLIGHT_PATH'')
               in act (WriteFile path (show_u32 level)) d2)))"

definition apply_display_power :: "World \<Rightarrow> bool \<Rightarrow> Daemon \<Rightarrow> Daemon" where
  "apply_display_power w on d =
     (if no_art w
      then apply_backlight_mode w (if on then default_on_fraction w else Fin False 0) False (act (DisplayPower on) d)
      else act (DisplayPower on) d)"

definition push_input_windows :: "World \<Rightarrow> Daemon \<Rightarrow> Daemon" where
  "push_input_windows w d =
     (if \<not> no_art w then d
      else case input_window_block (d_store d) PRIMARY_DISPLAY of
        None \<Rightarrow> d
      | Some block \<Rightarrow>
          if last_windows d = block then d
          else act (Windows block (w_input w (d_calls d))) (d\<lparr>last_windows := block\<rparr>))"

text \<open>The arm of \<open>Effect::Launch\<close>: the fresh app starts hidden.\<close>

definition exec_launch :: "World \<Rightarrow> string \<Rightarrow> LaunchKind \<Rightarrow> Daemon \<Rightarrow> Daemon" where
  "exec_launch w i k d =
     (let (r, d1) = zygote_by_kind w k i d in
      case r of
        Inl e \<Rightarrow> d1
      | Inr p \<Rightarrow>
          (let role = (if k = LaunchKind.Headless then Role.Headless else Background)
           in os_apply_role p role (model_put_surface p i role (state_insert w i p d1))))"

text \<open>Every arm but \<open>Effect::Foreground\<close>, which dispatches again.\<close>

definition exec_one :: "World \<Rightarrow> Effect \<Rightarrow> Daemon \<Rightarrow> Daemon" where
  "exec_one w e d =
     (case e of
        HostLine p line \<Rightarrow> act (ToHost p line) d
      | SetRole p r \<Rightarrow> os_apply_role p r d
      | SignalVisible p v \<Rightarrow> send_role_signal p v d
      | Foreground i \<Rightarrow> d
      | Kill p \<Rightarrow> snd (zygote_kill w p False d)
      | Persist \<Rightarrow> save_to w d
      | SetDisplayPower on \<Rightarrow> apply_display_power w on d
      | SetSensor k on hz \<Rightarrow> act (SensorHal k on hz) d
      | SetBacklight l sens \<Rightarrow> apply_backlight_mode w l sens d
      | Launch i k \<Rightarrow> exec_launch w i k d)"

section \<open>Immersive chrome\<close>

text \<open>\<open>str::lines\<close>: a trailing newline opens no line, a carriage return before one is cut.\<close>

definition str_lines :: "string \<Rightarrow> string list" where
  "str_lines s =
     (let ps = split_char (CHR 0x0A) s;
          cut = (\<lambda>l. if l \<noteq> [] \<and> last l = CHR 0x0D then butlast l else l)
      in map cut (butlast ps) @ (if last ps = [] then [] else [last ps]))"

definition trim_quotes :: "string \<Rightarrow> string" where
  "trim_quotes s = trim_end_char (CHR 0x22) (dropWhile (\<lambda>c. c = CHR 0x22) s)"

definition immersive_line :: "string \<Rightarrow> bool" where
  "immersive_line l =
     (let t = trim l in
      starts_with ''immersive'' t \<and>
      (case nth_opt (split_char (CHR ''='') t) 1 of None \<Rightarrow> False
       | Some v \<Rightarrow> starts_with ''true'' (trim_quotes (trim v))))"

definition app_is_immersive :: "World \<Rightarrow> nat \<Rightarrow> string \<Rightarrow> bool" where
  "app_is_immersive w n i =
     (let root = or_default ''/data/local/tmp/wandr-apps'' (w_env w ''WANDR_APPS_ROOT'');
          app_dir = root @ ''/apps/'' @ i
      in case w_read_dir w n app_dir of
           None \<Rightarrow> False
         | Some es \<Rightarrow>
             (let vers = sort (map (\<lambda>e. utf8_lossy (fst e)) (filter snd es)) in
              if vers = [] then False
              else case w_read_file w n (app_dir @ ''/'' @ last vers @ ''/package.toml'') of
                None \<Rightarrow> False
              | Some body \<Rightarrow> list_ex immersive_line (str_lines body)))"

text \<open>What \<open>set-immersive\<close> is told, and the number the answer used up.\<close>

definition immersive_arg :: "World \<Rightarrow> Daemon \<Rightarrow> string" where
  "immersive_arg w d =
     (case fg_id d of None \<Rightarrow> ''0'' | Some i \<Rightarrow> if app_is_immersive w (d_calls d) i then ''1'' else ''0'')"

definition probe :: "Daemon \<Rightarrow> Daemon" where
  "probe d = d\<lparr>d_calls := Suc (d_calls d)\<rparr>"

section \<open>Executing effects\<close>

text \<open>
  \<open>Effect::Foreground\<close> dispatches the \<open>foreground\<close> verb again, whose effects are
  executed in turn: the executor is recursive through \<open>dispatch_foreground\<close>.  The three
  definitions over a given executor are the bodies of \<open>if let Some((_, effects)) =
  run_module(..)\<close>, \<open>reconcile_immersive\<close> and \<open>dispatch_foreground\<close>.
\<close>

definition run_effects ::
  "(World \<Rightarrow> Effect list \<Rightarrow> Daemon \<Rightarrow> Daemon option) \<Rightarrow> World
     \<Rightarrow> (Reply \<times> Effect list) option \<times> Daemon \<Rightarrow> Daemon option" where
  "run_effects ex w x = (case fst x of None \<Rightarrow> Some (snd x) | Some y \<Rightarrow> ex w (snd y) (snd x))"

definition reconcile_with ::
  "(World \<Rightarrow> Effect list \<Rightarrow> Daemon \<Rightarrow> Daemon option) \<Rightarrow> World \<Rightarrow> Daemon \<Rightarrow> Daemon option" where
  "reconcile_with ex w d = do {
     x \<leftarrow> run_module w ''set-immersive'' (immersive_arg w d) (probe d);
     d2 \<leftarrow> run_effects ex w x;
     Some (push_input_windows w d2)
   }"

definition foreground_with ::
  "(World \<Rightarrow> Effect list \<Rightarrow> Daemon \<Rightarrow> Daemon option) \<Rightarrow> World \<Rightarrow> string \<Rightarrow> Daemon \<Rightarrow> Daemon option" where
  "foreground_with ex w i d = do {
     x \<leftarrow> run_module w ''foreground'' i d;
     d2 \<leftarrow> run_effects ex w x;
     reconcile_with ex w d2
   }"

lemma run_effects_mono [partial_function_mono]:
  "option.mono_body (\<lambda>f. run_effects (\<lambda>w es d. f ((w, es), d)) w x)"
  by (cases "fst x") (simp_all add: run_effects_def option.const_mono call_mono)

lemma foreground_with_mono [partial_function_mono]:
  "option.mono_body (\<lambda>f. foreground_with (\<lambda>w es d. f ((w, es), d)) w i d)"
  unfolding foreground_with_def reconcile_with_def
  by (intro partial_function_mono allI) 

partial_function (option) execute_effects :: "World \<Rightarrow> Effect list \<Rightarrow> Daemon \<Rightarrow> Daemon option" where
  "execute_effects w es d =
     (case es of
        [] \<Rightarrow> Some d
      | e # rest \<Rightarrow> do {
          d1 \<leftarrow> (case e of Foreground i \<Rightarrow> foreground_with execute_effects w i d | _ \<Rightarrow> Some (exec_one w e d));
          execute_effects w rest d1
        })"


definition run_verb :: "World \<Rightarrow> string \<Rightarrow> string \<Rightarrow> Daemon \<Rightarrow> Daemon option" where
  "run_verb w v args d = run_module w v args d \<bind> run_effects execute_effects w"

definition reconcile_immersive :: "World \<Rightarrow> Daemon \<Rightarrow> Daemon option" where
  "reconcile_immersive = reconcile_with execute_effects"

definition dispatch_foreground :: "World \<Rightarrow> string \<Rightarrow> Daemon \<Rightarrow> Daemon option" where
  "dispatch_foreground = foreground_with execute_effects"

text \<open>
  \<open>hung_up\<close>: the client closed its socket, so the write of the reply fails and
  \<open>?\<close> leaves the function.
\<close>

definition dispatch_module :: "World \<Rightarrow> string \<Rightarrow> string \<Rightarrow> bool \<Rightarrow> Daemon \<Rightarrow> (string \<times> Daemon) option" where
  "dispatch_module w v rest hung_up d = do {
     x \<leftarrow> run_module w v rest d;
     d1 \<leftarrow> run_effects execute_effects w x;
     let out = (case fst x of Some (reply, _) \<Rightarrow> render reply | None \<Rightarrow> ''ERR module-dispatch-miss '' @ v);
     d2 \<leftarrow> (if \<not> hung_up \<and> fg_id d1 \<noteq> fg_id d then reconcile_immersive w d1 else Some d1);
     Some (out, d2)
   }"

definition bus_emit :: "World \<Rightarrow> Event \<Rightarrow> Daemon \<Rightarrow> Daemon option" where
  "bus_emit w ev d =
     (let (cl, d1) = read_clock w d in do {
        (effs, r, st) \<leftarrow> dispatch_event (arbiter (w_log10 w)) cl ev (d_registry d1) (d_store d1);
        d2 \<leftarrow> execute_effects w effs (d1\<lparr>d_registry := r, d_store := st\<rparr>);
        if fg_id d2 \<noteq> fg_id d then reconcile_immersive w d2 else Some d2
      })"

section \<open>Launching and home\<close>

definition DEV_CWASM :: string where "DEV_CWASM = ''<dev-cwasm>''"

definition kind_role :: "LaunchKind \<Rightarrow> Role" where
  "kind_role k = (case k of LaunchKind.Headless \<Rightarrow> Role.Headless | _ \<Rightarrow> Background)"

definition running :: "World \<Rightarrow> string \<Rightarrow> Daemon \<Rightarrow> AppState option" where
  "running w i d =
     (case app (d_store d) i of None \<Rightarrow> None
      | Some a \<Rightarrow> if pid_alive (w_kill w (d_calls d)) (a_pid a) then Some a else None)"

definition launched :: "World \<Rightarrow> string \<Rightarrow> LaunchKind \<Rightarrow> pid \<Rightarrow> Daemon \<Rightarrow> (string \<times> Daemon) option" where
  "launched w i k p d =
     (let key = (if i = [] then DEV_CWASM else i);
          d1 = model_put_surface p key (kind_role k) (state_insert w key p d)
      in do {
        d2 \<leftarrow> (case k of Gui \<Rightarrow> dispatch_foreground w key d1
               | GuiOverlay \<Rightarrow> Some (send_role_signal p False d1)
               | LaunchKind.Headless \<Rightarrow> Some d1);
        Some (''OK pid='' @ show_int p @ '' app='' @ key, d2)
      })"

definition cmd_launch :: "World \<Rightarrow> string \<Rightarrow> LaunchKind \<Rightarrow> Daemon \<Rightarrow> (string \<times> Daemon) option" where
  "cmd_launch w i k d =
     (if i = [] \<and> k \<noteq> Gui then Some (''ERR launch-empty-app-id'', d)
      else
        (let d0 = probe d in
         case (if k = Gui \<and> i \<noteq> [] then running w i d else None) of
           Some a \<Rightarrow> do {
             d1 \<leftarrow> dispatch_foreground w (a_app_id a) d0;
             Some (''OK pid='' @ show_int (a_pid a) @ '' app='' @ i @ '' foregrounded'', d1)
           }
         | None \<Rightarrow>
             (case zygote_by_kind w k i d0 of
                (Inr p, d1) \<Rightarrow> launched w i k p d1
              | (Inl e, d1) \<Rightarrow> Some (''ERR launch-failed '' @ e, d1))))"

definition ensure_home_foreground :: "World \<Rightarrow> Daemon \<Rightarrow> Daemon option" where
  "ensure_home_foreground w d =
     (case home (d_store d) of
        None \<Rightarrow> Some d
      | Some hm \<Rightarrow>
          if fg_id d = Some hm then Some d
          else case app (d_store d) hm of
            Some a \<Rightarrow> dispatch_foreground w hm d
          | None \<Rightarrow>
              (case zygote_launch_gui w hm d of
                 (Inl e, d1) \<Rightarrow> Some d1
               | (Inr p, d1) \<Rightarrow>
                   dispatch_foreground w hm (model_put_surface p hm Background (state_insert w hm p d1))))"

definition cmd_set_home :: "World \<Rightarrow> string \<Rightarrow> Daemon \<Rightarrow> (string \<times> Daemon) option" where
  "cmd_set_home w rest d =
     (let i = trim rest; prev = or_default ''(none)'' (home (d_store d)) in
      if i = [] then Some (''ERR set-home-empty-app-id'', d)
      else if i = ''-''
      then Some (''OK home cleared prev='' @ prev, on_d_store (\<lambda>st. snd (set_home None st)) d)
      else do {
        d1 \<leftarrow> ensure_home_foreground w (on_d_store (\<lambda>st. snd (set_home (Some i) st)) d);
        Some (''OK home='' @ i @ '' prev='' @ prev, d1)
      })"

definition cmd_go_home :: "World \<Rightarrow> Daemon \<Rightarrow> (string \<times> Daemon) option" where
  "cmd_go_home w d =
     (case home (d_store d) of
        Some hm \<Rightarrow> do { d1 \<leftarrow> ensure_home_foreground w d; Some (''OK go-home='' @ hm, d1) }
      | None \<Rightarrow> Some (''ERR no-home-set (use: set-home <app-id>)'', d))"

definition cmd_preload :: "World \<Rightarrow> string \<Rightarrow> Daemon \<Rightarrow> (string \<times> Daemon) option" where
  "cmd_preload w i d =
     (if i = [] then Some (''ERR preload-empty-app-id'', d)
      else case zygote_preload w i d of
        (Inr reply, d1) \<Rightarrow> Some (reply, d1)
      | (Inl e, d1) \<Rightarrow> Some (''ERR preload-failed '' @ i @ '': '' @ e, d1))"

section \<open>The power key and the power menu\<close>

definition cmd_pm_action :: "World \<Rightarrow> string \<Rightarrow> Daemon \<Rightarrow> (string \<times> Daemon) option" where
  "cmd_pm_action w action d = do {
     d1 \<leftarrow> run_verb w ''pm-dismiss'' [] d;
     if action = ''lock'' then do { d2 \<leftarrow> run_verb w ''lock'' [] d1; Some (''OK pm-lock'', d2) }
     else if action = ''poweroff'' then Some (''OK pm-poweroff'', act (Reboot True) d1)
     else if action = ''restart'' then Some (''OK pm-restart'', act (Reboot False) d1)
     else if action = ''emergency'' then Some (''OK pm-emergency'', d1)
     else Some (''ERR pm-unknown'', d1)
   }"

definition show_power_menu :: "World \<Rightarrow> Daemon \<Rightarrow> Daemon option" where
  "show_power_menu w d = run_verb w ''panel'' ''on'' d \<bind> run_verb w ''power-menu'' []"

definition elapsed :: "instant \<Rightarrow> Clock \<Rightarrow> nat" where
  "elapsed t cl = cl_mono cl - t"

text \<open>The spawned timer is the pair in \<open>power_timers\<close>: the press and when it was armed.\<close>

definition cmd_power_down :: "World \<Rightarrow> Daemon \<Rightarrow> string \<times> Daemon" where
  "cmd_power_down w d =
     (let (cl, d1) = read_clock w d;
          dup = (case power_pending d of None \<Rightarrow> False | Some (g, t) \<Rightarrow> elapsed t cl \<le> 2 * 10 ^ 9);
          g = POWER_GEN d + 1
      in if dup then (''OK power-down (dup)'', d1)
         else (''OK power-down'',
               d1\<lparr>POWER_GEN := g, power_pending := Some (g, cl_mono cl),
                  power_timers := power_timers d @ [(g, cl_mono cl)]\<rparr>))"

definition power_timer_fires :: "World \<Rightarrow> u64 \<Rightarrow> Daemon \<Rightarrow> Daemon option" where
  "power_timer_fires w g d =
     (case power_pending d of
        Some (gn, t) \<Rightarrow> if gn = g then show_power_menu w (d\<lparr>power_pending := None\<rparr>) else Some d
      | None \<Rightarrow> Some d)"

definition cmd_power_up :: "World \<Rightarrow> Daemon \<Rightarrow> (string \<times> Daemon) option" where
  "cmd_power_up w d =
     (let d0 = d\<lparr>power_pending := None\<rparr> in do {
        d1 \<leftarrow> (case power_pending d of
                 None \<Rightarrow> Some d0
               | Some (g, t) \<Rightarrow>
                   (let (cl, d1) = read_clock w d0 in
                    if elapsed t cl \<ge> 10 ^ 9 then show_power_menu w d1
                    else run_verb w ''power-key'' [] d1));
        Some (''OK power-up'', d1)
      })"

section \<open>Wi-Fi relay\<close>

definition relay_wifi :: "World \<Rightarrow> string \<Rightarrow> Daemon \<Rightarrow> string \<times> Daemon" where
  "relay_wifi w line d =
     (let full = (if line \<noteq> [] \<and> last line = CHR 0x0A then line else line @ [CHR 0x0A]) in
      ((case w_relay w (d_calls d) full of
          Inr reply \<Rightarrow> reply
        | Inl e \<Rightarrow> ''err wifi-relay '' @ e @ '' (wandr-net daemon down?)'' @ [CHR 0x0A]),
       act (Relay full) d))"

text \<open>The first token with the prefix, without it.\<close>

definition creds_field :: "string \<Rightarrow> string \<Rightarrow> string" where
  "creds_field body k =
     (case List.map_filter (strip_prefix k) (split_ws body) of [] \<Rightarrow> [] | v # _ \<Rightarrow> v)"

text \<open>The module's effects are dropped here, as in the code.\<close>

definition cmd_wifi_connect_saved :: "World \<Rightarrow> string \<Rightarrow> Daemon \<Rightarrow> (string \<times> Daemon) option" where
  "cmd_wifi_connect_saved w rest d = do {
     (res, d1) \<leftarrow> run_module w ''wifi-saved-creds'' rest d;
     Some (case res of
       None \<Rightarrow> (''err wifi-config-manager-missing'' @ [CHR 0x0A], d1)
     | Some (Err e, _) \<Rightarrow> (''err '' @ e @ [CHR 0x0A], d1)
     | Some (Ok body, _) \<Rightarrow>
         (let ssid = creds_field body ''ssid=''; psk = creds_field body ''psk='' in
          if ssid = [] then (''err saved-creds-malformed'' @ [CHR 0x0A], d1)
          else relay_wifi w (''connect '' @ ssid @ '' '' @ psk) d1))
   }"

section \<open>Clients\<close>

definition reply_line :: "string \<times> Daemon \<Rightarrow> string \<times> Daemon" where
  "reply_line x = (fst x @ [CHR 0x0A], snd x)"

definition legacy_command :: "World \<Rightarrow> string \<Rightarrow> string \<Rightarrow> Daemon \<Rightarrow> (string \<times> Daemon) option" where
  "legacy_command w verb rest d =
     (if verb = ''launch'' then map_option reply_line (cmd_launch w rest Gui d)
      else if verb = ''launch-headless'' then map_option reply_line (cmd_launch w rest LaunchKind.Headless d)
      else if verb = ''launch-overlay'' then map_option reply_line (cmd_launch w rest GuiOverlay d)
      else if verb = ''preload'' then map_option reply_line (cmd_preload w rest d)
      else if verb = ''set-home'' then map_option reply_line (cmd_set_home w rest d)
      else if verb = ''go-home'' then map_option reply_line (cmd_go_home w d)
      else if verb = ''wifi-scan'' then Some (relay_wifi w ''scan'' d)
      else if verb = ''wifi-connect'' then Some (relay_wifi w (''connect '' @ rest) d)
      else if verb = ''wifi-set-enabled'' then Some (relay_wifi w (''set-enabled '' @ rest) d)
      else if verb = ''wifi-is-enabled'' then Some (relay_wifi w ''is-enabled'' d)
      else if verb = ''wifi-connect-saved'' then cmd_wifi_connect_saved w rest d
      else if verb = ''pm-lock'' then map_option reply_line (cmd_pm_action w ''lock'' d)
      else if verb = ''pm-poweroff'' then map_option reply_line (cmd_pm_action w ''poweroff'' d)
      else if verb = ''pm-restart'' then map_option reply_line (cmd_pm_action w ''restart'' d)
      else if verb = ''pm-emergency'' then map_option reply_line (cmd_pm_action w ''emergency'' d)
      else if verb = ''power-down'' then Some (reply_line (cmd_power_down w d))
      else if verb = ''power-up'' then map_option reply_line (cmd_power_up w d)
      else Some (''ERR unknown-command '' @ verb @ [CHR 0x0A], d))"

definition parse_line :: "string \<Rightarrow> string \<times> string" where
  "parse_line raw =
     (let line = trim_line raw in
      case split_once (CHR '' '') line of Some (v, r) \<Rightarrow> (v, trim r) | None \<Rightarrow> (line, []))"

text \<open>One accepted connection; \<open>raw\<close> is the line the client sent, not empty and valid
  UTF-8 (any other ends the connection before the lock is taken).\<close>

definition handle_client :: "World \<Rightarrow> string \<Rightarrow> bool \<Rightarrow> Daemon \<Rightarrow> (string \<times> Daemon) option" where
  "handle_client w raw hung_up d =
     (let (verb, rest) = parse_line raw in do {
        (out, d1) \<leftarrow> (if module_owns verb d then map_option reply_line (dispatch_module w verb rest hung_up d)
                       else legacy_command w verb rest d);
        Some (out, push_input_windows w (save_to w d1))
      })"

section \<open>Deaths\<close>

definition remove_host_socket :: "pid \<Rightarrow> Daemon \<Rightarrow> Daemon" where
  "remove_host_socket p = act (RemoveSocket p)"

definition handle_child_exit :: "World \<Rightarrow> pid \<Rightarrow> Daemon \<Rightarrow> Daemon option" where
  "handle_child_exit w p d =
     (if find (\<lambda>a. a_pid a = p) (apps_snapshot (d_store d)) = None
      then Some (remove_host_socket p d)
      else do {
        d1 \<leftarrow> bus_emit w (SurfaceRemoved p) d;
        let d2 = remove_host_socket p d1;
        d3 \<leftarrow> (if model_foreground_slot d2 = None \<and> home (d_store d2) \<noteq> None
                then ensure_home_foreground w d2 else Some d2);
        Some (push_input_windows w (save_to w d3))
      })"

text \<open>One line the zygote pushes to the subscriber thread.\<close>

definition exit_line :: "World \<Rightarrow> string \<Rightarrow> Daemon \<Rightarrow> Daemon option" where
  "exit_line w raw d =
     (case strip_prefix ''EXITED '' (trim raw) of
        None \<Rightarrow> Some d
      | Some rest \<Rightarrow>
          (case Option.bind (nth_opt (splitn 2 (CHR '' '') rest) 0) parse_i32 of
             None \<Rightarrow> Some d
           | Some p \<Rightarrow> handle_child_exit w p d))"

text \<open>
  One round of the polling thread over the snapshot it took; between two deaths the lock is free,
  which is a later step of the run.
\<close>

definition poll_one :: "World \<Rightarrow> pid \<Rightarrow> Daemon \<Rightarrow> Daemon option" where
  "poll_one w p d =
     (if pid_alive (w_kill w (d_calls d)) p then Some (probe d) else handle_child_exit w p (probe d))"

section \<open>The other threads\<close>

text \<open>The tick is stamped with the unix time in milliseconds.\<close>

definition alarm_tick :: "World \<Rightarrow> Daemon \<Rightarrow> Daemon option" where
  "alarm_tick w d =
     (let (cl, d1) = read_clock w d in bus_emit w (AlarmTick (of_nat (cl_unix cl div 10 ^ 6))) d1)"

definition read_live :: "string \<Rightarrow> bool option" where
  "read_live out = map_option (\<lambda>v. v = 2 \<or> v = 5) (parse_i32 (trim out))"

text \<open>One round of the screen poller; \<open>out\<close> is what \<open>getprop\<close> printed, if it ran.\<close>

definition screen_poll :: "World \<Rightarrow> string option \<Rightarrow> Daemon \<Rightarrow> Daemon option" where
  "screen_poll w out d =
     (case Option.bind out read_live of
        None \<Rightarrow> Some d
      | Some live \<Rightarrow>
          if live \<and> screen_last d = Some True then Some d
          else bus_emit w (ScreenState live) (d\<lparr>screen_last := Some live\<rparr>))"

type_synonym sample = "u32 \<times> fp \<times> fp \<times> fp \<times> u64"

fun emit_samples :: "World \<Rightarrow> (u32 \<times> SensorKind) list \<Rightarrow> sample list \<Rightarrow> Daemon \<Rightarrow> Daemon option" where
  "emit_samples w hm [] d = Some d"
| "emit_samples w hm ((h, x, y, z, ts) # ss) d =
     (case map_of hm h of
        None \<Rightarrow> emit_samples w hm ss d
      | Some k \<Rightarrow> bus_emit w (SensorReading k x y z ts) d \<bind> emit_samples w hm ss)"

section \<open>Boot\<close>

definition ARBITER_STATE_PATH :: string where "ARBITER_STATE_PATH = ''/data/local/tmp/wandr-arbiter-state.json''"

text \<open>A missing file, an unreadable one and a malformed one all leave the fresh store.\<close>

definition restore_from :: "World \<Rightarrow> Store \<Rightarrow> (string option \<times> Store) option" where
  "restore_from w st =
     (case w_read_file w 0 ARBITER_STATE_PATH of
        None \<Rightarrow> Some (None, st)
      | Some body \<Rightarrow>
          (case restore_from_json (w_kill w 0) (w_clock w 0) body st of
             None \<Rightarrow> None
           | Some (Malformed, st1) \<Rightarrow> Some (None, st1)
           | Some (Restored a dead fg, st1) \<Rightarrow> Some (fg, st1)))"

definition seed_surface_model :: "string option \<Rightarrow> Store \<Rightarrow> Store" where
  "seed_surface_model fg st =
     display_mut PRIMARY_DISPLAY
       (\<lambda>ds. fold (\<lambda>a. put_surface (a_pid a) (a_app_id a)
                        (if fg = Some (a_app_id a) then Role.Foreground else Background))
               (apps_snapshot st) (clear ds)) st"

text \<open>\<open>sensor_driver::spawn\<close>: the descriptors, then the always-on orientation sensor.\<close>

definition spawn_sensors :: "World \<Rightarrow> Daemon \<Rightarrow> Daemon" where
  "spawn_sensors w d =
     (let m = known_sensors (w_sensors w) [];
          d1 = on_d_store (fold (\<lambda>(k, s). set_sensor_descriptor k (d_max_range s) (d_resolution s)) m) d
      in if map_of m DeviceOrientation \<noteq> None
         then act (SensorHal DeviceOrientation True ORIENTATION_RATE_HZ) d1 else d1)"

text \<open>Everything up to the accept loop but the home app, which takes the lock of its own.\<close>

definition boot :: "World \<Rightarrow> Daemon option" where
  "boot w = do {
     (fg, st) \<leftarrow> restore_from w Store_new;
     r \<leftarrow> build_registry (w_log10 w) (w_read_file w 0 WIFI_STORE_PATH) (w_store_ok w);
     let d = \<lparr>d_registry = r, d_store = seed_surface_model fg st, power_pending = None, POWER_GEN = 0,
              power_timers = [], screen_last = None, last_windows = [], backlight_max_cell = None,
              d_calls = 1, d_log = []\<rparr>;
     Some (spawn_sensors w (if no_art w then apply_display_power w True d else d))
   }"

definition boot_home :: "World \<Rightarrow> Daemon \<Rightarrow> Daemon option" where
  "boot_home w d =
     (if home (d_store d) = None then Some d
      else map_option (save_to w) (ensure_home_foreground w d))"

end
