(* ===== verification/DaemonSafe.thy ===== *)
theory DaemonSafe
  imports Daemon
begin

text \<open>
  The daemon never panics and its effects always run to the end.  The executor is recursive only
  through \<open>Effect.Foreground\<close>; no event, and neither of the two verbs it dispatches while
  executing, asks for one, which is a second contract of the modules.
\<close>

section \<open>What only moves roles\<close>

lemma reconcile_apps: "reconcile_overlay c = Some c' \<Longrightarrow> apps (store c') = apps (store c)"
  using loose_demote[of c] loose_promote_overlay
  by (auto simp: reconcile_overlay_def Let_def loose_def shell_frame_def split: option.splits bool.splits)

lemma drop_editor_apps [simp]: "apps (store (drop_editor_focus_of p c)) = apps (store c)"
  using loose_steps(5)[of c p] by (simp add: loose_def shell_frame_def)

lemma promote_apps:
  assumes "promote_to_foreground i p c = Some c'"
  shows "apps (store c') = apps (store c)"
  using assms reconcile_apps
  by (fastforce simp: promote_to_foreground_def Let_def place_def on_primary_def apply_role_def split: option.splits if_splits)

section \<open>Who asks for the foreground\<close>

fun quiet :: "Effect \<Rightarrow> bool" where
  "quiet (Foreground i) = False"
| "quiet _ = True"

text \<open>
  The effects of a handler all satisfy \<open>Q\<close>.  Apart from alarms, a reaction only talks to
  hosts, moves roles and drives the hardware, so what holds of those effects holds of all of its.
\<close>

definition hushed :: "(Effect \<Rightarrow> bool) \<Rightarrow> Ctx \<Rightarrow> bool" where
  "hushed Q c \<longleftrightarrow> list_all Q (effects c)"

definition talks :: "(Effect \<Rightarrow> bool) \<Rightarrow> bool" where
  "talks Q \<longleftrightarrow> (\<forall>p l. Q (HostLine p l)) \<and> (\<forall>p r. Q (SetRole p r)) \<and> (\<forall>p b. Q (SignalVisible p b))
     \<and> (\<forall>b. Q (SetDisplayPower b)) \<and> (\<forall>k b hz. Q (SetSensor k b hz)) \<and> (\<forall>l b. Q (SetBacklight l b))"

lemma talks_quiet [simp]: "talks quiet"
  by (simp add: talks_def)

lemma talksD [simp]: "talks Q \<Longrightarrow> Q (HostLine p l)" "talks Q \<Longrightarrow> Q (SetRole p r)" "talks Q \<Longrightarrow> Q (SignalVisible p b)"
  "talks Q \<Longrightarrow> Q (SetDisplayPower b)" "talks Q \<Longrightarrow> Q (SetSensor k b hz)" "talks Q \<Longrightarrow> Q (SetBacklight x b)"
  by (simp_all add: talks_def)

lemma hushed_outbox [simp]:
  "hushed Q (emit e c) = hushed Q c" "hushed Q (request x c) = (hushed Q c \<and> Q x)"
  "hushed Q (on_store f c) = hushed Q c" "hushed Q (on_primary g c) = hushed Q c" "hushed Q (Ctx_new cl st)"
  "talks Q \<Longrightarrow> hushed Q (deliver_to_host p l c) = hushed Q c"
  by (auto simp: hushed_def on_primary_def)

lemma hushed_fold [simp]:
  assumes "talks Q"
  shows "hushed Q (fold (\<lambda>a. deliver_to_host (f a) (l a)) xs c) = hushed Q c"
    "hushed Q (fold (\<lambda>a. request (SignalVisible a (b a))) ps c) = hushed Q c"
proof -
  show "hushed Q (fold (\<lambda>a. deliver_to_host (f a) (l a)) xs c) = hushed Q c"
    using assms by (induction xs arbitrary: c) simp_all
  show "hushed Q (fold (\<lambda>a. request (SignalVisible a (b a))) ps c) = hushed Q c"
    using assms by (induction ps arbitrary: c) simp_all
qed

lemma hushed_shell [simp]:
  "talks Q \<Longrightarrow> hushed Q (Shell.apply_role p r c) = hushed Q c" "talks Q \<Longrightarrow> hushed Q (place p i r c) = hushed Q c"
  "talks Q \<Longrightarrow> hushed Q (drop_editor_focus_of p c) = hushed Q c"
  by (simp_all add: apply_role_def place_def drop_editor_focus_of_def Let_def split: option.split)

lemma hushed_overlay [simp]:
  "talks Q \<Longrightarrow> hushed Q (snd (promote_to_overlay i p h c)) = hushed Q c" "talks Q \<Longrightarrow> hushed Q (snd (demote_from_overlay c)) = hushed Q c"
  by (simp_all add: promote_to_overlay_def demote_from_overlay_def Let_def case_prod_beta split: option.split)

lemma hushed_reconcile: "talks Q \<Longrightarrow> reconcile_overlay c = Some c' \<Longrightarrow> hushed Q c' = hushed Q c"
  by (auto simp: reconcile_overlay_def Let_def split: option.splits bool.splits)

lemma hushed_promote:
  assumes "talks Q" "promote_to_foreground i p c = Some c'"
  shows "hushed Q c' = hushed Q c"
  using assms
  by (auto simp: promote_to_foreground_def Let_def dest!: hushed_reconcile[OF assms(1)] split: option.splits if_splits)

lemma hushed_foreground: "talks Q \<Longrightarrow> cmd_foreground i c = Some (r, c') \<Longrightarrow> hushed Q c' = hushed Q c"
  by (auto simp: cmd_foreground_def Let_def dest!: hushed_promote[rotated] split: if_splits option.splits Option.bind_splits)

lemma hushed_shell_event:
  assumes "talks Q" "shell_on_event ev c = Some c'"
  shows "hushed Q c' = hushed Q c"
proof (cases ev)
  case (ForegroundChanged i p)
  with assms show ?thesis
    by (auto simp: shell_on_event_def dest!: hushed_reconcile[OF assms(1)] split: option.splits if_splits)
next
  case (SurfaceRemoved p)
  then have "c' = on_surface_removed p c" using assms by (simp add: shell_on_event_def)
  with assms(1) show ?thesis by (simp add: on_surface_removed_def Let_def split: option.split)
qed (use assms in \<open>simp_all add: shell_on_event_def\<close>)

lemma hushed_wm [simp]:
  "talks Q \<Longrightarrow> hushed Q (deliver_all ps l c) = hushed Q c" "talks Q \<Longrightarrow> hushed Q (fan_overlays i c) = hushed Q c"
  "talks Q \<Longrightarrow> hushed Q (push_system_orientation i c) = hushed Q c"
  by (simp_all add: deliver_all_def fan_overlays_def push_system_orientation_def Let_def split: option.split)

lemma hushed_wm_event [simp]: "talks Q \<Longrightarrow> hushed Q (wm_on_event ev c) = hushed Q c"
  by (cases ev) (auto simp: wm_on_event_def wm_ime_height_def wm_foreground_def wm_orientation_def
      wm_device_orientation_def apply_device_rotation_def Let_def split: option.split)

lemma hushed_set_immersive [simp]: "talks Q \<Longrightarrow> hushed Q (snd (cmd_set_immersive a c)) = hushed Q c"
  by (simp add: cmd_set_immersive_def Let_def split: option.split)

lemma hushed_alarm_event: "hushed quiet c \<Longrightarrow> hushed quiet (alarm_on_event ev c)"
proof (cases ev)
  case (AlarmTick now)
  moreover assume "hushed quiet c"
  ultimately show ?thesis
    by (auto simp: hushed_def alarm_on_event_def on_tick_effects list_all_iff List.map_filter_def split: if_splits option.splits)
qed (simp_all add: alarm_on_event_def)

lemma hushed_power [simp]:
  "talks Q \<Longrightarrow> hushed Q (snd (reconcile_light m c)) = hushed Q c" "talks Q \<Longrightarrow> hushed Q (snd (reassert_backlight m c)) = hushed Q c"
  "talks Q \<Longrightarrow> hushed Q (snd (apply_auto_brightness m c)) = hushed Q c" "talks Q \<Longrightarrow> hushed Q (snd (set_panel_blanked b m c)) = hushed Q c"
  by (simp_all add: reconcile_light_def reassert_backlight_def apply_auto_brightness_def set_panel_blanked_def Let_def
      split: option.split)

lemma hushed_power2 [simp]:
  "talks Q \<Longrightarrow> hushed Q (snd (set_panel_on b m c)) = hushed Q c" "talks Q \<Longrightarrow> hushed Q (snd (ensure_unblanked m c)) = hushed Q c"
  by (simp_all add: set_panel_on_def ensure_unblanked_def Let_def case_prod_beta)

lemma hushed_power_event [simp]: "talks Q \<Longrightarrow> hushed Q (snd (power_on_event lg ev m c)) = hushed Q c"
  by (cases ev) (simp_all add: power_on_event_def on_screen_state_def on_power_removed_def on_comms_def on_video_def
        on_proximity_def on_light_def on_idle_tick_def Let_def case_prod_beta split: option.split)

lemma hushed_keyguard_event [simp]:
  assumes "talks Q"
  shows "hushed Q (snd (keyguard_on_event ev m c)) = hushed Q c"
proof -
  have "hushed Q (refan_orientation d) = hushed Q d" "hushed Q (cover vis d) = hushed Q d" for d vis
    using assms by (simp_all add: refan_orientation_def cover_def suppress_def split: option.split)
  with assms have "hushed Q (snd (snd (do_lock m c)))= hushed Q c"
    by (simp add: do_lock_def Let_def split: option.split)
  with assms show ?thesis
    by (cases ev) (simp_all add: keyguard_on_event_def Let_def)
qed

lemma hushed_audio_event [simp]: "talks Q \<Longrightarrow> hushed Q (snd (audio_on_event ev m c)) = hushed Q c"
  by (cases ev) (simp_all add: audio_on_event_def audio_surface_removed_def drop_pid_def push_change_def clear_badge_def
      Let_def case_prod_beta split: option.split)

lemma hushed_release [simp]: "talks Q \<Longrightarrow> hushed Q (snd (sensor_release k r m c)) = hushed Q c"
  by (simp add: sensor_release_def Let_def split: option.split)

lemma hushed_release_all [simp]:
  assumes "talks Q"
  shows "hushed Q (snd (release_all r m c)) = hushed Q c"
proof -
  have "hushed Q (snd (fold (\<lambda>k (m, c). sensor_release k r m c) ks (m, c))) = hushed Q c" for ks
  proof (induction ks arbitrary: m c)
    case (Cons k ks)
    from Cons[of "fst (sensor_release k r m c)" "snd (sensor_release k r m c)"] assms show ?case by simp
  qed simp
  then show ?thesis by (simp add: release_all_def)
qed

lemma hushed_sensors_event [simp]: "talks Q \<Longrightarrow> hushed Q (snd (sensors_on_event ev m c)) = hushed Q c"
  by (cases ev) (simp_all add: sensors_on_event_def acquire_def on_reading_def translate_proximity_def Let_def
      split: option.split)

lemma hushed_net_event [simp]: "talks Q \<Longrightarrow> hushed Q (snd (net_on_event ev m c)) = hushed Q c"
  by (cases ev) (simp_all add: net_on_event_def)

text \<open>No reaction asks for the foreground.\<close>

lemma any_event_hushed:
  assumes "any_on_event lg m ev c = Some (m', c')" "hushed quiet c"
  shows "hushed quiet c'"
  using assms by (cases m) (auto simp: case_prod_beta hushed_shell_event[OF talks_quiet] hushed_alarm_event)

section \<open>A second contract of the modules\<close>

text \<open>The two verbs the executor dispatches itself.\<close>

definition inner_verb :: "string \<Rightarrow> bool" where
  "inner_verb v \<longleftrightarrow> v = ''foreground'' \<or> v = ''set-immersive''"

lemma inner_not_chrome: "inner_verb v \<Longrightarrow> chrome_fresh v a st"
  by (auto simp: inner_verb_def chrome_fresh_def)

lemmas other_commands = wm_on_command_def alarm_on_command_def notify_on_command_def power_on_command_def
  keyguard_on_command_def audio_on_command_def sensors_on_command_def net_on_command_def events_on_command_def
  media_on_command_def

lemma quiet_command:
  assumes "any_on_command lg m v a c = Some (r, m', c')" "inner_verb v" "hushed quiet c"
  shows "hushed quiet c'"
proof (cases "\<exists>d. c' = d \<and> m = ShellM \<and> v = ''foreground''")
  case True
  with assms(1,3) hushed_foreground[OF talks_quiet] show ?thesis by (auto simp: shell_on_command_def)
next
  case False
  from assms(2) consider "v = ''foreground''" "m \<noteq> ShellM" | "v = ''set-immersive''"
    using False by (auto simp: inner_verb_def)
  then show ?thesis
  proof cases
    case 1
    with assms(1,3) show ?thesis
      by (cases m) (simp_all add: other_commands case_prod_beta Let_def)
  next
    case 2
    show ?thesis
    proof (cases "m = WmM")
      case True
      with assms(1,3) 2 hushed_set_immersive[OF talks_quiet, of a c] show ?thesis
        by (auto simp: wm_on_command_def case_prod_beta Let_def)
    next
      case False
      with assms(1,3) 2 show ?thesis
        by (cases m) (simp_all add: other_commands shell_on_command_def case_prod_beta Let_def)
    qed
  qed
qed

interpretation calm: module_contract "arbiter lg" arb_ok module_ok "\<lambda>_. True" quiet
  "\<lambda>v a st. inner_verb v" for lg
proof
  fix st m ev cl
  assume "arb_ok st" "module_ok m"
  from arb.event_ok[OF this TrueI, of lg ev cl] obtain m' c where
    "any_on_event lg m ev (Ctx_new cl st) = Some (m', c)" "arb_ok (store c)" "module_ok m'"
    by auto
  moreover from any_event_hushed[OF this(1)] have "list_all quiet (effects c)" by (simp add: hushed_def)
  ultimately show "\<exists>m' c. on_event (arbiter lg) m ev (Ctx_new cl st) = Some (m', c)
      \<and> arb_ok (store c) \<and> module_ok m' \<and> list_all (\<lambda>_. True) (events c) \<and> list_all quiet (effects c)"
    by (simp add: list_all_iff)
next
  fix st m v a cl
  assume "arb_ok st" "module_ok m" and v: "inner_verb v"
  from arb.command_ok[OF this(1,2) inner_not_chrome[OF v], of lg a cl] obtain r m' c where
    "any_on_command lg m v a (Ctx_new cl st) = Some (r, m', c)" "arb_ok (store c)" "module_ok m'"
    by auto
  moreover from quiet_command[OF this(1) v] have "list_all quiet (effects c)" by (simp add: hushed_def)
  ultimately show "\<exists>r m' c. on_command (arbiter lg) m v a (Ctx_new cl st) = Some (r, m', c)
      \<and> arb_ok (store c) \<and> module_ok m' \<and> list_all (\<lambda>_. True) (events c) \<and> list_all quiet (effects c)"
    by (simp add: list_all_iff)
qed

section \<open>Forks get fresh pids\<close>

text \<open>
  The pid the zygote answers a launch with, if any, when the daemon lists the pids \<open>P\<close>.
  \<open>fresh_forks\<close>: it is none of them.  The kernel gives a fork a pid no process has, and
  pids may come back later; a listed app has its pid until the zygote reaps it, so what this leaves
  out is a reaped child whose exit the daemon has not handled yet.
\<close>

definition forked :: "World \<Rightarrow> nat \<Rightarrow> pid list \<Rightarrow> string \<Rightarrow> pid option" where
  "forked w n P l =
     (if starts_with ''LAUNCH'' l
      then case pid_reply (map_sum id trim_line (w_zygote w n P l)) of Inl e \<Rightarrow> None | Inr p \<Rightarrow> Some p
      else None)"

definition fresh_forks :: "World \<Rightarrow> bool" where
  "fresh_forks w \<longleftrightarrow> (\<forall>n P l p. forked w n P l = Some p \<longrightarrow> p \<notin> set P)"

lemma listed_app: "app st i = Some a \<Longrightarrow> a_pid a \<in> set (listed_pids st)"
  using map_of_SomeD[of "apps st" i a] by (force simp: listed_pids_def app_def)

text \<open>The verbs the registry takes, in the order of registration.\<close>

definition arbiter_verbs :: "string list" where
  "arbiter_verbs = wm_verbs @ shell_verbs @ alarm_verbs @ notify_verbs @ power_verbs @ keyguard_verbs @ audio_verbs
     @ sensors_verbs @ net_verbs @ events_verbs @ media_verbs"

definition daemon_ok :: "World \<Rightarrow> Daemon \<Rightarrow> bool" where
  "daemon_ok w d \<longleftrightarrow> arb_ok (d_store d) \<and> list_all module_ok (modules (d_registry d)) \<and> index_ok (arbiter (w_log10 w)) (d_registry d)
     \<and> (\<forall>v. module_owns v d \<longleftrightarrow> v \<in> set arbiter_verbs)"

text \<open>The daemon's own bookkeeping, and every call to the world, keep it.\<close>

lemma daemon_ok_cong:
  assumes "d_store d' = d_store d" "d_registry d' = d_registry d" "daemon_ok w d"
  shows "daemon_ok w d'"
  using assms by (auto simp: daemon_ok_def module_owns_def)

lemma daemon_ok_act [simp, intro]:
  "daemon_ok w d \<Longrightarrow> daemon_ok w (act a d)" "daemon_ok w d \<Longrightarrow> daemon_ok w (probe d)"
  by (rule daemon_ok_cong[of _ d]; simp add: act_def probe_def)+

lemma act_simps [simp]:
  "d_store (act a d) = d_store d" "d_registry (act a d) = d_registry d" "d_calls (act a d) = Suc (d_calls d)"
  "d_log (act a d) = d_log d @ [a]" "power_pending (act a d) = power_pending d"
  "d_store (probe d) = d_store d" "d_registry (probe d) = d_registry d" "d_calls (probe d) = Suc (d_calls d)"
  by (simp_all add: act_def probe_def)

section \<open>Dispatch under the daemon\<close>

lemma run_module_ok:
  assumes "daemon_ok w d" "chrome_fresh v a (d_store d)"
  shows "\<exists>res d'. run_module w v a d = Some (res, d') \<and> daemon_ok w d' \<and> (res \<noteq> None \<longleftrightarrow> module_owns v d)
     \<and> (inner_verb v \<longrightarrow> (\<forall>r es. res = Some (r, es) \<longrightarrow> list_all quiet es))"
proof -
  let ?cl = "w_clock w (d_calls d)" and ?T = "arbiter (w_log10 w)"
  have I: "arb_ok (d_store d)" "list_all module_ok (modules (d_registry d))" "index_ok ?T (d_registry d)"
    using assms(1) by (simp_all add: daemon_ok_def)
  obtain res r' st' where D: "dispatch_command ?T ?cl v a (d_registry d) (d_store d) = Some (res, r', st')"
    "arb_ok st'" "list_all module_ok (modules r')" "res \<noteq> None \<longleftrightarrow> owns (d_registry d) v"
    "verb_index r' = verb_index (d_registry d)"
    using arb.dispatch_command_ok[OF I, where v = v and a = a and cl = ?cl] assms(2) by blast
  have "owns r' = owns (d_registry d)"
    by (simp add: owns_def fun_eq_iff D(5))
  have "index_ok ?T r'"
    by (rule arb.dispatch_command_index[OF I(3) D(1)])
  moreover have "list_all quiet es" if "inner_verb v" "res = Some (r, es)" for r es
    using calm.dispatch_command_ok[OF I that(1), where a = a and cl = ?cl] D(1) that(2) by auto
  ultimately show ?thesis
    using D assms(1) \<open>owns r' = owns (d_registry d)\<close> by (auto simp: run_module_def read_clock_def daemon_ok_def module_owns_def)
qed

section \<open>Executing effects\<close>

lemma exec_os_ok [simp]:
  "daemon_ok w d \<Longrightarrow> daemon_ok w (os_apply_role p r d)" "daemon_ok w d \<Longrightarrow> daemon_ok w (send_role_signal p b d)"
  "daemon_ok w d \<Longrightarrow> daemon_ok w (save_to w d)" "daemon_ok w d \<Longrightarrow> daemon_ok w (snd (zygote_kill w p b d))"
  by (simp_all add: os_apply_role_def send_role_signal_def send_present_def save_to_def read_clock_def zygote_kill_def Let_def
      send_def split: Role.split)

lemma daemon_ok_cells [simp]:
  "daemon_ok w (d\<lparr>backlight_max_cell := x\<rparr>) = daemon_ok w d" "daemon_ok w (d\<lparr>last_windows := l\<rparr>) = daemon_ok w d"
  "daemon_ok w (d\<lparr>power_pending := pp\<rparr>) = daemon_ok w d" "daemon_ok w (d\<lparr>power_timers := ts\<rparr>) = daemon_ok w d"
  "daemon_ok w (d\<lparr>POWER_GEN := g\<rparr>) = daemon_ok w d"
  by (simp_all add: daemon_ok_def module_owns_def)

lemma backlight_max_ok [simp]: "daemon_ok w d \<Longrightarrow> daemon_ok w (snd (backlight_max w d))"
  by (rule daemon_ok_cong[of _ d]) (simp_all add: backlight_max_def Let_def split: option.split)

lemma exec_hal_ok [simp]:
  "daemon_ok w d \<Longrightarrow> daemon_ok w (apply_backlight_mode w l b d)"
  "daemon_ok w d \<Longrightarrow> daemon_ok w (apply_display_power w b d)"
  "daemon_ok w d \<Longrightarrow> daemon_ok w (push_input_windows w d)"
  by (simp_all add: apply_backlight_mode_def apply_display_power_def push_input_windows_def Let_def case_prod_beta
      split: option.split)

text \<open>A fork that succeeds is one call, and its pid is new.\<close>

lemma zygote_by_kind_cases:
  assumes "zygote_by_kind w k i d = (r, d1)"
  obtains e where "r = Inl e" "d1 = d \<or> (\<exists>a. d1 = act a d)"
  | p l where "r = Inr p" "d1 = act (Zygote l) d" "forked w (d_calls d) (listed_pids (d_store d)) l = Some p"
proof -
  have "starts_with ''LAUNCH'' (''LAUNCH'' @ t)" for t
    by simp
  then have "starts_with ''LAUNCH'' (''LAUNCH '' @ t)" "starts_with ''LAUNCH'' (''LAUNCH_GUI '' @ t)"
    "starts_with ''LAUNCH'' (''LAUNCH_GUI_OVERLAY '' @ t)" "starts_with ''LAUNCH'' (''LAUNCH_GUI'' @ t)" for t
    by simp_all
  with assms that show thesis
    by (cases r; cases k) (auto simp: zygote_by_kind_def zygote_launch_gui_def zygote_launch_gui_overlay_def
        zygote_launch_def send_def forked_def Let_def split: if_splits sum.splits)
qed

lemma launched_ok:
  assumes "fresh_forks w" "daemon_ok w d" "forked w (d_calls d) (listed_pids (d_store d)) l = Some p"
  shows "daemon_ok w (model_put_surface p i r (state_insert w i p (act (Zygote l) d)))"
proof -
  let ?d1 = "act (Zygote l) d"
  let ?a = "\<lparr>a_app_id = i, a_pid = p, launched_at = cl_unix (w_clock w (d_calls ?d1)), launched_mono = cl_mono (w_clock w (d_calls ?d1))\<rparr>"
  have p: "p \<notin> set (listed_pids (d_store d))"
    using assms(1,3) by (auto simp: fresh_forks_def)
  have "j = i" if "app (d_store d) j = Some b" "a_pid b = p" for j b
    using p listed_app[OF that(1)] that(2) by simp
  with arb_ok_insert[of "d_store d" ?a i r] assms(2)
  have "arb_ok (display_mut PRIMARY_DISPLAY (put_surface p i r) (insert_app ?a (d_store d)))"
    by (simp add: daemon_ok_def)
  then show ?thesis
    using assms(2) by (simp add: daemon_ok_def model_put_surface_def state_insert_def on_d_store_def read_clock_def module_owns_def)
qed

lemma exec_one_ok:
  assumes "fresh_forks w" "daemon_ok w d"
  shows "daemon_ok w (exec_one w e d)"
proof (cases e)
  case (Launch i k)
  obtain r d1 where z: "zygote_by_kind w k i d = (r, d1)" by fastforce
  then show ?thesis
  proof (cases rule: zygote_by_kind_cases)
    case (1 e')
    with assms(2) z show ?thesis by (auto simp: Launch exec_one_def exec_launch_def)
  next
    case (2 p l)
    with launched_ok[OF assms 2(3)] z show ?thesis
      by (simp add: Launch exec_one_def exec_launch_def Let_def)
  qed
qed (use assms(2) in \<open>simp_all add: exec_one_def\<close>)

text \<open>
  The executor ends: the effects of the two inner verbs are quiet, so a list that asks for the
  foreground runs quiet lists inside, and those run none.
\<close>

lemma execute_Nil [simp]: "execute_effects w [] d = Some d"
  by (subst execute_effects.simps) simp

lemma execute_Cons:
  "execute_effects w (e # es) d =
     (case e of Foreground i \<Rightarrow> dispatch_foreground w i d | _ \<Rightarrow> Some (exec_one w e d)) \<bind> execute_effects w es"
  by (subst execute_effects.simps) (cases e; simp add: dispatch_foreground_def)

lemma execute_quiet:
  assumes "fresh_forks w"
  shows "daemon_ok w d \<Longrightarrow> list_all quiet es \<Longrightarrow> \<exists>d'. execute_effects w es d = Some d' \<and> daemon_ok w d'"
proof (induction es arbitrary: d)
  case (Cons e es)
  from Cons.prems have "execute_effects w (e # es) d = execute_effects w es (exec_one w e d)"
    by (cases e) (simp_all add: execute_Cons)
  with Cons.IH[OF exec_one_ok[OF assms Cons.prems(1)]] Cons.prems(2) show ?case
    by simp
qed simp

lemma run_inner_ok:
  assumes "fresh_forks w" "daemon_ok w d" "inner_verb v"
  shows "\<exists>x d'. run_module w v a d = Some x \<and> run_effects execute_effects w x = Some d' \<and> daemon_ok w d'"
proof -
  obtain res d' where r: "run_module w v a d = Some (res, d')" "daemon_ok w d'"
    "\<forall>r es. res = Some (r, es) \<longrightarrow> list_all quiet es"
    using run_module_ok[OF assms(2) inner_not_chrome[OF assms(3)]] assms(3) by blast
  show ?thesis
  proof (cases res)
    case (Some y)
    with r(3) execute_quiet[OF assms(1) r(2), of "snd y"] show ?thesis
      using r by (cases y) (auto simp: run_effects_def)
  qed (use r in \<open>simp add: run_effects_def\<close>)
qed

lemma reconcile_immersive_ok:
  assumes "fresh_forks w" "daemon_ok w d"
  shows "\<exists>d'. reconcile_immersive w d = Some d' \<and> daemon_ok w d'"
  using run_inner_ok[OF assms(1) daemon_ok_act(2)[OF assms(2)], of "''set-immersive''" "immersive_arg w d"]
  by (auto simp: reconcile_immersive_def reconcile_with_def inner_verb_def)

lemma dispatch_foreground_ok:
  assumes "fresh_forks w" "daemon_ok w d"
  shows "\<exists>d'. dispatch_foreground w i d = Some d' \<and> daemon_ok w d'"
proof -
  obtain x d1 where "run_module w ''foreground'' i d = Some x" "run_effects execute_effects w x = Some d1" "daemon_ok w d1"
    using run_inner_ok[OF assms, of "''foreground''" i] by (auto simp: inner_verb_def)
  with reconcile_immersive_ok[OF assms(1), of d1] show ?thesis
    by (simp add: dispatch_foreground_def foreground_with_def reconcile_immersive_def)
qed

lemma execute_ok:
  assumes "fresh_forks w"
  shows "daemon_ok w d \<Longrightarrow> \<exists>d'. execute_effects w es d = Some d' \<and> daemon_ok w d'"
proof (induction es arbitrary: d)
  case (Cons e es)
  have "\<exists>d1. (case e of Foreground i \<Rightarrow> dispatch_foreground w i d | _ \<Rightarrow> Some (exec_one w e d)) = Some d1 \<and> daemon_ok w d1"
    using dispatch_foreground_ok[OF assms Cons.prems] exec_one_ok[OF assms Cons.prems] by (cases e) simp_all
  with Cons.IH show ?case
    by (auto simp: execute_Cons)
qed simp

section \<open>The daemon's handlers\<close>

text \<open>The verbs the daemon dispatches on its own behalf register no chrome.\<close>

lemma run_effects_ok:
  assumes "fresh_forks w" "daemon_ok w d"
  shows "\<exists>d'. run_effects execute_effects w (res, d) = Some d' \<and> daemon_ok w d'"
  using execute_ok[OF assms] assms(2) by (cases res) (auto simp: run_effects_def)

lemma run_verb_ok:
  assumes "fresh_forks w" "daemon_ok w d" "v \<noteq> ''register-chrome''"
  shows "\<exists>d'. run_verb w v a d = Some d' \<and> daemon_ok w d'"
proof -
  obtain res d1 where r: "run_module w v a d = Some (res, d1)" "daemon_ok w d1"
    using run_module_ok[OF assms(2), of v a] assms(3) by (auto simp: chrome_fresh_def)
  with run_effects_ok[OF assms(1) r(2)] show ?thesis
    by (simp add: run_verb_def)
qed

lemma dispatch_module_ok:
  assumes "fresh_forks w" "daemon_ok w d" "chrome_fresh v a (d_store d)"
  shows "\<exists>out d'. dispatch_module w v a hung d = Some (out, d') \<and> daemon_ok w d'"
proof -
  obtain res d1 where r: "run_module w v a d = Some (res, d1)" "daemon_ok w d1"
    using run_module_ok[OF assms(2), of v a] assms(3) by auto
  with run_effects_ok[OF assms(1) r(2)] obtain d2 where
    d2: "run_effects execute_effects w (res, d1) = Some d2" "daemon_ok w d2" by blast
  show ?thesis
    using r(1) d2 reconcile_immersive_ok[OF assms(1) d2(2)] by (auto simp: dispatch_module_def Let_def)
qed

lemma bus_emit_ok:
  assumes "fresh_forks w" "daemon_ok w d"
  shows "\<exists>d'. bus_emit w ev d = Some d' \<and> daemon_ok w d'"
proof -
  let ?T = "arbiter (w_log10 w)" and ?cl = "w_clock w (d_calls d)"
  have I: "arb_ok (d_store d)" "list_all module_ok (modules (d_registry d))"
    "index_ok ?T (d_registry d)"
    using assms(2) by (simp_all add: daemon_ok_def)
  obtain effs r st where D: "dispatch_event ?T ?cl ev (d_registry d) (d_store d) = Some (effs, r, st)"
    "arb_ok st" "list_all module_ok (modules r)" "verb_index r = verb_index (d_registry d)"
    using arb.dispatch_event_ok[OF I(1,2), where ev = ev and cl = ?cl] by blast
  have "index_ok ?T r"
    by (rule arb.dispatch_event_index[OF I(3) D(1)])
  then have "daemon_ok w ((act ReadClock d)\<lparr>d_registry := r, d_store := st\<rparr>)"
    using D assms(2) by (auto simp: daemon_ok_def module_owns_def owns_def)
  from execute_ok[OF assms(1) this, of effs] obtain d2 where
    d2: "execute_effects w effs ((act ReadClock d)\<lparr>d_registry := r, d_store := st\<rparr>) = Some d2" "daemon_ok w d2"
    by blast
  show ?thesis
    using D(1) d2 reconcile_immersive_ok[OF assms(1) d2(2)] by (auto simp: bus_emit_def read_clock_def Let_def)
qed

end
