(* ===== verification/DaemonRun.thy ===== *)
theory DaemonRun
  imports DaemonSafe
begin

text \<open>
  The daemon as a state machine: one step is one handler under \<open>arbiter_lock\<close>, run by the
  accept loop or by one of the threads, in any order.  Its reachable states are well-formed, no
  step panics and every effect list is executed to its end, and what the handlers promise their
  clients.
\<close>

section \<open>Handlers keep the daemon well-formed\<close>

definition safe :: "World \<Rightarrow> Daemon option \<Rightarrow> bool" where
  "safe w x \<longleftrightarrow> (\<exists>d. x = Some d \<and> daemon_ok w d)"

lemma safe_Some [simp]: "safe w (Some d) = daemon_ok w d" "\<not> safe w None"
  by (simp_all add: safe_def)

lemma safe_bind [intro]: "safe w x \<Longrightarrow> (\<And>d. daemon_ok w d \<Longrightarrow> safe w (f d)) \<Longrightarrow> safe w (x \<bind> f)"
  by (auto simp: safe_def)

text \<open>A handler that also answers.\<close>

definition answers :: "World \<Rightarrow> (string \<times> Daemon) option \<Rightarrow> bool" where
  "answers w x \<longleftrightarrow> (\<exists>out d. x = Some (out, d) \<and> daemon_ok w d)"

lemma answers_Some [simp]: "answers w (Some x) = daemon_ok w (snd x)"
  by (cases x) (simp add: answers_def)

lemma answers_bind [intro]: "safe w x \<Longrightarrow> (\<And>d. daemon_ok w d \<Longrightarrow> answers w (f d)) \<Longrightarrow> answers w (x \<bind> f)"
  by (auto simp: safe_def)

lemma answers_reply_line [simp]: "answers w (map_option reply_line x) = answers w x"
  by (cases x) (auto simp: answers_def reply_line_def)

lemma relay_ok [simp]: "daemon_ok w d \<Longrightarrow> daemon_ok w (snd (relay_wifi w l d))"
  by (simp add: relay_wifi_def Let_def)

lemma set_home_ok [simp]:
  assumes "daemon_ok w d"
  shows "daemon_ok w (on_d_store (\<lambda>st. snd (set_home h st)) d)"
proof -
  have "arb_ok (snd (set_home h st)) = arb_ok st" for st
    by (rule arb_ok_cong) (simp_all add: set_home_def prim_def display_def)
  with assms show ?thesis
    by (simp add: daemon_ok_def on_d_store_def module_owns_def)
qed

lemma foreground_safe: "fresh_forks w \<Longrightarrow> daemon_ok w d \<Longrightarrow> safe w (dispatch_foreground w i d)"
  using dispatch_foreground_ok by (auto simp: safe_def)

lemma run_verb_safe: "fresh_forks w \<Longrightarrow> daemon_ok w d \<Longrightarrow> v \<noteq> ''register-chrome'' \<Longrightarrow> safe w (run_verb w v a d)"
  using run_verb_ok by (auto simp: safe_def)

lemma bus_emit_safe: "fresh_forks w \<Longrightarrow> daemon_ok w d \<Longrightarrow> safe w (bus_emit w ev d)"
  using bus_emit_ok by (auto simp: safe_def)

lemma launched_safe:
  "fresh_forks w \<Longrightarrow> daemon_ok w d \<Longrightarrow> forked w (d_calls d) (listed_pids (d_store d)) l = Some p \<Longrightarrow>
   answers w (launched w i k p (act (Zygote l) d))"
  using launched_ok[of w d l p] foreground_safe
  by (cases k) (auto simp: launched_def Let_def)

text \<open>After a fork: an error leaves the daemon as it is, a pid is a fresh one.\<close>

lemma fork_safe:
  assumes "daemon_ok w d" "\<And>e d1. daemon_ok w d1 \<Longrightarrow> Q (f (Inl e, d1))"
    "\<And>p l. forked w (d_calls d) (listed_pids (d_store d)) l = Some p \<Longrightarrow> Q (f (Inr p, act (Zygote l) d))"
  shows "Q (f (zygote_by_kind w k i d))"
proof -
  obtain r d1 where z: "zygote_by_kind w k i d = (r, d1)" by fastforce
  then show ?thesis
  proof (cases rule: zygote_by_kind_cases)
    case (1 e)
    with assms(1,2) z show ?thesis by auto
  next
    case (2 p l)
    with assms(3) z show ?thesis by simp
  qed
qed

lemma cmd_launch_safe:
  assumes "fresh_forks w" "daemon_ok w d"
  shows "answers w (cmd_launch w i k d)"
proof -
  have d: "daemon_ok w (probe d)" using assms by simp
  have l: "answers w (case zygote_by_kind w k i (probe d) of (Inr p, d1) \<Rightarrow> launched w i k p d1
      | (Inl e, d1) \<Rightarrow> Some (''ERR launch-failed '' @ e, d1))" for k
    by (rule fork_safe[OF d]) (simp_all add: launched_safe[OF assms(1) d])
  from l[of Gui] l[of k] show ?thesis
    using assms(2) foreground_safe[OF assms(1) d] by (auto simp: cmd_launch_def Let_def split: option.split)
qed

lemma ensure_home_safe:
  assumes "fresh_forks w" "daemon_ok w d"
  shows "safe w (ensure_home_foreground w d)"
proof -
  have "safe w (case zygote_by_kind w Gui hm d of (Inl e, d1) \<Rightarrow> Some d1
      | (Inr p, d1) \<Rightarrow> dispatch_foreground w hm (model_put_surface p hm Background (state_insert w hm p d1)))" for hm
    by (rule fork_safe[OF assms(2)]) (simp_all add: foreground_safe[OF assms(1) launched_ok[OF assms]])
  then show ?thesis
    using assms foreground_safe by (simp add: ensure_home_foreground_def zygote_by_kind_def split: option.split)
qed

lemma show_menu_safe: "fresh_forks w \<Longrightarrow> daemon_ok w d \<Longrightarrow> safe w (show_power_menu w d)"
  by (auto simp: show_power_menu_def intro: run_verb_safe)

lemma cmd_power_safe:
  assumes "fresh_forks w" "daemon_ok w d"
  shows "answers w (Some (cmd_power_down w d))" "answers w (cmd_power_up w d)" "safe w (power_timer_fires w g d)"
    "answers w (cmd_pm_action w a d)"
proof -
  show "answers w (Some (cmd_power_down w d))"
    using assms(2) by (simp add: cmd_power_down_def read_clock_def Let_def)
  show "safe w (power_timer_fires w g d)"
    using assms show_menu_safe by (auto simp: power_timer_fires_def split: option.split)
  have "safe w (case power_pending d of None \<Rightarrow> Some (d\<lparr>power_pending := None\<rparr>)
      | Some (g, t) \<Rightarrow> (let (cl, d1) = read_clock w (d\<lparr>power_pending := None\<rparr>) in
          if elapsed t cl \<ge> 10 ^ 9 then show_power_menu w d1 else run_verb w ''power-key'' [] d1))"
    using assms by (auto simp: read_clock_def show_menu_safe run_verb_safe split: option.split)
  from answers_bind[OF this] show "answers w (cmd_power_up w d)"
    by (simp add: cmd_power_up_def Let_def)
  have "answers w (run_verb w ''lock'' [] d1 \<bind> (\<lambda>d2. Some (r, d2)))" if "daemon_ok w d1" for d1 r
    by (rule answers_bind[OF run_verb_safe[OF assms(1) that]]) simp_all
  then show "answers w (cmd_pm_action w a d)"
    unfolding cmd_pm_action_def
    by (intro answers_bind[OF run_verb_safe[OF assms]]) simp_all
qed

lemma cmd_small_safe:
  assumes "fresh_forks w" "daemon_ok w d"
  shows "answers w (cmd_set_home w a d)" "answers w (cmd_go_home w d)" "answers w (cmd_preload w a d)"
    "answers w (cmd_wifi_connect_saved w a d)"
proof -
  show "answers w (cmd_set_home w a d)"
    using assms by (auto simp: cmd_set_home_def Let_def intro!: answers_bind ensure_home_safe)
  show "answers w (cmd_go_home w d)"
    using assms by (auto simp: cmd_go_home_def intro!: answers_bind ensure_home_safe split: option.split)
  show "answers w (cmd_preload w a d)"
    using assms(2) by (auto simp: cmd_preload_def zygote_preload_def send_def Let_def split: sum.split)
  obtain res d1 where r: "run_module w ''wifi-saved-creds'' a d = Some (res, d1)" "daemon_ok w d1"
    using run_module_ok[OF assms(2), of "''wifi-saved-creds''" a] by (auto simp: chrome_fresh_def)
  then show "answers w (cmd_wifi_connect_saved w a d)"
    using relay_ok[OF r(2)]
    by (simp add: cmd_wifi_connect_saved_def Let_def split: option.split Reply.split prod.split)
qed

lemma legacy_safe:
  assumes "fresh_forks w" "daemon_ok w d"
  shows "answers w (legacy_command w v a d)"
proof -
  show ?thesis
    unfolding legacy_command_def
    using assms(2) cmd_launch_safe[OF assms] cmd_small_safe[OF assms] cmd_power_safe[OF assms]
    by (simp add: reply_line_def)
qed

lemma handle_client_safe:
  assumes "fresh_forks w" "daemon_ok w d" "chrome_fresh (fst (parse_line raw)) (snd (parse_line raw)) (d_store d)"
  shows "answers w (handle_client w raw hung d)"
proof -
  obtain v a where l: "parse_line raw = (v, a)" by fastforce
  have "answers w (dispatch_module w v a hung d)"
    using dispatch_module_ok[OF assms(1,2)] assms(3) l by (auto simp: answers_def)
  then have "answers w (if module_owns v d then map_option reply_line (dispatch_module w v a hung d)
      else legacy_command w v a d)"
    using legacy_safe[OF assms(1,2)] by simp
  then show ?thesis
    unfolding handle_client_def l Let_def prod.case by (auto simp: answers_def)
qed

lemma child_exit_safe:
  assumes "fresh_forks w" "daemon_ok w d"
  shows "safe w (handle_child_exit w p d)"
proof -
  have home: "safe w ((if b then ensure_home_foreground w d2 else Some d2) \<bind> (\<lambda>d3. Some (push_input_windows w (save_to w d3))))"
    if "daemon_ok w d2" for b d2
    using that ensure_home_safe[OF assms(1) that] by (auto simp: safe_def)
  have "safe w (bus_emit w (SurfaceRemoved p) d \<bind> (\<lambda>d1. let d2 = remove_host_socket p d1 in
      (if model_foreground_slot d2 = None \<and> home (d_store d2) \<noteq> None then ensure_home_foreground w d2 else Some d2)
        \<bind> (\<lambda>d3. Some (push_input_windows w (save_to w d3)))))"
    unfolding Let_def
    by (rule safe_bind[OF bus_emit_safe[OF assms]], rule home) (simp add: remove_host_socket_def)
  then show ?thesis
    using assms(2) by (simp add: handle_child_exit_def remove_host_socket_def Let_def)
qed

lemma screen_last_ok [simp]: "daemon_ok w (d\<lparr>screen_last := x\<rparr>) = daemon_ok w d"
  by (simp add: daemon_ok_def module_owns_def)

lemma thread_safe:
  assumes "fresh_forks w" "daemon_ok w d"
  shows "safe w (exit_line w raw d)" "safe w (poll_one w p d)" "safe w (alarm_tick w d)" "safe w (screen_poll w out d)"
    "safe w (boot_home w d)"
proof -
  have d: "daemon_ok w (probe d)" "daemon_ok w (act ReadClock d)"
    using assms(2) by simp_all
  show "safe w (exit_line w raw d)"
    using assms child_exit_safe by (simp add: exit_line_def split: option.split)
  show "safe w (poll_one w p d)"
    using d(1) child_exit_safe[OF assms(1) d(1)] by (simp add: poll_one_def)
  show "safe w (alarm_tick w d)"
    using bus_emit_safe[OF assms(1) d(2)] by (simp add: alarm_tick_def read_clock_def)
  show "safe w (screen_poll w out d)"
    using assms bus_emit_safe[OF assms(1), of "d\<lparr>screen_last := x\<rparr>" for x]
    by (simp add: screen_poll_def split: option.split)
  show "safe w (boot_home w d)"
    using assms ensure_home_safe[OF assms] by (auto simp: boot_home_def safe_def)
qed

lemma emit_samples_safe:
  "fresh_forks w \<Longrightarrow> daemon_ok w d \<Longrightarrow> safe w (emit_samples w hm ss d)"
proof (induction w hm ss d rule: emit_samples.induct)
  case (2 w hm h x y z ts ss d)
  show ?case
  proof (cases "map_of hm h")
    case (Some k)
    obtain d1 where "bus_emit w (SensorReading k x y z ts) d = Some d1" "daemon_ok w d1"
      using bus_emit_ok[OF 2(3,4)] by metis
    with 2(2)[OF Some _ 2(3)] Some show ?thesis by simp
  qed (use 2 in simp)
qed simp

section \<open>Boot\<close>

text \<open>The apps restored from the state file that still run are distinct processes.\<close>

definition clean_boot :: "World \<Rightarrow> bool" where
  "clean_boot w \<longleftrightarrow> (case restore_from w Store_new of None \<Rightarrow> False
     | Some (fg, st) \<Rightarrow> distinct (map a_pid (apps_snapshot st)))"

lemma restore_apps_keyed:
  "registry_keyed st \<Longrightarrow> restore_apps alive cl es (st, a, n) = Some (st', a', n') \<Longrightarrow> registry_keyed st'"
  by (induction alive cl es "(st, a, n)" arbitrary: st a n rule: restore_apps.induct)
    (auto simp: registry_keyed_insert split: if_splits)

lemma fold_alarms_apps: "apps (fold upsert_alarm as st) = apps st"
  by (induction as arbitrary: st) simp_all

lemma restored_keyed:
  assumes "restore_from w Store_new = Some (fg, st)"
  shows "registry_keyed st"
proof -
  have k: "registry_keyed (fold upsert_alarm as s) = registry_keyed s" "registry_keyed (snd (set_home h s)) = registry_keyed s" for as h s
    by (simp_all add: registry_keyed_def app_def fold_alarms_apps) (simp add: set_home_def)
  show ?thesis
    using assms registry_keyed_new
    by (auto simp: restore_from_def restore_from_json_def Let_def k split: option.splits restored.splits
        dest!: restore_apps_keyed[OF registry_keyed_new])
qed

lemma seeded_roles:
  "role_of q (fold (\<lambda>a. put_surface (a_pid a) (i a) (r a)) as d) \<noteq> None \<longleftrightarrow> q \<in> a_pid ` set as \<or> role_of q d \<noteq> None"
  "keyed d \<Longrightarrow> keyed (fold (\<lambda>a. put_surface (a_pid a) (i a) (r a)) as d)"
  "active_ime (fold (\<lambda>a. put_surface (a_pid a) (i a) (r a)) as d) = active_ime d"
proof (induction as arbitrary: d)
  case (Cons a as)
  { case 1 show ?case using Cons(1)[of "put_surface (a_pid a) (i a) (r a) d"] by auto }
  { case 2 then show ?case using Cons(2)[OF keyed_put] by simp }
  { case 3 show ?case using Cons(3) by simp }
qed simp_all

lemma seed_ok:
  assumes "registry_keyed st" "distinct (map a_pid (apps_snapshot st))"
  shows "arb_ok (seed_surface_model fg st)"
proof -
  let ?r = "\<lambda>a. if fg = Some (a_app_id a) then Role.Foreground else Background"
  have p: "prim (seed_surface_model fg st) =
      fold (\<lambda>a. put_surface (a_pid a) (a_app_id a) (?r a)) (apps_snapshot st) (clear (prim st))"
    by (simp add: seed_surface_model_def prim_def)
  have a: "app (seed_surface_model fg st) = app st"
    by (simp add: seed_surface_model_def fun_eq_iff)
  have "i = j" if "app st i = Some x" "app st j = Some y" "a_pid x = a_pid y" for i j x y
  proof -
    have "x = y"
      using assms(2) app_in_snapshot[OF that(1)] app_in_snapshot[OF that(2)] that(3)
      by (auto simp: distinct_map dest: inj_onD)
    with that(1,2) assms(1) show ?thesis by (auto simp: registry_keyed_def)
  qed
  moreover have "role_of (a_pid x) (prim (seed_surface_model fg st)) \<noteq> None" if "app st i = Some x" for i x
    unfolding p seeded_roles(1) using app_in_snapshot[OF that] by simp
  moreover have "keyed (prim (seed_surface_model fg st))" "ime_tracked (prim (seed_surface_model fg st))"
    unfolding p ime_tracked_def seeded_roles(3) by (simp_all add: seeded_roles(2) keyed_clear) (simp add: clear_def)
  moreover have "registry_keyed (seed_surface_model fg st)"
    using assms(1) by (simp add: seed_surface_model_def)
  ultimately show ?thesis
    unfolding arb_ok_def a by blast
qed

lemma spawn_sensors_ok:
  assumes "daemon_ok w d"
  shows "daemon_ok w (spawn_sensors w d)"
proof -
  let ?f = "fold (\<lambda>(k, s). set_sensor_descriptor k (d_max_range s) (d_resolution s)) (known_sensors (w_sensors w) [])"
  have "apps (fold (\<lambda>(k, s). set_sensor_descriptor k (x s) (y s)) m st) = apps st"
    "displays (fold (\<lambda>(k, s). set_sensor_descriptor k (x s) (y s)) m st) = displays st"
    for x y :: "SensorDesc \<Rightarrow> fp" and m st
    by (induction m arbitrary: st) auto
  then have "daemon_ok w (on_d_store ?f d)"
    using assms arb_ok_cong[of "d_store d" "?f (d_store d)"]
    by (simp add: daemon_ok_def on_d_store_def prim_def display_def module_owns_def)
  then show ?thesis
    by (simp add: spawn_sensors_def Let_def)
qed

lemma built_verbs:
  assumes "build_registry lg file ok = Some r"
  shows "owns r v \<longleftrightarrow> v \<in> set arbiter_verbs"
proof -
  have "owns r v \<longleftrightarrow> (\<exists>m \<in> set (modules r). v \<in> set (any_verbs m))"
    using build_registry_ok[OF assms] unfolding owns_def index_ok_def
    by (metis arbiter_def ArbiterModule.select_convs(1) in_set_conv_nth not_None_eq)
  then show ?thesis
    using build_registry_ok[OF assms] by (simp add: boot_modules_def arbiter_verbs_def disj_assoc)
qed

lemma boot_ok:
  assumes "clean_boot w" "boot w = Some d"
  shows "daemon_ok w d"
proof -
  obtain fg st r where b: "restore_from w Store_new = Some (fg, st)"
    "build_registry (w_log10 w) (w_read_file w 0 WIFI_STORE_PATH) (w_store_ok w) = Some r"
    using assms(2) by (auto simp: boot_def split: Option.bind_splits)
  let ?d = "\<lparr>d_registry = r, d_store = seed_surface_model fg st, power_pending = None, POWER_GEN = 0,
              power_timers = [], screen_last = None, last_windows = [], backlight_max_cell = None,
              d_calls = 1, d_log = []\<rparr>"
  have "arb_ok (seed_surface_model fg st)"
    using seed_ok[OF restored_keyed[OF b(1)]] assms(1) b(1) by (simp add: clean_boot_def)
  then have "daemon_ok w ?d"
    using build_registry_ok[OF b(2)] boot_modules_ok built_verbs[OF b(2)] by (simp add: daemon_ok_def module_owns_def)
  then have e: "daemon_ok w (if no_art w then apply_display_power w True ?d else ?d)"
    by simp
  have "daemon_ok w (spawn_sensors w (if no_art w then apply_display_power w True ?d else ?d))"
    by (rule spawn_sensors_ok[OF e])
  moreover have "d = spawn_sensors w (if no_art w then apply_display_power w True ?d else ?d)"
    using assms(2) b by (auto simp: boot_def Let_def)
  ultimately show ?thesis by simp
qed

section \<open>The state machine\<close>

text \<open>
  A step names its outcome: \<open>None\<close> would be a panic under the lock, or an executor of
  effects that goes on for ever; calls to the world return.  A timer fires a second after it was
  armed or later.  The check of the alarm timer for an empty list is made before it takes the lock,
  and the poller looks at a snapshot, so both may run on any state.  A client command is anything
  but a \<open>register-chrome\<close> with the pid of an app listed under another id
  (\<open>chrome_fresh\<close>), which the daemon does not check.
\<close>

inductive daemon_step :: "World \<Rightarrow> Daemon \<Rightarrow> Daemon option \<Rightarrow> bool" for w :: World where
  client: "chrome_fresh (fst (parse_line raw)) (snd (parse_line raw)) (d_store d) \<Longrightarrow>
     daemon_step w d (map_option snd (handle_client w raw hung d))"
| power_timer: "(g, t) \<in> set (power_timers d) \<Longrightarrow> t + 10 ^ 9 \<le> cl_mono (w_clock w (d_calls d)) \<Longrightarrow>
     daemon_step w d (power_timer_fires w g (d\<lparr>power_timers := remove1 (g, t) (power_timers d)\<rparr>))"
| exit_push: "daemon_step w d (exit_line w raw d)"
| exit_poll: "daemon_step w d (poll_one w p d)"
| alarm: "daemon_step w d (alarm_tick w d)"
| screen: "\<not> no_art w \<Longrightarrow> daemon_step w d (screen_poll w out d)"
| idle: "no_art w \<Longrightarrow> daemon_step w d (bus_emit w IdleTick d)"
| samples: "daemon_step w d (emit_samples w (handle_to_kind (known_sensors (w_sensors w) [])) ss d)"
| go_home: "daemon_step w d (boot_home w d)"

inductive reachable :: "World \<Rightarrow> Daemon \<Rightarrow> bool" for w :: World where
  start: "boot w = Some d \<Longrightarrow> reachable w d"
| step: "reachable w d \<Longrightarrow> daemon_step w d (Some d') \<Longrightarrow> reachable w d'"

lemma daemon_step_safe:
  assumes "fresh_forks w" "daemon_step w d x" "daemon_ok w d"
  shows "safe w x"
  using assms(2,3)
proof cases
  case (client raw hung)
  with handle_client_safe[OF assms(1,3), of raw hung] show ?thesis
    by (auto simp: answers_def)
next
  case (power_timer g t)
  with cmd_power_safe(3)[OF assms(1), of "d\<lparr>power_timers := remove1 (g, t) (power_timers d)\<rparr>" g] assms(3)
  show ?thesis by simp
qed (simp_all add: assms(1) thread_safe bus_emit_safe emit_samples_safe)

lemma reachable_ok:
  assumes "fresh_forks w" "clean_boot w" "reachable w d"
  shows "daemon_ok w d"
  using assms(3)
proof induction
  case (start d)
  with boot_ok[OF assms(2)] show ?case by simp
next
  case (step d d')
  from daemon_step_safe[OF assms(1) step(2,3)] show ?case by simp
qed

text \<open>
  C5. The daemon does not panic: in every state a run can reach, every handler, of any client
  command and of any thread, returns without a panic, the effects it executes come to an end
  although one of them dispatches a verb whose effects are executed in turn, and the registry, the
  surfaces and every module's state are well-formed afterwards.  This is under three conditions on
  pids: the apps restored at boot that still run are distinct processes
  (\<open>clean_boot\<close>), the zygote never answers a launch with a pid the daemon still lists
  (\<open>fresh_forks\<close>), and no client registers chrome under the pid of another listed app (a
  premise of \<open>daemon_step.client\<close>; \<open>shared_pid_panics\<close> shows what happens then).
  Calls to sockets, files and the HALs are taken to return.
\<close>

theorem daemon_never_panics:
  assumes "fresh_forks w" "clean_boot w" "reachable w d" "daemon_step w d x"
  shows "\<exists>d'. x = Some d' \<and> arb_ok (d_store d') \<and> list_all module_ok (modules (d_registry d'))
     \<and> index_ok (arbiter (w_log10 w)) (d_registry d')"
  using daemon_step_safe[OF assms(1,4) reachable_ok[OF assms(1-3)]] by (auto simp: safe_def daemon_ok_def)

text \<open>
  The last condition is needed, and the daemon does not check it: when a client registers chrome
  under the pid of the keyboard and that chrome is killed, the surface of the keyboard goes with
  it, and the next app that focuses a text field makes the shell panic under the lock.
\<close>

definition shared_pid_run :: "Ctx \<Rightarrow> (Reply \<times> Ctx) option" where
  "shared_pid_run c = do {
     (r1, c1) \<leftarrow> shell_on_command ''register-chrome'' ''clock 30 top'' c;
     (r2, c2) \<leftarrow> shell_on_command ''kill'' ''clock'' c1;
     (r3, c3) \<leftarrow> shell_on_command ''set-ime'' ''kbd'' c2;
     shell_on_command ''attach-editor'' ''10 0'' c3
   }"

theorem shared_pid_panics:
  "\<not> chrome_fresh ''register-chrome'' ''clock 30 top'' (store demo_ctx) \<and> shared_pid_run demo_ctx = None"
  by code_simp

text \<open>A world for the examples: the zygote forks, nothing else answers.\<close>

definition demo_world :: World where
  "demo_world = \<lparr>w_clock = (\<lambda>n. \<lparr>cl_mono = n * 10 ^ 8, cl_unix = 0\<rparr>),
     w_zygote = (\<lambda>n P l. if n < 1000 \<and> int n + 100 \<notin> set P then Inr (''OK '' @ show_int (int n + 100)) else Inl ''no such file''),
     w_relay = (\<lambda>n l. Inl ''connection refused''),
     w_kill = (\<lambda>n p. (0, 0)), w_lights = (\<lambda>n f b. False), w_input = (\<lambda>n. True), w_write = (\<lambda>n j. True), w_rename = (\<lambda>n. True),
     w_read_dir = (\<lambda>n p. None), w_read_file = (\<lambda>n p. None),
     w_env = (\<lambda>k. None), w_store_ok = True, w_sensors = [], w_log10 = id\<rparr>"

lemma demo_world_simps [simp]:
  "w_clock demo_world n = \<lparr>cl_mono = n * 10 ^ 8, cl_unix = 0\<rparr>" "w_kill demo_world n p = (0, 0)"
  "w_read_dir demo_world n q = None" "w_read_file demo_world n q = None" "w_env demo_world k = None"
  "w_store_ok demo_world = True" "w_sensors demo_world = []" "w_log10 demo_world = id" "\<not> no_art demo_world"
  by (simp_all add: demo_world_def no_art_def)

lemma demo_boot: "\<exists>d. boot demo_world = Some d"
proof -
  obtain r where "build_registry id None True = Some r"
    by (rule build_registry_total)
  then show ?thesis
    by (simp add: boot_def restore_from_def Let_def)
qed

lemma demo_clean: "clean_boot demo_world"
  by (simp add: clean_boot_def restore_from_def apps_snapshot_def) (simp add: Store_new_def)

lemma plain_line:
  assumes "\<forall>c \<in> set s. plain c \<or> c = CHR '' ''"
  shows "trim_line s = s"
proof -
  have keep: "dropWhile (\<lambda>x. x = c) t = t" if "c \<notin> set t" for c :: char and t
    using that by (cases t) auto
  have "CHR 0x0A \<notin> set (rev s)" "CHR 0x0D \<notin> set (rev s)"
    using assms by (auto simp: plain_def)
  from this[THEN keep] show ?thesis
    by (simp add: trim_line_def trim_end_char_def)
qed

lemma pid_reply_ok:
  assumes "- (2 ^ 31) \<le> i" "i < 2 ^ 31"
  shows "pid_reply (Inr (trim_line (''OK '' @ show_int i))) = Inr i"
proof -
  have "\<forall>c \<in> set (show_int i). plain c"
    using token_show_int[of i] by (auto simp: token_def)
  then have "trim_line (''OK '' @ show_int i) = ''OK '' @ show_int i"
    by (intro plain_line) (auto simp: plain_def)
  with parse_i32_show_int[OF assms] show ?thesis
    by (simp add: pid_reply_def parse_pid_def strip_prefix_def)
qed

lemma demo_zygote:
  "w_zygote demo_world n P l =
     (if n < 1000 \<and> int n + 100 \<notin> set P then Inr (''OK '' @ show_int (int n + 100)) else Inl ''no such file'')"
  by (simp add: demo_world_def)

lemma demo_forked:
  "forked demo_world n P l =
     (if starts_with ''LAUNCH'' l \<and> n < 1000 \<and> int n + 100 \<notin> set P then Some (int n + 100) else None)"
  using pid_reply_ok[of "int n + 100"] by (auto simp: forked_def demo_zygote pid_reply_def)

lemma demo_fresh: "fresh_forks demo_world"
  by (auto simp: fresh_forks_def demo_forked split: if_splits)

theorem daemon_never_panics_witness:
  "\<exists>d x d'. boot demo_world = Some d \<and> daemon_step demo_world d x \<and> x = Some d' \<and> arb_ok (d_store d')"
proof -
  obtain d where d: "boot demo_world = Some d"
    using demo_boot by blast
  have s: "daemon_step demo_world d (alarm_tick demo_world d)"
    by (rule daemon_step.alarm)
  from daemon_never_panics[OF demo_fresh demo_clean reachable.start[OF d] s] d s show ?thesis
    by blast
qed

end
