(* ===== verification/DaemonFront.thy ===== *)
theory DaemonFront
  imports DaemonRun
begin

text \<open>
  What is in front, end to end: through the cascade of the \<open>foreground\<close> verb, the execution
  of its effects and the immersive reconciliation the daemon adds, the app asked for stays the
  visible one.  From this follow what \<open>launch\<close> and the home fallback promise.
\<close>

section \<open>The cascade of a foreground change\<close>

text \<open>The events of the cascade, and the effects that touch neither store nor zygote.\<close>

fun settling :: "Event \<Rightarrow> bool" where
  "settling (ForegroundChanged i p) = True"
| "settling (EditorFocusChanged p b) = True"
| "settling _ = False"

fun inert :: "Effect \<Rightarrow> bool" where
  "inert (Foreground i) = False"
| "inert (Launch i k) = False"
| "inert (Kill p) = False"
| "inert _ = True"

lemma talks_inert [simp]: "talks inert"
  by (simp add: talks_def)

definition fronts :: "pid \<Rightarrow> Store \<Rightarrow> bool" where
  "fronts p st \<longleftrightarrow> shell_ok st \<and> visible_app (prim st) = Some p"

lemma geometry_keeps:
  assumes "geometry_only st st'" "shell_ok st"
  shows "shell_ok st' \<and> visible_app (prim st') = visible_app (prim st) \<and> app st' = app st \<and> home st' = home st"
proof -
  have "shell_ok (geometry_mut i f st) \<and> visible_app (prim (geometry_mut i f st)) = visible_app (prim st)
      \<and> app (geometry_mut i f st) = app st \<and> home (geometry_mut i f st) = home st" for i f
  proof -
    have g: "split_wf (d\<lparr>geometry := g\<rparr>) = split_wf d" "ime_tracked (d\<lparr>geometry := g\<rparr>) = ime_tracked d"
      "role_of q (d\<lparr>geometry := g\<rparr>) = role_of q d" "visible_app (d\<lparr>geometry := g\<rparr>) = visible_app d" for d g q
      by (simp_all add: split_wf_def sole_def keyed_def pids_def ime_tracked_def role_of_def visible_app_def
          split: option.split)
    have "prim (geometry_mut i f st) = prim st \<or> (\<exists>g. prim (geometry_mut i f st) = (prim st)\<lparr>geometry := g\<rparr>)"
      by (auto simp: prim_def geometry_mut_def)
    moreover have "app (geometry_mut i f st) = app st" "registry_keyed (geometry_mut i f st) = registry_keyed st"
      "home (geometry_mut i f st) = home st"
      by (simp_all add: geometry_mut_def app_apps[of "display_mut i f' st" st for f'])
    ultimately show ?thesis
      using assms(2) by (auto simp: shell_ok_def shell_wf_def g)
  qed
  with assms show ?thesis by (auto simp: geometry_only_def)
qed

lemma geometry_fronts: "geometry_only st st' \<Longrightarrow> fronts p st \<Longrightarrow> fronts p st'"
  using geometry_keeps[of st st'] by (simp add: fronts_def)

lemma drop_editor_settling:
  "list_all settling (events (drop_editor_focus_of p c)) \<longleftrightarrow> list_all settling (events c)"
proof -
  obtain es where e: "events (drop_editor_focus_of p c) = events c @ es" and "set es \<subseteq> {EditorFocusChanged p False}"
    using drop_editor_events[of p c] by blast
  then have "x = EditorFocusChanged p False" if "x \<in> set es" for x using that by blast
  then have "list_all settling es" by (metis list_all_iff settling.simps(2))
  then show ?thesis by (simp add: e)
qed

lemma promote_settling:
  assumes "promote_to_foreground i p c = Some c'" "list_all settling (events c)"
  shows "list_all settling (events c')"
  using assms by (auto simp: promote_to_foreground_def Let_def drop_editor_settling place_def apply_role_def on_primary_def
      dest!: reconcile_events split: option.splits if_splits)

lemma shell_fronts:
  assumes "fronts p (store c)" "settling ev" "list_all settling (events c)" "hushed inert c"
  shows "\<exists>c'. shell_on_event ev c = Some c' \<and> fronts p (store c') \<and> list_all settling (events c') \<and> hushed inert c'"
proof (cases ev)
  case (ForegroundChanged i q)
  let ?c = "case sh_ime_editor (store c) of None \<Rightarrow> c | Some (e, _) \<Rightarrow>
     if sh_visible_app (store c) \<noteq> Some e then drop_editor_focus_of e c else c"
  have "shell_ok (store ?c)" "visible_app (prim (store ?c)) = Some p" "list_all settling (events ?c)" "hushed inert ?c"
    using assms shell_ok_drop by (auto simp: fronts_def drop_editor_settling split: option.split)
  with reconcile_keeps[of ?c] hushed_reconcile[OF talks_inert, of ?c] show ?thesis
    by (auto simp: ForegroundChanged shell_on_event_def fronts_def)
qed (use assms in \<open>simp_all add: shell_on_event_def\<close>)

lemma settling_event:
  assumes "fronts p st" "settling ev"
  shows "\<exists>m' c. any_on_event lg m ev (Ctx_new cl st) = Some (m', c) \<and> fronts p (store c)
     \<and> list_all settling (events c) \<and> hushed inert c"
proof (cases m)
  case WmM
  have "events (wm_on_event ev (Ctx_new cl st)) = []"
    using assms(2) wm_on_event_events[of ev "Ctx_new cl st"] by auto
  with WmM geometry_fronts[OF wm_on_event_store, of p "Ctx_new cl st" ev] assms(1) show ?thesis
    by simp
next
  case ShellM
  with shell_fronts[of p "Ctx_new cl st" ev] assms show ?thesis by auto
qed (use assms in \<open>cases ev; simp add: alarm_on_event_def power_on_event_def keyguard_on_event_def audio_on_event_def
    sensors_on_event_def net_on_event_def events_on_event_def media_on_event_def\<close>)+

text \<open>\<open>set-immersive\<close>, which the daemon adds, changes the geometry only.\<close>

lemma immersive_command:
  "\<exists>r m' c. any_on_command lg m ''set-immersive'' a (Ctx_new cl st) = Some (r, m', c) \<and> geometry_only st (store c)
     \<and> events c = [] \<and> hushed inert c"
proof (cases m)
  case WmM
  let ?x = "cmd_set_immersive a (Ctx_new cl st)"
  have "events (fold (\<lambda>q. request (SignalVisible q b)) ps c) = events c" for b ps c
    by (induction ps arbitrary: c) simp_all
  then have "events (snd ?x) = []"
    by (simp add: cmd_set_immersive_def Let_def split: option.split)
  moreover have "geometry_only st (store (snd ?x))"
    using wm_on_command_store[of "Ctx_new cl st" "''set-immersive''" a] by (simp add: wm_on_command_def)
  ultimately show ?thesis
    using WmM hushed_set_immersive[OF talks_inert, of a "Ctx_new cl st"]
    by (simp add: wm_on_command_def case_prod_beta Let_def)
qed (simp_all add: other_commands shell_on_command_def case_prod_beta Let_def)

section \<open>The executor, for such effects\<close>

text \<open>Nothing but messages to the outside, and none of them to the zygote.\<close>

definition unforked :: "OsAction list \<Rightarrow> bool" where
  "unforked l \<longleftrightarrow> (\<forall>x. Zygote x \<notin> set l)"

definition os_only :: "Daemon \<Rightarrow> Daemon \<Rightarrow> bool" where
  "os_only d d' \<longleftrightarrow> d_store d' = d_store d \<and> d_registry d' = d_registry d
     \<and> (\<exists>l. d_log d' = d_log d @ l \<and> unforked l)"

lemma unforked_simps [simp]: "unforked []" "unforked (l @ l') \<longleftrightarrow> unforked l \<and> unforked l'"
  "unforked (x # l) \<longleftrightarrow> (\<forall>s. x \<noteq> Zygote s) \<and> unforked l"
  by (auto simp: unforked_def)

lemma os_only_refl [simp]: "os_only d d"
  by (simp add: os_only_def)

lemma os_only_trans: "os_only d d' \<Longrightarrow> os_only d' d'' \<Longrightarrow> os_only d d''"
  by (auto simp: os_only_def)

lemma os_only_act [simp]:
  "(\<forall>x. a \<noteq> Zygote x) \<Longrightarrow> os_only d (act a d)" "os_only d (probe d)" "os_only d (d\<lparr>last_windows := b\<rparr>)"
  "os_only d (d\<lparr>backlight_max_cell := n, d_calls := k\<rparr>)"
  by (simp_all add: os_only_def act_def probe_def)

lemma os_only_acts:
  "os_only d d' \<Longrightarrow> (\<forall>x. a \<noteq> Zygote x) \<Longrightarrow> os_only d (act a d')"
  by (blast intro: os_only_trans os_only_act)

lemma os_only_backlight: "os_only d (apply_backlight_mode w l b d)"
proof -
  have "os_only d' (snd (backlight_max w d'))" for d'
    by (simp add: backlight_max_def Let_def split: option.split)
  from os_only_trans[OF os_only_act(1) this] show ?thesis
    by (simp add: apply_backlight_mode_def Let_def case_prod_beta os_only_acts)
qed

lemma os_only_exec:
  assumes "inert e"
  shows "os_only d (exec_one w e d)"
proof (cases e)
  case (SetRole p r)
  then show ?thesis
    by (cases r) (simp_all add: exec_one_def os_apply_role_def send_role_signal_def send_present_def os_only_acts)
next
  case (SetDisplayPower b)
  have "os_only d (act (DisplayPower b) d)" by simp
  from os_only_trans[OF this os_only_backlight] this show ?thesis
    by (simp add: SetDisplayPower exec_one_def apply_display_power_def)
qed (use assms in \<open>simp_all add: exec_one_def send_role_signal_def save_to_def read_clock_def Let_def os_only_acts os_only_backlight\<close>)

lemma exec_inert:
  "list_all inert es \<Longrightarrow> \<exists>d'. execute_effects w es d = Some d' \<and> os_only d d'"
proof (induction es arbitrary: d)
  case (Cons e es)
  from Cons.prems have "execute_effects w (e # es) d = execute_effects w es (exec_one w e d)"
    by (cases e) (simp_all add: execute_Cons)
  with Cons.IH[of "exec_one w e d"] Cons.prems os_only_exec[of e d w] show ?case
    by (auto intro: os_only_trans)
qed simp

lemma os_only_windows: "os_only d (push_input_windows w d)"
  by (auto simp: push_input_windows_def Let_def split: option.split intro!: os_only_acts)

section \<open>A contract without forks\<close>

text \<open>
  Modules that keep \<open>I\<close> and only ask for inert effects: then so does what the daemon
  makes of an event, and of the immersive reconciliation it adds.
\<close>

definition same_verbs :: "AnyModule Registry \<Rightarrow> AnyModule Registry \<Rightarrow> bool" where
  "same_verbs r r' \<longleftrightarrow> verb_index r' = verb_index r \<and> (\<forall>lg. index_ok (arbiter lg) r \<longrightarrow> index_ok (arbiter lg) r')"

lemma same_verbs_refl [simp]: "same_verbs r r"
  by (simp add: same_verbs_def)

lemma same_verbs_index:
  "verb_index r' = verb_index r \<Longrightarrow> index_ok (arbiter lg) r' \<Longrightarrow> same_verbs r r'"
  by (simp add: same_verbs_def index_ok_def arbiter_def)

definition keeps :: "(Store \<Rightarrow> bool) \<Rightarrow> (AnyModule \<Rightarrow> bool) \<Rightarrow> Daemon \<Rightarrow> Daemon \<Rightarrow> bool" where
  "keeps I J d d' \<longleftrightarrow> I (d_store d') \<and> list_all J (modules (d_registry d')) \<and> same_verbs (d_registry d) (d_registry d')
     \<and> (\<exists>l. d_log d' = d_log d @ l \<and> unforked l)"

lemma keeps_trans: "keeps I J d d' \<Longrightarrow> keeps I' J' d' d'' \<Longrightarrow> keeps I' J' d d''"
  by (auto simp: keeps_def same_verbs_def)

lemma keeps_os_only: "keeps I J d d' \<Longrightarrow> os_only d' d'' \<Longrightarrow> keeps I J d d''"
  by (auto simp: keeps_def os_only_def)

lemma keeps_foreground:
  assumes "keeps I J d d'" "module_owns v d" "index_ok (arbiter lg) (d_registry d)"
  shows "module_owns v d'" "index_ok (arbiter lg) (d_registry d')"
  using assms by (auto simp: keeps_def same_verbs_def module_owns_def owns_def)

locale inert_contract = module_contract "arbiter lg" I J E inert "\<lambda>v a st. v = ''set-immersive''"
  for lg I J E
begin

lemma immersive_keeps:
  assumes "I (d_store d)" "list_all J (modules (d_registry d))" "w_log10 w = lg" "index_ok (arbiter lg) (d_registry d)"
  shows "\<exists>d'. reconcile_immersive w d = Some d' \<and> keeps I J d d'"
proof -
  let ?cl = "w_clock w (d_calls (probe d))"
  from dispatch_command_ok[OF assms(1,2,4) refl, of ?cl "immersive_arg w d"]
  obtain res r st where D: "dispatch_command (arbiter lg) ?cl ''set-immersive'' (immersive_arg w d) (d_registry d) (d_store d) = Some (res, r, st)"
    "I st" "list_all J (modules r)" "\<forall>x es. res = Some (x, es) \<longrightarrow> list_all inert es" "verb_index r = verb_index (d_registry d)"
    by blast
  have v: "same_verbs (d_registry d) r"
    using same_verbs_index[OF D(5) arb.dispatch_command_index[OF assms(4) D(1)]] .
  let ?d = "(act ReadClock (probe d))\<lparr>d_registry := r, d_store := st\<rparr>"
  have "\<exists>d2. run_effects execute_effects w (res, ?d) = Some d2 \<and> os_only ?d d2"
    using D(4) exec_inert[of _ w ?d] by (cases res) (auto simp: run_effects_def)
  then obtain d2 where "run_effects execute_effects w (res, ?d) = Some d2" "os_only ?d (push_input_windows w d2)"
    using os_only_trans[OF _ os_only_windows] by blast
  with D(1-3) v assms(3) show ?thesis
    by (auto simp: reconcile_immersive_def reconcile_with_def run_module_def read_clock_def keeps_def os_only_def
        Let_def act_def probe_def)
qed

lemma emit_keeps:
  assumes D: "dispatch_event (arbiter lg) (w_clock w (d_calls d)) ev (d_registry d) (d_store d) = Some (effs, r, st)"
    and "I st" "list_all J (modules r)" "list_all inert effs" "verb_index r = verb_index (d_registry d)"
    and "w_log10 w = lg" "index_ok (arbiter lg) (d_registry d)"
  shows "\<exists>d'. bus_emit w ev d = Some d' \<and> keeps I J d d'"
proof -
  let ?d = "(act ReadClock d)\<lparr>d_registry := r, d_store := st\<rparr>"
  obtain d2 where x: "execute_effects w effs ?d = Some d2" "os_only ?d d2"
    using exec_inert[OF assms(4)] by blast
  have i: "index_ok (arbiter lg) r"
    by (rule arb.dispatch_event_index[OF assms(7) D])
  have "keeps I J d d2"
    using x(2) assms(2,3) same_verbs_index[OF assms(5) i] by (auto simp: keeps_def os_only_def act_def)
  moreover obtain d3 where "reconcile_immersive w d2 = Some d3" "keeps I J d2 d3"
    using immersive_keeps[of d2 w] x(2) assms(2,3,6) i by (auto simp: os_only_def)
  ultimately show ?thesis
    using D x(1) assms(6) by (auto simp: bus_emit_def read_clock_def Let_def intro: keeps_trans)
qed

end

text \<open>
  Whether the keyguard is locked is carried along: only the screen, and its own verbs, change it.
\<close>

definition latched :: "bool \<Rightarrow> AnyModule \<Rightarrow> bool" where
  "latched L m \<longleftrightarrow> (\<forall>k. m = KeyguardM k \<longrightarrow> L \<longrightarrow> locked k)"

lemma latched_event:
  assumes "any_on_event lg m ev c = Some (m', c')" "latched L m" "\<forall>l. ev \<noteq> ScreenState l"
  shows "latched L m'"
proof (cases m)
  case (KeyguardM k)
  with assms show ?thesis
    by (cases ev) (auto simp: latched_def keyguard_on_event_def Let_def)
qed (use assms in \<open>auto simp: latched_def case_prod_beta\<close>)

lemma latched_command:
  assumes "any_on_command lg m ''set-immersive'' a c = Some (r, m', c')" "latched L m"
  shows "latched L m'"
proof (cases m)
  case (KeyguardM k)
  with assms show ?thesis
    by (auto simp: latched_def keyguard_on_command_def)
qed (use assms in \<open>auto simp: latched_def case_prod_beta Let_def\<close>)

interpretation front: inert_contract lg "fronts p" "latched L" settling for lg p L
proof
  fix st m ev cl
  assume "fronts p st" and l: "latched L m" and s: "settling ev"
  from s have n: "\<forall>l. ev \<noteq> ScreenState l" by auto
  obtain m' c where c: "any_on_event lg m ev (Ctx_new cl st) = Some (m', c)" "fronts p (store c)"
    "list_all settling (events c)" "hushed inert c"
    using settling_event[OF \<open>fronts p st\<close> s, of lg m cl] by blast
  with latched_event[OF c(1) l n] show "\<exists>m' c. on_event (arbiter lg) m ev (Ctx_new cl st) = Some (m', c)
      \<and> fronts p (store c) \<and> latched L m' \<and> list_all settling (events c) \<and> list_all inert (effects c)"
    by (simp add: hushed_def)
next
  fix st m v a cl
  assume f: "fronts p st" and l: "latched L m" and v: "v = ''set-immersive''"
  obtain r m' c where c: "any_on_command lg m v a (Ctx_new cl st) = Some (r, m', c)" "geometry_only st (store c)"
    "events c = []" "hushed inert c"
    using immersive_command[of lg m a cl st] v by blast
  with latched_command[OF c(1)[unfolded v] l] geometry_fronts[OF c(2) f]
  show "\<exists>r m' c. on_command (arbiter lg) m v a (Ctx_new cl st) = Some (r, m', c)
      \<and> fronts p (store c) \<and> latched L m' \<and> list_all settling (events c) \<and> list_all inert (effects c)"
    by (simp add: hushed_def)
qed

text \<open>The verb itself puts its app in front.\<close>

lemma foreground_command:
  assumes "shell_ok (store c)" "i \<noteq> []" "app (store c) i = Some a" "events c = []" "effects c = []"
  shows "\<exists>r c'. cmd_foreground i c = Some (r, c') \<and> fronts (a_pid a) (store c')
    \<and> list_all settling (events c') \<and> list_all inert (effects c')"
proof -
  obtain c' where p: "promote_to_foreground (a_app_id a) (a_pid a) c = Some c'" "shell_ok (store c')"
    "visible_app (prim (store c')) = Some (a_pid a)"
    using promote_keeps[OF assms(1), of "a_app_id a" "a_pid a"] by auto
  have "list_all settling (events c')"
    using promote_settling[OF p(1)] assms(4) by simp
  moreover have "list_all inert (effects c')"
    using hushed_promote[OF talks_inert p(1)] assms(5) by (simp add: hushed_def)
  ultimately show ?thesis
    using p assms(2,3) by (simp add: cmd_foreground_def fronts_def Let_def)
qed

lemma foreground_is_shell:
  assumes "index_ok (arbiter lg) r" "map_of (verb_index r) ''foreground'' = Some idx"
  shows "modules r ! idx = ShellM" "idx < length (modules r)"
proof -
  have "''foreground'' \<in> set (any_verbs (modules r ! idx))"
    using assms by (simp add: index_ok_def)
  then show "modules r ! idx = ShellM"
    by (cases "modules r ! idx") (simp_all add: wm_verbs_def alarm_verbs_def notify_verbs_def power_verbs_def
        keyguard_verbs_def audio_verbs_def sensors_verbs_def net_verbs_def events_verbs_def media_verbs_def)
  show "idx < length (modules r)"
    using assms by (simp add: index_ok_def)
qed

lemma foreground_dispatch:
  assumes "shell_ok st" "i \<noteq> []" "app st i = Some a" "index_ok (arbiter lg) r" "owns r ''foreground''"
    "list_all (latched L) (modules r)"
  shows "\<exists>reply effs r' st'. dispatch_command (arbiter lg) cl ''foreground'' i r st = Some (Some (reply, effs), r', st')
    \<and> fronts (a_pid a) st' \<and> list_all (latched L) (modules r') \<and> list_all inert effs \<and> verb_index r' = verb_index r"
proof -
  obtain idx where x: "map_of (verb_index r) ''foreground'' = Some idx"
    using assms(5) by (auto simp: owns_def)
  note m = foreground_is_shell(1)[OF assms(4) this]
  obtain reply c where f: "cmd_foreground i (Ctx_new cl st) = Some (reply, c)" "fronts (a_pid a) (store c)"
    "list_all settling (events c)" "list_all inert (effects c)"
    using foreground_command[of "Ctx_new cl st" i a] assms(1-3) by auto
  have "list_all (latched L) ((modules r)[idx := ShellM])"
    using assms(6) m by (metis list_update_id)
  from front.drain_ok[OF f(2) this f(3,4), of MAX_CASCADE_DEPTH lg cl] show ?thesis
    using x m f(1) by (auto simp: dispatch_command_def drain_cascade_def shell_on_command_def)
qed

section \<open>Bringing an app forward\<close>

lemma dispatch_foreground_fronts:
  assumes "shell_ok (d_store d)" "i \<noteq> []" "app (d_store d) i = Some a" "index_ok (arbiter (w_log10 w)) (d_registry d)"
    "module_owns ''foreground'' d" "list_all (latched L) (modules (d_registry d))"
  shows "\<exists>d'. dispatch_foreground w i d = Some d' \<and> keeps (fronts (a_pid a)) (latched L) d d'"
proof -
  let ?T = "arbiter (w_log10 w)" and ?cl = "w_clock w (d_calls d)"
  obtain reply es r st where D: "dispatch_command ?T ?cl ''foreground'' i (d_registry d) (d_store d) = Some (Some (reply, es), r, st)"
    "fronts (a_pid a) st" "list_all (latched L) (modules r)" "list_all inert es" "verb_index r = verb_index (d_registry d)"
    using foreground_dispatch[OF assms(1-4) assms(5)[unfolded module_owns_def] assms(6), of ?cl] by blast
  let ?d = "(act ReadClock d)\<lparr>d_registry := r, d_store := st\<rparr>"
  obtain d2 where x: "execute_effects w es ?d = Some d2" "os_only ?d d2"
    using exec_inert[OF D(4)] by blast
  have i: "index_ok ?T r"
    by (rule arb.dispatch_command_index[OF assms(4) D(1)])
  have "keeps (fronts (a_pid a)) (latched L) d d2"
    using x(2) D(2,3) same_verbs_index[OF D(5) i] by (auto simp: keeps_def os_only_def act_def)
  moreover obtain d3 where "reconcile_immersive w d2 = Some d3" "keeps (fronts (a_pid a)) (latched L) d2 d3"
    using front.immersive_keeps[of "a_pid a" d2 L w "w_log10 w"] x(2) D(2,3) i by (auto simp: os_only_def)
  ultimately show ?thesis
    using D(1) x(1) by (auto simp: dispatch_foreground_def foreground_with_def reconcile_immersive_def run_module_def
        read_clock_def run_effects_def Let_def intro: keeps_trans)
qed

end
