(* ===== verification/DaemonHome.thy ===== *)
theory DaemonHome
  imports DaemonFront
begin

text \<open>
  What the user is promised of the front of the screen: tapping an app opens it, tapping one that
  runs resumes it, and a death never leaves the screen empty while there is a home app.  And what
  goes wrong around them: a death under the lock screen brings the home app up, and a second launch
  of a background app makes the daemon forget the first process.
\<close>

section \<open>A death leaves the home app alone\<close>

text \<open>
  The one event of the cascade is the death itself, and it is not that of the home app.  Until the
  shell has reacted the app in front is the one before; afterwards it is not the dead one.
\<close>

definition without :: "pid \<Rightarrow> pid option \<Rightarrow> pid option" where
  "without p v = (if v = Some p then None else v)"

lemma without_without [simp]: "without p (without p v) = without p v"
  by (simp add: without_def)

lemma without_Some: "without p v = Some q \<longleftrightarrow> v = Some q \<and> q \<noteq> p"
  by (auto simp: without_def)

definition home_up :: "pid \<Rightarrow> pid option \<Rightarrow> string \<Rightarrow> AppState \<Rightarrow> Store \<Rightarrow> bool" where
  "home_up p v h b st \<longleftrightarrow> shell_ok st \<and> app st h = Some b \<and> home st = Some h \<and> a_pid b \<noteq> p
     \<and> visible_app (prim st) \<in> {v, without p v}"

text \<open>Which surface is the visible one is a matter of roles.\<close>

lemma visible_by_role:
  assumes "split_wf d"
  shows "visible_app d = Some q \<longleftrightarrow> role_of q d = Some OverlayBehind \<or> role_of q d = Some Role.Foreground"
  using visible_app_role[of d q] visible_app_behind[OF assms, of q] visible_app_foreground[OF assms, of q] assms
  by (auto simp: split_wf_def)

lemma visible_removed:
  assumes "split_wf d" "split_wf (remove_surface p d)"
  shows "visible_app (remove_surface p d) = without p (visible_app d)"
proof -
  have "role_of q (remove_surface p d) = (if q = p then None else role_of q d)" for q
    by simp
  with visible_by_role[OF assms(1)] visible_by_role[OF assms(2)]
  have "visible_app (remove_surface p d) = Some q \<longleftrightarrow> without p (visible_app d) = Some q" for q
    by (simp add: without_Some)
  then show ?thesis by (metis not_None_eq)
qed

lemma surface_removed_visible:
  assumes "shell_ok (store c)"
  shows "visible_app (prim (store (on_surface_removed p c))) = without p (visible_app (prim (store c)))"
proof -
  have v: "visible_app (prim (store (snd (demote_from_overlay c)))) = visible_app (prim (store c))"
  proof (cases "overlay_engaged (prim (store c))")
    case True
    with demote_ok[OF shell_okD[OF assms]] show ?thesis by blast
  qed (simp add: demote_from_overlay_def overlay_engaged_def sh_prim)
  define c1 where "c1 = (if sh_overlay_engaged (store c) \<and>
            (map_option fst (role_pid (store c) Overlay) = Some p \<or>
             map_option fst (role_pid (store c) OverlayBehind) = Some p) then snd (demote_from_overlay c) else c)"
  have e: "on_surface_removed p c = on_primary (remove_surface p)
      (case app_by_pid (store c1) p of None \<Rightarrow> c1 | Some a \<Rightarrow> on_store (remove_app (a_app_id a)) c1)"
    unfolding on_surface_removed_def Let_def c1_def ..
  have "prim (store (on_surface_removed p c)) = remove_surface p (prim (store c1))"
    by (simp add: e on_primary_def split: option.split)
  moreover have "split_wf (prim (store (on_surface_removed p c)))" "split_wf (prim (store c1))"
    using on_surface_removed_ok[OF assms, of p] assms demote_keeps[OF assms]
    by (auto simp: c1_def shell_ok_def shell_wf_def)
  ultimately show ?thesis
    using visible_removed[of "prim (store c1)" p] v by (simp add: c1_def)
qed

lemma home_on_primary [simp]: "home (store (on_primary f c)) = home (store c)"
  by (simp add: on_primary_def)

lemma home_steps [simp]:
  "home (store (apply_role p r c)) = home (store c)" "home (store (place p i r c)) = home (store c)"
  "home (store (drop_editor_focus_of p c)) = home (store c)" "home (store (snd (demote_from_overlay c))) = home (store c)"
  "home (store (snd (promote_to_overlay i p x c))) = home (store c)"
  by (simp_all add: apply_role_def place_def drop_editor_focus_of_def demote_from_overlay_def promote_to_overlay_def
      Let_def case_prod_beta split: option.split)

lemma home_reconcile: "reconcile_overlay c = Some c' \<Longrightarrow> home (store c') = home (store c)"
  by (auto simp: reconcile_overlay_def Let_def split: option.splits bool.splits)

lemma home_remove [simp]: "home (remove_app i st) = home st"
  by (simp add: remove_app_def)

lemma surface_removed_home [simp]: "home (store (on_surface_removed p c)) = home (store c)"
  by (auto simp: on_surface_removed_def Let_def split: option.split)

lemma surface_removed_app:
  assumes "shell_ok (store c)" "app (store c) h = Some b" "a_pid b \<noteq> p"
  shows "app (store (on_surface_removed p c)) h = Some b"
proof -
  have a: "apps (store (if x then snd (demote_from_overlay c) else c)) = apps (store c)" for x
    by (simp add: demote_apps)
  note s = app_by_pid_apps[OF a] app_apps[OF a] app_apps[OF demote_apps]
  have "a_app_id a \<noteq> h" if "app_by_pid (store c) p = Some a" for a
    using app_by_pid_SomeD[OF _ that] assms by (auto simp: shell_ok_def)
  then show ?thesis
    using assms(2) by (auto simp: on_surface_removed_def on_primary_def Let_def s split: option.split)
qed

text \<open>The shell takes the dead app from the front, and what else reacts leaves the front alone.\<close>

lemma shell_death:
  assumes "home_up p v h b (store c)"
  shows "home_up p (without p v) h b (store (on_surface_removed p c))"
  using assms on_surface_removed_ok[of c p] surface_removed_app[of c h b p] surface_removed_visible[of c p]
  by (auto simp: home_up_def without_def)

lemma core_frame_home_up: "home_up p v h b (store c) \<Longrightarrow> core_frame c c' \<Longrightarrow> home_up p v h b (store c')"
  using app_apps[of "store c'" "store c"]
  by (auto simp: core_frame_def home_up_def shell_ok_def prim_def display_def registry_keyed_def)

lemma death_emits:
  "any_on_event lg m (SurfaceRemoved p) (Ctx_new cl st) = Some (m', c) \<Longrightarrow> events c = []"
  using cascade.lowers[of lg m "SurfaceRemoved p" cl st m' c] by (cases "events c") auto

lemma death_event:
  assumes "home_up p v h b st"
  shows "\<exists>m' c. any_on_event lg m (SurfaceRemoved p) (Ctx_new cl st) = Some (m', c) \<and> home_up p v h b (store c)
     \<and> (m = ShellM \<longrightarrow> home_up p (without p v) h b (store c))"
proof -
  have s: "home_up p v h b (store (Ctx_new cl st))" using assms by simp
  show ?thesis
  proof (cases m)
    case WmM
    with geometry_keeps[OF wm_on_event_store, of "Ctx_new cl st" "SurfaceRemoved p"] s show ?thesis
      by (simp add: home_up_def)
  next
    case ShellM
    with shell_death[OF s] show ?thesis
      by (auto simp: shell_on_event_def home_up_def)
  qed (use s core_frame_home_up[OF s alarm_frames(2)] core_frame_home_up[OF s audio_frames(2)]
      core_frame_home_up[OF s sensors_frames(2)]
    in \<open>simp_all add: case_prod_beta keyguard_on_event_def Let_def\<close>)
qed

lemma death_hushed:
  assumes "any_on_event lg m (SurfaceRemoved p) c = Some (m', c')" "hushed inert c"
  shows "hushed inert c'"
proof (cases m)
  case AlarmM
  with assms show ?thesis by (auto simp: alarm_on_event_def)
qed (use assms hushed_shell_event[OF talks_inert] in \<open>auto simp: case_prod_beta\<close>)

interpretation homely: inert_contract lg "home_up p v h b" "latched L" "\<lambda>ev. ev = SurfaceRemoved p" for lg p v h b L
proof
  fix st m ev cl
  assume s: "home_up p v h b st" and l: "latched L m" and v: "ev = SurfaceRemoved p"
  obtain m' c where c: "any_on_event lg m ev (Ctx_new cl st) = Some (m', c)" "home_up p v h b (store c)"
    using death_event[OF s, of lg m cl] v by blast
  have "\<forall>l. ev \<noteq> ScreenState l" using v by auto
  from latched_event[OF c(1) l this] c death_emits[OF c(1)[unfolded v]] death_hushed[OF c(1)[unfolded v]]
  show "\<exists>m' c. on_event (arbiter lg) m ev (Ctx_new cl st) = Some (m', c)
      \<and> home_up p v h b (store c) \<and> latched L m' \<and> list_all (\<lambda>ev. ev = SurfaceRemoved p) (events c) \<and> list_all inert (effects c)"
    by (auto simp: hushed_def)
next
  fix st m v' a cl
  assume s: "home_up p v h b st" and l: "latched L m" and v: "v' = ''set-immersive''"
  obtain r m' c where c: "any_on_command lg m v' a (Ctx_new cl st) = Some (r, m', c)" "geometry_only st (store c)"
    "events c = []" "hushed inert c"
    using immersive_command[of lg m a cl st] v by blast
  have "home_up p v h b (store c)"
    using geometry_keeps[OF c(2)] s by (simp add: home_up_def)
  with c latched_command[OF c(1)[unfolded v] l] show "\<exists>r m' c. on_command (arbiter lg) m v' a (Ctx_new cl st) = Some (r, m', c)
      \<and> home_up p v h b (store c) \<and> latched L m' \<and> list_all (\<lambda>ev. ev = SurfaceRemoved p) (events c) \<and> list_all inert (effects c)"
    by (simp add: hushed_def)
qed

lemma unlatched: "list_all (latched False) ms"
  by (simp add: list_all_iff latched_def)

text \<open>Once the shell is among the modules that react, the dead app is not in front any more.\<close>

lemma fan_passes_shell:
  "fan_event (arbiter lg) cl (SurfaceRemoved p) ms st = Some (ms', st', es, fs) \<Longrightarrow> ShellM \<in> set ms \<Longrightarrow>
   home_up p v h b st \<Longrightarrow> home_up p (without p v) h b st'"
proof (induction ms arbitrary: st ms' es fs)
  case (Cons m ms)
  then obtain m' c ms1 es1 fs1 where f: "any_on_event lg m (SurfaceRemoved p) (Ctx_new cl st) = Some (m', c)"
    "fan_event (arbiter lg) cl (SurfaceRemoved p) ms (store c) = Some (ms1, st', es1, fs1)"
    by (auto split: Option.bind_splits)
  from death_event[OF Cons.prems(3), of lg m cl] f(1)
  have k: "home_up p v h b (store c)" "m = ShellM \<longrightarrow> home_up p (without p v) h b (store c)" by auto
  show ?case
  proof (cases "m = ShellM")
    case True
    with k(2) have "home_up p (without p v) h b (store c)" by simp
    from homely.fan_event_ok[OF this unlatched refl, of lg cl ms] f(2) show ?thesis by simp
  next
    case False
    with Cons.IH[OF f(2)] Cons.prems(2) k(1) show ?thesis by simp
  qed
qed simp

section \<open>The daemon's own launches\<close>

text \<open>The front as the daemon reads it and as the shell does.\<close>

lemma slot_visible:
  assumes "shell_ok (d_store d)"
  shows "model_foreground_slot d = None \<longleftrightarrow> visible_app (prim (d_store d)) = None"
proof (cases "display (d_store d) PRIMARY_DISPLAY")
  case None
  then show ?thesis
    by (simp add: model_foreground_slot_def sh_foreground_slot_def prim_def or_default_def DisplayState_default_def
        visible_app_def)
next
  case (Some ds)
  then have k: "split_wf ds" "keyed ds" "prim (d_store d) = ds"
    using assms by (auto simp: shell_ok_def shell_wf_def split_wf_def prim_def or_default_def)
  have "foreground_slot ds = None \<longleftrightarrow> first_with_role Overlay ds = None \<and> first_with_role Role.Foreground ds = None"
    by (simp add: foreground_slot_def split: option.split)
  then have "foreground_slot ds = None \<longleftrightarrow> visible_app ds = None"
    using k(1) by (auto simp: visible_app_None[OF k(2)] first_with_role_None_role[OF k(2)] split_wf_def)
  with Some k(3) show ?thesis
    by (simp add: model_foreground_slot_def sh_foreground_slot_def)
qed

lemma bring_forward:
  assumes "module_owns ''foreground'' d" "index_ok (arbiter (w_log10 w)) (d_registry d)" "shell_ok (d_store d)"
    "i \<noteq> []" "app (d_store d) i = Some a" "list_all (latched L) (modules (d_registry d))"
  shows "\<exists>d'. dispatch_foreground w i d = Some d' \<and> keeps (fronts (a_pid a)) (latched L) d d'"
  by (rule dispatch_foreground_fronts[OF assms(3-5,2,1,6)])

lemma daemon_ok_foreground:
  "daemon_ok w d \<Longrightarrow> module_owns ''foreground'' d \<and> index_ok (arbiter (w_log10 w)) (d_registry d)"
  by (simp add: daemon_ok_def arbiter_verbs_def shell_verbs_def)

lemma split_wf_fresh:
  assumes "split_wf ds" "role_of p ds = None"
  shows "split_wf (put_surface p i Background ds)"
proof -
  have "role_of q (put_surface p i Background ds) = Some r \<longleftrightarrow> role_of q ds = Some r" if "r \<noteq> Background" for q r
    using assms(2) that by auto
  then show ?thesis
    using assms(1) keyed_put[of ds p i Background] by (simp add: split_wf_def sole_def del: role_of_put)
qed

lemma shell_ok_launched:
  assumes "shell_ok st" "role_of (a_pid a) (prim st) = None"
  shows "shell_ok (display_mut PRIMARY_DISPLAY (put_surface (a_pid a) (a_app_id a) Background) (insert_app a st))"
proof -
  let ?st = "display_mut PRIMARY_DISPLAY (put_surface (a_pid a) (a_app_id a) Background) (insert_app a st)"
  have "\<forall>j b. app st j = Some b \<longrightarrow> a_pid b = a_pid a \<longrightarrow> j = a_app_id a"
    using assms unfolding shell_ok_def by metis
  from arb_ok_insert[OF shell_ok_arb[OF assms(1)] this] have "arb_ok ?st" .
  moreover have "split_wf (prim ?st)"
    using assms split_wf_fresh[of "prim st"] by (simp add: shell_ok_def shell_wf_def)
  ultimately show ?thesis
    unfolding shell_ok_def arb_ok_def shell_wf_def by blast
qed

text \<open>
  C11. Tapping an app that runs resumes it: \<open>launch\<close> answers OK with the pid the app already
  has, the app is the visible one afterwards, and the zygote is not asked for anything.  This is so
  in every state that keeps the invariant of the daemon (\<open>daemon_ok\<close>, C5) and whose
  surfaces are well-formed (\<open>shell_ok\<close>), which \<open>kill\<close>, \<open>task-kill\<close>
  and a second \<open>overlay\<close> during a keyboard split can break.
\<close>

theorem launch_resumes:
  assumes "daemon_ok w d" "shell_ok (d_store d)" "i \<noteq> []" "running w i d = Some a"
  shows "\<exists>d' l. cmd_launch w i Gui d = Some (''OK pid='' @ show_int (a_pid a) @ '' app='' @ i @ '' foregrounded'', d')
    \<and> visible_app (prim (d_store d')) = Some (a_pid a) \<and> d_log d' = d_log d @ l \<and> unforked l"
proof -
  have a: "app (d_store d) i = Some a"
    using assms(4) by (auto simp: running_def split: option.splits if_splits)
  then have "a_app_id a = i"
    using assms(2) by (simp add: shell_ok_def registry_keyed_def)
  moreover obtain d' where "dispatch_foreground w i (probe d) = Some d'" "keeps (fronts (a_pid a)) (latched False) (probe d) d'"
    using bring_forward[of "probe d" w i a False] daemon_ok_foreground[OF daemon_ok_act(2)[OF assms(1)]] assms(2,3) a unlatched
    by auto
  ultimately show ?thesis
    using assms(3,4) by (auto simp: cmd_launch_def keeps_def fronts_def probe_def)
qed

text \<open>
  C12. Tapping an app that does not run, or whose process died unnoticed, opens it: the zygote is
  asked once, for that app, and when it answers with a pid that has no surface yet,
  \<open>launch\<close> answers OK and the new process is the visible app.  This is so in every
  state that keeps the invariant of the daemon (\<open>daemon_ok\<close>, C5) and whose surfaces are
  well-formed (\<open>shell_ok\<close>), which \<open>kill\<close>, \<open>task-kill\<close>
  and a second \<open>overlay\<close> during a keyboard split can break.
\<close>

theorem launch_starts:
  assumes "daemon_ok w d" "shell_ok (d_store d)" "i \<noteq> []" "running w i d = None"
    "fst (zygote_launch_gui w i (probe d)) = Inr p" "role_of p (prim (d_store d)) = None"
  shows "\<exists>d' l. cmd_launch w i Gui d = Some (''OK pid='' @ show_int p @ '' app='' @ i, d')
    \<and> visible_app (prim (d_store d')) = Some p
    \<and> d_log d' = d_log d @ Zygote (''LAUNCH_GUI '' @ i @ [CHR 0x0A]) # l \<and> unforked l"
proof -
  let ?l = "''LAUNCH_GUI '' @ i @ [CHR 0x0A]"
  let ?d1 = "act (Zygote ?l) (probe d)"
  let ?a = "\<lparr>a_app_id = i, a_pid = p, launched_at = cl_unix (w_clock w (d_calls ?d1)), launched_mono = cl_mono (w_clock w (d_calls ?d1))\<rparr>"
  let ?d2 = "model_put_surface p i Background (state_insert w i p ?d1)"
  have z: "zygote_by_kind w Gui i (probe d) = (Inr p, ?d1)"
    using assms(3,5) by (simp add: zygote_by_kind_def zygote_launch_gui_def send_def Let_def)
  have st: "d_store ?d2 = display_mut PRIMARY_DISPLAY (put_surface p i Background) (insert_app ?a (d_store d))"
    and rg: "d_registry ?d2 = d_registry d"
    by (simp_all add: model_put_surface_def state_insert_def on_d_store_def read_clock_def)
  have lg: "d_log ?d2 = d_log d @ [Zygote ?l, ReadClock]"
    by (simp add: model_put_surface_def state_insert_def on_d_store_def read_clock_def probe_def)
  have "shell_ok (d_store ?d2)"
    unfolding st using shell_ok_launched[OF assms(2), of ?a] assms(6) by simp
  moreover have "app (d_store ?d2) i = Some ?a"
    unfolding st by simp
  moreover have "module_owns ''foreground'' ?d2" "index_ok (arbiter (w_log10 w)) (d_registry ?d2)"
    using daemon_ok_foreground[OF assms(1)] unfolding module_owns_def rg by simp_all
  ultimately obtain d' where "dispatch_foreground w i ?d2 = Some d'" "keeps (fronts p) (latched False) ?d2 d'"
    using bring_forward[OF _ _ _ assms(3) _ unlatched, of ?d2 w ?a] by auto
  then show ?thesis
    using z assms(3,4) lg by (auto simp: cmd_launch_def launched_def kind_role_def keeps_def fronts_def Let_def)
qed

section \<open>Home\<close>

lemma unforked_act: "os_only d (remove_host_socket p d)" "os_only d (save_to w d)"
  by (simp_all add: remove_host_socket_def save_to_def read_clock_def os_only_acts Let_def)

lemma death_front:
  assumes "module_owns ''foreground'' d" "index_ok (arbiter (w_log10 w)) (d_registry d)" "home_up p v h b (d_store d)"
    "list_all (latched L) (modules (d_registry d))"
  shows "\<exists>d'. bus_emit w (SurfaceRemoved p) d = Some d' \<and> keeps (home_up p (without p v) h b) (latched L) d d'"
proof -
  let ?T = "arbiter (w_log10 w)" and ?cl = "w_clock w (d_calls d)"
  have shell: "ShellM \<in> set (modules (d_registry d))"
    using foreground_is_shell[OF assms(2)] assms(1) by (metis module_owns_def owns_def not_None_eq nth_mem)
  from homely.fan_event_ok[OF assms(3,4) refl, of "w_log10 w" ?cl] obtain ms st es fs where
    f: "fan_event ?T ?cl (SurfaceRemoved p) (modules (d_registry d)) (d_store d) = Some (ms, st, es, fs)"
    "list_all (latched L) ms" "list_all inert fs"
    by blast
  have "es = []"
    using cascade.fan_event_lowers[OF f(1)] by (cases es) auto
  with f(1) have D: "dispatch_event ?T ?cl (SurfaceRemoved p) (d_registry d) (d_store d) = Some (fs, (d_registry d)\<lparr>modules := ms\<rparr>, st)"
    by (simp add: dispatch_one_batch)
  from homely.emit_keeps[OF D fan_passes_shell[OF f(1) shell assms(3)] _ f(3) _ refl assms(2)] f(2) show ?thesis
    by simp
qed

lemma exit_front:
  assumes "daemon_ok w d" "shell_ok (d_store d)" "home (d_store d) = Some h" "h \<noteq> []"
    "app (d_store d) h = Some b" "app (d_store d) i = Some a" "a_pid a \<noteq> a_pid b" "list_all (latched L) (modules (d_registry d))"
  shows "\<exists>d'. handle_child_exit w (a_pid a) d = Some d'
     \<and> keeps (\<lambda>st. visible_app (prim st) = Some (or_default (a_pid b) (without (a_pid a) (visible_app (prim (d_store d)))))) (latched L) d d'"
proof -
  let ?p = "a_pid a" and ?v = "visible_app (prim (d_store d))"
  have tr: "find (\<lambda>x. a_pid x = ?p) (apps_snapshot (d_store d)) \<noteq> None"
    using app_in_snapshot[OF assms(6)] by (auto simp: find_None_iff2)
  have up: "home_up ?p ?v h b (d_store d)"
    using assms(2,3,5,7) by (simp add: home_up_def)
  note fg = daemon_ok_foreground[OF assms(1), THEN conjunct1] daemon_ok_foreground[OF assms(1), THEN conjunct2]
  from death_front[OF fg up assms(8)] obtain d1 where
    d1: "bus_emit w (SurfaceRemoved ?p) d = Some d1" "keeps (home_up ?p (without ?p ?v) h b) (latched L) d d1"
    by blast
  let ?d2 = "remove_host_socket ?p d1"
  have d2: "keeps (home_up ?p (without ?p ?v) h b) (latched L) d ?d2"
    using keeps_os_only[OF d1(2) unforked_act(1)] .
  then have s2: "shell_ok (d_store ?d2)" "app (d_store ?d2) h = Some b" "home (d_store ?d2) = Some h"
    "list_all (latched L) (modules (d_registry ?d2))" "visible_app (prim (d_store ?d2)) = without ?p ?v"
    by (simp_all add: keeps_def home_up_def)
  let ?I = "\<lambda>st. visible_app (prim st) = Some (or_default (a_pid b) (without ?p ?v))"
  obtain d3 where d3: "(if model_foreground_slot ?d2 = None \<and> home (d_store ?d2) \<noteq> None then ensure_home_foreground w ?d2
      else Some ?d2) = Some d3" "keeps ?I (latched L) d d3"
  proof (cases "model_foreground_slot ?d2 = None")
    case True
    then have n: "without ?p ?v = None"
      using slot_visible[OF s2(1)] s2(5) by simp
    obtain d3 where f: "dispatch_foreground w h ?d2 = Some d3" "keeps (fronts (a_pid b)) (latched L) ?d2 d3"
      using bring_forward[OF keeps_foreground[OF d2 fg] s2(1) assms(4) s2(2,4)] by blast
    with True s2 have "ensure_home_foreground w ?d2 = Some d3"
      by (simp add: ensure_home_foreground_def fg_id_def)
    moreover have "keeps ?I (latched L) d d3"
      using keeps_trans[OF d2 f(2)] n by (simp add: keeps_def fronts_def or_default_def)
    ultimately show ?thesis
      using that True s2(3) by simp
  next
    case False
    then have "without ?p ?v \<noteq> None"
      using slot_visible[OF s2(1)] s2(5) by simp
    then have "keeps ?I (latched L) d ?d2"
      using d2 s2(5) by (auto simp: keeps_def or_default_def)
    then show ?thesis
      using False by (intro that[of ?d2]) auto
  qed
  have "os_only d3 (push_input_windows w (save_to w d3))"
    by (rule os_only_trans[OF unforked_act(2) os_only_windows])
  with keeps_os_only[OF d3(2) this] d3(1) d1(1) tr show ?thesis
    by (auto simp: handle_child_exit_def Let_def)
qed

text \<open>
  C1. A death never leaves the screen empty: when an app dies and the designated home app runs, the
  app that was visible stays so unless it is the dead one, also when the dead one was the keyboard
  over it; if the dead app was the visible one, or none was, the home app is visible afterwards.
  Nothing is launched for it.  This is so in every state that keeps the invariant of the daemon
  (\<open>daemon_ok\<close>, C5) and whose surfaces are well-formed (\<open>shell_ok\<close>), which
  \<open>kill\<close>, \<open>task-kill\<close> and a second \<open>overlay\<close> during a keyboard split
  can break.
\<close>

theorem home_takes_over:
  assumes "daemon_ok w d" "shell_ok (d_store d)" "home (d_store d) = Some h" "h \<noteq> []"
    "app (d_store d) h = Some b" "app (d_store d) i = Some a" "a_pid a \<noteq> a_pid b"
  shows "\<exists>d' l. handle_child_exit w (a_pid a) d = Some d'
    \<and> visible_app (prim (d_store d')) =
        (case visible_app (prim (d_store d)) of
           None \<Rightarrow> Some (a_pid b)
         | Some q \<Rightarrow> if q = a_pid a then Some (a_pid b) else Some q)
    \<and> d_log d' = d_log d @ l \<and> unforked l"
  using exit_front[OF assms unlatched] by (auto simp: keeps_def without_def or_default_def split: option.split)

text \<open>
  C39. The same fallback defeats the lock screen.  While the device is locked no app is in front, so
  the death of any app but the home app, in the background as well, brings the home app up:
  afterwards the home app is the visible one and the keyguard still counts as locked.  As for C1,
  the home app must run, the invariant of the daemon hold and the surfaces be well-formed.
\<close>

theorem home_over_lock:
  assumes "daemon_ok w d" "shell_ok (d_store d)" "home (d_store d) = Some h" "h \<noteq> []"
    "app (d_store d) h = Some b" "app (d_store d) i = Some a" "a_pid a \<noteq> a_pid b"
    "\<forall>k. KeyguardM k \<in> set (modules (d_registry d)) \<longrightarrow> locked k" "visible_app (prim (d_store d)) = None"
  shows "\<exists>d'. handle_child_exit w (a_pid a) d = Some d' \<and> visible_app (prim (d_store d')) = Some (a_pid b)
    \<and> (\<forall>k. KeyguardM k \<in> set (modules (d_registry d')) \<longrightarrow> locked k)"
proof -
  have "list_all (latched True) (modules (d_registry d))"
    using assms(8) by (auto simp: list_all_iff latched_def)
  from exit_front[OF assms(1-7) this] assms(9) show ?thesis
    by (auto simp: keeps_def list_all_iff latched_def without_def or_default_def)
qed

text \<open>
  A second launch of an app in the background is not noticed: \<open>launch-overlay\<close> and
  \<open>launch-headless\<close> do not look whether it runs, the new process takes the app's entry, and
  the daemon forgets the first.  When that one dies, only its socket is swept: no module hears of
  it and its surface stays.
\<close>

theorem relaunch_orphans:
  assumes "daemon_ok w d" "k \<noteq> Gui" "i \<noteq> []" "app (d_store d) i = Some a"
    "fst (zygote_by_kind w k i (probe d)) = Inr p" "p \<noteq> a_pid a"
  shows "\<exists>d'. cmd_launch w i k d = Some (''OK pid='' @ show_int p @ '' app='' @ i, d')
    \<and> role_of (a_pid a) (prim (d_store d')) \<noteq> None
    \<and> handle_child_exit w (a_pid a) d' = Some (remove_host_socket (a_pid a) d')"
proof -
  obtain d1 where z: "zygote_by_kind w k i (probe d) = (Inr p, d1)"
    using assms(5) by (cases "zygote_by_kind w k i (probe d)") simp
  then have d1: "d_store d1 = d_store d"
    by (rule zygote_by_kind_cases) simp_all
  let ?d2 = "model_put_surface p i (kind_role k) (state_insert w i p d1)"
  let ?d = "if k = GuiOverlay then send_role_signal p False ?d2 else ?d2"
  let ?a = "\<lparr>a_app_id = i, a_pid = p, launched_at = cl_unix (w_clock w (d_calls d1)), launched_mono = cl_mono (w_clock w (d_calls d1))\<rparr>"
  have st: "d_store ?d = display_mut PRIMARY_DISPLAY (put_surface p i (kind_role k)) (insert_app ?a (d_store d))"
    by (simp add: model_put_surface_def state_insert_def on_d_store_def read_clock_def send_role_signal_def d1)
  have "cmd_launch w i k d = Some (''OK pid='' @ show_int p @ '' app='' @ i, ?d)"
    using z assms(2,3) by (cases k) (simp_all add: cmd_launch_def launched_def)
  moreover have "role_of (a_pid a) (prim (d_store ?d)) \<noteq> None"
    using assms(1,4,6) by (simp add: st daemon_ok_def arb_ok_def)
  moreover have "find (\<lambda>x. a_pid x = a_pid a) (apps_snapshot (d_store ?d)) = None"
  proof -
    have "registry_keyed (d_store ?d)"
      using assms(1) unfolding st by (simp add: daemon_ok_def arb_ok_def registry_keyed_insert)
    then have "a_pid x \<noteq> a_pid a" if "x \<in> set (apps_snapshot (d_store ?d))" for x
    proof -
      have x: "app (d_store ?d) (a_app_id x) = Some x"
        using snapshot_app[OF \<open>registry_keyed (d_store ?d)\<close>, of x] that by blast
      show ?thesis
      proof (cases "a_app_id x = i")
        case True
        with x assms(6) show ?thesis by (auto simp: st)
      next
        case False
        with x assms(1,4) show ?thesis by (auto simp: st daemon_ok_def arb_ok_def)
      qed
    qed
    then show ?thesis by (auto simp: find_None_iff2)
  qed
  ultimately show ?thesis
    by (auto simp: handle_child_exit_def)
qed

text \<open>
  Executing effects always ends, although \<open>Effect::Foreground\<close> dispatches a verb whose
  own effects are executed in turn: whatever list of effects and whatever the world answers, the
  executor returns and the daemon is well-formed afterwards.
\<close>

theorem executor_ends:
  assumes "fresh_forks w" "daemon_ok w d"
  shows "\<exists>d'. execute_effects w es d = Some d' \<and> daemon_ok w d'"
  by (rule execute_ok[OF assms])

section \<open>Examples\<close>

text \<open>A daemon on the demo world, with the registry as built, or with the keyguard locked.\<close>

definition demo_daemon :: "AnyModule Registry \<Rightarrow> Store \<Rightarrow> Daemon" where
  "demo_daemon r st = \<lparr>d_registry = r, d_store = st, power_pending = None, POWER_GEN = 0, power_timers = [],
     screen_last = None, last_windows = [], backlight_max_cell = None, d_calls = 1, d_log = []\<rparr>"

definition lock_module :: "AnyModule \<Rightarrow> AnyModule" where
  "lock_module m = (case m of KeyguardM k \<Rightarrow> KeyguardM (k\<lparr>locked := True\<rparr>) | _ \<Rightarrow> m)"

definition demo_dark :: Store where
  "demo_dark = demo_store\<lparr>displays := [(0, demo_display\<lparr>
     surfaces := [demo_surface 10 ''mail'' Background, demo_surface 20 ''maps'' Background,
                  demo_surface 30 ''kbd'' Background], focus := []\<rparr>)]\<rparr>"

lemma demo_daemon_simps [simp]:
  "d_registry (demo_daemon r st) = r" "d_store (demo_daemon r st) = st" "d_calls (demo_daemon r st) = 1"
  by (simp_all add: demo_daemon_def)

lemma demo_daemon_ok:
  assumes "build_registry id None True = Some r" "shell_ok st" "f = id \<or> f = lock_module"
  shows "daemon_ok demo_world (demo_daemon (r\<lparr>modules := map f (modules r)\<rparr>) st)"
proof -
  have m: "module_ok m \<Longrightarrow> module_ok (f m)" "any_verbs (f m) = any_verbs m" for m
    using assms(3) by (cases m; auto simp: lock_module_def keyguard_wf_def)+
  have "list_all module_ok (modules r)" "index_ok (arbiter id) r"
    using build_registry_ok[OF assms(1)] boot_modules_ok by simp_all
  then have "list_all module_ok (map f (modules r))" "index_ok (arbiter id) (r\<lparr>modules := map f (modules r)\<rparr>)"
    using m by (auto simp: list_all_iff index_ok_def)
  moreover have "owns (r\<lparr>modules := map f (modules r)\<rparr>) v \<longleftrightarrow> v \<in> set arbiter_verbs" for v
    using built_verbs[OF assms(1)] by (simp add: owns_def)
  ultimately show ?thesis
    using shell_ok_arb[OF assms(2)] by (simp add: daemon_ok_def module_owns_def)
qed

lemma demo_store_ok: "shell_ok demo_store"
  using demo_ok by (simp add: demo_ctx_def)

lemma demo_dark_ok: "shell_ok demo_dark" "visible_app (prim demo_dark) = None"
proof -
  have p: "prim demo_dark = demo_display\<lparr>surfaces := [demo_surface 10 ''mail'' Background, demo_surface 20 ''maps'' Background,
      demo_surface 30 ''kbd'' Background], focus := []\<rparr>"
    by (simp add: prim_def display_def demo_dark_def PRIMARY_DISPLAY_def)
  have r: "role_of q (prim demo_dark) = (if q = 10 \<or> q = 20 \<or> q = 30 then Some Background else None)" for q
    by (simp add: p role_of_def demo_surface_def)
  have "shell_wf (prim demo_dark)"
    unfolding shell_wf_def split_wf_def sole_def ime_tracked_def r
    by (auto simp: p keyed_def pids_def demo_display_def demo_surface_def)
  moreover have "app demo_dark = app demo_store" "registry_keyed demo_dark = registry_keyed demo_store"
    by (simp_all add: demo_dark_def app_apps[of "demo_store\<lparr>displays := x\<rparr>" demo_store for x] registry_keyed_def)
  ultimately show "shell_ok demo_dark"
    using demo_store_ok by (simp add: shell_ok_def r demo_prim demo_role) (metis option.distinct(1))
  show "visible_app (prim demo_dark) = None"
    by (simp add: p visible_app_def demo_surface_def)
qed

lemma demo_listed: "listed_pids demo_store = [10, 20, 30]"
  by (simp add: listed_pids_def demo_store_def demo_app_def)

lemma demo_registry: obtains r where "build_registry id None True = Some r"
  by (rule build_registry_total)

lemma same_registry: "r\<lparr>modules := map id (modules r)\<rparr> = r"
  by simp

theorem executor_ends_witness:
  "\<exists>r d'. build_registry id None True = Some r
    \<and> execute_effects demo_world [Foreground ''maps'', Kill 10, Foreground ''mail''] (demo_daemon r demo_store) = Some d'"
proof -
  obtain r where r: "build_registry id None True = Some r" by (rule demo_registry)
  have "daemon_ok demo_world (demo_daemon r demo_store)"
    using demo_daemon_ok[OF r demo_store_ok, of id] same_registry by simp
  from executor_ends[OF demo_fresh this] r show ?thesis by blast
qed

theorem launch_resumes_witness:
  "\<exists>r w d' l. build_registry id None True = Some r
    \<and> cmd_launch w ''maps'' Gui (demo_daemon r demo_store) = Some (''OK pid=20 app=maps foregrounded'', d')
    \<and> visible_app (prim (d_store d')) = Some 20 \<and> d_log d' = l \<and> unforked l"
proof -
  obtain r where r: "build_registry id None True = Some r" by (rule demo_registry)
  let ?d = "demo_daemon r demo_store"
  have ok: "daemon_ok demo_world ?d"
    using demo_daemon_ok[OF r demo_store_ok, of id] same_registry by simp
  have "running demo_world ''maps'' ?d = Some (snd (demo_app ''maps'' 20))"
    by (simp add: running_def pid_alive_def demo_store_def demo_app_def app_def)
  from launch_resumes[OF ok _ _ this] demo_store_ok obtain d' l where
    "cmd_launch demo_world ''maps'' Gui ?d = Some (''OK pid='' @ show_int 20 @ '' app='' @ ''maps'' @ '' foregrounded'', d')"
    "visible_app (prim (d_store d')) = Some 20" "d_log d' = d_log ?d @ l" "unforked l"
    by (auto simp: demo_app_def)
  moreover have "show_int 20 = ''20''" by code_simp
  ultimately show ?thesis
    using r by (intro exI[of _ r] exI[of _ demo_world] exI[of _ d']) (simp add: demo_daemon_def)
qed

theorem launch_starts_witness:
  "\<exists>r d' l. build_registry id None True = Some r
    \<and> cmd_launch demo_world ''game'' Gui (demo_daemon r demo_store) = Some (''OK pid=102 app=game'', d')
    \<and> visible_app (prim (d_store d')) = Some 102 \<and> d_log d' = Zygote (''LAUNCH_GUI game'' @ [CHR 0x0A]) # l \<and> unforked l"
proof -
  obtain r where r: "build_registry id None True = Some r" by (rule demo_registry)
  let ?d = "demo_daemon r demo_store"
  have ok: "daemon_ok demo_world ?d"
    using demo_daemon_ok[OF r demo_store_ok, of id] same_registry by simp
  have "running demo_world ''game'' ?d = None"
    by (simp add: running_def demo_store_def demo_app_def app_def)
  moreover have "fst (zygote_launch_gui demo_world ''game'' (probe ?d)) = Inr 102"
    using pid_reply_ok[of 102] by (simp add: zygote_launch_gui_def send_def demo_zygote demo_listed)
  ultimately obtain d' l where
    "cmd_launch demo_world ''game'' Gui ?d = Some (''OK pid='' @ show_int 102 @ '' app='' @ ''game'', d')"
    "visible_app (prim (d_store d')) = Some 102"
    "d_log d' = d_log ?d @ Zygote (''LAUNCH_GUI '' @ ''game'' @ [CHR 0x0A]) # l" "unforked l"
    using launch_starts[OF ok, of "''game''" 102] demo_store_ok by (auto simp: demo_prim demo_role)
  moreover have "show_int 102 = ''102''" by code_simp
  ultimately show ?thesis
    using r by (intro exI[of _ r] exI[of _ d'] exI[of _ l]) (simp add: demo_daemon_def)
qed

theorem home_takes_over_witness:
  "\<exists>r d'. build_registry id None True = Some r \<and> visible_app (prim demo_store) = Some 10
    \<and> handle_child_exit demo_world 10 (demo_daemon r demo_store) = Some d' \<and> visible_app (prim (d_store d')) = Some 20"
proof -
  obtain r where r: "build_registry id None True = Some r" by (rule demo_registry)
  have "daemon_ok demo_world (demo_daemon r demo_store)"
    using demo_daemon_ok[OF r demo_store_ok, of id] same_registry by simp
  moreover have "visible_app (prim demo_store) = Some 10" "home demo_store = Some ''maps''"
    "app demo_store ''maps'' = Some (snd (demo_app ''maps'' 20))" "app demo_store ''mail'' = Some (snd (demo_app ''mail'' 10))"
    "a_pid (snd (demo_app ''maps'' 20)) = 20" "a_pid (snd (demo_app ''mail'' 10)) = 10"
    by code_simp+
  ultimately show ?thesis
    using home_takes_over[of demo_world "demo_daemon r demo_store" "''maps''" "snd (demo_app ''maps'' 20)" "''mail''"
      "snd (demo_app ''mail'' 10)"] demo_store_ok r by auto
qed

theorem home_over_lock_witness:
  "\<exists>r d'. build_registry id None True = Some r
    \<and> handle_child_exit demo_world 30 (demo_daemon (r\<lparr>modules := map lock_module (modules r)\<rparr>) demo_dark) = Some d'
    \<and> visible_app (prim (d_store d')) = Some 20 \<and> (\<forall>k. KeyguardM k \<in> set (modules (d_registry d')) \<longrightarrow> locked k)"
proof -
  obtain r where r: "build_registry id None True = Some r" by (rule demo_registry)
  let ?d = "demo_daemon (r\<lparr>modules := map lock_module (modules r)\<rparr>) demo_dark"
  have ok: "daemon_ok demo_world ?d"
    using demo_daemon_ok[OF r demo_dark_ok(1), of lock_module] by simp
  have l: "\<forall>k. KeyguardM k \<in> set (modules (d_registry ?d)) \<longrightarrow> locked k"
    by (auto simp: lock_module_def split: AnyModule.splits)
  have st: "home (d_store ?d) = Some ''maps''" "app (d_store ?d) ''maps'' = Some (snd (demo_app ''maps'' 20))"
    "app (d_store ?d) ''kbd'' = Some (snd (demo_app ''kbd'' 30))"
    by (simp_all add: demo_dark_def demo_store_def demo_app_def app_def)
  from home_over_lock[OF ok _ st(1) _ st(2,3) _ l] demo_dark_ok r show ?thesis
    by (auto simp: demo_app_def)
qed

theorem relaunch_orphans_witness:
  "\<exists>r d'. build_registry id None True = Some r
    \<and> cmd_launch demo_world ''kbd'' GuiOverlay (demo_daemon r demo_store) = Some (''OK pid=102 app=kbd'', d')
    \<and> role_of 30 (prim (d_store d')) \<noteq> None
    \<and> handle_child_exit demo_world 30 d' = Some (remove_host_socket 30 d')"
proof -
  obtain r where r: "build_registry id None True = Some r" by (rule demo_registry)
  let ?d = "demo_daemon r demo_store"
  have ok: "daemon_ok demo_world ?d"
    using demo_daemon_ok[OF r demo_store_ok, of id] same_registry by simp
  have "fst (zygote_by_kind demo_world GuiOverlay ''kbd'' (probe ?d)) = Inr 102"
    using pid_reply_ok[of 102] by (simp add: zygote_by_kind_def zygote_launch_gui_overlay_def send_def demo_zygote demo_listed)
  from relaunch_orphans[OF ok _ _ _ this, of "snd (demo_app ''kbd'' 30)"]
  obtain d' where "cmd_launch demo_world ''kbd'' GuiOverlay ?d = Some (''OK pid='' @ show_int 102 @ '' app='' @ ''kbd'', d')"
    "role_of 30 (prim (d_store d')) \<noteq> None" "handle_child_exit demo_world 30 d' = Some (remove_host_socket 30 d')"
    by (auto simp: demo_app_def demo_store_def app_def)
  moreover have "show_int 102 = ''102''" by code_simp
  ultimately show ?thesis using r by auto
qed

end
