(* ===== verification/DaemonKeys.thy ===== *)
theory DaemonKeys
  imports DaemonHome
begin

text \<open>
  What the daemon writes down after a command, what it last told the input dispatcher, and the
  power key: the press the hosts share, its timer, and a second host that is late.
\<close>

section \<open>What every handler preserves\<close>

text \<open>
  A predicate of the daemon's own bookkeeping that the calls to the world, the dispatch of modules
  and the push of the windows keep.  Then everything but the power key keeps it.
\<close>

definition is_windows :: "OsAction \<Rightarrow> bool" where
  "is_windows a \<longleftrightarrow> (\<exists>b ok. a = Windows b ok)"

lemma is_windows_simps [simp]:
  "\<not> is_windows (ToHost p l)" "\<not> is_windows (Signal p s)" "\<not> is_windows (OomScore p i)" "\<not> is_windows (Zygote l)"
  "\<not> is_windows (WriteTmp l ok)" "\<not> is_windows (RenameTmp ok)" "\<not> is_windows (DisplayPower b)" "\<not> is_windows (Lights x b)" "\<not> is_windows (WriteFile f l)"
  "\<not> is_windows (SensorHal k b hz)" "\<not> is_windows (Relay l)" "\<not> is_windows (Reboot b)" "\<not> is_windows (RemoveSocket p)"
  "\<not> is_windows ReadClock" "is_windows (Windows l b)"
  by (simp_all add: is_windows_def)

locale bookkeeping =
  fixes P :: "Daemon \<Rightarrow> bool"
  assumes P_act: "P d \<Longrightarrow> \<not> is_windows a \<Longrightarrow> P (act a d)"
    and P_model: "P (d\<lparr>d_registry := r, d_store := st\<rparr>) = P d"
    and P_cells: "P (d\<lparr>backlight_max_cell := c, d_calls := n\<rparr>) = P d" "P (d\<lparr>screen_last := sl\<rparr>) = P d"
    and P_push: "P d \<Longrightarrow> P (push_input_windows w d)"
begin

lemma P_store [simp]: "P (on_d_store f d) = P d"
  using P_model[where d = d and r = "d_registry d"] by (simp add: on_d_store_def)

lemma P_probe [simp]: "P (probe d) = P d"
  using P_cells(1)[where d = d and c = "backlight_max_cell d"] by (simp add: probe_def)

lemma P_clock [simp]: "P d \<Longrightarrow> P (snd (read_clock w d))"
  by (simp add: read_clock_def P_act)

lemma P_signals [simp]:
  "P d \<Longrightarrow> P (send_role_signal p b d)" "P d \<Longrightarrow> P (send_present p d)" "P d \<Longrightarrow> P (os_apply_role p r d)"
  "P d \<Longrightarrow> P (save_to w d)" "P d \<Longrightarrow> P (state_insert w i p d)" "P d \<Longrightarrow> P (model_put_surface p i r d)"
  "P d \<Longrightarrow> P (remove_host_socket p d)"
  by (simp_all add: send_role_signal_def send_present_def os_apply_role_def save_to_def state_insert_def
      model_put_surface_def remove_host_socket_def read_clock_def Let_def P_act split: Role.split)

lemma P_zygote [simp]:
  "P d \<Longrightarrow> P (snd (zygote_by_kind w k i d))" "P d \<Longrightarrow> P (snd (zygote_launch_gui w i d))"
  "P d \<Longrightarrow> P (snd (zygote_kill w p b d))" "P d \<Longrightarrow> P (snd (zygote_preload w i d))" "P d \<Longrightarrow> P (snd (relay_wifi w l d))"
  by (simp_all add: zygote_by_kind_def zygote_launch_gui_def zygote_launch_gui_overlay_def zygote_launch_def
      zygote_kill_def zygote_preload_def send_def relay_wifi_def Let_def P_act split: LaunchKind.split)

lemma P_backlight [simp]: "P d \<Longrightarrow> P (apply_backlight_mode w l b d)"
proof -
  have "P d \<Longrightarrow> P (snd (backlight_max w d))" for d
    by (simp add: backlight_max_def P_cells Let_def split: option.split)
  moreover assume "P d"
  ultimately show ?thesis
    by (simp add: apply_backlight_mode_def Let_def case_prod_beta P_act)
qed

lemma P_exec_one [simp]: "P d \<Longrightarrow> P (exec_one w e d)"
  by (cases e) (simp_all add: exec_one_def exec_launch_def apply_display_power_def Let_def case_prod_beta P_act
      split: sum.split)


definition kept :: "Daemon option \<Rightarrow> bool" where
  "kept x \<longleftrightarrow> (\<forall>d. x = Some d \<longrightarrow> P d)"

lemma kept_simps [simp]: "kept (Some d) = P d" "kept None"
  by (simp_all add: kept_def)

lemma kept_bind: "kept x \<Longrightarrow> (\<And>d. P d \<Longrightarrow> kept (f d)) \<Longrightarrow> kept (x \<bind> f)"
  by (cases x) simp_all

lemma kept_bindD: "x \<bind> f = Some d' \<Longrightarrow> kept x \<Longrightarrow> (\<And>d. P d \<Longrightarrow> f d = Some d' \<Longrightarrow> P d') \<Longrightarrow> P d'"
  by (cases x) simp_all

lemma P_run_module: "P d \<Longrightarrow> run_module w v a d = Some (res, d') \<Longrightarrow> P d'"
  by (auto simp: run_module_def read_clock_def P_model P_act split: Option.bind_splits)

text \<open>The executor, by induction on its recursion: \<open>ex\<close> stands for it.\<close>

lemma P_run_effects:
  "(\<And>w es d d'. ex w es d = Some d' \<Longrightarrow> P d \<Longrightarrow> P d') \<Longrightarrow> run_effects ex w x = Some d' \<Longrightarrow> P (snd x) \<Longrightarrow> P d'"
  by (auto simp: run_effects_def split: option.splits)

lemma P_reconcile_with:
  assumes ex: "\<And>w es d d'. ex w es d = Some d' \<Longrightarrow> P d \<Longrightarrow> P d'" and "reconcile_with ex w d = Some d'" "P d"
  shows "P d'"
proof -
  obtain x d2 where x: "run_module w ''set-immersive'' (immersive_arg w d) (probe d) = Some x"
    "run_effects ex w x = Some d2" "d' = push_input_windows w d2"
    using assms(2) by (auto simp: reconcile_with_def split: Option.bind_splits)
  then have "P d2"
    using P_run_effects[OF ex x(2)] P_run_module[of "probe d" w _ _ "fst x" "snd x"] assms(3) by simp
  with x(3) P_push show ?thesis by simp
qed

lemma P_foreground_with:
  assumes ex: "\<And>w es d d'. ex w es d = Some d' \<Longrightarrow> P d \<Longrightarrow> P d'" and "foreground_with ex w i d = Some d'" "P d"
  shows "P d'"
proof -
  obtain x d2 where x: "run_module w ''foreground'' i d = Some x" "run_effects ex w x = Some d2"
    "reconcile_with ex w d2 = Some d'"
    using assms(2) by (auto simp: foreground_with_def split: Option.bind_splits)
  then have "P d2"
    using P_run_effects[OF ex x(2)] P_run_module[of d w _ _ "fst x" "snd x"] assms(3) by simp
  from P_reconcile_with[OF ex x(3) this] show ?thesis .
qed

lemma P_execute:
  assumes "execute_effects w es d = Some d'" "P d"
  shows "P d'"
proof -
  have "P d \<longrightarrow> P d'"
  proof (rule execute_effects.raw_induct[where P = "\<lambda>w es d d'. P d \<longrightarrow> P d'", OF _ assms(1)])
    fix ex :: "World \<Rightarrow> Effect list \<Rightarrow> Daemon \<Rightarrow> Daemon option" and w es d d'
    assume "\<And>w es d d'. ex w es d = Some d' \<Longrightarrow> P d \<longrightarrow> P d'"
    then have ex: "ex w es d = Some d' \<Longrightarrow> P d \<Longrightarrow> P d'" for w es d d' by blast
    assume s: "(case es of [] \<Rightarrow> Some d
      | e # rest \<Rightarrow> (case e of Foreground i \<Rightarrow> foreground_with ex w i d | _ \<Rightarrow> Some (exec_one w e d)) \<bind> ex w rest) = Some d'"
    show "P d \<longrightarrow> P d'"
    proof (cases es)
      case (Cons e rest)
      then obtain d1 where d1: "(case e of Foreground i \<Rightarrow> foreground_with ex w i d | _ \<Rightarrow> Some (exec_one w e d)) = Some d1"
        "ex w rest d1 = Some d'"
        using s by (auto split: Option.bind_splits)
      have "P d1" if "P d"
        using d1(1) P_foreground_with[where ex = ex, OF ex, where d = d and d' = d1] that P_exec_one[of d w e]
        by (cases e) auto
      with ex[OF d1(2)] show ?thesis by blast
    qed (use s in simp)
  qed
  with assms(2) show ?thesis by blast
qed

text \<open>The daemon's handlers but the power key.\<close>

lemma kept_mid [simp]:
  "P d \<Longrightarrow> kept (dispatch_foreground w i d)" "P d \<Longrightarrow> kept (reconcile_immersive w d)"
  using P_foreground_with[where ex = execute_effects, OF P_execute] P_reconcile_with[where ex = execute_effects, OF P_execute]
  by (auto simp: kept_def dispatch_foreground_def reconcile_immersive_def)

lemma kept_run_module: "P d \<Longrightarrow> kept (map_option snd (run_module w v a d))"
  using P_run_module by (auto simp: kept_def)

lemma kept_run_effects: "P (snd x) \<Longrightarrow> kept (run_effects execute_effects w x)"
  using P_run_effects[where ex = execute_effects, OF P_execute] by (auto simp: kept_def)

lemma kept_run_verb [simp]: "P d \<Longrightarrow> kept (run_verb w v a d)"
  using kept_run_module[of d w v a] kept_run_effects by (cases "run_module w v a d") (simp_all add: run_verb_def)

lemma kept_bus_emit [simp]:
  assumes "P d"
  shows "kept (bus_emit w ev d)"
proof -
  have "P (snd (read_clock w d)\<lparr>d_registry := r, d_store := st\<rparr>)" for r st
    using assms by (simp add: P_model)
  with P_execute have "kept (execute_effects w effs (snd (read_clock w d)\<lparr>d_registry := r, d_store := st\<rparr>))" for effs r st
    unfolding kept_def by blast
  then have "kept ((case x of (effs, r, st) \<Rightarrow> execute_effects w effs (snd (read_clock w d)\<lparr>d_registry := r, d_store := st\<rparr>))
      \<bind> (\<lambda>d2. if fg_id d2 \<noteq> fg_id d then reconcile_immersive w d2 else Some d2))" for x
    by (intro kept_bind) (auto split: prod.split)
  then show ?thesis
    by (cases "dispatch_event (arbiter (w_log10 w)) (fst (read_clock w d)) ev (d_registry (snd (read_clock w d)))
        (d_store (snd (read_clock w d)))") (auto simp: bus_emit_def case_prod_beta)
qed

text \<open>A handler that also answers.\<close>

definition says :: "(string \<times> Daemon) option \<Rightarrow> bool" where
  "says x \<longleftrightarrow> kept (map_option snd x)"

lemma says_simps [simp]: "says (Some y) = P (snd y)" "says None" "says (map_option reply_line x) = says x"
  by (auto simp: says_def reply_line_def option.map_comp comp_def)

lemma says_bind: "kept x \<Longrightarrow> (\<And>d. P d \<Longrightarrow> says (f d)) \<Longrightarrow> says (x \<bind> f)"
  by (cases x) simp_all

lemma says_dispatch_module [simp]:
  assumes "P d"
  shows "says (dispatch_module w v a hung d)"
proof (cases "run_module w v a d")
  case (Some x)
  then have "P (snd x)" using kept_run_module[OF assms, of w v a] by simp
  then show ?thesis
    using Some by (auto simp: dispatch_module_def Let_def intro!: says_bind kept_run_effects)
qed (simp add: dispatch_module_def)

lemma kept_ensure_home [simp]:
  assumes "P d"
  shows "kept (ensure_home_foreground w d)"
proof -
  have "P (snd (zygote_launch_gui w h d))" for h using assms by simp
  then show ?thesis
    using assms by (auto simp: ensure_home_foreground_def case_prod_beta split: option.split sum.split)
qed

lemma says_cmd_launch [simp]:
  assumes "P d"
  shows "says (cmd_launch w i k d)"
proof -
  have l: "says (launched w i k p d)" if "P d" for k p d
    using that by (cases k) (auto simp: launched_def Let_def intro!: says_bind)
  have "says (case zygote_by_kind w k i (probe d) of (Inr p, d1) \<Rightarrow> launched w i k p d1 | (Inl e, d1) \<Rightarrow> Some (x e, d1))" for k x
    using P_zygote(1)[of "probe d" w k i] assms l by (cases "zygote_by_kind w k i (probe d)") (auto split: sum.split)
  then show ?thesis
    using assms by (auto simp: cmd_launch_def Let_def split: option.split intro!: says_bind)
qed

lemma says_cmds [simp]:
  assumes "P d"
  shows "says (cmd_set_home w a d)" "says (cmd_go_home w d)" "says (cmd_preload w a d)" "says (cmd_pm_action w a d)"
    "says (cmd_wifi_connect_saved w a d)"
proof -
  show "says (cmd_set_home w a d)" "says (cmd_go_home w d)"
    using assms by (auto simp: cmd_set_home_def cmd_go_home_def Let_def intro!: says_bind split: option.split)
  show "says (cmd_preload w a d)"
    using P_zygote(4)[OF assms, of w a] assms
    by (cases "zygote_preload w a d"; cases "fst (zygote_preload w a d)") (simp_all add: cmd_preload_def)
  show "says (cmd_pm_action w a d)"
  proof -
    have "says (run_verb w ''lock'' [] d1 \<bind> (\<lambda>d2. Some (out, d2)))" if "P d1" for d1 out
      using that by (intro says_bind) simp_all
    then show ?thesis
      unfolding cmd_pm_action_def by (intro says_bind[OF kept_run_verb[OF assms]]) (simp add: P_act)
  qed
  show "says (cmd_wifi_connect_saved w a d)"
  proof (cases "run_module w ''wifi-saved-creds'' a d")
    case (Some x)
    then have "P (snd x)" using kept_run_module[OF assms, of w "''wifi-saved-creds''" a] by simp
    with Some show ?thesis
      by (simp add: cmd_wifi_connect_saved_def case_prod_beta Let_def split: option.split Reply.split)
  qed (simp add: cmd_wifi_connect_saved_def)
qed

lemma kept_threads [simp]:
  assumes "P d"
  shows "kept (handle_child_exit w p d)" "kept (exit_line w raw d)" "kept (poll_one w p d)" "kept (alarm_tick w d)"
    "kept (screen_poll w out d)" "kept (boot_home w d)"
proof -
  have e: "kept (handle_child_exit w p d)" if "P d" for d p
    using that by (auto simp: handle_child_exit_def Let_def P_push intro!: kept_bind)
  show "kept (handle_child_exit w p d)" by (rule e[OF assms])
  show "kept (exit_line w raw d)" "kept (poll_one w p d)" "kept (alarm_tick w d)" "kept (screen_poll w out d)"
    using assms e by (auto simp: exit_line_def poll_one_def alarm_tick_def screen_poll_def case_prod_beta P_cells split: option.split)
  show "kept (boot_home w d)"
    using assms kept_ensure_home[OF assms, of w] by (auto simp: boot_home_def kept_def)
qed

lemma kept_samples: "P d \<Longrightarrow> kept (emit_samples w hm ss d)"
proof (induction w hm ss d rule: emit_samples.induct)
  case (2 w hm h x y z ts ss d)
  show ?case
  proof (cases "map_of hm h")
    case (Some k)
    have "kept (bus_emit w (SensorReading k x y z ts) d \<bind> emit_samples w hm ss)"
      using 2(2)[OF Some] 2(3) kept_bus_emit[OF 2(3), of w "SensorReading k x y z ts"]
      by (cases "bus_emit w (SensorReading k x y z ts) d") simp_all
    with Some show ?thesis by simp
  qed (use 2 in simp)
qed simp

end

section \<open>With the power key\<close>

locale bookkeeping_keys = bookkeeping +
  assumes P_down: "P d \<Longrightarrow> P (snd (cmd_power_down w d))"
    and P_released: "P d \<Longrightarrow> P (d\<lparr>power_pending := None\<rparr>)"
    and P_fired: "P d \<Longrightarrow> P (d\<lparr>power_timers := ts, power_pending := None\<rparr>)"
      "P d \<Longrightarrow> \<forall>t'. power_pending d \<noteq> Some (g, t') \<Longrightarrow> P (d\<lparr>power_timers := remove1 (g, t) (power_timers d)\<rparr>)"
begin

lemma says_power [simp]:
  assumes "P d"
  shows "says (cmd_power_up w d)"
    "kept (power_timer_fires w g (d\<lparr>power_timers := remove1 (g, t) (power_timers d)\<rparr>))"
proof -
  have m: "kept (show_power_menu w d)" if "P d" for d
    using that by (auto simp: show_power_menu_def intro!: kept_bind)
  have "kept (case power_pending d of None \<Rightarrow> Some (d\<lparr>power_pending := None\<rparr>)
      | Some (g, t) \<Rightarrow> (let (cl, d1) = read_clock w (d\<lparr>power_pending := None\<rparr>) in
          if elapsed t cl \<ge> 10 ^ 9 then show_power_menu w d1 else run_verb w ''power-key'' [] d1))"
    using P_released[OF assms] m by (auto simp: read_clock_def P_act split: option.split)
  then show "says (cmd_power_up w d)"
    unfolding cmd_power_up_def Let_def by (rule says_bind) simp
  show "kept (power_timer_fires w g (d\<lparr>power_timers := remove1 (g, t) (power_timers d)\<rparr>))"
    using P_fired(1)[OF assms] P_fired(2)[OF assms] m by (auto simp: power_timer_fires_def split: option.split)
qed

lemma says_legacy: "P d \<Longrightarrow> says (legacy_command w v a d)"
  by (simp add: legacy_command_def reply_line_def P_down)

lemma kept_client:
  assumes "P d"
  shows "kept (map_option snd (handle_client w raw hung d))"
proof -
  obtain v a where l: "parse_line raw = (v, a)" by fastforce
  have "says (if module_owns v d then map_option reply_line (dispatch_module w v a hung d) else legacy_command w v a d)"
    using assms says_legacy by simp
  then show ?thesis
    by (cases "if module_owns v d then map_option reply_line (dispatch_module w v a hung d) else legacy_command w v a d")
      (auto simp: handle_client_def l says_def P_push)
qed

lemma kept_step: "daemon_step w d x \<Longrightarrow> P d \<Longrightarrow> kept x"
  by (induction rule: daemon_step.cases) (simp_all add: kept_client kept_samples)

lemma P_reachable:
  assumes "\<And>d. boot w = Some d \<Longrightarrow> P d" "reachable w d"
  shows "P d"
  using assms(2)
proof induction
  case (step d d')
  from kept_step[OF step(2,3)] show ?case by simp
qed (rule assms(1))

end

section \<open>The books\<close>

text \<open>
  What the log says of the disk and of the dispatcher.  \<open>on_disk\<close> is the content of the
  state file, from what it was at boot: a written temporary file takes its place when the rename
  succeeds, and nothing else changes it.  \<open>last_push\<close> is the block last offered to the
  dispatcher and whether it took it, \<open>at_dispatcher\<close> the block it took last.
\<close>

definition disk_step :: "OsAction \<Rightarrow> string option \<times> string option \<Rightarrow> string option \<times> string option" where
  "disk_step a tf =
     (case a of
        WriteTmp j ok \<Rightarrow> (if ok then Some j else None, snd tf)
      | RenameTmp ok \<Rightarrow> (if ok then (None, fst tf) else tf)
      | _ \<Rightarrow> tf)"

definition on_disk :: "string option \<Rightarrow> OsAction list \<Rightarrow> string option" where
  "on_disk init l = snd (fold disk_step l (None, init))"

definition last_push :: "OsAction list \<Rightarrow> string \<times> bool" where
  "last_push l = fold (\<lambda>a s. case a of Windows b ok \<Rightarrow> (b, ok) | _ \<Rightarrow> s) l ([], True)"

definition at_dispatcher :: "OsAction list \<Rightarrow> string" where
  "at_dispatcher l = fold (\<lambda>a s. case a of Windows b ok \<Rightarrow> if ok then b else s | _ \<Rightarrow> s) l []"

lemma on_disk_snoc [simp]:
  "on_disk init (l @ [Windows b ok]) = on_disk init l" "on_disk init (l @ [ReadClock]) = on_disk init l"
  "on_disk init (l @ [WriteTmp j ok]) = on_disk init l"
  "on_disk init (l @ [WriteTmp j True, RenameTmp ok]) = (if ok then Some j else on_disk init l)"
  by (simp_all add: on_disk_def disk_step_def)

lemma last_push_snoc [simp]:
  "last_push (l @ [Windows b ok]) = (b, ok)" "last_push [] = ([], True)"
  "\<not> is_windows a \<Longrightarrow> last_push (l @ [a]) = last_push l"
  by (simp_all add: last_push_def is_windows_def split: OsAction.split)

lemma pushed_taken: "snd (last_push l) \<Longrightarrow> at_dispatcher l = fst (last_push l)"
  by (induction l rule: rev_induct) (auto simp: last_push_def at_dispatcher_def split: OsAction.split)

interpretation windows: bookkeeping_keys "\<lambda>d. last_windows d = fst (last_push (d_log d))"
  by unfold_locales (simp_all add: act_def push_input_windows_def cmd_power_down_def read_clock_def Let_def split: option.split)

text \<open>No module and no effect touches the press, and a press has a timer to come.\<close>

interpretation press: bookkeeping "\<lambda>d. power_pending d = pp \<and> power_timers d = ts" for pp ts
  by unfold_locales (simp_all add: act_def push_input_windows_def Let_def split: option.split)

definition armed :: "Daemon \<Rightarrow> bool" where
  "armed d \<longleftrightarrow> set_option (power_pending d) \<subseteq> set (power_timers d)"

interpretation armed: bookkeeping_keys armed
  by unfold_locales (auto simp: armed_def act_def push_input_windows_def cmd_power_down_def read_clock_def Let_def in_set_remove1
      split: option.split)

lemma boot_books:
  assumes "boot w = Some d"
  shows "last_windows d = fst (last_push (d_log d))" "power_pending d = None"
proof -
  obtain d0 where d0: "d = spawn_sensors w (if no_art w then apply_display_power w True d0 else d0)"
    "last_windows d0 = []" "d_log d0 = []" "power_pending d0 = None" "power_timers d0 = []"
    using assms by (auto simp: boot_def Let_def split: Option.bind_splits)
  have e: "apply_display_power w True d0 = exec_one w (SetDisplayPower True) d0"
    by (simp add: exec_one_def)
  have "last_windows (apply_display_power w True d0) = fst (last_push (d_log (apply_display_power w True d0)))"
    unfolding e by (rule windows.P_exec_one) (simp add: d0)
  then show "last_windows d = fst (last_push (d_log d))"
    using d0 windows.P_store windows.P_act by (simp add: spawn_sensors_def Let_def)
  have "power_pending (apply_display_power w True d0) = None \<and> power_timers (apply_display_power w True d0) = []"
    unfolding e by (rule press.P_exec_one) (simp add: d0)
  then show "power_pending d = None"
    using d0 by (simp add: spawn_sensors_def on_d_store_def Let_def)
qed

text \<open>What a save and a push leave in the log.\<close>

definition save_log :: "World \<Rightarrow> Daemon \<Rightarrow> string \<Rightarrow> OsAction list" where
  "save_log w d j =
     (let n = Suc (d_calls d); ok = w_write w n j in
      [ReadClock, WriteTmp j ok] @ (if ok then [RenameTmp (w_rename w (Suc n))] else []))"

lemma save_to_log:
  "d_log (save_to w d) = d_log d @ save_log w d (to_json (fst (read_clock w d)) (fg_id d) (d_store d))"
  by (simp add: save_to_def save_log_def read_clock_def act_def Let_def)

lemma save_to_store: "d_store (save_to w d) = d_store d" "last_windows (save_to w d) = last_windows d"
  by (simp_all add: save_to_def read_clock_def act_def Let_def)

lemma on_disk_saved:
  "on_disk init (l @ save_log w d j) =
     (if w_write w (Suc (d_calls d)) j \<and> w_rename w (Suc (Suc (d_calls d))) then Some j else on_disk init l)"
  by (simp add: save_log_def on_disk_def disk_step_def Let_def)

text \<open>
  C3. Every command ends with an attempt to save and, without the framework, to push.  The text
  written is the registry as it is after the command, with the app in front; when the write and the
  rename succeed the state file holds it, and otherwise it holds what it held before.  The block
  last offered to the input dispatcher is that of the windows as they are, if there is one, and
  the dispatcher holds it if it took it (one it did not take is not offered again,
  \<open>lost_push\<close>).
\<close>

theorem client_persists:
  assumes "reachable w d" "handle_client w raw hung d = Some (out, d')"
  shows "(\<exists>pre pushes cl n.
       let json = to_json cl (fg_id d') (d_store d');
           written = w_write w n json;
           renamed = w_rename w (Suc n)
       in d_log d' = pre @ [ReadClock, WriteTmp json written] @ (if written then [RenameTmp renamed] else []) @ pushes
        \<and> list_all is_windows pushes
        \<and> on_disk init (d_log d') = (if written \<and> renamed then Some json else on_disk init pre))
    \<and> (\<forall>b. no_art w \<and> input_window_block (d_store d') PRIMARY_DISPLAY = Some b \<longrightarrow>
       fst (last_push (d_log d')) = b \<and> (snd (last_push (d_log d')) \<longrightarrow> at_dispatcher (d_log d') = b))"
proof -
  obtain e where e: "d' = push_input_windows w (save_to w e)"
    using assms(2) by (auto simp: handle_client_def Let_def split: prod.splits Option.bind_splits if_splits)
  let ?j = "to_json (fst (read_clock w e)) (fg_id e) (d_store e)"
  obtain ps where ps: "d_log d' = d_log e @ save_log w e ?j @ ps" "list_all is_windows ps"
    "\<And>l. on_disk init (l @ ps) = on_disk init l"
  proof -
    have "d_log d' = d_log (save_to w e) \<or> (\<exists>b ok. d_log d' = d_log (save_to w e) @ [Windows b ok])"
      by (auto simp: e push_input_windows_def act_def split: option.split)
    then show thesis
      using that[of "[]"] that[of "[Windows b ok]" for b ok] by (auto simp: save_to_log)
  qed
  have s: "d_store d' = d_store e" "fg_id d' = fg_id e"
    by (simp_all add: e push_input_windows_def save_to_store act_def fg_id_def model_foreground_slot_def split: option.split)
  have "\<exists>pre pushes cl n.
       let json = to_json cl (fg_id d') (d_store d');
           written = w_write w n json;
           renamed = w_rename w (Suc n)
       in d_log d' = pre @ [ReadClock, WriteTmp json written] @ (if written then [RenameTmp renamed] else []) @ pushes
        \<and> list_all is_windows pushes
        \<and> on_disk init (d_log d') = (if written \<and> renamed then Some json else on_disk init pre)"
    using ps on_disk_saved[of init "d_log e" w e ?j] ps(3)[of "d_log e @ save_log w e ?j"]
    by (intro exI[of _ "d_log e"] exI[of _ ps] exI[of _ "fst (read_clock w e)"] exI[of _ "Suc (d_calls e)"])
      (simp add: s save_log_def Let_def)
  note x = this
  have b: "last_windows d = fst (last_push (d_log d))"
    by (rule windows.P_reachable[OF boot_books(1) assms(1)])
  have "last_windows d' = fst (last_push (d_log d'))"
    using windows.kept_client[OF b, of w raw hung] assms(2) by simp
  moreover have "last_windows d' = b" if "no_art w" "input_window_block (d_store d') PRIMARY_DISPLAY = Some b" for b
    using that unfolding s(1)
    by (auto simp: e push_input_windows_def save_to_store act_def split: option.splits if_splits)
  ultimately show ?thesis
    using pushed_taken[of "d_log d'"] x by auto
qed

text \<open>
  A push the dispatcher does not take is lost: the block counts as sent before the connection
  is made, so the next pushes of the same windows do nothing, also when the dispatcher is back.
\<close>

theorem lost_push:
  assumes "no_art w" "input_window_block (d_store d) PRIMARY_DISPLAY = Some b" "last_windows d \<noteq> b" "\<not> w_input w (d_calls d)"
  shows "d_log (push_input_windows w d) = d_log d @ [Windows b False]
    \<and> push_input_windows w (push_input_windows w d) = push_input_windows w d"
  using assms by (simp add: push_input_windows_def act_def)

section \<open>The power key\<close>

text \<open>
  A press is decided: while one is pending its timer is armed, and if the key is still held when
  the timer fires, the daemon opens the menu and the press is over.
\<close>

theorem press_is_decided:
  assumes "fresh_forks w" "clean_boot w" "reachable w d" "power_pending d = Some (g, t)"
  shows "(g, t) \<in> set (power_timers d)
    \<and> (\<exists>d'. power_timer_fires w g (d\<lparr>power_timers := remove1 (g, t) (power_timers d)\<rparr>) = Some d'
          \<and> power_pending d' = None)"
proof -
  have "armed e" if "boot w = Some e" for e
    using boot_books(2)[OF that] by (simp add: armed_def)
  from armed.P_reachable[OF this assms(3)] assms(4) have t: "(g, t) \<in> set (power_timers d)"
    by (simp add: armed_def)
  let ?d = "d\<lparr>power_timers := remove1 (g, t) (power_timers d), power_pending := None\<rparr>"
  have "daemon_ok w ?d"
    using reachable_ok[OF assms(1-3)] by simp
  then obtain d' where d': "show_power_menu w ?d = Some d'"
    using show_menu_safe[OF assms(1), of ?d] unfolding safe_def by blast
  have "press.kept None (power_timers ?d) (show_power_menu w ?d)"
    unfolding show_power_menu_def by (intro press.kept_bind press.kept_run_verb) simp_all
  then have "power_pending d' = None"
    by (simp add: d')
  with t d' assms(4) show ?thesis
    by (simp add: power_timer_fires_def)
qed

text \<open>
  A late host presses again: once the first host has reported the release, the press is
  forgotten, so the DOWN of a second host that saw the same key, however close, is taken as a new
  press with its own timer, and its UP toggles the panel back.
\<close>

theorem late_host_presses_again:
  assumes "cmd_power_up w d = Some (out, d1)"
  shows "fst (cmd_power_down w d1) = ''OK power-down''
    \<and> power_pending (snd (cmd_power_down w d1)) = Some (POWER_GEN d1 + 1, cl_mono (w_clock w (d_calls d1)))"
proof -
  have m: "press.kept None ts (show_power_menu w d)" if "power_pending d = None \<and> power_timers d = ts" for d ts
    using that unfolding show_power_menu_def by (intro press.kept_bind press.kept_run_verb) simp_all
  have "power_pending d1 = None"
    using assms m[of "act ReadClock (d\<lparr>power_pending := None\<rparr>)" "power_timers d"]
      press.kept_run_verb[of "act ReadClock (d\<lparr>power_pending := None\<rparr>)" None "power_timers d" w "''power-key''" "[]"]
    by (auto simp: cmd_power_up_def read_clock_def press.kept_def Let_def act_def split: option.splits Option.bind_splits if_splits)
  then show ?thesis
    by (simp add: cmd_power_down_def read_clock_def Let_def)
qed

section \<open>Examples\<close>

text \<open>The first press on the demo world.\<close>

lemma demo_pressed:
  obtains d d1 t where "boot demo_world = Some d" "handle_client demo_world ''power-down'' False d = Some (''OK power-down'' @ [CHR 0x0A], d1)"
    "reachable demo_world d1" "power_pending d1 = Some (1, t)"
proof -
  obtain d where b: "boot demo_world = Some d" using demo_boot by blast
  then have g: "POWER_GEN d = 0" "power_pending d = None"
    using boot_books(2)[OF b] by (auto simp: boot_def spawn_sensors_def on_d_store_def act_def apply_display_power_def
        Let_def split: Option.bind_splits)
  have "daemon_ok demo_world d" by (rule boot_ok[OF demo_clean b])
  moreover have "''power-down'' \<notin> set arbiter_verbs" by code_simp
  ultimately have o: "\<not> module_owns ''power-down'' d" by (simp add: daemon_ok_def)
  have l: "parse_line ''power-down'' = (''power-down'', [])" by code_simp
  let ?d1 = "push_input_windows demo_world (save_to demo_world (snd (cmd_power_down demo_world d)))"
  have h: "handle_client demo_world ''power-down'' False d = Some (''OK power-down'' @ [CHR 0x0A], ?d1)"
    using o g by (simp add: handle_client_def l legacy_command_def reply_line_def cmd_power_down_def read_clock_def Let_def)
  have "chrome_fresh ''power-down'' [] (d_store d)"
    by (simp add: chrome_fresh_def)
  with daemon_step.client[where w = demo_world and raw = "''power-down''" and d = d and hung = False] h have "daemon_step demo_world d (Some ?d1)"
    by (simp add: l)
  from reachable.step[OF reachable.start[OF b] this] have r: "reachable demo_world ?d1" .
  have "power_pending ?d1 = Some (1, cl_mono (w_clock demo_world (d_calls d)))"
    using g by (simp add: push_input_windows_def save_to_def cmd_power_down_def read_clock_def act_def Let_def)
  with that[OF b h r] show thesis .
qed

theorem press_is_decided_witness:
  "\<exists>d g t d'. reachable demo_world d \<and> power_pending d = Some (g, t) \<and> (g, t) \<in> set (power_timers d)
    \<and> power_timer_fires demo_world g (d\<lparr>power_timers := remove1 (g, t) (power_timers d)\<rparr>) = Some d' \<and> power_pending d' = None"
proof -
  obtain d t where "reachable demo_world d" "power_pending d = Some (1, t)"
    by (rule demo_pressed) (rule that)
  with press_is_decided[OF demo_fresh demo_clean this] show ?thesis by blast
qed

theorem late_host_presses_again_witness:
  "\<exists>d out d1. power_pending d \<noteq> None \<and> cmd_power_up demo_world d = Some (out, d1)
    \<and> fst (cmd_power_down demo_world d1) = ''OK power-down''"
proof -
  obtain d t where d: "reachable demo_world d" "power_pending d = Some (1, t)"
    by (rule demo_pressed) (rule that)
  then have "answers demo_world (cmd_power_up demo_world d)"
    by (intro cmd_power_safe(2)[OF demo_fresh] reachable_ok[OF demo_fresh demo_clean])
  then obtain out d1 where "cmd_power_up demo_world d = Some (out, d1)"
    by (auto simp: answers_def)
  with late_host_presses_again[OF this] d show ?thesis by blast
qed

theorem client_persists_witness:
  "\<exists>d out d' cl. boot demo_world = Some d \<and> handle_client demo_world ''power-down'' False d = Some (out, d')
    \<and> on_disk None (d_log d') = Some (to_json cl (fg_id d') (d_store d'))"
proof -
  obtain d d1 where d: "boot demo_world = Some d"
    "handle_client demo_world ''power-down'' False d = Some (''OK power-down'' @ [CHR 0x0A], d1)"
    by (rule demo_pressed)
  have "w_write demo_world n j \<and> w_rename demo_world n" for n j
    by (simp add: demo_world_def)
  with client_persists[OF reachable.start[OF d(1)] d(2), where init = None] d show ?thesis
    by (auto simp: Let_def)
qed

theorem lost_push_witness:
  "\<exists>w d b. no_art w \<and> \<not> w_input w (d_calls d) \<and> d_log (push_input_windows w d) = d_log d @ [Windows b False]
    \<and> push_input_windows w (push_input_windows w d) = push_input_windows w d"
proof -
  let ?w = "demo_world\<lparr>w_env := \<lambda>k. Some [], w_input := \<lambda>n. False\<rparr>"
  let ?d = "demo_daemon Registry_new (geometry_mut PRIMARY_DISPLAY (\<lambda>g. g\<lparr>panel_w := 100, panel_h := 200\<rparr>) demo_store)"
  have w: "no_art ?w" "\<not> w_input ?w (d_calls ?d)" "last_windows ?d = []"
    by (simp_all add: no_art_def demo_daemon_def)
  have "(case input_window_block (d_store ?d) PRIMARY_DISPLAY of None \<Rightarrow> False | Some b \<Rightarrow> b \<noteq> [])"
    by code_simp
  then obtain b where "input_window_block (d_store ?d) PRIMARY_DISPLAY = Some b" "last_windows ?d \<noteq> b"
    using w(3) by (auto split: option.splits)
  with lost_push[OF w(1) this w(2)] w show ?thesis by blast
qed

end
