(* ===== verification/Dhcp.thy ===== *)
theory Dhcp
  imports Core
begin

text \<open>
  The DHCPv4 client of \<open>wandr-hal-net\<close> (\<open>dhcp.rs\<close>): the packets it sends, the
  reader of a reply, and the exchange DISCOVER, OFFER, REQUEST, ACK with its retries.  A packet
  is its list of bytes.

  The socket is not part of the program: \<open>Sock\<close> numbers its reads and writes and gives
  the answer to each.  A read that fails or times out is \<open>None\<close>.
\<close>

unbundle bit_operations_syntax

section \<open>Addresses and big-endian numbers\<close>

datatype Ipv4Addr = Ipv4 u8 u8 u8 u8

definition UNSPECIFIED :: Ipv4Addr where
  "UNSPECIFIED = Ipv4 0 0 0 0"

fun octets :: "Ipv4Addr \<Rightarrow> u8 list" where
  "octets (Ipv4 a b c d) = [a, b, c, d]"

definition be32 :: "u8 \<Rightarrow> u8 \<Rightarrow> u8 \<Rightarrow> u8 \<Rightarrow> u32" where
  "be32 a b c d = push_bit 24 (ucast a) OR push_bit 16 (ucast b) OR push_bit 8 (ucast c) OR ucast d"

definition to_be_bytes :: "u32 \<Rightarrow> u8 list" where
  "to_be_bytes x = [ucast (drop_bit 24 x), ucast (drop_bit 16 x), ucast (drop_bit 8 x), ucast x]"

text \<open>\<open>u32::from\<close> and \<open>Ipv4Addr::from\<close>.\<close>

fun ip_bits :: "Ipv4Addr \<Rightarrow> u32" where
  "ip_bits (Ipv4 a b c d) = be32 a b c d"

definition ip_of_bits :: "u32 \<Rightarrow> Ipv4Addr" where
  "ip_of_bits x = Ipv4 (ucast (drop_bit 24 x)) (ucast (drop_bit 16 x)) (ucast (drop_bit 8 x)) (ucast x)"

text \<open>A slice as an address.\<close>

fun ipv4 :: "u8 list \<Rightarrow> Ipv4Addr option" where
  "ipv4 [a, b, c, d] = Some (Ipv4 a b c d)"
| "ipv4 _ = None"

definition count_ones :: "u32 \<Rightarrow> nat" where
  "count_ones x = length (filter (bit x) [0..<32])"

definition mask_to_prefix :: "Ipv4Addr \<Rightarrow> u8" where
  "mask_to_prefix m = of_nat (count_ones (ip_bits m))"

section \<open>Replies and leases\<close>

record DhcpLease =
  l_ip :: Ipv4Addr
  l_prefix :: u8
  l_gateway :: "Ipv4Addr option"
  l_dns :: "Ipv4Addr list"
  l_lease_secs :: u32
  l_server_id :: "Ipv4Addr option"

record DhcpReply =
  r_msg_type :: u8
  yiaddr :: Ipv4Addr
  r_subnet :: "Ipv4Addr option"
  r_router :: "Ipv4Addr option"
  r_dns :: "Ipv4Addr list"
  r_lease_secs :: u32
  r_server_id :: "Ipv4Addr option"

definition DhcpReply_default :: DhcpReply where
  "DhcpReply_default = \<lparr>r_msg_type = 0, yiaddr = UNSPECIFIED, r_subnet = None, r_router = None,
     r_dns = [], r_lease_secs = 0, r_server_id = None\<rparr>"

definition OP_REQUEST :: u8 where "OP_REQUEST = 1"
definition OP_REPLY :: u8 where "OP_REPLY = 2"
definition HTYPE_ETHER :: u8 where "HTYPE_ETHER = 1"
definition HLEN_ETHER :: u8 where "HLEN_ETHER = 6"
definition MAGIC_COOKIE :: "u8 list" where "MAGIC_COOKIE = [99, 130, 83, 99]"

definition DHCP_DISCOVER :: u8 where "DHCP_DISCOVER = 1"
definition DHCP_OFFER :: u8 where "DHCP_OFFER = 2"
definition DHCP_REQUEST :: u8 where "DHCP_REQUEST = 3"
definition DHCP_ACK :: u8 where "DHCP_ACK = 5"
definition DHCP_NAK :: u8 where "DHCP_NAK = 6"

definition OPT_SUBNET :: u8 where "OPT_SUBNET = 1"
definition OPT_ROUTER :: u8 where "OPT_ROUTER = 3"
definition OPT_DNS :: u8 where "OPT_DNS = 6"
definition OPT_LEASE :: u8 where "OPT_LEASE = 51"
definition OPT_MSG_TYPE :: u8 where "OPT_MSG_TYPE = 53"
definition OPT_SERVER_ID :: u8 where "OPT_SERVER_ID = 54"
definition OPT_PARAM_LIST :: u8 where "OPT_PARAM_LIST = 55"
definition OPT_REQUESTED_IP :: u8 where "OPT_REQUESTED_IP = 50"
definition OPT_END :: u8 where "OPT_END = 255"

lemmas dhcp_codes = OPT_SUBNET_def OPT_ROUTER_def OPT_DNS_def OPT_LEASE_def OPT_MSG_TYPE_def
  OPT_SERVER_ID_def OPT_PARAM_LIST_def OPT_REQUESTED_IP_def OPT_END_def
  DHCP_DISCOVER_def DHCP_OFFER_def DHCP_REQUEST_def DHCP_ACK_def DHCP_NAK_def

section \<open>Reading a reply\<close>

definition slice :: "nat \<Rightarrow> nat \<Rightarrow> 'a list \<Rightarrow> 'a list" where
  "slice i j xs = drop i (take j xs)"

text \<open>\<open>val.chunks(4)\<close>.\<close>

fun chunks4 :: "'a list \<Rightarrow> 'a list list" where
  "chunks4 [] = []"
| "chunks4 (x # xs) = take 4 (x # xs) # chunks4 (drop 3 xs)"

definition apply_option :: "u8 \<Rightarrow> u8 list \<Rightarrow> DhcpReply \<Rightarrow> DhcpReply" where
  "apply_option code vl out =
     (if code = OPT_MSG_TYPE then (case vl of [] \<Rightarrow> out | t # _ \<Rightarrow> out\<lparr>r_msg_type := t\<rparr>)
      else if code = OPT_SUBNET then out\<lparr>r_subnet := ipv4 vl\<rparr>
      else if code = OPT_ROUTER then out\<lparr>r_router := ipv4 vl\<rparr>
      else if code = OPT_DNS then out\<lparr>r_dns := List.map_filter ipv4 (chunks4 vl)\<rparr>
      else if code = OPT_LEASE then (case vl of [a, b, c, d] \<Rightarrow> out\<lparr>r_lease_secs := be32 a b c d\<rparr> | _ \<Rightarrow> out)
      else if code = OPT_SERVER_ID then out\<lparr>r_server_id := ipv4 vl\<rparr>
      else out)"

function option_loop :: "u8 list \<Rightarrow> nat \<Rightarrow> DhcpReply \<Rightarrow> DhcpReply" where
  "option_loop buf i out =
     (if i < length buf then
        (let code = buf ! i in
         if code = OPT_END then out
         else if code = 0 then option_loop buf (i + 1) out
         else if i + 1 \<ge> length buf then out
         else
           (let len = unat (buf ! (i + 1)); val_start = i + 2; val_end = val_start + len in
            if val_end > length buf then out
            else option_loop buf val_end (apply_option code (slice val_start val_end buf) out)))
      else out)"
  by pat_completeness auto
termination
  by (relation "measure (\<lambda>(buf, i, out). length buf - i)") auto

declare option_loop.simps [simp del]

definition parse_reply :: "u8 list \<Rightarrow> u32 \<Rightarrow> DhcpReply option" where
  "parse_reply buf expect_xid =
     (if length buf < 240 then None
      else if buf ! 0 \<noteq> OP_REPLY then None
      else if be32 (buf ! 4) (buf ! 5) (buf ! 6) (buf ! 7) \<noteq> expect_xid then None
      else
        (case ipv4 (slice 16 20 buf) of
           None \<Rightarrow> None
         | Some yi \<Rightarrow>
             if slice 236 240 buf \<noteq> MAGIC_COOKIE then None
             else
               (let out = option_loop buf 240 (DhcpReply_default\<lparr>yiaddr := yi\<rparr>) in
                if r_msg_type out = 0 then None else Some out)))"

section \<open>Building a packet\<close>

text \<open>\<open>p[i..i + n].copy_from_slice(xs)\<close>.\<close>

definition copy_at :: "nat \<Rightarrow> 'a list \<Rightarrow> 'a list \<Rightarrow> 'a list" where
  "copy_at i xs p = take i p @ xs @ drop (i + length xs) p"

definition build_packet :: "u8 \<Rightarrow> u32 \<Rightarrow> u8 list \<Rightarrow> Ipv4Addr option \<Rightarrow> Ipv4Addr option \<Rightarrow> u8 list" where
  "build_packet msg_type xid mac requested_ip server_id =
     (let p = replicate 240 0;
          p = p[0 := OP_REQUEST, 1 := HTYPE_ETHER, 2 := HLEN_ETHER, 3 := 0];
          p = copy_at 4 (to_be_bytes xid) p;
          p = p[10 := 0x80, 11 := 0x00];
          p = copy_at 28 mac p;
          p = copy_at 236 MAGIC_COOKIE p;
          opts = [OPT_MSG_TYPE, 1, msg_type]
            @ (case requested_ip of None \<Rightarrow> [] | Some ip \<Rightarrow> [OPT_REQUESTED_IP, 4] @ octets ip)
            @ (case server_id of None \<Rightarrow> [] | Some sid \<Rightarrow> [OPT_SERVER_ID, 4] @ octets sid)
            @ [OPT_PARAM_LIST, 4, OPT_SUBNET, OPT_ROUTER, OPT_DNS, OPT_LEASE] @ [OPT_END]
      in p @ opts)"

section \<open>The interface address\<close>

text \<open>\<open>u8::from_str_radix(part, 16)\<close>.\<close>

fun read_hex :: "nat \<Rightarrow> string \<Rightarrow> nat option" where
  "read_hex acc [] = Some acc"
| "read_hex acc (c # cs) = (case unhex c of None \<Rightarrow> None | Some d \<Rightarrow> read_hex (16 * acc + d) cs)"

definition parse_hex_u8 :: "string \<Rightarrow> u8 option" where
  "parse_hex_u8 s =
     (let d = (case s of [] \<Rightarrow> [] | c # cs \<Rightarrow> if c = CHR ''+'' then cs else s) in
      if d = [] then None
      else Option.bind (read_hex 0 d) (\<lambda>n. if n < 256 then Some (of_nat n) else None))"

fun mac_parts :: "nat \<Rightarrow> string list \<Rightarrow> u8 list \<Rightarrow> u8 list option" where
  "mac_parts i [] mac = Some mac"
| "mac_parts i (part # ps) mac =
     (if 6 \<le> i then Some mac
      else (case parse_hex_u8 part of
              None \<Rightarrow> None
            | Some b \<Rightarrow> mac_parts (Suc i) ps (mac[i := b])))"

text \<open>\<open>addr\<close> is what reading the \<open>address\<close> file of the interface gives.\<close>

definition read_mac :: "string + string \<Rightarrow> string + u8 list" where
  "read_mac addr =
     (case addr of
        Inl e \<Rightarrow> Inl e
      | Inr s \<Rightarrow> (case mac_parts 0 (split_char (CHR '':'') (trim s)) (replicate 6 0) of
                   None \<Rightarrow> Inl ''bad MAC byte'' | Some mac \<Rightarrow> Inr mac))"

section \<open>The exchange\<close>

text \<open>
  \<open>s_recv n\<close> is the datagram of the \<open>n\<close>-th read, cut to the buffer;
  \<open>s_send n\<close> is the error of the \<open>n\<close>-th write, if it fails.
\<close>

record Sock =
  s_recv :: "nat \<Rightarrow> u8 list option"
  s_send :: "nat \<Rightarrow> string option"

record Wired =
  reads :: nat
  sent :: "u8 list list"

definition BUF_LEN :: nat where "BUF_LEN = 1500"

definition sock_recv :: "Sock \<Rightarrow> Wired \<Rightarrow> u8 list option \<times> Wired" where
  "sock_recv sk w = (map_option (take BUF_LEN) (s_recv sk (reads w)), w\<lparr>reads := Suc (reads w)\<rparr>)"

definition sock_send :: "Sock \<Rightarrow> u8 list \<Rightarrow> Wired \<Rightarrow> string option \<times> Wired" where
  "sock_send sk p w = (s_send sk (length (sent w)), w\<lparr>sent := sent w @ [p]\<rparr>)"

fun recv_loop :: "nat \<Rightarrow> Sock \<Rightarrow> u32 \<Rightarrow> u8 \<Rightarrow> Wired \<Rightarrow> DhcpReply option \<times> Wired" where
  "recv_loop 0 sk xid want w = (None, w)"
| "recv_loop (Suc k) sk xid want w =
     (let (res, w1) = sock_recv sk w in
      case res of
        None \<Rightarrow> (None, w1)
      | Some buf \<Rightarrow>
          (case parse_reply buf xid of
             None \<Rightarrow> recv_loop k sk xid want w1
           | Some r \<Rightarrow>
               if r_msg_type r = DHCP_NAK then (None, w1)
               else if r_msg_type r = want then (Some r, w1)
               else recv_loop k sk xid want w1))"

definition recv_reply :: "Sock \<Rightarrow> u32 \<Rightarrow> u8 \<Rightarrow> Wired \<Rightarrow> DhcpReply option \<times> Wired" where
  "recv_reply sk xid want w = recv_loop 4 sk xid want w"

definition lease_of :: "DhcpReply \<Rightarrow> DhcpLease" where
  "lease_of ack = \<lparr>l_ip = yiaddr ack, l_prefix = or_default 24 (map_option mask_to_prefix (r_subnet ack)),
     l_gateway = r_router ack, l_dns = r_dns ack, l_lease_secs = r_lease_secs ack, l_server_id = r_server_id ack\<rparr>"

text \<open>One round: \<open>None\<close> is \<open>continue\<close>.\<close>

definition attempt :: "Sock \<Rightarrow> u32 \<Rightarrow> u8 list \<Rightarrow> Wired \<Rightarrow> (string + DhcpLease) option \<times> Wired" where
  "attempt sk xid mac w =
     (let (e, w1) = sock_send sk (build_packet DHCP_DISCOVER xid mac None None) w in
      case e of
        Some err \<Rightarrow> (Some (Inl err), w1)
      | None \<Rightarrow>
          (let (offer, w2) = recv_reply sk xid DHCP_OFFER w1 in
           case offer of
             None \<Rightarrow> (None, w2)
           | Some off \<Rightarrow>
               (let (e, w3) = sock_send sk (build_packet DHCP_REQUEST xid mac (Some (yiaddr off)) (r_server_id off)) w2 in
                case e of
                  Some err \<Rightarrow> (Some (Inl err), w3)
                | None \<Rightarrow>
                    (let (ack, w4) = recv_reply sk xid DHCP_ACK w3 in
                     case ack of
                       None \<Rightarrow> (None, w4)
                     | Some a \<Rightarrow> (Some (Inr (lease_of a)), w4)))))"

fun attempts :: "nat \<Rightarrow> Sock \<Rightarrow> u32 \<Rightarrow> u8 list \<Rightarrow> Wired \<Rightarrow> (string + DhcpLease) \<times> Wired" where
  "attempts 0 sk xid mac w = (Inl ''DHCP: no OFFER/ACK after retries'', w)"
| "attempts (Suc k) sk xid mac w =
     (let (res, w1) = attempt sk xid mac w in
      case res of None \<Rightarrow> attempts k sk xid mac w1 | Some r \<Rightarrow> (r, w1))"

text \<open>
  \<open>addr\<close> is the interface's \<open>address\<close> file and \<open>open_err\<close> the error of
  opening the socket, if any.
\<close>

definition acquire_lease ::
  "string + string \<Rightarrow> string option \<Rightarrow> Sock \<Rightarrow> u32 \<Rightarrow> u32 \<Rightarrow> Wired \<Rightarrow> (string + DhcpLease) \<times> Wired" where
  "acquire_lease addr open_err sk xid tries w =
     (case read_mac addr of
        Inl e \<Rightarrow> (Inl e, w)
      | Inr mac \<Rightarrow>
          (case open_err of
             Some e \<Rightarrow> (Inl e, w)
           | None \<Rightarrow> attempts (unat (max tries 1)) sk xid mac w))"

section \<open>The options as a list\<close>

text \<open>
  What a reader of the option area should see: the options in order, up to END or the first one
  that is cut off, pads left out.
\<close>

type_synonym dhcp_option = "u8 \<times> u8 list"

fun options :: "u8 list \<Rightarrow> dhcp_option list" where
  "options [] = []"
| "options (code # bs) =
     (if code = OPT_END then []
      else if code = 0 then options bs
      else (case bs of
              [] \<Rightarrow> []
            | n # cs \<Rightarrow>
                if length cs < unat n then []
                else (code, take (unat n) cs) # options (drop (unat n) cs)))"

declare options.simps(2) [simp del]

text \<open>The newest option of a code whose value the field takes.\<close>

definition newest :: "u8 \<Rightarrow> (u8 list \<Rightarrow> bool) \<Rightarrow> dhcp_option list \<Rightarrow> u8 list option" where
  "newest code P os = map_option snd (find (\<lambda>(c, v). c = code \<and> P v) (rev os))"

definition reply_of :: "Ipv4Addr \<Rightarrow> dhcp_option list \<Rightarrow> DhcpReply" where
  "reply_of yi os =
     \<lparr>r_msg_type = (case newest OPT_MSG_TYPE (\<lambda>v. v \<noteq> []) os of None \<Rightarrow> 0 | Some v \<Rightarrow> hd v),
      yiaddr = yi,
      r_subnet = Option.bind (newest OPT_SUBNET (\<lambda>_. True) os) ipv4,
      r_router = Option.bind (newest OPT_ROUTER (\<lambda>_. True) os) ipv4,
      r_dns = (case newest OPT_DNS (\<lambda>_. True) os of None \<Rightarrow> [] | Some v \<Rightarrow> List.map_filter ipv4 (chunks4 v)),
      r_lease_secs = (case newest OPT_LEASE (\<lambda>v. length v = 4) os of
                        None \<Rightarrow> 0 | Some v \<Rightarrow> be32 (v ! 0) (v ! 1) (v ! 2) (v ! 3)),
      r_server_id = Option.bind (newest OPT_SERVER_ID (\<lambda>_. True) os) ipv4\<rparr>"

lemma newest_simps:
  "newest code P [] = None"
  "newest code P (os @ [(c, v)]) = (if c = code \<and> P v then Some v else newest code P os)"
  by (simp_all add: newest_def)

lemma distinct_codes: "distinct [OPT_MSG_TYPE, OPT_SUBNET, OPT_ROUTER, OPT_DNS, OPT_LEASE, OPT_SERVER_ID]"
  by (simp add: dhcp_codes)

lemma code_neq [simp]:
  "OPT_SUBNET \<noteq> OPT_MSG_TYPE" "OPT_ROUTER \<noteq> OPT_MSG_TYPE" "OPT_DNS \<noteq> OPT_MSG_TYPE" "OPT_LEASE \<noteq> OPT_MSG_TYPE"
  "OPT_SERVER_ID \<noteq> OPT_MSG_TYPE" "OPT_ROUTER \<noteq> OPT_SUBNET" "OPT_DNS \<noteq> OPT_SUBNET" "OPT_LEASE \<noteq> OPT_SUBNET"
  "OPT_SERVER_ID \<noteq> OPT_SUBNET" "OPT_DNS \<noteq> OPT_ROUTER" "OPT_LEASE \<noteq> OPT_ROUTER" "OPT_SERVER_ID \<noteq> OPT_ROUTER"
  "OPT_LEASE \<noteq> OPT_DNS" "OPT_SERVER_ID \<noteq> OPT_DNS" "OPT_SERVER_ID \<noteq> OPT_LEASE"
  using distinct_codes by auto

declare code_neq [symmetric, simp]

lemma length4: "length v = 4 \<longleftrightarrow> (\<exists>a b c d. v = [a, b, c, d])"
  by (auto simp: numeral_eq_Suc length_Suc_conv)

lemma apply_lease: "apply_option OPT_LEASE v out =
    (if length v = 4 then out\<lparr>r_lease_secs := be32 (v ! 0) (v ! 1) (v ! 2) (v ! 3)\<rparr> else out)"
  by (auto simp: apply_option_def length4 split: list.split)

lemma apply_other:
  "code \<notin> {OPT_MSG_TYPE, OPT_SUBNET, OPT_ROUTER, OPT_DNS, OPT_LEASE, OPT_SERVER_ID} \<Longrightarrow> apply_option code v out = out"
  by (simp add: apply_option_def)

lemma fold_reply_of:
  "fold (\<lambda>(c, v). apply_option c v) os (DhcpReply_default\<lparr>yiaddr := yi\<rparr>) = reply_of yi os"
proof (induction os rule: rev_induct)
  case Nil
  then show ?case
    by (simp add: reply_of_def newest_simps DhcpReply_default_def)
next
  case (snoc x os)
  obtain c v where x: "x = (c, v)" by (cases x)
  consider "c = OPT_LEASE" | "c \<noteq> OPT_LEASE" "c \<in> {OPT_MSG_TYPE, OPT_SUBNET, OPT_ROUTER, OPT_DNS, OPT_SERVER_ID}"
    | "c \<notin> {OPT_MSG_TYPE, OPT_SUBNET, OPT_ROUTER, OPT_DNS, OPT_LEASE, OPT_SERVER_ID}"
    by blast
  then have "apply_option c v (reply_of yi os) = reply_of yi (os @ [(c, v)])"
  proof cases
    case 1
    then show ?thesis
      by (auto simp: apply_lease reply_of_def newest_simps)
  next
    case 2
    then show ?thesis
      by (cases v) (auto simp: reply_of_def newest_simps apply_option_def)
  next
    case 3
    then show ?thesis
      by (simp add: apply_other) (simp add: reply_of_def newest_simps)
  qed
  with snoc x show ?case by simp
qed

lemma option_loop_options:
  "option_loop buf i out = fold (\<lambda>(c, v). apply_option c v) (options (drop i buf)) out"
proof (induction buf i out rule: option_loop.induct)
  case (1 buf i out)
  show ?case
  proof (cases "i < length buf")
    case False
    then show ?thesis by (simp add: option_loop.simps[of buf i])
  next
    case i: True
    then have d: "drop i buf = buf ! i # drop (Suc i) buf"
      by (simp add: Cons_nth_drop_Suc)
    show ?thesis
    proof (cases "buf ! i = OPT_END \<or> buf ! i = 0 \<or> length buf \<le> Suc i")
      case True
      with 1 i d show ?thesis
        by (auto simp: option_loop.simps[of buf i] options.simps(2))
    next
      case False
      then have e: "drop (Suc i) buf = buf ! Suc i # drop (Suc (Suc i)) buf"
        by (simp add: Cons_nth_drop_Suc)
      let ?n = "unat (buf ! Suc i)"
      have s: "take ?n (drop (Suc (Suc i)) buf) = slice (i + 2) (i + 2 + ?n) buf"
        by (simp add: slice_def take_drop add.commute)
      show ?thesis
      proof (cases "length buf < i + 2 + ?n")
        case True
        then have "length (drop (Suc (Suc i)) buf) < ?n"
          using False by auto
        with True False i d e show ?thesis
          by (simp add: option_loop.simps[of buf i] options.simps(2))
      next
        case fits: False
        have "option_loop buf (i + 2 + ?n) (apply_option (buf ! i) (slice (i + 2) (i + 2 + ?n) buf) out) =
            fold (\<lambda>(c, v). apply_option c v) (options (drop (i + 2 + ?n) buf))
              (apply_option (buf ! i) (slice (i + 2) (i + 2 + ?n) buf) out)"
          using 1(2)[OF i refl] False fits by simp
        then show ?thesis
          using False fits i d e s
          by (simp add: option_loop.simps[of buf i] options.simps(2) Let_def add.commute not_less)
      qed
    qed
  qed
qed

text \<open>The header of a BOOTREPLY to this exchange.\<close>

definition bootreply :: "u8 list \<Rightarrow> u32 \<Rightarrow> bool" where
  "bootreply buf xid \<longleftrightarrow> 240 \<le> length buf \<and> buf ! 0 = OP_REPLY \<and>
     be32 (buf ! 4) (buf ! 5) (buf ! 6) (buf ! 7) = xid \<and> slice 236 240 buf = MAGIC_COOKIE"

definition offered :: "u8 list \<Rightarrow> Ipv4Addr" where
  "offered buf = Ipv4 (buf ! 16) (buf ! 17) (buf ! 18) (buf ! 19)"

lemma slice_offered: "20 \<le> length buf \<Longrightarrow> ipv4 (slice 16 20 buf) = Some (offered buf)"
proof -
  assume "20 \<le> length buf"
  then have "slice 16 20 buf = [buf ! 16, buf ! 17, buf ! 18, buf ! 19]"
    by (intro nth_equalityI) (auto simp: slice_def less_Suc_eq numeral_eq_Suc)
  then show ?thesis by (simp add: offered_def)
qed

lemma parse_reply_accepts:
  "bootreply buf xid \<Longrightarrow> r_msg_type (reply_of (offered buf) (options (drop 240 buf))) \<noteq> 0 \<Longrightarrow>
   parse_reply buf xid = Some (reply_of (offered buf) (options (drop 240 buf)))"
  using slice_offered[of buf]
  by (simp add: parse_reply_def bootreply_def Let_def option_loop_options fold_reply_of)

lemma parse_reply_rejects:
  "\<not> bootreply buf xid \<or> r_msg_type (reply_of (offered buf) (options (drop 240 buf))) = 0 \<Longrightarrow> parse_reply buf xid = None"
  using slice_offered[of buf]
  by (auto simp: parse_reply_def bootreply_def Let_def option_loop_options fold_reply_of)

text \<open>
  C4. The reader of DHCP replies implements the option list of the protocol: a packet is taken
  exactly when it is a BOOTREPLY of this exchange that carries a message type other than 0.  Then
  the message type and the lease time come from the newest option of their code that is long enough,
  respectively exactly four bytes long; subnet, router, server and name servers come from the newest
  option of their code whatever its length, so that an address option that is not four bytes long
  hides an older one that is and leaves the field empty.  Nothing else in the option area matters.
\<close>

theorem parse_reply_refines:
  "parse_reply buf xid =
     (let r = reply_of (offered buf) (options (drop 240 buf))
      in if bootreply buf xid \<and> r_msg_type r \<noteq> 0 then Some r else None)"
  using parse_reply_accepts[of buf xid] parse_reply_rejects[of buf xid] by (simp add: Let_def)

section \<open>Written options read back\<close>

text \<open>An option as a server writes it, after any number of pads.\<close>

definition write_option :: "nat \<times> dhcp_option \<Rightarrow> u8 list" where
  "write_option x = (case x of (pads, c, v) \<Rightarrow> replicate pads 0 @ c # of_nat (length v) # v)"

definition writable :: "nat \<times> dhcp_option \<Rightarrow> bool" where
  "writable x \<longleftrightarrow> (case x of (pads, c, v) \<Rightarrow> c \<noteq> 0 \<and> c \<noteq> OPT_END \<and> length v < 256)"

lemma OPT_END_not_0 [simp]: "OPT_END \<noteq> 0"
  by (simp add: OPT_END_def)

lemma options_pads [simp]: "options (replicate n 0 @ bs) = options bs"
  by (induction n) (simp_all add: options.simps(2) OPT_END_not_0[symmetric])

lemma options_write: "writable x \<Longrightarrow> options (write_option x @ bs) = snd x # options bs"
  by (auto simp: writable_def write_option_def options.simps(2) unsigned_of_nat take_bit_nat_eq_self)

lemma options_written:
  "list_all writable os \<Longrightarrow> options (concat (map write_option os) @ OPT_END # junk) = map snd os"
  by (induction os) (simp_all add: options_write options.simps(2))

text \<open>The six fixed parts of the header around the ones that matter.\<close>

definition boot_header :: "u8 \<Rightarrow> u8 list \<Rightarrow> u32 \<Rightarrow> u8 list \<Rightarrow> Ipv4Addr \<Rightarrow> u8 list \<Rightarrow> u8 list" where
  "boot_header op hw xid flags yi rest = op # hw @ to_be_bytes xid @ flags @ octets yi @ rest @ MAGIC_COOKIE"

lemma be32_to_be_bytes: "be32 (ucast (drop_bit 24 x)) (ucast (drop_bit 16 x)) (ucast (drop_bit 8 x)) (ucast x) = x"
proof (rule bit_word_eqI)
  fix n assume "n < LENGTH(32)"
  then consider "n < 8" | "8 \<le> n" "n < 16" | "16 \<le> n" "n < 24" | "24 \<le> n" "n < 32"
    by (cases "n < 8"; cases "n < 16"; cases "n < 24") auto
  then show "bit (be32 (ucast (drop_bit 24 x)) (ucast (drop_bit 16 x)) (ucast (drop_bit 8 x)) (ucast x)) n \<longleftrightarrow> bit x n"
    by cases (auto simp: be32_def bit_simps)
qed

lemma boot_header_reads:
  assumes "length hw = 3" "length flags = 8" "length rest = 216"
  shows "bootreply (boot_header op hw xid flags yi rest @ area) xid' \<longleftrightarrow> op = OP_REPLY \<and> xid = xid'"
    "offered (boot_header op hw xid flags yi rest @ area) = yi"
    "drop 240 (boot_header op hw xid flags yi rest @ area) = area"
proof -
  obtain h1 h2 h3 where hw: "hw = [h1, h2, h3]"
    using assms(1) by (auto simp: numeral_eq_Suc length_Suc_conv)
  obtain f1 f2 f3 f4 f5 f6 f7 f8 where flags: "flags = [f1, f2, f3, f4, f5, f6, f7, f8]"
    using assms(2) by (auto simp: numeral_eq_Suc length_Suc_conv)
  obtain a b c d where yi: "yi = Ipv4 a b c d" by (cases yi)
  note s = boot_header_def hw flags yi to_be_bytes_def
  have l: "length (boot_header op hw xid flags yi rest) = 240"
    by (simp add: s assms(3) MAGIC_COOKIE_def)
  then show "drop 240 (boot_header op hw xid flags yi rest @ area) = area"
    by simp
  show "offered (boot_header op hw xid flags yi rest @ area) = yi"
    by (simp add: offered_def s)
  have "slice 236 240 (boot_header op hw xid flags yi rest @ area) = MAGIC_COOKIE"
    using l by (simp add: slice_def) (simp add: s assms(3))
  moreover have "be32 (boot_header op hw xid flags yi rest ! 4) (boot_header op hw xid flags yi rest ! 5)
      (boot_header op hw xid flags yi rest ! 6) (boot_header op hw xid flags yi rest ! 7) = xid"
    by (simp add: s be32_to_be_bytes)
  moreover have "boot_header op hw xid flags yi rest ! 0 = op"
    by (simp add: boot_header_def)
  ultimately show "bootreply (boot_header op hw xid flags yi rest @ area) xid' \<longleftrightarrow> op = OP_REPLY \<and> xid = xid'"
    using l by (auto simp: bootreply_def nth_append)
qed

lemma newest_of_distinct:
  assumes "distinct (map fst os)"
  shows "newest code P os = (case map_of os code of None \<Rightarrow> None | Some v \<Rightarrow> if P v then Some v else None)"
  using assms
proof (induction os rule: rev_induct)
  case Nil
  then show ?case by (simp add: newest_simps)
next
  case (snoc x os)
  obtain c v where x: "x = (c, v)" by (cases x)
  have "map_of os c = None"
    using snoc.prems x by (force simp: map_of_eq_None_iff)
  with snoc x show ?case
    by (auto simp: newest_simps map_add_def split: option.split)
qed

text \<open>
  A reply is read as the server wrote it: with the options in any order, each once, with pads
  between them, with options the client does not know and with bytes after END, the reader finds
  the address, the mask, the router, the name servers, the lease time and the server.
\<close>

theorem reply_roundtrip:
  assumes "length hw = 3" "length flags = 8" "length rest = 216"
    and "list_all writable os" "distinct (map (fst \<circ> snd) os)"
    and "map_of (map snd os) OPT_MSG_TYPE = Some [t]" "t \<noteq> 0"
    and "map_of (map snd os) OPT_SUBNET = map_option octets netmask"
    and "map_of (map snd os) OPT_ROUTER = map_option octets gw"
    and "map_of (map snd os) OPT_DNS = map_option (\<lambda>ds. concat (map octets ds)) dns"
    and "map_of (map snd os) OPT_LEASE = map_option to_be_bytes secs"
    and "map_of (map snd os) OPT_SERVER_ID = map_option octets sid"
  shows "parse_reply (boot_header OP_REPLY hw xid flags yi rest @ concat (map write_option os) @ OPT_END # junk) xid =
    Some \<lparr>r_msg_type = t, yiaddr = yi, r_subnet = netmask, r_router = gw, r_dns = or_default [] dns,
          r_lease_secs = or_default 0 secs, r_server_id = sid\<rparr>"
proof -
  have d: "distinct (map fst (map snd os))"
    using assms(5) by (simp add: o_def)
  have ip: "ipv4 (octets a) = Some a" for a by (cases a) simp
  have chunks: "List.map_filter ipv4 (chunks4 (concat (map octets ds))) = ds" for ds
  proof (induction ds)
    case (Cons a ds)
    then show ?case by (cases a) (simp add: List.map_filter_simps)
  qed (simp add: List.map_filter_simps)
  note f = newest_of_distinct[OF d] assms(6,8-12)
  have "reply_of yi (map snd os) =
      \<lparr>r_msg_type = t, yiaddr = yi, r_subnet = netmask, r_router = gw, r_dns = or_default [] dns,
       r_lease_secs = or_default 0 secs, r_server_id = sid\<rparr>"
    by (cases netmask; cases gw; cases dns; cases secs; cases sid)
      (simp_all add: reply_of_def f ip chunks to_be_bytes_def be32_to_be_bytes)
  then show ?thesis
    using boot_header_reads[OF assms(1-3)] options_written[OF assms(4)] assms(7)
    by (subst parse_reply_accepts) (simp_all del: drop_append)
qed

theorem reply_roundtrip_witness:
  "parse_reply (boot_header OP_REPLY [1, 6, 0] 0xDEADBEEF (replicate 8 0) (Ipv4 192 168 1 50) (replicate 216 0)
     @ concat (map write_option [(0, OPT_ROUTER, [192, 168, 1, 1]), (2, OPT_MSG_TYPE, [DHCP_ACK]), (1, 12, [7, 7]),
         (0, OPT_DNS, [8, 8, 8, 8, 1, 1, 1, 1])]) @ OPT_END # [0, 0]) 0xDEADBEEF =
   Some \<lparr>r_msg_type = DHCP_ACK, yiaddr = Ipv4 192 168 1 50, r_subnet = None, r_router = Some (Ipv4 192 168 1 1),
     r_dns = [Ipv4 8 8 8 8, Ipv4 1 1 1 1], r_lease_secs = 0, r_server_id = None\<rparr>"
  using reply_roundtrip[of "[1, 6, 0]" "replicate 8 0" "replicate 216 0"
      "[(0, OPT_ROUTER, [192, 168, 1, 1]), (2, OPT_MSG_TYPE, [DHCP_ACK]), (1, 12, [7, 7]),
        (0, OPT_DNS, [8, 8, 8, 8, 1, 1, 1, 1])]" DHCP_ACK None "Some (Ipv4 192 168 1 1)"
      "Some [Ipv4 8 8 8 8, Ipv4 1 1 1 1]" None None "0xDEADBEEF" "Ipv4 192 168 1 50" "[0, 0]"]
  by (simp add: dhcp_codes writable_def or_default_def)

section \<open>Leases\<close>

lemma count_ones_le: "count_ones x \<le> 32"
  using length_filter_le[of "bit x" "[0..<32]"] by (simp add: count_ones_def)

lemma mask_to_prefix_le: "unat (mask_to_prefix m) \<le> 32"
  using count_ones_le[of "ip_bits m"] by (simp add: mask_to_prefix_def unsigned_of_nat take_bit_nat_eq_self)

lemma unat_mask_to_prefix: "unat (mask_to_prefix m) = count_ones (ip_bits m)"
  using count_ones_le[of "ip_bits m"] by (simp add: mask_to_prefix_def unsigned_of_nat take_bit_nat_eq_self)

section \<open>The exchange takes what it asked for\<close>

text \<open>Read \<open>n\<close> brings a reply of this exchange.\<close>

definition heard :: "Sock \<Rightarrow> u32 \<Rightarrow> nat \<Rightarrow> DhcpReply \<Rightarrow> bool" where
  "heard sk xid n r \<longleftrightarrow> (\<exists>buf. s_recv sk n = Some buf \<and> parse_reply (take BUF_LEN buf) xid = Some r)"

lemma recv_loop_spec:
  "recv_loop k sk xid want w = (res, w') \<Longrightarrow>
   sent w' = sent w \<and> reads w \<le> reads w' \<and> reads w' \<le> reads w + k \<and>
   (\<forall>r. res = Some r \<longrightarrow> r_msg_type r = want \<and> (\<exists>n. reads w \<le> n \<and> n < reads w' \<and> heard sk xid n r))"
proof (induction k arbitrary: w)
  case 0
  then show ?case by simp
next
  case (Suc k)
  let ?w1 = "w\<lparr>reads := Suc (reads w)\<rparr>"
  show ?case
  proof (cases "s_recv sk (reads w)")
    case None
    with Suc.prems show ?thesis by (auto simp: sock_recv_def)
  next
    case (Some buf)
    have next_read: "sent w' = sent w \<and> reads w \<le> reads w' \<and> reads w' \<le> reads w + Suc k \<and>
        (\<forall>r. res = Some r \<longrightarrow> r_msg_type r = want \<and> (\<exists>n. reads w \<le> n \<and> n < reads w' \<and> heard sk xid n r))"
      if "recv_loop k sk xid want ?w1 = (res, w')"
      using Suc.IH[OF that] by (fastforce dest: Suc_leD)
    show ?thesis
    proof (cases "parse_reply (take BUF_LEN buf) xid")
      case None
      with Some Suc.prems next_read show ?thesis by (simp add: sock_recv_def)
    next
      case (Some r)
      with \<open>s_recv sk (reads w) = Some buf\<close> have h: "heard sk xid (reads w) r"
        by (auto simp: heard_def)
      consider "r_msg_type r = DHCP_NAK" | "r_msg_type r \<noteq> DHCP_NAK" "r_msg_type r = want"
        | "r_msg_type r \<noteq> DHCP_NAK" "r_msg_type r \<noteq> want" by blast
      then show ?thesis
      proof cases
        case 1
        with Some \<open>s_recv sk (reads w) = Some buf\<close> Suc.prems show ?thesis
          by (auto simp: sock_recv_def)
      next
        case 2
        with Some \<open>s_recv sk (reads w) = Some buf\<close> Suc.prems h show ?thesis
          by (auto simp: sock_recv_def intro!: exI[of _ "reads w"])
      next
        case 3
        with Some \<open>s_recv sk (reads w) = Some buf\<close> Suc.prems next_read show ?thesis
          by (simp add: sock_recv_def)
      qed
    qed
  qed
qed

definition discover :: "u32 \<Rightarrow> u8 list \<Rightarrow> u8 list" where
  "discover xid mac = build_packet DHCP_DISCOVER xid mac None None"

definition request_for :: "u32 \<Rightarrow> u8 list \<Rightarrow> DhcpReply \<Rightarrow> u8 list" where
  "request_for xid mac off = build_packet DHCP_REQUEST xid mac (Some (yiaddr off)) (r_server_id off)"

definition handshake :: "Sock \<Rightarrow> u32 \<Rightarrow> u8 list \<Rightarrow> Wired \<Rightarrow> DhcpLease \<Rightarrow> Wired \<Rightarrow> bool" where
  "handshake sk xid mac w lease w' \<longleftrightarrow>
     (\<exists>before off ack i j. sent w' = sent w @ before @ [discover xid mac, request_for xid mac off] \<and>
        r_msg_type off = DHCP_OFFER \<and> heard sk xid i off \<and>
        r_msg_type ack = DHCP_ACK \<and> heard sk xid j ack \<and>
        reads w \<le> i \<and> i < j \<and> j < reads w' \<and> lease = lease_of ack)"

lemma attempt_spec:
  assumes "attempt sk xid mac w = (res, w')"
  shows "\<exists>ps. sent w' = sent w @ ps \<and> length ps \<le> 2" "reads w \<le> reads w'" "reads w' \<le> reads w + 8"
    "res = Some (Inr lease) \<Longrightarrow> handshake sk xid mac w lease w'"
proof -
  let ?w1 = "w\<lparr>sent := sent w @ [discover xid mac]\<rparr>"
  have all: "(\<exists>ps. sent w' = sent w @ ps \<and> length ps \<le> 2) \<and> reads w \<le> reads w' \<and> reads w' \<le> reads w + 8 \<and>
    (res = Some (Inr lease) \<longrightarrow> handshake sk xid mac w lease w')"
  proof (cases "s_send sk (length (sent w))")
    case (Some e)
    with assms show ?thesis by (auto simp: attempt_def sock_send_def discover_def)
  next
    case None
    obtain o1 w2 where r: "recv_loop 4 sk xid DHCP_OFFER ?w1 = (o1, w2)"
      by (cases "recv_loop 4 sk xid DHCP_OFFER ?w1")
    note sp = recv_loop_spec[OF r]
    show ?thesis
    proof (cases o1)
      case o1: None
      with assms None r sp show ?thesis
        by (auto simp: attempt_def sock_send_def recv_reply_def discover_def)
    next
      case off: (Some off)
      let ?w3 = "w2\<lparr>sent := sent w2 @ [request_for xid mac off]\<rparr>"
      show ?thesis
      proof (cases "s_send sk (length (sent w2))")
        case (Some e)
        with assms None r sp off show ?thesis
          by (auto simp: attempt_def sock_send_def recv_reply_def discover_def)
      next
        case sent2: None
        obtain a w4 where r4: "recv_loop 4 sk xid DHCP_ACK ?w3 = (a, w4)"
          by (cases "recv_loop 4 sk xid DHCP_ACK ?w3")
        have res: "w' = w4" "res = (case a of None \<Rightarrow> None | Some x \<Rightarrow> Some (Inr (lease_of x)))"
          using assms None r off sent2 r4
          by (auto simp: attempt_def sock_send_def recv_reply_def discover_def request_for_def split: option.splits)
        note sp4 = recv_loop_spec[OF r4]
        have "handshake sk xid mac w lease w'" if lease: "res = Some (Inr lease)"
        proof -
          obtain ack where a: "a = Some ack" "lease = lease_of ack"
            using lease res(2) by (cases a) auto
          obtain i where i: "reads w \<le> i" "i < reads w2" "heard sk xid i off"
            using sp off by auto
          obtain j where j: "reads w2 \<le> j" "j < reads w4" "heard sk xid j ack"
            using sp4 a by auto
          show ?thesis
            unfolding handshake_def
            by (rule exI[of _ "[]"], rule exI[of _ off], rule exI[of _ ack], rule exI[of _ i], rule exI[of _ j])
              (use sp sp4 off a i j res in auto)
        qed
        then show ?thesis
          using sp sp4 res by auto
      qed
    qed
  qed
  then show "\<exists>ps. sent w' = sent w @ ps \<and> length ps \<le> 2" "reads w \<le> reads w'" "reads w' \<le> reads w + 8"
    "res = Some (Inr lease) \<Longrightarrow> handshake sk xid mac w lease w'" by auto
qed

lemma handshake_later:
  "sent w1 = sent w @ ps \<Longrightarrow> reads w \<le> reads w1 \<Longrightarrow> handshake sk xid mac w1 lease w' \<Longrightarrow> handshake sk xid mac w lease w'"
  unfolding handshake_def
  by (elim exE, intro exI[of _ "ps @ _"] exI, elim conjE, intro conjI) (assumption | simp)+

lemma attempts_spec:
  "attempts k sk xid mac w = (res, w') \<Longrightarrow>
   (\<exists>ps. sent w' = sent w @ ps \<and> length ps \<le> 2 * k) \<and> reads w \<le> reads w' \<and> reads w' \<le> reads w + 8 * k \<and>
   (res = Inr lease \<longrightarrow> handshake sk xid mac w lease w')"
proof (induction k arbitrary: w)
  case 0
  then show ?case by auto
next
  case (Suc k)
  obtain r1 w1 where a: "attempt sk xid mac w = (r1, w1)"
    by (cases "attempt sk xid mac w")
  obtain ps where ps: "sent w1 = sent w @ ps" "length ps \<le> 2"
    using attempt_spec(1)[OF a] by blast
  note rd = attempt_spec(2,3)[OF a]
  show ?case
  proof (cases r1)
    case None
    then have b: "attempts k sk xid mac w1 = (res, w')"
      using Suc.prems a by simp
    obtain qs where "sent w' = sent w1 @ qs" "length qs \<le> 2 * k"
      using Suc.IH[OF b] by blast
    then have "sent w' = sent w @ (ps @ qs)" "length (ps @ qs) \<le> 2 * Suc k"
      using ps by simp_all
    then show ?thesis
      using Suc.IH[OF b] rd handshake_later[OF ps(1)] by (intro conjI exI[of _ "ps @ qs"]) auto
  next
    case (Some r)
    with Suc.prems a have "res = r" "w' = w1" by auto
    with Some show ?thesis
      using ps rd attempt_spec(4)[OF a, of lease] by auto
  qed
qed

lemma handshake_prefix: "handshake sk xid mac w lease w' \<Longrightarrow> unat (l_prefix lease) \<le> 32"
  by (auto simp: handshake_def lease_of_def or_default_def mask_to_prefix_le split: option.split)

lemma acquire_attempts:
  "acquire_lease addr open_err sk xid tries w = (Inr lease, w') \<Longrightarrow> \<exists>mac. read_mac addr = Inr mac \<and> handshake sk xid mac w lease w'"
  using attempts_spec by (fastforce simp: acquire_lease_def split: sum.splits option.splits)

lemma acquire_prefix: "acquire_lease addr open_err sk xid tries w = (Inr lease, w') \<Longrightarrow> unat (l_prefix lease) \<le> 32"
  using acquire_attempts handshake_prefix by blast

text \<open>
  C14. A lease is never made up: when the client ends with one, the last two packets it sent are
  its DISCOVER and a REQUEST for the address and the server of an OFFER it had read, and the lease
  is the content of an ACK with the transaction id of the exchange, read after that OFFER; its
  prefix length is at most 32.  The id is the same in all attempts, and neither the server nor the
  address of the ACK is compared with the REQUEST, so an ACK that answers the REQUEST of an earlier
  attempt is taken as well.  In every case the client sends at most two packets and reads at most
  eight for each of the \<open>max(tries, 1)\<close> attempts, so it ends.
\<close>

theorem acquire_handshake:
  "let (res, w') = acquire_lease addr open_err sk xid tries w; k = unat (max tries 1) in
     (\<forall>lease. res = Inr lease \<longrightarrow> (\<exists>mac. read_mac addr = Inr mac \<and> handshake sk xid mac w lease w')
        \<and> unat (l_prefix lease) \<le> 32) \<and>
     (\<exists>ps. sent w' = sent w @ ps \<and> length ps \<le> 2 * k) \<and> reads w \<le> reads w' \<and> reads w' \<le> reads w + 8 * k"
proof -
  obtain res w' where a: "acquire_lease addr open_err sk xid tries w = (res, w')"
    by (cases "acquire_lease addr open_err sk xid tries w")
  have "(\<exists>ps. sent w' = sent w @ ps \<and> length ps \<le> 2 * unat (max tries 1)) \<and> reads w \<le> reads w'
      \<and> reads w' \<le> reads w + 8 * unat (max tries 1)"
    using a attempts_spec[of "unat (max tries 1)" sk xid _ w res w']
    by (auto simp: acquire_lease_def split: sum.splits option.splits)
  then show ?thesis
    using a acquire_attempts acquire_prefix by auto
qed

text \<open>
  On a silent network the client gives up: it has sent one DISCOVER for each attempt and no
  REQUEST, and the error is a timeout.
\<close>

theorem acquire_times_out:
  assumes "read_mac addr = Inr mac" "\<forall>n. s_recv sk n = None" "\<forall>n. s_send sk n = None"
  shows "acquire_lease addr None sk xid tries w =
    (Inl ''DHCP: no OFFER/ACK after retries'',
     w\<lparr>sent := sent w @ replicate (unat (max tries 1)) (discover xid mac), reads := reads w + unat (max tries 1)\<rparr>)"
proof -
  have "attempts k sk xid mac w = (Inl ''DHCP: no OFFER/ACK after retries'',
      w\<lparr>sent := sent w @ replicate k (discover xid mac), reads := reads w + k\<rparr>)" for k
  proof (induction k arbitrary: w)
    case (Suc k)
    have r: "recv_loop 4 sk xid t v = (None, v\<lparr>reads := Suc (reads v)\<rparr>)" for t v
      using assms(2) by (simp add: numeral_eq_Suc sock_recv_def)
    show ?case
      using Suc assms(3) by (simp add: attempt_def sock_send_def recv_reply_def r discover_def replicate_append_same)
  qed simp
  with assms(1) show ?thesis
    by (simp add: acquire_lease_def)
qed

theorem acquire_times_out_witness:
  "let sk = \<lparr>s_recv = \<lambda>n. None, s_send = \<lambda>n. None\<rparr>
   in length (sent (snd (acquire_lease (Inr ''02:00:00:00:00:0a'') None sk 7 4 \<lparr>reads = 0, sent = []\<rparr>))) = 4"
proof -
  have "read_mac (Inr ''02:00:00:00:00:0a'') = Inr [2, 0, 0, 0, 0, 10]" by code_simp
  from acquire_times_out[OF this, of "\<lparr>s_recv = \<lambda>n. None, s_send = \<lambda>n. None\<rparr>" 7 4 "\<lparr>reads = 0, sent = []\<rparr>"]
  show ?thesis by (simp add: max_def word_le_nat_alt)
qed

section \<open>The packets sent\<close>

lemma mac_parts_length: "mac_parts i ps mac = Some mac' \<Longrightarrow> length mac' = length mac"
  by (induction i ps mac rule: mac_parts.induct) (auto split: if_splits option.splits)

lemma read_mac_length: "read_mac addr = Inr mac \<Longrightarrow> length mac = 6"
  by (auto simp: read_mac_def dest!: mac_parts_length split: sum.splits option.splits)

text \<open>The header of a packet, spelled out.\<close>

definition client_header :: "u32 \<Rightarrow> u8 list \<Rightarrow> u8 list" where
  "client_header xid mac = [OP_REQUEST, HTYPE_ETHER, HLEN_ETHER, 0] @ to_be_bytes xid @ [0, 0, 0x80, 0]
     @ replicate 16 0 @ mac @ replicate 202 0 @ MAGIC_COOKIE"

lemma replicate_240: "replicate 240 (0 :: u8) = replicate 4 0 @ replicate 4 0 @ [0, 0, 0, 0] @ replicate 16 0 @
    replicate 6 0 @ replicate 202 0 @ replicate 4 0"
proof -
  have "[0, 0, 0, 0] = replicate 4 (0 :: u8)" by (simp add: numeral_eq_Suc)
  then show ?thesis by (simp flip: replicate_add)
qed

lemma copy_at_middle: "i = length a \<Longrightarrow> length x = length b \<Longrightarrow> copy_at i x (a @ b @ c) = a @ x @ c"
  by (simp add: copy_at_def)

lemma built_header:
  assumes "length mac = 6"
  shows "build_packet t xid mac ip sid = client_header xid mac @ drop 240 (build_packet t xid mac ip sid)"
proof -
  let ?z = "\<lambda>n. replicate n (0 :: u8)"
  let ?p1 = "[OP_REQUEST, HTYPE_ETHER, HLEN_ETHER, 0] @ ?z 4 @ ([0, 0, 0, 0] @ ?z 16 @ ?z 6 @ ?z 202 @ ?z 4)"
  have "(?z 240)[0 := OP_REQUEST, 1 := HTYPE_ETHER, 2 := HLEN_ETHER, 3 := 0] = ?p1"
    unfolding replicate_240 by (simp add: numeral_eq_Suc)
  moreover have "copy_at 4 (to_be_bytes xid) ?p1 =
      [OP_REQUEST, HTYPE_ETHER, HLEN_ETHER, 0] @ to_be_bytes xid @ [0, 0, 0, 0] @ ?z 16 @ ?z 6 @ ?z 202 @ ?z 4"
    by (rule copy_at_middle) (simp_all add: to_be_bytes_def)
  moreover have "(\<dots>)[10 := 0x80, 11 := 0] =
      ([OP_REQUEST, HTYPE_ETHER, HLEN_ETHER, 0] @ to_be_bytes xid @ [0, 0, 0x80, 0] @ ?z 16) @ ?z 6 @ (?z 202 @ ?z 4)"
    by (simp add: to_be_bytes_def list_update_append)
  moreover have "copy_at 28 mac \<dots> =
      ([OP_REQUEST, HTYPE_ETHER, HLEN_ETHER, 0] @ to_be_bytes xid @ [0, 0, 0x80, 0] @ ?z 16 @ mac @ ?z 202) @ ?z 4 @ []"
    using copy_at_middle[of 28 "[OP_REQUEST, HTYPE_ETHER, HLEN_ETHER, 0] @ to_be_bytes xid @ [0, 0, 0x80, 0] @ ?z 16"
        mac "?z 6" "?z 202 @ ?z 4"] assms by (simp add: to_be_bytes_def)
  moreover have "copy_at 236 MAGIC_COOKIE \<dots> = client_header xid mac"
    unfolding client_header_def
    by (subst copy_at_middle) (simp_all add: to_be_bytes_def assms MAGIC_COOKIE_def)
  moreover have "length (client_header xid mac) = 240"
    by (simp add: client_header_def to_be_bytes_def assms MAGIC_COOKIE_def)
  ultimately show ?thesis
    by (simp add: build_packet_def Let_def)
qed

lemma option_step:
  "code \<noteq> OPT_END \<Longrightarrow> code \<noteq> 0 \<Longrightarrow> unat n = length v \<Longrightarrow> options (code # n # v @ bs) = (code, v) # options bs"
  by (simp add: options.simps(2))

text \<open>
  Every packet of the client is a BOOTREQUEST with its transaction id, the broadcast flag and
  the hardware address of the interface, and the option list a server reads from it is the message
  type, the requested address and the chosen server when they are given, and the four options the
  client wants; the client never takes a packet of its own for a reply.
\<close>

theorem packet_reads:
  assumes "read_mac addr = Inr mac"
  shows "slice 0 240 (build_packet t xid mac ip sid) = client_header xid mac \<and>
    options (drop 240 (build_packet t xid mac ip sid)) = [(OPT_MSG_TYPE, [t])]
      @ (case ip of None \<Rightarrow> [] | Some a \<Rightarrow> [(OPT_REQUESTED_IP, octets a)])
      @ (case sid of None \<Rightarrow> [] | Some a \<Rightarrow> [(OPT_SERVER_ID, octets a)])
      @ [(OPT_PARAM_LIST, [OPT_SUBNET, OPT_ROUTER, OPT_DNS, OPT_LEASE])] \<and>
    parse_reply (build_packet t xid mac ip sid) xid' = None"
proof -
  have l: "length mac = 6" using assms by (rule read_mac_length)
  have h: "length (client_header xid mac) = 240"
    by (simp add: client_header_def to_be_bytes_def l MAGIC_COOKIE_def)
  have oct: "length (octets a) = 4" for a by (cases a) simp
  let ?opts = "OPT_MSG_TYPE # 1 # [t] @ (case ip of None \<Rightarrow> [] | Some ip \<Rightarrow> [OPT_REQUESTED_IP, 4] @ octets ip)
      @ (case sid of None \<Rightarrow> [] | Some sid \<Rightarrow> [OPT_SERVER_ID, 4] @ octets sid)
      @ OPT_PARAM_LIST # 4 # [OPT_SUBNET, OPT_ROUTER, OPT_DNS, OPT_LEASE] @ [OPT_END]"
  have "length (build_packet t xid mac ip sid) = 240 + length ?opts"
    using l by (simp add: build_packet_def Let_def copy_at_def to_be_bytes_def MAGIC_COOKIE_def)
  then have d: "drop 240 (build_packet t xid mac ip sid) = ?opts"
    by (simp add: build_packet_def Let_def)
  have nz: "OPT_MSG_TYPE \<notin> {0, OPT_END}" "OPT_REQUESTED_IP \<notin> {0, OPT_END}" "OPT_SERVER_ID \<notin> {0, OPT_END}"
    "OPT_PARAM_LIST \<notin> {0, OPT_END}"
    by (simp_all add: dhcp_codes)
  have o4: "options (OPT_PARAM_LIST # 4 # [OPT_SUBNET, OPT_ROUTER, OPT_DNS, OPT_LEASE] @ [OPT_END]) =
      [(OPT_PARAM_LIST, [OPT_SUBNET, OPT_ROUTER, OPT_DNS, OPT_LEASE])]"
    by (subst option_step) (use nz in \<open>simp_all add: options.simps(2)\<close>)
  have o3: "options ((case sid of None \<Rightarrow> [] | Some s \<Rightarrow> [OPT_SERVER_ID, 4] @ octets s) @ bs) =
      (case sid of None \<Rightarrow> [] | Some s \<Rightarrow> [(OPT_SERVER_ID, octets s)]) @ options bs" for bs
    using option_step[of OPT_SERVER_ID 4 "octets s" bs for s] nz oct by (cases sid) simp_all
  have o2: "options ((case ip of None \<Rightarrow> [] | Some s \<Rightarrow> [OPT_REQUESTED_IP, 4] @ octets s) @ bs) =
      (case ip of None \<Rightarrow> [] | Some s \<Rightarrow> [(OPT_REQUESTED_IP, octets s)]) @ options bs" for bs
    using option_step[of OPT_REQUESTED_IP 4 "octets s" bs for s] nz oct by (cases ip) simp_all
  have o1: "options (OPT_MSG_TYPE # 1 # [t] @ bs) = (OPT_MSG_TYPE, [t]) # options bs" for bs
    by (rule option_step) (use nz in simp_all)
  have "options ?opts = [(OPT_MSG_TYPE, [t])]
      @ (case ip of None \<Rightarrow> [] | Some a \<Rightarrow> [(OPT_REQUESTED_IP, octets a)])
      @ (case sid of None \<Rightarrow> [] | Some a \<Rightarrow> [(OPT_SERVER_ID, octets a)])
      @ [(OPT_PARAM_LIST, [OPT_SUBNET, OPT_ROUTER, OPT_DNS, OPT_LEASE])]"
    by (simp only: o1 o2 o3 o4) simp
  moreover have "build_packet t xid mac ip sid ! 0 = OP_REQUEST"
    by (subst built_header[OF l]) (simp add: client_header_def)
  then have "parse_reply (build_packet t xid mac ip sid) xid' = None"
    by (simp add: parse_reply_def OP_REQUEST_def OP_REPLY_def)
  moreover have "slice 0 240 (build_packet t xid mac ip sid) = client_header xid mac"
    by (subst built_header[OF l]) (simp add: slice_def h)
  ultimately show ?thesis using d by simp
qed

theorem packet_reads_witness:
  "options (drop 240 (build_packet DHCP_REQUEST 7 [2, 0, 0, 0, 0, 10] (Some (Ipv4 10 0 0 5)) None)) =
     [(OPT_MSG_TYPE, [DHCP_REQUEST]), (OPT_REQUESTED_IP, [10, 0, 0, 5]),
      (OPT_PARAM_LIST, [OPT_SUBNET, OPT_ROUTER, OPT_DNS, OPT_LEASE])]"
proof -
  have "read_mac (Inr ''02:00:00:00:00:0a'') = Inr [2, 0, 0, 0, 0, 10]" by code_simp
  from packet_reads[OF this, of DHCP_REQUEST 7 "Some (Ipv4 10 0 0 5)" None 7] show ?thesis by simp
qed

end
