(* ===== verification/HalNet.thy ===== *)
theory HalNet
  imports Dhcp "HOL-Library.Monad_Syntax"
begin

text \<open>
  The rest of \<open>wandr-hal-net\<close>: the text of an IPv4 address, the connected route of an
  address (\<open>lib.rs\<close>), the networks saved by the framework (\<open>parse_saved_creds\<close>)
  and the calls that hand a lease to netd and to the DNS resolver (\<open>netd.rs\<close>).

  netd and the resolver are not part of the program: whether each is there, and whether each call
  to it succeeds, are arguments, and the calls are a list.
\<close>

section \<open>The text of an address\<close>

fun show_ip :: "Ipv4Addr \<Rightarrow> string" where
  "show_ip (Ipv4 a b c d) =
     show_nat (unat a) @ ''.'' @ show_nat (unat b) @ ''.'' @ show_nat (unat c) @ ''.'' @ show_nat (unat d)"

text \<open>\<open>Ipv4Addr::from_str\<close>: four decimal numbers below 256, without leading zeros.\<close>

definition parse_octet :: "string \<Rightarrow> u8 option" where
  "parse_octet s =
     (if s = [] \<or> length s > 3 \<or> (length s > 1 \<and> hd s = CHR ''0'') then None
      else Option.bind (read_digits 0 s) (\<lambda>n. if n < 256 then Some (of_nat n) else None))"

definition parse_ip :: "string \<Rightarrow> Ipv4Addr option" where
  "parse_ip s =
     (case map parse_octet (split_char (CHR ''.'') s) of
        [Some a, Some b, Some c, Some d] \<Rightarrow> Some (Ipv4 a b c d)
      | _ \<Rightarrow> None)"

lemma show_nat_digit_count: "n < 10 ^ k \<Longrightarrow> 0 < k \<Longrightarrow> length (show_nat n) \<le> k"
proof (induction k arbitrary: n)
  case (Suc k)
  show ?case
  proof (cases "n < 10")
    case False
    with Suc.prems have "n div 10 < 10 ^ k" "0 < k"
      by (cases k; auto simp: less_mult_imp_div_less)+
    with Suc.IH[of "n div 10"] False show ?thesis
      by (simp add: show_nat.simps[of n])
  qed (simp add: show_nat.simps[of n])
qed simp

lemma show_nat_leading: "10 \<le> n \<Longrightarrow> hd (show_nat n) \<noteq> CHR ''0''"
proof (induction n rule: less_induct)
  case (less n)
  show ?case
  proof (cases "n div 10 < 10")
    case True
    have "hd (show_nat n) = digit_char (n div 10)"
      using less.prems True by (simp add: show_nat.simps[of n] show_nat.simps[of "n div 10"])
    moreover have "byte (digit_char (n div 10)) \<noteq> byte (CHR ''0'')"
      using less.prems True by (simp add: div_eq_0_iff)
    ultimately show ?thesis by metis
  next
    case False
    then show ?thesis
      using less.IH[of "n div 10"] less.prems by (simp add: show_nat.simps[of n])
  qed
qed

lemma show_nat_length: "n < 256 \<Longrightarrow> length (show_nat n) \<le> 3 \<and> (1 < length (show_nat n) \<longrightarrow> hd (show_nat n) \<noteq> CHR ''0'')"
  using show_nat_digit_count[of n 3] show_nat_leading[of n]
  by (cases "n < 10") (auto simp: show_nat.simps[of n])

lemma parse_octet_show [simp]: "parse_octet (show_nat (unat (a :: u8))) = Some a"
  using show_nat_length[of "unat a"] unsigned_less[of a]
  by (auto simp: parse_octet_def)

lemma no_dot: "CHR ''.'' \<notin> set (show_nat n)"
  using set_show_nat[of "CHR ''.''" n] by (auto dest!: arg_cong[of _ _ "of_char :: char \<Rightarrow> nat"])

lemma parse_show_ip [simp]: "parse_ip (show_ip a) = Some a"
  by (cases a) (simp add: parse_ip_def split_char_append split_char_none no_dot)

lemma token_show_ip [simp]: "token (show_ip a)"
proof -
  have "\<forall>c \<in> set (show_nat n). plain c" for n
    using token_show_nat[of n] by (simp add: token_def)
  then show ?thesis by (cases a) (auto simp: token_def plain_def)
qed

section \<open>The connected route\<close>

text \<open>\<open>u32::MAX << (32 - prefix)\<close> and the address under the mask; beyond 32 the subtraction overflows.\<close>

definition subnet_cidr :: "Ipv4Addr \<Rightarrow> u8 \<Rightarrow> string option" where
  "subnet_cidr ip prefix =
     (if 32 < unat prefix then None
      else
        (let m = (if prefix = 0 then 0 else push_bit (32 - unat prefix) (- 1 :: u32))
         in Some (show_ip (ip_of_bits (ip_bits ip AND m)) @ ''/'' @ show_nat (unat prefix))))"

text \<open>A subnet mask: \<open>n\<close> ones, then zeros.\<close>

definition mask_of :: "nat \<Rightarrow> u32" where
  "mask_of n = push_bit (32 - n) (mask n)"

lemma ip_of_bits_inverse [simp]: "ip_bits (ip_of_bits x) = x"
  by (simp add: ip_of_bits_def be32_to_be_bytes)

lemma bit_mask_of: "n \<le> 32 \<Longrightarrow> k < 32 \<Longrightarrow> bit (mask_of n) k \<longleftrightarrow> 32 - n \<le> k"
  by (auto simp: mask_of_def bit_simps)

lemma count_mask_of: "n \<le> 32 \<Longrightarrow> count_ones (mask_of n) = n"
proof -
  assume n: "n \<le> 32"
  have "filter (bit (mask_of n)) [0..<32] = filter (\<lambda>k. 32 - n \<le> k) [0..<32]"
    using n by (intro filter_cong) (simp_all add: bit_mask_of)
  also have "\<dots> = [32 - n..<32]"
  proof -
    have "[0..<32] = [0..<32 - n] @ [32 - n..<32]"
      using upt_add_eq_append[of 0 "32 - n" n] n by simp
    then show ?thesis
      by (simp add: filter_empty_conv)
  qed
  finally show ?thesis using n by (simp add: count_ones_def)
qed

lemma prefix_mask: "n \<le> 32 \<Longrightarrow> (if n = 0 then 0 else push_bit (32 - n) (- 1 :: u32)) = mask_of n"
  by (rule bit_word_eqI) (auto simp: mask_of_def bit_simps)

text \<open>
  The route netd gets for a lease is the leased network: for every subnet mask of ones
  followed by zeros the prefix is the number of ones and the connected route is the address under
  the mask, and no mask a server may send makes the shift overflow.
\<close>

theorem connected_route:
  assumes "n \<le> 32" "ip_bits m = mask_of n"
  shows "mask_to_prefix m = of_nat n \<and>
    subnet_cidr ip (mask_to_prefix m) = Some (show_ip (ip_of_bits (ip_bits ip AND ip_bits m)) @ ''/'' @ show_nat n) \<and>
    subnet_cidr ip (mask_to_prefix m') \<noteq> None"
proof -
  have p: "mask_to_prefix m = of_nat n"
    using assms by (simp add: mask_to_prefix_def count_mask_of)
  have u: "unat (of_nat n :: u8) = n"
    using assms(1) by (simp add: unsigned_of_nat take_bit_nat_eq_self)
  moreover have "of_nat n = (0 :: u8) \<longleftrightarrow> n = 0"
    using unsigned_eq_0_iff[of "of_nat n :: u8", where 'a = nat] unfolding u by simp
  ultimately have "subnet_cidr ip (of_nat n) = Some (show_ip (ip_of_bits (ip_bits ip AND mask_of n)) @ ''/'' @ show_nat n)"
    using assms(1) prefix_mask[OF assms(1)]
    by (simp add: subnet_cidr_def Let_def del: push_bit_minus_one_eq_not_mask) (simp split: if_splits)
  moreover have "subnet_cidr ip (mask_to_prefix m') \<noteq> None"
    using mask_to_prefix_le[of m'] by (simp add: subnet_cidr_def Let_def)
  ultimately show ?thesis
    using assms(2) p by simp
qed

theorem connected_route_witness:
  "subnet_cidr (Ipv4 192 168 1 179) (mask_to_prefix (Ipv4 255 255 252 0)) = Some ''192.168.0.0/22''"
proof -
  have m: "ip_bits (Ipv4 255 255 252 0) = mask_of 22"
    by (simp add: be32_def mask_of_def mask_eq_exp_minus_1 push_bit_eq_mult)
  have "show_ip (ip_of_bits (ip_bits (Ipv4 192 168 1 179) AND ip_bits (Ipv4 255 255 252 0))) @ ''/'' @ show_nat 22
      = ''192.168.0.0/22''"
    by code_simp
  moreover have "subnet_cidr (Ipv4 192 168 1 179) (mask_to_prefix (Ipv4 255 255 252 0)) =
      Some (show_ip (ip_of_bits (ip_bits (Ipv4 192 168 1 179) AND ip_bits (Ipv4 255 255 252 0))) @ ''/'' @ show_nat 22)"
    by (rule conjunct1[OF conjunct2[OF connected_route[OF _ m]]]) simp
  ultimately show ?thesis by simp
qed

section \<open>The networks the framework saved\<close>

record WifiCreds =
  c_ssid :: string
  c_psk :: string

text \<open>\<open>s.replace(p, r)\<close> for a pattern that is not empty.\<close>

fun replace_str :: "string \<Rightarrow> string \<Rightarrow> string \<Rightarrow> string" where
  "replace_str p r [] = []"
| "replace_str p r (c # cs) =
     (if starts_with p (c # cs) then r @ replace_str p r (drop (length p - 1) cs)
      else c # replace_str p r cs)"

text \<open>\<open>s.split(p)\<close> for a pattern that is not empty.\<close>

function split_str :: "string \<Rightarrow> string \<Rightarrow> string list" where
  "split_str p s =
     (if p = [] then [s]
      else (case find_sub p s of
              None \<Rightarrow> [s]
            | Some i \<Rightarrow> take i s # split_str p (drop (i + length p) s)))"
  by pat_completeness auto

lemma find_sub_bound: "find_sub p s = Some i \<Longrightarrow> i + length p \<le> length s"
proof (induction s arbitrary: i)
  case Nil
  then show ?case by (auto split: if_splits)
next
  case (Cons c cs)
  then show ?case
    by (auto simp: starts_with_iff split: if_splits) (metis length_Cons length_append le_add1)
qed

lemma find_sub_rest: "p \<noteq> [] \<Longrightarrow> find_sub p s = Some i \<Longrightarrow> length (drop (i + length p) s) < length s"
  using find_sub_bound[of p s i] by (cases p) auto

termination split_str
  by (relation "measure (\<lambda>(p, s). length s)") (use find_sub_rest in auto)

declare split_str.simps [simp del]

definition quot :: string where "quot = ''&quot;''"

definition unescape :: "string \<Rightarrow> string" where
  "unescape s =
     trim (replace_str ''&apos;'' [CHR 0x27] (replace_str ''&gt;'' ''>'' (replace_str ''&lt;'' ''<''
       (replace_str ''&amp;'' ''&'' (replace_str quot [] s)))))"

definition field_key :: "string \<Rightarrow> string" where
  "field_key name = ''name='' @ [CHR 0x22] @ name @ [CHR 0x22] @ ''>''"

definition xml_field :: "string \<Rightarrow> string \<Rightarrow> string option" where
  "xml_field block name = do {
     i \<leftarrow> find_sub (field_key name) block;
     let rest = drop (i + length (field_key name)) block;
     e \<leftarrow> find_sub ''</string>'' rest;
     Some (unescape (take e rest))
   }"

definition parse_block :: "string \<Rightarrow> WifiCreds option" where
  "parse_block block =
     (case (xml_field block ''SSID'', xml_field block ''PreSharedKey'') of
        (Some s, Some p) \<Rightarrow> if s \<noteq> [] \<and> p \<noteq> [] then Some \<lparr>c_ssid = s, c_psk = p\<rparr> else None
      | _ \<Rightarrow> None)"

definition parse_saved_creds :: "string \<Rightarrow> WifiCreds list" where
  "parse_saved_creds xml = List.map_filter parse_block (split_str ''</Network>'' xml)"

text \<open>The file is what \<open>read_to_string\<close> gives.\<close>

definition read_saved_creds :: "string + string \<Rightarrow> string + WifiCreds list" where
  "read_saved_creds file = map_sum id parse_saved_creds file"

text \<open>The \<open>carrier\<close> file of the interface, if it can be read.\<close>

definition has_carrier :: "string option \<Rightarrow> bool" where
  "has_carrier file = (case file of None \<Rightarrow> False | Some s \<Rightarrow> trim s = ''1'')"

section \<open>What the framework writes is read back\<close>

lemma find_sub_after:
  assumes "find_sub p x = None" "d \<notin> set (tl p)" "p \<noteq> []"
  shows "find_sub p (x @ d # y) = map_option (\<lambda>i. length x + i) (find_sub p (d # y))"
  using assms(1)
proof (induction x)
  case Nil
  then show ?case by (simp add: option.map_ident)
next
  case (Cons a x)
  have "starts_with p (a # x @ d # y) \<longleftrightarrow> starts_with p (a # x)"
  proof -
    obtain b bs where p: "p = b # bs" "d \<notin> set bs"
      using assms(2,3) by (cases p) auto
    have "starts_with bs (z @ d # y) \<longleftrightarrow> starts_with bs z" for z
      using p(2)
    proof (induction bs arbitrary: z)
      case (Cons b bs)
      then show ?case by (cases z) auto
    qed simp
    with p show ?thesis by simp
  qed
  with Cons show ?case
    by (auto simp: option.map_comp o_def split: if_splits)
qed

lemma find_sub_no_char: "q \<in> set p \<Longrightarrow> q \<notin> set v \<Longrightarrow> find_sub p v = None"
  by (induction v) (auto simp: starts_with_iff Cons_eq_append_conv dest: in_set_conv_decomp[THEN iffD1])

lemma replace_skip: "q \<notin> set t \<Longrightarrow> replace_str (q # e) r (t @ u) = t @ replace_str (q # e) r u"
  by (induction t) auto

lemma starts_with_blocks:
  assumes "\<forall>c \<in> set e. f c = [c]" "\<forall>c. f c = [c] \<or> (\<exists>t. f c = q # t)" "q \<notin> set e"
  shows "starts_with e (concat (map f s)) \<longleftrightarrow> starts_with e s"
  using assms(1,3)
proof (induction e arbitrary: s)
  case (Cons a e)
  show ?case
  proof (cases s)
    case s: (Cons c s')
    with Cons assms(2) show ?thesis
      by (cases "f c = [c]") (fastforce+)
  qed simp
qed simp

text \<open>Replacing one escape in a text where every character is itself or an escape.\<close>

lemma replace_block:
  assumes "\<forall>c \<in> set e. f c = [c]" "q \<notin> set e" "e \<noteq> []" "f x = q # e"
    and "\<forall>c. c \<noteq> x \<longrightarrow> f c = [c] \<or> (\<exists>t. f c = q # t \<and> q \<notin> set t \<and> (\<forall>u. \<not> starts_with e (t @ u)))"
    and "f q = [q] \<longrightarrow> find_sub (q # e) s = None"
  shows "replace_str (q # e) [x] (concat (map f s)) = concat (map (f(x := [x])) s)"
  using assms(6)
proof (induction s)
  case (Cons c s)
  have none: "f q = [q] \<longrightarrow> find_sub (q # e) s = None"
    using Cons.prems by (auto split: if_splits)
  have blocks: "\<forall>c. f c = [c] \<or> (\<exists>t. f c = q # t)"
  proof
    fix c show "f c = [c] \<or> (\<exists>t. f c = q # t)"
      by (cases "c = x") (use assms(4,5) in auto)
  qed
  consider "c = x" | "c \<noteq> x" "f c = [c]" | t where "c \<noteq> x" "f c = q # t" "q \<notin> set t" "\<forall>u. \<not> starts_with e (t @ u)"
    using assms(5) by blast
  then show ?case
  proof cases
    case 1
    then show ?thesis
      using Cons.IH[OF none] assms(4) by (simp add: starts_with_append)
  next
    case 2
    have "\<not> starts_with (q # e) (c # concat (map f s))"
      using 2 Cons.prems starts_with_blocks[OF assms(1) blocks assms(2), of s] by (auto split: if_splits)
    with 2 Cons.IH[OF none] show ?thesis by simp
  next
    case 3
    have "replace_str (q # e) [x] (t @ concat (map f s)) = t @ replace_str (q # e) [x] (concat (map f s))"
      using 3(3) by (rule replace_skip)
    then show ?thesis
      using 3 Cons.IH[OF none] by simp
  qed
qed simp

text \<open>The escapes of an XML writer.\<close>

definition xml_char :: "char \<Rightarrow> string" where
  "xml_char c =
     (if c = CHR ''&'' then ''&amp;''
      else if c = CHR ''<'' then ''&lt;''
      else if c = CHR ''>'' then ''&gt;''
      else if c = CHR 0x27 then ''&apos;''
      else if c = CHR 0x22 then quot
      else [c])"

definition xml_value :: "string \<Rightarrow> string" where
  "xml_value s = quot @ concat (map xml_char s) @ quot"

text \<open>The values that survive: no quote, no blanks at the ends, nothing that already looks like an escape.\<close>

definition stored_text :: "string \<Rightarrow> bool" where
  "stored_text s \<longleftrightarrow> s \<noteq> [] \<and> trim s = s \<and> CHR 0x22 \<notin> set s \<and> find_sub ''&lt;'' s = None
     \<and> find_sub ''&gt;'' s = None \<and> find_sub ''&apos;'' s = None"

lemma replace_quot: "CHR 0x22 \<notin> set s \<Longrightarrow> replace_str quot [] (concat (map xml_char s) @ u) = concat (map xml_char s) @ replace_str quot [] u"
  by (induction s) (auto simp: quot_def xml_char_def)

lemma unescape_value:
  assumes "stored_text s"
  shows "unescape (xml_value s) = s"
proof -
  let ?f1 = "xml_char(CHR ''&'' := ''&'')"
  let ?f2 = "?f1(CHR ''<'' := ''<'')"
  let ?f3 = "?f2(CHR ''>'' := ''>'')"
  let ?f4 = "?f3(CHR 0x27 := [CHR 0x27])"
  note st = assms[unfolded stored_text_def]
  have 0: "replace_str quot [] (xml_value s) = concat (map xml_char s)"
    using replace_quot[of s quot] st by (simp add: xml_value_def) (simp add: quot_def)
  have 1: "replace_str ''&amp;'' ''&'' (concat (map xml_char s)) = concat (map ?f1 s)"
    by (rule replace_block) (auto simp: xml_char_def quot_def)
  have 2: "replace_str ''&lt;'' ''<'' (concat (map ?f1 s)) = concat (map ?f2 s)"
    using st by (intro replace_block) (auto simp: xml_char_def quot_def)
  have 3: "replace_str ''&gt;'' ''>'' (concat (map ?f2 s)) = concat (map ?f3 s)"
    using st by (intro replace_block) (auto simp: xml_char_def quot_def)
  have 4: "replace_str ''&apos;'' [CHR 0x27] (concat (map ?f3 s)) = concat (map ?f4 s)"
    using st by (intro replace_block) (auto simp: xml_char_def quot_def)
  have "map ?f4 s = map (\<lambda>c. [c]) s"
    using st by (intro map_cong) (auto simp: xml_char_def)
  then have "concat (map ?f4 s) = concat (map (\<lambda>c. [c]) s)" by (simp only:)
  then have "concat (map ?f4 s) = s" by simp
  with 0 1 2 3 4 st show ?thesis
    by (simp add: unescape_def)
qed

text \<open>One network of the file: the texts around its two values hold neither a key nor a close tag.\<close>

definition filler :: "string \<Rightarrow> bool" where
  "filler x \<longleftrightarrow> find_sub (field_key ''SSID'') x = None \<and> find_sub (field_key ''PreSharedKey'') x = None
     \<and> find_sub ''</Network>'' x = None"

definition string_element :: "string \<Rightarrow> string \<Rightarrow> string" where
  "string_element name v = ''<string '' @ field_key name @ xml_value v @ ''</string>''"

definition network_block :: "string \<times> WifiCreds \<times> string \<times> string \<Rightarrow> string" where
  "network_block n = (case n of (a, w, b, c) \<Rightarrow>
     a @ string_element ''SSID'' (c_ssid w) @ b @ string_element ''PreSharedKey'' (c_psk w) @ c)"

definition writable_network :: "string \<times> WifiCreds \<times> string \<times> string \<Rightarrow> bool" where
  "writable_network n \<longleftrightarrow> (case n of (a, w, b, c) \<Rightarrow>
     filler a \<and> filler b \<and> filler c \<and> stored_text (c_ssid w) \<and> stored_text (c_psk w))"

lemma xml_value_chars: "CHR 0x22 \<notin> set (xml_value s)" "CHR ''<'' \<notin> set (xml_value s)"
proof -
  have "CHR 0x22 \<notin> set (xml_char c) \<and> CHR ''<'' \<notin> set (xml_char c)" for c
    by (simp add: xml_char_def quot_def)
  then show "CHR 0x22 \<notin> set (xml_value s)" "CHR ''<'' \<notin> set (xml_value s)"
    by (auto simp: xml_value_def quot_def)
qed

lemma find_close: "CHR ''<'' \<notin> set v \<Longrightarrow> find_sub ''</string>'' (v @ ''</string>'' @ y) = Some (length v)"
  by (induction v) auto

text \<open>Skipping a filler, and a value, in front of a tag.\<close>

lemma skip_tag:
  assumes "find_sub p x = None" "CHR ''<'' \<notin> set (tl p)" "p \<noteq> []"
  shows "find_sub p (x @ CHR ''<'' # y) = map_option (\<lambda>i. length x + i) (find_sub p (CHR ''<'' # y))"
  using assms by (rule find_sub_after)

lemma starts_with_same [simp]: "starts_with (a @ b) (a @ c) \<longleftrightarrow> starts_with b c"
  by (induction a) auto

lemma find_element: "find_sub (field_key name) (string_element name v @ y) = Some 8"
  by (simp add: string_element_def field_key_def)

lemma xml_field_found:
  assumes "find_sub (field_key name) x = None" "CHR ''<'' \<notin> set name" "stored_text v"
  shows "xml_field (x @ string_element name v @ y) name = Some v"
proof -
  have "find_sub (field_key name) (x @ string_element name v @ y) = Some (length x + 8)"
    using skip_tag[OF assms(1), of "''string '' @ field_key name @ xml_value v @ ''</string>'' @ y"]
      find_element[of name v y] assms(2)
    by (simp add: string_element_def field_key_def)
  moreover have "drop (length x + 8 + length (field_key name)) (x @ string_element name v @ y) =
      xml_value v @ ''</string>'' @ y"
    by (simp add: string_element_def numeral_eq_Suc)
  ultimately show ?thesis
    using find_close[OF xml_value_chars(2), of v y] unescape_value[OF assms(3)]
    by (simp add: xml_field_def del: append.simps drop_append)
qed

text \<open>The later key and the close tag are not in what comes before them.\<close>

lemma value_skip:
  assumes "p = field_key ''PreSharedKey'' \<or> p = ''</Network>''"
  shows "find_sub p (xml_value v @ CHR ''<'' # y) = map_option (\<lambda>i. length (xml_value v) + i) (find_sub p (CHR ''<'' # y))"
proof (rule skip_tag)
  show "find_sub p (xml_value v) = None"
    using assms xml_value_chars[of v]
      find_sub_no_char[of "CHR 0x22" p "xml_value v"] find_sub_no_char[of "CHR ''<''" p "xml_value v"]
    by (auto simp: field_key_def)
qed (use assms in \<open>auto simp: field_key_def\<close>)

lemma element_absent:
  assumes "find_sub p z = None"
    and "p = field_key ''PreSharedKey'' \<and> name = ''SSID'' \<or> p = ''</Network>'' \<and> name \<in> {''SSID'', ''PreSharedKey''}"
  shows "find_sub p (string_element name v @ z) = None"
  using assms value_skip[of p v]
  by (elim disjE conjE insertE emptyE) (simp_all add: string_element_def field_key_def)

lemma filler_absent:
  assumes "find_sub p x = None" "find_sub p (string_element name v @ z) = None"
    "p = field_key ''PreSharedKey'' \<or> p = ''</Network>''"
  shows "find_sub p (x @ string_element name v @ z) = None"
  using assms skip_tag[OF assms(1), of "tl (string_element name v @ z)"]
  by (auto simp: string_element_def field_key_def)

lemma block_parsed:
  assumes "writable_network n"
  shows "parse_block (network_block n) = Some (fst (snd n))" "find_sub ''</Network>'' (network_block n) = None"
proof -
  obtain a w b c where n: "n = (a, w, b, c)" by (cases n)
  note wr = assms[unfolded writable_network_def n prod.case filler_def]
  let ?s = "string_element ''SSID'' (c_ssid w)" and ?p = "string_element ''PreSharedKey'' (c_psk w)"
  have 1: "xml_field (a @ ?s @ b @ ?p @ c) ''SSID'' = Some (c_ssid w)"
    using wr by (intro xml_field_found) auto
  have "find_sub (field_key ''PreSharedKey'') (?s @ b) = None"
    using wr by (intro element_absent) auto
  then have "find_sub (field_key ''PreSharedKey'') (a @ ?s @ b) = None"
    using wr by (intro filler_absent) auto
  then have "xml_field ((a @ ?s @ b) @ ?p @ c) ''PreSharedKey'' = Some (c_psk w)"
    using wr by (intro xml_field_found) auto
  with 1 wr show "parse_block (network_block n) = Some (fst (snd n))"
    by (auto simp: parse_block_def network_block_def n stored_text_def)
  have "find_sub ''</Network>'' (?p @ c) = None"
    using wr by (intro element_absent) auto
  then have "find_sub ''</Network>'' (b @ ?p @ c) = None"
    using wr by (intro filler_absent) auto
  then have "find_sub ''</Network>'' (?s @ b @ ?p @ c) = None"
    by (intro element_absent) auto
  then show "find_sub ''</Network>'' (network_block n) = None"
    using wr by (simp add: network_block_def n) (intro filler_absent, auto)
qed

text \<open>
  The networks the framework saved are found: from a file with any number of network blocks,
  whose names and passphrases are XML-escaped between quotes, the reader gets exactly the pairs,
  in the order of the file, when no value contains a double quote, blanks at an end, or text that
  itself looks like an escape.
\<close>

theorem saved_creds_roundtrip:
  assumes "list_all writable_network ns" "filler trailer"
  shows "parse_saved_creds (concat (map (\<lambda>n. network_block n @ ''</Network>'') ns) @ trailer) = map (fst \<circ> snd) ns"
  using assms
proof (induction ns)
  case Nil
  then have "xml_field trailer ''SSID'' = None" "find_sub ''</Network>'' trailer = None"
    by (simp_all add: filler_def xml_field_def)
  then show ?case
    by (simp add: parse_saved_creds_def split_str.simps[of _ trailer] parse_block_def List.map_filter_simps)
next
  case (Cons n ns)
  let ?rest = "concat (map (\<lambda>n. network_block n @ ''</Network>'') ns) @ trailer"
  note b = block_parsed[of n]
  have "find_sub ''</Network>'' (network_block n @ ''</Network>'' @ ?rest) = Some (length (network_block n))"
    using skip_tag[of "''</Network>''" "network_block n" "''/Network>'' @ ?rest"] b(2) Cons.prems by simp
  then have "split_str ''</Network>'' (network_block n @ ''</Network>'' @ ?rest) =
      network_block n # split_str ''</Network>'' ?rest"
    by (simp add: split_str.simps[of _ "network_block n @ _"])
  then show ?case
    using Cons b(1) by (simp add: parse_saved_creds_def List.map_filter_simps)
qed

theorem saved_creds_roundtrip_witness:
  "parse_saved_creds (concat (map (\<lambda>n. network_block n @ ''</Network>'')
       [(''<Network>'', \<lparr>c_ssid = ''Cafe&Bar'', c_psk = ''a<b>c''\<rparr>, ''<int/>'', []),
        (''<Network>'', \<lparr>c_ssid = ''my net'', c_psk = ''it's''\<rparr>, [], ''<x/>'')]) @ ''</List>'') =
   [\<lparr>c_ssid = ''Cafe&Bar'', c_psk = ''a<b>c''\<rparr>, \<lparr>c_ssid = ''my net'', c_psk = ''it's''\<rparr>]"
proof -
  have t: "trim ''Cafe&Bar'' = ''Cafe&Bar''" "trim ''a<b>c'' = ''a<b>c''" "trim ''my net'' = ''my net''"
    "trim ''it's'' = ''it's''"
    by code_simp+
  show ?thesis
    using saved_creds_roundtrip[of "[(''<Network>'', \<lparr>c_ssid = ''Cafe&Bar'', c_psk = ''a<b>c''\<rparr>, ''<int/>'', []),
        (''<Network>'', \<lparr>c_ssid = ''my net'', c_psk = ''it's''\<rparr>, [], ''<x/>'')]" "''</List>''"] t
    by (simp add: writable_network_def filler_def field_key_def stored_text_def)
qed

text \<open>
  Values outside that class come back changed: a network name that contains a double quote
  loses it, and a passphrase with the text of an escape in it is decoded twice.
\<close>

theorem saved_creds_altered:
  "parse_saved_creds (network_block (''<Network>'', \<lparr>c_ssid = [CHR 0x22] @ ''x'' @ [CHR 0x22], c_psk = ''p&lt;q''\<rparr>, [], []))
     = [\<lparr>c_ssid = ''x'', c_psk = ''p<q''\<rparr>]"
  by code_simp

section \<open>netd and the DNS resolver\<close>

datatype NetdCall =
    ClearAddrs string
  | AddAddress string string nat
  | CreatePhysical int
  | AddInterface int string
  | AddRoute int string string string
  | SetDefault int
  | AddUidRanges int nat nat
  | CreateCache int
  | SetResolver int "string list" string

text \<open>\<open>netd_up\<close> and \<open>dns_up\<close>: the service is registered.  \<open>accepts n\<close>: the \<open>n\<close>-th call succeeds.\<close>

record NetdWorld =
  netd_up :: bool
  dns_up :: bool
  accepts :: "nat \<Rightarrow> bool"

definition netd_call :: "NetdWorld \<Rightarrow> NetdCall \<Rightarrow> NetdCall list \<Rightarrow> bool \<times> NetdCall list" where
  "netd_call nw c calls = (accepts nw (length calls), calls @ [c])"

definition apply_address :: "NetdWorld \<Rightarrow> string \<Rightarrow> Ipv4Addr \<Rightarrow> u8 \<Rightarrow> NetdCall list \<Rightarrow> bool \<times> NetdCall list" where
  "apply_address nw iface ip prefix calls =
     (if \<not> netd_up nw then (False, calls)
      else
        (let (_, calls) = netd_call nw (ClearAddrs iface) calls
         in netd_call nw (AddAddress iface (show_ip ip) (unat prefix)) calls))"

definition setup_network :: "NetdWorld \<Rightarrow> int \<Rightarrow> string \<Rightarrow> string \<Rightarrow> Ipv4Addr \<Rightarrow> NetdCall list \<Rightarrow> bool \<times> NetdCall list" where
  "setup_network nw netid iface cidr gateway calls =
     (if \<not> netd_up nw then (False, calls)
      else
        (let (_, calls) = netd_call nw (CreatePhysical netid) calls;
             (_, calls) = netd_call nw (AddInterface netid iface) calls;
             (_, calls) = netd_call nw (AddRoute netid iface cidr []) calls;
             (_, calls) = netd_call nw (AddRoute netid iface ''0.0.0.0/0'' (show_ip gateway)) calls
         in netd_call nw (SetDefault netid) calls))"

definition add_all_uid_ranges :: "NetdWorld \<Rightarrow> int \<Rightarrow> NetdCall list \<Rightarrow> bool \<times> NetdCall list" where
  "add_all_uid_ranges nw netid calls =
     (if \<not> netd_up nw then (False, calls) else netd_call nw (AddUidRanges netid 0 99999) calls)"

definition set_resolver :: "NetdWorld \<Rightarrow> int \<Rightarrow> string \<Rightarrow> Ipv4Addr list \<Rightarrow> NetdCall list \<Rightarrow> bool \<times> NetdCall list" where
  "set_resolver nw netid iface servers calls =
     (if \<not> dns_up nw then (False, calls)
      else
        (let (_, calls) = netd_call nw (CreateCache netid) calls
         in netd_call nw (SetResolver netid (map show_ip servers) iface) calls))"

end
