(* ===== verification/NetWire.thy ===== *)
theory NetWire
  imports HalNet Net
begin

text \<open>
  The texts the connectivity daemon (\<open>wandr-net\<close>, \<open>main.rs\<close>) exchanges
  with the arbiter: the status it reports and the credentials it asks for.  Its base64
  functions are the same text as those of the arbiter's connectivity module, so the model uses
  the latter.
\<close>

section \<open>Status\<close>

record LinkStatus =
  up :: bool
  ls_ssid :: "string option"
  ls_ip :: "Ipv4Addr option"
  ls_gateway :: "Ipv4Addr option"
  ls_dns :: "Ipv4Addr list"

definition LinkStatus_default :: LinkStatus where
  "LinkStatus_default = \<lparr>up = False, ls_ssid = None, ls_ip = None, ls_gateway = None, ls_dns = []\<rparr>"

definition link_wire :: "LinkStatus \<Rightarrow> string" where
  "link_wire s =
     (if up s
      then ''online wifi '' @ or_default ''-'' (ls_ssid s) @ '' '' @ or_default ''-'' (map_option show_ip (ls_ip s))
      else ''offline'')"

definition state_line :: "LinkStatus \<Rightarrow> string" where
  "state_line s = ''report-net-state '' @ link_wire s"

definition publish_line :: "LinkStatus \<Rightarrow> string" where
  "publish_line s = ''evt-publish net.status '' @ b64_encode (link_wire s)"

definition report_lines :: "LinkStatus \<Rightarrow> string list" where
  "report_lines s = [state_line s, publish_line s]"

text \<open>
  What the daemon reports is what the arbiter records: for a network name that is one word and
  not a dash, the arguments of its report parse to the state online on Wi-Fi with that name and
  the leased address, and a link that is down parses to offline.
\<close>

theorem report_roundtrip:
  assumes "up s \<Longrightarrow> ls_ssid s = Some n \<and> token n \<and> n \<noteq> ''-'' \<and> ls_ip s = Some a"
  shows "parse_net_state (split_ws (link_wire s)) =
    Some (if up s then \<lparr>online = True, transport = ''wifi'', net_ssid = Some n, net_ip = Some (show_ip a)\<rparr>
          else NetState_offline)"
proof (cases "up s")
  case True
  have t: "token ''online''" "token ''wifi''"
    by (simp_all add: token_def plain_def)
  have "show_ip a \<noteq> ''-''"
    by (cases a) (auto simp: show_ip.simps append_eq_Cons_conv)
  then show ?thesis
    using True assms split_ws_token_Cons[OF t(1), of "''wifi '' @ n @ '' '' @ show_ip a"]
      split_ws_token_Cons[OF t(2), of "n @ '' '' @ show_ip a"] split_ws_token_Cons[of n "show_ip a"]
    by (simp add: link_wire_def or_default_def parse_net_state_def nth_opt_def some_unless_dash_def)
next
  case False
  have "token ''offline''"
    by (simp add: token_def plain_def)
  with False show ?thesis
    by (simp add: link_wire_def parse_net_state_def nth_opt_def)
qed

theorem report_roundtrip_witness:
  "parse_net_state (split_ws (link_wire \<lparr>up = True, ls_ssid = Some ''home'', ls_ip = Some (Ipv4 10 0 0 5),
     ls_gateway = None, ls_dns = []\<rparr>)) =
   Some \<lparr>online = True, transport = ''wifi'', net_ssid = Some ''home'', net_ip = Some (show_ip (Ipv4 10 0 0 5))\<rparr>"
  using report_roundtrip[of "\<lparr>up = True, ls_ssid = Some ''home'', ls_ip = Some (Ipv4 10 0 0 5), ls_gateway = None, ls_dns = []\<rparr>"
      "''home''" "Ipv4 10 0 0 5"]
  by (simp add: token_def plain_def)

text \<open>
  The report of a name with a blank in it is misread: the arbiter splits the line at blanks, so
  it records the first word as the name and the second one as the address.
\<close>

theorem spaced_name_misread:
  assumes "token a" "token b" "a \<noteq> ''-''" "b \<noteq> ''-''"
  shows "parse_net_state (split_ws (link_wire \<lparr>up = True, ls_ssid = Some (a @ '' '' @ b), ls_ip = Some ip,
      ls_gateway = gw, ls_dns = ds\<rparr>)) =
    Some \<lparr>online = True, transport = ''wifi'', net_ssid = Some a, net_ip = Some b\<rparr>"
proof -
  have t: "token ''online''" "token ''wifi''"
    by (simp_all add: token_def plain_def)
  show ?thesis
    using assms split_ws_token_Cons[OF t(1), of "''wifi '' @ a @ '' '' @ b @ '' '' @ show_ip ip"]
      split_ws_token_Cons[OF t(2), of "a @ '' '' @ b @ '' '' @ show_ip ip"]
      split_ws_token_Cons[of a "b @ '' '' @ show_ip ip"] split_ws_token_Cons[of b "show_ip ip"]
    by (simp add: link_wire_def or_default_def parse_net_state_def nth_opt_def some_unless_dash_def)
qed

theorem spaced_name_misread_witness:
  "parse_net_state (split_ws (link_wire \<lparr>up = True, ls_ssid = Some ''my net'', ls_ip = Some (Ipv4 10 0 0 5),
      ls_gateway = None, ls_dns = []\<rparr>)) =
    Some \<lparr>online = True, transport = ''wifi'', net_ssid = Some ''my'', net_ip = Some ''net''\<rparr>"
  using spaced_name_misread[of "''my''" "''net''" "Ipv4 10 0 0 5" None "[]"]
  by (simp add: token_def plain_def)

section \<open>Credentials from the arbiter\<close>

definition first_field :: "string \<Rightarrow> string \<Rightarrow> string option" where
  "first_field body k = (case List.map_filter (strip_prefix k) (split_ws body) of [] \<Rightarrow> None | v # _ \<Rightarrow> Some v)"

text \<open>\<open>reply\<close> is the arbiter's answer to \<open>wifi-auto-network\<close>, if it is reachable.\<close>

definition saved_creds_from_arbiter :: "string option \<Rightarrow> WifiCreds option" where
  "saved_creds_from_arbiter reply = do {
     r \<leftarrow> reply;
     body \<leftarrow> strip_prefix ''OK '' (trim r);
     if trim body = ''none'' then None
     else do {
       s \<leftarrow> first_field body ''ssid='';
       p \<leftarrow> first_field body ''psk='';
       let name = b64_to_string s;
       if name = [] then None else Some \<lparr>c_ssid = name, c_psk = b64_to_string p\<rparr>
     }
   }"

lemma strip_prefix_append [simp]: "strip_prefix p (p @ s) = Some s"
  by (simp add: strip_prefix_def)

lemma plain_b64: "\<forall>c \<in> set (b64_encode s). plain c"
  using token_b64[of s] by (cases s) (auto simp: token_def)

lemma creds_tokens:
  assumes "\<forall>c \<in> set (security n). plain c"
  shows "split_ws (creds n) = [''ssid='' @ b64_encode (ssid n), ''psk='' @ b64_encode (psk n), ''sec='' @ security n]"
proof -
  have t: "token (''ssid='' @ b64_encode (ssid n))" "token (''psk='' @ b64_encode (psk n))" "token (''sec='' @ security n)"
    using plain_b64[of "ssid n"] plain_b64[of "psk n"] assms by (auto simp: token_def plain_def)
  show ?thesis
    using split_ws_token_Cons[OF t(1), of "''psk='' @ b64_encode (psk n) @ '' sec='' @ security n"]
      split_ws_token_Cons[OF t(2), of "''sec='' @ security n"] split_ws_token[OF t(3)]
    by (simp add: creds_def)
qed

lemma trim_suffix:
  assumes "plain (hd s)" "plain (last s)" "s \<noteq> []" "trim_end u = []"
  shows "trim (s @ u) = s"
proof -
  have e: "trim_end (t @ c # u) = t @ [c]" if "plain c" for t c
  proof (induction t)
    case Nil
    then show ?case using assms(4) all_ws_plain[OF that, of "c # u"] by (simp del: all_ws.simps)
  next
    case (Cons x t)
    then show ?case using all_ws_plain[OF that, of "x # t @ c # u"] by (simp del: all_ws.simps)
  qed
  have "trim_start (s @ u) = s @ u"
    using assms(1,3) by (cases s) simp_all
  moreover have "trim_end (s @ u) = s"
    using e[OF assms(2), of "butlast s"] assms(3)
    by (metis append.assoc append_butlast_last_id append_Cons append_Nil)
  ultimately show ?thesis by (simp add: trim_def)
qed

lemma trim_newline: "plain (hd s) \<Longrightarrow> plain (last s) \<Longrightarrow> s \<noteq> [] \<Longrightarrow> trim (s @ [CHR 0x0A]) = s"
  by (rule trim_suffix) (simp_all add: ws_len_def)

text \<open>
  The daemon joins the network the registry chose: from the arbiter's reply to
  \<open>wifi-auto-network\<close>, one line, it reads exactly the name and the passphrase of the first
  network marked for connecting, whatever UTF-8 they are made of, and nothing when no network is
  marked.
\<close>

theorem auto_network_roundtrip:
  assumes "\<forall>n. find auto_connect (saved m) = Some n \<longrightarrow>
      utf8_valid (ssid n) \<and> utf8_valid (psk n) \<and> ssid n \<noteq> [] \<and> (\<forall>c \<in> set (security n). plain c)"
  shows "saved_creds_from_arbiter (Some (render (cmd_auto_network m) @ [CHR 0x0A])) =
    map_option (\<lambda>n. \<lparr>c_ssid = ssid n, c_psk = psk n\<rparr>) (find auto_connect (saved m))"
proof (cases "find auto_connect (saved m)")
  case None
  have "trim (''OK none'' @ [CHR 0x0A]) = ''OK none''" "trim ''none'' = ''none''"
    by code_simp+
  with None show ?thesis
    by (simp add: saved_creds_from_arbiter_def cmd_auto_network_def render_def strip_prefix_def)
next
  case (Some n)
  note ok = assms[rule_format, OF Some]
  have last: "plain (last (''OK '' @ creds n))"
  proof -
    have "last (''OK '' @ creds n) = last (''='' @ security n)"
      by (simp add: creds_def)
    with ok show ?thesis by (cases "security n = []") (auto simp: plain_def)
  qed
  have t: "trim ((''OK '' @ creds n) @ [CHR 0x0A]) = ''OK '' @ creds n"
    using last by (intro trim_newline) (simp_all add: plain_def)
  have b: "trim (creds n) \<noteq> ''none''"
  proof -
    have "trim (creds n) = creds n"
    proof (rule trim_plain_ends)
      show "plain (hd (creds n))" by (simp add: creds_def plain_def)
      show "plain (last (creds n))" using last by (simp add: creds_def)
    qed (simp add: creds_def)
    then show ?thesis by (simp add: creds_def)
  qed
  have "first_field (creds n) ''ssid='' = Some (b64_encode (ssid n))" "first_field (creds n) ''psk='' = Some (b64_encode (psk n))"
    using ok creds_tokens[of n] strip_prefix_append[of "''ssid=''"] strip_prefix_append[of "''psk=''"]
    by (simp_all add: first_field_def List.map_filter_simps) (simp_all add: strip_prefix_def)
  then show ?thesis
    using Some ok t b by (simp add: saved_creds_from_arbiter_def cmd_auto_network_def render_def b64_to_string_def strip_prefix_def)
qed

theorem auto_network_roundtrip_witness:
  "saved_creds_from_arbiter (Some (render (cmd_auto_network (NetModule_new\<lparr>saved :=
      [\<lparr>sn_id = 1, ssid = ''my net'', security = ''sae'', psk = ''p w'', auto_connect = True, hidden = False\<rparr>]\<rparr>)) @ [CHR 0x0A])) =
   Some \<lparr>c_ssid = ''my net'', c_psk = ''p w''\<rparr>"
proof -
  let ?m = "NetModule_new\<lparr>saved :=
      [\<lparr>sn_id = 1, ssid = ''my net'', security = ''sae'', psk = ''p w'', auto_connect = True, hidden = False\<rparr>]\<rparr>"
  have "utf8_valid ''my net''" "utf8_valid ''p w''"
    by (auto simp del: utf8_valid.simps intro!: utf8_valid_ascii)
  then have "\<forall>n. find auto_connect (saved ?m) = Some n \<longrightarrow>
      utf8_valid (ssid n) \<and> utf8_valid (psk n) \<and> ssid n \<noteq> [] \<and> (\<forall>c \<in> set (security n). plain c)"
    by (simp add: plain_def del: utf8_valid.simps)
  from auto_network_roundtrip[OF this] show ?thesis by simp
qed

end
