(* ===== verification/NetChild.thy ===== *)
theory NetChild
  imports HalNet
begin

text \<open>
  The processes \<open>wandr-net\<close> starts as uid \<open>system\<close>: the command line the
  daemon builds for \<open>su 1000 -c\<close>, the choice of a mode from the arguments in
  \<open>main\<close>, and the mode that configures netd.

  The shell is not part of the program.  What the code relies on is the POSIX rule for quoting:
  a command line that is a list of words, each a sequence of bare texts, texts between single
  quotes and characters after a backslash, starts the program with these words.  A function
  \<open>sh\<close> from command lines to argument lists with that law is a parameter.
\<close>

section \<open>Command lines\<close>

definition shell_quote :: "string \<Rightarrow> string" where
  "shell_quote s = [CHR 0x27] @ replace_char (CHR 0x27) [CHR 0x27, CHR 0x5C, CHR 0x27, CHR 0x27] s @ [CHR 0x27]"

definition WANDR_NETID :: int where "WANDR_NETID = 100"
definition WLAN_IF :: string where "WLAN_IF = ''wlan0''"

definition associate_line :: "string \<Rightarrow> WifiCreds \<Rightarrow> string" where
  "associate_line exe w = exe @ '' --associate '' @ shell_quote (c_ssid w) @ '' '' @ shell_quote (c_psk w)"

definition flag_line :: "string \<Rightarrow> string \<Rightarrow> string" where
  "flag_line exe flag = exe @ '' '' @ flag"

definition netd_line :: "string \<Rightarrow> DhcpLease \<Rightarrow> Ipv4Addr \<Rightarrow> string" where
  "netd_line exe l gw =
     exe @ '' --netd-config '' @ show_int WANDR_NETID @ '' '' @ WLAN_IF @ '' '' @ show_ip (l_ip l) @ ''/''
     @ show_nat (unat (l_prefix l)) @ '' '' @ show_ip gw @ '' '' @ join '' '' (map show_ip (l_dns l))"

section \<open>The shell\<close>

datatype Piece = Bare string | Quoted string | Escaped char

fun piece_text :: "Piece \<Rightarrow> string" where
  "piece_text (Bare s) = s"
| "piece_text (Quoted s) = [CHR 0x27] @ s @ [CHR 0x27]"
| "piece_text (Escaped c) = [CHR 0x5C, c]"

fun piece_value :: "Piece \<Rightarrow> string" where
  "piece_value (Bare s) = s"
| "piece_value (Quoted s) = s"
| "piece_value (Escaped c) = [c]"

definition bare_char :: "char \<Rightarrow> bool" where
  "bare_char c \<longleftrightarrow> ascii_alnum c \<or> c \<in> set ''-./_''"

definition NUL :: char where "NUL = CHR 0x00"

fun piece_ok :: "Piece \<Rightarrow> bool" where
  "piece_ok (Bare s) \<longleftrightarrow> s \<noteq> [] \<and> list_all bare_char s"
| "piece_ok (Quoted s) \<longleftrightarrow> CHR 0x27 \<notin> set s \<and> NUL \<notin> set s"
| "piece_ok (Escaped c) \<longleftrightarrow> c \<noteq> NUL \<and> c \<noteq> CHR 0x0A"

type_synonym sh_word = "Piece list"

definition word_text :: "sh_word \<Rightarrow> string" where
  "word_text w = concat (map piece_text w)"

definition word_value :: "sh_word \<Rightarrow> string" where
  "word_value w = concat (map piece_value w)"

definition word_ok :: "sh_word \<Rightarrow> bool" where
  "word_ok w \<longleftrightarrow> w \<noteq> [] \<and> list_all piece_ok w"

text \<open>A command: the path of a program, then its arguments.\<close>

definition command_ok :: "sh_word list \<Rightarrow> bool" where
  "command_ok ws \<longleftrightarrow> list_all word_ok ws \<and> ws \<noteq> [] \<and> (\<exists>s. hd ws = [Bare (CHR ''/'' # s)])"

definition posix_shell :: "(string \<Rightarrow> string list) \<Rightarrow> bool" where
  "posix_shell sh \<longleftrightarrow> (\<forall>ws n. command_ok ws \<longrightarrow>
     sh (join '' '' (map word_text ws) @ replicate n (CHR '' '')) = map word_value ws)"

definition exe_path :: "string \<Rightarrow> bool" where
  "exe_path exe \<longleftrightarrow> list_all bare_char exe \<and> (\<exists>s. exe = CHR ''/'' # s)"

text \<open>A quoted text is one word with that text as its value.\<close>

definition quoted_word :: "string \<Rightarrow> sh_word" where
  "quoted_word s = (case split_char (CHR 0x27) s of
     [] \<Rightarrow> []
   | t # ts \<Rightarrow> Quoted t # concat (map (\<lambda>u. [Escaped (CHR 0x27), Quoted u]) ts))"

lemma split_char_pieces: "\<forall>t \<in> set (split_char d s). d \<notin> set t \<and> set t \<subseteq> set s"
  by (induction s) (auto split: list.split)

lemma word_ok_quoted: "NUL \<notin> set s \<Longrightarrow> word_ok (quoted_word s)"
proof -
  assume n: "NUL \<notin> set s"
  obtain t ts where sp: "split_char (CHR 0x27) s = t # ts"
    by (cases "split_char (CHR 0x27) s") auto
  have "\<forall>u \<in> set (t # ts). CHR 0x27 \<notin> set u \<and> NUL \<notin> set u"
    using split_char_pieces[of "CHR 0x27" s] n sp by auto
  then show ?thesis
    by (auto simp: word_ok_def quoted_word_def sp list_all_iff NUL_def)
qed

lemma word_value_quoted: "word_value (quoted_word s) = s"
  by (induction s) (auto simp: word_value_def quoted_word_def split: list.split if_splits)

lemma word_text_quoted: "word_text (quoted_word s) = shell_quote s"
proof (induction s)
  case Nil
  then show ?case by (simp add: word_text_def quoted_word_def shell_quote_def replace_char_def)
next
  case (Cons c s)
  obtain t ts where "split_char (CHR 0x27) s = t # ts"
    by (cases "split_char (CHR 0x27) s") auto
  with Cons show ?case
    by (simp add: word_text_def quoted_word_def shell_quote_def replace_char_def)
qed

section \<open>A shell with these rules\<close>

fun sh_run :: "bool \<Rightarrow> string option \<Rightarrow> string \<Rightarrow> string list" where
  "sh_run q cur [] = (case cur of None \<Rightarrow> [] | Some w \<Rightarrow> [w])"
| "sh_run True cur (c # cs) =
     (if c = CHR 0x27 then sh_run False cur cs
      else sh_run True (Some (or_default [] cur @ [c])) cs)"
| "sh_run False cur (c # cs) =
     (if c = CHR '' '' then (case cur of None \<Rightarrow> sh_run False None cs | Some w \<Rightarrow> w # sh_run False None cs)
      else if c = CHR 0x27 then sh_run True (Some (or_default [] cur)) cs
      else if c = CHR 0x5C then
        (case cs of [] \<Rightarrow> [or_default [] cur @ [c]] | d # ds \<Rightarrow> sh_run False (Some (or_default [] cur @ [d])) ds)
      else sh_run False (Some (or_default [] cur @ [c])) cs)"

lemma bare_char_plain: "bare_char c \<Longrightarrow> c \<noteq> CHR '' '' \<and> c \<noteq> CHR 0x27 \<and> c \<noteq> CHR 0x5C"
  by (auto simp: bare_char_def ascii_alnum_def)

lemma sh_run_bare: "list_all bare_char s \<Longrightarrow> sh_run False (Some w) (s @ r) = sh_run False (Some (w @ s)) r"
  by (induction s arbitrary: w) (auto simp: or_default_def dest: bare_char_plain)

lemma sh_run_inside: "CHR 0x27 \<notin> set s \<Longrightarrow> sh_run True (Some w) (s @ CHR 0x27 # r) = sh_run False (Some (w @ s)) r"
  by (induction s arbitrary: w) (auto simp: or_default_def)

lemma sh_run_piece: "piece_ok p \<Longrightarrow> sh_run False cur (piece_text p @ r) = sh_run False (Some (or_default [] cur @ piece_value p)) r"
proof (cases p)
  case (Bare s)
  assume "piece_ok p"
  with Bare obtain c t where "s = c # t" "list_all bare_char (c # t)"
    by (cases s) auto
  with Bare show ?thesis
    using sh_run_bare[of t "or_default [] cur @ [c]" r] bare_char_plain[of c] by simp
qed (auto simp: sh_run_inside)

lemma sh_run_word: "word_ok w \<Longrightarrow> sh_run False cur (word_text w @ r) = sh_run False (Some (or_default [] cur @ word_value w)) r"
proof (induction w arbitrary: cur)
  case (Cons p w)
  show ?case
  proof (cases "w = []")
    case True
    with Cons.prems show ?thesis
      by (simp add: word_text_def word_value_def word_ok_def sh_run_piece)
  next
    case False
    with Cons show ?thesis
      using sh_run_piece[of p cur "word_text w @ r"] Cons.IH[of "Some (or_default [] cur @ piece_value p)"]
      by (simp add: word_text_def word_value_def word_ok_def or_default_def)
  qed
qed (simp add: word_ok_def)

lemma sh_run_words:
  "list_all word_ok ws \<Longrightarrow> sh_run False None (join '' '' (map word_text ws) @ replicate n (CHR '' '')) = map word_value ws"
proof (induction ws)
  case Nil
  have "sh_run False None (replicate n (CHR '' '')) = []"
    by (induction n) auto
  then show ?case by simp
next
  case (Cons w ws)
  have "sh_run False None (replicate k (CHR '' '')) = []" for k
    by (induction k) auto
  then have e: "sh_run False (Some v) (replicate n (CHR '' '')) = [v]" for v
    by (cases n) auto
  show ?case
  proof (cases ws)
    case Nil
    with Cons.prems e show ?thesis by (simp add: sh_run_word or_default_def)
  next
    case (Cons v vs)
    with Cons.IH Cons.prems show ?thesis by (simp add: sh_run_word or_default_def)
  qed
qed

lemma posix_sh_run: "posix_shell (sh_run False None)"
  using sh_run_words by (simp add: posix_shell_def command_ok_def)

section \<open>The modes of the program\<close>

datatype Mode =
    NetdConfig int string Ipv4Addr u8 Ipv4Addr "Ipv4Addr list"
  | Usage
  | ProbeSupplicant
  | PowerChip
  | StopChip
  | RemoveIface
  | Associate string string
  | Scan
  | ConnectTo string string
  | Once
  | Resident

text \<open>\<open>args.iter().position(..)\<close> and the arguments after it.\<close>

fun args_after :: "string \<Rightarrow> string list \<Rightarrow> string list option" where
  "args_after f [] = None"
| "args_after f (a # as) = (if a = f then Some as else args_after f as)"

definition parse_u8 :: "string \<Rightarrow> u8 option" where
  "parse_u8 s = map_option of_nat (parse_unsigned 8 s)"

definition netd_mode :: "string list \<Rightarrow> Mode" where
  "netd_mode rest =
     (let netid = or_default (- 1) (Option.bind (nth_opt rest 0) parse_i32);
          iface = or_default WLAN_IF (nth_opt rest 1);
          cidr = or_default [] (nth_opt rest 2);
          (ip_str, pre) = or_default (cidr, ''24'') (split_once (CHR ''/'') cidr);
          prefix = or_default 24 (parse_u8 pre);
          gw = Option.bind (nth_opt rest 3) parse_ip;
          servers = List.map_filter parse_ip (drop 4 rest)
      in case (parse_ip ip_str, gw) of
           (Some ip, Some g) \<Rightarrow> if netid < 0 then Usage else NetdConfig netid iface ip prefix g servers
         | _ \<Rightarrow> Usage)"

definition two_args :: "(string \<Rightarrow> string \<Rightarrow> Mode) \<Rightarrow> string list \<Rightarrow> Mode" where
  "two_args f rest =
     (let s = or_default [] (nth_opt rest 0); p = or_default [] (nth_opt rest 1)
      in if s = [] \<or> p = [] then Usage else f s p)"

definition main_mode :: "string list \<Rightarrow> Mode" where
  "main_mode args =
     (case args_after ''--netd-config'' args of
        Some rest \<Rightarrow> netd_mode rest
      | None \<Rightarrow>
          if ''--probe-supplicant'' \<in> set args then ProbeSupplicant
          else if ''--power-chip'' \<in> set args then PowerChip
          else if ''--stop-chip'' \<in> set args then StopChip
          else if ''--remove-iface'' \<in> set args then RemoveIface
          else
            (case args_after ''--associate'' args of
               Some rest \<Rightarrow> two_args Associate rest
             | None \<Rightarrow>
                 if ''--scan'' \<in> set args then Scan
                 else
                   (case args_after ''--connect'' args of
                      Some rest \<Rightarrow> two_args ConnectTo rest
                    | None \<Rightarrow> if ''--once'' \<in> set args then Once else Resident)))"

text \<open>The flags that are looked for anywhere before \<open>--associate\<close> is.\<close>

definition early_flags :: "string list" where
  "early_flags = [''--netd-config'', ''--probe-supplicant'', ''--power-chip'', ''--stop-chip'', ''--remove-iface'']"

section \<open>What the child is told\<close>

lemma associate_words:
  assumes "posix_shell sh" "exe_path exe" "NUL \<notin> set (c_ssid w)" "NUL \<notin> set (c_psk w)"
  shows "sh (associate_line exe w) = [exe, ''--associate'', c_ssid w, c_psk w]"
proof -
  let ?ws = "[[Bare exe], [Bare ''--associate''], quoted_word (c_ssid w), quoted_word (c_psk w)]"
  have "list_all bare_char ''--associate''"
    by (simp add: bare_char_def ascii_alnum_def)
  then have "command_ok ?ws"
    using assms(2-4) by (auto simp: command_ok_def word_ok_quoted exe_path_def) (auto simp: word_ok_def)
  moreover have "join '' '' (map word_text ?ws) = associate_line exe w"
    by (simp add: word_text_quoted associate_line_def) (simp add: word_text_def)
  moreover have "map word_value ?ws = [exe, ''--associate'', c_ssid w, c_psk w]"
    by (simp add: word_value_quoted) (simp add: word_value_def)
  ultimately show ?thesis
    using assms(1) unfolding posix_shell_def by (metis append_Nil2 replicate_empty)
qed

text \<open>
  C31. No name or passphrase of a network reaches the shell as code: whatever bytes they are made of
  (quotes, blanks, dollar signs, newlines), the child that runs as \<open>system\<close> gets exactly
  these two arguments, and associates with them unless one is empty or is one of the program's own
  flags.
\<close>

theorem associate_arguments_exact:
  assumes "posix_shell sh" "exe_path exe" "NUL \<notin> set (c_ssid w)" "NUL \<notin> set (c_psk w)"
  shows "sh (associate_line exe w) = [exe, ''--associate'', c_ssid w, c_psk w] \<and>
    (c_ssid w \<noteq> [] \<and> c_psk w \<noteq> [] \<and> c_ssid w \<notin> set early_flags \<and> c_psk w \<notin> set early_flags \<longrightarrow>
      main_mode (sh (associate_line exe w)) = Associate (c_ssid w) (c_psk w))"
proof -
  have "exe \<notin> set early_flags" "exe \<noteq> ''--associate''"
    using assms(2) by (auto simp: exe_path_def early_flags_def)
  with associate_words[OF assms] show ?thesis
    by (auto simp: main_mode_def two_args_def nth_opt_def or_default_def early_flags_def)
qed

theorem associate_arguments_exact_witness:
  "main_mode (sh_run False None (associate_line ''/data/wandr-net'' \<lparr>c_ssid = ''Bob's $(id)'', c_psk = ''a b; c''\<rparr>)) =
     Associate ''Bob's $(id)'' ''a b; c''"
proof -
  let ?w = "\<lparr>c_ssid = ''Bob's $(id)'', c_psk = ''a b; c''\<rparr>"
  have "main_mode (sh_run False None (associate_line ''/data/wandr-net'' ?w)) = Associate (c_ssid ?w) (c_psk ?w)"
    by (rule mp[OF conjunct2[OF associate_arguments_exact[OF posix_sh_run]]])
      (simp_all add: exe_path_def bare_char_def ascii_alnum_def NUL_def early_flags_def)
  then show ?thesis by simp
qed

text \<open>
  A network whose passphrase is one of the program's flags is not joined: the child looks for
  the flags anywhere among its arguments, so for \<open>--stop-chip\<close> it powers the radio down
  instead, and an open network, whose passphrase is empty, gets the usage error.
\<close>

theorem associate_misled:
  assumes "posix_shell sh" "exe_path exe" "NUL \<notin> set s" "s \<notin> set early_flags"
  shows "main_mode (sh (associate_line exe \<lparr>c_ssid = s, c_psk = ''--stop-chip''\<rparr>)) = StopChip \<and>
    main_mode (sh (associate_line exe \<lparr>c_ssid = s, c_psk = []\<rparr>)) = Usage"
proof -
  have n: "NUL \<notin> set ''--stop-chip''"
    by (simp add: NUL_def)
  have "exe \<notin> set early_flags" "exe \<noteq> ''--associate''"
    using assms(2) by (auto simp: exe_path_def early_flags_def)
  then show ?thesis
    using associate_words[OF assms(1,2), of "\<lparr>c_ssid = s, c_psk = ''--stop-chip''\<rparr>"] n
      associate_words[OF assms(1,2), of "\<lparr>c_ssid = s, c_psk = []\<rparr>"] assms(3,4)
    by (auto simp: main_mode_def two_args_def nth_opt_def or_default_def early_flags_def)
qed

theorem associate_misled_witness:
  "main_mode (sh_run False None (associate_line ''/data/wandr-net'' \<lparr>c_ssid = ''cafe'', c_psk = []\<rparr>)) = Usage"
  using associate_misled[OF posix_sh_run, of "''/data/wandr-net''" "''cafe''"]
  by (simp add: exe_path_def bare_char_def ascii_alnum_def NUL_def early_flags_def)

section \<open>Configuring netd\<close>

text \<open>
  The mode \<open>NetdConfig\<close>: the exit code and the calls made.  \<open>None\<close> is the
  overflow of the shift in \<open>subnet_cidr\<close>, for a prefix beyond 32.
\<close>

definition netd_child :: "NetdWorld \<Rightarrow> int \<Rightarrow> string \<Rightarrow> Ipv4Addr \<Rightarrow> u8 \<Rightarrow> Ipv4Addr \<Rightarrow> Ipv4Addr list \<Rightarrow> (int \<times> NetdCall list) option" where
  "netd_child nw netid iface local_ip prefix gw servers =
     (let (addr_ok, calls) = apply_address nw iface local_ip prefix [] in
      case subnet_cidr local_ip prefix of
        None \<Rightarrow> None
      | Some subnet \<Rightarrow>
          (let (net_ok, calls) = setup_network nw netid iface subnet gw calls;
               (uids_ok, calls) = add_all_uid_ranges nw netid calls;
               (dns_ok, calls) = (if servers = [] then (False, calls) else set_resolver nw netid iface servers calls)
           in Some (if addr_ok \<and> net_ok \<and> dns_ok then 0 else 1, calls)))"

lemma bare_show_nat: "list_all bare_char (show_nat n)"
  by (auto simp: list_all_iff bare_char_def ascii_alnum_def dest!: set_show_nat)

lemma bare_show_ip: "list_all bare_char (show_ip a)"
proof -
  have "bare_char (CHR ''.'')" by (simp add: bare_char_def)
  then show ?thesis
    using bare_show_nat by (cases a) simp
qed

lemma show_ip_not_Nil [simp]: "show_ip a \<noteq> []"
  by (cases a) simp

text \<open>The words of the line, with the blank at the end when there are no name servers.\<close>

lemma netd_words:
  assumes "posix_shell sh" "exe_path exe"
  shows "sh (netd_line exe l gw) = [exe, ''--netd-config'', ''100'', ''wlan0'',
    show_ip (l_ip l) @ ''/'' @ show_nat (unat (l_prefix l)), show_ip gw] @ map show_ip (l_dns l)"
proof -
  let ?ts = "[exe, ''--netd-config'', ''100'', ''wlan0'',
    show_ip (l_ip l) @ ''/'' @ show_nat (unat (l_prefix l)), show_ip gw] @ map show_ip (l_dns l)"
  let ?ws = "map (\<lambda>t. [Bare t]) ?ts"
  let ?n = "if l_dns l = [] then 1 else 0"
  have "list_all (\<lambda>t. t \<noteq> [] \<and> list_all bare_char t) ?ts"
    using assms(2) bare_show_ip bare_show_nat
    by (auto simp: exe_path_def list_all_iff bare_char_def ascii_alnum_def)
  then have "command_ok ?ws"
    using assms(2) by (auto simp: command_ok_def word_ok_def list_all_iff exe_path_def)
  moreover have "join '' '' (map word_text ?ws) @ replicate ?n (CHR '' '') = netd_line exe l gw"
  proof -
    have "join '' '' (map word_text ?ws) = join '' '' ?ts"
      by (simp add: word_text_def o_def)
    moreover have "show_int WANDR_NETID = ''100''"
      by code_simp
    ultimately show ?thesis
      by (cases "l_dns l") (simp_all add: netd_line_def WLAN_IF_def)
  qed
  moreover have "map word_value ?ws = ?ts"
    by (simp add: word_value_def o_def)
  ultimately show ?thesis
    using assms(1) unfolding posix_shell_def by metis
qed

lemma parse_u8_show: "parse_u8 (show_nat (unat (p :: u8))) = Some p"
  using parse_unsigned_show_nat[of "unat p" 8] unsigned_less[of p, where 'a = nat] by (simp add: parse_u8_def)

text \<open>
  The child configures the lease it was started for: read back from its command line are the
  network, the interface, the leased address and prefix, the gateway and the name servers, in
  order.
\<close>

theorem netd_arguments_exact:
  assumes "posix_shell sh" "exe_path exe"
  shows "main_mode (sh (netd_line exe l gw)) = NetdConfig WANDR_NETID WLAN_IF (l_ip l) (l_prefix l) gw (l_dns l)"
proof -
  have e: "exe \<noteq> ''--netd-config''"
    using assms(2) by (auto simp: exe_path_def)
  have i: "parse_i32 ''100'' = Some 100"
    by code_simp
  have "CHR ''/'' \<notin> set (show_ip a)" for a
    using bare_show_ip[of a] token_show_ip[of a] by (cases a) (auto dest!: set_show_nat arg_cong[of _ _ "of_char :: char \<Rightarrow> nat"])
  then have "find_char (\<lambda>c. c = CHR ''/'') (show_ip (l_ip l) @ CHR ''/'' # x) = Some (length (show_ip (l_ip l)))" for x
    by (intro find_char_append) auto
  then have s: "split_once (CHR ''/'') (show_ip (l_ip l) @ CHR ''/'' # show_nat (unat (l_prefix l))) =
      Some (show_ip (l_ip l), show_nat (unat (l_prefix l)))"
    by (simp add: split_once_def)
  have m: "List.map_filter parse_ip (map show_ip ds) = ds" for ds
    by (induction ds) (simp_all add: List.map_filter_simps)
  show ?thesis
    using netd_words[OF assms, of l gw] e i s m
    by (simp add: main_mode_def netd_mode_def nth_opt_def or_default_def parse_u8_show WANDR_NETID_def WLAN_IF_def)
qed

theorem netd_arguments_exact_witness:
  "main_mode (sh_run False None (netd_line ''/data/wandr-net''
     \<lparr>l_ip = Ipv4 192 168 1 179, l_prefix = 22, l_gateway = Some (Ipv4 192 168 0 1), l_dns = [Ipv4 8 8 8 8],
      l_lease_secs = 3600, l_server_id = None\<rparr> (Ipv4 192 168 0 1))) =
   NetdConfig WANDR_NETID WLAN_IF (Ipv4 192 168 1 179) 22 (Ipv4 192 168 0 1) [Ipv4 8 8 8 8]"
  by (subst netd_arguments_exact[OF posix_sh_run]) (simp_all add: exe_path_def bare_char_def ascii_alnum_def)

text \<open>
  The child succeeds only with the lease in force: exit code 0 means that there is a name
  server and that netd took the address, made the network the default one and the resolver took
  the servers, in the one order that works (the address first, the connected route before the
  default route), whatever else failed; no prefix up to 32 makes it panic.
\<close>

theorem netd_child_success:
  assumes "unat prefix \<le> 32"
  shows "\<exists>code calls. netd_child nw netid iface ip prefix gw servers = Some (code, calls) \<and>
    (code = 0 \<longrightarrow> servers \<noteq> [] \<and> (\<exists>cidr. subnet_cidr ip prefix = Some cidr \<and>
       calls = [ClearAddrs iface, AddAddress iface (show_ip ip) (unat prefix),
         CreatePhysical netid, AddInterface netid iface, AddRoute netid iface cidr [],
         AddRoute netid iface ''0.0.0.0/0'' (show_ip gw), SetDefault netid, AddUidRanges netid 0 99999,
         CreateCache netid, SetResolver netid (map show_ip servers) iface] \<and>
       accepts nw 1 \<and> accepts nw 6 \<and> accepts nw 9))"
proof -
  obtain cidr where c: "subnet_cidr ip prefix = Some cidr"
    using assms by (auto simp: subnet_cidr_def Let_def)
  have n: "Suc (Suc (Suc (Suc (Suc (Suc 0))))) = 6" "Suc (Suc (Suc 6)) = 9"
    by simp_all
  show ?thesis
    by (cases "netd_up nw"; cases "dns_up nw"; cases "servers = []")
      (simp_all add: netd_child_def c apply_address_def setup_network_def add_all_uid_ranges_def set_resolver_def
        netd_call_def n)
qed

theorem netd_child_success_witness:
  "\<exists>code calls. netd_child \<lparr>netd_up = True, dns_up = True, accepts = \<lambda>_. True\<rparr> 100 ''wlan0'' (Ipv4 10 0 0 5) 24
     (Ipv4 10 0 0 1) [Ipv4 8 8 8 8] = Some (code, calls) \<and> length calls = 10"
proof -
  have "unat (24 :: u8) \<le> 32" by simp
  from netd_child_success[OF this, of "\<lparr>netd_up = True, dns_up = True, accepts = \<lambda>_. True\<rparr>" 100 "''wlan0''"
      "Ipv4 10 0 0 5" "Ipv4 10 0 0 1" "[Ipv4 8 8 8 8]"]
  show ?thesis
    by (auto simp: netd_child_def apply_address_def setup_network_def add_all_uid_ranges_def set_resolver_def
        netd_call_def split: option.splits)
qed

end
