(* ===== verification/WifiScan.thy ===== *)
theory WifiScan
  imports Core
begin

text \<open>
  The access points of a scan (\<open>wandr-hal-net\<close>, \<open>wificond_scan.rs\<close> and
  \<open>ScanEntry\<close> of \<open>lib.rs\<close>): how a native scan result becomes an entry, and
  how its security is derived from the 802.11 information elements.  The binder transactions that
  bring the result are not modelled; the fields they carry are arguments.
\<close>

unbundle bit_operations_syntax

type_synonym u16 = "16 word"

section \<open>Security from the information elements\<close>

definition le16 :: "u8 \<Rightarrow> u8 \<Rightarrow> nat" where
  "le16 a b = unat a + 256 * unat b"

fun akm_loop :: "nat \<Rightarrow> u8 list \<Rightarrow> nat \<Rightarrow> u8 list" where
  "akm_loop 0 body p = []"
| "akm_loop (Suc k) body p =
     (if p + 4 > length body then [] else body ! (p + 3) # akm_loop k body (p + 4))"

definition rsn_akm_suites :: "u8 list \<Rightarrow> u8 list option" where
  "rsn_akm_suites body =
     (let p = 2 + 4 in
      if p + 2 > length body then None
      else
        (let pcount = le16 (body ! p) (body ! (p + 1)); p = p + (2 + 4 * pcount) in
         if p + 2 > length body then None
         else
           (let acount = le16 (body ! p) (body ! (p + 1)); p = p + 2
            in Some (akm_loop acount body p))))"

definition RSN_ID :: u8 where "RSN_ID = 48"
definition VENDOR_ID :: u8 where "VENDOR_ID = 221"
definition WPA_OUI :: "u8 list" where "WPA_OUI = [0x00, 0x50, 0xf2, 0x01]"

definition rsn_security :: "u8 list \<Rightarrow> string" where
  "rsn_security body =
     (case rsn_akm_suites body of
        None \<Rightarrow> ''wpa-psk''
      | Some akms \<Rightarrow>
          if list_ex (\<lambda>t. t = 8) akms then ''sae''
          else if list_ex (\<lambda>t. t = 18) akms then ''owe''
          else if list_ex (\<lambda>t. t = 1 \<or> t = 5) akms then ''wpa-eap''
          else if list_ex (\<lambda>t. t = 2 \<or> t = 6) akms then ''wpa-psk''
          else ''wpa-psk'')"

text \<open>The scan of the elements: the security of the first RSN element, or whether a WPA one was seen.\<close>

function ie_loop :: "u8 list \<Rightarrow> nat \<Rightarrow> bool \<Rightarrow> string + bool" where
  "ie_loop ie i has_wpa =
     (if i + 2 \<le> length ie then
        (let ident = ie ! i; len = unat (ie ! (i + 1));
             body = drop (i + 2) (take (min (i + 2 + len) (length ie)) ie) in
         if ident = RSN_ID then Inl (rsn_security body)
         else ie_loop ie (i + (2 + len))
           (has_wpa \<or> ident = VENDOR_ID \<and> 4 \<le> length body \<and> take 4 body = WPA_OUI))
      else Inr has_wpa)"
  by pat_completeness auto
termination
  by (relation "measure (\<lambda>(ie, i, _). length ie - i)") auto

declare ie_loop.simps [simp del]

definition security_from_ies :: "u8 list \<Rightarrow> u16 \<Rightarrow> string" where
  "security_from_ies ie capability =
     (case ie_loop ie 0 False of
        Inl s \<Rightarrow> s
      | Inr has_wpa \<Rightarrow>
          if has_wpa then ''wpa-psk''
          else if capability AND 0x0010 \<noteq> 0 then ''wpa-psk''
          else ''open'')"

section \<open>Scan entries\<close>

record ScanEntry =
  se_ssid :: string
  se_bssid :: string
  frequency_mhz :: u32
  rssi_dbm :: int
  se_security :: string
  se_connected :: bool

text \<open>\<open>{b:02x}\<close>.\<close>

definition hex2 :: "u8 \<Rightarrow> string" where
  "hex2 b = [hex_digit_lower (unat b div 16), hex_digit_lower (unat b mod 16)]"

text \<open>Division of an \<open>i32\<close> by 100, towards zero.\<close>

definition div100 :: "u32 \<Rightarrow> int" where
  "div100 x = (if sint x < 0 then - (- sint x div 100) else sint x div 100)"

definition scan_entry :: "string \<Rightarrow> u8 list \<Rightarrow> u8 list \<Rightarrow> u32 \<Rightarrow> u32 \<Rightarrow> u32 \<Rightarrow> bool \<Rightarrow> ScanEntry" where
  "scan_entry ssid_bytes bssid info_element frequency signal_mbm capability associated =
     \<lparr>se_ssid = utf8_lossy ssid_bytes, se_bssid = join '':'' (map hex2 bssid), frequency_mhz = frequency,
      rssi_dbm = div100 signal_mbm, se_security = security_from_ies info_element (ucast capability),
      se_connected = associated\<rparr>"

section \<open>The elements as a list\<close>

text \<open>Elements in order; the last one may be cut off, and then has the bytes that are there.\<close>

function elements :: "u8 list \<Rightarrow> (u8 \<times> u8 list) list" where
  "elements (ident # len # bs) = (ident, take (unat len) bs) # elements (drop (unat len) bs)"
| "elements [] = []"
| "elements [b] = []"
  by pat_completeness auto
termination
  by (relation "measure length") auto

definition wpa_vendor :: "u8 \<times> u8 list \<Rightarrow> bool" where
  "wpa_vendor e \<longleftrightarrow> fst e = VENDOR_ID \<and> take 4 (snd e) = WPA_OUI"

lemma take4_WPA: "take 4 b = WPA_OUI \<Longrightarrow> 4 \<le> length b"
  using length_take[of 4 b] by (simp add: WPA_OUI_def)

definition security_of :: "(u8 \<times> u8 list) list \<Rightarrow> bool \<Rightarrow> string" where
  "security_of es privacy =
     (case find (\<lambda>e. fst e = RSN_ID) es of
        Some e \<Rightarrow> rsn_security (snd e)
      | None \<Rightarrow> if list_ex wpa_vendor es \<or> privacy then ''wpa-psk'' else ''open'')"

lemma ie_loop_end: "\<not> i + 2 \<le> length ie \<Longrightarrow> ie_loop ie i w = Inr w"
  by (simp add: ie_loop.simps[of ie i])

lemma ie_loop_elements:
  "i \<le> length ie \<Longrightarrow> ie_loop ie i w =
     (case find (\<lambda>e. fst e = RSN_ID) (elements (drop i ie)) of
        Some e \<Rightarrow> Inl (rsn_security (snd e))
      | None \<Rightarrow> Inr (w \<or> list_ex wpa_vendor (elements (drop i ie))))"
proof (induction ie i w rule: ie_loop.induct)
  case (1 ie i w)
  show ?case
  proof (cases "i + 2 \<le> length ie")
    case False
    then have "length (drop i ie) < 2" by simp
    then have "elements (drop i ie) = []"
      by (cases "drop i ie" rule: elements.cases) auto
    with False show ?thesis by (simp add: ie_loop.simps[of ie i])
  next
    case two: True
    let ?n = "unat (ie ! (i + 1))"
    let ?body = "drop (i + 2) (take (min (i + 2 + ?n) (length ie)) ie)"
    have d: "drop i ie = ie ! i # ie ! (i + 1) # drop (i + 2) ie"
      using two by (simp add: Cons_nth_drop_Suc)
    have b: "?body = take ?n (drop (i + 2) ie)"
      by (simp add: drop_take min_def)
    have e: "elements (drop i ie) = (ie ! i, ?body) # elements (drop (i + (2 + ?n)) ie)"
      unfolding d elements.simps(1) b by (simp add: add.commute)
    show ?thesis
    proof (cases "ie ! i = RSN_ID")
      case True
      with two show ?thesis
        by (simp only: ie_loop.simps[of ie i] e) (simp add: Let_def)
    next
      case False
      let ?w = "w \<or> ie ! i = VENDOR_ID \<and> 4 \<le> length ?body \<and> take 4 ?body = WPA_OUI"
      have w: "?w \<longleftrightarrow> w \<or> wpa_vendor (ie ! i, ?body)"
        using take4_WPA[of ?body] by (auto simp: wpa_vendor_def)
      have step: "ie_loop ie i w = ie_loop ie (i + (2 + ?n)) ?w"
        using two False by (simp only: ie_loop.simps[of ie i] Let_def if_True if_False simp_thms)
      show ?thesis
      proof (cases "i + (2 + ?n) \<le> length ie")
        case True
        from "1.IH"[OF two refl refl refl False True] show ?thesis
          by (simp only: step e w find.simps fst_conv False if_False list_ex_Cons_iff disj_assoc simp_thms)
      next
        case past: False
        then have "elements (drop (i + (2 + ?n)) ie) = []" by simp
        moreover have "ie_loop ie (i + (2 + ?n)) ?w = Inr ?w"
          by (rule ie_loop_end) (use past in simp)
        ultimately show ?thesis
          by (simp only: step e w find.simps fst_conv False if_False list_ex_Cons_iff list_ex_Nil_iff simp_thms option.case)
      qed
    qed
  qed
qed

text \<open>
  C32. Reading the security off the raw elements gives what the list of elements says: the first
  RSN element decides alone; without one, a WPA vendor element or the privacy bit means WPA-PSK,
  and a network with neither is open.  Whatever the bytes are, the answer is one of the five
  security tokens.
\<close>

theorem security_from_ies_spec:
  "security_from_ies ie capability = security_of (elements ie) (capability AND 0x0010 \<noteq> 0) \<and>
   security_from_ies ie capability \<in> {''open'', ''owe'', ''wpa-psk'', ''sae'', ''wpa-eap''}"
proof -
  have eq: "security_from_ies ie capability = security_of (elements ie) (capability AND 0x0010 \<noteq> 0)"
    using ie_loop_elements[of 0 ie False] by (simp add: security_from_ies_def security_of_def split: option.split)
  have "rsn_security b \<in> {''open'', ''owe'', ''wpa-psk'', ''sae'', ''wpa-eap''}" for b
    by (simp add: rsn_security_def split: option.split)
  then have "security_of es p \<in> {''open'', ''owe'', ''wpa-psk'', ''sae'', ''wpa-eap''}" for es p
    by (auto simp: security_of_def split: option.split)
  with eq show ?thesis by simp
qed

section \<open>An RSN element as an access point writes it\<close>

definition le_bytes :: "nat \<Rightarrow> u8 list" where
  "le_bytes n = [of_nat (n mod 256), of_nat (n div 256)]"

lemma le16_bytes: "n < 65536 \<Longrightarrow> le16 (of_nat (n mod 256)) (of_nat (n div 256)) = n"
  by (simp add: le16_def unsigned_of_nat take_bit_nat_eq_self less_mult_imp_div_less)

lemma akm_loop_read:
  assumes "list_all (\<lambda>s. length s = 4) suites" "p = length pre"
  shows "akm_loop (length suites) (pre @ concat suites @ post) p = map last suites"
  using assms
proof (induction suites arbitrary: p pre)
  case (Cons s ss)
  obtain a b c d where s: "s = [a, b, c, d]"
    using Cons.prems by (auto simp: numeral_eq_Suc length_Suc_conv)
  have "akm_loop (length ss) ((pre @ s) @ concat ss @ post) (p + 4) = map last ss"
    using Cons by (intro Cons.IH) (simp_all add: s)
  then show ?case
    using Cons.prems by (simp add: s nth_append)
qed simp

text \<open>
  The security of a network is read from the key-management suites it announces, through any
  number of pairwise ciphers, with SAE before OWE before EAP before PSK, whatever other elements
  surround the RSN element.
\<close>

theorem rsn_priority:
  assumes "length vers = 2" "length cipher = 4"
    and "list_all (\<lambda>s. length s = 4) pairs" "list_all (\<lambda>s. length s = 4) suites"
    and "body = vers @ cipher @ le_bytes (length pairs) @ concat pairs @ le_bytes (length suites) @ concat suites @ post"
    and "length body < 256" "list_all (\<lambda>e. fst e \<noteq> RSN_ID \<and> length (snd e) < 256) before"
    and "ie = concat (map (\<lambda>(i, b). i # of_nat (length b) # b) before) @ RSN_ID # of_nat (length body) # body @ others"
  shows "security_from_ies ie capability =
    (let akm = \<lambda>t. t \<in> last ` set suites in
     if akm 8 then ''sae'' else if akm 18 then ''owe'' else if akm 1 \<or> akm 5 then ''wpa-eap'' else ''wpa-psk'')"
proof -
  have len4: "length (concat xs) = 4 * length xs" if "list_all (\<lambda>s. length s = 4) xs" for xs :: "u8 list list"
    using that by (induction xs) auto
  have small: "length pairs < 65536" "length suites < 65536"
    using assms(1-6) len4 by auto
  obtain v1 v2 where v: "vers = [v1, v2]"
    using assms(1) by (auto simp: numeral_eq_Suc length_Suc_conv)
  obtain g1 g2 g3 g4 where g: "cipher = [g1, g2, g3, g4]"
    using assms(2) by (auto simp: numeral_eq_Suc length_Suc_conv)
  let ?tail = "le_bytes (length suites) @ concat suites @ post"
  let ?k = "8 + 4 * length pairs"
  have pre: "length ([v1, v2, g1, g2, g3, g4] @ le_bytes (length pairs) @ concat pairs) = ?k"
    using len4[OF assms(3)] by (simp add: le_bytes_def)
  have body: "body = ([v1, v2, g1, g2, g3, g4] @ le_bytes (length pairs) @ concat pairs) @ ?tail"
    by (simp add: assms(5) v g)
  have n1: "le16 (body ! 6) (body ! 7) = length pairs"
    using le16_bytes[OF small(1)] by (simp add: body le_bytes_def)
  have n2: "body ! ?k = of_nat (length suites mod 256)" "body ! Suc ?k = of_nat (length suites div 256)"
    unfolding body by (simp_all only: nth_append pre) (simp_all add: le_bytes_def)
  have "akm_loop (length suites) ((([v1, v2, g1, g2, g3, g4] @ le_bytes (length pairs) @ concat pairs)
      @ le_bytes (length suites)) @ concat suites @ post) (?k + 2) = map last suites"
    using pre by (intro akm_loop_read[OF assms(4)]) (simp add: le_bytes_def)
  then have "rsn_akm_suites body = Some (map last suites)"
    using n1 n2 le16_bytes[OF small(2)] pre len4[OF assms(3)]
    by (simp add: rsn_akm_suites_def Let_def body le_bytes_def)
  moreover have "elements (concat (map (\<lambda>(i, b). i # of_nat (length b) # b) before) @ bs) = before @ elements bs" for bs
    using assms(7) by (induction before) (auto simp: unsigned_of_nat take_bit_nat_eq_self)
  then have "find (\<lambda>e. fst e = RSN_ID) (elements ie) = Some (RSN_ID, body)"
    using assms(6,7) find_None_iff2[of "\<lambda>e. fst e = RSN_ID" before]
    by (simp add: assms(8) find_append list_all_iff unsigned_of_nat take_bit_nat_eq_self)
  ultimately show ?thesis
    using security_from_ies_spec[of ie capability]
    by (simp add: security_of_def rsn_security_def list_ex_iff Let_def image_iff)
qed

theorem rsn_priority_witness:
  "security_from_ies ([0, 2, 0x68, 0x69] @ [48, 24, 1, 0, 0, 0x0F, 0xAC, 4, 1, 0, 0, 0x0F, 0xAC, 4,
     2, 0, 0, 0x0F, 0xAC, 2, 0, 0x0F, 0xAC, 8, 0, 0]) 0x11 = ''sae''"
  using rsn_priority[of "[1, 0]" "[0, 0x0F, 0xAC, 4]" "[[0, 0x0F, 0xAC, 4]]" "[[0, 0x0F, 0xAC, 2], [0, 0x0F, 0xAC, 8]]"
      _ "[0, 0]" "[(0, [0x68, 0x69])]" _ "[]" "0x11", OF _ _ _ _ refl _ _ refl]
  by (simp add: le_bytes_def RSN_ID_def)

end
