(* ===== verification/NetDaemon.thy ===== *)
theory NetDaemon
  imports NetWire NetChild WifiScan
begin

text \<open>
  The connectivity daemon (\<open>wandr-net\<close>, \<open>main.rs\<close>): how it brings the link up,
  answers its control socket and watches the carrier.

  Everything outside the process is the record \<open>NetWorld\<close>: each call to it is numbered and
  the number is an argument of the answer.  What the daemon does is the log \<open>nd_log\<close>.  Two
  threads share the link under a lock, the monitor and the control server, and a third one sweeps
  for access points; a step of the model is what one thread does between two points at which
  another one can be noticed: taking the lock, sending one line to the arbiter, answering, bringing
  the link up.  A report is two lines over two connections, sent without the lock, so it is two
  steps, and those of the other thread may come between them.

  The answers are total functions: that a child, a HAL call, a file or the arbiter never answers is
  not in the model.  A line that does not reach the arbiter is in the log with that result.
\<close>

section \<open>The world and the state\<close>

record SuOut =
  so_code :: "int option"
  so_out :: string
  so_err :: string

text \<open>
  \<open>nw_exe\<close>: the path of the running program.  \<open>nw_store\<close>: the framework's file.
  \<open>nw_carrier\<close>: the carrier file.  \<open>nw_su\<close>: what \<open>su 1000 -c\<close> gives.
  \<open>nw_spawn\<close>: the error of starting the supplicant.  \<open>nw_dhcp\<close>: the hardware
  address file, the error of opening the socket, the socket and the transaction id.
  \<open>nw_tell\<close>: whether a line sent to the arbiter arrives.  \<open>nw_now\<close>: a monotonic clock, in milliseconds.
\<close>

record NetWorld =
  nw_exe :: "string + string"
  nw_arbiter :: "nat \<Rightarrow> string \<Rightarrow> string option"
  nw_tell :: "nat \<Rightarrow> string \<Rightarrow> bool"
  nw_store :: "nat \<Rightarrow> string + string"
  nw_carrier :: "nat \<Rightarrow> string option"
  nw_su :: "nat \<Rightarrow> string \<Rightarrow> string + SuOut"
  nw_spawn :: "nat \<Rightarrow> string option"
  nw_dhcp :: "nat \<Rightarrow> (string + string) \<times> string option \<times> Sock \<times> u32"
  nw_now :: "nat \<Rightarrow> nat"
  nw_radio :: "nat \<Rightarrow> bool"
  nw_scan :: "nat \<Rightarrow> ScanEntry list option"

text \<open>The two threads that report: the main one, which becomes the monitor, and the control server.\<close>

datatype Thread = Watching | Controlling

datatype NetAct =
    NQuery string
  | NTell Thread string bool
  | NStore
  | NCarrier
  | NSu string
  | NCleanup
  | NSpawn
  | NDhcp
  | NNow
  | NSleep nat
  | NRadio
  | NSweep
  | NReply string

record Link =
  supplicant :: bool
  status :: LinkStatus

text \<open>
  Where the two threads are.  The monitor: asleep; it has looked whether there is a link; about to
  bring the link up; about to store a new link; about to read the status; about to report a status;
  about to publish it, after the report; the flag of the last two is that it has lost the carrier
  and will bring the link up next.  The control server: waiting for a line; waiting for the lock;
  bringing a link up under the lock; about to report the new status; about to publish it; about to
  answer the client.
\<close>

datatype Monitor =
    Sleeping
  | Woke bool
  | Associating
  | Storing Link
  | Polling
  | Announcing LinkStatus bool
  | Publishing LinkStatus bool

datatype Control =
    Serving
  | Locking WifiCreds
  | Connecting WifiCreds
  | Confirming string LinkStatus
  | Echoing string LinkStatus
  | Answering string LinkStatus

record NetD =
  link :: "Link option"
  nd_ticks :: u32
  scan_cache :: "(ScanEntry list \<times> nat) option"
  scan_inflight :: bool
  sweeps :: nat
  mon :: Monitor
  ctl :: Control
  nd_calls :: nat
  nd_log :: "NetAct list"

definition nact :: "NetAct \<Rightarrow> NetD \<Rightarrow> NetD" where
  "nact a d = d\<lparr>nd_calls := Suc (nd_calls d), nd_log := nd_log d @ [a]\<rparr>"

definition read_carrier :: "NetWorld \<Rightarrow> NetD \<Rightarrow> bool \<times> NetD" where
  "read_carrier w d = (has_carrier (nw_carrier w (nd_calls d)), nact NCarrier d)"

definition query_arbiter :: "NetWorld \<Rightarrow> string \<Rightarrow> NetD \<Rightarrow> string option \<times> NetD" where
  "query_arbiter w line d = (nw_arbiter w (nd_calls d) line, nact (NQuery line) d)"

text \<open>A line is sent once, and a failure is ignored.\<close>

definition send_arbiter :: "NetWorld \<Rightarrow> Thread \<Rightarrow> string \<Rightarrow> NetD \<Rightarrow> NetD" where
  "send_arbiter w t line d = nact (NTell t line (nw_tell w (nd_calls d) line)) d"

text \<open>The whole report, of a process that has one thread.\<close>

definition report :: "NetWorld \<Rightarrow> LinkStatus \<Rightarrow> NetD \<Rightarrow> NetD" where
  "report w s d = fold (send_arbiter w Watching) (report_lines s) d"

definition reply :: "string \<Rightarrow> NetD \<Rightarrow> NetD" where
  "reply r d = nact (NReply r) d"

section \<open>Children\<close>

definition debug_code :: "int option \<Rightarrow> string" where
  "debug_code c = (case c of None \<Rightarrow> ''None'' | Some n \<Rightarrow> ''Some('' @ show_int n @ '')'')"

definition run_su :: "NetWorld \<Rightarrow> string \<Rightarrow> NetD \<Rightarrow> (string + SuOut) \<times> NetD" where
  "run_su w inner d =
     (map_sum (\<lambda>e. ''su 1000 spawn: '' @ e) id (nw_su w (nd_calls d) inner), nact (NSu inner) d)"

definition su_ok :: "SuOut \<Rightarrow> bool" where
  "su_ok out \<longleftrightarrow> so_code out = Some 0"

definition self_exe :: "NetWorld \<Rightarrow> string + string" where
  "self_exe w = map_sum (\<lambda>e. ''current_exe: '' @ e) utf8_lossy (nw_exe w)"

definition failed_with :: "string \<Rightarrow> SuOut \<Rightarrow> string" where
  "failed_with what out =
     what @ '' failed (exit '' @ debug_code (so_code out) @ ''): '' @ trim (utf8_lossy (so_out out)) @ '' ''
     @ trim (utf8_lossy (so_err out))"

definition associate_via_hal :: "NetWorld \<Rightarrow> WifiCreds \<Rightarrow> NetD \<Rightarrow> (string + unit) \<times> NetD" where
  "associate_via_hal w c d =
     (case self_exe w of
        Inl e \<Rightarrow> (Inl e, d)
      | Inr exe \<Rightarrow>
          (let (res, d1) = run_su w (associate_line exe c) d in
           (case res of
              Inl e \<Rightarrow> Inl e
            | Inr out \<Rightarrow> if su_ok out then Inr () else Inl (failed_with ''associate'' out), d1)))"

definition run_self_su1000 :: "NetWorld \<Rightarrow> string \<Rightarrow> NetD \<Rightarrow> (string + string) \<times> NetD" where
  "run_self_su1000 w flag d =
     (case self_exe w of
        Inl e \<Rightarrow> (Inl e, d)
      | Inr exe \<Rightarrow>
          (let (res, d1) = run_su w (flag_line exe flag) d in
           (case res of
              Inl e \<Rightarrow> Inl e
            | Inr out \<Rightarrow>
                (let stdout = trim (utf8_lossy (so_out out)) in
                 if su_ok out then Inr stdout
                 else Inl (flag @ '' failed: '' @ stdout @ '' '' @ trim (utf8_lossy (so_err out)))), d1)))"

definition power_chip_via_hal :: "NetWorld \<Rightarrow> NetD \<Rightarrow> (string + unit) \<times> NetD" where
  "power_chip_via_hal w d = map_prod (map_sum id (\<lambda>_. ())) id (run_self_su1000 w ''--power-chip'' d)"

definition configure_netd :: "NetWorld \<Rightarrow> DhcpLease \<Rightarrow> NetD \<Rightarrow> (string + unit) \<times> NetD" where
  "configure_netd w l d =
     (case l_gateway l of
        None \<Rightarrow> (Inl (''lease has no gateway '' @ [CHR 0xE2, CHR 0x80, CHR 0x94] @ '' cannot set default network''), d)
      | Some gw \<Rightarrow>
          (case self_exe w of
             Inl e \<Rightarrow> (Inl e, d)
           | Inr exe \<Rightarrow>
               (let (res, d1) = run_su w (netd_line exe l gw) d in
                (case res of
                   Inl e \<Rightarrow> Inl e
                 | Inr out \<Rightarrow> if su_ok out then Inr () else Inl (failed_with ''netd-config'' out), d1))))"

section \<open>Bringing the link up\<close>

definition read_now :: "NetWorld \<Rightarrow> NetD \<Rightarrow> nat \<times> NetD" where
  "read_now w d = (nw_now w (nd_calls d), nact NNow d)"

text \<open>The wait for the carrier ends only if the clock moves.\<close>

partial_function (option) wait_carrier :: "NetWorld \<Rightarrow> nat \<Rightarrow> NetD \<Rightarrow> (bool \<times> NetD) option" where
  "wait_carrier w deadline d =
     (let (t, d1) = read_now w d in
      if t < deadline then
        (let (c, d2) = read_carrier w d1 in
         if c then Some (True, d2) else wait_carrier w deadline (nact (NSleep 400) d2))
      else Some (False, d1))"

definition lease_link :: "NetWorld \<Rightarrow> WifiCreds \<Rightarrow> bool \<Rightarrow> NetD \<Rightarrow> (string + Link) \<times> NetD" where
  "lease_link w c child d =
     (let (addr, open_err, sk, xid) = nw_dhcp w (nd_calls d);
          d1 = nact NDhcp d
      in case fst (acquire_lease addr open_err sk xid 4 \<lparr>reads = 0, sent = []\<rparr>) of
           Inl e \<Rightarrow> (Inl (''dhcp: '' @ e), d1)
         | Inr l \<Rightarrow>
             (let (res, d2) = configure_netd w l d1 in
              (case res of
                 Inl e \<Rightarrow> Inl e
               | Inr _ \<Rightarrow> Inr \<lparr>supplicant = child,
                   status = \<lparr>up = True, ls_ssid = Some (c_ssid c), ls_ip = Some (l_ip l),
                             ls_gateway = l_gateway l, ls_dns = l_dns l\<rparr>\<rparr>, d2)))"

definition spawn_supplicant :: "NetWorld \<Rightarrow> NetD \<Rightarrow> (string + unit) \<times> NetD" where
  "spawn_supplicant w d =
     (case nw_spawn w (nd_calls d) of
        Some e \<Rightarrow> Inl (''spawn supplicant: '' @ e)
      | None \<Rightarrow> Inr (), nact NSpawn d)"

definition CARRIER_WAIT :: nat where "CARRIER_WAIT = 25000"

text \<open>The association, up to the carrier.\<close>

definition associate :: "NetWorld \<Rightarrow> WifiCreds \<Rightarrow> NetD \<Rightarrow> ((string + unit) \<times> NetD) option" where
  "associate w c d =
     (let (power, d1) = power_chip_via_hal w d in
      case power of
        Inl e \<Rightarrow> Some (Inl e, d1)
      | Inr _ \<Rightarrow>
          (let (spawned, d2) = spawn_supplicant w (nact NCleanup d1) in
           case spawned of
             Inl e \<Rightarrow> Some (Inl e, d2)
           | Inr _ \<Rightarrow>
               (let (assoc, d3) = associate_via_hal w c d2 in
                case assoc of
                  Inl e \<Rightarrow> Some (Inl e, d3)
                | Inr _ \<Rightarrow>
                    (let (t, d4) = read_now w d3 in
                     map_option
                       (\<lambda>(ok, d5). (if ok then Inr () else Inl ''association timed out (no carrier after select)'', d5))
                       (wait_carrier w (t + CARRIER_WAIT) d4)))))"

definition bring_up_with :: "NetWorld \<Rightarrow> WifiCreds \<Rightarrow> bool \<Rightarrow> NetD \<Rightarrow> ((string + Link) \<times> NetD) option" where
  "bring_up_with w c force_assoc d =
     (let (carrier, d1) = read_carrier w d in
      if carrier \<and> \<not> force_assoc then Some (lease_link w c False d1)
      else
        map_option
          (\<lambda>(res, d2). (case res of Inl e \<Rightarrow> (Inl e, d2) | Inr _ \<Rightarrow> lease_link w c True d2))
          (associate w c d1))"

definition choose_creds :: "NetWorld \<Rightarrow> NetD \<Rightarrow> (string + WifiCreds) \<times> NetD" where
  "choose_creds w d =
     (let (r, d1) = query_arbiter w ''wifi-auto-network'' d in
      case saved_creds_from_arbiter r of
        Some c \<Rightarrow> (Inr c, d1)
      | None \<Rightarrow>
          (case read_saved_creds (nw_store w (nd_calls d1)) of
             Inl e \<Rightarrow> Inl (''read creds: '' @ e)
           | Inr [] \<Rightarrow> Inl ''no auto-connect network (arbiter store empty + WifiConfigStore.xml has none)''
           | Inr (c # _) \<Rightarrow> Inr c, nact NStore d1))"

definition bring_up :: "NetWorld \<Rightarrow> NetD \<Rightarrow> ((string + Link) \<times> NetD) option" where
  "bring_up w d =
     (let (res, d1) = choose_creds w d in
      case res of Inl e \<Rightarrow> Some (Inl e, d1) | Inr c \<Rightarrow> bring_up_with w c False d1)"

section \<open>The control socket\<close>

definition SCAN_TTL :: nat where "SCAN_TTL = 8000"

definition ap_line :: "ScanEntry \<Rightarrow> string" where
  "ap_line ap = ''ap ssid='' @ b64_encode (se_ssid ap) @ '' bssid='' @ se_bssid ap @ '' rssi='' @ show_int (rssi_dbm ap)
     @ '' freq='' @ show_u32 (frequency_mhz ap) @ '' sec='' @ se_security ap @ '' connected='' @ show_bit (se_connected ap)
     @ [CHR 0x0A]"

definition control_scan :: "NetWorld \<Rightarrow> NetD \<Rightarrow> string \<times> NetD" where
  "control_scan w d =
     (let snapshot = scan_cache d;
          (stale, d1) = (case snapshot of
             None \<Rightarrow> (True, d)
           | Some (_, t) \<Rightarrow> (let (now, d1) = read_now w d in (now - t > SCAN_TTL, d1)));
          d2 = (if stale then
                  (if scan_inflight d1 then d1
                   else nact NSweep (d1\<lparr>scan_inflight := True, sweeps := Suc (sweeps d1)\<rparr>))
                else d1);
          aps = (case snapshot of None \<Rightarrow> [] | Some (a, _) \<Rightarrow> a)
      in (concat (map ap_line aps) @ ''ok count='' @ show_nat (length aps) @ [CHR 0x0A], d2))"

text \<open>The thread that sweeps, when it is done.\<close>

definition sweep_done :: "NetWorld \<Rightarrow> NetD \<Rightarrow> NetD" where
  "sweep_done w d =
     (let d1 = (case nw_scan w (nd_calls d) of
                  None \<Rightarrow> d
                | Some aps \<Rightarrow> (let (now, d1) = read_now w d in d1\<lparr>scan_cache := Some (aps, now)\<rparr>))
      in d1\<lparr>scan_inflight := False, sweeps := sweeps d1 - 1\<rparr>)"

definition control_set_enabled :: "NetWorld \<Rightarrow> string \<Rightarrow> NetD \<Rightarrow> string \<times> NetD" where
  "control_set_enabled w rest d =
     (let on = rest \<in> {''1'', ''true'', ''on''};
          (res, d1) = run_self_su1000 w (if on then ''--power-chip'' else ''--stop-chip'') d
      in (case res of
            Inr _ \<Rightarrow> ''ok enabled='' @ show_bit on @ [CHR 0x0A]
          | Inl e \<Rightarrow> ''err set-enabled '' @ e @ [CHR 0x0A], d1))"

definition radio_enabled :: "NetWorld \<Rightarrow> NetD \<Rightarrow> bool \<times> NetD" where
  "radio_enabled w d = (nw_radio w (nd_calls d), nact NRadio d)"

text \<open>The arguments of \<open>connect\<close>: an error, or the network to join.\<close>

definition connect_args :: "string \<Rightarrow> string + WifiCreds" where
  "connect_args rest =
     (case split_ws rest of
        bs # bp # _ \<Rightarrow>
          (let s = b64_to_string bs; p = b64_to_string bp in
           if s = [] then Inl (''err connect empty-ssid'' @ [CHR 0x0A]) else Inr \<lparr>c_ssid = s, c_psk = p\<rparr>)
      | _ \<Rightarrow> Inl (''err connect-usage <b64ssid> <b64psk>'' @ [CHR 0x0A]))"

text \<open>One line of a client: every verb but \<open>connect\<close> is answered in one step.\<close>

definition dispatch_control :: "NetWorld \<Rightarrow> string \<Rightarrow> NetD \<Rightarrow> (string + WifiCreds) \<times> NetD" where
  "dispatch_control w line d =
     (let (verb, rest) = or_default (line, []) (split_once (CHR '' '') line) in
      if verb = ''scan'' then map_prod Inl id (control_scan w d)
      else if verb = ''connect'' then (connect_args (trim rest), d)
      else if verb = ''set-enabled'' then map_prod Inl id (control_set_enabled w (trim rest) d)
      else if verb = ''is-enabled'' then
        (let (on, d1) = radio_enabled w d in (Inl (''ok enabled='' @ show_bit on @ [CHR 0x0A]), d1))
      else if verb = [] then (Inl [], d)
      else (Inl (''err unknown-verb '' @ verb @ [CHR 0x0A]), d))"

definition handle_control_conn :: "NetWorld \<Rightarrow> string \<Rightarrow> NetD \<Rightarrow> NetD" where
  "handle_control_conn w line d =
     (let (res, d1) = dispatch_control w (trim line) d in
      case res of Inl r \<Rightarrow> reply r d1 | Inr c \<Rightarrow> d1\<lparr>ctl := Locking c\<rparr>)"

text \<open>What \<open>connect\<close> does under the lock, and after it.\<close>

definition control_connect :: "NetWorld \<Rightarrow> WifiCreds \<Rightarrow> NetD \<Rightarrow> NetD option" where
  "control_connect w c d =
     map_option
       (\<lambda>(res, d1). (case res of
          Inl e \<Rightarrow> reply (''err connect '' @ e @ [CHR 0x0A]) (d1\<lparr>ctl := Serving\<rparr>)
        | Inr l \<Rightarrow> d1\<lparr>link := Some l, ctl := Confirming (c_ssid c) (status l)\<rparr>))
       (bring_up_with w c True d)"

definition confirm_connect :: "string \<Rightarrow> LinkStatus \<Rightarrow> NetD \<Rightarrow> NetD" where
  "confirm_connect s st d =
     reply (''ok online ssid='' @ b64_encode s @ '' ip='' @ or_default ''-'' (map_option show_ip (ls_ip st)) @ [CHR 0x0A])
       (d\<lparr>ctl := Serving\<rparr>)"

section \<open>The monitor\<close>

definition mon_check :: "NetWorld \<Rightarrow> bool \<Rightarrow> NetD \<Rightarrow> NetD" where
  "mon_check w have_link d =
     (if \<not> have_link then d\<lparr>mon := Associating\<rparr>
      else
        (let (carrier, d1) = read_carrier w d in
         if \<not> carrier then d1\<lparr>mon := Announcing LinkStatus_default True\<rparr>
         else d1\<lparr>mon := (if nd_ticks d1 mod 6 = 0 then Polling else Sleeping)\<rparr>))"

definition mon_bring_up :: "NetWorld \<Rightarrow> NetD \<Rightarrow> NetD option" where
  "mon_bring_up w d =
     map_option (\<lambda>(res, d1). d1\<lparr>mon := (case res of Inl _ \<Rightarrow> Sleeping | Inr l \<Rightarrow> Storing l)\<rparr>) (bring_up w d)"

section \<open>Steps\<close>

text \<open>The lock is held for longer than an instant only while a \<open>connect\<close> brings the link up.\<close>

definition lock_held :: "NetD \<Rightarrow> bool" where
  "lock_held d \<longleftrightarrow> (case ctl d of Connecting _ \<Rightarrow> True | _ \<Rightarrow> False)"

inductive mon_step :: "NetWorld \<Rightarrow> NetD \<Rightarrow> NetD \<Rightarrow> bool" for w where
  Wake: "mon d = Sleeping \<Longrightarrow> \<not> lock_held d \<Longrightarrow>
    mon_step w d (d\<lparr>mon := Woke (link d \<noteq> None), nd_ticks := nd_ticks d + 1\<rparr>)"
| Check: "mon d = Woke have \<Longrightarrow> mon_step w d (mon_check w have d)"
| Bring: "mon d = Associating \<Longrightarrow> mon_bring_up w d = Some d' \<Longrightarrow> mon_step w d d'"
| Keep: "mon d = Storing l \<Longrightarrow> \<not> lock_held d \<Longrightarrow>
    mon_step w d (d\<lparr>link := Some l, mon := Announcing (status l) False\<rparr>)"
| Poll: "mon d = Polling \<Longrightarrow> \<not> lock_held d \<Longrightarrow>
    mon_step w d (d\<lparr>mon := Announcing (case link d of None \<Rightarrow> LinkStatus_default | Some l \<Rightarrow> status l) False\<rparr>)"
| Announce: "mon d = Announcing s lost \<Longrightarrow>
    mon_step w d (send_arbiter w Watching (state_line s) (d\<lparr>mon := Publishing s lost\<rparr>))"
| Publish: "mon d = Publishing s lost \<Longrightarrow>
    mon_step w d (send_arbiter w Watching (publish_line s) (d\<lparr>mon := (if lost then Associating else Sleeping)\<rparr>))"

inductive ctl_step :: "NetWorld \<Rightarrow> NetD \<Rightarrow> NetD \<Rightarrow> bool" for w where
  Line: "ctl d = Serving \<Longrightarrow> ctl_step w d (handle_control_conn w line d)"
| Lock: "ctl d = Locking c \<Longrightarrow> ctl_step w d (d\<lparr>ctl := Connecting c\<rparr>)"
| Connect: "ctl d = Connecting c \<Longrightarrow> control_connect w c d = Some d' \<Longrightarrow> ctl_step w d d'"
| Confirm: "ctl d = Confirming s st \<Longrightarrow>
    ctl_step w d (send_arbiter w Controlling (state_line st) (d\<lparr>ctl := Echoing s st\<rparr>))"
| Echo: "ctl d = Echoing s st \<Longrightarrow>
    ctl_step w d (send_arbiter w Controlling (publish_line st) (d\<lparr>ctl := Answering s st\<rparr>))"
| Answer: "ctl d = Answering s st \<Longrightarrow> ctl_step w d (confirm_connect s st d)"

text \<open>The daemon: one of its threads makes a step.\<close>

inductive net_step :: "NetWorld \<Rightarrow> NetD \<Rightarrow> NetD \<Rightarrow> bool" for w where
  Monitor: "mon_step w d d' \<Longrightarrow> net_step w d d'"
| Control: "ctl_step w d d' \<Longrightarrow> net_step w d d'"
| Sweep: "0 < sweeps d \<Longrightarrow> net_step w d (sweep_done w d)"

definition net_start :: NetD where
  "net_start = \<lparr>link = None, nd_ticks = 0, scan_cache = None, scan_inflight = False, sweeps = 0,
     mon = Sleeping, ctl = Serving, nd_calls = 0, nd_log = []\<rparr>"

text \<open>The start of the resident daemon, up to the two threads.\<close>

definition net_boot :: "NetWorld \<Rightarrow> NetD option" where
  "net_boot w =
     map_option
       (\<lambda>(res, d). (case res of
          Inr l \<Rightarrow> (report w (status l) d)\<lparr>link := Some l\<rparr>
        | Inl _ \<Rightarrow> report w LinkStatus_default d))
       (bring_up w net_start)"

inductive net_reachable :: "NetWorld \<Rightarrow> NetD \<Rightarrow> bool" for w where
  Boot: "net_boot w = Some d \<Longrightarrow> net_reachable w d"
| Step: "net_reachable w d \<Longrightarrow> net_step w d d' \<Longrightarrow> net_reachable w d'"

text \<open>
  The one-shot modes that bring the link up: \<open>--once\<close>, with its exit code, and
  \<open>--connect\<close>, up to its monitor, which serves no control socket.
\<close>

definition net_once :: "NetWorld \<Rightarrow> (int \<times> NetD) option" where
  "net_once w =
     map_option
       (\<lambda>(res, d). (case res of
          Inr l \<Rightarrow> (0, report w (status l) d)
        | Inl _ \<Rightarrow> (1, report w LinkStatus_default d)))
       (bring_up w net_start)"

definition net_connect_once :: "NetWorld \<Rightarrow> string \<Rightarrow> string \<Rightarrow> (int + NetD) option" where
  "net_connect_once w s p =
     map_option
       (\<lambda>(res, d). (case res of
          Inr l \<Rightarrow> Inr ((report w (status l) d)\<lparr>link := Some l\<rparr>)
        | Inl _ \<Rightarrow> Inl 1))
       (bring_up_with w \<lparr>c_ssid = s, c_psk = p\<rparr> True net_start)"

end
