(* ===== verification/NetRun.thy ===== *)
theory NetRun
  imports NetDaemon
begin

text \<open>
  What holds of the connectivity daemon in every order of its threads: what it reports, what it
  takes to be online, and that it is never stuck; and the runs in which it goes wrong.
\<close>

section \<open>What the arbiter is told\<close>

text \<open>The lines one thread has handed to its connections, in order, whether or not they arrived.\<close>

definition told :: "NetD \<Rightarrow> Thread \<Rightarrow> string list" where
  "told d t = List.map_filter (\<lambda>a. case a of NTell t' l _ \<Rightarrow> if t' = t then Some l else None | _ \<Rightarrow> None) (nd_log d)"

definition status_ok :: "LinkStatus \<Rightarrow> bool" where
  "status_ok s \<longleftrightarrow> (up s \<longrightarrow> (\<exists>n a. ls_ssid s = Some n \<and> n \<noteq> [] \<and> ls_ip s = Some a))"

text \<open>The status a thread has reported and not yet published, if it is between the two.\<close>

definition mon_half :: "Monitor \<Rightarrow> LinkStatus list" where
  "mon_half m = (case m of Publishing s _ \<Rightarrow> [s] | _ \<Rightarrow> [])"

definition ctl_half :: "Control \<Rightarrow> LinkStatus list" where
  "ctl_half c = (case c of Echoing _ s \<Rightarrow> [s] | _ \<Rightarrow> [])"

definition half_told :: "NetD \<Rightarrow> Thread \<Rightarrow> LinkStatus list" where
  "half_told d t = (case t of Watching \<Rightarrow> mon_half (mon d) | Controlling \<Rightarrow> ctl_half (ctl d))"

definition reports_ok :: "string list \<Rightarrow> LinkStatus list \<Rightarrow> bool" where
  "reports_ok ls hs \<longleftrightarrow>
     (\<exists>ss. ls = concat (map report_lines ss) @ map state_line hs \<and> list_all status_ok (ss @ hs))"

text \<open>A step of one thread that touches the world and tells the arbiter nothing.\<close>

definition io_only :: "NetD \<Rightarrow> NetD \<Rightarrow> bool" where
  "io_only d d' \<longleftrightarrow> (\<forall>t. told d' t = told d t) \<and> link d' = link d \<and> mon d' = mon d \<and> ctl d' = ctl d \<and> sweeps d' = sweeps d
     \<and> scan_inflight d' = scan_inflight d \<and> scan_cache d' = scan_cache d \<and> nd_ticks d' = nd_ticks d
     \<and> (\<exists>as. nd_log d' = nd_log d @ as)"

lemma map_filter_append: "List.map_filter f (xs @ ys) = List.map_filter f xs @ List.map_filter f ys"
  by (induction xs) (auto simp: List.map_filter_simps split: option.split)

lemma told_nact [simp]:
  "told (nact a d) t = told d t @ (case a of NTell t' l _ \<Rightarrow> if t' = t then [l] else [] | _ \<Rightarrow> [])"
  by (simp add: told_def nact_def map_filter_append List.map_filter_simps split: NetAct.split)

lemma told_cong [simp]:
  "told (d\<lparr>link := x\<rparr>) = told d" "told (d\<lparr>mon := m\<rparr>) = told d" "told (d\<lparr>ctl := c\<rparr>) = told d"
  "told (d\<lparr>scan_inflight := b\<rparr>) = told d" "told (d\<lparr>sweeps := n\<rparr>) = told d" "told (d\<lparr>scan_cache := sc\<rparr>) = told d"
  "told (d\<lparr>nd_ticks := k\<rparr>) = told d"
  by (simp_all add: told_def fun_eq_iff)

lemma nact_simps [simp]:
  "link (nact a d) = link d" "mon (nact a d) = mon d" "ctl (nact a d) = ctl d" "sweeps (nact a d) = sweeps d"
  "scan_inflight (nact a d) = scan_inflight d" "scan_cache (nact a d) = scan_cache d" "nd_ticks (nact a d) = nd_ticks d"
  "nd_calls (nact a d) = Suc (nd_calls d)" "nd_log (nact a d) = nd_log d @ [a]"
  by (simp_all add: nact_def)

lemma send_simps [simp]:
  "told (send_arbiter w u line d) t = told d t @ (if u = t then [line] else [])"
  "link (send_arbiter w u line d) = link d" "mon (send_arbiter w u line d) = mon d" "ctl (send_arbiter w u line d) = ctl d"
  "sweeps (send_arbiter w u line d) = sweeps d" "scan_inflight (send_arbiter w u line d) = scan_inflight d"
  "\<exists>b. nd_log (send_arbiter w u line d) = nd_log d @ [NTell u line b]"
  by (simp_all add: send_arbiter_def)

lemma report_told [simp]:
  "told (report w s d) t = told d t @ (if t = Watching then report_lines s else [])"
  by (cases t) (simp_all add: report_def report_lines_def)

lemma report_simps [simp]:
  "link (report w s d) = link d" "mon (report w s d) = mon d" "ctl (report w s d) = ctl d" "sweeps (report w s d) = sweeps d"
  "scan_inflight (report w s d) = scan_inflight d"
  by (simp_all add: report_def report_lines_def)

lemma reports_ok_Nil [simp]: "reports_ok [] []"
  unfolding reports_ok_def by (intro exI[of _ "[]"]) simp

lemma reports_ok_whole: "reports_ok ls [] \<Longrightarrow> status_ok s \<Longrightarrow> reports_ok (ls @ report_lines s) []"
  unfolding reports_ok_def by (elim exE, rule_tac x = "ss @ [s]" in exI) simp

lemma reports_ok_half: "reports_ok ls [] \<Longrightarrow> status_ok s \<Longrightarrow> reports_ok (ls @ [state_line s]) [s]"
  unfolding reports_ok_def by auto

lemma reports_ok_second: "reports_ok ls [s] \<Longrightarrow> reports_ok (ls @ [publish_line s]) []"
  unfolding reports_ok_def by (elim exE, rule_tac x = "ss @ [s]" in exI) (simp add: report_lines_def)

lemma status_ok_default [simp]: "status_ok LinkStatus_default"
  by (simp add: status_ok_def LinkStatus_default_def)

section \<open>Bringing the link up\<close>

lemma io_only_refl [simp]: "io_only d d"
  by (simp add: io_only_def)

lemma io_only_trans [trans]: "io_only d d1 \<Longrightarrow> io_only d1 d2 \<Longrightarrow> io_only d d2"
  by (auto simp: io_only_def)

lemma io_only_nact: "\<forall>t l b. a \<noteq> NTell t l b \<Longrightarrow> io_only d (nact a d)"
  by (cases a) (auto simp: io_only_def)

lemma io_steps:
  "io_only d (snd (read_carrier w d))" "io_only d (snd (read_now w d))" "io_only d (snd (query_arbiter w line d))"
  "io_only d (snd (run_su w line d))" "io_only d (snd (spawn_supplicant w d))" "io_only d (snd (radio_enabled w d))"
  by (simp_all add: read_carrier_def read_now_def query_arbiter_def run_su_def spawn_supplicant_def radio_enabled_def io_only_nact)

lemma io_children:
  "io_only d (snd (associate_via_hal w c d))" "io_only d (snd (run_self_su1000 w f d))"
  "io_only d (snd (power_chip_via_hal w d))" "io_only d (snd (configure_netd w l d))"
  using io_steps(4)[of d w]
  by (simp_all add: associate_via_hal_def run_self_su1000_def power_chip_via_hal_def configure_netd_def case_prod_beta Let_def
      split: sum.split option.split)

lemma io_lease: "io_only d (snd (lease_link w c ch d))"
proof -
  have "io_only d (nact NDhcp d)" by (simp add: io_only_nact)
  then show ?thesis
    using io_only_trans[OF _ io_children(4)] by (auto simp: lease_link_def case_prod_beta Let_def split: sum.split)
qed

lemma io_wait: "wait_carrier w dl d = Some y \<Longrightarrow> io_only d (snd y)"
proof (erule wait_carrier.raw_induct[where P = "\<lambda>w dl d y. io_only d (snd y)", rotated], goal_cases)
  case (1 wait w dl d y)
  let ?d2 = "nact NCarrier (nact NNow d)"
  have 2: "io_only d (nact NNow d)" "io_only d ?d2" "io_only d (nact (NSleep 400) ?d2)"
    by (simp_all add: io_only_def)
  show ?case
    using 1 2 io_only_trans[OF 2(3)]
    by (auto simp: read_now_def read_carrier_def Let_def split: if_splits)
qed

lemma associate_after_power: "associate w c d = Some (res, d') \<Longrightarrow> io_only (snd (power_chip_via_hal w d)) d'"
proof -
  assume a: "associate w c d = Some (res, d')"
  obtain power d1 where p: "power_chip_via_hal w d = (power, d1)" by (cases "power_chip_via_hal w d")
  obtain sp d2 where s: "spawn_supplicant w (nact NCleanup d1) = (sp, d2)" by (cases "spawn_supplicant w (nact NCleanup d1)")
  have "io_only d1 (nact NCleanup d1)" by (simp add: io_only_nact)
  then have 2: "io_only d1 d2" using io_steps(5)[of "nact NCleanup d1" w] s by (auto dest: io_only_trans)
  obtain as d3 where h: "associate_via_hal w c d2 = (as, d3)" by (cases "associate_via_hal w c d2")
  have 3: "io_only d2 d3" using io_children(1)[of d2 w c] h by simp
  obtain t d4 where n: "read_now w d3 = (t, d4)" by (cases "read_now w d3")
  have 4: "io_only d3 d4" using io_steps(2)[of d3 w] n by simp
  have "io_only d4 d'" if "wait_carrier w (t + CARRIER_WAIT) d4 = Some (ok, d')" for ok
    using io_wait[OF that] by simp
  then show ?thesis
    using a p s h n 2 3 4
    by (auto simp: associate_def split: sum.splits) (meson io_only_trans)+
qed

lemma io_associate: "associate w c d = Some (res, d') \<Longrightarrow> io_only d d'"
  using io_only_trans[OF io_children(3) associate_after_power] .

lemma map_sum_Inr [simp]: "map_sum f id x = Inr y \<longleftrightarrow> x = Inr y"
  by (cases x) auto

text \<open>What it takes to get a link: a lease with a gateway, and a child that applied it.\<close>

definition lease_applied :: "NetWorld \<Rightarrow> WifiCreds \<Rightarrow> Link \<Rightarrow> NetD \<Rightarrow> NetD \<Rightarrow> bool" where
  "lease_applied w c l d d' \<longleftrightarrow>
     (\<exists>lease gw exe out n. status l = \<lparr>up = True, ls_ssid = Some (c_ssid c), ls_ip = Some (l_ip lease),
          ls_gateway = Some gw, ls_dns = l_dns lease\<rparr> \<and> unat (l_prefix lease) \<le> 32 \<and>
        self_exe w = Inr exe \<and> nw_su w n (netd_line exe lease gw) = Inr out \<and> su_ok out \<and>
        nd_calls d' = Suc n \<and> nd_log d' = nd_log d @ [NDhcp, NSu (netd_line exe lease gw)])"

lemma lease_link_applied:
  assumes "lease_link w c ch d = (Inr l, d')"
  shows "lease_applied w c l d d'"
proof -
  obtain addr oe sk xid where n: "nw_dhcp w (nd_calls d) = (addr, oe, sk, xid)"
    by (cases "nw_dhcp w (nd_calls d)") auto
  obtain r wd where a: "acquire_lease addr oe sk xid 4 \<lparr>reads = 0, sent = []\<rparr> = (r, wd)"
    by (cases "acquire_lease addr oe sk xid 4 \<lparr>reads = 0, sent = []\<rparr>")
  show ?thesis
  proof (cases r)
    case (Inl e)
    with assms n a show ?thesis by (simp add: lease_link_def)
  next
    case (Inr lease)
    have p: "unat (l_prefix lease) \<le> 32"
      using acquire_prefix[OF a[unfolded Inr]] .
    show ?thesis
      unfolding lease_applied_def using assms n a Inr p
      by (intro exI[of _ lease]) (auto simp: lease_link_def configure_netd_def run_su_def case_prod_beta Let_def nact_def
          split: option.splits sum.splits if_splits)
  qed
qed

lemma bring_up_with_spec:
  assumes "bring_up_with w c force d = Some (res, d')"
  shows "io_only d d'"
    "res = Inr l \<Longrightarrow> \<exists>d1. lease_applied w c l d1 d' \<and> io_only d d1"
proof -
  obtain b d0 where rc: "read_carrier w d = (b, d0)" by (cases "read_carrier w d")
  have 0: "io_only d d0" using io_steps(1)[of d w] rc by simp
  have le: "io_only d1 d2 \<and> (\<forall>l. r = Inr l \<longrightarrow> lease_applied w c l d1 d2)" if "lease_link w c ch d1 = (r, d2)" for ch d1 d2 r
    using io_lease[of d1 w c ch] lease_link_applied[of w c ch d1 _ d2] that by auto
  have "io_only d d' \<and> (\<forall>l. res = Inr l \<longrightarrow> (\<exists>d1. lease_applied w c l d1 d' \<and> io_only d d1))"
  proof (cases "b \<and> \<not> force")
    case True
    then have "lease_link w c False d0 = (res, d')"
      using assms rc by (simp add: bring_up_with_def)
    from le[OF this] 0 show ?thesis by (auto intro: io_only_trans)
  next
    case False
    then obtain r1 d1 where a: "associate w c d0 = Some (r1, d1)"
      and r: "(case r1 of Inl e \<Rightarrow> (Inl e, d1) | Inr _ \<Rightarrow> lease_link w c True d1) = (res, d')"
      using assms rc by (auto simp: bring_up_with_def)
    have 1: "io_only d d1" using 0 io_associate[OF a] by (rule io_only_trans)
    show ?thesis
    proof (cases r1)
      case (Inl e)
      with r 1 show ?thesis by auto
    next
      case (Inr u)
      then have "lease_link w c True d1 = (res, d')" using r by simp
      from le[OF this] 1 show ?thesis by (auto intro: io_only_trans)
    qed
  qed
  then show "io_only d d'" "res = Inr l \<Longrightarrow> \<exists>d1. lease_applied w c l d1 d' \<and> io_only d d1"
    by auto
qed

lemma parse_block_named: "c \<in> set (parse_saved_creds xml) \<Longrightarrow> c_ssid c \<noteq> []"
  by (auto simp: parse_saved_creds_def List.map_filter_def parse_block_def split: option.splits if_splits)

lemma arbiter_creds_named: "saved_creds_from_arbiter r = Some c \<Longrightarrow> c_ssid c \<noteq> []"
  by (cases r) (auto simp: saved_creds_from_arbiter_def Let_def bind_eq_Some_conv split: if_splits)

lemma choose_creds_spec:
  assumes "choose_creds w d = (res, d')"
  shows "io_only d d'" "res = Inr c \<Longrightarrow> c_ssid c \<noteq> []"
proof -
  obtain r d1 where q: "query_arbiter w ''wifi-auto-network'' d = (r, d1)"
    by (cases "query_arbiter w ''wifi-auto-network'' d")
  have 1: "io_only d d1" "io_only d (nact NStore d1)"
    using io_steps(3)[of d w "''wifi-auto-network''"] q io_only_nact[of NStore d1] by (auto intro: io_only_trans)
  have 2: "c \<in> set cs \<Longrightarrow> c_ssid c \<noteq> []" if "read_saved_creds f = Inr cs" for f cs
    using that parse_block_named by (cases f) (auto simp: read_saved_creds_def)
  show "io_only d d'"
    using assms q 1 by (auto simp: choose_creds_def split: option.splits)
  show "res = Inr c \<Longrightarrow> c_ssid c \<noteq> []"
    using assms q arbiter_creds_named[of r c] 2
    by (auto simp: choose_creds_def split: option.splits sum.splits list.splits)
qed

lemma lease_applied_status: "lease_applied w c l d d' \<Longrightarrow> c_ssid c \<noteq> [] \<Longrightarrow> status_ok (status l) \<and> up (status l)"
  by (auto simp: lease_applied_def status_ok_def)

lemma bring_up_spec:
  assumes "bring_up w d = Some (res, d')"
  shows "io_only d d'" "res = Inr l \<Longrightarrow> status_ok (status l) \<and> up (status l)"
proof -
  obtain r d1 where c: "choose_creds w d = (r, d1)" by (cases "choose_creds w d")
  note cs = choose_creds_spec[OF c]
  show "io_only d d'"
    using assms c cs(1) bring_up_with_spec(1) io_only_trans by (fastforce simp: bring_up_def split: sum.splits)
  show "res = Inr l \<Longrightarrow> status_ok (status l) \<and> up (status l)"
    using assms c cs(2) bring_up_with_spec(2) lease_applied_status by (fastforce simp: bring_up_def split: sum.splits)
qed

section \<open>The invariant of the threads\<close>

definition mon_ok :: "Monitor \<Rightarrow> bool" where
  "mon_ok m \<longleftrightarrow> (case m of Storing l \<Rightarrow> status_ok (status l) \<and> up (status l) | Announcing s _ \<Rightarrow> status_ok s | _ \<Rightarrow> True)"

definition ctl_ok :: "Control \<Rightarrow> bool" where
  "ctl_ok c \<longleftrightarrow> (case c of Locking c \<Rightarrow> c_ssid c \<noteq> [] | Connecting c \<Rightarrow> c_ssid c \<noteq> [] | Confirming s st \<Rightarrow> status_ok st | _ \<Rightarrow> True)"

definition net_ok :: "NetD \<Rightarrow> bool" where
  "net_ok d \<longleftrightarrow> (\<forall>t. reports_ok (told d t) (half_told d t)) \<and> mon_ok (mon d) \<and> ctl_ok (ctl d) \<and>
     (\<forall>l. link d = Some l \<longrightarrow> status_ok (status l) \<and> up (status l)) \<and>
     sweeps d = (if scan_inflight d then 1 else 0)"

lemma all_threads: "(\<forall>t. P t) \<longleftrightarrow> P Watching \<and> P Controlling"
  by (metis Thread.exhaust)

lemma net_ok_io: "net_ok d \<Longrightarrow> io_only d d' \<Longrightarrow> net_ok d'"
  by (simp add: net_ok_def io_only_def all_threads half_told_def)

lemma net_ok_report:
  assumes "net_ok d" "mon_half (mon d) = []" "status_ok s"
  shows "net_ok (report w s d)"
  using assms by (simp add: net_ok_def all_threads half_told_def reports_ok_whole)

text \<open>Either thread sends the first half of a report, and then the second.\<close>

lemma net_ok_mon_send:
  assumes "net_ok d"
  shows "mon d = Announcing s lost \<Longrightarrow> net_ok (send_arbiter w Watching (state_line s) (d\<lparr>mon := Publishing s lost\<rparr>))"
    "mon d = Publishing s lost \<Longrightarrow> mon_ok m \<Longrightarrow> mon_half m = [] \<Longrightarrow>
      net_ok (send_arbiter w Watching (publish_line s) (d\<lparr>mon := m\<rparr>))"
  using assms
  by (auto simp: net_ok_def all_threads half_told_def mon_half_def mon_ok_def intro: reports_ok_half reports_ok_second)

lemma net_ok_ctl_send:
  assumes "net_ok d"
  shows "ctl d = Confirming n s \<Longrightarrow> net_ok (send_arbiter w Controlling (state_line s) (d\<lparr>ctl := Echoing n s\<rparr>))"
    "ctl d = Echoing n s \<Longrightarrow> net_ok (send_arbiter w Controlling (publish_line s) (d\<lparr>ctl := Answering n s\<rparr>))"
  using assms
  by (auto simp: net_ok_def all_threads half_told_def ctl_half_def ctl_ok_def intro: reports_ok_half reports_ok_second)

lemma net_ok_simps:
  "net_ok d \<Longrightarrow> mon_ok m \<Longrightarrow> mon_half m = mon_half (mon d) \<Longrightarrow> net_ok (d\<lparr>mon := m\<rparr>)"
  "net_ok d \<Longrightarrow> ctl_ok c \<Longrightarrow> ctl_half c = ctl_half (ctl d) \<Longrightarrow> net_ok (d\<lparr>ctl := c\<rparr>)"
  "net_ok d \<Longrightarrow> net_ok (d\<lparr>nd_ticks := k\<rparr>)" "net_ok d \<Longrightarrow> net_ok (d\<lparr>scan_cache := sc\<rparr>)"
  "net_ok d \<Longrightarrow> status_ok (status l) \<Longrightarrow> up (status l) \<Longrightarrow> net_ok (d\<lparr>link := Some l\<rparr>)"
  "net_ok d \<Longrightarrow> net_ok (reply r d)"
  by (simp_all add: net_ok_def all_threads half_told_def reply_def)

lemma net_ok_control:
  assumes "net_ok d"
  shows "net_ok (snd (control_scan w d))" "net_ok (sweep_done w d)"
    "ctl d = Serving \<Longrightarrow> net_ok (handle_control_conn w line d)"
proof -
  have io: "net_ok (snd (read_now w d))" "net_ok (snd (radio_enabled w d))" "net_ok (snd (run_self_su1000 w f d))" for f
    using assms io_steps(2,6)[of d w] io_children(2)[of d w f] net_ok_io by blast+
  have sweep: "net_ok e \<Longrightarrow> \<not> scan_inflight e \<Longrightarrow> net_ok (nact NSweep (e\<lparr>scan_inflight := True, sweeps := Suc (sweeps e)\<rparr>))" for e
    by (simp add: net_ok_def all_threads half_told_def)
  show scan: "net_ok (snd (control_scan w d))"
    using assms io(1) sweep by (auto simp: control_scan_def Let_def case_prod_beta split: option.split)
  have ended: "net_ok e \<Longrightarrow> net_ok (e\<lparr>scan_inflight := False, sweeps := sweeps e - 1\<rparr>)" for e
    by (simp add: net_ok_def all_threads half_told_def split: if_splits)
  show "net_ok (sweep_done w d)"
    using assms io(1) net_ok_simps(4)[OF io(1)] ended
    by (auto simp: sweep_done_def Let_def case_prod_beta split: option.split)
  have named: "connect_args r = Inr c \<Longrightarrow> ctl_ok (Locking c)" for r c
    by (auto simp: connect_args_def ctl_ok_def Let_def split: list.splits if_splits)
  have half: "ctl_half (Locking c) = []" "ctl_half Serving = []" for c
    by (simp_all add: ctl_half_def)
  have en: "net_ok (snd (control_set_enabled w r d))" for r
    using io(3) by (simp add: control_set_enabled_def Let_def case_prod_beta)
  show "ctl d = Serving \<Longrightarrow> net_ok (handle_control_conn w line d)"
    using assms scan en io(2) named
    by (auto simp: handle_control_conn_def dispatch_control_def Let_def case_prod_beta net_ok_simps half split: sum.split)
qed

lemma mon_step_ok:
  assumes "mon_step w d d'" "net_ok d"
  shows "net_ok d'"
  using assms(1)
proof cases
  case (Check h)
  have "net_ok (snd (read_carrier w d))" "mon (snd (read_carrier w d)) = Woke h"
    using assms(2) io_steps(1)[of d w] net_ok_io Check by (auto simp: io_only_def)
  then show ?thesis
    using assms(2) Check
    by (auto simp: mon_check_def Let_def case_prod_beta net_ok_simps mon_ok_def mon_half_def)
next
  case Bring
  then obtain r d1 where b: "bring_up w d = Some (r, d1)"
    "d' = d1\<lparr>mon := (case r of Inl _ \<Rightarrow> Sleeping | Inr l \<Rightarrow> Storing l)\<rparr>"
    by (auto simp: mon_bring_up_def)
  have "net_ok d1" "mon d1 = Associating"
    using net_ok_io[OF assms(2) bring_up_spec(1)[OF b(1)]] bring_up_spec(1)[OF b(1)] Bring by (simp_all add: io_only_def)
  with b show ?thesis
    using bring_up_spec(2)[OF b(1)] by (cases r) (auto simp: net_ok_simps mon_ok_def mon_half_def)
next
  case (Keep l)
  then have "status_ok (status l)" "up (status l)" using assms(2) by (auto simp: net_ok_def mon_ok_def)
  then have "net_ok (d\<lparr>link := Some l\<rparr>)" using assms(2) by (simp add: net_ok_simps)
  from net_ok_simps(1)[OF this] Keep \<open>status_ok (status l)\<close> show ?thesis
    by (simp add: mon_ok_def mon_half_def)
next
  case Poll
  have "status_ok (case link d of None \<Rightarrow> LinkStatus_default | Some l \<Rightarrow> status l)"
    using assms(2) by (auto simp: net_ok_def split: option.split)
  with Poll assms(2) show ?thesis by (simp add: net_ok_simps mon_ok_def mon_half_def)
next
  case (Publish s lost)
  then show ?thesis
    using net_ok_mon_send(2)[OF assms(2), of s lost "if lost then Associating else Sleeping"] by (simp add: mon_ok_def mon_half_def)
qed (use assms(2) net_ok_mon_send(1)[OF assms(2)] in \<open>simp_all add: net_ok_simps mon_ok_def mon_half_def\<close>)

lemma ctl_step_ok:
  assumes "ctl_step w d d'" "net_ok d"
  shows "net_ok d'"
  using assms(1)
proof cases
  case (Connect c)
  then obtain r d1 where b: "bring_up_with w c True d = Some (r, d1)"
    "d' = (case r of Inl e \<Rightarrow> reply (''err connect '' @ e @ [CHR 0x0A]) (d1\<lparr>ctl := Serving\<rparr>)
        | Inr l \<Rightarrow> d1\<lparr>link := Some l, ctl := Confirming (c_ssid c) (status l)\<rparr>)"
    by (auto simp: control_connect_def)
  have 1: "net_ok d1" "ctl_half (ctl d1) = []"
    using net_ok_io[OF assms(2) bring_up_with_spec(1)[OF b(1)]] bring_up_with_spec(1)[OF b(1)] Connect
    by (simp_all add: io_only_def ctl_half_def)
  have "c_ssid c \<noteq> []" using assms(2) Connect by (auto simp: net_ok_def ctl_ok_def)
  then have "\<And>l. r = Inr l \<Longrightarrow> status_ok (status l) \<and> up (status l)"
    using bring_up_with_spec(2)[OF b(1)] lease_applied_status by blast
  moreover have "ctl_half Serving = []" "ctl_half (Confirming n s) = []" for n s
    by (simp_all add: ctl_half_def)
  ultimately show ?thesis
    using b(2) 1 by (cases r) (auto simp: net_ok_simps ctl_ok_def)
next
  case (Lock c)
  then have "ctl_ok (Connecting c)" "ctl_half (Connecting c) = ctl_half (ctl d)"
    using assms(2) by (auto simp: net_ok_def ctl_ok_def ctl_half_def)
  with Lock assms(2) show ?thesis by (simp add: net_ok_simps)
next
  case (Answer s st)
  then have "net_ok (d\<lparr>ctl := Serving\<rparr>)" using assms(2) by (simp add: net_ok_simps ctl_ok_def ctl_half_def)
  with Answer show ?thesis by (simp add: confirm_connect_def net_ok_simps)
qed (use assms(2) net_ok_control(3)[OF assms(2)] net_ok_ctl_send[OF assms(2)] in \<open>simp_all\<close>)

lemma net_step_ok: "net_step w d d' \<Longrightarrow> net_ok d \<Longrightarrow> net_ok d'"
  by (erule net_step.cases) (use mon_step_ok ctl_step_ok net_ok_control(2) in blast)+

lemma reachable_net_ok: "net_reachable w d \<Longrightarrow> net_ok d"
proof (induction rule: net_reachable.induct)
  case (Boot d)
  then obtain r d1 where b: "bring_up w net_start = Some (r, d1)"
    "d = (case r of Inr l \<Rightarrow> (report w (status l) d1)\<lparr>link := Some l\<rparr> | Inl _ \<Rightarrow> report w LinkStatus_default d1)"
    by (auto simp: net_boot_def)
  have "net_ok net_start"
    by (simp add: net_ok_def net_start_def told_def List.map_filter_simps mon_ok_def ctl_ok_def half_told_def mon_half_def
        ctl_half_def split: Thread.split)
  from net_ok_io[OF this bring_up_spec(1)[OF b(1)]] have "net_ok d1" .
  moreover have "mon_half (mon d1) = []"
    using bring_up_spec(1)[OF b(1)] by (simp add: io_only_def net_start_def mon_half_def)
  ultimately have d1: "net_ok d1" "mon_half (mon d1) = []" .
  show ?case
    using b(2) d1 bring_up_spec(2)[OF b(1)] by (cases r) (auto simp: net_ok_simps net_ok_report)
qed (rule net_step_ok)

text \<open>
  C9. What the connectivity daemon tells the others is sound, whatever the clients send, the world
  answers and however the threads interleave.  The report and the publication of a status are two
  lines over two connections, sent without the lock, so the lines of the two threads mix; but each
  thread hands over, for one status after the other, the report and then the publication of that
  same status, and at any moment at most the publication of the last one is outstanding, namely
  while the thread stands between the two.  Every online status names a network and an address, the
  link that is kept is an online one, and there is never more than one sweep for access points.
  The lines are those that were attempted: a line that does not arrive is dropped and not sent again.
\<close>

theorem net_reports_sound:
  assumes "net_reachable w d"
  shows "(\<forall>t. \<exists>ss. told d t = concat (map (\<lambda>s. [state_line s, publish_line s]) ss) @ map state_line (half_told d t) \<and>
      (\<forall>s \<in> set (ss @ half_told d t). up s \<longrightarrow> (\<exists>n a. ls_ssid s = Some n \<and> n \<noteq> [] \<and> ls_ip s = Some a))) \<and>
    (\<forall>l. link d = Some l \<longrightarrow> up (status l)) \<and> sweeps d \<le> 1"
proof -
  have ok: "net_ok d"
    using reachable_net_ok[OF assms] .
  have "\<exists>ss. told d t = concat (map (\<lambda>s. [state_line s, publish_line s]) ss) @ map state_line (half_told d t) \<and>
      (\<forall>s \<in> set (ss @ half_told d t). up s \<longrightarrow> (\<exists>n a. ls_ssid s = Some n \<and> n \<noteq> [] \<and> ls_ip s = Some a))" for t
    using ok unfolding net_ok_def reports_ok_def list_all_iff status_ok_def report_lines_def[abs_def] by blast
  then show ?thesis
    using ok by (auto simp: net_ok_def)
qed

text \<open>The one-shot modes tell one status, and their exit code agrees with it.\<close>

lemma net_once_reports:
  assumes "net_once w = Some (code, d)"
  shows "\<exists>s. told d Watching = report_lines s \<and> status_ok s \<and> (code = 0 \<longleftrightarrow> up s)"
proof -
  obtain r d1 where b: "bring_up w net_start = Some (r, d1)"
    using assms by (auto simp: net_once_def)
  have "told d1 Watching = []"
    using bring_up_spec(1)[OF b] by (simp add: io_only_def told_def net_start_def List.map_filter_simps)
  with b assms show ?thesis
    using bring_up_spec(2)[OF b] by (cases r) (auto simp: net_once_def LinkStatus_default_def status_ok_def)
qed

lemma net_connect_once_reports:
  assumes "net_connect_once w s p = Some (Inr d)" "s \<noteq> []"
  shows "\<exists>l. link d = Some l \<and> ls_ssid (status l) = Some s \<and> up (status l) \<and> told d Watching = report_lines (status l)"
proof -
  obtain r d1 where a: "bring_up_with w \<lparr>c_ssid = s, c_psk = p\<rparr> True net_start = Some (r, d1)"
    using assms(1) by (auto simp: net_connect_once_def)
  then obtain l where b: "bring_up_with w \<lparr>c_ssid = s, c_psk = p\<rparr> True net_start = Some (Inr l, d1)"
    "d = (report w (status l) d1)\<lparr>link := Some l\<rparr>"
    using assms(1) by (cases r) (auto simp: net_connect_once_def)
  have "told d1 Watching = []"
    using bring_up_with_spec(1)[OF b(1)] by (simp add: io_only_def told_def net_start_def List.map_filter_simps)
  with b(2) bring_up_with_spec(2)[OF b(1) refl] show ?thesis
    by (auto simp: lease_applied_def)
qed

section \<open>Nobody waits for ever\<close>

text \<open>The clock passes every bound.\<close>

definition clock_runs :: "NetWorld \<Rightarrow> bool" where
  "clock_runs w \<longleftrightarrow> (\<forall>b. \<exists>k. \<forall>n \<ge> k. b \<le> nw_now w n)"

lemma wait_carrier_ends:
  assumes "\<forall>n \<ge> k. dl \<le> nw_now w n"
  shows "\<exists>y. wait_carrier w dl d = Some y"
proof (induction "k - nd_calls d" arbitrary: d rule: less_induct)
  case less
  let ?d3 = "nact (NSleep 400) (nact NCarrier (nact NNow d))"
  show ?case
  proof (cases "nw_now w (nd_calls d) < dl")
    case False
    then show ?thesis by (auto simp: wait_carrier.simps[of w dl d] read_now_def)
  next
    case True
    then have "nd_calls d < k" using assms by (meson not_le)
    then have "k - nd_calls ?d3 < k - nd_calls d" by simp
    from less[OF this] obtain y where "wait_carrier w dl ?d3 = Some y" by blast
    with True show ?thesis
      by (auto simp: wait_carrier.simps[of w dl d] read_now_def read_carrier_def Let_def)
  qed
qed

lemma bring_up_with_returns: "clock_runs w \<Longrightarrow> \<exists>y. bring_up_with w c force d = Some y"
proof -
  assume "clock_runs w"
  then have wait: "\<exists>y. wait_carrier w dl e = Some y" for dl e
    using wait_carrier_ends unfolding clock_runs_def by blast
  have "\<exists>y. associate w c e = Some y" for e
    using wait by (auto simp: associate_def case_prod_beta Let_def split: sum.split) metis
  then obtain r d1 where "associate w c (snd (read_carrier w d)) = Some (r, d1)" by force
  then show ?thesis
    by (cases "bring_up_with w c force d") (auto simp: bring_up_with_def case_prod_beta Let_def split: if_splits)
qed

lemma bring_up_returns: "clock_runs w \<Longrightarrow> \<exists>y. bring_up w d = Some y"
  using bring_up_with_returns by (simp add: bring_up_def case_prod_beta Let_def split: sum.split)

text \<open>
  C30. No wait of the daemon's own and no use of its lock stops it.  What it calls outside the
  process is taken to answer (the children started with \<open>su\<close>, the HAL, the files and the
  arbiter: a child that never ends would hold up the daemon, and is outside the model), and the
  clock to pass every bound.  Then in every state the threads can reach the monitor can make a step
  that takes it on, or it is held up only by a \<open>connect\<close> that has the lock, and that one
  can finish, by giving up when no carrier comes, and release it.
\<close>

theorem net_never_stuck:
  assumes "clock_runs w" "net_reachable w d"
  shows "(\<exists>d'. mon_step w d d' \<and> mon d' \<noteq> mon d) \<or> lock_held d \<and> (\<exists>d'. ctl_step w d d' \<and> \<not> lock_held d')"
proof (cases "lock_held d")
  case True
  then obtain c where c: "ctl d = Connecting c" by (auto simp: lock_held_def split: Control.splits)
  obtain r d1 where b: "bring_up_with w c True d = Some (r, d1)"
    using bring_up_with_returns[OF assms(1), of c True d] by auto
  then have "\<exists>d'. control_connect w c d = Some d' \<and> \<not> lock_held d'"
    by (cases r) (simp_all add: control_connect_def lock_held_def reply_def)
  with c True show ?thesis using ctl_step.Connect by blast
next
  case False
  show ?thesis
  proof (cases "mon d")
    case Sleeping
    with False show ?thesis using mon_step.Wake[OF Sleeping False] by fastforce
  next
    case (Woke h)
    have "mon (mon_check w h d) \<noteq> Woke h"
      by (simp add: mon_check_def Let_def case_prod_beta)
    with Woke show ?thesis using mon_step.Check[OF Woke] by metis
  next
    case Associating
    obtain r d1 where "bring_up w d = Some (r, d1)"
      using bring_up_returns[OF assms(1), of d] by auto
    then have "\<exists>d'. mon_bring_up w d = Some d' \<and> mon d' \<noteq> Associating"
      by (cases r) (simp_all add: mon_bring_up_def)
    with Associating show ?thesis using mon_step.Bring by metis
  next
    case (Storing l)
    with False show ?thesis using mon_step.Keep[OF Storing False] by fastforce
  next
    case Polling
    with False show ?thesis using mon_step.Poll[OF Polling False] by fastforce
  next
    case (Announcing s lost)
    then show ?thesis using mon_step.Announce[OF Announcing] by fastforce
  next
    case (Publishing s lost)
    then show ?thesis using mon_step.Publish[OF Publishing, of w] by (fastforce split: if_splits)
  qed
qed

section \<open>Online means configured\<close>

text \<open>
  What is relied on of \<open>su\<close> and the shell: a command line that starts the program with
  the arguments to configure netd ends with the exit code of that mode, which is 101 when it
  panics.  \<open>netd n\<close> is netd during the \<open>n\<close>-th call.
\<close>

definition child_code :: "(int \<times> NetdCall list) option \<Rightarrow> int" where
  "child_code r = (case r of None \<Rightarrow> 101 | Some (code, calls) \<Rightarrow> code)"

lemma child_code_0: "child_code r = 0 \<Longrightarrow> \<exists>calls. r = Some (0, calls)"
  by (auto simp: child_code_def split: option.splits)

definition runs_netd_child :: "NetWorld \<Rightarrow> (string \<Rightarrow> string list) \<Rightarrow> (nat \<Rightarrow> NetdWorld) \<Rightarrow> bool" where
  "runs_netd_child w sh netd \<longleftrightarrow>
     (\<forall>n line out i f ip p g ds. nw_su w n line = Inr out \<longrightarrow> main_mode (sh line) = NetdConfig i f ip p g ds \<longrightarrow>
        so_code out = Some (child_code (netd_child (netd n) i f ip p g ds)))"

lemma exe_path_utf8: "exe_path exe \<Longrightarrow> utf8_lossy exe = exe"
  by (rule utf8_lossy_valid, rule utf8_valid_ascii)
    (auto simp: exe_path_def list_all_iff bare_char_def ascii_alnum_def Let_def)

text \<open>
  C2. Online means that the network is set up: when a bring-up gives a link for a network, that is
  the name in its status, and netd was told, in this order and successfully where it counts, to use
  the leased address, the route of its subnet, the gateway of the status as the default route, and
  to make the network the default one, and the resolver was told the name servers of the status,
  of which there is at least one.
\<close>

theorem online_means_configured:
  assumes "posix_shell sh" "nw_exe w = Inr exe" "exe_path exe" "runs_netd_child w sh netd"
    and "bring_up_with w c force d = Some (Inr l, d')"
  shows "\<exists>ip prefix gw dns n cidr calls.
    status l = \<lparr>up = True, ls_ssid = Some (c_ssid c), ls_ip = Some ip, ls_gateway = Some gw, ls_dns = dns\<rparr> \<and>
    dns \<noteq> [] \<and> subnet_cidr ip prefix = Some cidr \<and>
    netd_child (netd n) WANDR_NETID WLAN_IF ip prefix gw dns = Some (0, calls) \<and>
    calls = [ClearAddrs WLAN_IF, AddAddress WLAN_IF (show_ip ip) (unat prefix),
      CreatePhysical WANDR_NETID, AddInterface WANDR_NETID WLAN_IF, AddRoute WANDR_NETID WLAN_IF cidr [],
      AddRoute WANDR_NETID WLAN_IF ''0.0.0.0/0'' (show_ip gw), SetDefault WANDR_NETID, AddUidRanges WANDR_NETID 0 99999,
      CreateCache WANDR_NETID, SetResolver WANDR_NETID (map show_ip dns) WLAN_IF] \<and>
    accepts (netd n) 1 \<and> accepts (netd n) 6 \<and> accepts (netd n) 9"
proof -
  obtain lease gw out n where st: "status l = \<lparr>up = True, ls_ssid = Some (c_ssid c), ls_ip = Some (l_ip lease),
      ls_gateway = Some gw, ls_dns = l_dns lease\<rparr>" "unat (l_prefix lease) \<le> 32"
    and out: "nw_su w n (netd_line exe lease gw) = Inr out" "su_ok out"
    using bring_up_with_spec(2)[OF assms(5) refl] assms(2,3)
    by (auto simp: lease_applied_def self_exe_def exe_path_utf8)
  have "so_code out = Some (child_code (netd_child (netd n) WANDR_NETID WLAN_IF (l_ip lease) (l_prefix lease) gw (l_dns lease)))"
    using assms(4) out(1) netd_arguments_exact[OF assms(1,3), of lease gw] unfolding runs_netd_child_def by blast
  then obtain calls where "netd_child (netd n) WANDR_NETID WLAN_IF (l_ip lease) (l_prefix lease) gw (l_dns lease) = Some (0, calls)"
    using out(2) child_code_0 by (force simp: su_ok_def)
  then show ?thesis
    using netd_child_success[OF st(2), of "netd n" WANDR_NETID WLAN_IF "l_ip lease" gw "l_dns lease"] st(1) by auto
qed

section \<open>Runs that go wrong\<close>








text \<open>The monitor says a status, undisturbed.\<close>

definition say :: "NetWorld \<Rightarrow> LinkStatus \<Rightarrow> NetD \<Rightarrow> NetD" where
  "say w s d = send_arbiter w Watching (publish_line s)
     ((send_arbiter w Watching (state_line s) (d\<lparr>mon := Publishing s False\<rparr>))\<lparr>mon := Sleeping\<rparr>)"

lemma announced:
  assumes "mon d = Announcing s False"
  shows "(net_step w)\<^sup>*\<^sup>* d (say w s d)" "told (say w s d) Watching = told d Watching @ report_lines s" "link (say w s d) = link d"
    "(mon_step w)\<^sup>*\<^sup>* d (say w s d)"
proof -
  let ?d1 = "send_arbiter w Watching (state_line s) (d\<lparr>mon := Publishing s False\<rparr>)"
  have 1: "mon_step w d ?d1"
    using assms by (rule Announce)
  have "mon ?d1 = Publishing s False" by simp
  from mon_step.Publish[OF this, of w] have 2: "mon_step w ?d1 (say w s d)"
    by (simp add: say_def)
  show "(mon_step w)\<^sup>*\<^sup>* d (say w s d)" "(net_step w)\<^sup>*\<^sup>* d (say w s d)"
    using 1 2 by (meson net_step.Monitor converse_rtranclp_into_rtranclp rtranclp.rtrancl_refl)+
  show "told (say w s d) Watching = told d Watching @ report_lines s" "link (say w s d) = link d"
    by (simp_all add: say_def report_lines_def)
qed

text \<open>
  A failed \<open>connect\<close> leaves a false report: when the association with the new network
  succeeds and only the address does not come, the daemon keeps the link of the old network, and
  as there is a carrier the monitor goes on announcing the old name and the old address.
\<close>

theorem stale_link_announced:
  assumes "ctl d = Connecting c" "link d = Some l" "mon d = Polling"
    and "associate w c (snd (read_carrier w d)) = Some (Inr (), d1)" "lease_link w c True d1 = (Inl e, d2)"
  shows "\<exists>d'. (net_step w)\<^sup>*\<^sup>* d d' \<and> told d' Watching = told d Watching @ report_lines (status l) \<and> link d' = Some l \<and>
    ctl d' = Serving \<and> NReply (''err connect '' @ e @ [CHR 0x0A]) \<in> set (nd_log d')"
proof -
  let ?d3 = "reply (''err connect '' @ e @ [CHR 0x0A]) (d2\<lparr>ctl := Serving\<rparr>)"
  have b: "bring_up_with w c True d = Some (Inl e, d2)"
    using assms(4,5) by (simp add: bring_up_with_def case_prod_beta)
  have s1: "ctl_step w d ?d3"
    by (rule Connect[OF assms(1)]) (simp only: control_connect_def b option.map prod.case sum.case)
  have "io_only d d2"
    using bring_up_with_spec(1)[OF b] .
  then have f: "mon ?d3 = Polling" "link ?d3 = Some l" "told ?d3 Watching = told d Watching" "ctl ?d3 = Serving"
    using assms(2,3) by (simp_all add: io_only_def reply_def)
  let ?d4 = "?d3\<lparr>mon := Announcing (status l) False\<rparr>"
  have s2: "mon_step w ?d3 ?d4"
    using Poll[OF f(1)] f(2,4) by (simp add: lock_held_def)
  have m: "mon ?d4 = Announcing (status l) False"
    by simp
  note a = announced[OF m, of w]
  have "(net_step w)\<^sup>*\<^sup>* d (say w (status l) ?d4)"
    using net_step.Control[OF s1] net_step.Monitor[OF s2] a(1) by (meson converse_rtranclp_into_rtranclp)
  moreover have "NReply (''err connect '' @ e @ [CHR 0x0A]) \<in> set (nd_log (say w (status l) ?d4))"
    by (simp add: say_def send_arbiter_def reply_def)
  ultimately show ?thesis
    using f a(2,3) by (intro exI[of _ "say w (status l) ?d4"]) (simp add: say_def)
qed

text \<open>
  The lock does not order two bring-ups: one that the monitor had started is stored after a
  \<open>connect\<close> was confirmed, so the client is told that it is on its network while the
  daemon's link, and the last report to the arbiter, are those of the other one.
\<close>

theorem connect_overtaken:
  assumes "ctl d = Connecting c" "mon d = Storing old" "bring_up_with w c True d = Some (Inr new, d1)"
  shows "\<exists>d2 d'. (net_step w)\<^sup>*\<^sup>* d d2 \<and> told d2 Controlling = told d Controlling @ report_lines (status new) \<and>
    NReply (''ok online ssid='' @ b64_encode (c_ssid c) @ '' ip='' @ or_default ''-'' (map_option show_ip (ls_ip (status new)))
      @ [CHR 0x0A]) \<in> set (nd_log d2) \<and>
    (mon_step w)\<^sup>*\<^sup>* d2 d' \<and> link d' = Some old \<and> told d' Watching = told d Watching @ report_lines (status old)"
proof -
  let ?d1 = "d1\<lparr>link := Some new, ctl := Confirming (c_ssid c) (status new)\<rparr>"
  let ?e1 = "send_arbiter w Controlling (state_line (status new)) (?d1\<lparr>ctl := Echoing (c_ssid c) (status new)\<rparr>)"
  let ?e2 = "send_arbiter w Controlling (publish_line (status new)) (?e1\<lparr>ctl := Answering (c_ssid c) (status new)\<rparr>)"
  let ?d2 = "confirm_connect (c_ssid c) (status new) ?e2"
  have s1: "ctl_step w d ?d1"
    by (rule Connect[OF assms(1)]) (simp only: control_connect_def assms(3) option.map prod.case sum.case)
  have s2: "ctl_step w ?d1 ?e1" by (rule Confirm) simp
  have s3: "ctl_step w ?e1 ?e2" by (rule Echo) simp
  have s4: "ctl_step w ?e2 ?d2" by (rule Answer) simp
  have r: "(net_step w)\<^sup>*\<^sup>* d ?d2"
    using s1 s2 s3 s4 by (meson net_step.Control converse_rtranclp_into_rtranclp rtranclp.rtrancl_refl)
  have "io_only d d1"
    using bring_up_with_spec(1)[OF assms(3)] .
  then have f: "mon ?d2 = Storing old" "\<not> lock_held ?d2" "told ?d2 Controlling = told d Controlling @ report_lines (status new)"
    "told ?d2 Watching = told d Watching"
    using assms(2) by (simp_all add: io_only_def confirm_connect_def reply_def lock_held_def report_lines_def)
  let ?d4 = "?d2\<lparr>link := Some old, mon := Announcing (status old) False\<rparr>"
  have s5: "mon_step w ?d2 ?d4"
    using f(1,2) by (rule Keep)
  have m: "mon ?d4 = Announcing (status old) False"
    by simp
  have m4: "link ?d4 = Some old" "told ?d4 Watching = told d Watching"
    using f(4) by simp_all
  note a = announced[OF m, of w]
  have "(mon_step w)\<^sup>*\<^sup>* ?d2 (say w (status old) ?d4)"
    using s5 a(4) by (meson converse_rtranclp_into_rtranclp)
  moreover have "NReply (''ok online ssid='' @ b64_encode (c_ssid c) @ '' ip='' @ or_default ''-'' (map_option show_ip (ls_ip (status new)))
      @ [CHR 0x0A]) \<in> set (nd_log ?d2)"
    by (simp add: confirm_connect_def reply_def)
  ultimately show ?thesis
    using r f(3) a(2,3) m4 by (intro exI[of _ ?d2] exI[of _ "say w (status old) ?d4"]) simp
qed

text \<open>The daemon at rest: a link, and no client that asks for another one.\<close>

definition resting :: "NetD \<Rightarrow> bool" where
  "resting d \<longleftrightarrow> link d \<noteq> None \<and> ctl d = Serving \<and>
     (case mon d of Sleeping \<Rightarrow> True | Woke h \<Rightarrow> h | Polling \<Rightarrow> True | Announcing s lost \<Rightarrow> \<not> lost | Publishing s lost \<Rightarrow> \<not> lost
      | _ \<Rightarrow> False)"

definition exchanges :: "NetD \<Rightarrow> nat" where
  "exchanges d = length (filter (\<lambda>a. a = NDhcp) (nd_log d))"

lemma exchanges_simps [simp]:
  "exchanges (nact a d) = exchanges d + (if a = NDhcp then 1 else 0)"
  "exchanges (d\<lparr>mon := m\<rparr>) = exchanges d" "exchanges (d\<lparr>ctl := c\<rparr>) = exchanges d" "exchanges (d\<lparr>nd_ticks := k\<rparr>) = exchanges d"
  "exchanges (d\<lparr>scan_inflight := b\<rparr>) = exchanges d" "exchanges (d\<lparr>sweeps := n\<rparr>) = exchanges d"
  "exchanges (d\<lparr>scan_cache := sc\<rparr>) = exchanges d" "exchanges (send_arbiter w t line d) = exchanges d" "exchanges (reply r d) = exchanges d"
  by (simp_all add: exchanges_def send_arbiter_def reply_def)

lemma resting_ctl:
  assumes "ctl_step w d d'" "resting d" "ctl d' = Serving"
  shows "resting d' \<and> link d' = link d \<and> exchanges d' = exchanges d"
  using assms(1)
proof cases
  case (Line line)
  have keep: "exchanges (snd x) = exchanges d \<and> link (snd x) = link d \<and> mon (snd x) = mon d \<and> ctl (snd x) = ctl d"
    if "x = dispatch_control w (trim line) d" for x
  proof -
    have su: "exchanges (snd (run_self_su1000 w f d)) = exchanges d" "link (snd (run_self_su1000 w f d)) = link d"
      "mon (snd (run_self_su1000 w f d)) = mon d" "ctl (snd (run_self_su1000 w f d)) = ctl d" for f
      by (simp_all add: run_self_su1000_def run_su_def case_prod_beta Let_def split: sum.split)
    have sc: "exchanges (snd (control_scan w d)) = exchanges d" "link (snd (control_scan w d)) = link d"
      "mon (snd (control_scan w d)) = mon d" "ctl (snd (control_scan w d)) = ctl d"
      by (simp_all add: control_scan_def read_now_def Let_def split: option.split prod.split)
    show ?thesis
      using su sc by (simp add: that dispatch_control_def control_set_enabled_def radio_enabled_def Let_def case_prod_beta)
  qed
  show ?thesis
    using assms(2,3) Line keep[OF refl]
    by (cases "fst (dispatch_control w (trim line) d)")
      (simp_all add: handle_control_conn_def case_prod_beta resting_def reply_def)
qed (use assms(2,3) in \<open>auto simp: resting_def reply_def\<close>)

lemma resting_mon:
  assumes "mon_step w d d'" "resting d" "\<forall>n. has_carrier (nw_carrier w n)"
  shows "resting d' \<and> link d' = link d \<and> exchanges d' = exchanges d"
  using assms(1)
proof cases
  case (Check h)
  with assms(2,3) show ?thesis
    by (auto simp: mon_check_def read_carrier_def Let_def resting_def)
qed (use assms(2) in \<open>auto simp: resting_def\<close>)

lemma resting_step:
  assumes "net_step w d d'" "resting d" "ctl d' = Serving" "\<forall>n. has_carrier (nw_carrier w n)"
  shows "resting d' \<and> link d' = link d \<and> exchanges d' = exchanges d"
  using assms(1)
proof cases
  case Sweep
  with assms(2) show ?thesis
    by (auto simp: sweep_done_def read_now_def Let_def resting_def split: option.split)
qed (use assms resting_ctl resting_mon in blast)+

text \<open>
  A lease is never renewed: as long as the carrier stays and no client asks for another
  network, the daemon runs for ever without another DHCP exchange, whatever lease time the server
  granted.
\<close>

theorem lease_never_renewed:
  assumes "(\<lambda>x y. net_step w x y \<and> ctl y = Serving)\<^sup>*\<^sup>* d d'" "resting d" "\<forall>n. has_carrier (nw_carrier w n)"
  shows "link d' = link d \<and> exchanges d' = exchanges d"
proof -
  have "resting d' \<and> link d' = link d \<and> exchanges d' = exchanges d"
    using assms(1)
  proof (induction rule: rtranclp_induct)
    case (step y z)
    then show ?case using resting_step[of w y z] assms(3) by auto
  qed (use assms(2) in simp)
  then show ?thesis by simp
qed

section \<open>A network, a server and a netd\<close>

definition demo_packet :: "u8 \<Rightarrow> (nat \<times> dhcp_option) list \<Rightarrow> u8 list" where
  "demo_packet t os = boot_header OP_REPLY [1, 6, 0] 7 (replicate 8 0) (Ipv4 10 0 0 5) (replicate 216 0)
     @ concat (map write_option ((0, OPT_MSG_TYPE, [t]) # os)) @ OPT_END # []"

definition demo_sock :: "(nat \<times> dhcp_option) list \<Rightarrow> Sock" where
  "demo_sock os = \<lparr>s_recv = \<lambda>n. Some (demo_packet (if even n then DHCP_OFFER else DHCP_ACK) os), s_send = \<lambda>n. None\<rparr>"

lemma demo_packet_reads:
  assumes "list_all writable os" "OPT_MSG_TYPE \<notin> set (map (fst \<circ> snd) os)" "length (concat (map write_option os)) < 1000"
  shows "take BUF_LEN (demo_packet t os) = demo_packet t os" "bootreply (demo_packet t os) 7"
    "options (drop 240 (demo_packet t os)) = (OPT_MSG_TYPE, [t]) # map snd os"
    "t \<noteq> 0 \<Longrightarrow> parse_reply (demo_packet t os) 7 = Some (reply_of (Ipv4 10 0 0 5) ((OPT_MSG_TYPE, [t]) # map snd os))"
    "newest OPT_MSG_TYPE (\<lambda>v. v \<noteq> []) ((OPT_MSG_TYPE, [t]) # map snd os) = Some [t]"
proof -
  note b = boot_header_reads[of "[1, 6, 0]" "replicate 8 0" "replicate 216 0"]
  have w: "list_all writable ((0, OPT_MSG_TYPE, [t]) # os)"
    using assms(1) by (simp add: writable_def dhcp_codes)
  show br: "bootreply (demo_packet t os) 7"
    unfolding demo_packet_def by (subst b(1)) simp_all
  have d: "drop 240 (demo_packet t os) = concat (map write_option ((0, OPT_MSG_TYPE, [t]) # os)) @ OPT_END # []"
    unfolding demo_packet_def by (rule b(3)) simp_all
  have o: "offered (demo_packet t os) = Ipv4 10 0 0 5"
    unfolding demo_packet_def by (rule b(2)) simp_all
  show os: "options (drop 240 (demo_packet t os)) = (OPT_MSG_TYPE, [t]) # map snd os"
    unfolding d using options_written[OF w, of "[]"] by simp
  have "240 \<le> length (demo_packet t os)"
    using br by (simp add: bootreply_def)
  moreover have "length (drop 240 (demo_packet t os)) < 1004"
    unfolding d using assms(3) by (simp add: write_option_def)
  ultimately show "take BUF_LEN (demo_packet t os) = demo_packet t os"
    by (simp add: BUF_LEN_def)
  have "find (\<lambda>(c, v). c = OPT_MSG_TYPE \<and> v \<noteq> []) (rev (map snd os)) = None"
    using assms(2) by (force simp: find_None_iff2 image_iff)
  then show nm: "newest OPT_MSG_TYPE (\<lambda>v. v \<noteq> []) ((OPT_MSG_TYPE, [t]) # map snd os) = Some [t]"
    by (simp add: newest_def find_append)
  show "t \<noteq> 0 \<Longrightarrow> parse_reply (demo_packet t os) 7 = Some (reply_of (Ipv4 10 0 0 5) ((OPT_MSG_TYPE, [t]) # map snd os))"
    using parse_reply_accepts[OF br] nm by (simp add: os o) (simp add: reply_of_def)
qed

lemma first_reply:
  assumes "s_recv sk n = Some buf" "parse_reply (take BUF_LEN buf) xid = Some r" "r_msg_type r = want" "want \<noteq> DHCP_NAK"
  shows "recv_reply sk xid want \<lparr>reads = n, sent = ps\<rparr> = (Some r, \<lparr>reads = Suc n, sent = ps\<rparr>)"
proof -
  have "recv_loop (Suc 3) sk xid want \<lparr>reads = n, sent = ps\<rparr> = (Some r, \<lparr>reads = Suc n, sent = ps\<rparr>)"
    unfolding recv_loop.simps(2) using assms by (simp add: sock_recv_def)
  then show ?thesis by (simp add: recv_reply_def numeral_eq_Suc)
qed

lemma quick_lease:
  assumes "read_mac addr = Inr mac" "\<forall>n. s_send sk n = None"
    and "s_recv sk 0 = Some b0" "parse_reply (take BUF_LEN b0) xid = Some off" "r_msg_type off = DHCP_OFFER"
    and "s_recv sk 1 = Some b1" "parse_reply (take BUF_LEN b1) xid = Some ack" "r_msg_type ack = DHCP_ACK"
  shows "fst (acquire_lease addr None sk xid 4 \<lparr>reads = 0, sent = []\<rparr>) = Inr (lease_of ack)"
proof -
  have n: "DHCP_OFFER \<noteq> DHCP_NAK" "DHCP_ACK \<noteq> DHCP_NAK"
    by (simp_all add: dhcp_codes)
  have m: "unat (max (4 :: u32) 1) = Suc 3"
    by (simp add: max_def word_le_nat_alt)
  have "fst (attempts (Suc 3) sk xid mac \<lparr>reads = 0, sent = []\<rparr>) = Inr (lease_of ack)"
    unfolding attempts.simps(2) using assms(2) first_reply[OF assms(3-5) n(1)] first_reply[of sk 1 b1 xid ack DHCP_ACK] assms(6-8) n
    by (simp add: attempt_def sock_send_def)
  then show ?thesis
    using assms(1) by (simp add: acquire_lease_def m del: attempts.simps)
qed

text \<open>
  A server that names two routers, as the protocol allows, gets nobody online: the reader takes
  a router option only when it holds one address, so the lease has no gateway and the bring-up ends
  with that error.
\<close>

theorem several_routers_refused:
  assumes "nw_dhcp w (nd_calls d) = (addr, None, sk, xid)" "read_mac addr = Inr mac" "\<forall>n. s_send sk n = None"
    and "s_recv sk 0 = Some b0" "parse_reply (take BUF_LEN b0) xid = Some off" "r_msg_type off = DHCP_OFFER"
    and "s_recv sk 1 = Some b1" "bootreply (take BUF_LEN b1) xid" "os = options (drop 240 (take BUF_LEN b1))"
    and "newest OPT_MSG_TYPE (\<lambda>v. v \<noteq> []) os = Some [DHCP_ACK]"
    and "newest OPT_ROUTER (\<lambda>_. True) os = Some (octets g1 @ octets g2)"
  shows "lease_link w c child d =
    (Inl (''lease has no gateway '' @ [CHR 0xE2, CHR 0x80, CHR 0x94] @ '' cannot set default network''), nact NDhcp d)"
proof -
  let ?ack = "reply_of (offered (take BUF_LEN b1)) os"
  have t: "r_msg_type ?ack = DHCP_ACK"
    using assms(10) by (simp add: reply_of_def)
  have p: "parse_reply (take BUF_LEN b1) xid = Some ?ack"
    using parse_reply_accepts[OF assms(8)] t by (simp add: assms(9)[symmetric] dhcp_codes)
  have "ipv4 (octets g1 @ octets g2) = None"
    by (cases g1; cases g2) simp
  then have "l_gateway (lease_of ?ack) = None"
    using assms(11) by (simp add: lease_of_def reply_of_def)
  with quick_lease[OF assms(2,3) assms(4-7) p t] assms(1) show ?thesis
    by (simp add: lease_link_def configure_netd_def)
qed

section \<open>Demonstrations\<close>

definition demo_mac :: string where "demo_mac = ''02:00:00:00:00:0a''"

definition demo_options :: "(nat \<times> dhcp_option) list" where
  "demo_options = [(0, OPT_SUBNET, [255, 255, 255, 0]), (1, OPT_ROUTER, [10, 0, 0, 1]), (0, OPT_DNS, [8, 8, 8, 8])]"

definition demo_netd :: NetdWorld where
  "demo_netd = \<lparr>netd_up = True, dns_up = True, accepts = \<lambda>_. True\<rparr>"

text \<open>\<open>su\<close> as it is: the child that configures netd ends with its own code, the others well.\<close>

definition demo_su :: "string \<Rightarrow> string + SuOut" where
  "demo_su line = Inr \<lparr>so_code = (case main_mode (sh_run False None line) of
     NetdConfig i f ip p g ds \<Rightarrow> Some (child_code (netd_child demo_netd i f ip p g ds)) | _ \<Rightarrow> Some 0), so_out = [], so_err = []\<rparr>"

definition demo_net :: "(string \<Rightarrow> string + SuOut) \<Rightarrow> string option \<Rightarrow> (nat \<times> dhcp_option) list \<Rightarrow> NetWorld" where
  "demo_net su carrier os = \<lparr>nw_exe = Inr ''/data/wandr-net'', nw_arbiter = \<lambda>n line. Some ''OK ssid=Y2FmZQ== psk=cHc='',
     nw_tell = \<lambda>n line. True, nw_store = \<lambda>n. Inl ''no file'', nw_carrier = \<lambda>n. carrier, nw_su = \<lambda>n. su, nw_spawn = \<lambda>n. None,
     nw_dhcp = \<lambda>n. (Inr demo_mac, None, demo_sock os, 7), nw_now = \<lambda>n. n * 1000, nw_radio = \<lambda>n. True, nw_scan = \<lambda>n. None\<rparr>"

definition all_well :: "string \<Rightarrow> string + SuOut" where
  "all_well line = Inr \<lparr>so_code = Some 0, so_out = [], so_err = []\<rparr>"

definition cafe :: WifiCreds where "cafe = \<lparr>c_ssid = ''cafe'', c_psk = ''pw''\<rparr>"

definition demo_lease :: DhcpLease where
  "demo_lease = \<lparr>l_ip = Ipv4 10 0 0 5, l_prefix = 24, l_gateway = Some (Ipv4 10 0 0 1), l_dns = [Ipv4 8 8 8 8],
     l_lease_secs = 0, l_server_id = None\<rparr>"

definition demo_link :: "bool \<Rightarrow> string \<Rightarrow> Link" where
  "demo_link child s = \<lparr>supplicant = child, status = \<lparr>up = True, ls_ssid = Some s, ls_ip = Some (Ipv4 10 0 0 5),
     ls_gateway = Some (Ipv4 10 0 0 1), ls_dns = [Ipv4 8 8 8 8]\<rparr>\<rparr>"

lemma demo_mac_reads: "read_mac (Inr demo_mac) = Inr [2, 0, 0, 0, 0, 10]"
  by code_simp

lemma demo_creds: "saved_creds_from_arbiter (Some ''OK ssid=Y2FmZQ== psk=cHc='') = Some cafe"
  by code_simp

lemma demo_carrier: "has_carrier (Some ''1'')" "\<not> has_carrier None"
  by code_simp+

lemma demo_exe: "exe_path ''/data/wandr-net''"
  by (simp add: exe_path_def bare_char_def ascii_alnum_def)

lemma demo_acquires:
  assumes "list_all writable os" "OPT_MSG_TYPE \<notin> set (map (fst \<circ> snd) os)" "length (concat (map write_option os)) < 1000"
  shows "fst (acquire_lease (Inr demo_mac) None (demo_sock os) 7 4 \<lparr>reads = 0, sent = []\<rparr>) =
    Inr (lease_of (reply_of (Ipv4 10 0 0 5) ((OPT_MSG_TYPE, [DHCP_ACK]) # map snd os)))"
proof -
  have n: "DHCP_OFFER \<noteq> 0" "DHCP_ACK \<noteq> 0" by (simp_all add: dhcp_codes)
  have r: "r_msg_type (reply_of a ((OPT_MSG_TYPE, [t]) # map snd os)) = t" for a t
    using demo_packet_reads(5)[OF assms, of t] by (simp add: reply_of_def)
  note p = demo_packet_reads(4)[OF assms] demo_packet_reads(1)[OF assms]
  show ?thesis
    by (rule quick_lease[OF demo_mac_reads, of _ "demo_packet DHCP_OFFER os"
          _ "reply_of (Ipv4 10 0 0 5) ((OPT_MSG_TYPE, [DHCP_OFFER]) # map snd os)" "demo_packet DHCP_ACK os"])
      (simp_all add: demo_sock_def p n r)
qed

lemma demo_options_ok: "list_all writable demo_options" "OPT_MSG_TYPE \<notin> set (map (fst \<circ> snd) demo_options)"
  "length (concat (map write_option demo_options)) < 1000"
  by (simp_all add: demo_options_def writable_def write_option_def dhcp_codes)

lemma demo_lease_of: "lease_of (reply_of (Ipv4 10 0 0 5) ((OPT_MSG_TYPE, [DHCP_ACK]) # map snd demo_options)) = demo_lease"
  by code_simp

lemma demo_lease_link:
  assumes "self_exe w = Inr exe" "nw_su w (Suc (nd_calls d)) (netd_line exe demo_lease (Ipv4 10 0 0 1)) = Inr out" "su_ok out"
    and "nw_dhcp w (nd_calls d) = (Inr demo_mac, None, demo_sock demo_options, 7)"
  shows "lease_link w c ch d = (Inr (demo_link ch (c_ssid c)), nact (NSu (netd_line exe demo_lease (Ipv4 10 0 0 1))) (nact NDhcp d))"
  using assms demo_acquires[OF demo_options_ok] demo_lease_of
  by (simp add: lease_link_def configure_netd_def run_su_def demo_lease_def demo_link_def)

lemma demo_su_netd: "\<exists>out. demo_su (netd_line ''/data/wandr-net'' demo_lease (Ipv4 10 0 0 1)) = Inr out \<and> su_ok out"
proof -
  have "unat (24 :: u8) \<le> 32" by simp
  then obtain cidr where "subnet_cidr (Ipv4 10 0 0 5) 24 = Some cidr"
    by (auto simp: subnet_cidr_def Let_def)
  then have "child_code (netd_child demo_netd WANDR_NETID WLAN_IF (Ipv4 10 0 0 5) 24 (Ipv4 10 0 0 1) [Ipv4 8 8 8 8]) = 0"
    by (simp add: child_code_def netd_child_def apply_address_def setup_network_def add_all_uid_ranges_def set_resolver_def
        netd_call_def demo_netd_def)
  moreover have "main_mode (sh_run False None (netd_line ''/data/wandr-net'' demo_lease (Ipv4 10 0 0 1))) =
      NetdConfig WANDR_NETID WLAN_IF (l_ip demo_lease) (l_prefix demo_lease) (Ipv4 10 0 0 1) (l_dns demo_lease)"
    using netd_arguments_exact[OF posix_sh_run demo_exe] .
  ultimately show ?thesis by (simp add: demo_su_def su_ok_def demo_lease_def)
qed

lemma demo_exe_utf8: "self_exe (demo_net su ca os) = Inr ''/data/wandr-net''"
  using exe_path_utf8[OF demo_exe] by (simp add: self_exe_def demo_net_def)

lemma demo_online:
  assumes "su = demo_su \<or> su = all_well"
  shows "bring_up_with (demo_net su (Some ''1'') demo_options) c False d =
    Some (Inr (demo_link False (c_ssid c)), nact (NSu (netd_line ''/data/wandr-net'' demo_lease (Ipv4 10 0 0 1)))
      (nact NDhcp (nact NCarrier d)))"
proof -
  let ?w = "demo_net su (Some ''1'') demo_options"
  obtain out where "su (netd_line ''/data/wandr-net'' demo_lease (Ipv4 10 0 0 1)) = Inr out" "su_ok out"
    using assms demo_su_netd by (auto simp: all_well_def su_ok_def)
  then have "lease_link ?w c False e = (Inr (demo_link False (c_ssid c)),
      nact (NSu (netd_line ''/data/wandr-net'' demo_lease (Ipv4 10 0 0 1))) (nact NDhcp e))" for e
    by (intro demo_lease_link[OF demo_exe_utf8]) (simp_all add: demo_net_def)
  then show ?thesis
    by (simp add: bring_up_with_def read_carrier_def demo_net_def demo_carrier)
qed

text \<open>A boot that goes online.\<close>

lemma demo_net_boot:
  "\<exists>d. net_boot (demo_net demo_su (Some ''1'') demo_options) = Some d \<and> link d = Some (demo_link False ''cafe'') \<and> mon d = Sleeping \<and> ctl d = Serving"
proof -
  let ?w = "demo_net demo_su (Some ''1'') demo_options"
  have "choose_creds ?w net_start = (Inr cafe, nact (NQuery ''wifi-auto-network'') net_start)"
    by (simp add: choose_creds_def query_arbiter_def) (simp add: demo_net_def demo_creds)
  then have "\<exists>d. bring_up ?w net_start = Some (Inr (demo_link False ''cafe''), d) \<and> mon d = Sleeping \<and> ctl d = Serving"
    using demo_online[of demo_su cafe] by (simp add: bring_up_def cafe_def net_start_def)
  then obtain d where "bring_up ?w net_start = Some (Inr (demo_link False ''cafe''), d)" "mon d = Sleeping" "ctl d = Serving"
    by blast
  then show ?thesis by (simp add: net_boot_def)
qed

lemma demo_clock: "clock_runs (demo_net su ca os)"
  unfolding clock_runs_def
proof
  fix b
  show "\<exists>k. \<forall>n \<ge> k. b \<le> nw_now (demo_net su ca os) n"
    by (intro exI[of _ b]) (simp add: demo_net_def)
qed

theorem net_reports_sound_witness:
  "\<exists>d. net_reachable (demo_net demo_su (Some ''1'') demo_options) d \<and> link d = Some (demo_link False ''cafe'') \<and>
     (\<exists>ss. told d Watching = concat (map (\<lambda>s. [state_line s, publish_line s]) ss)) \<and> sweeps d \<le> 1"
proof -
  obtain d where d: "net_boot (demo_net demo_su (Some ''1'') demo_options) = Some d" "link d = Some (demo_link False ''cafe'')"
    "mon d = Sleeping"
    using demo_net_boot by blast
  note r = net_reachable.Boot[OF d(1)]
  have "half_told d Watching = []"
    using d(3) by (simp add: half_told_def mon_half_def)
  moreover obtain ss where "told d Watching = concat (map (\<lambda>s. [state_line s, publish_line s]) ss) @ map state_line (half_told d Watching)"
    "sweeps d \<le> 1"
    using net_reports_sound[OF r] by blast
  ultimately show ?thesis using r d(2) by (intro exI[of _ d]) auto
qed

theorem net_never_stuck_witness:
  "\<exists>d d'. net_reachable (demo_net demo_su (Some ''1'') demo_options) d \<and>
     mon_step (demo_net demo_su (Some ''1'') demo_options) d d' \<and> mon d' \<noteq> mon d"
proof -
  obtain d where d: "net_boot (demo_net demo_su (Some ''1'') demo_options) = Some d" "ctl d = Serving"
    using demo_net_boot by blast
  note r = net_reachable.Boot[OF d(1)]
  from net_never_stuck[OF demo_clock r] d(2) r show ?thesis by (auto simp: lock_held_def)
qed

theorem online_means_configured_witness:
  "\<exists>prefix cidr calls. subnet_cidr (Ipv4 10 0 0 5) prefix = Some cidr \<and>
     netd_child demo_netd WANDR_NETID WLAN_IF (Ipv4 10 0 0 5) prefix (Ipv4 10 0 0 1) [Ipv4 8 8 8 8] = Some (0, calls) \<and>
     AddRoute WANDR_NETID WLAN_IF cidr [] \<in> set calls"
proof -
  let ?w = "demo_net demo_su (Some ''1'') demo_options"
  have c: "runs_netd_child ?w (sh_run False None) (\<lambda>_. demo_netd)"
    by (auto simp: runs_netd_child_def demo_net_def demo_su_def)
  have e: "nw_exe ?w = Inr ''/data/wandr-net''"
    by (simp add: demo_net_def)
  have "bring_up_with ?w cafe False net_start = Some (Inr (demo_link False ''cafe''),
      nact (NSu (netd_line ''/data/wandr-net'' demo_lease (Ipv4 10 0 0 1))) (nact NDhcp (nact NCarrier net_start)))"
    using demo_online[of demo_su cafe] by (simp add: cafe_def)
  from online_means_configured[OF posix_sh_run e demo_exe c this] show ?thesis
    by (fastforce simp: demo_link_def)
qed


lemma demo_associate:
  "\<exists>d1. associate (demo_net all_well (Some ''1'') os) c d = Some (Inr (), d1)"
proof -
  let ?w = "demo_net all_well (Some ''1'') os"
  have su: "run_su ?w line e = (Inr \<lparr>so_code = Some 0, so_out = [], so_err = []\<rparr>, nact (NSu line) e)" for line e
    by (simp add: run_su_def demo_net_def all_well_def)
  have w: "nw_spawn ?w n = None" "nw_now ?w n = n * 1000" "nw_carrier ?w n = Some ''1''" for n
    by (simp_all add: demo_net_def)
  have "wait_carrier ?w (nd_calls e * 1000 + CARRIER_WAIT) (nact NNow e) = Some (True, nact NCarrier (nact NNow (nact NNow e)))" for e
    by (simp add: wait_carrier.simps[of ?w _ "nact NNow e"] read_now_def read_carrier_def w demo_carrier CARRIER_WAIT_def)
  then show ?thesis
    by (simp add: associate_def power_chip_via_hal_def run_self_su1000_def su su_ok_def spawn_supplicant_def associate_via_hal_def
        read_now_def demo_exe_utf8 w)
qed

theorem stale_link_announced_witness:
  "\<exists>d d'. link d = Some (demo_link True ''home'') \<and> ctl d = Connecting cafe \<and>
     (net_step (demo_net all_well (Some ''1'') []))\<^sup>*\<^sup>* d d' \<and>
     told d' Watching = told d Watching @ report_lines (status (demo_link True ''home''))"
proof -
  let ?w = "demo_net all_well (Some ''1'') []"
  let ?d = "net_start\<lparr>link := Some (demo_link True ''home''), mon := Polling, ctl := Connecting cafe\<rparr>"
  have d: "ctl ?d = Connecting cafe" "link ?d = Some (demo_link True ''home'')" "mon ?d = Polling"
    by simp_all
  obtain d1 where a: "associate ?w cafe (snd (read_carrier ?w ?d)) = Some (Inr (), d1)"
    using demo_associate by blast
  have "lease_of (reply_of (Ipv4 10 0 0 5) [(OPT_MSG_TYPE, [DHCP_ACK])]) =
      \<lparr>l_ip = Ipv4 10 0 0 5, l_prefix = 24, l_gateway = None, l_dns = [], l_lease_secs = 0, l_server_id = None\<rparr>"
    by code_simp
  moreover have "nw_dhcp ?w n = (Inr demo_mac, None, demo_sock [], 7)" for n
    by (simp add: demo_net_def)
  ultimately have "\<exists>e. lease_link ?w cafe True d1 = (Inl e, nact NDhcp d1)"
    using demo_acquires[of "[]"] by (simp add: lease_link_def configure_netd_def)
  then obtain e where "lease_link ?w cafe True d1 = (Inl e, nact NDhcp d1)" by blast
  from stale_link_announced[OF d a this] d show ?thesis by blast
qed

theorem connect_overtaken_witness:
  "\<exists>d d2 d'. ctl d = Connecting cafe \<and> (net_step (demo_net all_well (Some ''1'') demo_options))\<^sup>*\<^sup>* d d2 \<and>
     (mon_step (demo_net all_well (Some ''1'') demo_options))\<^sup>*\<^sup>* d2 d' \<and> link d' = Some (demo_link True ''home'')"
proof -
  let ?w = "demo_net all_well (Some ''1'') demo_options"
  let ?d = "net_start\<lparr>mon := Storing (demo_link True ''home''), ctl := Connecting cafe\<rparr>"
  have d: "ctl ?d = Connecting cafe" "mon ?d = Storing (demo_link True ''home'')"
    by simp_all
  obtain d1 where a: "associate ?w cafe (snd (read_carrier ?w ?d)) = Some (Inr (), d1)"
    using demo_associate by blast
  obtain d2 where l: "lease_link ?w cafe True d1 = (Inr (demo_link True (c_ssid cafe)), d2)"
    using demo_lease_link[OF demo_exe_utf8, of all_well "Some ''1''" demo_options d1 _ cafe True]
    by (auto simp: demo_net_def all_well_def su_ok_def)
  have "bring_up_with ?w cafe True ?d = Some (Inr (demo_link True (c_ssid cafe)), d2)"
    by (simp add: bring_up_with_def case_prod_beta a l)
  from connect_overtaken[OF d this] d show ?thesis by blast
qed

theorem lease_never_renewed_witness:
  "\<exists>d d'. (\<lambda>x y. net_step (demo_net all_well (Some ''1'') []) x y \<and> ctl y = Serving)\<^sup>*\<^sup>* d d' \<and> mon d' = Woke True \<and>
     exchanges d' = exchanges d"
proof -
  let ?w = "demo_net all_well (Some ''1'') []"
  let ?d = "net_start\<lparr>link := Some (demo_link True ''home'')\<rparr>"
  let ?d' = "?d\<lparr>mon := Woke (link ?d \<noteq> None), nd_ticks := nd_ticks ?d + 1\<rparr>"
  have "net_step ?w ?d ?d'"
    by (rule net_step.Monitor, rule Wake) (simp_all add: net_start_def lock_held_def)
  then have s: "(\<lambda>x y. net_step ?w x y \<and> ctl y = Serving)\<^sup>*\<^sup>* ?d ?d'"
    by (intro r_into_rtranclp) (simp add: net_start_def)
  have "resting ?d" "\<forall>n. has_carrier (nw_carrier ?w n)"
    by (simp_all add: resting_def net_start_def demo_net_def demo_carrier)
  from lease_never_renewed[OF s this] s show ?thesis by fastforce
qed

theorem several_routers_refused_witness:
  "\<exists>e. lease_link (demo_net all_well (Some ''1'') [(0, OPT_ROUTER, [10, 0, 0, 1, 10, 0, 0, 2])]) cafe True net_start =
     (Inl e, nact NDhcp net_start)"
proof -
  let ?os = "[(0 :: nat, OPT_ROUTER, [10, 0, 0, 1, 10, 0, 0, 2 :: u8])]"
  let ?w = "demo_net all_well (Some ''1'') ?os"
  have ok: "list_all writable ?os" "OPT_MSG_TYPE \<notin> set (map (fst \<circ> snd) ?os)" "length (concat (map write_option ?os)) < 1000"
    by (simp_all add: writable_def write_option_def dhcp_codes)
  note p = demo_packet_reads[OF ok]
  have n: "DHCP_OFFER \<noteq> 0" "DHCP_ACK \<noteq> 0" by (simp_all add: dhcp_codes)
  have r: "r_msg_type (reply_of (Ipv4 10 0 0 5) ((OPT_MSG_TYPE, [DHCP_OFFER]) # map snd ?os)) = DHCP_OFFER"
    using p(5)[of DHCP_OFFER] by (simp add: reply_of_def)
  have w: "nw_dhcp ?w (nd_calls net_start) = (Inr demo_mac, None, demo_sock ?os, 7)"
    "\<forall>n. s_send (demo_sock ?os) n = None"
    "s_recv (demo_sock ?os) 0 = Some (demo_packet DHCP_OFFER ?os)" "s_recv (demo_sock ?os) 1 = Some (demo_packet DHCP_ACK ?os)"
    by (simp_all add: demo_net_def demo_sock_def)
  have o: "parse_reply (take BUF_LEN (demo_packet DHCP_OFFER ?os)) 7 =
      Some (reply_of (Ipv4 10 0 0 5) ((OPT_MSG_TYPE, [DHCP_OFFER]) # map snd ?os))"
    using p(4)[OF n(1)] by (simp only: p(1))
  have b: "bootreply (take BUF_LEN (demo_packet DHCP_ACK ?os)) 7"
    using p(2) by (simp only: p(1))
  have os: "(OPT_MSG_TYPE, [DHCP_ACK]) # map snd ?os = options (drop 240 (take BUF_LEN (demo_packet DHCP_ACK ?os)))"
    by (simp only: p(1,3))
  have nr: "newest OPT_ROUTER (\<lambda>_. True) ((OPT_MSG_TYPE, [DHCP_ACK]) # map snd ?os) = Some (octets (Ipv4 10 0 0 1) @ octets (Ipv4 10 0 0 2))"
    by (simp add: newest_def)
  show ?thesis
    using several_routers_refused[OF w(1) demo_mac_reads w(2,3) o r w(4) b os p(5) nr] by blast
qed

theorem acquire_handshake_witness:
  "\<exists>w'. acquire_lease (Inr demo_mac) None (demo_sock demo_options) 7 4 \<lparr>reads = 0, sent = []\<rparr> = (Inr demo_lease, w') \<and>
     handshake (demo_sock demo_options) 7 [2, 0, 0, 0, 0, 10] \<lparr>reads = 0, sent = []\<rparr> demo_lease w'"
proof -
  obtain w' where a: "acquire_lease (Inr demo_mac) None (demo_sock demo_options) 7 4 \<lparr>reads = 0, sent = []\<rparr> = (Inr demo_lease, w')"
    using demo_acquires[OF demo_options_ok] demo_lease_of by (metis prod.collapse)
  from acquire_handshake[of "Inr demo_mac" None "demo_sock demo_options" 7 4 "\<lparr>reads = 0, sent = []\<rparr>"] show ?thesis
    by (simp add: a demo_mac_reads)
qed

end
