(* ===== verification/NetRelay.thy ===== *)
theory NetRelay
  imports NetRun DaemonHome
begin

text \<open>
  The two daemons together: the arbiter relays the Wi-Fi commands of its clients to the
  connectivity daemon, one line per connection.  A saved network goes from the registry's memory
  through the arbiter's client thread to the lock of the other process.
\<close>

lemma creds_field_creds:
  assumes "\<forall>c \<in> set (security n). plain c"
  shows "creds_field (creds n) ''ssid='' = b64_encode (ssid n)" "creds_field (creds n) ''psk='' = b64_encode (psk n)"
  using creds_tokens[OF assms] strip_prefix_append[of "''ssid=''"] strip_prefix_append[of "''psk=''"]
  by (simp_all add: creds_field_def List.map_filter_simps) (simp_all add: strip_prefix_def)

text \<open>The registry answers from the one module that owns the verb.\<close>

lemma saved_creds_answered:
  assumes "index_ok (arbiter (w_log10 w)) (d_registry d)" "NetM m \<in> set (modules (d_registry d))"
    and "id_arg i = Some k" "find (\<lambda>n. sn_id n = k) (saved m) = Some n"
  shows "run_module w ''wifi-saved-creds'' i d = Some (Some (Ok (creds n), []), act ReadClock d)"
proof -
  obtain j where j: "j < length (modules (d_registry d))" "modules (d_registry d) ! j = NetM m"
    using assms(2) by (auto simp: in_set_conv_nth)
  then have "map_of (verb_index (d_registry d)) ''wifi-saved-creds'' = Some j"
    using assms(1) by (simp add: index_ok_def net_verbs_def)
  moreover have "net_on_command ''wifi-saved-creds'' i m c = (Ok (creds n), m, c)" for c
    using assms(3,4) by (simp add: net_on_command_def cmd_saved_creds_def)
  moreover have "(modules (d_registry d))[j := NetM m] = modules (d_registry d)"
    using j by (metis list_update_id)
  ultimately show ?thesis
    using j by (simp add: run_module_def dispatch_command_def drain_cascade_def read_clock_def Ctx_new_def act_def)
qed

text \<open>A line of the relay, read by the other daemon.\<close>

lemma connect_line_read:
  assumes "utf8_valid s" "utf8_valid p" "s \<noteq> []"
  shows "dispatch_control w (trim (''connect '' @ b64_encode s @ '' '' @ b64_encode p @ [CHR 0x0A])) d =
    (if p = [] then Inl (''err connect-usage <b64ssid> <b64psk>'' @ [CHR 0x0A]) else Inr \<lparr>c_ssid = s, c_psk = p\<rparr>, d)"
proof -
  have ts: "token (b64_encode s)"
    using assms(3) by (rule token_b64)
  then have ps: "plain (hd (b64_encode s))" "plain (last (b64_encode s))" "b64_encode s \<noteq> []"
    by (auto simp: token_def)
  have tr: "trim (b64_encode s) = b64_encode s"
    by (rule trim_plain_ends) (use ps in auto)
  show ?thesis
  proof (cases "p = []")
    case True
    have "trim ((''connect '' @ b64_encode s) @ '' '' @ [CHR 0x0A]) = ''connect '' @ b64_encode s"
      using ps by (intro trim_suffix) (simp_all add: plain_def ws_len_def)
    then show ?thesis
      using True ts tr by (simp add: dispatch_control_def split_once_def or_default_def connect_args_def)
  next
    case False
    have tp: "token (b64_encode p)"
      using False by (rule token_b64)
    then have pp: "plain (last (b64_encode p))" "b64_encode p \<noteq> []"
      by (auto simp: token_def)
    have "trim ((''connect '' @ b64_encode s @ '' '' @ b64_encode p) @ [CHR 0x0A]) = ''connect '' @ b64_encode s @ '' '' @ b64_encode p"
      using pp by (intro trim_newline) (simp_all add: plain_def)
    moreover have "trim (b64_encode s @ '' '' @ b64_encode p) = b64_encode s @ '' '' @ b64_encode p"
      using pp ps by (intro trim_plain_ends) simp_all
    ultimately show ?thesis
      using False assms ts tp
      by (simp add: dispatch_control_def split_once_def or_default_def connect_args_def b64_to_string_def)
  qed
qed

text \<open>
  C13. Joining a saved network, through both daemons: the arbiter finds the network of that id in
  its registry and sends one line, from which the connectivity daemon reads exactly the name and
  the passphrase that were saved, whatever UTF-8 they are made of, and goes for the lock with
  them; a network saved without a passphrase is refused with the usage error.
\<close>

theorem saved_network_joined:
  assumes "index_ok (arbiter (w_log10 w)) (d_registry d)" "NetM m \<in> set (modules (d_registry d))"
    and "id_arg i = Some k" "find (\<lambda>n. sn_id n = k) (saved m) = Some n"
    and "utf8_valid (ssid n)" "utf8_valid (psk n)" "ssid n \<noteq> []" "\<forall>c \<in> set (security n). plain c"
  shows "\<exists>answer line. cmd_wifi_connect_saved w i d = Some (answer, act (Relay line) (act ReadClock d)) \<and>
    handle_control_conn nw line e =
      (if psk n = [] then reply (''err connect-usage <b64ssid> <b64psk>'' @ [CHR 0x0A]) e
       else e\<lparr>ctl := Locking \<lparr>c_ssid = ssid n, c_psk = psk n\<rparr>\<rparr>)"
proof -
  let ?line = "''connect '' @ b64_encode (ssid n) @ '' '' @ b64_encode (psk n)"
  have ne: "b64_encode (ssid n) \<noteq> []"
    using token_b64[OF assms(7)] by (auto simp: token_def)
  have "last ?line \<noteq> CHR 0x0A"
  proof (cases "b64_encode (psk n) = []")
    case False
    then have "plain (last (b64_encode (psk n)))"
      using plain_b64[of "psk n"] last_in_set by blast
    with False show ?thesis by (auto simp: plain_def)
  qed simp
  then have "snd (relay_wifi w ?line (act ReadClock d)) = act (Relay (?line @ [CHR 0x0A])) (act ReadClock d)"
    by (simp add: relay_wifi_def Let_def)
  moreover have "cmd_wifi_connect_saved w i d = Some (relay_wifi w ?line (act ReadClock d))"
    using saved_creds_answered[OF assms(1-4)] creds_field_creds[OF assms(8)] ne
    by (simp add: cmd_wifi_connect_saved_def)
  moreover have "handle_control_conn nw (?line @ [CHR 0x0A]) e =
      (if psk n = [] then reply (''err connect-usage <b64ssid> <b64psk>'' @ [CHR 0x0A]) e
       else e\<lparr>ctl := Locking \<lparr>c_ssid = ssid n, c_psk = psk n\<rparr>\<rparr>)"
    using connect_line_read[OF assms(5-7), of nw e] by (simp add: handle_control_conn_def)
  ultimately show ?thesis by (metis prod.collapse)
qed

definition saved_cafe :: SavedNet where
  "saved_cafe = \<lparr>sn_id = 1, ssid = ''cafe'', security = ''sae'', psk = ''p w'', auto_connect = False, hidden = False\<rparr>"

theorem saved_network_joined_witness:
  "\<exists>d answer line. daemon_ok demo_world d \<and>
     cmd_wifi_connect_saved demo_world ''1'' d = Some (answer, act (Relay line) (act ReadClock d)) \<and>
     handle_control_conn (demo_net all_well None []) line net_start =
       net_start\<lparr>ctl := Locking \<lparr>c_ssid = ''cafe'', c_psk = ''p w''\<rparr>\<rparr>"
proof -
  obtain r where r: "build_registry id None True = Some r"
    by (rule build_registry_total)
  let ?f = "\<lambda>x. case x of NetM m \<Rightarrow> NetM (m\<lparr>saved := [saved_cafe], next_id := 2\<rparr>) | _ \<Rightarrow> x"
  let ?d = "demo_daemon (r\<lparr>modules := map ?f (modules r)\<rparr>) demo_store"
  have f: "module_ok x \<Longrightarrow> module_ok (?f x)" "any_verbs (?f x) = any_verbs x" for x
    by (cases x; simp add: net_wf_def saved_cafe_def)+
  have "list_all module_ok (modules r)" "index_ok (arbiter id) r"
    using build_registry_ok[OF r] boot_modules_ok by simp_all
  then have 1: "list_all module_ok (map ?f (modules r))" "index_ok (arbiter id) (r\<lparr>modules := map ?f (modules r)\<rparr>)"
    using f by (auto simp: list_all_iff index_ok_def)
  have ok: "daemon_ok demo_world ?d"
  proof -
    have "daemon_ok demo_world (demo_daemon (r\<lparr>modules := map id (modules r)\<rparr>) demo_store)"
      using demo_daemon_ok[OF r demo_store_ok] by blast
    with 1 show ?thesis by (simp add: daemon_ok_def module_owns_def owns_def)
  qed
  obtain m where "NetM m \<in> set (modules r)"
    using build_registry_ok[OF r] by (auto simp: boot_modules_def)
  then have m: "NetM (m\<lparr>saved := [saved_cafe], next_id := 2\<rparr>) \<in> set (modules (d_registry ?d))"
    by force
  have u: "utf8_valid ''cafe''" "utf8_valid ''p w''"
    by (auto simp del: utf8_valid.simps intro!: utf8_valid_ascii)
  have "show_u32 1 = ''1''"
    by code_simp
  then have "parse_u32 ''1'' = Some 1"
    using parse_u32_show[of 1] by simp
  then have i: "id_arg ''1'' = Some 1"
    by (simp add: id_arg_def nth_opt_def token_def plain_def)
  have "\<exists>answer line. cmd_wifi_connect_saved demo_world ''1'' ?d = Some (answer, act (Relay line) (act ReadClock ?d)) \<and>
      handle_control_conn (demo_net all_well None []) line net_start =
        (if psk saved_cafe = [] then reply (''err connect-usage <b64ssid> <b64psk>'' @ [CHR 0x0A]) net_start
         else net_start\<lparr>ctl := Locking \<lparr>c_ssid = ssid saved_cafe, c_psk = psk saved_cafe\<rparr>\<rparr>)"
    by (rule saved_network_joined[OF _ m i]) (use 1(2) u in \<open>simp_all add: saved_cafe_def plain_def del: utf8_valid.simps\<close>)
  then have "\<exists>answer line. cmd_wifi_connect_saved demo_world ''1'' ?d = Some (answer, act (Relay line) (act ReadClock ?d)) \<and>
      handle_control_conn (demo_net all_well None []) line net_start =
        net_start\<lparr>ctl := Locking \<lparr>c_ssid = ''cafe'', c_psk = ''p w''\<rparr>\<rparr>"
    by (simp add: saved_cafe_def)
  with ok show ?thesis by blast
qed

end
