(* ===== verification/HttpRange.thy ===== *)
theory HttpRange
  imports Core
begin

text \<open>
  The byte source of the media engine (\<open>wandr-media-engine\<close>): a range request
  (\<open>net.rs\<close>) and the reader over it that the container demuxers pull from
  (\<open>httprange.rs\<close>), with its cache of windows, which the reader shares with the
  prefetch tasks.

  The server and the disk are \<open>Origin\<close>: each access is numbered, and the number is an
  argument of the answer.  Offsets are natural numbers: no sum of the code leaves 64 bits for a
  file below \<open>2^62\<close> bytes.  The system is single-threaded, so a read, a seek, the
  prefetch driver and the completion of a prefetch are steps that do not overlap.
\<close>

section \<open>A range request\<close>

text \<open>The two headers are what \<open>to_str\<close> gives of them, if they are there.\<close>

record Response =
  resp_status :: nat
  content_range :: "string option"
  content_length :: "string option"
  resp_body :: "string + u8 list"

record Range =
  rg_bytes :: "u8 list"
  rg_total :: u64

definition range_total :: "Response \<Rightarrow> u64" where
  "range_total r =
     (case Option.bind (content_range r) (\<lambda>s. parse_u64 (trim (last (split_char (CHR ''/'') s)))) of
        Some n \<Rightarrow> n
      | None \<Rightarrow> or_default 0 (Option.bind (content_length r) parse_u64))"

definition fetch_range :: "string + Response \<Rightarrow> string + Range" where
  "fetch_range answer =
     (case answer of
        Inl e \<Rightarrow> Inl (''range fetch: '' @ e)
      | Inr r \<Rightarrow>
          if resp_status r \<noteq> 206 \<and> resp_status r \<noteq> 200
          then Inl (''range fetch: unexpected status '' @ show_nat (resp_status r))
          else
            (case resp_body r of
               Inl e \<Rightarrow> Inl (''range body: '' @ e)
             | Inr bs \<Rightarrow> Inr \<lparr>rg_bytes = bs, rg_total = range_total r\<rparr>))"

section \<open>The cache\<close>

definition WINDOW :: nat where "WINDOW = 2 * 1024 * 1024"
definition PREFETCH_AHEAD :: nat where "PREFETCH_AHEAD = 8 * 1024 * 1024"
definition MAX_CHUNKS :: nat where "MAX_CHUNKS = 12"

type_synonym chunk = "nat \<times> u8 list"

record ReaderShared =
  chunks :: "chunk list"
  read_pos :: nat
  total_len :: nat
  pf_inflight :: bool
  streaming :: bool
  blocking_fetches :: nat
  prefetches :: nat

definition chunk_end :: "chunk \<Rightarrow> nat" where
  "chunk_end c = fst c + length (snd c)"

definition covers :: "nat \<Rightarrow> chunk \<Rightarrow> bool" where
  "covers off c \<longleftrightarrow> fst c \<le> off \<and> off < chunk_end c"

text \<open>The chunk itself stands for its index.\<close>

definition chunk_covering :: "chunk list \<Rightarrow> nat \<Rightarrow> chunk option" where
  "chunk_covering cs off = find (covers off) cs"

function contiguous_end :: "chunk list \<Rightarrow> nat \<Rightarrow> nat" where
  "contiguous_end cs end' =
     (case find (covers end') cs of
        Some c \<Rightarrow> contiguous_end cs (chunk_end c)
      | None \<Rightarrow> end')"
  by pat_completeness auto

lemma covers_found: "find (covers p) cs = Some c \<Longrightarrow> c \<in> set cs \<and> fst c \<le> p \<and> p < chunk_end c"
  by (auto simp: find_Some_iff covers_def)

termination contiguous_end
proof (relation "measure (\<lambda>(cs, p). card {c \<in> set cs. p < chunk_end c})", goal_cases)
  case (2 cs p c)
  then have c: "c \<in> set cs" "p < chunk_end c"
    using covers_found[of p cs c] by auto
  then have "{d \<in> set cs. chunk_end c < chunk_end d} \<subset> {d \<in> set cs. p < chunk_end d}"
    by force
  then show ?case
    by (simp add: psubset_card_mono)
qed simp

declare contiguous_end.simps [simp del]

definition insert_and_evict :: "nat \<Rightarrow> u8 list \<Rightarrow> ReaderShared \<Rightarrow> ReaderShared" where
  "insert_and_evict base bs s =
     (if bs = [] then s
      else if chunk_covering (chunks s) base \<noteq> None \<and> chunk_covering (chunks s) (base + length bs - 1) \<noteq> None then s
      else (let cs = chunks s @ [(base, bs)] in s\<lparr>chunks := drop (length cs - MAX_CHUNKS) cs\<rparr>))"

definition ready_ahead :: "ReaderShared \<Rightarrow> nat \<times> bool" where
  "ready_ahead s =
     (let end' = contiguous_end (chunks s) (read_pos s) in
      (end' - read_pos s, total_len s \<le> read_pos s \<or> total_len s \<le> end'))"

section \<open>The reader\<close>

text \<open>
  \<open>o_http n a b\<close>: the answer to request \<open>n\<close>, for the bytes from \<open>a\<close> to
  \<open>b\<close>.  \<open>o_seek n\<close> and \<open>o_read n at len\<close>: positioning the local file, and one
  read of it, at an offset, into a buffer of that length.
\<close>

record Origin =
  o_http :: "nat \<Rightarrow> nat \<Rightarrow> nat \<Rightarrow> string + Response"
  o_seek :: "nat \<Rightarrow> string option"
  o_read :: "nat \<Rightarrow> nat \<Rightarrow> nat \<Rightarrow> string + u8 list"

text \<open>\<open>tasks\<close>: the offsets the prefetch tasks in flight were started for.\<close>

record RangeSys =
  shared :: ReaderShared
  local :: bool
  pos :: nat
  tasks :: "nat list"
  accesses :: nat

definition on_shared :: "(ReaderShared \<Rightarrow> ReaderShared) \<Rightarrow> RangeSys \<Rightarrow> RangeSys" where
  "on_shared f s = s\<lparr>shared := f (shared s)\<rparr>"

datatype IoErr = WouldBlock string | InvalidInput string | OtherErr string

definition reader_new :: "bool \<Rightarrow> nat \<Rightarrow> RangeSys" where
  "reader_new is_local flen = \<lparr>shared = \<lparr>chunks = [], read_pos = 0, total_len = flen, pf_inflight = False, streaming = False,
     blocking_fetches = 0, prefetches = 0\<rparr>, local = is_local, pos = 0, tasks = [], accesses = 0\<rparr>"

definition mark_streaming :: "RangeSys \<Rightarrow> RangeSys" where
  "mark_streaming = on_shared (\<lambda>s. s\<lparr>streaming := True\<rparr>)"

text \<open>Reading a window of the local file, until it is full or the file ends.\<close>

function fill_window :: "Origin \<Rightarrow> nat \<Rightarrow> nat \<Rightarrow> u8 list \<Rightarrow> nat \<Rightarrow> (string + u8 list) \<times> nat" where
  "fill_window w off len filled n =
     (if length filled < len then
        (case o_read w n (off + length filled) (len - length filled) of
           Inl e \<Rightarrow> (Inl e, Suc n)
         | Inr bs \<Rightarrow>
             if bs = [] then (Inr filled, Suc n)
             else fill_window w off len (filled @ take (len - length filled) bs) (Suc n))
      else (Inr filled, n))"
  by pat_completeness auto
termination
  by (relation "measure (\<lambda>(w, off, len, filled, n). len - length filled)") (auto simp: min_def simp flip: length_greater_0_conv)

declare fill_window.simps [simp del]

definition window_end :: "nat \<Rightarrow> nat \<Rightarrow> nat" where
  "window_end off flen = min (off + WINDOW - 1) (flen - 1)"

definition block_fetch :: "Origin \<Rightarrow> nat \<Rightarrow> RangeSys \<Rightarrow> (IoErr option) \<times> RangeSys" where
  "block_fetch w off s =
     (let end' = window_end off (total_len (shared s)) in
      if local s then
        (case o_seek w (accesses s) of
           Some e \<Rightarrow> (Some (OtherErr e), s\<lparr>accesses := Suc (accesses s)\<rparr>)
         | None \<Rightarrow>
             (case fill_window w off (end' - off + 1) [] (Suc (accesses s)) of
                (Inl e, n) \<Rightarrow> (Some (OtherErr e), s\<lparr>accesses := n\<rparr>)
              | (Inr bs, n) \<Rightarrow>
                  (None, on_shared (insert_and_evict off bs \<circ> (\<lambda>sh. sh\<lparr>blocking_fetches := blocking_fetches sh + 1\<rparr>))
                     (s\<lparr>accesses := n\<rparr>))))
      else
        (let res = fetch_range (o_http w (accesses s) off end');
             s1 = on_shared (\<lambda>sh. sh\<lparr>blocking_fetches := blocking_fetches sh + 1\<rparr>) (s\<lparr>accesses := Suc (accesses s)\<rparr>)
         in case res of
              Inl e \<Rightarrow> (Some (OtherErr e), s1)
            | Inr r \<Rightarrow> (None, on_shared (insert_and_evict off (rg_bytes r)) s1)))"

text \<open>The part of \<open>read\<close> once the position is covered, or should be.\<close>

definition serve :: "nat \<Rightarrow> RangeSys \<Rightarrow> (IoErr + u8 list) \<times> RangeSys" where
  "serve len s =
     (case chunk_covering (chunks (shared s)) (pos s) of
        None \<Rightarrow> (Inl (OtherErr ''cache miss after fetch''), s)
      | Some (base, bs) \<Rightarrow>
          (let out = take len (drop (pos s - base) bs) in (Inr out, s\<lparr>pos := pos s + length out\<rparr>)))"

definition read :: "Origin \<Rightarrow> nat \<Rightarrow> RangeSys \<Rightarrow> (IoErr + u8 list) \<times> RangeSys" where
  "read w len s =
     (if total_len (shared s) \<le> pos s \<or> len = 0 then (Inr [], s)
      else
        (let s1 = on_shared (\<lambda>sh. sh\<lparr>read_pos := pos s\<rparr>) s in
         if chunk_covering (chunks (shared s1)) (pos s) = None then
           (if local s \<or> \<not> streaming (shared s1) then
              (case block_fetch w (pos s) s1 of
                 (Some e, s2) \<Rightarrow> (Inl e, s2)
               | (None, s2) \<Rightarrow> serve len s2)
            else (Inl (WouldBlock ''prefetch not ready''), s1))
         else serve len s1))"

text \<open>Casts and sums at 64 bits, two's complement.\<close>

definition wrap64 :: "int \<Rightarrow> int" where
  "wrap64 x = (x + 2 ^ 63) mod 2 ^ 64 - 2 ^ 63"

datatype SeekFrom = Start nat | Current int | End int

definition seek :: "SeekFrom \<Rightarrow> RangeSys \<Rightarrow> (IoErr + nat) \<times> RangeSys" where
  "seek from s =
     (let np = (case from of
          Start n \<Rightarrow> wrap64 (int n)
        | Current d \<Rightarrow> wrap64 (wrap64 (int (pos s)) + d)
        | End d \<Rightarrow> wrap64 (wrap64 (int (total_len (shared s))) + d))
      in if np < 0 then (Inl (InvalidInput ''negative seek''), s)
         else (Inr (nat np), s\<lparr>pos := nat np\<rparr>))"

section \<open>Prefetching\<close>

definition drive_prefetch :: "RangeSys \<Rightarrow> RangeSys" where
  "drive_prefetch s =
     (let sh = shared s in
      if pf_inflight sh then s
      else
        (let end' = contiguous_end (chunks sh) (read_pos sh) in
         if total_len sh \<le> end' \<or> PREFETCH_AHEAD \<le> end' - read_pos sh then s
         else s\<lparr>shared := sh\<lparr>pf_inflight := True\<rparr>, tasks := tasks s @ [end']\<rparr>))"

text \<open>A prefetch task, when its request is answered.\<close>

definition prefetch_done :: "Origin \<Rightarrow> nat \<Rightarrow> RangeSys \<Rightarrow> RangeSys" where
  "prefetch_done w start s =
     (let res = fetch_range (o_http w (accesses s) start (window_end start (total_len (shared s)))) in
      on_shared
        (\<lambda>sh. (case res of Inl _ \<Rightarrow> sh\<lparr>prefetches := prefetches sh + 1\<rparr>
                | Inr r \<Rightarrow> insert_and_evict start (rg_bytes r) (sh\<lparr>prefetches := prefetches sh + 1\<rparr>))
               \<lparr>pf_inflight := False\<rparr>)
        (s\<lparr>tasks := remove1 start (tasks s), accesses := Suc (accesses s)\<rparr>))"

section \<open>Steps\<close>

inductive range_step :: "Origin \<Rightarrow> RangeSys \<Rightarrow> RangeSys \<Rightarrow> bool" for w where
  Reads: "range_step w s (snd (read w len s))"
| Seeks: "range_step w s (snd (seek from s))"
| Drives: "\<not> local s \<Longrightarrow> range_step w s (drive_prefetch s)"
| Done: "start \<in> set (tasks s) \<Longrightarrow> range_step w s (prefetch_done w start s)"
| Marks: "range_step w s (mark_streaming s)"

inductive range_reachable :: "Origin \<Rightarrow> bool \<Rightarrow> nat \<Rightarrow> RangeSys \<Rightarrow> bool" for w is_local flen where
  New: "range_reachable w is_local flen (reader_new is_local flen)"
| Go: "range_reachable w is_local flen s \<Longrightarrow> range_step w s s' \<Longrightarrow> range_reachable w is_local flen s'"

section \<open>The cache holds the file\<close>

text \<open>
  What is relied on: a server that honours \<open>Range\<close> answers with bytes of the file
  from the requested offset on, at most as many as asked for, or with an error; and the disk
  does the same.
\<close>

definition serves :: "Origin \<Rightarrow> u8 list \<Rightarrow> bool" where
  "serves w file \<longleftrightarrow>
     (\<forall>n a b r. a \<le> b \<longrightarrow> b < length file \<longrightarrow> fetch_range (o_http w n a b) = Inr r \<longrightarrow>
        (\<exists>k \<le> b - a + 1. rg_bytes r = take k (drop a file))) \<and>
     (\<forall>n a m bs. o_read w n a m = Inr bs \<longrightarrow> (\<exists>k \<le> m. bs = take k (drop a file)))"

definition chunk_ok :: "u8 list \<Rightarrow> chunk \<Rightarrow> bool" where
  "chunk_ok file c \<longleftrightarrow> snd c = take (length (snd c)) (drop (fst c) file) \<and> snd c \<noteq> [] \<and> length (snd c) \<le> WINDOW"

definition range_ok :: "u8 list \<Rightarrow> RangeSys \<Rightarrow> bool" where
  "range_ok file s \<longleftrightarrow> total_len (shared s) = length file \<and> list_all (chunk_ok file) (chunks (shared s))
     \<and> length (chunks (shared s)) \<le> MAX_CHUNKS \<and> (\<forall>t \<in> set (tasks s). t < length file)
     \<and> length (tasks s) = (if pf_inflight (shared s) then 1 else 0)"

lemma chunk_end_le: "chunk_ok file c \<Longrightarrow> chunk_end c \<le> length file"
proof -
  assume c: "chunk_ok file c"
  then have "length (snd c) \<le> length file - fst c"
    by (metis chunk_ok_def length_drop length_take min.cobounded1 min.commute)
  moreover from c have "0 < length (snd c)"
    by (simp add: chunk_ok_def)
  ultimately show ?thesis unfolding chunk_end_def by linarith
qed

lemma take_chunk: "k \<le> WINDOW \<Longrightarrow> take k (drop a file) \<noteq> [] \<Longrightarrow> chunk_ok file (a, take k (drop a file))"
  by (auto simp: chunk_ok_def min_def)

lemma insert_chunks:
  assumes "list_all (chunk_ok file) (chunks sh)" "length (chunks sh) \<le> MAX_CHUNKS" "bs = take k (drop a file)" "k \<le> WINDOW"
  shows "list_all (chunk_ok file) (chunks (insert_and_evict a bs sh)) \<and> length (chunks (insert_and_evict a bs sh)) \<le> MAX_CHUNKS"
proof (cases "bs = []")
  case False
  let ?cs = "chunks sh @ [(a, bs)]"
  have "list_all (chunk_ok file) ?cs"
    using assms False take_chunk by simp
  then have "list_all (chunk_ok file) (drop n ?cs)" for n
    by (metis append_take_drop_id list_all_append)
  moreover have "length (drop (length ?cs - MAX_CHUNKS) ?cs) \<le> MAX_CHUNKS"
    unfolding length_drop by linarith
  moreover have "chunks (insert_and_evict a bs sh) \<in> {chunks sh, drop (length ?cs - MAX_CHUNKS) ?cs}"
    by (simp add: insert_and_evict_def Let_def)
  ultimately show ?thesis
    using assms(1,2) by (metis insertE singletonD)
qed (use assms in \<open>simp add: insert_and_evict_def\<close>)

lemma insert_simps [simp]:
  "total_len (insert_and_evict a bs sh) = total_len sh" "read_pos (insert_and_evict a bs sh) = read_pos sh"
  "pf_inflight (insert_and_evict a bs sh) = pf_inflight sh" "streaming (insert_and_evict a bs sh) = streaming sh"
  by (simp_all add: insert_and_evict_def Let_def)

text \<open>What was just inserted is there: the newest chunk is never evicted.\<close>

lemma inserted_covers:
  assumes "chunk_covering (chunks sh) a = None" "bs \<noteq> []"
  shows "chunk_covering (chunks (insert_and_evict a bs sh)) a = Some (a, bs)"
proof -
  let ?cs = "chunks sh @ [(a, bs)]"
  have c: "\<forall>c \<in> set (chunks sh). \<not> covers a c"
    using assms(1) unfolding chunk_covering_def find_None_iff by blast
  have "chunks (insert_and_evict a bs sh) = drop (length (chunks sh) + 1 - MAX_CHUNKS) (chunks sh) @ [(a, bs)]"
    using assms by (simp add: insert_and_evict_def Let_def MAX_CHUNKS_def)
  moreover have "find (covers a) (drop n (chunks sh)) = None" for n
    using c by (auto simp: find_None_iff dest: in_set_dropD)
  ultimately show ?thesis
    using assms(2) by (simp add: chunk_covering_def find_append covers_def chunk_end_def)
qed

lemma fill_window_bytes:
  assumes "serves w file" "fill_window w off len filled n = (Inr bs, n')" "filled = take k (drop off file)" "length filled \<le> len"
  shows "\<exists>k \<le> len. bs = take k (drop off file)"
  using assms
proof (induction w off len filled n arbitrary: k rule: fill_window.induct)
  case (1 u off len filled n)
  note [simp] = fill_window.simps[of u off len filled n]
  have f: "filled = take (length filled) (drop off file)"
    by (subst (1 2) 1(4)) (simp add: min_def)
  show ?case
  proof (cases "length filled < len")
    case False
    with 1(3) have "bs = filled" by simp
    with 1(5) f show ?thesis by blast
  next
    case True
    obtain bs' where r: "o_read u n (off + length filled) (len - length filled) = Inr bs'"
      using 1(3) True by (cases "o_read u n (off + length filled) (len - length filled)") auto
    then obtain j where j: "j \<le> len - length filled" "bs' = take j (drop (off + length filled) file)"
      using 1(2) unfolding serves_def by blast
    have a: "take (length filled + j) (drop off file) = filled @ bs'"
      unfolding take_add drop_drop j(2) using f by (metis add.commute)
    have t: "take (len - length filled) bs' = bs'"
      using j by simp
    show ?thesis
    proof (cases "bs' = []")
      case b: True
      with 1(3) True r have "bs = filled" by simp
      with 1(5) f show ?thesis by blast
    next
      case False
      with 1(3) True r t have "fill_window u off len (filled @ bs') (Suc n) = (Inr bs, n')" by simp
      moreover have "length (filled @ bs') \<le> len"
        using j True by simp
      ultimately show ?thesis
        using 1(1)[OF True r False 1(2), of "length filled + j"] t a by simp
    qed
  qed
qed

section \<open>Steps keep the cache sound\<close>

lemma covering_ok:
  assumes "list_all (chunk_ok file) cs" "chunk_covering cs p = Some (a, bs)"
  shows "a \<le> p" "p < length file" "take m (drop (p - a) bs) = take (min m (a + length bs - p)) (drop p file)" "p < a + length bs"
    "a + length bs \<le> length file"
proof -
  have c: "(a, bs) \<in> set cs" "a \<le> p" "p < a + length bs"
    using covers_found[of p cs "(a, bs)"] assms(2) by (auto simp: chunk_covering_def chunk_end_def)
  then have ok: "chunk_ok file (a, bs)"
    using assms(1) by (simp add: list_all_iff)
  show e: "a + length bs \<le> length file"
    using chunk_end_le[OF ok] by (simp add: chunk_end_def)
  then show "a \<le> p" "p < length file" "p < a + length bs"
    using c by simp_all
  have "bs = take (length bs) (drop a file)"
    using ok by (simp add: chunk_ok_def)
  then have "drop (p - a) bs = take (length bs - (p - a)) (drop (p - a) (drop a file))"
    by (metis drop_take)
  also have "\<dots> = take (a + length bs - p) (drop p file)"
    using c(2) by (simp add: add.commute)
  finally show "take m (drop (p - a) bs) = take (min m (a + length bs - p)) (drop p file)"
    by simp
qed

lemma contiguous_end_bounds:
  assumes "list_all (chunk_ok file) cs"
  shows "p \<le> contiguous_end cs p \<and> (p \<le> length file \<longrightarrow> contiguous_end cs p \<le> length file)
    \<and> chunk_covering cs (contiguous_end cs p) = None"
  using assms
proof (induction cs p rule: contiguous_end.induct)
  case (1 cs p)
  show ?case
  proof (cases "find (covers p) cs")
    case None
    then show ?thesis by (simp add: contiguous_end.simps[of cs p] chunk_covering_def)
  next
    case (Some c)
    then have c: "c \<in> set cs" "p < chunk_end c"
      using covers_found by blast+
    then have "chunk_end c \<le> length file"
      using 1(2) chunk_end_le by (auto simp: list_all_iff)
    with 1(1)[OF Some 1(2)] c Some show ?thesis
      by (auto simp: contiguous_end.simps[of cs p])
  qed
qed

lemma serve_spec:
  assumes "range_ok file s" "serve len s = (res, s')"
  shows "range_ok file s'" "shared s' = shared s" "tasks s' = tasks s" "local s' = local s"
    "case res of
       Inr out \<Rightarrow> pos s < length file \<and> out = take (length out) (drop (pos s) file) \<and> length out \<le> len \<and>
         pos s' = pos s + length out \<and> (0 < len \<longrightarrow> out \<noteq> [])
     | Inl e \<Rightarrow> s' = s \<and> chunk_covering (chunks (shared s)) (pos s) = None \<and> (\<exists>m. e = OtherErr m)"
proof -
  have ok: "list_all (chunk_ok file) (chunks (shared s))"
    using assms(1) by (simp add: range_ok_def)
  have "range_ok file s' \<and> shared s' = shared s \<and> tasks s' = tasks s \<and> local s' = local s"
    using assms by (auto simp: serve_def range_ok_def split: option.splits)
  then show "range_ok file s'" "shared s' = shared s" "tasks s' = tasks s" "local s' = local s" by simp_all
  show "case res of
       Inr out \<Rightarrow> pos s < length file \<and> out = take (length out) (drop (pos s) file) \<and> length out \<le> len \<and>
         pos s' = pos s + length out \<and> (0 < len \<longrightarrow> out \<noteq> [])
     | Inl e \<Rightarrow> s' = s \<and> chunk_covering (chunks (shared s)) (pos s) = None \<and> (\<exists>m. e = OtherErr m)"
  proof (cases "chunk_covering (chunks (shared s)) (pos s)")
    case None
    with assms(2) show ?thesis by (auto simp: serve_def)
  next
    case (Some c)
    obtain a bs where c: "c = (a, bs)" by (cases c)
    note o = covering_ok[OF ok Some[unfolded c]]
    let ?k = "min len (a + length bs - pos s)"
    have "take len (drop (pos s - a) bs) = take ?k (drop (pos s) file)"
      by (rule o(3))
    moreover have "length (take ?k (drop (pos s) file)) = ?k"
      using o(2,5) by simp
    moreover have "min (length bs - (pos s - a)) len = ?k"
      using o(1) by (simp add: min.commute add.commute)
    ultimately have "res = Inr (take ?k (drop (pos s) file))" "s' = s\<lparr>pos := pos s + ?k\<rparr>"
      using assms(2) Some c by (simp_all add: serve_def Let_def)
    with o(2,4,5) show ?thesis by (auto simp: min_def)
  qed
qed

lemma window_end_bounds: "off < flen \<Longrightarrow> off \<le> window_end off flen \<and> window_end off flen < flen \<and> window_end off flen - off + 1 \<le> WINDOW"
  by (auto simp: window_end_def WINDOW_def)

text \<open>A fetch ends in an error, or its bytes go into the cache.\<close>

lemma block_fetch_cases:
  assumes "block_fetch w off s = (e, s')"
  shows "\<exists>n sh. s' = s\<lparr>accesses := n, shared := sh\<rparr> \<and>
    ((\<exists>m. e = Some (OtherErr m)) \<and> sh \<in> {shared s, (shared s)\<lparr>blocking_fetches := blocking_fetches (shared s) + 1\<rparr>} \<or>
     (\<exists>bs k k'. e = None \<and> sh = insert_and_evict off bs ((shared s)\<lparr>blocking_fetches := blocking_fetches (shared s) + 1\<rparr>) \<and>
        (fill_window w off (window_end off (total_len (shared s)) - off + 1) [] k = (Inr bs, k') \<or>
         (\<exists>r. fetch_range (o_http w k off (window_end off (total_len (shared s)))) = Inr r \<and> rg_bytes r = bs))))"
proof (cases "local s")
  case True
  show ?thesis
  proof (cases "o_seek w (accesses s)")
    case (Some m)
    with assms True show ?thesis
      by (intro exI[of _ "Suc (accesses s)"] exI[of _ "shared s"]) (auto simp: block_fetch_def)
  next
    case None
    obtain res n where f: "fill_window w off (window_end off (total_len (shared s)) - off + 1) [] (Suc (accesses s)) = (res, n)"
      by (cases "fill_window w off (window_end off (total_len (shared s)) - off + 1) [] (Suc (accesses s))")
    show ?thesis
    proof (cases res)
      case (Inl m)
      with assms True None f show ?thesis
        by (intro exI[of _ n] exI[of _ "shared s"]) (auto simp: block_fetch_def)
    next
      case (Inr bs)
      with assms True None f have "e = None" "s' = s\<lparr>accesses := n,
          shared := insert_and_evict off bs ((shared s)\<lparr>blocking_fetches := blocking_fetches (shared s) + 1\<rparr>)\<rparr>"
        by (simp_all add: block_fetch_def on_shared_def)
      with f Inr show ?thesis by blast
    qed
  qed
next
  case False
  let ?r = "fetch_range (o_http w (accesses s) off (window_end off (total_len (shared s))))"
  let ?sh = "(shared s)\<lparr>blocking_fetches := blocking_fetches (shared s) + 1\<rparr>"
  show ?thesis
  proof (cases ?r)
    case (Inl m)
    with assms False show ?thesis
      by (intro exI[of _ "Suc (accesses s)"] exI[of _ ?sh]) (auto simp: block_fetch_def on_shared_def)
  next
    case (Inr r)
    with assms False have "e = None" "s' = s\<lparr>accesses := Suc (accesses s), shared := insert_and_evict off (rg_bytes r) ?sh\<rparr>"
      by (simp_all add: block_fetch_def on_shared_def)
    with Inr show ?thesis by blast
  qed
qed

lemma block_fetch_spec:
  assumes "serves w file" "range_ok file s" "off < length file" "block_fetch w off s = (e, s')"
  shows "range_ok file s'" "pos s' = pos s" "local s' = local s" "streaming (shared s') = streaming (shared s)"
    "tasks s' = tasks s" "read_pos (shared s') = read_pos (shared s)" "\<forall>x. e = Some x \<longrightarrow> (\<exists>m. x = OtherErr m)"
proof -
  let ?e = "window_end off (length file)"
  let ?sh = "(shared s)\<lparr>blocking_fetches := blocking_fetches (shared s) + 1\<rparr>"
  have ok: "total_len (shared s) = length file" "list_all (chunk_ok file) (chunks (shared s))" "length (chunks (shared s)) \<le> MAX_CHUNKS"
    using assms(2) by (simp_all add: range_ok_def)
  note we = window_end_bounds[OF assms(3)]
  have fetched: "list_all (chunk_ok file) (chunks (insert_and_evict off bs ?sh)) \<and> length (chunks (insert_and_evict off bs ?sh)) \<le> MAX_CHUNKS"
    if i: "fill_window w off (?e - off + 1) [] n = (Inr bs, n') \<or> (\<exists>r. fetch_range (o_http w n off ?e) = Inr r \<and> rg_bytes r = bs)" for n n' bs
  proof -
    have "\<exists>k \<le> ?e - off + 1. bs = take k (drop off file)"
      using i fill_window_bytes[OF assms(1), of off "?e - off + 1" "[]" n bs n' 0] assms(1) we unfolding serves_def by force
    then obtain k where "k \<le> ?e - off + 1" "bs = take k (drop off file)"
      by blast
    with ok we show ?thesis
      by (intro insert_chunks[where k = k]) simp_all
  qed
  obtain n sh where s': "s' = s\<lparr>accesses := n, shared := sh\<rparr>"
    and c: "(\<exists>m. e = Some (OtherErr m)) \<and> sh \<in> {shared s, ?sh} \<or>
      (\<exists>bs k k'. e = None \<and> sh = insert_and_evict off bs ?sh \<and>
        (fill_window w off (?e - off + 1) [] k = (Inr bs, k') \<or> (\<exists>r. fetch_range (o_http w k off ?e) = Inr r \<and> rg_bytes r = bs)))"
    using block_fetch_cases[OF assms(4)] unfolding ok(1) by blast
  have "list_all (chunk_ok file) (chunks sh) \<and> length (chunks sh) \<le> MAX_CHUNKS"
    using c fetched ok by auto
  moreover have "total_len sh = length file \<and> pf_inflight sh = pf_inflight (shared s) \<and> streaming sh = streaming (shared s)
      \<and> read_pos sh = read_pos (shared s)"
    using c ok(1) by auto
  ultimately show "range_ok file s'" "pos s' = pos s" "local s' = local s" "streaming (shared s') = streaming (shared s)"
    "tasks s' = tasks s" "read_pos (shared s') = read_pos (shared s)"
    using assms(2) by (simp_all add: s' range_ok_def)
  show "\<forall>x. e = Some x \<longrightarrow> (\<exists>m. x = OtherErr m)"
    using c by auto
qed

lemma prefetch_done_simps:
  "tasks (prefetch_done w start s) = remove1 start (tasks s)" "pos (prefetch_done w start s) = pos s"
  "local (prefetch_done w start s) = local s" "read_pos (shared (prefetch_done w start s)) = read_pos (shared s)"
  by (simp_all add: prefetch_done_def Let_def on_shared_def split: sum.split)

lemma prefetch_done_ok:
  assumes "serves w file" "range_ok file s" "start \<in> set (tasks s)"
  shows "range_ok file (prefetch_done w start s)"
proof -
  let ?e = "window_end start (length file)"
  have ok: "total_len (shared s) = length file" "list_all (chunk_ok file) (chunks (shared s))" "length (chunks (shared s)) \<le> MAX_CHUNKS"
    "start < length file" "tasks s = [start]"
    using assms(2,3) by (auto simp: range_ok_def length_Suc_conv split: if_splits)
  note we = window_end_bounds[OF ok(4)]
  have "list_all (chunk_ok file) (chunks (insert_and_evict start (rg_bytes r) sh)) \<and>
      length (chunks (insert_and_evict start (rg_bytes r) sh)) \<le> MAX_CHUNKS"
    if i: "chunks sh = chunks (shared s)" "fetch_range (o_http w n start ?e) = Inr r" for r sh n
  proof -
    obtain k where "k \<le> ?e - start + 1" "rg_bytes r = take k (drop start file)"
      using assms(1) i(2) we unfolding serves_def by blast
    with i(1) ok we show ?thesis
      by (intro insert_chunks[where k = k]) simp_all
  qed
  with ok assms(2) show ?thesis
    by (auto simp: prefetch_done_def Let_def on_shared_def range_ok_def split: sum.split)
qed

lemma range_step_ok:
  assumes "serves w file" "range_ok file s" "range_step w s s'"
  shows "range_ok file s'"
  using assms(3)
proof cases
  case (Reads len)
  let ?s1 = "on_shared (\<lambda>sh. sh\<lparr>read_pos := pos s\<rparr>) s"
  have 1: "range_ok file ?s1"
    using assms(2) by (simp add: range_ok_def on_shared_def)
  have 2: "total_len (shared s) = length file" "pos ?s1 = pos s"
    using assms(2) by (simp_all add: range_ok_def on_shared_def)
  have "range_ok file (snd (serve len t))" if "range_ok file t" for t
    using serve_spec(1)[OF that, of len] by (cases "serve len t") simp
  moreover have "range_ok file t" if "block_fetch w (pos s) ?s1 = (e, t)" "pos s < length file" for e t
    using block_fetch_spec(1)[OF assms(1) 1 that(2,1)] .
  ultimately show ?thesis
    using assms(2) 1 2 Reads by (auto simp: read_def Let_def split: prod.split option.split)
next
  case (Seeks sf)
  with assms(2) show ?thesis by (auto simp: seek_def Let_def range_ok_def)
next
  case Drives
  with assms(2) show ?thesis by (auto simp: drive_prefetch_def Let_def range_ok_def)
next
  case (Done start)
  with prefetch_done_ok[OF assms(1,2)] show ?thesis by simp
next
  case Marks
  with assms(2) show ?thesis by (simp add: mark_streaming_def on_shared_def range_ok_def)
qed

lemma range_reachable_ok:
  assumes "range_reachable w l n s" "serves w file" "n = length file"
  shows "range_ok file s"
  using assms
proof (induction rule: range_reachable.induct)
  case New
  then show ?case by (simp add: reader_new_def range_ok_def)
qed (use range_step_ok in blast)

section \<open>What a demuxer reads\<close>

text \<open>
  C15. The reader reads the file: in every state that reads, seeks, prefetches and their completions
  can reach, a read returns the next bytes of the file at the position, none only at the end of the
  file or for an empty buffer; only a network reader that is streaming says that it would block,
  and no error moves the position.
\<close>

theorem range_read_exact:
  assumes "serves w file" "range_reachable w l (length file) s" "read w len s = (res, s')"
  shows "case res of
      Inr out \<Rightarrow> out = take (length out) (drop (pos s) file) \<and> length out \<le> len \<and> pos s' = pos s + length out \<and>
        (out = [] \<longleftrightarrow> len = 0 \<or> length file \<le> pos s)
    | Inl (WouldBlock _) \<Rightarrow> pos s' = pos s \<and> \<not> local s \<and> streaming (shared s)
    | Inl _ \<Rightarrow> pos s' = pos s"
proof -
  have ok: "range_ok file s"
    using range_reachable_ok[OF assms(2,1)] by simp
  let ?s1 = "on_shared (\<lambda>sh. sh\<lparr>read_pos := pos s\<rparr>) s"
  have 1: "range_ok file ?s1" "pos ?s1 = pos s"
    using ok by (simp_all add: range_ok_def on_shared_def)
  show ?thesis
  proof (cases "length file \<le> pos s \<or> len = 0")
    case True
    with assms(3) ok show ?thesis
      by (auto simp: read_def range_ok_def)
  next
    case False
    then have r: "(if chunk_covering (chunks (shared ?s1)) (pos s) = None then
          (if local s \<or> \<not> streaming (shared ?s1) then
             (case block_fetch w (pos s) ?s1 of (Some e, s2) \<Rightarrow> (Inl e, s2) | (None, s2) \<Rightarrow> serve len s2)
           else (Inl (WouldBlock ''prefetch not ready''), ?s1))
        else serve len ?s1) = (res, s')"
      using assms(3) ok by (simp add: read_def Let_def range_ok_def)
    have served: ?thesis if t: "range_ok file t" "pos t = pos s" "serve len t = (res, s')" for t
      using serve_spec(5)[OF t(1,3)] t(2) False by (auto split: sum.splits)
    obtain e t where bf: "block_fetch w (pos s) ?s1 = (e, t)"
      by (cases "block_fetch w (pos s) ?s1")
    have p: "pos s < length file" using False by simp
    note b = block_fetch_spec[OF assms(1) 1(1) p bf]
    have sm: "streaming (shared ?s1) = streaming (shared s)"
      by (simp add: on_shared_def)
    show ?thesis
    proof (cases "chunk_covering (chunks (shared ?s1)) (pos s) = None")
      case False
      then have "serve len ?s1 = (res, s')" using r by (simp only: if_False)
      with 1 served show ?thesis by blast
    next
      case miss: True
      show ?thesis
      proof (cases "local s \<or> \<not> streaming (shared s)")
        case False
        then have "res = Inl (WouldBlock ''prefetch not ready'')" "s' = ?s1"
          using r miss sm by simp_all
        with False 1(2) show ?thesis by simp
      next
        case True
        show ?thesis
        proof (cases e)
          case None
          then have "serve len t = (res, s')" using r miss sm True bf by simp
          with b(1,2) 1(2) served show ?thesis by simp
        next
          case (Some x)
          then have "res = Inl x" "s' = t" using r miss sm True bf by simp_all
          with b(2,7) 1(2) Some show ?thesis by auto
        qed
      qed
    qed
  qed
qed

text \<open>
  The cache is bounded: it never holds more than twelve windows of two mebibytes, however the
  reader seeks and whatever is prefetched.
\<close>

theorem range_cache_bounded:
  assumes "serves w file" "range_reachable w l (length file) s"
  shows "(\<Sum>c \<leftarrow> chunks (shared s). length (snd c)) \<le> 12 * WINDOW"
proof -
  have "range_ok file s"
    using range_reachable_ok[OF assms(2,1)] by simp
  then have c: "\<And>c. c \<in> set (chunks (shared s)) \<Longrightarrow> length (snd c) \<le> WINDOW" "length (chunks (shared s)) \<le> 12"
    by (auto simp: range_ok_def list_all_iff chunk_ok_def MAX_CHUNKS_def)
  have "(\<Sum>c \<leftarrow> chunks (shared s). length (snd c)) \<le> (\<Sum>c \<leftarrow> chunks (shared s). WINDOW)"
    using c(1) by (rule sum_list_mono)
  also have "\<dots> = length (chunks (shared s)) * WINDOW"
    by (simp add: sum_list_triv)
  also have "\<dots> \<le> 12 * WINDOW"
    using c(2) by simp
  finally show ?thesis .
qed

section \<open>A read that would block is served\<close>

text \<open>The server answers every request with at least one byte.\<close>

definition responsive :: "Origin \<Rightarrow> u8 list \<Rightarrow> bool" where
  "responsive w file \<longleftrightarrow> (\<forall>n a b. a \<le> b \<longrightarrow> b < length file \<longrightarrow> (\<exists>r. fetch_range (o_http w n a b) = Inr r \<and> rg_bytes r \<noteq> []))"

lemma prefetch_covers:
  assumes "responsive w file" "range_ok file s" "\<not> local s" "pos s < length file" "tasks s = []"
    and "chunk_covering (chunks (shared s)) (pos s) = None" "read_pos (shared s) = pos s"
  shows "drive_prefetch s = s\<lparr>shared := (shared s)\<lparr>pf_inflight := True\<rparr>, tasks := [pos s]\<rparr>"
    "\<exists>c. chunk_covering (chunks (shared (prefetch_done w (pos s) (drive_prefetch s)))) (pos s) = Some c"
proof -
  have "contiguous_end (chunks (shared s)) (pos s) = pos s"
    using assms(6) by (simp add: contiguous_end.simps[of _ "pos s"] chunk_covering_def)
  moreover have ok: "\<not> pf_inflight (shared s)" "total_len (shared s) = length file"
    using assms(2,5) by (simp_all add: range_ok_def split: if_splits)
  ultimately show d: "drive_prefetch s = s\<lparr>shared := (shared s)\<lparr>pf_inflight := True\<rparr>, tasks := [pos s]\<rparr>"
    using assms(4,5,7) by (simp add: drive_prefetch_def Let_def PREFETCH_AHEAD_def)
  have "\<exists>r. fetch_range (o_http w (accesses s) (pos s) (window_end (pos s) (length file))) = Inr r \<and> rg_bytes r \<noteq> []"
    using assms(1) window_end_bounds[OF assms(4)] unfolding responsive_def by blast
  then obtain r where r: "fetch_range (o_http w (accesses s) (pos s) (window_end (pos s) (length file))) = Inr r" "rg_bytes r \<noteq> []"
    by blast
  have "chunk_covering (chunks (insert_and_evict (pos s) (rg_bytes r) sh)) (pos s) = Some (pos s, rg_bytes r)"
    if "chunks sh = chunks (shared s)" for sh
    using inserted_covers[of sh "pos s" "rg_bytes r"] assms(6) r(2) that by simp
  then show "\<exists>c. chunk_covering (chunks (shared (prefetch_done w (pos s) (drive_prefetch s)))) (pos s) = Some c"
    using r(1) ok by (simp add: d prefetch_done_def Let_def on_shared_def)
qed

lemma read_covered:
  assumes "range_ok file s" "pos s < length file" "0 < len" "chunk_covering (chunks (shared s)) (pos s) = Some c"
  shows "\<exists>out s'. read w len s = (Inr out, s') \<and> out \<noteq> []"
proof -
  let ?s1 = "on_shared (\<lambda>sh. sh\<lparr>read_pos := pos s\<rparr>) s"
  have 1: "range_ok file ?s1" "pos ?s1 = pos s" "chunks (shared ?s1) = chunks (shared s)" "total_len (shared s) = length file"
    using assms(1) by (simp_all add: range_ok_def on_shared_def)
  obtain res s' where sv: "serve len ?s1 = (res, s')"
    by (cases "serve len ?s1")
  have "read w len s = (res, s')"
    using assms(2-4) 1 sv by (simp add: read_def Let_def)
  moreover have "\<exists>out. res = Inr out \<and> out \<noteq> []"
    using serve_spec(5)[OF 1(1) sv] assms(3,4) 1(2,3) by (cases res) auto
  ultimately show ?thesis by blast
qed

lemma read_blocks:
  assumes "serves w file" "range_ok file s" "read w len s = (Inl (WouldBlock m), s')"
  shows "pos s < length file \<and> s' = on_shared (\<lambda>sh. sh\<lparr>read_pos := pos s\<rparr>) s \<and> \<not> local s"
proof -
  let ?s1 = "on_shared (\<lambda>sh. sh\<lparr>read_pos := pos s\<rparr>) s"
  have 1: "range_ok file ?s1"
    using assms(2) by (simp add: range_ok_def on_shared_def)
  have p: "\<not> (length file \<le> pos s \<or> len = 0)"
    using assms(2,3) unfolding read_def range_ok_def by (metis Inl_Inr_False prod.inject)
  then have r: "(if chunk_covering (chunks (shared ?s1)) (pos s) = None then
        (if local s \<or> \<not> streaming (shared ?s1) then
           (case block_fetch w (pos s) ?s1 of (Some e, s2) \<Rightarrow> (Inl e, s2) | (None, s2) \<Rightarrow> serve len s2)
         else (Inl (WouldBlock ''prefetch not ready''), ?s1))
      else serve len ?s1) = (Inl (WouldBlock m), s')"
    using assms(2,3) by (simp add: read_def Let_def range_ok_def)
  have served: False if "range_ok file t" "serve len t = (Inl (WouldBlock m), s')" for t
    using serve_spec(5)[OF that] by simp
  obtain e t where bf: "block_fetch w (pos s) ?s1 = (e, t)"
    by (cases "block_fetch w (pos s) ?s1")
  have lt: "pos s < length file" using p by simp
  note b = block_fetch_spec[OF assms(1) 1 lt bf]
  have "chunk_covering (chunks (shared ?s1)) (pos s) = None"
    using r served[OF 1] by (metis if_False)
  moreover have "\<not> (local s \<or> \<not> streaming (shared ?s1))"
  proof
    assume l: "local s \<or> \<not> streaming (shared ?s1)"
    show False
    proof (cases e)
      case None
      then have "serve len t = (Inl (WouldBlock m), s')"
        using r calculation l bf by simp
      with b(1) served show ?thesis by blast
    next
      case (Some x)
      then have "x = WouldBlock m"
        using r calculation l bf by simp
      with b(7) Some show ?thesis by simp
    qed
  qed
  ultimately show ?thesis
    using r lt by simp
qed

text \<open>
  A read that would block does not block for ever: as long as the server answers, one
  completed prefetch, or two when one for another position was under way, and the same read
  returns bytes.
\<close>

theorem range_unblocks:
  assumes "serves w file" "responsive w file" "range_reachable w l (length file) s" "0 < len"
    and "read w len s = (Inl (WouldBlock m), s1)"
  shows "\<exists>s2 out s3. (range_step w)\<^sup>*\<^sup>* s1 s2 \<and> pos s2 = pos s \<and> read w len s2 = (Inr out, s3) \<and> out \<noteq> []"
proof -
  let ?s1 = "on_shared (\<lambda>sh. sh\<lparr>read_pos := pos s\<rparr>) s"
  have ok: "range_ok file s"
    using range_reachable_ok[OF assms(3,1)] by simp
  have r: "pos s < length file" "s1 = ?s1" "\<not> local s"
    using read_blocks[OF assms(1) ok assms(5)] by simp_all
  have ready: "\<exists>s2 out s3. (range_step w)\<^sup>*\<^sup>* t s2 \<and> pos s2 = pos s \<and> read w len s2 = (Inr out, s3) \<and> out \<noteq> []"
    if t: "range_ok file t" "\<not> local t" "pos t = pos s" "read_pos (shared t) = pos s" "tasks t = []" for t
  proof (cases "chunk_covering (chunks (shared t)) (pos t)")
    case (Some c)
    with read_covered[OF t(1) _ assms(4) Some] t(3) r(1) show ?thesis by (metis rtranclp.rtrancl_refl)
  next
    case None
    note p = prefetch_covers[OF assms(2) t(1,2) _ t(5) None]
    let ?u = "prefetch_done w (pos t) (drive_prefetch t)"
    have d: "drive_prefetch t = t\<lparr>shared := (shared t)\<lparr>pf_inflight := True\<rparr>, tasks := [pos t]\<rparr>"
      using p(1) r(1) t(3,4) by simp
    have st: "range_step w t (drive_prefetch t)" "range_step w (drive_prefetch t) ?u"
      using Drives[of t w] Done[of "pos t" "drive_prefetch t" w] t(2) by (simp, simp add: d)
    then have u: "range_ok file ?u" "(range_step w)\<^sup>*\<^sup>* t ?u"
      using range_step_ok[OF assms(1)] t(1) by (blast, meson converse_rtranclp_into_rtranclp rtranclp.rtrancl_refl)
    have pu: "pos ?u = pos s"
      by (simp add: d prefetch_done_def Let_def on_shared_def t(3))
    moreover obtain c where "chunk_covering (chunks (shared ?u)) (pos t) = Some c"
      using p(2) r(1) t(3,4) by auto
    ultimately have "\<exists>out s'. read w len ?u = (Inr out, s') \<and> out \<noteq> []"
      using read_covered[OF u(1) _ assms(4)] r(1) t(3) by simp
    with u(2) pu show ?thesis by blast
  qed
  have s1: "range_ok file s1" "\<not> local s1" "pos s1 = pos s" "read_pos (shared s1) = pos s"
    using ok r by (simp_all add: range_ok_def on_shared_def)
  show ?thesis
  proof (cases "tasks s1")
    case Nil
    with ready s1 show ?thesis by blast
  next
    case (Cons t ts)
    let ?u = "prefetch_done w t s1"
    have st: "range_step w s1 ?u"
      using Cons by (intro Done) simp
    have "length (tasks s1) \<le> 1"
      using s1(1) by (simp add: range_ok_def)
    then have ts: "ts = []" using Cons by simp
    have "tasks ?u = []" "pos ?u = pos s" "\<not> local ?u" "read_pos (shared ?u) = pos s"
      using Cons ts s1(2-4) by (simp_all only: prefetch_done_simps remove1.simps if_True simp_thms)
    then obtain s2 out s3 where "(range_step w)\<^sup>*\<^sup>* ?u s2" "pos s2 = pos s" "read w len s2 = (Inr out, s3)" "out \<noteq> []"
      using ready[of ?u] range_step_ok[OF assms(1) s1(1) st] by blast
    with converse_rtranclp_into_rtranclp[of "range_step w", OF st] show ?thesis by blast
  qed
qed

section \<open>A server that ignores the range\<close>

text \<open>A server may answer a range request with 200 and the whole file.\<close>

definition ignores_range :: "Origin \<Rightarrow> u8 list \<Rightarrow> bool" where
  "ignores_range w file \<longleftrightarrow> (\<forall>n a b. \<exists>r. o_http w n a b = Inr r \<and> resp_status r = 200 \<and> resp_body r = Inr file)"

text \<open>
  C38. The status of the answer is not held against the request: with a server that answers 200 and
  the whole file, the first read after a seek returns the beginning of the file instead of its bytes
  at the position.
\<close>

theorem range_ignored:
  assumes "ignores_range w file" "p < length file" "length file < 2 ^ 63" "0 < len"
    and "seek (Start p) (reader_new False (length file)) = (r, s)"
  shows "r = Inr p \<and> pos s = p \<and> fst (read w len s) = Inr (take len file)"
proof -
  have "wrap64 (int p) = int p"
    using assms(2,3) by (simp add: wrap64_def)
  then have s: "r = Inr p" "s = (reader_new False (length file))\<lparr>pos := p\<rparr>"
    using assms(5) by (simp_all add: seek_def Let_def)
  obtain a where a: "o_http w 0 p (window_end p (length file)) = Inr a" "resp_status a = 200" "resp_body a = Inr file"
    using assms(1) unfolding ignores_range_def by blast
  then have "fetch_range (o_http w 0 p (window_end p (length file))) = Inr \<lparr>rg_bytes = file, rg_total = range_total a\<rparr>"
    by (simp add: fetch_range_def)
  moreover have "file \<noteq> []"
    using assms(2) by auto
  ultimately have "fst (read w len s) = Inr (take len file)"
    using assms(2,4) s(2)
    by (simp add: read_def serve_def block_fetch_def reader_new_def on_shared_def Let_def chunk_covering_def
        insert_and_evict_def MAX_CHUNKS_def covers_def chunk_end_def)
  with s show ?thesis
    by simp
qed

section \<open>Witnesses\<close>

definition demo_file :: "u8 list" where
  "demo_file = [10, 20, 30, 40, 50]"

definition demo_origin :: Origin where
  "demo_origin = \<lparr>
     o_http = (\<lambda>n a b. Inr \<lparr>resp_status = 206, content_range = Some ''bytes 0-4/5'', content_length = Some ''5'',
       resp_body = Inr (take (b - a + 1) (drop a demo_file))\<rparr>),
     o_seek = (\<lambda>n. None),
     o_read = (\<lambda>n a m. Inr (take m (drop a demo_file)))\<rparr>"

definition careless_origin :: Origin where
  "careless_origin = demo_origin\<lparr>
     o_http := (\<lambda>n a b. Inr \<lparr>resp_status = 200, content_range = None, content_length = Some ''5'', resp_body = Inr demo_file\<rparr>)\<rparr>"

lemma demo_serves: "serves demo_origin demo_file" "responsive demo_origin demo_file"
  by (auto simp: serves_def responsive_def demo_origin_def fetch_range_def demo_file_def)

lemma demo_length: "length demo_file = 5"
  by (simp add: demo_file_def)

lemma demo_streaming: "range_reachable demo_origin False (length demo_file) (mark_streaming (reader_new False 5))"
  unfolding demo_length by (rule Go[OF New Marks])

theorem range_read_exact_witness:
  "fst (read demo_origin 2 (snd (seek (Start 3) (reader_new False 5)))) = Inr [40, 50]"
proof -
  have r: "range_reachable demo_origin False (length demo_file) (snd (seek (Start 3) (reader_new False 5)))"
    unfolding demo_length by (rule Go[OF New Seeks])
  obtain res s' where x: "read demo_origin 2 (snd (seek (Start 3) (reader_new False 5))) = (res, s')"
    by (cases "read demo_origin 2 (snd (seek (Start 3) (reader_new False 5)))")
  have c: "pos (snd (seek (Start 3) (reader_new False 5))) = 3"
    by (simp add: seek_def wrap64_def Let_def)
  have "\<exists>out. res = Inr out \<and> length out = 2"
    using x by (force simp: read_def serve_def block_fetch_def seek_def wrap64_def reader_new_def on_shared_def Let_def
        chunk_covering_def insert_and_evict_def MAX_CHUNKS_def covers_def chunk_end_def demo_origin_def fetch_range_def
        window_end_def WINDOW_def demo_file_def)
  with range_read_exact[OF demo_serves(1) r x] c x show ?thesis
    by (auto simp: demo_file_def)
qed

theorem range_cache_bounded_witness:
  "(\<Sum>c \<leftarrow> chunks (shared (mark_streaming (reader_new False 5))). length (snd c)) \<le> 12 * WINDOW"
  by (rule range_cache_bounded[OF demo_serves(1) demo_streaming])

theorem range_unblocks_witness:
  "\<exists>s2 out s3. (range_step demo_origin)\<^sup>*\<^sup>* (snd (read demo_origin 2 (mark_streaming (reader_new False 5)))) s2
    \<and> pos s2 = 0 \<and> read demo_origin 2 s2 = (Inr out, s3) \<and> out \<noteq> []"
proof -
  let ?s = "mark_streaming (reader_new False 5)"
  have "read demo_origin 2 ?s = (Inl (WouldBlock ''prefetch not ready''), snd (read demo_origin 2 ?s))"
    by (simp add: read_def reader_new_def mark_streaming_def on_shared_def Let_def chunk_covering_def)
  from range_unblocks[OF demo_serves demo_streaming _ this] show ?thesis
    by (simp add: mark_streaming_def reader_new_def on_shared_def)
qed

theorem range_ignored_witness:
  "fst (read careless_origin 2 (snd (seek (Start 3) (reader_new False 5)))) = Inr [10, 20]"
proof -
  have "ignores_range careless_origin demo_file"
    by (simp add: ignores_range_def careless_origin_def)
  from range_ignored[OF this _ _ _ prod.collapse[symmetric], of 3 2, unfolded demo_length] show ?thesis
    by (simp add: demo_file_def)
qed

end
