(* ===== verification/MediaSeg.thy ===== *)
theory MediaSeg
  imports HttpRange "HOL-Library.Sublist"
begin

text \<open>
  One representation of a DASH or CMAF stream (\<open>SegStream\<close> in
  \<open>wandr-media-engine/src/lib.rs\<close>): media segments that are fetched one at a time, each
  opened behind the init segment by a demuxer of its own, with a slot in which the next segment
  is fetched ahead.

  The demuxer is the \<open>oxideav-mp4\<close> crate: \<open>Demuxers\<close> holds its \<open>open\<close> and
  \<open>next_packet\<close>, over any type of demuxer states.  The network is numbered as in
  \<open>HttpRange\<close>.
\<close>

section \<open>Fetching a segment\<close>

record MediaNet =
  n_range :: "nat \<Rightarrow> string \<Rightarrow> nat \<Rightarrow> nat \<Rightarrow> string + Response"
  n_get :: "nat \<Rightarrow> string \<Rightarrow> string + Response"

definition fetch_url :: "string + Response \<Rightarrow> string + u8 list" where
  "fetch_url answer =
     (case answer of
        Inl e \<Rightarrow> Inl (''fetch: '' @ e)
      | Inr r \<Rightarrow>
          if resp_status r \<noteq> 200 \<and> resp_status r \<noteq> 206
          then Inl (''fetch: unexpected status '' @ show_nat (resp_status r))
          else (case resp_body r of Inl e \<Rightarrow> Inl (''body: '' @ e) | Inr bs \<Rightarrow> Inr bs))"

text \<open>A URL, with an offset and a length for a part of a file.\<close>

record Seg =
  seg_url :: string
  seg_range :: "(nat \<times> nat) option"

definition fetch_seg_bytes :: "MediaNet \<Rightarrow> nat \<Rightarrow> Seg \<Rightarrow> string + u8 list" where
  "fetch_seg_bytes w n s =
     (case seg_range s of
        Some (off, len) \<Rightarrow>
          (case fetch_range (n_range w n (seg_url s) off ((off + len + (2 ^ 64 - 1)) mod 2 ^ 64)) of
             Inl e \<Rightarrow> Inl e
           | Inr r \<Rightarrow> Inr (rg_bytes r))
      | None \<Rightarrow> fetch_url (n_get w n (seg_url s)))"

section \<open>The stream\<close>

record Packet =
  pk_stream :: nat
  pk_pts :: "int option"
  pk_dts :: "int option"
  pk_key :: bool
  pk_data :: "u8 list"

text \<open>An error of \<open>next_packet\<close> is \<open>None\<close>.\<close>

record 'd Demuxers =
  open_mp4 :: "u8 list \<Rightarrow> string + 'd"
  next_pkt :: "'d \<Rightarrow> Packet option \<times> 'd"

record Prefetch =
  sp_ready :: "(nat \<times> u8 list) option"
  sp_inflight :: bool

text \<open>\<open>seg_tasks\<close>: the segments of the fetches in flight.  \<open>seg_accesses\<close> numbers the requests.\<close>

record 'd SegStream =
  seg_init :: "u8 list"
  segs :: "Seg list"
  starts_us :: "int list"
  seg_idx :: nat
  dmx :: "'d option"
  tb_num :: int
  tb_den :: int
  seg_done :: bool
  pf :: Prefetch
  seg_tasks :: "nat list"
  seg_accesses :: nat

text \<open>Signed wrap-around at 128 bits, and division that rounds towards zero.\<close>

definition wrap128 :: "int \<Rightarrow> int" where
  "wrap128 x = (x + 2 ^ 127) mod 2 ^ 128 - 2 ^ 127"

definition tdiv :: "int \<Rightarrow> int \<Rightarrow> int" where
  "tdiv a b = sgn a * sgn b * (\<bar>a\<bar> div \<bar>b\<bar>)"

definition ticks_to_us :: "int \<Rightarrow> int \<Rightarrow> int \<Rightarrow> int" where
  "ticks_to_us pts num den = (if den = 0 then 0 else wrap64 (tdiv (wrap128 (pts * num * 1000000)) den))"

definition seg_stream_new :: "u8 list \<Rightarrow> Seg list \<Rightarrow> int list \<Rightarrow> int \<Rightarrow> int \<Rightarrow> 'd SegStream" where
  "seg_stream_new ini sgs starts num den = \<lparr>seg_init = ini, segs = sgs, starts_us = starts, seg_idx = 0, dmx = None,
     tb_num = num, tb_den = den, seg_done = False, pf = \<lparr>sp_ready = None, sp_inflight = False\<rparr>, seg_tasks = [], seg_accesses = 0\<rparr>"

definition seg_prefetch :: "'d SegStream \<Rightarrow> 'd SegStream" where
  "seg_prefetch s =
     (let k = seg_idx s in
      if length (segs s) \<le> k then s
      else if sp_inflight (pf s) \<or> (case sp_ready (pf s) of Some (i, _) \<Rightarrow> i = k | None \<Rightarrow> False) then s
      else s\<lparr>pf := (pf s)\<lparr>sp_inflight := True\<rparr>, seg_tasks := seg_tasks s @ [k]\<rparr>)"

text \<open>The task for segment \<open>k\<close>, when its bytes have arrived.\<close>

definition seg_prefetched :: "MediaNet \<Rightarrow> nat \<Rightarrow> 'd SegStream \<Rightarrow> 'd SegStream" where
  "seg_prefetched w k s =
     s\<lparr>pf := (case fetch_seg_bytes w (seg_accesses s) (segs s ! k) of
                 Inl _ \<Rightarrow> (pf s)\<lparr>sp_inflight := False\<rparr>
               | Inr b \<Rightarrow> \<lparr>sp_ready = Some (k, b), sp_inflight = False\<rparr>),
       seg_tasks := remove1 k (seg_tasks s), seg_accesses := Suc (seg_accesses s)\<rparr>"

definition open_segment :: "'d Demuxers \<Rightarrow> u8 list \<Rightarrow> 'd SegStream \<Rightarrow> bool \<times> 'd SegStream" where
  "open_segment ops b s =
     (case open_mp4 ops (seg_init s @ b) of
        Inr d \<Rightarrow> (True, s\<lparr>dmx := Some d, seg_idx := Suc (seg_idx s)\<rparr>)
      | Inl _ \<Rightarrow> (False, s\<lparr>seg_done := True\<rparr>))"

definition open_next :: "'d Demuxers \<Rightarrow> MediaNet \<Rightarrow> 'd SegStream \<Rightarrow> bool \<times> 'd SegStream" where
  "open_next ops w s =
     (if length (segs s) \<le> seg_idx s then (False, s\<lparr>seg_done := True\<rparr>)
      else
        (case (case sp_ready (pf s) of Some (i, b) \<Rightarrow> if i = seg_idx s then Some b else None | None \<Rightarrow> None) of
           Some b \<Rightarrow> open_segment ops b (s\<lparr>pf := (pf s)\<lparr>sp_ready := None\<rparr>\<rparr>)
         | None \<Rightarrow>
             (let s1 = s\<lparr>seg_accesses := Suc (seg_accesses s)\<rparr> in
              case fetch_seg_bytes w (seg_accesses s) (segs s ! seg_idx s) of
                Inl e \<Rightarrow> (False, s1\<lparr>seg_done := True\<rparr>)
              | Inr b \<Rightarrow> open_segment ops b s1)))"

definition seg_frame :: "int \<Rightarrow> int \<Rightarrow> Packet \<Rightarrow> int \<times> bool \<times> u8 list" where
  "seg_frame num den p =
     (ticks_to_us (case pk_pts p of Some t \<Rightarrow> t | None \<Rightarrow> or_default 0 (pk_dts p)) num den, pk_key p, pk_data p)"

function next_packet :: "'d Demuxers \<Rightarrow> MediaNet \<Rightarrow> 'd SegStream \<Rightarrow> (int \<times> bool \<times> u8 list) option \<times> 'd SegStream" where
  "next_packet ops w s =
     (case dmx s of
        None \<Rightarrow>
          (case open_next ops w s of
             (True, s1) \<Rightarrow> next_packet ops w s1
           | (False, s1) \<Rightarrow> (None, s1))
      | Some d \<Rightarrow>
          (case next_pkt ops d of
             (Some p, d') \<Rightarrow> (Some (seg_frame (tb_num s) (tb_den s) p), s\<lparr>dmx := Some d'\<rparr>)
           | (None, d') \<Rightarrow> next_packet ops w (s\<lparr>dmx := None\<rparr>)))"
  by pat_completeness auto

lemma open_next_cases:
  "open_next ops w s = (ok, s1) \<Longrightarrow> dmx s = None \<Longrightarrow>
     segs s1 = segs s \<and> seg_init s1 = seg_init s \<and> starts_us s1 = starts_us s \<and> tb_num s1 = tb_num s \<and> tb_den s1 = tb_den s \<and>
     seg_tasks s1 = seg_tasks s \<and>
     (if ok then seg_idx s < length (segs s) \<and> seg_idx s1 = Suc (seg_idx s) else seg_idx s1 = seg_idx s \<and> dmx s1 = None)"
  by (auto simp: open_next_def open_segment_def Let_def split: if_splits option.splits sum.splits prod.splits)

termination next_packet
proof (relation "measure (\<lambda>(ops, w, s). 2 * (length (segs s) - seg_idx s) + (if dmx s = None then 0 else 1))", goal_cases)
  case (2 ops w s ok s1)
  with open_next_cases[of ops w s True s1] show ?case by auto
qed (auto split: option.splits)

declare next_packet.simps [simp del]

definition rposition :: "('a \<Rightarrow> bool) \<Rightarrow> 'a list \<Rightarrow> nat option" where
  "rposition P xs = find (\<lambda>i. P (xs ! i)) (rev [0..<length xs])"

definition seg_seek :: "int \<Rightarrow> 'd SegStream \<Rightarrow> int \<times> 'd SegStream" where
  "seg_seek target s =
     (let k = or_default 0 (rposition (\<lambda>t. t \<le> target) (starts_us s)) in
      (if k < length (starts_us s) then starts_us s ! k else 0,
       s\<lparr>seg_idx := k, dmx := None, seg_done := False, pf := \<lparr>sp_ready = None, sp_inflight = False\<rparr>\<rparr>))"

section \<open>Steps\<close>

text \<open>
  A pull of a packet, a seek, the driver of the prefetch and the arrival of its bytes, in any
  order.  A switch of the audio or video representation makes a new stream.
\<close>

inductive seg_step :: "'d Demuxers \<Rightarrow> MediaNet \<Rightarrow> 'd SegStream \<Rightarrow> 'd SegStream \<Rightarrow> bool" for ops w where
  Pulled: "seg_step ops w s (snd (next_packet ops w s))"
| Sought: "seg_step ops w s (snd (seg_seek target s))"
| Driven: "seg_step ops w s (seg_prefetch s)"
| Arrived: "k \<in> set (seg_tasks s) \<Longrightarrow> seg_step ops w s (seg_prefetched w k s)"

inductive seg_reachable :: "'d Demuxers \<Rightarrow> MediaNet \<Rightarrow> 'd SegStream \<Rightarrow> 'd SegStream \<Rightarrow> bool" for ops w s0 where
  Fresh: "seg_reachable ops w s0 s0"
| Further: "seg_reachable ops w s0 s \<Longrightarrow> seg_step ops w s s' \<Longrightarrow> seg_reachable ops w s0 s'"

text \<open>
  A run without seeks, with the packets it has returned.  A pull that returns none may be followed
  by another, which tries the segment again.
\<close>

inductive seg_run :: "'d Demuxers \<Rightarrow> MediaNet \<Rightarrow> 'd SegStream \<Rightarrow> (int \<times> bool \<times> u8 list) list \<Rightarrow> 'd SegStream \<Rightarrow> bool"
  for ops w s where
  Start: "seg_run ops w s [] s"
| Pull: "seg_run ops w s out s1 \<Longrightarrow> next_packet ops w s1 = (r, s2) \<Longrightarrow>
     seg_run ops w s (out @ (case r of None \<Rightarrow> [] | Some p \<Rightarrow> [p])) s2"
| Drive: "seg_run ops w s out s1 \<Longrightarrow> seg_run ops w s out (seg_prefetch s1)"
| Arrive: "seg_run ops w s out s1 \<Longrightarrow> k \<in> set (seg_tasks s1) \<Longrightarrow> seg_run ops w s out (seg_prefetched w k s1)"

section \<open>A plain reader\<close>

text \<open>
  What a demuxer yields until its first error; and what is expected of the server: whenever a
  request for a segment succeeds and the bytes open behind the init segment, they hold the packets
  of the segment.  Any request may fail, and so may any opening.
\<close>

primrec yields :: "'d Demuxers \<Rightarrow> 'd \<Rightarrow> Packet list \<Rightarrow> bool" where
  "yields ops d [] \<longleftrightarrow> fst (next_pkt ops d) = None"
| "yields ops d (p # ps) \<longleftrightarrow> (\<exists>d'. next_pkt ops d = (Some p, d') \<and> yields ops d' ps)"

definition plays :: "'d Demuxers \<Rightarrow> MediaNet \<Rightarrow> u8 list \<Rightarrow> Seg list \<Rightarrow> (nat \<Rightarrow> Packet list) \<Rightarrow> bool" where
  "plays ops w ini sgs pkts \<longleftrightarrow>
     (\<forall>k < length sgs. \<forall>n b d. fetch_seg_bytes w n (sgs ! k) = Inr b \<longrightarrow> open_mp4 ops (ini @ b) = Inr d \<longrightarrow> yields ops d (pkts k))"

text \<open>The stream stands before a segment of which a request or an opening fails.\<close>

definition stuck :: "'d Demuxers \<Rightarrow> MediaNet \<Rightarrow> 'd SegStream \<Rightarrow> bool" where
  "stuck ops w s \<longleftrightarrow> dmx s = None \<and> seg_idx s < length (segs s) \<and> seg_done s \<and>
     (\<exists>n. case fetch_seg_bytes w n (segs s ! seg_idx s) of
        Inl e \<Rightarrow> True
      | Inr b \<Rightarrow> (case open_mp4 ops (seg_init s @ b) of Inl e \<Rightarrow> True | Inr d \<Rightarrow> False))"

definition from_segment :: "(nat \<Rightarrow> Packet list) \<Rightarrow> nat \<Rightarrow> nat \<Rightarrow> Packet list" where
  "from_segment pkts k n = concat (map pkts [k..<n])"

text \<open>The packets still to come.\<close>

definition remaining :: "'d Demuxers \<Rightarrow> (nat \<Rightarrow> Packet list) \<Rightarrow> 'd SegStream \<Rightarrow> Packet list \<Rightarrow> bool" where
  "remaining ops pkts s ps \<longleftrightarrow>
     (case dmx s of
        None \<Rightarrow> ps = from_segment pkts (seg_idx s) (length (segs s))
      | Some d \<Rightarrow> \<exists>qs. yields ops d qs \<and> ps = qs @ from_segment pkts (seg_idx s) (length (segs s)))"

text \<open>What was fetched ahead are the bytes of the segment it is tagged with.\<close>

definition slot_ok :: "MediaNet \<Rightarrow> 'd SegStream \<Rightarrow> bool" where
  "slot_ok w s \<longleftrightarrow> (\<forall>k b. sp_ready (pf s) = Some (k, b) \<longrightarrow> k < length (segs s) \<longrightarrow> (\<exists>n. fetch_seg_bytes w n (segs s ! k) = Inr b))"

definition same_media :: "'d SegStream \<Rightarrow> 'd SegStream \<Rightarrow> bool" where
  "same_media s t \<longleftrightarrow> segs t = segs s \<and> seg_init t = seg_init s \<and> starts_us t = starts_us s \<and> tb_num t = tb_num s \<and> tb_den t = tb_den s"

lemma open_next_plays:
  assumes "plays ops w (seg_init s) (segs s) pkts" "slot_ok w s" "dmx s = None" "open_next ops w s = (ok, s1)"
  shows "same_media s s1" "slot_ok w s1"
    "if ok then seg_idx s < length (segs s) \<and> (\<exists>d. dmx s1 = Some d \<and> yields ops d (pkts (seg_idx s))) \<and> seg_idx s1 = Suc (seg_idx s)
     else dmx s1 = None \<and> seg_idx s1 = seg_idx s \<and> (seg_idx s < length (segs s) \<longrightarrow> stuck ops w s1)"
proof -
  note c = open_next_cases[OF assms(4,3)]
  show "same_media s s1"
    using c by (simp add: same_media_def)
  show "slot_ok w s1"
    using assms(2,4)
    by (auto simp: open_next_def open_segment_def slot_ok_def Let_def split: if_splits option.splits sum.splits prod.splits)
  have opened: "if ok then (\<exists>d. dmx s1 = Some d \<and> yields ops d (pkts (seg_idx s))) else stuck ops w s1"
    if "open_segment ops b t = (ok, s1)" "fetch_seg_bytes w n (segs s ! seg_idx s) = Inr b" "seg_idx s < length (segs s)"
      "same_media s t" "seg_idx t = seg_idx s" "dmx t = None" for b n t
  proof (cases "open_mp4 ops (seg_init s @ b)")
    case (Inl e)
    with that show ?thesis
      by (auto simp: open_segment_def stuck_def same_media_def intro!: exI[of _ n])
  next
    case (Inr d)
    with that assms(1) show ?thesis
      by (auto simp: open_segment_def plays_def same_media_def)
  qed
  show "if ok then seg_idx s < length (segs s) \<and> (\<exists>d. dmx s1 = Some d \<and> yields ops d (pkts (seg_idx s))) \<and> seg_idx s1 = Suc (seg_idx s)
     else dmx s1 = None \<and> seg_idx s1 = seg_idx s \<and> (seg_idx s < length (segs s) \<longrightarrow> stuck ops w s1)"
  proof (cases "seg_idx s < length (segs s)")
    case True
    consider b where "sp_ready (pf s) = Some (seg_idx s, b)"
      | "(case sp_ready (pf s) of Some (i, b) \<Rightarrow> if i = seg_idx s then Some b else None | None \<Rightarrow> None) = None"
      by (cases "sp_ready (pf s)"; cases "fst (the (sp_ready (pf s))) = seg_idx s") auto
    then show ?thesis
    proof cases
      case 1
      then obtain n where n: "fetch_seg_bytes w n (segs s ! seg_idx s) = Inr b"
        using assms(2) True by (auto simp: slot_ok_def)
      have o: "open_segment ops b (s\<lparr>pf := (pf s)\<lparr>sp_ready := None\<rparr>\<rparr>) = (ok, s1)"
        using assms(4) True 1 by (simp add: open_next_def)
      from opened[OF o n True] assms(3) c show ?thesis
        by (cases ok) (simp_all add: same_media_def)
    next
      case 2
      show ?thesis
      proof (cases "fetch_seg_bytes w (seg_accesses s) (segs s ! seg_idx s)")
        case (Inl e)
        with True 2 assms(3,4) show ?thesis
          by (auto simp: open_next_def stuck_def Let_def intro!: exI[of _ "seg_accesses s"])
      next
        case (Inr b)
        have o: "open_segment ops b (s\<lparr>seg_accesses := Suc (seg_accesses s)\<rparr>) = (ok, s1)"
          using assms(4) True 2 Inr by (simp add: open_next_def Let_def)
        from opened[OF o Inr True] assms(3) c show ?thesis
          by (cases ok) (simp_all add: same_media_def)
      qed
    qed
  next
    case False
    with assms(3,4) show ?thesis by (auto simp: open_next_def)
  qed
qed

lemma from_segment_step: "k < n \<Longrightarrow> from_segment pkts k n = pkts k @ from_segment pkts (Suc k) n"
  by (simp add: from_segment_def upt_rec[of k])

lemma next_packet_exact:
  assumes "plays ops w (seg_init s) (segs s) pkts" "slot_ok w s" "remaining ops pkts s ps" "next_packet ops w s = (out, s')"
  shows "same_media s s' \<and> slot_ok w s' \<and>
    (case out of None \<Rightarrow> remaining ops pkts s' ps \<and> (ps = [] \<or> stuck ops w s')
     | Some f \<Rightarrow> \<exists>p ps'. ps = p # ps' \<and> f = seg_frame (tb_num s) (tb_den s) p \<and> remaining ops pkts s' ps')"
  using assms
proof (induction ops w s arbitrary: ps rule: next_packet.induct)
  case (1 ops w s)
  note [simp] = next_packet.simps[of ops w s]
  show ?case
  proof (cases "dmx s")
    case None
    obtain ok s1 where o: "open_next ops w s = (ok, s1)" by (cases "open_next ops w s")
    note op = open_next_plays[OF 1(3,4) None o]
    show ?thesis
    proof (cases ok)
      case True
      with op(3) obtain d where d: "seg_idx s < length (segs s)" "dmx s1 = Some d" "yields ops d (pkts (seg_idx s))" "seg_idx s1 = Suc (seg_idx s)"
        by (auto split: if_splits)
      have r: "remaining ops pkts s1 ps"
        using 1(5) None d op(1) from_segment_step[OF d(1), of pkts] by (auto simp: remaining_def same_media_def)
      have n: "next_packet ops w s1 = (out, s')"
        using 1(6) None o True by simp
      have "plays ops w (seg_init s1) (segs s1) pkts"
        using 1(3) op(1) by (simp add: same_media_def)
      from 1(1)[OF None o[symmetric] _ this op(2) r n] True op(1) show ?thesis
        by (cases out) (simp_all add: same_media_def)
    next
      case False
      with op(3) have "remaining ops pkts s1 ps" "ps = [] \<or> stuck ops w s1"
        using 1(5) None op(1) by (auto simp: remaining_def from_segment_def same_media_def)
      with False 1(6) None o op(1,2) show ?thesis by simp
    qed
  next
    case (Some d)
    obtain x d' where n: "next_pkt ops d = (x, d')" by (cases "next_pkt ops d")
    obtain qs where qs: "yields ops d qs" "ps = qs @ from_segment pkts (seg_idx s) (length (segs s))"
      using 1(5) Some by (auto simp: remaining_def)
    show ?thesis
    proof (cases x)
      case None
      with n qs(1) have "qs = []" by (cases qs) auto
      with qs(2) have "remaining ops pkts (s\<lparr>dmx := None\<rparr>) ps" by (simp add: remaining_def)
      moreover have "next_packet ops w (s\<lparr>dmx := None\<rparr>) = (out, s')"
        using 1(6) Some n None by simp
      moreover have "slot_ok w (s\<lparr>dmx := None\<rparr>)"
        using 1(4) by (simp add: slot_ok_def)
      ultimately show ?thesis
        using 1(2)[OF Some n[symmetric] None, of ps] 1(3) by (cases out) (simp_all add: same_media_def)
    next
      case p: (Some p)
      with n qs(1) obtain rs where "qs = p # rs" "yields ops d' rs" by (cases qs) auto
      with qs(2) p n Some 1(4,6) show ?thesis
        by (auto simp: remaining_def same_media_def slot_ok_def)
    qed
  qed
qed

section \<open>The stream is the plain reader\<close>

lemma prefetch_fields:
  "dmx (seg_prefetch s) = dmx s" "seg_idx (seg_prefetch s) = seg_idx s" "segs (seg_prefetch s) = segs s"
  "dmx (seg_prefetched w k s) = dmx s" "seg_idx (seg_prefetched w k s) = seg_idx s" "segs (seg_prefetched w k s) = segs s"
  by (simp_all add: seg_prefetch_def seg_prefetched_def Let_def)

lemma prefetch_same: "same_media s (seg_prefetch s) \<and> remaining ops pkts (seg_prefetch s) ps = remaining ops pkts s ps"
  unfolding remaining_def prefetch_fields by (simp add: seg_prefetch_def same_media_def Let_def)

lemma prefetched_same: "same_media s (seg_prefetched w k s) \<and> remaining ops pkts (seg_prefetched w k s) ps = remaining ops pkts s ps"
  unfolding remaining_def prefetch_fields by (simp add: seg_prefetched_def same_media_def)

lemma prefetch_slot: "slot_ok w s \<Longrightarrow> slot_ok w (seg_prefetch s)"
  by (auto simp: seg_prefetch_def slot_ok_def Let_def)

lemma prefetched_slot: "slot_ok w s \<Longrightarrow> slot_ok w (seg_prefetched w k s)"
  by (auto simp: seg_prefetched_def slot_ok_def split: sum.splits)

lemma sought: "same_media s (snd (seg_seek t s)) \<and> slot_ok w (snd (seg_seek t s)) \<and> dmx (snd (seg_seek t s)) = None"
  by (simp add: seg_seek_def same_media_def slot_ok_def Let_def)

lemma same_media_trans: "same_media s t \<Longrightarrow> same_media t u \<Longrightarrow> same_media s u"
  by (simp add: same_media_def)

lemma seg_step_same:
  assumes "plays ops w (seg_init s) (segs s) pkts" "slot_ok w s" "remaining ops pkts s ps" "seg_step ops w s s'"
  shows "same_media s s' \<and> slot_ok w s' \<and> (\<exists>ps'. remaining ops pkts s' ps')"
  using assms(4)
proof cases
  case Pulled
  with next_packet_exact[OF assms(1-3), of "fst (next_packet ops w s)" s'] show ?thesis
    by (auto split: option.splits)
next
  case (Sought t)
  with sought[of s t w] show ?thesis by (simp add: remaining_def)
next
  case Driven
  with assms(2,3) show ?thesis using prefetch_slot prefetch_same by blast
next
  case (Arrived k)
  with assms(2,3) show ?thesis using prefetched_slot prefetched_same by blast
qed

lemma seg_reachable_same:
  assumes "seg_reachable ops w (seg_stream_new ini sgs starts num den) s" "plays ops w ini sgs pkts"
  shows "same_media (seg_stream_new ini sgs starts num den) s \<and> slot_ok w s \<and> (\<exists>ps. remaining ops pkts s ps)"
  using assms
proof (induction rule: seg_reachable.induct)
  case Fresh
  show ?case by (simp add: same_media_def seg_stream_new_def slot_ok_def remaining_def)
next
  case (Further s s')
  then have "plays ops w (seg_init s) (segs s) pkts"
    by (simp add: same_media_def seg_stream_new_def)
  with Further(2-4) show ?case
    using seg_step_same same_media_trans by blast
qed

lemma seg_run_exact:
  assumes "seg_run ops w s out s1" "plays ops w (seg_init s) (segs s) pkts" "slot_ok w s" "remaining ops pkts s ps"
  shows "\<exists>qs rs. ps = qs @ rs \<and> out = map (seg_frame (tb_num s) (tb_den s)) qs \<and> same_media s s1 \<and> slot_ok w s1 \<and> remaining ops pkts s1 rs"
  using assms
proof (induction rule: seg_run.induct)
  case Start
  then show ?case by (auto simp: same_media_def)
next
  case (Pull out s1 r s2)
  then obtain qs rs where ih: "ps = qs @ rs" "out = map (seg_frame (tb_num s) (tb_den s)) qs" "same_media s s1" "slot_ok w s1"
    "remaining ops pkts s1 rs" by blast
  then have "plays ops w (seg_init s1) (segs s1) pkts"
    using Pull(4) by (simp add: same_media_def)
  note n = next_packet_exact[OF this ih(4,5) Pull(2)]
  show ?case
  proof (cases r)
    case None
    with n ih show ?thesis
      using same_media_trans[of s s1 s2] by (intro exI[of _ qs] exI[of _ rs]) simp
  next
    case (Some f)
    with n obtain p rs' where "rs = p # rs'" "f = seg_frame (tb_num s1) (tb_den s1) p" "remaining ops pkts s2 rs'" by auto
    with n ih(1-3) Some have "ps = (qs @ [p]) @ rs' \<and> out @ [f] = map (seg_frame (tb_num s) (tb_den s)) (qs @ [p]) \<and> same_media s s2
        \<and> slot_ok w s2 \<and> remaining ops pkts s2 rs'"
      by (auto simp: same_media_def)
    with Some show ?thesis by (simp only: option.case) blast
  qed
next
  case (Drive out s1)
  then obtain qs rs where "ps = qs @ rs" "out = map (seg_frame (tb_num s) (tb_den s)) qs" "same_media s s1" "slot_ok w s1"
    "remaining ops pkts s1 rs" by blast
  then show ?case
    using prefetch_slot[of w s1] prefetch_same[of s1 ops pkts rs] same_media_trans[of s s1] by (intro exI[of _ qs] exI[of _ rs]) simp
next
  case (Arrive out s1 k)
  then obtain qs rs where "ps = qs @ rs" "out = map (seg_frame (tb_num s) (tb_den s)) qs" "same_media s s1" "slot_ok w s1"
    "remaining ops pkts s1 rs" by blast
  then show ?case
    using prefetched_slot[of w s1 k] prefetched_same[of s1 w k ops pkts rs] same_media_trans[of s s1] by (intro exI[of _ qs] exI[of _ rs]) simp
qed

text \<open>
  C16. Whatever was fetched ahead, for whatever position, and whichever requests fail: from a
  reachable state with no segment open, as at the start and after a seek, the stream has returned a
  prefix of the packets that fetching and demuxing the segments one after the other gives, from the
  current segment on.  A pull returns none when all of them have been returned, and otherwise only
  because a request for the segment it has come to, or the opening of its bytes, fails: the code
  then marks the stream as done (a transient failure ends it early), although another pull would
  try that segment again and go on with the packets left.  The server is taken to give the same
  packets for a segment whenever it answers.
\<close>

theorem seg_stream_exact:
  assumes "plays ops w ini sgs pkts" "seg_reachable ops w (seg_stream_new ini sgs starts num den) s" "dmx s = None"
    and "seg_run ops w s out s1"
  shows "\<exists>rest. map (seg_frame num den) (from_segment pkts (seg_idx s) (length sgs)) = out @ rest
    \<and> (case next_packet ops w s1 of
         (Some f, s2) \<Rightarrow> rest \<noteq> [] \<and> f = hd rest
       | (None, s2) \<Rightarrow> rest = [] \<or> stuck ops w s2 \<and> rest = map (seg_frame num den) (from_segment pkts (seg_idx s2) (length sgs)))"
proof -
  have m: "same_media (seg_stream_new ini sgs starts num den) s" "slot_ok w s"
    using seg_reachable_same[OF assms(2,1)] by simp_all
  then have p: "plays ops w (seg_init s) (segs s) pkts" "segs s = sgs" "tb_num s = num" "tb_den s = den"
    using assms(1) by (simp_all add: same_media_def seg_stream_new_def)
  have "remaining ops pkts s (from_segment pkts (seg_idx s) (length sgs))"
    using assms(3) p(2) by (simp add: remaining_def)
  from seg_run_exact[OF assms(4) p(1) m(2) this] obtain qs rs where
    r: "from_segment pkts (seg_idx s) (length sgs) = qs @ rs" "out = map (seg_frame num den) qs" "same_media s s1" "slot_ok w s1"
      "remaining ops pkts s1 rs"
    using p(3,4) by auto
  have "plays ops w (seg_init s1) (segs s1) pkts"
    using p(1) r(3) by (simp add: same_media_def)
  note n = next_packet_exact[OF this r(4,5), of "fst (next_packet ops w s1)" "snd (next_packet ops w s1)"]
  have "segs s1 = sgs" "tb_num s1 = num" "tb_den s1 = den"
    using r(3) p(2-4) by (simp_all add: same_media_def)
  with n have "case next_packet ops w s1 of
         (Some f, s2) \<Rightarrow> map (seg_frame num den) rs \<noteq> [] \<and> f = hd (map (seg_frame num den) rs)
       | (None, s2) \<Rightarrow> map (seg_frame num den) rs = [] \<or> stuck ops w s2
           \<and> map (seg_frame num den) rs = map (seg_frame num den) (from_segment pkts (seg_idx s2) (length sgs))"
    by (cases "next_packet ops w s1"; cases "fst (next_packet ops w s1)")
      (auto simp: stuck_def remaining_def same_media_def split: option.splits)
  with r(1,2) show ?thesis
    by (intro exI[of _ "map (seg_frame num den) rs"]) simp
qed

lemma rposition_sorted:
  assumes "sorted xs" "xs \<noteq> []" "xs ! 0 \<le> t"
  shows "\<exists>k < length xs. rposition (\<lambda>x. x \<le> t) xs = Some k \<and> xs ! k \<le> t \<and> (\<forall>j. k < j \<and> j < length xs \<longrightarrow> t < xs ! j)"
proof -
  let ?P = "\<lambda>i. xs ! i \<le> t"
  have "\<exists>i \<in> set (rev [0..<length xs]). ?P i"
    using assms(2,3) by (intro bexI[of _ 0]) simp_all
  then obtain k where f: "find ?P (rev [0..<length xs]) = Some k"
    by (cases "find ?P (rev [0..<length xs])") (auto simp: find_None_iff)
  then obtain i where i: "i < length (rev [0..<length xs])" "?P (rev [0..<length xs] ! i)" "k = rev [0..<length xs] ! i"
    "\<forall>j < i. \<not> ?P (rev [0..<length xs] ! j)"
    unfolding find_Some_iff by blast
  have k: "k = length xs - Suc i" "k < length xs"
    using i(1,3) by (simp_all add: rev_nth)
  moreover have "t < xs ! j" if "k < j" "j < length xs" for j
  proof -
    have "length xs - Suc j < i" "rev [0..<length xs] ! (length xs - Suc j) = j"
      using that k by (simp_all add: rev_nth)
    with i(4) show ?thesis by fastforce
  qed
  moreover have "xs ! k \<le> t"
    using i(2,3) by simp
  ultimately show ?thesis
    using f by (intro exI[of _ k]) (simp add: rposition_def)
qed

text \<open>
  A seek lands on the segment that covers the target: the last one that starts at or before it,
  whose start is the time it reports.
\<close>

theorem seg_seek_covers:
  assumes "sorted (starts_us s)" "starts_us s \<noteq> []" "starts_us s ! 0 \<le> target" "seg_seek target s = (landed, s')"
  shows "seg_idx s' < length (starts_us s) \<and> landed = starts_us s ! seg_idx s' \<and> landed \<le> target
    \<and> (\<forall>j. seg_idx s' < j \<and> j < length (starts_us s) \<longrightarrow> target < starts_us s ! j) \<and> dmx s' = None \<and> \<not> seg_done s'"
  using rposition_sorted[OF assms(1-3)] assms(4) by (auto simp: seg_seek_def Let_def)

section \<open>Witnesses\<close>

text \<open>A demuxer of one packet per byte behind the init segment.\<close>

definition demo_ops :: "u8 list Demuxers" where
  "demo_ops = \<lparr>open_mp4 = (\<lambda>bs. Inr (drop 1 bs)),
     next_pkt = (\<lambda>bs. case bs of [] \<Rightarrow> (None, [])
       | b # cs \<Rightarrow> (Some \<lparr>pk_stream = 0, pk_pts = Some (uint b), pk_dts = None, pk_key = True, pk_data = [b]\<rparr>, cs))\<rparr>"

definition demo_media :: MediaNet where
  "demo_media = \<lparr>n_range = (\<lambda>n u a b. Inr \<lparr>resp_status = 206, content_range = None, content_length = None, resp_body = Inr [of_nat a]\<rparr>),
     n_get = (\<lambda>n u. Inr \<lparr>resp_status = 200, content_range = None, content_length = None, resp_body = Inr [9]\<rparr>)\<rparr>"

definition demo_segs :: "Seg list" where
  "demo_segs = [\<lparr>seg_url = ''a'', seg_range = Some (3, 1)\<rparr>, \<lparr>seg_url = ''b'', seg_range = None\<rparr>]"

definition demo_pkts :: "nat \<Rightarrow> Packet list" where
  "demo_pkts k = [\<lparr>pk_stream = 0, pk_pts = Some (if k = 0 then 3 else 9), pk_dts = None, pk_key = True, pk_data = [if k = 0 then 3 else 9]\<rparr>]"

lemma demo_segs_length: "length demo_segs = 2"
  by (simp add: demo_segs_def)

lemma demo_plays: "plays demo_ops demo_media [0] demo_segs demo_pkts"
  by (auto simp: plays_def demo_ops_def demo_media_def demo_segs_def demo_pkts_def fetch_seg_bytes_def fetch_url_def
      fetch_range_def less_2_cases_iff)

definition demo_stream :: "u8 list SegStream" where
  "demo_stream = seg_stream_new [0] demo_segs [0, 4000000] 1 1"

text \<open>The second segment never arrives: after the packet of the first the stream is stuck.\<close>

definition demo_down :: MediaNet where
  "demo_down = demo_media\<lparr>n_get := (\<lambda>n u. Inl ''timed out'')\<rparr>"

lemma demo_down_plays: "plays demo_ops demo_down [0] demo_segs demo_pkts"
  by (auto simp: plays_def demo_ops_def demo_down_def demo_media_def demo_segs_def demo_pkts_def fetch_seg_bytes_def
      fetch_url_def fetch_range_def less_2_cases_iff)

lemma demo_down_pulls:
  "next_packet demo_ops demo_down demo_stream =
     (Some (3000000, True, [3]), demo_stream\<lparr>dmx := Some [], seg_idx := 1, seg_accesses := 1\<rparr>)"
  "fst (next_packet demo_ops demo_down (demo_stream\<lparr>dmx := Some [], seg_idx := 1, seg_accesses := 1\<rparr>)) = None"
  by (simp_all add: next_packet.simps demo_stream_def seg_stream_new_def open_next_def open_segment_def demo_ops_def
      demo_down_def demo_media_def demo_segs_def fetch_seg_bytes_def fetch_url_def fetch_range_def Let_def seg_frame_def
      ticks_to_us_def wrap64_def wrap128_def tdiv_def)

theorem seg_stream_exact_witness:
  "\<exists>rest s1. map (seg_frame 1 1) (from_segment demo_pkts 0 2) = [(3000000, True, [3])] @ rest
    \<and> seg_run demo_ops demo_down demo_stream [(3000000, True, [3])] s1
    \<and> fst (next_packet demo_ops demo_down s1) = None \<and> rest \<noteq> []"
proof -
  let ?s1 = "demo_stream\<lparr>dmx := Some [], seg_idx := 1, seg_accesses := 1\<rparr>"
  have r: "seg_reachable demo_ops demo_down (seg_stream_new [0] demo_segs [0, 4000000] 1 1) demo_stream" "dmx demo_stream = None" "seg_idx demo_stream = 0"
    by (simp_all add: demo_stream_def seg_reachable.Fresh) (simp_all add: seg_stream_new_def)
  have run: "seg_run demo_ops demo_down demo_stream [(3000000, True, [3])] ?s1"
    using seg_run.Pull[OF seg_run.Start demo_down_pulls(1)] by simp
  have "map (seg_frame 1 1) (from_segment demo_pkts 0 2) \<noteq> [(3000000, True, [3])]"
    by (simp add: from_segment_def demo_pkts_def seg_frame_def upt_rec)
  moreover obtain rest where "map (seg_frame 1 1) (from_segment demo_pkts 0 2) = [(3000000, True, [3])] @ rest"
    using seg_stream_exact[OF demo_down_plays r(1,2) run] unfolding r(3) demo_segs_length by blast
  ultimately show ?thesis
    using run demo_down_pulls(2) by (intro exI[of _ rest] exI[of _ ?s1]) auto
qed

theorem seg_seek_covers_witness:
  "fst (seg_seek 5000000 demo_stream) \<le> 5000000 \<and> seg_idx (snd (seg_seek 5000000 demo_stream)) < 2"
proof -
  have "starts_us demo_stream = [0, 4000000]"
    by (simp add: demo_stream_def seg_stream_new_def)
  with seg_seek_covers[OF _ _ _ prod.collapse[symmetric], of demo_stream 5000000] show ?thesis
    by simp
qed

end
