(* ===== verification/AnnexB.thy ===== *)
theory AnnexB
  imports Prelude
begin

text \<open>
  Access units of H.264 and H.265: the configuration records of the containers (\<open>mkv.rs\<close>)
  and the conversion of a sample with length-prefixed units into start-coded ones
  (\<open>streaming.rs\<close>).

  The guest is a 32-bit program: a \<open>usize\<close> sum wraps at \<open>2^32\<close>, and a slice whose
  start is behind its end is a panic, the result \<open>None\<close> of \<open>to_annexb\<close>.
\<close>

unbundle bit_operations_syntax

section \<open>Samples\<close>

definition START :: "u8 list" where
  "START = [0, 0, 0, 1]"

text \<open>\<open>n = (n << 8) | b\<close>.\<close>

definition prefix_len :: "u8 list \<Rightarrow> nat" where
  "prefix_len bs = foldl (\<lambda>n b. (n * 256) mod 2 ^ 32 + unat b) 0 bs"

function annexb_loop :: "u8 list \<Rightarrow> nat \<Rightarrow> nat \<Rightarrow> u8 list \<Rightarrow> u8 list option" where
  "annexb_loop sample nal_len i au =
     (if i + nal_len \<le> length sample then
        (let n = prefix_len (take nal_len (drop i sample));
             j = i + nal_len;
             e = (j + n) mod 2 ^ 32
         in if n = 0 \<or> length sample < e then Some au
            else if e < j then None
            else annexb_loop sample nal_len e (au @ START @ take (e - j) (drop j sample)))
      else Some au)"
  by pat_completeness auto
termination
proof (relation "measure (\<lambda>(sample, nal_len, i, au). length sample - i)", goal_cases)
  case (2 sample nal_len i au n j e)
  have "i < e"
  proof (cases "nal_len = 0")
    case True
    with 2(2,5) show ?thesis by (simp add: prefix_len_def)
  next
    case False
    with 2(3,6) show ?thesis by simp
  qed
  with 2(5) show ?case by auto
qed simp

declare annexb_loop.simps [simp del]

definition to_annexb :: "u8 list \<Rightarrow> nat \<Rightarrow> u8 list \<Rightarrow> bool \<Rightarrow> u8 list option" where
  "to_annexb sample nal_len ps_prefix is_sync = annexb_loop sample nal_len 0 (if is_sync then ps_prefix else [])"

section \<open>Configuration records\<close>

text \<open>\<open>get\<close> of a slice, of a range, and a big-endian 16-bit number.\<close>

definition get :: "u8 list \<Rightarrow> nat \<Rightarrow> u8 option" where
  "get bs i = (if i < length bs then Some (bs ! i) else None)"

definition get_range :: "u8 list \<Rightarrow> nat \<Rightarrow> nat \<Rightarrow> u8 list option" where
  "get_range bs i j = (if i \<le> j \<and> j \<le> length bs then Some (take (j - i) (drop i bs)) else None)"

definition get16 :: "u8 list \<Rightarrow> nat \<Rightarrow> nat option" where
  "get16 bs i = Option.bind (get bs i) (\<lambda>a. Option.bind (get bs (i + 1)) (\<lambda>b. Some (unat a * 256 + unat b)))"

text \<open>\<open>num\<close> parameter sets from \<open>i\<close> on; the result is the new index and output.\<close>

primrec param_sets :: "u8 list \<Rightarrow> nat \<Rightarrow> nat \<Rightarrow> u8 list \<Rightarrow> (nat \<times> u8 list) option" where
  "param_sets cp 0 i out = Some (i, out)"
| "param_sets cp (Suc num) i out =
     Option.bind (get16 cp i) (\<lambda>l. Option.bind (get_range cp (i + 2) (i + 2 + l)) (\<lambda>ps.
       param_sets cp num (i + 2 + l) (out @ START @ ps)))"

definition parse_avcc :: "u8 list \<Rightarrow> (u8 list \<times> nat) option" where
  "parse_avcc cp =
     (if length cp < 7 then None
      else
        (let nal_len = unat ((cp ! 4) AND 0x03) + 1; num_sps = unat ((cp ! 5) AND 0x1f) in
         Option.bind (param_sets cp num_sps 6 []) (\<lambda>(i, out).
         Option.bind (get cp i) (\<lambda>num_pps.
         Option.bind (param_sets cp (unat num_pps) (i + 1) out) (\<lambda>(_, out).
           Some (out, nal_len))))))"

primrec set_arrays :: "u8 list \<Rightarrow> nat \<Rightarrow> nat \<Rightarrow> u8 list \<Rightarrow> u8 list option" where
  "set_arrays cp 0 i out = Some out"
| "set_arrays cp (Suc num_arrays) i out =
     Option.bind (get16 cp (i + 1)) (\<lambda>num.
     Option.bind (param_sets cp num (i + 3) out) (\<lambda>(j, out).
       set_arrays cp num_arrays j out))"

definition parse_hvcc :: "u8 list \<Rightarrow> (u8 list \<times> nat) option" where
  "parse_hvcc cp =
     Option.bind (get cp 21) (\<lambda>b.
     Option.bind (get cp 22) (\<lambda>num_arrays.
     Option.bind (set_arrays cp (unat num_arrays) 23 []) (\<lambda>out.
       Some (out, unat (b AND 0x03) + 1))))"

section \<open>What an encoder writes\<close>

primrec be_bytes :: "nat \<Rightarrow> nat \<Rightarrow> u8 list" where
  "be_bytes 0 n = []"
| "be_bytes (Suc k) n = be_bytes k (n div 256) @ [of_nat n]"

definition prefixed :: "nat \<Rightarrow> u8 list \<Rightarrow> u8 list" where
  "prefixed k nal = be_bytes k (length nal) @ nal"

definition start_coded :: "u8 list list \<Rightarrow> u8 list" where
  "start_coded nals = concat (map (\<lambda>nal. START @ nal) nals)"

lemma length_be_bytes [simp]: "length (be_bytes k n) = k"
  by (induction k arbitrary: n) auto

lemma be_bytes_numeral [simp]:
  "be_bytes (numeral k) n = be_bytes (pred_numeral k) (n div 256) @ [of_nat n]"
  using be_bytes.simps(2)[of "pred_numeral k" n] by (simp only: numeral_eq_Suc[of k])

lemma unat_low: "unat (of_nat n :: u8) = n mod 256"
  by (simp add: unat_of_nat)

lemma prefix_len_be_bytes: "k \<le> 4 \<Longrightarrow> n < 256 ^ k \<Longrightarrow> prefix_len (be_bytes k n) = n"
proof (induction k arbitrary: n)
  case (Suc k)
  have d: "n div 256 < 256 ^ k"
    using Suc.prems(2) by (simp add: less_mult_imp_div_less mult.commute)
  moreover have "(256::nat) ^ k \<le> 256 ^ 3"
    using Suc.prems(1) by (intro power_increasing) simp_all
  ultimately have "n div 256 * 256 < 2 ^ 32"
    by simp
  moreover have "prefix_len (be_bytes k (n div 256)) = n div 256"
    using Suc.IH[OF _ d] Suc.prems(1) by simp
  ultimately show ?case
    by (simp add: prefix_len_def unat_low)
qed (simp add: prefix_len_def)

lemma length_prefixed [simp]: "length (prefixed k nal) = k + length nal"
  by (simp add: prefixed_def)

lemma annexb_unit:
  assumes "drop i sample = prefixed k nal @ rest" "nal \<noteq> []" "length nal < 256 ^ k" "k \<le> 4" "length sample < 2 ^ 31"
  shows "annexb_loop sample k i au = annexb_loop sample k (i + k + length nal) (au @ START @ nal)"
proof -
  have l: "length sample = i + k + length nal + length rest"
    using arg_cong[OF assms(1), of length] assms(2) by (cases "i \<le> length sample") (auto simp: prefixed_def)
  have "take k (drop i sample) = be_bytes k (length nal)"
    using assms(1) by (simp add: prefixed_def)
  then have n: "prefix_len (take k (drop i sample)) = length nal"
    using prefix_len_be_bytes assms(3,4) by simp
  have e: "(i + k + length nal) mod 2 ^ 32 = i + k + length nal"
    using l assms(5) by simp
  have d: "take (length nal) (drop (i + k) sample) = nal"
    using arg_cong[OF assms(1), of "drop k"] by (simp add: prefixed_def add.commute)
  show ?thesis
    using assms(2) l n e d by (simp add: annexb_loop.simps[of sample k i] Let_def)
qed

lemma annexb_units:
  assumes "drop i sample = concat (map (prefixed k) nals) @ rest" "\<forall>nal \<in> set nals. nal \<noteq> [] \<and> length nal < 256 ^ k"
    and "k \<le> 4" "length sample < 2 ^ 31" "length rest < k"
  shows "annexb_loop sample k i au = Some (au @ start_coded nals)"
  using assms
proof (induction nals arbitrary: i au)
  case Nil
  have "length (drop i sample) = length rest"
    using Nil(1) by simp
  with Nil(5) have "\<not> i + k \<le> length sample" by auto
  then show ?case
    by (simp add: annexb_loop.simps[of sample k i] start_coded_def)
next
  case (Cons nal nals)
  let ?j = "i + k + length nal"
  have "drop i sample = prefixed k nal @ (concat (map (prefixed k) nals) @ rest)"
    using Cons.prems(1) by simp
  from annexb_unit[OF this] have 1: "annexb_loop sample k i au = annexb_loop sample k ?j (au @ START @ nal)"
    using Cons.prems(2-4) by simp
  have "drop ?j sample = drop (k + length nal) (drop i sample)"
    by (simp add: ac_simps)
  then have "drop ?j sample = concat (map (prefixed k) nals) @ rest"
    using Cons.prems(1) by simp
  from Cons.IH[OF this] Cons.prems(2-5) 1 show ?case
    by (simp add: start_coded_def)
qed

text \<open>
  C24. A sample of length-prefixed units, of any of the four prefix widths, becomes the same units
  start-coded, with the parameter sets in front at a sync sample; bytes at the end that are
  too few for a prefix are ignored.
\<close>

theorem to_annexb_exact:
  assumes "\<forall>nal \<in> set nals. nal \<noteq> [] \<and> length nal < 256 ^ k" "k \<le> 4" "length rest < k"
    and "length (concat (map (prefixed k) nals) @ rest) < 2 ^ 31"
  shows "to_annexb (concat (map (prefixed k) nals) @ rest) k ps sync = Some ((if sync then ps else []) @ start_coded nals)"
  unfolding to_annexb_def by (rule annexb_units) (use assms in simp_all)

text \<open>
  A unit whose four-byte prefix is so large that the sum with its offset wraps makes the
  conversion panic, which ends the player.
\<close>

theorem to_annexb_wraps:
  assumes "0xFC \<le> x"
  shows "to_annexb (0xFF # 0xFF # 0xFF # x # rest) 4 ps sync = None"
proof -
  have "252 \<le> unat x" "unat x < 256"
    using assms unsigned_less[of x] by (simp_all add: word_le_nat_alt)
  moreover have "prefix_len [0xFF, 0xFF, 0xFF, x] = 4294967040 + unat x"
    by (simp add: prefix_len_def)
  moreover have "(4294967044 + unat x) mod 2 ^ 32 = unat x - 252" if "252 \<le> unat x" "unat x < 256"
    using that by (simp add: mod_if)
  ultimately show ?thesis
    by (simp add: to_annexb_def annexb_loop.simps[of "0xFF # 0xFF # 0xFF # x # rest"] Let_def)
qed

section \<open>Records are read as they are written\<close>

lemma get_at: "drop i bs = b # rest \<Longrightarrow> get bs i = Some b"
  by (cases "i < length bs") (simp_all add: get_def Cons_nth_drop_Suc[symmetric])

lemma drop_more: "drop i bs = xs @ rest \<Longrightarrow> drop (i + length xs) bs = rest"
  by (metis add.commute append_eq_conv_conj drop_drop)

lemma get16_at: "drop i bs = be_bytes 2 n @ rest \<Longrightarrow> n < 65536 \<Longrightarrow> get16 bs i = Some n"
  using get_at[of i bs "of_nat (n div 256)" "of_nat n # rest"] get_at[of "i + 1" bs "of_nat n" rest]
    drop_more[of i bs "[of_nat (n div 256)]" "of_nat n # rest"]
  by (simp add: get16_def unat_low)

lemma get_range_at: "drop i bs = xs @ rest \<Longrightarrow> i \<le> length bs \<Longrightarrow> get_range bs i (i + length xs) = Some xs"
proof -
  assume a: "drop i bs = xs @ rest" "i \<le> length bs"
  have "length bs - i = length xs + length rest"
    using arg_cong[OF a(1), of length] by simp
  with a(2) have "i + length xs \<le> length bs" by linarith
  with a show ?thesis
    by (simp add: get_range_def)
qed

lemma param_sets_units:
  assumes "drop i cp = concat (map (prefixed 2) nals) @ rest" "\<forall>nal \<in> set nals. length nal < 65536"
  shows "param_sets cp (length nals) i out = Some (i + length (concat (map (prefixed 2) nals)), out @ start_coded nals)"
  using assms
proof (induction nals arbitrary: i out)
  case (Cons nal nals)
  let ?rest = "concat (map (prefixed 2) nals) @ rest"
  have d: "drop i cp = be_bytes 2 (length nal) @ nal @ ?rest"
    using Cons.prems(1) by (simp add: prefixed_def[of 2 nal])
  have l: "length nal < 65536"
    using Cons.prems(2) by simp
  have 2: "drop (i + 2) cp = nal @ ?rest"
    using drop_more[OF d] by simp
  have "i + 2 \<le> length cp"
    using arg_cong[OF d, of length] by simp
  with get_range_at[OF 2] have "get_range cp (i + 2) (i + 2 + length nal) = Some nal"
    by simp
  with get16_at[OF d l] Cons.IH[OF drop_more[OF 2]] Cons.prems(2) show ?case
    by (simp add: start_coded_def add.assoc)
qed (simp add: start_coded_def)

text \<open>
  The H.264 record of any parameter sets is read as those sets, sequence sets first,
  start-coded, and the width of the length prefix; what follows them is ignored.
\<close>

theorem parse_avcc_exact:
  assumes "length h = 4" "unat (n AND 0x1f) = length sps" "length pps < 256" "\<forall>nal \<in> set (sps @ pps). length nal < 65536"
  shows "parse_avcc (h @ [b, n] @ concat (map (prefixed 2) sps) @ [of_nat (length pps)] @ concat (map (prefixed 2) pps) @ rest)
    = Some (start_coded (sps @ pps), unat (b AND 0x03) + 1)"
proof -
  let ?tail = "concat (map (prefixed 2) pps) @ rest"
  let ?cp = "h @ [b, n] @ concat (map (prefixed 2) sps) @ [of_nat (length pps)] @ ?tail"
  have s: "drop 6 ?cp = concat (map (prefixed 2) sps) @ [of_nat (length pps)] @ ?tail" "?cp ! 4 = b" "?cp ! 5 = n"
    using assms(1) by (simp_all add: nth_append)
  let ?i = "6 + length (concat (map (prefixed 2) sps))"
  note p = drop_more[OF s(1)]
  have "param_sets ?cp (length sps) 6 [] = Some (?i, start_coded sps)"
    using param_sets_units[OF s(1), of "[]"] assms(4) by simp
  moreover have "get ?cp ?i = Some (of_nat (length pps))"
    using p by (intro get_at) simp
  moreover have "drop (?i + 1) ?cp = ?tail"
    using drop_more[of ?i ?cp "[of_nat (length pps)]" ?tail] p by simp
  then have "param_sets ?cp (length pps) (?i + 1) (start_coded sps) =
      Some (?i + 1 + length (concat (map (prefixed 2) pps)), start_coded sps @ start_coded pps)"
    using assms(4) by (intro param_sets_units) simp_all
  moreover have "\<not> length ?cp < 7"
    using assms(1) by simp
  ultimately show ?thesis
    using assms(2,3) s(2,3) unfolding parse_avcc_def by (simp add: Let_def start_coded_def unat_low)
qed

definition array_bytes :: "u8 \<times> u8 list list \<Rightarrow> u8 list" where
  "array_bytes a = fst a # be_bytes 2 (length (snd a)) @ concat (map (prefixed 2) (snd a))"

lemma set_arrays_exact:
  assumes "drop i cp = concat (map array_bytes arrays) @ rest"
    and "\<forall>a \<in> set arrays. length (snd a) < 65536 \<and> (\<forall>nal \<in> set (snd a). length nal < 65536)"
  shows "set_arrays cp (length arrays) i out = Some (out @ start_coded (concat (map snd arrays)))"
  using assms
proof (induction arrays arbitrary: i out)
  case (Cons a arrays)
  let ?rest = "concat (map array_bytes arrays) @ rest"
  have d: "drop i cp = [fst a] @ be_bytes 2 (length (snd a)) @ concat (map (prefixed 2) (snd a)) @ ?rest"
    using Cons.prems(1) by (simp add: array_bytes_def[of a])
  have l: "length (snd a) < 65536" "\<forall>nal \<in> set (snd a). length nal < 65536"
    using Cons.prems(2) by simp_all
  have 1: "drop (i + 1) cp = be_bytes 2 (length (snd a)) @ concat (map (prefixed 2) (snd a)) @ ?rest"
    using drop_more[OF d] by simp
  have 3: "drop (i + 3) cp = concat (map (prefixed 2) (snd a)) @ ?rest"
    using drop_more[OF 1] by (simp add: numeral_3_eq_3)
  from get16_at[OF 1 l(1)] param_sets_units[OF 3 l(2)] Cons.IH[OF drop_more[OF 3]] Cons.prems(2) show ?case
    by (simp add: start_coded_def)
qed (simp add: start_coded_def)

text \<open>
  The H.265 record of any arrays of parameter sets is read as all their sets in order,
  start-coded, and the width of the length prefix.
\<close>

theorem parse_hvcc_exact:
  assumes "length h = 21" "length arrays < 256"
    and "\<forall>a \<in> set arrays. length (snd a) < 65536 \<and> (\<forall>nal \<in> set (snd a). length nal < 65536)"
  shows "parse_hvcc (h @ [b, of_nat (length arrays)] @ concat (map array_bytes arrays) @ rest)
    = Some (start_coded (concat (map snd arrays)), unat (b AND 0x03) + 1)"
proof -
  let ?cp = "h @ [b, of_nat (length arrays)] @ concat (map array_bytes arrays) @ rest"
  have "drop 23 ?cp = concat (map array_bytes arrays) @ rest" "get ?cp 21 = Some b" "get ?cp 22 = Some (of_nat (length arrays))"
    using assms(1) by (simp_all add: get_def nth_append)
  with set_arrays_exact[of 23 ?cp arrays rest "[]"] assms(2,3) show ?thesis
    unfolding parse_hvcc_def by (simp add: unat_low)
qed

theorem to_annexb_exact_witness:
  "to_annexb [0, 0, 0, 2, 0x65, 7, 0, 0, 0, 1, 9, 0] 4 [0, 0, 0, 1, 0x67] True
    = Some [0, 0, 0, 1, 0x67, 0, 0, 0, 1, 0x65, 7, 0, 0, 0, 1, 9]"
  using to_annexb_exact[of "[[0x65, 7], [9]]" 4 "[0]" "[0, 0, 0, 1, 0x67]" True]
  by (simp add: prefixed_def start_coded_def START_def)

theorem to_annexb_wraps_witness: "to_annexb [0xFF, 0xFF, 0xFF, 0xFF, 0x65] 4 [] False = None"
  by (rule to_annexb_wraps) simp

theorem parse_avcc_exact_witness:
  "parse_avcc [1, 100, 0, 31, 0xFF, 0xE1, 0, 2, 0x67, 1, 1, 0, 1, 0x68] = Some ([0, 0, 0, 1, 0x67, 1, 0, 0, 0, 1, 0x68], 4)"
  using parse_avcc_exact[of "[1, 100, 0, 31]" "0xE1" "[[0x67, 1]]" "[[0x68]]" "0xFF" "[]"]
  by (simp add: prefixed_def start_coded_def START_def)

theorem parse_hvcc_exact_witness:
  "parse_hvcc (replicate 21 0 @ [0xFF, 1, 0x20, 0, 1, 0, 2, 0x40, 1]) = Some ([0, 0, 0, 1, 0x40, 1], 4)"
  using parse_hvcc_exact[of "replicate 21 0" "[(0x20, [[0x40, 1]])]" "0xFF" "[]"]
  by (simp add: prefixed_def array_bytes_def start_coded_def START_def)

end
