(* ===== verification/Pcm.thy ===== *)
theory Pcm
  imports Floats "HOL-Library.Monad_Syntax"
begin

text \<open>
  The sample arithmetic of the media engine (\<open>wandr-media-engine/src/lib.rs\<close>):
  folding any channel layout to interleaved stereo, and the linear resampler to the
  device's 48 kHz.  Samples are \<open>f32\<close>, positions \<open>f64\<close>, both rounded.
\<close>

section \<open>Stereo\<close>

definition OUT_RATE :: nat where "OUT_RATE = 48000"

definition frame_at :: "'a list \<Rightarrow> nat \<Rightarrow> nat \<Rightarrow> 'a list" where
  "frame_at samples ch f = take ch (drop (f * ch) samples)"

text \<open>\<open>samples.get(i)\<close>, or silence.\<close>

definition at_or_zero :: "fp list \<Rightarrow> nat \<Rightarrow> fp" where
  "at_or_zero xs i = (if i < length xs then xs ! i else Fin False 0)"

definition fold_gain :: fp where "fold_gain = fp_of_rat f32 (707 / 1000)"

definition unit_clamp :: "fp \<Rightarrow> fp" where "unit_clamp = fclamp (Fin True 1) (Fin False 1)"

definition downmix_to_stereo :: "fp list \<Rightarrow> nat \<Rightarrow> fp list" where
  "downmix_to_stereo samples ch =
     (if ch = 0 then []
      else if ch = 1 then concat (map (\<lambda>s. [s, s]) samples)
      else if ch = 2 then samples
      else concat (map (\<lambda>f.
        (let g = (\<lambda>i. at_or_zero samples (f * ch + i));
             side = (\<lambda>front back. unit_clamp (fadd f32 (fadd f32 front (fmul f32 fold_gain (g 2))) (fmul f32 fold_gain back)))
         in [side (g 0) (g 4), side (g 1) (g 5)])) [0..<length samples div ch]))"

definition f32_ilv_to_stereo :: "fp list \<Rightarrow> nat \<Rightarrow> fp list" where
  "f32_ilv_to_stereo pcm ch =
     (if ch = 0 then []
      else if ch = 2 then pcm
      else concat (map (\<lambda>f. [pcm ! (f * ch), if ch = 1 then pcm ! (f * ch) else pcm ! (f * ch + 1)]) [0..<length pcm div ch]))"

text \<open>\<open>s as f32 / 32768.0\<close>.\<close>

definition i16_sample :: "int \<Rightarrow> fp" where
  "i16_sample s = fdiv f32 (fp_of_rat f32 (of_int s)) (fp_of_nat f32 32768)"

definition i16_ilv_to_stereo_f32 :: "int list \<Rightarrow> nat \<Rightarrow> fp list" where
  "i16_ilv_to_stereo_f32 pcm ch =
     (if ch = 0 then []
      else concat (map (\<lambda>f.
        if ch = 1 then [i16_sample (pcm ! (f * ch)), i16_sample (pcm ! (f * ch))]
        else [i16_sample (pcm ! (f * ch)), i16_sample (pcm ! (f * ch + 1))]) [0..<length pcm div ch]))"

section \<open>The resampler\<close>

record LinearResampler =
  rs_src :: nat
  rs_step :: fp
  rs_ch :: nat
  rs_pos :: fp
  rs_last :: "fp list"

definition resampler_new :: "nat \<Rightarrow> nat \<Rightarrow> LinearResampler" where
  "resampler_new src ch = \<lparr>rs_src = src, rs_step = fdiv f64 (fp_of_nat f64 src) (fp_of_nat f64 OUT_RATE), rs_ch = ch,
     rs_pos = Fin False 0, rs_last = replicate ch (Fin False 0)\<rparr>"

text \<open>The casts \<open>floor() as usize\<close> and \<open>as f32\<close>.\<close>

fun floor_index :: "fp \<Rightarrow> nat" where
  "floor_index (Fin s m) = nat \<lfloor>val (Fin s m)\<rfloor>"
| "floor_index (Inf s) = (if s then 0 else 2 ^ 32 - 1)"
| "floor_index NaN = 0"

fun to_f32 :: "fp \<Rightarrow> fp" where
  "to_f32 (Fin s m) = mk f32 s m"
| "to_f32 x = x"

text \<open>
  One output frame, between the input frame before the position and the one after it.  An index
  out of range is a panic, \<open>None\<close>.
\<close>

definition interpolate :: "nat \<Rightarrow> fp list \<Rightarrow> fp list \<Rightarrow> fp \<Rightarrow> fp list option" where
  "interpolate ch last_frame input pos =
     (let i = floor_index pos; frac = to_f32 (fsub f64 pos (fp_of_nat f64 i)) in
      those (map (\<lambda>c. do {
                   a \<leftarrow> (if i = 0 then nth_opt last_frame c else nth_opt input ((i - 1) * ch + c));
                   b \<leftarrow> nth_opt input (i * ch + c);
                   Some (fadd f32 a (fmul f32 (fsub f32 b a) frac))
                 }) [0..<ch]))"

partial_function (option) resample_loop :: "fp \<Rightarrow> nat \<Rightarrow> fp list \<Rightarrow> fp list \<Rightarrow> nat \<Rightarrow> fp \<Rightarrow> fp list \<Rightarrow> (fp list \<times> fp) option" where
  "resample_loop step ch last_frame input n pos out =
     (if flt pos (fp_of_nat f64 n) then
        Option.bind (interpolate ch last_frame input pos) (\<lambda>fr.
          resample_loop step ch last_frame input n (fadd f64 pos step) (out @ fr))
      else Some (out, pos))"

declare resample_loop.simps [simp del]

text \<open>
  A panic is \<open>None\<close>, and so is a loop without an end: a division by zero channels, an index
  out of range, and a copy between slices of different lengths.  The buffer of the output is taken
  to be allocated.
\<close>

definition process :: "LinearResampler \<Rightarrow> fp list \<Rightarrow> (fp list \<times> LinearResampler) option" where
  "process r input =
     (let ch = rs_ch r; n = length input div ch in
      if ch = 0 then None
      else if n = 0 then Some ([], r)
      else do {
        (out, pos) \<leftarrow> resample_loop (rs_step r) ch (rs_last r) input n (rs_pos r) [];
        let slice = take ch (drop ((n - 1) * ch) input);
        if length (rs_last r) = length slice
        then Some (out, r\<lparr>rs_last := slice, rs_pos := fsub f64 pos (fp_of_nat f64 n)\<rparr>)
        else None
      })"

section \<open>Rounding errors\<close>

lemma round_even_error: "\<bar>of_int (round_even x) - x\<bar> \<le> 1 / 2"
proof -
  define r where "r = x - of_int \<lfloor>x\<rfloor>"
  have r: "0 \<le> r" "r < 1" "x = of_int \<lfloor>x\<rfloor> + r"
    unfolding r_def by linarith+
  have "round_even x = (if r < 1 / 2 then \<lfloor>x\<rfloor> else if 1 / 2 < r then \<lfloor>x\<rfloor> + 1 else if even \<lfloor>x\<rfloor> then \<lfloor>x\<rfloor> else \<lfloor>x\<rfloor> + 1)"
    by (simp add: round_even_def Let_def r_def)
  then have "of_int (round_even x) - x = - r \<and> r \<le> 1 / 2 \<or> of_int (round_even x) - x = 1 - r \<and> 1 / 2 \<le> r"
    using r(3) by (auto split: if_splits)
  then show ?thesis
    using r(1,2) by auto
qed

lemma round_even_nonneg: "0 \<le> x \<Longrightarrow> 0 \<le> round_even x"
  by (simp add: round_even_def Let_def)

lemma powb_mono: "i \<le> j \<Longrightarrow> powb 2 i \<le> powb 2 j"
  using powb_less_iff[of 2 i j] by (cases "i = j") simp_all

text \<open>Below \<open>2 ^ 32\<close> a double is at most \<open>2 ^ -22\<close> away from the number it rounds.\<close>

lemma rnd_f64_error:
  assumes "0 \<le> x" "x < 2 ^ 32"
  shows "\<exists>v. rnd f64 x = Some v \<and> \<bar>v - x\<bar> \<le> 1 / 2 ^ 22 \<and> 0 \<le> v"
proof (cases "x = 0")
  case False
  let ?e = "max (flog 2 x - 52) (- 1074)"
  let ?v = "of_int (round_even (x / powb 2 ?e)) * powb 2 ?e"
  have "flog 2 x < 32"
    using assms False by (intro flog_less) (simp_all add: powb_def)
  then have "powb 2 ?e \<le> powb 2 (- 21)"
    by (intro powb_mono) simp
  then have e: "0 < powb 2 ?e" "powb 2 ?e \<le> 1 / 2 ^ 21"
    by (simp_all add: powb_def)
  have "\<bar>?v - x\<bar> = \<bar>of_int (round_even (x / powb 2 ?e)) - x / powb 2 ?e\<bar> * powb 2 ?e"
    using abs_of_pos[OF e(1)] less_imp_neq[OF e(1)] abs_mult[of "of_int (round_even (x / powb 2 ?e)) - x / powb 2 ?e" "powb 2 ?e"] by (simp add: left_diff_distrib)
  also have "\<dots> \<le> 1 / 2 * (1 / 2 ^ 21)"
    using round_even_error[of "x / powb 2 ?e"] e less_imp_le[OF e(1)] by (intro mult_mono) simp_all
  finally have v: "\<bar>?v - x\<bar> \<le> 1 / 2 ^ 22" by simp
  have "(2::rat) ^ 33 \<le> powb 2 1024"
    by (simp add: powb_def)
  then have "\<not> powb 2 1024 \<le> ?v"
    using abs_le_D1[OF v] assms(2) by simp
  then have "rnd f64 x = Some ?v"
    using False by (simp add: rnd_def f64_def Let_def)
  moreover have "0 \<le> ?v"
    using assms(1) less_imp_le[OF e(1)] round_even_nonneg[of "x / powb 2 ?e"] by (intro mult_nonneg_nonneg) simp_all
  ultimately show ?thesis
    using v by blast
qed (simp add: rnd_def)

lemma fadd_f64_near:
  assumes "0 \<le> p" "0 \<le> q" "p + q < 2 ^ 32"
  shows "\<exists>v. fadd f64 (Fin False p) (Fin False q) = Fin False v \<and> \<bar>v - (p + q)\<bar> \<le> 1 / 2 ^ 22 \<and> 0 \<le> v"
  using rnd_f64_error[of "p + q"] assms by (auto simp: mk_signed_def mk_def)

lemma fsub_f64_near:
  assumes "0 \<le> q" "q \<le> p" "p < 2 ^ 32"
  shows "\<exists>v. fsub f64 (Fin False p) (Fin False q) = Fin False v \<and> \<bar>v - (p - q)\<bar> \<le> 1 / 2 ^ 22 \<and> 0 \<le> v"
  using rnd_f64_error[of "p - q"] assms by (auto simp: fsub_def mk_signed_def mk_def)

lemma fp_of_nat_f64: "n < 2 ^ 53 \<Longrightarrow> fp_of_nat f64 n = Fin False (of_nat n)"
  using rnd_nat[of n f64] by (simp add: fp_of_nat_def mk_def f64_def)

section \<open>The resampler returns\<close>

definition step_ok :: "rat \<Rightarrow> bool" where
  "step_ok q \<longleftrightarrow> 1 / 2 ^ 16 \<le> q \<and> q \<le> 2 ^ 17"

definition rs_ok :: "LinearResampler \<Rightarrow> bool" where
  "rs_ok r \<longleftrightarrow> (\<exists>q p. rs_step r = Fin False q \<and> step_ok q \<and> rs_pos r = Fin False p \<and> 0 \<le> p \<and> p < 2 ^ 18) \<and> 0 < rs_ch r
     \<and> length (rs_last r) = rs_ch r"

lemma frame_in_range: "f < n div ch \<Longrightarrow> i < ch \<Longrightarrow> f * ch + i < n" for f n ch i :: nat
proof -
  assume "f < n div ch" "i < ch"
  then have "Suc f * ch \<le> n div ch * ch" by (intro mult_le_mono1) simp
  also have "\<dots> \<le> n" by simp
  finally show ?thesis using \<open>i < ch\<close> by simp
qed

lemma floor_index_in_range: "0 \<le> p \<Longrightarrow> p < of_nat n \<Longrightarrow> floor_index (Fin False p) < n"
  by (simp add: nat_less_iff floor_less_iff)

lemma those_total: "\<forall>x \<in> set xs. f x \<noteq> None \<Longrightarrow> \<exists>ys. those (map f xs) = Some ys \<and> length ys = length xs"
  by (induction xs) auto

text \<open>No index is out of range while the position is within the block.\<close>

lemma interpolate_total:
  assumes "0 \<le> p" "p < of_nat (length input div ch)" "length l = ch"
  shows "\<exists>fr. interpolate ch l input (Fin False p) = Some fr \<and> length fr = ch"
proof -
  let ?i = "floor_index (Fin False p)"
  have i: "?i < length input div ch" by (rule floor_index_in_range[OF assms(1,2)])
  have "?i * ch + c < length input" "(?i - 1) * ch + c < length input" if "c < ch" for c
    using frame_in_range[OF i that] frame_in_range[OF less_imp_diff_less[OF i] that, of 1] by simp_all
  with assms(3) show ?thesis
    unfolding interpolate_def Let_def
    by (intro those_total[of "[0..<ch]", simplified]) (auto simp: nth_opt_def simp del: floor_index.simps)
qed

lemma resample_loop_ends:
  assumes "n = length input div ch" "length l = ch" and "step_ok q" "n < 2 ^ 31" "0 \<le> p" "p < 2 ^ 31 + 2 ^ 18" "p < of_nat n \<or> p \<le> of_nat n + 2 ^ 18 - 1" "ch dvd length out"
  shows "\<exists>out' p'. resample_loop (Fin False q) ch l input n (Fin False p) out = Some (out', Fin False p')
    \<and> of_nat n \<le> p' \<and> p' \<le> of_nat n + 2 ^ 18 - 1 \<and> ch dvd length out'"
  using assms(5-)
proof (induction "nat \<lceil>(of_nat n - p) * 2 ^ 17\<rceil>" arbitrary: p out rule: less_induct)
  case less
  have f: "fp_of_nat f64 n = Fin False (of_nat n)"
    using assms(4) by (intro fp_of_nat_f64) simp
  show ?case
  proof (cases "p < of_nat n")
    case False
    with f less.prems show ?thesis
      by (auto simp: resample_loop.simps[of "Fin False q" ch l input n])
  next
    case True
    have "p + q < 2 ^ 32" "0 \<le> q"
      using less.prems(2) assms(3) by (simp_all add: step_ok_def)
    then obtain v where v: "fadd f64 (Fin False p) (Fin False q) = Fin False v" "\<bar>v - (p + q)\<bar> \<le> 1 / 2 ^ 22" "0 \<le> v"
      using fadd_f64_near[of p q] less.prems(1) by blast
    then have up: "p + 1 / 2 ^ 17 \<le> v" "v \<le> of_nat n + 2 ^ 18 - 1"
      using abs_le_D1[OF v(2)] abs_le_D2[OF v(2)] assms(3) True unfolding step_ok_def by simp_all
    have nb: "of_nat n < (2::rat) ^ 31"
      using assms(4) by (metis of_nat_less_iff of_nat_numeral of_nat_power)
    have "(of_nat n - v) * 2 ^ 17 \<le> (of_nat n - p) * 2 ^ 17 - 1"
      using up(1) by (simp add: field_simps)
    then have "\<lceil>(of_nat n - v) * 2 ^ 17\<rceil> \<le> \<lceil>(of_nat n - p) * 2 ^ 17\<rceil> - 1"
      by linarith
    moreover have "0 < \<lceil>(of_nat n - p) * 2 ^ 17\<rceil>"
      using True by simp
    ultimately have m: "nat \<lceil>(of_nat n - v) * 2 ^ 17\<rceil> < nat \<lceil>(of_nat n - p) * 2 ^ 17\<rceil>"
      by linarith
    obtain fr where fr: "interpolate ch l input (Fin False p) = Some fr" "length fr = ch"
      using interpolate_total[of p input ch l] less.prems(1) True assms(1,2) by blast
    then have "ch dvd length (out @ fr)"
      using less.prems(4) by simp
    from less.hyps[OF m v(3) _ _ this] up(2) nb obtain out' p' where
      "resample_loop (Fin False q) ch l input n (Fin False v) (out @ fr) = Some (out', Fin False p')
        \<and> of_nat n \<le> p' \<and> p' \<le> of_nat n + 2 ^ 18 - 1 \<and> ch dvd length out'"
      by auto
    moreover have "resample_loop (Fin False q) ch l input n (Fin False p) out
        = resample_loop (Fin False q) ch l input n (Fin False v) (out @ fr)"
      using True f v(1) fr(1) by (simp add: resample_loop.simps[of "Fin False q" ch l input n "Fin False p"])
    ultimately show ?thesis by metis
  qed
qed

lemma process_ok:
  assumes "rs_ok r" "length input < 2 ^ 31"
  shows "\<exists>out r'. process r input = Some (out, r') \<and> rs_ok r' \<and> rs_ch r' = rs_ch r \<and> rs_ch r dvd length out"
proof -
  let ?n = "length input div rs_ch r"
  obtain q p where r: "rs_step r = Fin False q" "step_ok q" "rs_pos r = Fin False p" "0 \<le> p" "p < 2 ^ 18" "0 < rs_ch r"
    "length (rs_last r) = rs_ch r"
    using assms(1) unfolding rs_ok_def by blast
  show ?thesis
  proof (cases "?n = 0")
    case True
    with assms(1) r(6) show ?thesis by (simp add: process_def)
  next
    case False
    have n: "?n < 2 ^ 31"
      using assms(2) div_le_dividend[of "length input" "rs_ch r"] by linarith
    have "(1::rat) \<le> of_nat ?n"
      using False by (metis One_nat_def Suc_leI neq0_conv of_nat_1 of_nat_le_iff)
    with r(5) have "p \<le> of_nat ?n + 2 ^ 18 - 1" by linarith
    then obtain out p' where l: "resample_loop (Fin False q) (rs_ch r) (rs_last r) input ?n (Fin False p) [] = Some (out, Fin False p')"
      "of_nat ?n \<le> p'" "p' \<le> of_nat ?n + 2 ^ 18 - 1" "rs_ch r dvd length out"
      using resample_loop_ends[OF refl r(7,2) n r(4), of "[]"] r(5) by auto
    have nb: "(of_nat ?n :: rat) < 2 ^ 31"
      using n by (metis of_nat_less_iff of_nat_numeral of_nat_power)
    then obtain v where v: "fsub f64 (Fin False p') (Fin False (of_nat ?n)) = Fin False v" "\<bar>v - (p' - of_nat ?n)\<bar> \<le> 1 / 2 ^ 22" "0 \<le> v"
      using fsub_f64_near[of "of_nat ?n" p'] l(2,3) by auto
    have "v < 2 ^ 18"
      using abs_le_D1[OF v(2)] l(3) by simp
    moreover have "rs_ch r + (?n - 1) * rs_ch r \<le> length input"
      using False by (metis add.commute add_diff_inverse_nat div_times_less_eq_dividend less_one mult_Suc plus_1_eq_Suc)
    then have "min (length input - (?n - 1) * rs_ch r) (rs_ch r) = rs_ch r"
      by linarith
    ultimately show ?thesis
      using l r v(1,3) False n fp_of_nat_f64[of ?n] unfolding process_def rs_ok_def
      by (simp add: Let_def)
  qed
qed

lemma resampler_new_ok: "0 < src \<Longrightarrow> src < 2 ^ 32 \<Longrightarrow> 0 < ch \<Longrightarrow> rs_ok (resampler_new src ch)"
proof -
  assume a: "0 < src" "src < 2 ^ 32" "0 < ch"
  let ?x = "of_nat src / 48000 :: rat"
  have s: "1 \<le> (of_nat src :: rat)" "(of_nat src :: rat) < 2 ^ 32"
    using a(1,2) by (simp, metis of_nat_less_iff of_nat_numeral of_nat_power)
  then obtain v where v: "rnd f64 ?x = Some v" "\<bar>v - ?x\<bar> \<le> 1 / 2 ^ 22"
    using rnd_f64_error[of ?x] by auto
  have "step_ok v"
    using abs_le_D1[OF v(2)] abs_le_D2[OF v(2)] s unfolding step_ok_def by simp_all
  moreover have "fp_of_nat f64 src = Fin False (of_nat src)" "fp_of_nat f64 OUT_RATE = Fin False 48000"
    using a(2) by (simp_all add: fp_of_nat_f64 OUT_RATE_def)
  ultimately show ?thesis
    using v(1) a(3) by (simp add: rs_ok_def resampler_new_def mk_def)
qed

inductive resampling :: "nat \<Rightarrow> nat \<Rightarrow> LinearResampler \<Rightarrow> bool" for src ch where
  Created: "resampling src ch (resampler_new src ch)"
| Fed: "resampling src ch r \<Longrightarrow> length input < 2 ^ 31 \<Longrightarrow> process r input = Some (out, r') \<Longrightarrow> resampling src ch r'"

text \<open>
  C25. For every source rate other than zero and any sequence of blocks the resampler returns: no
  index into the block or the last frame is out of range, the loop ends, since the position advances
  in spite of rounding by at least \<open>2 ^ -17\<close> a frame, and what it returns are whole frames.
\<close>

theorem process_returns:
  assumes "resampling src ch r" "0 < src" "src < 2 ^ 32" "0 < ch" "length input < 2 ^ 31"
  shows "\<exists>out r'. process r input = Some (out, r') \<and> ch dvd length out"
proof -
  have "rs_ok r \<and> rs_ch r = ch" using assms(1)
  proof (induction rule: resampling.induct)
    case Created
    show ?case using resampler_new_ok[OF assms(2-4)] by (simp add: resampler_new_def)
  next
    case (Fed r input out r')
    with process_ok[of r input] show ?case by auto
  qed
  with process_ok[of r input] assms(5) show ?thesis by auto
qed

section \<open>Frames stay apart, from six channels on\<close>

text \<open>What the left and the right output of one frame are meant to be.\<close>

definition fold_frame :: "fp list \<Rightarrow> fp list" where
  "fold_frame fr =
     (let side = (\<lambda>front back. unit_clamp (fadd f32 (fadd f32 front (fmul f32 fold_gain (at_or_zero fr 2))) (fmul f32 fold_gain back)))
      in [side (at_or_zero fr 0) (at_or_zero fr 4), side (at_or_zero fr 1) (at_or_zero fr 5)])"

text \<open>
  With six channels or more each output frame is folded from its own input frame: front, centre
  and back at -3 dB, clamped to the unit range.
\<close>

theorem downmix_frames:
  assumes "6 \<le> ch"
  shows "downmix_to_stereo samples ch = concat (map (\<lambda>f. fold_frame (frame_at samples ch f)) [0..<length samples div ch])"
proof -
  have g: "at_or_zero samples (f * ch + i) = at_or_zero (frame_at samples ch f) i" if "f < length samples div ch" "i < 6" for f i
  proof -
    have i: "i < ch" "f * ch + i < length samples"
      using that assms frame_in_range[of f "length samples" ch i] by simp_all
    moreover have "f * ch + (ch - 1) < length samples"
      using that(1) assms by (intro frame_in_range) simp_all
    ultimately show ?thesis
      by (simp add: at_or_zero_def frame_at_def)
  qed
  show ?thesis
    using assms by (auto simp: downmix_to_stereo_def fold_frame_def Let_def simp flip: g intro!: arg_cong[of _ _ concat])
qed

text \<open>
  With three channels they do not: the back channels, which there are not, are taken from
  the next frame, whose right channel is mixed into this frame's left one and whose centre
  into this frame's right one.
\<close>

theorem downmix_leaks:
  "take 2 (downmix_to_stereo ([l, r, c, l', r', c'] @ rest) 3) =
     [unit_clamp (fadd f32 (fadd f32 l (fmul f32 fold_gain c)) (fmul f32 fold_gain r')),
      unit_clamp (fadd f32 (fadd f32 r (fmul f32 fold_gain c)) (fmul f32 fold_gain c'))]"
  by (simp add: downmix_to_stereo_def at_or_zero_def Let_def upt_conv_Cons)

theorem process_returns_witness:
  "\<exists>out r'. process (resampler_new 44100 2) [Fin False 0, Fin False 0, Fin False 1, Fin False 1] = Some (out, r') \<and> 2 dvd length out"
  by (rule process_returns[OF Created]) simp_all

theorem downmix_frames_witness:
  "downmix_to_stereo (replicate 6 (Fin False 1) @ replicate 6 (Fin True 1)) 6 =
     fold_frame (replicate 6 (Fin False 1)) @ fold_frame (replicate 6 (Fin True 1))"
  using downmix_frames[of 6 "replicate 6 (Fin False 1) @ replicate 6 (Fin True 1)"]
  by (simp add: frame_at_def upt_conv_Cons)

end
