(* ===== verification/Player.thy ===== *)
theory Player
  imports MediaSeg AnnexB Pcm
begin

text \<open>
  The playback pipeline of the media engine (\<open>wandr-media-engine/src/lib.rs\<close>):
  \<open>fill_queues\<close> demuxes ahead of the clock, \<open>decode_audio\<close> turns packets into PCM,
  \<open>pump_stream\<close> runs once a frame and keeps the clock, feeds the audio device and the
  video decoder and schedules decoded frames, \<open>do_seek\<close> repositions everything.

  Demuxers, decoders and the audio device are \<open>MediaWorld\<close>; every question put to them is numbered.
  The reader's cache (\<open>HttpRange\<close>), which other tasks change in between, is asked in
  the same way.  What is done to the device, the decoder and the surface is the log \<open>acts\<close>.
  \<open>None\<close> is a panic or a loop that does not end.

  Times are numbers without bound: no sum leaves 64 bits for media times and clocks below
  \<open>2 ^ 62\<close>.
\<close>

section \<open>The outside\<close>

record EncodedChunk =
  ck_data :: "u8 list"
  ck_timestamp :: int
  ck_keyframe :: bool

datatype Submitted = Accepted | QueueFull | Refused

record SymPacket =
  sy_track :: nat
  sy_pts :: int
  sy_data :: "u8 list"

text \<open>
  \<open>m_video\<close>: built with the feature \<open>video\<close>.  \<open>m_shared\<close>: the reader's cache.
  \<open>m_packet\<close>, \<open>m_seek\<close>: \<open>next_packet\<close> and \<open>seek_to\<close> of an \<open>oxideav\<close>
  demuxer; \<open>m_sym\<close>, \<open>m_symseek\<close>: those of \<open>symphonia\<close>, where \<open>Some None\<close> is the end.
  \<open>m_aac\<close>, \<open>m_opus\<close>, \<open>m_ac3\<close>: the decoders: interleaved samples with the
  number of channels, the sample buffer with the number of frames, bytes with the number of frames.
  \<open>m_buffered\<close>, \<open>m_position\<close>, \<open>m_write\<close>: the device, \<open>None\<close> without one.
  \<open>m_decoded\<close>: the time stamp of the next decoded frame.
\<close>

record MediaWorld =
  m_video :: bool
  m_net :: MediaNet
  m_shared :: "nat \<Rightarrow> ReaderShared"
  m_packet :: "nat \<Rightarrow> Packet option"
  m_seek :: "nat \<Rightarrow> nat \<Rightarrow> int \<Rightarrow> int option"
  m_sym :: "nat \<Rightarrow> SymPacket option option"
  m_symseek :: "nat \<Rightarrow> int \<Rightarrow> nat \<Rightarrow> int option"
  m_aac :: "nat \<Rightarrow> u8 list \<Rightarrow> (fp list \<times> nat) option"
  m_opus :: "nat \<Rightarrow> u8 list \<Rightarrow> (fp list \<times> nat) option"
  m_ac3 :: "nat \<Rightarrow> u8 list \<Rightarrow> (u8 list \<times> nat) option"
  m_buffered :: "nat \<Rightarrow> nat option"
  m_position :: "nat \<Rightarrow> nat option"
  m_write :: "nat \<Rightarrow> fp list \<Rightarrow> nat option"
  m_submit :: "nat \<Rightarrow> EncodedChunk \<Rightarrow> Submitted"
  m_decoded :: "nat \<Rightarrow> int option"

datatype PlayAct =
    DevPause | DevStart | DevFlush
  | DevWrite "fp list" nat
  | DecSubmit EncodedChunk | DecFlush | DecReset | DecFrame int
  | SurfPresent int nat

section \<open>The player\<close>

record VFrame =
  vf_pts :: int
  vf_key :: bool
  vf_data :: "u8 list"

record AFrame =
  af_pts :: int
  af_data :: "u8 list"

record OxSource =
  video_stream :: nat
  audio_stream :: nat
  v_num :: int
  v_den :: int
  a_num :: int
  a_den :: int

record SymSource =
  sym_track :: nat
  sym_num :: int
  sym_den :: int

datatype 'd Demux = Ox OxSource | Fmp4 "'d SegStream" "'d SegStream option" | Audio SymSource

datatype AudioDec = Aac | Opus nat | Ac3 | Sym

record Controls =
  c_paused :: bool
  c_muted :: bool
  c_volume :: fp
  controls_until_ns :: nat
  controls_bump :: bool

record 'd StreamPlayer =
  demux :: "'d Demux"
  ps_prefix :: "u8 list"
  nal_len :: nat
  video_annexb :: bool
  video_q :: "VFrame list"
  audio_q :: "AFrame list"
  demux_done :: bool
  submitted :: nat
  presented :: nat
  last_pres_pts :: int
  t0_ns :: nat
  first_pts_us :: "int option"
  origin_ns :: nat
  flushed :: bool
  play_done :: bool
  duration_us :: int
  clock_us :: int
  audio_pos_us :: int
  audio_dec :: "AudioDec option"
  has_audio :: bool
  resampler :: "LinearResampler option"
  dev_start :: nat
  dev_start_set :: bool
  audio_started :: bool
  audio_start_ns :: nat
  audio_first_pts_us :: int
  audio_first_pts_known :: bool
  audio_pts_known :: bool
  pending_pcm :: "fp list"
  prefetch :: bool
  paused :: bool
  paused_at_ns :: nat
  acts :: "PlayAct list"
  calls :: nat

definition perform :: "PlayAct \<Rightarrow> 'd StreamPlayer \<Rightarrow> 'd StreamPlayer" where
  "perform a p = p\<lparr>acts := acts p @ [a]\<rparr>"

definition ask :: "(nat \<Rightarrow> 'a) \<Rightarrow> 'd StreamPlayer \<Rightarrow> 'a \<times> 'd StreamPlayer" where
  "ask f p = (f (calls p), p\<lparr>calls := Suc (calls p)\<rparr>)"

definition DECODE_AHEAD :: nat where "DECODE_AHEAD = 20"
definition LOOKAHEAD_US :: int where "LOOKAHEAD_US = 4000000"
definition VQ_CAP :: nat where "VQ_CAP = 150"
definition AQ_CAP :: nat where "AQ_CAP = 250"
definition FILL_GATE_MARGIN :: nat where "FILL_GATE_MARGIN = 256 * 1024"
definition SUBMIT_LEAD_US :: int where "SUBMIT_LEAD_US = 2000000"
definition LATE_DROP_US :: int where "LATE_DROP_US = 150000"

text \<open>\<open>install_player\<close> and \<open>install_audio_player\<close>, with what the opening has found.\<close>

definition install_player :: "'d Demux \<Rightarrow> u8 list \<Rightarrow> nat \<Rightarrow> bool \<Rightarrow> AudioDec option \<Rightarrow> LinearResampler option \<Rightarrow> int \<Rightarrow> bool \<Rightarrow> 'd StreamPlayer" where
  "install_player dx ps nl annexb dec rs dur pre =
     \<lparr>demux = dx, ps_prefix = ps, nal_len = nl, video_annexb = annexb, video_q = [], audio_q = [], demux_done = False,
      submitted = 0, presented = 0, last_pres_pts = 0, t0_ns = 0, first_pts_us = None, origin_ns = 0, flushed = False, play_done = False,
      duration_us = dur, clock_us = 0, audio_pos_us = 0, audio_dec = dec, has_audio = (dec \<noteq> None), resampler = rs,
      dev_start = 0, dev_start_set = False, audio_started = False, audio_start_ns = 0, audio_first_pts_us = 0,
      audio_first_pts_known = False, audio_pts_known = False, pending_pcm = [], prefetch = pre, paused = False, paused_at_ns = 0,
      acts = [DevFlush], calls = 0\<rparr>"

section \<open>Demuxing\<close>

datatype Prod = Frame int bool | Skip | Stop

definition push_video :: "'d StreamPlayer \<Rightarrow> int \<Rightarrow> bool \<Rightarrow> u8 list \<Rightarrow> 'd StreamPlayer option" where
  "push_video p pts kf bytes =
     Option.bind (if video_annexb p then to_annexb bytes (nal_len p) (ps_prefix p) kf else Some bytes) (\<lambda>data.
       Some (p\<lparr>video_q := video_q p @ [\<lparr>vf_pts = pts, vf_key = kf, vf_data = data\<rparr>]\<rparr>))"

definition push_audio :: "'d StreamPlayer \<Rightarrow> int \<Rightarrow> u8 list \<Rightarrow> 'd StreamPlayer" where
  "push_audio p pts bytes = p\<lparr>audio_q := audio_q p @ [\<lparr>af_pts = pts, af_data = bytes\<rparr>]\<rparr>"

definition produce_ox :: "MediaWorld \<Rightarrow> bool \<Rightarrow> OxSource \<Rightarrow> 'd StreamPlayer \<Rightarrow> (Prod \<times> 'd StreamPlayer) option" where
  "produce_ox w at_eof src p =
     (case ask (m_packet w) p of
        (Some pkt, p) \<Rightarrow>
          if pk_stream pkt = video_stream src then
            (case seg_frame (v_num src) (v_den src) pkt of
               (pts, kf, bytes) \<Rightarrow> Option.bind (push_video p pts kf bytes) (\<lambda>p. Some (Frame pts True, p)))
          else if pk_stream pkt = audio_stream src then
            (case seg_frame (a_num src) (a_den src) pkt of (pts, _, bytes) \<Rightarrow> Some (Frame pts False, push_audio p pts bytes))
          else Some (Skip, p)
      | (None, p) \<Rightarrow> Some (Stop, if at_eof then p\<lparr>demux_done := True\<rparr> else p))"

definition produce_sym :: "MediaWorld \<Rightarrow> bool \<Rightarrow> SymSource \<Rightarrow> 'd StreamPlayer \<Rightarrow> Prod \<times> 'd StreamPlayer" where
  "produce_sym w at_eof src p =
     (case ask (m_sym w) p of
        (Some (Some pkt), p) \<Rightarrow>
          if sy_track pkt = sym_track src then
            (let pts = ticks_to_us (sy_pts pkt) (sym_num src) (sym_den src) in (Frame pts False, push_audio p pts (sy_data pkt)))
          else (Skip, p)
      | (Some None, p) \<Rightarrow> (Stop, p\<lparr>demux_done := True\<rparr>)
      | (None, p) \<Rightarrow> (Stop, if at_eof then p\<lparr>demux_done := True\<rparr> else p))"

text \<open>Of the two representations of a DASH stream, the one that is behind.\<close>

definition produce_fmp4 ::
    "'d Demuxers \<Rightarrow> MediaWorld \<Rightarrow> bool \<Rightarrow> bool \<Rightarrow> int \<Rightarrow> int \<Rightarrow> int \<Rightarrow> 'd SegStream \<Rightarrow> 'd SegStream option \<Rightarrow> 'd StreamPlayer
      \<Rightarrow> (Prod \<times> 'd StreamPlayer) option" where
  "produce_fmp4 ops w v_full a_full limit last_v last_a v a p =
     (let audio_done = (case a of Some s \<Rightarrow> seg_done s | None \<Rightarrow> True);
          v_left = (\<not> seg_done v \<and> \<not> v_full \<and> last_v \<le> limit);
          a_left = (a \<noteq> None \<and> \<not> audio_done \<and> \<not> a_full \<and> last_a \<le> limit)
      in if v_left \<and> (\<not> a_left \<or> last_v \<le> last_a) then
           (case next_packet ops (m_net w) v of
              (Some (pts, kf, bytes), v') \<Rightarrow>
                Option.bind (push_video (p\<lparr>demux := Fmp4 v' a\<rparr>) pts kf bytes) (\<lambda>p. Some (Frame pts True, p))
            | (None, v') \<Rightarrow> Some (Skip, p\<lparr>demux := Fmp4 v' a\<rparr>))
         else if a_left then
           (case next_packet ops (m_net w) (the a) of
              (Some (pts, kf, bytes), a') \<Rightarrow> Some (Frame pts False, push_audio (p\<lparr>demux := Fmp4 v (Some a')\<rparr>) pts bytes)
            | (None, a') \<Rightarrow> Some (Skip, p\<lparr>demux := Fmp4 v (Some a')\<rparr>))
         else Some (Stop, if seg_done v \<and> (a = None \<or> audio_done) then p\<lparr>demux_done := True\<rparr> else p))"

definition produce ::
    "'d Demuxers \<Rightarrow> MediaWorld \<Rightarrow> bool \<Rightarrow> bool \<Rightarrow> int \<Rightarrow> int \<Rightarrow> int \<Rightarrow> bool \<Rightarrow> 'd StreamPlayer \<Rightarrow> (Prod \<times> 'd StreamPlayer) option" where
  "produce ops w v_full a_full limit last_v last_a at_eof p =
     (case demux p of
        Ox src \<Rightarrow> produce_ox w at_eof src p
      | Audio src \<Rightarrow> Some (produce_sym w at_eof src p)
      | Fmp4 v a \<Rightarrow> produce_fmp4 ops w v_full a_full limit last_v last_a v a p)"

text \<open>Whether the prefetch is too far behind for another packet, and whether the reader is at its end.\<close>

definition gated :: "MediaWorld \<Rightarrow> 'd StreamPlayer \<Rightarrow> bool \<times> 'd StreamPlayer" where
  "gated w p =
     (if prefetch p then
        (case ask (\<lambda>n. ready_ahead (m_shared w n)) p of ((ahead, at_eof), p) \<Rightarrow> (\<not> at_eof \<and> ahead < FILL_GATE_MARGIN, p))
      else (False, p))"

definition demux_at_eof :: "MediaWorld \<Rightarrow> 'd StreamPlayer \<Rightarrow> bool \<times> 'd StreamPlayer" where
  "demux_at_eof w p = (if prefetch p then ask (\<lambda>n. snd (ready_ahead (m_shared w n))) p else (True, p))"

text \<open>One turn of the loop; the numbers are the last time demuxed of each track.\<close>

definition fill_turn ::
    "'d Demuxers \<Rightarrow> MediaWorld \<Rightarrow> int \<Rightarrow> int \<Rightarrow> int \<Rightarrow> 'd StreamPlayer \<Rightarrow> ('d StreamPlayer + int \<times> int \<times> 'd StreamPlayer) option" where
  "fill_turn ops w limit last_v last_a p =
     (let (stop, p) = gated w p;
          v_full = (\<not> m_video w \<or> VQ_CAP \<le> length (video_q p));
          a_full = (AQ_CAP \<le> length (audio_q p))
      in if stop \<or> v_full \<and> a_full then Some (Inl p)
         else if (limit < last_v \<or> \<not> m_video w) \<and> (audio_dec p = None \<or> limit < last_a) then Some (Inl p)
         else
           (let (at_eof, p) = demux_at_eof w p in
            Option.bind (produce ops w v_full a_full limit last_v last_a at_eof p) (\<lambda>(r, p).
              case r of
                Frame pts is_video \<Rightarrow> Some (Inr (if is_video then max last_v pts else last_v, if is_video then last_a else max last_a pts, p))
              | Skip \<Rightarrow> Some (Inr (last_v, last_a, p))
              | Stop \<Rightarrow> Some (Inl p))))"

partial_function (option) fill_loop ::
    "'d Demuxers \<Rightarrow> MediaWorld \<Rightarrow> int \<Rightarrow> int \<Rightarrow> int \<Rightarrow> 'd StreamPlayer \<Rightarrow> 'd StreamPlayer option" where
  "fill_loop ops w limit last_v last_a p =
     Option.bind (fill_turn ops w limit last_v last_a p) (\<lambda>r.
       case r of Inl p \<Rightarrow> Some p | Inr x \<Rightarrow> fill_loop ops w limit (fst x) (fst (snd x)) (snd (snd x)))"

declare fill_loop.simps [simp del]

definition fill_queues :: "'d Demuxers \<Rightarrow> MediaWorld \<Rightarrow> 'd StreamPlayer \<Rightarrow> 'd StreamPlayer option" where
  "fill_queues ops w p = fill_loop ops w (clock_us p + LOOKAHEAD_US) (- (2 ^ 63)) (- (2 ^ 63)) p"

section \<open>Decoding audio\<close>

text \<open>\<open>chunks_exact(2)\<close> as little-endian \<open>i16\<close>.\<close>

fun i16_samples :: "u8 list \<Rightarrow> int list" where
  "i16_samples (a # b # bs) =
     (let n = uint a + 256 * uint b in (if n < 2 ^ 15 then n else n - 2 ^ 16) # i16_samples bs)"
| "i16_samples _ = []"

definition decode :: "MediaWorld \<Rightarrow> nat \<Rightarrow> AudioDec \<Rightarrow> u8 list \<Rightarrow> fp list" where
  "decode w n dec data =
     (case dec of
        Aac \<Rightarrow> (case m_aac w n data of Some (ilv, ch) \<Rightarrow> downmix_to_stereo ilv ch | None \<Rightarrow> [])
      | Sym \<Rightarrow> (case m_aac w n data of Some (ilv, ch) \<Rightarrow> downmix_to_stereo ilv ch | None \<Rightarrow> [])
      | Opus ch \<Rightarrow> (case m_opus w n data of Some (out, k) \<Rightarrow> f32_ilv_to_stereo (take (k * ch) out) ch | None \<Rightarrow> [])
      | Ac3 \<Rightarrow>
          (case m_ac3 w n data of
             Some (bytes, frames) \<Rightarrow>
               (let i16s = i16_samples bytes in i16_ilv_to_stereo_f32 i16s (max 1 (length i16s div max 1 frames)))
           | None \<Rightarrow> []))"

definition PCM_CAP :: nat where "PCM_CAP = OUT_RATE * 2 * 2"

text \<open>One packet taken from the queue.\<close>

definition decode_one :: "MediaWorld \<Rightarrow> AudioDec \<Rightarrow> AFrame \<Rightarrow> 'd StreamPlayer \<Rightarrow> 'd StreamPlayer option" where
  "decode_one w dec af p =
     (let (stereo, p) = ask (\<lambda>n. decode w n dec (af_data af)) p in
      if stereo = [] then Some p
      else
        (let p = (if audio_first_pts_known p then p else p\<lparr>audio_first_pts_us := af_pts af, audio_first_pts_known := True\<rparr>) in
         case resampler p of
           None \<Rightarrow> Some (p\<lparr>pending_pcm := pending_pcm p @ stereo\<rparr>)
         | Some r \<Rightarrow>
             Option.bind (process r stereo) (\<lambda>(pcm, r). Some (p\<lparr>resampler := Some r, pending_pcm := pending_pcm p @ pcm\<rparr>))))"

fun decode_loop :: "MediaWorld \<Rightarrow> AFrame list \<Rightarrow> 'd StreamPlayer \<Rightarrow> 'd StreamPlayer option" where
  "decode_loop w [] p = Some (p\<lparr>audio_q := []\<rparr>)"
| "decode_loop w (af # q) p =
     (if length (pending_pcm p) < PCM_CAP then
        (case audio_dec p of
           None \<Rightarrow> Some (p\<lparr>audio_q := q\<rparr>)
         | Some dec \<Rightarrow> Option.bind (decode_one w dec af p) (\<lambda>p. decode_loop w q p))
      else Some (p\<lparr>audio_q := af # q\<rparr>))"

definition decode_audio :: "MediaWorld \<Rightarrow> 'd StreamPlayer \<Rightarrow> 'd StreamPlayer option" where
  "decode_audio w p = (if \<not> has_audio p then Some p else decode_loop w (audio_q p) p)"

section \<open>Seeking\<close>

definition seek_from_clock :: "int \<Rightarrow> 'd StreamPlayer option \<Rightarrow> int" where
  "seek_from_clock delta stream =
     (case stream of
        Some p \<Rightarrow> (let t = max 0 (clock_us p + delta) in if 0 < duration_us p then min t (duration_us p) else t)
      | None \<Rightarrow> 0)"

definition clamp :: "int \<Rightarrow> int \<Rightarrow> int \<Rightarrow> int" where
  "clamp lo hi x = (if x < lo then lo else if hi < x then hi else x)"

definition reposition :: "MediaWorld \<Rightarrow> int \<Rightarrow> 'd StreamPlayer \<Rightarrow> int option \<times> 'd StreamPlayer" where
  "reposition w target p =
     (case demux p of
        Ox src \<Rightarrow>
          (let ticks = (if v_num src = 0 then 0 else wrap64 (tdiv (max 0 target * v_den src) (v_num src * 1000000)));
               (landed, p) = ask (\<lambda>n. m_seek w n (video_stream src) ticks) p
           in (map_option (\<lambda>l. ticks_to_us l (v_num src) (v_den src)) landed, p))
      | Fmp4 v a \<Rightarrow>
          (let (landed, v') = seg_seek target v in (Some landed, p\<lparr>demux := Fmp4 v' (map_option (\<lambda>s. snd (seg_seek target s)) a)\<rparr>))
      | Audio src \<Rightarrow>
          (let (landed, p) = ask (\<lambda>n. m_symseek w n (max 0 (tdiv target 1000000)) (nat (max 0 target mod 1000000 * 1000))) p
           in (map_option (\<lambda>l. ticks_to_us l (sym_num src) (sym_den src)) landed, p)))"

text \<open>What a discontinuity clears.\<close>

definition reset_clock :: "'d StreamPlayer \<Rightarrow> 'd StreamPlayer" where
  "reset_clock p = perform DevFlush (p\<lparr>audio_q := [], pending_pcm := [], audio_pts_known := False, audio_first_pts_known := False,
     audio_first_pts_us := 0, audio_start_ns := 0, dev_start := 0, dev_start_set := False\<rparr>)"

definition reset_video :: "'d StreamPlayer \<Rightarrow> 'd StreamPlayer" where
  "reset_video p = perform DecReset (p\<lparr>video_q := [], first_pts_us := None, origin_ns := 0, submitted := 0, presented := 0,
     last_pres_pts := 0, flushed := False\<rparr>)"

definition do_seek :: "MediaWorld \<Rightarrow> int \<Rightarrow> 'd StreamPlayer \<Rightarrow> int \<times> 'd StreamPlayer" where
  "do_seek w target_us p =
     (case reposition w (clamp 0 (max 0 (duration_us p)) target_us) p of
        (None, p1) \<Rightarrow> (clock_us p1, p1)
      | (Some landed, p1) \<Rightarrow>
          (landed, (reset_clock (if m_video w then reset_video p1 else p1))\<lparr>play_done := False, demux_done := False, clock_us := landed\<rparr>))"

section \<open>The pump\<close>

definition sat_add :: "nat \<Rightarrow> nat \<Rightarrow> nat" where
  "sat_add a b = min (2 ^ 64 - 1) (a + b)"

text \<open>The first pump, and the reveal of the transport bar.\<close>

definition reveal :: "nat \<Rightarrow> Controls \<Rightarrow> 'd StreamPlayer \<Rightarrow> Controls \<times> 'd StreamPlayer" where
  "reveal nanos c p =
     (let c1 = (if t0_ns p = 0 then c\<lparr>controls_until_ns := nanos + 3000000000\<rparr> else c);
          c2 = (if controls_bump c1 then c1\<lparr>controls_until_ns := nanos + 3000000000, controls_bump := False\<rparr> else c1)
      in (c2, if t0_ns p = 0 then p\<lparr>t0_ns := nanos\<rparr> else p))"

definition apply_pause :: "MediaWorld \<Rightarrow> nat \<Rightarrow> bool \<Rightarrow> 'd StreamPlayer \<Rightarrow> 'd StreamPlayer" where
  "apply_pause w nanos want p =
     (if want \<and> \<not> paused p then perform DevPause (p\<lparr>paused := True, paused_at_ns := nanos\<rparr>)
      else if \<not> want \<and> paused p then
        (let dt = nanos - paused_at_ns p in
         perform DevStart (p\<lparr>audio_start_ns := (if 0 < audio_start_ns p then sat_add (audio_start_ns p) dt else audio_start_ns p),
           origin_ns := (if m_video w then sat_add (origin_ns p) dt else origin_ns p), paused := False\<rparr>))
      else p)"

definition audio_master :: "'d StreamPlayer \<Rightarrow> bool" where
  "audio_master p \<longleftrightarrow> audio_pts_known p \<and> has_audio p \<and> 0 < audio_start_ns p"

definition audio_only :: "'d StreamPlayer \<Rightarrow> bool" where
  "audio_only p \<longleftrightarrow> (case demux p of Audio _ \<Rightarrow> True | _ \<Rightarrow> False)"

text \<open>The clock at \<open>nanos\<close>, before the end of a track and the duration are looked at.\<close>

definition running_clock :: "MediaWorld \<Rightarrow> nat \<Rightarrow> nat \<Rightarrow> 'd StreamPlayer \<Rightarrow> int" where
  "running_clock w nanos buffered p =
     (if audio_master p then
        max 0 (audio_first_pts_us p + int ((nanos - audio_start_ns p) div 1000) - int (buffered * 1000000 div OUT_RATE))
      else if m_video w then
        (case first_pts_us p of Some first \<Rightarrow> first + int ((nanos - origin_ns p) div 1000) | None \<Rightarrow> 0)
      else 0)"

definition track_ended :: "nat \<Rightarrow> 'd StreamPlayer \<Rightarrow> bool" where
  "track_ended buffered p \<longleftrightarrow> audio_only p \<and> demux_done p \<and> audio_q p = [] \<and> pending_pcm p = [] \<and> buffered = 0"

definition media_clock :: "MediaWorld \<Rightarrow> nat \<Rightarrow> nat \<Rightarrow> 'd StreamPlayer \<Rightarrow> int" where
  "media_clock w nanos buffered p =
     (let t = (if track_ended buffered p then clock_us p else running_clock w nanos buffered p) in
      if 0 < duration_us p then min t (duration_us p) else t)"

definition GAIN_EPSILON :: fp where "GAIN_EPSILON = Fin False (1 / 2 ^ 23)"

text \<open>The origin of the stream on the device's clock; the pre-roll gate; a write.\<close>

definition note_origin :: "MediaWorld \<Rightarrow> 'd StreamPlayer \<Rightarrow> 'd StreamPlayer" where
  "note_origin w p =
     (if has_audio p \<and> \<not> dev_start_set p
      then (case ask (m_position w) p of (position, p) \<Rightarrow> p\<lparr>dev_start := or_default 0 position, dev_start_set := True\<rparr>) else p)"

definition anchor_audio :: "nat \<Rightarrow> int \<Rightarrow> 'd StreamPlayer \<Rightarrow> 'd StreamPlayer" where
  "anchor_audio nanos media_now p =
     (if \<not> audio_pts_known p \<and> (audio_only p \<or> audio_first_pts_us p \<le> media_now) \<and> pending_pcm p \<noteq> []
      then p\<lparr>audio_pts_known := True, audio_start_ns := nanos\<rparr> else p)"

definition gained :: "Controls \<Rightarrow> fp list \<Rightarrow> fp list" where
  "gained c pcm =
     (let gain = (if c_muted c then Fin False 0 else c_volume c) in
      if flt (fabs (fsub f32 gain (Fin False 1))) GAIN_EPSILON then pcm else map (\<lambda>s. fmul f32 s gain) pcm)"

definition write_audio :: "MediaWorld \<Rightarrow> Controls \<Rightarrow> 'd StreamPlayer \<Rightarrow> 'd StreamPlayer" where
  "write_audio w c p =
     (if audio_pts_known p \<and> pending_pcm p \<noteq> [] then
        (let pcm = gained c (pending_pcm p);
             (answer, p) = ask (\<lambda>n. m_write w n pcm) p;
             accepted = or_default 0 answer;
             p = perform (DevWrite pcm accepted)
                   (p\<lparr>pending_pcm := drop (min (accepted * 2) (length (pending_pcm p))) (pending_pcm p)\<rparr>)
         in if 0 < accepted \<and> \<not> audio_started p then perform DevStart (p\<lparr>audio_started := True\<rparr>) else p)
      else p)"

definition audio_out :: "MediaWorld \<Rightarrow> nat \<Rightarrow> Controls \<Rightarrow> int \<Rightarrow> 'd StreamPlayer \<Rightarrow> 'd StreamPlayer" where
  "audio_out w nanos c media_now p =
     (let p = note_origin w p in
      if has_audio p \<and> audio_first_pts_known p then write_audio w c (anchor_audio nanos media_now p) else p)"

text \<open>Queued access units go to the decoder; the rest of the queue is the argument.\<close>

fun submit_loop :: "MediaWorld \<Rightarrow> bool \<Rightarrow> int \<Rightarrow> VFrame list \<Rightarrow> 'd StreamPlayer \<Rightarrow> 'd StreamPlayer" where
  "submit_loop w anchored media_now [] p = p\<lparr>video_q := []\<rparr>"
| "submit_loop w anchored media_now (vf # q) p =
     (if presented p + DECODE_AHEAD \<le> submitted p then p\<lparr>video_q := vf # q\<rparr>
      else if anchored \<and> media_now + SUBMIT_LEAD_US < vf_pts vf then p\<lparr>video_q := vf # q\<rparr>
      else
        (let chunk = \<lparr>ck_data = vf_data vf, ck_timestamp = vf_pts vf, ck_keyframe = vf_key vf\<rparr> in
         case ask (\<lambda>n. m_submit w n chunk) p of
           (Accepted, p) \<Rightarrow> submit_loop w anchored media_now q (perform (DecSubmit chunk) (p\<lparr>submitted := submitted p + 1\<rparr>))
         | (QueueFull, p) \<Rightarrow> p\<lparr>video_q := vf # q\<rparr>
         | (Refused, p) \<Rightarrow> p\<lparr>video_q := q\<rparr>))"

definition flush_at_end :: "'d StreamPlayer \<Rightarrow> 'd StreamPlayer" where
  "flush_at_end p = (if demux_done p \<and> video_q p = [] \<and> \<not> flushed p then perform DecFlush (p\<lparr>flushed := True\<rparr>) else p)"

text \<open>
  A decoded frame is taken from the decoder, and scheduled, or dropped when it is late.  The distance
  in nanoseconds wraps at 64 bits as a release build does.
\<close>

definition show_frame :: "nat \<Rightarrow> int \<Rightarrow> int \<Rightarrow> 'd StreamPlayer \<Rightarrow> 'd StreamPlayer" where
  "show_frame nanos media_now pts p =
     (let p = perform (DecFrame pts) (p\<lparr>presented := presented p + 1, last_pres_pts := pts\<rparr>);
          p = (if first_pts_us p = None then p\<lparr>first_pts_us := Some pts, origin_ns := nanos\<rparr> else p)
      in if pts < media_now - LATE_DROP_US then p
         else perform (SurfPresent pts (sat_add nanos (nat (max 0 (pts - media_now)) * 1000 mod 2 ^ 64))) p)"

partial_function (option) present_loop :: "MediaWorld \<Rightarrow> nat \<Rightarrow> int \<Rightarrow> 'd StreamPlayer \<Rightarrow> 'd StreamPlayer option" where
  "present_loop w nanos media_now p =
     (case m_decoded w (calls p) of
        None \<Rightarrow> Some (p\<lparr>calls := Suc (calls p)\<rparr>)
      | Some pts \<Rightarrow> present_loop w nanos media_now (show_frame nanos media_now pts (p\<lparr>calls := Suc (calls p)\<rparr>)))"

declare present_loop.simps [simp del]

definition finish_pump :: "MediaWorld \<Rightarrow> bool \<Rightarrow> int \<Rightarrow> 'd StreamPlayer \<Rightarrow> 'd StreamPlayer" where
  "finish_pump w master media_now p =
     (let p = p\<lparr>clock_us := media_now\<rparr>;
          p = (if master
               then (case ask (m_position w) p of (position, p) \<Rightarrow>
                       p\<lparr>audio_pos_us := audio_first_pts_us p + int ((or_default 0 position - dev_start p) * 1000000 div OUT_RATE)\<rparr>)
               else p)
      in if m_video w \<and> \<not> audio_only p \<and> flushed p \<and> video_q p = [] \<and> submitted p = presented p \<and> \<not> play_done p
         then p\<lparr>play_done := True\<rparr> else p)"

definition pump_video :: "MediaWorld \<Rightarrow> nat \<Rightarrow> int \<Rightarrow> 'd StreamPlayer \<Rightarrow> 'd StreamPlayer option" where
  "pump_video w nanos media_now p =
     (if m_video w then
        present_loop w nanos media_now
          (flush_at_end (submit_loop w (first_pts_us p \<noteq> None \<or> audio_pts_known p) media_now (video_q p) p))
      else Some p)"

definition pump_running :: "MediaWorld \<Rightarrow> nat \<Rightarrow> Controls \<Rightarrow> 'd StreamPlayer \<Rightarrow> 'd StreamPlayer option" where
  "pump_running w nanos c p =
     (let (answer, p1) = ask (m_buffered w) p;
          buffered = or_default 0 answer;
          media_now = media_clock w nanos buffered p;
          p2 = audio_out w nanos c media_now (if track_ended buffered p then p1\<lparr>play_done := True\<rparr> else p1)
      in Option.bind (pump_video w nanos media_now p2) (\<lambda>q. Some (finish_pump w (audio_master p) media_now q)))"

definition pump_stream :: "MediaWorld \<Rightarrow> nat \<Rightarrow> Controls \<Rightarrow> 'd StreamPlayer \<Rightarrow> (Controls \<times> 'd StreamPlayer) option" where
  "pump_stream w nanos c p =
     (let (c, p) = reveal nanos c p;
          p = apply_pause w nanos (c_paused c) p
      in if paused p then Some (c, p)
         else Option.bind (pump_running w nanos c p) (\<lambda>p. Some (c, p)))"

text \<open>The engine's part of an app's background tick: a requested seek, demuxing, decoding.\<close>

definition bg_play :: "'d Demuxers \<Rightarrow> MediaWorld \<Rightarrow> int option \<Rightarrow> 'd StreamPlayer \<Rightarrow> 'd StreamPlayer option" where
  "bg_play ops w seek_request p =
     (let p = (case seek_request of Some t \<Rightarrow> snd (do_seek w t p) | None \<Rightarrow> p) in
      Option.bind (fill_queues ops w p) (decode_audio w))"

end
