(* ===== verification/PlayerStep.thy ===== *)
theory PlayerStep
  imports Player
begin

text \<open>
  What one pump and one background tick of the playback pipeline change, part by part: which
  actions they may log, what they leave alone, and how far they fill the queues.
\<close>

section \<open>What each part changes\<close>

text \<open>What the log of one pump may hold, when the clock reads \<open>now\<close>.\<close>

fun on_time :: "nat \<Rightarrow> int \<Rightarrow> PlayAct \<Rightarrow> bool" where
  "on_time nanos now (SurfPresent pts at_ns) \<longleftrightarrow>
     now - LATE_DROP_US \<le> pts \<and> at_ns = sat_add nanos (nat (max 0 (pts - now)) * 1000 mod 2 ^ 64)"
| "on_time nanos now _ \<longleftrightarrow> True"

fun to_decoder :: "PlayAct \<Rightarrow> bool" where
  "to_decoder (DecSubmit _) = True"
| "to_decoder _ = False"

fun from_decoder :: "PlayAct \<Rightarrow> bool" where
  "from_decoder (DecFrame _) = True"
| "from_decoder _ = False"

fun shown :: "PlayAct \<Rightarrow> bool" where
  "shown (SurfPresent _ _) = True"
| "shown _ = False"

text \<open>
  What the log says was given to the decoder and taken from it since it was last reset.  A player is
  balanced when its two counters say the same, and the log never shows more than the cushion.
\<close>

definition since_reset :: "PlayAct list \<Rightarrow> PlayAct list" where
  "since_reset l = rev (takeWhile (\<lambda>a. a \<noteq> DecReset) (rev l))"

definition given :: "PlayAct list \<Rightarrow> nat" where
  "given l = length (filter to_decoder (since_reset l))"

definition taken :: "PlayAct list \<Rightarrow> nat" where
  "taken l = length (filter from_decoder (since_reset l))"

lemma tallies [simp]:
  "given (l @ [a]) = (if a = DecReset then 0 else given l + (if to_decoder a then 1 else 0))"
  "taken (l @ [a]) = (if a = DecReset then 0 else taken l + (if from_decoder a then 1 else 0))"
  "given [] = 0" "taken [] = 0"
  by (simp_all add: given_def taken_def since_reset_def)

definition balanced :: "'d StreamPlayer \<Rightarrow> bool" where
  "balanced p \<longleftrightarrow> given (acts p) = submitted p \<and> taken (acts p) = presented p
     \<and> (\<forall>pre post. acts p = pre @ post \<longrightarrow> given pre \<le> taken pre + DECODE_AHEAD)"

lemma balanced_same:
  "acts q = acts p \<Longrightarrow> submitted q = submitted p \<Longrightarrow> presented q = presented p \<Longrightarrow> balanced q = balanced p"
  by (simp add: balanced_def)

lemma balanced_cushion: "balanced p \<Longrightarrow> submitted p \<le> presented p + DECODE_AHEAD"
  unfolding balanced_def by (metis append_Nil2)

lemma balanced_act:
  assumes "balanced p" "acts q = acts p @ [a]" "given (acts q) = submitted q" "taken (acts q) = presented q"
    "submitted q \<le> presented q + DECODE_AHEAD"
  shows "balanced q"
proof -
  have "given pre \<le> taken pre + DECODE_AHEAD" if "acts p @ [a] = pre @ post" for pre post
  proof (cases post rule: rev_cases)
    case Nil
    with that assms(2-5) show ?thesis by simp
  next
    case (snoc post' b)
    with that assms(1) show ?thesis by (auto simp: balanced_def)
  qed
  with assms(2-4) show ?thesis by (simp add: balanced_def)
qed

lemma balanced_neutral:
  "balanced p \<Longrightarrow> acts q = acts p @ [a] \<Longrightarrow> submitted q = submitted p \<Longrightarrow> presented q = presented p \<Longrightarrow>
   \<not> to_decoder a \<Longrightarrow> \<not> from_decoder a \<Longrightarrow> a \<noteq> DecReset \<Longrightarrow> balanced q"
  using balanced_cushion[of p] by (intro balanced_act[of p q a]) (simp_all add: balanced_def)

definition same_clock :: "'d StreamPlayer \<Rightarrow> 'd StreamPlayer \<Rightarrow> bool" where
  "same_clock p q \<longleftrightarrow> audio_pts_known q = audio_pts_known p \<and> has_audio q = has_audio p \<and> audio_start_ns q = audio_start_ns p
     \<and> audio_first_pts_us q = audio_first_pts_us p \<and> first_pts_us q = first_pts_us p \<and> origin_ns q = origin_ns p"

definition same_stream :: "'d StreamPlayer \<Rightarrow> 'd StreamPlayer \<Rightarrow> bool" where
  "same_stream p q \<longleftrightarrow> demux q = demux p \<and> audio_q q = audio_q p \<and> duration_us q = duration_us p \<and> demux_done q = demux_done p
     \<and> audio_dec q = audio_dec p \<and> paused q = paused p \<and> paused_at_ns q = paused_at_ns p \<and> prefetch q = prefetch p"

lemma same_refl [simp]: "same_clock p p" "same_stream p p"
  by (simp_all add: same_clock_def same_stream_def)

lemma same_trans:
  "same_clock p q \<Longrightarrow> same_clock q r \<Longrightarrow> same_clock p r"
  "same_stream p q \<Longrightarrow> same_stream q r \<Longrightarrow> same_stream p r"
  by (simp_all add: same_clock_def same_stream_def)

text \<open>The log has grown, by actions of a kind.\<close>

definition grown :: "(PlayAct \<Rightarrow> bool) \<Rightarrow> 'd StreamPlayer \<Rightarrow> 'd StreamPlayer \<Rightarrow> bool" where
  "grown P p q \<longleftrightarrow> (\<exists>new. acts q = acts p @ new \<and> list_all P new)"

lemma grown_refl: "acts q = acts p \<Longrightarrow> grown P p q"
  by (simp add: grown_def)

lemma grown_act: "acts q = acts p @ [a] \<Longrightarrow> P a \<Longrightarrow> grown P p q"
  by (simp add: grown_def)

lemma grown_trans: "grown P p q \<Longrightarrow> grown P q r \<Longrightarrow> grown P p r"
  unfolding grown_def by fastforce

lemma grown_mono: "grown P p q \<Longrightarrow> (\<And>a. P a \<Longrightarrow> Q a) \<Longrightarrow> grown Q p q"
  unfolding grown_def by (metis list_all_iff)

lemma submit_loop_spec:
  "same_clock p (submit_loop w anchored now q p) \<and> same_stream p (submit_loop w anchored now q p)
     \<and> presented (submit_loop w anchored now q p) = presented p
     \<and> submitted (submit_loop w anchored now q p) \<le> max (submitted p) (presented p + DECODE_AHEAD)
     \<and> length (video_q (submit_loop w anchored now q p)) \<le> length q
     \<and> clock_us (submit_loop w anchored now q p) = clock_us p
     \<and> audio_started (submit_loop w anchored now q p) = audio_started p
     \<and> grown to_decoder p (submit_loop w anchored now q p)"
proof (induction q arbitrary: p)
  case Nil
  show ?case by (simp add: same_clock_def same_stream_def grown_def)
next
  case (Cons vf q)
  let ?chunk = "\<lparr>ck_data = vf_data vf, ck_timestamp = vf_pts vf, ck_keyframe = vf_key vf\<rparr>"
  let ?p = "p\<lparr>calls := Suc (calls p)\<rparr>"
  let ?r = "perform (DecSubmit ?chunk) (?p\<lparr>submitted := submitted p + 1\<rparr>)"
  show ?case
  proof (cases "presented p + DECODE_AHEAD \<le> submitted p \<or> anchored \<and> now + SUBMIT_LEAD_US < vf_pts vf")
    case True
    then have "submit_loop w anchored now (vf # q) p = p\<lparr>video_q := vf # q\<rparr>"
      unfolding submit_loop.simps by (metis (full_types))
    then show ?thesis
      by (simp add: same_clock_def same_stream_def grown_def)
  next
    case ahead: False
    show ?thesis
    proof (cases "m_submit w (calls p) ?chunk")
      case Accepted
      have r: "submit_loop w anchored now (vf # q) p = submit_loop w anchored now q ?r"
        using ahead Accepted by (simp only: submit_loop.simps ask_def Let_def prod.case Submitted.case if_False de_Morgan_disj; simp?)
      have s: "same_clock p ?r" "same_stream p ?r" "grown to_decoder p ?r"
        by (simp_all add: same_clock_def same_stream_def grown_def perform_def)
      have f: "presented ?r = presented p" "submitted ?r = submitted p + 1" "clock_us ?r = clock_us p" "audio_started ?r = audio_started p"
        by (simp_all add: perform_def)
      note ih = Cons[of ?r, unfolded f]
      have "submitted p + 1 \<le> presented p + DECODE_AHEAD"
        using ahead by simp
      with ih have "submitted (submit_loop w anchored now q ?r) \<le> max (submitted p) (presented p + DECODE_AHEAD)"
        by linarith
      moreover have "same_clock p (submit_loop w anchored now q ?r)" "same_stream p (submit_loop w anchored now q ?r)"
        "grown to_decoder p (submit_loop w anchored now q ?r)"
        using same_trans(1)[OF s(1)] same_trans(2)[OF s(2)] grown_trans[OF s(3)] ih by blast+
      moreover have "length (video_q (submit_loop w anchored now q ?r)) \<le> length (vf # q)"
        using ih by simp
      ultimately show ?thesis
        using ih unfolding r by blast
    next
      case QueueFull
      have "submit_loop w anchored now (vf # q) p = ?p\<lparr>video_q := vf # q\<rparr>"
        using ahead QueueFull by (simp only: submit_loop.simps ask_def Let_def prod.case Submitted.case if_False de_Morgan_disj; simp?)
      then show ?thesis
        by (simp add: same_clock_def same_stream_def grown_def)
    next
      case Refused
      have "submit_loop w anchored now (vf # q) p = ?p\<lparr>video_q := q\<rparr>"
        using ahead Refused by (simp only: submit_loop.simps ask_def Let_def prod.case Submitted.case if_False de_Morgan_disj; simp?)
      then show ?thesis
        by (simp add: same_clock_def same_stream_def grown_def)
    qed
  qed
qed

lemma submit_loop_balanced: "balanced p \<Longrightarrow> balanced (submit_loop w anchored now q p)"
proof (induction q arbitrary: p)
  case Nil
  then show ?case by (simp add: balanced_def)
next
  case (Cons vf q)
  let ?chunk = "\<lparr>ck_data = vf_data vf, ck_timestamp = vf_pts vf, ck_keyframe = vf_key vf\<rparr>"
  let ?r = "perform (DecSubmit ?chunk) (p\<lparr>calls := Suc (calls p), submitted := submitted p + 1\<rparr>)"
  have "balanced ?r" if "\<not> presented p + DECODE_AHEAD \<le> submitted p"
    using that Cons.prems by (intro balanced_act[of p ?r "DecSubmit ?chunk"]) (simp_all add: perform_def balanced_def)
  with Cons show ?case
    by (auto simp: ask_def Let_def balanced_same[of "p\<lparr>video_q := x\<rparr>" p for x]
        balanced_same[of "p\<lparr>calls := n, video_q := x\<rparr>" p for n x] split: Submitted.split)
qed

lemma show_frame_balanced:
  assumes "balanced p"
  shows "balanced (show_frame nanos now pts p)"
proof -
  let ?q = "perform (DecFrame pts) (p\<lparr>presented := presented p + 1, last_pres_pts := pts\<rparr>)"
  have "submitted p \<le> presented p + DECODE_AHEAD"
    by (rule balanced_cushion[OF assms])
  then have q: "balanced ?q"
    using assms by (intro balanced_act[of p ?q "DecFrame pts"]) (simp_all add: perform_def balanced_def)
  then have r: "balanced (if first_pts_us ?q = None then ?q\<lparr>first_pts_us := Some pts, origin_ns := nanos\<rparr> else ?q)"
    by (simp add: balanced_def)
  have "balanced (perform (SurfPresent pts t) r)" if "balanced r" for r :: "'a StreamPlayer" and t
    using that by (rule balanced_neutral) (simp add: perform_def)+
  with r show ?thesis
    unfolding show_frame_def Let_def by (cases "pts < now - LATE_DROP_US") (simp_all only: if_True if_False)
qed

lemma show_frame_spec:
  "same_stream p (show_frame nanos now pts p) \<and> submitted (show_frame nanos now pts p) = submitted p
     \<and> presented (show_frame nanos now pts p) = presented p + 1 \<and> video_q (show_frame nanos now pts p) = video_q p
     \<and> first_pts_us (show_frame nanos now pts p) \<noteq> None \<and> (first_pts_us p \<noteq> None \<longrightarrow> same_clock p (show_frame nanos now pts p))
     \<and> audio_started (show_frame nanos now pts p) = audio_started p
     \<and> grown (\<lambda>a. (shown a \<or> from_decoder a) \<and> on_time nanos now a) p (show_frame nanos now pts p)"
  by (simp add: show_frame_def perform_def Let_def same_stream_def same_clock_def grown_def)

definition presents :: "nat \<Rightarrow> int \<Rightarrow> 'd StreamPlayer \<Rightarrow> 'd StreamPlayer \<Rightarrow> bool" where
  "presents nanos now p q \<longleftrightarrow> same_stream p q \<and> submitted q = submitted p \<and> presented p \<le> presented q \<and> video_q q = video_q p
     \<and> (first_pts_us p \<noteq> None \<longrightarrow> same_clock p q) \<and> audio_started q = audio_started p \<and> flushed q = flushed p
     \<and> (balanced p \<longrightarrow> balanced q) \<and> grown (\<lambda>a. (shown a \<or> from_decoder a) \<and> on_time nanos now a) p q"

lemma presents_trans: "presents nanos now p q \<Longrightarrow> presents nanos now q r \<Longrightarrow> presents nanos now p r"
  unfolding presents_def
  by (intro conjI impI; (elim conjE)?) (auto intro: same_trans grown_trans simp: same_clock_def)

lemma show_frame_presents: "presents nanos now p (show_frame nanos now pts (p\<lparr>calls := Suc (calls p)\<rparr>))"
proof -
  let ?p = "p\<lparr>calls := Suc (calls p)\<rparr>"
  have "balanced p \<longrightarrow> balanced (show_frame nanos now pts ?p)"
    using show_frame_balanced[of ?p nanos now pts] by (simp add: balanced_def)
  then show ?thesis
    unfolding presents_def
    by (simp add: show_frame_def perform_def Let_def same_stream_def same_clock_def grown_def)
qed

lemma present_loop_spec: "present_loop w nanos now p = Some q \<Longrightarrow> presents nanos now p q"
proof (erule present_loop.raw_induct[where P = "\<lambda>w nanos now p q. presents nanos now p q", rotated], goal_cases)
  case (1 loop w nanos now p q)
  show ?case
  proof (cases "m_decoded w (calls p)")
    case None
    with 1(2) have "q = p\<lparr>calls := Suc (calls p)\<rparr>" by simp
    then show ?thesis
      by (simp add: presents_def same_stream_def same_clock_def grown_def balanced_def)
  next
    case (Some pts)
    with 1 show ?thesis
      using show_frame_presents presents_trans by fastforce
  qed
qed

text \<open>Writing to the device starts it the first time something was accepted.\<close>

definition feeds :: "'d StreamPlayer \<Rightarrow> 'd StreamPlayer \<Rightarrow> bool" where
  "feeds p q \<longleftrightarrow> acts q = acts p \<and> audio_started q = audio_started p \<or>
     (\<exists>pcm n. acts q = acts p @ [DevWrite pcm n] \<and> audio_started q = audio_started p \<or>
        acts q = acts p @ [DevWrite pcm n, DevStart] \<and> 0 < n \<and> \<not> audio_started p)"

definition same_video :: "'d StreamPlayer \<Rightarrow> 'd StreamPlayer \<Rightarrow> bool" where
  "same_video p q \<longleftrightarrow> submitted q = submitted p \<and> presented q = presented p \<and> video_q q = video_q p \<and> flushed q = flushed p
     \<and> first_pts_us q = first_pts_us p \<and> origin_ns q = origin_ns p"

lemma feeds_balanced:
  assumes "feeds p q" "same_video p q" "balanced p"
  shows "balanced q"
proof -
  have c: "submitted q = submitted p" "presented q = presented p"
    using assms(2) by (simp_all add: same_video_def)
  from assms(1) consider "acts q = acts p" | pcm n where "acts q = acts p @ [DevWrite pcm n]"
    | pcm n where "acts q = acts p @ [DevWrite pcm n, DevStart]"
    unfolding feeds_def by blast
  then show ?thesis
  proof cases
    case (3 pcm n)
    let ?m = "p\<lparr>acts := acts p @ [DevWrite pcm n]\<rparr>"
    have "balanced ?m"
      using assms(3) by (rule balanced_neutral) simp+
    then show ?thesis
      by (rule balanced_neutral) (simp add: 3 c)+
  qed (use assms(3) c in \<open>simp add: balanced_same[of q p] | simp add: balanced_neutral\<close>)+
qed

lemma note_origin_spec: "same_stream p (note_origin w p) \<and> same_video p (note_origin w p) \<and> same_clock p (note_origin w p)
    \<and> acts (note_origin w p) = acts p \<and> audio_started (note_origin w p) = audio_started p"
  by (simp add: note_origin_def ask_def same_stream_def same_clock_def same_video_def)

lemma anchor_audio_spec: "same_stream p (anchor_audio nanos now p) \<and> same_video p (anchor_audio nanos now p)
    \<and> (audio_pts_known p \<longrightarrow> same_clock p (anchor_audio nanos now p))
    \<and> acts (anchor_audio nanos now p) = acts p \<and> audio_started (anchor_audio nanos now p) = audio_started p"
  by (simp add: anchor_audio_def same_stream_def same_clock_def same_video_def)

lemma write_audio_spec: "same_stream p (write_audio w c p) \<and> same_video p (write_audio w c p) \<and> same_clock p (write_audio w c p)
    \<and> feeds p (write_audio w c p)"
  by (simp add: write_audio_def Let_def ask_def perform_def same_stream_def same_clock_def same_video_def feeds_def)

lemma audio_out_spec:
  "same_stream p (audio_out w nanos c now p) \<and> same_video p (audio_out w nanos c now p)
    \<and> (audio_pts_known p \<longrightarrow> same_clock p (audio_out w nanos c now p)) \<and> feeds p (audio_out w nanos c now p)"
proof -
  let ?p = "note_origin w p"
  note 1 = note_origin_spec[of p w] and 2 = anchor_audio_spec[of ?p nanos now] and 3 = write_audio_spec[of "anchor_audio nanos now ?p" w c]
  show ?thesis
    using 1 2 3 by (simp add: audio_out_def Let_def same_stream_def same_clock_def same_video_def feeds_def)
qed

section \<open>A pump\<close>

lemma media_clock_cong:
  assumes "same_clock p q" "same_stream p q" "clock_us q = clock_us p" "pending_pcm q = pending_pcm p"
  shows "media_clock w nanos b q = media_clock w nanos b p" "track_ended b q = track_ended b p" "audio_master q = audio_master p"
  using assms
  by (simp_all add: media_clock_def track_ended_def running_clock_def audio_master_def audio_only_def same_clock_def same_stream_def
      split: option.split)

text \<open>What the parts of a pump that deal with video do to the rest.\<close>

definition video_part :: "nat \<Rightarrow> int \<Rightarrow> 'd StreamPlayer \<Rightarrow> 'd StreamPlayer \<Rightarrow> bool" where
  "video_part nanos now p q \<longleftrightarrow> same_stream p q \<and> submitted q \<le> max (submitted p) (presented q + DECODE_AHEAD)
     \<and> presented p \<le> presented q \<and> length (video_q q) \<le> length (video_q p) \<and> audio_started q = audio_started p
     \<and> (first_pts_us p \<noteq> None \<longrightarrow> same_clock p q) \<and> (balanced p \<longrightarrow> balanced q)
     \<and> grown (\<lambda>a. on_time nanos now a \<and> a \<noteq> DevStart) p q"

lemma finish_pump_spec:
  "video_part nanos now p (finish_pump w master now p)" "clock_us (finish_pump w master now p) = now"
  "acts (finish_pump w master now p) = acts p"
  by (simp_all add: finish_pump_def ask_def Let_def video_part_def same_stream_def same_clock_def grown_def balanced_def)

lemma flush_at_end_spec: "video_part nanos now p (flush_at_end p)"
proof -
  have "balanced (perform DecFlush (p\<lparr>flushed := True\<rparr>))" if "balanced p"
    using that by (rule balanced_neutral) (simp add: perform_def)+
  then show ?thesis
    by (simp add: flush_at_end_def video_part_def) (simp add: perform_def same_stream_def same_clock_def grown_def)
qed

lemma submit_loop_part: "video_part nanos now p (submit_loop w anchored now (video_q p) p)"
proof -
  have 1: "on_time nanos now a \<and> a \<noteq> DevStart" if "to_decoder a" for a
    using that by (cases a) simp_all
  have "grown to_decoder p (submit_loop w anchored now (video_q p) p)"
    using submit_loop_spec by blast
  from grown_mono[OF this 1] have "grown (\<lambda>a. on_time nanos now a \<and> a \<noteq> DevStart) p (submit_loop w anchored now (video_q p) p)" .
  with submit_loop_spec[of p w anchored now "video_q p"] submit_loop_balanced[of p w anchored now "video_q p"] show ?thesis
    unfolding video_part_def by simp
qed

lemma present_loop_part: "present_loop w nanos now p = Some q \<Longrightarrow> video_part nanos now p q"
proof -
  assume "present_loop w nanos now p = Some q"
  then have p: "presents nanos now p q" by (rule present_loop_spec)
  then have g: "grown (\<lambda>a. (shown a \<or> from_decoder a) \<and> on_time nanos now a) p q" by (simp only: presents_def)
  have 1: "on_time nanos now a \<and> a \<noteq> DevStart" if "(shown a \<or> from_decoder a) \<and> on_time nanos now a" for a
    using that by (cases a) simp_all
  from grown_mono[OF g 1] have "grown (\<lambda>a. on_time nanos now a \<and> a \<noteq> DevStart) p q" .
  with p show ?thesis
    by (simp add: presents_def video_part_def)
qed

lemma video_part_trans:
  assumes "video_part nanos now p q" "video_part nanos now q r"
  shows "video_part nanos now p r"
proof -
  have "first_pts_us q = first_pts_us p" if "first_pts_us p \<noteq> None"
    using assms(1) that by (simp add: video_part_def same_clock_def)
  moreover have "submitted r \<le> max (submitted p) (presented r + DECODE_AHEAD)"
    using assms unfolding video_part_def by linarith
  ultimately show ?thesis
    using assms unfolding video_part_def
    by (intro conjI) (auto intro: same_trans grown_trans)
qed

lemma pump_video_part:
  assumes "pump_video w nanos now p = Some q"
  shows "video_part nanos now p q"
proof (cases "m_video w")
  case True
  let ?s = "submit_loop w (first_pts_us p \<noteq> None \<or> audio_pts_known p) now (video_q p) p"
  have "present_loop w nanos now (flush_at_end ?s) = Some q"
    using assms True unfolding pump_video_def by (simp only: if_True)
  from present_loop_part[OF this] have "video_part nanos now (flush_at_end ?s) q" .
  with video_part_trans[OF video_part_trans[OF submit_loop_part flush_at_end_spec]] show ?thesis by blast
next
  case False
  with assms show ?thesis by (simp add: pump_video_def video_part_def grown_def)
qed

definition device_backlog :: "MediaWorld \<Rightarrow> 'd StreamPlayer \<Rightarrow> nat" where
  "device_backlog w p = or_default 0 (m_buffered w (calls p))"

lemma pump_running_parts:
  assumes "pump_running w nanos c p = Some q"
  shows "\<exists>p0 p1. same_stream p p0 \<and> same_video p p0 \<and> same_clock p p0 \<and> acts p0 = acts p \<and> audio_started p0 = audio_started p
      \<and> p1 = audio_out w nanos c (media_clock w nanos (device_backlog w p) p) p0
      \<and> video_part nanos (media_clock w nanos (device_backlog w p) p) p1 q \<and> clock_us q = media_clock w nanos (device_backlog w p) p"
proof -
  let ?p = "p\<lparr>calls := Suc (calls p)\<rparr>"
  let ?now = "media_clock w nanos (device_backlog w p) p"
  let ?p0 = "if track_ended (device_backlog w p) p then ?p\<lparr>play_done := True\<rparr> else ?p"
  let ?p1 = "audio_out w nanos c ?now ?p0"
  have p0: "same_stream p ?p0" "same_video p ?p0" "same_clock p ?p0" "acts ?p0 = acts p" "audio_started ?p0 = audio_started p"
    by (simp_all add: same_stream_def same_clock_def same_video_def)
  have "Option.bind (pump_video w nanos ?now ?p1) (\<lambda>q. Some (finish_pump w (audio_master p) ?now q)) = Some q"
    using assms unfolding pump_running_def ask_def Let_def prod.case device_backlog_def .
  then obtain r where r: "pump_video w nanos ?now ?p1 = Some r" "q = finish_pump w (audio_master p) ?now r"
    unfolding bind_eq_Some_conv by blast
  have "video_part nanos ?now ?p1 r"
    by (rule pump_video_part[OF r(1)])
  then have "video_part nanos ?now ?p1 q" "clock_us q = ?now"
    using video_part_trans[OF _ finish_pump_spec(1)] finish_pump_spec(2) unfolding r(2) by blast+
  with p0 show ?thesis by blast
qed

lemma pump_running_video:
  assumes "pump_running w nanos c p = Some q"
  shows "submitted q \<le> max (submitted p) (presented q + DECODE_AHEAD)" "presented p \<le> presented q"
    "length (video_q q) \<le> length (video_q p)" "same_stream p q" "clock_us q = media_clock w nanos (device_backlog w p) p"
proof -
  obtain p0 p1 where 0: "same_stream p p0" "same_video p p0" and "p1 = audio_out w nanos c (media_clock w nanos (device_backlog w p) p) p0"
    and q: "video_part nanos (media_clock w nanos (device_backlog w p) p) p1 q" "clock_us q = media_clock w nanos (device_backlog w p) p"
    using pump_running_parts[OF assms] by blast
  then have 1: "same_stream p0 p1" "same_video p0 p1"
    using audio_out_spec by blast+
  from 0 1 q show "submitted q \<le> max (submitted p) (presented q + DECODE_AHEAD)" "presented p \<le> presented q"
    "length (video_q q) \<le> length (video_q p)" "clock_us q = media_clock w nanos (device_backlog w p) p"
    by (simp_all only: same_video_def video_part_def)
  from q(1) have "same_stream p1 q" by (simp only: video_part_def)
  with 0(1) 1(1) show "same_stream p q" using same_trans(2) by blast
qed

section \<open>A background tick\<close>

fun is_fmp4 :: "'d Demux \<Rightarrow> bool" where
  "is_fmp4 (Fmp4 _ _) = True"
| "is_fmp4 _ = False"

definition behind :: "'d StreamPlayer \<Rightarrow> 'd StreamPlayer \<Rightarrow> bool" where
  "behind p q \<longleftrightarrow> submitted q = submitted p \<and> presented q = presented p \<and> acts q = acts p \<and> audio_started q = audio_started p
     \<and> clock_us q = clock_us p \<and> paused q = paused p \<and> audio_dec q = audio_dec p \<and> has_audio q = has_audio p
     \<and> duration_us q = duration_us p \<and> prefetch q = prefetch p \<and> video_annexb q = video_annexb p \<and> is_fmp4 (demux q) = is_fmp4 (demux p)"

lemma behind_refl [simp]: "behind p p"
  by (simp add: behind_def)

lemma behind_trans: "behind p q \<Longrightarrow> behind q r \<Longrightarrow> behind p r"
  by (simp add: behind_def)

lemma push_video_spec: "push_video p pts kf bytes = Some q \<Longrightarrow>
    behind p q \<and> demux q = demux p \<and> audio_q q = audio_q p \<and> length (video_q q) = Suc (length (video_q p))"
  by (auto simp: push_video_def behind_def bind_eq_Some_conv)

lemma push_audio_spec: "behind p (push_audio p pts bytes) \<and> demux (push_audio p pts bytes) = demux p
    \<and> video_q (push_audio p pts bytes) = video_q p \<and> length (audio_q (push_audio p pts bytes)) = Suc (length (audio_q p))"
  by (simp add: push_audio_def behind_def)

lemma produce_ox_behind:
  assumes "produce_ox w eof src p = Some (r, q)" "demux p = Ox src"
  shows "behind p q \<and> demux q = demux p"
proof -
  let ?p = "p\<lparr>calls := Suc (calls p)\<rparr>"
  have 0: "behind p ?p" "demux ?p = demux p" by (simp_all add: behind_def)
  show ?thesis
  proof (cases "m_packet w (calls p)")
    case None
    with assms show ?thesis by (auto simp: produce_ox_def ask_def behind_def split: if_splits)
  next
    case (Some pkt)
    then consider pts kf bytes where "push_video ?p pts kf bytes = Some q" | pts bytes where "q = push_audio ?p pts bytes" | "q = ?p"
      using assms(1) by (auto simp: produce_ox_def ask_def bind_eq_Some_conv split: if_splits prod.splits)
    then show ?thesis
    proof cases
      case (1 pts kf bytes)
      with push_video_spec[OF this] 0 show ?thesis using behind_trans by metis
    next
      case (2 pts bytes)
      with push_audio_spec[of ?p pts bytes] 0 show ?thesis using behind_trans by metis
    qed (use 0 in simp)
  qed
qed

lemma produce_sym_behind:
  assumes "produce_sym w eof src p = (r, q)"
  shows "behind p q \<and> demux q = demux p"
proof -
  let ?p = "p\<lparr>calls := Suc (calls p)\<rparr>"
  have 0: "behind p ?p" "demux ?p = demux p" "behind p (?p\<lparr>demux_done := True\<rparr>)" "demux (?p\<lparr>demux_done := True\<rparr>) = demux p"
    by (simp_all add: behind_def)
  have "q = ?p \<or> q = ?p\<lparr>demux_done := True\<rparr> \<or> (\<exists>pts bytes. q = push_audio ?p pts bytes)"
  proof (cases "m_sym w (calls p)")
    case None
    with assms show ?thesis by (auto simp: produce_sym_def ask_def)
  next
    case (Some x)
    with assms show ?thesis
      by (cases x) (auto simp: produce_sym_def ask_def Let_def split: if_splits)
  qed
  then show ?thesis
    using 0 push_audio_spec[of ?p] behind_trans by metis
qed

text \<open>The queues of a DASH stream stay within their caps.\<close>

definition capped :: "'d StreamPlayer \<Rightarrow> bool" where
  "capped p \<longleftrightarrow> length (video_q p) \<le> VQ_CAP \<and> length (audio_q p) \<le> AQ_CAP"

lemma produce_fmp4_behind:
  assumes "produce_fmp4 ops w vf af limit lv la v a p = Some (r, q)" "demux p = Fmp4 v a"
  shows "behind p q \<and> (capped p \<longrightarrow> (vf \<longleftrightarrow> VQ_CAP \<le> length (video_q p)) \<longrightarrow> (af \<longleftrightarrow> AQ_CAP \<le> length (audio_q p)) \<longrightarrow> capped q)"
proof -
  have 0: "behind p (p\<lparr>demux := Fmp4 v' a'\<rparr>)" for v' a'
    using assms(2) by (simp add: behind_def)
  let ?audio_done = "case a of Some s \<Rightarrow> seg_done s | None \<Rightarrow> True"
  let ?a_left = "a \<noteq> None \<and> \<not> ?audio_done \<and> \<not> af \<and> la \<le> limit"
  let ?take_v = "(\<not> seg_done v \<and> \<not> vf \<and> lv \<le> limit) \<and> (\<not> ?a_left \<or> lv \<le> la)"
  note d = assms(1)[unfolded produce_fmp4_def Let_def]
  consider (video) pts kf bytes v' where "\<not> vf" "push_video (p\<lparr>demux := Fmp4 v' a\<rparr>) pts kf bytes = Some q"
    | (audio) pts bytes a' where "\<not> af" "q = push_audio (p\<lparr>demux := Fmp4 v (Some a')\<rparr>) pts bytes"
    | (moved) v' a' where "q = p\<lparr>demux := Fmp4 v' a'\<rparr>"
    | (stopped) "q = p\<lparr>demux_done := True\<rparr> \<or> q = p"
  proof (cases ?take_v)
    case True
    show thesis
    proof (cases "next_packet ops (m_net w) v")
      case (Pair out v')
      show thesis
      proof (cases out)
        case None
        with d True Pair have "q = p\<lparr>demux := Fmp4 v' a\<rparr>" by simp
        with moved show thesis by blast
      next
        case (Some x)
        obtain pts kf bytes where x: "x = (pts, kf, bytes)" by (cases x)
        from d True Pair Some x have "push_video (p\<lparr>demux := Fmp4 v' a\<rparr>) pts kf bytes = Some q"
          by (auto simp: bind_eq_Some_conv)
        with True video show thesis by blast
      qed
    qed
  next
    case not_video: False
    show thesis
    proof (cases ?a_left)
      case True
      show thesis
      proof (cases "next_packet ops (m_net w) (the a)")
        case (Pair out a')
        show thesis
        proof (cases out)
          case None
          have "q = p\<lparr>demux := Fmp4 v (Some a')\<rparr>"
            using d unfolding if_not_P[OF not_video] if_P[OF True] Pair None by simp
          with moved show thesis by blast
        next
          case (Some x)
          obtain pts kf bytes where x: "x = (pts, kf, bytes)" by (cases x)
          have "q = push_audio (p\<lparr>demux := Fmp4 v (Some a')\<rparr>) pts bytes"
            using d unfolding if_not_P[OF not_video] if_P[OF True] Pair Some x by simp
          with True audio show thesis by blast
        qed
      qed
    next
      case False
      have "q = p\<lparr>demux_done := True\<rparr> \<or> q = p"
        using d unfolding if_not_P[OF not_video] if_not_P[OF False] by (simp split: if_splits)
      with stopped show thesis by blast
    qed
  qed
  then show ?thesis
  proof cases
    case (video pts kf bytes v')
    with push_video_spec[OF video(2)] 0[of v' a] show ?thesis
      using behind_trans[OF 0[of v' a]] by (auto simp: capped_def)
  next
    case (audio pts bytes a')
    with push_audio_spec[of "p\<lparr>demux := Fmp4 v (Some a')\<rparr>" pts bytes] show ?thesis
      using behind_trans[OF 0[of v "Some a'"]] by (auto simp: capped_def)
  next
    case (moved v' a')
    with 0 show ?thesis by (simp add: capped_def)
  next
    case stopped
    then show ?thesis by (auto simp: behind_def capped_def)
  qed
qed

definition fills :: "MediaWorld \<Rightarrow> 'd StreamPlayer \<Rightarrow> 'd StreamPlayer \<Rightarrow> bool" where
  "fills w p q \<longleftrightarrow> behind p q \<and> (m_video w \<longrightarrow> is_fmp4 (demux p) \<longrightarrow> capped p \<longrightarrow> capped q)"

lemma fills_refl: "fills w p p"
  by (simp add: fills_def)

lemma fills_trans: "fills w p q \<Longrightarrow> fills w q r \<Longrightarrow> fills w p r"
  unfolding fills_def behind_def by simp

lemma gated_spec: "gated w p = (b, q) \<Longrightarrow> behind p q \<and> demux q = demux p \<and> video_q q = video_q p \<and> audio_q q = audio_q p"
  by (auto simp: gated_def ask_def behind_def split: if_splits prod.splits)

lemma demux_at_eof_spec: "demux_at_eof w p = (b, q) \<Longrightarrow> behind p q \<and> demux q = demux p \<and> video_q q = video_q p \<and> audio_q q = audio_q p"
  by (auto simp: demux_at_eof_def ask_def behind_def split: if_splits)

lemma produce_fills:
  assumes "produce ops w (\<not> m_video w \<or> VQ_CAP \<le> length (video_q p)) (AQ_CAP \<le> length (audio_q p)) limit lv la eof p = Some (r, q)"
  shows "fills w p q"
proof (cases "demux p")
  case (Ox src)
  with assms produce_ox_behind[of w eof src p r q] show ?thesis
    by (simp add: produce_def fills_def)
next
  case (Audio src)
  with assms produce_sym_behind[of w eof src p r q] show ?thesis
    by (simp add: produce_def fills_def)
next
  case (Fmp4 v a)
  with assms have "produce_fmp4 ops w (\<not> m_video w \<or> VQ_CAP \<le> length (video_q p)) (AQ_CAP \<le> length (audio_q p)) limit lv la v a p = Some (r, q)"
    by (simp add: produce_def)
  from produce_fmp4_behind[OF this Fmp4] show ?thesis
    by (simp add: fills_def)
qed

lemma fill_turn_spec:
  assumes "fill_turn ops w limit lv la p = Some r"
  shows "fills w p (case r of Inl q \<Rightarrow> q | Inr x \<Rightarrow> snd (snd x))"
proof -
  obtain stop p1 where g: "gated w p = (stop, p1)" by (cases "gated w p")
  obtain eof p2 where e: "demux_at_eof w p1 = (eof, p2)" by (cases "demux_at_eof w p1")
  have 1: "fills w p p1" "fills w p p2" "video_q p2 = video_q p1" "audio_q p2 = audio_q p1"
    using gated_spec[OF g] demux_at_eof_spec[OF e] by (auto simp: fills_def behind_def capped_def)
  let ?vf = "\<not> m_video w \<or> VQ_CAP \<le> length (video_q p1)" and ?af = "AQ_CAP \<le> length (audio_q p1)"
  note d = assms[unfolded fill_turn_def g Let_def prod.case e]
  consider "r = Inl p1" | x q where "produce ops w ?vf ?af limit lv la eof p2 = Some (x, q)" "r = Inl q \<or> (\<exists>n m. r = Inr (n, m, q))"
  proof (cases "stop \<or> ?vf \<and> ?af \<or> (limit < lv \<or> \<not> m_video w) \<and> (audio_dec p1 = None \<or> limit < la)")
    case True
    with d have "r = Inl p1" by (simp split: if_splits)
    with that show thesis by blast
  next
    case False
    then have "\<not> (stop \<or> ?vf \<and> ?af)" "\<not> ((limit < lv \<or> \<not> m_video w) \<and> (audio_dec p1 = None \<or> limit < la))" by blast+
    with d have "Option.bind (produce ops w ?vf ?af limit lv la eof p2) (\<lambda>(x, q). case x of
        Frame pts v \<Rightarrow> Some (Inr (if v then max lv pts else lv, if v then la else max la pts, q))
      | Skip \<Rightarrow> Some (Inr (lv, la, q)) | Stop \<Rightarrow> Some (Inl q)) = Some r"
      by (simp only: if_False)
    then obtain x q where "produce ops w ?vf ?af limit lv la eof p2 = Some (x, q)"
      "(case x of Frame pts v \<Rightarrow> Some (Inr (if v then max lv pts else lv, if v then la else max la pts, q))
         | Skip \<Rightarrow> Some (Inr (lv, la, q)) | Stop \<Rightarrow> Some (Inl q)) = Some r"
      unfolding bind_eq_Some_conv by auto
    with that show thesis by (cases x) auto
  qed
  then show ?thesis
  proof cases
    case 1
    with \<open>fills w p p1\<close> show ?thesis by simp
  next
    case (2 x q)
    then have "fills w p2 q"
      using produce_fills[of ops w p2 limit lv la eof x q] 1(3,4) by simp
    with 1(2) have "fills w p q" by (rule fills_trans)
    with 2(2) show ?thesis by auto
  qed
qed

lemma fill_loop_spec: "fill_loop ops w limit lv la p = Some q \<Longrightarrow> fills w p q"
proof (erule fill_loop.raw_induct[where P = "\<lambda>ops w limit lv la p q. fills w p q", rotated], goal_cases)
  case (1 loop ops w limit lv la p q)
  then obtain r where r: "fill_turn ops w limit lv la p = Some r"
    "(case r of Inl p \<Rightarrow> Some p | Inr x \<Rightarrow> loop ops w limit (fst x) (fst (snd x)) (snd (snd x))) = Some q"
    unfolding bind_eq_Some_conv by blast
  with 1(1) fill_turn_spec[OF r(1)] show ?case
    by (cases r) (auto intro: fills_trans)
qed

lemma fill_queues_spec: "fill_queues ops w p = Some q \<Longrightarrow> fills w p q"
  unfolding fill_queues_def by (rule fill_loop_spec)

lemma decode_one_spec: "decode_one w dec af p = Some q \<Longrightarrow> behind p q \<and> demux q = demux p \<and> video_q q = video_q p"
  by (auto simp: decode_one_def ask_def Let_def behind_def bind_eq_Some_conv split: if_splits option.splits)

lemma decode_loop_spec:
  "decode_loop w fs p = Some q \<Longrightarrow> behind p q \<and> demux q = demux p \<and> video_q q = video_q p \<and> length (audio_q q) \<le> length fs"
proof (induction fs arbitrary: p)
  case Nil
  then show ?case by (auto simp: behind_def)
next
  case (Cons af fs)
  show ?case
  proof (cases "length (pending_pcm p) < PCM_CAP")
    case False
    with Cons.prems show ?thesis by (auto simp: behind_def)
  next
    case True
    show ?thesis
    proof (cases "audio_dec p")
      case None
      with Cons.prems True show ?thesis by (auto simp: behind_def)
    next
      case (Some dec)
      with Cons.prems True obtain r where r: "decode_one w dec af p = Some r" "decode_loop w fs r = Some q"
        by (auto simp: bind_eq_Some_conv)
      with Cons.IH[OF r(2)] decode_one_spec[OF r(1)] behind_trans show ?thesis by fastforce
    qed
  qed
qed

lemma decode_audio_spec: "decode_audio w p = Some q \<Longrightarrow> fills w p q"
  using decode_loop_spec[of w "audio_q p" p q] by (auto simp: decode_audio_def fills_def capped_def split: if_splits)

definition seeks :: "'d StreamPlayer \<Rightarrow> 'd StreamPlayer \<Rightarrow> bool" where
  "seeks p q \<longleftrightarrow> audio_started q = audio_started p \<and> paused q = paused p \<and> is_fmp4 (demux q) = is_fmp4 (demux p)
     \<and> (balanced p \<longrightarrow> balanced q) \<and> (capped p \<longrightarrow> capped q) \<and> grown (\<lambda>a. a \<noteq> DevStart \<and> \<not> shown a) p q"

lemma reposition_spec: "reposition w t p = (l, q) \<Longrightarrow>
    behind p q \<and> video_q q = video_q p \<and> audio_q q = audio_q p"
  by (auto simp: reposition_def ask_def Let_def behind_def split: Demux.splits prod.splits)

lemma reset_balanced:
  assumes "balanced p"
  shows "balanced (reset_clock (if v then reset_video p else p))"
proof -
  have "balanced (reset_video p)"
    using assms by (intro balanced_act[of p "reset_video p" DecReset]) (simp_all add: reset_video_def perform_def)
  then have "balanced (if v then reset_video p else p)"
    using assms by simp
  then show ?thesis
    by (rule balanced_neutral) (simp add: reset_clock_def perform_def)+
qed

lemma do_seek_spec: "seeks p (snd (do_seek w t p))"
proof -
  obtain l q where r: "reposition w (clamp 0 (max 0 (duration_us p)) t) p = (l, q)"
    by (cases "reposition w (clamp 0 (max 0 (duration_us p)) t) p")
  note q = reposition_spec[OF r]
  have b: "balanced p \<longrightarrow> balanced q"
    using q balanced_same[of q p] by (simp add: behind_def)
  show ?thesis
  proof (cases l)
    case None
    with r q b show ?thesis
      by (simp add: do_seek_def seeks_def behind_def capped_def grown_def)
  next
    case (Some landed)
    let ?r = "reset_clock (if m_video w then reset_video q else q)"
    have "snd (do_seek w t p) = ?r\<lparr>play_done := False, demux_done := False, clock_us := landed\<rparr>"
      using r Some by (simp add: do_seek_def)
    moreover have "balanced p \<longrightarrow> balanced (?r\<lparr>play_done := False, demux_done := False, clock_us := landed\<rparr>)"
      using b reset_balanced[of q "m_video w"] balanced_same[of "?r\<lparr>play_done := False, demux_done := False, clock_us := landed\<rparr>" ?r]
      by simp
    ultimately show ?thesis
      using q
      by (simp add: seeks_def behind_def capped_def grown_def reset_clock_def reset_video_def perform_def)
  qed
qed

lemma bg_play_spec:
  assumes "bg_play ops w req p = Some q"
  shows "\<exists>p1. (p1 = p \<or> seeks p p1) \<and> fills w p1 q"
proof -
  let ?p1 = "case req of Some t \<Rightarrow> snd (do_seek w t p) | None \<Rightarrow> p"
  obtain p2 where "fill_queues ops w ?p1 = Some p2" "decode_audio w p2 = Some q"
    using assms unfolding bg_play_def Let_def bind_eq_Some_conv by blast
  then have "fills w ?p1 q"
    using fill_queues_spec decode_audio_spec fills_trans by blast
  moreover have "?p1 = p \<or> seeks p ?p1"
    by (cases req) (simp_all add: do_seek_spec)
  ultimately show ?thesis by blast
qed

end
