(* ===== verification/PlayerRun.thy ===== *)
theory PlayerRun
  imports PlayerStep
begin

text \<open>
  What holds of the playback pipeline over any interleaving of frames and background ticks, and
  runs that go wrong.
\<close>

section \<open>Invariants of playback\<close>

text \<open>Frames and background ticks in any order; \<open>pausing\<close> says whether the user may pause.\<close>

inductive play_step :: "'d Demuxers \<Rightarrow> MediaWorld \<Rightarrow> bool \<Rightarrow> 'd StreamPlayer \<Rightarrow> 'd StreamPlayer \<Rightarrow> bool" for ops w pausing where
  Pumped: "pump_stream w nanos c p = Some (c', p') \<Longrightarrow> c_paused c \<longrightarrow> pausing \<Longrightarrow> play_step ops w pausing p p'"
| Ticked: "bg_play ops w req p = Some p' \<Longrightarrow> play_step ops w pausing p p'"

inductive playing :: "'d Demuxers \<Rightarrow> MediaWorld \<Rightarrow> bool \<Rightarrow> 'd StreamPlayer \<Rightarrow> 'd StreamPlayer \<Rightarrow> bool" for ops w pausing p0 where
  Installed: "playing ops w pausing p0 p0"
| Steps: "playing ops w pausing p0 p \<Longrightarrow> play_step ops w pausing p p' \<Longrightarrow> playing ops w pausing p0 p'"

text \<open>A property that both kinds of steps keep holds of the whole playback.\<close>

locale playback_invariant =
  fixes ops :: "'d Demuxers" and w :: MediaWorld and pausing :: bool and I :: "'d StreamPlayer \<Rightarrow> bool"
  assumes pumped: "I p \<Longrightarrow> pump_stream w nanos c p = Some (c', p') \<Longrightarrow> c_paused c \<longrightarrow> pausing \<Longrightarrow> I p'"
    and sought: "I p \<Longrightarrow> seeks p p' \<Longrightarrow> I p'"
    and filled: "I p \<Longrightarrow> fills w p p' \<Longrightarrow> I p'"
begin

lemma step_keeps: "play_step ops w pausing p p' \<Longrightarrow> I p \<Longrightarrow> I p'"
proof (induction rule: play_step.induct)
  case (Ticked req p p')
  from bg_play_spec[OF Ticked(1)] obtain p1 where "p1 = p \<or> seeks p p1" "fills w p1 p'" by blast
  with Ticked(2) sought filled show ?case by metis
qed (use pumped in blast)

lemma playing_keeps: "playing ops w pausing p0 p \<Longrightarrow> I p0 \<Longrightarrow> I p"
  by (induction rule: playing.induct) (use step_keeps in blast)+

end

definition revealed :: "nat \<Rightarrow> 'd StreamPlayer \<Rightarrow> 'd StreamPlayer" where
  "revealed nanos p = (if t0_ns p = 0 then p\<lparr>t0_ns := nanos\<rparr> else p)"

lemma pump_stream_cases:
  assumes "pump_stream w nanos c p = Some (c', q)"
  shows "(let p1 = apply_pause w nanos (c_paused c) (revealed nanos p) in
      if paused p1 then q = p1 else \<exists>c1. pump_running w nanos c1 p1 = Some q)"
proof -
  have r: "snd (reveal nanos c p) = revealed nanos p" "c_paused (fst (reveal nanos c p)) = c_paused c"
    by (simp_all add: reveal_def revealed_def Let_def)
  obtain c1 p1 where p1: "reveal nanos c p = (c1, p1)" by (cases "reveal nanos c p")
  with r have e: "p1 = revealed nanos p" "c_paused c1 = c_paused c" by simp_all
  show ?thesis
    using assms unfolding pump_stream_def p1 Let_def prod.case e
    by (auto simp: bind_eq_Some_conv split: if_splits)
qed

lemma apply_pause_spec:
  "submitted (apply_pause w nanos b p) = submitted p" "presented (apply_pause w nanos b p) = presented p"
  "video_q (apply_pause w nanos b p) = video_q p" "audio_q (apply_pause w nanos b p) = audio_q p"
  "demux (apply_pause w nanos b p) = demux p" "paused (apply_pause w nanos b p) = b"
  "audio_started (apply_pause w nanos b p) = audio_started p"
  "\<not> b \<Longrightarrow> \<not> paused p \<Longrightarrow> acts (apply_pause w nanos b p) = acts p"
  by (auto simp: apply_pause_def perform_def Let_def)

lemma revealed_spec [simp]:
  "submitted (revealed nanos p) = submitted p" "presented (revealed nanos p) = presented p"
  "video_q (revealed nanos p) = video_q p" "audio_q (revealed nanos p) = audio_q p"
  "demux (revealed nanos p) = demux p" "paused (revealed nanos p) = paused p"
  "audio_started (revealed nanos p) = audio_started p" "acts (revealed nanos p) = acts p"
  "clock_us (revealed nanos p) = clock_us p"
  by (simp_all add: revealed_def)

lemma apply_pause_acts: "\<exists>new. acts (apply_pause w nanos b p) = acts p @ new \<and> list_all (\<lambda>a. \<not> shown a) new"
proof (cases "b = paused p")
  case True
  then show ?thesis by (simp add: apply_pause_def)
next
  case False
  then show ?thesis by (cases b) (simp_all add: apply_pause_def perform_def Let_def)
qed

lemma apply_pause_balanced: "balanced p \<Longrightarrow> balanced (apply_pause w nanos b p)"
proof -
  assume p: "balanced p"
  have "balanced q" if "acts q = acts p @ [a]" "a = DevPause \<or> a = DevStart" "submitted q = submitted p" "presented q = presented p"
    for q :: "'a StreamPlayer" and a
    using that by (intro balanced_neutral[OF p that(1,3,4)]) auto
  with p show ?thesis
    by (auto simp: apply_pause_def perform_def Let_def)
qed

lemma pump_running_balanced:
  assumes "pump_running w nanos c p = Some q" "balanced p"
  shows "balanced q"
proof -
  obtain p0 p1 where 0: "same_video p p0" "acts p0 = acts p"
    and 1: "p1 = audio_out w nanos c (media_clock w nanos (device_backlog w p) p) p0"
    and q: "video_part nanos (media_clock w nanos (device_backlog w p) p) p1 q"
    using pump_running_parts[OF assms(1)] by blast
  have "balanced p0"
    using assms(2) 0 balanced_same[of p0 p] by (simp add: same_video_def)
  moreover have "feeds p0 p1" "same_video p0 p1"
    using 1 audio_out_spec by blast+
  ultimately have "balanced p1" by (rule feeds_balanced[rotated 2])
  with q show ?thesis by (simp only: video_part_def)
qed

interpretation cushion: playback_invariant ops w pausing balanced for ops w pausing
proof unfold_locales
  fix p :: "'d StreamPlayer" and nanos c c' p'
  assume I: "balanced p" and p: "pump_stream w nanos c p = Some (c', p')"
  let ?p1 = "apply_pause w nanos (c_paused c) (revealed nanos p)"
  have "balanced (revealed nanos p)"
    using I balanced_same[of "revealed nanos p" p] by simp
  then have 1: "balanced ?p1" by (rule apply_pause_balanced)
  from pump_stream_cases[OF p] consider "p' = ?p1" | c1 where "pump_running w nanos c1 ?p1 = Some p'"
    by (auto simp: Let_def split: if_splits)
  then show "balanced p'"
    by cases (use 1 pump_running_balanced in blast)+
next
  fix p p' :: "'d StreamPlayer"
  assume "balanced p" "fills w p p'"
  then show "balanced p'"
    using balanced_same[of p' p] by (simp add: fills_def behind_def)
qed (simp add: seeks_def)

definition within_caps :: "'d StreamPlayer \<Rightarrow> bool" where
  "within_caps p \<longleftrightarrow> is_fmp4 (demux p) \<and> capped p"

interpretation caps: playback_invariant ops w pausing "\<lambda>p. m_video w \<longrightarrow> within_caps p" for ops w pausing
proof unfold_locales
  fix p :: "'d StreamPlayer" and nanos c c' p'
  assume I: "m_video w \<longrightarrow> within_caps p" and p: "pump_stream w nanos c p = Some (c', p')"
  let ?p1 = "apply_pause w nanos (c_paused c) (revealed nanos p)"
  have 1: "m_video w \<longrightarrow> within_caps ?p1"
    using I by (simp add: within_caps_def capped_def apply_pause_spec)
  from pump_stream_cases[OF p] consider "p' = ?p1" | c1 where "pump_running w nanos c1 ?p1 = Some p'"
    by (auto simp: Let_def split: if_splits)
  then show "m_video w \<longrightarrow> within_caps p'"
  proof cases
    case (2 c1)
    with 1 pump_running_video(3,4)[OF 2] show ?thesis
      by (auto simp: within_caps_def capped_def same_stream_def)
  qed (use 1 in simp)
qed (auto simp: seeks_def fills_def behind_def within_caps_def)

text \<open>The device has been started only after it was given something.\<close>

definition fed_first :: "PlayAct list \<Rightarrow> bool" where
  "fed_first xs \<longleftrightarrow> (\<forall>pre post. xs = pre @ DevStart # post \<longrightarrow> (\<exists>pcm n. DevWrite pcm n \<in> set pre \<and> 0 < n))"

lemma fed_first_grown: "fed_first xs \<Longrightarrow> list_all (\<lambda>a. a \<noteq> DevStart) new \<Longrightarrow> fed_first (xs @ new)"
  unfolding fed_first_def by (auto simp: append_eq_append_conv2 append_eq_Cons_conv Cons_eq_append_conv)

lemma fed_first_start: "fed_first xs \<Longrightarrow> 0 < n \<Longrightarrow> fed_first (xs @ [DevWrite pcm n, DevStart])"
  unfolding fed_first_def
  by (auto simp: append_eq_append_conv2 append_eq_Cons_conv Cons_eq_append_conv) blast+


text \<open>While nobody pauses, the only start is the one after the first accepted write.\<close>

definition fed :: "'d StreamPlayer \<Rightarrow> bool" where
  "fed p \<longleftrightarrow> \<not> paused p \<and> fed_first (acts p)"

lemma feeds_acts: "feeds p q \<Longrightarrow> \<exists>new. acts q = acts p @ new \<and> list_all (\<lambda>a. \<not> shown a) new"
  by (auto simp: feeds_def)

lemma feeds_fed: "feeds p q \<Longrightarrow> fed_first (acts p) \<Longrightarrow> fed_first (acts q)"
proof -
  assume f: "feeds p q" and I: "fed_first (acts p)"
  from f consider "acts q = acts p" | pcm n where "acts q = acts p @ [DevWrite pcm n]"
    | pcm n where "acts q = acts p @ [DevWrite pcm n, DevStart]" "0 < n"
    unfolding feeds_def by blast
  then show ?thesis
    by cases (use I fed_first_grown[of "acts p"] fed_first_start in simp_all)
qed

lemma pump_running_fed:
  assumes "pump_running w nanos c p = Some q" "fed_first (acts p)"
  shows "fed_first (acts q)"
proof -
  obtain p0 p1 where 0: "acts p0 = acts p" and 1: "p1 = audio_out w nanos c (media_clock w nanos (device_backlog w p) p) p0"
    and q: "video_part nanos (media_clock w nanos (device_backlog w p) p) p1 q"
    using pump_running_parts[OF assms(1)] by blast
  have "feeds p0 p1"
    using 1 audio_out_spec by blast
  with assms(2) 0 have "fed_first (acts p1)"
    by (metis feeds_fed)
  moreover obtain new where "acts q = acts p1 @ new" "list_all (\<lambda>a. on_time nanos (media_clock w nanos (device_backlog w p) p) a \<and> a \<noteq> DevStart) new"
    using q unfolding video_part_def grown_def by blast
  ultimately show ?thesis
    using fed_first_grown by (metis (no_types, lifting) list_all_iff)
qed

interpretation feeding: playback_invariant ops w False fed for ops w
proof unfold_locales
  fix p p' :: "'d StreamPlayer" and nanos c c'
  assume I: "fed p" and p: "pump_stream w nanos c p = Some (c', p')" and np: "c_paused c \<longrightarrow> False"
  let ?p1 = "apply_pause w nanos (c_paused c) (revealed nanos p)"
  have 1: "fed ?p1"
    using I np by (simp add: fed_def apply_pause_spec)
  then obtain c1 where r: "pump_running w nanos c1 ?p1 = Some p'"
    using pump_stream_cases[OF p] by (auto simp: fed_def Let_def)
  have "paused p' = paused ?p1"
    using pump_running_video(4)[OF r] by (simp add: same_stream_def)
  with 1 pump_running_fed[OF r] show "fed p'"
    by (simp add: fed_def)
next
  fix p p' :: "'d StreamPlayer"
  assume I: "fed p" and s: "seeks p p'"
  obtain new where "acts p' = acts p @ new" "list_all (\<lambda>a. a \<noteq> DevStart \<and> \<not> shown a) new"
    using s unfolding seeks_def grown_def by blast
  with I s show "fed p'"
    unfolding fed_def seeks_def by (metis (no_types, lifting) fed_first_grown list_all_iff)
qed (simp add: fills_def behind_def fed_def)

section \<open>Properties\<close>

text \<open>The player just after its installation.\<close>

lemma installed [simp]:
  "balanced (install_player dx ps nl annexb dec rs dur pre)"
  "within_caps (install_player (Fmp4 v a) ps nl annexb dec rs dur pre)"
  "fed (install_player dx ps nl annexb dec rs dur pre)"
  by (simp_all add: install_player_def balanced_def given_def taken_def since_reset_def within_caps_def capped_def fed_def fed_first_def Cons_eq_append_conv)

text \<open>
  C19. However frames, pauses, seeks and background ticks follow one another, at every moment of a
  playback the decoder has accepted at most twenty access units more than it has returned frames,
  both counted from the log of what was done since the decoder was last reset, as every seek does.
\<close>
theorem decode_cushion:
  assumes "playing ops w True (install_player dx ps nl annexb dec rs dur pre) p" "acts p = before @ later"
  shows "length (filter to_decoder (since_reset before)) \<le> length (filter from_decoder (since_reset before)) + 20"
  using cushion.playing_keeps[OF assms(1) installed(1)] assms(2)
  by (simp add: balanced_def DECODE_AHEAD_def given_def taken_def)

text \<open>
  The queues of a DASH stream never hold more than 150 access units and 250 audio packets.
\<close>
theorem dash_queues_bounded:
  assumes "m_video w" "playing ops w True (install_player (Fmp4 v a) ps nl annexb dec rs dur pre) p"
  shows "length (video_q p) \<le> 150 \<and> length (audio_q p) \<le> 250"
  using caps.playing_keeps[OF assms(2)] assms(1) installed(2)[of v a] by (simp add: within_caps_def capped_def VQ_CAP_def AQ_CAP_def)

text \<open>
  As long as nobody pauses, the audio device is started only after it has accepted frames.
\<close>
theorem write_then_start:
  assumes "playing ops w False (install_player dx ps nl annexb dec rs dur pre) p" "acts p = before @ DevStart # after"
  shows "\<exists>pcm n. DevWrite pcm n \<in> set before \<and> 0 < n"
  using feeding.playing_keeps[OF assms(1) installed(3)] assms(2) unfolding fed_def fed_first_def by blast


lemma on_time_exact:
  assumes "on_time nanos now (SurfPresent pts t)"
  shows "now - 150000 \<le> pts \<and> t = sat_add nanos (nat (max 0 (pts - now)) * 1000 mod 2 ^ 64)
    \<and> (pts - now \<le> 2 ^ 64 div 1000 \<longrightarrow> t = sat_add nanos (nat (max 0 (pts - now)) * 1000))"
proof -
  have "nat (max 0 x) * 1000 mod 2 ^ 64 = nat (max 0 x) * 1000" if "x \<le> 2 ^ 64 div 1000" for x :: int
  proof (rule mod_less)
    have "max 0 x * 1000 < 2 ^ 64" using that by simp
    then have "int (nat (max 0 x) * 1000) < int (2 ^ 64)" by simp
    then show "nat (max 0 x) * 1000 < 2 ^ 64" by (simp only: of_nat_less_iff)
  qed
  from this[of "pts - now"] assms show ?thesis
    by (simp add: LATE_DROP_US_def)
qed

text \<open>
  C18. Every frame a pump puts on the surface is at most 150 ms behind the clock of that pump, and is
  put there for now, or for as much later as its time stamp is ahead of the clock.  The distance in
  nanoseconds is computed at 64 bits, so this is exact up to 584 years ahead and wraps beyond.
\<close>
theorem present_on_time:
  assumes "pump_stream w nanos c p = Some (c', q)"
  shows "\<exists>new. acts q = acts p @ new \<and> (\<forall>pts at_ns. SurfPresent pts at_ns \<in> set new \<longrightarrow>
     clock_us q - 150000 \<le> pts
     \<and> at_ns = sat_add nanos (nat (max 0 (pts - clock_us q)) * 1000 mod 2 ^ 64)
     \<and> (pts - clock_us q \<le> 2 ^ 64 div 1000 \<longrightarrow> at_ns = sat_add nanos (nat (max 0 (pts - clock_us q)) * 1000)))"
proof -
  let ?p1 = "apply_pause w nanos (c_paused c) (revealed nanos p)"
  obtain first where 1: "acts ?p1 = acts p @ first" "list_all (\<lambda>a. \<not> shown a) first"
    using apply_pause_acts[of w nanos "c_paused c" "revealed nanos p"] by auto
  from pump_stream_cases[OF assms] consider "q = ?p1" | c1 where "pump_running w nanos c1 ?p1 = Some q"
    by (auto simp: Let_def split: if_splits)
  then show ?thesis
  proof cases
    case 1
    with \<open>acts ?p1 = acts p @ first\<close> \<open>list_all (\<lambda>a. \<not> shown a) first\<close> show ?thesis
      by (fastforce simp: list_all_iff)
  next
    case (2 c1)
    let ?now = "media_clock w nanos (device_backlog w ?p1) ?p1"
    obtain p0 p2 where 0: "acts p0 = acts ?p1" and p2: "p2 = audio_out w nanos c1 ?now p0"
      and q: "video_part nanos ?now p2 q" and now: "clock_us q = ?now"
      using pump_running_parts[OF 2] by blast
    obtain fed where fed: "acts p2 = acts p0 @ fed" "list_all (\<lambda>a. \<not> shown a) fed"
      using p2 audio_out_spec feeds_acts by blast
    from q obtain last where "acts q = acts p2 @ last" "list_all (\<lambda>a. on_time nanos ?now a \<and> a \<noteq> DevStart) last"
      unfolding video_part_def grown_def by blast
    with 0 1 fed have "acts q = acts p @ (first @ fed @ last)"
      "\<forall>pts at_ns. SurfPresent pts at_ns \<in> set (first @ fed @ last) \<longrightarrow> on_time nanos ?now (SurfPresent pts at_ns)"
      by (auto simp: list_all_iff)
    then show ?thesis
      unfolding now using on_time_exact by (intro exI[of _ "first @ fed @ last"]) blast
  qed
qed

text \<open>Frames drawn while playback is paused.\<close>

inductive frozen :: "MediaWorld \<Rightarrow> 'd StreamPlayer \<Rightarrow> 'd StreamPlayer \<Rightarrow> bool" for w p where
  Frozen: "frozen w p p"
| Frame: "frozen w p q \<Longrightarrow> c_paused c \<Longrightarrow> pump_stream w nanos c q = Some (c', r) \<Longrightarrow> frozen w p r"

lemma frozen_same: "frozen w p q \<Longrightarrow> paused p \<Longrightarrow> t0_ns p \<noteq> 0 \<Longrightarrow> q = p"
proof (induction rule: frozen.induct)
  case (Frame q c nanos c' r)
  then have "paused q" "t0_ns q \<noteq> 0" "q = p" by simp_all
  with pump_stream_cases[OF Frame(3)] Frame(2) show ?case
    by (simp add: revealed_def apply_pause_def Let_def)
qed simp

lemma running_clock_resumed:
  assumes "\<not> paused p" "t1 \<le> t2" "t2 < 2 ^ 64" "audio_start_ns p \<le> t1" "origin_ns p \<le> t1"
  shows "media_clock w t2 b (apply_pause w t2 False (apply_pause w t1 True p)) = media_clock w t1 b p"
proof -
  let ?r = "apply_pause w t2 False (apply_pause w t1 True p)"
  have shift: "t2 - sat_add s (t2 - t1) = t1 - s" if "s \<le> t1" for s
    using assms(2,3) that by (simp add: sat_add_def min_def)
  have r: "audio_start_ns ?r = (if 0 < audio_start_ns p then sat_add (audio_start_ns p) (t2 - t1) else audio_start_ns p)"
    "origin_ns ?r = (if m_video w then sat_add (origin_ns p) (t2 - t1) else origin_ns p)"
    "audio_pts_known ?r = audio_pts_known p" "has_audio ?r = has_audio p" "audio_first_pts_us ?r = audio_first_pts_us p"
    "first_pts_us ?r = first_pts_us p" "demux ?r = demux p" "demux_done ?r = demux_done p" "audio_q ?r = audio_q p"
    "pending_pcm ?r = pending_pcm p" "clock_us ?r = clock_us p" "duration_us ?r = duration_us p"
    using assms(1) by (simp_all add: apply_pause_def perform_def Let_def)
  have m: "audio_master ?r = audio_master p"
    using r(1,3,4) assms(2,3) unfolding audio_master_def sat_add_def by auto
  have "running_clock w t2 b ?r = running_clock w t1 b p"
  proof (cases "audio_master p")
    case True
    then have "0 < audio_start_ns p" by (simp add: audio_master_def)
    with True m r(1,5) shift[OF assms(4)] show ?thesis
      by (simp only: running_clock_def if_True simp_thms)
  next
    case False
    with m r(2,6) shift[OF assms(5)] show ?thesis
      by (simp add: running_clock_def split: option.split)
  qed
  moreover have "track_ended b ?r = track_ended b p"
    using r by (simp add: track_ended_def audio_only_def)
  ultimately show ?thesis
    unfolding media_clock_def Let_def r by presburger
qed

text \<open>
  C17. A pause is invisible to the clock: paused at \<open>t1\<close> and resumed at \<open>t2\<close>, after any number of
  paused frames, the player shows at \<open>t2\<close> the time that it would have shown at \<open>t1\<close>.
\<close>
theorem pause_invisible:
  assumes "\<not> paused p" "t0_ns p \<noteq> 0" "audio_start_ns p \<le> t1" "origin_ns p \<le> t1" "t1 \<le> t2" "t2 < 2 ^ 64"
    and "c_paused c1" "pump_stream w t1 c1 p = Some (c1', p1)" "frozen w p1 p2"
    and "\<not> c_paused c2" "pump_stream w t2 c2 p2 = Some (c2', p3)"
  shows "clock_us p3 = media_clock w t1 (device_backlog w p) p"
proof -
  have 1: "p1 = apply_pause w t1 True p"
    using pump_stream_cases[OF assms(8)] assms(1,2,7) by (simp add: revealed_def apply_pause_spec Let_def)
  then have "paused p1" "t0_ns p1 \<noteq> 0" "calls p1 = calls p"
    using assms(1,2) by (simp_all add: apply_pause_def perform_def)
  with frozen_same[OF assms(9)] have "p2 = p1" by simp
  let ?r = "apply_pause w t2 False p1"
  obtain c where "pump_running w t2 c ?r = Some p3"
    using pump_stream_cases[OF assms(11)] \<open>p2 = p1\<close> \<open>t0_ns p1 \<noteq> 0\<close> assms(10) by (auto simp: revealed_def apply_pause_spec Let_def)
  then have "clock_us p3 = media_clock w t2 (device_backlog w ?r) ?r"
    by (rule pump_running_video)
  moreover have "device_backlog w ?r = device_backlog w p"
    using \<open>calls p1 = calls p\<close> by (simp add: device_backlog_def apply_pause_def perform_def Let_def)
  ultimately show ?thesis
    using running_clock_resumed[OF assms(1,5,6,3,4)] 1 by simp
qed

text \<open>
  Paused before anything was heard and resumed, the device is started although nothing was written.
\<close>
theorem resume_starts_empty:
  assumes "p = install_player dx ps nl annexb dec rs dur pre"
    and "c_paused c1" "pump_stream w t1 c1 p = Some (c1', p1)" "\<not> c_paused c2" "pump_stream w t2 c2 p1 = Some (c2', p2)"
  shows "\<exists>more. acts p2 = [DevFlush, DevPause, DevStart] @ more"
proof -
  have "\<not> paused p" "acts p = [DevFlush]"
    by (simp_all add: assms(1) install_player_def)
  have 1: "p1 = apply_pause w t1 True (revealed t1 p)"
    using pump_stream_cases[OF assms(3)] assms(2) by (simp add: apply_pause_spec Let_def)
  then have p1: "paused p1" "acts p1 = [DevFlush, DevPause]"
    using \<open>\<not> paused p\<close> \<open>acts p = [DevFlush]\<close> by (simp_all add: apply_pause_def perform_def)
  let ?r = "apply_pause w t2 False (revealed t2 p1)"
  have r: "acts ?r = [DevFlush, DevPause, DevStart]"
    using p1 by (simp add: apply_pause_def perform_def Let_def)
  obtain c where run: "pump_running w t2 c ?r = Some p2"
    using pump_stream_cases[OF assms(5)] assms(4) by (auto simp: apply_pause_spec Let_def)
  obtain p3 p4 where 3: "acts p3 = acts ?r" and "p4 = audio_out w t2 c (media_clock w t2 (device_backlog w ?r) ?r) p3"
    and 4: "video_part t2 (media_clock w t2 (device_backlog w ?r) ?r) p4 p2"
    using pump_running_parts[OF run] by blast
  then have "feeds p3 p4" using audio_out_spec by blast
  then obtain m1 where "acts p4 = acts p3 @ m1" unfolding feeds_def by force
  moreover obtain m2 where "acts p2 = acts p4 @ m2" using 4 unfolding video_part_def grown_def by blast
  ultimately show ?thesis
    using 3 r by simp
qed

text \<open>
  With an unknown duration every skip goes to the start, although the target of the skip was left
  open for that case.
\<close>
theorem seek_unknown_duration:
  assumes "duration_us p \<le> 0"
  shows "do_seek w (seek_from_clock delta (Some p)) p = do_seek w 0 p"
  using assms by (simp add: do_seek_def clamp_def)


section \<open>The end of a pump and of a fill\<close>

lemma show_frame_calls [simp]: "calls (show_frame nanos now pts p) = calls p"
  by (simp add: show_frame_def perform_def Let_def)

lemma present_loop_returns:
  "\<forall>n \<ge> N. m_decoded w n = None \<Longrightarrow> \<exists>q. present_loop w nanos now p = Some q"
proof (induction "N - calls p" arbitrary: p rule: less_induct)
  case less
  show ?case
  proof (cases "m_decoded w (calls p)")
    case None
    then show ?thesis by (subst present_loop.simps) simp
  next
    case (Some pts)
    with less.prems have "calls p < N" by (metis not_le option.distinct(1))
    let ?p = "show_frame nanos now pts (p\<lparr>calls := Suc (calls p)\<rparr>)"
    have "\<exists>q. present_loop w nanos now ?p = Some q"
      using less.hyps[of ?p] less.prems \<open>calls p < N\<close> by simp
    with Some show ?thesis by (subst present_loop.simps) simp
  qed
qed

lemma pump_video_returns: "\<forall>n \<ge> N. m_decoded w n = None \<Longrightarrow> \<exists>q. pump_video w nanos now p = Some q"
  by (simp add: pump_video_def present_loop_returns)

lemma pump_running_returns:
  assumes "\<forall>n \<ge> N. m_decoded w n = None"
  shows "\<exists>q. pump_running w nanos c p = Some q"
  unfolding pump_running_def Let_def ask_def prod.case bind_eq_Some_conv using pump_video_returns[OF assms] by fast

text \<open>
  A pump returns, whatever the player has been through, if the decoder runs out of frames.
\<close>
lemma pump_returns:
  assumes "\<forall>n \<ge> N. m_decoded w n = None"
  shows "\<exists>c' q. pump_stream w nanos c p = Some (c', q)"
  unfolding pump_stream_def Let_def by (cases "reveal nanos c p") (simp add: bind_eq_Some_conv pump_running_returns[OF assms])

text \<open>Background ticks, one after the other.\<close>

fun ticks :: "'d Demuxers \<Rightarrow> MediaWorld \<Rightarrow> nat \<Rightarrow> 'd StreamPlayer \<Rightarrow> 'd StreamPlayer option" where
  "ticks ops w 0 p = Some p"
| "ticks ops w (Suc n) p = Option.bind (bg_play ops w None p) (ticks ops w n)"

text \<open>A local file without sound, demuxed ahead of the clock as far as it should.\<close>

definition silent_ahead :: "MediaWorld \<Rightarrow> OxSource \<Rightarrow> 'd StreamPlayer \<Rightarrow> bool" where
  "silent_ahead w src p \<longleftrightarrow> m_video w \<and> demux p = Ox src \<and> audio_dec p = None \<and> \<not> has_audio p \<and> audio_q p = []
     \<and> \<not> prefetch p \<and> \<not> video_annexb p
     \<and> (\<forall>n. \<exists>pkt. m_packet w n = Some pkt \<and> pk_stream pkt = video_stream src
            \<and> clock_us p + LOOKAHEAD_US < fst (seg_frame (v_num src) (v_den src) pkt))"

lemma silent_tick:
  assumes "silent_ahead w src p" "- (2 ^ 63) \<le> clock_us p + LOOKAHEAD_US"
  shows "\<exists>q. bg_play ops w None p = Some q \<and> length (video_q q) = Suc (length (video_q p)) \<and> silent_ahead w src q
    \<and> clock_us q = clock_us p"
proof -
  let ?limit = "clock_us p + LOOKAHEAD_US"
  obtain pkt pts kf bytes where pkt: "m_packet w (calls p) = Some pkt" "pk_stream pkt = video_stream src" "?limit < pts"
    "seg_frame (v_num src) (v_den src) pkt = (pts, kf, bytes)"
    using assms(1) unfolding silent_ahead_def by (metis fst_conv prod_cases3)
  let ?q = "p\<lparr>calls := Suc (calls p), video_q := video_q p @ [\<lparr>vf_pts = pts, vf_key = kf, vf_data = bytes\<rparr>]\<rparr>"
  have q: "silent_ahead w src ?q"
    using assms(1) by (simp add: silent_ahead_def)
  have m: "max (- (2 ^ 63)) pts = pts"
    using assms(2) pkt(3) by simp
  have 1: "fill_turn ops w ?limit (- (2 ^ 63)) (- (2 ^ 63)) p = Some (Inr (pts, - (2 ^ 63), ?q))"
    using assms pkt m
    by (simp add: silent_ahead_def fill_turn_def gated_def demux_at_eof_def produce_def produce_ox_def ask_def push_video_def
        AQ_CAP_def Let_def)
  have g: "gated w ?q = (False, ?q)" "m_video w" "audio_dec ?q = None" "audio_q ?q = []"
    using q by (simp_all only: silent_ahead_def gated_def if_False)
  have 2: "fill_turn ops w ?limit pts (- (2 ^ 63)) ?q = Some (Inl ?q)"
    unfolding fill_turn_def g(1) Let_def prod.case g(4) using g(2,3) pkt(3) by (simp add: AQ_CAP_def)
  have "fill_queues ops w p = Some ?q"
    unfolding fill_queues_def using 1 2 by (subst fill_loop.simps, simp, subst fill_loop.simps, simp)
  moreover have "decode_audio w ?q = Some ?q"
    using q by (simp add: silent_ahead_def decode_audio_def)
  ultimately have "bg_play ops w None p = Some ?q"
    by (simp add: bg_play_def)
  with q show ?thesis by simp
qed

text \<open>
  Without sound the cap of the video queue is never consulted: when the demuxer has reached the
  look-ahead, every background tick of a paused player queues one access unit more, without bound.
\<close>
theorem video_queue_unbounded:
  assumes "silent_ahead w src p" "- (2 ^ 63) \<le> clock_us p + LOOKAHEAD_US"
  shows "\<exists>q. ticks ops w n p = Some q \<and> length (video_q q) = length (video_q p) + n"
  using assms
proof (induction n arbitrary: p)
  case (Suc n)
  obtain q where q: "bg_play ops w None p = Some q" "length (video_q q) = Suc (length (video_q p))" "silent_ahead w src q"
    "clock_us q = clock_us p"
    using silent_tick[OF Suc.prems] by blast
  with Suc.IH[OF q(3)] Suc.prems(2) show ?case by simp
qed simp


section \<open>Examples\<close>

definition film_reader :: ReaderShared where
  "film_reader = \<lparr>chunks = [], read_pos = 0, total_len = 0, pf_inflight = False, streaming = False, blocking_fetches = 0, prefetches = 0\<rparr>"

text \<open>A film whose packets are ten seconds in, and whose decoder returns one frame.\<close>

definition film_world :: MediaWorld where
  "film_world = \<lparr>m_video = True, m_net = demo_media, m_shared = (\<lambda>n. film_reader),
     m_packet = (\<lambda>n. Some \<lparr>pk_stream = 0, pk_pts = Some 10000000, pk_dts = None, pk_key = True, pk_data = [1]\<rparr>),
     m_seek = (\<lambda>n s t. Some t), m_sym = (\<lambda>n. None), m_symseek = (\<lambda>n s k. None), m_aac = (\<lambda>n d. None), m_opus = (\<lambda>n d. None),
     m_ac3 = (\<lambda>n d. None), m_buffered = (\<lambda>n. None), m_position = (\<lambda>n. None), m_write = (\<lambda>n pcm. None), m_submit = (\<lambda>n c. Accepted),
     m_decoded = (\<lambda>n. if n = 1 then Some 7 else None)\<rparr>"

definition film_source :: OxSource where
  "film_source = \<lparr>video_stream = 0, audio_stream = 1, v_num = 1, v_den = 1000000, a_num = 1, a_den = 1\<rparr>"

definition film_player :: "u8 list StreamPlayer" where
  "film_player = install_player (Ox film_source) [] 4 False None None 0 False"

definition film_controls :: "bool \<Rightarrow> Controls" where
  "film_controls b = \<lparr>c_paused = b, c_muted = False, c_volume = Fin False 1, controls_until_ns = 0, controls_bump = False\<rparr>"

lemma film_ends: "\<forall>n \<ge> 2. m_decoded film_world n = None"
  by (simp add: film_world_def)

lemma film_pumped: "\<exists>c' q. pump_stream film_world nanos c p = Some (c', q)"
  by (rule pump_returns[OF film_ends])

lemma film_silent: "silent_ahead film_world film_source film_player"
  by (simp add: silent_ahead_def film_player_def install_player_def film_world_def film_source_def seg_frame_def or_default_def
      ticks_to_us_def tdiv_def wrap128_def wrap64_def LOOKAHEAD_US_def)

lemma film_clock: "clock_us film_player = 0" "duration_us film_player = 0" "video_q film_player = []"
  by (simp_all add: film_player_def install_player_def)

theorem decode_cushion_witness:
  "\<exists>q. playing demo_ops film_world True film_player q \<and> length (video_q q) = 1
     \<and> length (filter to_decoder (since_reset (acts q))) \<le> length (filter from_decoder (since_reset (acts q))) + 20"
proof -
  obtain q where q: "bg_play demo_ops film_world None film_player = Some q" "length (video_q q) = 1"
    using silent_tick[OF film_silent, of demo_ops] film_clock by (auto simp: LOOKAHEAD_US_def)
  then have "playing demo_ops film_world True film_player q"
    by (intro Steps[OF Installed] Ticked)
  then show ?thesis
    using decode_cushion[of demo_ops film_world "Ox film_source" "[]" 4 False None None 0 False q "acts q" "[]"] q(2)
    unfolding film_player_def by auto
qed

theorem dash_queues_bounded_witness:
  "\<exists>q. playing demo_ops film_world True (install_player (Fmp4 demo_stream None) [] 4 True None None 0 False) q
     \<and> length (video_q q) \<le> 150 \<and> length (audio_q q) \<le> 250"
proof -
  let ?p = "install_player (Fmp4 demo_stream None) [] 4 True None None 0 False"
  obtain c' q where "pump_stream film_world 1000 (film_controls True) ?p = Some (c', q)"
    using film_pumped by blast
  then have "playing demo_ops film_world True ?p q"
    by (intro Steps[OF Installed] Pumped) simp_all
  with dash_queues_bounded[OF _ this] show ?thesis by (auto simp: film_world_def)
qed

theorem present_on_time_witness:
  "\<exists>c' q new. pump_stream film_world 1000 (film_controls False) film_player = Some (c', q) \<and> acts q = acts film_player @ new
     \<and> (\<forall>pts at_ns. SurfPresent pts at_ns \<in> set new \<longrightarrow>
          clock_us q - 150000 \<le> pts \<and> at_ns = sat_add 1000 (nat (max 0 (pts - clock_us q)) * 1000 mod 2 ^ 64))"
proof -
  obtain c' q where "pump_stream film_world 1000 (film_controls False) film_player = Some (c', q)"
    using film_pumped by blast
  with present_on_time[OF this] show ?thesis by blast
qed

theorem pause_invisible_witness:
  "\<exists>c1 p1 c2 p3. pump_stream film_world 2001 (film_controls True) (film_player\<lparr>t0_ns := 1, first_pts_us := Some 0, origin_ns := 1\<rparr>) = Some (c1, p1)
     \<and> pump_stream film_world 9000 (film_controls False) p1 = Some (c2, p3) \<and> clock_us p3 = 2"
proof -
  let ?p = "film_player\<lparr>t0_ns := 1, first_pts_us := Some 0, origin_ns := 1\<rparr>"
  obtain c1 p1 where 1: "pump_stream film_world 2001 (film_controls True) ?p = Some (c1, p1)"
    using film_pumped by blast
  obtain c2 p3 where 2: "pump_stream film_world 9000 (film_controls False) p1 = Some (c2, p3)"
    using film_pumped by blast
  have "clock_us p3 = media_clock film_world 2001 (device_backlog film_world ?p) ?p"
    by (rule pause_invisible[OF _ _ _ _ _ _ _ 1 Frozen _ 2])
      (simp_all add: film_player_def install_player_def film_controls_def)
  also have "\<dots> = 2"
    by (simp add: media_clock_def track_ended_def audio_only_def running_clock_def audio_master_def film_player_def install_player_def
        film_world_def)
  finally show ?thesis
    using 1 2 by blast
qed

theorem resume_starts_empty_witness:
  "\<exists>c1 p1 c2 p2 more. pump_stream film_world 1 (film_controls True) film_player = Some (c1, p1)
     \<and> pump_stream film_world 2 (film_controls False) p1 = Some (c2, p2) \<and> acts p2 = [DevFlush, DevPause, DevStart] @ more"
proof -
  obtain c1 p1 where 1: "pump_stream film_world 1 (film_controls True) film_player = Some (c1, p1)"
    using film_pumped by blast
  obtain c2 p2 where 2: "pump_stream film_world 2 (film_controls False) p1 = Some (c2, p2)"
    using film_pumped by blast
  show ?thesis
    using resume_starts_empty[OF film_player_def _ 1 _ 2] 1 2 by (simp add: film_controls_def)
qed

theorem seek_unknown_duration_witness:
  "seek_from_clock 30000000 (Some film_player) = 30000000
    \<and> do_seek film_world (seek_from_clock 30000000 (Some film_player)) film_player = do_seek film_world 0 film_player"
  using seek_unknown_duration[of film_player film_world 30000000] by (simp add: film_clock seek_from_clock_def)

theorem video_queue_unbounded_witness:
  "\<exists>q. ticks demo_ops film_world 1000 film_player = Some q \<and> length (video_q q) = 1000"
proof -
  have "- (2 ^ 63) \<le> clock_us film_player + LOOKAHEAD_US"
    by (simp add: film_clock LOOKAHEAD_US_def)
  from video_queue_unbounded[OF film_silent this, of demo_ops 1000] show ?thesis
    by (simp only: film_clock list.size add_0)
qed

text \<open>A track of one packet, decoded to one frame, and a device that takes one frame.\<close>

definition sound_world :: MediaWorld where
  "sound_world = \<lparr>m_video = False, m_net = demo_media, m_shared = (\<lambda>n. film_reader), m_packet = (\<lambda>n. None), m_seek = (\<lambda>n s t. None),
     m_sym = (\<lambda>n. if n = 0 then Some (Some \<lparr>sy_track = 0, sy_pts = 0, sy_data = [1]\<rparr>) else Some None),
     m_symseek = (\<lambda>n s k. None), m_aac = (\<lambda>n d. Some ([Fin False 0, Fin False 0], 2)), m_opus = (\<lambda>n d. None),
     m_ac3 = (\<lambda>n d. None), m_buffered = (\<lambda>n. Some 0), m_position = (\<lambda>n. Some 0), m_write = (\<lambda>n pcm. Some 1), m_submit = (\<lambda>n c. Refused),
     m_decoded = (\<lambda>n. None)\<rparr>"

definition sound_player :: "u8 list StreamPlayer" where
  "sound_player = install_player (Audio \<lparr>sym_track = 0, sym_num = 1, sym_den = 1\<rparr>) [] 4 False (Some Sym) None 0 False"

lemma sound_tick: "bg_play demo_ops sound_world None sound_player
   = Some (sound_player\<lparr>calls := 3, demux_done := True, audio_first_pts_known := True, pending_pcm := [Fin False 0, Fin False 0]\<rparr>)"
proof -
  have 1: "fill_queues demo_ops sound_world sound_player
     = Some (sound_player\<lparr>calls := 2, demux_done := True, audio_q := [\<lparr>af_pts = 0, af_data = [1]\<rparr>]\<rparr>)"
    unfolding fill_queues_def
    by (subst fill_loop.simps, simp add: fill_turn_def gated_def demux_at_eof_def produce_def produce_sym_def ask_def push_audio_def
        sound_player_def install_player_def sound_world_def AQ_CAP_def Let_def LOOKAHEAD_US_def ticks_to_us_def tdiv_def wrap128_def wrap64_def,
      subst fill_loop.simps, simp add: fill_turn_def gated_def demux_at_eof_def produce_def produce_sym_def ask_def push_audio_def
        sound_player_def install_player_def sound_world_def AQ_CAP_def Let_def LOOKAHEAD_US_def ticks_to_us_def tdiv_def wrap128_def wrap64_def)
  show ?thesis
    unfolding bg_play_def Let_def option.case 1
    by (simp add: decode_audio_def decode_one_def decode_def ask_def sound_world_def sound_player_def install_player_def PCM_CAP_def
        OUT_RATE_def downmix_to_stereo_def Let_def)
qed


definition sound_ready :: "u8 list StreamPlayer" where
  "sound_ready = sound_player\<lparr>calls := 3, demux_done := True, audio_first_pts_known := True, pending_pcm := [Fin False 0, Fin False 0]\<rparr>"

lemma sound_pump: "\<exists>c' q pcm. pump_stream sound_world 1000 (film_controls False) sound_ready = Some (c', q)
    \<and> acts q = [DevFlush, DevWrite pcm 1] @ DevStart # []"
  by (simp add: pump_stream_def reveal_def sound_ready_def sound_player_def install_player_def film_controls_def apply_pause_def
      pump_running_def ask_def sound_world_def track_ended_def audio_only_def media_clock_def running_clock_def audio_master_def
      audio_out_def note_origin_def anchor_audio_def write_audio_def pump_video_def finish_pump_def perform_def Let_def)

theorem write_then_start_witness:
  "\<exists>q pcm. playing demo_ops sound_world False sound_player q \<and> acts q = [DevFlush, DevWrite pcm 1] @ DevStart # []
     \<and> (\<exists>pcm' n. DevWrite pcm' n \<in> set [DevFlush, DevWrite pcm 1] \<and> 0 < n)"
proof -
  obtain c' q pcm where p: "pump_stream sound_world 1000 (film_controls False) sound_ready = Some (c', q)"
    "acts q = [DevFlush, DevWrite pcm 1] @ DevStart # []"
    using sound_pump by blast
  have "playing demo_ops sound_world False sound_player sound_ready"
    by (rule Steps[OF Installed Ticked[where req = None]]) (simp only: sound_tick sound_ready_def)
  then have q: "playing demo_ops sound_world False sound_player q"
    by (rule Steps) (rule Pumped[OF p(1)], simp add: film_controls_def)
  from write_then_start[OF q[unfolded sound_player_def] p(2)] p(2) q show ?thesis by blast
qed

end
