(* ===== verification/CallVideo.thy ===== *)
theory CallVideo
  imports AnnexB
begin

text \<open>
  The video track of a call (\<open>wandr-call/src/video.rs\<close>): encoded VP8 frames are cut into RTP
  packets and protected, packets that arrive are put together again.

  RTP, SRTP and the VP8 payload format come from the \<open>rtc\<close> crates, a submodule: \<open>Rtc\<close> holds what is used
  of them.  Datagrams are far below \<open>2 ^ 32\<close> bytes, so lengths are numbers without bound.
\<close>

section \<open>What the crates provide\<close>

type_synonym seq16 = "16 word"

datatype CallError =
    CodecError string | SrtpError string | RtpError string | SdpError string | IceError string | DtlsError string
  | DhError string | TurnError string | ProtoError string | NotConnected

record RtpExt =
  ext_id :: u8
  ext_payload :: "u8 list"

record RtpPacket =
  rp_type :: u8
  rp_seq :: seq16
  rp_time :: u32
  rp_ssrc :: u32
  rp_marker :: bool
  rp_exts :: "RtpExt list"
  rp_payload :: "u8 list"

text \<open>
  \<open>'c\<close> is the state of an SRTP context, \<open>'p\<close> that of the VP8 payloader.  \<open>None\<close> is an error.
  \<open>depacketize\<close> gives the bit \<open>S\<close>, the partition index and the data.
\<close>

record ('c, 'p) Rtc =
  rtp_marshal :: "RtpPacket \<Rightarrow> u8 list option"
  rtp_unmarshal :: "u8 list \<Rightarrow> RtpPacket option"
  encrypt_rtp :: "'c \<Rightarrow> u8 list \<Rightarrow> u8 list option \<times> 'c"
  decrypt_rtp :: "'c \<Rightarrow> u8 list \<Rightarrow> u8 list option \<times> 'c"
  encrypt_rtcp :: "'c \<Rightarrow> u8 list \<Rightarrow> u8 list option \<times> 'c"
  decrypt_rtcp :: "'c \<Rightarrow> u8 list \<Rightarrow> u8 list option \<times> 'c"
  new_payloader :: 'p
  vp8_fragments :: "'p \<Rightarrow> nat \<Rightarrow> u8 list \<Rightarrow> u8 list list option \<times> 'p"
  depacketize :: "u8 list \<Rightarrow> (bool \<times> nat \<times> u8 list) option"

section \<open>The stream\<close>

definition VP8_PAYLOAD_TYPE :: u8 where "VP8_PAYLOAD_TYPE = 108"
definition VP8_RTX_PAYLOAD_TYPE :: u8 where "VP8_RTX_PAYLOAD_TYPE = 118"
definition VIDEO_RED_PAYLOAD_TYPE :: u8 where "VIDEO_RED_PAYLOAD_TYPE = 120"
definition RTP_PAYLOAD_BUDGET :: nat where "RTP_PAYLOAD_BUDGET = 1200 - 12 - 16"
definition VIDEO_ORIENTATION_EXT_ID :: u8 where "VIDEO_ORIENTATION_EXT_ID = 4"

function red_loop :: "u8 list \<Rightarrow> nat \<Rightarrow> nat \<Rightarrow> (u8 \<times> nat) option" where
  "red_loop payload idx red_len =
     (case get payload idx of
        None \<Rightarrow> None
      | Some b \<Rightarrow>
          if uint b < 0x80 then
            (let start = idx + 1 + red_len in if start \<le> length payload then Some (b, start) else None)
          else
            (case (get payload (idx + 2), get payload (idx + 3)) of
               (Some c, Some d) \<Rightarrow> red_loop payload (idx + 4) (red_len + (unat c mod 4 * 256 + unat d))
             | _ \<Rightarrow> None))"
  by pat_completeness auto
termination
  by (relation "measure (\<lambda>(payload, idx, _). length payload - idx)") (auto simp: get_def split: if_splits)

declare red_loop.simps [simp del]

definition red_primary :: "u8 list \<Rightarrow> (u8 \<times> nat) option" where
  "red_primary payload = red_loop payload 0 0"

record VideoFrame =
  fr_data :: "u8 list"
  fr_timestamp :: u32
  fr_keyframe :: bool
  fr_rotation :: nat

record 'p VideoStream =
  vs_pt :: u8
  vs_ssrc :: u32
  payloader :: 'p
  vs_seq :: seq16
  tx_rotation :: "nat option"
  rx_rotation :: nat
  tx_frames :: nat
  tx_packets :: u32
  tx_octets :: u32
  last_tx_ts :: u32
  rx_ssrc :: "u32 option"
  prev_seq :: "seq16 option"
  cur :: "u8 list"
  cur_ts :: u32
  assembling :: bool
  broken :: bool
  loss :: bool
  frames_out :: "VideoFrame list"
  rx_packets :: nat
  rx_frames :: nat
  rx_broken_frames :: nat

definition VideoStream_new :: "'p \<Rightarrow> u8 \<Rightarrow> u32 \<Rightarrow> 'p VideoStream" where
  "VideoStream_new p pt ssrc =
     \<lparr>vs_pt = pt, vs_ssrc = ssrc, payloader = p, vs_seq = 1, tx_rotation = None, rx_rotation = 0, tx_frames = 0, tx_packets = 0,
      tx_octets = 0, last_tx_ts = 0, rx_ssrc = None, prev_seq = None, cur = [], cur_ts = 0, assembling = False, broken = False,
      loss = False, frames_out = [], rx_packets = 0, rx_frames = 0, rx_broken_frames = 0\<rparr>"

definition tx_stats :: "'p VideoStream \<Rightarrow> u32 \<times> u32 \<times> u32" where
  "tx_stats v = (tx_packets v, tx_octets v, last_tx_ts v)"

definition set_rotation :: "nat \<Rightarrow> 'p VideoStream \<Rightarrow> 'p VideoStream" where
  "set_rotation degrees v = v\<lparr>tx_rotation := Some (degrees mod 360)\<rparr>"

section \<open>Sending\<close>

definition orientation :: "nat option \<Rightarrow> RtpExt list" where
  "orientation rot =
     (case rot of Some deg \<Rightarrow> [\<lparr>ext_id = VIDEO_ORIENTATION_EXT_ID, ext_payload = [of_nat (deg div 90 mod 4)]\<rparr>] | None \<Rightarrow> [])"

definition video_packet :: "u32 \<Rightarrow> bool \<Rightarrow> u8 list \<Rightarrow> 'p VideoStream \<Rightarrow> RtpPacket" where
  "video_packet timestamp is_last frag v =
     \<lparr>rp_type = vs_pt v, rp_seq = vs_seq v, rp_time = timestamp, rp_ssrc = vs_ssrc v, rp_marker = is_last,
      rp_exts = orientation (tx_rotation v), rp_payload = frag\<rparr>"

text \<open>Datagrams made before an error are lost, but their numbers are used.\<close>

fun send_fragments ::
    "('c, 'p) Rtc \<Rightarrow> u32 \<Rightarrow> u8 list list \<Rightarrow> 'c \<Rightarrow> 'p VideoStream \<Rightarrow> (CallError + u8 list list) \<times> 'c \<times> 'p VideoStream" where
  "send_fragments lib timestamp [] tx v = (Inr [], tx, v)"
| "send_fragments lib timestamp (frag # rest) tx v =
     (case rtp_marshal lib (video_packet timestamp (rest = []) frag v) of
        None \<Rightarrow> (Inl (RtpError ''marshal''), tx, v)
      | Some rtp \<Rightarrow>
          (case encrypt_rtp lib tx rtp of
             (None, tx) \<Rightarrow> (Inl (SrtpError ''encrypt''), tx, v)
           | (Some srtp, tx) \<Rightarrow>
               (case send_fragments lib timestamp rest tx
                       (v\<lparr>vs_seq := vs_seq v + 1, tx_packets := tx_packets v + 1, tx_octets := tx_octets v + of_nat (length frag)\<rparr>) of
                  (Inl e, tx, v) \<Rightarrow> (Inl e, tx, v)
                | (Inr dgs, tx, v) \<Rightarrow> (Inr (srtp # dgs), tx, v))))"

definition payload_frame ::
    "('c, 'p) Rtc \<Rightarrow> u8 list \<Rightarrow> u32 \<Rightarrow> 'c \<Rightarrow> 'p VideoStream \<Rightarrow> (CallError + u8 list list) \<times> 'c \<times> 'p VideoStream" where
  "payload_frame lib data timestamp tx v =
     (case vp8_fragments lib (payloader v) RTP_PAYLOAD_BUDGET data of
        (None, p) \<Rightarrow> (Inl (RtpError ''vp8 payload''), tx, v\<lparr>payloader := p\<rparr>)
      | (Some frags, p) \<Rightarrow>
          (case send_fragments lib timestamp frags tx (v\<lparr>payloader := p\<rparr>) of
             (Inl e, tx, v) \<Rightarrow> (Inl e, tx, v)
           | (Inr dgs, tx, v) \<Rightarrow> (Inr dgs, tx, v\<lparr>tx_frames := tx_frames v + 1, last_tx_ts := timestamp\<rparr>)))"

section \<open>Receiving\<close>

datatype Inbound = Ignored | ForeignRed | Vp8 "u8 list"

definition inbound :: "u8 \<Rightarrow> RtpPacket \<Rightarrow> Inbound" where
  "inbound pt pkt =
     (if rp_type pkt = VP8_RTX_PAYLOAD_TYPE then Ignored
      else if rp_type pkt = pt then Vp8 (rp_payload pkt)
      else if rp_type pkt = VIDEO_RED_PAYLOAD_TYPE then
        (case red_primary (rp_payload pkt) of
           Some (ppt, off) \<Rightarrow> if ppt = pt then Vp8 (drop off (rp_payload pkt)) else ForeignRed
         | None \<Rightarrow> ForeignRed)
      else Ignored)"

definition drop_current :: "'p VideoStream \<Rightarrow> 'p VideoStream" where
  "drop_current v =
     v\<lparr>rx_broken_frames := (if assembling v \<or> cur v \<noteq> [] then rx_broken_frames v + 1 else rx_broken_frames v),
       cur := [], assembling := False, broken := False, loss := True\<rparr>"

text \<open>A RED packet around something else uses up a number of the stream.\<close>

definition note_foreign :: "RtpPacket \<Rightarrow> 'p VideoStream \<Rightarrow> 'p VideoStream" where
  "note_foreign pkt v =
     (let v = (if rx_ssrc v = None then v\<lparr>rx_ssrc := Some (rp_ssrc pkt)\<rparr> else v) in
      if rx_ssrc v = Some (rp_ssrc pkt) then v\<lparr>rx_packets := rx_packets v + 1, prev_seq := Some (rp_seq pkt)\<rparr> else v)"

definition rotation_of :: "RtpExt list \<Rightarrow> nat \<Rightarrow> nat" where
  "rotation_of exts r =
     foldl (\<lambda>r e. if ext_id e = VIDEO_ORIENTATION_EXT_ID \<and> ext_payload e \<noteq> [] then unat (hd (ext_payload e)) mod 4 * 90 else r) r exts"

definition note_packet :: "RtpPacket \<Rightarrow> 'p VideoStream \<Rightarrow> 'p VideoStream" where
  "note_packet pkt v =
     v\<lparr>rx_ssrc := Some (rp_ssrc pkt), rx_packets := rx_packets v + 1, rx_rotation := rotation_of (rp_exts pkt) (rx_rotation v),
       prev_seq := Some (rp_seq pkt)\<rparr>"

definition keyframe_bit :: "u8 list \<Rightarrow> bool" where
  "keyframe_bit data \<longleftrightarrow> (case data of b # _ \<Rightarrow> even (unat b) | [] \<Rightarrow> False)"

definition push_payload :: "RtpPacket \<Rightarrow> u8 list \<Rightarrow> 'p VideoStream \<Rightarrow> 'p VideoStream" where
  "push_payload pkt data v =
     (let v = v\<lparr>cur := cur v @ data\<rparr> in
      if rp_marker pkt then
        if broken v then drop_current v
        else v\<lparr>frames_out := frames_out v @
                 [\<lparr>fr_data = cur v, fr_timestamp = cur_ts v, fr_keyframe = keyframe_bit (cur v), fr_rotation = rx_rotation v\<rparr>],
               cur := [], rx_frames := rx_frames v + 1, assembling := False\<rparr>
      else v)"

text \<open>\<open>contiguous\<close>: the number is the one after the last; \<open>start\<close>: the first packet of a frame.\<close>

definition reassemble :: "bool \<Rightarrow> bool \<Rightarrow> RtpPacket \<Rightarrow> u8 list \<Rightarrow> 'p VideoStream \<Rightarrow> 'p VideoStream" where
  "reassemble contiguous start pkt data v =
     (if start then
        (let v = (if assembling v then drop_current v else v);
             v = v\<lparr>cur := [], cur_ts := rp_time pkt, assembling := True, broken := False\<rparr>
         in push_payload pkt data (if contiguous then v else v\<lparr>loss := True\<rparr>))
      else if \<not> assembling v then v\<lparr>loss := True\<rparr>
      else push_payload pkt data (if \<not> contiguous \<or> rp_time pkt \<noteq> cur_ts v then v\<lparr>broken := True\<rparr> else v))"

definition handle_rtp :: "('c, 'p) Rtc \<Rightarrow> RtpPacket \<Rightarrow> 'p VideoStream \<Rightarrow> 'p VideoStream" where
  "handle_rtp lib pkt v =
     (case inbound (vs_pt v) pkt of
        Ignored \<Rightarrow> v
      | ForeignRed \<Rightarrow> note_foreign pkt v
      | Vp8 bytes \<Rightarrow>
          if rx_ssrc v \<noteq> None \<and> rx_ssrc v \<noteq> Some (rp_ssrc pkt) then v
          else
            (let contiguous = (case prev_seq v of None \<Rightarrow> True | Some p \<Rightarrow> rp_seq pkt = p + 1);
                 v = note_packet pkt v
             in case depacketize lib bytes of
                  None \<Rightarrow> drop_current v
                | Some (s, pid, data) \<Rightarrow> reassemble contiguous (s \<and> pid = 0) pkt data v))"

definition take_frame :: "'p VideoStream \<Rightarrow> VideoFrame option \<times> 'p VideoStream" where
  "take_frame v = (case frames_out v of [] \<Rightarrow> (None, v) | f # fs \<Rightarrow> (Some f, v\<lparr>frames_out := fs\<rparr>))"

definition take_loss :: "'p VideoStream \<Rightarrow> bool \<times> 'p VideoStream" where
  "take_loss v = (loss v, v\<lparr>loss := False\<rparr>)"


section \<open>Whole frames\<close>

text \<open>The packets a stream locked to \<open>ssrc\<close> takes its frames from.\<close>

definition relevant :: "u8 \<Rightarrow> u32 \<Rightarrow> RtpPacket \<Rightarrow> bool" where
  "relevant pt ssrc pkt \<longleftrightarrow> rp_ssrc pkt = ssrc \<and> (\<exists>bytes. inbound pt pkt = Vp8 bytes)"

definition vp8_of :: "('c, 'p) Rtc \<Rightarrow> u8 \<Rightarrow> RtpPacket \<Rightarrow> (bool \<times> u8 list) option" where
  "vp8_of lib pt pkt =
     (case inbound pt pkt of
        Vp8 bytes \<Rightarrow> map_option (\<lambda>(s, pid, data). (s \<and> pid = 0, data)) (depacketize lib bytes)
      | _ \<Rightarrow> None)"

text \<open>A run of packets that begins a frame and goes on with consecutive numbers and one time stamp.\<close>

definition block :: "('c, 'p) Rtc \<Rightarrow> u8 \<Rightarrow> u32 \<Rightarrow> RtpPacket list \<Rightarrow> u8 list \<Rightarrow> bool" where
  "block lib pt ts blk data \<longleftrightarrow>
     (\<exists>first rest parts. blk = first # rest \<and> map (vp8_of lib pt) blk = map Some ((True, hd parts) # map (Pair False) (tl parts)) \<and> parts \<noteq> []
        \<and> data = concat parts)
     \<and> successively (\<lambda>a b. rp_seq b = rp_seq a + 1) blk \<and> (\<forall>p \<in> set blk. rp_time p = ts) \<and> (\<forall>p \<in> set (butlast blk). \<not> rp_marker p)"

lemma block_first:
  "vp8_of lib pt p = Some (True, data) \<Longrightarrow> block lib pt (rp_time p) [p] data"
  unfolding block_def by (auto intro!: exI[of _ "[data]"])

lemma block_next:
  assumes "block lib pt ts blk data" "vp8_of lib pt p = Some (False, extra)" "rp_seq p = rp_seq (last blk) + 1" "rp_time p = ts"
    "\<not> rp_marker (last blk)"
  shows "block lib pt ts (blk @ [p]) (data @ extra)"
proof -
  obtain first rest parts where b: "blk = first # rest" "map (vp8_of lib pt) blk = map Some ((True, hd parts) # map (Pair False) (tl parts))"
    "parts \<noteq> []" "data = concat parts"
    using assms(1) unfolding block_def by blast
  have "map (vp8_of lib pt) (blk @ [p]) = map Some ((True, hd (parts @ [extra])) # map (Pair False) (tl (parts @ [extra])))"
    using b(2,3) assms(2) by simp
  moreover have "concat (parts @ [extra]) = data @ extra" "parts @ [extra] \<noteq> []" "blk @ [p] = first # (rest @ [p])"
    using b by simp_all
  moreover have "successively (\<lambda>a b. rp_seq b = rp_seq a + 1) (blk @ [p])"
    using assms(1,3) unfolding block_def by (simp add: successively_append_iff)
  moreover have "\<forall>q \<in> set (blk @ [p]). rp_time q = ts"
    using assms(1,4) unfolding block_def by simp
  moreover have "\<forall>q \<in> set (butlast (blk @ [p])). \<not> rp_marker q"
  proof -
    have "blk = butlast blk @ [last blk]" using b(1) by simp
    then have "set blk = set (butlast blk) \<union> {last blk}" by (metis set_append list.simps(15) empty_set)
    with assms(1,5) show ?thesis unfolding block_def by (simp add: butlast_append)
  qed
  ultimately show ?thesis
    unfolding block_def by metis
qed

definition whole :: "('c, 'p) Rtc \<Rightarrow> u8 \<Rightarrow> RtpPacket list \<Rightarrow> VideoFrame \<Rightarrow> bool" where
  "whole lib pt pkts f \<longleftrightarrow>
     (\<exists>before blk after. pkts = before @ blk @ after \<and> block lib pt (fr_timestamp f) blk (fr_data f) \<and> rp_marker (last blk))"

lemma whole_more: "whole lib pt pkts f \<Longrightarrow> whole lib pt (pkts @ [p]) f"
  unfolding whole_def by (metis append_assoc)

text \<open>What is true of the stream after the packets \<open>rs\<close> of its source.\<close>

definition stream_ok :: "('c, 'p) Rtc \<Rightarrow> RtpPacket list \<Rightarrow> 'p VideoStream \<Rightarrow> bool" where
  "stream_ok lib rs v \<longleftrightarrow>
     (assembling v \<and> \<not> broken v \<longrightarrow>
        (\<exists>before blk. rs = before @ blk \<and> block lib (vs_pt v) (cur_ts v) blk (cur v) \<and> \<not> rp_marker (last blk)))
     \<and> (\<forall>f \<in> set (frames_out v). whole lib (vs_pt v) rs f)"

lemma stream_ok_more:
  "stream_ok lib rs v \<Longrightarrow> \<not> (assembling v' \<and> \<not> broken v') \<Longrightarrow> frames_out v' = frames_out v \<Longrightarrow> vs_pt v' = vs_pt v
    \<Longrightarrow> stream_ok lib (rs @ [p]) v'"
  unfolding stream_ok_def using whole_more by metis

lemma push_payload_simps:
  "\<not> rp_marker p \<Longrightarrow> push_payload p data v = v\<lparr>cur := cur v @ data\<rparr>"
  "rp_marker p \<Longrightarrow> broken v \<Longrightarrow> push_payload p data v = drop_current (v\<lparr>cur := cur v @ data\<rparr>)"
  "rp_marker p \<Longrightarrow> \<not> broken v \<Longrightarrow> push_payload p data v =
     v\<lparr>frames_out := frames_out v @ [\<lparr>fr_data = cur v @ data, fr_timestamp = cur_ts v, fr_keyframe = keyframe_bit (cur v @ data),
         fr_rotation = rx_rotation v\<rparr>], cur := [], rx_frames := rx_frames v + 1, assembling := False\<rparr>"
  by (simp_all add: push_payload_def)

lemma push_payload_ok:
  assumes "\<not> broken v \<Longrightarrow> \<exists>before blk. rs = before @ blk \<and> block lib (vs_pt v) (cur_ts v) blk (cur v @ data) \<and> last blk = p"
    and "\<forall>f \<in> set (frames_out v). whole lib (vs_pt v) rs f"
  shows "stream_ok lib rs (push_payload p data v)"
proof (cases "broken v")
  case True
  with assms(2) show ?thesis
    by (cases "rp_marker p") (simp_all add: push_payload_simps drop_current_def stream_ok_def)
next
  case False
  then obtain before blk where b: "rs = before @ blk" "block lib (vs_pt v) (cur_ts v) blk (cur v @ data)" "last blk = p"
    using assms(1) by blast
  have w: "whole lib (vs_pt v) rs f" if "fr_timestamp f = cur_ts v" "fr_data f = cur v @ data" "rp_marker p" for f
    unfolding whole_def using b that by (metis append_Nil2)
  show ?thesis
  proof (cases "rp_marker p")
    case True
    with False assms(2) w show ?thesis
      by (simp add: push_payload_simps stream_ok_def)
  next
    case no_marker: False
    with False assms(2) b show ?thesis
      by (auto simp: push_payload_simps stream_ok_def)
  qed
qed

text \<open>A stream takes its packets from one source, whose last number it remembers.\<close>

definition locked :: "RtpPacket list \<Rightarrow> 'p VideoStream \<Rightarrow> bool" where
  "locked pkts v \<longleftrightarrow>
     (case rx_ssrc v of
        None \<Rightarrow> prev_seq v = None \<and> \<not> assembling v \<and> (\<forall>p \<in> set pkts. inbound (vs_pt v) p = Ignored)
      | Some s \<Rightarrow> (let rs = filter (relevant (vs_pt v) s) pkts in rs \<noteq> [] \<and> prev_seq v = Some (rp_seq (last rs))))"

definition source :: "RtpPacket list \<Rightarrow> 'p VideoStream \<Rightarrow> RtpPacket list" where
  "source pkts v = (case rx_ssrc v of None \<Rightarrow> [] | Some s \<Rightarrow> filter (relevant (vs_pt v) s) pkts)"

lemma reassemble_fields:
  "vs_pt (reassemble ct st p data v) = vs_pt v" "rx_ssrc (reassemble ct st p data v) = rx_ssrc v"
  "prev_seq (reassemble ct st p data v) = prev_seq v"
  by (simp_all add: reassemble_def push_payload_def drop_current_def Let_def)

lemma reassemble_ok:
  assumes "stream_ok lib rs v" "vp8_of lib (vs_pt v) p = Some (st, data)"
    and "assembling v \<Longrightarrow> ct \<Longrightarrow> rp_seq p = rp_seq (last rs) + 1"
  shows "stream_ok lib (rs @ [p]) (reassemble ct st p data v)"
proof (cases st)
  case True
  let ?d = "if assembling v then drop_current v else v"
  let ?v = "(?d\<lparr>cur := [], cur_ts := rp_time p, assembling := True, broken := False\<rparr>)"
  let ?w = "if ct then ?v else ?v\<lparr>loss := True\<rparr>"
  have w: "vs_pt ?w = vs_pt v" "cur ?w = []" "cur_ts ?w = rp_time p" "frames_out ?w = frames_out v"
    by (simp_all add: drop_current_def)
  have "stream_ok lib (rs @ [p]) (push_payload p data ?w)"
  proof (rule push_payload_ok)
    show "\<exists>before blk. rs @ [p] = before @ blk \<and> block lib (vs_pt ?w) (cur_ts ?w) blk (cur ?w @ data) \<and> last blk = p"
      unfolding w append_Nil using block_first[of lib "vs_pt v" p data] assms(2) True
      by (intro exI[of _ rs] exI[of _ "[p]"]) simp
    show "\<forall>f \<in> set (frames_out ?w). whole lib (vs_pt ?w) (rs @ [p]) f"
      unfolding w using assms(1) whole_more unfolding stream_ok_def by metis
  qed
  then show ?thesis
    using True by (simp add: reassemble_def Let_def)
next
  case not_start: False
  show ?thesis
  proof (cases "assembling v")
    case False
    with not_start have "reassemble ct st p data v = v\<lparr>loss := True\<rparr>"
      by (simp add: reassemble_def)
    with False assms(1) show ?thesis
      using stream_ok_more[OF assms(1), of "v\<lparr>loss := True\<rparr>"] by simp
  next
    case True
    let ?w = "if \<not> ct \<or> rp_time p \<noteq> cur_ts v then v\<lparr>broken := True\<rparr> else v"
    have w: "vs_pt ?w = vs_pt v" "cur ?w = cur v" "cur_ts ?w = cur_ts v" "frames_out ?w = frames_out v"
      by simp_all
    have "stream_ok lib (rs @ [p]) (push_payload p data ?w)"
    proof (rule push_payload_ok)
      assume "\<not> broken ?w"
      then have b: "\<not> broken v" "ct" "rp_time p = cur_ts v" by (simp_all split: if_splits)
      obtain before blk where k: "rs = before @ blk" "block lib (vs_pt v) (cur_ts v) blk (cur v)" "\<not> rp_marker (last blk)"
        using assms(1) True b(1) unfolding stream_ok_def by blast
      have "blk \<noteq> []" using k(2) unfolding block_def by blast
      then have "rp_seq p = rp_seq (last blk) + 1"
        using assms(3)[OF True b(2)] k(1) by simp
      from block_next[OF k(2) _ this b(3) k(3)] assms(2) not_start
      have "block lib (vs_pt v) (cur_ts v) (blk @ [p]) (cur v @ data)" by simp
      then show "\<exists>before blk. rs @ [p] = before @ blk \<and> block lib (vs_pt ?w) (cur_ts ?w) blk (cur ?w @ data) \<and> last blk = p"
        unfolding w k(1) by (metis append_assoc last_snoc)
    next
      show "\<forall>f \<in> set (frames_out ?w). whole lib (vs_pt ?w) (rs @ [p]) f"
        unfolding w using assms(1) whole_more unfolding stream_ok_def by metis
    qed
    with True not_start show ?thesis
      by (simp add: reassemble_def Let_def)
  qed
qed


definition receive :: "('c, 'p) Rtc \<Rightarrow> RtpPacket list \<Rightarrow> 'p VideoStream \<Rightarrow> 'p VideoStream" where
  "receive lib pkts v = fold (handle_rtp lib) pkts v"

lemma handle_rtp_ok:
  assumes "locked pkts v" "stream_ok lib (source pkts v) v" "inbound (vs_pt v) p \<noteq> ForeignRed"
  shows "locked (pkts @ [p]) (handle_rtp lib p v) \<and> stream_ok lib (source (pkts @ [p]) (handle_rtp lib p v)) (handle_rtp lib p v)
    \<and> vs_pt (handle_rtp lib p v) = vs_pt v"
proof (cases "inbound (vs_pt v) p")
  case Ignored
  then have "handle_rtp lib p v = v" "\<not> relevant (vs_pt v) s p" for s
    by (simp_all add: handle_rtp_def relevant_def)
  with assms Ignored show ?thesis
    by (simp add: locked_def source_def Let_def split: option.splits)
next
  case ForeignRed
  with assms(3) show ?thesis by simp
next
  case (Vp8 bytes)
  show ?thesis
  proof (cases "rx_ssrc v \<noteq> None \<and> rx_ssrc v \<noteq> Some (rp_ssrc p)")
    case True
    then obtain s where s: "rx_ssrc v = Some s" "s \<noteq> rp_ssrc p" by auto
    with Vp8 have "handle_rtp lib p v = v" "\<not> relevant (vs_pt v) s p"
      by (simp_all add: handle_rtp_def relevant_def)
    with assms s show ?thesis
      by (simp add: locked_def source_def Let_def)
  next
    case mine: False
    let ?s = "rp_ssrc p"
    let ?ct = "case prev_seq v of None \<Rightarrow> True | Some q \<Rightarrow> rp_seq p = q + 1"
    let ?v = "note_packet p v"
    let ?rs = "source pkts v"
    have v: "vs_pt ?v = vs_pt v" "rx_ssrc ?v = Some ?s" "prev_seq ?v = Some (rp_seq p)" "assembling ?v = assembling v"
      "frames_out ?v = frames_out v" "broken ?v = broken v" "cur ?v = cur v" "cur_ts ?v = cur_ts v"
      by (simp_all add: note_packet_def)
    have rs: "filter (relevant (vs_pt v) ?s) pkts = ?rs"
    proof (cases "rx_ssrc v")
      case None
      then have "\<forall>q \<in> set pkts. inbound (vs_pt v) q = Ignored"
        using assms(1) by (simp add: locked_def)
      with None show ?thesis
        by (simp add: source_def relevant_def filter_empty_conv)
    next
      case (Some s)
      with mine show ?thesis by (simp add: source_def)
    qed
    have ok: "stream_ok lib ?rs ?v"
      using assms(2) v unfolding stream_ok_def by simp
    have ct: "rp_seq p = rp_seq (last ?rs) + 1" if "assembling ?v" "?ct"
      using assms(1) that v mine by (auto simp: locked_def source_def Let_def split: option.splits)
    have src: "filter (relevant (vs_pt v) ?s) (pkts @ [p]) = ?rs @ [p]"
      using rs Vp8 by (simp add: relevant_def)
    show ?thesis
    proof (cases "depacketize lib bytes")
      case None
      then have h: "handle_rtp lib p v = drop_current ?v"
        unfolding handle_rtp_def Vp8 Inbound.case if_not_P[OF mine] Let_def by (simp add: None)
      have d: "vs_pt (drop_current ?v) = vs_pt v" "rx_ssrc (drop_current ?v) = Some ?s" "prev_seq (drop_current ?v) = Some (rp_seq p)"
        "\<not> assembling (drop_current ?v)" "frames_out (drop_current ?v) = frames_out ?v"
        by (simp_all add: drop_current_def v)
      have "stream_ok lib (?rs @ [p]) (drop_current ?v)"
        using stream_ok_more[OF ok, of "drop_current ?v"] d v(1) by simp
      then show ?thesis
        unfolding h locked_def source_def d option.case Let_def src by simp
    next
      case (Some x)
      obtain s k data where x: "x = (s, k, data)" by (cases x)
      let ?st = "s \<and> k = 0"
      have h: "handle_rtp lib p v = reassemble ?ct ?st p data ?v"
        unfolding handle_rtp_def Vp8 Inbound.case if_not_P[OF mine] Let_def Some x by simp
      have "vp8_of lib (vs_pt ?v) p = Some (?st, data)"
        using Vp8 Some x v(1) by (simp add: vp8_of_def)
      from reassemble_ok[OF ok this ct] have "stream_ok lib (?rs @ [p]) (reassemble ?ct ?st p data ?v)" by blast
      then show ?thesis
        unfolding h locked_def source_def reassemble_fields v option.case Let_def src by simp
    qed
  qed
qed

lemma receive_ok:
  assumes "\<forall>p \<in> set pkts. inbound (vs_pt v) p \<noteq> ForeignRed" "locked [] v" "stream_ok lib [] v"
  shows "locked pkts (receive lib pkts v) \<and> stream_ok lib (source pkts (receive lib pkts v)) (receive lib pkts v)
    \<and> vs_pt (receive lib pkts v) = vs_pt v"
  using assms(1)
proof (induction pkts rule: rev_induct)
  case Nil
  with assms show ?case by (simp add: receive_def source_def split: option.splits)
next
  case (snoc p pkts)
  let ?v = "receive lib pkts v"
  have "receive lib (pkts @ [p]) v = handle_rtp lib p ?v" by (simp add: receive_def)
  with handle_rtp_ok[of pkts ?v lib p] snoc show ?case by simp
qed

text \<open>
  C8. Whatever arrives, in whatever order, every frame a stream delivers is the data of consecutive
  packets of its source: the first begins a frame, the others go on with the next numbers and the same
  time stamp, and exactly the last has the marker.  (Provided nothing else is sent in RED packets.)
\<close>
theorem frames_exact:
  assumes "\<forall>p \<in> set pkts. inbound pt p \<noteq> ForeignRed" "v = receive lib pkts (VideoStream_new pl pt ssrc)" "f \<in> set (frames_out v)"
  shows "\<exists>s before blk after parts. rx_ssrc v = Some s \<and> filter (relevant pt s) pkts = before @ blk @ after
     \<and> map (vp8_of lib pt) blk = map Some ((True, hd parts) # map (Pair False) (tl parts)) \<and> fr_data f = concat parts
     \<and> successively (\<lambda>a b. rp_seq b = rp_seq a + 1) blk \<and> (\<forall>p \<in> set blk. rp_time p = fr_timestamp f)
     \<and> rp_marker (last blk) \<and> (\<forall>p \<in> set (butlast blk). \<not> rp_marker p)"
proof -
  have n: "vs_pt (VideoStream_new pl pt ssrc) = pt" "locked [] (VideoStream_new pl pt ssrc)" "stream_ok lib [] (VideoStream_new pl pt ssrc)"
    by (simp_all add: VideoStream_new_def locked_def stream_ok_def)
  have "\<forall>p \<in> set pkts. inbound (vs_pt (VideoStream_new pl pt ssrc)) p \<noteq> ForeignRed"
    using assms(1) by (simp add: n(1))
  from receive_ok[OF this n(2,3)] have r: "locked pkts v" "stream_ok lib (source pkts v) v" "vs_pt v = pt"
    unfolding assms(2) n(1) by blast+
  from r(2,3) assms(3) have w: "whole lib pt (source pkts v) f"
    unfolding stream_ok_def by blast
  then have "source pkts v \<noteq> []"
    unfolding whole_def block_def by auto
  then obtain s where s: "rx_ssrc v = Some s" "source pkts v = filter (relevant pt s) pkts"
    using r(3) unfolding source_def by (metis option.case_eq_if option.exhaust_sel)
  obtain before blk after where b: "source pkts v = before @ blk @ after" "block lib pt (fr_timestamp f) blk (fr_data f)" "rp_marker (last blk)"
    using w unfolding whole_def by blast
  from b(2) obtain parts where p: "map (vp8_of lib pt) blk = map Some ((True, hd parts) # map (Pair False) (tl parts))"
    "fr_data f = concat parts"
    unfolding block_def by blast
  show ?thesis
    using b(2) unfolding block_def
    by (intro exI[of _ s] exI[of _ before] exI[of _ blk] exI[of _ after] exI[of _ parts] conjI s(1) b(1,3) b(1)[unfolded s(2)] p) blast+
qed


section \<open>From one end to the other\<close>

text \<open>The packets of a frame.\<close>

fun frame_packets :: "u32 \<Rightarrow> u8 list list \<Rightarrow> 'p VideoStream \<Rightarrow> RtpPacket list" where
  "frame_packets ts [] v = []"
| "frame_packets ts (frag # rest) v = video_packet ts (rest = []) frag v # frame_packets ts rest (v\<lparr>vs_seq := vs_seq v + 1\<rparr>)"

lemma frame_packets_cong:
  "vs_pt w = vs_pt v \<Longrightarrow> vs_seq w = vs_seq v \<Longrightarrow> vs_ssrc w = vs_ssrc v \<Longrightarrow> tx_rotation w = tx_rotation v
    \<Longrightarrow> frame_packets ts frags w = frame_packets ts frags v"
  by (induction frags arbitrary: v w) (simp_all add: video_packet_def)

text \<open>
  What a peer gets out of the datagrams, when its context follows ours.  The payload type of an RTP
  packet has seven bits.
\<close>

definition opened_by :: "('c, 'p) Rtc \<Rightarrow> ('c \<Rightarrow> 'c \<Rightarrow> bool) \<Rightarrow> bool" where
  "opened_by lib paired \<longleftrightarrow>
     (\<forall>tx rx rtp dg tx'. paired tx rx \<longrightarrow> encrypt_rtp lib tx rtp = (Some dg, tx') \<longrightarrow>
        (\<exists>rx'. decrypt_rtp lib rx dg = (Some rtp, rx') \<and> paired tx' rx'))
     \<and> (\<forall>p rtp. rp_type p < 128 \<longrightarrow> rtp_marshal lib p = Some rtp \<longrightarrow> rtp_unmarshal lib rtp = Some p)"

fun open_all :: "('c, 'p) Rtc \<Rightarrow> u8 list list \<Rightarrow> 'c \<Rightarrow> RtpPacket list option" where
  "open_all lib [] rx = Some []"
| "open_all lib (dg # dgs) rx =
     (case decrypt_rtp lib rx dg of
        (Some rtp, rx) \<Rightarrow> Option.bind (rtp_unmarshal lib rtp) (\<lambda>p. map_option (Cons p) (open_all lib dgs rx))
      | _ \<Rightarrow> None)"

lemma send_fragments_opened:
  assumes "opened_by lib paired" "paired tx rx" "send_fragments lib ts frags tx v = (Inr dgs, tx', v')" "vs_pt v < 128"
  shows "open_all lib dgs rx = Some (frame_packets ts frags v)"
  using assms(2-4)
proof (induction frags arbitrary: tx rx v dgs)
  case Nil
  then show ?case by simp
next
  case (Cons frag rest)
  let ?p = "video_packet ts (rest = []) frag v"
  let ?v = "v\<lparr>vs_seq := vs_seq v + 1, tx_packets := tx_packets v + 1, tx_octets := tx_octets v + of_nat (length frag)\<rparr>"
  from Cons.prems(2) obtain rtp dg tx1 dgs1 where 1: "rtp_marshal lib ?p = Some rtp" "encrypt_rtp lib tx rtp = (Some dg, tx1)"
    "send_fragments lib ts rest tx1 ?v = (Inr dgs1, tx', v')" "dgs = dg # dgs1"
    by (auto split: option.splits prod.splits sum.splits)
  obtain rx1 where 2: "decrypt_rtp lib rx dg = (Some rtp, rx1)" "paired tx1 rx1"
    using assms(1) Cons.prems(1) 1(2) unfolding opened_by_def by blast
  have "rp_type ?p < 128"
    using Cons.prems(3) by (simp add: video_packet_def)
  then have "rtp_unmarshal lib rtp = Some ?p"
    using assms(1) 1(1) unfolding opened_by_def by blast
  moreover have "frame_packets ts rest ?v = frame_packets ts rest (v\<lparr>vs_seq := vs_seq v + 1\<rparr>)"
    by (rule frame_packets_cong) simp_all
  ultimately show ?case
    using Cons.IH[OF 2(2) 1(3)] Cons.prems(3) 1(4) 2(1) by simp
qed

text \<open>The depacketizer undoes the payloader.\<close>

definition part_of :: "('c, 'p) Rtc \<Rightarrow> u8 list \<Rightarrow> (bool \<times> u8 list) option" where
  "part_of lib frag = map_option (\<lambda>(s, k, data). (s \<and> k = 0, data)) (depacketize lib frag)"

definition fragments_of :: "('c, 'p) Rtc \<Rightarrow> u8 list list \<Rightarrow> u8 list list \<Rightarrow> bool" where
  "fragments_of lib frags parts \<longleftrightarrow> parts \<noteq> [] \<and> map (part_of lib) frags = map Some ((True, hd parts) # map (Pair False) (tl parts))"

text \<open>The orientation a packet carries.\<close>

definition sent_rotation :: "nat option \<Rightarrow> nat \<Rightarrow> nat" where
  "sent_rotation rot r = (case rot of Some deg \<Rightarrow> deg div 90 mod 4 * 90 | None \<Rightarrow> r)"

lemma rotation_of_orientation: "rotation_of (orientation rot) r = sent_rotation rot r"
proof -
  have "unat (of_nat (n mod 4) :: u8) = n mod 4" for n :: nat
  proof -
    have "n mod 4 < 256" by (rule less_trans[of _ 4]) simp_all
    then show ?thesis by (simp add: unat_low)
  qed
  then show ?thesis
    by (simp add: rotation_of_def orientation_def sent_rotation_def split: option.split)
qed

lemma sent_rotation_twice [simp]: "sent_rotation rot (sent_rotation rot r) = sent_rotation rot r"
  by (simp add: sent_rotation_def split: option.split)

lemma handle_own:
  assumes "vs_pt v = vs_pt sd" "vs_pt sd \<noteq> VP8_RTX_PAYLOAD_TYPE" "rx_ssrc v = None \<or> rx_ssrc v = Some (vs_ssrc sd)"
    and "part_of lib frag = Some (st, data)"
  shows "handle_rtp lib (video_packet ts m frag sd) v =
     reassemble (case prev_seq v of None \<Rightarrow> True | Some q \<Rightarrow> vs_seq sd = q + 1) st (video_packet ts m frag sd) data
       (note_packet (video_packet ts m frag sd) v)"
proof -
  let ?p = "video_packet ts m frag sd"
  obtain s k where d: "depacketize lib frag = Some (s, k, data)" "st = (s \<and> k = 0)"
    using assms(4) by (auto simp: part_of_def)
  have i: "inbound (vs_pt v) ?p = Vp8 frag"
    using assms(1,2) by (simp add: inbound_def video_packet_def)
  have m: "\<not> (rx_ssrc v \<noteq> None \<and> rx_ssrc v \<noteq> Some (rp_ssrc ?p))"
    using assms(3) by (auto simp: video_packet_def)
  have q: "rp_seq ?p = vs_seq sd" by (simp add: video_packet_def)
  show ?thesis
    unfolding handle_rtp_def i Inbound.case if_not_P[OF m] Let_def q d by simp
qed

text \<open>Continuing a frame to its end.\<close>

lemma receive_rest:
  assumes "map (part_of lib) frags = map (\<lambda>d. Some (False, d)) parts" "frags \<noteq> []"
    and "vs_pt v = vs_pt sd" "vs_pt sd \<noteq> VP8_RTX_PAYLOAD_TYPE" "rx_ssrc v = Some (vs_ssrc sd)" "prev_seq v = Some (vs_seq sd - 1)"
    and "assembling v" "\<not> broken v" "cur_ts v = ts" "rx_rotation v = sent_rotation (tx_rotation sd) (rx_rotation v)"
  shows "frames_out (receive lib (frame_packets ts frags sd) v) =
      frames_out v @ [\<lparr>fr_data = cur v @ concat parts, fr_timestamp = ts, fr_keyframe = keyframe_bit (cur v @ concat parts), fr_rotation = rx_rotation v\<rparr>]
    \<and> loss (receive lib (frame_packets ts frags sd) v) = loss v \<and> \<not> assembling (receive lib (frame_packets ts frags sd) v)
    \<and> rx_ssrc (receive lib (frame_packets ts frags sd) v) = Some (vs_ssrc sd)
    \<and> prev_seq (receive lib (frame_packets ts frags sd) v) = Some (vs_seq sd + of_nat (length frags) - 1)"
  using assms
proof (induction frags arbitrary: parts v sd)
  case (Cons frag rest)
  then obtain part parts' where parts: "parts = part # parts'" "part_of lib frag = Some (False, part)"
    "map (part_of lib) rest = map (\<lambda>d. Some (False, d)) parts'"
    by (cases parts) auto
  let ?p = "video_packet ts (rest = []) frag sd"
  let ?v = "note_packet ?p v"
  have v: "vs_pt ?v = vs_pt v" "rx_ssrc ?v = Some (vs_ssrc sd)" "prev_seq ?v = Some (vs_seq sd)" "assembling ?v" "\<not> broken ?v"
    "cur_ts ?v = ts" "cur ?v = cur v" "frames_out ?v = frames_out v" "loss ?v = loss v"
    "rx_rotation ?v = rx_rotation v"
    using Cons.prems by (simp_all add: note_packet_def video_packet_def rotation_of_orientation)
  have p: "rp_time ?p = ts" "rp_marker ?p = (rest = [])" by (simp_all add: video_packet_def)
  have h: "handle_rtp lib ?p v = push_payload ?p part ?v"
    using handle_own[OF Cons.prems(3,4) disjI2[OF Cons.prems(5)] parts(2), of ts "rest = []"] Cons.prems(6) v(4,6) p(1)
    by (simp add: reassemble_def)
  show ?case
  proof (cases "rest = []")
    case True
    with p(2) have "handle_rtp lib ?p v = ?v\<lparr>frames_out := frames_out ?v @ [\<lparr>fr_data = cur ?v @ part, fr_timestamp = cur_ts ?v,
        fr_keyframe = keyframe_bit (cur ?v @ part), fr_rotation = rx_rotation ?v\<rparr>], cur := [], rx_frames := rx_frames ?v + 1,
        assembling := False\<rparr>"
      unfolding h using push_payload_simps(3) v(5) by blast
    with True parts v show ?thesis
      by (simp add: receive_def)
  next
    case False
    let ?w = "?v\<lparr>cur := cur ?v @ part\<rparr>" and ?sd = "sd\<lparr>vs_seq := vs_seq sd + 1\<rparr>"
    have w: "handle_rtp lib ?p v = ?w"
      unfolding h using push_payload_simps(1) p(2) False by blast
    have r: "receive lib (frame_packets ts (frag # rest) sd) v = receive lib (frame_packets ts rest ?sd) ?w"
      by (simp add: receive_def w)
    have "frames_out (receive lib (frame_packets ts rest ?sd) ?w) = frames_out ?w @ [\<lparr>fr_data = cur ?w @ concat parts', fr_timestamp = ts,
        fr_keyframe = keyframe_bit (cur ?w @ concat parts'), fr_rotation = rx_rotation ?w\<rparr>]
      \<and> loss (receive lib (frame_packets ts rest ?sd) ?w) = loss ?w \<and> \<not> assembling (receive lib (frame_packets ts rest ?sd) ?w)
      \<and> rx_ssrc (receive lib (frame_packets ts rest ?sd) ?w) = Some (vs_ssrc ?sd)
      \<and> prev_seq (receive lib (frame_packets ts rest ?sd) ?w) = Some (vs_seq ?sd + of_nat (length rest) - 1)"
      by (rule Cons.IH[OF parts(3) False]) (use v Cons.prems in simp_all)
    then show ?thesis
      unfolding r using v parts(1) by simp
  qed
qed simp


text \<open>
  C21. A frame that is sent and whose datagrams arrive in order is delivered as it was sent, with the
  orientation of the sender, and no loss is noted; the receiver is then ready for the next frame.
  The payload type is one of the seven bits RTP has for it.
\<close>
theorem video_roundtrip:
  assumes "opened_by lib paired" "paired tx rx"
    and "vp8_fragments lib (payloader sd) RTP_PAYLOAD_BUDGET data = (Some frags, p')" "fragments_of lib frags parts" "concat parts = data"
    and "payload_frame lib data ts tx sd = (Inr dgs, tx', sd')"
    and "vs_pt v = vs_pt sd" "vs_pt sd \<noteq> VP8_RTX_PAYLOAD_TYPE" "\<not> assembling v"
    and "rx_ssrc v = None \<and> prev_seq v = None \<or> rx_ssrc v = Some (vs_ssrc sd) \<and> prev_seq v = Some (vs_seq sd - 1)"
    and "vs_pt sd < 128"
  shows "\<exists>pkts v'. open_all lib dgs rx = Some pkts \<and> v' = receive lib pkts v
    \<and> frames_out v' = frames_out v @ [\<lparr>fr_data = data, fr_timestamp = ts, fr_keyframe = keyframe_bit data,
         fr_rotation = sent_rotation (tx_rotation sd) (rx_rotation v)\<rparr>]
    \<and> loss v' = loss v \<and> \<not> assembling v' \<and> rx_ssrc v' = Some (vs_ssrc sd) \<and> prev_seq v' = Some (vs_seq sd + of_nat (length frags) - 1)"
proof -
  let ?sd = "sd\<lparr>payloader := p'\<rparr>"
  obtain v1 where "send_fragments lib ts frags tx ?sd = (Inr dgs, tx', v1)"
    using assms(3,6) by (auto simp: payload_frame_def split: prod.splits sum.splits)
  from send_fragments_opened[OF assms(1,2) this] assms(11) have o: "open_all lib dgs rx = Some (frame_packets ts frags ?sd)" by simp
  have f: "frame_packets ts frags ?sd = frame_packets ts frags sd"
    by (rule frame_packets_cong) simp_all
  obtain frag rest part parts' where s: "frags = frag # rest" "parts = part # parts'" "part_of lib frag = Some (True, part)"
    "map (part_of lib) rest = map (\<lambda>d. Some (False, d)) parts'"
    using assms(4) by (cases parts; cases frags) (auto simp: fragments_of_def)
  let ?p = "video_packet ts (rest = []) frag sd"
  let ?v = "note_packet ?p v"
  let ?w = "?v\<lparr>cur := [], cur_ts := ts, assembling := True, broken := False\<rparr>"
  have v: "\<not> assembling ?v" "vs_pt ?v = vs_pt sd" "rx_ssrc ?v = Some (vs_ssrc sd)" "prev_seq ?v = Some (vs_seq sd)"
    "frames_out ?v = frames_out v" "loss ?v = loss v" "rx_rotation ?v = sent_rotation (tx_rotation sd) (rx_rotation v)"
    using assms(7,9) by (simp_all add: note_packet_def video_packet_def rotation_of_orientation)
  have p: "rp_time ?p = ts" "rp_marker ?p = (rest = [])" by (simp_all add: video_packet_def)
  have c: "(case prev_seq v of None \<Rightarrow> True | Some q \<Rightarrow> vs_seq sd = q + 1)" "rx_ssrc v = None \<or> rx_ssrc v = Some (vs_ssrc sd)"
    using assms(10) by auto
  have h: "handle_rtp lib ?p v = push_payload ?p part ?w"
    using handle_own[OF assms(7,8) c(2) s(3), of ts "rest = []"] c(1) v(1) p(1) by (simp add: reassemble_def Let_def)
  show ?thesis
  proof (cases "rest = []")
    case True
    with p(2) have "handle_rtp lib ?p v = ?w\<lparr>frames_out := frames_out ?w @ [\<lparr>fr_data = cur ?w @ part, fr_timestamp = cur_ts ?w,
        fr_keyframe = keyframe_bit (cur ?w @ part), fr_rotation = rx_rotation ?w\<rparr>], cur := [], rx_frames := rx_frames ?w + 1,
        assembling := False\<rparr>"
      unfolding h by (intro push_payload_simps(3)) simp_all
    with True s v o f assms(5) show ?thesis
      by (simp add: receive_def)
  next
    case False
    let ?w1 = "?w\<lparr>cur := cur ?w @ part\<rparr>" and ?sd1 = "sd\<lparr>vs_seq := vs_seq sd + 1\<rparr>"
    have "handle_rtp lib ?p v = ?w1"
      unfolding h by (rule push_payload_simps(1)) (use p(2) False in simp)
    then have r: "receive lib (frame_packets ts frags sd) v = receive lib (frame_packets ts rest ?sd1) ?w1"
      by (simp add: receive_def s(1))
    have "frames_out (receive lib (frame_packets ts rest ?sd1) ?w1) = frames_out ?w1 @ [\<lparr>fr_data = cur ?w1 @ concat parts', fr_timestamp = ts,
        fr_keyframe = keyframe_bit (cur ?w1 @ concat parts'), fr_rotation = rx_rotation ?w1\<rparr>]
      \<and> loss (receive lib (frame_packets ts rest ?sd1) ?w1) = loss ?w1 \<and> \<not> assembling (receive lib (frame_packets ts rest ?sd1) ?w1)
      \<and> rx_ssrc (receive lib (frame_packets ts rest ?sd1) ?w1) = Some (vs_ssrc ?sd1)
      \<and> prev_seq (receive lib (frame_packets ts rest ?sd1) ?w1) = Some (vs_seq ?sd1 + of_nat (length rest) - 1)"
      by (rule receive_rest[OF s(4) False]) (use v assms(8) in simp_all)
    moreover have "part @ concat parts' = data" "length frags = Suc (length rest)"
      using s(1,2) assms(5) by simp_all
    ultimately have "frames_out (receive lib (frame_packets ts frags sd) v) = frames_out v @ [\<lparr>fr_data = data, fr_timestamp = ts,
        fr_keyframe = keyframe_bit data, fr_rotation = sent_rotation (tx_rotation sd) (rx_rotation v)\<rparr>]
      \<and> loss (receive lib (frame_packets ts frags sd) v) = loss v \<and> \<not> assembling (receive lib (frame_packets ts frags sd) v)
      \<and> rx_ssrc (receive lib (frame_packets ts frags sd) v) = Some (vs_ssrc sd)
      \<and> prev_seq (receive lib (frame_packets ts frags sd) v) = Some (vs_seq sd + of_nat (length frags) - 1)"
      unfolding r using v by (simp add: add.assoc)
    with o f show ?thesis by auto
  qed
qed

text \<open>
  C36. A packet lost right before a RED packet of another kind is not noticed: the frame is delivered
  with a hole in it, and no keyframe will be asked for.
\<close>
theorem foreign_hides_loss:
  assumes "vp8_of lib pt a = Some (True, x)" "inbound pt r = ForeignRed" "vp8_of lib pt b = Some (False, y)"
    and "rp_ssrc a = s" "rp_ssrc r = s" "rp_ssrc b = s" "rp_time b = rp_time a" "\<not> rp_marker a" "rp_marker b"
    and "rp_seq r = rp_seq a + 2" "rp_seq b = rp_seq a + 3"
    and "v = receive lib [a, r, b] (VideoStream_new pl pt ssrc)"
  shows "map fr_data (frames_out v) = [x @ y] \<and> \<not> loss v \<and> rx_broken_frames v = 0"
proof -
  obtain ba bb where ib: "inbound pt a = Vp8 ba" "inbound pt b = Vp8 bb"
    using assms(1,3) by (auto simp: vp8_of_def split: Inbound.splits)
  then obtain sa ka sb kb where d: "depacketize lib ba = Some (sa, ka, x)" "sa \<and> ka = 0" "depacketize lib bb = Some (sb, kb, y)" "\<not> (sb \<and> kb = 0)"
    using assms(1,3) by (auto simp: vp8_of_def)
  let ?v0 = "VideoStream_new pl pt ssrc"
  let ?v1 = "(note_packet a ?v0)\<lparr>cur := x, cur_ts := rp_time a, assembling := True, broken := False\<rparr>"
  let ?v2 = "?v1\<lparr>rx_packets := 2, prev_seq := Some (rp_seq r)\<rparr>"
  have 1: "handle_rtp lib a ?v0 = ?v1"
    using ib d assms(8) by (simp add: handle_rtp_def VideoStream_new_def note_packet_def reassemble_def push_payload_def Let_def)
  have 2: "handle_rtp lib r ?v1 = ?v2"
    using assms(2,4,5) by (simp add: handle_rtp_def VideoStream_new_def note_packet_def note_foreign_def Let_def)
  have "rp_seq b = rp_seq r + 1" using assms(10,11) by simp
  then have 3: "frames_out (handle_rtp lib b ?v2) = [\<lparr>fr_data = x @ y, fr_timestamp = rp_time a, fr_keyframe = keyframe_bit (x @ y),
      fr_rotation = rx_rotation (note_packet b ?v2)\<rparr>]" "\<not> loss (handle_rtp lib b ?v2)" "rx_broken_frames (handle_rtp lib b ?v2) = 0"
    using ib d(3,4) assms(4,6,7,9)
    by (auto simp: handle_rtp_def VideoStream_new_def note_packet_def reassemble_def push_payload_def Let_def)
  have "v = handle_rtp lib b ?v2"
    unfolding assms(12) receive_def by (simp add: 1 2)
  with 3 show ?thesis by simp
qed


section \<open>Examples\<close>

text \<open>Fragments of one byte behind the bit \<open>S\<close>; two packets that can be written.\<close>

definition demo_rtp :: "seq16 \<Rightarrow> bool \<Rightarrow> u8 list \<Rightarrow> RtpPacket" where
  "demo_rtp n m bytes = \<lparr>rp_type = 108, rp_seq = n, rp_time = 9, rp_ssrc = 1003, rp_marker = m, rp_exts = [], rp_payload = bytes\<rparr>"

definition demo_rtc :: "(unit, unit) Rtc" where
  "demo_rtc = \<lparr>rtp_marshal = (\<lambda>p. if p = demo_rtp 1 False [1, 2] then Some [1] else if p = demo_rtp 2 True [0, 3] then Some [2] else None),
     rtp_unmarshal = (\<lambda>bs. if bs = [1] then Some (demo_rtp 1 False [1, 2]) else if bs = [2] then Some (demo_rtp 2 True [0, 3]) else None),
     encrypt_rtp = (\<lambda>c bs. (Some bs, c)), decrypt_rtp = (\<lambda>c bs. (Some bs, c)),
     encrypt_rtcp = (\<lambda>c bs. (Some bs, c)), decrypt_rtcp = (\<lambda>c bs. (Some bs, c)), new_payloader = (),
     vp8_fragments = (\<lambda>p n data. (Some [1 # take 1 data, 0 # drop 1 data], p)),
     depacketize = (\<lambda>bs. case bs of [] \<Rightarrow> None | b # rest \<Rightarrow> Some (b = 1, 0, rest))\<rparr>"

lemma demo_opened: "opened_by demo_rtc (\<lambda>tx rx. True)"
  by (auto simp: opened_by_def demo_rtc_def split: if_splits)

lemma demo_inbound: "inbound 108 (demo_rtp n m bytes) = Vp8 bytes"
  by (simp add: inbound_def demo_rtp_def VP8_RTX_PAYLOAD_TYPE_def)

theorem frames_exact_witness:
  "\<exists>f s before blk after parts. let v = receive demo_rtc [demo_rtp 1 False [1, 2], demo_rtp 2 True [0, 3]] (VideoStream_new () 108 2003) in
     frames_out v = [f] \<and> rx_ssrc v = Some s
     \<and> filter (relevant 108 s) [demo_rtp 1 False [1, 2], demo_rtp 2 True [0, 3]] = before @ blk @ after \<and> fr_data f = concat parts"
proof -
  let ?pkts = "[demo_rtp 1 False [1, 2], demo_rtp 2 True [0, 3]]"
  let ?v = "receive demo_rtc ?pkts (VideoStream_new () 108 2003)"
  have "\<forall>p \<in> set ?pkts. inbound 108 p \<noteq> ForeignRed"
    by (simp add: demo_inbound)
  moreover obtain f where f: "frames_out ?v = [f]"
    by (simp add: receive_def handle_rtp_def VideoStream_new_def demo_inbound demo_rtc_def note_packet_def reassemble_def push_payload_def
        demo_rtp_def inbound_def VP8_RTX_PAYLOAD_TYPE_def Let_def)
  ultimately have "\<exists>s before blk after parts. rx_ssrc ?v = Some s \<and> filter (relevant 108 s) ?pkts = before @ blk @ after
     \<and> map (vp8_of demo_rtc 108) blk = map Some ((True, hd parts) # map (Pair False) (tl parts)) \<and> fr_data f = concat parts
     \<and> successively (\<lambda>a b. rp_seq b = rp_seq a + 1) blk \<and> (\<forall>p \<in> set blk. rp_time p = fr_timestamp f)
     \<and> rp_marker (last blk) \<and> (\<forall>p \<in> set (butlast blk). \<not> rp_marker p)"
    by (intro frames_exact[OF _ refl, of ?pkts 108 f demo_rtc "()" 2003]) simp_all
  with f show ?thesis unfolding Let_def by blast
qed

definition demo_sender :: "unit VideoStream" where
  "demo_sender = VideoStream_new () 108 1003"

theorem video_roundtrip_witness:
  "\<exists>dgs tx' sd' pkts. payload_frame demo_rtc [2, 3] 9 () demo_sender = (Inr dgs, tx', sd') \<and> open_all demo_rtc dgs () = Some pkts
     \<and> map fr_data (frames_out (receive demo_rtc pkts (VideoStream_new () 108 2003))) = [[2, 3]]"
proof -
  have p: "video_packet 9 False [1, 2] demo_sender = demo_rtp 1 False [1, 2]"
    "video_packet 9 True [0, 3] (demo_sender\<lparr>vs_seq := 2, tx_packets := a, tx_octets := b\<rparr>) = demo_rtp 2 True [0, 3]" for a b
    by (simp_all add: video_packet_def demo_sender_def VideoStream_new_def demo_rtp_def orientation_def)
  have "\<exists>sd'. payload_frame demo_rtc [2, 3] 9 () demo_sender = (Inr [[1], [2]], (), sd')"
    by (simp add: payload_frame_def demo_rtc_def demo_sender_def VideoStream_new_def video_packet_def demo_rtp_def orientation_def)
  then obtain sd' where s: "payload_frame demo_rtc [2, 3] 9 () demo_sender = (Inr [[1], [2]], (), sd')" by blast
  have "fragments_of demo_rtc [[1, 2], [0, 3]] [[2], [3]]"
    by (simp add: fragments_of_def part_of_def demo_rtc_def)
  moreover have "vp8_fragments demo_rtc (payloader demo_sender) RTP_PAYLOAD_BUDGET [2, 3] = (Some [[1, 2], [0, 3]], ())"
    by (simp add: demo_rtc_def)
  ultimately have "\<exists>pkts v'. open_all demo_rtc [[1], [2]] () = Some pkts \<and> v' = receive demo_rtc pkts (VideoStream_new () 108 2003)
    \<and> frames_out v' = frames_out (VideoStream_new () 108 2003) @ [\<lparr>fr_data = [2, 3], fr_timestamp = 9, fr_keyframe = keyframe_bit [2, 3],
         fr_rotation = sent_rotation (tx_rotation demo_sender) (rx_rotation (VideoStream_new () 108 2003))\<rparr>]
    \<and> loss v' = loss (VideoStream_new () 108 2003) \<and> \<not> assembling v' \<and> rx_ssrc v' = Some (vs_ssrc demo_sender)
    \<and> prev_seq v' = Some (vs_seq demo_sender + of_nat (length [[1, 2], [0, 3 :: u8]]) - 1)"
    by (intro video_roundtrip[OF demo_opened _ _ _ _ s, where parts = "[[2], [3]]" and p' = "()" and rx = "()"])
      (simp_all add: demo_sender_def VideoStream_new_def VP8_RTX_PAYLOAD_TYPE_def)
  with s show ?thesis by (auto simp: VideoStream_new_def)
qed

theorem foreign_hides_loss_witness:
  "let v = receive demo_rtc [demo_rtp 1 False [1, 7], (demo_rtp 3 False [])\<lparr>rp_type := 120\<rparr>, demo_rtp 4 True [0, 9]]
       (VideoStream_new () 108 2003)
   in map fr_data (frames_out v) = [[7, 9]] \<and> \<not> loss v \<and> rx_broken_frames v = 0"
proof -
  have "vp8_of demo_rtc 108 (demo_rtp 1 False [1, 7]) = Some (True, [7])" "vp8_of demo_rtc 108 (demo_rtp 4 True [0, 9]) = Some (False, [9])"
    by (simp_all add: vp8_of_def demo_inbound demo_rtc_def)
  moreover have "inbound 108 ((demo_rtp 3 False [])\<lparr>rp_type := 120\<rparr>) = ForeignRed"
    by (simp add: inbound_def demo_rtp_def VP8_RTX_PAYLOAD_TYPE_def VIDEO_RED_PAYLOAD_TYPE_def red_primary_def red_loop.simps get_def)
  ultimately show ?thesis
    unfolding Let_def
    using foreign_hides_loss[OF _ _ _ _ _ _ _ _ _ _ _ refl, of demo_rtc 108 "demo_rtp 1 False [1, 7]" "[7]"
        "(demo_rtp 3 False [])\<lparr>rp_type := 120\<rparr>" "demo_rtp 4 True [0, 9]" "[9]" 1003 "()" 2003]
    by (simp add: demo_rtp_def)
qed

end
