(* ===== verification/CallTwcc.thy ===== *)
theory CallTwcc
  imports CallVideo
begin

text \<open>
  Receiver feedback of a call (\<open>wandr-call/src/twcc.rs\<close>): the transport-wide numbers and the
  arrival times of the packets that came in, reported to the sender about ten times a second.  The
  writer of the RTCP packet is the parameter \<open>marshal\<close>.

  Instants are nanoseconds, arrival times microseconds; \<open>None\<close> is a panic.
\<close>

definition TRANSPORT_CC_EXT_ID :: u8 where "TRANSPORT_CC_EXT_ID = 1"
definition FEEDBACK_INTERVAL_MS :: nat where "FEEDBACK_INTERVAL_MS = 100"

datatype TccSymbol = PacketNotReceived | PacketReceivedSmallDelta | PacketReceivedLargeDelta

record RecvDelta =
  rd_type :: TccSymbol
  rd_delta :: int

text \<open>\<open>packet_chunks\<close>: the symbol lists of the two-bit status vectors.\<close>

record TransportLayerCc =
  sender_ssrc :: u32
  media_ssrc :: u32
  base_sequence_number :: seq16
  packet_status_count :: nat
  reference_time :: nat
  cc_pkt_count :: u8
  packet_chunks :: "TccSymbol list list"
  recv_deltas :: "RecvDelta list"

record TwccTracker =
  tw_pkts :: "(seq16 \<times> int) list"
  tw_epoch :: instant
  tw_fb_count :: u8
  tw_last_fb :: "instant option"
  tw_last_ssrc :: u32

definition TwccTracker_new :: "instant \<Rightarrow> TwccTracker" where
  "TwccTracker_new now = \<lparr>tw_pkts = [], tw_epoch = now, tw_fb_count = 0, tw_last_fb = None, tw_last_ssrc = 0\<rparr>"

definition twcc_record :: "seq16 \<Rightarrow> u32 \<Rightarrow> instant \<Rightarrow> TwccTracker \<Rightarrow> TwccTracker" where
  "twcc_record n ssrc now t =
     (if length (tw_pkts t) < 2048 then t\<lparr>tw_pkts := tw_pkts t @ [(n, int ((now - tw_epoch t) div 1000))]\<rparr> else t)\<lparr>tw_last_ssrc := ssrc\<rparr>"

text \<open>\<open>dedup_by_key\<close>: of neighbours with the same number, the first stays.\<close>

fun dedup :: "(seq16 \<times> int) list \<Rightarrow> (seq16 \<times> int) list" where
  "dedup (x # y # xs) = (if fst x = fst y then dedup (x # xs) else x # dedup (y # xs))"
| "dedup xs = xs"

definition offset :: "seq16 \<Rightarrow> seq16 \<times> int \<Rightarrow> int" where
  "offset first x = sint (fst x - first)"

definition clamp_delta :: "int \<Rightarrow> int" where
  "clamp_delta d = max (- (2 ^ 15) * 250) (min ((2 ^ 15 - 1) * 250) d)"

text \<open>The symbols, and the deltas from \<open>prev\<close> on.\<close>

fun mark :: "seq16 \<Rightarrow> int \<Rightarrow> (seq16 \<times> int) list \<Rightarrow> TccSymbol list \<Rightarrow> (TccSymbol list \<times> RecvDelta list) option" where
  "mark base prev [] symbols = Some (symbols, [])"
| "mark base prev ((s, t) # batch) symbols =
     (let idx = sint (s - base);
          delta = clamp_delta (t - prev);
          symbol = (if 0 \<le> delta \<and> delta \<le> 255 * 250 then PacketReceivedSmallDelta else PacketReceivedLargeDelta)
      in if idx < 0 \<or> length symbols \<le> nat idx then None
         else map_option (\<lambda>(sy, ds). (sy, \<lparr>rd_type = symbol, rd_delta = delta\<rparr> # ds)) (mark base t batch (symbols[nat idx := symbol])))"

fun chunks_of_7 :: "TccSymbol list \<Rightarrow> TccSymbol list list" where
  "chunks_of_7 [] = []"
| "chunks_of_7 (x # xs) =
     (let c = x # take 6 xs in (c @ replicate (7 - length c) PacketNotReceived) # chunks_of_7 (drop 6 xs))"

text \<open>The feedback for a batch; the inner \<open>None\<close> is a span that is too wide.\<close>

definition feedback :: "(seq16 \<times> int) list \<Rightarrow> u32 \<Rightarrow> TwccTracker \<Rightarrow> TransportLayerCc option option" where
  "feedback pkts sender t =
     (let first = fst (hd pkts);
          batch = dedup (sort_key (offset first) pkts);
          min_off = offset first (hd batch);
          max_off = offset first (last batch);
          count = nat (max_off - min_off + 1)
      in if 0x7FFF < count then Some None
         else
           (let base_seq = first + of_int min_off;
                reference = nat (snd (hd batch) div 64000 mod 2 ^ 24)
            in map_option
                 (\<lambda>(symbols, deltas).
                    Some \<lparr>sender_ssrc = sender, media_ssrc = tw_last_ssrc t, base_sequence_number = base_seq, packet_status_count = count,
                      reference_time = reference, cc_pkt_count = tw_fb_count t, packet_chunks = chunks_of_7 symbols, recv_deltas = deltas\<rparr>)
                 (mark base_seq (int reference * 64000) batch (replicate count PacketNotReceived))))"

definition twcc_poll ::
    "(TransportLayerCc \<Rightarrow> u8 list option) \<Rightarrow> instant \<Rightarrow> u32 \<Rightarrow> TwccTracker \<Rightarrow> (u8 list option \<times> TwccTracker) option" where
  "twcc_poll marshal now sender t =
     (if tw_pkts t = [] then Some (None, t)
      else if (case tw_last_fb t of Some l \<Rightarrow> (now - l) div 1000000 < FEEDBACK_INTERVAL_MS | None \<Rightarrow> False) then Some (None, t)
      else
        (case feedback (tw_pkts t) sender t of
           None \<Rightarrow> None
         | Some None \<Rightarrow> Some (None, t\<lparr>tw_pkts := []\<rparr>)
         | Some (Some fb) \<Rightarrow>
             Some (marshal fb, t\<lparr>tw_pkts := [], tw_fb_count := tw_fb_count t + 1, tw_last_fb := Some now\<rparr>)))"


section \<open>The batch\<close>

lemma offset_inj: "offset first x = offset first y \<longleftrightarrow> fst x = fst y"
proof
  assume "offset first x = offset first y"
  then have "fst x - first = fst y - first"
    unfolding offset_def by (rule signed_word_eqI)
  then show "fst x = fst y" by simp
qed (simp add: offset_def)

lemma dedup_set: "fst ` set (dedup xs) = fst ` set xs" "set (dedup xs) \<subseteq> set xs"
  by (induction xs rule: dedup.induct) auto

lemma dedup_nonempty: "dedup xs = [] \<longleftrightarrow> xs = []"
  by (induction xs rule: dedup.induct) auto

lemma dedup_hd: "xs \<noteq> [] \<Longrightarrow> hd (dedup xs) = hd xs"
  by (induction xs rule: dedup.induct) auto

lemma dedup_map_of: "map_of (dedup xs) = map_of xs"
proof (induction xs rule: dedup.induct)
  case (1 x y xs)
  show ?case
  proof (cases "fst x = fst y")
    case True
    then have "map_of (x # y # xs) = map_of (x # xs)"
      by (cases x; cases y) (auto simp: fun_eq_iff)
    with 1 True show ?thesis by simp
  next
    case False
    with 1 show ?thesis by (simp add: fun_eq_iff)
  qed
qed simp_all

lemma dedup_strict:
  "sorted (map (offset first) xs) \<Longrightarrow> sorted_wrt (<) (map (offset first) (dedup xs))"
proof (induction xs rule: dedup.induct)
  case (1 x y xs)
  show ?case
  proof (cases "fst x = fst y")
    case True
    with 1 show ?thesis by auto
  next
    case False
    with 1(3) have "offset first x < offset first y"
      using offset_inj[of first x y] by (simp add: order_less_le)
    moreover have "sorted_wrt (<) (map (offset first) (dedup (y # xs)))"
      using 1 False by simp
    moreover have "\<forall>z \<in> set (dedup (y # xs)). offset first y \<le> offset first z"
      using 1(3) dedup_set(2)[of "y # xs"] by auto
    ultimately show ?thesis
      using False by (auto intro: less_le_trans)
  qed
qed simp_all

lemma map_of_filter_key: "map_of xs k = map_of (filter (\<lambda>x. fst x = k) xs) k"
  by (induction xs) auto

lemma sort_map_of: "map_of (sort_key (offset first) pkts) = map_of pkts"
proof
  fix k
  have e: "(\<lambda>x. offset first x = offset first (k, 0)) = (\<lambda>x. fst x = k)"
    by (auto simp: offset_inj fun_eq_iff)
  have "filter (\<lambda>x. fst x = k) (sort_key (offset first) pkts) = filter (\<lambda>x. fst x = k) pkts"
    using sort_key_stable[of "offset first" "offset first (k, 0)" pkts] unfolding e .
  then show "map_of (sort_key (offset first) pkts) k = map_of pkts k"
    by (metis map_of_filter_key)
qed

definition batch_of :: "(seq16 \<times> int) list \<Rightarrow> (seq16 \<times> int) list" where
  "batch_of pkts = dedup (sort_key (offset (fst (hd pkts))) pkts)"

lemma batch_facts:
  "sorted_wrt (<) (map (offset (fst (hd pkts))) (batch_of pkts))" "fst ` set (batch_of pkts) = fst ` set pkts"
  "map_of (batch_of pkts) = map_of pkts" "batch_of pkts = [] \<longleftrightarrow> pkts = []"
proof -
  have "sorted (map (offset (fst (hd pkts))) (sort_key (offset (fst (hd pkts))) pkts))" by simp
  from dedup_strict[OF this] show "sorted_wrt (<) (map (offset (fst (hd pkts))) (batch_of pkts))"
    unfolding batch_of_def .
  show "fst ` set (batch_of pkts) = fst ` set pkts"
    unfolding batch_of_def dedup_set(1) by simp
  show "map_of (batch_of pkts) = map_of pkts"
    unfolding batch_of_def dedup_map_of sort_map_of ..
  have "sort_key (offset (fst (hd pkts))) pkts = [] \<longleftrightarrow> pkts = []"
    by (metis set_empty set_sort)
  then show "batch_of pkts = [] \<longleftrightarrow> pkts = []"
    unfolding batch_of_def dedup_nonempty .
qed

text \<open>A number of the batch, seen from the lowest one.\<close>

lemma sint_small: "0 \<le> k \<Longrightarrow> k < 2 ^ 15 \<Longrightarrow> sint (of_int k :: seq16) = k"
  by (simp add: int_word_sint)

lemma offset_from_base:
  assumes "offset first x \<ge> lo" "offset first x - lo < 2 ^ 15"
  shows "sint (fst x - (first + of_int lo)) = offset first x - lo"
proof -
  have e: "fst x - (first + of_int lo) = of_int (offset first x - lo)"
    by (simp add: offset_def)
  show ?thesis
    unfolding e by (rule sint_small) (use assms in simp_all)
qed

lemma mark_spec:
  "(\<forall>x \<in> set batch. 0 \<le> sint (fst x - base) \<and> nat (sint (fst x - base)) < length symbols) \<Longrightarrow>
    \<exists>sy ds. mark base prev batch symbols = Some (sy, ds) \<and> length sy = length symbols
      \<and> (\<forall>i < length sy. sy ! i \<noteq> PacketNotReceived \<longleftrightarrow> symbols ! i \<noteq> PacketNotReceived \<or> (\<exists>x \<in> set batch. nat (sint (fst x - base)) = i))
      \<and> map rd_delta ds = map2 (\<lambda>t p. clamp_delta (t - p)) (map snd batch) (prev # map snd batch)"
proof (induction batch arbitrary: prev symbols)
  case (Cons x batch)
  obtain s t where x: "x = (s, t)" by (cases x)
  let ?idx = "sint (s - base)" and ?delta = "clamp_delta (t - prev)"
  let ?symbol = "if 0 \<le> ?delta \<and> ?delta \<le> 255 * 250 then PacketReceivedSmallDelta else PacketReceivedLargeDelta"
  let ?sy = "symbols[nat ?idx := ?symbol]"
  have i: "0 \<le> ?idx" "nat ?idx < length symbols" using Cons.prems x by auto
  have "\<forall>x \<in> set batch. 0 \<le> sint (fst x - base) \<and> nat (sint (fst x - base)) < length ?sy"
    using Cons.prems by simp
  from Cons.IH[OF this, of t] obtain sy ds where m: "mark base t batch ?sy = Some (sy, ds)" "length sy = length symbols"
    "\<forall>i < length sy. sy ! i \<noteq> PacketNotReceived \<longleftrightarrow> ?sy ! i \<noteq> PacketNotReceived \<or> (\<exists>x \<in> set batch. nat (sint (fst x - base)) = i)"
    "map rd_delta ds = map2 (\<lambda>t p. clamp_delta (t - p)) (map snd batch) (t # map snd batch)"
    by auto
  have "mark base prev (x # batch) symbols = Some (sy, \<lparr>rd_type = ?symbol, rd_delta = ?delta\<rparr> # ds)"
    using i m(1) x by (simp add: Let_def)
  moreover have "\<forall>j < length sy. sy ! j \<noteq> PacketNotReceived \<longleftrightarrow>
      symbols ! j \<noteq> PacketNotReceived \<or> (\<exists>y \<in> set (x # batch). nat (sint (fst y - base)) = j)"
  proof (intro allI impI)
    fix j assume j: "j < length sy"
    have "?sy ! j \<noteq> PacketNotReceived \<longleftrightarrow> symbols ! j \<noteq> PacketNotReceived \<or> nat ?idx = j"
      using i(2) by (cases "nat ?idx = j") auto
    with m(3) j x show "sy ! j \<noteq> PacketNotReceived \<longleftrightarrow>
      symbols ! j \<noteq> PacketNotReceived \<or> (\<exists>y \<in> set (x # batch). nat (sint (fst y - base)) = j)" by auto
  qed
  ultimately show ?case
    using m(2,4) x by auto
qed simp

lemma chunks_of_7_length: "\<forall>c \<in> set (chunks_of_7 xs). length c = 7"
  by (induction xs rule: chunks_of_7.induct) (auto simp: Let_def min_def)

lemma chunks_of_7_back: "take (length xs) (concat (chunks_of_7 xs)) = xs"
proof (induction xs rule: chunks_of_7.induct)
  case (2 x xs)
  show ?case
  proof (cases "length xs < 6")
    case True
    then show ?thesis by (simp add: Let_def)
  next
    case False
    then have "length (take 6 xs) = 6" by simp
    moreover have "take (length xs - 6) (concat (chunks_of_7 (drop 6 xs))) = drop 6 xs"
      using 2[OF refl] by simp
    ultimately show ?thesis
      by (simp add: Let_def)
  qed
qed simp

lemma idx_unique:
  assumes "sorted_wrt (<) (map (offset first) batch)" "\<forall>x \<in> set batch. lo \<le> offset first x \<and> offset first x - lo < 2 ^ 15"
  shows "sorted_wrt (<) (map (\<lambda>x. nat (sint (fst x - (first + of_int lo)))) batch)"
proof -
  have "map (\<lambda>x. nat (sint (fst x - (first + of_int lo)))) batch = map (\<lambda>x. nat (offset first x - lo)) batch"
    using assms(2) offset_from_base by (intro map_cong refl) metis
  moreover have "sorted_wrt (\<lambda>x y. nat (offset first x - lo) < nat (offset first y - lo)) batch"
    using assms by (auto simp: sorted_wrt_map intro!: sorted_wrt_mono_rel[of batch "\<lambda>x y. offset first x < offset first y"])
  ultimately show ?thesis
    by (simp only: sorted_wrt_map)
qed

lemma sorted_bounds: "sorted (map f xs) \<Longrightarrow> x \<in> set xs \<Longrightarrow> f (hd xs) \<le> f x \<and> f x \<le> f (last xs)"
  by (induction xs) auto

text \<open>The batch lies between its first and its last number, and seen from the lowest one every index is in range.\<close>

lemma batch_offsets:
  assumes "pkts \<noteq> []" "first = fst (hd pkts)" "batch = batch_of pkts"
  shows "batch \<noteq> []" "offset first ` set batch = offset first ` set pkts"
    "\<forall>x \<in> set batch. offset first (hd batch) \<le> offset first x \<and> offset first x \<le> offset first (last batch)"
proof -
  show "batch \<noteq> []"
    using batch_facts(4) assms by simp
  have "offset first ` X = (\<lambda>s. sint (s - first)) ` fst ` X" for X :: "(seq16 \<times> int) set"
    by (simp add: image_image offset_def)
  then show "offset first ` set batch = offset first ` set pkts"
    using batch_facts(2)[of pkts] assms(3) by simp
  have "sorted (map (offset first) batch)"
    using batch_facts(1)[of pkts] assms(2,3) by (simp add: strict_sorted_iff)
  then show "\<forall>x \<in> set batch. offset first (hd batch) \<le> offset first x \<and> offset first x \<le> offset first (last batch)"
    using sorted_bounds[of "offset first" batch] by blast
qed

lemma batch_indices:
  assumes "\<forall>x \<in> set batch. lo \<le> offset first x \<and> offset first x \<le> hi" "hi - lo < 32767" "x \<in> set batch"
  shows "sint (fst x - (first + of_int lo)) = offset first x - lo" "0 \<le> offset first x - lo" "nat (offset first x - lo) < nat (hi - lo + 1)"
proof -
  have "lo \<le> offset first x" "offset first x \<le> hi" using assms(1,3) by simp_all
  with assms(2) show "sint (fst x - (first + of_int lo)) = offset first x - lo" "0 \<le> offset first x - lo"
    "nat (offset first x - lo) < nat (hi - lo + 1)"
    by (simp_all add: offset_from_base)
qed

lemma mark_in_range:
  assumes "\<forall>x \<in> set batch. lo \<le> offset first x \<and> offset first x \<le> hi" "hi - lo < 32767" "base = first + of_int lo" "n = nat (hi - lo + 1)"
  obtains sy ds where "mark base prev batch (replicate n PacketNotReceived) = Some (sy, ds)" "length sy = n"
    "\<And>j. j < n \<Longrightarrow> sy ! j \<noteq> PacketNotReceived \<longleftrightarrow> (\<exists>x \<in> set batch. nat (sint (fst x - base)) = j)"
    "map rd_delta ds = map2 (\<lambda>t p. clamp_delta (t - p)) (map snd batch) (prev # map snd batch)"
proof -
  have "\<forall>x \<in> set batch. 0 \<le> sint (fst x - base) \<and> nat (sint (fst x - base)) < length (replicate n PacketNotReceived)"
    using batch_indices[OF assms(1,2)] assms(3,4) by simp
  from mark_spec[OF this, of prev] obtain sy ds where
    "mark base prev batch (replicate n PacketNotReceived) = Some (sy, ds)" "length sy = n"
    "\<forall>j < length sy. sy ! j \<noteq> PacketNotReceived \<longleftrightarrow> replicate n PacketNotReceived ! j \<noteq> PacketNotReceived
        \<or> (\<exists>x \<in> set batch. nat (sint (fst x - base)) = j)"
    "map rd_delta ds = map2 (\<lambda>t p. clamp_delta (t - p)) (map snd batch) (prev # map snd batch)"
    by auto
  with that show thesis by simp
qed

lemma feedback_returns:
  assumes p: "pkts \<noteq> []"
  shows "feedback pkts sender t \<noteq> None"
proof -
  define first batch where "first = fst (hd pkts)" and "batch = batch_of pkts"
  define lo hi where "lo = offset first (hd batch)" and "hi = offset first (last batch)"
  define base n reference where "base = first + of_int lo" and "n = nat (hi - lo + 1)"
    and "reference = nat (snd (hd batch) div 64000 mod 2 ^ 24)"
  note r = batch_offsets(3)[OF p first_def batch_def, folded lo_def hi_def]
  have e: "dedup (sort_key (offset first) pkts) = batch"
    by (simp add: batch_def batch_of_def first_def)
  have "\<exists>out. mark base (int reference * 64000) batch (replicate n PacketNotReceived) = Some out" if "\<not> 0x7FFF < n"
  proof -
    have "hi - lo < 32767" using that unfolding n_def by simp
    from mark_in_range[OF r this base_def n_def] show ?thesis by blast
  qed
  then show ?thesis
    unfolding feedback_def Let_def first_def[symmetric] e lo_def[symmetric] hi_def[symmetric] n_def[symmetric] base_def[symmetric]
      reference_def[symmetric]
    by (cases "0x7FFF < n") auto
qed

lemma twcc_poll_returns: "twcc_poll marshal now sender t \<noteq> None"
proof (cases "tw_pkts t = []")
  case False
  from feedback_returns[OF this, of sender t] show ?thesis
    by (auto simp: twcc_poll_def split: option.splits)
qed (simp add: twcc_poll_def)

text \<open>The received numbers, in the order of the batch.\<close>

lemma received_numbers:
  assumes "pkts \<noteq> []" "first = fst (hd pkts)" "batch = batch_of pkts" "\<forall>x \<in> set batch. lo \<le> offset first x \<and> offset first x \<le> hi" "hi - lo < 32767"
    and "base = first + of_int lo" "n = nat (hi - lo + 1)"
  shows "j < n \<Longrightarrow> base + of_nat j \<in> fst ` set pkts \<longleftrightarrow> (\<exists>x \<in> set batch. nat (sint (fst x - base)) = j)"
    "filter (\<lambda>s. s \<in> fst ` set pkts) (map (\<lambda>j. base + of_nat j) [0..<n]) = map fst batch"
proof -
  define idx where "idx = (\<lambda>x :: seq16 \<times> int. nat (sint (fst x - base)))"
  note i = batch_indices[OF assms(4,5)]
  have rebuilt: "base + of_nat (idx x) = fst x" "idx x < n" if "x \<in> set batch" for x
  proof -
    have "int (idx x) = sint (fst x - base)"
      using i[OF that] assms(6) unfolding idx_def by simp
    then have "of_nat (idx x) = (of_int (sint (fst x - base)) :: seq16)"
      by (metis of_int_of_nat_eq)
    then show "base + of_nat (idx x) = fst x" by simp
    show "idx x < n" using i[OF that] assms(6,7) unfolding idx_def by simp
  qed
  have mem: "base + of_nat j \<in> fst ` set pkts \<longleftrightarrow> (\<exists>x \<in> set batch. idx x = j)" if "j < n" for j
  proof
    assume "base + of_nat j \<in> fst ` set pkts"
    then obtain x where x: "x \<in> set batch" "fst x = base + of_nat j"
      using batch_facts(2)[of pkts] assms(3) by (metis imageE)
    then have "fst x - base = of_int (int j)" by simp
    with sint_small[of "int j"] that assms(5,7) have "sint (fst x - base) = int j" by simp
    with x(1) show "\<exists>x \<in> set batch. idx x = j" unfolding idx_def by (intro bexI[of _ x]) simp_all
  next
    assume "\<exists>x \<in> set batch. idx x = j"
    with rebuilt(1) batch_facts(2)[of pkts] assms(3) show "base + of_nat j \<in> fst ` set pkts" by (metis image_eqI)
  qed
  then show "j < n \<Longrightarrow> base + of_nat j \<in> fst ` set pkts \<longleftrightarrow> (\<exists>x \<in> set batch. nat (sint (fst x - base)) = j)"
    unfolding idx_def by blast
  have "sorted_wrt (<) (map idx batch)"
    unfolding idx_def assms(6) by (intro idx_unique) (use batch_facts(1)[of pkts] assms(2-5) in force)+
  then have "map idx batch = filter (\<lambda>j. base + of_nat j \<in> fst ` set pkts) [0..<n]"
    by (intro strict_sorted_equal) (use mem rebuilt(2) in \<open>auto intro!: sorted_wrt_filter\<close>)
  then have "filter (\<lambda>s. s \<in> fst ` set pkts) (map (\<lambda>j. base + of_nat j) [0..<n]) = map (\<lambda>j. base + of_nat j) (map idx batch)"
    by (simp add: filter_map comp_def)
  then show "filter (\<lambda>s. s \<in> fst ` set pkts) (map (\<lambda>j. base + of_nat j) [0..<n]) = map fst batch"
    using rebuilt(1) by simp
qed

lemma batch_arrivals: "map (\<lambda>s. the (map_of pkts s)) (map fst (batch_of pkts)) = map snd (batch_of pkts)"
proof -
  have "distinct (map (offset (fst (hd pkts))) (batch_of pkts))"
    using batch_facts(1)[of pkts] by (simp add: strict_sorted_iff)
  then have "distinct (map fst (batch_of pkts))"
    by (simp add: distinct_map inj_on_def offset_inj)
  then have "map (\<lambda>s. the (map_of (batch_of pkts) s)) (map fst (batch_of pkts)) = map snd (batch_of pkts)"
    by auto
  then show ?thesis
    by (simp only: batch_facts(3))
qed

text \<open>
  C22. Every feedback is exact.  When the numbers of a batch span fewer than 32767, the packet covers
  the span from the lowest one; a number is marked as received exactly if it came in; there is
  one delta for each received number, in order, of the first arrival of that number against the one
  before, the first against the reference time; and no index is out of range.
\<close>
theorem feedback_exact:
  assumes "tw_pkts t = pkts" "pkts \<noteq> []" "first = fst (hd pkts)"
    and "\<forall>x \<in> set pkts. lo \<le> offset first x \<and> offset first x \<le> hi" "lo \<in> offset first ` set pkts" "hi \<in> offset first ` set pkts" "hi - lo < 32767"
    and "\<forall>l. tw_last_fb t = Some l \<longrightarrow> 100 \<le> (now - l) div 1000000"
  shows "\<exists>fb. twcc_poll marshal now sender t = Some (marshal fb, t\<lparr>tw_pkts := [], tw_fb_count := tw_fb_count t + 1, tw_last_fb := Some now\<rparr>)
     \<and> (let n = packet_status_count fb; base = base_sequence_number fb;
            received = filter (\<lambda>s. s \<in> fst ` set pkts) (map (\<lambda>i. base + of_nat i) [0..<n]);
            arrivals = map (\<lambda>s. the (map_of pkts s)) received
        in int n = hi - lo + 1 \<and> base = first + of_int lo \<and> set received = fst ` set pkts
           \<and> map (\<lambda>sy. sy \<noteq> PacketNotReceived) (take n (concat (packet_chunks fb))) = map (\<lambda>i. base + of_nat i \<in> fst ` set pkts) [0..<n]
           \<and> map rd_delta (recv_deltas fb) = map2 (\<lambda>t p. clamp_delta (t - p)) arrivals (int (reference_time fb) * 64000 # arrivals))"
proof -
  define batch where "batch = batch_of pkts"
  define base where "base = first + of_int lo"
  define n where "n = nat (hi - lo + 1)"
  define reference where "reference = nat (snd (hd batch) div 64000 mod 2 ^ 24)"
  note b = batch_offsets[OF assms(2,3) batch_def]
  obtain x y where "x \<in> set batch" "offset first x = lo" "y \<in> set batch" "offset first y = hi"
    using assms(5,6) unfolding b(2)[symmetric] by blast
  moreover have r: "\<forall>x \<in> set batch. lo \<le> offset first x \<and> offset first x \<le> hi"
    using assms(4) b(2) by (metis (no_types, lifting) image_iff)
  ultimately have lohi: "offset first (hd batch) = lo" "offset first (last batch) = hi"
    using b(1,3) by (force intro!: order_antisym)+
  have n: "int n = hi - lo + 1" "n \<le> 32767"
    using r b(1) assms(7) lohi unfolding n_def by force+
  from mark_in_range[OF r assms(7) base_def n_def, of "int reference * 64000"] obtain sy ds where
    m: "mark base (int reference * 64000) batch (replicate n PacketNotReceived) = Some (sy, ds)" "length sy = n"
    "\<And>j. j < n \<Longrightarrow> sy ! j \<noteq> PacketNotReceived \<longleftrightarrow> (\<exists>x \<in> set batch. nat (sint (fst x - base)) = j)"
    "map rd_delta ds = map2 (\<lambda>t p. clamp_delta (t - p)) (map snd batch) (int reference * 64000 # map snd batch)"
    by blast
  let ?fb = "\<lparr>sender_ssrc = sender, media_ssrc = tw_last_ssrc t, base_sequence_number = base, packet_status_count = n,
      reference_time = reference, cc_pkt_count = tw_fb_count t, packet_chunks = chunks_of_7 sy, recv_deltas = ds\<rparr>"
  have e: "dedup (sort_key (offset first) pkts) = batch"
    by (simp add: batch_def batch_of_def assms(3))
  have "feedback pkts sender t = Some (Some ?fb)"
    unfolding feedback_def Let_def assms(3)[symmetric] e lohi n_def[symmetric] base_def[symmetric] reference_def[symmetric] m(1)
    using n(2) by simp
  then have poll: "twcc_poll marshal now sender t = Some (marshal ?fb, t\<lparr>tw_pkts := [], tw_fb_count := tw_fb_count t + 1, tw_last_fb := Some now\<rparr>)"
    using assms(1,2,8) by (auto simp: twcc_poll_def FEEDBACK_INTERVAL_MS_def split: option.split)
  note received = received_numbers[OF assms(2,3) batch_def r assms(7) base_def n_def]
  have "map (\<lambda>s. s \<noteq> PacketNotReceived) sy = map (\<lambda>j. base + of_nat j \<in> fst ` set pkts) [0..<n]"
    by (rule nth_equalityI) (use m(2,3) received(1) in auto)
  then have status: "map (\<lambda>s. s \<noteq> PacketNotReceived) (take n (concat (chunks_of_7 sy))) = map (\<lambda>j. base + of_nat j \<in> fst ` set pkts) [0..<n]"
    using chunks_of_7_back[of sy] m(2) by simp
  have numbers: "fst ` set batch = fst ` set pkts"
    using batch_facts(2) batch_def by simp
  show ?thesis
    by (intro exI[of _ ?fb] conjI poll)
      (simp only: Let_def TransportLayerCc.select_convs received(2) batch_arrivals[of pkts, folded batch_def] status n(1) m(4) numbers
        base_def[symmetric] set_map simp_thms)
qed


definition demo_tracker :: TwccTracker where
  "demo_tracker = \<lparr>tw_pkts = [(7, 1000), (5, 2000), (7, 2500), (9, 3000)], tw_epoch = 0, tw_fb_count = 0, tw_last_fb = None, tw_last_ssrc = 1\<rparr>"

theorem feedback_exact_witness:
  "\<exists>fb :: TransportLayerCc. twcc_poll (\<lambda>fb. Some []) 5 10 demo_tracker = Some (Some [], demo_tracker\<lparr>tw_pkts := [], tw_fb_count := 1, tw_last_fb := Some 5\<rparr>)
     \<and> packet_status_count fb = 5 \<and> base_sequence_number fb = 5"
proof -
  let ?pkts = "[(7, 1000), (5, 2000), (7, 2500), (9, 3000)] :: (seq16 \<times> int) list"
  have o: "\<forall>x \<in> set ?pkts. - 2 \<le> offset 7 x \<and> offset 7 x \<le> 2" "- 2 \<in> offset 7 ` set ?pkts" "2 \<in> offset 7 ` set ?pkts"
    by (simp_all add: offset_def)
  have t: "tw_pkts demo_tracker = ?pkts" "?pkts \<noteq> []" "7 = fst (hd ?pkts)" "(2 :: int) - (- 2) < 32767"
    "\<forall>l. tw_last_fb demo_tracker = Some l \<longrightarrow> 100 \<le> (5 - l) div 1000000"
    by (simp_all add: demo_tracker_def)
  obtain fb :: TransportLayerCc where "twcc_poll (\<lambda>fb. Some []) 5 10 demo_tracker
       = Some (Some [], demo_tracker\<lparr>tw_pkts := [], tw_fb_count := tw_fb_count demo_tracker + 1, tw_last_fb := Some 5\<rparr>)"
    "int (packet_status_count fb) = 2 - (- 2) + 1" "base_sequence_number fb = 7 + of_int (- 2)"
    using feedback_exact[OF t(1,2,3) o t(4,5), of "\<lambda>fb. Some []" 10] unfolding Let_def by blast
  then show ?thesis
    by (intro exI[of _ fb]) (simp add: demo_tracker_def)
qed

end
