(* ===== verification/CallMedia.thy ===== *)
theory CallMedia
  imports CallTwcc Floats
begin

text \<open>
  The media of a call (\<open>wandr-call/src/media.rs\<close>): PCM to protected RTP and back, and which of the streams that
  share the port a packet belongs to.  \<open>Engine\<close> adds Opus and RTCP to what comes from other
  crates; built with the feature \<open>signal\<close> and the AES of the guest.
\<close>

definition OPUS_PAYLOAD_TYPE :: u8 where "OPUS_PAYLOAD_TYPE = 102"
definition SAMPLE_RATE :: nat where "SAMPLE_RATE = 48000"
definition RTP_DATA_PAYLOAD_TYPE :: u8 where "RTP_DATA_PAYLOAD_TYPE = 101"
definition RTP_DATA_SSRC :: u32 where "RTP_DATA_SSRC = 0xD"

datatype ProtectionProfile = AeadAes256Gcm | Aes128CmHmacSha1_80

record SrtpKeys =
  sk_key :: "u8 list"
  sk_salt :: "u8 list"

text \<open>
  RTCP: what is written, and what is read (\<open>FullIntraRequest\<close> and \<open>PictureLossIndication\<close> are
  \<open>PictureLost\<close>, a bit rate is already cast to \<open>u32\<close>).
\<close>

datatype RtcpOut =
    WritePli u32 u32
  | WriteSenderReport u32 nat u32 u32 u32
  | WriteTwcc TransportLayerCc
  | WriteRemb u32 u32 u32

datatype RtcpIn = PictureLost | Remb u32 | PeerReport u32 nat u32 | OtherRtcp

text \<open>
  \<open>opus_decode\<close> is given the packet and the room for samples; \<open>Inl\<close> is the decoder's message.
\<close>

record ('c, 'p, 'e, 'd) Engine = "('c, 'p) Rtc" +
  srtp_context :: "SrtpKeys \<Rightarrow> ProtectionProfile \<Rightarrow> 'c option"
  opus_encoder :: "'e option"
  opus_decoder :: "'d option"
  opus_encode :: "'e \<Rightarrow> fp list \<Rightarrow> nat \<Rightarrow> u8 list option \<times> 'e"
  opus_decode :: "'d \<Rightarrow> u8 list \<Rightarrow> nat \<Rightarrow> (string + fp list) \<times> 'd"
  rtcp_marshal :: "RtcpOut \<Rightarrow> u8 list option"
  rtcp_unmarshal :: "u8 list \<Rightarrow> RtcpIn list option"

definition opus_packet_samples :: "u8 list \<Rightarrow> nat \<Rightarrow> nat option" where
  "opus_packet_samples data sample_rate =
     (case get data 0 of
        None \<Rightarrow> None
      | Some toc \<Rightarrow>
          (let config = unat toc div 8;
               spf_48k = (if config < 12 then [480, 960, 1920, 2880] ! (config mod 4)
                          else if config < 16 then [480, 960, 480, 960] ! (config mod 4)
                          else [120, 240, 480, 960] ! (config mod 4));
               spf = spf_48k * sample_rate div 48000
           in map_option (\<lambda>frames. spf * frames)
                (case unat toc mod 4 of
                   0 \<Rightarrow> Some 1
                 | Suc 0 \<Rightarrow> Some 2
                 | Suc (Suc 0) \<Rightarrow> Some 2
                 | _ \<Rightarrow> map_option (\<lambda>b. unat b mod 64) (get data 1))))"

record ('c, 'p, 'e, 'd) MediaSession =
  ms_enc :: 'e
  ms_dec :: 'd
  ms_tx :: 'c
  ms_rx :: 'c
  ms_rate :: nat
  ms_frame :: nat
  ms_pt :: u8
  ms_ssrc :: u32
  ms_seq :: seq16
  ms_ts :: u32
  data_ctr :: u32
  ms_video :: "'p VideoStream option"
  rtp_data_in :: "u8 list list"
  ms_twcc :: TwccTracker
  rx_prev_seq :: "seq16 option"
  rx_prev_ts :: "u32 option"
  rx_seq_gaps :: nat
  rx_ts_step :: u32
  rx_payload_len :: nat
  rx_pt :: u8
  rx_media_ssrc :: u32
  rx_dec_err_msg :: string
  rx_dec_err_toc :: u8
  rx_dec_err_stereo :: nat

definition MediaSession_new ::
    "('c, 'p, 'e, 'd) Engine \<Rightarrow> instant \<Rightarrow> nat \<Rightarrow> u8 \<Rightarrow> u32 \<Rightarrow> ProtectionProfile \<Rightarrow> SrtpKeys \<Rightarrow> SrtpKeys
      \<Rightarrow> CallError + ('c, 'p, 'e, 'd) MediaSession" where
  "MediaSession_new lib now rate pt ssrc profile send recv =
     (case (srtp_context lib send profile, srtp_context lib recv profile, opus_encoder lib, opus_decoder lib) of
        (None, _) \<Rightarrow> Inl (SrtpError ''send context'')
      | (_, None, _) \<Rightarrow> Inl (SrtpError ''recv context'')
      | (_, _, None, _) \<Rightarrow> Inl (CodecError ''opus encoder'')
      | (_, _, _, None) \<Rightarrow> Inl (CodecError ''opus decoder'')
      | (Some tx, Some rx, Some e, Some d) \<Rightarrow>
          Inr \<lparr>ms_enc = e, ms_dec = d, ms_tx = tx, ms_rx = rx, ms_rate = rate, ms_frame = rate div 1000 * 20, ms_pt = pt, ms_ssrc = ssrc,
            ms_seq = 1, ms_ts = 0, data_ctr = 0, ms_video = None, rtp_data_in = [], ms_twcc = TwccTracker_new now, rx_prev_seq = None,
            rx_prev_ts = None, rx_seq_gaps = 0, rx_ts_step = 0, rx_payload_len = 0, rx_pt = 0, rx_media_ssrc = 0, rx_dec_err_msg = [],
            rx_dec_err_toc = 0, rx_dec_err_stereo = 0\<rparr>)"

section \<open>Sending\<close>

text \<open>Writing and protecting a packet.\<close>

definition protect :: "('c, 'p, 'e, 'd) Engine \<Rightarrow> RtpPacket \<Rightarrow> 'c \<Rightarrow> (CallError + u8 list) \<times> 'c" where
  "protect lib pkt tx =
     (case rtp_marshal lib pkt of
        None \<Rightarrow> (Inl (RtpError ''marshal''), tx)
      | Some rtp \<Rightarrow>
          (case encrypt_rtp lib tx rtp of
             (None, tx) \<Rightarrow> (Inl (SrtpError ''encrypt''), tx)
           | (Some dg, tx) \<Rightarrow> (Inr dg, tx)))"

definition media_send ::
    "('c, 'p, 'e, 'd) Engine \<Rightarrow> fp list \<Rightarrow> ('c, 'p, 'e, 'd) MediaSession \<Rightarrow> (CallError + u8 list) \<times> ('c, 'p, 'e, 'd) MediaSession" where
  "media_send lib pcm m =
     (case opus_encode lib (ms_enc m) pcm (ms_frame m) of
        (None, e) \<Rightarrow> (Inl (CodecError ''encode''), m\<lparr>ms_enc := e\<rparr>)
      | (Some buf, e) \<Rightarrow>
          (case protect lib \<lparr>rp_type = ms_pt m, rp_seq = ms_seq m, rp_time = ms_ts m, rp_ssrc = ms_ssrc m, rp_marker = False, rp_exts = [],
                  rp_payload = buf\<rparr> (ms_tx m) of
             (Inl err, tx) \<Rightarrow> (Inl err, m\<lparr>ms_enc := e, ms_tx := tx\<rparr>)
           | (Inr dg, tx) \<Rightarrow>
               (Inr dg, m\<lparr>ms_enc := e, ms_tx := tx, ms_seq := ms_seq m + 1, ms_ts := ms_ts m + of_nat (ms_frame m)\<rparr>)))"

definition send_rtp_data ::
    "('c, 'p, 'e, 'd) Engine \<Rightarrow> u8 \<Rightarrow> u32 \<Rightarrow> u8 list \<Rightarrow> ('c, 'p, 'e, 'd) MediaSession
      \<Rightarrow> (CallError + u8 list) \<times> ('c, 'p, 'e, 'd) MediaSession" where
  "send_rtp_data lib pt ssrc data m =
     (let ctr = data_ctr m + 1 in
      case protect lib \<lparr>rp_type = pt, rp_seq = ucast ctr, rp_time = ctr, rp_ssrc = ssrc, rp_marker = False, rp_exts = [], rp_payload = data\<rparr>
             (ms_tx m) of
        (r, tx) \<Rightarrow> (r, m\<lparr>data_ctr := ctr, ms_tx := tx\<rparr>))"

definition enable_video :: "('c, 'p, 'e, 'd) Engine \<Rightarrow> u8 \<Rightarrow> u32 \<Rightarrow> ('c, 'p, 'e, 'd) MediaSession \<Rightarrow> ('c, 'p, 'e, 'd) MediaSession" where
  "enable_video lib pt ssrc m =
     (if ms_video m = None then m\<lparr>ms_video := Some (VideoStream_new (new_payloader lib) pt ssrc)\<rparr> else m)"

definition send_video_frame ::
    "('c, 'p, 'e, 'd) Engine \<Rightarrow> u8 list \<Rightarrow> u32 \<Rightarrow> ('c, 'p, 'e, 'd) MediaSession
      \<Rightarrow> (CallError + u8 list list) \<times> ('c, 'p, 'e, 'd) MediaSession" where
  "send_video_frame lib data timestamp m =
     (case ms_video m of
        None \<Rightarrow> (Inl (RtpError ''video not enabled''), m)
      | Some v \<Rightarrow>
          (case payload_frame (Rtc.truncate lib) data timestamp (ms_tx m) v of
             (r, tx, v) \<Rightarrow> (r, m\<lparr>ms_tx := tx, ms_video := Some v\<rparr>)))"

definition set_video_rotation :: "nat \<Rightarrow> ('c, 'p, 'e, 'd) MediaSession \<Rightarrow> ('c, 'p, 'e, 'd) MediaSession" where
  "set_video_rotation degrees m = m\<lparr>ms_video := map_option (set_rotation degrees) (ms_video m)\<rparr>"

section \<open>Receiving\<close>

text \<open>The transport-wide numbers a packet carries.\<close>

definition note_twcc :: "instant \<Rightarrow> RtpPacket \<Rightarrow> TwccTracker \<Rightarrow> TwccTracker" where
  "note_twcc now pkt t =
     foldl (\<lambda>t e. if ext_id e = TRANSPORT_CC_EXT_ID \<and> 2 \<le> length (ext_payload e)
                  then twcc_record (word_cat (ext_payload e ! 0) (ext_payload e ! 1)) (rp_ssrc pkt) now t else t) t (rp_exts pkt)"

definition is_video :: "RtpPacket \<Rightarrow> 'p VideoStream \<Rightarrow> bool" where
  "is_video pkt v \<longleftrightarrow> rp_type pkt = vs_pt v \<or> rp_type pkt = VP8_RTX_PAYLOAD_TYPE \<or> rp_type pkt = VIDEO_RED_PAYLOAD_TYPE"

text \<open>A packet of our audio stream: the counters, and what it decodes to.\<close>

definition note_audio :: "RtpPacket \<Rightarrow> ('c, 'p, 'e, 'd) MediaSession \<Rightarrow> ('c, 'p, 'e, 'd) MediaSession" where
  "note_audio pkt m =
     m\<lparr>rx_seq_gaps := (case rx_prev_seq m of Some p \<Rightarrow> rx_seq_gaps m + unat (rp_seq pkt - (p + 1)) | None \<Rightarrow> rx_seq_gaps m),
       rx_ts_step := (case rx_prev_ts m of Some p \<Rightarrow> rp_time pkt - p | None \<Rightarrow> rx_ts_step m),
       rx_prev_seq := Some (rp_seq pkt), rx_prev_ts := Some (rp_time pkt)\<rparr>"

definition decode_packet ::
    "('c, 'p, 'e, 'd) Engine \<Rightarrow> u8 list \<Rightarrow> ('c, 'p, 'e, 'd) MediaSession \<Rightarrow> (CallError + fp list) \<times> ('c, 'p, 'e, 'd) MediaSession" where
  "decode_packet lib payload m =
     (let n_samples = max (case opus_packet_samples payload (ms_rate m) of Some n \<Rightarrow> n | None \<Rightarrow> ms_frame m) (ms_frame m) in
      case opus_decode lib (ms_dec m) payload n_samples of
        (Inr pcm, d) \<Rightarrow> (Inr (take n_samples pcm), m\<lparr>ms_dec := d\<rparr>)
      | (Inl e, d) \<Rightarrow>
          (let toc = (case get payload 0 of Some b \<Rightarrow> b | None \<Rightarrow> 0) in
           (Inl (CodecError ''decode''),
            m\<lparr>ms_dec := d, rx_dec_err_msg := e, rx_dec_err_toc := toc,
              rx_dec_err_stereo := (if odd (unat toc div 4) then rx_dec_err_stereo m + 1 else rx_dec_err_stereo m)\<rparr>)))"

definition media_recv ::
    "('c, 'p, 'e, 'd) Engine \<Rightarrow> instant \<Rightarrow> u8 list \<Rightarrow> ('c, 'p, 'e, 'd) MediaSession
      \<Rightarrow> (CallError + fp list) \<times> ('c, 'p, 'e, 'd) MediaSession" where
  "media_recv lib now srtp m =
     (case decrypt_rtp lib (ms_rx m) srtp of
        (None, rx) \<Rightarrow> (Inl (SrtpError ''decrypt''), m\<lparr>ms_rx := rx\<rparr>)
      | (Some rtp, rx) \<Rightarrow>
          (case rtp_unmarshal lib rtp of
             None \<Rightarrow> (Inl (RtpError ''unmarshal''), m\<lparr>ms_rx := rx\<rparr>)
           | Some pkt \<Rightarrow>
               (let m = m\<lparr>ms_rx := rx, rx_pt := rp_type pkt, rx_media_ssrc := rp_ssrc pkt, rx_payload_len := length (rp_payload pkt),
                          ms_twcc := note_twcc now pkt (ms_twcc m)\<rparr>
                in case (case ms_video m of Some v \<Rightarrow> if is_video pkt v then Some v else None | None \<Rightarrow> None) of
                     Some v \<Rightarrow> (Inr [], m\<lparr>ms_video := Some (handle_rtp (Rtc.truncate lib) pkt v)\<rparr>)
                   | None \<Rightarrow>
                       if rp_type pkt = RTP_DATA_PAYLOAD_TYPE \<and> rp_ssrc pkt = RTP_DATA_SSRC then
                         (Inr [], if length (rtp_data_in m) < 16 then m\<lparr>rtp_data_in := rtp_data_in m @ [rp_payload pkt]\<rparr> else m)
                       else if rp_type pkt \<noteq> ms_pt m then (Inr [], m)
                       else decode_packet lib (rp_payload pkt) (note_audio pkt m))))"

definition protect_rtcp :: "('c, 'p, 'e, 'd) Engine \<Rightarrow> u8 list \<Rightarrow> ('c, 'p, 'e, 'd) MediaSession \<Rightarrow> u8 list option \<times> ('c, 'p, 'e, 'd) MediaSession" where
  "protect_rtcp lib raw m = (case encrypt_rtcp lib (ms_tx m) raw of (r, tx) \<Rightarrow> (r, m\<lparr>ms_tx := tx\<rparr>))"

definition unprotect_rtcp :: "('c, 'p, 'e, 'd) Engine \<Rightarrow> u8 list \<Rightarrow> ('c, 'p, 'e, 'd) MediaSession \<Rightarrow> u8 list option \<times> ('c, 'p, 'e, 'd) MediaSession" where
  "unprotect_rtcp lib data m = (case decrypt_rtcp lib (ms_rx m) data of (r, rx) \<Rightarrow> (r, m\<lparr>ms_rx := rx\<rparr>))"

end
