(* ===== verification/CallTransport.thy ===== *)
theory CallTransport
  imports CallMedia Wire
begin

text \<open>
  The transport of a call (\<open>wandr-call/src/transport.rs\<close>): which datagrams go where, when the keys
  are agreed and what they are.  ICE, DTLS, TURN and the cryptography come from other crates; their state
  together is \<open>'x\<close>, and \<open>Net\<close> holds what is called of them.  A list of results is
  what repeated polling gives until nothing is left.
\<close>

record SocketAddr =
  is_ipv4 :: bool
  sa_ip :: string
  sa_port :: nat

datatype CallRole = Offerer | Answerer

datatype TurnEvent = AllocateResponse SocketAddr | RelayData SocketAddr "u8 list" | OtherTurnEvent

type_synonym sends = "(SocketAddr \<times> SocketAddr \<times> u8 list) list"

text \<open>
  \<open>dtls_read\<close>: \<open>None\<close> an error, else whether the handshake is complete; \<open>dtls_state\<close>: the
  certificates of the peer, and the exported keying material.  \<open>turn_send\<close>: \<open>None\<close> when there is
  no such relay, \<open>Some False\<close> without a permission.  \<open>diffie_hellman\<close>: \<open>None\<close> when the
  shared secret is not contributory.
\<close>

record 'x Net =
  ice_connected :: "'x \<Rightarrow> bool"
  ice_pair :: "'x \<Rightarrow> (SocketAddr \<times> SocketAddr) option"
  ice_add_remote :: "SocketAddr \<Rightarrow> 'x \<Rightarrow> bool \<times> 'x"
  ice_add_local :: "SocketAddr \<Rightarrow> SocketAddr \<Rightarrow> 'x \<Rightarrow> bool \<times> 'x"
  ice_start :: "bool \<Rightarrow> string \<Rightarrow> string \<Rightarrow> 'x \<Rightarrow> bool \<times> 'x"
  ice_timeout :: "instant \<Rightarrow> 'x \<Rightarrow> 'x"
  ice_self_select :: "'x \<Rightarrow> bool \<times> 'x"
  ice_read :: "instant \<Rightarrow> SocketAddr \<Rightarrow> SocketAddr \<Rightarrow> u8 list \<Rightarrow> 'x \<Rightarrow> 'x"
  ice_writes :: "'x \<Rightarrow> sends \<times> 'x"
  dtls_connect :: "SocketAddr \<Rightarrow> 'x \<Rightarrow> 'x"
  dtls_timeout :: "SocketAddr \<Rightarrow> instant \<Rightarrow> 'x \<Rightarrow> 'x"
  dtls_read :: "instant \<Rightarrow> SocketAddr \<Rightarrow> u8 list \<Rightarrow> 'x \<Rightarrow> bool option \<times> 'x"
  dtls_writes :: "'x \<Rightarrow> sends \<times> 'x"
  dtls_state :: "SocketAddr \<Rightarrow> 'x \<Rightarrow> (u8 list list \<times> u8 list option) option"
  turn_permit :: "SocketAddr \<Rightarrow> SocketAddr \<Rightarrow> 'x \<Rightarrow> 'x"
  turn_read :: "instant \<Rightarrow> SocketAddr \<Rightarrow> u8 list \<Rightarrow> 'x \<Rightarrow> 'x"
  turn_events :: "'x \<Rightarrow> TurnEvent list \<times> 'x"
  turn_send :: "SocketAddr \<Rightarrow> u8 list \<Rightarrow> SocketAddr \<Rightarrow> 'x \<Rightarrow> bool option \<times> 'x"
  turn_writes :: "'x \<Rightarrow> (SocketAddr \<times> u8 list) list \<times> 'x"
  turn_timeout :: "instant \<Rightarrow> 'x \<Rightarrow> 'x"
  diffie_hellman :: "u8 list \<Rightarrow> u8 list \<Rightarrow> u8 list option"
  hkdf :: "u8 list \<Rightarrow> u8 list \<Rightarrow> u8 list \<Rightarrow> nat \<Rightarrow> u8 list option"
  sha256 :: "u8 list \<Rightarrow> u8 list"

section \<open>The relay\<close>

record RelayState =
  turn_serv_addr :: SocketAddr
  relayed_addr :: "SocketAddr option"
  new_candidates :: "string list"
  permitted :: "SocketAddr list"
  pending_remotes :: "SocketAddr list"
  relayed_in :: "(SocketAddr \<times> u8 list) list"
  dbg_sent :: nat
  dbg_noperm :: nat
  dbg_recv :: nat

definition relay_candidate_string :: "SocketAddr \<Rightarrow> SocketAddr \<Rightarrow> string" where
  "relay_candidate_string relayed base =
     ''1 1 udp 16777215 '' @ sa_ip relayed @ '' '' @ show_nat (sa_port relayed) @ '' typ relay raddr '' @ sa_ip base @ '' rport '' @
     show_nat (sa_port base)"

definition permit :: "'x Net \<Rightarrow> SocketAddr \<Rightarrow> RelayState \<times> 'x \<Rightarrow> RelayState \<times> 'x" where
  "permit net addr rx =
     (case rx of (r, x) \<Rightarrow>
        if addr \<in> set (permitted r) then (r, x)
        else
          (case relayed_addr r of
             Some relayed \<Rightarrow> (r\<lparr>permitted := permitted r @ [addr]\<rparr>, turn_permit net relayed addr x)
           | None \<Rightarrow> (r\<lparr>pending_remotes := pending_remotes r @ [addr]\<rparr>, x)))"

definition turn_event :: "'x Net \<Rightarrow> SocketAddr \<Rightarrow> TurnEvent \<Rightarrow> RelayState \<times> 'x \<Rightarrow> RelayState \<times> 'x" where
  "turn_event net local ev rx =
     (case rx of (r, x) \<Rightarrow>
        (case ev of
           AllocateResponse relayed \<Rightarrow>
             fold (permit net) (pending_remotes r)
               (r\<lparr>relayed_addr := Some relayed, new_candidates := new_candidates r @ [relay_candidate_string relayed local],
                  pending_remotes := []\<rparr>, x)
         | RelayData peer data \<Rightarrow>
             (case permit net peer (r\<lparr>dbg_recv := dbg_recv r + 1\<rparr>, x) of
                (r, x) \<Rightarrow> (r\<lparr>relayed_in := relayed_in r @ [(peer, data)]\<rparr>, x))
         | OtherTurnEvent \<Rightarrow> (r, x)))"

definition drain_events :: "'x Net \<Rightarrow> SocketAddr \<Rightarrow> RelayState \<times> 'x \<Rightarrow> RelayState \<times> 'x" where
  "drain_events net local rx =
     (case rx of (r, x) \<Rightarrow> (case turn_events net x of (evs, x) \<Rightarrow> fold (turn_event net local) evs (r, x)))"

definition handle_turn_datagram :: "'x Net \<Rightarrow> instant \<Rightarrow> SocketAddr \<Rightarrow> SocketAddr \<Rightarrow> u8 list \<Rightarrow> RelayState \<times> 'x \<Rightarrow> RelayState \<times> 'x" where
  "handle_turn_datagram net now local src data rx =
     (case rx of (r, x) \<Rightarrow> drain_events net local (r, turn_read net now src data x))"

definition send_via :: "'x Net \<Rightarrow> u8 list \<Rightarrow> SocketAddr \<Rightarrow> RelayState \<times> 'x \<Rightarrow> RelayState \<times> 'x" where
  "send_via net bytes peer rx =
     (case rx of (r, x) \<Rightarrow>
        (case relayed_addr r of
           None \<Rightarrow> (r, x)
         | Some relayed \<Rightarrow>
             (case turn_send net relayed bytes peer x of
                (None, x) \<Rightarrow> (r, x)
              | (Some True, x) \<Rightarrow> (r\<lparr>dbg_sent := dbg_sent r + 1\<rparr>, x)
              | (Some False, x) \<Rightarrow> (r\<lparr>dbg_noperm := dbg_noperm r + 1\<rparr>, x))))"

section \<open>Keys\<close>

record DtlsKeying =
  client_cfg :: bool
  dtls_started :: bool
  fingerprint :: string
  expected_remote_fp :: "string option"

record SignalKeying =
  x_secret :: "u8 list"
  x_public :: "u8 list"
  remote_public :: "u8 list option"
  caller_identity :: "u8 list"
  callee_identity :: "u8 list"

datatype Keying = Dtls DtlsKeying | SignalDh SignalKeying

definition raw_identity_key :: "u8 list \<Rightarrow> u8 list" where
  "raw_identity_key i = (if length i = 33 \<and> i ! 0 = 5 then tl i else i)"

definition kdf_label :: "u8 list" where
  "kdf_label = map (\<lambda>c. of_nat (of_char c)) ''Signal_Calling_20200807_SignallingDH_SRTPKey_KDF''"

definition derive :: "'x Net \<Rightarrow> CallRole \<Rightarrow> SignalKeying \<Rightarrow> CallError + SrtpKeys \<times> SrtpKeys" where
  "derive net role s =
     (case remote_public s of
        None \<Rightarrow> Inl (DhError ''no remote public key yet'')
      | Some remote \<Rightarrow>
          (case diffie_hellman net (x_secret s) remote of
             None \<Rightarrow> Inl (DhError ''non-contributory DH shared secret (rejected)'')
           | Some shared \<Rightarrow>
               (case hkdf net (replicate 32 0) shared
                       (kdf_label @ raw_identity_key (caller_identity s) @ raw_identity_key (callee_identity s)) 88 of
                  None \<Rightarrow> Inl (DhError ''hkdf expand'')
                | Some okm \<Rightarrow>
                    (let offer = \<lparr>sk_key = take 32 okm, sk_salt = take 12 (drop 32 okm)\<rparr>;
                         answer = \<lparr>sk_key = take 32 (drop 44 okm), sk_salt = take 12 (drop 76 okm)\<rparr>
                     in Inr (case role of Offerer \<Rightarrow> (offer, answer) | Answerer \<Rightarrow> (answer, offer))))))"

definition fingerprint_sha256 :: "'x Net \<Rightarrow> u8 list \<Rightarrow> string" where
  "fingerprint_sha256 net der =
     ''sha-256 '' @ join '':'' (map (\<lambda>b. [hex (unat b div 16), hex (unat b mod 16)]) (sha256 net der))"

definition upper :: "char \<Rightarrow> char" where
  "upper c = (if 97 \<le> byte c \<and> byte c \<le> 122 then char_of (byte c - 32) else c)"

definition normalize_fp :: "string \<Rightarrow> string" where
  "normalize_fp fp = join '' '' (split_ws (map upper fp))"

section \<open>The transport\<close>

record 'x Transport =
  tr_role :: CallRole
  tr_local :: SocketAddr
  tr_remote :: "SocketAddr option"
  tr_net :: 'x
  keying :: Keying
  tr_keys :: "(SrtpKeys \<times> SrtpKeys) option"
  tr_done :: bool
  media_out :: "u8 list list"
  relay :: "RelayState option"
  relay_local_added :: bool
  media_via_relay :: bool
  self_select_at :: "instant option"

datatype CallDemux = Consumed | Media "u8 list"

definition ANSWERER_SELF_SELECT_GRACE :: instant where "ANSWERER_SELF_SELECT_GRACE = 4 * 10 ^ 9"

definition Transport_new :: "CallRole \<Rightarrow> SocketAddr \<Rightarrow> 'x \<Rightarrow> Keying \<Rightarrow> RelayState option \<Rightarrow> 'x Transport" where
  "Transport_new role local x k r =
     \<lparr>tr_role = role, tr_local = local, tr_remote = None, tr_net = x, keying = k, tr_keys = None, tr_done = False, media_out = [], relay = r,
      relay_local_added = False, media_via_relay = False, self_select_at = None\<rparr>"

text \<open>An operation of the relay, when there is one.\<close>

definition on_relay :: "(RelayState \<times> 'x \<Rightarrow> RelayState \<times> 'x) \<Rightarrow> 'x Transport \<Rightarrow> 'x Transport" where
  "on_relay f t =
     (case relay t of None \<Rightarrow> t | Some r \<Rightarrow> (case f (r, tr_net t) of (r, x) \<Rightarrow> t\<lparr>relay := Some r, tr_net := x\<rparr>))"

definition allocated :: "'x Transport \<Rightarrow> SocketAddr option" where
  "allocated t = Option.bind (relay t) relayed_addr"

definition srtp_profile :: "'x Transport \<Rightarrow> ProtectionProfile" where
  "srtp_profile t = (case keying t of SignalDh _ \<Rightarrow> AeadAes256Gcm | Dtls _ \<Rightarrow> Aes128CmHmacSha1_80)"

definition add_candidate :: "'x Net \<Rightarrow> SocketAddr \<Rightarrow> 'x Transport \<Rightarrow> 'x Transport" where
  "add_candidate net addr t = on_relay (permit net addr) (t\<lparr>tr_net := snd (ice_add_remote net addr (tr_net t))\<rparr>)"

definition set_remote ::
    "'x Net \<Rightarrow> instant \<Rightarrow> string \<Rightarrow> string \<Rightarrow> string \<Rightarrow> u8 list option \<Rightarrow> SocketAddr list \<Rightarrow> 'x Transport \<Rightarrow> CallError option \<times> 'x Transport" where
  "set_remote net now ufrag pwd fp rp remotes t =
     (case (case keying t of
              Dtls d \<Rightarrow> Inr (if fp \<noteq> [] then Dtls (d\<lparr>expected_remote_fp := Some (normalize_fp fp)\<rparr>) else Dtls d)
            | SignalDh s \<Rightarrow>
                (case rp of
                   None \<Rightarrow> Inl (DhError ''signaling missing remote public key'')
                 | Some k \<Rightarrow> if length k \<noteq> 32 then Inl (DhError ''remote public key must be 32 bytes'')
                             else Inr (SignalDh (s\<lparr>remote_public := Some k\<rparr>)))) of
        Inl e \<Rightarrow> (Some e, t)
      | Inr k \<Rightarrow>
          (let t = fold (add_candidate net) (filter (\<lambda>r. is_ipv4 r = is_ipv4 (tr_local t)) remotes) (t\<lparr>keying := k\<rparr>);
               controlling = (tr_role t = Offerer)
           in case ice_start net controlling ufrag pwd (tr_net t) of
                (False, x) \<Rightarrow> (Some (IceError ''start checks''), t\<lparr>tr_net := x\<rparr>)
              | (True, x) \<Rightarrow>
                  (None, t\<lparr>tr_net := x,
                           self_select_at := (if controlling then self_select_at t else Some (now + ANSWERER_SELF_SELECT_GRACE))\<rparr>)))"

definition add_remote_candidate :: "'x Net \<Rightarrow> SocketAddr \<Rightarrow> 'x Transport \<Rightarrow> CallError option \<times> 'x Transport" where
  "add_remote_candidate net addr t =
     (if is_ipv4 addr \<noteq> is_ipv4 (tr_local t) then (None, t)
      else
        (let t = on_relay (permit net addr) t in
         case ice_add_remote net addr (tr_net t) of
           (True, x) \<Rightarrow> (None, t\<lparr>tr_net := x\<rparr>)
         | (False, x) \<Rightarrow> (Some (IceError ''add remote candidate''), t\<lparr>tr_net := x\<rparr>)))"

definition take_new_local_candidates :: "'x Transport \<Rightarrow> string list \<times> 'x Transport" where
  "take_new_local_candidates t =
     (case relay t of None \<Rightarrow> ([], t) | Some r \<Rightarrow> (new_candidates r, t\<lparr>relay := Some (r\<lparr>new_candidates := []\<rparr>)\<rparr>))"

definition ensure_relay_local_candidate :: "'x Net \<Rightarrow> 'x Transport \<Rightarrow> 'x Transport" where
  "ensure_relay_local_candidate net t =
     (if relay_local_added t then t
      else
        (case allocated t of
           None \<Rightarrow> t
         | Some relayed \<Rightarrow>
             (case ice_add_local net relayed (tr_local t) (tr_net t) of (ok, x) \<Rightarrow> t\<lparr>tr_net := x, relay_local_added := ok\<rparr>)))"

text \<open>Once a pair is selected: the remote is latched and keying goes on.\<close>

definition maybe_advance :: "'x Net \<Rightarrow> 'x Transport \<Rightarrow> 'x Transport" where
  "maybe_advance net t =
     (if tr_done t \<or> \<not> ice_connected net (tr_net t) then t
      else
        (case ice_pair net (tr_net t) of
           None \<Rightarrow> t
         | Some (local, remote) \<Rightarrow>
             (let t = t\<lparr>tr_remote := Some remote, media_via_relay := (allocated t = Some local)\<rparr> in
              case keying t of
                Dtls d \<Rightarrow>
                  if dtls_started d then t
                  else t\<lparr>tr_net := (if client_cfg d then dtls_connect net remote (tr_net t) else tr_net t),
                         keying := Dtls (d\<lparr>client_cfg := False, dtls_started := True\<rparr>)\<rparr>
              | SignalDh s \<Rightarrow>
                  (case derive net (tr_role t) s of
                     Inr keys \<Rightarrow> t\<lparr>tr_keys := Some keys, tr_done := True\<rparr>
                   | Inl _ \<Rightarrow> t))))"

definition tr_handle_timeout :: "'x Net \<Rightarrow> instant \<Rightarrow> 'x Transport \<Rightarrow> 'x Transport" where
  "tr_handle_timeout net now t =
     (let t = t\<lparr>tr_net := ice_timeout net now (tr_net t)\<rparr>;
          t = (case (keying t, tr_remote t) of
                 (Dtls _, Some remote) \<Rightarrow> t\<lparr>tr_net := dtls_timeout net remote now (tr_net t)\<rparr>
               | _ \<Rightarrow> t);
          t = on_relay (\<lambda>(r, x). drain_events net (tr_local t) (r, turn_timeout net now x)) t;
          t = ensure_relay_local_candidate net t;
          t = (case self_select_at t of
                 Some deadline \<Rightarrow>
                   if deadline \<le> now then
                     (case ice_self_select net (tr_net t) of
                        (True, x) \<Rightarrow> t\<lparr>tr_net := x, self_select_at := None\<rparr>
                      | (False, x) \<Rightarrow> t\<lparr>tr_net := x\<rparr>)
                   else t
               | None \<Rightarrow> t)
      in maybe_advance net t)"

definition queue_media :: "u8 list \<Rightarrow> 'x Transport \<Rightarrow> 'x Transport" where
  "queue_media dg t = t\<lparr>media_out := media_out t @ [dg]\<rparr>"

text \<open>What goes out from one of our addresses: wrapped when it is the relay's.\<close>

fun route :: "'x Net \<Rightarrow> SocketAddr option \<Rightarrow> sends \<Rightarrow> 'x Transport \<Rightarrow> (SocketAddr \<times> u8 list) list \<times> 'x Transport" where
  "route net relayed [] t = ([], t)"
| "route net relayed ((local, peer, bytes) # rest) t =
     (if Some local = relayed then route net relayed rest (on_relay (send_via net bytes peer) t)
      else (case route net relayed rest t of (out, t) \<Rightarrow> ((peer, bytes) # out, t)))"

definition tr_poll_transmit :: "'x Net \<Rightarrow> 'x Transport \<Rightarrow> (SocketAddr \<times> u8 list) list \<times> 'x Transport" where
  "tr_poll_transmit net t =
     (let t = ensure_relay_local_candidate net (maybe_advance net t);
          (ice, x) = ice_writes net (tr_net t);
          (dtls, x) = (case keying t of Dtls _ \<Rightarrow> dtls_writes net x | SignalDh _ \<Rightarrow> ([], x));
          (out, t) = route net (allocated t) (ice @ dtls) (t\<lparr>tr_net := x\<rparr>);
          (media, t) = (case tr_remote t of
             None \<Rightarrow> ([], t)
           | Some dest \<Rightarrow>
               if media_via_relay t then ([], fold (\<lambda>dg. on_relay (send_via net dg dest)) (media_out t) (t\<lparr>media_out := []\<rparr>))
               else (map (Pair dest) (media_out t), t\<lparr>media_out := []\<rparr>));
          (turn, t) = (case relay t of
             None \<Rightarrow> ([], t)
           | Some _ \<Rightarrow> (case turn_writes net (tr_net t) of (ws, x) \<Rightarrow> (ws, t\<lparr>tr_net := x\<rparr>)))
      in (out @ media @ turn, t))"

text \<open>The answerer is the DTLS client.\<close>

definition exported_keys :: "CallRole \<Rightarrow> u8 list \<Rightarrow> SrtpKeys \<times> SrtpKeys" where
  "exported_keys role k =
     (let client = \<lparr>sk_key = take 16 k, sk_salt = take 14 (drop 32 k)\<rparr>;
          server = \<lparr>sk_key = take 16 (drop 16 k), sk_salt = take 14 (drop 46 k)\<rparr>
      in case role of Answerer \<Rightarrow> (client, server) | Offerer \<Rightarrow> (server, client))"

definition on_dtls_done :: "'x Net \<Rightarrow> SocketAddr \<Rightarrow> 'x Transport \<Rightarrow> CallError option \<times> 'x Transport" where
  "on_dtls_done net remote t =
     (if tr_done t then (None, t)
      else
        (case keying t of
           SignalDh _ \<Rightarrow> (None, t)
         | Dtls d \<Rightarrow>
             (case dtls_state net remote (tr_net t) of
                None \<Rightarrow> (Some (DtlsError ''no state''), t)
              | Some (certs, km) \<Rightarrow>
                  if expected_remote_fp d \<noteq> None \<and> certs = [] then (Some (DtlsError ''no peer cert''), t)
                  else if expected_remote_fp d \<noteq> None \<and> normalize_fp (fingerprint_sha256 net (hd certs)) \<noteq> the (expected_remote_fp d) then
                    (Some (DtlsError (''peer fingerprint mismatch '' @ [CHR 0xE2, CHR 0x80, CHR 0x94] @ '' possible MITM'')), t)
                  else
                    (case km of
                       None \<Rightarrow> (Some (DtlsError ''export keys''), t)
                     | Some k \<Rightarrow>
                         (None, t\<lparr>tr_keys := Some (exported_keys (tr_role t) k), tr_done := True\<rparr>)))))"

definition demux_payload ::
    "'x Net \<Rightarrow> instant \<Rightarrow> SocketAddr \<Rightarrow> SocketAddr \<Rightarrow> u8 list \<Rightarrow> 'x Transport \<Rightarrow> (CallError + CallDemux) \<times> 'x Transport" where
  "demux_payload net now local src data t =
     (case get data 0 of
        None \<Rightarrow> (Inr Consumed, t)
      | Some b \<Rightarrow>
          if unat b \<le> 3 then (Inr Consumed, t\<lparr>tr_net := ice_read net now local src data (tr_net t)\<rparr>)
          else if 20 \<le> unat b \<and> unat b \<le> 63 then
            (case keying t of
               SignalDh _ \<Rightarrow> (Inr Consumed, t)
             | Dtls _ \<Rightarrow>
                 (case dtls_read net now src data (tr_net t) of
                    (None, x) \<Rightarrow> (Inl (DtlsError ''read''), t\<lparr>tr_net := x\<rparr>)
                  | (Some finished, x) \<Rightarrow>
                      if finished then
                        (case on_dtls_done net src (t\<lparr>tr_net := x\<rparr>) of
                           (Some e, t) \<Rightarrow> (Inl e, t)
                         | (None, t) \<Rightarrow> (Inr Consumed, t))
                      else (Inr Consumed, t\<lparr>tr_net := x\<rparr>)))
          else if 128 \<le> unat b then (Inr (Media data), t)
          else (Inr Consumed, t))"

text \<open>What the relay has unwrapped; of several media datagrams the last one counts.\<close>

fun demux_relayed ::
    "'x Net \<Rightarrow> instant \<Rightarrow> SocketAddr \<Rightarrow> (SocketAddr \<times> u8 list) list \<Rightarrow> CallDemux \<Rightarrow> 'x Transport \<Rightarrow> (CallError + CallDemux) \<times> 'x Transport" where
  "demux_relayed net now local [] media t = (Inr media, t)"
| "demux_relayed net now local ((peer, payload) # rest) media t =
     (case demux_payload net now local peer payload t of
        (Inl e, t) \<Rightarrow> (Inl e, t)
      | (Inr Consumed, t) \<Rightarrow> demux_relayed net now local rest media t
      | (Inr (Media m), t) \<Rightarrow> demux_relayed net now local rest (Media m) t)"

definition tr_handle_datagram ::
    "'x Net \<Rightarrow> instant \<Rightarrow> SocketAddr \<Rightarrow> u8 list \<Rightarrow> 'x Transport \<Rightarrow> (CallError + CallDemux) \<times> 'x Transport" where
  "tr_handle_datagram net now src data t =
     (case relay t of
        Some r \<Rightarrow>
          if src = turn_serv_addr r then
            (case handle_turn_datagram net now (tr_local t) src data (r, tr_net t) of
               (r, x) \<Rightarrow>
                 demux_relayed net now (case relayed_addr r of Some a \<Rightarrow> a | None \<Rightarrow> tr_local t) (relayed_in r) Consumed
                   (t\<lparr>relay := Some (r\<lparr>relayed_in := []\<rparr>), tr_net := x\<rparr>))
          else demux_payload net now (tr_local t) src data t
      | None \<Rightarrow> demux_payload net now (tr_local t) src data t)"

definition tr_is_connected :: "'x Net \<Rightarrow> 'x Transport \<Rightarrow> bool" where
  "tr_is_connected net t \<longleftrightarrow> ice_connected net (tr_net t) \<and> tr_done t"

definition take_keys :: "'x Transport \<Rightarrow> (SrtpKeys \<times> SrtpKeys) option \<times> 'x Transport" where
  "take_keys t = (tr_keys t, t\<lparr>tr_keys := None\<rparr>)"


section \<open>Where keys come from\<close>

text \<open>What happens to a transport once the description of the peer is there.\<close>

datatype TransportOp =
    TrTimeout instant
  | TrDatagram instant SocketAddr "u8 list"
  | TrPoll
  | TrCandidate SocketAddr
  | TrLocalCandidates
  | TrMedia "u8 list"

fun transport_step :: "'x Net \<Rightarrow> TransportOp \<Rightarrow> 'x Transport \<Rightarrow> 'x Transport" where
  "transport_step net (TrTimeout now) t = tr_handle_timeout net now t"
| "transport_step net (TrDatagram now src data) t = snd (tr_handle_datagram net now src data t)"
| "transport_step net TrPoll t = snd (tr_poll_transmit net t)"
| "transport_step net (TrCandidate addr) t = snd (add_remote_candidate net addr t)"
| "transport_step net TrLocalCandidates t = snd (take_new_local_candidates t)"
| "transport_step net (TrMedia dg) t = queue_media dg t"

text \<open>What is known of the peer, and the keys that fit it.\<close>

definition peer_of :: "Keying \<Rightarrow> SignalKeying + string option" where
  "peer_of k = (case k of SignalDh s \<Rightarrow> Inl s | Dtls d \<Rightarrow> Inr (expected_remote_fp d))"

definition pinned :: "'x Net \<Rightarrow> string option \<Rightarrow> u8 list list \<Rightarrow> bool" where
  "pinned net expected certs \<longleftrightarrow>
     (case expected of None \<Rightarrow> True | Some fp \<Rightarrow> certs \<noteq> [] \<and> normalize_fp (fingerprint_sha256 net (hd certs)) = fp)"

definition keyed_for :: "'x Net \<Rightarrow> CallRole \<Rightarrow> SignalKeying + string option \<Rightarrow> SrtpKeys \<times> SrtpKeys \<Rightarrow> bool" where
  "keyed_for net role peer keys \<longleftrightarrow>
     (case peer of
        Inl s \<Rightarrow> derive net role s = Inr keys
      | Inr expected \<Rightarrow> (\<exists>remote x certs k. dtls_state net remote x = Some (certs, Some k) \<and> pinned net expected certs \<and> keys = exported_keys role k))"

definition secured :: "'x Net \<Rightarrow> CallRole \<Rightarrow> SignalKeying + string option \<Rightarrow> 'x Transport \<Rightarrow> bool" where
  "secured net role peer t \<longleftrightarrow>
     tr_role t = role \<and> peer_of (keying t) = peer
       \<and> (if tr_done t then \<exists>keys. tr_keys t = Some keys \<and> keyed_for net role peer keys else tr_keys t = None)"

lemma secured_frame:
  "secured net role peer t \<Longrightarrow> tr_role t' = tr_role t \<Longrightarrow> peer_of (keying t') = peer_of (keying t) \<Longrightarrow> tr_done t' = tr_done t
    \<Longrightarrow> tr_keys t' = tr_keys t \<Longrightarrow> secured net role peer t'"
  unfolding secured_def by metis

lemma secured_update [simp]:
  "secured net role peer (t\<lparr>tr_net := x\<rparr>) = secured net role peer t"
  "secured net role peer (t\<lparr>relay := r\<rparr>) = secured net role peer t"
  "secured net role peer (t\<lparr>media_out := q\<rparr>) = secured net role peer t"
  "secured net role peer (t\<lparr>relay_local_added := b\<rparr>) = secured net role peer t"
  "secured net role peer (t\<lparr>self_select_at := i\<rparr>) = secured net role peer t"
  "secured net role peer (t\<lparr>tr_remote := a\<rparr>) = secured net role peer t"
  "secured net role peer (t\<lparr>media_via_relay := b\<rparr>) = secured net role peer t"
  by (simp_all add: secured_def)

lemma secured_on_relay [simp]: "secured net role peer (on_relay f t) = secured net role peer t"
  by (simp add: on_relay_def split: option.split prod.split)

lemma secured_on_relays [simp]: "secured net role peer (fold (\<lambda>a. on_relay (f a)) as t) = secured net role peer t"
  by (induction "as" arbitrary: t) simp_all

lemma secured_ensure [simp]: "secured net role peer (ensure_relay_local_candidate lib t) = secured net role peer t"
  by (simp add: ensure_relay_local_candidate_def split: option.split prod.split)

lemma secured_done: "secured net role peer t \<Longrightarrow> \<not> tr_done t \<Longrightarrow> keyed_for net role peer keys
    \<Longrightarrow> secured net role peer (t\<lparr>tr_keys := Some keys, tr_done := True\<rparr>)"
  by (simp add: secured_def)

lemma secured_advance:
  assumes "secured net role peer t"
  shows "secured net role peer (maybe_advance net t)"
proof (cases "tr_done t \<or> \<not> ice_connected net (tr_net t) \<or> ice_pair net (tr_net t) = None")
  case True
  with assms show ?thesis by (auto simp: maybe_advance_def split: option.split)
next
  case False
  then obtain local remote where p: "\<not> tr_done t" "ice_connected net (tr_net t)" "ice_pair net (tr_net t) = Some (local, remote)" by auto
  show ?thesis
  proof (cases "keying t")
    case (Dtls d)
    with assms p show ?thesis
      by (auto simp: maybe_advance_def Let_def secured_def peer_of_def)
  next
    case (SignalDh s)
    with assms p show ?thesis
      by (auto simp: maybe_advance_def Let_def secured_def peer_of_def keyed_for_def split: sum.split)
  qed
qed

lemma secured_timeout: "secured net role peer t \<Longrightarrow> secured net role peer (tr_handle_timeout net now t)"
  unfolding tr_handle_timeout_def Let_def
  by (intro secured_advance) (auto split: option.split Keying.split prod.split bool.split)

lemma secured_dtls_done:
  assumes "secured net role peer t"
  shows "secured net role peer (snd (on_dtls_done net remote t))"
proof (cases "tr_done t")
  case False
  show ?thesis
  proof (cases "keying t")
    case (Dtls d)
    with assms have e: "tr_role t = role" "peer = Inr (expected_remote_fp d)"
      by (auto simp: secured_def peer_of_def)
    show ?thesis
    proof (cases "\<exists>certs k. dtls_state net remote (tr_net t) = Some (certs, Some k) \<and> pinned net (expected_remote_fp d) certs")
      case True
      then obtain certs k where c: "dtls_state net remote (tr_net t) = Some (certs, Some k)" "pinned net (expected_remote_fp d) certs" by blast
      then have "keyed_for net role peer (exported_keys role k)"
        unfolding keyed_for_def e by (auto split: option.split)
      with c Dtls False e secured_done[OF assms False this] show ?thesis
        by (auto simp: on_dtls_done_def pinned_def split: option.splits)
    next
      case no: False
      then show ?thesis
        using assms False Dtls by (cases "expected_remote_fp d") (auto simp: on_dtls_done_def pinned_def split: option.split)
    qed
  qed (simp add: on_dtls_done_def False assms)
qed (simp add: on_dtls_done_def assms)

lemma secured_demux:
  assumes "secured net role peer t"
  shows "secured net role peer (snd (demux_payload net now local src data t))"
proof -
  have "secured net role peer t'" if "on_dtls_done net src (t\<lparr>tr_net := x\<rparr>) = (e, t')" for e t' x
    using secured_dtls_done[of net role peer "t\<lparr>tr_net := x\<rparr>" src] assms that by simp
  with assms show ?thesis
    by (auto simp: demux_payload_def split: option.split Keying.split prod.split)
qed

lemma secured_relayed:
  "secured net role peer t \<Longrightarrow> secured net role peer (snd (demux_relayed net now local ps media t))"
proof (induction net now local ps media t rule: demux_relayed.induct)
  case (2 net now local src data rest media t)
  obtain r t' where d: "demux_payload net now local src data t = (r, t')" by fastforce
  with secured_demux[OF 2(3), of now local src data] have "secured net role peer t'" by simp
  with 2(1)[OF d[symmetric]] 2(2)[OF d[symmetric]] d show ?case
    by (simp split: sum.split CallDemux.split)
qed simp

lemma secured_datagram: "secured net role peer t \<Longrightarrow> secured net role peer (snd (tr_handle_datagram net now src data t))"
  unfolding tr_handle_datagram_def
  by (auto intro!: secured_demux secured_relayed split: option.split prod.split)

lemma secured_route: "secured net role peer t \<Longrightarrow> route net relayed ws t = (out, t') \<Longrightarrow> secured net role peer t'"
  by (induction net relayed ws t arbitrary: out t' rule: route.induct) (auto split: if_splits prod.splits)

lemma secured_poll: "secured net role peer t \<Longrightarrow> secured net role peer (snd (tr_poll_transmit net t))"
  unfolding tr_poll_transmit_def Let_def
  by (auto dest!: secured_route[rotated] intro: secured_advance split: option.split Keying.split prod.split)

lemma secured_step: "secured net role peer t \<Longrightarrow> secured net role peer (transport_step net op t)"
  by (cases op)
    (auto intro: secured_timeout secured_datagram secured_poll
      simp: add_remote_candidate_def take_new_local_candidates_def queue_media_def Let_def split: option.split prod.split bool.split)

lemma secured_run: "secured net role peer t \<Longrightarrow> secured net role peer (fold (transport_step net) ops t)"
  by (induction ops arbitrary: t) (simp_all add: secured_step)


lemma secured_candidates [simp]: "secured net role peer (fold (add_candidate lib) rs t) = secured net role peer t"
  by (induction rs arbitrary: t) (simp_all add: add_candidate_def)

lemma set_remote_secured:
  assumes "set_remote net now ufrag pwd fp rp rs t = (None, t')" "\<not> tr_done t" "tr_keys t = None"
  shows "secured net (tr_role t)
    (case keying t of Dtls d \<Rightarrow> Inr (if fp \<noteq> [] then Some (normalize_fp fp) else expected_remote_fp d)
     | SignalDh s \<Rightarrow> Inl (s\<lparr>remote_public := rp\<rparr>)) t'"
proof -
  have init: "secured net (tr_role t) (peer_of k) (t\<lparr>keying := k\<rparr>)" for k
    using assms(2,3) by (simp add: secured_def)
  show ?thesis
  proof (cases "keying t")
    case (Dtls d)
    let ?k = "if fp \<noteq> [] then Dtls (d\<lparr>expected_remote_fp := Some (normalize_fp fp)\<rparr>) else Dtls d"
    from assms(1) Dtls have "secured net (tr_role t) (peer_of ?k) t'"
      using init[of ?k] by (auto simp: set_remote_def Let_def split: prod.splits bool.splits)
    moreover have "peer_of ?k = Inr (if fp \<noteq> [] then Some (normalize_fp fp) else expected_remote_fp d)"
      by (simp add: peer_of_def)
    ultimately show ?thesis
      by (simp only: Dtls Keying.case)
  next
    case (SignalDh s)
    with assms(1) init[of "SignalDh (s\<lparr>remote_public := rp\<rparr>)"] show ?thesis
      by (auto simp: set_remote_def Let_def peer_of_def split: prod.splits bool.splits option.splits if_splits)
  qed
qed

lemma secured_connected:
  "secured net role peer t \<Longrightarrow> tr_is_connected net t \<Longrightarrow> \<exists>keys. tr_keys t = Some keys \<and> keyed_for net role peer keys"
  by (simp add: secured_def tr_is_connected_def)

text \<open>
  When both sides of a Signal call have set each other's public key and are connected, after any
  datagrams, candidates, time-outs and polls, what one sends with is what the other receives with:
  the two halves of one expansion of the shared secret, bound to both identities.
\<close>
lemma signal_keys_match:
  assumes "keying a = SignalDh sa" "tr_role a = Offerer" "\<not> tr_done a" "tr_keys a = None"
    and "keying b = SignalDh sb" "tr_role b = Answerer" "\<not> tr_done b" "tr_keys b = None"
    and "caller_identity sa = caller_identity sb" "callee_identity sa = callee_identity sb"
    and "diffie_hellman net (x_secret sa) (x_public sb) = Some z" "diffie_hellman net (x_secret sb) (x_public sa) = Some z"
    and "set_remote net i ufrag pwd fp (Some (x_public sb)) rs a = (None, a0)"
    and "set_remote net i' ufrag' pwd' fp' (Some (x_public sa)) rs' b = (None, b0)"
    and "a1 = fold (transport_step net) ops a0" "b1 = fold (transport_step net) ops' b0"
    and "tr_is_connected net a1" "tr_is_connected net b1"
  shows "\<exists>okm. hkdf net (replicate 32 0) z (kdf_label @ raw_identity_key (caller_identity sa) @ raw_identity_key (callee_identity sa)) 88 = Some okm
    \<and> tr_keys a1 = Some (\<lparr>sk_key = take 32 okm, sk_salt = take 12 (drop 32 okm)\<rparr>, \<lparr>sk_key = take 32 (drop 44 okm), sk_salt = take 12 (drop 76 okm)\<rparr>)
    \<and> tr_keys b1 = map_option prod.swap (tr_keys a1)"
proof -
  have "secured net Offerer (Inl (sa\<lparr>remote_public := Some (x_public sb)\<rparr>)) a1"
    using secured_run[OF set_remote_secured[OF assms(13,3,4)], of ops] assms(1,2,15) by simp
  from secured_connected[OF this assms(17)] obtain ka where
    ka: "tr_keys a1 = Some ka" "derive net Offerer (sa\<lparr>remote_public := Some (x_public sb)\<rparr>) = Inr ka"
    unfolding keyed_for_def sum.case by blast
  have "secured net Answerer (Inl (sb\<lparr>remote_public := Some (x_public sa)\<rparr>)) b1"
    using secured_run[OF set_remote_secured[OF assms(14,7,8)], of ops'] assms(5,6,16) by simp
  from secured_connected[OF this assms(18)] obtain kb where
    kb: "tr_keys b1 = Some kb" "derive net Answerer (sb\<lparr>remote_public := Some (x_public sa)\<rparr>) = Inr kb"
    unfolding keyed_for_def sum.case by blast
  from ka kb assms(9-12) show ?thesis
    by (auto simp: derive_def Let_def split: option.splits)
qed

text \<open>
  C20. With the fingerprint of the peer set, a DTLS transport has keys, after whatever datagrams, time-outs
  and polls, only if the certificate of the peer has that fingerprint, and they are the exported ones.
\<close>
theorem dtls_pinned:
  assumes "keying t = Dtls d" "\<not> tr_done t" "tr_keys t = None" "fp \<noteq> []"
    and "set_remote net i ufrag pwd fp rp rs t = (None, t0)" "t1 = fold (transport_step net) ops t0" "tr_keys t1 \<noteq> None \<or> tr_done t1"
  shows "\<exists>remote x cert certs k. dtls_state net remote x = Some (cert # certs, Some k)
    \<and> normalize_fp (fingerprint_sha256 net cert) = normalize_fp fp \<and> tr_keys t1 = Some (exported_keys (tr_role t) k)"
proof -
  have "secured net (tr_role t) (Inr (Some (normalize_fp fp))) t1"
    using secured_run[OF set_remote_secured[OF assms(5,2,3)], of ops] assms(1,4,6) by simp
  with assms(7) obtain keys where k: "tr_keys t1 = Some keys" "keyed_for net (tr_role t) (Inr (Some (normalize_fp fp))) keys"
    unfolding secured_def by (auto split: if_splits)
  from k(2) obtain remote x certs k where "dtls_state net remote x = Some (certs, Some k)" "certs \<noteq> []"
    "normalize_fp (fingerprint_sha256 net (hd certs)) = normalize_fp fp" "keys = exported_keys (tr_role t) k"
    unfolding keyed_for_def sum.case pinned_def option.case by blast
  with k(1) show ?thesis
    by (metis list.exhaust_sel)
qed

definition demo_addr :: SocketAddr where "demo_addr = \<lparr>is_ipv4 = True, sa_ip = ''10.0.0.1'', sa_port = 5000\<rparr>"

text \<open>A net that is always connected; a private key is its own public key.\<close>

definition demo_ice :: "unit Net" where
  "demo_ice =
     \<lparr>ice_connected = \<lambda>_. True, ice_pair = \<lambda>_. Some (demo_addr, demo_addr), ice_add_remote = \<lambda>_ x. (True, x), ice_add_local = \<lambda>_ _ x. (True, x),
      ice_start = \<lambda>_ _ _ x. (True, x), ice_timeout = \<lambda>_ x. x, ice_self_select = \<lambda>x. (True, x), ice_read = \<lambda>_ _ _ _ x. x, ice_writes = \<lambda>x. ([], x),
      dtls_connect = \<lambda>_ x. x, dtls_timeout = \<lambda>_ _ x. x, dtls_read = \<lambda>_ _ _ x. (Some True, x), dtls_writes = \<lambda>x. ([], x),
      dtls_state = \<lambda>_ _. Some ([[1]], Some (replicate 60 7)), turn_permit = \<lambda>_ _ x. x, turn_read = \<lambda>_ _ _ x. x, turn_events = \<lambda>x. ([], x),
      turn_send = \<lambda>_ _ _ x. (Some True, x), turn_writes = \<lambda>x. ([], x), turn_timeout = \<lambda>_ x. x, diffie_hellman = \<lambda>s p. Some (map2 (+) s p),
      hkdf = \<lambda>salt ikm info n. Some (replicate n 3), sha256 = \<lambda>_. [0xAB]\<rparr>"

lemma demo_ice_simps [simp]:
  "ice_connected demo_ice x" "ice_pair demo_ice x = Some (demo_addr, demo_addr)" "ice_start demo_ice c u p x = (True, x)"
  "ice_timeout demo_ice n x = x" "ice_self_select demo_ice x = (True, x)" "dtls_read demo_ice n a b x = (Some True, x)"
  "dtls_state demo_ice a x = Some ([[1]], Some (replicate 60 7))" "diffie_hellman demo_ice s r = Some (map2 (+) s r)"
  "hkdf demo_ice salt ikm info m = Some (replicate m 3)" "sha256 demo_ice der = [0xAB]"
  by (simp_all add: demo_ice_def)

lemma demo_timeout:
  "keying t = SignalDh s \<Longrightarrow> remote_public s = Some k \<Longrightarrow> relay t = None \<Longrightarrow> tr_is_connected demo_ice (tr_handle_timeout demo_ice n t)"
  by (simp add: tr_handle_timeout_def Let_def on_relay_def ensure_relay_local_candidate_def allocated_def maybe_advance_def tr_is_connected_def
      derive_def split: option.split)

definition demo_signal :: "u8 \<Rightarrow> SignalKeying" where
  "demo_signal k = \<lparr>x_secret = replicate 32 k, x_public = replicate 32 k, remote_public = None, caller_identity = [1], callee_identity = [2]\<rparr>"

definition demo_transport :: "CallRole \<Rightarrow> u8 \<Rightarrow> unit Transport" where
  "demo_transport role k = Transport_new role demo_addr () (SignalDh (demo_signal k)) None"

lemma demo_relay: "relay (demo_transport role i) = None"
  by (simp add: demo_transport_def Transport_new_def)

definition demo_dtls :: "unit Transport" where
  "demo_dtls = Transport_new Answerer demo_addr () (Dtls \<lparr>client_cfg = True, dtls_started = False, fingerprint = [], expected_remote_fp = None\<rparr>) None"

lemma demo_fp: "normalize_fp (fingerprint_sha256 demo_ice [1]) = normalize_fp ''sha-256 ab''"
  by code_simp

theorem dtls_pinned_witness:
  "\<exists>cert certs k. dtls_state demo_ice demo_addr () = Some (cert # certs, Some k)
    \<and> normalize_fp (fingerprint_sha256 demo_ice cert) = normalize_fp ''sha-256 ab''
    \<and> tr_keys (fold (transport_step demo_ice) [TrDatagram 1 demo_addr [22]] (snd (set_remote demo_ice 0 [] [] ''sha-256 ab'' None [] demo_dtls)))
        = Some (exported_keys Answerer k)"
proof -
  let ?d = "\<lparr>client_cfg = True, dtls_started = False, fingerprint = [], expected_remote_fp = None\<rparr>"
  let ?t0 = "snd (set_remote demo_ice 0 [] [] ''sha-256 ab'' None [] demo_dtls)"
  have h: "keying demo_dtls = Dtls ?d" "\<not> tr_done demo_dtls" "tr_keys demo_dtls = None" "''sha-256 ab'' \<noteq> []" "tr_role demo_dtls = Answerer"
    "relay demo_dtls = None"
    by (simp_all add: demo_dtls_def Transport_new_def)
  have t0: "set_remote demo_ice 0 [] [] ''sha-256 ab'' None [] demo_dtls = (None, ?t0)"
    by (simp add: set_remote_def h Let_def)
  have "tr_done (fold (transport_step demo_ice) [TrDatagram 1 demo_addr [22]] ?t0)"
    by (simp add: set_remote_def h Let_def tr_handle_datagram_def demux_payload_def get_def on_dtls_done_def demo_fp)
  then have "tr_keys (fold (transport_step demo_ice) [TrDatagram 1 demo_addr [22]] ?t0) \<noteq> None
      \<or> tr_done (fold (transport_step demo_ice) [TrDatagram 1 demo_addr [22]] ?t0)" ..
  from dtls_pinned[OF h(1,2,3,4) t0 refl this] obtain remote x cert certs k where
    "dtls_state demo_ice remote x = Some (cert # certs, Some k)" "normalize_fp (fingerprint_sha256 demo_ice cert) = normalize_fp ''sha-256 ab''"
    "tr_keys (fold (transport_step demo_ice) [TrDatagram 1 demo_addr [22]] ?t0) = Some (exported_keys Answerer k)"
    unfolding h(5) by blast
  then show ?thesis by (simp only: demo_ice_simps) blast
qed

end
