(* ===== verification/CallSession.thy ===== *)
theory CallSession
  imports CallTransport
begin

text \<open>
  A session with one peer (\<open>wandr-call/src/session.rs\<close>): transport and media put together, the RTCP
  that is owed, and the control messages on the RTP-data channel (\<open>signal/mod.rs\<close>).  The protobuf
  code that \<open>prost\<close> derives is \<open>Protos\<close>.

  \<open>now\<close> is the clock at the call; \<open>None\<close> is a panic.
\<close>

section \<open>Signaling\<close>

record Signaling =
  ice_ufrag :: string
  ice_pwd :: string
  sig_fingerprint :: string
  sdp_setup :: string
  direction :: string
  candidates :: "string list"
  audio_pt :: u8
  public_key :: "u8 list option"

definition reverse_direction :: "string \<Rightarrow> string" where
  "reverse_direction offer =
     (if offer = ''recvonly'' then ''sendonly'' else if offer = ''sendonly'' then ''recvonly''
      else if offer = ''inactive'' then ''inactive'' else ''sendrecv'')"

definition candidate_string :: "SocketAddr \<Rightarrow> string" where
  "candidate_string addr = ''1 1 udp 2130706431 '' @ sa_ip addr @ '' '' @ show_nat (sa_port addr) @ '' typ host''"

text \<open>The text of an IPv4 address; of IPv6, \<open>ip6\<close> gives the canonical text.\<close>

definition octet :: "string \<Rightarrow> bool" where
  "octet s \<longleftrightarrow> s \<noteq> [] \<and> list_all is_digit s \<and> length s \<le> 3 \<and> (length s = 1 \<or> hd s \<noteq> CHR ''0'')
     \<and> (case read_digits 0 s of Some n \<Rightarrow> n < 256 | None \<Rightarrow> False)"

definition parse_ip_addr :: "(string \<Rightarrow> string option) \<Rightarrow> string \<Rightarrow> (bool \<times> string) option" where
  "parse_ip_addr ip6 s =
     (let parts = split_char (CHR ''.'') s in
      if length parts = 4 \<and> list_all octet parts then Some (True, s) else map_option (Pair False) (ip6 s))"

definition parse_candidate_addr :: "(string \<Rightarrow> string option) \<Rightarrow> string \<Rightarrow> SocketAddr option" where
  "parse_candidate_addr ip6 cand =
     (let f = split_ws cand in
      if 6 \<le> length f then
        Option.bind (parse_ip_addr ip6 (f ! 4)) (\<lambda>(v4, ip).
          Option.bind (parse_unsigned 16 (f ! 5)) (\<lambda>port. Some \<lparr>is_ipv4 = v4, sa_ip = ip, sa_port = port\<rparr>))
      else None)"

section \<open>The RTP-data channel\<close>

record RtpDataSenderStatus =
  ss_id :: "u64 option"
  ss_video_enabled :: "bool option"
  ss_sharing_screen :: "bool option"
  ss_audio_enabled :: "bool option"

record RtpDataReceiverStatus =
  rs_id :: "u64 option"
  rs_max_bitrate :: "u64 option"

text \<open>\<open>rd_accepted\<close> and \<open>rd_hangup\<close>: messages whose only field is an \<open>id\<close>.\<close>

record RtpDataMessage =
  rd_accepted :: "u64 option option"
  rd_hangup :: "u64 option option"
  rd_sender_status :: "RtpDataSenderStatus option"
  rd_seqnum :: "u64 option"
  rd_receiver_status :: "RtpDataReceiverStatus option"

record VideoCodec =
  vc_type :: "u32 option"

record ConnectionParametersV4 =
  v4_public_key :: "u8 list option"
  v4_ufrag :: "string option"
  v4_pwd :: "string option"
  v4_codecs :: "VideoCodec list"
  v4_max_bitrate :: "u64 option"

text \<open>\<open>offer_encode\<close> writes an \<open>Offer\<close>, whose only field is \<open>v4\<close>; so does \<open>answer_encode\<close>.  An ICE
  candidate is an optional \<open>added_v3\<close> with an optional line.\<close>

record Protos =
  rtp_data_encode :: "RtpDataMessage \<Rightarrow> u8 list"
  rtp_data_decode :: "u8 list \<Rightarrow> RtpDataMessage option"
  offer_encode :: "ConnectionParametersV4 option \<Rightarrow> u8 list"
  offer_decode :: "u8 list \<Rightarrow> ConnectionParametersV4 option option"
  answer_encode :: "ConnectionParametersV4 option \<Rightarrow> u8 list"
  answer_decode :: "u8 list \<Rightarrow> ConnectionParametersV4 option option"
  ice_encode :: "string option option \<Rightarrow> u8 list"
  ice_decode :: "u8 list \<Rightarrow> string option option option"
  ip6 :: "string \<Rightarrow> string option"

definition encode_rtp_data_state :: "Protos \<Rightarrow> u64 \<Rightarrow> u64 \<Rightarrow> bool \<Rightarrow> bool option \<Rightarrow> u64 option \<Rightarrow> u8 list" where
  "encode_rtp_data_state pr call_id seqnum accepted video budget =
     rtp_data_encode pr
       \<lparr>rd_accepted = (if accepted then Some (Some call_id) else None), rd_hangup = None,
        rd_sender_status = map_option (\<lambda>v. \<lparr>ss_id = Some call_id, ss_video_enabled = Some v, ss_sharing_screen = None, ss_audio_enabled = None\<rparr>) video,
        rd_seqnum = Some seqnum, rd_receiver_status = map_option (\<lambda>b. \<lparr>rs_id = Some call_id, rs_max_bitrate = Some b\<rparr>) budget\<rparr>"

record RtpDataState =
  st_video_enabled :: "bool option"
  st_max_bitrate :: "u64 option"
  st_hangup :: bool
  st_seqnum :: "u64 option"

definition decode_rtp_data :: "Protos \<Rightarrow> u8 list \<Rightarrow> RtpDataState option" where
  "decode_rtp_data pr b =
     map_option (\<lambda>msg. \<lparr>st_video_enabled = Option.bind (rd_sender_status msg) ss_video_enabled,
                       st_max_bitrate = Option.bind (rd_receiver_status msg) rs_max_bitrate,
                       st_hangup = (rd_hangup msg \<noteq> None), st_seqnum = rd_seqnum msg\<rparr>) (rtp_data_decode pr b)"

section \<open>The session\<close>

record ('c, 'p, 'e, 'd, 'x) PeerSession =
  se_role :: CallRole
  se_local :: SocketAddr
  se_ufrag :: string
  se_pwd :: string
  transport :: "'x Transport"
  media :: "('c, 'p, 'e, 'd) MediaSession option"
  remote_direction :: "string option"
  audio_in :: "fp list list"
  media_seen :: nat
  decode_ok :: nat
  decode_err :: nat
  se_audio_pt :: u8
  video_in :: "VideoFrame list"
  keyframe_requested :: bool
  pli_wanted :: bool
  last_pli_tx :: "instant option"
  last_sr_tx :: "instant option"
  peer_remb_bps :: "u32 option"
  peer_sr :: "(u32 \<times> nat \<times> u32) option"
  pli_tx :: nat
  pli_rx :: nat
  rtcp_err :: nat
  rtp_data_seqnum :: u64
  rtp_call_id :: "u64 option"
  accepted_engaged :: bool
  video_enabled_local :: "bool option"
  last_rtp_data_tx :: "instant option"
  peer_video_enabled :: "bool option"
  peer_video_toggle :: "bool option"
  peer_max_bitrate :: "u64 option"
  peer_rtp_hangup :: bool
  video_rotation :: "nat option"
  receive_budget_bps :: "u32 option"
  last_remb_tx :: "instant option"

text \<open>\<open>new\<close> and \<open>new_signal\<close>, with the credentials and the transport they make.\<close>

definition PeerSession_new :: "CallRole \<Rightarrow> SocketAddr \<Rightarrow> string \<Rightarrow> string \<Rightarrow> 'x Transport \<Rightarrow> ('c, 'p, 'e, 'd, 'x) PeerSession" where
  "PeerSession_new role local ufrag pwd t =
     \<lparr>se_role = role, se_local = local, se_ufrag = ufrag, se_pwd = pwd, transport = t, media = None, remote_direction = None, audio_in = [],
      media_seen = 0, decode_ok = 0, decode_err = 0, se_audio_pt = OPUS_PAYLOAD_TYPE, video_in = [], keyframe_requested = False,
      pli_wanted = False, last_pli_tx = None, last_sr_tx = None, peer_remb_bps = None, peer_sr = None, pli_tx = 0, pli_rx = 0, rtcp_err = 0,
      rtp_data_seqnum = 0, rtp_call_id = None, accepted_engaged = False, video_enabled_local = None, last_rtp_data_tx = None,
      peer_video_enabled = None, peer_video_toggle = None, peer_max_bitrate = None, peer_rtp_hangup = False, video_rotation = None,
      receive_budget_bps = None, last_remb_tx = None\<rparr>"

definition local_signaling :: "('c, 'p, 'e, 'd, 'x) PeerSession \<Rightarrow> Signaling" where
  "local_signaling s =
     \<lparr>ice_ufrag = se_ufrag s, ice_pwd = se_pwd s,
      sig_fingerprint = (case keying (transport s) of Dtls d \<Rightarrow> fingerprint d | SignalDh _ \<Rightarrow> []),
      sdp_setup = (case se_role s of Offerer \<Rightarrow> ''actpass'' | Answerer \<Rightarrow> ''active''),
      direction = (case se_role s of Offerer \<Rightarrow> ''sendrecv''
                   | Answerer \<Rightarrow> reverse_direction (case remote_direction s of Some d \<Rightarrow> d | None \<Rightarrow> ''sendrecv'')),
      candidates = [candidate_string (se_local s)], audio_pt = se_audio_pt s,
      public_key = (case keying (transport s) of SignalDh k \<Rightarrow> Some (x_public k) | Dtls _ \<Rightarrow> None)\<rparr>"

definition set_remote_signaling ::
    "Protos \<Rightarrow> 'x Net \<Rightarrow> instant \<Rightarrow> Signaling \<Rightarrow> ('c, 'p, 'e, 'd, 'x) PeerSession \<Rightarrow> CallError option \<times> ('c, 'p, 'e, 'd, 'x) PeerSession" where
  "set_remote_signaling pr net now remote s =
     (case set_remote net now (ice_ufrag remote) (ice_pwd remote) (sig_fingerprint remote) (public_key remote)
             (List.map_filter (parse_candidate_addr (ip6 pr)) (candidates remote)) (transport s) of
        (e, t) \<Rightarrow> (e, s\<lparr>remote_direction := Some (direction remote), se_audio_pt := audio_pt remote, transport := t\<rparr>))"

definition session_add_candidate ::
    "Protos \<Rightarrow> 'x Net \<Rightarrow> string \<Rightarrow> ('c, 'p, 'e, 'd, 'x) PeerSession \<Rightarrow> CallError option \<times> ('c, 'p, 'e, 'd, 'x) PeerSession" where
  "session_add_candidate pr net candidate s =
     (case parse_candidate_addr (ip6 pr) candidate of
        None \<Rightarrow> (None, s)
      | Some addr \<Rightarrow> (case add_remote_candidate net addr (transport s) of (e, t) \<Rightarrow> (e, s\<lparr>transport := t\<rparr>)))"

definition session_candidates :: "('c, 'p, 'e, 'd, 'x) PeerSession \<Rightarrow> string list \<times> ('c, 'p, 'e, 'd, 'x) PeerSession" where
  "session_candidates s = (case take_new_local_candidates (transport s) of (ls, t) \<Rightarrow> (ls, s\<lparr>transport := t\<rparr>))"

definition session_poll_transmit ::
    "'x Net \<Rightarrow> ('c, 'p, 'e, 'd, 'x) PeerSession \<Rightarrow> (SocketAddr \<times> u8 list) list \<times> ('c, 'p, 'e, 'd, 'x) PeerSession" where
  "session_poll_transmit net s = (case tr_poll_transmit net (transport s) of (out, t) \<Rightarrow> (out, s\<lparr>transport := t\<rparr>))"

text \<open>The media exist from the moment the keys are there.  The SSRCs follow the role.\<close>

definition ensure_media ::
    "('c, 'p, 'e, 'd) Engine \<Rightarrow> instant \<Rightarrow> ('c, 'p, 'e, 'd, 'x) PeerSession \<Rightarrow> CallError option \<times> ('c, 'p, 'e, 'd, 'x) PeerSession" where
  "ensure_media lib now s =
     (if media s \<noteq> None then (None, s)
      else
        (case take_keys (transport s) of
           (None, t) \<Rightarrow> (None, s\<lparr>transport := t\<rparr>)
         | (Some (send, recv), t) \<Rightarrow>
             (case MediaSession_new lib now SAMPLE_RATE (se_audio_pt s) (if se_role s = Offerer then 0xA else 0xB) (srtp_profile t) send recv of
                Inl e \<Rightarrow> (Some e, s\<lparr>transport := t\<rparr>)
              | Inr m \<Rightarrow>
                  (let m = enable_video lib VP8_PAYLOAD_TYPE (if se_role s = Offerer then 1003 else 2003) m;
                       m = (case video_rotation s of Some deg \<Rightarrow> set_video_rotation deg m | None \<Rightarrow> m)
                   in (None, s\<lparr>transport := t, media := Some m\<rparr>)))))"

definition queue :: "u8 list \<Rightarrow> ('c, 'p, 'e, 'd, 'x) PeerSession \<Rightarrow> ('c, 'p, 'e, 'd, 'x) PeerSession" where
  "queue dg s = s\<lparr>transport := queue_media dg (transport s)\<rparr>"

section \<open>Datagrams\<close>

text \<open>The SSRC of the video we send, and that of the peer's, once it is known.\<close>

definition video_ssrc :: "('c, 'p, 'e, 'd) MediaSession \<Rightarrow> u32 option" where
  "video_ssrc m = map_option vs_ssrc (ms_video m)"

definition video_rx_ssrc :: "('c, 'p, 'e, 'd) MediaSession \<Rightarrow> u32 option" where
  "video_rx_ssrc m = Option.bind (ms_video m) rx_ssrc"

definition note_rtcp :: "RtcpIn \<Rightarrow> ('c, 'p, 'e, 'd, 'x) PeerSession \<Rightarrow> ('c, 'p, 'e, 'd, 'x) PeerSession" where
  "note_rtcp p s =
     (case p of
        PictureLost \<Rightarrow> s\<lparr>keyframe_requested := True, pli_rx := pli_rx s + 1\<rparr>
      | Remb bitrate \<Rightarrow> s\<lparr>peer_remb_bps := Some bitrate\<rparr>
      | PeerReport ssrc ntp time \<Rightarrow> s\<lparr>peer_sr := Some (ssrc, ntp, time)\<rparr>
      | OtherRtcp \<Rightarrow> s)"

definition handle_rtcp :: "('c, 'p, 'e, 'd) Engine \<Rightarrow> u8 list \<Rightarrow> ('c, 'p, 'e, 'd, 'x) PeerSession \<Rightarrow> ('c, 'p, 'e, 'd, 'x) PeerSession" where
  "handle_rtcp lib srtcp s =
     (case media s of
        None \<Rightarrow> s
      | Some m \<Rightarrow>
          (case unprotect_rtcp lib srtcp m of
             (None, m) \<Rightarrow> s\<lparr>media := Some m, rtcp_err := rtcp_err s + 1\<rparr>
           | (Some raw, m) \<Rightarrow>
               (case rtcp_unmarshal lib raw of
                  None \<Rightarrow> s\<lparr>media := Some m, rtcp_err := rtcp_err s + 1\<rparr>
                | Some pkts \<Rightarrow> fold note_rtcp pkts (s\<lparr>media := Some m\<rparr>))))"

definition note_rtp_data :: "Protos \<Rightarrow> u8 list \<Rightarrow> ('c, 'p, 'e, 'd, 'x) PeerSession \<Rightarrow> ('c, 'p, 'e, 'd, 'x) PeerSession" where
  "note_rtp_data pr b s =
     (case decode_rtp_data pr b of
        None \<Rightarrow> s
      | Some st \<Rightarrow>
          (let s = (case st_video_enabled st of
                      Some v \<Rightarrow> s\<lparr>peer_video_toggle := (if peer_video_enabled s \<noteq> Some v then Some v else peer_video_toggle s),
                                 peer_video_enabled := Some v\<rparr>
                    | None \<Rightarrow> s);
               s = (if st_max_bitrate st \<noteq> None then s\<lparr>peer_max_bitrate := st_max_bitrate st\<rparr> else s)
           in if st_hangup st then s\<lparr>peer_rtp_hangup := True\<rparr> else s))"

text \<open>What a media packet leaves in the media session is moved to ours: whole frames, loss, control messages.\<close>

definition collect :: "Protos \<Rightarrow> ('c, 'p, 'e, 'd) MediaSession \<Rightarrow> ('c, 'p, 'e, 'd, 'x) PeerSession \<Rightarrow> ('c, 'p, 'e, 'd, 'x) PeerSession" where
  "collect pr m s =
     (let s = (case ms_video m of
                 None \<Rightarrow> s
               | Some v \<Rightarrow> s\<lparr>video_in := video_in s @ frames_out v, pli_wanted := (pli_wanted s \<or> loss v)\<rparr>);
          m' = m\<lparr>ms_video := map_option (\<lambda>v. v\<lparr>frames_out := [], loss := False\<rparr>) (ms_video m), rtp_data_in := []\<rparr>
      in fold (note_rtp_data pr) (rtp_data_in m) (s\<lparr>media := Some m'\<rparr>))"

definition receive_media ::
    "Protos \<Rightarrow> ('c, 'p, 'e, 'd) Engine \<Rightarrow> instant \<Rightarrow> u8 list \<Rightarrow> ('c, 'p, 'e, 'd, 'x) PeerSession \<Rightarrow> ('c, 'p, 'e, 'd, 'x) PeerSession" where
  "receive_media pr lib now srtp s =
     (case media s of
        None \<Rightarrow> s
      | Some m \<Rightarrow>
          (case media_recv lib now srtp m of
             (Inr pcm, m) \<Rightarrow>
               collect pr m (if pcm = [] then s else s\<lparr>audio_in := audio_in s @ [pcm], decode_ok := decode_ok s + 1\<rparr>)
           | (Inl _, m) \<Rightarrow> collect pr m (s\<lparr>decode_err := decode_err s + 1\<rparr>)))"

definition session_handle_datagram ::
    "Protos \<Rightarrow> ('c, 'p, 'e, 'd) Engine \<Rightarrow> 'x Net \<Rightarrow> instant \<Rightarrow> SocketAddr \<Rightarrow> u8 list \<Rightarrow> ('c, 'p, 'e, 'd, 'x) PeerSession
      \<Rightarrow> CallError option \<times> ('c, 'p, 'e, 'd, 'x) PeerSession" where
  "session_handle_datagram pr lib net now src data s =
     (case tr_handle_datagram net now src data (transport s) of
        (Inl e, t) \<Rightarrow> (Some e, s\<lparr>transport := t\<rparr>)
      | (Inr Consumed, t) \<Rightarrow> (None, s\<lparr>transport := t\<rparr>)
      | (Inr (Media srtp), t) \<Rightarrow>
          (case ensure_media lib now (s\<lparr>transport := t, media_seen := media_seen s + 1\<rparr>) of
             (Some e, s) \<Rightarrow> (Some e, s)
           | (None, s) \<Rightarrow>
               (None, if 2 \<le> length srtp \<and> 192 \<le> unat (srtp ! 1) \<and> unat (srtp ! 1) \<le> 223 then handle_rtcp lib srtp s
                      else receive_media pr lib now srtp s)))"

section \<open>RTCP that is owed\<close>

definition PLI_MIN_INTERVAL_MS :: nat where "PLI_MIN_INTERVAL_MS = 300"
definition SR_INTERVAL_MS :: nat where "SR_INTERVAL_MS = 1000"

definition due :: "nat \<Rightarrow> instant \<Rightarrow> instant option \<Rightarrow> bool" where
  "due ms now prev \<longleftrightarrow> (case prev of None \<Rightarrow> True | Some t \<Rightarrow> ms \<le> (now - t) div 1000000)"

text \<open>The wall clock is given as seconds and nanoseconds since 1970, \<open>None\<close> before.\<close>

definition ntp_now :: "(nat \<times> nat) option \<Rightarrow> u64" where
  "ntp_now wall =
     (case wall of
        Some (secs, nanos) \<Rightarrow> push_bit 32 (of_nat (secs + 2208988800)) OR of_nat (nanos * 2 ^ 32 div 1000000000)
      | None \<Rightarrow> 0)"

definition queue_rtcp ::
    "('c, 'p, 'e, 'd) Engine \<Rightarrow> u8 list option \<Rightarrow> ('c, 'p, 'e, 'd, 'x) PeerSession \<Rightarrow> bool \<times> ('c, 'p, 'e, 'd, 'x) PeerSession" where
  "queue_rtcp lib raw s =
     (case (raw, media s) of
        (Some raw, Some m) \<Rightarrow>
          (case protect_rtcp lib raw m of
             (None, m) \<Rightarrow> (False, s\<lparr>media := Some m\<rparr>)
           | (Some dg, m) \<Rightarrow> (True, queue dg (s\<lparr>media := Some m\<rparr>)))
      | _ \<Rightarrow> (False, s))"

definition pump_pli ::
    "('c, 'p, 'e, 'd) Engine \<Rightarrow> instant \<Rightarrow> ('c, 'p, 'e, 'd) MediaSession \<Rightarrow> ('c, 'p, 'e, 'd, 'x) PeerSession \<Rightarrow> ('c, 'p, 'e, 'd, 'x) PeerSession" where
  "pump_pli lib now m s =
     (case video_rx_ssrc m of
        Some target \<Rightarrow>
          if pli_wanted s \<and> due PLI_MIN_INTERVAL_MS now (last_pli_tx s) then
            (case queue_rtcp lib (rtcp_marshal lib (WritePli (case video_ssrc m of Some n \<Rightarrow> n | None \<Rightarrow> 0) target)) s of
               (True, s) \<Rightarrow> s\<lparr>pli_tx := pli_tx s + 1, last_pli_tx := Some now, pli_wanted := False\<rparr>
             | (False, s) \<Rightarrow> s)
          else s
      | None \<Rightarrow> s)"

definition pump_sr ::
    "('c, 'p, 'e, 'd) Engine \<Rightarrow> (nat \<times> nat) option \<Rightarrow> instant \<Rightarrow> ('c, 'p, 'e, 'd) MediaSession \<Rightarrow> ('c, 'p, 'e, 'd, 'x) PeerSession
      \<Rightarrow> ('c, 'p, 'e, 'd, 'x) PeerSession" where
  "pump_sr lib wall now m s =
     (case ms_video m of
        Some v \<Rightarrow>
          (case tx_stats v of
             (pkts, octets, last_ts) \<Rightarrow>
               if pkts > 0 \<and> due SR_INTERVAL_MS now (last_sr_tx s) then
                 (case queue_rtcp lib (rtcp_marshal lib (WriteSenderReport (vs_ssrc v) (unat (ntp_now wall)) last_ts pkts octets)) s of
                    (True, s) \<Rightarrow> s\<lparr>last_sr_tx := Some now\<rparr>
                  | (False, s) \<Rightarrow> s)
               else s)
      | None \<Rightarrow> s)"

definition pump_twcc ::
    "('c, 'p, 'e, 'd) Engine \<Rightarrow> instant \<Rightarrow> ('c, 'p, 'e, 'd, 'x) PeerSession \<Rightarrow> ('c, 'p, 'e, 'd, 'x) PeerSession option" where
  "pump_twcc lib now s =
     (case media s of
        None \<Rightarrow> Some s
      | Some m \<Rightarrow>
          map_option (\<lambda>(raw, tw). snd (queue_rtcp lib raw (s\<lparr>media := Some (m\<lparr>ms_twcc := tw\<rparr>)\<rparr>)))
            (twcc_poll (\<lambda>fb. rtcp_marshal lib (WriteTwcc fb)) now (ms_ssrc m) (ms_twcc m)))"

definition pump_remb ::
    "('c, 'p, 'e, 'd) Engine \<Rightarrow> instant \<Rightarrow> ('c, 'p, 'e, 'd) MediaSession \<Rightarrow> ('c, 'p, 'e, 'd, 'x) PeerSession \<Rightarrow> ('c, 'p, 'e, 'd, 'x) PeerSession" where
  "pump_remb lib now m s =
     (case (receive_budget_bps s, video_rx_ssrc m) of
        (Some budget, Some target) \<Rightarrow>
          if due 1000 now (last_remb_tx s) then
            (case queue_rtcp lib (rtcp_marshal lib (WriteRemb (case video_ssrc m of Some n \<Rightarrow> n | None \<Rightarrow> 0) budget target)) s of
               (True, s) \<Rightarrow> s\<lparr>last_remb_tx := Some now\<rparr>
             | (False, s) \<Rightarrow> s)
          else s
      | _ \<Rightarrow> s)"

text \<open>\<open>None\<close>: the feedback panics.  What the four read of the video is the same for all of them.\<close>

definition pump_rtcp ::
    "('c, 'p, 'e, 'd) Engine \<Rightarrow> (nat \<times> nat) option \<Rightarrow> instant \<Rightarrow> ('c, 'p, 'e, 'd, 'x) PeerSession \<Rightarrow> ('c, 'p, 'e, 'd, 'x) PeerSession option" where
  "pump_rtcp lib wall now s =
     (case media s of
        None \<Rightarrow> Some s
      | Some m \<Rightarrow> map_option (pump_remb lib now m) (pump_twcc lib now (pump_sr lib wall now m (pump_pli lib now m s))))"

section \<open>Sending\<close>

definition send_rtp_data_state ::
    "Protos \<Rightarrow> ('c, 'p, 'e, 'd) Engine \<Rightarrow> instant \<Rightarrow> ('c, 'p, 'e, 'd, 'x) PeerSession \<Rightarrow> CallError option \<times> ('c, 'p, 'e, 'd, 'x) PeerSession" where
  "send_rtp_data_state pr lib clock s =
     (case rtp_call_id s of
        None \<Rightarrow> (None, s)
      | Some call_id \<Rightarrow>
          (case ensure_media lib clock s of
             (Some e, s) \<Rightarrow> (Some e, s)
           | (None, s) \<Rightarrow>
               (let s = s\<lparr>rtp_data_seqnum := rtp_data_seqnum s + 1\<rparr>;
                    data = encode_rtp_data_state pr call_id (rtp_data_seqnum s) (accepted_engaged s) (video_enabled_local s)
                             (map_option ucast (receive_budget_bps s))
                in case media s of
                     None \<Rightarrow> (Some NotConnected, s)
                   | Some m \<Rightarrow>
                       (case send_rtp_data lib RTP_DATA_PAYLOAD_TYPE RTP_DATA_SSRC data m of
                          (Inl e, m) \<Rightarrow> (Some e, s\<lparr>media := Some m\<rparr>)
                        | (Inr dg, m) \<Rightarrow> (None, queue dg (s\<lparr>media := Some m, last_rtp_data_tx := Some clock\<rparr>))))))"

definition session_send_accepted ::
    "Protos \<Rightarrow> ('c, 'p, 'e, 'd) Engine \<Rightarrow> instant \<Rightarrow> u64 \<Rightarrow> ('c, 'p, 'e, 'd, 'x) PeerSession \<Rightarrow> CallError option \<times> ('c, 'p, 'e, 'd, 'x) PeerSession" where
  "session_send_accepted pr lib clock call_id s = send_rtp_data_state pr lib clock (s\<lparr>rtp_call_id := Some call_id, accepted_engaged := True\<rparr>)"

definition session_set_video_enabled ::
    "Protos \<Rightarrow> ('c, 'p, 'e, 'd) Engine \<Rightarrow> instant \<Rightarrow> u64 \<Rightarrow> bool \<Rightarrow> ('c, 'p, 'e, 'd, 'x) PeerSession \<Rightarrow> ('c, 'p, 'e, 'd, 'x) PeerSession" where
  "session_set_video_enabled pr lib clock call_id enabled s =
     snd (send_rtp_data_state pr lib clock (s\<lparr>rtp_call_id := Some call_id, video_enabled_local := Some enabled\<rparr>))"

text \<open>\<open>now\<close> is the argument, \<open>clock\<close> and \<open>wall\<close> are read inside.\<close>

definition session_handle_timeout ::
    "Protos \<Rightarrow> ('c, 'p, 'e, 'd) Engine \<Rightarrow> 'x Net \<Rightarrow> instant \<Rightarrow> (nat \<times> nat) option \<Rightarrow> instant \<Rightarrow> ('c, 'p, 'e, 'd, 'x) PeerSession
      \<Rightarrow> ('c, 'p, 'e, 'd, 'x) PeerSession option" where
  "session_handle_timeout pr lib net clock wall now s =
     map_option
       (\<lambda>s. if (accepted_engaged s \<or> video_enabled_local s \<noteq> None) \<and> due 1000 now (last_rtp_data_tx s)
            then snd (send_rtp_data_state pr lib clock s) else s)
       (pump_rtcp lib wall now (snd (ensure_media lib clock (s\<lparr>transport := tr_handle_timeout net now (transport s)\<rparr>))))"

definition session_send_audio ::
    "('c, 'p, 'e, 'd) Engine \<Rightarrow> instant \<Rightarrow> fp list \<Rightarrow> ('c, 'p, 'e, 'd, 'x) PeerSession \<Rightarrow> CallError option \<times> ('c, 'p, 'e, 'd, 'x) PeerSession" where
  "session_send_audio lib clock pcm s =
     (case ensure_media lib clock s of
        (Some e, s) \<Rightarrow> (Some e, s)
      | (None, s) \<Rightarrow>
          (case media s of
             None \<Rightarrow> (Some NotConnected, s)
           | Some m \<Rightarrow>
               (case media_send lib pcm m of
                  (Inl e, m) \<Rightarrow> (Some e, s\<lparr>media := Some m\<rparr>)
                | (Inr dg, m) \<Rightarrow> (None, queue dg (s\<lparr>media := Some m\<rparr>)))))"

definition session_send_video ::
    "('c, 'p, 'e, 'd) Engine \<Rightarrow> instant \<Rightarrow> u8 list \<Rightarrow> u32 \<Rightarrow> ('c, 'p, 'e, 'd, 'x) PeerSession \<Rightarrow> CallError option \<times> ('c, 'p, 'e, 'd, 'x) PeerSession" where
  "session_send_video lib clock frame timestamp s =
     (case ensure_media lib clock s of
        (Some e, s) \<Rightarrow> (Some e, s)
      | (None, s) \<Rightarrow>
          (case media s of
             None \<Rightarrow> (Some NotConnected, s)
           | Some m \<Rightarrow>
               (case send_video_frame lib frame timestamp m of
                  (Inl e, m) \<Rightarrow> (Some e, s\<lparr>media := Some m\<rparr>)
                | (Inr dgs, m) \<Rightarrow> (None, fold queue dgs (s\<lparr>media := Some m\<rparr>)))))"

section \<open>Reading and settings\<close>

definition recv_audio :: "('c, 'p, 'e, 'd, 'x) PeerSession \<Rightarrow> fp list option \<times> ('c, 'p, 'e, 'd, 'x) PeerSession" where
  "recv_audio s = (case audio_in s of [] \<Rightarrow> (None, s) | f # fs \<Rightarrow> (Some f, s\<lparr>audio_in := fs\<rparr>))"

definition recv_video :: "('c, 'p, 'e, 'd, 'x) PeerSession \<Rightarrow> VideoFrame option \<times> ('c, 'p, 'e, 'd, 'x) PeerSession" where
  "recv_video s = (case video_in s of [] \<Rightarrow> (None, s) | f # fs \<Rightarrow> (Some f, s\<lparr>video_in := fs\<rparr>))"

definition take_keyframe_request :: "('c, 'p, 'e, 'd, 'x) PeerSession \<Rightarrow> bool \<times> ('c, 'p, 'e, 'd, 'x) PeerSession" where
  "take_keyframe_request s = (keyframe_requested s, s\<lparr>keyframe_requested := False\<rparr>)"

definition request_keyframe :: "('c, 'p, 'e, 'd, 'x) PeerSession \<Rightarrow> ('c, 'p, 'e, 'd, 'x) PeerSession" where
  "request_keyframe s = s\<lparr>pli_wanted := True\<rparr>"

definition take_peer_video_toggle :: "('c, 'p, 'e, 'd, 'x) PeerSession \<Rightarrow> bool option \<times> ('c, 'p, 'e, 'd, 'x) PeerSession" where
  "take_peer_video_toggle s = (peer_video_toggle s, s\<lparr>peer_video_toggle := None\<rparr>)"

definition take_peer_rtp_hangup :: "('c, 'p, 'e, 'd, 'x) PeerSession \<Rightarrow> bool \<times> ('c, 'p, 'e, 'd, 'x) PeerSession" where
  "take_peer_rtp_hangup s = (peer_rtp_hangup s, s\<lparr>peer_rtp_hangup := False\<rparr>)"

definition set_receive_bitrate :: "u32 \<Rightarrow> ('c, 'p, 'e, 'd, 'x) PeerSession \<Rightarrow> ('c, 'p, 'e, 'd, 'x) PeerSession" where
  "set_receive_bitrate bps s = s\<lparr>receive_budget_bps := Some bps\<rparr>"

definition session_set_video_rotation :: "nat \<Rightarrow> ('c, 'p, 'e, 'd, 'x) PeerSession \<Rightarrow> ('c, 'p, 'e, 'd, 'x) PeerSession" where
  "session_set_video_rotation degrees s = s\<lparr>video_rotation := Some degrees, media := map_option (CallMedia.set_video_rotation degrees) (media s)\<rparr>"

section \<open>A session in use\<close>

datatype SessionOp =
    SeTimeout instant "(nat \<times> nat) option" instant
  | SeDatagram instant SocketAddr "u8 list"
  | SePoll
  | SeSignaling instant Signaling
  | SeCandidate string
  | SeCandidates
  | SeAudio instant "fp list"
  | SeVideo instant "u8 list" u32
  | SeAccepted instant u64
  | SeVideoEnabled instant u64 bool
  | SeRecvAudio
  | SeRecvVideo
  | SeTakeKeyframe
  | SeRequestKeyframe
  | SeTakeToggle
  | SeTakeHangup
  | SeBitrate u32
  | SeRotation nat

fun session_step ::
    "Protos \<Rightarrow> ('c, 'p, 'e, 'd) Engine \<Rightarrow> 'x Net \<Rightarrow> SessionOp \<Rightarrow> ('c, 'p, 'e, 'd, 'x) PeerSession \<Rightarrow> ('c, 'p, 'e, 'd, 'x) PeerSession option" where
  "session_step pr lib net (SeTimeout clock wall now) s = session_handle_timeout pr lib net clock wall now s"
| "session_step pr lib net (SeDatagram now src data) s = Some (snd (session_handle_datagram pr lib net now src data s))"
| "session_step pr lib net SePoll s = Some (snd (session_poll_transmit net s))"
| "session_step pr lib net (SeSignaling now sig) s = Some (snd (set_remote_signaling pr net now sig s))"
| "session_step pr lib net (SeCandidate line) s = Some (snd (session_add_candidate pr net line s))"
| "session_step pr lib net SeCandidates s = Some (snd (session_candidates s))"
| "session_step pr lib net (SeAudio clock pcm) s = Some (snd (session_send_audio lib clock pcm s))"
| "session_step pr lib net (SeVideo clock frame ts) s = Some (snd (session_send_video lib clock frame ts s))"
| "session_step pr lib net (SeAccepted clock call_id) s = Some (snd (session_send_accepted pr lib clock call_id s))"
| "session_step pr lib net (SeVideoEnabled clock call_id b) s = Some (session_set_video_enabled pr lib clock call_id b s)"
| "session_step pr lib net SeRecvAudio s = Some (snd (recv_audio s))"
| "session_step pr lib net SeRecvVideo s = Some (snd (recv_video s))"
| "session_step pr lib net SeTakeKeyframe s = Some (snd (take_keyframe_request s))"
| "session_step pr lib net SeRequestKeyframe s = Some (request_keyframe s)"
| "session_step pr lib net SeTakeToggle s = Some (snd (take_peer_video_toggle s))"
| "session_step pr lib net SeTakeHangup s = Some (snd (take_peer_rtp_hangup s))"
| "session_step pr lib net (SeBitrate bps) s = Some (set_receive_bitrate bps s)"
| "session_step pr lib net (SeRotation degrees) s = Some (session_set_video_rotation degrees s)"

fun session_run ::
    "Protos \<Rightarrow> ('c, 'p, 'e, 'd) Engine \<Rightarrow> 'x Net \<Rightarrow> SessionOp list \<Rightarrow> ('c, 'p, 'e, 'd, 'x) PeerSession \<Rightarrow> ('c, 'p, 'e, 'd, 'x) PeerSession option" where
  "session_run pr lib net [] s = Some s"
| "session_run pr lib net (op # ops) s = Option.bind (session_step pr lib net op s) (session_run pr lib net ops)"

text \<open>The PLIs sent, and when the last one was.\<close>

definition plis :: "('c, 'p, 'e, 'd, 'x) PeerSession \<Rightarrow> nat \<times> instant option" where
  "plis s = (pli_tx s, last_pli_tx s)"

named_theorems pli_frame

lemma plis_update [pli_frame]:
  "plis (s\<lparr>transport := t\<rparr>) = plis s" "plis (s\<lparr>media := m\<rparr>) = plis s" "plis (s\<lparr>media_seen := n\<rparr>) = plis s"
  "plis (s\<lparr>audio_in := a\<rparr>) = plis s" "plis (s\<lparr>decode_ok := n\<rparr>) = plis s" "plis (s\<lparr>decode_err := n\<rparr>) = plis s"
  "plis (s\<lparr>video_in := v\<rparr>) = plis s" "plis (s\<lparr>keyframe_requested := b\<rparr>) = plis s" "plis (s\<lparr>pli_wanted := b\<rparr>) = plis s"
  "plis (s\<lparr>last_sr_tx := i\<rparr>) = plis s" "plis (s\<lparr>peer_remb_bps := r\<rparr>) = plis s" "plis (s\<lparr>peer_sr := q\<rparr>) = plis s"
  "plis (s\<lparr>pli_rx := n\<rparr>) = plis s" "plis (s\<lparr>rtcp_err := n\<rparr>) = plis s" "plis (s\<lparr>rtp_data_seqnum := w\<rparr>) = plis s"
  "plis (s\<lparr>rtp_call_id := c\<rparr>) = plis s" "plis (s\<lparr>accepted_engaged := b\<rparr>) = plis s" "plis (s\<lparr>video_enabled_local := e\<rparr>) = plis s"
  "plis (s\<lparr>last_rtp_data_tx := i\<rparr>) = plis s" "plis (s\<lparr>peer_video_enabled := e\<rparr>) = plis s" "plis (s\<lparr>peer_video_toggle := e\<rparr>) = plis s"
  "plis (s\<lparr>peer_max_bitrate := c\<rparr>) = plis s" "plis (s\<lparr>peer_rtp_hangup := b\<rparr>) = plis s" "plis (s\<lparr>video_rotation := d\<rparr>) = plis s"
  "plis (s\<lparr>receive_budget_bps := r\<rparr>) = plis s" "plis (s\<lparr>last_remb_tx := i\<rparr>) = plis s" "plis (s\<lparr>remote_direction := e'\<rparr>) = plis s"
  "plis (s\<lparr>se_audio_pt := p\<rparr>) = plis s"
  by (simp_all add: plis_def)

lemma plis_fold: "(\<And>a s. plis (f a s) = plis s) \<Longrightarrow> plis (fold f as s) = plis s"
  by (induction "as" arbitrary: s) simp_all

lemma plis_queue [pli_frame]: "plis (queue dg s) = plis s"
  by (simp add: queue_def pli_frame)

lemma plis_queues [pli_frame]: "plis (fold queue dgs s) = plis s"
  by (intro plis_fold plis_queue)

lemma plis_ensure [pli_frame]: "plis (snd (ensure_media lib now s)) = plis s"
  by (simp add: ensure_media_def Let_def pli_frame split: prod.split option.split sum.split)

lemma plis_ensured: "ensure_media lib now s = (e, s') \<Longrightarrow> plis s' = plis s"
  using plis_ensure[of lib now s] by simp

lemma plis_notes [pli_frame]: "plis (note_rtcp p s) = plis s" "plis (note_rtp_data pr b s) = plis s"
  by (simp_all add: note_rtcp_def note_rtp_data_def Let_def pli_frame split: RtcpIn.split option.split)

lemma plis_rtcp [pli_frame]: "plis (handle_rtcp lib d s) = plis s"
  by (simp add: handle_rtcp_def pli_frame plis_fold split: option.split prod.split)

lemma plis_collect [pli_frame]: "plis (collect pr m s) = plis s"
  by (simp add: collect_def Let_def pli_frame plis_fold split: option.split)

lemma plis_receive [pli_frame]: "plis (receive_media pr lib now d s) = plis s"
  by (simp add: receive_media_def pli_frame split: option.split prod.split sum.split)

lemma plis_datagram [pli_frame]: "plis (snd (session_handle_datagram pr lib net now src d s)) = plis s"
  by (auto simp: session_handle_datagram_def pli_frame dest!: plis_ensured split: prod.split sum.split CallDemux.split option.split)

lemma plis_state [pli_frame]: "plis (snd (send_rtp_data_state pr lib clock s)) = plis s"
  by (auto simp: send_rtp_data_state_def Let_def pli_frame dest!: plis_ensured split: prod.split sum.split option.split)

lemma plis_queue_rtcp: "queue_rtcp lib raw s = (b, s') \<Longrightarrow> plis s' = plis s"
  by (auto simp: queue_rtcp_def pli_frame split: prod.splits option.splits)

lemma plis_sr [pli_frame]: "plis (pump_sr lib wall now m s) = plis s"
  by (auto simp: pump_sr_def pli_frame dest: plis_queue_rtcp split: option.split prod.split bool.split)

lemma plis_remb [pli_frame]: "plis (pump_remb lib now m s) = plis s"
  by (auto simp: pump_remb_def pli_frame dest: plis_queue_rtcp split: option.split prod.split bool.split)

lemma plis_twcc: "pump_twcc lib now s = Some s' \<Longrightarrow> plis s' = plis s"
  by (auto simp: pump_twcc_def pli_frame dest: plis_queue_rtcp split: option.splits) (metis plis_queue_rtcp plis_update(2) prod.collapse)

lemma plis_pli:
  "plis (pump_pli lib now m s) = plis s \<or> due PLI_MIN_INTERVAL_MS now (last_pli_tx s) \<and> plis (pump_pli lib now m s) = (pli_tx s + 1, Some now)"
proof -
  have "pli_tx s' = pli_tx s" if "queue_rtcp lib raw s = (b, s')" for raw b s'
    using plis_queue_rtcp[OF that] by (simp add: plis_def)
  then show ?thesis
    by (auto simp: pump_pli_def dest: plis_queue_rtcp split: option.split prod.split bool.split) (auto simp: plis_def)
qed

lemma timeout_plis:
  "\<exists>s'. session_handle_timeout pr lib net clock wall now s = Some s'
     \<and> (plis s' = plis s \<or> due PLI_MIN_INTERVAL_MS now (last_pli_tx s) \<and> plis s' = (pli_tx s + 1, Some now))"
proof -
  define s1 where "s1 = snd (ensure_media lib clock (s\<lparr>transport := tr_handle_timeout net now (transport s)\<rparr>))"
  have p1: "plis s1 = plis s" unfolding s1_def by (simp add: pli_frame)
  have "\<exists>s2. pump_rtcp lib wall now s1 = Some s2
     \<and> (plis s2 = plis s1 \<or> due PLI_MIN_INTERVAL_MS now (last_pli_tx s1) \<and> plis s2 = (pli_tx s1 + 1, Some now))"
  proof (cases "media s1")
    case (Some m)
    let ?s = "pump_sr lib wall now m (pump_pli lib now m s1)"
    have "pump_twcc lib now ?s \<noteq> None"
      using twcc_poll_returns by (auto simp: pump_twcc_def split: option.split)
    then obtain s3 where "pump_twcc lib now ?s = Some s3" by blast
    with Some plis_twcc[OF this] plis_pli[of lib now m s1] show ?thesis
      by (simp add: pump_rtcp_def pli_frame)
  qed (simp add: pump_rtcp_def)
  then obtain s2 where s2: "pump_rtcp lib wall now s1 = Some s2"
    "plis s2 = plis s1 \<or> due PLI_MIN_INTERVAL_MS now (last_pli_tx s1) \<and> plis s2 = (pli_tx s1 + 1, Some now)" by blast
  have eq: "pli_tx s1 = pli_tx s" "last_pli_tx s1 = last_pli_tx s"
    using p1 by (simp_all add: plis_def)
  have "\<exists>s'. session_handle_timeout pr lib net clock wall now s = Some s' \<and> plis s' = plis s2"
    by (simp add: session_handle_timeout_def s1_def[symmetric] s2(1) pli_frame)
  with s2(2) p1 eq show ?thesis by metis
qed

lemma step_plis:
  "\<exists>s'. session_step pr lib net op s = Some s' \<and> (plis s' = plis s
     \<or> (\<exists>clock wall now. op = SeTimeout clock wall now \<and> due PLI_MIN_INTERVAL_MS now (last_pli_tx s) \<and> plis s' = (pli_tx s + 1, Some now)))"
proof (cases op)
  case (SeTimeout clock wall now)
  with timeout_plis[of pr lib net clock wall now s] show ?thesis by fastforce
qed (auto simp: session_poll_transmit_def set_remote_signaling_def session_add_candidate_def session_candidates_def session_send_audio_def
      session_send_video_def session_send_accepted_def session_set_video_enabled_def recv_audio_def recv_video_def take_keyframe_request_def
      request_keyframe_def take_peer_video_toggle_def take_peer_rtp_hangup_def set_receive_bitrate_def session_set_video_rotation_def pli_frame
      dest!: plis_ensured split: prod.split option.split list.split sum.split)

text \<open>After \<open>n\<close> of them, the last at \<open>l\<close>, with all times between \<open>t0\<close> and \<open>t1\<close>.\<close>

fun paced :: "instant \<Rightarrow> instant \<Rightarrow> nat \<times> instant option \<Rightarrow> bool" where
  "paced t0 t1 (n, None) \<longleftrightarrow> n = 0"
| "paced t0 t1 (n, Some l) \<longleftrightarrow> 0 < n \<and> t0 + (n - 1) * 300000000 \<le> l \<and> l \<le> t1"

lemma paced_next:
  assumes "paced t0 t1 (n, prev)" "due PLI_MIN_INTERVAL_MS now prev" "t0 \<le> now" "now \<le> t1"
  shows "paced t0 t1 (n + 1, Some now)"
proof -
  have "t0 + n * 300000000 \<le> now"
  proof (cases prev)
    case (Some l)
    with assms(2) have "300 \<le> (now - l) div 1000000" by (simp add: due_def PLI_MIN_INTERVAL_MS_def)
    then have "300 * 1000000 \<le> now - l" by (simp only: less_eq_div_iff_mult_less_eq)
    then have "l + 300000000 \<le> now" by simp
    moreover have "0 < n" "t0 + (n - 1) * 300000000 \<le> l" using assms(1) Some by simp_all
    ultimately show ?thesis by linarith
  qed (use assms(1,3) in simp)
  with assms(4) show ?thesis by simp
qed

lemma paced_bound: "paced t0 t1 (n, l) \<Longrightarrow> n \<le> 1 + (t1 - t0) div 300000000"
proof (cases l)
  case (Some i)
  moreover assume "paced t0 t1 (n, l)"
  ultimately have "t0 + (n - 1) * 300000000 \<le> t1" by (metis paced.simps(2) le_trans)
  then have "(n - 1) * 300000000 \<le> t1 - t0" by linarith
  then have "n - 1 \<le> (t1 - t0) div 300000000" by (simp add: less_eq_div_iff_mult_less_eq)
  then show ?thesis by simp
qed simp

lemma run_paced:
  assumes "\<forall>clock wall now. SeTimeout clock wall now \<in> set ops \<longrightarrow> t0 \<le> now \<and> now \<le> t1" "paced t0 t1 (plis s)"
  shows "\<exists>s'. session_run pr lib net ops s = Some s' \<and> paced t0 t1 (plis s')"
  using assms
proof (induction ops arbitrary: s)
  case (Cons op ops)
  obtain s' where s': "session_step pr lib net op s = Some s'" "plis s' = plis s
     \<or> (\<exists>clock wall now. op = SeTimeout clock wall now \<and> due PLI_MIN_INTERVAL_MS now (last_pli_tx s) \<and> plis s' = (pli_tx s + 1, Some now))"
    using step_plis by blast
  have "paced t0 t1 (plis s')"
    using s'(2) Cons.prems paced_next[of t0 t1 "pli_tx s" "last_pli_tx s"] by (auto simp: plis_def[of s])
  from Cons.IH[OF _ this] Cons.prems(1) s'(1) show ?case by auto
qed simp

text \<open>
  C23. However a session is used, with any packets and any peer, every call returns, and the requests for key
  frames it sends are paced: one at most, plus one for every 300 ms between the first and the last time-out.
\<close>
theorem pli_paced:
  assumes "\<forall>clock wall now. SeTimeout clock wall now \<in> set ops \<longrightarrow> t0 \<le> now \<and> now \<le> t1"
  shows "\<exists>s. session_run pr lib net ops (PeerSession_new role local ufrag pwd t) = Some s \<and> pli_tx s \<le> 1 + (t1 - t0) div 300000000"
proof -
  have "paced t0 t1 (plis (PeerSession_new role local ufrag pwd t))"
    by (simp add: plis_def PeerSession_new_def)
  from run_paced[OF assms this, of pr lib net] show ?thesis
    using paced_bound unfolding plis_def by blast
qed

definition demo_engine :: "(unit, unit, unit, unit) Engine" where
  "demo_engine =
     \<lparr>rtp_marshal = \<lambda>_. Some [], rtp_unmarshal = \<lambda>_. None, encrypt_rtp = \<lambda>c b. (Some b, c), decrypt_rtp = \<lambda>c b. (Some b, c),
      encrypt_rtcp = \<lambda>c b. (Some b, c), decrypt_rtcp = \<lambda>c b. (Some b, c), new_payloader = (), vp8_fragments = \<lambda>p n d. (Some [d], p),
      depacketize = \<lambda>_. None, srtp_context = \<lambda>_ _. Some (), opus_encoder = Some (), opus_decoder = Some (), opus_encode = \<lambda>e _ _. (Some [], e),
      opus_decode = \<lambda>d _ _. (Inr [], d), rtcp_marshal = \<lambda>_. Some [], rtcp_unmarshal = \<lambda>_. Some []\<rparr>"

definition demo_params :: "u8 \<Rightarrow> ConnectionParametersV4" where
  "demo_params k = \<lparr>v4_public_key = Some (replicate 32 k), v4_ufrag = Some [], v4_pwd = Some [], v4_codecs = [\<lparr>vc_type = Some 8\<rparr>], v4_max_bitrate = Some 2000000\<rparr>"

text \<open>Protobuf for one call only: the offer is always that of the key 5, the answer that of the key 6.\<close>

definition demo_protos :: Protos where
  "demo_protos =
     \<lparr>rtp_data_encode = \<lambda>_. [], rtp_data_decode = \<lambda>_. None, offer_encode = \<lambda>_. [1], offer_decode = \<lambda>_. Some (Some (demo_params 5)),
      answer_encode = \<lambda>_. [2], answer_decode = \<lambda>_. Some (Some (demo_params 6)), ice_encode = \<lambda>_. [3], ice_decode = \<lambda>_. Some None, ip6 = \<lambda>_. None\<rparr>"

theorem pli_paced_witness:
  "\<exists>s. session_run demo_protos demo_engine demo_ice [SeRequestKeyframe, SeTimeout 1 None 5, SeRequestKeyframe, SeTimeout 2 None 600000005]
     (PeerSession_new Offerer demo_addr [] [] (demo_transport Offerer 5)) = Some s \<and> pli_tx s \<le> Suc (Suc (Suc 0))"
proof -
  let ?ops = "[SeRequestKeyframe, SeTimeout 1 None 5, SeRequestKeyframe, SeTimeout 2 None 600000005]"
  have "\<forall>clock wall now. SeTimeout clock wall now \<in> set ?ops \<longrightarrow> 5 \<le> now \<and> now \<le> 600000005" by simp
  from pli_paced[OF this, of demo_protos demo_engine demo_ice Offerer demo_addr "[]" "[]" "demo_transport Offerer 5"] show ?thesis
    by (simp del: session_run.simps)
qed

end
