(* ===== verification/CallSignal.thy ===== *)
theory CallSignal
  imports CallSession
begin

text \<open>
  The signaling of a Signal call and its life (\<open>wandr-call/src/signal\<close>: \<open>mod.rs\<close> and \<open>call.rs\<close>):
  offer, answer, candidates and hanging up, around a session with one peer.  The blobs are the
  protobuf bytes that \<open>Protos\<close> writes and reads.
\<close>

section \<open>The blobs\<close>

definition params_from :: "Signaling \<Rightarrow> CallError + ConnectionParametersV4" where
  "params_from s =
     (case public_key s of
        None \<Rightarrow> Inl (ProtoError ''signal offer/answer requires public_key (X25519)'')
      | Some k \<Rightarrow>
          Inr \<lparr>v4_public_key = Some k, v4_ufrag = Some (ice_ufrag s), v4_pwd = Some (ice_pwd s), v4_codecs = [\<lparr>vc_type = Some 8\<rparr>],
               v4_max_bitrate = Some 2000000\<rparr>)"

definition params_into :: "ConnectionParametersV4 \<Rightarrow> Signaling" where
  "params_into p =
     \<lparr>ice_ufrag = (case v4_ufrag p of Some u \<Rightarrow> u | None \<Rightarrow> []), ice_pwd = (case v4_pwd p of Some w \<Rightarrow> w | None \<Rightarrow> []), sig_fingerprint = [],
      sdp_setup = [], direction = ''sendrecv'', candidates = [], audio_pt = OPUS_PAYLOAD_TYPE, public_key = v4_public_key p\<rparr>"

definition encode_offer :: "Protos \<Rightarrow> Signaling \<Rightarrow> CallError + u8 list" where
  "encode_offer pr s = (case params_from s of Inl e \<Rightarrow> Inl e | Inr p \<Rightarrow> Inr (offer_encode pr (Some p)))"

definition decode_offer :: "Protos \<Rightarrow> u8 list \<Rightarrow> CallError + Signaling" where
  "decode_offer pr b =
     (case offer_decode pr b of
        None \<Rightarrow> Inl (ProtoError ''offer opaque decode'')
      | Some None \<Rightarrow> Inl (ProtoError ''offer missing v4 connection params'')
      | Some (Some p) \<Rightarrow> Inr (params_into p))"

definition encode_answer :: "Protos \<Rightarrow> Signaling \<Rightarrow> CallError + u8 list" where
  "encode_answer pr s = (case params_from s of Inl e \<Rightarrow> Inl e | Inr p \<Rightarrow> Inr (answer_encode pr (Some p)))"

definition decode_answer :: "Protos \<Rightarrow> u8 list \<Rightarrow> CallError + Signaling" where
  "decode_answer pr b =
     (case answer_decode pr b of
        None \<Rightarrow> Inl (ProtoError ''answer opaque decode'')
      | Some None \<Rightarrow> Inl (ProtoError ''answer missing v4 connection params'')
      | Some (Some p) \<Rightarrow> Inr (params_into p))"

definition encode_ice_candidate :: "Protos \<Rightarrow> string \<Rightarrow> u8 list" where
  "encode_ice_candidate pr line = ice_encode pr (Some (Some (''candidate:'' @ line)))"

definition decode_ice_candidate :: "Protos \<Rightarrow> u8 list \<Rightarrow> CallError + string option" where
  "decode_ice_candidate pr b =
     (case ice_decode pr b of
        None \<Rightarrow> Inl (ProtoError ''ice candidate decode'')
      | Some c \<Rightarrow>
          Inr (map_option (\<lambda>sdp. case strip_prefix ''candidate:'' sdp of Some rest \<Rightarrow> rest | None \<Rightarrow> sdp) (Option.bind c id)))"

definition random_ice_cred :: "u32 list \<Rightarrow> string" where
  "random_ice_cred draws = map (\<lambda>r. ''ABCDEFGHIJKLMNOPQRSTUVWXYZabcdefghijklmnopqrstuvwxyz0123456789'' ! (unat r mod 62)) draws"

section \<open>The call\<close>

datatype CallState = CallOutgoing | CallRinging | CallConnecting | CallConnected | CallEnded

datatype HangupKind = HangupNormal | HangupAccepted | HangupDeclined | HangupBusy

datatype CallSignal =
    SigOffer u64 "u8 list"
  | SigAnswer u64 "u8 list"
  | SigIce u64 "u8 list"
  | SigHangup u64 HangupKind
  | SigBusy u64

fun signal_call_id :: "CallSignal \<Rightarrow> u64" where
  "signal_call_id (SigOffer i _) = i"
| "signal_call_id (SigAnswer i _) = i"
| "signal_call_id (SigIce i _) = i"
| "signal_call_id (SigHangup i _) = i"
| "signal_call_id (SigBusy i) = i"

record ('c, 'p, 'e, 'd, 'x) SignalCall =
  sc_id :: u64
  sc_state :: CallState
  sc_session :: "('c, 'p, 'e, 'd, 'x) PeerSession"
  pending_offer :: "Signaling option"
  sc_out :: "CallSignal list"

definition emit_call :: "CallSignal list \<Rightarrow> ('c, 'p, 'e, 'd, 'x) SignalCall \<Rightarrow> ('c, 'p, 'e, 'd, 'x) SignalCall" where
  "emit_call sigs c = c\<lparr>sc_out := sc_out c @ sigs\<rparr>"

definition queue_local_candidates :: "Protos \<Rightarrow> Signaling \<Rightarrow> ('c, 'p, 'e, 'd, 'x) SignalCall \<Rightarrow> ('c, 'p, 'e, 'd, 'x) SignalCall" where
  "queue_local_candidates pr sig c = emit_call (map (\<lambda>line. SigIce (sc_id c) (encode_ice_candidate pr line)) (candidates sig)) c"

text \<open>The transport and the random numbers of the credentials are made outside.\<close>

definition call_place ::
    "Protos \<Rightarrow> u64 \<Rightarrow> SocketAddr \<Rightarrow> u32 list \<Rightarrow> u32 list \<Rightarrow> 'x Transport \<Rightarrow> CallError + ('c, 'p, 'e, 'd, 'x) SignalCall" where
  "call_place pr call_id local draws draws' t =
     (let session = PeerSession_new Offerer local (random_ice_cred draws) (random_ice_cred draws') t;
          sig = local_signaling session
      in case encode_offer pr sig of
           Inl e \<Rightarrow> Inl e
         | Inr opq \<Rightarrow>
             Inr (queue_local_candidates pr sig
                    \<lparr>sc_id = call_id, sc_state = CallOutgoing, sc_session = session, pending_offer = None, sc_out = [SigOffer call_id opq]\<rparr>))"

definition call_incoming ::
    "Protos \<Rightarrow> u64 \<Rightarrow> SocketAddr \<Rightarrow> u32 list \<Rightarrow> u32 list \<Rightarrow> 'x Transport \<Rightarrow> u8 list \<Rightarrow> CallError + ('c, 'p, 'e, 'd, 'x) SignalCall" where
  "call_incoming pr call_id local draws draws' t opq =
     (let session = PeerSession_new Answerer local (random_ice_cred draws) (random_ice_cred draws') t
      in case decode_offer pr opq of
           Inl e \<Rightarrow> Inl e
         | Inr offer \<Rightarrow>
             Inr \<lparr>sc_id = call_id, sc_state = CallRinging, sc_session = session, pending_offer = Some offer, sc_out = []\<rparr>)"

definition call_accept ::
    "Protos \<Rightarrow> 'x Net \<Rightarrow> instant \<Rightarrow> ('c, 'p, 'e, 'd, 'x) SignalCall \<Rightarrow> CallError option \<times> ('c, 'p, 'e, 'd, 'x) SignalCall" where
  "call_accept pr net now c =
     (if sc_state c \<noteq> CallRinging then (None, c)
      else
        (case pending_offer c of
           None \<Rightarrow> (None, c)
         | Some offer \<Rightarrow>
             (case set_remote_signaling pr net now offer (sc_session c) of
                (Some e, s) \<Rightarrow> (Some e, c\<lparr>sc_session := s, pending_offer := None\<rparr>)
              | (None, s) \<Rightarrow>
                  (let c = c\<lparr>sc_session := s, pending_offer := None\<rparr>; sig = local_signaling s in
                   case encode_answer pr sig of
                     Inl e \<Rightarrow> (Some e, c)
                   | Inr opq \<Rightarrow>
                       (None, (queue_local_candidates pr sig (emit_call [SigAnswer (sc_id c) opq] c))\<lparr>sc_state := CallConnecting\<rparr>)))))"

definition call_on_signal ::
    "Protos \<Rightarrow> 'x Net \<Rightarrow> instant \<Rightarrow> CallSignal \<Rightarrow> ('c, 'p, 'e, 'd, 'x) SignalCall \<Rightarrow> CallError option \<times> ('c, 'p, 'e, 'd, 'x) SignalCall" where
  "call_on_signal pr net now sig c =
     (if signal_call_id sig \<noteq> sc_id c then (None, c)
      else
        (case sig of
           SigAnswer _ opq \<Rightarrow>
             if sc_state c = CallOutgoing then
               (case decode_answer pr opq of
                  Inl e \<Rightarrow> (Some e, c)
                | Inr answer \<Rightarrow>
                    (case set_remote_signaling pr net now answer (sc_session c) of
                       (Some e, s) \<Rightarrow> (Some e, c\<lparr>sc_session := s\<rparr>)
                     | (None, s) \<Rightarrow> (None, c\<lparr>sc_session := s, sc_state := CallConnecting\<rparr>)))
             else (None, c)
         | SigIce _ opq \<Rightarrow>
             (case decode_ice_candidate pr opq of
                Inl e \<Rightarrow> (Some e, c)
              | Inr None \<Rightarrow> (None, c)
              | Inr (Some line) \<Rightarrow> (case session_add_candidate pr net line (sc_session c) of (e, s) \<Rightarrow> (e, c\<lparr>sc_session := s\<rparr>)))
         | SigHangup _ _ \<Rightarrow> (None, c\<lparr>sc_state := CallEnded\<rparr>)
         | SigBusy _ \<Rightarrow> (None, c\<lparr>sc_state := CallEnded\<rparr>)
         | SigOffer _ _ \<Rightarrow> (None, c)))"

definition call_hangup :: "('c, 'p, 'e, 'd, 'x) SignalCall \<Rightarrow> ('c, 'p, 'e, 'd, 'x) SignalCall" where
  "call_hangup c = (if sc_state c \<noteq> CallEnded then (emit_call [SigHangup (sc_id c) HangupNormal] c)\<lparr>sc_state := CallEnded\<rparr> else c)"

definition call_poll_signals :: "('c, 'p, 'e, 'd, 'x) SignalCall \<Rightarrow> CallSignal list \<times> ('c, 'p, 'e, 'd, 'x) SignalCall" where
  "call_poll_signals c = (sc_out c, c\<lparr>sc_out := []\<rparr>)"

definition call_poll_transmit ::
    "'x Net \<Rightarrow> ('c, 'p, 'e, 'd, 'x) SignalCall \<Rightarrow> (SocketAddr \<times> u8 list) list \<times> ('c, 'p, 'e, 'd, 'x) SignalCall" where
  "call_poll_transmit net c =
     (if sc_state c = CallEnded then ([], c)
      else (case session_poll_transmit net (sc_session c) of (out, s) \<Rightarrow> (out, c\<lparr>sc_session := s\<rparr>)))"

text \<open>An operation that only the session has.\<close>

definition on_session ::
    "(('c, 'p, 'e, 'd, 'x) PeerSession \<Rightarrow> ('c, 'p, 'e, 'd, 'x) PeerSession) \<Rightarrow> ('c, 'p, 'e, 'd, 'x) SignalCall \<Rightarrow> ('c, 'p, 'e, 'd, 'x) SignalCall" where
  "on_session f c = c\<lparr>sc_session := f (sc_session c)\<rparr>"

definition trickle :: "Protos \<Rightarrow> ('c, 'p, 'e, 'd, 'x) SignalCall \<Rightarrow> ('c, 'p, 'e, 'd, 'x) SignalCall" where
  "trickle pr c =
     (if sc_state c = CallEnded \<or> sc_state c = CallRinging then c
      else (case session_candidates (sc_session c) of
              (ls, s) \<Rightarrow> emit_call (map (\<lambda>line. SigIce (sc_id c) (encode_ice_candidate pr line)) ls) (c\<lparr>sc_session := s\<rparr>)))"

definition call_handle_timeout ::
    "Protos \<Rightarrow> ('c, 'p, 'e, 'd) Engine \<Rightarrow> 'x Net \<Rightarrow> instant \<Rightarrow> (nat \<times> nat) option \<Rightarrow> instant \<Rightarrow> ('c, 'p, 'e, 'd, 'x) SignalCall
      \<Rightarrow> ('c, 'p, 'e, 'd, 'x) SignalCall option" where
  "call_handle_timeout pr lib net clock wall now c =
     map_option
       (\<lambda>s. let c = trickle pr (c\<lparr>sc_session := s\<rparr>);
                c = (if sc_state c = CallConnecting \<and> tr_is_connected net (transport (sc_session c)) then c\<lparr>sc_state := CallConnected\<rparr> else c);
                (gone, s) = take_peer_rtp_hangup (sc_session c);
                c = c\<lparr>sc_session := s\<rparr>
            in if gone \<and> sc_state c \<noteq> CallEnded then c\<lparr>sc_state := CallEnded\<rparr> else c)
       (session_handle_timeout pr lib net clock wall now (sc_session c))"

definition call_send_accepted ::
    "Protos \<Rightarrow> ('c, 'p, 'e, 'd) Engine \<Rightarrow> instant \<Rightarrow> ('c, 'p, 'e, 'd, 'x) SignalCall \<Rightarrow> CallError option \<times> ('c, 'p, 'e, 'd, 'x) SignalCall" where
  "call_send_accepted pr lib clock c =
     (case session_send_accepted pr lib clock (sc_id c) (sc_session c) of (e, s) \<Rightarrow> (e, c\<lparr>sc_session := s\<rparr>))"

definition call_set_video_enabled ::
    "Protos \<Rightarrow> ('c, 'p, 'e, 'd) Engine \<Rightarrow> instant \<Rightarrow> bool \<Rightarrow> ('c, 'p, 'e, 'd, 'x) SignalCall \<Rightarrow> ('c, 'p, 'e, 'd, 'x) SignalCall" where
  "call_set_video_enabled pr lib clock enabled c = on_session (session_set_video_enabled pr lib clock (sc_id c) enabled) c"

definition is_answerer :: "('c, 'p, 'e, 'd, 'x) SignalCall \<Rightarrow> bool" where
  "is_answerer c \<longleftrightarrow> se_role (sc_session c) = Answerer"


section \<open>What a call sends\<close>

datatype CallOp =
    OpAccept instant
  | OpSignal instant CallSignal
  | OpHangup
  | OpPoll
  | OpTransmit
  | OpTimeout instant "(nat \<times> nat) option" instant
  | OpSession SessionOp

text \<open>With the signals that were polled so far.\<close>

fun call_step ::
    "Protos \<Rightarrow> ('c, 'p, 'e, 'd) Engine \<Rightarrow> 'x Net \<Rightarrow> CallOp \<Rightarrow> ('c, 'p, 'e, 'd, 'x) SignalCall \<times> CallSignal list
      \<Rightarrow> (('c, 'p, 'e, 'd, 'x) SignalCall \<times> CallSignal list) option" where
  "call_step pr lib net (OpAccept now) (c, sent) = Some (snd (call_accept pr net now c), sent)"
| "call_step pr lib net (OpSignal now sig) (c, sent) = Some (snd (call_on_signal pr net now sig c), sent)"
| "call_step pr lib net OpHangup (c, sent) = Some (call_hangup c, sent)"
| "call_step pr lib net OpPoll (c, sent) = (case call_poll_signals c of (out, c) \<Rightarrow> Some (c, sent @ out))"
| "call_step pr lib net OpTransmit (c, sent) = Some (snd (call_poll_transmit net c), sent)"
| "call_step pr lib net (OpTimeout clock wall now) (c, sent) = map_option (\<lambda>c. (c, sent)) (call_handle_timeout pr lib net clock wall now c)"
| "call_step pr lib net (OpSession op) (c, sent) = map_option (\<lambda>s. (c\<lparr>sc_session := s\<rparr>, sent)) (session_step pr lib net op (sc_session c))"

fun call_run ::
    "Protos \<Rightarrow> ('c, 'p, 'e, 'd) Engine \<Rightarrow> 'x Net \<Rightarrow> CallOp list \<Rightarrow> ('c, 'p, 'e, 'd, 'x) SignalCall \<times> CallSignal list
      \<Rightarrow> (('c, 'p, 'e, 'd, 'x) SignalCall \<times> CallSignal list) option" where
  "call_run pr lib net [] cs = Some cs"
| "call_run pr lib net (op # ops) cs = Option.bind (call_step pr lib net op cs) (call_run pr lib net ops)"

text \<open>Candidates only.\<close>

definition trickled :: "u64 \<Rightarrow> CallSignal list \<Rightarrow> bool" where
  "trickled i xs \<longleftrightarrow> (\<exists>bs. xs = map (SigIce i) bs)"

lemma trickled_simps [simp]:
  "trickled i []" "trickled i (map (\<lambda>l. SigIce i (f l)) ls)" "trickled i xs \<Longrightarrow> trickled i ys \<Longrightarrow> trickled i (xs @ ys)"
proof -
  show "trickled i []" by (simp add: trickled_def)
  show "trickled i (map (\<lambda>l. SigIce i (f l)) ls)"
    unfolding trickled_def by (intro exI[of _ "map f ls"]) simp
  show "trickled i (xs @ ys)" if "trickled i xs" "trickled i ys"
    using that unfolding trickled_def by (metis map_append)
qed

text \<open>What an operation can change of state, pending offer and signals.\<close>

inductive moves :: "u64 \<Rightarrow> CallState \<times> Signaling option \<times> CallSignal list \<Rightarrow> CallState \<times> Signaling option \<times> CallSignal list \<Rightarrow> bool"
  for i where
  stay: "moves i (st, off, sigs) (st, off, sigs)"
| answer: "trickled i xs \<Longrightarrow> moves i (CallRinging, Some o', sigs) (CallConnecting, None, sigs @ SigAnswer i b # xs)"
| fail: "moves i (CallRinging, Some o', sigs) (CallRinging, None, sigs)"
| answered: "moves i (CallOutgoing, off, sigs) (CallConnecting, off, sigs)"
| ices: "trickled i xs \<Longrightarrow> st \<noteq> CallEnded \<Longrightarrow> st \<noteq> CallRinging \<Longrightarrow> st' = st \<or> st = CallConnecting \<and> st' = CallConnected \<or> st' = CallEnded
    \<Longrightarrow> moves i (st, off, sigs) (st', off, sigs @ xs)"
| gone: "moves i (st, off, sigs) (CallEnded, off, sigs)"
| hang: "st \<noteq> CallEnded \<Longrightarrow> moves i (st, off, sigs) (CallEnded, off, sigs @ [SigHangup i HangupNormal])"

inductive_cases movesE: "moves i (st, off, sigs) (st', off', sigs')"

definition view :: "('c, 'p, 'e, 'd, 'x) SignalCall \<times> CallSignal list \<Rightarrow> CallState \<times> Signaling option \<times> CallSignal list" where
  "view cs = (sc_state (fst cs), pending_offer (fst cs), snd cs @ sc_out (fst cs))"

lemma accept_moves: "moves (sc_id c) (view (c, sent)) (view (snd (call_accept pr net now c), sent))"
proof (cases "sc_state c = CallRinging \<and> pending_offer c \<noteq> None")
  case True
  then obtain offer where o: "sc_state c = CallRinging" "pending_offer c = Some offer" by blast
  obtain e s where s: "set_remote_signaling pr net now offer (sc_session c) = (e, s)" by fastforce
  show ?thesis
  proof (cases "e = None \<and> (\<exists>b. encode_answer pr (local_signaling s) = Inr b)")
    case True
    then show ?thesis
      using moves.answer[of "sc_id c" _ offer "sent @ sc_out c"] o s
      by (auto simp: view_def call_accept_def Let_def queue_local_candidates_def emit_call_def)
  next
    case False
    then show ?thesis
      using moves.fail[of "sc_id c" offer "sent @ sc_out c"] o s
      by (auto simp: view_def call_accept_def Let_def split: option.split sum.split)
  qed
qed (auto simp: view_def call_accept_def intro: moves.stay split: option.split)

lemma signal_moves: "moves (sc_id c) (view (c, sent)) (view (snd (call_on_signal pr net now sig c), sent))"
  by (auto simp: view_def call_on_signal_def intro: moves.stay moves.answered moves.gone split: CallSignal.split sum.split option.split prod.split)

lemma hangup_moves: "moves (sc_id c) (view (c, sent)) (view (call_hangup c, sent))"
  using moves.hang[of "sc_state c" "sc_id c" _ "sent @ sc_out c"]
  by (auto simp: view_def call_hangup_def emit_call_def intro: moves.stay)

lemma trickle_fields:
  "sc_id (trickle pr c) = sc_id c" "sc_state (trickle pr c) = sc_state c" "pending_offer (trickle pr c) = pending_offer c"
  "\<exists>xs. sc_out (trickle pr c) = sc_out c @ xs \<and> trickled (sc_id c) xs \<and> (sc_state c \<in> {CallEnded, CallRinging} \<longrightarrow> xs = [])"
  by (auto simp: trickle_def emit_call_def split: prod.split)

lemma timeout_moves:
  assumes "call_handle_timeout pr lib net clock wall now c = Some c'"
  shows "sc_id c' = sc_id c \<and> moves (sc_id c) (view (c, sent)) (view (c', sent))"
proof -
  obtain s where s: "session_handle_timeout pr lib net clock wall now (sc_session c) = Some s"
    using assms by (auto simp: call_handle_timeout_def)
  let ?c = "c\<lparr>sc_session := s\<rparr>"
  obtain xs where x: "sc_out (trickle pr ?c) = sc_out c @ xs" "trickled (sc_id c) xs" "sc_state c \<in> {CallEnded, CallRinging} \<longrightarrow> xs = []"
    using trickle_fields(4)[of pr ?c] by auto
  have c': "sc_id c' = sc_id c" "pending_offer c' = pending_offer c" "sc_out c' = sc_out c @ xs"
    "sc_state c' = sc_state c \<or> sc_state c = CallConnecting \<and> sc_state c' = CallConnected \<or> sc_state c' = CallEnded"
    using assms s x(1) trickle_fields(1-3)[of pr ?c]
    by (auto simp: call_handle_timeout_def Let_def take_peer_rtp_hangup_def split: if_splits)
  have "moves (sc_id c) (view (c, sent)) (view (c', sent))"
  proof (cases "sc_state c \<in> {CallEnded, CallRinging}")
    case True
    with x(3) c' show ?thesis by (auto simp: view_def intro: moves.stay moves.gone)
  next
    case False
    with moves.ices[OF x(2), of "sc_state c" "sc_state c'" "pending_offer c" "sent @ sc_out c"] c' show ?thesis by (simp add: view_def)
  qed
  with c'(1) show ?thesis by simp
qed

lemma call_ids: "sc_id (snd (call_accept pr net now c)) = sc_id c" "sc_id (snd (call_on_signal pr net now sig c)) = sc_id c"
  "sc_id (call_hangup c) = sc_id c" "sc_id (snd (call_poll_transmit net c)) = sc_id c"
  by (auto simp: call_accept_def call_on_signal_def call_hangup_def call_poll_transmit_def queue_local_candidates_def emit_call_def Let_def
      split: option.split sum.split prod.split CallSignal.split)

lemma step_moves:
  assumes "call_step pr lib net op cs = Some cs'"
  shows "sc_id (fst cs') = sc_id (fst cs) \<and> moves (sc_id (fst cs)) (view cs) (view cs')"
proof -
  obtain c sent where cs: "cs = (c, sent)" by fastforce
  show ?thesis
  proof (cases op)
    case OpTransmit
    with assms show ?thesis
      by (auto simp: cs call_poll_transmit_def view_def intro: moves.stay split: prod.split)
  next
    case (OpTimeout clock wall now)
    with assms cs obtain c' where "call_handle_timeout pr lib net clock wall now c = Some c'" "cs' = (c', sent)" by auto
    with timeout_moves[of pr lib net clock wall now c c' sent] cs show ?thesis by simp
  qed (use assms accept_moves signal_moves hangup_moves in
        \<open>auto simp: cs call_ids call_poll_signals_def view_def intro: moves.stay split: prod.splits\<close>)
qed

text \<open>Everything moves within a law that one move keeps.\<close>

lemma run_moves:
  assumes "call_run pr lib net ops cs = Some cs'" "law (view cs)" "\<And>v v'. law v \<Longrightarrow> moves (sc_id (fst cs)) v v' \<Longrightarrow> law v'"
  shows "law (view cs')"
  using assms
proof (induction ops arbitrary: cs)
  case (Cons op ops)
  obtain cs1 where c1: "call_step pr lib net op cs = Some cs1" "call_run pr lib net ops cs1 = Some cs'"
    using Cons.prems(1) by (auto split: bind_splits)
  from step_moves[OF c1(1)] Cons.prems(2,3) have "law (view cs1)" "sc_id (fst cs1) = sc_id (fst cs)" by blast+
  with Cons.IH[OF c1(2)] Cons.prems(3) show ?case by simp
qed simp

text \<open>A call always goes on: no operation panics.\<close>

lemma step_returns: "call_step pr lib net op cs \<noteq> None"
proof -
  obtain c sent where cs: "cs = (c, sent)" by fastforce
  have "session_handle_timeout pr lib net clock wall now s \<noteq> None" for clock wall now s
    using timeout_plis[of pr lib net clock wall now s] by blast
  moreover have "session_step pr lib net o' s \<noteq> None" for o' s
    using step_plis[of pr lib net o' s] by blast
  ultimately show ?thesis
    unfolding cs by (cases op) (auto simp: call_handle_timeout_def split: prod.split)
qed

lemma run_returns: "call_run pr lib net ops cs \<noteq> None"
proof (induction ops arbitrary: cs)
  case (Cons op ops)
  then show ?case using step_returns[of pr lib net op cs] by (auto simp: bind_eq_None_conv)
qed simp

section \<open>The signals of a call\<close>

text \<open>
  \<open>opening\<close> is the offer or the answer, then come candidates, then at most one hanging up.  The
  second line is what holds while nothing was sent.
\<close>

definition in_order :: "u64 \<Rightarrow> CallSignal list \<Rightarrow> CallState \<Rightarrow> CallSignal list \<Rightarrow> bool" where
  "in_order i opening st sigs \<longleftrightarrow>
     (\<exists>xs closing. sigs = opening @ xs @ closing \<and> trickled i xs \<and> (closing = [] \<or> closing = [SigHangup i HangupNormal] \<and> st = CallEnded)
        \<and> (opening = [] \<longrightarrow> xs = []))"

lemma in_order_more:
  assumes "in_order i opening st sigs" "opening \<noteq> []" "trickled i ys" "st \<noteq> CallEnded"
  shows "in_order i opening st' (sigs @ ys)"
proof -
  obtain xs where x: "sigs = opening @ xs" "trickled i xs"
    using assms(1,4) unfolding in_order_def by auto
  have "sigs @ ys = opening @ (xs @ ys) @ []" "trickled i (xs @ ys)"
    using x assms(3) by simp_all
  with assms(2) show ?thesis unfolding in_order_def by blast
qed

lemma in_order_end: "in_order i opening st sigs \<Longrightarrow> in_order i opening CallEnded sigs"
  unfolding in_order_def by blast

lemma in_order_hang: "in_order i opening st sigs \<Longrightarrow> st \<noteq> CallEnded \<Longrightarrow> in_order i opening CallEnded (sigs @ [SigHangup i HangupNormal])"
  unfolding in_order_def by fastforce

fun caller_law :: "u64 \<Rightarrow> u8 list \<Rightarrow> CallState \<times> Signaling option \<times> CallSignal list \<Rightarrow> bool" where
  "caller_law i b (st, off, sigs) \<longleftrightarrow> off = None \<and> st \<noteq> CallRinging \<and> in_order i [SigOffer i b] st sigs"

lemma caller_law_moves: "caller_law i b v \<Longrightarrow> moves i v v' \<Longrightarrow> caller_law i b v'"
proof -
  assume v: "caller_law i b v" "moves i v v'"
  from v(2,1) show ?thesis
    by cases (auto intro: in_order_more in_order_end in_order_hang, auto simp: in_order_def)
qed

fun callee_law :: "u64 \<Rightarrow> CallState \<times> Signaling option \<times> CallSignal list \<Rightarrow> bool" where
  "callee_law i (st, off, sigs) \<longleftrightarrow>
     st \<noteq> CallOutgoing \<and>
     (in_order i [] st sigs \<and> st \<in> {CallRinging, CallEnded} \<or> (\<exists>b. in_order i [SigAnswer i b] st sigs) \<and> off = None \<and> st \<noteq> CallRinging)"

lemma callee_law_moves: "callee_law i v \<Longrightarrow> moves i v v' \<Longrightarrow> callee_law i v'"
proof -
  assume v: "callee_law i v" "moves i v v'"
  from v(2,1) show ?thesis
  proof cases
    case (answer xs o' sigs b)
    with v(1) have "sigs = []" by (auto simp: in_order_def)
    with answer show ?thesis by (auto simp: in_order_def)
  next
    case (ices xs st st' off sigs)
    with v(1) show ?thesis using in_order_more[of i _ st sigs xs st'] by auto
  next
    case (gone st off sigs)
    with v(1) in_order_end[of i _ st sigs] show ?thesis by auto
  next
    case (hang st off sigs)
    with v(1) in_order_hang[of i _ st sigs] show ?thesis by auto
  qed (use v(1) in auto)
qed

text \<open>
  C7. Whatever happens in a call and whatever the other side sends, every operation returns and the
  signals sent are in order: the caller's are the offer, then candidates, then at most one hanging up and
  nothing after it; the callee's are nothing, or one answer, then candidates, then at most one hanging up.
  No candidate goes out before the answer.
\<close>
theorem signals_in_order:
  assumes "call_place pr i local draws draws' t = Inr a" "call_incoming pr i' local' draws2 draws2' t' o' = Inr b"
  shows "\<exists>a' sent b' sent'. call_run pr lib net ops (a, []) = Some (a', sent) \<and> call_run pr lib' net' ops' (b, []) = Some (b', sent')
    \<and> (\<exists>opq. in_order i [SigOffer i opq] (sc_state a') (sent @ sc_out a'))
    \<and> (in_order i' [] (sc_state b') (sent' @ sc_out b') \<or> (\<exists>opq. in_order i' [SigAnswer i' opq] (sc_state b') (sent' @ sc_out b')))"
proof -
  obtain opq where a: "caller_law i opq (view (a, []))" "sc_id a = i"
    using assms(1)
    by (auto simp: call_place_def Let_def view_def queue_local_candidates_def emit_call_def in_order_def split: sum.splits
        intro!: exI[of _ "[]"])
  have b: "callee_law i' (view (b, []))" "sc_id b = i'"
    using assms(2) by (auto simp: call_incoming_def Let_def view_def in_order_def split: sum.splits)
  obtain a' sent where a': "call_run pr lib net ops (a, []) = Some (a', sent)"
    using run_returns[of pr lib net ops "(a, [])"] by fastforce
  obtain b' sent' where b': "call_run pr lib' net' ops' (b, []) = Some (b', sent')"
    using run_returns[of pr lib' net' ops' "(b, [])"] by fastforce
  have "caller_law i opq (view (a', sent))"
    using run_moves[OF a', of "caller_law i opq"] a caller_law_moves by auto
  moreover have "callee_law i' (view (b', sent'))"
    using run_moves[OF b', of "callee_law i'"] b callee_law_moves by auto
  ultimately show ?thesis
    using a' b' by (auto simp: view_def)
qed

text \<open>
  A call that ended stays so: it sends no signal and no datagram any more, whatever is done with it.
\<close>
theorem ended_for_good:
  assumes "sc_state c = CallEnded"
  shows "\<exists>c' sent. call_run pr lib net ops (c, []) = Some (c', sent) \<and> sc_state c' = CallEnded \<and> sent @ sc_out c' = sc_out c
    \<and> fst (call_poll_transmit net c') = []"
proof -
  let ?law = "\<lambda>(st, off :: Signaling option, sigs). st = CallEnded \<and> sigs = sc_out c"
  obtain c' sent where r: "call_run pr lib net ops (c, []) = Some (c', sent)"
    using run_returns[of pr lib net ops "(c, [])"] by fastforce
  have "?law v'" if "?law v" "moves (sc_id c) v v'" for v v'
    using that(2,1) by cases auto
  then have "?law (view (c', sent))"
    using run_moves[OF r, of ?law] assms by (simp add: view_def)
  with r show ?thesis
    by (auto simp: view_def call_poll_transmit_def)
qed

text \<open>
  C37. A ringing call whose acceptance fails once is lost: later attempts report success and do nothing, no answer is
  ever sent, and all that can still happen is that the call ends.
\<close>
theorem failed_accept_final:
  assumes "call_accept pr net now c = (Some e, c')" "sc_out c = []"
  shows "\<exists>d sent. call_run pr lib net ops (c', []) = Some (d, sent) \<and> sc_state d \<in> {CallRinging, CallEnded}
    \<and> call_accept pr net' now' d = (None, d) \<and> sent @ sc_out d \<in> {[], [SigHangup (sc_id c) HangupNormal]}"
proof -
  have c': "sc_state c' = CallRinging" "pending_offer c' = None" "sc_out c' = []" "sc_id c' = sc_id c"
    using assms by (auto simp: call_accept_def Let_def split: if_splits option.splits prod.splits sum.splits)
  let ?law = "\<lambda>(st, off :: Signaling option, sigs). st \<in> {CallRinging, CallEnded} \<and> off = None \<and> in_order (sc_id c) [] st sigs"
  obtain d sent where r: "call_run pr lib net ops (c', []) = Some (d, sent)"
    using run_returns[of pr lib net ops "(c', [])"] by fastforce
  have "?law v'" if v: "?law v" "moves (sc_id c) v v'" for v v'
    using v(2,1)
  proof cases
    case (gone st off sigs)
    with v(1) in_order_end[of "sc_id c" "[]" st sigs] show ?thesis by auto
  next
    case (hang st off sigs)
    with v(1) in_order_hang[of "sc_id c" "[]" st sigs] show ?thesis by auto
  qed (use v(1) in auto)
  moreover have "?law (view (c', []))"
    by (simp add: view_def c' in_order_def)
  ultimately have "?law (view (d, sent))"
    using run_moves[OF r, of ?law] c'(4) by simp
  with r show ?thesis
    by (auto simp: view_def call_accept_def in_order_def)
qed

section \<open>From the offer to the keys\<close>

lemma local_params:
  "keying (transport s) = SignalDh k \<Longrightarrow> params_from (local_signaling s) = Inr p \<Longrightarrow> v4_public_key p = Some (x_public k)"
  by (auto simp: params_from_def local_signaling_def)

lemma set_signaling_transport:
  assumes "set_remote_signaling pr net now sig s = (None, s')"
  obtains rs where "set_remote net now (ice_ufrag sig) (ice_pwd sig) (sig_fingerprint sig) (public_key sig) rs (transport s) = (None, transport s')"
  using assms by (auto simp: set_remote_signaling_def split: prod.splits)

lemma place_offer:
  assumes "call_place pr i local draws draws' t = Inr a" "hd (sc_out a) = SigOffer i blob"
  shows "transport (sc_session a) = t" "sc_id a = i" "sc_state a = CallOutgoing"
    "\<exists>p. params_from (local_signaling (sc_session a)) = Inr p \<and> blob = offer_encode pr (Some p)"
  using assms
  by (auto simp: call_place_def Let_def queue_local_candidates_def emit_call_def encode_offer_def PeerSession_new_def split: sum.splits)

lemma incoming_offer:
  assumes "call_incoming pr i local draws draws' t blob = Inr b"
  shows "transport (sc_session b) = t" "sc_id b = i" "sc_out b = []" "sc_state b = CallRinging"
    "\<exists>p. offer_decode pr blob = Some (Some p) \<and> pending_offer b = Some (params_into p)"
  using assms
  by (auto simp: call_incoming_def Let_def decode_offer_def PeerSession_new_def split: sum.splits option.splits)

lemma accept_answer:
  assumes "call_accept pr net now b = (None, b')" "sc_out b = []" "sc_state b = CallRinging" "pending_offer b = Some offer"
    and "hd (sc_out b') = SigAnswer i blob"
  shows "set_remote_signaling pr net now offer (sc_session b) = (None, sc_session b')"
    "\<exists>q. params_from (local_signaling (sc_session b')) = Inr q \<and> blob = answer_encode pr (Some q)"
  using assms
  by (auto simp: call_accept_def Let_def queue_local_candidates_def emit_call_def encode_answer_def split: prod.splits option.splits sum.splits)

lemma answer_applied:
  assumes "call_on_signal pr net now (SigAnswer i blob) a = (None, a')" "sc_id a = i" "sc_state a = CallOutgoing"
    and "answer_decode pr blob = Some (Some q)"
  shows "set_remote_signaling pr net now (params_into q) (sc_session a) = (None, sc_session a')"
  using assms
  by (auto simp: call_on_signal_def decode_answer_def split: prod.splits option.splits)

text \<open>
  C6. From the first signal to the keys: when the callee accepts the offer the caller's call made and the caller takes
  the answer, and both transports get connected after any datagrams, candidates, time-outs and polls, what one
  side sends with is what the other receives with: the two halves of one expansion of the secret that the
  two private keys share, bound to both identities.
\<close>
theorem call_keys_agree:
  assumes "keying ta = SignalDh sa" "tr_role ta = Offerer" "\<not> tr_done ta" "tr_keys ta = None"
    and "keying tb = SignalDh sb" "tr_role tb = Answerer" "\<not> tr_done tb" "tr_keys tb = None"
    and "caller_identity sa = caller_identity sb" "callee_identity sa = callee_identity sb"
    and "diffie_hellman net (x_secret sa) (x_public sb) = Some z" "diffie_hellman net (x_secret sb) (x_public sa) = Some z"
    and "call_place pr i la d1 d2 ta = Inr a0" "hd (sc_out a0) = SigOffer i offer"
    and "call_incoming pr i lb d3 d4 tb offer = Inr b0" "call_accept pr net now b0 = (None, b1)" "hd (sc_out b1) = SigAnswer i answer"
    and "call_on_signal pr net now' (SigAnswer i answer) a0 = (None, a1)"
    and "\<forall>p. params_from (local_signaling (sc_session a0)) = Inr p \<longrightarrow> offer_decode pr (offer_encode pr (Some p)) = Some (Some p)"
    and "\<forall>q. params_from (local_signaling (sc_session b1)) = Inr q \<longrightarrow> answer_decode pr (answer_encode pr (Some q)) = Some (Some q)"
    and "a2 = fold (transport_step net) ops (transport (sc_session a1))" "b2 = fold (transport_step net) ops' (transport (sc_session b1))"
    and "tr_is_connected net a2" "tr_is_connected net b2"
  shows "\<exists>okm. hkdf net (replicate 32 0) z (kdf_label @ raw_identity_key (caller_identity sa) @ raw_identity_key (callee_identity sa)) 88 = Some okm
    \<and> tr_keys a2 = Some (\<lparr>sk_key = take 32 okm, sk_salt = take 12 (drop 32 okm)\<rparr>, \<lparr>sk_key = take 32 (drop 44 okm), sk_salt = take 12 (drop 76 okm)\<rparr>)
    \<and> tr_keys b2 = map_option prod.swap (tr_keys a2)"
proof -
  note a0 = place_offer[OF assms(13,14)]
  note b0 = incoming_offer[OF assms(15)]
  obtain p where p: "params_from (local_signaling (sc_session a0)) = Inr p" "offer = offer_encode pr (Some p)" using a0(4) by blast
  with b0(5) assms(19) have po: "pending_offer b0 = Some (params_into p)" by auto
  note b1 = accept_answer[OF assms(16) b0(3,4) po assms(17)]
  obtain q where q: "params_from (local_signaling (sc_session b1)) = Inr q" "answer = answer_encode pr (Some q)" using b1(2) by blast
  with assms(20) have "answer_decode pr answer = Some (Some q)" by blast
  note a1 = answer_applied[OF assms(18) a0(2,3) this]
  have pk: "public_key (params_into p) = Some (x_public sa)"
    using local_params[OF _ p(1), of sa] a0(1) assms(1) by (simp add: params_into_def)
  from set_signaling_transport[OF b1(1)] obtain rs where
    sb: "set_remote net now (ice_ufrag (params_into p)) (ice_pwd (params_into p)) (sig_fingerprint (params_into p)) (Some (x_public sa)) rs tb
      = (None, transport (sc_session b1))"
    unfolding b0(1) pk by blast
  have "keying (transport (sc_session b1)) = SignalDh (sb\<lparr>remote_public := Some (x_public sa)\<rparr>)"
    using set_remote_secured[OF sb assms(7,8)] assms(5) by (simp add: secured_def peer_of_def split: Keying.splits)
  from local_params[OF this q(1)] have qk: "public_key (params_into q) = Some (x_public sb)" by (simp add: params_into_def)
  from set_signaling_transport[OF a1] obtain rs' where
    sa: "set_remote net now' (ice_ufrag (params_into q)) (ice_pwd (params_into q)) (sig_fingerprint (params_into q)) (Some (x_public sb)) rs' ta
      = (None, transport (sc_session a1))"
    unfolding a0(1) qk by blast
  show ?thesis
    by (rule signal_keys_match[OF assms(1-12) sa sb assms(21-24)])
qed

section \<open>One call\<close>

type_synonym demo_call = "(unit, unit, unit, unit, unit) SignalCall"

definition demo_caller :: demo_call where
  "demo_caller = projr (call_place demo_protos 7 demo_addr [] [] (demo_transport Offerer 5))"

definition demo_callee :: demo_call where
  "demo_callee = projr (call_incoming demo_protos 7 demo_addr [] [] (demo_transport Answerer 6) [1])"

lemma demo_protos_simps [simp]:
  "offer_encode demo_protos p = [1]" "offer_decode demo_protos b = Some (Some (demo_params 5))"
  "answer_encode demo_protos p = [2]" "answer_decode demo_protos b = Some (Some (demo_params 6))"
  by (simp_all add: demo_protos_def)

lemma demo_transport_simps [simp]:
  "keying (demo_transport role k) = SignalDh (demo_signal k)" "tr_role (demo_transport role k) = role" "\<not> tr_done (demo_transport role k)"
  "tr_keys (demo_transport role k) = None" "relay (demo_transport role k) = None"
  "caller_identity (demo_signal k) = [1]" "callee_identity (demo_signal k) = [2]" "x_secret (demo_signal k) = replicate 32 k"
  "x_public (demo_signal k) = replicate 32 k"
  by (simp_all add: demo_transport_def Transport_new_def demo_signal_def)

lemma demo_placed: "call_place demo_protos 7 demo_addr [] [] (demo_transport Offerer 5) = Inr demo_caller"
  by (simp add: demo_caller_def call_place_def Let_def encode_offer_def params_from_def local_signaling_def PeerSession_new_def)

lemma demo_came: "call_incoming demo_protos 7 demo_addr [] [] (demo_transport Answerer 6) [1] = Inr demo_callee"
  by (simp add: demo_callee_def call_incoming_def Let_def decode_offer_def)

theorem signals_in_order_witness:
  "\<exists>a' sent b' sent'. call_run demo_protos demo_engine demo_ice [OpPoll, OpHangup] (demo_caller, []) = Some (a', sent)
    \<and> call_run demo_protos demo_engine demo_ice [OpTimeout 0 None 0, OpAccept 1, OpPoll] (demo_callee, []) = Some (b', sent')
    \<and> (\<exists>opq. in_order 7 [SigOffer 7 opq] (sc_state a') (sent @ sc_out a'))
    \<and> (in_order 7 [] (sc_state b') (sent' @ sc_out b') \<or> (\<exists>opq. in_order 7 [SigAnswer 7 opq] (sc_state b') (sent' @ sc_out b')))"
  by (rule signals_in_order[OF demo_placed demo_came])

theorem ended_for_good_witness:
  "\<exists>c' sent. call_run demo_protos demo_engine demo_ice [OpTimeout 0 None 0, OpHangup, OpPoll] (call_hangup demo_caller, []) = Some (c', sent)
    \<and> sc_state c' = CallEnded \<and> sent @ sc_out c' = sc_out (call_hangup demo_caller) \<and> fst (call_poll_transmit demo_ice c') = []"
proof -
  have "sc_state (call_hangup demo_caller) = CallEnded"
    by (simp add: call_hangup_def)
  from ended_for_good[OF this] show ?thesis .
qed

text \<open>An offer whose key is too short.\<close>

definition demo_bad :: demo_call where
  "demo_bad = demo_callee\<lparr>pending_offer := Some (params_into (demo_params 5\<lparr>v4_public_key := Some [1]\<rparr>))\<rparr>"

theorem failed_accept_final_witness:
  "\<exists>c' d sent. call_accept demo_protos demo_ice 0 demo_bad = (Some (DhError ''remote public key must be 32 bytes''), c')
    \<and> call_run demo_protos demo_engine demo_ice [OpAccept 1, OpTimeout 0 None 0, OpPoll] (c', []) = Some (d, sent) \<and> sc_state d \<in> {CallRinging, CallEnded}
    \<and> call_accept demo_protos demo_ice 2 d = (None, d) \<and> sent @ sc_out d \<in> {[], [SigHangup (sc_id demo_bad) HangupNormal]}"
proof -
  let ?c = "snd (call_accept demo_protos demo_ice 0 demo_bad)"
  have "sc_state demo_bad = CallRinging" "sc_out demo_bad = []"
    "pending_offer demo_bad = Some (params_into (demo_params 5\<lparr>v4_public_key := Some [1]\<rparr>))"
    "keying (transport (sc_session demo_bad)) = SignalDh (demo_signal 6)"
    using incoming_offer[OF demo_came] by (simp_all add: demo_bad_def)
  then have b: "call_accept demo_protos demo_ice 0 demo_bad = (Some (DhError ''remote public key must be 32 bytes''), ?c)" "sc_out demo_bad = []"
    by (simp_all add: call_accept_def set_remote_signaling_def set_remote_def params_into_def)
  from failed_accept_final[OF this, of demo_engine "[OpAccept 1, OpTimeout 0 None 0, OpPoll]" demo_ice 2] b(1) show ?thesis
    by blast
qed

definition demo_accepted :: demo_call where
  "demo_accepted = snd (call_accept demo_protos demo_ice 0 demo_callee)"

definition demo_answered :: demo_call where
  "demo_answered = snd (call_on_signal demo_protos demo_ice 2 (SigAnswer 7 [2]) demo_caller)"

lemma demo_offer: "hd (sc_out demo_caller) = SigOffer 7 [1]"
  by (simp add: demo_caller_def call_place_def Let_def encode_offer_def params_from_def local_signaling_def PeerSession_new_def
      queue_local_candidates_def emit_call_def)

lemma demo_set_remote:
  "set_remote demo_ice n u w fp (Some (replicate 32 k)) [] (demo_transport role j) = (None, t) \<Longrightarrow>
     keying t = SignalDh (demo_signal j\<lparr>remote_public := Some (replicate 32 k)\<rparr>) \<and> relay t = None"
  "fst (set_remote demo_ice n u w fp (Some (replicate 32 k)) [] (demo_transport role j)) = None"
  by (auto simp: set_remote_def Let_def)

lemma demo_signaling:
  assumes "transport s = demo_transport role j" "set_remote_signaling demo_protos demo_ice n (params_into (demo_params k)) s = (e, s')"
  shows "e = None" "keying (transport s') = SignalDh (demo_signal j\<lparr>remote_public := Some (replicate 32 k)\<rparr>)" "relay (transport s') = None"
proof -
  obtain e' t where t: "set_remote demo_ice n [] [] [] (Some (replicate 32 k)) [] (demo_transport role j) = (e', t)" by fastforce
  then have e': "e' = None" using demo_set_remote(2)[of n "[]" "[]" "[]" k role j] by simp
  have "set_remote_signaling demo_protos demo_ice n (params_into (demo_params k)) s
      = (e', s\<lparr>remote_direction := Some ''sendrecv'', se_audio_pt := OPUS_PAYLOAD_TYPE, transport := t\<rparr>)"
    using t assms(1) by (simp add: set_remote_signaling_def params_into_def demo_params_def List.map_filter_def)
  with assms(2) have "e = None" "transport s' = t" by (auto simp: e')
  with demo_set_remote(1)[OF t[unfolded e']] show "e = None"
    "keying (transport s') = SignalDh (demo_signal j\<lparr>remote_public := Some (replicate 32 k)\<rparr>)" "relay (transport s') = None" by simp_all
qed

lemma demo_accept:
  "call_accept demo_protos demo_ice 0 demo_callee = (None, demo_accepted)" "hd (sc_out demo_accepted) = SigAnswer 7 [2]"
  "tr_is_connected demo_ice (tr_handle_timeout demo_ice n (transport (sc_session demo_accepted)))"
  "params_from (local_signaling (sc_session demo_accepted)) = Inr q \<Longrightarrow> q = demo_params 6"
proof -
  have c: "sc_state demo_callee = CallRinging" "sc_out demo_callee = []" "sc_id demo_callee = 7" "pending_offer demo_callee = Some (params_into (demo_params 5))"
    "transport (sc_session demo_callee) = demo_transport Answerer 6"
    using incoming_offer[OF demo_came] by simp_all
  obtain e s where s: "set_remote_signaling demo_protos demo_ice 0 (params_into (demo_params 5)) (sc_session demo_callee) = (e, s)" by fastforce
  note d = demo_signaling[OF c(5) s]
  have f: "se_ufrag s = []" "se_pwd s = []"
    using s by (auto simp: set_remote_signaling_def demo_callee_def call_incoming_def Let_def decode_offer_def PeerSession_new_def random_ice_cred_def
        split: prod.splits)
  then have p: "params_from (local_signaling s) = Inr (demo_params 6)"
    by (simp add: params_from_def local_signaling_def d(2) demo_params_def)
  have a: "demo_accepted = snd (call_accept demo_protos demo_ice 0 demo_callee)" by (rule demo_accepted_def)
  show "call_accept demo_protos demo_ice 0 demo_callee = (None, demo_accepted)"
    unfolding a by (simp add: call_accept_def c s d(1) Let_def encode_answer_def p)
  show "hd (sc_out demo_accepted) = SigAnswer 7 [2]"
    unfolding a by (simp add: call_accept_def c s d(1) Let_def encode_answer_def p queue_local_candidates_def emit_call_def)
  have t: "sc_session demo_accepted = s"
    unfolding a by (simp add: call_accept_def c s d(1) Let_def encode_answer_def p queue_local_candidates_def emit_call_def)
  show "tr_is_connected demo_ice (tr_handle_timeout demo_ice n (transport (sc_session demo_accepted)))"
    unfolding t by (rule demo_timeout[OF d(2) _ d(3)]) simp
  show "params_from (local_signaling (sc_session demo_accepted)) = Inr q \<Longrightarrow> q = demo_params 6"
    unfolding t p by simp
qed

lemma demo_answer:
  "call_on_signal demo_protos demo_ice 2 (SigAnswer 7 [2]) demo_caller = (None, demo_answered)"
  "tr_is_connected demo_ice (tr_handle_timeout demo_ice n (transport (sc_session demo_answered)))"
proof -
  note c = place_offer[OF demo_placed demo_offer]
  obtain e s where s: "set_remote_signaling demo_protos demo_ice 2 (params_into (demo_params 6)) (sc_session demo_caller) = (e, s)" by fastforce
  note d = demo_signaling[OF c(1) s]
  show "call_on_signal demo_protos demo_ice 2 (SigAnswer 7 [2]) demo_caller = (None, demo_answered)"
    by (simp add: demo_answered_def call_on_signal_def c decode_answer_def s d(1))
  have "sc_session demo_answered = s"
    by (simp add: demo_answered_def call_on_signal_def c decode_answer_def s d(1))
  then show "tr_is_connected demo_ice (tr_handle_timeout demo_ice n (transport (sc_session demo_answered)))"
    using demo_timeout[OF d(2) _ d(3)] by simp
qed

theorem call_keys_agree_witness:
  "tr_keys (fold (transport_step demo_ice) [TrTimeout 2] (transport (sc_session demo_answered))) \<noteq> None
   \<and> tr_keys (fold (transport_step demo_ice) [TrTimeout 3] (transport (sc_session demo_accepted)))
      = map_option prod.swap (tr_keys (fold (transport_step demo_ice) [TrTimeout 2] (transport (sc_session demo_answered))))"
proof -
  have dh: "diffie_hellman demo_ice (x_secret (demo_signal 5)) (x_public (demo_signal 6)) = Some (replicate 32 11)"
    "diffie_hellman demo_ice (x_secret (demo_signal 6)) (x_public (demo_signal 5)) = Some (replicate 32 11)"
    "caller_identity (demo_signal 5) = caller_identity (demo_signal 6)" "callee_identity (demo_signal 5) = callee_identity (demo_signal 6)"
    by (simp_all add: zip_replicate)
  have p: "params_from (local_signaling (sc_session demo_caller)) = Inr p \<Longrightarrow> p = demo_params 5" for p
    by (auto simp: demo_caller_def call_place_def Let_def encode_offer_def params_from_def local_signaling_def PeerSession_new_def
        queue_local_candidates_def emit_call_def random_ice_cred_def demo_params_def)
  have rt: "\<forall>p. params_from (local_signaling (sc_session demo_caller)) = Inr p \<longrightarrow>
      offer_decode demo_protos (offer_encode demo_protos (Some p)) = Some (Some p)"
    "\<forall>q. params_from (local_signaling (sc_session demo_accepted)) = Inr q \<longrightarrow>
      answer_decode demo_protos (answer_encode demo_protos (Some q)) = Some (Some q)"
    using p demo_accept(4) by auto
  have conn: "tr_is_connected demo_ice (fold (transport_step demo_ice) [TrTimeout 2] (transport (sc_session demo_answered)))"
    "tr_is_connected demo_ice (fold (transport_step demo_ice) [TrTimeout 3] (transport (sc_session demo_accepted)))"
    using demo_accept(3) demo_answer(2) by simp_all
  from call_keys_agree[OF demo_transport_simps(1-4) demo_transport_simps(1-4) dh(3,4,1,2) demo_placed demo_offer demo_came demo_accept(1,2)
      demo_answer(1) rt refl refl conn] show ?thesis
    by (auto simp del: fold_simps)
qed

end
