(* ===== verification/Spec2Isabelle.thy ===== *)
theory Spec2Isabelle
  imports DaemonKeys NetRelay PlayerRun CallSignal
begin

text \<open>
  A model of the two native daemons that run a wandr device, of the media engine of its
  players and of the engine of its calls.  The daemons are the arbiter
  (\<open>runtime/wandr-arbiter\<close>), which decides which app is visible, which surfaces are
  pushed which geometry, when the panel and the sensors are powered, who has the audio focus, and
  when alarms wake an app; and the connectivity daemon (\<open>runtime/wandr-net\<close> with its
  library \<open>runtime/wandr-hal-net\<close>), which keeps the device on a Wi-Fi network.  The media
  engine (\<open>crates/wandr-media-engine\<close>) reads a film or a track over HTTP, demuxes it
  ahead of the clock and feeds the decoder, the surface and the audio device.  The call engine
  (\<open>crates/wandr-call\<close>) connects two devices for audio and video.

  \<^bold>\<open>How the program works.\<close>  Clients send one line, \<open>verb args\<close>.  The
  registry finds the module that owns the verb and runs its \<open>on_command\<close> on a
  \<open>Ctx\<close>: the shared \<open>Store\<close>, and two out-boxes for events and effects.  The
  events are then fanned to every module's \<open>on_event\<close> in registration order, those
  they emit in turn again, until no event is left or sixteen batches have run (none is left after
  five).  The effects are
  returned to the daemon, which executes them after the cascade.  Modules never call each
  other: they share the store and the events.

  The connectivity daemon asks the arbiter which saved network to join, starts a supplicant,
  associates, gets an address over DHCP and has netd and the DNS resolver take it; what only the
  user \<open>system\<close> may do, it does by starting itself again through \<open>su\<close>.  Its
  monitor thread watches the carrier, brings the link up again and reports the status to the
  arbiter; its control thread answers the arbiter's relayed Wi-Fi commands, and a third thread
  sweeps for access points.

  A player app calls the engine once a frame (\<open>pump_stream\<close>) and, more slowly, from its
  background tick (\<open>do_seek\<close>, \<open>fill_queues\<close>, \<open>decode_audio\<close>).  A tick
  reads packets from a demuxer, whose bytes come through the window cache of a range reader or from the
  segments of a DASH stream, into two queues, and decodes audio into PCM at the rate of the device.
  A frame reads the clock (the audio device when there is sound, the time since the first picture otherwise),
  writes PCM, submits access units and schedules the decoded pictures.

  A call (\<open>SignalCall\<close>) turns signals (offer, answer, candidates, hanging up) into a session
  and back.  The session owns a transport, which sorts datagrams into ICE, DTLS, TURN and media and agrees
  on keys, over DTLS or from the Diffie-Hellman keys that offer and answer carry; and, once there are keys, a media session: Opus
  audio, the VP8 track and the control channel, all RTP over one SRTP context.  The app feeds it datagrams and
  time, and polls datagrams and signals.

  \<^bold>\<open>The theories\<close>, in the order of the code they model:
  \<^item> \<open>Prelude\<close>, \<open>Wire\<close>, \<open>Floats\<close>: the part of Rust's standard library
    the arbiter uses (strings as UTF-8 bytes, tokens, integers, percent encoding, IEEE floats as
    exact rationals rounded to nearest even).
  \<^item> \<open>Core\<close> (\<open>core/src/lib.rs\<close>): events, effects, replies, geometry, the store.
    \<open>Surfaces\<close> (\<open>surface.rs\<close>): the surface stack of a display and what is derived
    from it.  \<open>StoreOps\<close> (\<open>registry.rs\<close>, \<open>alarm.rs\<close>,
    \<open>notify.rs\<close>): the arbiter-global slices.  \<open>Persist\<close> (\<open>registry.rs\<close>):
    the registry's JSON file.
  \<^item> \<open>Bus\<close> (\<open>core/src/lib.rs\<close>): the module trait, registration, dispatch and the
    cascade, with the contract of modules as two locales.
  \<^item> One theory for each module: \<open>Wm\<close>, \<open>Shell\<close> with \<open>ShellSplit\<close>,
    \<open>AlarmMod\<close>, \<open>NotifyMod\<close>, \<open>PowerMod\<close>, \<open>Keyguard\<close>,
    \<open>Audio\<close>, \<open>Sensors\<close>, \<open>Net\<close>, \<open>EventsMod\<close>,
    \<open>MediaSession\<close>.
  \<^item> \<open>Arbiter\<close> (\<open>bin/src/main.rs\<close>): the registry the daemon builds, and each module against the
    contract of the bus.  \<open>Composition\<close>: ranks of events, boot, the two dispatch operations,
    and runs in which two modules meet.
  \<^item> \<open>SensorDriver\<close> (\<open>bin/src/sensor_driver.rs\<close>): the sensor map, the worker that
    switches sensors and the count that gates its poll loop.
  \<^item> \<open>Daemon\<close> (\<open>bin/src/main.rs\<close>, \<open>state.rs\<close>,
    \<open>zygote_client.rs\<close>): the process around the registry.  It answers clients, executes
    effects, launches apps, keeps a home app in front, times the power key and cleans up after
    deaths; each handler that runs under \<open>arbiter_lock\<close> is one definition.
  \<^item> \<open>DaemonSafe\<close>, \<open>DaemonRun\<close>: the daemon as a state machine whose steps are
    these handlers in any order; no step panics, every effect list comes to its end, and the
    invariant of its states.
    \<open>DaemonFront\<close>, \<open>DaemonHome\<close>: what stays in front through dispatch, effects
    and reconciliation, and so what \<open>launch\<close> and the home fallback promise.
    \<open>DaemonKeys\<close>: the state file, the windows sent to the dispatcher, and the power key.
  \<^item> \<open>Dhcp\<close> (\<open>hal-net/src/dhcp.rs\<close>): packets, the reader of a reply, the
    exchange.  \<open>WifiScan\<close> (\<open>wificond_scan.rs\<close>): scan results and their
    security.  \<open>HalNet\<close> (\<open>lib.rs\<close>, \<open>netd.rs\<close>): addresses, the
    framework's saved networks, the calls to netd and the resolver.
  \<^item> \<open>NetWire\<close>, \<open>NetChild\<close>, \<open>NetDaemon\<close>
    (\<open>wandr-net/src/main.rs\<close>): the texts exchanged with the arbiter; command lines,
    modes and the child that configures netd; bring-up, control server and monitor as the steps of
    threads (\<open>mon_step\<close>, \<open>ctl_step\<close>), a report being two of them, one for each
    connection.  \<open>NetRun\<close>: what holds of every interleaving of these steps.
    \<open>NetRelay\<close>: a command that goes through both daemons.
  \<^item> \<open>HttpRange\<close> (\<open>media-engine/src/net.rs\<close>, \<open>httprange.rs\<close>):
    range requests, the window cache, reads, seeks and prefetching.  \<open>MediaSeg\<close>
    (\<open>lib.rs\<close>): the segment stream.  \<open>AnnexB\<close> (\<open>streaming.rs\<close>,
    \<open>mkv.rs\<close>): access units and configuration records.  \<open>Pcm\<close>
    (\<open>lib.rs\<close>): down-mixing and resampling.
  \<^item> \<open>Player\<close> (\<open>lib.rs\<close>): the player, demuxing ahead, decoding audio, seeking
    and the pump, and the engine's part of a background tick.  \<open>PlayerStep\<close>: what each of them
    changes.  \<open>PlayerRun\<close>: what holds of every interleaving of frames and ticks.
  \<^item> \<open>CallVideo\<close> (\<open>wandr-call/src/video.rs\<close>): frames to packets and back.
    \<open>CallTwcc\<close> (\<open>twcc.rs\<close>): congestion feedback.  \<open>CallMedia\<close>
    (\<open>media.rs\<close>): the media session.  \<open>CallTransport\<close>
    (\<open>transport.rs\<close>): datagrams, relay and keys, and where keys come from in every run.
    \<open>CallSession\<close> (\<open>session.rs\<close>): transport and media together, RTCP, and the sessions in use as
    runs of operations.  \<open>CallSignal\<close> (\<open>signal/mod.rs\<close>,
    \<open>signal/call.rs\<close>): the blobs of the signals and the life of a call; constructors of its
    states carry the prefix \<open>Call\<close> or \<open>Sig\<close>.

  \<^bold>\<open>What the lemmas show.\<close>  Each module keeps its invariant under all its verbs and
  events.  The contracts of \<open>Bus\<close> (\<open>module_contract\<close>,
  \<open>ranked_modules\<close>) lift a property of one reaction to a whole cascade; they are
  interpreted on the arbiter's modules for safety (\<open>arb\<close>), termination
  (\<open>cascade\<close>), a process that is gone (\<open>gone\<close>), effects (\<open>calm\<close>), the app in
  front (\<open>front\<close>) and the home app (\<open>homely\<close>, both through \<open>inert_contract\<close>).  \<open>bookkeeping\<close> does the same for the daemon's own fields.  The DHCP reader is
  proved to implement the option list of the protocol, the exchange to end with a lease only on an
  ACK that carries the transaction id of the exchange; texts that cross a process boundary are read as they were written
  (registry to daemon, daemon to arbiter, daemon to child, framework's file); and a link that is
  up is traced to the calls that configured it.  Of the engine: a read returns the bytes of the
  file and a segment stream the packets of its segments, whatever was fetched ahead and when and
  whichever requests fail; a pause does not show in the clock; pictures are scheduled by the clock; queues, and what the decoder holds since
  its last reset, stay within their caps (\<open>playback_invariant\<close>, interpreted three times).  Of calls: both sides have the same keys
  and DTLS keys are those of the announced certificate (an invariant of all transport steps,
  \<open>secured\<close>); signals go out in order (a law of all moves of a call, \<open>run_moves\<close>); a
  frame that comes out is one that was sent, feedback reports what came in, and requests for key frames are
  paced.  Some properties are about runs that go wrong;
  they are proved of the code as it is.

  \<^bold>\<open>State and operations.\<close>  A Rust struct is a record, an enum a datatype, a handler
  a function from its arguments, the module's state and the \<open>Ctx\<close> to the reply and the
  new ones.  A handler that can panic returns an option.  Replies, wire lines and error texts are
  the code's.  \<open>u32\<close> and \<open>u64\<close> are words and wrap as a release build does.  A hash
  map is an association list with distinct keys; no property depends on its order.  Log lines are
  left out.  Clocks are fields of \<open>Ctx\<close>.

  The outside of the process is the record \<open>World\<close>: clocks, files, environment, sockets,
  \<open>kill(pid, 0)\<close>, the vendor services and the zygote are functions of the number of the
  call, so that the same question may be answered differently each time.  What the daemon does to
  the world is a log of actions.  \<open>fresh_forks\<close> and \<open>clean_boot\<close> state what is
  expected of the kernel: a launch is not answered with a pid the daemon still lists (pids of
  processes that are gone may come back), and the restored apps that still run are distinct processes.
  \<open>chrome_fresh\<close> is expected of clients: chrome is not registered under the pid of another
  listed app.  \<open>shell_ok\<close>, the invariant of the surfaces, is a premise where it is used, since
  \<open>kill\<close>, \<open>task-kill\<close> and a second \<open>overlay\<close> during a keyboard split break it.
  Saving the state file may fail at the write or at the rename, and a push to the dispatcher or a line
  to the arbiter may not arrive; each is in the log with its outcome.
  The connectivity daemon has a \<open>NetWorld\<close> of the same kind.  The shell behind
  \<open>su\<close> is a function from command lines to words with the POSIX rule for quoting
  (\<open>posix_shell\<close>, which \<open>sh_run\<close> has); \<open>runs_netd_child\<close> says that
  \<open>su\<close> reports the exit code of the child, and \<open>clock_runs\<close> that time passes.
  All these answers are total functions: a question that is never answered is not in the model.

  Of the media engine, \<open>Origin\<close> and \<open>MediaNet\<close> are the servers,
  \<open>Demuxers\<close> the MP4 demuxer, and \<open>MediaWorld\<close> the other demuxers, the codecs and
  the device, all with numbered questions; what is done to the device, the decoder and the surface is the log
  \<open>acts\<close>.  Tasks that run between the calls of the engine (a completed prefetch) are steps of
  their own.

  Of the call engine, \<open>Rtc\<close> and \<open>Engine\<close> are what it uses of the RTP, SRTP and RTCP crates
  and of Opus, \<open>Net\<close> is ICE, DTLS, TURN, X25519, HKDF and SHA-256, and \<open>Protos\<close> the protobuf code
  that is derived.  \<open>opened_by\<close> says that SRTP opens what it sealed, \<open>fragments_of\<close> that the
  VP8 payload format gives back what it cut; that both sides compute the same shared secret and that the blobs in question decode
  to what was encoded are hypotheses of \<open>call_keys_agree\<close>.  The state of these parts is a type
  variable.  The engine is the one built with \<open>signal\<close> and without \<open>host-aead\<close>.

  \<^bold>\<open>What is not modelled.\<close>  Of the daemon: the command-line client, the crash marker,
  thread start-up and reconnection, a client that connects and sends nothing, a socket, file or
  service that blocks for ever, log lines.  Of the
  connectivity daemon: the binder clients of the chip, the supplicant and the scanner, the options of
  the DHCP socket, printed lines.  Of the media engine: opening a stream and probing its codecs,
  subtitles, the transport overlay, switching tracks and representations, and the table parser of
  \<open>streaming.rs\<close> and the EBML demuxer of \<open>mkv.rs\<close>, which the player does not use.
  Of the call engine: the SDP text, the construction of ICE, DTLS and TURN agents, diagnostics.
  User-interface toolkits and apps of the repository.  \<open>f32::log10\<close> is a parameter, since its
  rounding is left to the platform.

  \<^bold>\<open>Bounds.\<close>  The cascade runs on the code's own cap, sixteen batches, of which five are
  enough (\<open>cascade_settles\<close>).  The executor of effects, which is recursive through
  \<open>Effect::Foreground\<close>, is a \<open>partial_function (option)\<close>; that it returns is proved.  So is
  \<open>wait_carrier\<close>, which returns when the clock runs (\<open>wait_carrier_ends\<close>).  The
  DHCP exchange has the code's own bounds, four attempts of four reads for each reply.  The loops of
  the media engine that ask a demuxer or a decoder again (\<open>fill_loop\<close>,
  \<open>present_loop\<close>) and \<open>resample_loop\<close> are of the same kind; a pump returns when the decoder runs out of
  frames (\<open>pump_returns\<close>), a block is always resampled (\<open>process_returns\<close>), where every
  read of a sample is an option and one out of range would be a panic.  Times that are multiplied are
  taken modulo \<open>2 ^ 64\<close> where a frame is scheduled (\<open>show_frame\<close>).
\<close>

end
